(* ===== verification/Prelude.thy ===== *)
theory Prelude
  imports Main "HOL-Library.Char_ord" "HOL-Library.List_Lexorder" "HOL-Library.Word"
begin

text \<open>
  Shared vocabulary of the development: the pieces of JavaScript that the modelled
  TypeScript uses everywhere (string trimming, truthiness of optional strings,
  insertion-ordered sets, 32-bit coercion, stable sorting), the combinators in which
  every validator is written, and the generic list lemmas the component proofs share.

  A validator of the source is a sequence of guards, each of which returns an error
  object.  It is modelled as a value of type \<open>'e option\<close>: \<open>None\<close> is the source's
  \<open>ok: true\<close>, \<open>Some e\<close> the first error in source order.  \<open>first_some\<close> composes guards,
  \<open>must\<close> is one guard, \<open>first_error\<close> is a loop whose body returns on the first error.
\<close>

named_theorems check_simps \<open>rewriting a validator that reports no error into the facts it has checked\<close>

type_synonym ident = string

section \<open>Guards\<close>

definition must :: "bool \<Rightarrow> 'e \<Rightarrow> 'e option" where
  "must ok e = (if ok then None else Some e)"

fun first_some :: "'e option list \<Rightarrow> 'e option" where
  "first_some [] = None"
| "first_some (x # xs) = (case x of None \<Rightarrow> first_some xs | Some e \<Rightarrow> Some e)"

fun first_error :: "('a \<Rightarrow> 'e option) \<Rightarrow> 'a list \<Rightarrow> 'e option" where
  "first_error f [] = None"
| "first_error f (x # xs) = (case f x of None \<Rightarrow> first_error f xs | Some e \<Rightarrow> Some e)"

text \<open>A loop that also refuses the second occurrence of a key: \<open>seen\<close> is the source's
  local \<open>Set\<close>, \<open>dup\<close> the error for a repeated key, tested before the body.\<close>

fun first_error_distinct ::
  "('a \<Rightarrow> 'k) \<Rightarrow> ('a \<Rightarrow> 'e) \<Rightarrow> ('a \<Rightarrow> 'e option) \<Rightarrow> 'k list \<Rightarrow> 'a list \<Rightarrow> 'e option" where
  "first_error_distinct key dup body seen [] = None"
| "first_error_distinct key dup body seen (x # xs) =
     (if key x \<in> set seen then Some (dup x)
      else case body x of
        Some e \<Rightarrow> Some e
      | None \<Rightarrow> first_error_distinct key dup body (key x # seen) xs)"

lemma must_None [check_simps, simp]: "must b e = None \<longleftrightarrow> b"
  by (simp add: must_def)

lemma must_Some [simp]: "must b e = Some e' \<longleftrightarrow> \<not> b \<and> e' = e"
  by (auto simp: must_def)

lemma first_some_Cons_None [check_simps]:
  "first_some [] = None \<longleftrightarrow> True"
  "first_some (x # xs) = None \<longleftrightarrow> x = None \<and> first_some xs = None"
  by (simp_all split: option.splits)

lemma first_some_Some_mem: "first_some xs = Some e \<Longrightarrow> Some e \<in> set xs"
  by (induction xs) (auto split: option.splits)

declare first_some.simps [simp del]

lemma first_error_None [check_simps]: "first_error f xs = None \<longleftrightarrow> (\<forall>x \<in> set xs. f x = None)"
  by (induction xs) (auto split: option.splits)

lemma first_error_Some_mem: "first_error f xs = Some e \<Longrightarrow> \<exists>x \<in> set xs. f x = Some e"
  by (induction xs) (auto split: option.splits)

lemma first_error_distinct_None_seen:
  "first_error_distinct key dup body seen xs = None \<longleftrightarrow>
     distinct (map key xs) \<and> set seen \<inter> key ` set xs = {} \<and> (\<forall>x \<in> set xs. body x = None)"
  by (induction xs arbitrary: seen) (auto split: option.splits)

lemma first_error_distinct_None [check_simps]:
  "first_error_distinct key dup body [] xs = None \<longleftrightarrow>
     distinct (map key xs) \<and> (\<forall>x \<in> set xs. body x = None)"
  by (simp add: first_error_distinct_None_seen)

declare first_error.simps [simp del] first_error_distinct.simps [simp del]

section \<open>Strings\<close>

text \<open>A string is a sequence of UTF-16 code units; \<open>char\<close> covers the units up to 255,
  which hold every white space character that is not one of the exotic Unicode spaces.\<close>

definition js_ws :: "char \<Rightarrow> bool" where
  "js_ws c \<longleftrightarrow> of_char c \<in> {9, 10, 11, 12, 13, 32, 160 :: nat}"

definition js_trim :: "string \<Rightarrow> string" where
  "js_trim s = rev (dropWhile js_ws (rev (dropWhile js_ws s)))"

definition js_blank :: "string \<Rightarrow> bool" where
  "js_blank s \<longleftrightarrow> js_trim s = []"

text \<open>\<open>!x\<close> for an optional string: \<open>undefined\<close> and the empty string are falsy.\<close>

definition js_falsy :: "string option \<Rightarrow> bool" where
  "js_falsy x \<longleftrightarrow> x = None \<or> x = Some []"

lemma js_blank_Nil [simp]: "js_blank []"
  by (simp add: js_blank_def js_trim_def)

lemma js_blank_iff: "js_blank s \<longleftrightarrow> (\<forall>c \<in> set s. js_ws c)"
proof -
  have "js_blank s \<longleftrightarrow> (\<forall>c \<in> set (dropWhile js_ws s). js_ws c)"
    by (simp add: js_blank_def js_trim_def)
  also have "\<dots> \<longleftrightarrow> (\<forall>c \<in> set s. js_ws c)"
    by (induction s) auto
  finally show ?thesis .
qed

text \<open>\<open>xs.join(sep)\<close>\<close>

fun join_with :: "string \<Rightarrow> string list \<Rightarrow> string" where
  "join_with sep [] = []"
| "join_with sep [x] = x"
| "join_with sep (x # xs) = x @ sep @ join_with sep xs"

section \<open>Insertion-ordered collections\<close>

text \<open>\<open>Map.set\<close> keeps the position of an existing key; the entries of a \<open>Map\<close> are an
  association list.\<close>

fun assoc_set :: "'k \<Rightarrow> 'v \<Rightarrow> ('k \<times> 'v) list \<Rightarrow> ('k \<times> 'v) list" where
  "assoc_set k v [] = [(k, v)]"
| "assoc_set k v ((k', v') # m) = (if k' = k then (k, v) # m else (k', v') # assoc_set k v m)"

lemma map_of_assoc_set [simp]: "map_of (assoc_set k v m) = (map_of m)(k \<mapsto> v)"
  by (induction m) (auto simp: fun_eq_iff)

lemma keys_assoc_set:
  "map fst (assoc_set k v m) = (if k \<in> fst ` set m then map fst m else map fst m @ [k])"
  by (induction m) (auto simp: rev_image_eqI)

text \<open>\<open>new Set(xs)\<close>, in insertion order: the first occurrence of each element.\<close>

definition js_set :: "'a list \<Rightarrow> 'a list" where
  "js_set xs = rev (remdups (rev xs))"

lemma set_js_set [simp]: "set (js_set xs) = set xs"
  by (simp add: js_set_def)

lemma distinct_js_set [simp]: "distinct (js_set xs)"
  by (simp add: js_set_def)

lemma js_set_id: "distinct xs \<Longrightarrow> js_set xs = xs"
  by (simp add: js_set_def distinct_remdups_id)

section \<open>Numbers\<close>

text \<open>\<open>x | 0\<close>: coercion to a signed 32-bit integer.\<close>

definition to_int32 :: "int \<Rightarrow> int" where
  "to_int32 x = sint (word_of_int x :: 32 word)"

definition safe_integer :: "int \<Rightarrow> bool" where
  "safe_integer n \<longleftrightarrow> \<bar>n\<bar> \<le> 9007199254740991"

lemma to_int32_id: "- 2147483648 \<le> x \<Longrightarrow> x \<le> 2147483647 \<Longrightarrow> to_int32 x = x"
  by (simp add: to_int32_def int_word_sint)

section \<open>Looking things up\<close>

lemma find_Some_iff_mem: "List.find P xs = Some x \<Longrightarrow> x \<in> set xs \<and> P x"
  by (induction xs) (auto split: if_splits)

lemma find_append: "List.find P (xs @ ys) =
    (case List.find P xs of None \<Rightarrow> List.find P ys | Some x \<Rightarrow> Some x)"
  by (induction xs) auto

lemma find_append_new: "\<not> P y \<Longrightarrow> List.find P (xs @ [y]) = List.find P xs"
  by (induction xs) auto

lemma find_distinct_key:
  "distinct (map key xs) \<Longrightarrow> x \<in> set xs \<Longrightarrow> List.find (\<lambda>y. key y = key x) xs = Some x"
  by (induction xs) (auto simp: image_iff)

lemma find_distinct_eq:
  assumes "distinct (map key xs)" and "x \<in> set xs" and "key x = k"
  shows "List.find (\<lambda>y. key y = k) xs = Some x"
  using find_distinct_key [of key xs x] assms by simp

lemma find_cong_set:
  "(\<And>x. x \<in> set xs \<Longrightarrow> P x = Q x) \<Longrightarrow> List.find P xs = List.find Q xs"
  by (induction xs) auto

lemma find_eq_None: "List.find P xs = None \<longleftrightarrow> (\<forall>x \<in> set xs. \<not> P x)"
  by (auto simp: find_None_iff)

lemma list_ex_key [simp]: "list_ex (\<lambda>x. f x = k) xs \<longleftrightarrow> k \<in> f ` set xs"
  by (auto simp: list_ex_iff)

section \<open>Stable sorting\<close>

lemma insort_key_max:
  "(\<And>y. y \<in> set xs \<Longrightarrow> f y < f x) \<Longrightarrow> insort_key f x xs = xs @ [x]"
  by (induction xs) fastforce+

lemma insort_key_below_last:
  "f y < f x \<Longrightarrow> insort_key f y (zs @ [x]) = insort_key f y zs @ [x]"
  by (induction zs) auto

lemma sort_key_max_last:
  fixes f :: "'a \<Rightarrow> 'k :: linorder"
  assumes "\<And>y. y \<in> set (xs @ ys) \<Longrightarrow> f y < f x"
  shows "sort_key f (xs @ x # ys) = sort_key f (xs @ ys) @ [x]"
  using assms
proof (induction xs)
  case Nil
  then have "insort_key f x (sort_key f ys) = sort_key f ys @ [x]"
    by (intro insort_key_max) simp
  then show ?case by simp
next
  case (Cons z zs)
  then show ?case by (simp add: insort_key_below_last)
qed

section \<open>Runs of fallible operations\<close>

text \<open>A list of requests applied one after the other, stopping at the first refusal.\<close>

fun run_all :: "('r \<Rightarrow> 's \<Rightarrow> 'err + 's) \<Rightarrow> 's \<Rightarrow> 'r list \<Rightarrow> 'err + 's" where
  "run_all exec s [] = Inr s"
| "run_all exec s (r # rs) =
     (case exec r s of Inl e \<Rightarrow> Inl e | Inr t \<Rightarrow> run_all exec t rs)"

lemma run_all_append: "run_all exec s (xs @ ys) =
    (case run_all exec s xs of Inl e \<Rightarrow> Inl e | Inr t \<Rightarrow> run_all exec t ys)"
  by (induction xs arbitrary: s) (auto split: sum.splits)

lemma run_all_cong:
  "(\<And>r s. r \<in> set rs \<Longrightarrow> f r s = g r s) \<Longrightarrow> run_all f s rs = run_all g s rs"
  by (induction rs arbitrary: s) (auto split: sum.splits)

lemma run_all_invariant:
  assumes "run_all exec s rs = Inr t" and "P s"
    and "\<And>r s t. exec r s = Inr t \<Longrightarrow> P s \<Longrightarrow> P t"
  shows "P t"
  using assms by (induction rs arbitrary: s) (auto split: sum.splits)

end
