(* ===== verification/Json_Values.thy ===== *)
theory Json_Values
  imports Prelude "HOL-Library.Multiset"
begin

text \<open>
  JSON values as JavaScript holds them, and the deterministic serializer of
  \<open>long-horizon/canonical-json.ts\<close>.  A number is an integer, a finite non-integer (given
  by the decimal text \<open>Number.prototype.toString\<close> prints for it) or one of the non-finite
  values; integers are printed in plain decimal, which is what JavaScript does below
  \<open>10^21\<close>.  \<open>JUndefined\<close> is the value of an object member that is present but undefined.
  A \<open>throw\<close> of the serializer is \<open>None\<close>.
\<close>

datatype js_number = IntNum int | FracNum string | NonFinite

datatype json =
    JUndefined
  | JNull
  | JBool bool
  | JNum js_number
  | JStr string
  | JArr "json list"
  | JObj "(string \<times> json) list"

definition json_field :: "(string \<times> json) list \<Rightarrow> string \<Rightarrow> json" where
  "json_field ms k = (case map_of ms k of None \<Rightarrow> JUndefined | Some v \<Rightarrow> v)"

section \<open>Printing\<close>

definition digit_char :: "nat \<Rightarrow> char" where
  "digit_char n = char_of (48 + n)"

fun nat_text :: "nat \<Rightarrow> string" where
  "nat_text n = (if n < 10 then [digit_char n] else nat_text (n div 10) @ [digit_char (n mod 10)])"

declare nat_text.simps [simp del]

definition int_text :: "int \<Rightarrow> string" where
  "int_text n = (if n < 0 then CHR ''-'' # nat_text (nat (- n)) else nat_text (nat n))"

definition hex_char :: "nat \<Rightarrow> char" where
  "hex_char n = (if n < 10 then char_of (48 + n) else char_of (87 + n))"

text \<open>The escapes \<open>JSON.stringify\<close> writes inside a string.\<close>

definition escape_char :: "char \<Rightarrow> string" where
  "escape_char c =
     (let n = of_char c :: nat in
      if n = 34 then [char_of (92::nat), char_of (34::nat)]
      else if n = 92 then [char_of (92::nat), char_of (92::nat)]
      else if n = 8 then char_of (92::nat) # ''b''
      else if n = 9 then char_of (92::nat) # ''t''
      else if n = 10 then char_of (92::nat) # ''n''
      else if n = 12 then char_of (92::nat) # ''f''
      else if n = 13 then char_of (92::nat) # ''r''
      else if n < 32 then char_of (92::nat) # ''u00'' @ [hex_char (n div 16), hex_char (n mod 16)]
      else [c])"

definition serializeString :: "string \<Rightarrow> string" where
  "serializeString s = char_of (34::nat) # concat (map escape_char s) @ [char_of (34::nat)]"

fun serializeNumber :: "js_number \<Rightarrow> string option" where
  "serializeNumber (IntNum n) = Some (int_text n)"
| "serializeNumber (FracNum s) = Some s"
| "serializeNumber NonFinite = None"

fun join_comma :: "string list \<Rightarrow> string" where
  "join_comma [] = []"
| "join_comma [x] = x"
| "join_comma (x # xs) = x @ '','' @ join_comma xs"

text \<open>\<open>serializeObject\<close> sorts the keys by code unit before it prints the members; here the
  members are printed first and the printed pairs are sorted, which yields the same text
  and throws on the same values.\<close>

fun serializeValue :: "json \<Rightarrow> string option"
  and serializeItems :: "json list \<Rightarrow> string list option"
  and serializeMembers :: "(string \<times> json) list \<Rightarrow> (string \<times> string) list option" where
  "serializeValue JUndefined = None"
| "serializeValue JNull = Some ''null''"
| "serializeValue (JBool b) = Some (if b then ''true'' else ''false'')"
| "serializeValue (JNum n) = serializeNumber n"
| "serializeValue (JStr s) = Some (serializeString s)"
| "serializeValue (JArr xs) =
     map_option (\<lambda>ts. ''['' @ join_comma ts @ '']'') (serializeItems xs)"
| "serializeValue (JObj ms) =
     map_option (\<lambda>ps. ''{'' @ join_comma (map (\<lambda>(k, t). serializeString k @ '':'' @ t) (sort_key fst ps)) @ ''}'')
       (serializeMembers ms)"
| "serializeItems [] = Some []"
| "serializeItems (x # xs) =
     (case serializeValue x of None \<Rightarrow> None
      | Some t \<Rightarrow> map_option (\<lambda>ts. t # ts) (serializeItems xs))"
| "serializeMembers [] = Some []"
| "serializeMembers ((k, v) # ms) =
     (case serializeValue v of None \<Rightarrow> None
      | Some t \<Rightarrow> map_option (\<lambda>ps. (k, t) # ps) (serializeMembers ms))"

definition toCanonicalJson :: "json \<Rightarrow> string option" where
  "toCanonicalJson v = serializeValue v"

section \<open>Reading a value of unknown shape\<close>

text \<open>\<open>x && typeof x === "object"\<close>: arrays are objects too; \<open>Object.keys\<close> of an array lists
  its indices.  A property of anything but an object is \<open>undefined\<close>.\<close>

definition is_object :: "json \<Rightarrow> bool" where
  "is_object v = (case v of JArr _ \<Rightarrow> True | JObj _ \<Rightarrow> True | _ \<Rightarrow> False)"

definition jget :: "json \<Rightarrow> string \<Rightarrow> json" where
  "jget v k = (case v of JObj ms \<Rightarrow> json_field ms k | _ \<Rightarrow> JUndefined)"

definition object_keys :: "json \<Rightarrow> string list" where
  "object_keys v = (case v of JObj ms \<Rightarrow> map fst ms
     | JArr xs \<Rightarrow> map (\<lambda>i. int_text (int i)) [0..<length xs] | _ \<Rightarrow> [])"

definition truthy :: "json \<Rightarrow> bool" where
  "truthy v = (case v of JUndefined \<Rightarrow> False | JNull \<Rightarrow> False | JBool b \<Rightarrow> b
     | JNum (IntNum n) \<Rightarrow> n \<noteq> 0 | JNum (FracNum _) \<Rightarrow> True | JNum NonFinite \<Rightarrow> False
     | JStr s \<Rightarrow> s \<noteq> [] | JArr _ \<Rightarrow> True | JObj _ \<Rightarrow> True)"

definition is_string :: "json \<Rightarrow> bool" where
  "is_string v = (case v of JStr _ \<Rightarrow> True | _ \<Rightarrow> False)"

text \<open>\<open>a === b\<close> on two values of one document: distinct objects are never identical.\<close>

definition js_same :: "json \<Rightarrow> json \<Rightarrow> bool" where
  "js_same a b \<longleftrightarrow> a = b \<and> \<not> is_object a \<and> a \<noteq> JNum NonFinite"

text \<open>\<open>String(v)\<close>, and the text of an element inside \<open>join\<close>.\<close>

fun js_text :: "json \<Rightarrow> string" where
  "js_text JUndefined = ''undefined''"
| "js_text JNull = ''null''"
| "js_text (JBool b) = (if b then ''true'' else ''false'')"
| "js_text (JNum (IntNum n)) = int_text n"
| "js_text (JNum (FracNum s)) = s"
| "js_text (JNum NonFinite) = ''NaN''"
| "js_text (JStr s) = s"
| "js_text (JArr xs) =
     join_comma (map (\<lambda>x. if x = JUndefined \<or> x = JNull then [] else js_text x) xs)"
| "js_text (JObj ms) = ''[object Object]''"

definition element_text :: "json \<Rightarrow> string" where
  "element_text v = (if v = JUndefined \<or> v = JNull then [] else js_text v)"

lemma is_object_simps [simp]:
  "is_object (JObj ms)" "is_object (JArr xs)" "\<not> is_object JUndefined" "\<not> is_object JNull"
  "\<not> is_object (JBool b)" "\<not> is_object (JNum n)" "\<not> is_object (JStr s)"
  by (simp_all add: is_object_def)

lemma truthy_simps [simp]:
  "truthy (JObj ms)" "truthy (JArr xs)" "\<not> truthy JUndefined" "\<not> truthy JNull"
  "truthy (JBool b) \<longleftrightarrow> b" "truthy (JStr s) \<longleftrightarrow> s \<noteq> []" "truthy (JNum (IntNum n)) \<longleftrightarrow> n \<noteq> 0"
  by (simp_all add: truthy_def)

lemma is_string_simps [simp]:
  "is_string (JStr s)" "\<not> is_string (JObj ms)" "\<not> is_string (JArr xs)" "\<not> is_string JUndefined"
  "\<not> is_string JNull" "\<not> is_string (JBool b)" "\<not> is_string (JNum n)"
  by (simp_all add: is_string_def)

lemma jget_simps [simp]:
  "jget (JObj ((k', v) # ms)) k = (if k = k' then v else jget (JObj ms) k)"
  "jget (JObj []) k = JUndefined" "jget (JArr xs) k = JUndefined"
  by (simp_all add: jget_def json_field_def)

lemma jget_append [simp]:
  "jget (JObj (ms @ ns)) k = (if k \<in> fst ` set ms then jget (JObj ms) k else jget (JObj ns) k)"
proof (induction ms)
  case (Cons m ms)
  then show ?case by (cases m) simp
qed simp

lemma js_same_JStr [simp]: "js_same (JStr a) (JStr b) \<longleftrightarrow> a = b" "js_same v (JStr b) \<longleftrightarrow> v = JStr b"
  "js_same (JStr a) v \<longleftrightarrow> v = JStr a"
  by (auto simp: js_same_def)

section \<open>Which values serialize\<close>

fun serializable :: "json \<Rightarrow> bool" where
  "serializable JUndefined = False"
| "serializable (JNum NonFinite) = False"
| "serializable (JArr xs) = (\<forall>x \<in> set xs. serializable x)"
| "serializable (JObj ms) = (\<forall>m \<in> set ms. serializable (snd m))"
| "serializable _ = True"

lemma serialize_defined:
  "serializeValue v \<noteq> None \<longleftrightarrow> serializable v"
  "serializeItems xs \<noteq> None \<longleftrightarrow> (\<forall>x \<in> set xs. serializable x)"
  "serializeMembers ms \<noteq> None \<longleftrightarrow> (\<forall>m \<in> set ms. serializable (snd m))"
proof (induction v and xs and ms rule: serializeValue_serializeItems_serializeMembers.induct)
  case (4 n)
  then show ?case by (cases n) simp_all
qed (auto split: option.splits)

section \<open>Member order does not matter\<close>

lemma serializeMembers_keys:
  "serializeMembers ms = Some ps \<Longrightarrow> map fst ps = map fst ms"
  by (induction ms arbitrary: ps) (auto split: option.splits)

lemma serializeMembers_eq:
  "serializeMembers ms = Some ps \<Longrightarrow> ps = map (\<lambda>(k, v). (k, the (serializeValue v))) ms"
  by (induction ms arbitrary: ps) (auto split: option.splits)

lemma sort_key_fst_unique:
  assumes "mset ps = mset qs" and "distinct (map fst ps)"
  shows "sort_key fst ps = sort_key fst qs"
proof -
  have m: "mset ps = mset (sort_key fst qs)"
    using assms(1) by simp
  have "inj_on fst (set ps)"
    using assms(2) by (simp add: distinct_map)
  then show ?thesis
    by (rule sort_key_inj_key_eq [OF m]) simp
qed

lemma serialize_member_order:
  assumes "mset ms = mset ns" and "distinct (map fst ms)"
  shows "serializeValue (JObj ms) = serializeValue (JObj ns)"
proof (cases "serializeMembers ms")
  case None
  then have "serializeMembers ns = None"
    using serialize_defined(3) [of ms] serialize_defined(3) [of ns] mset_eq_setD [OF assms(1)]
    by auto
  with None show ?thesis by simp
next
  case (Some ps)
  then obtain qs where qs: "serializeMembers ns = Some qs"
    using serialize_defined(3) [of ms] serialize_defined(3) [of ns] mset_eq_setD [OF assms(1)]
    by auto
  have "mset ps = mset qs"
    using serializeMembers_eq [OF Some] serializeMembers_eq [OF qs] assms(1) by simp
  moreover have "distinct (map fst ps)"
    using serializeMembers_keys [OF Some] assms(2) by simp
  ultimately have "sort_key fst ps = sort_key fst qs"
    by (rule sort_key_fst_unique)
  with Some qs show ?thesis by simp
qed

end
