(* ===== verification/Contract_Model.thy ===== *)
theory Contract_Model
  imports Json_Values
begin

text \<open>
  The domain model of the long-horizon subsystem (\<open>long-horizon/types.ts\<close>,
  \<open>long-horizon/domain-types.ts\<close>): the Mission Contract and the Requirement Ledger, as
  the source declares them.  A closed union of string literals is a datatype whose
  constructors carry the literals' names; an optional field is an option.
  Free-form \<open>metadata\<close> is a JSON value that no operation reads.
\<close>

section \<open>Closed unions\<close>

datatype requirement_status =
    Rq_UNASSESSED | Rq_PENDING | Rq_IN_PROGRESS | Rq_IMPLEMENTED_UNVERIFIED
  | Rq_SATISFIED | Rq_BLOCKED | Rq_NOT_APPLICABLE | Rq_FAILED

datatype authority =
    Agent_Claim | Repository_Observation | Command_Result | Test_Result
  | Runtime_Observation | Operator_Confirmation | Trusted_Collector

text \<open>The authority hierarchy, lowest to highest, as the table the source writes out.\<close>

fun authority_rank :: "authority \<Rightarrow> nat" where
  "authority_rank Agent_Claim = 0"
| "authority_rank Repository_Observation = 1"
| "authority_rank Command_Result = 2"
| "authority_rank Test_Result = 3"
| "authority_rank Runtime_Observation = 4"
| "authority_rank Operator_Confirmation = 5"
| "authority_rank Trusted_Collector = 6"

lemma authority_rank_inj [simp]: "authority_rank a = authority_rank b \<longleftrightarrow> a = b"
  by (cases a; cases b) simp_all

instantiation authority :: linorder
begin

definition less_eq_authority :: "authority \<Rightarrow> authority \<Rightarrow> bool" where
  "less_eq_authority a b \<longleftrightarrow> authority_rank a \<le> authority_rank b"

definition less_authority :: "authority \<Rightarrow> authority \<Rightarrow> bool" where
  "less_authority a b \<longleftrightarrow> authority_rank a < authority_rank b"

instance
  by standard (auto simp: less_eq_authority_def less_authority_def)

end

lemma authority_bot [simp]: "Agent_Claim \<le> a"
  by (simp add: less_eq_authority_def)

lemma authority_top [simp]: "a \<le> Trusted_Collector"
  by (cases a) (simp_all add: less_eq_authority_def)

datatype requirement_kind = Explicit | Inferred

datatype applicability = Applicable | Not_Applicable

datatype evidence_status = Ev_Pass | Ev_Fail | Ev_Unknown

section \<open>Mission Contract\<close>

record mission_workstream =
  ws_id :: ident
  ws_title :: string
  ws_description :: "string option"
  ws_parentId :: "ident option"
  ws_order :: "int option"

record evidence_requirement =
  er_allowedTypes :: "string list option"
  er_minAuthority :: "authority option"
  er_requiredCollectorClass :: "string option"
  er_minPassingStatus :: bool \<comment> \<open>present, hence \<open>"pass"\<close>\<close>

record acceptance_criterion =
  ac_id :: ident
  ac_statement :: string
  ac_requiredEvidence :: "evidence_requirement list"

record mission_requirement =
  mr_id :: ident
  mr_workstreamId :: ident
  mr_kind :: requirement_kind
  mr_statement :: string
  mr_rationale :: "string option"
  mr_sourceRefs :: "string list"
  mr_dependencies :: "ident list"
  mr_acceptanceCriteria :: "acceptance_criterion list"
  mr_initialApplicability :: "applicability option"

datatype constraint_kind =
    Con_REQUIRED | Con_LIMIT | Con_ENVIRONMENT | Con_PROCESS | Con_SECURITY | Con_COMPATIBILITY

datatype severity = Sev_error | Sev_warning

record mission_constraint =
  con_id :: ident
  con_kind :: constraint_kind
  con_statement :: string
  con_sourceRefs :: "string list"
  con_severity :: severity

record forbidden_action =
  fa_id :: ident
  fa_statement :: string
  fa_sourceRefs :: "string list"
  fa_severity :: severity
  fa_matchHint :: "string option"

record evidence_policy_rule =
  pr_id :: ident
  pr_description :: string
  pr_allowedTypes :: "string list option"
  pr_minAuthority :: "authority option"
  pr_requiredCollectorClass :: "string option"

record mission_evidence_policy =
  ep_authoritativeSources :: "authority list"
  ep_rules :: "evidence_policy_rule list option"

record mission_contract =
  mc_contractVersion :: int
  mc_missionId :: ident
  mc_revision :: int
  mc_title :: string
  mc_objective :: string
  mc_workstreams :: "mission_workstream list"
  mc_requirements :: "mission_requirement list"
  mc_constraints :: "mission_constraint list"
  mc_forbiddenActions :: "forbidden_action list"
  mc_evidencePolicy :: mission_evidence_policy
  mc_metadata :: "json option"

section \<open>Requirement Ledger\<close>

record ledger_entry =
  le_requirementId :: ident
  le_status :: requirement_status
  le_workstreamId :: ident
  le_initialNotApplicable :: bool
  le_notApplicableRationale :: "string option"
  le_latestRegressionRevision :: "int option"

text \<open>Verified provenance is stored as plain strings: a ledger that arrives from disk may
  carry any text there, and the validators compare it with the trusted registry.\<close>

record evidence_record =
  ev_id :: ident
  ev_type :: string
  ev_requirementIds :: "ident list"
  ev_criterionIds :: "ident list"
  ev_reportedCollectorType :: string
  ev_reportedAuthority :: bool
  ev_effectiveAuthority :: authority
  ev_verifiedPrincipalId :: string
  ev_verifiedPrincipalKind :: string
  ev_verifiedCapability :: "string option"
  ev_status :: evidence_status
  ev_source :: string
  ev_summary :: string
  ev_digest :: "string option"
  ev_claimText :: "string option"
  ev_addedAtRevision :: int
  ev_metadata :: "json option"

record requirement_transition =
  tx_id :: ident
  tx_revisionBefore :: int
  tx_revisionAfter :: int
  tx_requirementId :: ident
  tx_fromStatus :: requirement_status
  tx_toStatus :: requirement_status
  tx_reportedActorType :: string
  tx_reportedActorId :: "string option"
  tx_verifiedPrincipalId :: string
  tx_verifiedPrincipalKind :: string
  tx_verifiedCapability :: "string option"
  tx_reason :: string
  tx_evidenceIds :: "ident list"
  tx_blockerReference :: "string option"
  tx_metadata :: "json option"

record requirement_ledger =
  rl_ledgerVersion :: int
  rl_missionId :: ident
  rl_contractVersion :: int
  rl_contractRevision :: int
  rl_contractDigest :: string
  rl_revision :: int
  rl_requirements :: "ledger_entry list"
  rl_evidence :: "evidence_record list"
  rl_transitions :: "requirement_transition list"

section \<open>Requests\<close>

record evidence_request =
  eq_expectedRevision :: int
  eq_id :: ident
  eq_type :: string
  eq_requirementIds :: "ident list"
  eq_criterionIds :: "ident list"
  eq_status :: evidence_status
  eq_source :: string
  eq_summary :: string
  eq_digest :: "string option"
  eq_claimText :: "string option"
  eq_reportedCollectorType :: "string option"
  eq_reportedAuthority :: "bool option"
  eq_metadata :: "json option"

record transition_request =
  tr_transitionId :: ident
  tr_expectedRevision :: int
  tr_requirementId :: ident
  tr_toStatus :: requirement_status
  tr_reportedActorType :: "string option"
  tr_reportedActorId :: "string option"
  tr_reason :: string
  tr_evidenceIds :: "ident list"
  tr_blockerReference :: "string option"
  tr_metadata :: "json option"

section \<open>Error codes\<close>

text \<open>The \<open>code\<close> of an \<open>OperationResult\<close>; the human-readable \<open>error\<close> text beside it is
  not modelled.\<close>

datatype operation_error =
    INVALID_CONTRACT | INVALID_LEDGER | STALE_REVISION | INVALID_TRANSITION
  | DUPLICATE_EVIDENCE_ID | DUPLICATE_TRANSITION_ID | CONTRACT_DIGEST_MISMATCH
  | MISSING_ACCEPTANCE_CRITERIA | UNKNOWN_REQUIREMENT | UNKNOWN_CRITERION | UNKNOWN_EVIDENCE
  | SELF_AUTH_SATISFIED | NOT_APPLICABLE_AUTHORITY | TRUSTED_CONTEXT_REQUIRED
  | TRUSTED_VALIDATION_CONTEXT_REQUIRED | AUTHORIZATION_FAILED
  | STALE_EVIDENCE_AFTER_REGRESSION | UNKNOWN_AUTHORITATIVE_SOURCE
  | AUTHORITATIVE_SOURCE_REQUIRED | CONTRACT_EVIDENCE_POLICY_VIOLATION
  | CRITERION_EVIDENCE_POLICY_VIOLATION | INTERNAL_REPLAY_INVARIANT_VIOLATION
  | TRUSTED_VALIDATION_CONTEXT_CONTRACT_MISMATCH

section \<open>Lookups\<close>

definition find_requirement :: "mission_contract \<Rightarrow> ident \<Rightarrow> mission_requirement option" where
  "find_requirement c i = List.find (\<lambda>r. mr_id r = i) (mc_requirements c)"

definition find_evidence :: "requirement_ledger \<Rightarrow> ident \<Rightarrow> evidence_record option" where
  "find_evidence l i = List.find (\<lambda>e. ev_id e = i) (rl_evidence l)"

definition find_transition :: "requirement_ledger \<Rightarrow> ident \<Rightarrow> requirement_transition option" where
  "find_transition l i = List.find (\<lambda>t. tx_id t = i) (rl_transitions l)"

definition find_entry :: "requirement_ledger \<Rightarrow> ident \<Rightarrow> ledger_entry option" where
  "find_entry l i = List.find (\<lambda>e. le_requirementId e = i) (rl_requirements l)"

lemma find_evidenceD: "find_evidence l i = Some e \<Longrightarrow> e \<in> set (rl_evidence l) \<and> ev_id e = i"
  unfolding find_evidence_def by (drule find_Some_iff_mem) simp

lemma find_requirementD: "find_requirement c i = Some r \<Longrightarrow> r \<in> set (mc_requirements c) \<and> mr_id r = i"
  unfolding find_requirement_def by (drule find_Some_iff_mem) simp

lemma find_transitionD: "find_transition l i = Some t \<Longrightarrow> t \<in> set (rl_transitions l) \<and> tx_id t = i"
  unfolding find_transition_def by (drule find_Some_iff_mem) simp

lemma find_entryD: "find_entry l i = Some e \<Longrightarrow> e \<in> set (rl_requirements l) \<and> le_requirementId e = i"
  unfolding find_entry_def by (drule find_Some_iff_mem) simp

end
