(* ===== verification/Contract_Digest.thy ===== *)
theory Contract_Digest
  imports Contract_Model
begin

text \<open>
  \<open>long-horizon/contract-digest.ts\<close>: the canonical JSON form of a Mission Contract and its
  digest.  SHA-256 comes from Node's \<open>crypto\<close>; it is the parameter \<open>sha\<close> of every
  definition that computes a digest.  Optional fields are written only when present, string
  sets are sorted, metadata is left out.
\<close>

definition requirement_kind_text :: "requirement_kind \<Rightarrow> string" where
  "requirement_kind_text k = (case k of Explicit \<Rightarrow> ''EXPLICIT'' | Inferred \<Rightarrow> ''INFERRED'')"

definition applicability_text :: "applicability \<Rightarrow> string" where
  "applicability_text a = (case a of Applicable \<Rightarrow> ''APPLICABLE'' | Not_Applicable \<Rightarrow> ''NOT_APPLICABLE'')"

fun authority_text :: "authority \<Rightarrow> string" where
  "authority_text Agent_Claim = ''agent-claim''"
| "authority_text Repository_Observation = ''repository-observation''"
| "authority_text Command_Result = ''command-result''"
| "authority_text Test_Result = ''test-result''"
| "authority_text Runtime_Observation = ''runtime-observation''"
| "authority_text Operator_Confirmation = ''operator-confirmation''"
| "authority_text Trusted_Collector = ''trusted-collector''"

fun constraint_kind_text :: "constraint_kind \<Rightarrow> string" where
  "constraint_kind_text Con_REQUIRED = ''REQUIRED''"
| "constraint_kind_text Con_LIMIT = ''LIMIT''"
| "constraint_kind_text Con_ENVIRONMENT = ''ENVIRONMENT''"
| "constraint_kind_text Con_PROCESS = ''PROCESS''"
| "constraint_kind_text Con_SECURITY = ''SECURITY''"
| "constraint_kind_text Con_COMPATIBILITY = ''COMPATIBILITY''"

definition severity_text :: "severity \<Rightarrow> string" where
  "severity_text s = (case s of Sev_error \<Rightarrow> ''error'' | Sev_warning \<Rightarrow> ''warning'')"

text \<open>\<open>if (x !== undefined) result.k = x\<close>\<close>

definition opt_member :: "string \<Rightarrow> json option \<Rightarrow> (string \<times> json) list" where
  "opt_member k v = (case v of None \<Rightarrow> [] | Some j \<Rightarrow> [(k, j)])"

definition sorted_strings :: "string list \<Rightarrow> json" where
  "sorted_strings xs = JArr (map JStr (sort xs))"

definition nonempty_types :: "string list option \<Rightarrow> json option" where
  "nonempty_types t = (case t of Some (x # xs) \<Rightarrow> Some (sorted_strings (x # xs)) | _ \<Rightarrow> None)"

definition canonicalizeWorkstream :: "mission_workstream \<Rightarrow> json" where
  "canonicalizeWorkstream w = JObj
     ([(''id'', JStr (ws_id w)), (''title'', JStr (ws_title w))]
      @ opt_member ''description'' (map_option JStr (ws_description w))
      @ opt_member ''parentId'' (map_option JStr (ws_parentId w))
      @ opt_member ''order'' (map_option (JNum \<circ> IntNum) (ws_order w)))"

definition canonicalizeEvidenceRequirement :: "evidence_requirement \<Rightarrow> json" where
  "canonicalizeEvidenceRequirement r = JObj
     (opt_member ''allowedTypes'' (nonempty_types (er_allowedTypes r))
      @ opt_member ''minAuthority'' (map_option (JStr \<circ> authority_text) (er_minAuthority r))
      @ opt_member ''requiredCollectorClass'' (map_option JStr (er_requiredCollectorClass r))
      @ opt_member ''minPassingStatus'' (if er_minPassingStatus r then Some (JStr ''pass'') else None))"

definition canonicalizeCriterion :: "acceptance_criterion \<Rightarrow> json" where
  "canonicalizeCriterion c = JObj
     [(''id'', JStr (ac_id c)), (''statement'', JStr (ac_statement c)),
      (''requiredEvidence'', JArr (map canonicalizeEvidenceRequirement (ac_requiredEvidence c)))]"

definition canonicalizeRequirement :: "mission_requirement \<Rightarrow> json" where
  "canonicalizeRequirement r = JObj
     ([(''id'', JStr (mr_id r)), (''workstreamId'', JStr (mr_workstreamId r)),
       (''kind'', JStr (requirement_kind_text (mr_kind r))), (''statement'', JStr (mr_statement r)),
       (''sourceRefs'', sorted_strings (mr_sourceRefs r)),
       (''dependencies'', sorted_strings (mr_dependencies r)),
       (''acceptanceCriteria'', JArr (map canonicalizeCriterion (mr_acceptanceCriteria r)))]
      @ opt_member ''rationale'' (map_option JStr (mr_rationale r))
      @ opt_member ''initialApplicability''
          (map_option (JStr \<circ> applicability_text) (mr_initialApplicability r)))"

definition canonicalizeConstraint :: "mission_constraint \<Rightarrow> json" where
  "canonicalizeConstraint c = JObj
     [(''id'', JStr (con_id c)), (''kind'', JStr (constraint_kind_text (con_kind c))),
      (''statement'', JStr (con_statement c)), (''sourceRefs'', sorted_strings (con_sourceRefs c)),
      (''severity'', JStr (severity_text (con_severity c)))]"

definition canonicalizeForbiddenAction :: "forbidden_action \<Rightarrow> json" where
  "canonicalizeForbiddenAction a = JObj
     ([(''id'', JStr (fa_id a)), (''statement'', JStr (fa_statement a)),
       (''sourceRefs'', sorted_strings (fa_sourceRefs a)),
       (''severity'', JStr (severity_text (fa_severity a)))]
      @ opt_member ''matchHint'' (map_option JStr (fa_matchHint a)))"

definition canonicalizePolicyRule :: "evidence_policy_rule \<Rightarrow> json" where
  "canonicalizePolicyRule r = JObj
     ([(''id'', JStr (pr_id r)), (''description'', JStr (pr_description r))]
      @ opt_member ''allowedTypes'' (nonempty_types (pr_allowedTypes r))
      @ opt_member ''minAuthority'' (map_option (JStr \<circ> authority_text) (pr_minAuthority r))
      @ opt_member ''requiredCollectorClass'' (map_option JStr (pr_requiredCollectorClass r)))"

definition canonicalizeEvidencePolicy :: "mission_evidence_policy \<Rightarrow> json" where
  "canonicalizeEvidencePolicy p = JObj
     ((''authoritativeSources'', sorted_strings (map authority_text (ep_authoritativeSources p)))
      # (case ep_rules p of
           Some (r # rs) \<Rightarrow> [(''rules'', JArr (map canonicalizePolicyRule (r # rs)))]
         | _ \<Rightarrow> []))"

definition canonicalizeContract :: "mission_contract \<Rightarrow> json" where
  "canonicalizeContract c = JObj
     [(''contractVersion'', JNum (IntNum (mc_contractVersion c))),
      (''missionId'', JStr (mc_missionId c)),
      (''revision'', JNum (IntNum (mc_revision c))),
      (''title'', JStr (mc_title c)),
      (''objective'', JStr (mc_objective c)),
      (''workstreams'', JArr (map canonicalizeWorkstream (mc_workstreams c))),
      (''requirements'', JArr (map canonicalizeRequirement (mc_requirements c))),
      (''constraints'', JArr (map canonicalizeConstraint (mc_constraints c))),
      (''forbiddenActions'', JArr (map canonicalizeForbiddenAction (mc_forbiddenActions c))),
      (''evidencePolicy'', canonicalizeEvidencePolicy (mc_evidencePolicy c))]"

text \<open>The canonical form of a contract always serializes, so the digest is total.\<close>

definition canonical_contract_text :: "mission_contract \<Rightarrow> string" where
  "canonical_contract_text c =
     (case toCanonicalJson (canonicalizeContract c) of Some t \<Rightarrow> t | None \<Rightarrow> [])"

definition computeMissionContractDigest :: "(string \<Rightarrow> string) \<Rightarrow> mission_contract \<Rightarrow> string" where
  "computeMissionContractDigest sha c = sha (canonical_contract_text c)"

section \<open>Totality and insensitivity\<close>

lemma serializable_opt_member [simp]:
  "(\<forall>m \<in> set (opt_member k v). serializable (snd m)) \<longleftrightarrow> (\<forall>j. v = Some j \<longrightarrow> serializable j)"
  by (auto simp: opt_member_def split: option.splits)

lemma serializable_sorted_strings [simp]: "serializable (sorted_strings xs)"
  by (simp add: sorted_strings_def)

lemma serializable_nonempty_types [simp]: "nonempty_types t = Some j \<Longrightarrow> serializable j"
  by (auto simp: nonempty_types_def split: option.splits list.splits)

lemma serializable_workstream [simp]: "serializable (canonicalizeWorkstream w)"
  by (auto simp: canonicalizeWorkstream_def ball_Un)

lemma serializable_evidence_requirement [simp]: "serializable (canonicalizeEvidenceRequirement r)"
  by (auto simp: canonicalizeEvidenceRequirement_def ball_Un)

lemma serializable_criterion [simp]: "serializable (canonicalizeCriterion c)"
  by (simp add: canonicalizeCriterion_def)

lemma serializable_requirement [simp]: "serializable (canonicalizeRequirement r)"
  by (auto simp: canonicalizeRequirement_def ball_Un)

lemma serializable_constraint [simp]: "serializable (canonicalizeConstraint c)"
  by (simp add: canonicalizeConstraint_def)

lemma serializable_forbidden [simp]: "serializable (canonicalizeForbiddenAction a)"
  by (auto simp: canonicalizeForbiddenAction_def ball_Un)

lemma serializable_rule [simp]: "serializable (canonicalizePolicyRule r)"
  by (auto simp: canonicalizePolicyRule_def ball_Un)

lemma serializable_policy [simp]: "serializable (canonicalizeEvidencePolicy p)"
  by (auto simp: canonicalizeEvidencePolicy_def split: option.splits list.splits)

lemma serializable_contract: "serializable (canonicalizeContract c)"
  by (simp add: canonicalizeContract_def)

lemma canonical_contract_text_eq:
  "toCanonicalJson (canonicalizeContract c) = Some (canonical_contract_text c)"
  using serializable_contract [of c] serialize_defined(1) [of "canonicalizeContract c"]
  by (auto simp: canonical_contract_text_def toCanonicalJson_def)

lemma digest_ignores_metadata:
  "computeMissionContractDigest sha (c\<lparr>mc_metadata := m\<rparr>) = computeMissionContractDigest sha c"
  by (simp add: computeMissionContractDigest_def canonical_contract_text_def canonicalizeContract_def)

end
