(* ===== verification/Dependency_Graph.thy ===== *)
theory Dependency_Graph
  imports Prelude "HOL-Library.Multiset"
begin

text \<open>
  Kahn's algorithm, which the program writes three times: \<open>validateWorkstreamDAG\<close> and
  \<open>validateRequirementDAG\<close> (\<open>long-horizon/mission-contract-schema.ts\<close>) with a FIFO queue, and
  \<open>topologicallyOrdered\<close> (\<open>mission/graph.ts\<close>) with a queue that is re-sorted after every
  step.  The loop is written once over the queue discipline \<open>arrange\<close>; its correctness is
  proved once in the locale \<open>kahn_sorter\<close> and reached through interpretations.

  The loop consumes fuel; \<open>kahn_run\<close> shows that one unit per node is enough.
\<close>

definition deg_get :: "int \<Rightarrow> ('k \<rightharpoonup> int) \<Rightarrow> 'k \<Rightarrow> int" where
  "deg_get dflt deg x = (case deg x of None \<Rightarrow> dflt | Some d \<Rightarrow> d)"

fun dec_children ::
  "int \<Rightarrow> ('k \<rightharpoonup> int) \<Rightarrow> 'k list \<Rightarrow> 'k list \<Rightarrow> ('k \<rightharpoonup> int) \<times> 'k list" where
  "dec_children dflt deg queue [] = (deg, queue)"
| "dec_children dflt deg queue (c # cs) =
     (let d = deg_get dflt deg c - 1 in
      dec_children dflt (deg(c \<mapsto> d)) (if d = 0 then queue @ [c] else queue) cs)"

fun kahn ::
  "int \<Rightarrow> ('k list \<Rightarrow> 'k list) \<Rightarrow> ('k \<Rightarrow> 'k list) \<Rightarrow> nat \<Rightarrow>
   'k list \<Rightarrow> ('k \<rightharpoonup> int) \<Rightarrow> 'k list \<Rightarrow> ('k list \<times> ('k \<rightharpoonup> int)) option" where
  "kahn dflt arrange adj fuel [] deg done = Some (done, deg)"
| "kahn dflt arrange adj 0 (x # queue) deg done = None"
| "kahn dflt arrange adj (Suc fuel) (x # queue) deg done =
     (let (deg', queue') = dec_children dflt deg queue (adj x) in
      kahn dflt arrange adj fuel (arrange queue') deg' (done @ [x]))"

text \<open>The edges of the graph and the in-degree the algorithm starts from.\<close>

definition graph_edges :: "'k list \<Rightarrow> ('k \<Rightarrow> 'k list) \<Rightarrow> ('k \<times> 'k) set" where
  "graph_edges nodes adj = {(y, x). y \<in> set nodes \<and> x \<in> set (adj y)}"

definition edges_into :: "('k \<Rightarrow> 'k list) \<Rightarrow> 'k set \<Rightarrow> 'k \<Rightarrow> nat" where
  "edges_into adj S x = (\<Sum>y \<in> S. count_list (adj y) x)"

text \<open>Every node of \<open>order\<close> stands after all its predecessors.\<close>

definition topological :: "'k list \<Rightarrow> ('k \<Rightarrow> 'k list) \<Rightarrow> 'k list \<Rightarrow> bool" where
  "topological nodes adj order \<longleftrightarrow>
     (\<forall>ys z zs. order = ys @ z # zs \<longrightarrow> (\<forall>y. (y, z) \<in> graph_edges nodes adj \<longrightarrow> y \<in> set ys))"

lemma topological_snoc:
  assumes "topological nodes adj order"
    and "\<And>y. (y, x) \<in> graph_edges nodes adj \<Longrightarrow> y \<in> set order"
  shows "topological nodes adj (order @ [x])"
  unfolding topological_def
proof (intro allI impI)
  fix ys z zs y
  assume eq: "order @ [x] = ys @ z # zs" and e: "(y, z) \<in> graph_edges nodes adj"
  show "y \<in> set ys"
  proof (cases zs rule: rev_cases)
    case Nil
    with eq assms(2) e show ?thesis by simp
  next
    case (snoc zs' w)
    with eq have "order = ys @ z # zs'" by simp
    with assms(1) e show ?thesis by (auto simp: topological_def)
  qed
qed

lemma topological_acyclic:
  assumes top: "topological nodes adj order" and all: "set order = set nodes"
    and closed: "\<And>x. x \<in> set nodes \<Longrightarrow> set (adj x) \<subseteq> set nodes"
  shows "acyclic (graph_edges nodes adj)"
proof -
  let ?pos = "\<lambda>z. length (takeWhile (\<lambda>w. w \<noteq> z) order)"
  have "graph_edges nodes adj \<subseteq> measure ?pos"
  proof
    fix e assume "e \<in> graph_edges nodes adj"
    then obtain y x where e: "e = (y, x)" "(y, x) \<in> graph_edges nodes adj" by (cases e) auto
    then have "x \<in> set order" using all closed by (auto simp: graph_edges_def)
    then obtain ys zs where order: "order = ys @ x # zs" "x \<notin> set ys"
      by (meson split_list_first)
    have "y \<in> set ys" using top order(1) e(2) unfolding topological_def by blast
    then obtain as bs where ys: "ys = as @ y # bs" "y \<notin> set as"
      by (meson split_list_first)
    have "takeWhile (\<lambda>w. w \<noteq> x) order = ys"
      using order by (simp add: takeWhile_append2 takeWhile_tail) (metis takeWhile_eq_all_conv)
    moreover have "takeWhile (\<lambda>w. w \<noteq> y) order = as"
      using order ys by (simp add: takeWhile_tail) (metis takeWhile_eq_all_conv)
    ultimately show "e \<in> measure ?pos" using e ys by simp
  qed
  then show ?thesis using wf_measure wf_acyclic acyclic_subset by blast
qed

lemma dec_children_spec:
  assumes "\<forall>x \<in> set cs. \<exists>v. deg x = Some v \<and> int (count_list cs x) \<le> v"
    and "dec_children dflt deg queue cs = (deg', queue')"
  shows "(\<forall>x. deg' x = (case deg x of None \<Rightarrow> None | Some v \<Rightarrow> Some (v - int (count_list cs x)))) \<and>
    (\<exists>zs. queue' = queue @ zs \<and> distinct zs \<and>
       set zs = {x \<in> set cs. deg x = Some (int (count_list cs x))})"
  using assms
proof (induction cs arbitrary: deg queue)
  case Nil
  then show ?case by (auto split: option.splits)
next
  case (Cons c cs)
  obtain v where v: "deg c = Some v" "int (count_list cs c) + 1 \<le> v"
    using Cons.prems(1) by auto
  let ?deg = "deg(c \<mapsto> v - 1)"
  let ?queue = "if v - 1 = 0 then queue @ [c] else queue"
  have step: "dec_children dflt ?deg ?queue cs = (deg', queue')"
    using Cons.prems(2) v by (simp add: deg_get_def Let_def)
  have pre: "\<forall>x \<in> set cs. \<exists>w. ?deg x = Some w \<and> int (count_list cs x) \<le> w"
  proof
    fix x assume "x \<in> set cs"
    then show "\<exists>w. ?deg x = Some w \<and> int (count_list cs x) \<le> w"
      using Cons.prems(1) v by (cases "x = c") auto
  qed
  obtain zs where deg': "\<forall>x. deg' x = (case ?deg x of None \<Rightarrow> None | Some v \<Rightarrow> Some (v - int (count_list cs x)))"
    and zs: "queue' = ?queue @ zs" "distinct zs" "set zs = {x \<in> set cs. ?deg x = Some (int (count_list cs x))}"
    using Cons.IH [OF pre step] by (elim conjE exE)
  have first: "\<forall>x. deg' x = (case deg x of None \<Rightarrow> None | Some v \<Rightarrow> Some (v - int (count_list (c # cs) x)))"
    using deg' v by (auto split: option.splits)
  show ?case
  proof (cases "v = 1")
    case True
    then have c: "c \<notin> set cs" using v(2) by (simp add: count_list_0_iff)
    have "set (c # zs) = {x \<in> set (c # cs). deg x = Some (int (count_list (c # cs) x))}"
    proof (rule set_eqI)
      fix x
      show "x \<in> set (c # zs) \<longleftrightarrow> x \<in> {x \<in> set (c # cs). deg x = Some (int (count_list (c # cs) x))}"
        by (cases "x = c") (use zs(3) v(1) True c in \<open>simp_all add: count_list_0_iff\<close>)
    qed
    moreover have "distinct (c # zs)"
      using zs(2,3) c by simp
    ultimately have "\<exists>zs. queue' = queue @ zs \<and> distinct zs \<and>
        set zs = {x \<in> set (c # cs). deg x = Some (int (count_list (c # cs) x))}"
      using zs(1) True by (intro exI [of _ "c # zs"]) simp
    with first show ?thesis by (rule conjI)
  next
    case False
    have "set zs = {x \<in> set (c # cs). deg x = Some (int (count_list (c # cs) x))}"
    proof (rule set_eqI)
      fix x
      show "x \<in> set zs \<longleftrightarrow> x \<in> {x \<in> set (c # cs). deg x = Some (int (count_list (c # cs) x))}"
        by (cases "x = c"; cases "c \<in> set cs") (use zs(3) v(1) False in \<open>auto simp add: count_list_0_iff simp flip: of_nat_Suc\<close>)
    qed
    with zs(1,2) False have "\<exists>zs. queue' = queue @ zs \<and> distinct zs \<and>
        set zs = {x \<in> set (c # cs). deg x = Some (int (count_list (c # cs) x))}"
      by (intro exI [of _ zs]) simp
    with first show ?thesis by (rule conjI)
  qed
qed

section \<open>Correctness, for any queue discipline\<close>

locale kahn_sorter =
  fixes dflt :: int and arrange :: "'k list \<Rightarrow> 'k list"
    and adj :: "'k \<Rightarrow> 'k list" and nodes :: "'k list"
  assumes arrange_mset: "mset (arrange q) = mset q"
    and nodes_closed: "x \<in> set nodes \<Longrightarrow> set (adj x) \<subseteq> set nodes"
begin

definition pending :: "'k list \<Rightarrow> 'k \<Rightarrow> nat" where
  "pending order z = edges_into adj (set nodes - set order) z"

definition kinv :: "'k list \<Rightarrow> ('k \<rightharpoonup> int) \<Rightarrow> 'k list \<Rightarrow> bool" where
  "kinv queue deg order \<longleftrightarrow>
     distinct (order @ queue) \<and> set (order @ queue) \<subseteq> set nodes \<and>
     (\<forall>x \<in> set nodes. deg x = Some (int (pending order x))) \<and>
     (\<forall>x \<in> set nodes. x \<in> set (order @ queue) \<longleftrightarrow> pending order x = 0) \<and>
     topological nodes adj order"

lemma no_pending_predecessor:
  assumes "pending order x = 0" and "(y, x) \<in> graph_edges nodes adj"
  shows "y \<in> set order"
  using assms by (auto simp: pending_def edges_into_def graph_edges_def count_list_0_iff)

lemma pending_step:
  assumes "x \<in> set nodes" and "x \<notin> set order"
  shows "pending order z =
    count_list (adj x) z + pending (order @ [x]) z"
proof -
  have rest: "set nodes - set order = insert x (set nodes - set (order @ [x]))"
    using assms by auto
  show ?thesis
    unfolding pending_def edges_into_def rest by (subst sum.insert) auto
qed

lemma kinv_step:
  assumes kinv: "kinv (x # queue) deg order"
    and step: "dec_children dflt deg queue (adj x) = (deg', queue')"
  shows "kinv (arrange queue') deg' (order @ [x])"
proof -
  have x: "x \<in> set nodes" "x \<notin> set order" and zero: "pending order x = 0"
    using kinv by (auto simp: kinv_def)
  note split = pending_step [OF x]
  have pre: "\<forall>z \<in> set (adj x). \<exists>v. deg z = Some v \<and> int (count_list (adj x) z) \<le> v"
  proof
    fix z assume "z \<in> set (adj x)"
    then have "deg z = Some (int (pending order z))"
      using kinv nodes_closed [OF x(1)] by (auto simp: kinv_def)
    then show "\<exists>v. deg z = Some v \<and> int (count_list (adj x) z) \<le> v"
      using split [of z] by simp
  qed
  obtain zs where deg': "\<forall>z. deg' z = (case deg z of None \<Rightarrow> None | Some v \<Rightarrow> Some (v - int (count_list (adj x) z)))"
    and zs: "queue' = queue @ zs" "distinct zs" "set zs = {z \<in> set (adj x). deg z = Some (int (count_list (adj x) z))}"
    using dec_children_spec [OF pre step] by (elim conjE exE)
  have set_q: "set (arrange queue') = set queue \<union> set zs" and dist_q: "distinct (arrange queue') = distinct queue'"
    using mset_eq_setD [OF arrange_mset [of queue']] mset_eq_imp_distinct_iff [OF arrange_mset [of queue']]
    by (simp_all add: zs(1))
  have zs_iff: "z \<in> set zs \<longleftrightarrow> z \<in> set (adj x) \<and> pending (order @ [x]) z = 0"
    if "z \<in> set nodes" for z
    using kinv that zs(3) split [of z] by (auto simp: kinv_def)
  have zs_nodes: "set zs \<subseteq> set nodes"
    using zs(3) nodes_closed [OF x(1)] by auto
  have fresh: "z \<notin> set order \<and> z \<notin> set (x # queue)" if "z \<in> set zs" for z
  proof -
    have "z \<in> set nodes" "z \<in> set (adj x)" using that zs(3) zs_nodes by auto
    moreover have "pending order z \<noteq> 0"
      using split [of z] \<open>z \<in> set (adj x)\<close> by (simp add: count_list_0_iff)
    moreover have "z \<in> set (order @ x # queue) \<longleftrightarrow> pending order z = 0"
      using kinv \<open>z \<in> set nodes\<close> by (simp add: kinv_def)
    ultimately show ?thesis by simp
  qed
  have iff: "z \<in> set ((order @ [x]) @ arrange queue') \<longleftrightarrow> pending (order @ [x]) z = 0"
    if "z \<in> set nodes" for z
  proof -
    have "z \<in> set (order @ x # queue) \<longleftrightarrow> pending order z = 0"
      using kinv that by (simp add: kinv_def)
    then show ?thesis
      using split [of z] zs_iff [OF that] set_q
      by (cases "z \<in> set (adj x)") (simp_all add: count_list_0_iff disj_assoc)
  qed
  have top: "topological nodes adj (order @ [x])"
    using kinv no_pending_predecessor [OF zero] by (intro topological_snoc) (auto simp: kinv_def)
  show ?thesis
    unfolding kinv_def
  proof (intro conjI ballI)
    have old: "distinct (order @ x # queue)" "set (order @ x # queue) \<subseteq> set nodes"
      using kinv by (simp_all add: kinv_def)
    show "distinct ((order @ [x]) @ arrange queue')"
      using old(1) fresh zs(2) unfolding distinct_append set_q dist_q unfolding zs(1) by auto
    show "set ((order @ [x]) @ arrange queue') \<subseteq> set nodes"
      using old(2) zs_nodes unfolding set_append set_q by simp
    fix z assume z: "z \<in> set nodes"
    have "deg z = Some (int (pending order z))"
      using kinv z by (simp add: kinv_def)
    then show "deg' z = Some (int (pending (order @ [x]) z))"
      using deg' split [of z] by simp
    show "z \<in> set ((order @ [x]) @ arrange queue') \<longleftrightarrow> pending (order @ [x]) z = 0"
      by (rule iff [OF z])
  qed (rule top)
qed

lemma kahn_run:
  assumes "kinv queue deg order" and "card (set nodes) \<le> length order + fuel"
  shows "\<exists>order' deg'. kahn dflt arrange adj fuel queue deg order = Some (order', deg') \<and> kinv [] deg' order'"
  using assms
proof (induction fuel arbitrary: queue deg order)
  case 0
  have "queue = []"
  proof (rule ccontr)
    assume "queue \<noteq> []"
    then have "length order < card (set (order @ queue))"
      using 0(1) by (subst distinct_card) (auto simp: kinv_def)
    moreover have "card (set (order @ queue)) \<le> card (set nodes)"
      using 0(1) by (intro card_mono) (auto simp: kinv_def)
    ultimately show False using 0(2) by simp
  qed
  with 0 show ?case by simp
next
  case (Suc fuel)
  show ?case
  proof (cases queue)
    case Nil
    with Suc.prems show ?thesis by simp
  next
    case (Cons x rest)
    obtain deg' queue' where step: "dec_children dflt deg rest (adj x) = (deg', queue')"
      by (cases "dec_children dflt deg rest (adj x)")
    have "kinv (arrange queue') deg' (order @ [x])"
      using kinv_step [OF _ step] Suc.prems(1) Cons by simp
    from Suc.IH [OF this] Suc.prems(2) Cons step show ?thesis by simp
  qed
qed

lemma kinv_done_complete:
  assumes kinv: "kinv [] deg order" and "acyclic (graph_edges nodes adj)"
  shows "set order = set nodes"
proof (rule ccontr)
  let ?rest = "set nodes - set order"
  assume "set order \<noteq> set nodes"
  then obtain r where r: "r \<in> ?rest" using kinv by (auto simp: kinv_def)
  have "finite (graph_edges nodes adj)"
    by (rule finite_subset [of _ "set nodes \<times> set nodes"]) (use nodes_closed in \<open>auto simp: graph_edges_def\<close>)
  then have "wf (graph_edges nodes adj)"
    using assms(2) by (rule finite_acyclic_wf)
  then obtain m where m: "m \<in> ?rest" and least: "\<And>y. (y, m) \<in> graph_edges nodes adj \<Longrightarrow> y \<notin> ?rest"
    using r by (auto elim!: wfE_min [where Q = ?rest])
  have "edges_into adj ?rest m \<noteq> 0"
    using kinv m by (auto simp: kinv_def pending_def)
  then obtain y where "y \<in> ?rest" "m \<in> set (adj y)"
    by (auto simp: edges_into_def count_list_0_iff)
  then show False using least [of y] by (auto simp: graph_edges_def)
qed

lemma kahn_correct:
  assumes "kinv queue deg []"
  obtains order deg' where "kahn dflt arrange adj (card (set nodes)) queue deg [] = Some (order, deg')"
    and "distinct order" and "set order \<subseteq> set nodes" and "topological nodes adj order"
    and "set order = set nodes \<longleftrightarrow> acyclic (graph_edges nodes adj)"
    and "kinv [] deg' order"
proof -
  obtain order deg' where run: "kahn dflt arrange adj (card (set nodes)) queue deg [] = Some (order, deg')"
    and i: "kinv [] deg' order"
    using kahn_run [OF assms, of "card (set nodes)"] by auto
  have top: "topological nodes adj order" and "distinct order" "set order \<subseteq> set nodes"
    using i by (auto simp: kinv_def)
  moreover have "set order = set nodes \<longleftrightarrow> acyclic (graph_edges nodes adj)"
    using kinv_done_complete [OF i] topological_acyclic [OF top _ nodes_closed] by blast
  ultimately show ?thesis using that run i by blast
qed

lemma kinv_start:
  assumes "distinct nodes" and "\<And>x. x \<in> set nodes \<Longrightarrow> deg x = Some (int (edges_into adj (set nodes) x))"
    and "mset queue = mset (filter (\<lambda>x. deg x = Some 0) nodes)"
  shows "kinv queue deg []"
proof -
  have "set queue = {x \<in> set nodes. deg x = Some 0}" and "distinct queue"
    using mset_eq_setD [OF assms(3)] mset_eq_imp_distinct_iff [OF assms(3)] assms(1) by auto
  then show ?thesis
    using assms(2) by (auto simp: kinv_def pending_def topological_def)
qed

end

section \<open>Graphs given by their list of edges\<close>

text \<open>The maps \<open>adjacency\<close> and \<open>inDegree\<close> that the program fills by one push and one
  increment per edge, the initial queue of the keys of degree 0, and the run.\<close>

definition children_of :: "('k \<times> 'k) list \<Rightarrow> 'k \<Rightarrow> 'k list" where
  "children_of es x = map snd (filter (\<lambda>e. fst e = x) es)"

definition in_degrees :: "'k list \<Rightarrow> ('k \<times> 'k) list \<Rightarrow> 'k \<rightharpoonup> int" where
  "in_degrees keys es x = (if x \<in> set keys then Some (int (count_list (map snd es) x)) else None)"

definition kahn_from ::
  "int \<Rightarrow> ('k list \<Rightarrow> 'k list) \<Rightarrow> 'k list \<Rightarrow> ('k \<times> 'k) list \<Rightarrow> 'k list \<times> ('k \<rightharpoonup> int)" where
  "kahn_from dflt arrange keys es =
     (case kahn dflt arrange (children_of es) (length keys)
             (arrange (filter (\<lambda>x. in_degrees keys es x = Some 0) keys)) (in_degrees keys es) [] of
        Some r \<Rightarrow> r
      | None \<Rightarrow> ([], in_degrees keys es))"

lemma graph_edges_children_of:
  assumes "fst ` set es \<subseteq> set keys"
  shows "graph_edges keys (children_of es) = set es"
  using assms by (force simp: graph_edges_def children_of_def)

lemma edges_into_children_of:
  assumes "fst ` set es \<subseteq> S" and "finite S"
  shows "edges_into (children_of es) S x = count_list (map snd es) x"
  using assms
proof (induction es)
  case Nil
  then show ?case by (simp add: edges_into_def children_of_def)
next
  case (Cons e es)
  have "edges_into (children_of (e # es)) S x =
      (\<Sum>y \<in> S. (if y = fst e then (if snd e = x then 1 else 0) else 0) + count_list (children_of es y) x)"
    unfolding edges_into_def by (rule sum.cong) (auto simp: children_of_def)
  also have "\<dots> = (if snd e = x then 1 else 0) + edges_into (children_of es) S x"
    using Cons.prems by (simp add: sum.distrib edges_into_def)
  finally show ?case using Cons by simp
qed

text \<open>The run never needs more than one step per key, so the fallback of \<open>kahn_from\<close> is
  not reached; it outputs a topological order of the keys it can order, and orders them all
  exactly when the edges form no cycle.\<close>

theorem kahn_from_correct:
  assumes "distinct keys" and "set es \<subseteq> set keys \<times> set keys" and "\<And>q. mset (arrange q) = mset q"
  obtains order deg where "kahn_from dflt arrange keys es = (order, deg)"
    and "kahn dflt arrange (children_of es) (length keys)
           (arrange (filter (\<lambda>x. in_degrees keys es x = Some 0) keys)) (in_degrees keys es) [] = Some (order, deg)"
    and "distinct order" and "set order \<subseteq> set keys"
    and "topological keys (children_of es) order"
    and "set order = set keys \<longleftrightarrow> acyclic (set es)"
proof -
  have ks: "kahn_sorter arrange (children_of es) keys"
    using assms(2,3) by unfold_locales (auto simp: children_of_def)
  have fsts: "fst ` set es \<subseteq> set keys" using assms(2) by auto
  let ?q = "arrange (filter (\<lambda>x. in_degrees keys es x = Some 0) keys)"
  have "kahn_sorter.kinv (children_of es) keys ?q (in_degrees keys es) []"
    by (rule kahn_sorter.kinv_start [OF ks assms(1)])
      (simp_all add: in_degrees_def edges_into_children_of [OF fsts] assms(3) cong: filter_cong)
  from kahn_sorter.kahn_correct [OF ks this, of dflt] obtain order deg
    where "kahn dflt arrange (children_of es) (card (set keys)) ?q (in_degrees keys es) [] = Some (order, deg)"
      "distinct order" "set order \<subseteq> set keys" "topological keys (children_of es) order"
      "set order = set keys \<longleftrightarrow> acyclic (graph_edges keys (children_of es))"
    by metis
  then show ?thesis
    using that [of order deg] assms(1) graph_edges_children_of [OF fsts]
    by (simp add: distinct_card kahn_from_def)
qed

lemma kahn_from_complete:
  assumes "distinct keys" and "set es \<subseteq> set keys \<times> set keys" and "\<And>q. mset (arrange q) = mset q"
  shows "length (fst (kahn_from dflt arrange keys es)) < length keys \<longleftrightarrow> \<not> acyclic (set es)"
proof -
  obtain order deg where r: "kahn_from dflt arrange keys es = (order, deg)" "distinct order"
    "set order \<subseteq> set keys" "set order = set keys \<longleftrightarrow> acyclic (set es)"
    using kahn_from_correct [OF assms] by metis
  have "length order < length keys \<longleftrightarrow> set order \<noteq> set keys"
    using r(2,3) assms(1) card_mono [of "set keys" "set order"] psubset_card_mono [of "set keys" "set order"]
    by (auto simp flip: distinct_card)
  with r show ?thesis by simp
qed

text \<open>Renaming the nodes neither creates nor removes a cycle.\<close>

lemma trancl_renamed:
  assumes "inj f" and "(a, b) \<in> (map_prod f f ` E)\<^sup>+"
  shows "\<exists>x y. a = f x \<and> b = f y \<and> (x, y) \<in> E\<^sup>+"
  using assms(2)
proof (induction rule: trancl_induct)
  case (base y)
  then show ?case by auto
next
  case (step y z)
  obtain x v where xv: "a = f x" "y = f v" "(x, v) \<in> E\<^sup>+" using step.IH by blast
  obtain v' w where vw: "y = f v'" "z = f w" "(v', w) \<in> E" using step.hyps(2) by auto
  have "v' = v" using assms(1) xv(2) vw(1) by (simp add: inj_eq)
  then have "(x, w) \<in> E\<^sup>+" using xv(3) vw(3) by (auto intro: trancl_into_trancl)
  then show ?case using xv(1) vw(2) by blast
qed

lemma renamed_trancl:
  "(x, y) \<in> E\<^sup>+ \<Longrightarrow> (f x, f y) \<in> (map_prod f f ` E)\<^sup>+"
  by (induction rule: trancl_induct) (auto intro: trancl_into_trancl)

lemma acyclic_renamed:
  assumes "inj f"
  shows "acyclic (map_prod f f ` E) \<longleftrightarrow> acyclic E"
proof
  assume a: "acyclic (map_prod f f ` E)"
  show "acyclic E"
    unfolding acyclic_def using a renamed_trancl [of _ _ E f] by (auto simp: acyclic_def)
next
  assume a: "acyclic E"
  show "acyclic (map_prod f f ` E)"
    unfolding acyclic_def
  proof (intro allI notI)
    fix z assume "(z, z) \<in> (map_prod f f ` E)\<^sup>+"
    then obtain x y where xy: "z = f x" "z = f y" "(x, y) \<in> E\<^sup>+"
      using trancl_renamed [OF assms] by blast
    then have "x = y" using assms by (simp add: inj_eq)
    with xy a show False by (simp add: acyclic_def)
  qed
qed

end
