(* ===== verification/Contract_Schema.thy ===== *)
theory Contract_Schema
  imports Contract_Digest Dependency_Graph
begin

text \<open>
  \<open>long-horizon/mission-contract-schema.ts\<close>: \<open>validateMissionContract\<close> on a document of
  unknown shape.  A validator of the source collects messages; it is a function to the list
  of messages.  A step that JavaScript aborts with a \<open>TypeError\<close> (iterating a value that is
  not iterable, reading a property of \<open>null\<close>) makes the whole call \<open>None\<close>.  Keys of the
  source's \<open>Map\<close>s and \<open>Set\<close>s that are not strings are compared structurally; a document with
  such a key already has a message for it.

  \<open>contract_json\<close> is the object a typed contract is; \<open>contract_valid\<close> is the verdict the
  rest of the subsystem acts on, and \<open>contract_valid_facts\<close> what it guarantees.
\<close>

section \<open>Messages and field checks\<close>

definition push_if :: "bool \<Rightarrow> string \<Rightarrow> string list" where
  "push_if b msg = (if b then [msg] else [])"

declare push_if_def [code_unfold]

lemma push_if_Nil [simp]: "push_if b msg = [] \<longleftrightarrow> \<not> b"
  by (simp add: push_if_def)

definition dq :: "string \<Rightarrow> string" where
  "dq s = char_of (34::nat) # s @ [char_of (34::nat)]"

definition indexed :: "string \<Rightarrow> nat \<Rightarrow> string" where
  "indexed base i = base @ ''['' @ int_text (int i) @ '']''"

definition validateStringField :: "json \<Rightarrow> string \<Rightarrow> int \<Rightarrow> string \<Rightarrow> string list" where
  "validateStringField v name maxLength prefix =
     (case v of
        JStr s \<Rightarrow>
          push_if (s = []) (prefix @ ''.'' @ name @ '' must be non-empty'')
          @ push_if (s \<noteq> js_trim s) (prefix @ ''.'' @ name @ '' must not have leading/trailing whitespace'')
          @ push_if (int (length s) > maxLength)
              (prefix @ ''.'' @ name @ '' exceeds maximum length of '' @ int_text maxLength)
      | _ \<Rightarrow> [prefix @ ''.'' @ name @ '' must be a string''])"

definition validateIntegerField :: "json \<Rightarrow> string \<Rightarrow> int \<Rightarrow> string \<Rightarrow> string list" where
  "validateIntegerField v name mn prefix =
     (case v of
        JNum (IntNum n) \<Rightarrow> push_if (n < mn) (prefix @ ''.'' @ name @ '' must be >= '' @ int_text mn)
      | _ \<Rightarrow> [prefix @ ''.'' @ name @ '' must be a finite integer''])"

definition checkUnknownFields :: "json \<Rightarrow> string list \<Rightarrow> string \<Rightarrow> string list" where
  "checkUnknownFields v allowed prefix =
     map (\<lambda>k. prefix @ '': unknown field '' @ dq k) (filter (\<lambda>k. k \<notin> set allowed) (object_keys v))"

text \<open>The loop all collections share: an element that is no object gets one message and is
  skipped; \<open>pre\<close> are the checks before the duplicate test, \<open>post\<close> those after it; \<open>ids\<close> is
  the local \<open>Set\<close> of identifiers.  Only workstreams record the empty identifier
  (\<open>keep_empty\<close>).\<close>

definition check_id ::
  "(string \<Rightarrow> string) \<Rightarrow> bool \<Rightarrow> string list \<Rightarrow> json \<Rightarrow> string list \<times> string list" where
  "check_id dup keep_empty ids x =
     (case jget x ''id'' of
        JStr s \<Rightarrow> if s \<in> set ids then ([dup s], ids)
                  else ([], if keep_empty \<or> s \<noteq> [] then s # ids else ids)
      | _ \<Rightarrow> ([], ids))"

fun item_loop ::
  "(string \<Rightarrow> json \<Rightarrow> string list) \<Rightarrow> (string \<Rightarrow> string) \<Rightarrow> bool \<Rightarrow> (string \<Rightarrow> json \<Rightarrow> string list) \<Rightarrow>
   string \<Rightarrow> nat \<Rightarrow> string list \<Rightarrow> json list \<Rightarrow> string list \<times> string list" where
  "item_loop pre dup keep_empty post base i ids [] = ([], ids)"
| "item_loop pre dup keep_empty post base i ids (x # xs) =
     (if \<not> is_object x then
        (let (es, ids') = item_loop pre dup keep_empty post base (Suc i) ids xs
         in ((indexed base i @ '' must be an object'') # es, ids'))
      else
        (let (d, ids1) = check_id dup keep_empty ids x;
             (es, ids') = item_loop pre dup keep_empty post base (Suc i) ids1 xs
         in (pre (indexed base i) x @ d @ post (indexed base i) x @ es, ids')))"

definition duplicate_id :: "string \<Rightarrow> string \<Rightarrow> string" where
  "duplicate_id what s = ''Duplicate '' @ what @ '' id: '' @ s"

fun enumerate_errors :: "(nat \<Rightarrow> 'a \<Rightarrow> string list) \<Rightarrow> nat \<Rightarrow> 'a list \<Rightarrow> string list" where
  "enumerate_errors f i [] = []"
| "enumerate_errors f i (x # xs) = f i x @ enumerate_errors f (Suc i) xs"

lemma enumerate_errors_Nil:
  "enumerate_errors f i xs = [] \<Longrightarrow> x \<in> set xs \<Longrightarrow> \<exists>j. f j x = []"
  by (induction xs arbitrary: i) auto

section \<open>Workstreams\<close>

definition WORKSTREAM_KEYS :: "string list" where
  "WORKSTREAM_KEYS = [''id'', ''title'', ''description'', ''parentId'', ''order'']"

definition workstream_fields :: "string \<Rightarrow> json \<Rightarrow> string list" where
  "workstream_fields prefix w =
     checkUnknownFields w WORKSTREAM_KEYS prefix
     @ validateStringField (jget w ''id'') ''id'' 128 prefix
     @ validateStringField (jget w ''title'') ''title'' 256 prefix
     @ push_if (jget w ''description'' \<noteq> JUndefined \<and> \<not> is_string (jget w ''description''))
         (prefix @ ''.description must be a string'')
     @ (case jget w ''parentId'' of
          JUndefined \<Rightarrow> []
        | JStr p \<Rightarrow> push_if (p \<noteq> js_trim p) (prefix @ ''.parentId must not have leading/trailing whitespace'')
        | _ \<Rightarrow> [prefix @ ''.parentId must be a string''])
     @ (if jget w ''order'' \<noteq> JUndefined then validateIntegerField (jget w ''order'') ''order'' 0 prefix else [])"

definition workstream_parent :: "string list \<Rightarrow> nat \<Rightarrow> json \<Rightarrow> string list" where
  "workstream_parent ids i w =
     (let p = jget w ''parentId''; prefix = indexed ''workstreams'' i in
      if p = JUndefined then []
      else push_if (p \<notin> JStr ` set ids) (prefix @ ''.parentId references unknown workstream: '' @ js_text p)
           @ push_if (js_same p (jget w ''id'')) (prefix @ ''.parentId cannot reference itself''))"

definition workstream_keys :: "json list \<Rightarrow> json list" where
  "workstream_keys ws = js_set (map (\<lambda>w. jget w ''id'') ws)"

definition workstream_edges :: "json list \<Rightarrow> (json \<times> json) list" where
  "workstream_edges ws =
     map (\<lambda>w. (jget w ''parentId'', jget w ''id''))
       (filter (\<lambda>w. truthy (jget w ''parentId'') \<and> jget w ''parentId'' \<in> set (workstream_keys ws)) ws)"

definition join_sep :: "string \<Rightarrow> string list \<Rightarrow> string" where
  "join_sep sep xs = (case xs of [] \<Rightarrow> [] | x # ys \<Rightarrow> x @ concat (map (\<lambda>y. sep @ y) ys))"

definition cycle_nodes :: "json list \<Rightarrow> (json \<rightharpoonup> int) \<Rightarrow> json list" where
  "cycle_nodes keys deg = filter (\<lambda>k. case deg k of Some d \<Rightarrow> d > 0 | None \<Rightarrow> False) keys"

definition validateWorkstreamDAG :: "json list \<Rightarrow> string list" where
  "validateWorkstreamDAG ws =
     (let keys = workstream_keys ws;
          (done, deg) = kahn_from 1 (\<lambda>q. q) keys (workstream_edges ws) in
      if length done < length ws
      then [''Workstream hierarchy cycle detected involving: ''
              @ join_sep '', '' (map element_text (cycle_nodes keys deg))]
      else [])"

definition validateWorkstreams :: "json \<Rightarrow> string list" where
  "validateWorkstreams v =
     (case v of
        JArr xs \<Rightarrow>
          if xs = [] then [''workstreams must contain at least one workstream'']
          else (let (es, ids) = item_loop workstream_fields (duplicate_id ''workstream'') True
                      (\<lambda>_ _. []) ''workstreams'' 0 [] xs;
                    typed = filter is_object xs in
                push_if (int (length xs) > 200) ''workstreams must not exceed 200 entries''
                @ es @ enumerate_errors (workstream_parent ids) 0 typed @ validateWorkstreamDAG typed)
      | _ \<Rightarrow> [''workstreams must be an array''])"

definition collect_ids :: "json \<Rightarrow> string list" where
  "collect_ids v = (case v of
      JArr xs \<Rightarrow> concat (map (\<lambda>x. case jget x ''id'' of JStr s \<Rightarrow> [s] | _ \<Rightarrow> []) xs)
    | _ \<Rightarrow> [])"

section \<open>Acceptance criteria\<close>

definition ACCEPTANCE_CRITERION_KEYS :: "string list" where
  "ACCEPTANCE_CRITERION_KEYS = [''id'', ''statement'', ''requiredEvidence'']"

definition EVIDENCE_REQUIREMENT_KEYS :: "string list" where
  "EVIDENCE_REQUIREMENT_KEYS = [''allowedTypes'', ''minAuthority'', ''requiredCollectorClass'', ''minPassingStatus'']"

definition is_array :: "json \<Rightarrow> bool" where
  "is_array v = (case v of JArr _ \<Rightarrow> True | _ \<Rightarrow> False)"

definition evidence_requirement_fields :: "string \<Rightarrow> nat \<Rightarrow> json \<Rightarrow> string list" where
  "evidence_requirement_fields critPrefix k ev =
     (let p = indexed (critPrefix @ ''.requiredEvidence'') k in
      if \<not> is_object ev then [p @ '' must be an object'']
      else checkUnknownFields ev EVIDENCE_REQUIREMENT_KEYS p
        @ push_if (jget ev ''allowedTypes'' \<noteq> JUndefined \<and> \<not> is_array (jget ev ''allowedTypes''))
            (p @ ''.allowedTypes must be an array'')
        @ push_if (jget ev ''minAuthority'' \<noteq> JUndefined \<and> \<not> is_string (jget ev ''minAuthority''))
            (p @ ''.minAuthority must be a string'')
        @ push_if (jget ev ''requiredCollectorClass'' \<noteq> JUndefined \<and> \<not> is_string (jget ev ''requiredCollectorClass''))
            (p @ ''.requiredCollectorClass must be a string''))"

definition criterion_fields_pre :: "string \<Rightarrow> json \<Rightarrow> string list" where
  "criterion_fields_pre p c =
     checkUnknownFields c ACCEPTANCE_CRITERION_KEYS p
     @ validateStringField (jget c ''id'') ''id'' 128 p"

definition criterion_fields_post :: "string \<Rightarrow> json \<Rightarrow> string list" where
  "criterion_fields_post p c =
     validateStringField (jget c ''statement'') ''statement'' 2048 p
     @ (case jget c ''requiredEvidence'' of
          JArr evs \<Rightarrow> enumerate_errors (evidence_requirement_fields p) 0 evs
        | _ \<Rightarrow> [p @ ''.requiredEvidence must be an array''])"

definition validateAcceptanceCriteria :: "json \<Rightarrow> string \<Rightarrow> string list" where
  "validateAcceptanceCriteria v prefix =
     (case v of
        JArr cs \<Rightarrow>
          push_if (int (length cs) > 100) (prefix @ ''.acceptanceCriteria must not exceed 100'')
          @ fst (item_loop criterion_fields_pre (duplicate_id ''acceptance criterion'') False
                   criterion_fields_post (prefix @ ''.acceptanceCriteria'') 0 [] cs)
      | _ \<Rightarrow> [prefix @ ''.acceptanceCriteria must be an array''])"

section \<open>Requirements\<close>

definition REQUIREMENT_KEYS :: "string list" where
  "REQUIREMENT_KEYS = [''id'', ''workstreamId'', ''kind'', ''statement'', ''rationale'', ''sourceRefs'',
     ''dependencies'', ''acceptanceCriteria'', ''initialApplicability'']"

definition js_iterate :: "json \<Rightarrow> json list option" where
  "js_iterate v = (case v of
      JArr xs \<Rightarrow> Some xs
    | JStr s \<Rightarrow> Some (map (\<lambda>ch. JStr [ch]) s)
    | _ \<Rightarrow> None)"

fun dependency_errors :: "string \<Rightarrow> nat \<Rightarrow> string list \<Rightarrow> json list \<Rightarrow> string list" where
  "dependency_errors p j seen [] = []"
| "dependency_errors p j seen (d # ds) =
     (case d of
        JStr s \<Rightarrow> push_if (s \<in> set seen) (p @ ''.dependencies contains duplicate: '' @ s)
                  @ dependency_errors p (Suc j) (s # seen) ds
      | _ \<Rightarrow> (indexed (p @ ''.dependencies'') j @ '' must be a string'')
             # dependency_errors p (Suc j) seen ds)"

definition requirement_fields_pre :: "string \<Rightarrow> json \<Rightarrow> string list" where
  "requirement_fields_pre p r =
     checkUnknownFields r REQUIREMENT_KEYS p @ validateStringField (jget r ''id'') ''id'' 128 p"

definition requirement_workstream :: "string list \<Rightarrow> string \<Rightarrow> json \<Rightarrow> string list" where
  "requirement_workstream workstreamIds p r =
     validateStringField (jget r ''workstreamId'') ''workstreamId'' 128 p
     @ (case jget r ''workstreamId'' of
          JStr s \<Rightarrow> push_if (s \<noteq> [] \<and> s \<notin> set workstreamIds)
                     (p @ ''.workstreamId references unknown workstream: '' @ s)
        | _ \<Rightarrow> [])"

definition requirement_provenance :: "string \<Rightarrow> json \<Rightarrow> string list" where
  "requirement_provenance p r =
     push_if (jget r ''kind'' \<noteq> JStr ''EXPLICIT'' \<and> jget r ''kind'' \<noteq> JStr ''INFERRED'')
       (p @ ''.kind must be '' @ dq ''EXPLICIT'' @ '' or '' @ dq ''INFERRED'')
     @ push_if (jget r ''kind'' = JStr ''INFERRED'' \<and> \<not> truthy (jget r ''rationale''))
         (p @ '': INFERRED requirement must include a rationale'')
     @ validateStringField (jget r ''statement'') ''statement'' 4096 p
     @ (case jget r ''rationale'' of
          JUndefined \<Rightarrow> []
        | JStr s \<Rightarrow> push_if (int (length s) > 4096) (p @ ''.rationale exceeds maximum length of 4096'')
        | _ \<Rightarrow> [p @ ''.rationale must be a string''])"

definition requirement_lists :: "string \<Rightarrow> json \<Rightarrow> string list" where
  "requirement_lists p r =
     (case jget r ''sourceRefs'' of
        JArr xs \<Rightarrow> enumerate_errors (\<lambda>j x. push_if (\<not> is_string x)
                     (indexed (p @ ''.sourceRefs'') j @ '' must be a string'')) 0 xs
      | _ \<Rightarrow> [p @ ''.sourceRefs must be an array''])
     @ (case jget r ''dependencies'' of
          JArr ds \<Rightarrow> if int (length ds) > 50 then [p @ ''.dependencies must not exceed 50'']
                     else dependency_errors p 0 [] ds
        | _ \<Rightarrow> [p @ ''.dependencies must be an array''])"

definition requirement_applicability :: "string \<Rightarrow> json \<Rightarrow> string list" where
  "requirement_applicability p r =
     (let a = jget r ''initialApplicability'' in
      if a = JUndefined then []
      else push_if (a \<noteq> JStr ''APPLICABLE'' \<and> a \<noteq> JStr ''NOT_APPLICABLE'')
             (p @ ''.initialApplicability must be '' @ dq ''APPLICABLE'' @ '' or '' @ dq ''NOT_APPLICABLE'')
           @ push_if (a = JStr ''NOT_APPLICABLE'' \<and> \<not> truthy (jget r ''rationale''))
             (p @ '': NOT_APPLICABLE initial applicability must have rationale''))"

definition requirement_fields_post :: "string list \<Rightarrow> string \<Rightarrow> json \<Rightarrow> string list" where
  "requirement_fields_post workstreamIds p r =
     requirement_workstream workstreamIds p r @ requirement_provenance p r @ requirement_lists p r
     @ validateAcceptanceCriteria (jget r ''acceptanceCriteria'') p @ requirement_applicability p r"

definition dependency_references :: "string list \<Rightarrow> nat \<Rightarrow> json \<Rightarrow> json list \<Rightarrow> string list" where
  "dependency_references ids i r ds =
     concat (map (\<lambda>d.
         push_if (d \<notin> JStr ` set ids)
           (indexed ''requirements'' i @ ''.dependencies references unknown requirement: '' @ js_text d)
         @ push_if (js_same d (jget r ''id''))
             (indexed ''requirements'' i @ ''.dependencies cannot reference itself'')) ds)"

fun requirement_references :: "string list \<Rightarrow> nat \<Rightarrow> json list \<Rightarrow> string list option" where
  "requirement_references ids i [] = Some []"
| "requirement_references ids i (r # rs) =
     (case (if jget r ''dependencies'' = JUndefined \<or> jget r ''dependencies'' = JNull then Some []
            else js_iterate (jget r ''dependencies'')) of
        None \<Rightarrow> None
      | Some ds \<Rightarrow> map_option (\<lambda>es. dependency_references ids i r ds @ es)
                     (requirement_references ids (Suc i) rs))"

definition validateRequirements :: "json \<Rightarrow> string list \<Rightarrow> string list option" where
  "validateRequirements v workstreamIds =
     (case v of
        JArr xs \<Rightarrow>
          if xs = [] then Some [''requirements must contain at least one requirement'']
          else (let (es, ids) = item_loop requirement_fields_pre (duplicate_id ''requirement'') False
                      (requirement_fields_post workstreamIds) ''requirements'' 0 [] xs in
                map_option (\<lambda>refs. push_if (int (length xs) > 500) ''requirements must not exceed 500 entries'' @ es @ refs)
                  (requirement_references ids 0 (filter is_object xs)))
      | _ \<Rightarrow> Some [''requirements must be an array''])"

definition requirement_keys :: "json list \<Rightarrow> json list" where
  "requirement_keys rs = js_set (map (\<lambda>r. jget r ''id'') rs)"

definition requirement_edges :: "json list \<Rightarrow> (json \<times> json) list" where
  "requirement_edges rs =
     concat (map (\<lambda>r. map (\<lambda>d. (d, jget r ''id''))
       (filter (\<lambda>d. d \<in> set (requirement_keys rs))
          (case js_iterate (jget r ''dependencies'') of Some ds \<Rightarrow> ds | None \<Rightarrow> []))) rs)"

definition validateRequirementDAG :: "json list \<Rightarrow> string list option" where
  "validateRequirementDAG rs =
     (if \<exists>r \<in> set rs. r = JUndefined \<or> r = JNull \<or> js_iterate (jget r ''dependencies'') = None then None
      else Some
        (let keys = requirement_keys rs;
             (done, deg) = kahn_from 1 (\<lambda>q. q) keys (requirement_edges rs) in
         if length done < length rs
         then (let cyc = sort_key js_text (cycle_nodes keys deg) in
               case cyc of
                 [a, b] \<Rightarrow> [''Dependency cycle detected: '' @ js_text a @ '' -> '' @ js_text b @ '' -> '' @ js_text a]
               | _ \<Rightarrow> [''Dependency cycle detected involving: '' @ join_sep '', '' (map element_text cyc)])
         else []))"

section \<open>Constraints, forbidden actions, evidence policy\<close>

definition CONSTRAINT_KEYS :: "string list" where
  "CONSTRAINT_KEYS = [''id'', ''kind'', ''statement'', ''sourceRefs'', ''severity'']"

definition FORBIDDEN_ACTION_KEYS :: "string list" where
  "FORBIDDEN_ACTION_KEYS = [''id'', ''statement'', ''sourceRefs'', ''severity'', ''matchHint'']"

definition EVIDENCE_POLICY_KEYS :: "string list" where
  "EVIDENCE_POLICY_KEYS = [''authoritativeSources'', ''rules'']"

definition EVIDENCE_POLICY_RULE_KEYS :: "string list" where
  "EVIDENCE_POLICY_RULE_KEYS = [''id'', ''description'', ''allowedTypes'', ''minAuthority'', ''requiredCollectorClass'']"

definition severity_field :: "string \<Rightarrow> json \<Rightarrow> string list" where
  "severity_field p x =
     push_if (\<not> is_array (jget x ''sourceRefs'')) (p @ ''.sourceRefs must be an array'')
     @ push_if (jget x ''severity'' \<noteq> JStr ''error'' \<and> jget x ''severity'' \<noteq> JStr ''warning'')
         (p @ ''.severity must be '' @ dq ''error'' @ '' or '' @ dq ''warning'')"

definition constraint_fields_pre :: "string \<Rightarrow> json \<Rightarrow> string list" where
  "constraint_fields_pre p x =
     checkUnknownFields x CONSTRAINT_KEYS p @ validateStringField (jget x ''id'') ''id'' 128 p"

definition constraint_fields_post :: "string \<Rightarrow> json \<Rightarrow> string list" where
  "constraint_fields_post p x =
     push_if (jget x ''kind'' \<notin> JStr ` {''REQUIRED'', ''LIMIT'', ''ENVIRONMENT'', ''PROCESS'', ''SECURITY'', ''COMPATIBILITY''})
       (p @ ''.kind must be one of: REQUIRED, LIMIT, ENVIRONMENT, PROCESS, SECURITY, COMPATIBILITY'')
     @ validateStringField (jget x ''statement'') ''statement'' 2048 p @ severity_field p x"

definition validateConstraints :: "json \<Rightarrow> string list" where
  "validateConstraints v =
     (case v of
        JArr xs \<Rightarrow>
          push_if (int (length xs) > 200) ''constraints must not exceed 200 entries''
          @ fst (item_loop constraint_fields_pre (duplicate_id ''constraint'') False
                   constraint_fields_post ''constraints'' 0 [] xs)
      | _ \<Rightarrow> [''constraints must be an array''])"

definition forbidden_fields_pre :: "string \<Rightarrow> json \<Rightarrow> string list" where
  "forbidden_fields_pre p x =
     checkUnknownFields x FORBIDDEN_ACTION_KEYS p @ validateStringField (jget x ''id'') ''id'' 128 p"

definition forbidden_fields_post :: "string \<Rightarrow> json \<Rightarrow> string list" where
  "forbidden_fields_post p x =
     validateStringField (jget x ''statement'') ''statement'' 2048 p @ severity_field p x"

definition validateForbiddenActions :: "json \<Rightarrow> string list" where
  "validateForbiddenActions v =
     (case v of
        JArr xs \<Rightarrow>
          push_if (int (length xs) > 200) ''forbiddenActions must not exceed 200 entries''
          @ fst (item_loop forbidden_fields_pre (duplicate_id ''forbidden action'') False
                   forbidden_fields_post ''forbiddenActions'' 0 [] xs)
      | _ \<Rightarrow> [''forbiddenActions must be an array''])"

definition policy_rule_fields :: "string \<Rightarrow> json \<Rightarrow> string list" where
  "policy_rule_fields p x =
     checkUnknownFields x EVIDENCE_POLICY_RULE_KEYS p @ validateStringField (jget x ''id'') ''id'' 128 p"

definition validateEvidencePolicy :: "json \<Rightarrow> string list" where
  "validateEvidencePolicy v =
     (if \<not> is_object v then [''evidencePolicy must be an object'']
      else checkUnknownFields v EVIDENCE_POLICY_KEYS ''evidencePolicy''
        @ push_if (\<not> is_array (jget v ''authoritativeSources'')) ''evidencePolicy.authoritativeSources must be an array''
        @ (case jget v ''rules'' of
             JUndefined \<Rightarrow> []
           | JArr xs \<Rightarrow>
               push_if (int (length xs) > 50) ''evidencePolicy.rules must not exceed 50 entries''
               @ fst (item_loop policy_rule_fields (duplicate_id ''evidence policy rule'') False
                        (\<lambda>_ _. []) ''evidencePolicy.rules'' 0 [] xs)
           | _ \<Rightarrow> [''evidencePolicy.rules must be an array'']))"

section \<open>Criterion identifiers\<close>

text \<open>Every acceptance criterion with a non-empty string identifier, with its position.\<close>

definition array_items :: "json \<Rightarrow> json list" where
  "array_items v = (case v of JArr xs \<Rightarrow> xs | _ \<Rightarrow> [])"

definition criterion_positions :: "json list \<Rightarrow> (string \<times> nat \<times> nat) list" where
  "criterion_positions rs =
     concat (map (\<lambda>(i, r).
       concat (map (\<lambda>(j, c). case jget c ''id'' of
            JStr s \<Rightarrow> if s = [] then [] else [(s, i, j)]
          | _ \<Rightarrow> []) (enumerate 0 (array_items (jget r ''acceptanceCriteria''))))) (enumerate 0 rs))"

definition criterion_place :: "nat \<times> nat \<Rightarrow> string" where
  "criterion_place p = indexed ''requirements'' (fst p) @ indexed ''.acceptanceCriteria'' (snd p)"

fun criterion_duplicates ::
  "(string \<times> nat \<times> nat) list \<Rightarrow> (string \<times> nat \<times> nat) list \<Rightarrow> string list" where
  "criterion_duplicates seen [] = []"
| "criterion_duplicates seen ((s, p) # ps) =
     (case map_of seen s of
        Some q \<Rightarrow> (''Duplicate acceptance criterion id: '' @ s @ '' ('' @ criterion_place q @ '' and ''
                    @ criterion_place p @ '')'') # criterion_duplicates seen ps
      | None \<Rightarrow> criterion_duplicates ((s, p) # seen) ps)"

definition validateGlobalCriterionIds :: "json \<Rightarrow> string list \<times> string list" where
  "validateGlobalCriterionIds v =
     (let ps = criterion_positions (array_items v)
      in (criterion_duplicates [] ps, js_set (map fst ps)))"

text \<open>Version 1 of the schema has no field that refers to a criterion.\<close>

definition validateCriterionReferences :: "json \<Rightarrow> string list \<Rightarrow> string list" where
  "validateCriterionReferences contract globalCriterionIds = []"

fun grant_criteria :: "string list \<Rightarrow> nat \<Rightarrow> nat \<Rightarrow> string list \<Rightarrow> string list \<Rightarrow> string list" where
  "grant_criteria globalIds i j seen [] = []"
| "grant_criteria globalIds i j seen (c # cs) =
     (let p = indexed ''sourceGrants'' i @ indexed ''.allowedCriterionIds'' j @ '': '' in
      if c = [] then (p @ ''empty criterion ID'') # grant_criteria globalIds i (Suc j) seen cs
      else if js_blank c then (p @ ''whitespace-only criterion ID'') # grant_criteria globalIds i (Suc j) seen cs
      else if c \<noteq> js_trim c
        then (p @ ''criterion ID has leading/trailing whitespace: '' @ dq c) # grant_criteria globalIds i (Suc j) seen cs
      else if c \<notin> set globalIds
        then (p @ ''Unknown acceptance criterion id reference: '' @ c) # grant_criteria globalIds i (Suc j) seen cs
      else if c \<in> set seen
        then (p @ ''duplicate criterion ID reference: '' @ c) # grant_criteria globalIds i (Suc j) seen cs
      else grant_criteria globalIds i (Suc j) (c # seen) cs)"

text \<open>A grant is given by its \<open>allowedCriterionIds\<close>.\<close>

definition validateSourceGrantCriterionIds :: "string list option list \<Rightarrow> string list \<Rightarrow> string list" where
  "validateSourceGrantCriterionIds grants globalIds =
     enumerate_errors (\<lambda>i g. case g of None \<Rightarrow> [] | Some cs \<Rightarrow> grant_criteria globalIds i 0 [] cs) 0 grants"

section \<open>The whole document\<close>

definition MISSION_CONTRACT_TOP_LEVEL_KEYS :: "string list" where
  "MISSION_CONTRACT_TOP_LEVEL_KEYS = [''contractVersion'', ''missionId'', ''revision'', ''title'', ''objective'',
     ''workstreams'', ''requirements'', ''constraints'', ''forbiddenActions'', ''evidencePolicy'', ''metadata'']"

definition top_level_fields :: "json \<Rightarrow> string list" where
  "top_level_fields c =
     map (\<lambda>k. ''Unknown top-level field: '' @ dq k)
       (filter (\<lambda>k. k \<notin> set MISSION_CONTRACT_TOP_LEVEL_KEYS) (object_keys c))
     @ push_if (jget c ''contractVersion'' \<noteq> JNum (IntNum 1)) ''contractVersion must be 1''
     @ (case jget c ''missionId'' of
          JStr s \<Rightarrow> if s = [] then [''missionId must be a non-empty string'']
                    else if s \<noteq> js_trim s then [''missionId must not have leading/trailing whitespace'']
                    else push_if (int (length s) > 128) ''missionId must not exceed 128 characters''
        | _ \<Rightarrow> [''missionId must be a non-empty string''])
     @ (case jget c ''revision'' of
          JNum (IntNum n) \<Rightarrow> push_if (n < 0) ''revision must be a non-negative integer''
        | _ \<Rightarrow> [''revision must be a non-negative integer''])
     @ push_if (\<not> is_string (jget c ''title'') \<or> jget c ''title'' = JStr []) ''title must be a non-empty string''
     @ push_if (\<not> is_string (jget c ''objective'')) ''objective must be a string''
     @ push_if (jget c ''metadata'' \<noteq> JUndefined \<and> (\<not> is_object (jget c ''metadata'') \<or> is_array (jget c ''metadata'')))
         ''metadata must be an object when present''"

definition validateMissionContract :: "json \<Rightarrow> string list option" where
  "validateMissionContract c =
     (if c = JNull \<or> c = JUndefined then Some [''Input must be a non-null object'']
      else if \<not> is_object c then Some [''Input must be an object'']
      else
        (case validateRequirements (jget c ''requirements'') (collect_ids (jget c ''workstreams'')) of
           None \<Rightarrow> None
         | Some reqErrors \<Rightarrow>
             (let (critErrors, critIds) = validateGlobalCriterionIds (jget c ''requirements'') in
              map_option (\<lambda>dag.
                  top_level_fields c @ validateWorkstreams (jget c ''workstreams'') @ reqErrors @ critErrors
                  @ validateCriterionReferences c critIds @ validateConstraints (jget c ''constraints'')
                  @ validateForbiddenActions (jget c ''forbiddenActions'')
                  @ validateEvidencePolicy (jget c ''evidencePolicy'') @ dag)
                (case jget c ''requirements'' of JArr rs \<Rightarrow> validateRequirementDAG rs | _ \<Rightarrow> Some []))))"

section \<open>Typed contracts\<close>

text \<open>The JavaScript object a typed contract is: the fields of its interfaces, optional ones
  only when present.\<close>

definition strings :: "string list \<Rightarrow> json" where
  "strings xs = JArr (map JStr xs)"

definition workstream_json :: "mission_workstream \<Rightarrow> json" where
  "workstream_json w = JObj
     ([(''id'', JStr (ws_id w)), (''title'', JStr (ws_title w))]
      @ opt_member ''description'' (map_option JStr (ws_description w))
      @ opt_member ''parentId'' (map_option JStr (ws_parentId w))
      @ opt_member ''order'' (map_option (JNum \<circ> IntNum) (ws_order w)))"

definition evidence_requirement_json :: "evidence_requirement \<Rightarrow> json" where
  "evidence_requirement_json r = JObj
     (opt_member ''allowedTypes'' (map_option strings (er_allowedTypes r))
      @ opt_member ''minAuthority'' (map_option (JStr \<circ> authority_text) (er_minAuthority r))
      @ opt_member ''requiredCollectorClass'' (map_option JStr (er_requiredCollectorClass r))
      @ opt_member ''minPassingStatus'' (if er_minPassingStatus r then Some (JStr ''pass'') else None))"

definition criterion_json :: "acceptance_criterion \<Rightarrow> json" where
  "criterion_json c = JObj
     [(''id'', JStr (ac_id c)), (''statement'', JStr (ac_statement c)),
      (''requiredEvidence'', JArr (map evidence_requirement_json (ac_requiredEvidence c)))]"

definition requirement_json :: "mission_requirement \<Rightarrow> json" where
  "requirement_json r = JObj
     ([(''id'', JStr (mr_id r)), (''workstreamId'', JStr (mr_workstreamId r)),
       (''kind'', JStr (requirement_kind_text (mr_kind r))), (''statement'', JStr (mr_statement r)),
       (''sourceRefs'', strings (mr_sourceRefs r)), (''dependencies'', strings (mr_dependencies r)),
       (''acceptanceCriteria'', JArr (map criterion_json (mr_acceptanceCriteria r)))]
      @ opt_member ''rationale'' (map_option JStr (mr_rationale r))
      @ opt_member ''initialApplicability'' (map_option (JStr \<circ> applicability_text) (mr_initialApplicability r)))"

definition constraint_json :: "mission_constraint \<Rightarrow> json" where
  "constraint_json c = JObj
     [(''id'', JStr (con_id c)), (''kind'', JStr (constraint_kind_text (con_kind c))),
      (''statement'', JStr (con_statement c)), (''sourceRefs'', strings (con_sourceRefs c)),
      (''severity'', JStr (severity_text (con_severity c)))]"

definition forbidden_json :: "forbidden_action \<Rightarrow> json" where
  "forbidden_json a = JObj
     ([(''id'', JStr (fa_id a)), (''statement'', JStr (fa_statement a)),
       (''sourceRefs'', strings (fa_sourceRefs a)), (''severity'', JStr (severity_text (fa_severity a)))]
      @ opt_member ''matchHint'' (map_option JStr (fa_matchHint a)))"

definition policy_rule_json :: "evidence_policy_rule \<Rightarrow> json" where
  "policy_rule_json r = JObj
     ([(''id'', JStr (pr_id r)), (''description'', JStr (pr_description r))]
      @ opt_member ''allowedTypes'' (map_option strings (pr_allowedTypes r))
      @ opt_member ''minAuthority'' (map_option (JStr \<circ> authority_text) (pr_minAuthority r))
      @ opt_member ''requiredCollectorClass'' (map_option JStr (pr_requiredCollectorClass r)))"

definition policy_json :: "mission_evidence_policy \<Rightarrow> json" where
  "policy_json p = JObj
     ([(''authoritativeSources'', strings (map authority_text (ep_authoritativeSources p)))]
      @ opt_member ''rules'' (map_option (JArr \<circ> map policy_rule_json) (ep_rules p)))"

definition contract_json :: "mission_contract \<Rightarrow> json" where
  "contract_json c = JObj
     ([(''contractVersion'', JNum (IntNum (mc_contractVersion c))), (''missionId'', JStr (mc_missionId c)),
       (''revision'', JNum (IntNum (mc_revision c))), (''title'', JStr (mc_title c)),
       (''objective'', JStr (mc_objective c)),
       (''workstreams'', JArr (map workstream_json (mc_workstreams c))),
       (''requirements'', JArr (map requirement_json (mc_requirements c))),
       (''constraints'', JArr (map constraint_json (mc_constraints c))),
       (''forbiddenActions'', JArr (map forbidden_json (mc_forbiddenActions c))),
       (''evidencePolicy'', policy_json (mc_evidencePolicy c))]
      @ opt_member ''metadata'' (mc_metadata c))"

definition contract_valid :: "mission_contract \<Rightarrow> bool" where
  "contract_valid c \<longleftrightarrow> validateMissionContract (contract_json c) = Some []"

section \<open>Reading the object of a typed contract\<close>

lemma fst_opt_member [simp]: "fst ` set (opt_member k v) = (if v = None then {} else {k})"
  by (cases v) (simp_all add: opt_member_def)

lemma jget_opt_member [simp]:
  "jget (JObj (opt_member k v)) k' = (if k' = k then case v of None \<Rightarrow> JUndefined | Some j \<Rightarrow> j else JUndefined)"
  by (simp add: opt_member_def split: option.split)

lemma is_object_json [simp]:
  "is_object (workstream_json w)" "is_object (requirement_json r)" "is_object (criterion_json k)"
  "is_object (contract_json c)"
  by (simp_all add: workstream_json_def requirement_json_def criterion_json_def contract_json_def)

lemma workstream_json_fields [simp]:
  "jget (workstream_json w) ''id'' = JStr (ws_id w)"
  "jget (workstream_json w) ''parentId'' = (case ws_parentId w of None \<Rightarrow> JUndefined | Some p \<Rightarrow> JStr p)"
  by (simp_all add: workstream_json_def split: option.split)

lemma criterion_json_fields [simp]: "jget (criterion_json k) ''id'' = JStr (ac_id k)"
  by (simp add: criterion_json_def)

lemma requirement_json_fields [simp]:
  "jget (requirement_json r) ''id'' = JStr (mr_id r)"
  "jget (requirement_json r) ''workstreamId'' = JStr (mr_workstreamId r)"
  "jget (requirement_json r) ''kind'' = JStr (requirement_kind_text (mr_kind r))"
  "jget (requirement_json r) ''dependencies'' = strings (mr_dependencies r)"
  "jget (requirement_json r) ''acceptanceCriteria'' = JArr (map criterion_json (mr_acceptanceCriteria r))"
  "jget (requirement_json r) ''rationale'' = (case mr_rationale r of None \<Rightarrow> JUndefined | Some x \<Rightarrow> JStr x)"
  "jget (requirement_json r) ''initialApplicability'' =
     (case mr_initialApplicability r of None \<Rightarrow> JUndefined | Some a \<Rightarrow> JStr (applicability_text a))"
  by (simp_all add: requirement_json_def split: option.split)

lemma contract_json_fields [simp]:
  "jget (contract_json c) ''contractVersion'' = JNum (IntNum (mc_contractVersion c))"
  "jget (contract_json c) ''missionId'' = JStr (mc_missionId c)"
  "jget (contract_json c) ''revision'' = JNum (IntNum (mc_revision c))"
  "jget (contract_json c) ''workstreams'' = JArr (map workstream_json (mc_workstreams c))"
  "jget (contract_json c) ''requirements'' = JArr (map requirement_json (mc_requirements c))"
  "jget (contract_json c) ''constraints'' = JArr (map constraint_json (mc_constraints c))"
  "jget (contract_json c) ''forbiddenActions'' = JArr (map forbidden_json (mc_forbiddenActions c))"
  "jget (contract_json c) ''evidencePolicy'' = policy_json (mc_evidencePolicy c)"
  by (simp_all add: contract_json_def)

section \<open>What the checks establish\<close>

lemma validateStringField_Nil:
  "validateStringField (JStr s) name n p = [] \<longleftrightarrow> s \<noteq> [] \<and> js_trim s = s \<and> int (length s) \<le> n"
  by (auto simp: validateStringField_def)

lemma item_loop_typed:
  assumes "fst (item_loop pre dup keep_empty post base i ids (map enc ys)) = []"
    and "\<And>y. is_object (enc y)" and "\<And>y. jget (enc y) ''id'' = JStr (key y)"
    and "\<And>p y. pre p (enc y) = [] \<Longrightarrow> key y \<noteq> []"
  shows "distinct (map key ys) \<and> set ids \<inter> key ` set ys = {} \<and>
    (\<forall>y \<in> set ys. \<exists>p. pre p (enc y) = [] \<and> post p (enc y) = []) \<and>
    set (snd (item_loop pre dup keep_empty post base i ids (map enc ys))) = set ids \<union> key ` set ys"
  using assms(1)
proof (induction ys arbitrary: i ids)
  case Nil
  then show ?case by simp
next
  case (Cons y ys)
  have here: "pre (indexed base i) (enc y) = []" "post (indexed base i) (enc y) = []" "key y \<notin> set ids"
    using Cons.prems assms(2,3) by (auto simp: check_id_def split: if_splits prod.splits)
  have "key y \<noteq> []" using here(1) assms(4) by blast
  then have step: "item_loop pre dup keep_empty post base i ids (map enc (y # ys)) =
      item_loop pre dup keep_empty post base (Suc i) (key y # ids) (map enc ys)"
    using here assms(2,3) by (auto simp: check_id_def split: prod.splits)
  have "fst (item_loop pre dup keep_empty post base (Suc i) (key y # ids) (map enc ys)) = []"
    using Cons.prems unfolding step .
  from Cons.IH [OF this] show ?case unfolding step using here by auto
qed

lemma workstreams_ok:
  assumes "validateWorkstreams (JArr (map workstream_json ws)) = []"
  shows "ws \<noteq> []" and "distinct (map ws_id ws)" and "[] \<notin> ws_id ` set ws"
    and "validateWorkstreamDAG (map workstream_json ws) = []"
    and "\<forall>w \<in> set ws. \<forall>p. ws_parentId w = Some p \<longrightarrow> p \<in> ws_id ` set ws \<and> p \<noteq> ws_id w"
proof -
  have objs: "filter is_object (map workstream_json ws) = map workstream_json ws"
    by (simp add: filter_id_conv)
  let ?loop = "item_loop workstream_fields (duplicate_id ''workstream'') True
      (\<lambda>_ _. []) ''workstreams'' 0 [] (map workstream_json ws)"
  show "ws \<noteq> []" using assms by (auto simp: validateWorkstreams_def)
  then have parts: "fst ?loop = []"
    "enumerate_errors (workstream_parent (snd ?loop)) 0 (map workstream_json ws) = []"
    "validateWorkstreamDAG (map workstream_json ws) = []"
    using assms by (simp_all add: validateWorkstreams_def objs Let_def case_prod_beta)
  have "workstream_fields p (workstream_json w) = [] \<Longrightarrow> ws_id w \<noteq> []" for p w
    by (simp add: workstream_fields_def validateStringField_Nil)
  from item_loop_typed [where key = ws_id, OF parts(1) _ _ this]
  have loop: "distinct (map ws_id ws)" "set (snd ?loop) = ws_id ` set ws"
    and fields: "\<forall>w \<in> set ws. \<exists>p. workstream_fields p (workstream_json w) = []" by auto
  from fields show "[] \<notin> ws_id ` set ws"
    by (auto simp: workstream_fields_def validateStringField_Nil)
  from loop show "distinct (map ws_id ws)" by simp
  show "validateWorkstreamDAG (map workstream_json ws) = []" by (rule parts)
  show "\<forall>w \<in> set ws. \<forall>p. ws_parentId w = Some p \<longrightarrow> p \<in> ws_id ` set ws \<and> p \<noteq> ws_id w"
  proof (intro ballI allI impI)
    fix w p assume "w \<in> set ws" "ws_parentId w = Some p"
    then obtain j where "workstream_parent (snd ?loop) j (workstream_json w) = []"
      using enumerate_errors_Nil [OF parts(2)] by (auto simp: image_iff)
    with \<open>ws_parentId w = Some p\<close> show "p \<in> ws_id ` set ws \<and> p \<noteq> ws_id w"
      using loop(2) by (auto simp: workstream_parent_def Let_def)
  qed
qed

lemma js_iterate_strings [simp]: "js_iterate (strings xs) = Some (map JStr xs)"
  by (simp add: js_iterate_def strings_def)

lemma strings_not_nullish [simp]: "strings xs \<noteq> JUndefined" "strings xs \<noteq> JNull"
  by (simp_all add: strings_def)

lemma dependency_errors_Nil:
  "dependency_errors p j seen (map JStr ds) = [] \<longleftrightarrow> distinct ds \<and> set seen \<inter> set ds = {}"
  by (induction ds arbitrary: j seen) auto

lemma requirement_references_Nil:
  assumes "requirement_references ids i (map requirement_json rs) = Some []" and "r \<in> set rs"
    and "d \<in> set (mr_dependencies r)"
  shows "d \<in> set ids \<and> d \<noteq> mr_id r"
  using assms
proof (induction rs arbitrary: i)
  case (Cons r' rs)
  then have "dependency_references ids i (requirement_json r') (map JStr (mr_dependencies r')) = []"
    and "requirement_references ids (Suc i) (map requirement_json rs) = Some []"
    by auto
  with Cons show ?case
    by (cases "r = r'") (auto simp: dependency_references_def)
qed simp

lemma kind_text [simp]:
  "requirement_kind_text k = ''INFERRED'' \<longleftrightarrow> k = Inferred"
  "applicability_text a = ''NOT_APPLICABLE'' \<longleftrightarrow> a = Not_Applicable"
  by (cases k; simp add: requirement_kind_text_def) (cases a; simp add: applicability_text_def)

definition requirement_wf :: "ident set \<Rightarrow> mission_requirement list \<Rightarrow> mission_requirement \<Rightarrow> bool" where
  "requirement_wf wids rs r \<longleftrightarrow>
     mr_id r \<noteq> [] \<and> mr_workstreamId r \<in> wids \<and>
     (mr_kind r = Inferred \<or> mr_initialApplicability r = Some Not_Applicable \<longrightarrow>
        (\<exists>s. mr_rationale r = Some s \<and> s \<noteq> [])) \<and>
     distinct (mr_dependencies r) \<and> set (mr_dependencies r) \<subseteq> mr_id ` set rs - {mr_id r} \<and>
     distinct (map ac_id (mr_acceptanceCriteria r)) \<and> [] \<notin> ac_id ` set (mr_acceptanceCriteria r)"

lemma requirements_ok:
  assumes "validateRequirements (JArr (map requirement_json rs)) wids = Some []"
  shows "rs \<noteq> []" and "distinct (map mr_id rs)"
    and "\<forall>r \<in> set rs. requirement_wf (set wids) rs r"
proof -
  have objs: "filter is_object (map requirement_json rs) = map requirement_json rs"
    by (simp add: filter_id_conv)
  let ?loop = "item_loop requirement_fields_pre (duplicate_id ''requirement'') False
      (requirement_fields_post wids) ''requirements'' 0 [] (map requirement_json rs)"
  show "rs \<noteq> []" using assms by (auto simp: validateRequirements_def)
  then have parts: "fst ?loop = []"
    "requirement_references (snd ?loop) 0 (map requirement_json rs) = Some []"
    using assms by (auto simp: validateRequirements_def objs Let_def case_prod_beta)
  have "requirement_fields_pre p (requirement_json r) = [] \<Longrightarrow> mr_id r \<noteq> []" for p r
    by (simp add: requirement_fields_pre_def validateStringField_Nil)
  from item_loop_typed [where key = mr_id, OF parts(1) _ _ this]
  have loop: "distinct (map mr_id rs)" "set (snd ?loop) = mr_id ` set rs"
    "\<forall>r \<in> set rs. \<exists>p. requirement_fields_pre p (requirement_json r) = [] \<and>
       requirement_fields_post wids p (requirement_json r) = []"
    by auto
  then show "distinct (map mr_id rs)" by simp
  show "\<forall>r \<in> set rs. requirement_wf (set wids) rs r"
  proof
    fix r assume r: "r \<in> set rs"
    then obtain p where pre: "requirement_fields_pre p (requirement_json r) = []"
      and post: "requirement_workstream wids p (requirement_json r) = []"
        "requirement_provenance p (requirement_json r) = []" "requirement_lists p (requirement_json r) = []"
        "validateAcceptanceCriteria (JArr (map criterion_json (mr_acceptanceCriteria r))) p = []"
        "requirement_applicability p (requirement_json r) = []"
      using loop(3) by (auto simp: requirement_fields_post_def)
    have ident: "mr_id r \<noteq> []"
      using pre by (simp add: requirement_fields_pre_def validateStringField_Nil)
    have wid: "mr_workstreamId r \<in> set wids"
      using post(1) by (auto simp: requirement_workstream_def validateStringField_Nil)
    have rat: "mr_kind r = Inferred \<or> mr_initialApplicability r = Some Not_Applicable \<longrightarrow>
        (\<exists>s. mr_rationale r = Some s \<and> s \<noteq> [])"
      using post(2,5)
      by (cases "mr_rationale r")
        (auto simp: requirement_provenance_def requirement_applicability_def Let_def)
    have deps: "distinct (mr_dependencies r)"
      using post(3) by (auto simp: requirement_lists_def strings_def dependency_errors_Nil split: if_splits)
    have refs: "set (mr_dependencies r) \<subseteq> mr_id ` set rs - {mr_id r}"
      using requirement_references_Nil [OF parts(2) r] loop(2) by blast
    have "criterion_fields_pre q (criterion_json k) = [] \<Longrightarrow> ac_id k \<noteq> []" for q k
      by (simp add: criterion_fields_pre_def validateStringField_Nil)
    moreover have "fst (item_loop criterion_fields_pre (duplicate_id ''acceptance criterion'') False
        criterion_fields_post (p @ ''.acceptanceCriteria'') 0 [] (map criterion_json (mr_acceptanceCriteria r))) = []"
      using post(4) by (simp add: validateAcceptanceCriteria_def)
    ultimately have "distinct (map ac_id (mr_acceptanceCriteria r))" "\<forall>k \<in> set (mr_acceptanceCriteria r). ac_id k \<noteq> []"
      using item_loop_typed [where key = ac_id and enc = criterion_json] by (auto, blast)
    with ident wid rat deps refs
    show "requirement_wf (set wids) rs r"
      by (auto simp: requirement_wf_def)
  qed
qed

section \<open>The two cycle checks\<close>

lemma json_text_inj [simp]: "inj JStr"
  by (simp add: inj_def)

text \<open>The edges of a typed contract.\<close>

definition hierarchy :: "mission_workstream list \<Rightarrow> (ident \<times> ident) set" where
  "hierarchy ws = {(p, ws_id w) |p w. w \<in> set ws \<and> ws_parentId w = Some p}"

definition dependencies :: "mission_requirement list \<Rightarrow> (ident \<times> ident) set" where
  "dependencies rs = {(d, mr_id r) |d r. r \<in> set rs \<and> d \<in> set (mr_dependencies r)}"

interpretation workstream_dag: kahn_sorter 1 "\<lambda>q. q" "children_of (workstream_edges ws)" "workstream_keys ws" for ws
  by unfold_locales (auto simp: children_of_def workstream_edges_def workstream_keys_def)

interpretation requirement_dag: kahn_sorter 1 "\<lambda>q. q" "children_of (requirement_edges rs)" "requirement_keys rs" for rs
  by unfold_locales (auto simp: children_of_def requirement_edges_def requirement_keys_def)

lemma workstream_keys_typed:
  assumes "distinct (map ws_id ws)"
  shows "workstream_keys (map workstream_json ws) = map (JStr \<circ> ws_id) ws"
proof -
  have "distinct (map (JStr \<circ> ws_id) ws)"
    using assms by (simp add: distinct_map inj_on_def)
  then show ?thesis
    unfolding workstream_keys_def by (simp add: js_set_id comp_def)
qed

lemma requirement_keys_typed:
  assumes "distinct (map mr_id rs)"
  shows "requirement_keys (map requirement_json rs) = map (JStr \<circ> mr_id) rs"
proof -
  have "distinct (map (JStr \<circ> mr_id) rs)"
    using assms by (simp add: distinct_map inj_on_def)
  then show ?thesis
    unfolding requirement_keys_def by (simp add: js_set_id comp_def)
qed

lemma workstream_edges_typed:
  assumes "distinct (map ws_id ws)" and "[] \<notin> ws_id ` set ws"
    and "\<forall>w \<in> set ws. \<forall>p. ws_parentId w = Some p \<longrightarrow> p \<in> ws_id ` set ws"
  shows "set (workstream_edges (map workstream_json ws)) = map_prod JStr JStr ` hierarchy ws"
proof (rule set_eqI)
  fix e
  have mem: "JStr x \<in> set (workstream_keys (map workstream_json ws)) \<longleftrightarrow> x \<in> ws_id ` set ws" for x
    unfolding workstream_keys_typed [OF assms(1)] by auto
  have undef: "JUndefined \<notin> set (workstream_keys (map workstream_json ws))"
    unfolding workstream_keys_typed [OF assms(1)] by auto
  have one: "truthy (jget (workstream_json w) ''parentId'') \<and>
      jget (workstream_json w) ''parentId'' \<in> set (workstream_keys (map workstream_json ws)) \<and>
      e = (jget (workstream_json w) ''parentId'', jget (workstream_json w) ''id'') \<longleftrightarrow>
      (\<exists>p. ws_parentId w = Some p \<and> p \<noteq> [] \<and> p \<in> ws_id ` set ws \<and> e = (JStr p, JStr (ws_id w)))" for w
    by (cases "ws_parentId w") (simp_all add: mem undef)
  have "e \<in> set (workstream_edges (map workstream_json ws)) \<longleftrightarrow>
      (\<exists>w \<in> set ws. \<exists>p. ws_parentId w = Some p \<and> p \<noteq> [] \<and> p \<in> ws_id ` set ws \<and> e = (JStr p, JStr (ws_id w)))"
    unfolding one [symmetric] workstream_edges_def filter_map map_map set_map set_filter comp_def by blast
  also have "\<dots> \<longleftrightarrow> e \<in> map_prod JStr JStr ` hierarchy ws"
    using assms(2,3) unfolding hierarchy_def by fastforce
  finally show "e \<in> set (workstream_edges (map workstream_json ws)) \<longleftrightarrow> e \<in> map_prod JStr JStr ` hierarchy ws" .
qed

lemma requirement_edges_typed:
  assumes "distinct (map mr_id rs)" and "\<forall>r \<in> set rs. set (mr_dependencies r) \<subseteq> mr_id ` set rs"
  shows "set (requirement_edges (map requirement_json rs)) = map_prod JStr JStr ` dependencies rs"
  unfolding requirement_edges_def requirement_keys_typed [OF assms(1)] dependencies_def
  using assms(2) by (force simp: image_iff)

text \<open>On a contract whose other checks pass, each check reports a cycle exactly when there
  is one.\<close>

lemma validateWorkstreamDAG_iff:
  assumes "distinct (map ws_id ws)" and "[] \<notin> ws_id ` set ws"
    and "\<forall>w \<in> set ws. \<forall>p. ws_parentId w = Some p \<longrightarrow> p \<in> ws_id ` set ws"
  shows "validateWorkstreamDAG (map workstream_json ws) = [] \<longleftrightarrow> acyclic (hierarchy ws)"
proof -
  let ?ws = "map workstream_json ws"
  have "length (fst (kahn_from 1 (\<lambda>q. q) (workstream_keys ?ws) (workstream_edges ?ws)))
      < length (workstream_keys ?ws) \<longleftrightarrow> \<not> acyclic (set (workstream_edges ?ws))"
    by (rule kahn_from_complete) (auto simp: workstream_keys_def workstream_edges_def)
  then show ?thesis
    unfolding validateWorkstreamDAG_def workstream_edges_typed [OF assms] acyclic_renamed [OF json_text_inj]
    by (simp add: workstream_keys_typed [OF assms(1)] Let_def case_prod_beta)
qed

lemma validateRequirementDAG_iff:
  assumes "distinct (map mr_id rs)" and "\<forall>r \<in> set rs. set (mr_dependencies r) \<subseteq> mr_id ` set rs"
  shows "validateRequirementDAG (map requirement_json rs) = Some [] \<longleftrightarrow> acyclic (dependencies rs)"
proof -
  let ?rs = "map requirement_json rs"
  have obj: "requirement_json r \<noteq> JUndefined \<and> requirement_json r \<noteq> JNull" for r
    by (simp add: requirement_json_def)
  have "length (fst (kahn_from 1 (\<lambda>q. q) (requirement_keys ?rs) (requirement_edges ?rs)))
      < length (requirement_keys ?rs) \<longleftrightarrow> \<not> acyclic (set (requirement_edges ?rs))"
    by (rule kahn_from_complete) (auto simp: requirement_keys_def requirement_edges_def)
  then show ?thesis
    unfolding validateRequirementDAG_def requirement_edges_typed [OF assms] acyclic_renamed [OF json_text_inj]
    by (auto simp: requirement_keys_typed [OF assms(1)] Let_def case_prod_beta obj split: list.splits)
qed

section \<open>Criterion identifiers are global\<close>

lemma map_of_Some_key: "map_of m k = Some v \<Longrightarrow> k \<in> fst ` set m"
  by (metis map_of_eq_None_iff option.distinct(1))

lemma criterion_duplicates_Nil:
  "criterion_duplicates seen ps = [] \<longleftrightarrow> distinct (map fst ps) \<and> fst ` set seen \<inter> fst ` set ps = {}"
  by (induction seen ps rule: criterion_duplicates.induct)
    (auto simp: map_of_eq_None_iff dest: map_of_Some_key split: option.splits)

definition criterion_ids :: "mission_contract \<Rightarrow> ident list" where
  "criterion_ids c = concat (map (map ac_id \<circ> mr_acceptanceCriteria) (mc_requirements c))"

lemma criterion_positions_inner:
  assumes "[] \<notin> ac_id ` set ks"
  shows "map fst (concat (map (\<lambda>(j, k). case jget k ''id'' of
            JStr s \<Rightarrow> if s = [] then [] else [(s, i, j)]
          | _ \<Rightarrow> []) (enumerate n (map criterion_json ks)))) = map ac_id ks"
  using assms by (induction ks arbitrary: n) auto

lemma criterion_positions_outer:
  assumes "\<forall>r \<in> set rs. [] \<notin> ac_id ` set (mr_acceptanceCriteria r)"
  shows "map fst (concat (map (\<lambda>(i, r).
       concat (map (\<lambda>(j, k). case jget k ''id'' of
            JStr s \<Rightarrow> if s = [] then [] else [(s, i, j)]
          | _ \<Rightarrow> []) (enumerate 0 (array_items (jget r ''acceptanceCriteria'')))))
        (enumerate n (map requirement_json rs)))) = concat (map (map ac_id \<circ> mr_acceptanceCriteria) rs)"
  using assms
  by (induction rs arbitrary: n) (simp_all add: array_items_def criterion_positions_inner)

section \<open>A valid contract is well-formed\<close>

definition contract_wf :: "mission_contract \<Rightarrow> bool" where
  "contract_wf c \<longleftrightarrow>
     mc_contractVersion c = 1 \<and> mc_revision c \<ge> 0 \<and> mc_missionId c \<noteq> [] \<and>
     distinct (map ws_id (mc_workstreams c)) \<and> acyclic (hierarchy (mc_workstreams c)) \<and>
     mc_requirements c \<noteq> [] \<and> distinct (map mr_id (mc_requirements c)) \<and>
     (\<forall>r \<in> set (mc_requirements c). requirement_wf (ws_id ` set (mc_workstreams c)) (mc_requirements c) r) \<and>
     acyclic (dependencies (mc_requirements c)) \<and>
     distinct (criterion_ids c)"

lemma collect_ids_typed: "collect_ids (JArr (map workstream_json ws)) = map ws_id ws"
  by (simp add: collect_ids_def comp_def)

lemma contract_valid_parts:
  assumes "contract_valid c"
  shows "top_level_fields (contract_json c) = []"
    and "validateWorkstreams (JArr (map workstream_json (mc_workstreams c))) = []"
    and "validateRequirements (JArr (map requirement_json (mc_requirements c))) (map ws_id (mc_workstreams c)) = Some []"
    and "criterion_duplicates [] (criterion_positions (map requirement_json (mc_requirements c))) = []"
    and "validateRequirementDAG (map requirement_json (mc_requirements c)) = Some []"
proof -
  have obj: "contract_json c \<noteq> JNull" "contract_json c \<noteq> JUndefined"
    by (simp_all add: contract_json_def)
  note v = assms [unfolded contract_valid_def validateMissionContract_def]
  show "top_level_fields (contract_json c) = []"
    and "validateWorkstreams (JArr (map workstream_json (mc_workstreams c))) = []"
    and "validateRequirements (JArr (map requirement_json (mc_requirements c))) (map ws_id (mc_workstreams c)) = Some []"
    and "criterion_duplicates [] (criterion_positions (map requirement_json (mc_requirements c))) = []"
    and "validateRequirementDAG (map requirement_json (mc_requirements c)) = Some []"
    using v obj
    by (simp_all add: collect_ids_typed validateGlobalCriterionIds_def array_items_def Let_def case_prod_beta
        split: option.splits)
qed

theorem contract_valid_wf:
  assumes "contract_valid c"
  shows "contract_wf c"
proof -
  note parts = contract_valid_parts [OF assms]
  note ws = workstreams_ok [OF parts(2)] and rs = requirements_ok [OF parts(3)]
  have top: "mc_contractVersion c = 1" "mc_revision c \<ge> 0" "mc_missionId c \<noteq> []"
    using parts(1) by (simp_all add: top_level_fields_def split: if_splits)
  have wf: "\<forall>r \<in> set (mc_requirements c).
      requirement_wf (ws_id ` set (mc_workstreams c)) (mc_requirements c) r"
    using rs(3) by simp
  have crit: "distinct (criterion_ids c)"
    using parts(4) criterion_positions_outer [of "mc_requirements c" 0] wf
    unfolding criterion_duplicates_Nil criterion_positions_def criterion_ids_def
    by (simp add: requirement_wf_def)
  have "acyclic (dependencies (mc_requirements c))"
    using parts(5) validateRequirementDAG_iff [OF rs(2)] wf by (auto simp: requirement_wf_def)
  moreover have "acyclic (hierarchy (mc_workstreams c))"
    using ws(4,5) validateWorkstreamDAG_iff [OF ws(2,3)] by blast
  ultimately show ?thesis
    using top ws(2) rs(1,2) wf crit by (simp add: contract_wf_def)
qed

section \<open>Documents the validator aborts on\<close>

text \<open>\<open>validateRequirements\<close> reports a requirement without \<open>dependencies\<close>, but the
  cycle check then iterates the missing list: whatever else the document holds, the call
  ends in a \<open>TypeError\<close> and not in a list of errors.\<close>

theorem missing_dependencies_throw:
  assumes "jget c ''requirements'' = JArr rs" and "r \<in> set rs" and "jget r ''dependencies'' = JUndefined"
  shows "validateMissionContract c = None"
proof -
  have "is_object c"
    using assms(1) by (cases c) (simp_all add: jget_def)
  moreover from this have "c \<noteq> JNull" "c \<noteq> JUndefined" by auto
  moreover have "js_iterate (jget r ''dependencies'') = None"
    by (simp add: assms(3) js_iterate_def)
  then have "validateRequirementDAG rs = None"
    using assms(2) by (auto simp: validateRequirementDAG_def)
  ultimately show ?thesis
    by (simp add: validateMissionContract_def assms(1) Let_def case_prod_beta split: option.split)
qed

theorem missing_dependencies_throw_witness:
  "validateMissionContract (JObj [(''requirements'', JArr [JObj [(''id'', JStr ''r'')]])]) = None"
  by (rule missing_dependencies_throw [where rs = "[JObj [(''id'', JStr ''r'')]]" and r = "JObj [(''id'', JStr ''r'')]"])
    (simp_all add: jget_def json_field_def)

section \<open>A concrete contract\<close>

text \<open>A two-requirement contract on which the development evaluates its definitions: the
  first requirement is to be backed by a passing test result, the second depends on it and
  has no acceptance criterion.\<close>

definition demo_evidence_requirement :: evidence_requirement where
  "demo_evidence_requirement =
     \<lparr>er_allowedTypes = Some [''test-result''], er_minAuthority = Some Test_Result,
      er_requiredCollectorClass = None, er_minPassingStatus = True\<rparr>"

definition demo_criterion :: acceptance_criterion where
  "demo_criterion = \<lparr>ac_id = ''k'', ac_statement = ''tests pass'', ac_requiredEvidence = [demo_evidence_requirement]\<rparr>"

definition demo_requirement :: mission_requirement where
  "demo_requirement =
     \<lparr>mr_id = ''r'', mr_workstreamId = ''w'', mr_kind = Explicit, mr_statement = ''do it'', mr_rationale = None,
      mr_sourceRefs = [], mr_dependencies = [], mr_acceptanceCriteria = [demo_criterion],
      mr_initialApplicability = None\<rparr>"

definition demo_optional_requirement :: mission_requirement where
  "demo_optional_requirement =
     \<lparr>mr_id = ''n'', mr_workstreamId = ''w'', mr_kind = Inferred, mr_statement = ''docs'',
      mr_rationale = Some ''no docs here'', mr_sourceRefs = [], mr_dependencies = [''r''],
      mr_acceptanceCriteria = [], mr_initialApplicability = Some Not_Applicable\<rparr>"

definition demo_contract :: mission_contract where
  "demo_contract =
     \<lparr>mc_contractVersion = 1, mc_missionId = ''m'', mc_revision = 1, mc_title = ''t'', mc_objective = ''o'',
      mc_workstreams = [\<lparr>ws_id = ''w'', ws_title = ''ws'', ws_description = None, ws_parentId = None, ws_order = None\<rparr>],
      mc_requirements = [demo_requirement, demo_optional_requirement],
      mc_constraints = [], mc_forbiddenActions = [],
      mc_evidencePolicy = \<lparr>ep_authoritativeSources = [], ep_rules = None\<rparr>, mc_metadata = None\<rparr>"

lemma demo_top: "top_level_fields (contract_json demo_contract) = []"
  by code_simp

lemma demo_workstreams: "validateWorkstreams (JArr (map workstream_json (mc_workstreams demo_contract))) = []"
  by code_simp

lemma demo_ids: "collect_ids (JArr (map workstream_json (mc_workstreams demo_contract))) = [''w'']"
  by code_simp

lemma demo_requirements: "validateRequirements (JArr (map requirement_json (mc_requirements demo_contract))) [''w''] = Some []"
  by code_simp

lemma demo_criteria: "validateGlobalCriterionIds (JArr (map requirement_json (mc_requirements demo_contract))) = ([], [''k''])"
  by code_simp

lemma demo_constraints: "validateConstraints (JArr (map constraint_json (mc_constraints demo_contract))) = []"
  by code_simp

lemma demo_forbidden: "validateForbiddenActions (JArr (map forbidden_json (mc_forbiddenActions demo_contract))) = []"
  by code_simp

lemma demo_policy: "validateEvidencePolicy (policy_json (mc_evidencePolicy demo_contract)) = []"
  by code_simp

lemma demo_dag: "validateRequirementDAG (map requirement_json (mc_requirements demo_contract)) = Some []"
  by code_simp

lemmas demo_contract_parts =
  demo_top demo_workstreams demo_ids demo_requirements demo_criteria demo_constraints demo_forbidden demo_policy demo_dag

lemma demo_contract_valid: "contract_valid demo_contract"
proof -
  have "contract_json demo_contract \<noteq> JNull" "contract_json demo_contract \<noteq> JUndefined"
    by (simp_all add: contract_json_def)
  then show ?thesis
    unfolding contract_valid_def validateMissionContract_def contract_json_fields demo_contract_parts
    by (simp add: demo_contract_parts validateCriterionReferences_def)
qed

end
