(* ===== verification/Contract_Claims.thy ===== *)
theory Contract_Claims
  imports Contract_Schema
begin

text \<open>
  What the acceptance of a mission contract guarantees, put together from the lemmas of
  \<open>Contract_Schema\<close>, \<open>Dependency_Graph\<close> and \<open>Contract_Digest\<close>.
\<close>

section \<open>Topological order\<close>

text \<open>The queue loop of the cycle checks ends: fuel for one step per key is enough.
  What it outputs is a duplicate-free sequence of keys in which every key stands after all
  its predecessors, and it outputs every key exactly when the edges form no cycle.\<close>

theorem dependency_sort_correct:
  assumes "distinct keys" and "set es \<subseteq> set keys \<times> set keys"
  shows "\<exists>order deg.
    kahn 1 (\<lambda>q. q) (children_of es) (length keys)
      (filter (\<lambda>x. in_degrees keys es x = Some 0) keys) (in_degrees keys es) [] = Some (order, deg) \<and>
    distinct order \<and> set order \<subseteq> set keys \<and> topological keys (children_of es) order \<and>
    (set order = set keys \<longleftrightarrow> acyclic (set es))"
  by (rule kahn_from_correct [OF assms, where arrange = "\<lambda>q. q" and dflt = 1]) auto

theorem dependency_sort_correct_witness:
  "\<exists>order deg.
    kahn 1 (\<lambda>q. q) (children_of [(0 :: int, 1), (0, 2), (1, 2)]) (length [2, 1, 0 :: int])
      (filter (\<lambda>x. in_degrees [2, 1, 0] [(0, 1), (0, 2), (1, 2)] x = Some 0) [2, 1, 0])
      (in_degrees [2, 1, 0] [(0, 1), (0, 2), (1, 2)]) [] = Some (order, deg) \<and>
    distinct order \<and> set order \<subseteq> set [2, 1, 0] \<and>
    topological [2, 1, 0] (children_of [(0, 1), (0, 2), (1, 2)]) order \<and>
    (set order = set [2, 1, 0] \<longleftrightarrow> acyclic (set [(0 :: int, 1), (0, 2), (1, 2)]))"
  by (rule dependency_sort_correct) simp_all

section \<open>Cycle checks\<close>

text \<open>On workstreams and requirements that pass the reference checks the two cycle checks
  report an error exactly when the hierarchy of the workstreams, or the dependency relation
  of the requirements, has a cycle.\<close>

theorem cycle_checks_exact:
  assumes "distinct (map ws_id ws)" and "[] \<notin> ws_id ` set ws"
    and "\<forall>w \<in> set ws. \<forall>p. ws_parentId w = Some p \<longrightarrow> p \<in> ws_id ` set ws"
    and "distinct (map mr_id rs)" and "\<forall>r \<in> set rs. set (mr_dependencies r) \<subseteq> mr_id ` set rs"
  shows "(validateWorkstreamDAG (map workstream_json ws) = [] \<longleftrightarrow> acyclic (hierarchy ws)) \<and>
    (validateRequirementDAG (map requirement_json rs) = Some [] \<longleftrightarrow> acyclic (dependencies rs))"
  using validateWorkstreamDAG_iff [OF assms(1-3)] validateRequirementDAG_iff [OF assms(4,5)] by blast

theorem cycle_checks_exact_witness:
  "validateRequirementDAG (map requirement_json [demo_requirement, demo_optional_requirement]) = Some [] \<longleftrightarrow>
    acyclic (dependencies [demo_requirement, demo_optional_requirement])"
  using cycle_checks_exact [of "[]" "[demo_requirement, demo_optional_requirement]"]
  by (simp add: demo_requirement_def demo_optional_requirement_def)

section \<open>Accepted contracts\<close>

text \<open>The requirements of an accepted contract can be worked off one by one.\<close>

lemma dependency_order:
  assumes "contract_wf c"
  shows "\<exists>order. distinct order \<and> set order = mr_id ` set (mc_requirements c) \<and>
    (\<forall>xs i ys d. order = xs @ i # ys \<longrightarrow> (d, i) \<in> dependencies (mc_requirements c) \<longrightarrow> d \<in> set xs)"
proof -
  let ?rs = "mc_requirements c"
  define es where "es = concat (map (\<lambda>r. map (\<lambda>d. (d, mr_id r)) (mr_dependencies r)) ?rs)"
  have es: "set es = dependencies ?rs" by (auto simp: es_def dependencies_def)
  have sub: "set es \<subseteq> set (map mr_id ?rs) \<times> set (map mr_id ?rs)"
    using assms by (auto simp: es dependencies_def contract_wf_def requirement_wf_def)
  have "distinct (map mr_id ?rs)" "acyclic (set es)"
    unfolding es using assms by (auto simp: contract_wf_def)
  note sorted = kahn_from_correct [OF this(1) sub, where arrange = "\<lambda>q. q" and dflt = 1]
  obtain order where o: "distinct order" "topological (map mr_id ?rs) (children_of es) order"
      "set order = set (map mr_id ?rs)"
    by (rule sorted) (use \<open>acyclic (set es)\<close> in simp_all)
  have "graph_edges (map mr_id ?rs) (children_of es) = set es"
    by (rule graph_edges_children_of) (use sub in auto)
  with o show ?thesis unfolding es by (auto simp: topological_def)
qed

text \<open>C38.  A contract the validator accepts is well-formed: versions and identifiers are
  there, identifiers are unique (criteria across all requirements), every requirement
  belongs to a declared workstream and depends only on other declared requirements, an
  inferred or not applicable requirement states its rationale, neither the workstream
  hierarchy nor the dependencies have a cycle, and so the requirements have an order in
  which each stands after all those it depends on.\<close>

theorem accepted_contract_sound:
  assumes "validateMissionContract (contract_json c) = Some []"
  shows "contract_wf c \<and>
    (\<exists>order. distinct order \<and> set order = mr_id ` set (mc_requirements c) \<and>
      (\<forall>xs i ys d. order = xs @ i # ys \<longrightarrow> (d, i) \<in> dependencies (mc_requirements c) \<longrightarrow> d \<in> set xs))"
  using contract_valid_wf [of c] dependency_order [of c] assms by (auto simp: contract_valid_def)

theorem accepted_contract_sound_witness:
  "contract_wf demo_contract \<and>
    (\<exists>order. distinct order \<and> set order = mr_id ` set (mc_requirements demo_contract) \<and>
      (\<forall>xs i ys d. order = xs @ i # ys \<longrightarrow> (d, i) \<in> dependencies (mc_requirements demo_contract) \<longrightarrow> d \<in> set xs))"
  by (rule accepted_contract_sound) (use demo_contract_valid in \<open>simp add: contract_valid_def\<close>)

section \<open>The digest\<close>

lemma sorted_strings_cong: "mset xs = mset ys \<Longrightarrow> sorted_strings xs = sorted_strings ys"
  by (metis sorted_list_of_multiset_mset sorted_strings_def)

end
