(* ===== verification/Trusted_Context.thy ===== *)
theory Trusted_Context
  imports Contract_Schema
begin

text \<open>
  \<open>long-horizon/trusted-context.ts\<close>: mutation contexts (who acts, with which capabilities)
  and validation contexts (the registry of principals and evidence-source grants against
  which a stored ledger is replayed).  The source marks genuine contexts by membership in a
  module-private \<open>WeakSet\<close> that nothing but the factories can extend; a value handed to the
  authoritative API is therefore either \<open>Genuine\<close>, with the registry the factory built, or
  \<open>Counterfeit\<close>, any other object.  Principal kinds and capabilities are kept as strings,
  because stored ledgers carry arbitrary text there and the factories test membership at run
  time.  A \<open>throw\<close> of a factory is an \<open>Inl\<close>.
\<close>

section \<open>Capabilities\<close>

definition EVIDENCE_CAPABILITIES :: "string list" where
  "EVIDENCE_CAPABILITIES =
     [''evidence:repository-observation'', ''evidence:command-result'', ''evidence:test-result'',
      ''evidence:runtime-observation'', ''evidence:operator-confirmation'', ''evidence:trusted-collector'']"

definition ALL_CAPABILITIES :: "string list" where
  "ALL_CAPABILITIES = EVIDENCE_CAPABILITIES @
     [''transition:satisfy'', ''transition:not-applicable'', ''transition:operator-override'', ''execution:complete'']"

definition isEvidenceCapability :: "string \<Rightarrow> bool" where
  "isEvidenceCapability cap \<longleftrightarrow> cap \<in> set EVIDENCE_CAPABILITIES"

definition VALID_PRINCIPAL_KINDS :: "string list" where
  "VALID_PRINCIPAL_KINDS = [''agent'', ''operator'', ''trusted-collector'', ''automated-review'', ''system'']"

section \<open>Mutation contexts\<close>

record mutation_context =
  mu_principalId :: string
  mu_principalKind :: string
  mu_capabilities :: "string list"

definition getUntrustedContext :: mutation_context where
  "getUntrustedContext = \<lparr>mu_principalId = ''untrusted'', mu_principalKind = ''agent'', mu_capabilities = []\<rparr>"

definition contextHasCapability :: "mutation_context \<Rightarrow> string \<Rightarrow> bool" where
  "contextHasCapability ctx cap \<longleftrightarrow> cap \<in> set (mu_capabilities ctx)"

definition contextHasAnyCapability :: "mutation_context \<Rightarrow> string list \<Rightarrow> bool" where
  "contextHasAnyCapability ctx caps \<longleftrightarrow> list_ex (contextHasCapability ctx) caps"

datatype context_error =
    INVALID_MISSION_CONTRACT
  | INVALID_TRUSTED_PRINCIPAL | INVALID_TRUSTED_CAPABILITY | DUPLICATE_TRUSTED_PRINCIPAL
  | INVALID_SOURCE_GRANT | DUPLICATE_SOURCE_GRANT
  | Grant_Requirement_Reference nat nat | Grant_Criterion_Reference nat nat
  | Grant_Scope_Incoherent nat

definition internalCreateTrustedContext ::
  "string \<Rightarrow> string \<Rightarrow> string list \<Rightarrow> context_error + mutation_context" where
  "internalCreateTrustedContext principalId principalKind capabilities =
     (case first_some
        [must (\<not> js_blank principalId) INVALID_TRUSTED_PRINCIPAL,
         must (principalKind \<in> set VALID_PRINCIPAL_KINDS) INVALID_TRUSTED_PRINCIPAL,
         first_error (\<lambda>cap. must (cap \<in> set ALL_CAPABILITIES) INVALID_TRUSTED_CAPABILITY) capabilities] of
        Some e \<Rightarrow> Inl e
      | None \<Rightarrow> Inr \<lparr>mu_principalId = principalId, mu_principalKind = principalKind,
                      mu_capabilities = js_set capabilities\<rparr>)"

section \<open>Authority of a piece of evidence\<close>

definition capabilityToAuthority :: "string \<Rightarrow> authority option" where
  "capabilityToAuthority cap =
     map_of [(''evidence:repository-observation'', Repository_Observation),
             (''evidence:command-result'', Command_Result), (''evidence:test-result'', Test_Result),
             (''evidence:runtime-observation'', Runtime_Observation),
             (''evidence:operator-confirmation'', Operator_Confirmation),
             (''evidence:trusted-collector'', Trusted_Collector)] cap"

definition evidence_type_map :: "(string \<times> string \<times> authority) list" where
  "evidence_type_map =
     [(''test-result'', ''evidence:test-result'', Test_Result),
      (''build-result'', ''evidence:command-result'', Command_Result),
      (''command-result'', ''evidence:command-result'', Command_Result),
      (''file-change'', ''evidence:repository-observation'', Repository_Observation),
      (''commit'', ''evidence:repository-observation'', Repository_Observation),
      (''repository-state'', ''evidence:repository-observation'', Repository_Observation),
      (''runtime-observation'', ''evidence:runtime-observation'', Runtime_Observation),
      (''operator-confirmation'', ''evidence:operator-confirmation'', Operator_Confirmation),
      (''artifact'', ''evidence:trusted-collector'', Trusted_Collector)]"

definition deriveEffectiveAuthority :: "mutation_context \<Rightarrow> string \<Rightarrow> authority" where
  "deriveEffectiveAuthority ctx evidenceType =
     (if \<not> contextHasAnyCapability ctx EVIDENCE_CAPABILITIES then Agent_Claim
      else
        (let fallback = (if contextHasCapability ctx ''evidence:trusted-collector''
                         then Trusted_Collector else Agent_Claim) in
         case map_of evidence_type_map evidenceType of
           Some (cap, authority) \<Rightarrow> if contextHasCapability ctx cap then authority else fallback
         | None \<Rightarrow> fallback))"

definition isSourceRequiredForEvidence ::
  "authority \<Rightarrow> authority list option \<Rightarrow> evidence_requirement option \<Rightarrow> bool" where
  "isSourceRequiredForEvidence effective sources crit =
     (if effective \<noteq> Agent_Claim then True
      else if (case sources of Some (s # ss) \<Rightarrow> effective \<in> set (s # ss) | _ \<Rightarrow> False) then True
      else case crit of
             None \<Rightarrow> False
           | Some r \<Rightarrow> (case er_minAuthority r of Some a \<Rightarrow> a \<noteq> Agent_Claim | None \<Rightarrow> False)
                     \<or> \<not> js_falsy (er_requiredCollectorClass r))"

section \<open>Validation contexts\<close>

record principal =
  pc_id :: string
  pc_kind :: string
  pc_capabilities :: "string list"

record source_grant =
  sg_sourceId :: string
  sg_principalId :: string
  sg_principalKind :: string
  sg_capability :: string
  sg_allowedEvidenceTypes :: "string list"
  sg_allowedCollectorClasses :: "string list option"
  sg_allowedRequirementIds :: "string list option"
  sg_allowedCriterionIds :: "string list option"

record trust_registry =
  vr_principals :: "(string \<times> string \<times> string list) list" \<comment> \<open>\<open>principalMap\<close>: key to kind and capabilities\<close>
  vr_grants :: "(string \<times> source_grant) list" \<comment> \<open>\<open>sourceGrantMap\<close>\<close>
  vr_digest :: string \<comment> \<open>the entry of \<open>_contractDigestMap\<close>\<close>

datatype validation_context = Genuine trust_registry | Counterfeit

definition isTrustedValidationContext :: "validation_context \<Rightarrow> bool" where
  "isTrustedValidationContext v = (case v of Genuine _ \<Rightarrow> True | Counterfeit \<Rightarrow> False)"

definition getBoundContractDigest :: "validation_context \<Rightarrow> string option" where
  "getBoundContractDigest v = (case v of Genuine r \<Rightarrow> Some (vr_digest r) | Counterfeit \<Rightarrow> None)"

definition principal_key :: "string \<Rightarrow> string \<Rightarrow> string" where
  "principal_key i k = i @ '':'' @ k"

definition verifyPrincipal :: "trust_registry \<Rightarrow> string \<Rightarrow> string \<Rightarrow> bool" where
  "verifyPrincipal r i k \<longleftrightarrow> map_of (vr_principals r) (principal_key i k) \<noteq> None"

definition verifyCapability :: "trust_registry \<Rightarrow> string \<Rightarrow> string \<Rightarrow> string \<Rightarrow> bool" where
  "verifyCapability r i k cap =
     (case map_of (vr_principals r) (principal_key i k) of None \<Rightarrow> False | Some (_, caps) \<Rightarrow> cap \<in> set caps)"

record source_request =
  sr_sourceId :: string
  sr_principalId :: string
  sr_principalKind :: string
  sr_capability :: string
  sr_evidenceType :: string
  sr_collectorClass :: string
  sr_requirementIds :: "string list"
  sr_criterionIds :: "string list"

definition within :: "string list option \<Rightarrow> string list \<Rightarrow> bool" where
  "within allowed xs = (case allowed of None \<Rightarrow> True | Some ys \<Rightarrow> list_all (\<lambda>x. x \<in> set ys) xs)"

definition verifyEvidenceSource :: "trust_registry \<Rightarrow> source_request \<Rightarrow> bool" where
  "verifyEvidenceSource r q =
     (case map_of (vr_grants r) (sr_sourceId q) of
        None \<Rightarrow> False
      | Some g \<Rightarrow>
          sg_principalId g = sr_principalId q \<and> sg_principalKind g = sr_principalKind q
          \<and> sg_capability g = sr_capability q
          \<and> sr_evidenceType q \<in> set (sg_allowedEvidenceTypes g)
          \<and> (sr_collectorClass q = [] \<or> within (sg_allowedCollectorClasses g) [sr_collectorClass q])
          \<and> within (sg_allowedRequirementIds g) (sr_requirementIds q)
          \<and> within (sg_allowedCriterionIds g) (sr_criterionIds q))"

section \<open>The factory of validation contexts\<close>

definition principal_entry :: "principal \<Rightarrow> string \<times> string \<times> string list" where
  "principal_entry p = (principal_key (pc_id p) (pc_kind p), pc_kind p, js_set (pc_capabilities p))"

definition check_principal ::
  "(string \<times> string \<times> string list) list \<Rightarrow> principal \<Rightarrow> context_error option" where
  "check_principal pm p = first_some
     [must (\<not> js_blank (pc_id p)) INVALID_TRUSTED_PRINCIPAL,
      must (pc_kind p \<in> set VALID_PRINCIPAL_KINDS) INVALID_TRUSTED_PRINCIPAL,
      first_error (\<lambda>cap. must (cap \<in> set ALL_CAPABILITIES) INVALID_TRUSTED_CAPABILITY) (pc_capabilities p),
      must (principal_key (pc_id p) (pc_kind p) \<notin> set (map fst pm)) DUPLICATE_TRUSTED_PRINCIPAL]"

fun register_principals ::
  "(string \<times> string \<times> string list) list \<Rightarrow> principal list \<Rightarrow>
   context_error + (string \<times> string \<times> string list) list" where
  "register_principals pm [] = Inr pm"
| "register_principals pm (p # ps) =
     (case check_principal pm p of
        Some e \<Rightarrow> Inl e
      | None \<Rightarrow> register_principals (pm @ [principal_entry p]) ps)"

text \<open>One loop over a list of references: blank, untrimmed, unknown or repeated entries are
  refused; \<open>err j\<close> is the error of the \<open>j\<close>-th.\<close>

fun check_references ::
  "string list \<Rightarrow> (nat \<Rightarrow> context_error) \<Rightarrow> nat \<Rightarrow> string list \<Rightarrow> string list \<Rightarrow> context_error option" where
  "check_references known err j seen [] = None"
| "check_references known err j seen (x # xs) =
     (if js_blank x \<or> x \<noteq> js_trim x \<or> x \<notin> set known \<or> x \<in> set seen then Some (err j)
      else check_references known err (Suc j) (x # seen) xs)"

definition criterion_owners :: "mission_contract \<Rightarrow> (ident \<times> ident) list" where
  "criterion_owners c =
     concat (map (\<lambda>r. map (\<lambda>k. (ac_id k, mr_id r)) (mr_acceptanceCriteria r)) (mc_requirements c))"

definition scope_coherent :: "mission_contract \<Rightarrow> source_grant \<Rightarrow> bool" where
  "scope_coherent c g =
     (case (sg_allowedRequirementIds g, sg_allowedCriterionIds g) of
        (Some (r # rs), Some ks) \<Rightarrow>
          list_all (\<lambda>k. case map_of (rev (criterion_owners c)) k of
              None \<Rightarrow> True | Some owner \<Rightarrow> owner = [] \<or> owner \<in> set (r # rs)) ks
      | _ \<Rightarrow> True)"

definition check_grant ::
  "mission_contract \<Rightarrow> (string \<times> string \<times> string list) list \<Rightarrow> nat \<Rightarrow> (string \<times> source_grant) list \<Rightarrow>
   source_grant \<Rightarrow> context_error option" where
  "check_grant c pm gi gm g = first_some
     [must (\<not> js_blank (sg_sourceId g)) INVALID_SOURCE_GRANT,
      must (sg_sourceId g \<notin> set (map fst gm)) DUPLICATE_SOURCE_GRANT,
      must (principal_key (sg_principalId g) (sg_principalKind g) \<in> set (map fst pm)) INVALID_SOURCE_GRANT,
      must (isEvidenceCapability (sg_capability g)) INVALID_SOURCE_GRANT,
      must (sg_allowedEvidenceTypes g \<noteq> []) INVALID_SOURCE_GRANT,
      must (distinct (sg_allowedEvidenceTypes g)) INVALID_SOURCE_GRANT,
      must (case sg_allowedCollectorClasses g of None \<Rightarrow> True | Some cs \<Rightarrow> distinct cs) INVALID_SOURCE_GRANT,
      (case sg_allowedRequirementIds g of
         None \<Rightarrow> None
       | Some rs \<Rightarrow> check_references (map mr_id (mc_requirements c)) (Grant_Requirement_Reference gi) 0 [] rs),
      (case sg_allowedCriterionIds g of
         None \<Rightarrow> None
       | Some ks \<Rightarrow> check_references (criterion_ids c) (Grant_Criterion_Reference gi) 0 [] ks),
      must (scope_coherent c g) (Grant_Scope_Incoherent gi)]"

fun register_grants ::
  "mission_contract \<Rightarrow> (string \<times> string \<times> string list) list \<Rightarrow> nat \<Rightarrow> (string \<times> source_grant) list \<Rightarrow>
   source_grant list \<Rightarrow> context_error + (string \<times> source_grant) list" where
  "register_grants c pm gi gm [] = Inr gm"
| "register_grants c pm gi gm (g # gs) =
     (case check_grant c pm gi gm g of
        Some e \<Rightarrow> Inl e
      | None \<Rightarrow> register_grants c pm (Suc gi) (gm @ [(sg_sourceId g, g)]) gs)"

definition internalCreateTrustedValidationContext ::
  "(string \<Rightarrow> string) \<Rightarrow> mission_contract \<Rightarrow> principal list \<Rightarrow> source_grant list \<Rightarrow>
   context_error + validation_context" where
  "internalCreateTrustedValidationContext sha c principals grants =
     (if \<not> contract_valid c then Inl INVALID_MISSION_CONTRACT
      else case register_principals [] principals of
             Inl e \<Rightarrow> Inl e
           | Inr pm \<Rightarrow>
               (case register_grants c pm 0 [] grants of
                  Inl e \<Rightarrow> Inl e
                | Inr gm \<Rightarrow> Inr (Genuine \<lparr>vr_principals = pm, vr_grants = gm,
                                   vr_digest = computeMissionContractDigest sha c\<rparr>)))"

section \<open>What the factory establishes\<close>

lemma valid_kind_no_colon: "k \<in> set VALID_PRINCIPAL_KINDS \<Longrightarrow> CHR '':'' \<notin> set k"
  by (auto simp: VALID_PRINCIPAL_KINDS_def)

lemma principal_key_inj:
  assumes "principal_key i k = principal_key i' k'" and "CHR '':'' \<notin> set k" and "CHR '':'' \<notin> set k'"
  shows "i = i' \<and> k = k'"
proof -
  have "takeWhile (\<lambda>ch. ch \<noteq> CHR '':'') (rev (principal_key i k)) = rev k" if "CHR '':'' \<notin> set k" for i k
  proof -
    have "takeWhile (\<lambda>ch. ch \<noteq> CHR '':'') (rev k @ CHR '':'' # rev i) = rev k"
      using that by (subst takeWhile_append2) auto
    then show ?thesis by (simp add: principal_key_def)
  qed
  then have "k = k'" using assms by (metis rev_rev_ident)
  with assms(1) show ?thesis by (simp add: principal_key_def)
qed

definition principal_ok :: "principal \<Rightarrow> bool" where
  "principal_ok p \<longleftrightarrow> \<not> js_blank (pc_id p) \<and> pc_kind p \<in> set VALID_PRINCIPAL_KINDS
     \<and> set (pc_capabilities p) \<subseteq> set ALL_CAPABILITIES"

lemma check_principal_None:
  "check_principal pm p = None \<longleftrightarrow> principal_ok p \<and> fst (principal_entry p) \<notin> fst ` set pm"
  by (auto simp: check_principal_def check_simps principal_ok_def principal_entry_def)

lemma register_principals_Inr:
  "register_principals pm ps = Inr pm' \<longleftrightarrow>
     pm' = pm @ map principal_entry ps \<and> (\<forall>p \<in> set ps. principal_ok p)
     \<and> distinct (map (fst \<circ> principal_entry) ps)
     \<and> fst ` set pm \<inter> (fst \<circ> principal_entry) ` set ps = {}"
proof (induction ps arbitrary: pm)
  case Nil
  then show ?case by auto
next
  case (Cons p ps)
  have "register_principals pm (p # ps) = Inr pm' \<longleftrightarrow>
      check_principal pm p = None \<and> register_principals (pm @ [principal_entry p]) ps = Inr pm'"
    by (simp split: option.splits)
  moreover have "fst ` set (pm @ [principal_entry p]) = insert (fst (principal_entry p)) (fst ` set pm)"
    "distinct (map (fst \<circ> principal_entry) (p # ps)) \<longleftrightarrow>
       fst (principal_entry p) \<notin> (fst \<circ> principal_entry) ` set ps \<and> distinct (map (fst \<circ> principal_entry) ps)"
    "(fst \<circ> principal_entry) ` set (p # ps) = insert (fst (principal_entry p)) ((fst \<circ> principal_entry) ` set ps)"
    "(pm @ [principal_entry p]) @ map principal_entry ps = pm @ map principal_entry (p # ps)"
    by simp_all
  moreover have "insert e A \<inter> B = {} \<longleftrightarrow> e \<notin> B \<and> A \<inter> B = {}"
    "A \<inter> insert e B = {} \<longleftrightarrow> e \<notin> A \<and> A \<inter> B = {}" for e and A B :: "string set"
    by blast+
  ultimately show ?case
    by (simp only: Cons.IH check_principal_None list.set(2) ball_simps) argo
qed

definition registered :: "principal list \<Rightarrow> string \<Rightarrow> string \<Rightarrow> principal \<Rightarrow> bool" where
  "registered ps i k p \<longleftrightarrow> p \<in> set ps \<and> pc_id p = i \<and> pc_kind p = k"

lemma principal_lookup:
  assumes "register_principals [] ps = Inr pm" and "k \<in> set VALID_PRINCIPAL_KINDS"
  shows "map_of pm (principal_key i k) = Some (k', caps) \<longleftrightarrow>
    (\<exists>p. registered ps i k p \<and> k' = k \<and> caps = js_set (pc_capabilities p))"
proof -
  have pm: "pm = map principal_entry ps" and ok: "\<forall>p \<in> set ps. principal_ok p"
    and dist: "distinct (map (fst \<circ> principal_entry) ps)"
    using assms(1) by (auto simp: register_principals_Inr)
  have "distinct (map fst pm)" using dist pm by simp
  then have "map_of pm (principal_key i k) = Some (k', caps) \<longleftrightarrow> (principal_key i k, k', caps) \<in> set pm"
    by simp
  also have "\<dots> \<longleftrightarrow> (\<exists>p \<in> set ps. principal_key (pc_id p) (pc_kind p) = principal_key i k \<and> k' = pc_kind p
      \<and> caps = js_set (pc_capabilities p))"
    unfolding pm principal_entry_def set_map image_iff by (simp add: eq_commute)
  also have "\<dots> \<longleftrightarrow> (\<exists>p. registered ps i k p \<and> k' = k \<and> caps = js_set (pc_capabilities p))"
  proof -
    have "principal_key (pc_id p) (pc_kind p) = principal_key i k \<longleftrightarrow> pc_id p = i \<and> pc_kind p = k"
      if "p \<in> set ps" for p
      using principal_key_inj [of "pc_id p" "pc_kind p" i k] that ok valid_kind_no_colon assms(2)
      by (auto simp: principal_ok_def)
    then show ?thesis by (auto simp: registered_def)
  qed
  finally show ?thesis .
qed

definition grant_ok ::
  "mission_contract \<Rightarrow> (string \<times> string \<times> string list) list \<Rightarrow> source_grant \<Rightarrow> bool" where
  "grant_ok c pm g \<longleftrightarrow>
     \<not> js_blank (sg_sourceId g) \<and> principal_key (sg_principalId g) (sg_principalKind g) \<in> fst ` set pm
     \<and> isEvidenceCapability (sg_capability g) \<and> sg_allowedEvidenceTypes g \<noteq> []
     \<and> (\<forall>rs. sg_allowedRequirementIds g = Some rs \<longrightarrow> set rs \<subseteq> mr_id ` set (mc_requirements c))
     \<and> (\<forall>ks. sg_allowedCriterionIds g = Some ks \<longrightarrow> set ks \<subseteq> set (criterion_ids c))"

lemma check_references_fresh:
  "check_references known err j seen xs = None \<Longrightarrow> set seen \<inter> set xs = {}"
proof (induction xs arbitrary: j seen)
  case (Cons x xs)
  then have "set (x # seen) \<inter> set xs = {}" "x \<notin> set seen"
    by (auto split: if_splits simp del: set_simps)
  then show ?case by auto
qed simp

lemma check_references_None:
  "check_references known err j seen xs = None \<Longrightarrow> set xs \<subseteq> set known \<and> distinct xs"
  by (induction xs arbitrary: j seen)
    (auto split: if_splits dest: check_references_fresh)

lemma check_grant_None:
  "check_grant c pm gi gm g = None \<Longrightarrow> grant_ok c pm g \<and> sg_sourceId g \<notin> fst ` set gm"
  by (auto simp: check_grant_def check_simps grant_ok_def dest!: check_references_None split: option.splits)

lemma register_grants_Inr:
  assumes "register_grants c pm gi gm gs = Inr gm'"
  shows "gm' = gm @ map (\<lambda>g. (sg_sourceId g, g)) gs \<and> (\<forall>g \<in> set gs. grant_ok c pm g)
    \<and> distinct (map sg_sourceId gs) \<and> fst ` set gm \<inter> sg_sourceId ` set gs = {}"
  using assms
proof (induction gs arbitrary: gi gm)
  case Nil
  then show ?case by simp
next
  case (Cons g gs)
  then have "check_grant c pm gi gm g = None"
    and rec: "register_grants c pm (Suc gi) (gm @ [(sg_sourceId g, g)]) gs = Inr gm'"
    by (auto split: option.splits)
  from check_grant_None [OF this(1)] Cons.IH [OF rec] show ?case by auto
qed

text \<open>A registry the factory may have built: \<open>principals_of\<close> is the witness list of
  principals; every grant belongs to one of them.\<close>

definition registry_wf :: "(string \<Rightarrow> string) \<Rightarrow> mission_contract \<Rightarrow> trust_registry \<Rightarrow> bool" where
  "registry_wf sha c r \<longleftrightarrow>
     contract_valid c \<and> vr_digest r = computeMissionContractDigest sha c
     \<and> (\<exists>ps. register_principals [] ps = Inr (vr_principals r))
     \<and> distinct (map fst (vr_grants r))
     \<and> (\<forall>(s, g) \<in> set (vr_grants r). s = sg_sourceId g \<and> grant_ok c (vr_principals r) g)"

lemma factory_Inr:
  assumes "internalCreateTrustedValidationContext sha c ps gs = Inr v"
  obtains pm gm where "v = Genuine \<lparr>vr_principals = pm, vr_grants = gm,
      vr_digest = computeMissionContractDigest sha c\<rparr>"
    and "contract_valid c" and "register_principals [] ps = Inr pm" and "register_grants c pm 0 [] gs = Inr gm"
  using assms by (auto simp: internalCreateTrustedValidationContext_def split: if_splits sum.splits)

lemma factory_wf:
  assumes "internalCreateTrustedValidationContext sha c ps gs = Inr v"
  shows "\<exists>r. v = Genuine r \<and> registry_wf sha c r"
proof -
  obtain pm gm where f: "v = Genuine \<lparr>vr_principals = pm, vr_grants = gm,
      vr_digest = computeMissionContractDigest sha c\<rparr>" "contract_valid c"
    "register_principals [] ps = Inr pm" "register_grants c pm 0 [] gs = Inr gm"
    using assms by (rule factory_Inr)
  have "gm = map (\<lambda>g. (sg_sourceId g, g)) gs" "\<forall>g \<in> set gs. grant_ok c pm g" "distinct (map sg_sourceId gs)"
    using register_grants_Inr [OF f(4)] by auto
  with f show ?thesis by (auto simp: registry_wf_def comp_def)
qed

text \<open>A validation context minted for a contract knows exactly the registered tuples:
  a principal of a known kind is verified only under the id and kind it was registered with,
  and holds exactly the capabilities it was registered with; the same id under another kind
  lends nothing.  The context is bound to the digest of that contract.\<close>

theorem registry_exact_tuples:
  assumes "internalCreateTrustedValidationContext sha c ps gs = Inr v"
  shows "\<exists>r. v = Genuine r \<and> getBoundContractDigest v = Some (computeMissionContractDigest sha c) \<and>
    (\<forall>i. \<forall>k \<in> set VALID_PRINCIPAL_KINDS.
       (verifyPrincipal r i k \<longleftrightarrow> (\<exists>p \<in> set ps. pc_id p = i \<and> pc_kind p = k)) \<and>
       (\<forall>cap. verifyCapability r i k cap \<longleftrightarrow>
          (\<exists>p \<in> set ps. pc_id p = i \<and> pc_kind p = k \<and> cap \<in> set (pc_capabilities p))))"
proof -
  obtain pm gm where f: "v = Genuine \<lparr>vr_principals = pm, vr_grants = gm,
      vr_digest = computeMissionContractDigest sha c\<rparr>" "register_principals [] ps = Inr pm"
    using assms by (rule factory_Inr)
  let ?r = "\<lparr>vr_principals = pm, vr_grants = gm, vr_digest = computeMissionContractDigest sha c\<rparr>"
  show ?thesis
  proof (intro exI [of _ ?r] conjI allI ballI)
    show "v = Genuine ?r" by (rule f)
    show "getBoundContractDigest v = Some (computeMissionContractDigest sha c)"
      by (simp add: f(1) getBoundContractDigest_def)
  next
    fix i k assume k: "k \<in> set VALID_PRINCIPAL_KINDS"
    note look = principal_lookup [OF f(2) k, of i]
    show "verifyPrincipal ?r i k \<longleftrightarrow> (\<exists>p \<in> set ps. pc_id p = i \<and> pc_kind p = k)"
      using look by (auto simp: verifyPrincipal_def registered_def)
    fix cap
    show "verifyCapability ?r i k cap \<longleftrightarrow>
        (\<exists>p \<in> set ps. pc_id p = i \<and> pc_kind p = k \<and> cap \<in> set (pc_capabilities p))"
    proof (cases "map_of pm (principal_key i k)")
      case None
      then show ?thesis using look by (auto simp: verifyCapability_def registered_def)
    next
      case (Some e)
      obtain k' caps where e: "e = (k', caps)" by (cases e)
      have "map_of pm (principal_key i k) = Some (k, js_set (pc_capabilities p))" if "registered ps i k p" for p
        using look that by blast
      then have "js_set (pc_capabilities p) = caps" if "registered ps i k p" for p
        using that Some e by fastforce
      moreover obtain p where "registered ps i k p" "caps = js_set (pc_capabilities p)"
        using look Some e by blast
      ultimately have "cap \<in> set caps \<longleftrightarrow> (\<exists>p. registered ps i k p \<and> cap \<in> set (pc_capabilities p))"
        by (metis set_js_set)
      then show ?thesis
        using Some e by (simp add: verifyCapability_def registered_def Bex_def conj_assoc)
    qed
  qed
qed

end
