(* ===== verification/Transition_Policy.thy ===== *)
theory Transition_Policy
  imports Trusted_Context
begin

text \<open>
  \<open>long-horizon/transition-policy.ts\<close>: which status changes of a requirement are possible,
  who may make them, and what evidence \<open>SATISFIED\<close> needs.  A \<open>TransitionPolicyResult\<close> is an
  option: \<open>None\<close> is \<open>permitted: true\<close>, \<open>Some r\<close> the reason of the refusal.
\<close>

datatype policy_reason =
    Not_In_Matrix | Satisfied_Needs_Implemented | Blocked_Needs_Reason | Failed_Needs_Reason
  | Needs_Satisfy_Capability | Needs_Not_Applicable_Capability
  | No_Evidence | Duplicate_Evidence | Evidence_Not_Found | Evidence_Agent_Claim
  | Evidence_Not_Passing | Evidence_Other_Requirement | Requirement_Not_Found
  | No_Acceptance_Criteria | Criterion_Without_Evidence ident | Criterion_Constraints_Unmet ident
  | Criterion_Stale ident

section \<open>The matrix\<close>

fun permitted_transitions :: "requirement_status \<Rightarrow> requirement_status list" where
  "permitted_transitions Rq_UNASSESSED = [Rq_PENDING, Rq_IN_PROGRESS, Rq_IMPLEMENTED_UNVERIFIED, Rq_NOT_APPLICABLE]"
| "permitted_transitions Rq_PENDING = [Rq_IN_PROGRESS, Rq_IMPLEMENTED_UNVERIFIED, Rq_BLOCKED, Rq_NOT_APPLICABLE]"
| "permitted_transitions Rq_IN_PROGRESS = [Rq_IMPLEMENTED_UNVERIFIED, Rq_BLOCKED, Rq_FAILED]"
| "permitted_transitions Rq_IMPLEMENTED_UNVERIFIED = [Rq_SATISFIED, Rq_IN_PROGRESS, Rq_FAILED, Rq_BLOCKED]"
| "permitted_transitions Rq_SATISFIED = [Rq_IMPLEMENTED_UNVERIFIED, Rq_IN_PROGRESS, Rq_FAILED]"
| "permitted_transitions Rq_BLOCKED = [Rq_IN_PROGRESS, Rq_PENDING, Rq_FAILED, Rq_NOT_APPLICABLE]"
| "permitted_transitions Rq_NOT_APPLICABLE = [Rq_PENDING, Rq_UNASSESSED]"
| "permitted_transitions Rq_FAILED = [Rq_IN_PROGRESS, Rq_PENDING, Rq_BLOCKED]"

definition isForbiddenDirectSatisfied :: "requirement_status \<Rightarrow> bool" where
  "isForbiddenDirectSatisfied s \<longleftrightarrow>
     s \<in> set [Rq_UNASSESSED, Rq_PENDING, Rq_IN_PROGRESS, Rq_BLOCKED, Rq_FAILED]"

definition validateTransition :: "requirement_status \<Rightarrow> transition_request \<Rightarrow> policy_reason option" where
  "validateTransition current req = first_some
     [must (tr_toStatus req \<in> set (permitted_transitions current)) Not_In_Matrix,
      must (\<not> (tr_toStatus req = Rq_SATISFIED \<and> current \<noteq> Rq_IMPLEMENTED_UNVERIFIED)) Satisfied_Needs_Implemented,
      must (\<not> (tr_toStatus req = Rq_BLOCKED \<and> js_falsy (tr_blockerReference req) \<and> tr_reason req = []))
        Blocked_Needs_Reason,
      must (\<not> (tr_toStatus req = Rq_FAILED \<and> tr_reason req = [])) Failed_Needs_Reason]"

definition authorizeTransition :: "transition_request \<Rightarrow> mutation_context \<Rightarrow> policy_reason option" where
  "authorizeTransition req ctx = first_some
     [must (\<not> (tr_toStatus req = Rq_SATISFIED \<and> \<not> contextHasCapability ctx ''transition:satisfy''))
        Needs_Satisfy_Capability,
      must (\<not> (tr_toStatus req = Rq_NOT_APPLICABLE \<and> \<not> contextHasCapability ctx ''transition:not-applicable''))
        Needs_Not_Applicable_Capability]"

section \<open>Evidence against a criterion\<close>

definition authorityMeetsMinimum :: "authority \<Rightarrow> authority \<Rightarrow> bool" where
  "authorityMeetsMinimum actual minimum \<longleftrightarrow> authority_rank actual \<ge> authority_rank minimum"

definition allows_type :: "string list option \<Rightarrow> string \<Rightarrow> bool" where
  "allows_type allowed t = (case allowed of Some (x # xs) \<Rightarrow> t \<in> set (x # xs) | _ \<Rightarrow> True)"

definition evidenceMeetsRequirement :: "evidence_record \<Rightarrow> evidence_requirement \<Rightarrow> bool" where
  "evidenceMeetsRequirement ev r \<longleftrightarrow>
     ev_status ev = Ev_Pass
     \<and> ev_effectiveAuthority ev \<noteq> Agent_Claim
     \<and> allows_type (er_allowedTypes r) (ev_type ev)
     \<and> (case er_minAuthority r of None \<Rightarrow> True | Some a \<Rightarrow> authorityMeetsMinimum (ev_effectiveAuthority ev) a)
     \<and> (js_falsy (er_requiredCollectorClass r) \<or> er_requiredCollectorClass r = Some (ev_verifiedPrincipalKind ev))"

definition isCriterionSatisfied ::
  "acceptance_criterion \<Rightarrow> evidence_record list \<Rightarrow> ident \<Rightarrow> policy_reason option" where
  "isCriterionSatisfied k evs rid =
     (let matching = filter (\<lambda>ev. rid \<in> set (ev_requirementIds ev) \<and> ac_id k \<in> set (ev_criterionIds ev)) evs in
      if matching = [] then Some (Criterion_Without_Evidence (ac_id k))
      else must (list_ex (\<lambda>ev. list_all (evidenceMeetsRequirement ev) (ac_requiredEvidence k)) matching)
             (Criterion_Constraints_Unmet (ac_id k)))"

definition resolve_evidence :: "requirement_ledger \<Rightarrow> ident list \<Rightarrow> evidence_record list" where
  "resolve_evidence l ids = List.map_filter (find_evidence l) ids"

definition check_satisfying_evidence :: "requirement_ledger \<Rightarrow> ident \<Rightarrow> ident \<Rightarrow> policy_reason option" where
  "check_satisfying_evidence l rid evId =
     (case find_evidence l evId of
        None \<Rightarrow> Some Evidence_Not_Found
      | Some ev \<Rightarrow> first_some
          [must (ev_effectiveAuthority ev \<noteq> Agent_Claim) Evidence_Agent_Claim,
           must (ev_status ev = Ev_Pass) Evidence_Not_Passing,
           must (rid \<in> set (ev_requirementIds ev)) Evidence_Other_Requirement])"

definition isSatisfactionAuthorized ::
  "transition_request \<Rightarrow> requirement_ledger \<Rightarrow> mission_contract \<Rightarrow> mutation_context \<Rightarrow> policy_reason option" where
  "isSatisfactionAuthorized req l c ctx = first_some
     [must (contextHasCapability ctx ''transition:satisfy'') Needs_Satisfy_Capability,
      must (tr_evidenceIds req \<noteq> []) No_Evidence,
      first_error_distinct (\<lambda>i. i) (\<lambda>_. Duplicate_Evidence) (\<lambda>_. None) [] (tr_evidenceIds req),
      first_error (check_satisfying_evidence l (tr_requirementId req)) (tr_evidenceIds req),
      (case find_requirement c (tr_requirementId req) of
         None \<Rightarrow> Some Requirement_Not_Found
       | Some r \<Rightarrow>
           if mr_acceptanceCriteria r = [] then Some No_Acceptance_Criteria
           else first_error
                  (\<lambda>k. isCriterionSatisfied k (resolve_evidence l (tr_evidenceIds req)) (tr_requirementId req))
                  (mr_acceptanceCriteria r))]"

text \<open>Some referenced record names the criterion and was added after the regression.\<close>

definition has_fresh_evidence :: "requirement_ledger \<Rightarrow> ident list \<Rightarrow> int \<Rightarrow> acceptance_criterion \<Rightarrow> bool" where
  "has_fresh_evidence l evidenceIds regression k \<longleftrightarrow>
     list_ex (\<lambda>i. case find_evidence l i of
         None \<Rightarrow> False
       | Some ev \<Rightarrow> ac_id k \<in> set (ev_criterionIds ev) \<and> ev_addedAtRevision ev > regression) evidenceIds"

definition checkEvidenceFreshnessAfterRegression ::
  "transition_request \<Rightarrow> requirement_ledger \<Rightarrow> mission_contract \<Rightarrow> int option \<Rightarrow> policy_reason option" where
  "checkEvidenceFreshnessAfterRegression req l c regression =
     (if tr_toStatus req \<noteq> Rq_SATISFIED then None
      else case regression of
        None \<Rightarrow> None
      | Some n \<Rightarrow>
          (case find_requirement c (tr_requirementId req) of
             None \<Rightarrow> None
           | Some r \<Rightarrow> first_error
               (\<lambda>k. must (has_fresh_evidence l (tr_evidenceIds req) n k) (Criterion_Stale (ac_id k)))
               (mr_acceptanceCriteria r)))"

section \<open>Facts about the policy\<close>

lemma authorityMeetsMinimum_le [simp]: "authorityMeetsMinimum a m \<longleftrightarrow> m \<le> a"
  by (simp add: authorityMeetsMinimum_def less_eq_authority_def)

text \<open>The explicit second guard of \<open>validateTransition\<close> agrees with the matrix: the matrix
  alone already admits \<open>SATISFIED\<close> from \<open>IMPLEMENTED_UNVERIFIED\<close> only.\<close>

lemma matrix_satisfied: "Rq_SATISFIED \<in> set (permitted_transitions s) \<longleftrightarrow> s = Rq_IMPLEMENTED_UNVERIFIED"
  by (cases s) simp_all

lemma matrix_irreflexive: "s \<notin> set (permitted_transitions s)"
  by (cases s) simp_all

lemma matrix_not_applicable:
  "Rq_NOT_APPLICABLE \<in> set (permitted_transitions s) \<longleftrightarrow> s \<in> {Rq_UNASSESSED, Rq_PENDING, Rq_BLOCKED}"
  by (cases s) simp_all

lemma validateTransition_None:
  "validateTransition s req = None \<longleftrightarrow>
     tr_toStatus req \<in> set (permitted_transitions s)
     \<and> (tr_toStatus req = Rq_BLOCKED \<longrightarrow> \<not> js_falsy (tr_blockerReference req) \<or> tr_reason req \<noteq> [])
     \<and> (tr_toStatus req = Rq_FAILED \<longrightarrow> tr_reason req \<noteq> [])"
proof -
  have "tr_toStatus req \<in> set (permitted_transitions s) \<Longrightarrow>
      \<not> (tr_toStatus req = Rq_SATISFIED \<and> s \<noteq> Rq_IMPLEMENTED_UNVERIFIED)"
    using matrix_satisfied [of s] by auto
  then show ?thesis unfolding validateTransition_def check_simps by blast
qed

lemma authorizeTransition_None:
  "authorizeTransition req ctx = None \<longleftrightarrow>
     (tr_toStatus req = Rq_SATISFIED \<longrightarrow> contextHasCapability ctx ''transition:satisfy'')
     \<and> (tr_toStatus req = Rq_NOT_APPLICABLE \<longrightarrow> contextHasCapability ctx ''transition:not-applicable'')"
  by (auto simp: authorizeTransition_def check_simps)

lemma resolve_evidence_mem:
  "ev \<in> set (resolve_evidence l ids) \<longleftrightarrow> (\<exists>i \<in> set ids. find_evidence l i = Some ev)"
  by (induction ids) (auto simp: resolve_evidence_def map_filter_simps split: option.splits)

text \<open>What backs a criterion: a referenced record that names requirement and criterion,
  passes, is no agent claim and meets every constraint.\<close>

definition criterion_backed :: "evidence_record list \<Rightarrow> ident \<Rightarrow> acceptance_criterion \<Rightarrow> bool" where
  "criterion_backed evs rid k \<longleftrightarrow>
     (\<exists>ev \<in> set evs. rid \<in> set (ev_requirementIds ev) \<and> ac_id k \<in> set (ev_criterionIds ev)
        \<and> ev_status ev = Ev_Pass \<and> ev_effectiveAuthority ev \<noteq> Agent_Claim
        \<and> (\<forall>r \<in> set (ac_requiredEvidence k). evidenceMeetsRequirement ev r))"

lemma isSatisfactionAuthorized_None:
  assumes "isSatisfactionAuthorized req l c ctx = None"
  shows "contextHasCapability ctx ''transition:satisfy'' \<and> tr_evidenceIds req \<noteq> [] \<and> distinct (tr_evidenceIds req)
    \<and> (\<exists>r. find_requirement c (tr_requirementId req) = Some r \<and> mr_acceptanceCriteria r \<noteq> []
        \<and> (\<forall>k \<in> set (mr_acceptanceCriteria r).
             criterion_backed (resolve_evidence l (tr_evidenceIds req)) (tr_requirementId req) k))"
proof -
  note parts = assms [unfolded isSatisfactionAuthorized_def check_simps]
  have each: "\<forall>i \<in> set (tr_evidenceIds req). check_satisfying_evidence l (tr_requirementId req) i = None"
    using parts by blast
  obtain r where r: "find_requirement c (tr_requirementId req) = Some r" "mr_acceptanceCriteria r \<noteq> []"
    "\<forall>k \<in> set (mr_acceptanceCriteria r).
       isCriterionSatisfied k (resolve_evidence l (tr_evidenceIds req)) (tr_requirementId req) = None"
    using parts by (auto simp: check_simps split: option.splits if_splits)
  have "criterion_backed (resolve_evidence l (tr_evidenceIds req)) (tr_requirementId req) k"
    if k: "k \<in> set (mr_acceptanceCriteria r)" for k
  proof -
    have "isCriterionSatisfied k (resolve_evidence l (tr_evidenceIds req)) (tr_requirementId req) = None"
      using r(3) k by blast
    then obtain ev where ev: "ev \<in> set (resolve_evidence l (tr_evidenceIds req))"
      "tr_requirementId req \<in> set (ev_requirementIds ev)" "ac_id k \<in> set (ev_criterionIds ev)"
      "\<forall>q \<in> set (ac_requiredEvidence k). evidenceMeetsRequirement ev q"
      by (auto simp: isCriterionSatisfied_def Let_def list_ex_iff list_all_iff split: if_splits)
    then obtain i where "i \<in> set (tr_evidenceIds req)" "find_evidence l i = Some ev"
      by (auto simp: resolve_evidence_mem)
    then have "ev_effectiveAuthority ev \<noteq> Agent_Claim" "ev_status ev = Ev_Pass"
      using each by (auto simp: check_satisfying_evidence_def check_simps)
    with ev show ?thesis by (auto simp: criterion_backed_def)
  qed
  then have "\<exists>r. find_requirement c (tr_requirementId req) = Some r \<and> mr_acceptanceCriteria r \<noteq> []
      \<and> (\<forall>k \<in> set (mr_acceptanceCriteria r).
           criterion_backed (resolve_evidence l (tr_evidenceIds req)) (tr_requirementId req) k)"
    using r(1,2) by blast
  with parts show ?thesis by simp
qed

end
