(* ===== verification/Requirement_Ledger.thy ===== *)
theory Requirement_Ledger
  imports Transition_Policy
begin

text \<open>
  \<open>long-horizon/requirement-ledger.ts\<close>: the ledger's operations.  An \<open>OperationResult\<close> is
  \<open>Inl code\<close> or \<open>Inr value\<close>; a validator is an option of its first error code, in source
  order.  \<open>sha\<close> is the SHA-256 function behind \<open>computeMissionContractDigest\<close>.

  The steps that \<open>validateRequirementLedgerStructure\<close>, \<open>validateRequirementLedger\<close> and
  \<open>runStructuralChecks\<close> write out again are each one definition here: the binding to the
  contract, the mutation sequence, the reconstruction of the states.
\<close>

section \<open>Initialization\<close>

definition initial_status :: "mission_requirement \<Rightarrow> requirement_status" where
  "initial_status r =
     (if mr_initialApplicability r = Some Not_Applicable then Rq_NOT_APPLICABLE else Rq_UNASSESSED)"

definition initial_entry :: "mission_requirement \<Rightarrow> ledger_entry" where
  "initial_entry r =
     (let na = (mr_initialApplicability r = Some Not_Applicable) in
      \<lparr>le_requirementId = mr_id r, le_status = initial_status r, le_workstreamId = mr_workstreamId r,
       le_initialNotApplicable = na,
       le_notApplicableRationale =
         (if na then Some (case mr_rationale r of Some s \<Rightarrow> s | None \<Rightarrow> ''Declared NOT_APPLICABLE in contract'')
          else None),
       le_latestRegressionRevision = None\<rparr>)"

definition initializeRequirementLedger ::
  "(string \<Rightarrow> string) \<Rightarrow> mission_contract \<Rightarrow> operation_error + requirement_ledger" where
  "initializeRequirementLedger sha c =
     (if \<not> contract_valid c then Inl INVALID_CONTRACT
      else Inr \<lparr>rl_ledgerVersion = 1, rl_missionId = mc_missionId c,
                rl_contractVersion = mc_contractVersion c, rl_contractRevision = mc_revision c,
                rl_contractDigest = computeMissionContractDigest sha c, rl_revision = 0,
                rl_requirements = map initial_entry (mc_requirements c), rl_evidence = [], rl_transitions = []\<rparr>)"

section \<open>The mutation sequence\<close>

datatype slot_kind = Slot_Evidence | Slot_Transition

record mutation_slot =
  ms_revision :: int
  ms_kind :: slot_kind
  ms_id :: ident

definition evidence_slot :: "evidence_record \<Rightarrow> mutation_slot" where
  "evidence_slot ev = \<lparr>ms_revision = ev_addedAtRevision ev, ms_kind = Slot_Evidence, ms_id = ev_id ev\<rparr>"

definition transition_slot :: "requirement_transition \<Rightarrow> mutation_slot" where
  "transition_slot tx = \<lparr>ms_revision = tx_revisionAfter tx, ms_kind = Slot_Transition, ms_id = tx_id tx\<rparr>"

definition mutation_slots :: "requirement_ledger \<Rightarrow> mutation_slot list" where
  "mutation_slots l = map evidence_slot (rl_evidence l) @ map transition_slot (rl_transitions l)"

definition buildMutationSequence :: "requirement_ledger \<Rightarrow> mutation_slot list" where
  "buildMutationSequence l = sort_key ms_revision (mutation_slots l)"

fun consecutive :: "int list \<Rightarrow> bool" where
  "consecutive (x # y # zs) \<longleftrightarrow> y = x + 1 \<and> consecutive (y # zs)"
| "consecutive _ \<longleftrightarrow> True"

definition check_mutation_sequence :: "requirement_ledger \<Rightarrow> operation_error option" where
  "check_mutation_sequence l =
     (let revs = map ms_revision (buildMutationSequence l) in first_some
       [first_error_distinct (\<lambda>n. n) (\<lambda>_. INVALID_LEDGER) (\<lambda>_. None) [] revs,
        must (revs = [] \<or> hd revs = 1) INVALID_LEDGER,
        must (consecutive revs) INVALID_LEDGER,
        must (revs = [] \<or> last revs = rl_revision l) INVALID_LEDGER,
        must (rl_revision l = int (length (rl_evidence l)) + int (length (rl_transitions l))) INVALID_LEDGER])"

section \<open>State reconstruction\<close>

type_synonym status_map = "ident \<rightharpoonup> requirement_status"

definition initial_states :: "mission_contract \<Rightarrow> status_map" where
  "initial_states c = foldl (\<lambda>m r. m(mr_id r \<mapsto> initial_status r)) Map.empty (mc_requirements c)"

definition replay_transition :: "requirement_transition \<Rightarrow> status_map \<Rightarrow> operation_error + status_map" where
  "replay_transition tx states =
     (if states (tx_requirementId tx) \<noteq> Some (tx_fromStatus tx) then Inl INVALID_LEDGER
      else Inr (states(tx_requirementId tx \<mapsto> tx_toStatus tx)))"

text \<open>A transition slot carries the id of a stored transition, so the lookup succeeds.\<close>

definition replay_slot ::
  "requirement_ledger \<Rightarrow> mutation_slot \<Rightarrow> status_map \<Rightarrow> operation_error + status_map" where
  "replay_slot l s states =
     (case ms_kind s of
        Slot_Evidence \<Rightarrow> Inr states
      | Slot_Transition \<Rightarrow>
          (case find_transition l (ms_id s) of
             None \<Rightarrow> Inl INVALID_LEDGER
           | Some tx \<Rightarrow> replay_transition tx states))"

definition reconstruct_states ::
  "mission_contract \<Rightarrow> requirement_ledger \<Rightarrow> operation_error + status_map" where
  "reconstruct_states c l = run_all (replay_slot l) (initial_states c) (buildMutationSequence l)"

definition check_states :: "mission_contract \<Rightarrow> requirement_ledger \<Rightarrow> operation_error option" where
  "check_states c l =
     (case reconstruct_states c l of
        Inl e \<Rightarrow> Some e
      | Inr states \<Rightarrow>
          first_error (\<lambda>e. must (states (le_requirementId e) = Some (le_status e)) INVALID_LEDGER) (rl_requirements l))"

section \<open>Structural validation\<close>

definition runStructuralChecks ::
  "(string \<Rightarrow> string) \<Rightarrow> mission_contract \<Rightarrow> requirement_ledger \<Rightarrow> operation_error option" where
  "runStructuralChecks sha c l =
     (let contractReqs = map mr_id (mc_requirements c); ledgerReqs = map le_requirementId (rl_requirements l) in
      first_some
       [must (rl_contractDigest l = computeMissionContractDigest sha c) CONTRACT_DIGEST_MISMATCH,
        must (rl_ledgerVersion l = 1) INVALID_LEDGER,
        must (rl_missionId l = mc_missionId c) INVALID_LEDGER,
        must (rl_contractRevision l = mc_revision c) INVALID_LEDGER,
        first_error (\<lambda>i. must (i \<in> set ledgerReqs) INVALID_LEDGER) (js_set contractReqs),
        first_error (\<lambda>i. must (i \<in> set contractReqs) INVALID_LEDGER) (js_set ledgerReqs)])"

definition known_requirements :: "mission_contract \<Rightarrow> ident list \<Rightarrow> bool" where
  "known_requirements c ids \<longleftrightarrow> list_all (\<lambda>i. i \<in> set (map mr_id (mc_requirements c))) ids"

definition check_evidence_record ::
  "mission_contract \<Rightarrow> requirement_ledger \<Rightarrow> evidence_record \<Rightarrow> operation_error option" where
  "check_evidence_record c l ev = first_some
     [must (ev_addedAtRevision ev > 0) INVALID_LEDGER,
      must (ev_addedAtRevision ev \<le> rl_revision l) INVALID_LEDGER,
      must (known_requirements c (ev_requirementIds ev)) INVALID_LEDGER]"

definition check_evidence_reference ::
  "requirement_ledger \<Rightarrow> int \<Rightarrow> ident \<Rightarrow> operation_error option" where
  "check_evidence_reference l bound i =
     (case find_evidence l i of
        None \<Rightarrow> Some UNKNOWN_EVIDENCE
      | Some ev \<Rightarrow> must (ev_addedAtRevision ev < bound) INVALID_TRANSITION)"

definition check_transition_record ::
  "mission_contract \<Rightarrow> requirement_ledger \<Rightarrow> requirement_transition \<Rightarrow> operation_error option" where
  "check_transition_record c l tx = first_some
     [must (known_requirements c [tx_requirementId tx]) INVALID_LEDGER,
      must (tx_revisionAfter tx = tx_revisionBefore tx + 1) INVALID_LEDGER,
      first_error (check_evidence_reference l (tx_revisionAfter tx)) (tx_evidenceIds tx)]"

definition validateRequirementLedgerStructure ::
  "(string \<Rightarrow> string) \<Rightarrow> mission_contract \<Rightarrow> requirement_ledger \<Rightarrow> operation_error option" where
  "validateRequirementLedgerStructure sha c l = first_some
     [runStructuralChecks sha c l,
      first_error_distinct le_requirementId (\<lambda>_. INVALID_LEDGER) (\<lambda>_. None) [] (rl_requirements l),
      first_error_distinct ev_id (\<lambda>_. INVALID_LEDGER) (check_evidence_record c l) [] (rl_evidence l),
      first_error_distinct tx_id (\<lambda>_. INVALID_LEDGER) (check_transition_record c l) [] (rl_transitions l),
      check_mutation_sequence l,
      check_states c l]"

section \<open>Policy replay\<close>

definition checkContractEvidencePolicy :: "mission_contract \<Rightarrow> evidence_record \<Rightarrow> operation_error option" where
  "checkContractEvidencePolicy c ev =
     (if ev_effectiveAuthority ev = Agent_Claim then None
      else let p = mc_evidencePolicy c in first_some
        [must (ep_authoritativeSources p = [] \<or> ev_effectiveAuthority ev \<in> set (ep_authoritativeSources p))
           CONTRACT_EVIDENCE_POLICY_VIOLATION,
         (case ep_rules p of
            None \<Rightarrow> None
          | Some rules \<Rightarrow> first_error (\<lambda>r.
              if (case pr_allowedTypes r of None \<Rightarrow> False | Some ts \<Rightarrow> ev_type ev \<notin> set ts) then None
              else first_some
                [must (case pr_minAuthority r of None \<Rightarrow> True
                       | Some a \<Rightarrow> authority_rank (ev_effectiveAuthority ev) \<ge> authority_rank a)
                   CONTRACT_EVIDENCE_POLICY_VIOLATION,
                 must (js_falsy (pr_requiredCollectorClass r)
                       \<or> pr_requiredCollectorClass r = Some (ev_reportedCollectorType ev))
                   CONTRACT_EVIDENCE_POLICY_VIOLATION]) rules)])"

definition check_criterion_requirement :: "evidence_record \<Rightarrow> evidence_requirement \<Rightarrow> operation_error option" where
  "check_criterion_requirement ev r = first_some
     [must (allows_type (er_allowedTypes r) (ev_type ev)) CRITERION_EVIDENCE_POLICY_VIOLATION,
      must (case er_minAuthority r of None \<Rightarrow> True
            | Some a \<Rightarrow> a = Agent_Claim \<or> authority_rank (ev_effectiveAuthority ev) \<ge> authority_rank a)
        CRITERION_EVIDENCE_POLICY_VIOLATION,
      must (js_falsy (er_requiredCollectorClass r)
            \<or> er_requiredCollectorClass r = Some (ev_reportedCollectorType ev))
        CRITERION_EVIDENCE_POLICY_VIOLATION,
      must (\<not> (er_minPassingStatus r \<and> ev_status ev \<noteq> Ev_Pass)) CRITERION_EVIDENCE_POLICY_VIOLATION]"

definition find_criterion :: "mission_requirement \<Rightarrow> ident \<Rightarrow> acceptance_criterion option" where
  "find_criterion r i = List.find (\<lambda>k. ac_id k = i) (mr_acceptanceCriteria r)"

definition checkCriterionEvidenceRequirements ::
  "mission_contract \<Rightarrow> evidence_record \<Rightarrow> operation_error option" where
  "checkCriterionEvidenceRequirements c ev =
     first_error (\<lambda>rid. case find_requirement c rid of
         None \<Rightarrow> None
       | Some r \<Rightarrow> first_error (\<lambda>kid. case find_criterion r kid of
             None \<Rightarrow> None
           | Some k \<Rightarrow> first_error (check_criterion_requirement ev) (ac_requiredEvidence k))
           (ev_criterionIds ev))
       (ev_requirementIds ev)"

definition evidenceMeetsRequirementReplay :: "evidence_record \<Rightarrow> evidence_requirement \<Rightarrow> bool" where
  "evidenceMeetsRequirementReplay ev r \<longleftrightarrow>
     ev_status ev = Ev_Pass
     \<and> ev_effectiveAuthority ev \<noteq> Agent_Claim
     \<and> allows_type (er_allowedTypes r) (ev_type ev)
     \<and> (case er_minAuthority r of None \<Rightarrow> True | Some a \<Rightarrow> authorityMeetsMinimum (ev_effectiveAuthority ev) a)
     \<and> (js_falsy (er_requiredCollectorClass r) \<or> er_requiredCollectorClass r = Some (ev_verifiedPrincipalKind ev))
     \<and> \<not> (er_minPassingStatus r \<and> ev_status ev \<noteq> Ev_Pass)"

definition evaluate_criterion ::
  "mission_requirement \<Rightarrow> evidence_record list \<Rightarrow> int option \<Rightarrow> acceptance_criterion \<Rightarrow> operation_error option" where
  "evaluate_criterion r evs regression k =
     (let matching = filter (\<lambda>ev. ac_id k \<in> set (ev_criterionIds ev) \<and> mr_id r \<in> set (ev_requirementIds ev)) evs in
      first_some
        [must (matching \<noteq> []) UNKNOWN_CRITERION,
         (case regression of
            None \<Rightarrow> None
          | Some n \<Rightarrow> must (list_ex (\<lambda>ev. ev_addedAtRevision ev > n) matching) STALE_EVIDENCE_AFTER_REGRESSION),
         must (list_ex (\<lambda>ev. ev_status ev = Ev_Pass \<and> ev_effectiveAuthority ev \<noteq> Agent_Claim
                 \<and> list_all (evidenceMeetsRequirementReplay ev) (ac_requiredEvidence k)) matching)
           CRITERION_EVIDENCE_POLICY_VIOLATION])"

definition evaluateSatisfiedTransition ::
  "mission_requirement \<Rightarrow> evidence_record list \<Rightarrow> int option \<Rightarrow> operation_error option" where
  "evaluateSatisfiedTransition r evs regression =
     (if mr_acceptanceCriteria r = [] then Some MISSING_ACCEPTANCE_CRITERIA
      else first_error (evaluate_criterion r evs regression) (mr_acceptanceCriteria r))"

definition replayCriterionSatisfaction ::
  "requirement_ledger \<Rightarrow> requirement_transition \<Rightarrow> mission_requirement \<Rightarrow> operation_error option" where
  "replayCriterionSatisfaction l tx r =
     evaluateSatisfiedTransition r (resolve_evidence l (tx_evidenceIds tx)) None"

section \<open>Authoritative validation\<close>

definition source_request_of :: "evidence_record \<Rightarrow> source_request" where
  "source_request_of ev =
     \<lparr>sr_sourceId = ev_source ev, sr_principalId = ev_verifiedPrincipalId ev,
      sr_principalKind = ev_verifiedPrincipalKind ev,
      sr_capability = (case ev_verifiedCapability ev of Some cap \<Rightarrow> cap | None \<Rightarrow> ''evidence:test-result''),
      sr_evidenceType = ev_type ev, sr_collectorClass = ev_reportedCollectorType ev,
      sr_requirementIds = ev_requirementIds ev, sr_criterionIds = ev_criterionIds ev\<rparr>"

definition verify_evidence_capability :: "trust_registry \<Rightarrow> evidence_record \<Rightarrow> operation_error option" where
  "verify_evidence_capability reg ev =
     (if ev_effectiveAuthority ev = Agent_Claim \<or> js_falsy (ev_verifiedCapability ev) then None
      else let cap = the (ev_verifiedCapability ev) in first_some
        [must (verifyCapability reg (ev_verifiedPrincipalId ev) (ev_verifiedPrincipalKind ev) cap)
           AUTHORIZATION_FAILED,
         must (case capabilityToAuthority cap of None \<Rightarrow> True | Some a \<Rightarrow> ev_effectiveAuthority ev = a)
           INVALID_LEDGER])"

definition verify_evidence ::
  "mission_contract \<Rightarrow> trust_registry \<Rightarrow> evidence_record \<Rightarrow> operation_error option" where
  "verify_evidence c reg ev = first_some
     [must (known_requirements c (ev_requirementIds ev)) INVALID_LEDGER,
      must (verifyPrincipal reg (ev_verifiedPrincipalId ev) (ev_verifiedPrincipalKind ev)) AUTHORIZATION_FAILED,
      verify_evidence_capability reg ev,
      must (\<not> (ev_effectiveAuthority ev \<noteq> Agent_Claim \<and> ev_verifiedPrincipalKind ev = ''agent'')) INVALID_LEDGER,
      must (\<not> (isSourceRequiredForEvidence (ev_effectiveAuthority ev)
                (Some (ep_authoritativeSources (mc_evidencePolicy c))) None \<and> js_blank (ev_source ev)))
        AUTHORITATIVE_SOURCE_REQUIRED,
      must (js_blank (ev_source ev) \<or> verifyEvidenceSource reg (source_request_of ev)) UNKNOWN_AUTHORITATIVE_SOURCE,
      checkContractEvidencePolicy c ev,
      checkCriterionEvidenceRequirements c ev]"

definition verify_transition ::
  "mission_contract \<Rightarrow> requirement_ledger \<Rightarrow> trust_registry \<Rightarrow> requirement_transition \<Rightarrow> operation_error option" where
  "verify_transition c l reg tx =
     (let i = tx_verifiedPrincipalId tx; k = tx_verifiedPrincipalKind tx in first_some
       [check_transition_record c l tx,
        must (verifyPrincipal reg i k) AUTHORIZATION_FAILED,
        must (\<not> (tx_toStatus tx = Rq_SATISFIED \<and> k = ''agent'')) INVALID_LEDGER,
        must (js_falsy (tx_verifiedCapability tx) \<or> verifyCapability reg i k (the (tx_verifiedCapability tx)))
          AUTHORIZATION_FAILED,
        must (\<not> (tx_toStatus tx = Rq_SATISFIED \<and> tx_verifiedCapability tx \<noteq> Some ''transition:satisfy''))
          INVALID_LEDGER,
        must (\<not> (tx_toStatus tx = Rq_NOT_APPLICABLE \<and> tx_fromStatus tx \<noteq> Rq_UNASSESSED
                  \<and> tx_verifiedCapability tx \<noteq> Some ''transition:not-applicable'')) INVALID_LEDGER,
        (if tx_toStatus tx \<noteq> Rq_SATISFIED then None
         else case find_requirement c (tx_requirementId tx) of
                None \<Rightarrow> None
              | Some r \<Rightarrow> first_error (\<lambda>_. replayCriterionSatisfaction l tx r) (mr_acceptanceCriteria r))])"

definition last_satisfying :: "requirement_ledger \<Rightarrow> ident \<Rightarrow> requirement_transition option" where
  "last_satisfying l rid =
     List.find (\<lambda>t. tx_requirementId t = rid \<and> tx_toStatus t = Rq_SATISFIED) (rev (rl_transitions l))"

definition check_freshness ::
  "mission_contract \<Rightarrow> requirement_ledger \<Rightarrow> ledger_entry \<Rightarrow> operation_error option" where
  "check_freshness c l e =
     (if le_status e \<noteq> Rq_SATISFIED then None
      else case le_latestRegressionRevision e of
        None \<Rightarrow> None
      | Some n \<Rightarrow>
          (case (last_satisfying l (le_requirementId e), find_requirement c (le_requirementId e)) of
             (Some tx, Some r) \<Rightarrow>
               first_error (\<lambda>k. must (has_fresh_evidence l (tx_evidenceIds tx) n k) STALE_EVIDENCE_AFTER_REGRESSION)
                 (mr_acceptanceCriteria r)
           | _ \<Rightarrow> None))"

definition validateRequirementLedger ::
  "(string \<Rightarrow> string) \<Rightarrow> mission_contract \<Rightarrow> requirement_ledger \<Rightarrow> validation_context \<Rightarrow> operation_error option" where
  "validateRequirementLedger sha c l v =
     (case v of
        Counterfeit \<Rightarrow> Some TRUSTED_VALIDATION_CONTEXT_REQUIRED
      | Genuine reg \<Rightarrow> first_some
          [must (vr_digest reg = computeMissionContractDigest sha c) TRUSTED_VALIDATION_CONTEXT_CONTRACT_MISMATCH,
           must (rl_contractDigest l = computeMissionContractDigest sha c) CONTRACT_DIGEST_MISMATCH,
           runStructuralChecks sha c l,
           first_error_distinct ev_id (\<lambda>_. INVALID_LEDGER) (verify_evidence c reg) [] (rl_evidence l),
           first_error_distinct tx_id (\<lambda>_. INVALID_LEDGER) (verify_transition c l reg) [] (rl_transitions l),
           check_mutation_sequence l,
           check_states c l,
           first_error (check_freshness c l) (rl_requirements l)])"

text \<open>\<open>validateRequirementLedgerStrict\<close> sorts the error code into a structural or a provenance
  failure.\<close>

datatype check_outcome = Check_Passed | Check_Failed operation_error | Not_Reached

record strict_result =
  st_valid :: bool
  st_trustVerified :: bool
  st_structural :: check_outcome
  st_provenance :: check_outcome

definition is_provenance_code :: "operation_error \<Rightarrow> bool" where
  "is_provenance_code e \<longleftrightarrow> e \<in> set
     [AUTHORIZATION_FAILED, UNKNOWN_AUTHORITATIVE_SOURCE, AUTHORITATIVE_SOURCE_REQUIRED,
      CONTRACT_EVIDENCE_POLICY_VIOLATION, CRITERION_EVIDENCE_POLICY_VIOLATION,
      TRUSTED_VALIDATION_CONTEXT_REQUIRED]"

definition validateRequirementLedgerStrict ::
  "(string \<Rightarrow> string) \<Rightarrow> mission_contract \<Rightarrow> requirement_ledger \<Rightarrow> validation_context \<Rightarrow> strict_result" where
  "validateRequirementLedgerStrict sha c l v =
     (case validateRequirementLedger sha c l v of
        None \<Rightarrow> \<lparr>st_valid = True, st_trustVerified = True, st_structural = Check_Passed, st_provenance = Check_Passed\<rparr>
      | Some e \<Rightarrow>
          if is_provenance_code e
          then \<lparr>st_valid = False, st_trustVerified = True, st_structural = Check_Passed, st_provenance = Check_Failed e\<rparr>
          else \<lparr>st_valid = False, st_trustVerified = True, st_structural = Check_Failed e, st_provenance = Not_Reached\<rparr>)"

section \<open>Inspection without trust\<close>

record structural_inspection =
  si_missionId :: ident
  si_contractDigest :: string
  si_ledgerRevision :: int
  si_totalRequirements :: nat
  si_applicableRequirements :: nat
  si_structurallyValid :: bool
  si_stateCounts :: "(requirement_status \<times> nat) list"
  si_blockedRequirements :: "ident list"
  si_failedRequirements :: "ident list"

definition applicable_entries :: "requirement_ledger \<Rightarrow> ledger_entry list" where
  "applicable_entries l = filter (\<lambda>e. \<not> le_initialNotApplicable e) (rl_requirements l)"

definition state_counts :: "requirement_ledger \<Rightarrow> (requirement_status \<times> nat) list" where
  "state_counts l =
     foldl (\<lambda>m e. assoc_set (le_status e) ((case map_of m (le_status e) of None \<Rightarrow> 0 | Some n \<Rightarrow> n) + 1) m)
       [] (applicable_entries l)"

definition entries_in :: "requirement_status \<Rightarrow> requirement_ledger \<Rightarrow> ident list" where
  "entries_in s l = map le_requirementId (filter (\<lambda>e. le_status e = s) (rl_requirements l))"

definition inspectRequirementLedgerStructure ::
  "(string \<Rightarrow> string) \<Rightarrow> mission_contract \<Rightarrow> requirement_ledger \<Rightarrow> structural_inspection" where
  "inspectRequirementLedgerStructure sha c l =
     \<lparr>si_missionId = mc_missionId c, si_contractDigest = rl_contractDigest l,
      si_ledgerRevision = rl_revision l, si_totalRequirements = length (mc_requirements c),
      si_applicableRequirements = length (applicable_entries l),
      si_structurallyValid = (validateRequirementLedgerStructure sha c l = None),
      si_stateCounts = state_counts l,
      si_blockedRequirements = entries_in Rq_BLOCKED l,
      si_failedRequirements = entries_in Rq_FAILED l\<rparr>"

section \<open>Adding evidence\<close>

definition deriveCapabilityFromAuthority :: "authority \<Rightarrow> string option" where
  "deriveCapabilityFromAuthority a =
     (case a of
        Test_Result \<Rightarrow> Some ''evidence:test-result''
      | Command_Result \<Rightarrow> Some ''evidence:command-result''
      | Repository_Observation \<Rightarrow> Some ''evidence:repository-observation''
      | Runtime_Observation \<Rightarrow> Some ''evidence:runtime-observation''
      | Operator_Confirmation \<Rightarrow> Some ''evidence:operator-confirmation''
      | Trusted_Collector \<Rightarrow> Some ''evidence:trusted-collector''
      | Agent_Claim \<Rightarrow> None)"

definition evidence_of_request ::
  "requirement_ledger \<Rightarrow> evidence_request \<Rightarrow> mutation_context \<Rightarrow> evidence_record" where
  "evidence_of_request l req ctx =
     (let a = deriveEffectiveAuthority ctx (eq_type req) in
      \<lparr>ev_id = eq_id req, ev_type = eq_type req, ev_requirementIds = eq_requirementIds req,
       ev_criterionIds = eq_criterionIds req,
       ev_reportedCollectorType = (case eq_reportedCollectorType req of Some t \<Rightarrow> t | None \<Rightarrow> ''agent''),
       ev_reportedAuthority = (case eq_reportedAuthority req of Some b \<Rightarrow> b | None \<Rightarrow> False),
       ev_effectiveAuthority = a, ev_verifiedPrincipalId = mu_principalId ctx,
       ev_verifiedPrincipalKind = mu_principalKind ctx,
       ev_verifiedCapability = deriveCapabilityFromAuthority a,
       ev_status = eq_status req, ev_source = eq_source req, ev_summary = eq_summary req,
       ev_digest = eq_digest req, ev_claimText = eq_claimText req,
       ev_addedAtRevision = rl_revision l + 1, ev_metadata = eq_metadata req\<rparr>)"

definition insert_evidence :: "requirement_ledger \<Rightarrow> evidence_record \<Rightarrow> requirement_ledger" where
  "insert_evidence l ev = l\<lparr>rl_revision := rl_revision l + 1, rl_evidence := rl_evidence l @ [ev]\<rparr>"

text \<open>The closure gate: a privileged mutation is accepted only if its result passes the
  authoritative validation.\<close>

definition closure_gate ::
  "(string \<Rightarrow> string) \<Rightarrow> mission_contract \<Rightarrow> requirement_ledger \<Rightarrow> validation_context option \<Rightarrow>
   operation_error + requirement_ledger" where
  "closure_gate sha c l' v =
     (case v of
        Some (Genuine reg) \<Rightarrow>
          (case validateRequirementLedger sha c l' (Genuine reg) of
             None \<Rightarrow> Inr l'
           | Some _ \<Rightarrow> Inl INTERNAL_REPLAY_INVARIANT_VIOLATION)
      | _ \<Rightarrow> Inl TRUSTED_VALIDATION_CONTEXT_REQUIRED)"

definition context_or_untrusted :: "mutation_context option \<Rightarrow> mutation_context" where
  "context_or_untrusted ctx = (case ctx of Some m \<Rightarrow> m | None \<Rightarrow> getUntrustedContext)"

definition addLedgerEvidence ::
  "(string \<Rightarrow> string) \<Rightarrow> mission_contract \<Rightarrow> requirement_ledger \<Rightarrow> evidence_request \<Rightarrow>
   mutation_context option \<Rightarrow> validation_context option \<Rightarrow> operation_error + requirement_ledger" where
  "addLedgerEvidence sha c l req context v =
     (let ctx = context_or_untrusted context in
      case first_some
        [must (eq_expectedRevision req = rl_revision l) STALE_REVISION,
         validateRequirementLedgerStructure sha c l,
         must (\<not> list_ex (\<lambda>e. ev_id e = eq_id req) (rl_evidence l)) DUPLICATE_EVIDENCE_ID,
         must (known_requirements c (eq_requirementIds req)) UNKNOWN_REQUIREMENT] of
        Some e \<Rightarrow> Inl e
      | None \<Rightarrow>
          (let ev = evidence_of_request l req ctx; l' = insert_evidence l ev in
           if ev_effectiveAuthority ev \<noteq> Agent_Claim then closure_gate sha c l' v else Inr l'))"

section \<open>Applying a transition\<close>

definition transition_of_request ::
  "requirement_ledger \<Rightarrow> requirement_status \<Rightarrow> transition_request \<Rightarrow> mutation_context \<Rightarrow> requirement_transition" where
  "transition_of_request l current req ctx =
     \<lparr>tx_id = tr_transitionId req, tx_revisionBefore = rl_revision l, tx_revisionAfter = rl_revision l + 1,
      tx_requirementId = tr_requirementId req, tx_fromStatus = current, tx_toStatus = tr_toStatus req,
      tx_reportedActorType = (case tr_reportedActorType req of Some t \<Rightarrow> t | None \<Rightarrow> ''agent''),
      tx_reportedActorId = tr_reportedActorId req,
      tx_verifiedPrincipalId = mu_principalId ctx, tx_verifiedPrincipalKind = mu_principalKind ctx,
      tx_verifiedCapability =
        (if tr_toStatus req = Rq_SATISFIED then Some ''transition:satisfy''
         else if tr_toStatus req = Rq_NOT_APPLICABLE \<and> current \<noteq> Rq_UNASSESSED
         then Some ''transition:not-applicable'' else None),
      tx_reason = tr_reason req, tx_evidenceIds = tr_evidenceIds req,
      tx_blockerReference = tr_blockerReference req, tx_metadata = tr_metadata req\<rparr>"

definition updated_entry :: "ledger_entry \<Rightarrow> requirement_status \<Rightarrow> int \<Rightarrow> ledger_entry" where
  "updated_entry e to newRevision =
     (let e' = e\<lparr>le_status := to\<rparr> in
      if le_status e = Rq_SATISFIED \<and> to \<noteq> Rq_SATISFIED
      then e'\<lparr>le_latestRegressionRevision := Some newRevision\<rparr> else e')"

text \<open>\<open>findIndex\<close>, and the copied array with one element replaced.\<close>

definition entry_index :: "requirement_ledger \<Rightarrow> ident \<Rightarrow> nat" where
  "entry_index l i = length (takeWhile (\<lambda>e. le_requirementId e \<noteq> i) (rl_requirements l))"

definition insert_transition ::
  "requirement_ledger \<Rightarrow> ledger_entry \<Rightarrow> requirement_transition \<Rightarrow> requirement_ledger" where
  "insert_transition l e tx =
     l\<lparr>rl_revision := rl_revision l + 1,
       rl_requirements := (rl_requirements l)
         [entry_index l (tx_requirementId tx) := updated_entry e (tx_toStatus tx) (rl_revision l + 1)],
       rl_transitions := rl_transitions l @ [tx]\<rparr>"

definition privileged :: "requirement_status \<Rightarrow> requirement_status \<Rightarrow> bool" where
  "privileged current to \<longleftrightarrow> to = Rq_SATISFIED \<or> current = Rq_SATISFIED \<or> to = Rq_NOT_APPLICABLE"

definition deny :: "operation_error \<Rightarrow> policy_reason option \<Rightarrow> operation_error option" where
  "deny code r = (case r of None \<Rightarrow> None | Some _ \<Rightarrow> Some code)"

definition check_transition_request ::
  "mission_contract \<Rightarrow> requirement_ledger \<Rightarrow> transition_request \<Rightarrow> mutation_context \<Rightarrow> ledger_entry \<Rightarrow>
   operation_error option" where
  "check_transition_request c l req ctx e = first_some
     [deny INVALID_TRANSITION (validateTransition (le_status e) req),
      deny TRUSTED_CONTEXT_REQUIRED (authorizeTransition req ctx),
      first_error (check_evidence_reference l (rl_revision l + 1)) (tr_evidenceIds req),
      (if tr_toStatus req = Rq_SATISFIED then first_some
         [deny SELF_AUTH_SATISFIED (isSatisfactionAuthorized req l c ctx),
          deny STALE_EVIDENCE_AFTER_REGRESSION
            (checkEvidenceFreshnessAfterRegression req l c (le_latestRegressionRevision e))]
       else None),
      must (\<not> (tr_toStatus req = Rq_NOT_APPLICABLE \<and> tr_reason req = [])) NOT_APPLICABLE_AUTHORITY]"

definition applyRequirementTransition ::
  "(string \<Rightarrow> string) \<Rightarrow> mission_contract \<Rightarrow> requirement_ledger \<Rightarrow> transition_request \<Rightarrow>
   mutation_context option \<Rightarrow> validation_context option \<Rightarrow> operation_error + requirement_ledger" where
  "applyRequirementTransition sha c l req context v =
     (let ctx = context_or_untrusted context in
      case first_some
        [must (\<not> js_blank (tr_transitionId req)) DUPLICATE_TRANSITION_ID,
         must (tr_expectedRevision req = rl_revision l) STALE_REVISION,
         validateRequirementLedgerStructure sha c l,
         must (\<not> list_ex (\<lambda>t. tx_id t = tr_transitionId req) (rl_transitions l)) DUPLICATE_TRANSITION_ID] of
        Some e \<Rightarrow> Inl e
      | None \<Rightarrow>
          (case find_entry l (tr_requirementId req) of
             None \<Rightarrow> Inl UNKNOWN_REQUIREMENT
           | Some e \<Rightarrow>
               (case check_transition_request c l req ctx e of
                  Some err \<Rightarrow> Inl err
                | None \<Rightarrow>
                    (let l' = insert_transition l e (transition_of_request l (le_status e) req ctx) in
                     if privileged (le_status e) (tr_toStatus req) then closure_gate sha c l' v else Inr l'))))"

end
