(* ===== verification/Versioned_Log.thy ===== *)
theory Versioned_Log
  imports Prelude
begin

text \<open>
  The concurrency contract shared by the Requirement Ledger and the execution state machine:
  every request names the revision it was prepared against, a request succeeds only at that
  revision, a success advances the revision by one and appends one entry to the history.
  The locale states the contract; its lemmas are what clients rely on (no lost update, no
  replay, a history that only grows).
\<close>

locale versioned_log =
  fixes exec :: "'r \<Rightarrow> 's \<Rightarrow> 'e + 's"
    and expected :: "'r \<Rightarrow> int"
    and rev_of :: "'s \<Rightarrow> int"
    and hist :: "'s \<Rightarrow> 'h list"
  assumes exec_expected: "exec r s = Inr t \<Longrightarrow> expected r = rev_of s"
    and exec_advances: "exec r s = Inr t \<Longrightarrow> rev_of t = rev_of s + 1"
    and exec_appends: "exec r s = Inr t \<Longrightarrow> \<exists>h. hist t = hist s @ [h]"
begin

lemma stale_refused: "expected r \<noteq> rev_of s \<Longrightarrow> \<exists>e. exec r s = Inl e"
  using exec_expected [of r s] by (cases "exec r s") auto

lemma one_winner:
  assumes "exec r s = Inr t" and "expected r' = expected r"
  shows "\<exists>e. exec r' t = Inl e"
  using assms exec_expected [OF assms(1)] exec_advances [OF assms(1)] by (intro stale_refused) simp

lemma run_revision: "run_all exec s rs = Inr t \<Longrightarrow> rev_of t = rev_of s + int (length rs)"
  by (induction rs arbitrary: s) (auto dest: exec_advances split: sum.splits)

lemma run_history: "run_all exec s rs = Inr t \<Longrightarrow> \<exists>hs. hist t = hist s @ hs \<and> length hs = length rs"
proof (induction rs arbitrary: s)
  case Nil
  then show ?case by simp
next
  case (Cons r rs)
  then obtain u where u: "exec r s = Inr u" "run_all exec u rs = Inr t"
    by (auto split: sum.splits)
  obtain h where "hist u = hist s @ [h]" using exec_appends [OF u(1)] by blast
  moreover obtain hs where "hist t = hist u @ hs" "length hs = length rs" using Cons.IH [OF u(2)] by blast
  ultimately show ?case by auto
qed

lemma run_expected:
  assumes "run_all exec s rs = Inr t" and "n < length rs"
  shows "expected (rs ! n) = rev_of s + int n"
  using assms
proof (induction rs arbitrary: s n)
  case (Cons r rs)
  then obtain u where u: "exec r s = Inr u" "run_all exec u rs = Inr t"
    by (auto split: sum.splits)
  show ?case
    using Cons.IH [OF u(2), of "n - 1"] Cons.prems(2) exec_expected [OF u(1)] exec_advances [OF u(1)]
    by (cases n) auto
qed simp

text \<open>A request that has been accepted once is refused for ever after.\<close>

lemma no_replay:
  assumes "exec r s = Inr u" and "run_all exec u rs = Inr t"
  shows "\<exists>e. exec r t = Inl e"
proof -
  have "rev_of t = rev_of s + 1 + int (length rs)"
    using run_revision [OF assms(2)] exec_advances [OF assms(1)] by simp
  then show ?thesis using exec_expected [OF assms(1)] by (intro stale_refused) simp
qed

end

text \<open>
  The contract of an idempotent command log: a command names the log entry that answers it;
  a successful command leaves an entry that answers it in the log and the log only grows; a
  command answered by an entry of the log returns that entry and changes nothing.  Under the
  contract a command that is repeated, at any later time and in any environment, gets the answer
  it got first.
\<close>

locale idempotent_log =
  fixes exec :: "'x \<Rightarrow> 'c \<Rightarrow> 's \<Rightarrow> 'e + 's \<times> 'h"
    and inv :: "'s \<Rightarrow> bool"
    and ready :: "'s \<Rightarrow> bool"
    and hist :: "'s \<Rightarrow> 'h list"
    and answers :: "'c \<Rightarrow> 'h \<Rightarrow> bool"
  assumes exec_inv: "inv s \<Longrightarrow> exec x c s = Inr (t, h) \<Longrightarrow> inv t"
    and exec_grows: "inv s \<Longrightarrow> exec x c s = Inr (t, h) \<Longrightarrow> \<exists>hs. hist t = hist s @ hs"
    and exec_answers: "inv s \<Longrightarrow> exec x c s = Inr (t, h) \<Longrightarrow> h \<in> set (hist t) \<and> answers c h"
    and exec_retry: "inv s \<Longrightarrow> ready s \<Longrightarrow> h \<in> set (hist s) \<Longrightarrow> answers c h \<Longrightarrow> exec x c s = Inr (s, h)"
begin

text \<open>Commands one after the other; the environment may change at every step, refused commands
  leave the state.\<close>

fun later :: "'s \<Rightarrow> ('x \<times> 'c) list \<Rightarrow> 's" where
  "later s [] = s"
| "later s ((x, c) # xs) = later (case exec x c s of Inl e \<Rightarrow> s | Inr (t, h) \<Rightarrow> t) xs"

lemma later_grows: "inv s \<Longrightarrow> inv (later s xs) \<and> (\<exists>hs. hist (later s xs) = hist s @ hs)"
proof (induction s xs rule: later.induct)
  case (2 s x c xs)
  show ?case
  proof (cases "exec x c s")
    case (Inl e)
    then show ?thesis using 2 by simp
  next
    case (Inr th)
    obtain t h where th: "th = (t, h)" by (cases th)
    then have "inv t" "\<exists>hs. hist t = hist s @ hs"
      using exec_inv exec_grows 2(2) Inr by blast+
    then show ?thesis using 2(1) Inr th by auto
  qed
qed simp

lemma same_answer:
  assumes "inv s" and "exec x c s = Inr (t, h)" and "ready (later t xs)"
  shows "exec y c (later t xs) = Inr (later t xs, h)"
proof (rule exec_retry)
  have "inv t" using exec_inv assms(1,2) by blast
  then show "inv (later t xs)" "h \<in> set (hist (later t xs))"
    using later_grows [of t xs] exec_answers [OF assms(1,2)] by auto
  show "answers c h" using exec_answers [OF assms(1,2)] by blast
qed (rule assms(3))

end

end
