(* ===== verification/Ledger_Invariants.thy ===== *)
theory Ledger_Invariants
  imports Requirement_Ledger Versioned_Log
begin

text \<open>
  The invariant of the Requirement Ledger: every operation keeps the structural validity that
  \<open>validateRequirementLedgerStructure\<close> tests, the revision counts the mutations, and the
  mutation sequence is a log that only grows.  The ledger is an instance of the interface
  \<open>versioned_log\<close>.
\<close>

section \<open>The mutation sequence of a valid ledger\<close>

lemma consecutive_snoc: "consecutive (xs @ [y]) \<longleftrightarrow> consecutive xs \<and> (xs = [] \<or> y = last xs + 1)"
  by (induction xs rule: consecutive.induct) auto

lemma consecutive_bounds: "consecutive xs \<Longrightarrow> \<forall>x \<in> set xs. hd xs \<le> x \<and> x \<le> last xs"
  by (induction xs rule: consecutive.induct) auto

lemma length_buildMutationSequence:
  "length (buildMutationSequence l) = length (rl_evidence l) + length (rl_transitions l)"
  by (simp add: buildMutationSequence_def mutation_slots_def)

lemma set_buildMutationSequence: "set (buildMutationSequence l) = set (mutation_slots l)"
  by (simp add: buildMutationSequence_def)

lemma check_mutation_sequence_None:
  "check_mutation_sequence l = None \<longleftrightarrow>
     (let revs = map ms_revision (buildMutationSequence l) in
      distinct revs \<and> (revs = [] \<or> hd revs = 1 \<and> last revs = rl_revision l) \<and> consecutive revs
      \<and> rl_revision l = int (length revs))"
  by (auto simp: check_mutation_sequence_def check_simps Let_def length_buildMutationSequence)

lemma sequence_bounds:
  assumes "check_mutation_sequence l = None" and "s \<in> set (mutation_slots l)"
  shows "1 \<le> ms_revision s \<and> ms_revision s \<le> rl_revision l"
proof -
  let ?revs = "map ms_revision (buildMutationSequence l)"
  have mem: "ms_revision s \<in> set ?revs"
    using assms(2) by (simp add: set_buildMutationSequence)
  then have "?revs \<noteq> []" by auto
  then have "hd ?revs = 1" "last ?revs = rl_revision l" "consecutive ?revs"
    using assms(1) unfolding check_mutation_sequence_None Let_def by auto
  then show ?thesis using consecutive_bounds mem by fastforce
qed

text \<open>A slot stamped with the next revision goes to the end of the sequence.\<close>

lemma sequence_extends:
  assumes "check_mutation_sequence l = None"
    and "mutation_slots l = xs @ ys" and "mutation_slots l' = xs @ s # ys"
    and "ms_revision s = rl_revision l + 1" and "rl_revision l' = rl_revision l + 1"
  shows "buildMutationSequence l' = buildMutationSequence l @ [s]"
    and "check_mutation_sequence l' = None"
proof -
  have below: "ms_revision x < ms_revision s" if "x \<in> set (xs @ ys)" for x
    using sequence_bounds [OF assms(1), of x] that assms(2,4) by auto
  show seq: "buildMutationSequence l' = buildMutationSequence l @ [s]"
    unfolding buildMutationSequence_def assms(2,3) by (rule sort_key_max_last) (rule below)
  let ?revs = "map ms_revision (buildMutationSequence l)"
  have revs: "distinct ?revs" "?revs = [] \<or> hd ?revs = 1 \<and> last ?revs = rl_revision l" "consecutive ?revs"
    "rl_revision l = int (length ?revs)"
    using assms(1) unfolding check_mutation_sequence_None Let_def by auto
  have new: "map ms_revision (buildMutationSequence l') = ?revs @ [rl_revision l + 1]"
    using seq assms(4) by simp
  have "rl_revision l + 1 \<notin> set ?revs"
    using sequence_bounds [OF assms(1)] by (force simp: set_buildMutationSequence)
  then show "check_mutation_sequence l' = None"
    unfolding check_mutation_sequence_None Let_def new using revs assms(5)
    by (cases "?revs = []") (simp_all add: consecutive_snoc hd_append)
qed

section \<open>What a successful operation has checked\<close>

lemma structure_None:
  "validateRequirementLedgerStructure sha c l = None \<longleftrightarrow>
     runStructuralChecks sha c l = None
     \<and> distinct (map le_requirementId (rl_requirements l))
     \<and> (distinct (map ev_id (rl_evidence l)) \<and> (\<forall>ev \<in> set (rl_evidence l). check_evidence_record c l ev = None))
     \<and> (distinct (map tx_id (rl_transitions l)) \<and> (\<forall>tx \<in> set (rl_transitions l). check_transition_record c l tx = None))
     \<and> check_mutation_sequence l = None \<and> check_states c l = None"
  by (simp add: validateRequirementLedgerStructure_def check_simps)

lemma runStructuralChecks_None:
  "runStructuralChecks sha c l = None \<longleftrightarrow>
     rl_contractDigest l = computeMissionContractDigest sha c \<and> rl_ledgerVersion l = 1
     \<and> rl_missionId l = mc_missionId c \<and> rl_contractRevision l = mc_revision c
     \<and> le_requirementId ` set (rl_requirements l) = mr_id ` set (mc_requirements c)"
  by (auto simp: runStructuralChecks_def check_simps Let_def)

lemma closure_gate_Inr:
  "closure_gate sha c l' v = Inr l'' \<longleftrightarrow>
     l'' = l' \<and> (\<exists>reg. v = Some (Genuine reg) \<and> validateRequirementLedger sha c l' (Genuine reg) = None)"
  by (auto simp: closure_gate_def split: option.splits validation_context.splits)

lemma addLedgerEvidence_Inr:
  "addLedgerEvidence sha c l req ctx v = Inr l' \<longleftrightarrow>
     eq_expectedRevision req = rl_revision l
     \<and> validateRequirementLedgerStructure sha c l = None
     \<and> eq_id req \<notin> ev_id ` set (rl_evidence l)
     \<and> known_requirements c (eq_requirementIds req)
     \<and> l' = insert_evidence l (evidence_of_request l req (context_or_untrusted ctx))
     \<and> (deriveEffectiveAuthority (context_or_untrusted ctx) (eq_type req) \<noteq> Agent_Claim \<longrightarrow>
          (\<exists>reg. v = Some (Genuine reg) \<and> validateRequirementLedger sha c l' (Genuine reg) = None))"
proof -
  have auth: "ev_effectiveAuthority (evidence_of_request l req (context_or_untrusted ctx)) =
      deriveEffectiveAuthority (context_or_untrusted ctx) (eq_type req)"
    by (simp add: evidence_of_request_def Let_def)
  let ?checks = "first_some
        [must (eq_expectedRevision req = rl_revision l) STALE_REVISION,
         validateRequirementLedgerStructure sha c l,
         must (\<not> list_ex (\<lambda>e. ev_id e = eq_id req) (rl_evidence l)) DUPLICATE_EVIDENCE_ID,
         must (known_requirements c (eq_requirementIds req)) UNKNOWN_REQUIREMENT]"
  have checks: "?checks = None \<longleftrightarrow> eq_expectedRevision req = rl_revision l
      \<and> validateRequirementLedgerStructure sha c l = None \<and> eq_id req \<notin> ev_id ` set (rl_evidence l)
      \<and> known_requirements c (eq_requirementIds req)"
    by (simp add: check_simps)
  show ?thesis
    by (cases ?checks)
      (use checks in \<open>auto simp: addLedgerEvidence_def Let_def auth closure_gate_Inr\<close>)
qed

lemma applyRequirementTransition_Inr:
  "applyRequirementTransition sha c l req ctx v = Inr l' \<longleftrightarrow>
     \<not> js_blank (tr_transitionId req)
     \<and> tr_expectedRevision req = rl_revision l
     \<and> validateRequirementLedgerStructure sha c l = None
     \<and> tr_transitionId req \<notin> tx_id ` set (rl_transitions l)
     \<and> (\<exists>e. find_entry l (tr_requirementId req) = Some e
          \<and> check_transition_request c l req (context_or_untrusted ctx) e = None
          \<and> l' = insert_transition l e (transition_of_request l (le_status e) req (context_or_untrusted ctx))
          \<and> (privileged (le_status e) (tr_toStatus req) \<longrightarrow>
               (\<exists>reg. v = Some (Genuine reg) \<and> validateRequirementLedger sha c l' (Genuine reg) = None)))"
proof -
  let ?checks = "first_some
        [must (\<not> js_blank (tr_transitionId req)) DUPLICATE_TRANSITION_ID,
         must (tr_expectedRevision req = rl_revision l) STALE_REVISION,
         validateRequirementLedgerStructure sha c l,
         must (\<not> list_ex (\<lambda>t. tx_id t = tr_transitionId req) (rl_transitions l)) DUPLICATE_TRANSITION_ID]"
  have checks: "?checks = None \<longleftrightarrow> \<not> js_blank (tr_transitionId req) \<and> tr_expectedRevision req = rl_revision l
      \<and> validateRequirementLedgerStructure sha c l = None \<and> tr_transitionId req \<notin> tx_id ` set (rl_transitions l)"
    by (simp add: check_simps)
  have split: "applyRequirementTransition sha c l req ctx v = Inr l' \<longleftrightarrow> ?checks = None
      \<and> (\<exists>e. find_entry l (tr_requirementId req) = Some e
          \<and> check_transition_request c l req (context_or_untrusted ctx) e = None
          \<and> (let l'' = insert_transition l e (transition_of_request l (le_status e) req (context_or_untrusted ctx)) in
              (if privileged (le_status e) (tr_toStatus req) then closure_gate sha c l'' v else Inr l'') = Inr l'))"
  proof (cases ?checks)
    case None
    show ?thesis
    proof (cases "find_entry l (tr_requirementId req)")
      case (Some e)
      with None show ?thesis
        by (cases "check_transition_request c l req (context_or_untrusted ctx) e")
          (simp_all add: applyRequirementTransition_def Let_def)
    qed (use None in \<open>simp add: applyRequirementTransition_def Let_def\<close>)
  qed (simp add: applyRequirementTransition_def Let_def)
  show ?thesis
    unfolding split checks Let_def by (simp add: closure_gate_Inr if_split_eq1 cong: conj_cong) blast
qed

section \<open>State reconstruction of an extended ledger\<close>

lemma foldl_upd_distinct:
  assumes "distinct (map key xs)"
  shows "foldl (\<lambda>m x. m(key x \<mapsto> f x)) m0 xs i =
    (case List.find (\<lambda>x. key x = i) xs of Some x \<Rightarrow> Some (f x) | None \<Rightarrow> m0 i)"
  using assms
proof (induction xs arbitrary: m0)
  case (Cons x xs)
  have "List.find (\<lambda>y. key y = key x) xs = None"
    using Cons.prems by (auto simp: find_eq_None image_iff)
  with Cons show ?case by (auto split: option.splits)
qed simp

lemma initial_states_lookup:
  assumes "distinct (map mr_id (mc_requirements c))"
  shows "initial_states c i = map_option initial_status (find_requirement c i)"
  using foldl_upd_distinct [OF assms, of initial_status Map.empty i]
  by (simp add: initial_states_def find_requirement_def split: option.splits)

lemma transition_slot_found:
  assumes "s \<in> set (mutation_slots l)" and "ms_kind s = Slot_Transition"
  shows "ms_id s \<in> tx_id ` set (rl_transitions l)"
  using assms by (auto simp: mutation_slots_def evidence_slot_def transition_slot_def)

text \<open>Appending a mutation extends the reconstruction by one step.\<close>

lemma reconstruct_extends:
  assumes "buildMutationSequence l' = buildMutationSequence l @ [s]"
    and "\<And>i. i \<in> tx_id ` set (rl_transitions l) \<Longrightarrow> find_transition l' i = find_transition l i"
  shows "reconstruct_states c l' =
    (case reconstruct_states c l of Inl e \<Rightarrow> Inl e | Inr states \<Rightarrow> replay_slot l' s states)"
proof -
  have "run_all (replay_slot l') m (buildMutationSequence l) = run_all (replay_slot l) m (buildMutationSequence l)" for m
  proof (rule run_all_cong)
    fix r m assume "r \<in> set (buildMutationSequence l)"
    then have "r \<in> set (mutation_slots l)" by (simp add: set_buildMutationSequence)
    then show "replay_slot l' r m = replay_slot l r m"
      using transition_slot_found [of r l] assms(2) [of "ms_id r"]
      by (cases "ms_kind r") (auto simp: replay_slot_def)
  qed
  then show ?thesis
    by (simp add: reconstruct_states_def assms(1) run_all_append split: sum.splits)
qed

lemma find_transition_append:
  "find_transition (l\<lparr>rl_transitions := rl_transitions l @ [tx]\<rparr>) i =
    (case find_transition l i of None \<Rightarrow> (if tx_id tx = i then Some tx else None) | Some t \<Rightarrow> Some t)"
  by (simp add: find_transition_def find_append split: option.splits)

lemma find_transition_known: "i \<in> tx_id ` set (rl_transitions l) \<Longrightarrow> \<exists>t. find_transition l i = Some t"
  by (cases "find_transition l i") (auto simp: find_transition_def find_eq_None)

section \<open>Both operations keep a ledger structurally valid\<close>

lemma check_evidence_reference_mono:
  "check_evidence_reference l bound i = None \<Longrightarrow> rl_evidence l' = rl_evidence l @ evs \<Longrightarrow>
   check_evidence_reference l' bound i = None"
  by (auto simp: check_evidence_reference_def find_evidence_def find_append split: option.splits)

lemma check_transition_record_mono:
  "check_transition_record c l tx = None \<Longrightarrow> rl_evidence l' = rl_evidence l @ evs \<Longrightarrow>
   check_transition_record c l' tx = None"
  unfolding check_transition_record_def check_simps using check_evidence_reference_mono by blast

lemma check_evidence_record_mono:
  "check_evidence_record c l ev = None \<Longrightarrow> rl_revision l \<le> rl_revision l' \<Longrightarrow>
   check_evidence_record c l' ev = None"
  by (auto simp: check_evidence_record_def check_simps)

lemma insert_evidence_valid:
  assumes valid: "validateRequirementLedgerStructure sha c l = None"
    and new: "ev_id ev \<notin> ev_id ` set (rl_evidence l)" and known: "known_requirements c (ev_requirementIds ev)"
    and stamp: "ev_addedAtRevision ev = rl_revision l + 1"
  shows "validateRequirementLedgerStructure sha c (insert_evidence l ev) = None"
    and "buildMutationSequence (insert_evidence l ev) = buildMutationSequence l @ [evidence_slot ev]"
proof -
  let ?l' = "insert_evidence l ev"
  note v = valid [unfolded structure_None]
  have fields: "rl_evidence ?l' = rl_evidence l @ [ev]" "rl_transitions ?l' = rl_transitions l"
    "rl_requirements ?l' = rl_requirements l" "rl_revision ?l' = rl_revision l + 1"
    by (simp_all add: insert_evidence_def)
  have seq0: "check_mutation_sequence l = None" using v by blast
  have sl: "mutation_slots l = map evidence_slot (rl_evidence l) @ map transition_slot (rl_transitions l)"
    "mutation_slots ?l' = map evidence_slot (rl_evidence l) @ evidence_slot ev # map transition_slot (rl_transitions l)"
    by (simp_all add: mutation_slots_def fields)
  note ext = sequence_extends [OF seq0 sl, unfolded fields]
  show seq: "buildMutationSequence ?l' = buildMutationSequence l @ [evidence_slot ev]"
    by (rule ext) (simp_all add: evidence_slot_def stamp)
  have cms: "check_mutation_sequence ?l' = None"
    by (rule ext) (simp_all add: evidence_slot_def stamp)
  have "0 \<le> rl_revision l"
    using seq0 by (simp add: check_mutation_sequence_None Let_def)
  then have "check_evidence_record c ?l' ev = None"
    using known stamp by (simp add: check_evidence_record_def check_simps fields)
  moreover have "check_evidence_record c ?l' e = None" if "e \<in> set (rl_evidence l)" for e
    using v that check_evidence_record_mono [of c l e ?l'] fields(4) by simp
  ultimately have evs: "\<forall>e \<in> set (rl_evidence ?l'). check_evidence_record c ?l' e = None"
    by (simp add: fields)
  have txs: "\<forall>tx \<in> set (rl_transitions ?l'). check_transition_record c ?l' tx = None"
    using v check_transition_record_mono [of c l _ ?l', OF _ fields(1)] by (simp add: fields)
  have "reconstruct_states c ?l' = reconstruct_states c l"
    using reconstruct_extends [OF seq, of c]
    by (simp add: replay_slot_def evidence_slot_def find_transition_def fields split: sum.splits)
  then have st: "check_states c ?l' = None"
    using v unfolding check_states_def by (simp only: fields)
  have "runStructuralChecks sha c ?l' = None"
    using v unfolding runStructuralChecks_None by (simp add: insert_evidence_def)
  with v evs txs cms st new show "validateRequirementLedgerStructure sha c ?l' = None"
    unfolding structure_None by (simp add: fields)
qed

lemma addLedgerEvidence_valid:
  assumes "addLedgerEvidence sha c l req ctx v = Inr l'"
  shows "validateRequirementLedgerStructure sha c l' = None"
    and "\<exists>s. buildMutationSequence l' = buildMutationSequence l @ [s]"
  using assms insert_evidence_valid
    [of sha c l "evidence_of_request l req (context_or_untrusted ctx)"]
  by (auto simp: addLedgerEvidence_Inr evidence_of_request_def Let_def)

text \<open>The entry a transition moves is the one entry of its requirement.\<close>

lemma list_update_key:
  assumes "distinct (map key xs)" and "x \<in> set xs" and "key y = key x"
  shows "set (xs[length (takeWhile (\<lambda>z. key z \<noteq> key x) xs) := y]) = insert y (set xs - {x})"
    and "g y = g x \<Longrightarrow> map g (xs[length (takeWhile (\<lambda>z. key z \<noteq> key x) xs) := y]) = map g xs"
proof -
  obtain as bs where xs: "xs = as @ x # bs" using assms(2) by (meson split_list)
  then have tw: "takeWhile (\<lambda>z. key z \<noteq> key x) xs = as"
    using assms(1) by (auto simp: takeWhile_tail image_iff)
  show "set (xs[length (takeWhile (\<lambda>z. key z \<noteq> key x) xs) := y]) = insert y (set xs - {x})"
    unfolding tw using xs assms(1) by auto
  show "g y = g x \<Longrightarrow> map g (xs[length (takeWhile (\<lambda>z. key z \<noteq> key x) xs) := y]) = map g xs"
    unfolding tw using xs by simp
qed

lemma updated_entry_fields [simp]:
  "le_requirementId (updated_entry e to n) = le_requirementId e"
  "le_status (updated_entry e to n) = to"
  "le_initialNotApplicable (updated_entry e to n) = le_initialNotApplicable e"
  by (simp_all add: updated_entry_def Let_def)

lemma insert_transition_entries:
  assumes "distinct (map le_requirementId (rl_requirements l))" and "find_entry l (tx_requirementId tx) = Some e"
  shows "set (rl_requirements (insert_transition l e tx)) =
      insert (updated_entry e (tx_toStatus tx) (rl_revision l + 1)) (set (rl_requirements l) - {e})"
    and "map le_requirementId (rl_requirements (insert_transition l e tx)) = map le_requirementId (rl_requirements l)"
proof -
  have e: "e \<in> set (rl_requirements l)" "le_requirementId e = tx_requirementId tx"
    using find_entryD [OF assms(2)] by auto
  show "set (rl_requirements (insert_transition l e tx)) =
      insert (updated_entry e (tx_toStatus tx) (rl_revision l + 1)) (set (rl_requirements l) - {e})"
    and "map le_requirementId (rl_requirements (insert_transition l e tx)) = map le_requirementId (rl_requirements l)"
    using list_update_key(1) [OF assms(1) e(1), of "updated_entry e (tx_toStatus tx) (rl_revision l + 1)"]
      list_update_key(2) [OF assms(1) e(1), where y = "updated_entry e (tx_toStatus tx) (rl_revision l + 1)"
        and g = le_requirementId] e(2)
    by (simp_all add: insert_transition_def entry_index_def)
qed

lemma insert_transition_valid:
  assumes valid: "validateRequirementLedgerStructure sha c l = None"
    and entry: "find_entry l (tx_requirementId tx) = Some e" and from_e: "tx_fromStatus tx = le_status e"
    and new: "tx_id tx \<notin> tx_id ` set (rl_transitions l)"
    and stamp: "tx_revisionBefore tx = rl_revision l" "tx_revisionAfter tx = rl_revision l + 1"
    and refs: "first_error (check_evidence_reference l (rl_revision l + 1)) (tx_evidenceIds tx) = None"
  shows "validateRequirementLedgerStructure sha c (insert_transition l e tx) = None"
    and "buildMutationSequence (insert_transition l e tx) = buildMutationSequence l @ [transition_slot tx]"
proof -
  let ?l' = "insert_transition l e tx"
  note v = valid [unfolded structure_None]
  have fields: "rl_evidence ?l' = rl_evidence l" "rl_transitions ?l' = rl_transitions l @ [tx]"
    "rl_revision ?l' = rl_revision l + 1"
    by (simp_all add: insert_transition_def)
  have dist: "distinct (map le_requirementId (rl_requirements l))" using v by blast
  note entries = insert_transition_entries [OF dist entry]
  have e: "e \<in> set (rl_requirements l)" "le_requirementId e = tx_requirementId tx"
    using find_entryD [OF entry] by auto
  have seq0: "check_mutation_sequence l = None" using v by blast
  have sl: "mutation_slots l = (map evidence_slot (rl_evidence l) @ map transition_slot (rl_transitions l)) @ []"
    "mutation_slots ?l' = (map evidence_slot (rl_evidence l) @ map transition_slot (rl_transitions l)) @ transition_slot tx # []"
    by (simp_all add: mutation_slots_def fields)
  note ext = sequence_extends [OF seq0 sl, unfolded fields]
  show seq: "buildMutationSequence ?l' = buildMutationSequence l @ [transition_slot tx]"
    by (rule ext) (simp_all add: transition_slot_def stamp)
  have cms: "check_mutation_sequence ?l' = None"
    by (rule ext) (simp_all add: transition_slot_def stamp)
  have req_ids: "le_requirementId ` set (rl_requirements ?l') = le_requirementId ` set (rl_requirements l)"
    using arg_cong [OF entries(2), of set] by simp
  have binding: "runStructuralChecks sha c ?l' = None"
    using v req_ids unfolding runStructuralChecks_None by (simp add: insert_transition_def)
  have "tx_requirementId tx \<in> mr_id ` set (mc_requirements c)"
    using v e unfolding runStructuralChecks_None by (metis imageI)
  then have "check_transition_record c ?l' tx = None"
    using refs check_evidence_reference_mono [of l "rl_revision l + 1" _ ?l' "[]"]
    by (simp add: check_transition_record_def check_simps known_requirements_def stamp fields)
  then have txs: "\<forall>t \<in> set (rl_transitions ?l'). check_transition_record c ?l' t = None"
    using v check_transition_record_mono [of c l _ ?l' "[]"] by (simp add: fields)
  have evs: "\<forall>ev \<in> set (rl_evidence ?l'). check_evidence_record c ?l' ev = None"
    using v check_evidence_record_mono [of c l _ ?l'] by (simp add: fields)
  obtain states where rec: "reconstruct_states c l = Inr states"
    and snap: "\<forall>e \<in> set (rl_requirements l). states (le_requirementId e) = Some (le_status e)"
    using v by (auto simp: check_states_def check_simps split: sum.splits)
  have old: "find_transition ?l' i = find_transition l i" if "i \<in> tx_id ` set (rl_transitions l)" for i
    using find_transition_known [OF that]
    by (auto simp: find_transition_def fields find_append)
  have "find_transition ?l' (tx_id tx) = Some tx"
    using new by (auto simp: find_transition_def fields find_append find_eq_None image_iff split: option.splits
        dest!: find_Some_iff_mem)
  moreover have "states (tx_requirementId tx) = Some (le_status e)"
    using snap e by metis
  ultimately have "reconstruct_states c ?l' = Inr (states(tx_requirementId tx \<mapsto> tx_toStatus tx))"
    using reconstruct_extends [OF seq old, of c] rec from_e
    by (simp add: replay_slot_def replay_transition_def transition_slot_def)
  moreover have "(states(tx_requirementId tx \<mapsto> tx_toStatus tx)) (le_requirementId x) = Some (le_status x)"
    if "x \<in> set (rl_requirements ?l')" for x
  proof (cases "x = updated_entry e (tx_toStatus tx) (rl_revision l + 1)")
    case False
    then have x: "x \<in> set (rl_requirements l)" "x \<noteq> e" using that entries(1) by auto
    then have "le_requirementId x \<noteq> le_requirementId e"
      using dist e(1) by (auto simp: distinct_map inj_on_def)
    then show ?thesis using snap x(1) e(2) by simp
  qed (simp add: e(2))
  ultimately have "check_states c ?l' = None"
    by (simp add: check_states_def check_simps)
  with binding entries(2) dist evs txs cms new v fields show "validateRequirementLedgerStructure sha c ?l' = None"
    unfolding structure_None by simp
qed

lemma applyRequirementTransition_valid:
  assumes "applyRequirementTransition sha c l req ctx v = Inr l'"
  shows "validateRequirementLedgerStructure sha c l' = None"
    and "\<exists>s. buildMutationSequence l' = buildMutationSequence l @ [s]"
proof -
  let ?ctx = "context_or_untrusted ctx"
  obtain e where e: "find_entry l (tr_requirementId req) = Some e"
    "check_transition_request c l req ?ctx e = None"
    "l' = insert_transition l e (transition_of_request l (le_status e) req ?ctx)"
    and pre: "validateRequirementLedgerStructure sha c l = None" "tr_transitionId req \<notin> tx_id ` set (rl_transitions l)"
    using assms by (auto simp: applyRequirementTransition_Inr)
  have "first_error (check_evidence_reference l (rl_revision l + 1)) (tr_evidenceIds req) = None"
    using e(2) by (simp add: check_transition_request_def check_simps)
  note ext = insert_transition_valid [OF pre(1), of "transition_of_request l (le_status e) req ?ctx" e]
  show "validateRequirementLedgerStructure sha c l' = None"
    unfolding e(3) by (rule ext) (use e pre in \<open>simp_all add: transition_of_request_def check_transition_request_def check_simps\<close>)
  have "buildMutationSequence l' = buildMutationSequence l @ [transition_slot (transition_of_request l (le_status e) req ?ctx)]"
    unfolding e(3) by (rule ext) (use e pre in \<open>simp_all add: transition_of_request_def check_transition_request_def check_simps\<close>)
  then show "\<exists>s. buildMutationSequence l' = buildMutationSequence l @ [s]" by blast
qed

section \<open>Requests, runs and the log interface\<close>

datatype ledger_request =
    Add_Evidence evidence_request "mutation_context option" "validation_context option"
  | Apply_Transition transition_request "mutation_context option" "validation_context option"

fun exec_ledger ::
  "(string \<Rightarrow> string) \<Rightarrow> mission_contract \<Rightarrow> ledger_request \<Rightarrow> requirement_ledger \<Rightarrow>
   operation_error + requirement_ledger" where
  "exec_ledger sha c (Add_Evidence req ctx v) l = addLedgerEvidence sha c l req ctx v"
| "exec_ledger sha c (Apply_Transition req ctx v) l = applyRequirementTransition sha c l req ctx v"

fun expected_revision :: "ledger_request \<Rightarrow> int" where
  "expected_revision (Add_Evidence req ctx v) = eq_expectedRevision req"
| "expected_revision (Apply_Transition req ctx v) = tr_expectedRevision req"

lemma exec_ledger_revision:
  "exec_ledger sha c r l = Inr l' \<Longrightarrow> expected_revision r = rl_revision l \<and> rl_revision l' = rl_revision l + 1"
  by (cases r) (auto simp: addLedgerEvidence_Inr applyRequirementTransition_Inr insert_evidence_def insert_transition_def)

lemma exec_ledger_valid:
  "exec_ledger sha c r l = Inr l' \<Longrightarrow> validateRequirementLedgerStructure sha c l' = None"
  by (cases r) (auto dest: addLedgerEvidence_valid applyRequirementTransition_valid)

lemma exec_ledger_sequence:
  "exec_ledger sha c r l = Inr l' \<Longrightarrow> \<exists>s. buildMutationSequence l' = buildMutationSequence l @ [s]"
  by (cases r) (auto dest: addLedgerEvidence_valid applyRequirementTransition_valid)

interpretation ledger_log: versioned_log "exec_ledger sha c" expected_revision rl_revision buildMutationSequence
  for sha c
  by unfold_locales (auto dest: exec_ledger_revision exec_ledger_sequence)

lemma initial_ledger_valid:
  assumes "initializeRequirementLedger sha c = Inr l"
  shows "validateRequirementLedgerStructure sha c l = None"
proof -
  have c: "contract_valid c" and l: "l = \<lparr>rl_ledgerVersion = 1, rl_missionId = mc_missionId c,
                rl_contractVersion = mc_contractVersion c, rl_contractRevision = mc_revision c,
                rl_contractDigest = computeMissionContractDigest sha c, rl_revision = 0,
                rl_requirements = map initial_entry (mc_requirements c), rl_evidence = [], rl_transitions = []\<rparr>"
    using assms by (auto simp: initializeRequirementLedger_def split: if_splits)
  have dist: "distinct (map mr_id (mc_requirements c))"
    using contract_valid_wf [OF c] by (simp add: contract_wf_def)
  have entry: "le_requirementId (initial_entry r) = mr_id r" "le_status (initial_entry r) = initial_status r" for r
    by (simp_all add: initial_entry_def Let_def)
  have "initial_states c (mr_id r) = Some (initial_status r)" if "r \<in> set (mc_requirements c)" for r
    using initial_states_lookup [OF dist] find_distinct_key [OF dist that] by (simp add: find_requirement_def)
  then have "check_states c l = None"
    by (simp add: check_states_def check_simps reconstruct_states_def buildMutationSequence_def mutation_slots_def l entry)
  moreover have "check_mutation_sequence l = None"
    by (simp add: check_mutation_sequence_None buildMutationSequence_def mutation_slots_def l)
  moreover have "runStructuralChecks sha c l = None"
    unfolding runStructuralChecks_None by (simp add: l image_image entry)
  ultimately show ?thesis
    unfolding structure_None using dist by (simp add: l comp_def entry)
qed

text \<open>The ledgers the program can hold: an initial ledger and whatever successful requests
  make of it.\<close>

inductive reachable_ledger :: "(string \<Rightarrow> string) \<Rightarrow> mission_contract \<Rightarrow> requirement_ledger \<Rightarrow> bool"
  for sha c where
  Initial: "initializeRequirementLedger sha c = Inr l \<Longrightarrow> reachable_ledger sha c l"
| Step: "reachable_ledger sha c l \<Longrightarrow> exec_ledger sha c r l = Inr l' \<Longrightarrow> reachable_ledger sha c l'"

lemma reachable_valid: "reachable_ledger sha c l \<Longrightarrow> validateRequirementLedgerStructure sha c l = None"
  by (induction rule: reachable_ledger.induct) (auto dest: initial_ledger_valid exec_ledger_valid)

lemma reachable_run: "reachable_ledger sha c l \<Longrightarrow> run_all (exec_ledger sha c) l rs = Inr l' \<Longrightarrow> reachable_ledger sha c l'"
  by (rule run_all_invariant [where P = "reachable_ledger sha c"]) (auto intro: reachable_ledger.Step)

section \<open>The invariant and the log, for every reachable ledger\<close>

lemma consecutive_upto: "consecutive xs \<Longrightarrow> xs \<noteq> [] \<Longrightarrow> xs = [hd xs .. hd xs + int (length xs) - 1]"
proof (induction xs rule: consecutive.induct)
  case (1 x y zs)
  have y: "y = x + 1" and tail: "consecutive (y # zs)"
    using "1.prems"(1) unfolding consecutive.simps by blast+
  from "1.IH" [OF tail] have "y # zs = [y .. y + int (length zs)]" by simp
  moreover have "[x .. x + 1 + int (length zs)] = x # [x + 1 .. x + 1 + int (length zs)]"
    by (subst upto_rec1) simp_all
  ultimately show ?case using y by (simp add: algebra_simps)
qed simp_all

lemma sequence_is_upto:
  assumes "check_mutation_sequence l = None"
  shows "map ms_revision (buildMutationSequence l) = [1 .. rl_revision l]"
  using assms consecutive_upto [of "map ms_revision (buildMutationSequence l)"]
  by (cases "buildMutationSequence l = []") (simp_all add: check_mutation_sequence_None Let_def)

text \<open>C18.  Every ledger the program can reach passes its own
  structural validation, and its evidence and transitions together carry each of the
  revisions from 1 to the ledger's revision exactly once.\<close>

theorem reachable_ledger_valid:
  assumes "reachable_ledger sha c l"
  shows "validateRequirementLedgerStructure sha c l = None
    \<and> map ms_revision (buildMutationSequence l) = [1 .. rl_revision l]"
  using reachable_valid [OF assms] by (simp add: structure_None sequence_is_upto)

text \<open>Once a request has been accepted, neither it nor any other
  request prepared against the same revision is accepted again, however many requests
  succeed in between; each success adds one revision, and the mutation sequence only grows.\<close>

theorem ledger_requests_once:
  assumes "exec_ledger sha c r l = Inr u" and "run_all (exec_ledger sha c) u rs = Inr t"
    and "expected_revision r' = expected_revision r"
  shows "(\<exists>e. exec_ledger sha c r' t = Inl e) \<and> rl_revision t = rl_revision l + 1 + int (length rs)
    \<and> (\<exists>ss. buildMutationSequence t = buildMutationSequence l @ ss \<and> length ss = 1 + length rs)"
proof -
  have run: "run_all (exec_ledger sha c) l (r # rs) = Inr t" using assms(1,2) by simp
  from ledger_log.run_revision [OF run] have rev_t: "rl_revision t = rl_revision l + 1 + int (length rs)" by simp
  then have "expected_revision r' \<noteq> rl_revision t"
    using ledger_log.exec_expected [OF assms(1)] assms(3) by simp
  with ledger_log.stale_refused rev_t ledger_log.run_history [OF run] show ?thesis by auto
qed

end
