(* ===== verification/Ledger_Trust.thy ===== *)
theory Ledger_Trust
  imports Ledger_Invariants
begin

text \<open>
  What the ledger promises about trust: nothing enters or leaves \<open>SATISFIED\<close>, and nothing
  becomes \<open>NOT_APPLICABLE\<close>, without a genuine validation context; in every ledger the program
  can reach, each satisfied requirement is backed by passing evidence for each criterion; and
  what the authoritative validation of an arbitrary stored ledger establishes.
\<close>

section \<open>Lookups in an extended ledger\<close>

definition status_of :: "requirement_ledger \<Rightarrow> ident \<Rightarrow> requirement_status option" where
  "status_of l i = map_option le_status (find_entry l i)"

lemma find_evidence_extends:
  "find_evidence l i = Some ev \<Longrightarrow> rl_evidence l' = rl_evidence l @ evs \<Longrightarrow> find_evidence l' i = Some ev"
  by (simp add: find_evidence_def find_append)

lemma resolve_evidence_extends:
  "rl_evidence l' = rl_evidence l @ evs \<Longrightarrow> set (resolve_evidence l ids) \<subseteq> set (resolve_evidence l' ids)"
  using find_evidence_extends [of l _ _ l' evs] by (auto simp: resolve_evidence_mem subset_iff)

lemma criterion_backed_mono:
  "criterion_backed evs i k \<Longrightarrow> set evs \<subseteq> set evs' \<Longrightarrow> criterion_backed evs' i k"
  by (auto simp: criterion_backed_def)

lemma exec_ledger_appends:
  assumes "exec_ledger sha c r l = Inr l'"
  shows "\<exists>evs txs. rl_evidence l' = rl_evidence l @ evs \<and> rl_transitions l' = rl_transitions l @ txs"
  using assms
  by (cases r) (auto simp: addLedgerEvidence_Inr applyRequirementTransition_Inr insert_evidence_def insert_transition_def)

lemma find_distinct_iff:
  "distinct (map key xs) \<Longrightarrow> List.find (\<lambda>x. key x = i) xs = Some x \<longleftrightarrow> x \<in> set xs \<and> key x = i"
  using find_distinct_eq [of key xs x i] find_Some_iff_mem [of "\<lambda>x. key x = i" xs x] by auto

lemma status_of_transition:
  assumes dist: "distinct (map le_requirementId (rl_requirements l))"
    and entry: "find_entry l (tx_requirementId tx) = Some e"
  shows "status_of (insert_transition l e tx) i =
    (if i = tx_requirementId tx then Some (tx_toStatus tx) else status_of l i)"
proof -
  let ?l' = "insert_transition l e tx"
  note entries = insert_transition_entries [OF assms]
  have dist': "distinct (map le_requirementId (rl_requirements ?l'))" using dist entries(2) by simp
  have e: "e \<in> set (rl_requirements l)" "le_requirementId e = tx_requirementId tx"
    using find_entryD [OF entry] by auto
  show ?thesis
  proof (cases "i = tx_requirementId tx")
    case True
    have "find_entry ?l' i = Some (updated_entry e (tx_toStatus tx) (rl_revision l + 1))"
      unfolding find_entry_def find_distinct_iff [OF dist'] using entries(1) e(2) True by simp
    then show ?thesis using True by (simp add: status_of_def)
  next
    case False
    have "x \<in> set (rl_requirements ?l') \<and> le_requirementId x = i \<longleftrightarrow>
        x \<in> set (rl_requirements l) \<and> le_requirementId x = i" for x
      using entries(1) e(2) False by auto
    then have "find_entry ?l' i = Some x \<longleftrightarrow> find_entry l i = Some x" for x
      unfolding find_entry_def find_distinct_iff [OF dist'] find_distinct_iff [OF dist] .
    then have "find_entry ?l' i = find_entry l i"
      by (cases "find_entry l i"; cases "find_entry ?l' i") auto
    with False show ?thesis by (simp add: status_of_def)
  qed
qed

section \<open>Without a genuine validation context\<close>

fun validation_of :: "ledger_request \<Rightarrow> validation_context option" where
  "validation_of (Add_Evidence req ctx v) = v"
| "validation_of (Apply_Transition req ctx v) = v"

definition vouched :: "ledger_request \<Rightarrow> bool" where
  "vouched r \<longleftrightarrow> (case validation_of r of Some v \<Rightarrow> isTrustedValidationContext v | None \<Rightarrow> False)"

lemma unvouched_step:
  assumes "exec_ledger sha c r l = Inr l'" and "\<not> vouched r"
  shows "status_of l' i = Some Rq_SATISFIED \<longleftrightarrow> status_of l i = Some Rq_SATISFIED"
    and "status_of l' i = Some Rq_NOT_APPLICABLE \<Longrightarrow> status_of l i = Some Rq_NOT_APPLICABLE"
    and "ev \<in> set (rl_evidence l') \<Longrightarrow> ev \<notin> set (rl_evidence l) \<Longrightarrow> ev_effectiveAuthority ev = Agent_Claim"
proof -
  have "(status_of l' i = Some Rq_SATISFIED \<longleftrightarrow> status_of l i = Some Rq_SATISFIED)
    \<and> (status_of l' i = Some Rq_NOT_APPLICABLE \<longrightarrow> status_of l i = Some Rq_NOT_APPLICABLE)
    \<and> (ev \<in> set (rl_evidence l') \<longrightarrow> ev \<notin> set (rl_evidence l) \<longrightarrow> ev_effectiveAuthority ev = Agent_Claim)"
  proof (cases r)
    case (Add_Evidence req ctx v)
    then have ok: "addLedgerEvidence sha c l req ctx v = Inr l'" using assms(1) by simp
    have "\<nexists>reg. v = Some (Genuine reg)"
      using assms(2) Add_Evidence by (auto simp: vouched_def isTrustedValidationContext_def)
    then show ?thesis using ok
      by (auto simp: addLedgerEvidence_Inr insert_evidence_def status_of_def find_entry_def
          evidence_of_request_def Let_def)
  next
    case (Apply_Transition req ctx v)
    then have ok: "applyRequirementTransition sha c l req ctx v = Inr l'" using assms(1) by simp
    have "\<nexists>reg. v = Some (Genuine reg)"
      using assms(2) Apply_Transition by (auto simp: vouched_def isTrustedValidationContext_def)
    then obtain e where e: "find_entry l (tr_requirementId req) = Some e"
      "l' = insert_transition l e (transition_of_request l (le_status e) req (context_or_untrusted ctx))"
      and plain: "\<not> privileged (le_status e) (tr_toStatus req)"
      and dist: "distinct (map le_requirementId (rl_requirements l))"
      using ok by (auto simp: applyRequirementTransition_Inr structure_None)
    let ?tx = "transition_of_request l (le_status e) req (context_or_untrusted ctx)"
    have "status_of l' j = (if j = tr_requirementId req then Some (tr_toStatus req) else status_of l j)" for j
      using status_of_transition [OF dist, of ?tx e j] e by (simp add: transition_of_request_def)
    moreover have "status_of l (tr_requirementId req) = Some (le_status e)"
      using e by (simp add: status_of_def)
    moreover have "rl_evidence l' = rl_evidence l" by (simp add: e insert_transition_def)
    ultimately show ?thesis using plain by (auto simp: privileged_def)
  qed
  then show "status_of l' i = Some Rq_SATISFIED \<longleftrightarrow> status_of l i = Some Rq_SATISFIED"
    and "status_of l' i = Some Rq_NOT_APPLICABLE \<Longrightarrow> status_of l i = Some Rq_NOT_APPLICABLE"
    and "ev \<in> set (rl_evidence l') \<Longrightarrow> ev \<notin> set (rl_evidence l) \<Longrightarrow> ev_effectiveAuthority ev = Agent_Claim"
    by blast+
qed

text \<open>C17.  However many requests arrive without a genuine validation context, with
  whatever capabilities their mutation contexts claim: they satisfy nothing, they regress
  nothing, they declare nothing inapplicable, and all evidence they leave behind is an agent
  claim.\<close>

theorem untrusted_requests_keep_satisfaction:
  assumes "run_all (exec_ledger sha c) l rs = Inr l'" and "\<forall>r \<in> set rs. \<not> vouched r"
  shows "(status_of l' i = Some Rq_SATISFIED \<longleftrightarrow> status_of l i = Some Rq_SATISFIED)
    \<and> (status_of l' i = Some Rq_NOT_APPLICABLE \<longrightarrow> status_of l i = Some Rq_NOT_APPLICABLE)
    \<and> (\<forall>ev \<in> set (rl_evidence l') - set (rl_evidence l). ev_effectiveAuthority ev = Agent_Claim)"
  using assms
proof (induction rs arbitrary: l)
  case Nil
  then show ?case by simp
next
  case (Cons r rs)
  then obtain u where u: "exec_ledger sha c r l = Inr u" "run_all (exec_ledger sha c) u rs = Inr l'"
    by (auto split: sum.splits)
  have "\<not> vouched r" using Cons.prems(2) by simp
  note step = unvouched_step [OF u(1) this]
  have rest: "\<forall>r \<in> set rs. \<not> vouched r" using Cons.prems(2) by simp
  show ?case using Cons.IH [OF u(2) rest] step by blast
qed

section \<open>Satisfied requirements are backed\<close>

definition requirement_backed :: "mission_contract \<Rightarrow> requirement_ledger \<Rightarrow> ident \<Rightarrow> bool" where
  "requirement_backed c l i \<longleftrightarrow>
     (\<exists>tx \<in> set (rl_transitions l). \<exists>r. tx_requirementId tx = i \<and> tx_toStatus tx = Rq_SATISFIED
        \<and> find_requirement c i = Some r \<and> mr_acceptanceCriteria r \<noteq> []
        \<and> (\<forall>k \<in> set (mr_acceptanceCriteria r). criterion_backed (resolve_evidence l (tx_evidenceIds tx)) i k))"

lemma requirement_backed_extends:
  assumes "requirement_backed c l i" and "rl_evidence l' = rl_evidence l @ evs"
    and "rl_transitions l' = rl_transitions l @ txs"
  shows "requirement_backed c l' i"
proof -
  obtain tx r where tx: "tx \<in> set (rl_transitions l)" "tx_requirementId tx = i" "tx_toStatus tx = Rq_SATISFIED"
    "find_requirement c i = Some r" "mr_acceptanceCriteria r \<noteq> []"
    "\<forall>k \<in> set (mr_acceptanceCriteria r). criterion_backed (resolve_evidence l (tx_evidenceIds tx)) i k"
    using assms(1) by (auto simp: requirement_backed_def)
  have "criterion_backed (resolve_evidence l' (tx_evidenceIds tx)) i k" if "k \<in> set (mr_acceptanceCriteria r)" for k
    using criterion_backed_mono [OF _ resolve_evidence_extends [OF assms(2)]] tx(6) that by blast
  with tx assms(3) show ?thesis by (auto simp: requirement_backed_def)
qed

lemma satisfying_step_backed:
  assumes "check_transition_request c l req ctx e = None" and "tr_toStatus req = Rq_SATISFIED"
    and "find_entry l (tr_requirementId req) = Some e"
  shows "requirement_backed c (insert_transition l e (transition_of_request l (le_status e) req ctx)) (tr_requirementId req)"
proof -
  have "isSatisfactionAuthorized req l c ctx = None"
    using assms(1,2) by (auto simp: check_transition_request_def check_simps deny_def split: option.splits)
  from isSatisfactionAuthorized_None [OF this] obtain r where r: "find_requirement c (tr_requirementId req) = Some r"
    "mr_acceptanceCriteria r \<noteq> []" "\<forall>k \<in> set (mr_acceptanceCriteria r).
       criterion_backed (resolve_evidence l (tr_evidenceIds req)) (tr_requirementId req) k" by blast
  have "find_evidence (insert_transition l e tx) = find_evidence l" for tx
    by (rule ext) (simp add: find_evidence_def insert_transition_def)
  then have same: "resolve_evidence (insert_transition l e tx) ids = resolve_evidence l ids" for tx ids
    by (simp add: resolve_evidence_def)
  let ?tx = "transition_of_request l (le_status e) req ctx"
  have tx: "tx_requirementId ?tx = tr_requirementId req" "tx_toStatus ?tx = Rq_SATISFIED"
    "tx_evidenceIds ?tx = tr_evidenceIds req"
    using assms(2) by (simp_all add: transition_of_request_def)
  have "?tx \<in> set (rl_transitions (insert_transition l e ?tx))"
    by (simp add: insert_transition_def)
  then show ?thesis
    unfolding requirement_backed_def same using r tx by metis
qed

lemma exec_ledger_backed:
  assumes step: "exec_ledger sha c r l = Inr l'"
    and inv: "\<And>i. status_of l i = Some Rq_SATISFIED \<Longrightarrow> requirement_backed c l i"
    and sat: "status_of l' i = Some Rq_SATISFIED"
  shows "requirement_backed c l' i"
proof -
  obtain evs txs where app: "rl_evidence l' = rl_evidence l @ evs" "rl_transitions l' = rl_transitions l @ txs"
    using exec_ledger_appends [OF step] by blast
  show ?thesis
  proof (cases "status_of l i = Some Rq_SATISFIED")
    case True
    then show ?thesis using requirement_backed_extends [OF inv app] by blast
  next
    case False
    show ?thesis
    proof (cases r)
      case (Add_Evidence req ctx v)
      then have "status_of l' i = status_of l i"
        using step by (auto simp: addLedgerEvidence_Inr insert_evidence_def status_of_def find_entry_def)
      with False sat show ?thesis by simp
    next
      case (Apply_Transition req ctx v)
      then obtain e where e: "find_entry l (tr_requirementId req) = Some e"
        "check_transition_request c l req (context_or_untrusted ctx) e = None"
        "l' = insert_transition l e (transition_of_request l (le_status e) req (context_or_untrusted ctx))"
        and dist: "distinct (map le_requirementId (rl_requirements l))"
        using step by (auto simp: applyRequirementTransition_Inr structure_None)
      have "status_of l' i = (if i = tr_requirementId req then Some (tr_toStatus req) else status_of l i)"
        using status_of_transition [OF dist, of "transition_of_request l (le_status e) req (context_or_untrusted ctx)" e i] e
        by (simp add: transition_of_request_def)
      with False sat have "i = tr_requirementId req" "tr_toStatus req = Rq_SATISFIED"
        by (auto split: if_splits)
      then show ?thesis using satisfying_step_backed [OF e(2) _ e(1)] e(3) by simp
    qed
  qed
qed

lemma initial_not_satisfied:
  "initializeRequirementLedger sha c = Inr l \<Longrightarrow> status_of l i \<noteq> Some Rq_SATISFIED"
  by (auto simp: initializeRequirementLedger_def status_of_def initial_entry_def initial_status_def Let_def
      dest!: find_entryD split: if_splits)

lemma reachable_backed:
  "reachable_ledger sha c l \<Longrightarrow> status_of l i = Some Rq_SATISFIED \<Longrightarrow> requirement_backed c l i"
proof (induction arbitrary: i rule: reachable_ledger.induct)
  case (Initial l)
  then show ?case using initial_not_satisfied by blast
next
  case (Step l r l')
  show ?case by (rule exec_ledger_backed [OF Step.hyps(2) Step.IH Step.prems])
qed

text \<open>C1.  In every ledger the program can reach from the initial one, a requirement that
  is \<open>SATISFIED\<close> was satisfied by a recorded transition whose referenced evidence backs each
  of its acceptance criteria (at least one), by a passing record that is no agent claim and
  meets every evidence constraint of the criterion.\<close>

theorem reachable_satisfied_backed:
  assumes "reachable_ledger sha c l" and "status_of l i = Some Rq_SATISFIED"
  shows "requirement_backed c l i"
  by (rule reachable_backed [OF assms])

section \<open>One evaluator\<close>

text \<open>The replay of a constraint agrees with the check at mutation time.\<close>

lemma replay_agrees: "evidenceMeetsRequirementReplay ev r = evidenceMeetsRequirement ev r"
  by (auto simp: evidenceMeetsRequirementReplay_def evidenceMeetsRequirement_def)

lemma evaluate_criterion_None:
  "evaluate_criterion r evs None k = None \<longleftrightarrow> criterion_backed evs (mr_id r) k"
  by (auto simp: evaluate_criterion_def check_simps Let_def list_ex_iff list_all_iff criterion_backed_def
      replay_agrees filter_empty_conv)

lemma evaluateSatisfiedTransition_None:
  "evaluateSatisfiedTransition r evs None = None \<longleftrightarrow>
     mr_acceptanceCriteria r \<noteq> [] \<and> (\<forall>k \<in> set (mr_acceptanceCriteria r). criterion_backed evs (mr_id r) k)"
  by (simp add: evaluateSatisfiedTransition_def check_simps evaluate_criterion_None)

text \<open>Evidence accepted when a requirement is satisfied is accepted again by the
  historical replay of the recorded transition, which looks at the same evidence set.\<close>

theorem mutation_implies_replay:
  assumes "isSatisfactionAuthorized req l c ctx = None" and "find_requirement c (tr_requirementId req) = Some r"
  shows "replayCriterionSatisfaction l (transition_of_request l s req ctx) r = None"
  using isSatisfactionAuthorized_None [OF assms(1)] assms(2) find_requirementD [OF assms(2)]
  by (auto simp: replayCriterionSatisfaction_def evaluateSatisfiedTransition_None transition_of_request_def)

section \<open>What authoritative validation establishes\<close>

lemma run_all_states:
  assumes "run_all (replay_slot l) m ss = Inr m'" and "\<And>i. m i \<noteq> Some Rq_SATISFIED"
    and "m' i = Some Rq_SATISFIED"
  shows "\<exists>tx \<in> set (rl_transitions l). tx_requirementId tx = i \<and> tx_toStatus tx = Rq_SATISFIED"
proof -
  let ?P = "\<lambda>m. \<forall>i. m i = Some Rq_SATISFIED \<longrightarrow>
      (\<exists>tx \<in> set (rl_transitions l). tx_requirementId tx = i \<and> tx_toStatus tx = Rq_SATISFIED)"
  have "?P m'"
  proof (rule run_all_invariant [OF assms(1)])
    show "?P m" using assms(2) by simp
    fix s m m' assume "replay_slot l s m = Inr m'" and "?P m"
    then show "?P m'"
      by (auto simp: replay_slot_def replay_transition_def dest!: find_transitionD
          split: slot_kind.splits option.splits if_splits)
  qed
  with assms(3) show ?thesis by blast
qed

lemma initial_states_not_satisfied: "initial_states c i \<noteq> Some Rq_SATISFIED"
proof -
  have "foldl (\<lambda>m r. m(mr_id r \<mapsto> initial_status r)) m rs i \<noteq> Some Rq_SATISFIED"
    if "m i \<noteq> Some Rq_SATISFIED" for m rs
    using that by (induction rs arbitrary: m) (auto simp: initial_status_def)
  then show ?thesis by (simp add: initial_states_def)
qed

lemma satisfied_entry_has_transition:
  assumes "check_states c l = None" and "e \<in> set (rl_requirements l)" and "le_status e = Rq_SATISFIED"
  shows "\<exists>tx \<in> set (rl_transitions l). tx_requirementId tx = le_requirementId e \<and> tx_toStatus tx = Rq_SATISFIED"
proof -
  obtain m where "run_all (replay_slot l) (initial_states c) (buildMutationSequence l) = Inr m"
    "m (le_requirementId e) = Some Rq_SATISFIED"
    using assms by (auto simp: check_states_def reconstruct_states_def check_simps split: sum.splits)
  then show ?thesis using run_all_states initial_states_not_satisfied by blast
qed

lemma validateRequirementLedger_None:
  "validateRequirementLedger sha c l v = None \<longleftrightarrow>
     (\<exists>reg. v = Genuine reg \<and> vr_digest reg = computeMissionContractDigest sha c
        \<and> rl_contractDigest l = computeMissionContractDigest sha c
        \<and> runStructuralChecks sha c l = None
        \<and> (distinct (map ev_id (rl_evidence l)) \<and> (\<forall>ev \<in> set (rl_evidence l). verify_evidence c reg ev = None))
        \<and> (distinct (map tx_id (rl_transitions l)) \<and> (\<forall>tx \<in> set (rl_transitions l). verify_transition c l reg tx = None))
        \<and> check_mutation_sequence l = None \<and> check_states c l = None
        \<and> (\<forall>e \<in> set (rl_requirements l). check_freshness c l e = None))"
  by (cases v) (auto simp: validateRequirementLedger_def check_simps)

lemma verify_transition_satisfied:
  assumes "verify_transition c l reg tx = None" and "tx_toStatus tx = Rq_SATISFIED"
  shows "tx_verifiedPrincipalKind tx \<noteq> ''agent''
    \<and> verifyCapability reg (tx_verifiedPrincipalId tx) (tx_verifiedPrincipalKind tx) ''transition:satisfy''
    \<and> (\<forall>r. find_requirement c (tx_requirementId tx) = Some r \<longrightarrow>
         (\<forall>k \<in> set (mr_acceptanceCriteria r).
            criterion_backed (resolve_evidence l (tx_evidenceIds tx)) (tx_requirementId tx) k))"
proof (intro conjI allI impI)
  note parts = assms(1) [unfolded verify_transition_def Let_def check_simps]
  show "tx_verifiedPrincipalKind tx \<noteq> ''agent''" using parts assms(2) by blast
  show "verifyCapability reg (tx_verifiedPrincipalId tx) (tx_verifiedPrincipalKind tx) ''transition:satisfy''"
    using parts assms(2) by (auto simp: js_falsy_def)
  fix r assume r: "find_requirement c (tx_requirementId tx) = Some r"
  show "\<forall>k \<in> set (mr_acceptanceCriteria r).
      criterion_backed (resolve_evidence l (tx_evidenceIds tx)) (tx_requirementId tx) k"
  proof
    fix k assume "k \<in> set (mr_acceptanceCriteria r)"
    moreover have "first_error (\<lambda>_. replayCriterionSatisfaction l tx r) (mr_acceptanceCriteria r) = None"
      using parts assms(2) r by simp
    ultimately show "criterion_backed (resolve_evidence l (tx_evidenceIds tx)) (tx_requirementId tx) k"
      using find_requirementD [OF r]
      by (auto simp: check_simps replayCriterionSatisfaction_def evaluateSatisfiedTransition_None)
  qed
qed

text \<open>What the replay of the stored evidence against the registry of the context establishes: the
  principal is registered; a record that counts as more than an agent claim is not the agent's, names a source that
  was granted to this very principal for this type of evidence and for the requirements and criteria it names, and the
  capability it records is one that the principal holds and that entitles to exactly the recorded authority.\<close>

definition registered_evidence :: "trust_registry \<Rightarrow> evidence_record \<Rightarrow> bool" where
  "registered_evidence reg ev \<longleftrightarrow>
     verifyPrincipal reg (ev_verifiedPrincipalId ev) (ev_verifiedPrincipalKind ev)
     \<and> (ev_effectiveAuthority ev \<noteq> Agent_Claim \<longrightarrow>
          ev_verifiedPrincipalKind ev \<noteq> ''agent'' \<and> \<not> js_blank (ev_source ev)
          \<and> (\<exists>g. map_of (vr_grants reg) (ev_source ev) = Some g
               \<and> sg_principalId g = ev_verifiedPrincipalId ev \<and> sg_principalKind g = ev_verifiedPrincipalKind ev
               \<and> ev_type ev \<in> set (sg_allowedEvidenceTypes g)
               \<and> within (sg_allowedRequirementIds g) (ev_requirementIds ev)
               \<and> within (sg_allowedCriterionIds g) (ev_criterionIds ev))
          \<and> (\<forall>cap. ev_verifiedCapability ev = Some cap \<and> cap \<noteq> [] \<longrightarrow>
               verifyCapability reg (ev_verifiedPrincipalId ev) (ev_verifiedPrincipalKind ev) cap
               \<and> capabilityToAuthority cap \<in> {None, Some (ev_effectiveAuthority ev)}))"

lemma verify_evidence_registered:
  assumes "verify_evidence c reg ev = None"
  shows "registered_evidence reg ev"
proof -
  note parts = assms [unfolded verify_evidence_def check_simps]
  have source: "ev_effectiveAuthority ev \<noteq> Agent_Claim \<longrightarrow>
      \<not> js_blank (ev_source ev) \<and> verifyEvidenceSource reg (source_request_of ev)"
    using parts by (auto simp: isSourceRequiredForEvidence_def)
  have cap: "verify_evidence_capability reg ev = None" using parts by blast
  show ?thesis
    using parts source cap
    by (auto simp: registered_evidence_def verifyEvidenceSource_def source_request_of_def verify_evidence_capability_def
        js_falsy_def Let_def check_simps split: option.splits if_splits)
qed

definition satisfied_by_registered :: "mission_contract \<Rightarrow> requirement_ledger \<Rightarrow> trust_registry \<Rightarrow> ident \<Rightarrow> bool" where
  "satisfied_by_registered c l reg i \<longleftrightarrow>
     (\<exists>tx \<in> set (rl_transitions l). tx_requirementId tx = i \<and> tx_toStatus tx = Rq_SATISFIED
        \<and> tx_verifiedPrincipalKind tx \<noteq> ''agent''
        \<and> verifyCapability reg (tx_verifiedPrincipalId tx) (tx_verifiedPrincipalKind tx) ''transition:satisfy''
        \<and> (\<forall>r. find_requirement c i = Some r \<longrightarrow>
             (\<forall>k \<in> set (mr_acceptanceCriteria r).
                criterion_backed (filter (registered_evidence reg) (resolve_evidence l (tx_evidenceIds tx))) i k)))"

lemma resolved_registered:
  assumes "\<forall>ev \<in> set (rl_evidence l). verify_evidence c reg ev = None"
  shows "filter (registered_evidence reg) (resolve_evidence l ids) = resolve_evidence l ids"
  using assms by (auto simp: filter_id_conv resolve_evidence_mem find_evidence_def dest!: find_Some_iff_mem
      intro: verify_evidence_registered)

lemma validation_satisfied:
  assumes "validateRequirementLedger sha c l (Genuine reg) = None"
    and "e \<in> set (rl_requirements l)" and "le_status e = Rq_SATISFIED"
  shows "satisfied_by_registered c l reg (le_requirementId e)"
proof -
  have reg: "check_states c l = None" "\<forall>tx \<in> set (rl_transitions l). verify_transition c l reg tx = None"
    "\<forall>ev \<in> set (rl_evidence l). verify_evidence c reg ev = None"
    using assms(1) by (auto simp: validateRequirementLedger_None)
  from satisfied_entry_has_transition [OF reg(1) assms(2,3)] obtain tx where
    tx: "tx \<in> set (rl_transitions l)" "tx_requirementId tx = le_requirementId e" "tx_toStatus tx = Rq_SATISFIED"
    by blast
  then have "verify_transition c l reg tx = None" using reg(2) by blast
  from verify_transition_satisfied [OF this tx(3)] tx show ?thesis
    unfolding satisfied_by_registered_def resolved_registered [OF reg(3)] by (intro bexI [of _ tx]) simp_all
qed

text \<open>C2.  If the authoritative validation accepts an arbitrary stored ledger, the
  context was genuine and minted for this very contract, every stored evidence record passes the replay against the
  registry of that context, and every requirement whose entry
  says \<open>SATISFIED\<close> has a recorded transition to \<open>SATISFIED\<close> by a principal that is no agent and
  was registered with the capability to satisfy, with passing registered non-agent evidence for each
  acceptance criterion.\<close>

theorem authoritative_validation_sound:
  assumes "validateRequirementLedger sha c l v = None"
  shows "\<exists>reg. v = Genuine reg \<and> vr_digest reg = computeMissionContractDigest sha c
    \<and> rl_contractDigest l = computeMissionContractDigest sha c
    \<and> (\<forall>ev \<in> set (rl_evidence l). registered_evidence reg ev)
    \<and> (\<forall>e \<in> set (rl_requirements l). le_status e = Rq_SATISFIED \<longrightarrow>
         satisfied_by_registered c l reg (le_requirementId e))"
proof -
  obtain reg where reg: "v = Genuine reg" "vr_digest reg = computeMissionContractDigest sha c"
    "rl_contractDigest l = computeMissionContractDigest sha c" "\<forall>ev \<in> set (rl_evidence l). verify_evidence c reg ev = None"
    using assms by (auto simp: validateRequirementLedger_None)
  then show ?thesis
    using assms validation_satisfied [of sha c l reg] verify_evidence_registered [of c reg] by blast
qed

end
