(* ===== verification/Ledger_Summary.thy ===== *)
theory Ledger_Summary
  imports Ledger_Trust
begin

text \<open>
  \<open>long-horizon/ledger-summary.ts\<close> and \<open>long-horizon/ledger-reducer.ts\<close>: the status snapshot
  of a mission with its completion verdict, and the replay of the transition history that
  cross-checks the stored statuses.
\<close>

section \<open>Summary\<close>

datatype completion_blocker =
    Context_Required | Context_Mismatch | Ledger_Validation_Failed operation_error
  | Not_Satisfied ident requirement_status | Lacks_Authoritative_Evidence ident
  | Criterion_Lacks_Evidence ident ident | Criterion_Uses_Stale_Evidence ident ident

definition authoritative_for :: "ident \<Rightarrow> evidence_record \<Rightarrow> bool" where
  "authoritative_for i ev \<longleftrightarrow>
     i \<in> set (ev_requirementIds ev) \<and> ev_effectiveAuthority ev \<noteq> Agent_Claim \<and> ev_status ev = Ev_Pass"

definition entry_blockers :: "ledger_entry \<Rightarrow> completion_blocker list" where
  "entry_blockers e =
     (if le_initialNotApplicable e \<or> le_status e = Rq_SATISFIED then []
      else [Not_Satisfied (le_requirementId e) (le_status e)])"

definition stale_blockers ::
  "requirement_ledger \<Rightarrow> mission_requirement \<Rightarrow> ledger_entry \<Rightarrow> completion_blocker list" where
  "stale_blockers l r e =
     (case (le_latestRegressionRevision e, last_satisfying l (mr_id r)) of
        (Some n, Some tx) \<Rightarrow>
          map (\<lambda>k. Criterion_Uses_Stale_Evidence (mr_id r) (ac_id k))
            (filter (\<lambda>k. \<not> has_fresh_evidence l (tx_evidenceIds tx) n k) (mr_acceptanceCriteria r))
      | _ \<Rightarrow> [])"

definition requirement_blockers :: "requirement_ledger \<Rightarrow> mission_requirement \<Rightarrow> completion_blocker list" where
  "requirement_blockers l r =
     (case find_entry l (mr_id r) of
        None \<Rightarrow> []
      | Some e \<Rightarrow>
          if le_initialNotApplicable e then []
          else if \<not> list_ex (authoritative_for (mr_id r)) (rl_evidence l)
          then [Lacks_Authoritative_Evidence (mr_id r)]
          else
            (case List.find (\<lambda>k. \<not> list_ex (\<lambda>ev. authoritative_for (mr_id r) ev \<and> ac_id k \<in> set (ev_criterionIds ev))
                       (rl_evidence l)) (mr_acceptanceCriteria r) of
               Some k \<Rightarrow> [Criterion_Lacks_Evidence (mr_id r) (ac_id k)]
             | None \<Rightarrow> stale_blockers l r e))"

fun first_blockers :: "('a \<Rightarrow> 'b list) \<Rightarrow> 'a list \<Rightarrow> 'b list" where
  "first_blockers f [] = []"
| "first_blockers f (x # xs) = (if f x = [] then first_blockers f xs else f x)"

text \<open>The verdict, and the blockers it pushes.\<close>

definition computeCompletionCandidate ::
  "mission_contract \<Rightarrow> requirement_ledger \<Rightarrow> bool \<Rightarrow> bool \<times> completion_blocker list" where
  "computeCompletionCandidate c l ledgerValid =
     (if \<not> ledgerValid then (False, [])
      else
        (let bs = first_blockers entry_blockers (rl_requirements l) in
         if bs \<noteq> [] then (False, bs)
         else let bs = first_blockers (requirement_blockers l) (mc_requirements c) in (bs = [], bs)))"

definition findRequirementsLackingEvidence :: "mission_contract \<Rightarrow> requirement_ledger \<Rightarrow> ident list" where
  "findRequirementsLackingEvidence c l =
     map mr_id (filter (\<lambda>r. case find_entry l (mr_id r) of
         None \<Rightarrow> False
       | Some e \<Rightarrow> \<not> le_initialNotApplicable e \<and> le_status e = Rq_SATISFIED
                 \<and> \<not> list_ex (authoritative_for (mr_id r)) (rl_evidence l)) (mc_requirements c))"

record workstream_summary =
  wm_title :: string
  wm_total :: nat
  wm_satisfied :: nat

definition applicable_requirements :: "mission_contract \<Rightarrow> requirement_ledger \<Rightarrow> mission_requirement list" where
  "applicable_requirements c l =
     filter (\<lambda>r. case find_entry l (mr_id r) of Some e \<Rightarrow> \<not> le_initialNotApplicable e | None \<Rightarrow> True)
       (mc_requirements c)"

definition count_in_workstream ::
  "requirement_ledger \<Rightarrow> (ident \<times> workstream_summary) list \<Rightarrow> mission_requirement \<Rightarrow> (ident \<times> workstream_summary) list" where
  "count_in_workstream l m r =
     (case map_of m (mr_workstreamId r) of
        None \<Rightarrow> m
      | Some w \<Rightarrow> assoc_set (mr_workstreamId r)
          (w\<lparr>wm_total := wm_total w + 1,
             wm_satisfied := wm_satisfied w + (if status_of l (mr_id r) = Some Rq_SATISFIED then 1 else 0)\<rparr>) m)"

definition workstream_summaries ::
  "mission_contract \<Rightarrow> requirement_ledger \<Rightarrow> (ident \<times> workstream_summary) list" where
  "workstream_summaries c l =
     foldl (count_in_workstream l)
       (foldl (\<lambda>m w. assoc_set (ws_id w) \<lparr>wm_title = ws_title w, wm_total = 0, wm_satisfied = 0\<rparr> m) []
          (mc_workstreams c))
       (applicable_requirements c l)"

record ledger_summary =
  sm_missionId :: ident
  sm_contractRevision :: int
  sm_contractDigest :: string
  sm_ledgerRevision :: int
  sm_totalRequirements :: nat
  sm_applicableRequirements :: nat
  sm_stateCounts :: "(requirement_status \<times> nat) list"
  sm_explicitCount :: nat
  sm_inferredCount :: nat
  sm_workstreamSummaries :: "(ident \<times> workstream_summary) list"
  sm_blockedRequirements :: "ident list"
  sm_failedRequirements :: "ident list"
  sm_lackingEvidence :: "ident list"
  sm_completionCandidate :: bool
  sm_completionBlockers :: "completion_blocker list"

definition deriveRequirementLedgerSummary ::
  "(string \<Rightarrow> string) \<Rightarrow> mission_contract \<Rightarrow> requirement_ledger \<Rightarrow> validation_context \<Rightarrow> ledger_summary" where
  "deriveRequirementLedgerSummary sha c l v =
     (if \<not> isTrustedValidationContext v then
        \<lparr>sm_missionId = mc_missionId c, sm_contractRevision = mc_revision c,
         sm_contractDigest = rl_contractDigest l, sm_ledgerRevision = rl_revision l,
         sm_totalRequirements = length (mc_requirements c), sm_applicableRequirements = 0, sm_stateCounts = [],
         sm_explicitCount = 0, sm_inferredCount = 0, sm_workstreamSummaries = [], sm_blockedRequirements = [],
         sm_failedRequirements = [], sm_lackingEvidence = [], sm_completionCandidate = False,
         sm_completionBlockers = [Context_Required]\<rparr>
      else
        (let mismatch = (case getBoundContractDigest v of
                           Some d \<Rightarrow> if d \<noteq> computeMissionContractDigest sha c then [Context_Mismatch] else []
                         | None \<Rightarrow> []);
             valid = validateRequirementLedger sha c l v;
             invalid = (case valid of Some e \<Rightarrow> [Ledger_Validation_Failed e] | None \<Rightarrow> []);
             (candidate, blockers) = computeCompletionCandidate c l (valid = None);
             applicable = applicable_requirements c l in
         \<lparr>sm_missionId = mc_missionId c, sm_contractRevision = mc_revision c,
         sm_contractDigest = rl_contractDigest l, sm_ledgerRevision = rl_revision l,
          sm_totalRequirements = length (mc_requirements c),
          sm_applicableRequirements = length (applicable_entries l), sm_stateCounts = state_counts l,
          sm_explicitCount = length (filter (\<lambda>r. mr_kind r = Explicit) applicable),
          sm_inferredCount = length (filter (\<lambda>r. mr_kind r \<noteq> Explicit) applicable),
          sm_workstreamSummaries = workstream_summaries c l,
          sm_blockedRequirements = entries_in Rq_BLOCKED l, sm_failedRequirements = entries_in Rq_FAILED l,
          sm_lackingEvidence = findRequirementsLackingEvidence c l,
          sm_completionCandidate = candidate, sm_completionBlockers = mismatch @ invalid @ blockers\<rparr>))"

section \<open>Reducer\<close>

definition derive_step :: "status_map \<Rightarrow> requirement_transition \<Rightarrow> status_map" where
  "derive_step m tx = (if m (tx_requirementId tx) = Some (tx_fromStatus tx)
     then m(tx_requirementId tx \<mapsto> tx_toStatus tx) else m)"

definition deriveCurrentStates :: "requirement_ledger \<Rightarrow> status_map" where
  "deriveCurrentStates l =
     foldl derive_step
       (foldl (\<lambda>m e. m(le_requirementId e \<mapsto> le_status e)) Map.empty (rl_requirements l))
       (rl_transitions l)"

datatype consistency_error =
    Unknown_Transition_Requirement ident | Unexpected_From_Status ident | Snapshot_Mismatch ident

definition consistency_step ::
  "consistency_error list \<times> status_map \<Rightarrow> requirement_transition \<Rightarrow> consistency_error list \<times> status_map" where
  "consistency_step st tx =
     (case snd st (tx_requirementId tx) of
        None \<Rightarrow> (fst st @ [Unknown_Transition_Requirement (tx_id tx)], snd st)
      | Some s \<Rightarrow> if tx_fromStatus tx \<noteq> s then (fst st @ [Unexpected_From_Status (tx_id tx)], snd st)
                  else (fst st, (snd st)(tx_requirementId tx \<mapsto> tx_toStatus tx)))"

definition consistency_start :: "requirement_ledger \<Rightarrow> consistency_error list \<times> status_map" where
  "consistency_start l =
     ([], foldl (\<lambda>m e. m(le_requirementId e \<mapsto>
            (if le_initialNotApplicable e then Rq_NOT_APPLICABLE else Rq_UNASSESSED))) Map.empty (rl_requirements l))"

definition verifyLedgerConsistency :: "requirement_ledger \<Rightarrow> consistency_error list" where
  "verifyLedgerConsistency l =
     (let st = foldl consistency_step (consistency_start l) (rl_transitions l) in
      fst st @ map (\<lambda>e. Snapshot_Mismatch (le_requirementId e))
        (filter (\<lambda>e. case snd st (le_requirementId e) of None \<Rightarrow> False | Some s \<Rightarrow> s \<noteq> le_status e)
           (rl_requirements l)))"

definition getRequirementStatus :: "requirement_ledger \<Rightarrow> ident \<Rightarrow> requirement_status option" where
  "getRequirementStatus l i = map_option le_status (find_entry l i)"

definition isTerminalState :: "requirement_status \<Rightarrow> bool" where
  "isTerminalState s \<longleftrightarrow> s = Rq_SATISFIED \<or> s = Rq_NOT_APPLICABLE"

section \<open>The verdict is sound\<close>

lemma first_blockers_Nil: "first_blockers f xs = [] \<longleftrightarrow> (\<forall>x \<in> set xs. f x = [])"
  by (induction xs) auto

lemma completion_candidate_iff:
  "sm_completionCandidate (deriveRequirementLedgerSummary sha c l v) \<longleftrightarrow>
     validateRequirementLedger sha c l v = None
     \<and> (\<forall>e \<in> set (rl_requirements l). entry_blockers e = [])
     \<and> (\<forall>r \<in> set (mc_requirements c). requirement_blockers l r = [])"
  by (cases v)
    (auto simp: deriveRequirementLedgerSummary_def isTrustedValidationContext_def computeCompletionCandidate_def
      validateRequirementLedger_def Let_def first_blockers_Nil split: prod.splits)

lemma completion_entry:
  assumes "sm_completionCandidate (deriveRequirementLedgerSummary sha c l v)" and "r \<in> set (mc_requirements c)"
  shows "\<exists>e reg. find_entry l (mr_id r) = Some e \<and> v = Genuine reg
    \<and> (le_initialNotApplicable e \<or> le_status e = Rq_SATISFIED \<and> satisfied_by_registered c l reg (mr_id r))"
proof -
  obtain reg where reg: "v = Genuine reg" "validateRequirementLedger sha c l (Genuine reg) = None"
    using assms(1) by (cases v) (auto simp: completion_candidate_iff validateRequirementLedger_def)
  then have "le_requirementId ` set (rl_requirements l) = mr_id ` set (mc_requirements c)"
    by (simp add: validateRequirementLedger_None runStructuralChecks_None)
  then have "mr_id r \<in> le_requirementId ` set (rl_requirements l)" using assms(2) by simp
  then obtain e where e: "find_entry l (mr_id r) = Some e"
    by (cases "find_entry l (mr_id r)") (auto simp: find_entry_def find_eq_None)
  then have mem: "e \<in> set (rl_requirements l)" "le_requirementId e = mr_id r"
    using find_entryD by auto
  then have "le_initialNotApplicable e \<or> le_status e = Rq_SATISFIED"
    using assms(1) by (auto simp: completion_candidate_iff entry_blockers_def split: if_splits)
  then show ?thesis
    using e reg(1) validation_satisfied [OF reg(2) mem(1)] mem(2) by auto
qed

text \<open>The flag \<open>initialNotApplicable\<close> of a reachable ledger is the contract's.\<close>

lemma reachable_flags:
  assumes "reachable_ledger sha c l" and "e \<in> set (rl_requirements l)"
  shows "\<exists>r \<in> set (mc_requirements c). mr_id r = le_requirementId e
    \<and> le_initialNotApplicable e = (mr_initialApplicability r = Some Not_Applicable)"
  using assms
proof (induction arbitrary: e rule: reachable_ledger.induct)
  case (Initial l)
  then obtain x where "x \<in> set (mc_requirements c)" "e = initial_entry x"
    by (auto simp: initializeRequirementLedger_def split: if_splits)
  then show ?case by (intro bexI [of _ x]) (simp_all add: initial_entry_def Let_def)
next
  case (Step l r l')
  show ?case
  proof (cases r)
    case (Add_Evidence req ctx v)
    then have "rl_requirements l' = rl_requirements l"
      using Step.hyps(2) by (auto simp: addLedgerEvidence_Inr insert_evidence_def)
    with Step show ?thesis by simp
  next
    case (Apply_Transition req ctx v)
    let ?tx = "\<lambda>x. transition_of_request l (le_status x) req (context_or_untrusted ctx)"
    obtain x where x: "find_entry l (tr_requirementId req) = Some x" "l' = insert_transition l x (?tx x)"
      and dist: "distinct (map le_requirementId (rl_requirements l))"
      using Step.hyps(2) Apply_Transition by (auto simp: applyRequirementTransition_Inr structure_None)
    have "find_entry l (tx_requirementId (?tx x)) = Some x" using x(1) by (simp add: transition_of_request_def)
    from insert_transition_entries(1) [OF dist this] x(2) Step.prems
    have "e = updated_entry x (tx_toStatus (?tx x)) (rl_revision l + 1) \<or> e \<in> set (rl_requirements l)" by auto
    then show ?thesis using Step.IH [of x] Step.IH [of e] find_entryD [OF x(1)] by auto
  qed
qed

lemma reachable_contract_valid: "reachable_ledger sha c l \<Longrightarrow> contract_valid c"
  by (induction rule: reachable_ledger.induct) (auto simp: initializeRequirementLedger_def split: if_splits)

lemma reachable_distinct: "reachable_ledger sha c l \<Longrightarrow> distinct (map mr_id (mc_requirements c))"
  using contract_valid_wf [OF reachable_contract_valid] by (simp add: contract_wf_def)

text \<open>C24.  When the summary of a ledger the program can reach calls the mission a
  completion candidate, each requirement of the contract was declared not applicable by the
  contract itself, or is \<open>SATISFIED\<close> in this very ledger (not merely once in its history), is backed by evidence for
  each of its acceptance criteria and was satisfied by a registered principal that is no agent, on registered evidence.\<close>

theorem completion_means_backed:
  assumes "reachable_ledger sha c l" and "sm_completionCandidate (deriveRequirementLedgerSummary sha c l v)"
  shows "\<forall>r \<in> set (mc_requirements c). mr_initialApplicability r = Some Not_Applicable
    \<or> status_of l (mr_id r) = Some Rq_SATISFIED \<and> requirement_backed c l (mr_id r) \<and> (\<exists>reg. v = Genuine reg \<and> satisfied_by_registered c l reg (mr_id r))"
proof
  fix r assume r: "r \<in> set (mc_requirements c)"
  from completion_entry [OF assms(2) r] obtain e reg where e: "find_entry l (mr_id r) = Some e" "v = Genuine reg"
    "le_initialNotApplicable e \<or> le_status e = Rq_SATISFIED \<and> satisfied_by_registered c l reg (mr_id r)" by blast
  have distinct: "distinct (map mr_id (mc_requirements c))"
    by (rule reachable_distinct [OF assms(1)])
  obtain r' where "r' \<in> set (mc_requirements c)" "mr_id r' = mr_id r"
    "le_initialNotApplicable e = (mr_initialApplicability r' = Some Not_Applicable)"
    using reachable_flags [OF assms(1), of e] find_entryD [OF e(1)] by auto
  moreover from this have "r' = r" using distinct r by (auto simp: distinct_map inj_on_def)
  ultimately show "mr_initialApplicability r = Some Not_Applicable
    \<or> status_of l (mr_id r) = Some Rq_SATISFIED \<and> requirement_backed c l (mr_id r) \<and> (\<exists>reg. v = Genuine reg \<and> satisfied_by_registered c l reg (mr_id r))"
    using e reachable_backed [OF assms(1), of "mr_id r"] by (auto simp: status_of_def)
qed

section \<open>The reducer agrees with the ledger\<close>

text \<open>How one request changes transitions, statuses and flags.\<close>

lemma exec_ledger_cases:
  assumes "exec_ledger sha c r l = Inr l'"
  obtains (evidence) "rl_transitions l' = rl_transitions l" and "rl_requirements l' = rl_requirements l"
  | (transition) tx where "rl_transitions l' = rl_transitions l @ [tx]"
      and "status_of l (tx_requirementId tx) = Some (tx_fromStatus tx)"
      and "\<And>i. status_of l' i = (if i = tx_requirementId tx then Some (tx_toStatus tx) else status_of l i)"
      and "map (\<lambda>e. (le_requirementId e, le_initialNotApplicable e)) (rl_requirements l') =
           map (\<lambda>e. (le_requirementId e, le_initialNotApplicable e)) (rl_requirements l)"
proof (cases r)
  case (Add_Evidence req ctx v)
  then show ?thesis
    using assms by (intro evidence) (auto simp: addLedgerEvidence_Inr insert_evidence_def)
next
  case (Apply_Transition req ctx v)
  then obtain e where e: "find_entry l (tr_requirementId req) = Some e"
    "l' = insert_transition l e (transition_of_request l (le_status e) req (context_or_untrusted ctx))"
    and dist: "distinct (map le_requirementId (rl_requirements l))"
    using assms by (auto simp: applyRequirementTransition_Inr structure_None)
  let ?tx = "transition_of_request l (le_status e) req (context_or_untrusted ctx)"
  have tx: "tx_requirementId ?tx = tr_requirementId req" "tx_fromStatus ?tx = le_status e"
    by (simp_all add: transition_of_request_def)
  have mem: "e \<in> set (rl_requirements l)" "le_requirementId e = tr_requirementId req"
    using find_entryD [OF e(1)] by auto
  have "map (\<lambda>e. (le_requirementId e, le_initialNotApplicable e))
      ((rl_requirements l)[entry_index l (tr_requirementId req) := updated_entry e (tx_toStatus ?tx) (rl_revision l + 1)]) =
      map (\<lambda>e. (le_requirementId e, le_initialNotApplicable e)) (rl_requirements l)"
    using list_update_key(2) [OF dist mem(1), where y = "updated_entry e (tx_toStatus ?tx) (rl_revision l + 1)"
        and g = "\<lambda>e. (le_requirementId e, le_initialNotApplicable e)"] mem(2)
    by (simp add: entry_index_def)
  then have flags: "map (\<lambda>e. (le_requirementId e, le_initialNotApplicable e)) (rl_requirements l') =
      map (\<lambda>e. (le_requirementId e, le_initialNotApplicable e)) (rl_requirements l)"
    by (simp add: e(2) insert_transition_def tx)
  have stats: "status_of l' i = (if i = tx_requirementId ?tx then Some (tx_toStatus ?tx) else status_of l i)" for i
    unfolding e(2) by (rule status_of_transition [OF dist]) (simp add: tx e(1))
  have "rl_transitions l' = rl_transitions l @ [?tx]" by (simp add: e(2) insert_transition_def)
  moreover have "status_of l (tx_requirementId ?tx) = Some (tx_fromStatus ?tx)" by (simp add: tx status_of_def e(1))
  ultimately show ?thesis using stats flags by (rule transition)
qed

lemma derive_stays_or_reaches:
  "reachable_ledger sha c l \<Longrightarrow>
   foldl derive_step m (rl_transitions l) i = m i \<or> foldl derive_step m (rl_transitions l) i = status_of l i"
proof (induction arbitrary: i rule: reachable_ledger.induct)
  case (Initial l)
  then show ?case by (auto simp: initializeRequirementLedger_def split: if_splits)
next
  case (Step l r l')
  from Step.hyps(2) show ?case
  proof (cases rule: exec_ledger_cases)
    case evidence
    then show ?thesis using Step.IH [of i] by (simp add: status_of_def find_entry_def)
  next
    case (transition tx)
    then show ?thesis using Step.IH [of i] by (auto simp: derive_step_def)
  qed
qed

lemma status_map_of_entries:
  assumes "distinct (map le_requirementId (rl_requirements l))"
  shows "foldl (\<lambda>m e. m(le_requirementId e \<mapsto> le_status e)) Map.empty (rl_requirements l) i = status_of l i"
  using foldl_upd_distinct [OF assms, of le_status Map.empty i]
  by (simp add: status_of_def find_entry_def split: option.splits)

lemma consistency_start_cong:
  assumes "map (\<lambda>e. (le_requirementId e, le_initialNotApplicable e)) (rl_requirements l') =
           map (\<lambda>e. (le_requirementId e, le_initialNotApplicable e)) (rl_requirements l)"
  shows "consistency_start l' = consistency_start l"
proof -
  have eq: "foldl (\<lambda>m e. m(le_requirementId e \<mapsto>
            (if le_initialNotApplicable e then Rq_NOT_APPLICABLE else Rq_UNASSESSED))) m0 xs =
        foldl (\<lambda>m p. m(fst p \<mapsto> (if snd p then Rq_NOT_APPLICABLE else Rq_UNASSESSED))) m0
          (map (\<lambda>e. (le_requirementId e, le_initialNotApplicable e)) xs)" for m0 :: status_map and xs
    by (simp add: foldl_map)
  show ?thesis unfolding consistency_start_def by (simp only: eq assms)
qed

lemma consistency_of_reachable:
  "reachable_ledger sha c l \<Longrightarrow>
   foldl consistency_step (consistency_start l) (rl_transitions l) = ([], status_of l)"
proof (induction rule: reachable_ledger.induct)
  case (Initial l)
  have l: "rl_requirements l = map initial_entry (mc_requirements c)" "rl_transitions l = []"
    using Initial by (auto simp: initializeRequirementLedger_def split: if_splits)
  have dist: "distinct (map le_requirementId (rl_requirements l))"
    using initial_ledger_valid [OF Initial] by (simp add: structure_None)
  have "snd (consistency_start l) i = status_of l i" for i
  proof (cases "find_entry l i")
    case None
    then show ?thesis
      unfolding consistency_start_def snd_conv foldl_upd_distinct [OF dist] by (simp add: status_of_def find_entry_def)
  next
    case (Some x)
    then obtain r where "x = initial_entry r" using find_entryD l(1) by fastforce
    with Some show ?thesis
      unfolding consistency_start_def snd_conv foldl_upd_distinct [OF dist]
      by (simp add: status_of_def find_entry_def initial_entry_def initial_status_def Let_def)
  qed
  then show ?case using l(2) by (simp add: consistency_start_def fun_eq_iff prod_eq_iff)
next
  case (Step l r l')
  from Step.hyps(2) show ?case
  proof (cases rule: exec_ledger_cases)
    case evidence
    then have "consistency_start l' = consistency_start l" "status_of l' = status_of l"
      by (simp_all add: consistency_start_def status_of_def find_entry_def fun_eq_iff)
    then show ?thesis using Step.IH evidence by simp
  next
    case (transition tx)
    then show ?thesis
      using Step.IH consistency_start_cong [OF transition(4)] by (auto simp: consistency_step_def fun_eq_iff)
  qed
qed

text \<open>On every ledger the program can reach, replaying the transition history yields
  exactly the stored statuses, and the consistency check reports nothing.\<close>

theorem reducer_agrees:
  assumes "reachable_ledger sha c l"
  shows "deriveCurrentStates l = getRequirementStatus l \<and> verifyLedgerConsistency l = []"
proof
  have dist: "distinct (map le_requirementId (rl_requirements l))"
    using reachable_valid [OF assms] by (simp add: structure_None)
  show "deriveCurrentStates l = getRequirementStatus l"
  proof
    fix i
    have "deriveCurrentStates l i = status_of l i"
      unfolding deriveCurrentStates_def
      using derive_stays_or_reaches [OF assms, of "foldl (\<lambda>m e. m(le_requirementId e \<mapsto> le_status e)) Map.empty
          (rl_requirements l)" i] status_map_of_entries [OF dist, of i] by presburger
    then show "deriveCurrentStates l i = getRequirementStatus l i"
      by (simp add: getRequirementStatus_def status_of_def)
  qed
  have "status_of l (le_requirementId e) = Some (le_status e)" if "e \<in> set (rl_requirements l)" for e
    using find_distinct_key [OF dist that] by (simp add: status_of_def find_entry_def)
  then show "verifyLedgerConsistency l = []"
    by (simp add: verifyLedgerConsistency_def consistency_of_reachable [OF assms] Let_def filter_empty_conv)
qed

end
