(* ===== verification/Ledger_Scenario.thy ===== *)
theory Ledger_Scenario
  imports Ledger_Summary
begin

text \<open>
  A mission run on the concrete contract of \<open>Contract_Schema\<close>: a validation context, an
  initial ledger, one piece of evidence, two transitions.  The witnesses of the ledger's
  properties are evaluated on it.  SHA-256 is instantiated with a constant function.
\<close>

definition demo_sha :: "string \<Rightarrow> string" where
  "demo_sha s = ''digest''"

lemma demo_digest [simp, code_unfold]: "computeMissionContractDigest demo_sha c = ''digest''"
  by (simp add: computeMissionContractDigest_def demo_sha_def)

definition demo_principals :: "principal list" where
  "demo_principals =
     [\<lparr>pc_id = ''ci'', pc_kind = ''automated-review'',
       pc_capabilities = [''evidence:test-result'', ''transition:satisfy'']\<rparr>]"

definition demo_grants :: "source_grant list" where
  "demo_grants =
     [\<lparr>sg_sourceId = ''src'', sg_principalId = ''ci'', sg_principalKind = ''automated-review'',
       sg_capability = ''evidence:test-result'', sg_allowedEvidenceTypes = [''test-result''],
       sg_allowedCollectorClasses = None, sg_allowedRequirementIds = Some [''r''],
       sg_allowedCriterionIds = Some [''k'']\<rparr>]"

definition demo_registry :: trust_registry where
  "demo_registry =
     \<lparr>vr_principals = map principal_entry demo_principals,
      vr_grants = map (\<lambda>g. (sg_sourceId g, g)) demo_grants, vr_digest = ''digest''\<rparr>"

lemma demo_context:
  "internalCreateTrustedValidationContext demo_sha demo_contract demo_principals demo_grants
     = Inr (Genuine demo_registry)"
proof -
  have "register_principals [] demo_principals = Inr (map principal_entry demo_principals)"
    by code_simp
  moreover have "register_grants demo_contract (map principal_entry demo_principals) 0 [] demo_grants
      = Inr (map (\<lambda>g. (sg_sourceId g, g)) demo_grants)"
    by code_simp
  ultimately show ?thesis
    by (simp add: internalCreateTrustedValidationContext_def demo_contract_valid demo_registry_def)
qed

definition demo_actor :: mutation_context where
  "demo_actor = \<lparr>mu_principalId = ''ci'', mu_principalKind = ''automated-review'',
     mu_capabilities = [''evidence:test-result'', ''transition:satisfy'']\<rparr>"

definition demo_ledger0 :: requirement_ledger where
  "demo_ledger0 = \<lparr>rl_ledgerVersion = 1, rl_missionId = ''m'', rl_contractVersion = 1, rl_contractRevision = 1,
     rl_contractDigest = ''digest'', rl_revision = 0,
     rl_requirements = map initial_entry [demo_requirement, demo_optional_requirement],
     rl_evidence = [], rl_transitions = []\<rparr>"

lemma demo_initial: "initializeRequirementLedger demo_sha demo_contract = Inr demo_ledger0"
  by (simp add: initializeRequirementLedger_def demo_contract_valid demo_ledger0_def) (simp add: demo_contract_def)

definition demo_evidence_request :: evidence_request where
  "demo_evidence_request = \<lparr>eq_expectedRevision = 0, eq_id = ''e1'', eq_type = ''test-result'',
     eq_requirementIds = [''r''], eq_criterionIds = [''k''], eq_status = Ev_Pass, eq_source = ''src'',
     eq_summary = ''green'', eq_digest = None, eq_claimText = None, eq_reportedCollectorType = Some ''ci'',
     eq_reportedAuthority = None, eq_metadata = None\<rparr>"

definition demo_transition_request :: "ident \<Rightarrow> int \<Rightarrow> requirement_status \<Rightarrow> transition_request" where
  "demo_transition_request i n s = \<lparr>tr_transitionId = i, tr_expectedRevision = n, tr_requirementId = ''r'',
     tr_toStatus = s, tr_reportedActorType = None, tr_reportedActorId = None, tr_reason = ''done'',
     tr_evidenceIds = (if s = Rq_SATISFIED then [''e1''] else []), tr_blockerReference = None, tr_metadata = None\<rparr>"

definition demo_ledger1 :: requirement_ledger where
  "demo_ledger1 = insert_evidence demo_ledger0 (evidence_of_request demo_ledger0 demo_evidence_request demo_actor)"

definition demo_step :: "requirement_ledger \<Rightarrow> transition_request \<Rightarrow> requirement_ledger" where
  "demo_step l req = (case find_entry l (tr_requirementId req) of
      Some e \<Rightarrow> insert_transition l e (transition_of_request l (le_status e) req demo_actor) | None \<Rightarrow> l)"

definition demo_ledger2 :: requirement_ledger where
  "demo_ledger2 = demo_step demo_ledger1 (demo_transition_request ''t1'' 1 Rq_IMPLEMENTED_UNVERIFIED)"

definition demo_ledger3 :: requirement_ledger where
  "demo_ledger3 = demo_step demo_ledger2 (demo_transition_request ''t2'' 2 Rq_SATISFIED)"

definition demo_requests :: "ledger_request list" where
  "demo_requests =
     [Add_Evidence demo_evidence_request (Some demo_actor) (Some (Genuine demo_registry)),
      Apply_Transition (demo_transition_request ''t1'' 1 Rq_IMPLEMENTED_UNVERIFIED) (Some demo_actor) None,
      Apply_Transition (demo_transition_request ''t2'' 2 Rq_SATISFIED) (Some demo_actor) (Some (Genuine demo_registry))]"

text \<open>The authoritative validation, part by part; the structural half follows from the
  invariant.\<close>

lemma demo_authoritative:
  assumes "validateRequirementLedgerStructure demo_sha demo_contract l = None"
    and "\<forall>ev \<in> set (rl_evidence l). verify_evidence demo_contract demo_registry ev = None"
    and "\<forall>tx \<in> set (rl_transitions l). verify_transition demo_contract l demo_registry tx = None"
    and "\<forall>e \<in> set (rl_requirements l). check_freshness demo_contract l e = None"
  shows "validateRequirementLedger demo_sha demo_contract l (Genuine demo_registry) = None"
  using assms by (auto simp: validateRequirementLedger_None structure_None runStructuralChecks_None demo_registry_def)

lemma demo_valid0: "validateRequirementLedgerStructure demo_sha demo_contract demo_ledger0 = None"
  by (rule initial_ledger_valid [OF demo_initial])

lemma demo_fresh:
  "list_all (\<lambda>l. list_all (\<lambda>e. check_freshness demo_contract l e = None) (rl_requirements l))
     [demo_ledger0, demo_ledger1, demo_ledger2, demo_ledger3]"
  by code_simp

lemma demo_evidence_ok: "list_all (\<lambda>ev. verify_evidence demo_contract demo_registry ev = None) (rl_evidence demo_ledger1)"
  by code_simp

lemma demo_transitions_ok:
  "list_all (\<lambda>tx. verify_transition demo_contract demo_ledger3 demo_registry tx = None) (rl_transitions demo_ledger3)"
  by code_simp

lemma demo_step1:
  "addLedgerEvidence demo_sha demo_contract demo_ledger0 demo_evidence_request (Some demo_actor)
     (Some (Genuine demo_registry)) = Inr demo_ledger1"
proof -
  have pre: "eq_expectedRevision demo_evidence_request = rl_revision demo_ledger0"
    "eq_id demo_evidence_request \<notin> ev_id ` set (rl_evidence demo_ledger0)"
    "known_requirements demo_contract (eq_requirementIds demo_evidence_request)"
    by code_simp+
  have ev: "ev_addedAtRevision (evidence_of_request demo_ledger0 demo_evidence_request demo_actor) = rl_revision demo_ledger0 + 1"
    "ev_id (evidence_of_request demo_ledger0 demo_evidence_request demo_actor) = eq_id demo_evidence_request"
    "ev_requirementIds (evidence_of_request demo_ledger0 demo_evidence_request demo_actor)
       = eq_requirementIds demo_evidence_request"
    by (simp_all add: evidence_of_request_def Let_def)
  have "validateRequirementLedgerStructure demo_sha demo_contract demo_ledger1 = None"
    unfolding demo_ledger1_def by (rule insert_evidence_valid [OF demo_valid0]) (simp_all add: ev pre)
  moreover have "rl_transitions demo_ledger1 = []" by code_simp
  ultimately have "validateRequirementLedger demo_sha demo_contract demo_ledger1 (Genuine demo_registry) = None"
    using demo_evidence_ok demo_fresh by (intro demo_authoritative) (simp_all add: list_all_iff)
  then show ?thesis
    using pre demo_valid0 by (simp add: addLedgerEvidence_Inr context_or_untrusted_def demo_ledger1_def)
qed

lemma demo_valid1: "validateRequirementLedgerStructure demo_sha demo_contract demo_ledger1 = None"
  by (rule addLedgerEvidence_valid [OF demo_step1])

lemma demo_req_id [simp]: "tr_requirementId (demo_transition_request i n s) = ''r''"
  by (simp add: demo_transition_request_def)

lemma demo_entry1: "find_entry demo_ledger1 ''r'' \<noteq> None"
  by code_simp

lemma demo_entry2: "find_entry demo_ledger2 ''r'' \<noteq> None"
  by code_simp

lemma demo_step2:
  "applyRequirementTransition demo_sha demo_contract demo_ledger1
     (demo_transition_request ''t1'' 1 Rq_IMPLEMENTED_UNVERIFIED) (Some demo_actor) None = Inr demo_ledger2"
proof -
  let ?req = "demo_transition_request ''t1'' 1 Rq_IMPLEMENTED_UNVERIFIED"
  obtain e where e: "find_entry demo_ledger1 (tr_requirementId ?req) = Some e"
    by (cases "find_entry demo_ledger1 (tr_requirementId ?req)") (use demo_entry1 in auto)
  have "check_transition_request demo_contract demo_ledger1 ?req demo_actor (the (find_entry demo_ledger1 ''r'')) = None"
    "\<not> privileged (le_status (the (find_entry demo_ledger1 ''r''))) (tr_toStatus ?req)"
    "\<not> js_blank (tr_transitionId ?req)" "tr_expectedRevision ?req = rl_revision demo_ledger1"
    "rl_transitions demo_ledger1 = []"
    by code_simp+
  with e demo_valid1 show ?thesis
    by (simp add: applyRequirementTransition_Inr context_or_untrusted_def demo_ledger2_def demo_step_def
        demo_req_id)
qed

lemma demo_valid2: "validateRequirementLedgerStructure demo_sha demo_contract demo_ledger2 = None"
  by (rule applyRequirementTransition_valid [OF demo_step2])

lemma demo_step3:
  "applyRequirementTransition demo_sha demo_contract demo_ledger2
     (demo_transition_request ''t2'' 2 Rq_SATISFIED) (Some demo_actor) (Some (Genuine demo_registry)) = Inr demo_ledger3"
proof -
  let ?req = "demo_transition_request ''t2'' 2 Rq_SATISFIED"
  obtain e where e: "find_entry demo_ledger2 (tr_requirementId ?req) = Some e"
    by (cases "find_entry demo_ledger2 (tr_requirementId ?req)") (use demo_entry2 in auto)
  have pre: "check_transition_request demo_contract demo_ledger2 ?req demo_actor (the (find_entry demo_ledger2 ''r'')) = None"
    "\<not> js_blank (tr_transitionId ?req)" "tr_expectedRevision ?req = rl_revision demo_ledger2"
    "tr_transitionId ?req \<notin> tx_id ` set (rl_transitions demo_ledger2)"
    "tr_evidenceIds ?req = [''e1'']"
    by code_simp+
  have l3: "demo_ledger3 = insert_transition demo_ledger2 e (transition_of_request demo_ledger2 (le_status e) ?req demo_actor)"
    using e by (simp add: demo_ledger3_def demo_step_def)
  have refs: "first_error (check_evidence_reference demo_ledger2 (rl_revision demo_ledger2 + 1)) [''e1''] = None"
    by code_simp
  have "validateRequirementLedgerStructure demo_sha demo_contract demo_ledger3 = None"
    unfolding l3 by (rule insert_transition_valid [OF demo_valid2])
      (use e pre refs in \<open>simp_all add: transition_of_request_def\<close>)
  moreover have "rl_evidence demo_ledger3 = rl_evidence demo_ledger1" by code_simp
  ultimately have "validateRequirementLedger demo_sha demo_contract demo_ledger3 (Genuine demo_registry) = None"
    using demo_evidence_ok demo_transitions_ok demo_fresh by (intro demo_authoritative) (simp_all add: list_all_iff)
  then show ?thesis
    using e pre demo_valid2 l3
    by (simp add: applyRequirementTransition_Inr context_or_untrusted_def demo_req_id)
qed

lemma demo_run: "run_all (exec_ledger demo_sha demo_contract) demo_ledger0 demo_requests = Inr demo_ledger3"
  by (simp add: demo_requests_def demo_step1 demo_step2 demo_step3)

lemma demo_reachable:
  "reachable_ledger demo_sha demo_contract demo_ledger0" "reachable_ledger demo_sha demo_contract demo_ledger3"
  using reachable_ledger.Initial [OF demo_initial] reachable_run [OF _ demo_run] by auto

lemma demo_valid3: "validateRequirementLedger demo_sha demo_contract demo_ledger3 (Genuine demo_registry) = None"
  using demo_step3 by (auto simp: applyRequirementTransition_Inr privileged_def demo_transition_request_def)

section \<open>The properties of the ledger at this run\<close>

theorem registry_exact_tuples_witness:
  "\<exists>r. Genuine demo_registry = Genuine r
    \<and> getBoundContractDigest (Genuine demo_registry) = Some (computeMissionContractDigest demo_sha demo_contract) \<and>
    (\<forall>i. \<forall>k \<in> set VALID_PRINCIPAL_KINDS.
       (verifyPrincipal r i k \<longleftrightarrow> (\<exists>p \<in> set demo_principals. pc_id p = i \<and> pc_kind p = k)) \<and>
       (\<forall>cap. verifyCapability r i k cap \<longleftrightarrow>
          (\<exists>p \<in> set demo_principals. pc_id p = i \<and> pc_kind p = k \<and> cap \<in> set (pc_capabilities p))))"
  by (rule registry_exact_tuples [OF demo_context])

theorem reachable_ledger_valid_witness:
  "validateRequirementLedgerStructure demo_sha demo_contract demo_ledger3 = None
    \<and> map ms_revision (buildMutationSequence demo_ledger3) = [1 .. rl_revision demo_ledger3]"
  by (rule reachable_ledger_valid [OF demo_reachable(2)])

lemma demo_exec1: "exec_ledger demo_sha demo_contract (hd demo_requests) demo_ledger0 = Inr demo_ledger1"
  by (simp add: demo_requests_def demo_step1)

lemma demo_exec23: "run_all (exec_ledger demo_sha demo_contract) demo_ledger1 (tl demo_requests) = Inr demo_ledger3"
  by (simp add: demo_requests_def demo_step2 demo_step3)

theorem ledger_requests_once_witness:
  "(\<exists>e. exec_ledger demo_sha demo_contract (hd demo_requests) demo_ledger3 = Inl e)
    \<and> rl_revision demo_ledger3 = rl_revision demo_ledger0 + 1 + int (length (tl demo_requests))
    \<and> (\<exists>ss. buildMutationSequence demo_ledger3 = buildMutationSequence demo_ledger0 @ ss
         \<and> length ss = 1 + length (tl demo_requests))"
  by (rule ledger_requests_once [OF demo_exec1 demo_exec23]) simp

lemma demo_satisfied: "status_of demo_ledger3 ''r'' = Some Rq_SATISFIED"
  by code_simp

theorem untrusted_requests_keep_satisfaction_witness:
  "(status_of demo_ledger2 ''r'' = Some Rq_SATISFIED \<longleftrightarrow> status_of demo_ledger1 ''r'' = Some Rq_SATISFIED)
    \<and> set (rl_evidence demo_ledger2) - set (rl_evidence demo_ledger1) \<subseteq> {ev. ev_effectiveAuthority ev = Agent_Claim}"
proof -
  have "run_all (exec_ledger demo_sha demo_contract) demo_ledger1
      [Apply_Transition (demo_transition_request ''t1'' 1 Rq_IMPLEMENTED_UNVERIFIED) (Some demo_actor) None] = Inr demo_ledger2"
    by (simp add: demo_step2)
  from untrusted_requests_keep_satisfaction [OF this, of "''r''"] show ?thesis
    by (auto simp: vouched_def)
qed

theorem reachable_satisfied_backed_witness: "requirement_backed demo_contract demo_ledger3 ''r''"
  by (rule reachable_satisfied_backed [OF demo_reachable(2) demo_satisfied])

lemma demo_authorized:
  "isSatisfactionAuthorized (demo_transition_request ''t2'' 2 Rq_SATISFIED) demo_ledger2 demo_contract demo_actor = None"
  by code_simp

lemma demo_found: "find_requirement demo_contract ''r'' = Some demo_requirement"
  by (simp add: demo_contract_def demo_requirement_def find_requirement_def)

theorem mutation_implies_replay_witness:
  "replayCriterionSatisfaction demo_ledger2
     (transition_of_request demo_ledger2 Rq_IMPLEMENTED_UNVERIFIED (demo_transition_request ''t2'' 2 Rq_SATISFIED) demo_actor)
     demo_requirement = None"
  by (rule mutation_implies_replay [OF demo_authorized]) (simp add: demo_found)

theorem authoritative_validation_sound_witness:
  "\<exists>reg. Genuine demo_registry = Genuine reg \<and> vr_digest reg = computeMissionContractDigest demo_sha demo_contract
    \<and> rl_contractDigest demo_ledger3 = computeMissionContractDigest demo_sha demo_contract
    \<and> (\<forall>ev \<in> set (rl_evidence demo_ledger3). registered_evidence reg ev)
    \<and> (\<forall>e \<in> set (rl_requirements demo_ledger3). le_status e = Rq_SATISFIED \<longrightarrow>
         satisfied_by_registered demo_contract demo_ledger3 reg (le_requirementId e))"
  by (rule authoritative_validation_sound [OF demo_valid3])

lemma demo_unblocked:
  "list_all (\<lambda>e. entry_blockers e = []) (rl_requirements demo_ledger3)"
  "list_all (\<lambda>r. requirement_blockers demo_ledger3 r = []) (mc_requirements demo_contract)"
  by code_simp+

lemma demo_completes:
  "sm_completionCandidate (deriveRequirementLedgerSummary demo_sha demo_contract demo_ledger3 (Genuine demo_registry))"
  using demo_unblocked by (simp add: completion_candidate_iff demo_valid3 list_all_iff)

theorem completion_means_backed_witness:
  "status_of demo_ledger3 ''r'' = Some Rq_SATISFIED
   \<and> requirement_backed demo_contract demo_ledger3 ''r'' \<and> satisfied_by_registered demo_contract demo_ledger3 demo_registry ''r''"
proof -
  have "demo_requirement \<in> set (mc_requirements demo_contract)"
    by (simp add: demo_contract_def)
  with completion_means_backed [OF demo_reachable(2) demo_completes] show ?thesis
    by (fastforce simp: demo_requirement_def)
qed

theorem reducer_agrees_witness:
  "deriveCurrentStates demo_ledger3 = getRequirementStatus demo_ledger3 \<and> verifyLedgerConsistency demo_ledger3 = []"
  by (rule reducer_agrees [OF demo_reachable(2)])

end
