(* ===== verification/Ledger_Findings.thy ===== *)
theory Ledger_Findings
  imports Ledger_Scenario
begin

text \<open>
  Where the ledger code falls short of its documentation, each stated as what the code does.
\<close>

section \<open>An unchecked flag decides the verdict\<close>

text \<open>A stored ledger in which every entry carries \<open>initialNotApplicable: true\<close>, and nothing
  else happened.\<close>

definition flag_all :: "requirement_ledger \<Rightarrow> requirement_ledger" where
  "flag_all l = l\<lparr>rl_requirements := map (\<lambda>e. e\<lparr>le_initialNotApplicable := True\<rparr>) (rl_requirements l)\<rparr>"

lemma initial_ledger_fields:
  assumes "initializeRequirementLedger sha c = Inr l"
  shows "rl_evidence l = []" "rl_transitions l = []" "rl_requirements l = map initial_entry (mc_requirements c)"
  using assms by (auto simp: initializeRequirementLedger_def split: if_splits)

lemma flag_all_validates:
  assumes "initializeRequirementLedger sha c = Inr l"
    and "internalCreateTrustedValidationContext sha c ps gs = Inr v"
  shows "validateRequirementLedger sha c (flag_all l) v = None"
proof -
  obtain reg where reg: "v = Genuine reg" "vr_digest reg = computeMissionContractDigest sha c"
    using factory_wf [OF assms(2)] by (auto simp: registry_wf_def)
  have fields: "rl_evidence (flag_all l) = []" "rl_transitions (flag_all l) = []" "rl_revision (flag_all l) = rl_revision l"
    "map (\<lambda>e. (le_requirementId e, le_status e, le_latestRegressionRevision e)) (rl_requirements (flag_all l)) =
     map (\<lambda>e. (le_requirementId e, le_status e, le_latestRegressionRevision e)) (rl_requirements l)"
    using initial_ledger_fields [OF assms(1)] by (simp_all add: flag_all_def)
  have s: "runStructuralChecks sha c l = None" "check_mutation_sequence l = None" "check_states c l = None"
    using initial_ledger_valid [OF assms(1)] by (simp_all add: structure_None)
  have seq: "buildMutationSequence (flag_all l) = []" "buildMutationSequence l = []"
    using initial_ledger_fields [OF assms(1)] fields by (simp_all add: buildMutationSequence_def mutation_slots_def)
  have "check_mutation_sequence (flag_all l) = None"
    using s(2) seq fields(3) by (simp add: check_mutation_sequence_None)
  moreover have "check_states c (flag_all l) = None"
    using s(3) seq by (simp add: check_states_def reconstruct_states_def check_simps flag_all_def)
  moreover have "runStructuralChecks sha c (flag_all l) = None"
    using s(1) unfolding runStructuralChecks_None by (simp add: flag_all_def image_image)
  moreover have "check_freshness c (flag_all l) e = None" if mem: "e \<in> set (rl_requirements (flag_all l))" for e
  proof -
    obtain r where "e = (initial_entry r)\<lparr>le_initialNotApplicable := True\<rparr>"
      using mem by (auto simp: flag_all_def initial_ledger_fields(3) [OF assms(1)])
    then have "le_latestRegressionRevision e = None" by (simp add: initial_entry_def Let_def)
    then show ?thesis by (simp add: check_freshness_def)
  qed
  ultimately show ?thesis
    using reg s(1) fields(1,2) unfolding validateRequirementLedger_None runStructuralChecks_None
    by (auto simp: flag_all_def)
qed

text \<open>The authoritative validation never compares an entry's
  \<open>initialNotApplicable\<close> with the contract, and the verdict skips flagged entries: whatever
  the contract demands, a ledger without any evidence whose entries are all flagged is a
  completion candidate under every context minted for that contract.\<close>

theorem flagged_ledger_completes:
  assumes "initializeRequirementLedger sha c = Inr l"
    and "internalCreateTrustedValidationContext sha c ps gs = Inr v"
  shows "sm_completionCandidate (deriveRequirementLedgerSummary sha c (flag_all l) v) \<and> rl_evidence (flag_all l) = []"
proof
  have flagged: "le_initialNotApplicable e" if "e \<in> set (rl_requirements (flag_all l))" for e
    using that by (auto simp: flag_all_def)
  then show "sm_completionCandidate (deriveRequirementLedgerSummary sha c (flag_all l) v)"
    unfolding completion_candidate_iff using flag_all_validates [OF assms]
    by (auto simp: entry_blockers_def requirement_blockers_def dest!: find_entryD split: option.splits)
  show "rl_evidence (flag_all l) = []"
    using initial_ledger_fields [OF assms(1)] by (simp add: flag_all_def)
qed

theorem flagged_ledger_completes_witness:
  "sm_completionCandidate (deriveRequirementLedgerSummary demo_sha demo_contract (flag_all demo_ledger0) (Genuine demo_registry))
   \<and> rl_evidence (flag_all demo_ledger0) = []"
  by (rule flagged_ledger_completes [OF demo_initial demo_context])

section \<open>One agent claim blocks a mission for good\<close>

text \<open>The criterion demands more authority than a claim has.\<close>

definition claim_too_weak :: "mission_contract \<Rightarrow> ident list \<Rightarrow> ident list \<Rightarrow> bool" where
  "claim_too_weak c rids kids \<longleftrightarrow>
     (\<exists>rid \<in> set rids. \<exists>kid \<in> set kids. \<exists>r k q a. find_requirement c rid = Some r \<and> find_criterion r kid = Some k
        \<and> q \<in> set (ac_requiredEvidence k) \<and> er_minAuthority q = Some a \<and> a \<noteq> Agent_Claim)"

lemma claim_fails_replay:
  assumes "claim_too_weak c (ev_requirementIds ev) (ev_criterionIds ev)" and "ev_effectiveAuthority ev = Agent_Claim"
  shows "checkCriterionEvidenceRequirements c ev \<noteq> None"
proof -
  obtain rid kid r k q a where w: "rid \<in> set (ev_requirementIds ev)" "kid \<in> set (ev_criterionIds ev)"
    "find_requirement c rid = Some r" "find_criterion r kid = Some k" "q \<in> set (ac_requiredEvidence k)"
    "er_minAuthority q = Some a" "a \<noteq> Agent_Claim"
    using assms(1) by (auto simp: claim_too_weak_def)
  have "authority_rank a \<noteq> 0" using w(7) by (cases a) simp_all
  then have weak: "check_criterion_requirement ev q \<noteq> None"
    using w(6,7) assms(2) by (simp add: check_criterion_requirement_def check_simps)
  show ?thesis
  proof
    assume "checkCriterionEvidenceRequirements c ev = None"
    from bspec [OF this [unfolded checkCriterionEvidenceRequirements_def first_error_None] w(1)]
    have "first_error (\<lambda>kid. case find_criterion r kid of None \<Rightarrow> None
           | Some k \<Rightarrow> first_error (check_criterion_requirement ev) (ac_requiredEvidence k)) (ev_criterionIds ev) = None"
      using w(3) by (simp add: first_error_None)
    from bspec [OF this [unfolded first_error_None] w(2)]
    have "first_error (check_criterion_requirement ev) (ac_requiredEvidence k) = None"
      using w(4) by (simp add: first_error_None)
    from bspec [OF this [unfolded first_error_None] w(5)] show False using weak by simp
  qed
qed

lemma run_keeps_evidence:
  "run_all (exec_ledger sha c) l rs = Inr l' \<Longrightarrow> set (rl_evidence l) \<subseteq> set (rl_evidence l')"
proof (induction rs arbitrary: l)
  case (Cons r rs)
  then obtain u where u: "exec_ledger sha c r l = Inr u" "run_all (exec_ledger sha c) u rs = Inr l'"
    by (auto split: sum.splits)
  then show ?case using Cons.IH [OF u(2)] exec_ledger_appends [OF u(1)] by auto
qed simp

text \<open>Recording a claim is open to everybody: an untrusted
  request on a valid ledger succeeds.  If the claim names a criterion that demands any
  authority above a claim, the replay of the criterion's policy fails on that record from
  then on, and since evidence is never removed, no later ledger is ever a completion
  candidate, whatever evidence is added to it.\<close>

theorem agent_claim_blocks_completion:
  assumes "reachable_ledger sha c l" and "eq_expectedRevision req = rl_revision l"
    and "eq_id req \<notin> ev_id ` set (rl_evidence l)" and "known_requirements c (eq_requirementIds req)"
    and "claim_too_weak c (eq_requirementIds req) (eq_criterionIds req)"
  shows "\<exists>l'. addLedgerEvidence sha c l req None None = Inr l' \<and>
    (\<forall>rs l'' v. run_all (exec_ledger sha c) l' rs = Inr l'' \<longrightarrow>
       \<not> sm_completionCandidate (deriveRequirementLedgerSummary sha c l'' v))"
proof -
  let ?ev = "evidence_of_request l req getUntrustedContext"
  let ?l' = "insert_evidence l ?ev"
  have claim: "deriveEffectiveAuthority getUntrustedContext t = Agent_Claim" for t
    by (simp add: deriveEffectiveAuthority_def contextHasAnyCapability_def contextHasCapability_def
        getUntrustedContext_def list_ex_iff)
  have ev: "ev_effectiveAuthority ?ev = Agent_Claim" "ev_requirementIds ?ev = eq_requirementIds req"
    "ev_criterionIds ?ev = eq_criterionIds req"
    by (simp_all add: evidence_of_request_def Let_def claim)
  have added: "addLedgerEvidence sha c l req None None = Inr ?l'"
    using assms(2-4) reachable_valid [OF assms(1)] by (simp add: addLedgerEvidence_Inr context_or_untrusted_def claim)
  moreover have "\<not> sm_completionCandidate (deriveRequirementLedgerSummary sha c l'' v)"
    if run: "run_all (exec_ledger sha c) ?l' rs = Inr l''" for rs l'' v
  proof -
    have "?ev \<in> set (rl_evidence l'')"
      using run_keeps_evidence [OF run] by (auto simp: insert_evidence_def)
    moreover have "verify_evidence c reg ?ev \<noteq> None" for reg
      using claim_fails_replay [of c ?ev] assms(5) ev unfolding verify_evidence_def check_simps by simp
    ultimately show ?thesis unfolding completion_candidate_iff validateRequirementLedger_None by blast
  qed
  ultimately show ?thesis by blast
qed

section \<open>Duplicate entries\<close>

definition repeat_entries :: "requirement_ledger \<Rightarrow> requirement_ledger" where
  "repeat_entries l = l\<lparr>rl_requirements := rl_requirements l @ rl_requirements l\<rparr>"

text \<open>The authoritative validation lacks the duplicate test of the structural one: it accepts an
  accepted ledger again after its list of requirement entries has been repeated.\<close>

theorem repeated_entries_accepted:
  assumes "validateRequirementLedger sha c l v = None" and "rl_requirements l \<noteq> []"
  shows "validateRequirementLedger sha c (repeat_entries l) v = None
    \<and> validateRequirementLedgerStructure sha c (repeat_entries l) \<noteq> None"
proof
  let ?l = "repeat_entries l"
  have fe: "find_evidence ?l = find_evidence l" "find_transition ?l = find_transition l"
    by (simp_all add: repeat_entries_def find_evidence_def find_transition_def fun_eq_iff)
  have seq: "buildMutationSequence ?l = buildMutationSequence l"
    by (simp add: buildMutationSequence_def mutation_slots_def repeat_entries_def)
  have refs: "check_evidence_reference ?l = check_evidence_reference l" "resolve_evidence ?l = resolve_evidence l"
    by (simp_all add: check_evidence_reference_def resolve_evidence_def fe fun_eq_iff)
  have vt: "verify_transition c ?l reg tx = verify_transition c l reg tx" for reg tx
    unfolding verify_transition_def check_transition_record_def replayCriterionSatisfaction_def refs ..
  have fresh: "last_satisfying ?l = last_satisfying l" "has_fresh_evidence ?l = has_fresh_evidence l"
    by (simp_all add: last_satisfying_def has_fresh_evidence_def fe fun_eq_iff) (simp add: repeat_entries_def)
  have cf: "check_freshness c ?l e = check_freshness c l e" for e
    unfolding check_freshness_def fresh ..
  have "replay_slot ?l = replay_slot l"
    unfolding replay_slot_def fun_eq_iff fe by simp
  then have "reconstruct_states c ?l = reconstruct_states c l"
    by (simp add: reconstruct_states_def seq)
  then have "check_states c ?l = None" if "check_states c l = None"
    using that by (auto simp: check_states_def check_simps repeat_entries_def split: sum.splits)
  moreover have "check_mutation_sequence ?l = check_mutation_sequence l"
    by (simp add: check_mutation_sequence_def seq) (simp add: repeat_entries_def)
  ultimately show "validateRequirementLedger sha c ?l v = None"
    using assms(1) unfolding validateRequirementLedger_None runStructuralChecks_None vt cf
    by (auto simp: repeat_entries_def)
  show "validateRequirementLedgerStructure sha c ?l \<noteq> None"
    using assms(2) by (cases "rl_requirements l") (auto simp: structure_None repeat_entries_def)
qed

theorem repeated_entries_accepted_witness:
  "validateRequirementLedger demo_sha demo_contract (repeat_entries demo_ledger3) (Genuine demo_registry) = None
   \<and> validateRequirementLedgerStructure demo_sha demo_contract (repeat_entries demo_ledger3) \<noteq> None"
proof (rule repeated_entries_accepted [OF demo_valid3])
  show "rl_requirements demo_ledger3 \<noteq> []" by code_simp
qed

definition demo_claim :: evidence_request where
  "demo_claim = demo_evidence_request\<lparr>eq_expectedRevision := 3, eq_id := ''c1''\<rparr>"

theorem agent_claim_blocks_completion_witness:
  "\<exists>l'. addLedgerEvidence demo_sha demo_contract demo_ledger3 demo_claim None None = Inr l' \<and>
    (\<forall>rs l'' v. run_all (exec_ledger demo_sha demo_contract) l' rs = Inr l'' \<longrightarrow>
       \<not> sm_completionCandidate (deriveRequirementLedgerSummary demo_sha demo_contract l'' v))"
proof (rule agent_claim_blocks_completion [OF demo_reachable(2)])
  show "eq_expectedRevision demo_claim = rl_revision demo_ledger3" by code_simp
  show "eq_id demo_claim \<notin> ev_id ` set (rl_evidence demo_ledger3)" by code_simp
  show "known_requirements demo_contract (eq_requirementIds demo_claim)" by code_simp
  have "find_requirement demo_contract ''r'' = Some demo_requirement"
    "find_criterion demo_requirement ''k'' = Some demo_criterion"
    "demo_evidence_requirement \<in> set (ac_requiredEvidence demo_criterion)"
    "er_minAuthority demo_evidence_requirement = Some Test_Result"
    by (simp_all add: demo_contract_def demo_requirement_def demo_criterion_def find_requirement_def
        find_criterion_def demo_evidence_requirement_def)
  moreover have "eq_requirementIds demo_claim = [''r'']" "eq_criterionIds demo_claim = [''k'']"
    by (simp_all add: demo_claim_def demo_evidence_request_def)
  ultimately show "claim_too_weak demo_contract (eq_requirementIds demo_claim) (eq_criterionIds demo_claim)"
    unfolding claim_too_weak_def by fastforce
qed

end
