(* ===== verification/Completion_Criteria.thy ===== *)
theory Completion_Criteria
  imports Prelude
begin

text \<open>
  The success criteria of adaptive execution (\<open>long-horizon/adaptive/criteria.ts\<close>) and the
  completion-readiness gate computed from them (\<open>long-horizon/adaptive/readiness.ts\<close>): the
  state is a list of criteria, evidence turns pending criteria into satisfied ones, and the
  gate collects what stands against completion.  Requirement categories that are names of
  members of \<open>Object.prototype\<close> are outside the model.
\<close>

section \<open>Criteria\<close>

datatype criterion_status = Cs_pending | Cs_satisfied | Cs_failed | Cs_blocked | Cs_waived

record success_criterion =
  sc_id :: ident
  sc_description :: string
  sc_required :: bool
  sc_evidenceRequirements :: "string list"
  sc_status :: criterion_status
  sc_evidenceIds :: "ident list"
  sc_waiverAuthority :: "string option"

record criterion_evidence =
  ce_id :: ident
  ce_category :: string

definition EVIDENCE_CATEGORY_REQUIREMENT :: "(string \<times> string list) list" where
  "EVIDENCE_CATEGORY_REQUIREMENT =
     [(''test'', [''test_artifact'']), (''publication'', [''registry_verification'']), (''git'', [''git_evidence'']),
      (''process'', [''process_identity'']), (''research'', [''citation'']),
      (''transaction'', [''transaction_confirmation'']), (''file'', [''file_hash''])]"

definition requirement_met :: "criterion_evidence list \<Rightarrow> string \<Rightarrow> bool" where
  "requirement_met evs req =
     (case map_of EVIDENCE_CATEGORY_REQUIREMENT req of
        Some allowed \<Rightarrow> list_ex (\<lambda>e. ce_category e \<in> set allowed) evs
      | None \<Rightarrow> evs \<noteq> [])"

definition evidenceSatisfies :: "success_criterion \<Rightarrow> criterion_evidence list \<Rightarrow> bool" where
  "evidenceSatisfies k evs \<longleftrightarrow>
     sc_evidenceRequirements k \<noteq> [] \<and> list_all (requirement_met evs) (sc_evidenceRequirements k) \<and> evs \<noteq> []"

definition unauthorized_waiver :: "success_criterion \<Rightarrow> bool" where
  "unauthorized_waiver k \<longleftrightarrow> js_falsy (sc_waiverAuthority k) \<or> sc_waiverAuthority k = Some ''model''"

text \<open>One turn of the loop: the next criterion and whether it changed.\<close>

definition evaluate_step :: "criterion_evidence list \<Rightarrow> success_criterion \<Rightarrow> success_criterion \<times> bool" where
  "evaluate_step evs k =
     (case sc_status k of
        Cs_pending \<Rightarrow>
          if evidenceSatisfies k evs
          then (k\<lparr>sc_status := Cs_satisfied, sc_evidenceIds := js_set (sc_evidenceIds k @ map ce_id evs)\<rparr>, True)
          else (k, False)
      | Cs_waived \<Rightarrow> if unauthorized_waiver k then (k\<lparr>sc_status := Cs_blocked\<rparr>, True) else (k, False)
      | _ \<Rightarrow> (k, False))"

definition evaluateCriteriaSatisfaction ::
  "success_criterion list \<Rightarrow> criterion_evidence list \<Rightarrow> success_criterion list \<times> bool" where
  "evaluateCriteriaSatisfaction ks evs =
     (map (\<lambda>k. fst (evaluate_step evs k)) ks, list_ex (\<lambda>k. snd (evaluate_step evs k)) ks)"

definition trySatisfyCriterion ::
  "success_criterion list \<Rightarrow> ident \<Rightarrow> criterion_evidence list \<Rightarrow> success_criterion list" where
  "trySatisfyCriterion ks i evs =
     (let ks' = fst (evaluateCriteriaSatisfaction ks evs) in
      if List.find (\<lambda>k. sc_id k = i) ks' = None then ks else ks')"

record criterion_summary =
  su_satisfied :: nat
  su_pending :: nat
  su_failed :: nat
  su_blocked :: nat
  su_waived :: nat
  su_total :: nat

definition count_status :: "criterion_summary \<Rightarrow> success_criterion \<Rightarrow> criterion_summary" where
  "count_status s k =
     (case sc_status k of
        Cs_satisfied \<Rightarrow> s\<lparr>su_satisfied := su_satisfied s + 1\<rparr>
      | Cs_pending \<Rightarrow> s\<lparr>su_pending := su_pending s + 1\<rparr>
      | Cs_failed \<Rightarrow> s\<lparr>su_failed := su_failed s + 1\<rparr>
      | Cs_blocked \<Rightarrow> s\<lparr>su_blocked := su_blocked s + 1\<rparr>
      | Cs_waived \<Rightarrow> s\<lparr>su_waived := su_waived s + 1\<rparr>)"

definition criterionSummary :: "success_criterion list \<Rightarrow> criterion_summary" where
  "criterionSummary ks = foldl count_status
     \<lparr>su_satisfied = 0, su_pending = 0, su_failed = 0, su_blocked = 0, su_waived = 0, su_total = length ks\<rparr> ks"

section \<open>Readiness\<close>

record readiness_input =
  ri_criteria :: "success_criterion list"
  ri_satisfiedCriterionIds :: "ident list"
  ri_transactionConfirmed :: bool
  ri_requiredTransaction :: bool
  ri_testsFailed :: bool
  ri_jobsResolved :: bool
  ri_requiredJobs :: bool
  ri_releaseArtifactsVerified :: bool
  ri_requiredReleaseVerification :: bool
  ri_budgetAccountingConsistent :: bool
  ri_requiredReviewPresent :: bool
  ri_requiredReview :: bool
  ri_finalResponseReserveAvailable :: bool
  ri_warnings :: "string list option"
  ri_evidenceIds :: "ident list option"

datatype readiness_blocker =
    REQUIRED_CRITERION_PENDING ident | REQUIRED_CRITERION_FAILED ident | CRITERION_BLOCKED ident
  | CRITERION_WAIVED_NO_AUTHORITY ident | REQUIRED_TRANSACTION_UNCONFIRMED | AUTHORITATIVE_TESTS_FAILED
  | REQUIRED_JOB_UNRESOLVED | RELEASE_ARTIFACTS_UNVERIFIED | BUDGET_ACCOUNTING_INCONSISTENT
  | REQUIRED_INDEPENDENT_REVIEW_ABSENT | FINAL_RESPONSE_RESERVE_UNAVAILABLE | NO_CRITERIA_DEFINED

record completion_readiness =
  cr_ready :: bool
  cr_blockers :: "readiness_blocker list"
  cr_warnings :: "string list"
  cr_satisfiedCriteria :: "ident list"
  cr_pendingCriteria :: "ident list"
  cr_evidenceIds :: "ident list"

definition criterion_blockers :: "success_criterion \<Rightarrow> readiness_blocker list" where
  "criterion_blockers k =
     (if sc_required k \<and> sc_status k = Cs_pending then [REQUIRED_CRITERION_PENDING (sc_id k)] else [])
     @ (if sc_required k \<and> sc_status k = Cs_failed then [REQUIRED_CRITERION_FAILED (sc_id k)] else [])
     @ (if sc_status k = Cs_blocked then [CRITERION_BLOCKED (sc_id k)] else [])
     @ (if sc_status k = Cs_waived \<and> unauthorized_waiver k then [CRITERION_WAIVED_NO_AUTHORITY (sc_id k)] else [])"

definition flag :: "bool \<Rightarrow> 'b \<Rightarrow> 'b list" where
  "flag b x = (if b then [x] else [])"

definition readiness_blockers :: "readiness_input \<Rightarrow> readiness_blocker list" where
  "readiness_blockers i =
     concat (map criterion_blockers (ri_criteria i))
     @ flag (ri_requiredTransaction i \<and> \<not> ri_transactionConfirmed i) REQUIRED_TRANSACTION_UNCONFIRMED
     @ flag (ri_testsFailed i) AUTHORITATIVE_TESTS_FAILED
     @ flag (ri_requiredJobs i \<and> \<not> ri_jobsResolved i) REQUIRED_JOB_UNRESOLVED
     @ flag (ri_requiredReleaseVerification i \<and> \<not> ri_releaseArtifactsVerified i) RELEASE_ARTIFACTS_UNVERIFIED
     @ flag (\<not> ri_budgetAccountingConsistent i) BUDGET_ACCOUNTING_INCONSISTENT
     @ flag (ri_requiredReview i \<and> \<not> ri_requiredReviewPresent i) REQUIRED_INDEPENDENT_REVIEW_ABSENT
     @ flag (\<not> ri_finalResponseReserveAvailable i) FINAL_RESPONSE_RESERVE_UNAVAILABLE
     @ flag (su_satisfied (criterionSummary (ri_criteria i)) = 0 \<and> ri_criteria i = []) NO_CRITERIA_DEFINED"

definition evaluateCompletionReadiness :: "readiness_input \<Rightarrow> completion_readiness" where
  "evaluateCompletionReadiness i =
     \<lparr>cr_ready = (readiness_blockers i = []),
      cr_blockers = readiness_blockers i,
      cr_warnings = (case ri_warnings i of Some ws \<Rightarrow> ws | None \<Rightarrow> []),
      cr_satisfiedCriteria = map sc_id (filter (\<lambda>k. sc_status k = Cs_satisfied) (ri_criteria i)),
      cr_pendingCriteria = map sc_id (filter (\<lambda>k. sc_status k = Cs_pending) (ri_criteria i)),
      cr_evidenceIds = (case ri_evidenceIds i of Some es \<Rightarrow> es | None \<Rightarrow> [])\<rparr>"

definition cannotOverrideReadiness :: "bool \<Rightarrow> completion_readiness \<Rightarrow> completion_readiness" where
  "cannotOverrideReadiness modelForcedReady evaluated = evaluated"

section \<open>Facts about single criteria\<close>

lemma flag_Nil [simp]: "flag b x = [] \<longleftrightarrow> \<not> b"
  by (simp add: flag_def)

lemma criterion_blockers_Nil:
  "criterion_blockers k = [] \<longleftrightarrow>
     sc_status k = Cs_satisfied
     \<or> sc_status k = Cs_waived \<and> (\<exists>a. sc_waiverAuthority k = Some a \<and> a \<noteq> [] \<and> a \<noteq> ''model'')
     \<or> \<not> sc_required k \<and> (sc_status k = Cs_pending \<or> sc_status k = Cs_failed)"
  by (cases "sc_status k"; cases "sc_waiverAuthority k")
    (auto simp: criterion_blockers_def unauthorized_waiver_def js_falsy_def)

lemma evaluate_step_cases:
  "fst (evaluate_step evs k) = k \<and> \<not> snd (evaluate_step evs k)
   \<or> sc_status k = Cs_pending \<and> evidenceSatisfies k evs \<and> sc_status (fst (evaluate_step evs k)) = Cs_satisfied
   \<or> sc_status k = Cs_waived \<and> unauthorized_waiver k \<and> sc_status (fst (evaluate_step evs k)) = Cs_blocked"
  by (simp add: evaluate_step_def split: criterion_status.split)

lemma evaluate_step_same [simp]:
  "sc_id (fst (evaluate_step evs k)) = sc_id k" "sc_required (fst (evaluate_step evs k)) = sc_required k"
  by (simp_all add: evaluate_step_def split: criterion_status.split)

lemma evaluate_step_idem: "evaluate_step evs (fst (evaluate_step evs k)) = (fst (evaluate_step evs k), False)"
  by (cases "sc_status k") (simp_all add: evaluate_step_def)

section \<open>Criteria and gate\<close>

text \<open>Evaluating evidence keeps the criteria and their order, satisfies a criterion only
  if it was pending and there is evidence for every requirement category it declares (a
  category the table does not know is met by any evidence), never makes a satisfied criterion
  unsatisfied, and a second evaluation of the same evidence changes nothing.\<close>

theorem criteria_evaluation_sound:
  assumes "evaluateCriteriaSatisfaction ks evs = (ks', changed)"
  shows "map sc_id ks' = map sc_id ks \<and> map sc_required ks' = map sc_required ks \<and>
    (\<forall>n < length ks. sc_status (ks' ! n) = Cs_satisfied \<longleftrightarrow>
       sc_status (ks ! n) = Cs_satisfied \<or>
       sc_status (ks ! n) = Cs_pending \<and> evs \<noteq> [] \<and> sc_evidenceRequirements (ks ! n) \<noteq> [] \<and>
       (\<forall>req allowed. req \<in> set (sc_evidenceRequirements (ks ! n)) \<longrightarrow>
          map_of EVIDENCE_CATEGORY_REQUIREMENT req = Some allowed \<longrightarrow>
          (\<exists>e \<in> set evs. ce_category e \<in> set allowed))) \<and>
    evaluateCriteriaSatisfaction ks' evs = (ks', False)"
proof (intro conjI)
  have ks': "ks' = map (\<lambda>k. fst (evaluate_step evs k)) ks"
    using assms by (simp add: evaluateCriteriaSatisfaction_def)
  show "map sc_id ks' = map sc_id ks" and "map sc_required ks' = map sc_required ks"
    by (simp_all add: ks')
  show "evaluateCriteriaSatisfaction ks' evs = (ks', False)"
    by (simp add: ks' evaluateCriteriaSatisfaction_def evaluate_step_idem list_ex_iff)
  have "sc_status (fst (evaluate_step evs k)) = Cs_satisfied \<longleftrightarrow>
      sc_status k = Cs_satisfied \<or> sc_status k = Cs_pending \<and> evidenceSatisfies k evs" for k
    by (cases "sc_status k") (simp_all add: evaluate_step_def)
  moreover have "evidenceSatisfies k evs \<longleftrightarrow> evs \<noteq> [] \<and> sc_evidenceRequirements k \<noteq> [] \<and>
      (\<forall>req allowed. req \<in> set (sc_evidenceRequirements k) \<longrightarrow>
         map_of EVIDENCE_CATEGORY_REQUIREMENT req = Some allowed \<longrightarrow> (\<exists>e \<in> set evs. ce_category e \<in> set allowed))" for k
    by (auto simp: evidenceSatisfies_def requirement_met_def list_all_iff list_ex_iff split: option.splits)
  ultimately show "\<forall>n < length ks. sc_status (ks' ! n) = Cs_satisfied \<longleftrightarrow>
       sc_status (ks ! n) = Cs_satisfied \<or>
       sc_status (ks ! n) = Cs_pending \<and> evs \<noteq> [] \<and> sc_evidenceRequirements (ks ! n) \<noteq> [] \<and>
       (\<forall>req allowed. req \<in> set (sc_evidenceRequirements (ks ! n)) \<longrightarrow>
          map_of EVIDENCE_CATEGORY_REQUIREMENT req = Some allowed \<longrightarrow>
          (\<exists>e \<in> set evs. ce_category e \<in> set allowed))"
    by (simp add: ks')
qed

text \<open>A pending criterion that asks for a test, evaluated with a test artifact.\<close>

definition demo_success_criterion :: success_criterion where
  "demo_success_criterion = \<lparr>sc_id = ''s'', sc_description = ''tests'', sc_required = True,
     sc_evidenceRequirements = [''test''], sc_status = Cs_pending, sc_evidenceIds = [], sc_waiverAuthority = None\<rparr>"

definition demo_satisfied_criterion :: success_criterion where
  "demo_satisfied_criterion = demo_success_criterion\<lparr>sc_status := Cs_satisfied, sc_evidenceIds := [''e'']\<rparr>"

theorem criteria_evaluation_sound_witness:
  "map sc_id [demo_satisfied_criterion] = map sc_id [demo_success_criterion] \<and>
   evaluateCriteriaSatisfaction [demo_satisfied_criterion] [\<lparr>ce_id = ''e'', ce_category = ''test_artifact''\<rparr>]
     = ([demo_satisfied_criterion], False)"
proof -
  have "evaluateCriteriaSatisfaction [demo_success_criterion] [\<lparr>ce_id = ''e'', ce_category = ''test_artifact''\<rparr>]
      = ([demo_satisfied_criterion], True)"
    by code_simp
  from criteria_evaluation_sound [OF this] show ?thesis by blast
qed

text \<open>When the gate reports ready there are criteria, every required one is satisfied or
  was waived by a named authority other than the model, no criterion at all is blocked or
  waived without authority, and every condition the input marks as required is met.\<close>

theorem readiness_sound:
  assumes "cr_ready (cannotOverrideReadiness forced (evaluateCompletionReadiness i))"
  shows "ri_criteria i \<noteq> [] \<and>
    (\<forall>k \<in> set (ri_criteria i). sc_required k \<longrightarrow> sc_status k = Cs_satisfied \<or>
       sc_status k = Cs_waived \<and> (\<exists>a. sc_waiverAuthority k = Some a \<and> a \<noteq> [] \<and> a \<noteq> ''model'')) \<and>
    (\<forall>k \<in> set (ri_criteria i). sc_status k \<noteq> Cs_blocked) \<and>
    (ri_requiredTransaction i \<longrightarrow> ri_transactionConfirmed i) \<and> \<not> ri_testsFailed i \<and>
    (ri_requiredJobs i \<longrightarrow> ri_jobsResolved i) \<and>
    (ri_requiredReleaseVerification i \<longrightarrow> ri_releaseArtifactsVerified i) \<and>
    ri_budgetAccountingConsistent i \<and> (ri_requiredReview i \<longrightarrow> ri_requiredReviewPresent i) \<and>
    ri_finalResponseReserveAvailable i"
proof -
  have "readiness_blockers i = []"
    using assms by (simp add: cannotOverrideReadiness_def evaluateCompletionReadiness_def)
  moreover have "su_satisfied (criterionSummary []) = 0"
    by (simp add: criterionSummary_def)
  ultimately show ?thesis
    by (auto simp: readiness_blockers_def criterion_blockers_Nil)
qed

definition demo_readiness :: readiness_input where
  "demo_readiness = \<lparr>ri_criteria = [demo_satisfied_criterion], ri_satisfiedCriterionIds = [''s''],
     ri_transactionConfirmed = False, ri_requiredTransaction = False, ri_testsFailed = False, ri_jobsResolved = False,
     ri_requiredJobs = False, ri_releaseArtifactsVerified = False, ri_requiredReleaseVerification = False,
     ri_budgetAccountingConsistent = True, ri_requiredReviewPresent = False, ri_requiredReview = False,
     ri_finalResponseReserveAvailable = True, ri_warnings = None, ri_evidenceIds = None\<rparr>"

theorem readiness_sound_witness: "ri_criteria demo_readiness \<noteq> [] \<and> \<not> ri_testsFailed demo_readiness"
proof -
  have "cr_ready (cannotOverrideReadiness False (evaluateCompletionReadiness demo_readiness))" by code_simp
  from readiness_sound [OF this] show ?thesis by blast
qed

text \<open>The criteria file promises that a criterion on a user observation stays pending
  until user evidence is supplied.  The category is not in the table, so one piece of evidence
  of any other category satisfies it.\<close>

theorem user_observation_by_any_evidence:
  assumes "sc_status k = Cs_pending" and "sc_evidenceRequirements k = [''user_observation'']"
  shows "sc_status (fst (evaluate_step [\<lparr>ce_id = i, ce_category = cat\<rparr>] k)) = Cs_satisfied"
  using assms
  by (simp add: evaluate_step_def evidenceSatisfies_def requirement_met_def EVIDENCE_CATEGORY_REQUIREMENT_def)

theorem user_observation_by_any_evidence_witness:
  "sc_status (fst (evaluate_step [\<lparr>ce_id = ''e'', ce_category = ''file_hash''\<rparr>]
     (demo_success_criterion\<lparr>sc_evidenceRequirements := [''user_observation'']\<rparr>))) = Cs_satisfied"
  by (rule user_observation_by_any_evidence) (simp_all add: demo_success_criterion_def)

end
