(* ===== verification/Execution_Machine.thy ===== *)
theory Execution_Machine
  imports Trusted_Context Versioned_Log Completion_Criteria
begin

text \<open>
  The mission execution state machine (\<open>long-horizon/execution-state-machine.ts\<close>): the
  execution record with its append-only history, the transition graph, the operation that
  applies a transition request, and the validation of a record read from JSON, which replays
  the history.  Error results of the operation are their codes; the validation returns the
  message it reports, or nothing for a valid record.
\<close>

section \<open>States, kinds, graph\<close>

datatype exec_state =
    Ex_PLANNING | Ex_EXECUTION | Ex_VERIFICATION | Ex_COMPLETION_REVIEW | Ex_BLOCKED
  | Ex_COMPLETED | Ex_FAILED | Ex_CANCELLED

datatype exec_kind =
    Kd_START_EXECUTION | Kd_REQUEST_VERIFICATION | Kd_RETURN_TO_EXECUTION | Kd_REQUEST_COMPLETION_REVIEW
  | Kd_RETURN_TO_VERIFICATION | Kd_APPROVE_COMPLETION | Kd_BLOCK | Kd_RESUME | Kd_FAIL | Kd_CANCEL

definition VALID_STATES :: "(string \<times> exec_state) list" where
  "VALID_STATES =
     [(''PLANNING'', Ex_PLANNING), (''EXECUTION'', Ex_EXECUTION), (''VERIFICATION'', Ex_VERIFICATION),
      (''COMPLETION_REVIEW'', Ex_COMPLETION_REVIEW), (''BLOCKED'', Ex_BLOCKED), (''COMPLETED'', Ex_COMPLETED),
      (''FAILED'', Ex_FAILED), (''CANCELLED'', Ex_CANCELLED)]"

definition VALID_KINDS :: "(string \<times> exec_kind) list" where
  "VALID_KINDS =
     [(''START_EXECUTION'', Kd_START_EXECUTION), (''REQUEST_VERIFICATION'', Kd_REQUEST_VERIFICATION),
      (''RETURN_TO_EXECUTION'', Kd_RETURN_TO_EXECUTION), (''REQUEST_COMPLETION_REVIEW'', Kd_REQUEST_COMPLETION_REVIEW),
      (''RETURN_TO_VERIFICATION'', Kd_RETURN_TO_VERIFICATION), (''APPROVE_COMPLETION'', Kd_APPROVE_COMPLETION),
      (''BLOCK'', Kd_BLOCK), (''RESUME'', Kd_RESUME), (''FAIL'', Kd_FAIL), (''CANCEL'', Kd_CANCEL)]"

fun exec_state_text :: "exec_state \<Rightarrow> string" where
  "exec_state_text Ex_PLANNING = ''PLANNING''"
| "exec_state_text Ex_EXECUTION = ''EXECUTION''"
| "exec_state_text Ex_VERIFICATION = ''VERIFICATION''"
| "exec_state_text Ex_COMPLETION_REVIEW = ''COMPLETION_REVIEW''"
| "exec_state_text Ex_BLOCKED = ''BLOCKED''"
| "exec_state_text Ex_COMPLETED = ''COMPLETED''"
| "exec_state_text Ex_FAILED = ''FAILED''"
| "exec_state_text Ex_CANCELLED = ''CANCELLED''"

fun exec_kind_text :: "exec_kind \<Rightarrow> string" where
  "exec_kind_text Kd_START_EXECUTION = ''START_EXECUTION''"
| "exec_kind_text Kd_REQUEST_VERIFICATION = ''REQUEST_VERIFICATION''"
| "exec_kind_text Kd_RETURN_TO_EXECUTION = ''RETURN_TO_EXECUTION''"
| "exec_kind_text Kd_REQUEST_COMPLETION_REVIEW = ''REQUEST_COMPLETION_REVIEW''"
| "exec_kind_text Kd_RETURN_TO_VERIFICATION = ''RETURN_TO_VERIFICATION''"
| "exec_kind_text Kd_APPROVE_COMPLETION = ''APPROVE_COMPLETION''"
| "exec_kind_text Kd_BLOCK = ''BLOCK''"
| "exec_kind_text Kd_RESUME = ''RESUME''"
| "exec_kind_text Kd_FAIL = ''FAIL''"
| "exec_kind_text Kd_CANCEL = ''CANCEL''"

definition TERMINAL_STATES :: "exec_state list" where
  "TERMINAL_STATES = [Ex_COMPLETED, Ex_FAILED, Ex_CANCELLED]"

definition RESUABLE_STATES :: "exec_state list" where
  "RESUABLE_STATES = [Ex_PLANNING, Ex_EXECUTION, Ex_VERIFICATION, Ex_COMPLETION_REVIEW]"

definition ways_out :: "(exec_kind \<times> exec_state) list" where
  "ways_out = [(Kd_BLOCK, Ex_BLOCKED), (Kd_FAIL, Ex_FAILED), (Kd_CANCEL, Ex_CANCELLED)]"

fun TRANSITION_GRAPH :: "exec_state \<Rightarrow> (exec_kind \<times> exec_state) list" where
  "TRANSITION_GRAPH Ex_PLANNING = (Kd_START_EXECUTION, Ex_EXECUTION) # ways_out"
| "TRANSITION_GRAPH Ex_EXECUTION = (Kd_REQUEST_VERIFICATION, Ex_VERIFICATION) # ways_out"
| "TRANSITION_GRAPH Ex_VERIFICATION =
     [(Kd_RETURN_TO_EXECUTION, Ex_EXECUTION), (Kd_REQUEST_COMPLETION_REVIEW, Ex_COMPLETION_REVIEW)] @ ways_out"
| "TRANSITION_GRAPH Ex_COMPLETION_REVIEW =
     [(Kd_RETURN_TO_EXECUTION, Ex_EXECUTION), (Kd_RETURN_TO_VERIFICATION, Ex_VERIFICATION),
      (Kd_APPROVE_COMPLETION, Ex_COMPLETED)] @ ways_out"
| "TRANSITION_GRAPH Ex_BLOCKED = [(Kd_RESUME, Ex_BLOCKED), (Kd_FAIL, Ex_FAILED), (Kd_CANCEL, Ex_CANCELLED)]"
| "TRANSITION_GRAPH Ex_COMPLETED = []"
| "TRANSITION_GRAPH Ex_FAILED = []"
| "TRANSITION_GRAPH Ex_CANCELLED = []"

lemma exec_texts [simp]:
  "map_of VALID_STATES (exec_state_text s) = Some s" "map_of VALID_KINDS (exec_kind_text k) = Some k"
  by (cases s; simp add: VALID_STATES_def) (cases k; simp add: VALID_KINDS_def)

section \<open>Records and requests\<close>

record exec_transition =
  xt_id :: ident
  xt_kind :: exec_kind
  xt_from :: exec_state
  xt_to :: exec_state
  xt_before :: int
  xt_after :: int

record exec_record =
  xr_executionVersion :: int
  xr_executionId :: ident
  xr_contractDigest :: string
  xr_revision :: int
  xr_state :: exec_state
  xr_blockedFrom :: "exec_state option"
  xr_transitions :: "exec_transition list"

text \<open>A request comes from the caller: its kind is a string, its expected revision a number.\<close>

record exec_request =
  xq_transitionId :: ident
  xq_expectedRevision :: js_number
  xq_kind :: string

record exec_options =
  xo_context :: "validation_context option"
  xo_readiness :: "readiness_input option"

datatype exec_error =
    Xe_INVALID_TRANSITION | Xe_STALE_REVISION | Xe_DUPLICATE_TRANSITION_ID | Xe_TERMINAL_STATE
  | Xe_ILLEGAL_TRANSITION | Xe_SELF_TRANSITION | Xe_BLOCK_WHILE_BLOCKED | Xe_RESUME_WHILE_NOT_BLOCKED
  | Xe_RESUME_STATE_NOT_RESUMABLE | Xe_TRUSTED_VALIDATION_CONTEXT_REQUIRED
  | Xe_EXECUTION_COMPLETION_CAPABILITY_REQUIRED | Xe_READINESS_GATE_BLOCKED | Xe_CONTRACT_DIGEST_MISMATCH
  | Xe_INTERNAL_ERROR

text \<open>\<open>initializeMissionExecution\<close> throws on a blank or untrimmed identifier.\<close>

definition initializeMissionExecution ::
  "(string \<Rightarrow> string) \<Rightarrow> mission_contract \<Rightarrow> ident \<Rightarrow> exec_record option" where
  "initializeMissionExecution sha c i =
     (if js_blank i \<or> i \<noteq> js_trim i then None
      else Some \<lparr>xr_executionVersion = 1, xr_executionId = js_trim i,
                 xr_contractDigest = computeMissionContractDigest sha c, xr_revision = 0,
                 xr_state = Ex_PLANNING, xr_blockedFrom = None, xr_transitions = []\<rparr>)"

section \<open>Applying a transition\<close>

definition safe_revision :: "js_number \<Rightarrow> bool" where
  "safe_revision n = (case n of IntNum m \<Rightarrow> safe_integer m \<and> m \<ge> 0 | _ \<Rightarrow> False)"

definition EXECUTION_COMPLETION_CAPABILITY :: string where
  "EXECUTION_COMPLETION_CAPABILITY = ''execution:complete''"

definition checkCompletionAuthorization :: "string \<Rightarrow> validation_context option \<Rightarrow> exec_error option" where
  "checkCompletionAuthorization digest ctx =
     (case ctx of
        None \<Rightarrow> Some Xe_TRUSTED_VALIDATION_CONTEXT_REQUIRED
      | Some Counterfeit \<Rightarrow> Some Xe_TRUSTED_VALIDATION_CONTEXT_REQUIRED
      | Some (Genuine reg) \<Rightarrow> first_some
          [must (vr_digest reg = digest) Xe_TRUSTED_VALIDATION_CONTEXT_REQUIRED,
           must (verifyCapability reg ''completion-operator'' ''operator'' EXECUTION_COMPLETION_CAPABILITY)
             Xe_EXECUTION_COMPLETION_CAPABILITY_REQUIRED])"

text \<open>Phases 0 to 2: the guards on the request as such.\<close>

definition check_exec_request ::
  "(string \<Rightarrow> string) \<Rightarrow> mission_contract \<Rightarrow> exec_record \<Rightarrow> exec_request \<Rightarrow> exec_error option" where
  "check_exec_request sha c r q = first_some
     [must (xr_contractDigest r = computeMissionContractDigest sha c) Xe_CONTRACT_DIGEST_MISMATCH,
      must (\<not> js_blank (xq_transitionId q)) Xe_INVALID_TRANSITION,
      must (xq_transitionId q = js_trim (xq_transitionId q)) Xe_INVALID_TRANSITION,
      must (safe_revision (xq_expectedRevision q)) Xe_STALE_REVISION,
      must (xq_expectedRevision q = IntNum (xr_revision r)) Xe_STALE_REVISION]"

text \<open>Phases 4 to 8: the destination of a transition kind in the current state.\<close>

definition check_exec_state :: "exec_record \<Rightarrow> exec_kind \<Rightarrow> exec_error option" where
  "check_exec_state r k = first_some
     [must (xr_state r \<notin> set TERMINAL_STATES) Xe_TERMINAL_STATE,
      must (\<not> (k = Kd_RESUME \<and> xr_state r \<noteq> Ex_BLOCKED)) Xe_RESUME_WHILE_NOT_BLOCKED,
      must (\<not> (k = Kd_BLOCK \<and> xr_state r = Ex_BLOCKED)) Xe_BLOCK_WHILE_BLOCKED,
      must (\<not> (xr_state r = Ex_BLOCKED \<and> k \<noteq> Kd_RESUME \<and> k \<noteq> Kd_FAIL \<and> k \<noteq> Kd_CANCEL)) Xe_ILLEGAL_TRANSITION]"

definition exec_destination :: "exec_record \<Rightarrow> exec_kind \<Rightarrow> exec_error + exec_state" where
  "exec_destination r k =
     (if k = Kd_RESUME \<and> xr_state r = Ex_BLOCKED then
        (case xr_blockedFrom r of
           None \<Rightarrow> Inl Xe_INTERNAL_ERROR
         | Some s \<Rightarrow> if s \<in> set RESUABLE_STATES then Inr s else Inl Xe_RESUME_STATE_NOT_RESUMABLE)
      else
        (case map_of (TRANSITION_GRAPH (xr_state r)) k of
           None \<Rightarrow> Inl Xe_ILLEGAL_TRANSITION
         | Some s \<Rightarrow> Inr s))"

definition check_exec_completion ::
  "string \<Rightarrow> exec_options \<Rightarrow> exec_state \<Rightarrow> exec_error option" where
  "check_exec_completion digest opts s =
     (if s \<noteq> Ex_COMPLETED then None
      else first_some
        [checkCompletionAuthorization digest (xo_context opts),
         (case xo_readiness opts of
            None \<Rightarrow> None
          | Some i \<Rightarrow> must (cr_ready (evaluateCompletionReadiness i)) Xe_READINESS_GATE_BLOCKED)])"

text \<open>Phases 11 to 13: the new record.  Every revision of the history passes through the
  32-bit coercion \<open>| 0\<close>; the revision of the record does not.\<close>

definition snapshot_transition :: "exec_transition \<Rightarrow> exec_transition" where
  "snapshot_transition t = t\<lparr>xt_before := to_int32 (xt_before t), xt_after := to_int32 (xt_after t)\<rparr>"

definition advance_exec :: "exec_record \<Rightarrow> ident \<Rightarrow> exec_kind \<Rightarrow> exec_state \<Rightarrow> exec_record" where
  "advance_exec r i k s =
     \<lparr>xr_executionVersion = 1, xr_executionId = xr_executionId r, xr_contractDigest = xr_contractDigest r,
      xr_revision = xr_revision r + 1, xr_state = s,
      xr_blockedFrom =
        (if k = Kd_BLOCK \<and> xr_state r \<noteq> Ex_BLOCKED \<and> xr_state r \<in> set RESUABLE_STATES
         then Some (xr_state r) else None),
      xr_transitions = map snapshot_transition (xr_transitions r)
        @ [\<lparr>xt_id = i, xt_kind = k, xt_from = xr_state r, xt_to = s,
            xt_before = to_int32 (xr_revision r), xt_after = to_int32 (xr_revision r + 1)\<rparr>]\<rparr>"

definition applyMissionExecutionTransition ::
  "(string \<Rightarrow> string) \<Rightarrow> mission_contract \<Rightarrow> exec_record \<Rightarrow> exec_request \<Rightarrow> exec_options \<Rightarrow> exec_error + exec_record" where
  "applyMissionExecutionTransition sha c r q opts =
     (case check_exec_request sha c r q of
        Some e \<Rightarrow> Inl e
      | None \<Rightarrow>
          (case map_of VALID_KINDS (xq_kind q) of
             None \<Rightarrow> Inl Xe_INVALID_TRANSITION
           | Some k \<Rightarrow>
               (case check_exec_state r k of
                  Some e \<Rightarrow> Inl e
                | None \<Rightarrow>
                    (case exec_destination r k of
                       Inl e \<Rightarrow> Inl e
                     | Inr s \<Rightarrow>
                         (case first_some
                            [must (xr_state r \<noteq> s) Xe_SELF_TRANSITION,
                             check_exec_completion (computeMissionContractDigest sha c) opts s,
                             must (xq_transitionId q \<notin> xt_id ` set (xr_transitions r)) Xe_DUPLICATE_TRANSITION_ID] of
                            Some e \<Rightarrow> Inl e
                          | None \<Rightarrow> Inr (advance_exec r (xq_transitionId q) k s))))))"

end
