(* ===== verification/Execution_Replay.thy ===== *)
theory Execution_Replay
  imports Execution_Machine
begin

text \<open>
  Reading an execution record back: the structural checks on the JSON document, the replay of
  the history and the comparison with the recorded state, each with the message the code
  returns, and the untrusted inspection.
\<close>

section \<open>Replaying a history\<close>

definition at_tx :: "nat \<Rightarrow> string \<Rightarrow> string" where
  "at_tx i msg = ''transitions['' @ int_text (int i) @ '']: '' @ msg"

definition qs :: "exec_state \<Rightarrow> string" where
  "qs s = dq (exec_state_text s)"

definition prevTerminal :: "exec_transition list \<Rightarrow> string" where
  "prevTerminal past =
     (case List.find (\<lambda>t. xt_to t \<in> set TERMINAL_STATES) (rev past) of
        Some t \<Rightarrow> exec_state_text (xt_to t) | None \<Rightarrow> ''unknown'')"

text \<open>The checks on one entry in the state \<open>(s, b)\<close> reached so far, and \<open>blockedFromState\<close>
  after it.\<close>

definition check_replayed ::
  "nat \<Rightarrow> exec_transition list \<Rightarrow> exec_state \<times> exec_state option \<Rightarrow> exec_transition \<Rightarrow> string option" where
  "check_replayed i past st t =
     (case st of (s, b) \<Rightarrow> first_some
        [must (xt_from t = s)
           (at_tx i (''fromState '' @ qs (xt_from t) @ '' does not match current state '' @ qs s)),
         (if xt_kind t = Kd_RESUME then
            (if s \<noteq> Ex_BLOCKED then Some (at_tx i (''RESUME only valid from BLOCKED, not '' @ qs s))
             else case b of
               None \<Rightarrow> Some (at_tx i ''RESUME but no blockedFromState recorded'')
             | Some s' \<Rightarrow> must (xt_to t = s')
                 (at_tx i (''RESUME to '' @ qs (xt_to t) @ '' does not match blockedFromState '' @ qs s')))
          else if xt_kind t = Kd_BLOCK then
            must (s \<in> set RESUABLE_STATES) (at_tx i (''BLOCK only valid from resumable state, not '' @ qs s))
          else
            (case map_of (TRANSITION_GRAPH s) (xt_kind t) of
               None \<Rightarrow> Some (at_tx i (''illegal transition '' @ dq (exec_kind_text (xt_kind t)) @ '' from '' @ qs s))
             | Some dest \<Rightarrow> must (xt_to t = dest)
                 (at_tx i (''toState '' @ qs (xt_to t) @ '' does not match expected destination '' @ qs dest
                    @ '' for kind '' @ dq (exec_kind_text (xt_kind t)) @ '' from '' @ qs s)))),
         must (xt_from t \<noteq> xt_to t)
           (at_tx i (''self-transition from '' @ qs (xt_from t) @ '' to '' @ qs (xt_to t))),
         must (\<not> (s \<in> set TERMINAL_STATES \<and> i > 0))
           (at_tx i (''transition after terminal state '' @ dq (prevTerminal past)))])"

definition blocked_after :: "exec_state \<times> exec_state option \<Rightarrow> exec_transition \<Rightarrow> exec_state option" where
  "blocked_after st t =
     (case st of (s, b) \<Rightarrow>
        if xt_kind t = Kd_RESUME then None else if xt_kind t = Kd_BLOCK then Some s else b)"

fun replay_loop ::
  "nat \<Rightarrow> exec_transition list \<Rightarrow> exec_state \<times> exec_state option \<Rightarrow> exec_transition list \<Rightarrow>
   string + exec_state \<times> exec_state option" where
  "replay_loop i past st [] = Inr st"
| "replay_loop i past st (t # ts) =
     (case check_replayed i past st t of
        Some e \<Rightarrow> Inl e
      | None \<Rightarrow> replay_loop (Suc i) (past @ [t]) (xt_to t, blocked_after st t) ts)"

definition replayExecutionHistory :: "exec_transition list \<Rightarrow> string + exec_state \<times> exec_state option" where
  "replayExecutionHistory ts = replay_loop 0 [] (Ex_PLANNING, None) ts"

section \<open>Structure of the document\<close>

definition is_record :: "json \<Rightarrow> bool" where
  "is_record v = (case v of JObj _ \<Rightarrow> True | _ \<Rightarrow> False)"

definition has_text :: "json \<Rightarrow> bool" where
  "has_text v = (case v of JStr s \<Rightarrow> \<not> js_blank s | _ \<Rightarrow> False)"

definition is_trimmed :: "json \<Rightarrow> bool" where
  "is_trimmed v = (case v of JStr s \<Rightarrow> s = js_trim s | _ \<Rightarrow> False)"

definition is_revision :: "json \<Rightarrow> bool" where
  "is_revision v = (case v of JNum n \<Rightarrow> safe_revision n | _ \<Rightarrow> False)"

definition names_one_of :: "(string \<times> 'v) list \<Rightarrow> json \<Rightarrow> bool" where
  "names_one_of table v = (case v of JStr s \<Rightarrow> map_of table s \<noteq> None | _ \<Rightarrow> False)"

definition MISSION_EXECUTION_RECORD_KEYS :: "string list" where
  "MISSION_EXECUTION_RECORD_KEYS =
     [''executionVersion'', ''executionId'', ''contractDigest'', ''revision'', ''state'', ''blockedFromState'', ''transitions'']"

definition MISSION_EXECUTION_TRANSITION_KEYS :: "string list" where
  "MISSION_EXECUTION_TRANSITION_KEYS =
     [''transitionId'', ''kind'', ''fromState'', ''toState'', ''revisionBefore'', ''revisionAfter'']"

definition validateTransitionStructure :: "json \<Rightarrow> nat \<Rightarrow> string option" where
  "validateTransitionStructure t i = first_some
     [must (is_record t) (at_tx i ''must be a non-null object''),
      first_error (\<lambda>k. must (k \<in> set MISSION_EXECUTION_TRANSITION_KEYS) (at_tx i (''unknown field '' @ dq k))) (object_keys t),
      must (has_text (jget t ''transitionId'')) (at_tx i ''transitionId must be a non-empty trimmed string''),
      must (is_trimmed (jget t ''transitionId''))
        (at_tx i ''transitionId must be trimmed (no leading/trailing whitespace)''),
      must (names_one_of VALID_KINDS (jget t ''kind''))
        (at_tx i (''kind must be a valid transition kind, got '' @ dq (js_text (jget t ''kind'')))),
      must (names_one_of VALID_STATES (jget t ''fromState''))
        (at_tx i (''fromState must be a valid state, got '' @ dq (js_text (jget t ''fromState'')))),
      must (names_one_of VALID_STATES (jget t ''toState''))
        (at_tx i (''toState must be a valid state, got '' @ dq (js_text (jget t ''toState'')))),
      must (is_revision (jget t ''revisionBefore'')) (at_tx i ''revisionBefore must be a safe non-negative integer''),
      must (is_revision (jget t ''revisionAfter'')) (at_tx i ''revisionAfter must be a safe non-negative integer'')]"

definition resumable_name :: "json \<Rightarrow> bool" where
  "resumable_name v = names_one_of (filter (\<lambda>p. snd p \<in> set RESUABLE_STATES) VALID_STATES) v"

definition check_blocked_field :: "json \<Rightarrow> string option" where
  "check_blocked_field v =
     (if jget v ''state'' = JStr ''BLOCKED'' then
        (if jget v ''blockedFromState'' = JUndefined then Some ''blockedFromState is required when state is BLOCKED''
         else must (resumable_name (jget v ''blockedFromState''))
           (''blockedFromState must be a resumable state when state is BLOCKED, got ''
              @ dq (js_text (jget v ''blockedFromState''))))
      else must (jget v ''blockedFromState'' = JUndefined)
        (''blockedFromState must not be present when state is '' @ dq (js_text (jget v ''state''))))"

definition validateExecutionRecordStructure :: "json \<Rightarrow> string option" where
  "validateExecutionRecordStructure v = first_some
     [first_error (\<lambda>k. must (k \<in> set MISSION_EXECUTION_RECORD_KEYS) (''Unknown field in execution record: '' @ dq k))
        (object_keys v),
      must (jget v ''executionVersion'' = JNum (IntNum 1))
        (''executionVersion must be 1, got '' @ js_text (jget v ''executionVersion'')),
      must (has_text (jget v ''executionId'')) ''executionId must be a non-empty trimmed string'',
      must (is_trimmed (jget v ''executionId'')) ''executionId must be trimmed (no leading/trailing whitespace)'',
      must (is_string (jget v ''contractDigest'') \<and> jget v ''contractDigest'' \<noteq> JStr [])
        ''contractDigest must be a non-empty string'',
      must (is_revision (jget v ''revision'')) ''revision must be a safe non-negative integer'',
      must (names_one_of VALID_STATES (jget v ''state''))
        (''state must be a valid MissionExecutionState, got '' @ dq (js_text (jget v ''state''))),
      must (is_array (jget v ''transitions'')) ''transitions must be an array'',
      check_blocked_field v]"

section \<open>Validation\<close>

text \<open>Reading the fields of an entry that has passed the structural check; on other values
  the defaults below are never used.\<close>

definition json_string :: "json \<Rightarrow> string" where
  "json_string v = (case v of JStr s \<Rightarrow> s | _ \<Rightarrow> [])"

definition json_int :: "json \<Rightarrow> int" where
  "json_int v = (case v of JNum (IntNum n) \<Rightarrow> n | _ \<Rightarrow> 0)"

definition read_state :: "json \<Rightarrow> exec_state" where
  "read_state v = (case map_of VALID_STATES (json_string v) of Some s \<Rightarrow> s | None \<Rightarrow> Ex_PLANNING)"

definition read_kind :: "json \<Rightarrow> exec_kind" where
  "read_kind v = (case map_of VALID_KINDS (json_string v) of Some k \<Rightarrow> k | None \<Rightarrow> Kd_BLOCK)"

definition read_transition :: "json \<Rightarrow> exec_transition" where
  "read_transition v =
     \<lparr>xt_id = json_string (jget v ''transitionId''), xt_kind = read_kind (jget v ''kind''),
      xt_from = read_state (jget v ''fromState''), xt_to = read_state (jget v ''toState''),
      xt_before = json_int (jget v ''revisionBefore''), xt_after = json_int (jget v ''revisionAfter'')\<rparr>"

text \<open>Phase 3 on one entry; \<open>prev\<close> is the entry before it, \<open>seen\<close> the identifiers so far.\<close>

definition check_entry :: "nat \<Rightarrow> string list \<Rightarrow> exec_transition option \<Rightarrow> json \<Rightarrow> string option" where
  "check_entry i seen prev v =
     (let t = read_transition v in first_some
       [validateTransitionStructure v i,
        must (xt_id t \<notin> set seen) (at_tx i (''duplicate transition ID '' @ dq (xt_id t))),
        must (xt_after t = xt_before t + 1)
          (at_tx i (''revisionAfter ('' @ int_text (xt_after t) @ '') must equal revisionBefore + 1 (''
             @ int_text (xt_before t + 1) @ '')'')),
        (case prev of
           Some p \<Rightarrow> must (xt_before t = xt_after p)
             (at_tx i (''revision discontinuity at transition '' @ int_text (int i) @ '' (expected ''
                @ int_text (xt_after p) @ '', got '' @ int_text (xt_before t) @ '')''))
         | None \<Rightarrow> must (xt_before t = 0)
             (''transitions[0]: first transition must have revisionBefore 0, got '' @ int_text (xt_before t)))])"

fun check_entries :: "nat \<Rightarrow> string list \<Rightarrow> exec_transition option \<Rightarrow> json list \<Rightarrow> string option" where
  "check_entries i seen prev [] = None"
| "check_entries i seen prev (v # vs) =
     (case check_entry i seen prev v of
        Some e \<Rightarrow> Some e
      | None \<Rightarrow> check_entries (Suc i) (xt_id (read_transition v) # seen) (Some (read_transition v)) vs)"

text \<open>Phases 5 to 7.\<close>

definition check_replayed_state :: "json \<Rightarrow> nat \<Rightarrow> exec_state \<times> exec_state option \<Rightarrow> string option" where
  "check_replayed_state v n st =
     (case st of (s, b) \<Rightarrow> first_some
        [must (jget v ''state'' = JStr (exec_state_text s))
           (''state mismatch: record claims '' @ dq (js_text (jget v ''state''))
              @ '' but replayed history produces '' @ qs s),
         (if jget v ''state'' = JStr ''BLOCKED'' then
            (if jget v ''blockedFromState'' = JUndefined
             then Some ''blockedFromState is required when state is BLOCKED''
             else must (Some (jget v ''blockedFromState'') = map_option (JStr \<circ> exec_state_text) b)
               (''blockedFromState mismatch: record claims '' @ dq (js_text (jget v ''blockedFromState''))
                  @ '' but replayed history produces ''
                  @ dq (case b of None \<Rightarrow> ''undefined'' | Some s' \<Rightarrow> exec_state_text s')))
          else must (jget v ''blockedFromState'' = JUndefined)
            (''blockedFromState must not be present when state is '' @ dq (js_text (jget v ''state'')))),
         must (jget v ''revision'' = JNum (IntNum (int n)))
           (''revision ('' @ js_text (jget v ''revision'') @ '') must equal transition history length (''
              @ int_text (int n) @ '')'')])"

definition validateMissionExecutionRecord ::
  "(string \<Rightarrow> string) \<Rightarrow> mission_contract \<Rightarrow> json \<Rightarrow> string option" where
  "validateMissionExecutionRecord sha c v =
     (if \<not> is_record v then Some ''Execution record must be a non-null object''
      else (let entries = array_items (jget v ''transitions'') in first_some
        [validateExecutionRecordStructure v,
         must (jget v ''contractDigest'' = JStr (computeMissionContractDigest sha c))
           ''CONTRACT_DIGEST_MISMATCH: record contractDigest does not match contract'',
         check_entries 0 [] None entries,
         (case replayExecutionHistory (map read_transition entries) of
            Inl e \<Rightarrow> Some e
          | Inr st \<Rightarrow> check_replayed_state v (length entries) st)]))"

section \<open>Inspection\<close>

record exec_inspection =
  xi_executionId :: ident
  xi_contractDigest :: string
  xi_state :: exec_state
  xi_revision :: int
  xi_transitionCount :: nat
  xi_blockedFrom :: "exec_state option"

definition inspectMissionExecution :: "json \<Rightarrow> string + exec_inspection" where
  "inspectMissionExecution v =
     (case first_some
        [must (is_record v) ''Execution record must be a non-null object'',
         must (has_text (jget v ''executionId'')) ''executionId must be a non-empty trimmed string'',
         must (is_string (jget v ''contractDigest'')) ''contractDigest must be a string'',
         must (is_revision (jget v ''revision'')) ''revision must be a safe non-negative integer'',
         must (names_one_of VALID_STATES (jget v ''state''))
           (''state must be a valid MissionExecutionState, got '' @ dq (js_text (jget v ''state''))),
         must (is_array (jget v ''transitions'')) ''transitions must be an array'',
         (if jget v ''state'' = JStr ''BLOCKED''
          then must (resumable_name (jget v ''blockedFromState''))
            ''blockedFromState must be a resumable state when state is BLOCKED''
          else must (jget v ''blockedFromState'' = JUndefined)
            (''blockedFromState must not be present when state is '' @ dq (js_text (jget v ''state''))))] of
        Some e \<Rightarrow> Inl e
      | None \<Rightarrow> Inr \<lparr>xi_executionId = json_string (jget v ''executionId''),
                     xi_contractDigest = json_string (jget v ''contractDigest''),
                     xi_state = read_state (jget v ''state''), xi_revision = json_int (jget v ''revision''),
                     xi_transitionCount = length (array_items (jget v ''transitions'')),
                     xi_blockedFrom = (if jget v ''state'' = JStr ''BLOCKED''
                                       then Some (read_state (jget v ''blockedFromState'')) else None)\<rparr>)"

section \<open>The document of a record\<close>

definition exec_transition_json :: "exec_transition \<Rightarrow> json" where
  "exec_transition_json t = JObj
     [(''transitionId'', JStr (xt_id t)), (''kind'', JStr (exec_kind_text (xt_kind t))),
      (''fromState'', JStr (exec_state_text (xt_from t))), (''toState'', JStr (exec_state_text (xt_to t))),
      (''revisionBefore'', JNum (IntNum (xt_before t))), (''revisionAfter'', JNum (IntNum (xt_after t)))]"

definition exec_record_json :: "exec_record \<Rightarrow> json" where
  "exec_record_json r = JObj
     ([(''executionVersion'', JNum (IntNum (xr_executionVersion r))), (''executionId'', JStr (xr_executionId r)),
       (''contractDigest'', JStr (xr_contractDigest r)), (''revision'', JNum (IntNum (xr_revision r))),
       (''state'', JStr (exec_state_text (xr_state r)))]
      @ opt_member ''blockedFromState'' (map_option (JStr \<circ> exec_state_text) (xr_blockedFrom r))
      @ [(''transitions'', JArr (map exec_transition_json (xr_transitions r)))])"

end
