(* ===== verification/Execution_Properties.thy ===== *)
theory Execution_Properties
  imports Execution_Replay
begin

text \<open>
  What the execution state machine guarantees: the record it produces is the one the
  validation replays, terminal states are final, completion needs an authorized context,
  requests are applied at most once.
\<close>

section \<open>Successful transitions\<close>

lemma apply_exec_Inr:
  "applyMissionExecutionTransition sha c r q opts = Inr r' \<longleftrightarrow>
     (\<exists>k s. map_of VALID_KINDS (xq_kind q) = Some k \<and> check_exec_request sha c r q = None \<and>
        check_exec_state r k = None \<and> exec_destination r k = Inr s \<and> xr_state r \<noteq> s \<and>
        check_exec_completion (computeMissionContractDigest sha c) opts s = None \<and>
        xq_transitionId q \<notin> xt_id ` set (xr_transitions r) \<and> r' = advance_exec r (xq_transitionId q) k s)"
  by (auto simp: applyMissionExecutionTransition_def first_some.simps must_def split: option.splits sum.splits if_splits)

lemma check_exec_request_None:
  "check_exec_request sha c r q = None \<longleftrightarrow>
     xr_contractDigest r = computeMissionContractDigest sha c \<and> \<not> js_blank (xq_transitionId q) \<and>
     xq_transitionId q = js_trim (xq_transitionId q) \<and> safe_revision (xq_expectedRevision q) \<and>
     xq_expectedRevision q = IntNum (xr_revision r)"
  by (auto simp: check_exec_request_def check_simps)

lemma check_exec_state_None:
  "check_exec_state r k = None \<longleftrightarrow>
     xr_state r \<notin> set TERMINAL_STATES \<and> (k = Kd_RESUME \<longrightarrow> xr_state r = Ex_BLOCKED) \<and>
     (k = Kd_BLOCK \<longrightarrow> xr_state r \<noteq> Ex_BLOCKED) \<and>
     (xr_state r = Ex_BLOCKED \<longrightarrow> k = Kd_RESUME \<or> k = Kd_FAIL \<or> k = Kd_CANCEL)"
  by (auto simp: check_exec_state_def check_simps)

lemma not_terminal_cases: "s \<notin> set TERMINAL_STATES \<longleftrightarrow> s = Ex_BLOCKED \<or> s \<in> set RESUABLE_STATES"
  by (cases s) (simp_all add: TERMINAL_STATES_def RESUABLE_STATES_def)

lemma not_resumable [simp]: "Ex_BLOCKED \<notin> set RESUABLE_STATES"
  by (simp add: RESUABLE_STATES_def)

lemma graph_blocked: "map_of (TRANSITION_GRAPH s) k = Some Ex_BLOCKED \<Longrightarrow> k = Kd_BLOCK \<or> k = Kd_RESUME"
  by (cases s) (auto simp: ways_out_def split: if_splits)

lemma graph_block: "map_of (TRANSITION_GRAPH s) Kd_BLOCK = Some s' \<Longrightarrow> s' = Ex_BLOCKED"
  by (cases s) (auto simp: ways_out_def split: if_splits)

text \<open>What a destination is, by kind.\<close>

lemma exec_destination_Inr:
  assumes "exec_destination r k = Inr s" and "check_exec_state r k = None"
  shows "if k = Kd_RESUME then xr_state r = Ex_BLOCKED \<and> xr_blockedFrom r = Some s \<and> s \<in> set RESUABLE_STATES
    else map_of (TRANSITION_GRAPH (xr_state r)) k = Some s \<and> (s = Ex_BLOCKED \<longleftrightarrow> k = Kd_BLOCK)"
  using assms
  by (auto simp: exec_destination_def check_exec_state_None split: option.splits if_splits
      dest: graph_blocked graph_block)

section \<open>Concurrency\<close>

type_synonym exec_command = "exec_request \<times> exec_options"

definition run_exec :: "(string \<Rightarrow> string) \<Rightarrow> mission_contract \<Rightarrow> exec_command \<Rightarrow> exec_record \<Rightarrow> exec_error + exec_record" where
  "run_exec sha c cmd r = applyMissionExecutionTransition sha c r (fst cmd) (snd cmd)"

definition exec_expected_revision :: "exec_command \<Rightarrow> int" where
  "exec_expected_revision cmd = (case xq_expectedRevision (fst cmd) of IntNum n \<Rightarrow> n | _ \<Rightarrow> -1)"

definition exec_history :: "exec_record \<Rightarrow> (ident \<times> exec_kind \<times> exec_state \<times> exec_state) list" where
  "exec_history r = map (\<lambda>t. (xt_id t, xt_kind t, xt_from t, xt_to t)) (xr_transitions r)"

lemma exec_history_advance:
  "exec_history (advance_exec r i k s) = exec_history r @ [(i, k, xr_state r, s)]"
  by (simp add: exec_history_def advance_exec_def snapshot_transition_def)

interpretation exec_log: versioned_log "run_exec sha c" exec_expected_revision xr_revision exec_history for sha c
proof
  fix cmd r t
  assume "run_exec sha c cmd r = Inr t"
  then obtain k s where x: "xq_expectedRevision (fst cmd) = IntNum (xr_revision r)"
    "t = advance_exec r (xq_transitionId (fst cmd)) k s"
    by (auto simp: run_exec_def apply_exec_Inr check_exec_request_None)
  show "exec_expected_revision cmd = xr_revision r" using x(1) by (simp add: exec_expected_revision_def)
  show "xr_revision t = xr_revision r + 1" using x(2) by (simp add: advance_exec_def)
  show "\<exists>h. exec_history t = exec_history r @ [h]" using x(2) by (simp add: exec_history_advance)
qed

section \<open>Replay of what the machine wrote\<close>

lemma replay_loop_snoc:
  "replay_loop i past st (ts @ [t]) =
     (case replay_loop i past st ts of
        Inl e \<Rightarrow> Inl e
      | Inr st' \<Rightarrow> (case check_replayed (i + length ts) (past @ ts) st' t of
          Some e \<Rightarrow> Inl e | None \<Rightarrow> Inr (xt_to t, blocked_after st' t)))"
  by (induction ts arbitrary: i past st) (auto split: option.splits sum.splits)

lemma to_int32_idem [simp]: "to_int32 (to_int32 n) = to_int32 n"
  by (simp add: to_int32_def)

definition exec_wf :: "(string \<Rightarrow> string) \<Rightarrow> mission_contract \<Rightarrow> exec_record \<Rightarrow> bool" where
  "exec_wf sha c r \<longleftrightarrow>
     xr_executionVersion r = 1 \<and> \<not> js_blank (xr_executionId r) \<and> xr_executionId r = js_trim (xr_executionId r) \<and>
     xr_contractDigest r = computeMissionContractDigest sha c \<and>
     xr_revision r = int (length (xr_transitions r)) \<and>
     distinct (map xt_id (xr_transitions r)) \<and>
     (\<forall>t \<in> set (xr_transitions r). \<not> js_blank (xt_id t) \<and> xt_id t = js_trim (xt_id t)) \<and>
     (\<forall>n < length (xr_transitions r). xt_before (xr_transitions r ! n) = to_int32 (int n) \<and>
        xt_after (xr_transitions r ! n) = to_int32 (int n + 1)) \<and>
     (\<exists>b. replayExecutionHistory (xr_transitions r) = Inr (xr_state r, b) \<and>
        (xr_state r = Ex_BLOCKED \<longrightarrow> xr_blockedFrom r = b \<and> (\<exists>s \<in> set RESUABLE_STATES. b = Some s))) \<and>
     (xr_state r \<noteq> Ex_BLOCKED \<longrightarrow> xr_blockedFrom r = None)"

lemma snapshot_id:
  assumes "\<forall>n < length ts. xt_before (ts ! n) = to_int32 (int n) \<and> xt_after (ts ! n) = to_int32 (int n + 1)"
  shows "map snapshot_transition ts = ts"
  by (rule nth_equalityI) (use assms in \<open>simp_all add: snapshot_transition_def\<close>)

lemma exec_wf_initial:
  assumes "initializeMissionExecution sha c i = Some r"
  shows "exec_wf sha c r"
  using assms
  by (auto simp: initializeMissionExecution_def exec_wf_def replayExecutionHistory_def split: if_splits)

lemma check_replayed_advance:
  assumes "check_exec_state r k = None" and "exec_destination r k = Inr s" and "xr_state r \<noteq> s"
    and "xr_state r = Ex_BLOCKED \<Longrightarrow> xr_blockedFrom r = b"
    and "xt_kind t = k" "xt_from t = xr_state r" "xt_to t = s"
  shows "check_replayed i past (xr_state r, b) t = None"
  using exec_destination_Inr [OF assms(2,1)] assms
  by (cases "k = Kd_RESUME"; cases "k = Kd_BLOCK")
    (auto simp: check_replayed_def check_simps check_exec_state_None not_terminal_cases)


lemma nth_snoc_revisions:
  assumes "\<forall>n < length ts. P n (ts ! n)" and "P (length ts) t"
  shows "\<forall>n < length (ts @ [t]). P n ((ts @ [t]) ! n)"
  using assms by (auto simp: nth_append less_Suc_eq)

lemma exec_wf_advance:
  assumes wf: "exec_wf sha c r" and cmd: "run_exec sha c cmd r = Inr r'"
  shows "exec_wf sha c r'"
proof -
  let ?ts = "xr_transitions r" and ?i = "xq_transitionId (fst cmd)"
  obtain k s where x: "check_exec_request sha c r (fst cmd) = None" "check_exec_state r k = None"
    "exec_destination r k = Inr s" "xr_state r \<noteq> s" "?i \<notin> xt_id ` set ?ts" "r' = advance_exec r ?i k s"
    using cmd by (auto simp: run_exec_def apply_exec_Inr)
  define t where "t = \<lparr>xt_id = ?i, xt_kind = k, xt_from = xr_state r, xt_to = s,
      xt_before = to_int32 (xr_revision r), xt_after = to_int32 (xr_revision r + 1)\<rparr>"
  have rev: "xr_revision r = int (length ?ts)" using wf by (simp add: exec_wf_def)
  have "map snapshot_transition ?ts = ?ts" by (rule snapshot_id) (use wf in \<open>simp add: exec_wf_def\<close>)
  then have ts': "xr_transitions r' = ?ts @ [t]" by (simp add: x(6) advance_exec_def t_def)
  obtain b where b: "replayExecutionHistory ?ts = Inr (xr_state r, b)"
    "xr_state r = Ex_BLOCKED \<Longrightarrow> xr_blockedFrom r = b" using wf by (auto simp: exec_wf_def)
  have "check_replayed (length ?ts) ?ts (xr_state r, b) t = None"
    by (rule check_replayed_advance [OF x(2,3,4) b(2)]) (simp_all add: t_def)
  then have "replayExecutionHistory (xr_transitions r') = Inr (s, blocked_after (xr_state r, b) t)"
    using b(1) by (simp add: replayExecutionHistory_def ts' replay_loop_snoc t_def)
  moreover have "s = Ex_BLOCKED \<longleftrightarrow> k = Kd_BLOCK"
    using exec_destination_Inr [OF x(3,2)] by (auto split: if_splits)
  moreover have "k = Kd_BLOCK \<Longrightarrow> xr_state r \<in> set RESUABLE_STATES"
    using x(2) by (auto simp: check_exec_state_None not_terminal_cases)
  moreover have "xr_state r' = s" "xr_blockedFrom r' = (if k = Kd_BLOCK \<and> xr_state r \<noteq> Ex_BLOCKED
      \<and> xr_state r \<in> set RESUABLE_STATES then Some (xr_state r) else None)"
    by (simp_all add: x(6) advance_exec_def)
  ultimately have replay: "\<exists>b. replayExecutionHistory (xr_transitions r') = Inr (xr_state r', b) \<and>
        (xr_state r' = Ex_BLOCKED \<longrightarrow> xr_blockedFrom r' = b \<and> (\<exists>s \<in> set RESUABLE_STATES. b = Some s))"
    "xr_state r' \<noteq> Ex_BLOCKED \<longrightarrow> xr_blockedFrom r' = None"
    by (auto simp: blocked_after_def t_def)
  have "\<forall>n < length (?ts @ [t]). xt_before ((?ts @ [t]) ! n) = to_int32 (int n) \<and>
      xt_after ((?ts @ [t]) ! n) = to_int32 (int n + 1)"
    by (rule nth_snoc_revisions) (use wf rev in \<open>auto simp: exec_wf_def t_def\<close>)
  moreover have "\<not> js_blank (xt_id t) \<and> xt_id t = js_trim (xt_id t)" "xt_id t \<notin> xt_id ` set ?ts"
    using x(1,5) unfolding t_def by (simp_all add: check_exec_request_None)
  moreover have "xr_executionVersion r' = 1" "xr_executionId r' = xr_executionId r"
    "xr_contractDigest r' = xr_contractDigest r" "xr_revision r' = xr_revision r + 1"
    by (simp_all add: x(6) advance_exec_def)
  ultimately show ?thesis
    using wf replay rev unfolding exec_wf_def ts' by simp
qed

inductive reachable_exec :: "(string \<Rightarrow> string) \<Rightarrow> mission_contract \<Rightarrow> exec_record \<Rightarrow> bool" for sha c where
  exec_start: "initializeMissionExecution sha c i = Some r \<Longrightarrow> reachable_exec sha c r"
| exec_step: "reachable_exec sha c r \<Longrightarrow> run_exec sha c cmd r = Inr r' \<Longrightarrow> reachable_exec sha c r'"

lemma reachable_exec_wf: "reachable_exec sha c r \<Longrightarrow> exec_wf sha c r"
  by (induction rule: reachable_exec.induct) (auto intro: exec_wf_initial exec_wf_advance)

section \<open>Validation of what the machine wrote\<close>

lemma read_transition_json [simp]: "read_transition (exec_transition_json t) = t"
  by (simp add: read_transition_def exec_transition_json_def json_string_def json_int_def read_state_def read_kind_def)

lemma exec_record_json_fields [simp]:
  "jget (exec_record_json r) ''executionVersion'' = JNum (IntNum (xr_executionVersion r))"
  "jget (exec_record_json r) ''executionId'' = JStr (xr_executionId r)"
  "jget (exec_record_json r) ''contractDigest'' = JStr (xr_contractDigest r)"
  "jget (exec_record_json r) ''revision'' = JNum (IntNum (xr_revision r))"
  "jget (exec_record_json r) ''state'' = JStr (exec_state_text (xr_state r))"
  "jget (exec_record_json r) ''blockedFromState'' =
     (case xr_blockedFrom r of None \<Rightarrow> JUndefined | Some s \<Rightarrow> JStr (exec_state_text s))"
  "jget (exec_record_json r) ''transitions'' = JArr (map exec_transition_json (xr_transitions r))"
  "is_record (exec_record_json r)"
  by (simp_all add: exec_record_json_def is_record_def opt_member_def split: option.splits)

lemma exec_state_text_eq [simp]: "exec_state_text s = exec_state_text s' \<longleftrightarrow> s = s'"
  by (metis exec_texts(1) option.inject)

lemma exec_state_text_blocked [simp]: "exec_state_text s = ''BLOCKED'' \<longleftrightarrow> s = Ex_BLOCKED"
  using exec_state_text_eq [of s Ex_BLOCKED] by simp

lemma transition_structure_ok:
  assumes "\<not> js_blank (xt_id t)" and "xt_id t = js_trim (xt_id t)"
    and "safe_integer (xt_before t)" "xt_before t \<ge> 0" "safe_integer (xt_after t)" "xt_after t \<ge> 0"
  shows "validateTransitionStructure (exec_transition_json t) i = None"
  using assms
  by (auto simp: validateTransitionStructure_def check_simps exec_transition_json_def is_record_def object_keys_def
      has_text_def is_trimmed_def names_one_of_def is_revision_def safe_revision_def MISSION_EXECUTION_TRANSITION_KEYS_def)

lemma check_entries_ok:
  assumes "distinct (map xt_id ts)" and "set seen \<inter> xt_id ` set ts = {}"
    and "\<forall>t \<in> set ts. \<not> js_blank (xt_id t) \<and> xt_id t = js_trim (xt_id t)"
    and "\<forall>n < length ts. xt_before (ts ! n) = int (i + n) \<and> xt_after (ts ! n) = int (i + n) + 1"
    and "int (i + length ts) \<le> 2147483647"
    and "case prev of None \<Rightarrow> i = 0 | Some p \<Rightarrow> xt_after p = int i"
  shows "check_entries i seen prev (map exec_transition_json ts) = None"
  using assms
proof (induction ts arbitrary: i seen prev)
  case Nil
  then show ?case by simp
next
  case (Cons t ts)
  have head: "xt_before t = int i" "xt_after t = int i + 1" using Cons.prems(4) by force+
  have tail: "\<forall>n < length ts. xt_before (ts ! n) = int (Suc i + n) \<and> xt_after (ts ! n) = int (Suc i + n) + 1"
    using Cons.prems(4) by force
  have "validateTransitionStructure (exec_transition_json t) i = None"
    by (rule transition_structure_ok) (use Cons.prems(3,5) in \<open>auto simp: head safe_integer_def\<close>)
  then have "check_entry i seen prev (exec_transition_json t) = None"
    using Cons.prems(2,6) by (auto simp: check_entry_def check_simps head split: option.splits)
  moreover have "check_entries (Suc i) (xt_id t # seen) (Some t) (map exec_transition_json ts) = None"
    by (rule Cons.IH) (use Cons.prems tail in \<open>auto simp: head\<close>)
  ultimately show ?case by simp
qed

lemma exec_wf_valid:
  assumes wf: "exec_wf sha c r" and short: "xr_revision r \<le> 2147483647"
    and digest: "computeMissionContractDigest sha c \<noteq> []"
  shows "validateMissionExecutionRecord sha c (exec_record_json r) = None"
proof -
  let ?ts = "xr_transitions r" and ?v = "exec_record_json r"
  have rev: "xr_revision r = int (length ?ts)" using wf by (simp add: exec_wf_def)
  have ids: "distinct (map xt_id ?ts)" "\<forall>t \<in> set ?ts. \<not> js_blank (xt_id t) \<and> xt_id t = js_trim (xt_id t)"
    and revs: "\<forall>n < length ?ts. xt_before (?ts ! n) = to_int32 (int n) \<and> xt_after (?ts ! n) = to_int32 (int n + 1)"
    using wf by (simp_all add: exec_wf_def)
  have revs': "\<forall>n < length ?ts. xt_before (?ts ! n) = int (0 + n) \<and> xt_after (?ts ! n) = int (0 + n) + 1"
    using revs short rev by (auto simp: to_int32_id)
  have "check_entries 0 [] None (map exec_transition_json ?ts) = None"
    by (rule check_entries_ok) (use ids revs' short rev in auto)
  moreover obtain b where b: "replayExecutionHistory ?ts = Inr (xr_state r, b)"
    "xr_state r = Ex_BLOCKED \<Longrightarrow> xr_blockedFrom r = b \<and> (\<exists>s \<in> set RESUABLE_STATES. b = Some s)"
    "xr_state r \<noteq> Ex_BLOCKED \<Longrightarrow> xr_blockedFrom r = None" using wf by (auto simp: exec_wf_def)
  have "resumable_name (JStr (exec_state_text s))" if "s \<in> set RESUABLE_STATES" for s
    using that by (auto simp: resumable_name_def names_one_of_def VALID_STATES_def RESUABLE_STATES_def)
  with b(2,3) have "check_blocked_field ?v = None"
    by (auto simp: check_blocked_field_def check_simps)
  moreover have "set (object_keys ?v) \<subseteq> set MISSION_EXECUTION_RECORD_KEYS"
    by (auto simp: exec_record_json_def object_keys_def MISSION_EXECUTION_RECORD_KEYS_def opt_member_def split: option.splits)
  ultimately have "validateExecutionRecordStructure ?v = None"
    using wf short digest
    by (auto simp: validateExecutionRecordStructure_def check_simps exec_wf_def has_text_def is_trimmed_def is_revision_def
        safe_revision_def safe_integer_def names_one_of_def is_array_def)
  moreover have "check_replayed_state ?v (length ?ts) (xr_state r, b) = None"
    using b(2,3) rev by (auto simp: check_replayed_state_def check_simps)
  ultimately show ?thesis
    using \<open>check_entries 0 [] None _ = None\<close> wf b(1)
    by (simp add: validateMissionExecutionRecord_def check_simps array_items_def comp_def exec_wf_def)
qed

end
