(* ===== verification/Execution_Claims.thy ===== *)
theory Execution_Claims
  imports Execution_Properties "HOL-Library.Sublist"
begin

text \<open>
  The guarantees of the execution state machine, and two places where the record it validates
  and the record it writes drift apart.
\<close>

section \<open>The way to completion\<close>

text \<open>The kinds a record must have gone through to be in a state.\<close>

fun way_to :: "exec_state \<Rightarrow> exec_kind list" where
  "way_to Ex_EXECUTION = [Kd_START_EXECUTION]"
| "way_to Ex_VERIFICATION = [Kd_START_EXECUTION, Kd_REQUEST_VERIFICATION]"
| "way_to Ex_COMPLETION_REVIEW = [Kd_START_EXECUTION, Kd_REQUEST_VERIFICATION, Kd_REQUEST_COMPLETION_REVIEW]"
| "way_to Ex_COMPLETED =
     [Kd_START_EXECUTION, Kd_REQUEST_VERIFICATION, Kd_REQUEST_COMPLETION_REVIEW, Kd_APPROVE_COMPLETION]"
| "way_to _ = []"

definition exec_kinds :: "exec_record \<Rightarrow> exec_kind list" where
  "exec_kinds r = map xt_kind (xr_transitions r)"

text \<open>A step of the graph extends the way by at most its own kind.\<close>

lemma way_to_graph:
  "map_of (TRANSITION_GRAPH s) k = Some s' \<Longrightarrow> subseq (way_to s') (way_to s @ [k])"
  by (cases s) (auto simp: ways_out_def split: if_splits)

lemma exec_kinds_advance: "exec_kinds (advance_exec r i k s) = exec_kinds r @ [k]"
  by (simp add: exec_kinds_def advance_exec_def snapshot_transition_def comp_def)

lemma exec_way:
  assumes "reachable_exec sha c r"
  shows "subseq (way_to (xr_state r)) (exec_kinds r) \<and>
    (\<forall>s. xr_blockedFrom r = Some s \<longrightarrow> subseq (way_to s) (exec_kinds r))"
  using assms
proof (induction rule: reachable_exec.induct)
  case (exec_start i r)
  then show ?case by (auto simp: initializeMissionExecution_def split: if_splits)
next
  case (exec_step r cmd r')
  let ?i = "xq_transitionId (fst cmd)"
  obtain k s where x: "check_exec_state r k = None" "exec_destination r k = Inr s" "r' = advance_exec r ?i k s"
    using exec_step.hyps(2) by (auto simp: run_exec_def apply_exec_Inr)
  have kinds: "exec_kinds r' = exec_kinds r @ [k]" by (simp add: x(3) exec_kinds_advance)
  have "subseq (way_to s) (exec_kinds r @ [k])"
  proof (cases "k = Kd_RESUME")
    case True
    then have "xr_blockedFrom r = Some s" using exec_destination_Inr [OF x(2,1)] by simp
    then have "subseq (way_to s) (exec_kinds r)" using exec_step.IH by blast
    then show ?thesis by (rule list_emb_prefix)
  next
    case False
    then have "subseq (way_to s) (way_to (xr_state r) @ [k])"
      using exec_destination_Inr [OF x(2,1)] by (intro way_to_graph) simp
    also have "subseq (way_to (xr_state r) @ [k]) (exec_kinds r @ [k])"
      using exec_step.IH by (intro list_emb_append_mono) simp_all
    finally show ?thesis .
  qed
  moreover have "subseq (way_to (xr_state r)) (exec_kinds r @ [k])"
    using exec_step.IH by (intro list_emb_prefix) simp
  ultimately show ?case
    by (simp add: kinds) (auto simp: x(3) advance_exec_def)
qed

text \<open>Which requests may complete a mission.\<close>

definition may_complete :: "(string \<Rightarrow> string) \<Rightarrow> mission_contract \<Rightarrow> exec_options \<Rightarrow> bool" where
  "may_complete sha c opts \<longleftrightarrow>
     (\<exists>reg. xo_context opts = Some (Genuine reg) \<and> vr_digest reg = computeMissionContractDigest sha c \<and>
        verifyCapability reg ''completion-operator'' ''operator'' ''execution:complete'') \<and>
     (\<forall>i. xo_readiness opts = Some i \<longrightarrow> cr_ready (evaluateCompletionReadiness i))"

lemma check_exec_completion_None:
  "check_exec_completion (computeMissionContractDigest sha c) opts Ex_COMPLETED = None \<longleftrightarrow> may_complete sha c opts"
  by (auto simp: check_exec_completion_def check_simps checkCompletionAuthorization_def may_complete_def
      EXECUTION_COMPLETION_CAPABILITY_def split: option.splits validation_context.splits)

text \<open>Nothing follows the completion.\<close>

lemma completed_is_last: "xr_state r = Ex_COMPLETED \<Longrightarrow> run_exec sha c cmd r \<noteq> Inr r'"
  by (auto simp: run_exec_def apply_exec_Inr check_exec_state_None TERMINAL_STATES_def)

lemma completing_step:
  assumes "run_exec sha c cmd u = Inr t" and "xr_state t = Ex_COMPLETED" and "xr_state u \<noteq> Ex_BLOCKED"
  shows "xr_state u = Ex_COMPLETION_REVIEW \<and> exec_kinds t = exec_kinds u @ [Kd_APPROVE_COMPLETION] \<and> may_complete sha c (snd cmd)"
proof -
  obtain k s where x: "check_exec_state u k = None" "exec_destination u k = Inr s"
    "check_exec_completion (computeMissionContractDigest sha c) (snd cmd) s = None"
    "t = advance_exec u (xq_transitionId (fst cmd)) k s"
    using assms(1) by (auto simp: run_exec_def apply_exec_Inr)
  then have s: "s = Ex_COMPLETED" using assms(2) by (simp add: advance_exec_def)
  then have "map_of (TRANSITION_GRAPH (xr_state u)) k = Some Ex_COMPLETED"
    using exec_destination_Inr [OF x(2,1)] assms(3) by (simp split: if_splits)
  then have "xr_state u = Ex_COMPLETION_REVIEW \<and> k = Kd_APPROVE_COMPLETION"
    by (cases "xr_state u") (auto simp: ways_out_def split: if_splits)
  then show ?thesis using x(3,4) s by (simp add: exec_kinds_advance check_exec_completion_None)
qed

lemma resume_never_completes:
  assumes "run_exec sha c cmd u = Inr t" and "xr_state t = Ex_COMPLETED"
  shows "xr_state u \<noteq> Ex_BLOCKED"
proof
  assume b: "xr_state u = Ex_BLOCKED"
  obtain k s where x: "check_exec_state u k = None" "exec_destination u k = Inr s"
    "t = advance_exec u (xq_transitionId (fst cmd)) k s"
    using assms(1) by (auto simp: run_exec_def apply_exec_Inr)
  then have "s = Ex_COMPLETED" using assms(2) by (simp add: advance_exec_def)
  then show False using exec_destination_Inr [OF x(2,1)] b by (auto simp: RESUABLE_STATES_def split: if_splits)
qed

lemma run_all_completed:
  assumes "run_all (run_exec sha c) r cmds = Inr t" and "xr_state t = Ex_COMPLETED" and "xr_state r \<noteq> Ex_COMPLETED"
  shows "\<exists>pre cmd u. cmds = pre @ [cmd] \<and> run_all (run_exec sha c) r pre = Inr u \<and> run_exec sha c cmd u = Inr t"
  using assms
proof (induction cmds arbitrary: r)
  case Nil
  then show ?case by simp
next
  case (Cons cmd cmds)
  then obtain u where u: "run_exec sha c cmd r = Inr u" "run_all (run_exec sha c) u cmds = Inr t"
    by (auto split: sum.splits)
  show ?case
  proof (cases "xr_state u = Ex_COMPLETED")
    case True
    then have "cmds = []" using u(2) completed_is_last [OF True] by (cases cmds) (auto split: sum.splits)
    then show ?thesis using u by (intro exI [of _ "[]"]) simp
  next
    case False
    from Cons.IH [OF u(2) Cons.prems(2) False] obtain pre x v where
      "cmds = pre @ [x]" "run_all (run_exec sha c) u pre = Inr v" "run_exec sha c x v = Inr t" by blast
    then show ?thesis using u(1) by (intro exI [of _ "cmd # pre"]) simp
  qed
qed

lemma run_all_reachable:
  "run_all (run_exec sha c) r cmds = Inr t \<Longrightarrow> reachable_exec sha c r \<Longrightarrow> reachable_exec sha c t"
  by (rule run_all_invariant [where P = "reachable_exec sha c"]) (auto intro: exec_step)

text \<open>C7.  An execution that ends COMPLETED was started, verified, reviewed and approved, in this
  order, and its last request is the one that completed it: it found the execution in the completion review, approved
  the completion, and itself carried a genuine validation context bound to the contract in which the completion operator
  holds the capability to complete, with a readiness gate that was either absent or reported ready.\<close>

theorem completion_authorized:
  assumes "initializeMissionExecution sha c i = Some r" and "run_all (run_exec sha c) r cmds = Inr t"
    and "xr_state t = Ex_COMPLETED"
  shows "subseq [Kd_START_EXECUTION, Kd_REQUEST_VERIFICATION, Kd_REQUEST_COMPLETION_REVIEW, Kd_APPROVE_COMPLETION]
      (exec_kinds t)
    \<and> (\<exists>pre cmd u. cmds = pre @ [cmd] \<and> run_all (run_exec sha c) r pre = Inr u \<and> run_exec sha c cmd u = Inr t
        \<and> xr_state u = Ex_COMPLETION_REVIEW \<and> exec_kinds t = exec_kinds u @ [Kd_APPROVE_COMPLETION]
        \<and> may_complete sha c (snd cmd))"
proof -
  have "reachable_exec sha c t"
    by (rule run_all_reachable [OF assms(2)]) (rule exec_start [OF assms(1)])
  then have "subseq (way_to Ex_COMPLETED) (exec_kinds t)" using exec_way assms(3) by metis
  moreover have "xr_state r \<noteq> Ex_COMPLETED"
    using assms(1) by (auto simp: initializeMissionExecution_def split: if_splits)
  then obtain pre cmd u where last: "cmds = pre @ [cmd]" "run_all (run_exec sha c) r pre = Inr u" "run_exec sha c cmd u = Inr t"
    using run_all_completed [OF assms(2,3)] by blast
  ultimately show ?thesis
    using completing_step [OF last(3) assms(3) resume_never_completes [OF last(3) assms(3)]] by auto
qed


section \<open>Terminal states, blocking\<close>

definition exec_request_for :: "exec_record \<Rightarrow> ident \<Rightarrow> string \<Rightarrow> exec_request" where
  "exec_request_for r i k = \<lparr>xq_transitionId = i, xq_expectedRevision = IntNum (xr_revision r), xq_kind = k\<rparr>"

definition fresh_id :: "exec_record \<Rightarrow> ident \<Rightarrow> bool" where
  "fresh_id r i \<longleftrightarrow> \<not> js_blank i \<and> i = js_trim i \<and> i \<notin> xt_id ` set (xr_transitions r)"

lemma run_exec_succeeds:
  assumes "exec_wf sha c r" and "fresh_id r i" and "xr_revision r \<le> 9007199254740991"
    and "check_exec_state r k = None" and "exec_destination r k = Inr s" and "xr_state r \<noteq> s" and "s \<noteq> Ex_COMPLETED"
  shows "run_exec sha c (exec_request_for r i (exec_kind_text k), opts) r = Inr (advance_exec r i k s)"
proof -
  have "safe_revision (IntNum (xr_revision r))"
    using assms(1,3) by (simp add: exec_wf_def safe_revision_def safe_integer_def)
  then have "check_exec_request sha c r (exec_request_for r i (exec_kind_text k)) = None"
    using assms(1,2) by (simp add: check_exec_request_None exec_request_for_def exec_wf_def fresh_id_def)
  then show ?thesis
    using assms(2,4-7) unfolding run_exec_def apply_exec_Inr
    by (auto simp: exec_request_for_def check_exec_completion_def fresh_id_def)
qed

text \<open>A record in a terminal state accepts no request any more; one in any other state
  accepts a cancellation under a fresh identifier, so an execution never gets stuck.\<close>

theorem terminal_or_cancellable:
  assumes "reachable_exec sha c r" and "xr_revision r \<le> 9007199254740991" and "fresh_id r i"
  shows "if xr_state r \<in> set TERMINAL_STATES then \<forall>cmd. \<exists>e. run_exec sha c cmd r = Inl e
    else \<exists>r'. run_exec sha c (exec_request_for r i ''CANCEL'', opts) r = Inr r' \<and> xr_state r' = Ex_CANCELLED"
proof (cases "xr_state r \<in> set TERMINAL_STATES")
  case True
  then have "check_exec_state r k \<noteq> None" for k by (auto simp: check_exec_state_None)
  then have "run_exec sha c cmd r \<noteq> Inr r'" for cmd r' by (auto simp: run_exec_def apply_exec_Inr)
  then show ?thesis using True by (metis Inl_Inr_False old.sum.exhaust)
next
  case False
  then have "check_exec_state r Kd_CANCEL = None" "exec_destination r Kd_CANCEL = Inr Ex_CANCELLED"
    "xr_state r \<noteq> Ex_CANCELLED"
    by (cases "xr_state r"; simp add: check_exec_state_None exec_destination_def TERMINAL_STATES_def ways_out_def)+
  from run_exec_succeeds [OF reachable_exec_wf [OF assms(1)] assms(3,2) this] show ?thesis
    using False by (simp add: advance_exec_def)
qed

text \<open>Blocking an active execution and resuming it leads back to the state it was in, with
  nothing remembered of the blockage but the two entries of the history.\<close>

theorem block_resume_roundtrip:
  assumes "reachable_exec sha c r" and "xr_revision r < 2147483647" and "xr_state r \<in> set RESUABLE_STATES"
    and "fresh_id r i" and "fresh_id r j" and "i \<noteq> j"
  shows "\<exists>b r'. run_exec sha c (exec_request_for r i ''BLOCK'', opts) r = Inr b \<and> xr_state b = Ex_BLOCKED \<and>
    run_exec sha c (exec_request_for b j ''RESUME'', opts') b = Inr r' \<and>
    xr_state r' = xr_state r \<and> xr_blockedFrom r' = None \<and>
    exec_history r' = exec_history r @ [(i, Kd_BLOCK, xr_state r, Ex_BLOCKED), (j, Kd_RESUME, Ex_BLOCKED, xr_state r)]"
proof -
  define b where "b = advance_exec r i Kd_BLOCK Ex_BLOCKED"
  define r' where "r' = advance_exec b j Kd_RESUME (xr_state r)"
  have active: "xr_state r \<noteq> Ex_BLOCKED" "xr_state r \<noteq> Ex_COMPLETED"
    using assms(3) by (auto simp: RESUABLE_STATES_def)
  have b: "xr_state b = Ex_BLOCKED" "xr_blockedFrom b = Some (xr_state r)" "xr_revision b = xr_revision r + 1"
    using assms(3) active(1) by (simp_all add: b_def advance_exec_def)
  have block: "check_exec_state r Kd_BLOCK = None" "exec_destination r Kd_BLOCK = Inr Ex_BLOCKED"
    using assms(3)
    by (auto simp: RESUABLE_STATES_def TERMINAL_STATES_def check_exec_state_None exec_destination_def ways_out_def)
  have wf: "exec_wf sha c r" by (rule reachable_exec_wf [OF assms(1)])
  have one: "run_exec sha c (exec_request_for r i (exec_kind_text Kd_BLOCK), opts) r = Inr b"
    unfolding b_def by (rule run_exec_succeeds [OF wf assms(4) _ block active(1)]) (use assms(2) in simp_all)
  have wfb: "exec_wf sha c b" by (rule exec_wf_advance [OF wf one])
  have fresh: "fresh_id b j"
    using assms(5,6) by (auto simp: b_def fresh_id_def advance_exec_def snapshot_transition_def)
  have resume: "check_exec_state b Kd_RESUME = None" "exec_destination b Kd_RESUME = Inr (xr_state r)"
    using assms(3) by (simp_all add: b check_exec_state_None exec_destination_def TERMINAL_STATES_def)
  have two: "run_exec sha c (exec_request_for b j (exec_kind_text Kd_RESUME), opts') b = Inr r'"
    unfolding r'_def
    by (rule run_exec_succeeds [OF wfb fresh _ resume]) (use assms(2) b active in simp_all)
  have "exec_history r' = exec_history r @ [(i, Kd_BLOCK, xr_state r, Ex_BLOCKED), (j, Kd_RESUME, Ex_BLOCKED, xr_state r)]"
    unfolding r'_def exec_history_advance b(1) by (simp add: b_def exec_history_advance)
  moreover have "xr_state r' = xr_state r" "xr_blockedFrom r' = None" by (simp_all add: r'_def advance_exec_def)
  ultimately show ?thesis
    using one two b(1) unfolding exec_kind_text.simps by blast
qed

section \<open>Stored and written records agree\<close>

text \<open>C28.  Every record the machine reaches, as long as its revision fits 32 bits, is accepted by
  the validation of stored records: the history it wrote replays to the state it recorded.
  (A digest is never the empty string.)\<close>

theorem exec_history_replays:
  assumes "reachable_exec sha c r" and "xr_revision r \<le> 2147483647" and "computeMissionContractDigest sha c \<noteq> []"
  shows "validateMissionExecutionRecord sha c (exec_record_json r) = None"
  by (rule exec_wf_valid [OF reachable_exec_wf [OF assms(1)] assms(2,3)])

text \<open>Requests are serialized by the expected revision: once a command has succeeded, neither
  it nor any other command prepared for the same revision succeeds in any later state, every
  accepted command advances the revision by one and adds one entry to the history.\<close>

theorem exec_requests_once:
  assumes "run_exec sha c cmd r = Inr u" and "run_all (run_exec sha c) u cmds = Inr t"
    and "exec_expected_revision cmd' = exec_expected_revision cmd"
  shows "(\<exists>e. run_exec sha c cmd' t = Inl e) \<and> xr_revision t = xr_revision r + 1 + int (length cmds) \<and>
    (\<exists>hs. exec_history t = exec_history r @ hs \<and> length hs = 1 + length cmds)"
proof -
  have run: "run_all (run_exec sha c) r (cmd # cmds) = Inr t" using assms(1,2) by simp
  have rev: "xr_revision t = xr_revision r + 1 + int (length cmds)"
    using exec_log.run_revision [OF run] by simp
  have "exec_expected_revision cmd' \<noteq> xr_revision t"
    using rev assms(3) exec_log.exec_expected [OF assms(1)] by simp
  then have "\<exists>e. run_exec sha c cmd' t = Inl e" by (rule exec_log.stale_refused)
  with rev exec_log.run_history [OF run] show ?thesis by simp
qed

text \<open>The replay never looks at the destination of a \<open>BLOCK\<close> entry: a stored record that
  jumps from planning to \<open>COMPLETED\<close> (or to any other state) by one \<open>BLOCK\<close> is valid, although
  the machine never writes such an entry.\<close>

theorem forged_block_validates:
  assumes "\<not> js_blank e" "e = js_trim e" and "\<not> js_blank i" "i = js_trim i"
    and "s \<noteq> Ex_PLANNING" and "s \<noteq> Ex_BLOCKED" and "computeMissionContractDigest sha c \<noteq> []"
  defines "r \<equiv> \<lparr>xr_executionVersion = 1, xr_executionId = e, xr_contractDigest = computeMissionContractDigest sha c,
      xr_revision = 1, xr_state = s, xr_blockedFrom = None,
      xr_transitions = [\<lparr>xt_id = i, xt_kind = Kd_BLOCK, xt_from = Ex_PLANNING, xt_to = s, xt_before = 0, xt_after = 1\<rparr>]\<rparr>"
  shows "validateMissionExecutionRecord sha c (exec_record_json r) = None \<and> \<not> reachable_exec sha c r"
proof
  have "check_entries 0 [] None (map exec_transition_json (xr_transitions r)) = None"
    by (rule check_entries_ok) (use assms(3,4) in \<open>simp_all add: r_def\<close>)
  moreover have "validateExecutionRecordStructure (exec_record_json r) = None"
    using assms(1,2,6,7)
    by (auto simp: validateExecutionRecordStructure_def check_simps has_text_def is_trimmed_def is_revision_def
        safe_revision_def safe_integer_def names_one_of_def is_array_def check_blocked_field_def r_def
        object_keys_def exec_record_json_def opt_member_def MISSION_EXECUTION_RECORD_KEYS_def)
  moreover have "check_replayed 0 [] (Ex_PLANNING, None) (hd (xr_transitions r)) = None"
    using assms(5) by (simp add: r_def check_replayed_def check_simps RESUABLE_STATES_def)
  then have "replayExecutionHistory (xr_transitions r) = Inr (s, Some Ex_PLANNING)"
    by (simp add: replayExecutionHistory_def r_def blocked_after_def)
  moreover have "check_replayed_state (exec_record_json r) 1 (s, Some Ex_PLANNING) = None"
    using assms(6) by (simp add: check_replayed_state_def check_simps r_def)
  ultimately show "validateMissionExecutionRecord sha c (exec_record_json r) = None"
    by (simp add: validateMissionExecutionRecord_def check_simps array_items_def comp_def) (simp add: r_def)
next
  show "\<not> reachable_exec sha c r"
  proof
    assume "reachable_exec sha c r"
    then show False
    proof cases
      case (exec_start i)
      then show ?thesis by (simp add: initializeMissionExecution_def r_def split: if_splits)
    next
      case (exec_step r0 cmd)
      then obtain k s' where x: "check_exec_state r0 k = None" "exec_destination r0 k = Inr s'"
        "r = advance_exec r0 (xq_transitionId (fst cmd)) k s'"
        by (auto simp: run_exec_def apply_exec_Inr)
      have "last (xr_transitions r) = \<lparr>xt_id = xq_transitionId (fst cmd), xt_kind = k, xt_from = xr_state r0, xt_to = s',
          xt_before = to_int32 (xr_revision r0), xt_after = to_int32 (xr_revision r0 + 1)\<rparr>"
        by (simp add: x(3) advance_exec_def)
      then have "k = Kd_BLOCK" "s' = s" by (simp_all add: r_def)
      then show ?thesis using exec_destination_Inr [OF x(2,1)] assms(6) by simp
    qed
  qed
qed

lemma check_entries_structure:
  assumes "v \<in> set vs" and "\<And>i. validateTransitionStructure v i \<noteq> None"
  shows "check_entries i seen prev vs \<noteq> None"
  using assms(1)
proof (induction vs arbitrary: i seen prev)
  case (Cons w vs)
  have "validateTransitionStructure w i = None" if "check_entry i seen prev w = None"
    using that by (simp add: check_entry_def check_simps Let_def)
  then show ?case using Cons assms(2) [of i] by (auto split: option.splits)
qed simp

text \<open>The revisions of the history are stored through \<open>| 0\<close>, the revision of the record is not.
  A transition accepted at revision \<open>2^31 - 1\<close> therefore produces a record that the validation
  refuses from then on.\<close>

theorem revision_wraps:
  assumes "run_exec sha c cmd r = Inr r'" and "xr_revision r = 2147483647"
  shows "validateMissionExecutionRecord sha c (exec_record_json r') \<noteq> None"
proof -
  obtain i k s where r': "r' = advance_exec r i k s" using assms(1) by (auto simp: run_exec_def apply_exec_Inr)
  let ?t = "\<lparr>xt_id = i, xt_kind = k, xt_from = xr_state r, xt_to = s, xt_before = 2147483647, xt_after = - 2147483648\<rparr>"
  have "to_int32 2147483647 = 2147483647" "to_int32 2147483648 = - 2147483648" by (simp_all add: to_int32_def)
  then have "?t \<in> set (xr_transitions r')" using assms(2) by (simp add: r' advance_exec_def)
  then have "exec_transition_json ?t \<in> set (map exec_transition_json (xr_transitions r'))" by simp
  moreover have "validateTransitionStructure (exec_transition_json ?t) i \<noteq> None" for i
    by (simp add: validateTransitionStructure_def check_simps exec_transition_json_def is_revision_def safe_revision_def)
  ultimately have "check_entries 0 [] None (map exec_transition_json (xr_transitions r')) \<noteq> None"
    by (rule check_entries_structure)
  note bad = this
  show ?thesis
  proof
    assume "validateMissionExecutionRecord sha c (exec_record_json r') = None"
    then have "check_entries 0 [] None (map exec_transition_json (xr_transitions r')) = None"
      by (simp add: validateMissionExecutionRecord_def check_simps array_items_def Let_def)
    with bad show False by contradiction
  qed
qed

section \<open>A concrete execution\<close>

text \<open>The digest function is instantiated with a constant, the validation context holds the
  completion operator.\<close>

definition exec_sha :: "string \<Rightarrow> string" where
  "exec_sha s = ''digest''"

lemma exec_digest [simp]: "computeMissionContractDigest exec_sha c = ''digest''"
  by (simp add: computeMissionContractDigest_def exec_sha_def)

definition completion_registry :: trust_registry where
  "completion_registry =
     \<lparr>vr_principals = [(principal_key ''completion-operator'' ''operator'', ''operator'', [''execution:complete''])],
      vr_grants = [], vr_digest = ''digest''\<rparr>"

definition no_options :: exec_options where
  "no_options = \<lparr>xo_context = None, xo_readiness = None\<rparr>"

definition completing :: exec_options where
  "completing = \<lparr>xo_context = Some (Genuine completion_registry), xo_readiness = Some demo_readiness\<rparr>"

definition exec_cmd :: "ident \<Rightarrow> int \<Rightarrow> string \<Rightarrow> exec_options \<Rightarrow> exec_command" where
  "exec_cmd i n k opts = (\<lparr>xq_transitionId = i, xq_expectedRevision = IntNum n, xq_kind = k\<rparr>, opts)"

definition exec_record0 :: exec_record where
  "exec_record0 = \<lparr>xr_executionVersion = 1, xr_executionId = ''x'', xr_contractDigest = ''digest'', xr_revision = 0,
     xr_state = Ex_PLANNING, xr_blockedFrom = None, xr_transitions = []\<rparr>"

definition exec_commands :: "exec_command list" where
  "exec_commands =
     [exec_cmd ''t1'' 0 ''START_EXECUTION'' no_options, exec_cmd ''t2'' 1 ''REQUEST_VERIFICATION'' no_options,
      exec_cmd ''t3'' 2 ''REQUEST_COMPLETION_REVIEW'' no_options, exec_cmd ''t4'' 3 ''APPROVE_COMPLETION'' completing]"

definition exec_record1 :: exec_record where
  "exec_record1 = advance_exec exec_record0 ''t1'' Kd_START_EXECUTION Ex_EXECUTION"

definition exec_record2 :: exec_record where
  "exec_record2 = advance_exec exec_record1 ''t2'' Kd_REQUEST_VERIFICATION Ex_VERIFICATION"

definition exec_record3 :: exec_record where
  "exec_record3 = advance_exec exec_record2 ''t3'' Kd_REQUEST_COMPLETION_REVIEW Ex_COMPLETION_REVIEW"

definition exec_record4 :: exec_record where
  "exec_record4 = advance_exec exec_record3 ''t4'' Kd_APPROVE_COMPLETION Ex_COMPLETED"

lemma exec_start0: "initializeMissionExecution exec_sha c ''x'' = Some exec_record0"
proof -
  have "\<not> js_blank ''x''" "js_trim ''x'' = ''x''" by code_simp+
  then show ?thesis by (simp add: initializeMissionExecution_def exec_record0_def)
qed

lemma exec_advances:
  assumes "xr_contractDigest r = ''digest''" and "map_of VALID_KINDS txt = Some k" and "xr_revision r = n"
    and "\<not> js_blank i" "js_trim i = i" and "safe_revision (IntNum n)"
    and "check_exec_state r k = None" and "exec_destination r k = Inr s" and "xr_state r \<noteq> s"
    and "check_exec_completion ''digest'' opts s = None" and "i \<notin> set (map xt_id (xr_transitions r))"
  shows "run_exec exec_sha c (exec_cmd i n txt opts) r = Inr (advance_exec r i k s)"
  using assms by (auto simp: run_exec_def apply_exec_Inr exec_cmd_def check_exec_request_None)

lemma exec_steps:
  "run_exec exec_sha c (exec_cmd ''t1'' 0 ''START_EXECUTION'' no_options) exec_record0 = Inr exec_record1"
  "run_exec exec_sha c (exec_cmd ''t2'' 1 ''REQUEST_VERIFICATION'' no_options) exec_record1 = Inr exec_record2"
  "run_exec exec_sha c (exec_cmd ''t3'' 2 ''REQUEST_COMPLETION_REVIEW'' no_options) exec_record2 = Inr exec_record3"
  "run_exec exec_sha c (exec_cmd ''t4'' 3 ''APPROVE_COMPLETION'' completing) exec_record3 = Inr exec_record4"
  unfolding exec_record1_def exec_record2_def exec_record3_def exec_record4_def
  by (rule exec_advances; code_simp)+

lemma exec_reachable:
  "reachable_exec exec_sha c exec_record0" "reachable_exec exec_sha c exec_record1" "reachable_exec exec_sha c exec_record2"
  "reachable_exec exec_sha c exec_record3" "reachable_exec exec_sha c exec_record4"
proof -
  show r0: "reachable_exec exec_sha c exec_record0" by (rule exec_start [OF exec_start0])
  show r1: "reachable_exec exec_sha c exec_record1" by (rule exec_step [OF r0 exec_steps(1)])
  show r2: "reachable_exec exec_sha c exec_record2" by (rule exec_step [OF r1 exec_steps(2)])
  show r3: "reachable_exec exec_sha c exec_record3" by (rule exec_step [OF r2 exec_steps(3)])
  show "reachable_exec exec_sha c exec_record4" by (rule exec_step [OF r3 exec_steps(4)])
qed

theorem completion_authorized_witness:
  "\<exists>pre cmd u. exec_commands = pre @ [cmd] \<and> run_all (run_exec exec_sha demo_contract) exec_record0 pre = Inr u
    \<and> run_exec exec_sha demo_contract cmd u = Inr exec_record4 \<and> xr_state u = Ex_COMPLETION_REVIEW
    \<and> exec_kinds exec_record4 = exec_kinds u @ [Kd_APPROVE_COMPLETION] \<and> may_complete exec_sha demo_contract (snd cmd)"
proof -
  have "run_all (run_exec exec_sha demo_contract) exec_record0 exec_commands = Inr exec_record4"
    by (simp add: exec_commands_def exec_steps)
  moreover have "xr_state exec_record4 = Ex_COMPLETED" by code_simp
  ultimately show ?thesis using completion_authorized [OF exec_start0] by blast
qed

theorem terminal_or_cancellable_witness:
  "\<exists>r'. run_exec exec_sha demo_contract (exec_request_for exec_record1 ''c'' ''CANCEL'', no_options) exec_record1 = Inr r' \<and>
     xr_state r' = Ex_CANCELLED"
proof -
  have "xr_revision exec_record1 \<le> 9007199254740991" "fresh_id exec_record1 ''c''"
    "xr_state exec_record1 \<notin> set TERMINAL_STATES" by code_simp+
  from terminal_or_cancellable [OF exec_reachable(2) this(1,2), of demo_contract no_options] this(3)
  show ?thesis by simp
qed

theorem block_resume_roundtrip_witness:
  "\<exists>b r'. run_exec exec_sha demo_contract (exec_request_for exec_record1 ''b'' ''BLOCK'', no_options) exec_record1 = Inr b \<and>
    xr_state b = Ex_BLOCKED \<and>
    run_exec exec_sha demo_contract (exec_request_for b ''u'' ''RESUME'', no_options) b = Inr r' \<and>
    xr_state r' = xr_state exec_record1 \<and> xr_blockedFrom r' = None \<and>
    exec_history r' = exec_history exec_record1
      @ [(''b'', Kd_BLOCK, xr_state exec_record1, Ex_BLOCKED), (''u'', Kd_RESUME, Ex_BLOCKED, xr_state exec_record1)]"
  by (rule block_resume_roundtrip [OF exec_reachable(2)]; code_simp)

theorem exec_history_replays_witness:
  "validateMissionExecutionRecord exec_sha demo_contract (exec_record_json exec_record4) = None"
proof (rule exec_history_replays [OF exec_reachable(5)])
  show "xr_revision exec_record4 \<le> 2147483647" by code_simp
qed simp

theorem exec_requests_once_witness:
  "(\<exists>e. run_exec exec_sha demo_contract (exec_cmd ''again'' 0 ''CANCEL'' no_options) exec_record2 = Inl e) \<and>
    xr_revision exec_record2 = xr_revision exec_record0 + 1 + int (length [exec_cmd ''t2'' 1 ''REQUEST_VERIFICATION'' no_options]) \<and>
    (\<exists>hs. exec_history exec_record2 = exec_history exec_record0 @ hs \<and>
       length hs = 1 + length [exec_cmd ''t2'' 1 ''REQUEST_VERIFICATION'' no_options])"
proof (rule exec_requests_once [OF exec_steps(1)])
  show "run_all (run_exec exec_sha demo_contract) exec_record1 [exec_cmd ''t2'' 1 ''REQUEST_VERIFICATION'' no_options] = Inr exec_record2"
    by (simp add: exec_steps)
qed (simp add: exec_expected_revision_def exec_cmd_def)

theorem forged_block_validates_witness:
  "validateMissionExecutionRecord exec_sha demo_contract (exec_record_json
     \<lparr>xr_executionVersion = 1, xr_executionId = ''x'', xr_contractDigest = computeMissionContractDigest exec_sha demo_contract,
      xr_revision = 1, xr_state = Ex_COMPLETED, xr_blockedFrom = None,
      xr_transitions = [\<lparr>xt_id = ''t'', xt_kind = Kd_BLOCK, xt_from = Ex_PLANNING, xt_to = Ex_COMPLETED,
        xt_before = 0, xt_after = 1\<rparr>]\<rparr>) = None"
proof -
  have "\<not> js_blank ''x''" "''x'' = js_trim ''x''" "\<not> js_blank ''t''" "''t'' = js_trim ''t''" by code_simp+
  from forged_block_validates [OF this, of Ex_COMPLETED exec_sha demo_contract] show ?thesis by simp
qed

theorem revision_wraps_witness:
  "validateMissionExecutionRecord exec_sha demo_contract (exec_record_json
     (advance_exec (exec_record0\<lparr>xr_revision := 2147483647\<rparr>) ''t'' Kd_CANCEL Ex_CANCELLED)) \<noteq> None"
proof (rule revision_wraps)
  show "run_exec exec_sha demo_contract (exec_cmd ''t'' 2147483647 ''CANCEL'' no_options)
      (exec_record0\<lparr>xr_revision := 2147483647\<rparr>)
    = Inr (advance_exec (exec_record0\<lparr>xr_revision := 2147483647\<rparr>) ''t'' Kd_CANCEL Ex_CANCELLED)"
    by (rule exec_advances; code_simp)
qed simp

end
