(* ===== verification/Json_Injective.thy ===== *)
theory Json_Injective
  imports Json_Values
begin

text \<open>
  Canonical JSON can be read back: two values with the same canonical text are the same value
  up to the order of object members.  The proof never builds a parser; it shows, construct by
  construct, that a text determines both the value it starts with and the rest.
\<close>

section \<open>The form the serializer preserves\<close>

fun canon :: "json \<Rightarrow> json" where
  "canon (JArr xs) = JArr (map canon xs)"
| "canon (JObj ms) = JObj (sort_key fst (map (\<lambda>m. (fst m, canon (snd m))) ms))"
| "canon v = v"

text \<open>The text of a non-integer number consists of number characters and is no integer's.\<close>

definition number_char :: "char \<Rightarrow> bool" where
  "number_char c \<longleftrightarrow> c \<in> set ''0123456789-+.e''"

fun readable :: "json \<Rightarrow> bool" where
  "readable (JNum (FracNum s)) \<longleftrightarrow> s \<noteq> [] \<and> list_all number_char s \<and> (\<forall>n. s \<noteq> int_text n)"
| "readable (JArr xs) \<longleftrightarrow> (\<forall>x \<in> set xs. readable x)"
| "readable (JObj ms) \<longleftrightarrow> (\<forall>m \<in> set ms. readable (snd m))"
| "readable _ \<longleftrightarrow> True"

text \<open>What may follow a value: the end, a comma or a closing bracket.\<close>

definition delimited :: "string \<Rightarrow> bool" where
  "delimited x \<longleftrightarrow> x = [] \<or> hd x \<in> set '',]}''"

lemma delimited_simps [simp]: "delimited []" "delimited (c # x) \<longleftrightarrow> c \<in> set '',]}''"
  by (simp_all add: delimited_def)

section \<open>Numbers\<close>

lemma digit_number_char: "n < 10 \<Longrightarrow> number_char (digit_char n)"
proof -
  have "list_all (\<lambda>n. number_char (digit_char n)) [0..<10]" by code_simp
  then show "n < 10 \<Longrightarrow> number_char (digit_char n)" by (simp add: list_all_iff)
qed

lemma digit_value: "n < 10 \<Longrightarrow> of_char (digit_char n) = 48 + n"
  by (simp add: digit_char_def)

definition digits_value :: "string \<Rightarrow> nat" where
  "digits_value s = foldl (\<lambda>a c. 10 * a + (of_char c - 48)) 0 s"

lemma digits_value_nat_text [simp]: "digits_value (nat_text n) = n"
proof (induction n rule: nat_text.induct)
  case (1 n)
  show ?case
  proof (cases "n < 10")
    case True
    then show ?thesis by (simp add: nat_text.simps [of n] digits_value_def digit_value)
  next
    case False
    then have "digits_value (nat_text n) = 10 * digits_value (nat_text (n div 10)) + n mod 10"
      by (simp add: nat_text.simps [of n] digits_value_def digit_value)
    then show ?thesis using 1 False by simp
  qed
qed

lemma nat_text_chars: "list_all number_char (nat_text n)"
proof (induction n rule: nat_text.induct)
  case (1 n)
  then show ?case by (cases "n < 10") (simp_all add: nat_text.simps [of n] digit_number_char)
qed

lemma nat_text_not_minus: "nat_text n \<noteq> [] \<and> hd (nat_text n) \<noteq> CHR ''-''"
proof (induction n rule: nat_text.induct)
  case (1 n)
  have "list_all (\<lambda>k. digit_char k \<noteq> CHR ''-'') [0..<10]" by code_simp
  then have "digit_char k \<noteq> CHR ''-''" if "k < 10" for k using that by (simp add: list_all_iff)
  then show ?case using 1 by (cases "n < 10") (simp_all add: nat_text.simps [of n])
qed

lemma int_text_inj [simp]: "int_text n = int_text m \<longleftrightarrow> n = m"
proof
  assume eq: "int_text n = int_text m"
  have sign: "hd (int_text k) = CHR ''-'' \<longleftrightarrow> k < 0" for k
    using nat_text_not_minus [of "nat k"] by (simp add: int_text_def)
  then have "n < 0 \<longleftrightarrow> m < 0" using eq by metis
  then have "nat_text (nat \<bar>n\<bar>) = nat_text (nat \<bar>m\<bar>)"
    using eq by (simp add: int_text_def split: if_splits)
  then have "nat \<bar>n\<bar> = nat \<bar>m\<bar>" by (metis digits_value_nat_text)
  then show "n = m" using \<open>n < 0 \<longleftrightarrow> m < 0\<close> by linarith
qed simp

lemma int_text_chars: "list_all number_char (int_text n)" "int_text n \<noteq> []"
  using nat_text_chars nat_text_not_minus by (auto simp: int_text_def number_char_def)

lemma number_prefix_unique:
  assumes "s @ x = t @ y" and "list_all number_char s" "list_all number_char t" and "delimited x" "delimited y"
  shows "s = t \<and> x = y"
proof -
  have take: "takeWhile number_char (s @ x) = s" if "list_all number_char s" "delimited x" for s x
    using that by (cases x) (auto simp: takeWhile_append2 list_all_iff number_char_def)
  have "s = t" using take [OF assms(2,4)] take [OF assms(3,5)] assms(1) by simp
  then show ?thesis using assms(1) by simp
qed

section \<open>Strings\<close>

definition hex_value :: "char \<Rightarrow> nat" where
  "hex_value c = (if of_char c < (58 :: nat) then of_char c - 48 else of_char c - 87)"

lemma hex_value_char: "n < 16 \<Longrightarrow> hex_value (hex_char n) = n"
  by (simp add: hex_value_def hex_char_def)

text \<open>Reading one escaped character, by character codes.\<close>

definition short_escape :: "nat \<Rightarrow> nat" where
  "short_escape m =
     (if m = 98 then 8 else if m = 116 then 9 else if m = 110 then 10 else if m = 102 then 12
      else if m = 114 then 13 else m)"

fun unescape :: "string \<Rightarrow> char \<times> string" where
  "unescape (c # s) =
     (if of_char c \<noteq> (92 :: nat) then (c, s)
      else case s of
        e # s' \<Rightarrow>
          (if of_char e \<noteq> (117 :: nat) then (char_of (short_escape (of_char e)), s')
           else case s' of
             p # q # h # k # s'' \<Rightarrow> (char_of (16 * hex_value h + hex_value k), s'')
           | _ \<Rightarrow> (c, []))
      | [] \<Rightarrow> (c, []))"
| "unescape [] = (CHR '' '', [])"

lemma letter_codes:
  "of_char CHR ''b'' = (98 :: nat)" "of_char CHR ''t'' = (116 :: nat)" "of_char CHR ''n'' = (110 :: nat)"
  "of_char CHR ''f'' = (102 :: nat)" "of_char CHR ''r'' = (114 :: nat)" "of_char CHR ''u'' = (117 :: nat)"
  by simp_all

lemma escape_cases:
  obtains "escape_char c = [c]" "of_char c \<noteq> (34 :: nat)" "of_char c \<noteq> (92 :: nat)"
  | e where "escape_char c = [char_of (92 :: nat), e]" "of_char e \<noteq> (117 :: nat)" "char_of (short_escape (of_char e)) = c"
  | p q h k where "escape_char c = [char_of (92 :: nat), CHR ''u'', p, q, h, k]"
      "char_of (16 * hex_value h + hex_value k) = c"
proof -
  define n :: nat where "n = of_char c"
  have c: "char_of n = c" by (simp add: n_def)
  note def = escape_char_def [of c, unfolded Let_def, folded n_def]
  consider "n = 34 \<or> n = 92" | "n = 8" | "n = 9" | "n = 10" | "n = 12" | "n = 13"
    | "n < 32" "n \<notin> {8, 9, 10, 12, 13}" | "n \<ge> 32" "n \<noteq> 34" "n \<noteq> 92" by fastforce
  then show thesis
  proof cases
    case 1
    then show thesis
      using c by (intro that(2) [of c]) (auto simp: def short_escape_def simp flip: n_def)
  next
    case 7
    then have "escape_char c = [char_of (92 :: nat), CHR ''u'', CHR ''0'', CHR ''0'', hex_char (n div 16), hex_char (n mod 16)]"
      by (simp add: def)
    moreover have "hex_value (hex_char (n div 16)) = n div 16" "hex_value (hex_char (n mod 16)) = n mod 16"
      using 7 by (simp_all add: hex_value_char)
    then have "16 * hex_value (hex_char (n div 16)) + hex_value (hex_char (n mod 16)) = n"
      by (simp only: mult_div_mod_eq)
    ultimately show thesis using c that(3) by metis
  next
    case 8
    then show thesis by (intro that(1)) (simp_all add: def flip: n_def)
  qed (use c in \<open>intro that(2), simp add: def, simp add: letter_codes, simp add: letter_codes short_escape_def\<close>)+
qed

lemma unescape_escape: "unescape (escape_char c @ x) = (c, x)"
  by (rule escape_cases [of c]) (auto simp: letter_codes)

lemma escape_unique: "escape_char c @ x = escape_char d @ y \<Longrightarrow> c = d \<and> x = y"
  by (metis unescape_escape prod.inject)

lemma escape_head: "escape_char c \<noteq> [] \<and> hd (escape_char c) \<noteq> char_of (34 :: nat)"
proof -
  have "char_of (34 :: nat) \<noteq> (char_of (92 :: nat) :: char)"
    by (simp add: char_of_eq_iff)
  then show ?thesis by (rule_tac escape_cases [of c]) auto
qed

lemma string_prefix_unique:
  assumes "serializeString s @ x = serializeString t @ y"
  shows "s = t \<and> x = y"
proof -
  define q where "q = char_of (34 :: nat)"
  have head: "escape_char c \<noteq> []" "hd (escape_char c) \<noteq> q" for c
    using escape_head by (auto simp: q_def)
  have "concat (map escape_char s) @ q # x = concat (map escape_char t) @ q # y \<Longrightarrow> s = t \<and> x = y"
  proof (induction s arbitrary: t)
    case Nil
    then show ?case using head by (cases t; cases "escape_char (hd t)") (simp_all, metis list.sel(1))
  next
    case (Cons c s)
    show ?case
    proof (cases t)
      case Nil
      then show ?thesis using Cons.prems head [of c] by (cases "escape_char c") simp_all
    next
      case (Cons d t')
      then show ?thesis using Cons.IH [of t'] Cons.prems escape_unique [of c _ d] by simp
    qed
  qed
  then show ?thesis using assms by (simp add: serializeString_def q_def)
qed

section \<open>Values\<close>

definition value_text :: "json \<Rightarrow> string" where
  "value_text v = the (serializeValue v)"

lemma value_text_eq: "serializable v \<Longrightarrow> serializeValue v = Some (value_text v)"
  using serialize_defined(1) [of v] by (auto simp: value_text_def)

lemma items_text:
  "\<forall>x \<in> set xs. serializable x \<Longrightarrow> serializeItems xs = Some (map value_text xs)"
  by (induction xs) (simp_all add: value_text_eq)

lemma members_text:
  "\<forall>m \<in> set ms. serializable (snd m) \<Longrightarrow> serializeMembers ms = Some (map (\<lambda>m. (fst m, value_text (snd m))) ms)"
proof (induction ms)
  case (Cons m ms)
  then show ?case by (cases m) (simp add: value_text_eq)
qed simp

lemma insort_key_map: "insort_key fst (g x) (map g xs) = map g (insort_key (\<lambda>a. fst (g a)) x xs)"
  by (induction xs) simp_all

lemma sort_key_map: "sort_key fst (map g xs) = map g (sort_key (\<lambda>a. fst (g a)) xs)"
proof (induction xs)
  case (Cons a xs)
  then show ?case by (simp add: insort_key_map)
qed simp

definition member_text :: "string \<times> json \<Rightarrow> string" where
  "member_text m = serializeString (fst m) @ '':'' @ value_text (snd m)"

lemma value_text_simps:
  "value_text JNull = ''null''" "value_text (JBool b) = (if b then ''true'' else ''false'')"
  "value_text (JStr s) = serializeString s"
  "\<forall>x \<in> set xs. serializable x \<Longrightarrow> value_text (JArr xs) = ''['' @ join_comma (map value_text xs) @ '']''"
  "\<forall>m \<in> set ms. serializable (snd m) \<Longrightarrow>
     value_text (JObj ms) = ''{'' @ join_comma (map member_text (sort_key fst ms)) @ ''}''"
proof -
  assume "\<forall>m \<in> set ms. serializable (snd m)"
  then have "value_text (JObj ms) = ''{'' @ join_comma (map (\<lambda>(k, t). serializeString k @ '':'' @ t)
      (map (\<lambda>m. (fst m, value_text (snd m))) (sort_key fst ms))) @ ''}''"
    by (simp add: value_text_def [of "JObj ms"] members_text sort_key_map)
  moreover have "member_text = (\<lambda>(k, t). serializeString k @ '':'' @ t) \<circ> (\<lambda>m. (fst m, value_text (snd m)))"
    by (simp add: fun_eq_iff member_text_def)
  ultimately show "value_text (JObj ms) = ''{'' @ join_comma (map member_text (sort_key fst ms)) @ ''}''"
    by (simp add: map_map)
qed (simp_all add: value_text_def items_text)

lemma canon_object: "canon (JObj ms) = JObj (map (\<lambda>m. (fst m, canon (snd m))) (sort_key fst ms))"
  by (simp add: sort_key_map comp_def)

text \<open>The first character tells the constructor.\<close>

fun head_class :: "json \<Rightarrow> char \<Rightarrow> bool" where
  "head_class JNull c \<longleftrightarrow> c = CHR ''n''"
| "head_class (JBool b) c \<longleftrightarrow> c = (if b then CHR ''t'' else CHR ''f'')"
| "head_class (JNum _) c \<longleftrightarrow> number_char c"
| "head_class (JStr _) c \<longleftrightarrow> c = char_of (34 :: nat)"
| "head_class (JArr _) c \<longleftrightarrow> c = CHR ''[''"
| "head_class (JObj _) c \<longleftrightarrow> c = CHR ''{''"
| "head_class JUndefined c \<longleftrightarrow> False"

lemma number_text:
  assumes "serializable (JNum n)" and "readable (JNum n)"
  shows "list_all number_char (value_text (JNum n)) \<and> value_text (JNum n) \<noteq> []"
  using assms by (cases n) (simp_all add: value_text_def int_text_chars)

lemma value_head:
  assumes "serializable v" and "readable v"
  shows "value_text v \<noteq> [] \<and> head_class v (hd (value_text v))"
proof (cases v)
  case (JNum n)
  then show ?thesis
    using number_text [of n] assms by (cases "value_text v") auto
qed (use assms in \<open>auto simp: value_text_simps serializeString_def\<close>)

lemma quote_char: "char_of (34 :: nat) = CHR 0x22"
  by (simp add: char_of_eq_iff)

lemma head_class_disjoint:
  assumes "head_class v c" and "head_class w c"
  shows "case v of JNum _ \<Rightarrow> \<exists>n. w = JNum n | JStr _ \<Rightarrow> \<exists>s. w = JStr s | JArr _ \<Rightarrow> \<exists>xs. w = JArr xs
    | JObj _ \<Rightarrow> \<exists>ms. w = JObj ms | _ \<Rightarrow> w = v"
  using assms by (cases v; cases w) (auto simp: number_char_def quote_char split: if_splits)

lemma head_class_delimiter: "head_class v c \<Longrightarrow> c \<notin> set '',]}''"
  by (cases v) (auto simp: number_char_def quote_char)

lemma value_head_plain:
  "serializable v \<Longrightarrow> readable v \<Longrightarrow> value_text v \<noteq> [] \<and> hd (value_text v) \<notin> set '',]}''"
  using value_head head_class_delimiter by metis

text \<open>A joined list of texts, each of which determines its element, determines the list.\<close>

lemma join_comma_Cons:
  "join_comma (t # ts) @ r = t @ (if ts = [] then r else CHR '','' # join_comma ts @ r)"
  by (cases ts) simp_all

lemma joined_unique:
  assumes "\<And>a b x y. a \<in> set xs \<Longrightarrow> b \<in> set ys \<Longrightarrow> delimited x \<Longrightarrow> delimited y \<Longrightarrow>
      tx a @ x = tx b @ y \<Longrightarrow> proj a = proj b \<and> x = y"
    and "\<And>a. a \<in> set xs \<union> set ys \<Longrightarrow> tx a \<noteq> [] \<and> hd (tx a) \<notin> set '',]}''"
    and "z = CHR '']'' \<or> z = CHR ''}''"
    and "join_comma (map tx xs) @ z # x = join_comma (map tx ys) @ z # y"
  shows "map proj xs = map proj ys \<and> x = y"
  using assms
proof (induction xs arbitrary: ys)
  case Nil
  show ?case
  proof (cases ys)
    case (Cons b bs)
    then have "hd (tx b) = z" using Nil.prems(2) [of b] Nil.prems(4)
      by (cases "tx b") (auto simp: join_comma_Cons)
    then show ?thesis using Nil.prems(2) [of b] Nil.prems(3) Cons by auto
  qed (use Nil in simp)
next
  case (Cons a cs)
  note eq = Cons.prems(4)
  show ?case
  proof (cases ys)
    case Nil
    then have "hd (tx a) = z" using Cons.prems(2) [of a] eq by (cases "tx a") (auto simp: join_comma_Cons)
    then show ?thesis using Cons.prems(2) [of a] Cons.prems(3) by auto
  next
    case Cons2: (Cons b bs)
    define u where "u = (if cs = [] then z # x else CHR '','' # join_comma (map tx cs) @ z # x)"
    define v where "v = (if bs = [] then z # y else CHR '','' # join_comma (map tx bs) @ z # y)"
    have "tx a @ u = tx b @ v" using eq Cons2 by (simp only: u_def v_def join_comma_Cons list.map map_is_Nil_conv)
    moreover have "delimited u" "delimited v" using Cons.prems(3) by (auto simp: u_def v_def)
    ultimately have ab: "proj a = proj b" "u = v" using Cons.prems(1) [of a b u v] Cons2 by auto
    have "map proj cs = map proj bs \<and> x = y"
    proof (cases "cs = [] \<or> bs = []")
      case True
      then show ?thesis using ab(2) Cons.prems(3) by (auto simp: u_def v_def split: if_splits)
    next
      case False
      then show ?thesis
        using ab(2) Cons2 Cons.prems by (intro Cons.IH) (auto simp: u_def v_def)
    qed
    with ab Cons2 show ?thesis by simp
  qed
qed

lemma member_prefix_unique:
  assumes "member_text a @ x = member_text b @ y"
  shows "fst a = fst b \<and> value_text (snd a) @ x = value_text (snd b) @ y"
proof -
  have "fst a = fst b \<and> '':'' @ value_text (snd a) @ x = '':'' @ value_text (snd b) @ y"
    by (rule string_prefix_unique) (use assms in \<open>simp add: member_text_def\<close>)
  then show ?thesis by simp
qed

lemma same_constructor:
  assumes "serializable v" "readable v" and "serializable w" "readable w"
    and "value_text v @ x = value_text w @ y"
  shows "case v of JNum _ \<Rightarrow> \<exists>n. w = JNum n | JStr _ \<Rightarrow> \<exists>s. w = JStr s | JArr _ \<Rightarrow> \<exists>xs. w = JArr xs
    | JObj _ \<Rightarrow> \<exists>ms. w = JObj ms | _ \<Rightarrow> w = v"
proof -
  note v = value_head [OF assms(1,2)]
  note w = value_head [OF assms(3,4)]
  have "hd (value_text v) = hd (value_text w)" using v w assms(5) hd_append2 by metis
  then show ?thesis using head_class_disjoint [of v "hd (value_text v)" w] v w by simp
qed

lemma number_text_inj:
  assumes "serializable (JNum n)" "readable (JNum n)" "serializable (JNum m)" "readable (JNum m)"
    and "value_text (JNum n) = value_text (JNum m)"
  shows "n = m"
proof -
  have vt: "value_text (JNum (IntNum k)) = int_text k" "value_text (JNum (FracNum s)) = s" for k s
    by (simp_all add: value_text_def)
  show ?thesis using assms by (cases n; cases m) (simp_all only: vt, auto)
qed

lemma value_prefix_unique:
  assumes "serializable v" "readable v" and "serializable w" "readable w"
    and "delimited x" "delimited y" and "value_text v @ x = value_text w @ y"
  shows "canon v = canon w \<and> x = y"
  using assms
proof (induction v arbitrary: w x y)
  case (JArr xs)
  obtain ys where w: "w = JArr ys" using same_constructor [OF JArr.prems(1-4,7)] by auto
  have "map canon xs = map canon ys \<and> x = y"
  proof (rule joined_unique [where tx = value_text and z = "CHR '']''"])
    show "canon a = canon b \<and> x' = y'"
      if "a \<in> set xs" "b \<in> set ys" "delimited x'" "delimited y'" "value_text a @ x' = value_text b @ y'" for a b x' y'
      using JArr.IH [of a b x' y'] that JArr.prems w by simp
    show "value_text a \<noteq> [] \<and> hd (value_text a) \<notin> set '',]}''" if "a \<in> set xs \<union> set ys" for a
      by (rule value_head_plain) (use that JArr.prems w in auto)
    show "join_comma (map value_text xs) @ CHR '']'' # x = join_comma (map value_text ys) @ CHR '']'' # y"
      using JArr.prems(1,3,7) w by (simp add: value_text_simps)
  qed simp
  then show ?case by (simp add: w)
next
  case (JObj ms)
  obtain ns where w: "w = JObj ns" using same_constructor [OF JObj.prems(1-4,7)] by auto
  have "map (\<lambda>m. (fst m, canon (snd m))) (sort_key fst ms) = map (\<lambda>m. (fst m, canon (snd m))) (sort_key fst ns) \<and> x = y"
  proof (rule joined_unique [where tx = member_text and z = "CHR ''}''"])
    show "(fst a, canon (snd a)) = (fst b, canon (snd b)) \<and> x' = y'"
      if a: "a \<in> set (sort_key fst ms)" "b \<in> set (sort_key fst ns)" and d: "delimited x'" "delimited y'"
        and eq: "member_text a @ x' = member_text b @ y'" for a b x' y'
    proof -
      note split = member_prefix_unique [OF eq]
      have "a \<in> set ms" "b \<in> set ns" using a by simp_all
      then have "canon (snd a) = canon (snd b) \<and> x' = y'"
        using JObj.prems(1-4) unfolding w
        by (intro JObj.IH [OF _ snds.intros _ _ _ _ d conjunct2 [OF split]]) simp_all
      then show ?thesis using conjunct1 [OF split] by simp
    qed
    show "member_text a \<noteq> [] \<and> hd (member_text a) \<notin> set '',]}''" for a
      by (simp add: member_text_def serializeString_def quote_char)
    show "join_comma (map member_text (sort_key fst ms)) @ CHR ''}'' # x = join_comma (map member_text (sort_key fst ns)) @ CHR ''}'' # y"
      using JObj.prems(1,3,7) w by (simp add: value_text_simps)
  qed simp
  then show ?case by (simp only: w canon_object)
next
  case (JNum n)
  obtain m where w: "w = JNum m" using same_constructor [OF JNum.prems(1-4,7)] by auto
  have "value_text (JNum n) = value_text (JNum m) \<and> x = y"
    using JNum.prems(7) number_text [OF JNum.prems(1,2)] number_text [OF JNum.prems(3,4) [unfolded w]]
      JNum.prems(5,6) unfolding w by (intro number_prefix_unique) simp_all
  then show ?case
    using JNum.prems(1-4) number_text_inj [of n m] unfolding w by simp
next
  case (JStr s)
  obtain t where w: "w = JStr t" using same_constructor [OF JStr.prems(1-4,7)] by auto
  have "s = t \<and> x = y"
    by (rule string_prefix_unique) (use JStr.prems(7) in \<open>simp add: w value_text_simps\<close>)
  then show ?case by (simp add: w)
next
  case (JBool b)
  have w: "w = JBool b" using same_constructor [OF JBool.prems(1-4,7)] by simp
  then show ?case using JBool.prems by simp
next
  case JNull
  have w: "w = JNull" using same_constructor [OF JNull.prems(1-4,7)] by simp
  then show ?case using JNull.prems by simp
qed simp

section \<open>The normal form serializes to the same text\<close>

lemma sort_map_snd:
  "sort_key fst (map (\<lambda>m. (fst m, f (snd m))) ms) = map (\<lambda>m. (fst m, f (snd m))) (sort_key fst ms)"
  by (simp add: sort_key_map)

lemma serializable_canon [simp]: "serializable (canon v) \<longleftrightarrow> serializable v"
  by (induction v) (simp_all, auto)

lemma value_text_canon: "serializable v \<Longrightarrow> value_text (canon v) = value_text v"
proof (induction v)
  case (JArr xs)
  then have "map (value_text \<circ> canon) xs = map value_text xs" by simp
  then show ?case using JArr.prems by (simp add: value_text_simps del: map_eq_conv)
next
  case (JObj ms)
  define g where "g m = (fst m, canon (snd m))" for m :: "string \<times> json"
  have norm: "canon (JObj ms) = JObj (map g (sort_key fst ms))"
    by (simp add: sort_map_snd g_def [abs_def])
  have "sort_key fst (map g (sort_key fst ms)) = map g (sort_key fst ms)"
    by (simp add: sort_key_map g_def sort_key_id_if_sorted)
  moreover have "member_text (g m) = member_text m" if "m \<in> set ms" for m
    using JObj.IH [OF that snds.intros] JObj.prems that by (simp add: member_text_def g_def)
  then have "map (member_text \<circ> g) (sort_key fst ms) = map member_text (sort_key fst ms)" by simp
  moreover have "\<forall>m \<in> set (map g (sort_key fst ms)). serializable (snd m)"
    using JObj.prems by (auto simp: g_def)
  ultimately show ?case
    using JObj.prems by (simp only: norm value_text_simps(5) serializable.simps map_map)
qed simp_all

text \<open>C33. The canonical JSON text of a value determines the value up to the order of object
  members: for values that serialize, whose non-integer numbers are printed as number texts,
  two values have the same text exactly when their normal forms (members sorted by key, at
  every level) are the same.  Escaping, nesting and number printing lose nothing, and the
  order of members is the only thing the serializer forgets.\<close>

theorem canonical_json_injective:
  assumes "serializable v" and "readable v" and "serializable w" and "readable w"
  shows "toCanonicalJson v = toCanonicalJson w \<longleftrightarrow> canon v = canon w"
proof
  assume "toCanonicalJson v = toCanonicalJson w"
  then have "value_text v @ [] = value_text w @ []"
    by (simp add: toCanonicalJson_def value_text_def)
  then show "canon v = canon w"
    using value_prefix_unique [OF assms, of "[]" "[]"] by simp
next
  assume "canon v = canon w"
  then have "value_text v = value_text w"
    using value_text_canon [OF assms(1)] value_text_canon [OF assms(3)] by simp
  then show "toCanonicalJson v = toCanonicalJson w"
    by (simp add: toCanonicalJson_def value_text_eq assms(1,3))
qed

theorem canonical_json_injective_witness:
  "toCanonicalJson (JObj [(''b'', JNum (FracNum ''1.5'')), (''a'', JArr [JNull, JStr ''x''])])
     = toCanonicalJson (JObj [(''a'', JArr [JNull, JStr ''x'']), (''b'', JNum (FracNum ''1.5''))])
   \<and> toCanonicalJson (JArr [JStr ''1'']) \<noteq> toCanonicalJson (JArr [JNum (IntNum 1)])"
proof
  have "CHR ''.'' \<notin> set (nat_text n)" for n
  proof (induction n rule: nat_text.induct)
    case (1 n)
    have "list_all (\<lambda>k. digit_char k \<noteq> CHR ''.'') [0..<10]" by code_simp
    then have "digit_char k \<noteq> CHR ''.''" if "k < 10" for k using that by (simp add: list_all_iff)
    then show ?case using 1 by (cases "n < 10") (auto simp: nat_text.simps [of n] dest: sym)
  qed
  then have "CHR ''.'' \<notin> set (int_text n)" for n by (simp add: int_text_def)
  then have "readable (JNum (FracNum ''1.5''))"
    by (auto simp: number_char_def) (metis list.set_intros(1) list.set_intros(2))
  then show "toCanonicalJson (JObj [(''b'', JNum (FracNum ''1.5'')), (''a'', JArr [JNull, JStr ''x''])])
     = toCanonicalJson (JObj [(''a'', JArr [JNull, JStr ''x'']), (''b'', JNum (FracNum ''1.5''))])"
    by (subst canonical_json_injective) (simp_all del: readable.simps(1))
  show "toCanonicalJson (JArr [JStr ''1'']) \<noteq> toCanonicalJson (JArr [JNum (IntNum 1)])"
    by (subst canonical_json_injective) simp_all
qed

text \<open>
  The serializer of \<open>tool-call/canonicalize.ts\<close>, the source of the stable hashes of tool calls.  Unlike
  the contract serializer it never fails: \<open>undefined\<close> and non-finite numbers print as \<open>null\<close>.
  SHA-256 is the parameter \<open>sha\<close>.
\<close>

definition stable_number :: "js_number \<Rightarrow> string" where
  "stable_number n = (case n of IntNum i \<Rightarrow> int_text i | FracNum s \<Rightarrow> s | NonFinite \<Rightarrow> ''null'')"

fun stableStringify :: "json \<Rightarrow> string"
  and stable_items :: "json list \<Rightarrow> string list"
  and stable_members :: "(string \<times> json) list \<Rightarrow> (string \<times> string) list" where
  "stableStringify JUndefined = ''null''"
| "stableStringify JNull = ''null''"
| "stableStringify (JStr s) = serializeString s"
| "stableStringify (JBool b) = (if b then ''true'' else ''false'')"
| "stableStringify (JNum n) = stable_number n"
| "stableStringify (JArr xs) = ''['' @ join_comma (stable_items xs) @ '']''"
| "stableStringify (JObj ms) =
     ''{'' @ join_comma (map (\<lambda>(k, t). serializeString k @ '':'' @ t) (sort_key fst (stable_members ms))) @ ''}''"
| "stable_items [] = []"
| "stable_items (x # xs) = stableStringify x # stable_items xs"
| "stable_members [] = []"
| "stable_members ((k, v) # ms) = (k, stableStringify v) # stable_members ms"

definition canonicalStableStringify :: "json \<Rightarrow> string" where
  "canonicalStableStringify v = stableStringify v"

definition stableHash :: "(string \<Rightarrow> string) \<Rightarrow> json \<Rightarrow> string" where
  "stableHash sha v = sha (canonicalStableStringify v)"

text \<open>On values that serialize it prints what the contract serializer prints.\<close>

lemma stable_serializes:
  "serializeValue v = Some t \<Longrightarrow> stableStringify v = t"
  "serializeItems xs = Some ts \<Longrightarrow> stable_items xs = ts"
  "serializeMembers ms = Some ps \<Longrightarrow> stable_members ms = ps"
proof (induction v and xs and ms arbitrary: t and ts and ps
    rule: serializeValue_serializeItems_serializeMembers.induct)
  case (4 n)
  then show ?case by (cases n) (simp_all add: stable_number_def)
qed (auto split: option.splits)

end
