(* ===== verification/Digest_Binding.thy ===== *)
theory Digest_Binding
  imports Json_Injective Contract_Digest
begin

text \<open>
  What the digest of a Mission Contract covers (\<open>long-horizon/contract-digest.ts\<close>).  The
  canonical text determines every field of the contract except the metadata, the order of the
  reference lists and the difference between an absent and an empty optional list.
\<close>

section \<open>What the digest forgets\<close>

definition norm_types :: "string list option \<Rightarrow> string list option" where
  "norm_types t = (case t of Some (x # xs) \<Rightarrow> Some (sort (x # xs)) | _ \<Rightarrow> None)"

definition norm_evidence_requirement :: "evidence_requirement \<Rightarrow> evidence_requirement" where
  "norm_evidence_requirement r = r\<lparr>er_allowedTypes := norm_types (er_allowedTypes r)\<rparr>"

definition norm_criterion :: "acceptance_criterion \<Rightarrow> acceptance_criterion" where
  "norm_criterion c = c\<lparr>ac_requiredEvidence := map norm_evidence_requirement (ac_requiredEvidence c)\<rparr>"

definition norm_requirement :: "mission_requirement \<Rightarrow> mission_requirement" where
  "norm_requirement r = r\<lparr>mr_sourceRefs := sort (mr_sourceRefs r), mr_dependencies := sort (mr_dependencies r),
     mr_acceptanceCriteria := map norm_criterion (mr_acceptanceCriteria r)\<rparr>"

definition norm_constraint :: "mission_constraint \<Rightarrow> mission_constraint" where
  "norm_constraint c = c\<lparr>con_sourceRefs := sort (con_sourceRefs c)\<rparr>"

definition norm_forbidden :: "forbidden_action \<Rightarrow> forbidden_action" where
  "norm_forbidden a = a\<lparr>fa_sourceRefs := sort (fa_sourceRefs a)\<rparr>"

definition norm_rule :: "evidence_policy_rule \<Rightarrow> evidence_policy_rule" where
  "norm_rule r = r\<lparr>pr_allowedTypes := norm_types (pr_allowedTypes r)\<rparr>"

definition norm_policy :: "mission_evidence_policy \<Rightarrow> mission_evidence_policy" where
  "norm_policy p = p\<lparr>ep_authoritativeSources := sort_key authority_text (ep_authoritativeSources p),
     ep_rules := (case ep_rules p of Some (r # rs) \<Rightarrow> Some (map norm_rule (r # rs)) | _ \<Rightarrow> None)\<rparr>"

definition norm_contract :: "mission_contract \<Rightarrow> mission_contract" where
  "norm_contract c = c\<lparr>mc_requirements := map norm_requirement (mc_requirements c),
     mc_constraints := map norm_constraint (mc_constraints c),
     mc_forbiddenActions := map norm_forbidden (mc_forbiddenActions c),
     mc_evidencePolicy := norm_policy (mc_evidencePolicy c), mc_metadata := None\<rparr>"

section \<open>Reading members of a normal form\<close>

lemma map_of_insort_key: "map_of (insort_key fst m ms) = map_of (m # ms)"
  by (induction ms) (auto simp: fun_eq_iff)

lemma map_of_sort_key: "map_of (sort_key fst ms) = map_of ms"
proof (induction ms)
  case (Cons m ms)
  then show ?case by (simp add: map_of_insort_key)
qed simp

lemma jget_canon: "jget (canon (JObj ms)) k = canon (jget (JObj ms) k)"
proof -
  have "map_of (map (\<lambda>m. (fst m, canon (snd m))) ms) k = map_option canon (map_of ms k)"
    by (induction ms) simp_all
  then show ?thesis
    by (simp add: jget_def json_field_def map_of_sort_key split: option.splits)
qed

lemma member_eq:
  "canon (JObj ms) = canon (JObj ns) \<Longrightarrow> canon (jget (JObj ms) k) = canon (jget (JObj ns) k)"
  by (metis jget_canon)

declare jget_append [simp del]

lemma canon_items:
  assumes "canon (JArr (map f xs)) = canon (JArr (map f ys))"
    and "\<And>a b. canon (f a) = canon (f b) \<Longrightarrow> g a = g b"
  shows "map g xs = map g ys"
proof -
  have "list_all2 (\<lambda>a b. canon (f a) = canon (f b)) xs ys"
    using assms(1) by (simp add: list_all2_conv_all_nth list_eq_iff_nth_eq)
  then have "list_all2 (\<lambda>a b. g a = g b) xs ys" by (rule list_all2_mono) (rule assms(2))
  then show ?thesis by (simp add: list_all2_conv_all_nth list_eq_iff_nth_eq)
qed

lemma canon_sorted_strings [simp]: "canon (sorted_strings xs) = sorted_strings xs"
  by (simp add: sorted_strings_def comp_def)

lemma sorted_strings_eq [simp]: "sorted_strings xs = sorted_strings ys \<longleftrightarrow> sort xs = sort ys"
  by (simp add: sorted_strings_def inj_map_eq_map inj_def)

lemma sorted_strings_undefined [simp]: "sorted_strings xs \<noteq> JUndefined" "JUndefined \<noteq> sorted_strings xs"
  by (simp_all add: sorted_strings_def)

lemma canon_undefined [simp]: "canon v = JUndefined \<longleftrightarrow> v = JUndefined" "JUndefined = canon v \<longleftrightarrow> v = JUndefined"
  by (cases v; simp)+

text \<open>The value of an optional member, or of the members after it.\<close>

definition opt_or :: "json option \<Rightarrow> json \<Rightarrow> json" where
  "opt_or v r = (case v of None \<Rightarrow> r | Some j \<Rightarrow> j)"

abbreviation opt_value :: "json option \<Rightarrow> json" where
  "opt_value v \<equiv> opt_or v JUndefined"

lemma jget_opt_append [simp]:
  "jget (JObj (opt_member k v @ ns)) k' = (if k = k' then opt_or v (jget (JObj ns) k') else jget (JObj ns) k')"
  by (simp add: opt_member_def opt_or_def split: option.splits)

lemma jget_opt_last [simp]:
  "jget (JObj (opt_member k v)) k' = (if k = k' then opt_value v else JUndefined)"
  by (simp add: opt_member_def opt_or_def split: option.splits)

lemma opt_value_None [simp]: "opt_value None = JUndefined"
  by (simp add: opt_or_def)

lemma authority_text_inj [simp]: "authority_text a = authority_text b \<longleftrightarrow> a = b"
  by (cases a; cases b) simp_all

lemma applicability_text_inj [simp]: "applicability_text a = applicability_text b \<longleftrightarrow> a = b"
  by (cases a; cases b) (simp_all add: applicability_text_def)

lemma opt_value_eq [simp]:
  "canon (opt_value (map_option JStr x)) = canon (opt_value (map_option JStr y)) \<longleftrightarrow> x = y"
  "canon (opt_value (map_option (JNum \<circ> IntNum) n)) = canon (opt_value (map_option (JNum \<circ> IntNum) m)) \<longleftrightarrow> n = m"
  "canon (opt_value (map_option (JStr \<circ> authority_text) a)) = canon (opt_value (map_option (JStr \<circ> authority_text) b)) \<longleftrightarrow> a = b"
  "canon (opt_value (map_option (JStr \<circ> applicability_text) p)) = canon (opt_value (map_option (JStr \<circ> applicability_text) q)) \<longleftrightarrow> p = q"
     apply (cases x; cases y; simp add: opt_or_def)
    apply (cases n; cases m; simp add: opt_or_def)
   apply (cases a; cases b; simp add: opt_or_def)
  apply (cases p; cases q; simp add: opt_or_def)
  done

lemma nonempty_types_eq [simp]:
  "canon (opt_value (nonempty_types t)) = canon (opt_value (nonempty_types u)) \<longleftrightarrow> norm_types t = norm_types u"
  by (auto simp: nonempty_types_def norm_types_def opt_or_def simp del: sort_key_simps split: option.splits list.splits)

lemma opt_value_flag [simp]: "opt_value (if b then Some j else None) = (if b then j else JUndefined)"
  by (simp add: opt_or_def)

section \<open>Component by component\<close>

lemma workstream_bound:
  assumes "canon (canonicalizeWorkstream a) = canon (canonicalizeWorkstream b)"
  shows "a = b"
proof -
  note eq = member_eq [OF assms [unfolded canonicalizeWorkstream_def]]
  show ?thesis
    using eq [of "''id''"] eq [of "''title''"] eq [of "''description''"] eq [of "''parentId''"] eq [of "''order''"]
    by simp
qed

lemma evidence_requirement_bound:
  assumes "canon (canonicalizeEvidenceRequirement a) = canon (canonicalizeEvidenceRequirement b)"
  shows "norm_evidence_requirement a = norm_evidence_requirement b"
proof -
  note eq = member_eq [OF assms [unfolded canonicalizeEvidenceRequirement_def]]
  show ?thesis
    using eq [of "''allowedTypes''"] eq [of "''minAuthority''"] eq [of "''requiredCollectorClass''"]
      eq [of "''minPassingStatus''"]
    by (cases a; cases b) (auto simp: norm_evidence_requirement_def split: if_splits)
qed

lemma criterion_bound:
  assumes "canon (canonicalizeCriterion a) = canon (canonicalizeCriterion b)"
  shows "norm_criterion a = norm_criterion b"
proof -
  note eq = member_eq [OF assms [unfolded canonicalizeCriterion_def]]
  have "map norm_evidence_requirement (ac_requiredEvidence a) = map norm_evidence_requirement (ac_requiredEvidence b)"
    by (rule canon_items [OF _ evidence_requirement_bound]) (use eq [of "''requiredEvidence''"] in simp)
  then show ?thesis
    using eq [of "''id''"] eq [of "''statement''"] by (cases a; cases b) (simp add: norm_criterion_def)
qed

lemma requirement_bound:
  assumes "canon (canonicalizeRequirement a) = canon (canonicalizeRequirement b)"
  shows "norm_requirement a = norm_requirement b"
proof -
  note eq = member_eq [OF assms [unfolded canonicalizeRequirement_def]]
  have "map norm_criterion (mr_acceptanceCriteria a) = map norm_criterion (mr_acceptanceCriteria b)"
    by (rule canon_items [OF _ criterion_bound]) (use eq [of "''acceptanceCriteria''"] in simp)
  moreover have "mr_kind a = mr_kind b"
    using eq [of "''kind''"] by (simp add: requirement_kind_text_def split: requirement_kind.splits)
  ultimately show ?thesis
    using eq [of "''id''"] eq [of "''workstreamId''"] eq [of "''statement''"] eq [of "''sourceRefs''"]
      eq [of "''dependencies''"] eq [of "''rationale''"] eq [of "''initialApplicability''"]
    by (cases a; cases b) (simp add: norm_requirement_def)
qed

lemma severity_text_inj [simp]: "severity_text a = severity_text b \<longleftrightarrow> a = b"
  by (simp add: severity_text_def split: severity.splits)

lemma constraint_kind_text_inj [simp]: "constraint_kind_text a = constraint_kind_text b \<longleftrightarrow> a = b"
  by (cases a; cases b) simp_all

lemma constraint_bound:
  assumes "canon (canonicalizeConstraint a) = canon (canonicalizeConstraint b)"
  shows "norm_constraint a = norm_constraint b"
proof -
  note eq = member_eq [OF assms [unfolded canonicalizeConstraint_def]]
  show ?thesis
    using eq [of "''id''"] eq [of "''kind''"] eq [of "''statement''"] eq [of "''sourceRefs''"] eq [of "''severity''"]
    by (cases a; cases b) (simp add: norm_constraint_def)
qed

lemma forbidden_bound:
  assumes "canon (canonicalizeForbiddenAction a) = canon (canonicalizeForbiddenAction b)"
  shows "norm_forbidden a = norm_forbidden b"
proof -
  note eq = member_eq [OF assms [unfolded canonicalizeForbiddenAction_def]]
  show ?thesis
    using eq [of "''id''"] eq [of "''statement''"] eq [of "''sourceRefs''"] eq [of "''severity''"] eq [of "''matchHint''"]
    by (cases a; cases b) (simp add: norm_forbidden_def)
qed

lemma rule_bound:
  assumes "canon (canonicalizePolicyRule a) = canon (canonicalizePolicyRule b)"
  shows "norm_rule a = norm_rule b"
proof -
  note eq = member_eq [OF assms [unfolded canonicalizePolicyRule_def]]
  show ?thesis
    using eq [of "''id''"] eq [of "''description''"] eq [of "''allowedTypes''"] eq [of "''minAuthority''"]
      eq [of "''requiredCollectorClass''"]
    by (cases a; cases b) (simp add: norm_rule_def)
qed

lemma insort_key_text: "map authority_text (insort_key authority_text x xs) = insort (authority_text x) (map authority_text xs)"
  by (induction xs) simp_all

lemma sort_by_text: "sort (map authority_text xs) = map authority_text (sort_key authority_text xs)"
proof -
  have "map authority_text (sort_key authority_text xs) = sort (map authority_text xs)"
    by (induction xs) (simp_all add: insort_key_text)
  then show ?thesis by simp
qed

definition norm_rules :: "evidence_policy_rule list option \<Rightarrow> evidence_policy_rule list option" where
  "norm_rules x = (case x of Some (r # rs) \<Rightarrow> Some (map norm_rule (r # rs)) | _ \<Rightarrow> None)"

definition rules_value :: "evidence_policy_rule list option \<Rightarrow> json" where
  "rules_value x = (case x of Some (r # rs) \<Rightarrow> JArr (map canonicalizePolicyRule (r # rs)) | _ \<Rightarrow> JUndefined)"

lemma rules_bound:
  assumes eq: "canon (rules_value x) = canon (rules_value y)"
  shows "norm_rules x = norm_rules y"
proof -
  have norm: "norm_rules z = (if z = None \<or> z = Some [] then None else Some (map norm_rule (the z)))" for z
    by (simp add: norm_rules_def split: option.splits list.splits)
  have val: "rules_value z = (if z = None \<or> z = Some [] then JUndefined else JArr (map canonicalizePolicyRule (the z)))" for z
    by (simp add: rules_value_def split: option.splits list.splits)
  show ?thesis
  proof (cases "x = None \<or> x = Some [] \<or> y = None \<or> y = Some []")
    case True
    then show ?thesis using eq by (auto simp: norm val split: if_splits)
  next
    case False
    then have "rules_value x = JArr (map canonicalizePolicyRule (the x))"
      "rules_value y = JArr (map canonicalizePolicyRule (the y))" by (auto simp: val)
    then have "map norm_rule (the x) = map norm_rule (the y)"
      using eq by (intro canon_items [OF _ rule_bound]) (simp only:)
    with False show ?thesis by (simp only: norm) simp
  qed
qed

lemma policy_bound:
  assumes "canon (canonicalizeEvidencePolicy a) = canon (canonicalizeEvidencePolicy b)"
  shows "norm_policy a = norm_policy b"
proof -
  note eq = member_eq [OF assms [unfolded canonicalizeEvidencePolicy_def]]
  have rules: "jget (JObj (case x of None \<Rightarrow> [] | Some [] \<Rightarrow> []
      | Some (r # rs) \<Rightarrow> [(''rules'', JArr (map canonicalizePolicyRule (r # rs)))])) ''rules'' = rules_value x" for x
    by (simp add: rules_value_def split: option.splits list.splits)
  have "norm_rules (ep_rules a) = norm_rules (ep_rules b)"
    using eq [of "''rules''"] by (intro rules_bound) (simp add: rules)
  moreover have "sort_key authority_text (ep_authoritativeSources a) = sort_key authority_text (ep_authoritativeSources b)"
    using eq [of "''authoritativeSources''"] by (simp add: sort_by_text inj_map_eq_map inj_def)
  ultimately show ?thesis
    by (cases a; cases b) (simp add: norm_policy_def norm_rules_def)
qed

lemma contract_bound:
  assumes "canon (canonicalizeContract a) = canon (canonicalizeContract b)"
  shows "norm_contract a = norm_contract b"
proof -
  note eq = member_eq [OF assms [unfolded canonicalizeContract_def]]
  have "map id (mc_workstreams a) = map id (mc_workstreams b)"
    by (rule canon_items) (use eq [of "''workstreams''"] workstream_bound in auto)
  moreover have "map norm_requirement (mc_requirements a) = map norm_requirement (mc_requirements b)"
    by (rule canon_items [OF _ requirement_bound]) (use eq [of "''requirements''"] in simp)
  moreover have "map norm_constraint (mc_constraints a) = map norm_constraint (mc_constraints b)"
    by (rule canon_items [OF _ constraint_bound]) (use eq [of "''constraints''"] in simp)
  moreover have "map norm_forbidden (mc_forbiddenActions a) = map norm_forbidden (mc_forbiddenActions b)"
    by (rule canon_items [OF _ forbidden_bound]) (use eq [of "''forbiddenActions''"] in simp)
  moreover have "norm_policy (mc_evidencePolicy a) = norm_policy (mc_evidencePolicy b)"
    by (rule policy_bound) (use eq [of "''evidencePolicy''"] in simp)
  ultimately show ?thesis
    using eq [of "''contractVersion''"] eq [of "''missionId''"] eq [of "''revision''"] eq [of "''title''"]
      eq [of "''objective''"]
    by (cases a; cases b) (simp add: norm_contract_def)
qed

section \<open>The normal form has the same text\<close>

lemma sort_sort [simp]: "sort (sort xs) = sort xs"
  by (simp add: sort_key_id_if_sorted)

lemma sort_Nil_iff [simp]: "sort_key f xs = [] \<longleftrightarrow> xs = []"
  by (metis length_0_conv length_sort)

lemma norm_types_eq: "norm_types t = (if t = None \<or> t = Some [] then None else Some (sort (the t)))"
  by (auto simp: norm_types_def split: option.splits list.splits)

lemma nonempty_types_eq2: "nonempty_types t = (if t = None \<or> t = Some [] then None else Some (sorted_strings (the t)))"
  by (auto simp: nonempty_types_def split: option.splits list.splits)

lemma nonempty_norm_types [simp]: "nonempty_types (norm_types t) = nonempty_types t"
  by (auto simp: norm_types_eq nonempty_types_eq2)

lemma canonicalize_norm [simp]:
  "canonicalizeEvidenceRequirement (norm_evidence_requirement r) = canonicalizeEvidenceRequirement r"
  "canonicalizePolicyRule (norm_rule l) = canonicalizePolicyRule l"
  "canonicalizeConstraint (norm_constraint k) = canonicalizeConstraint k"
  "canonicalizeForbiddenAction (norm_forbidden f) = canonicalizeForbiddenAction f"
  by (simp_all add: canonicalizeEvidenceRequirement_def norm_evidence_requirement_def canonicalizePolicyRule_def
      norm_rule_def canonicalizeConstraint_def norm_constraint_def canonicalizeForbiddenAction_def norm_forbidden_def)

lemma canonicalize_norm_criterion [simp]: "canonicalizeCriterion (norm_criterion c) = canonicalizeCriterion c"
  by (simp add: canonicalizeCriterion_def norm_criterion_def comp_def)

lemma canonicalize_norm_requirement [simp]: "canonicalizeRequirement (norm_requirement r) = canonicalizeRequirement r"
  by (simp add: canonicalizeRequirement_def norm_requirement_def comp_def)

lemma canonicalize_norm_policy [simp]: "canonicalizeEvidencePolicy (norm_policy p) = canonicalizeEvidencePolicy p"
proof -
  have "sorted_strings (map authority_text (sort_key authority_text xs)) = sorted_strings (map authority_text xs)" for xs
    by (simp flip: sort_by_text)
  then show ?thesis
    by (simp add: canonicalizeEvidencePolicy_def norm_policy_def comp_def split: option.splits list.splits)
qed

lemma canonicalize_norm_contract: "canonicalizeContract (norm_contract c) = canonicalizeContract c"
  by (simp add: canonicalizeContract_def norm_contract_def comp_def)

section \<open>The digest\<close>

lemma readable_opt_member [simp]:
  "(\<forall>m \<in> set (opt_member k v). readable (snd m)) \<longleftrightarrow> (\<forall>j. v = Some j \<longrightarrow> readable j)"
  by (auto simp: opt_member_def split: option.splits)

lemma readable_sorted_strings [simp]: "readable (sorted_strings xs)"
  by (simp add: sorted_strings_def)

lemma readable_nonempty_types [simp]: "nonempty_types t = Some j \<Longrightarrow> readable j"
  by (auto simp: nonempty_types_def split: option.splits list.splits)

lemma readable_parts [simp]:
  "readable (canonicalizeWorkstream w)" "readable (canonicalizeEvidenceRequirement e)"
  "readable (canonicalizeConstraint k)" "readable (canonicalizeForbiddenAction f)" "readable (canonicalizePolicyRule l)"
  by (auto simp: canonicalizeWorkstream_def canonicalizeEvidenceRequirement_def canonicalizeConstraint_def
      canonicalizeForbiddenAction_def canonicalizePolicyRule_def ball_Un)

lemma readable_criterion [simp]: "readable (canonicalizeCriterion c)"
  by (simp add: canonicalizeCriterion_def)

lemma readable_requirement [simp]: "readable (canonicalizeRequirement r)"
  by (auto simp: canonicalizeRequirement_def ball_Un)

lemma readable_policy [simp]: "readable (canonicalizeEvidencePolicy p)"
  by (auto simp: canonicalizeEvidencePolicy_def split: option.splits list.splits)

lemma readable_contract: "readable (canonicalizeContract c)"
  by (simp add: canonicalizeContract_def)

lemma canon_contract_iff: "canon (canonicalizeContract a) = canon (canonicalizeContract b) \<longleftrightarrow> norm_contract a = norm_contract b"
  using contract_bound canonicalize_norm_contract by metis

lemma contract_text_iff: "canonical_contract_text a = canonical_contract_text b \<longleftrightarrow> norm_contract a = norm_contract b"
proof -
  have "value_text (canonicalizeContract c) = canonical_contract_text c" for c
    using canonical_contract_text_eq [of c] by (simp add: toCanonicalJson_def value_text_def)
  then show ?thesis
    using value_prefix_unique [OF serializable_contract readable_contract serializable_contract readable_contract, of "[]" "[]" a b]
      value_text_canon [OF serializable_contract] by (metis append_Nil2 canon_contract_iff delimited_simps(1))
qed

definition sample_contract :: mission_contract where
  "sample_contract = \<lparr>mc_contractVersion = 1, mc_missionId = ''m'', mc_revision = 1, mc_title = ''t'', mc_objective = ''o'',
    mc_workstreams = [], mc_requirements = [], mc_constraints = [], mc_forbiddenActions = [],
    mc_evidencePolicy = \<lparr>ep_authoritativeSources = [Test_Result, Command_Result], ep_rules = None\<rparr>, mc_metadata = None\<rparr>"

text \<open>C34. The digest of a contract binds the whole contract: if SHA-256 does not collide on
  the two canonical texts, two contracts have the same digest exactly when they agree in every
  field, nested ones included, after the reference lists (source references, dependencies,
  allowed types, authoritative sources) are sorted, empty optional lists are dropped and the
  metadata is ignored.  No requirement, criterion, evidence rule, constraint or forbidden
  action can be changed under an unchanged digest, and nothing else is forgotten.\<close>

theorem digest_binds_contract:
  assumes "inj_on sha {canonical_contract_text c, canonical_contract_text d}"
  shows "computeMissionContractDigest sha c = computeMissionContractDigest sha d \<longleftrightarrow> norm_contract c = norm_contract d"
  unfolding computeMissionContractDigest_def contract_text_iff [symmetric]
  using assms by (auto dest: inj_onD)

theorem digest_binds_contract_witness:
  "computeMissionContractDigest rev sample_contract = computeMissionContractDigest rev
     (sample_contract\<lparr>mc_metadata := Some JNull,
        mc_evidencePolicy := \<lparr>ep_authoritativeSources = [Command_Result, Test_Result], ep_rules = Some []\<rparr>\<rparr>)
   \<and> computeMissionContractDigest rev sample_contract \<noteq>
     computeMissionContractDigest rev (sample_contract\<lparr>mc_title := ''T''\<rparr>)"
  unfolding digest_binds_contract [OF inj_on_rev]
  by (simp add: sample_contract_def norm_contract_def norm_policy_def)

end
