(* ===== verification/Continuation_Scheduler.thy ===== *)
theory Continuation_Scheduler
  imports Execution_Machine
begin

text \<open>
  The continuation scheduler (\<open>long-horizon/continuation-scheduler.ts\<close>): an append-only event
  log that moves a mission execution through cycles of scheduling, dispatching and consuming a
  continuation, with idempotent requests and a digest of the history.

  SHA-256 is the parameter \<open>sha\<close>, the time stamp \<open>new Date().toISOString()\<close> of an event is the
  parameter \<open>now\<close>.  Records and events have the fields the interfaces declare; the numbers of a
  request come from the caller and may be any JavaScript number.  An error result is its code;
  \<open>Cs_THROWS\<close> is the exception \<open>toCanonicalJson\<close> throws on an undefined member.
\<close>

section \<open>Records, events, requests\<close>

datatype sched_state = Sc_IDLE | Sc_SCHEDULED | Sc_DISPATCHED

datatype sched_kind = Sk_SCHEDULE | Sk_DISPATCH | Sk_CONSUME | Sk_CANCEL | Sk_ABANDON

fun sched_state_text :: "sched_state \<Rightarrow> string" where
  "sched_state_text Sc_IDLE = ''IDLE''"
| "sched_state_text Sc_SCHEDULED = ''SCHEDULED''"
| "sched_state_text Sc_DISPATCHED = ''DISPATCHED''"

fun sched_kind_text :: "sched_kind \<Rightarrow> string" where
  "sched_kind_text Sk_SCHEDULE = ''SCHEDULE''"
| "sched_kind_text Sk_DISPATCH = ''DISPATCH''"
| "sched_kind_text Sk_CONSUME = ''CONSUME''"
| "sched_kind_text Sk_CANCEL = ''CANCEL''"
| "sched_kind_text Sk_ABANDON = ''ABANDON''"

record sched_event =
  se_eventId :: ident
  se_kind :: sched_kind
  se_cycleId :: ident
  se_requestRevision :: int
  se_observed :: int
  se_fromState :: sched_state
  se_toState :: sched_state
  se_revisionBefore :: int
  se_revisionAfter :: int
  se_previousDigest :: "string option"
  se_digest :: string
  se_createdAt :: string
  se_expectedExecution :: "int option"
  se_dispatchedId :: "string option"
  se_resultDigest :: "string option"

record sched_record =
  sr_version :: int
  sr_executionId :: ident
  sr_contractDigest :: string
  sr_revision :: int
  sr_state :: sched_state
  sr_events :: "sched_event list"
  sr_historyDigest :: "string option"

record schedule_request =
  sq_eventId :: ident
  sq_expectedScheduler :: js_number
  sq_expectedExecution :: js_number

text \<open>Cancel and abandon requests have the same fields; dispatch and consume requests add theirs.\<close>

record cycle_request =
  cq_eventId :: ident
  cq_cycleId :: ident
  cq_expectedScheduler :: js_number

record dispatch_request = cycle_request +
  cq_dispatchedId :: string

record consume_request = dispatch_request +
  cq_resultDigest :: string

datatype sched_error =
    Cs_IDEMPOTENCY_CONFLICT | Cs_STALE_SCHEDULER_REVISION | Cs_INVALID_STATE | Cs_INVALID_CYCLE
  | Cs_CYCLE_NOT_SUPERSEDED | Cs_CYCLE_SUPERSEDED | Cs_EXECUTION_REVISION_MISMATCH | Cs_INVALID_REQUEST
  | Cs_CONTRACT_DIGEST_MISMATCH | Cs_ENOENT | Cs_INVALID_SCHEDULER_RECORD | Cs_THROWS

type_synonym sched_result = "sched_error + sched_record \<times> sched_event"

definition initializeContinuationScheduler :: "ident \<Rightarrow> string \<Rightarrow> sched_record" where
  "initializeContinuationScheduler i d =
     \<lparr>sr_version = 1, sr_executionId = i, sr_contractDigest = d, sr_revision = 0, sr_state = Sc_IDLE,
      sr_events = [], sr_historyDigest = None\<rparr>"

section \<open>Digests\<close>

definition opt_text :: "string option \<Rightarrow> json" where
  "opt_text x = (case x of None \<Rightarrow> JNull | Some s \<Rightarrow> JStr s)"

definition event_canonical :: "sched_event \<Rightarrow> json" where
  "event_canonical e = JObj
     ([(''cycleId'', JStr (se_cycleId e)), (''eventId'', JStr (se_eventId e)),
       (''fromState'', JStr (sched_state_text (se_fromState e))), (''kind'', JStr (sched_kind_text (se_kind e))),
       (''observedExecutionRevision'', JNum (IntNum (se_observed e))),
       (''previousEventDigest'', opt_text (se_previousDigest e)),
       (''requestSchedulerRevision'', JNum (IntNum (se_requestRevision e))),
       (''revisionAfter'', JNum (IntNum (se_revisionAfter e))),
       (''revisionBefore'', JNum (IntNum (se_revisionBefore e))),
       (''toState'', JStr (sched_state_text (se_toState e)))]
      @ opt_member ''expectedExecutionRevision'' (map_option (JNum \<circ> IntNum) (se_expectedExecution e))
      @ opt_member ''dispatchedContinuationId'' (map_option JStr (se_dispatchedId e))
      @ opt_member ''resultDigest'' (map_option JStr (se_resultDigest e)))"

definition event_text :: "sched_event \<Rightarrow> string" where
  "event_text e = (case toCanonicalJson (event_canonical e) of Some t \<Rightarrow> t | None \<Rightarrow> [])"

definition computeEventDigest :: "(string \<Rightarrow> string) \<Rightarrow> sched_event \<Rightarrow> string" where
  "computeEventDigest sha e = ''sha256:'' @ sha (event_text e)"

definition history_text :: "sched_event list \<Rightarrow> string" where
  "history_text es = concat (map se_digest es)"

definition computeHistoryDigest :: "(string \<Rightarrow> string) \<Rightarrow> sched_event list \<Rightarrow> string option" where
  "computeHistoryDigest sha es = (if es = [] then None else Some (''sha256:'' @ sha (history_text es)))"

lemma event_text_defined: "toCanonicalJson (event_canonical e) = Some (event_text e)"
proof -
  have "serializable (event_canonical e)"
    by (auto simp: event_canonical_def opt_text_def ball_Un split: option.splits)
  then show ?thesis
    using serialize_defined(1) [of "event_canonical e"] by (auto simp: event_text_def toCanonicalJson_def)
qed

section \<open>Active events\<close>

definition closes :: "ident \<Rightarrow> sched_event \<Rightarrow> bool" where
  "closes c e \<longleftrightarrow> se_cycleId e = c \<and> (se_kind e = Sk_CONSUME \<or> se_kind e = Sk_CANCEL \<or> se_kind e = Sk_ABANDON)"

text \<open>The loops run from the last event to the first and return the first open event they meet,
  which is the last open event of the list.\<close>

fun last_open :: "sched_kind \<Rightarrow> (sched_event \<Rightarrow> ident) \<Rightarrow> sched_event list \<Rightarrow> sched_event option" where
  "last_open k cycle [] = None"
| "last_open k cycle (e # es) =
     (case last_open k cycle es of
        Some a \<Rightarrow> Some a
      | None \<Rightarrow> if se_kind e = k \<and> \<not> list_ex (closes (cycle e)) es then Some e else None)"

definition findActiveScheduleEvent :: "sched_record \<Rightarrow> sched_event option" where
  "findActiveScheduleEvent r = last_open Sk_SCHEDULE se_eventId (sr_events r)"

definition findActiveDispatchEvent :: "sched_record \<Rightarrow> sched_event option" where
  "findActiveDispatchEvent r = last_open Sk_DISPATCH se_cycleId (sr_events r)"

section \<open>Idempotency\<close>

record fingerprint =
  fp_kind :: sched_kind
  fp_cycleId :: ident
  fp_requestRevision :: js_number
  fp_expectedExecution :: "js_number option"
  fp_dispatchedId :: "string option"
  fp_resultDigest :: "string option"

text \<open>The fields the source compares for each kind; a kind without a field does not compare it.\<close>

definition same_request :: "sched_event \<Rightarrow> fingerprint \<Rightarrow> bool" where
  "same_request e f \<longleftrightarrow>
     se_cycleId e = fp_cycleId f \<and> IntNum (se_requestRevision e) = fp_requestRevision f \<and>
     (case fp_kind f of
        Sk_SCHEDULE \<Rightarrow> map_option IntNum (se_expectedExecution e) = fp_expectedExecution f
      | Sk_DISPATCH \<Rightarrow> se_dispatchedId e = fp_dispatchedId f
      | Sk_CONSUME \<Rightarrow> se_dispatchedId e = fp_dispatchedId f \<and> se_resultDigest e = fp_resultDigest f
      | _ \<Rightarrow> True)"

definition checkIdempotency :: "sched_record \<Rightarrow> ident \<Rightarrow> fingerprint \<Rightarrow> sched_result option" where
  "checkIdempotency r i f =
     (case List.find (\<lambda>e. se_eventId e = i) (sr_events r) of
        None \<Rightarrow> None
      | Some e \<Rightarrow> Some (if se_kind e = fp_kind f \<and> same_request e f then Inr (r, e) else Inl Cs_IDEMPOTENCY_CONFLICT))"

definition schedule_fingerprint :: "schedule_request \<Rightarrow> fingerprint" where
  "schedule_fingerprint q =
     \<lparr>fp_kind = Sk_SCHEDULE, fp_cycleId = sq_eventId q, fp_requestRevision = sq_expectedScheduler q,
      fp_expectedExecution = Some (sq_expectedExecution q), fp_dispatchedId = None, fp_resultDigest = None\<rparr>"

definition cycle_fingerprint :: "sched_kind \<Rightarrow> 'a cycle_request_scheme \<Rightarrow> fingerprint" where
  "cycle_fingerprint k q =
     \<lparr>fp_kind = k, fp_cycleId = cq_cycleId q, fp_requestRevision = cq_expectedScheduler q,
      fp_expectedExecution = None, fp_dispatchedId = None, fp_resultDigest = None\<rparr>"

definition dispatch_fingerprint :: "dispatch_request \<Rightarrow> fingerprint" where
  "dispatch_fingerprint q = (cycle_fingerprint Sk_DISPATCH q)\<lparr>fp_dispatchedId := Some (cq_dispatchedId q)\<rparr>"

definition consume_fingerprint :: "consume_request \<Rightarrow> fingerprint" where
  "consume_fingerprint q = (cycle_fingerprint Sk_CONSUME q)
     \<lparr>fp_dispatchedId := Some (cq_dispatchedId q), fp_resultDigest := Some (cq_resultDigest q)\<rparr>"

section \<open>Requests and stored records\<close>

definition validateScheduleRequest :: "schedule_request \<Rightarrow> sched_error option" where
  "validateScheduleRequest q = first_some
     [must (\<not> js_blank (sq_eventId q)) Cs_INVALID_REQUEST,
      must (safe_revision (sq_expectedScheduler q)) Cs_INVALID_REQUEST,
      must (safe_revision (sq_expectedExecution q)) Cs_INVALID_REQUEST]"

definition validateCycleRequest :: "'a cycle_request_scheme \<Rightarrow> sched_error option" where
  "validateCycleRequest q = first_some
     [must (\<not> js_blank (cq_eventId q)) Cs_INVALID_REQUEST,
      must (\<not> js_blank (cq_cycleId q)) Cs_INVALID_REQUEST,
      must (safe_revision (cq_expectedScheduler q)) Cs_INVALID_REQUEST]"

definition validateDispatchRequest :: "'a dispatch_request_scheme \<Rightarrow> sched_error option" where
  "validateDispatchRequest q = first_some
     [validateCycleRequest q, must (\<not> js_blank (cq_dispatchedId q)) Cs_INVALID_REQUEST]"

definition validateConsumeRequest :: "consume_request \<Rightarrow> sched_error option" where
  "validateConsumeRequest q = first_some
     [validateDispatchRequest q, must (\<not> js_blank (cq_resultDigest q)) Cs_INVALID_REQUEST]"

definition validateSchedulerStructure :: "(string \<Rightarrow> string) \<Rightarrow> sched_record \<Rightarrow> (sched_error \<times> string) option" where
  "validateSchedulerStructure sha r = first_some
     [must (sr_version r = 1) (Cs_INVALID_SCHEDULER_RECORD, ''schedulerVersion must be 1, got '' @ int_text (sr_version r)),
      must (\<not> js_blank (sr_executionId r)) (Cs_INVALID_SCHEDULER_RECORD, ''executionId must be a non-empty string''),
      must (\<not> js_blank (sr_contractDigest r)) (Cs_INVALID_SCHEDULER_RECORD, ''contractDigest must be a non-empty string''),
      must (safe_revision (IntNum (sr_revision r)))
        (Cs_INVALID_SCHEDULER_RECORD, ''schedulerRevision must be a non-negative safe integer''),
      must (sr_historyDigest r = computeHistoryDigest sha (sr_events r))
        (Cs_INVALID_SCHEDULER_RECORD, ''historyDigest does not match events'')]"

section \<open>Operations\<close>

text \<open>What every operation does after its guards: complete the event with its digest, append
  it, recompute the history digest and advance revision and state.\<close>

definition append_event :: "(string \<Rightarrow> string) \<Rightarrow> sched_record \<Rightarrow> sched_event \<Rightarrow> sched_record \<times> sched_event" where
  "append_event sha r e =
     (let e' = e\<lparr>se_digest := computeEventDigest sha e\<rparr>; es = sr_events r @ [e'] in
      (\<lparr>sr_version = 1, sr_executionId = sr_executionId r, sr_contractDigest = sr_contractDigest r,
        sr_revision = se_revisionAfter e, sr_state = se_toState e, sr_events = es,
        sr_historyDigest = computeHistoryDigest sha es\<rparr>, e'))"

definition number_int :: "js_number \<Rightarrow> int" where
  "number_int n = (case n of IntNum m \<Rightarrow> m | _ \<Rightarrow> 0)"

text \<open>The event literal shared by the operations: identity, revisions and the digest of the
  history so far.\<close>

definition new_event :: "sched_record \<Rightarrow> string \<Rightarrow> sched_kind \<Rightarrow> ident \<Rightarrow> ident \<Rightarrow> js_number \<Rightarrow> int \<Rightarrow> sched_state \<Rightarrow> sched_event" where
  "new_event r now k i c n obs to =
     \<lparr>se_eventId = i, se_kind = k, se_cycleId = c, se_requestRevision = number_int n, se_observed = obs,
      se_fromState = sr_state r, se_toState = to, se_revisionBefore = sr_revision r,
      se_revisionAfter = sr_revision r + 1, se_previousDigest = sr_historyDigest r, se_digest = [],
      se_createdAt = now, se_expectedExecution = None, se_dispatchedId = None, se_resultDigest = None\<rparr>"

text \<open>The order of an operation: structure, idempotency, fresh guards, effect.\<close>

definition guarded_op :: "sched_error option \<Rightarrow> sched_result option \<Rightarrow> sched_error option list \<Rightarrow> sched_record \<times> sched_event \<Rightarrow> sched_result" where
  "guarded_op early idem fresh res =
     (case early of
        Some e \<Rightarrow> Inl e
      | None \<Rightarrow>
          (case idem of
             Some x \<Rightarrow> x
           | None \<Rightarrow> (case first_some fresh of Some e \<Rightarrow> Inl e | None \<Rightarrow> Inr res)))"

definition scheduleContinuation ::
  "(string \<Rightarrow> string) \<Rightarrow> string \<Rightarrow> sched_record option \<Rightarrow> schedule_request \<Rightarrow> sched_result" where
  "scheduleContinuation sha now ro q =
     (case validateScheduleRequest q of
        Some e \<Rightarrow> Inl e
      | None \<Rightarrow>
          (if ro = None \<and> sq_expectedScheduler q \<noteq> IntNum 0 then Inl Cs_ENOENT
           else
             let r = (case ro of None \<Rightarrow> initializeContinuationScheduler [] [] | Some r \<Rightarrow> r) in
             guarded_op
               (if ro = None then None else map_option fst (validateSchedulerStructure sha r))
               (checkIdempotency r (sq_eventId q) (schedule_fingerprint q))
               [must (IntNum (sr_revision r) = sq_expectedScheduler q) Cs_STALE_SCHEDULER_REVISION,
                must (sr_state r = Sc_IDLE) Cs_INVALID_STATE]
               (append_event sha r
                  ((new_event r now Sk_SCHEDULE (sq_eventId q) (sq_eventId q) (sq_expectedScheduler q)
                      (number_int (sq_expectedExecution q)) Sc_SCHEDULED)
                   \<lparr>se_expectedExecution := Some (number_int (sq_expectedExecution q))\<rparr>))))"

text \<open>The guards that name the active cycle.\<close>

definition active_cycle_guards :: "sched_event option \<Rightarrow> ident \<Rightarrow> sched_error option list" where
  "active_cycle_guards a c =
     [must (a \<noteq> None) Cs_INVALID_CYCLE, must (map_option se_eventId a = Some c) Cs_INVALID_CYCLE]"

definition active_expected :: "sched_event option \<Rightarrow> int option" where
  "active_expected a = (case a of None \<Rightarrow> None | Some e \<Rightarrow> se_expectedExecution e)"

text \<open>A comparison with an undefined revision is false in JavaScript.\<close>

definition above :: "int \<Rightarrow> int option \<Rightarrow> bool" where
  "above n x \<longleftrightarrow> (case x of None \<Rightarrow> False | Some m \<Rightarrow> n > m)"

definition below :: "int \<Rightarrow> int option \<Rightarrow> bool" where
  "below n x \<longleftrightarrow> (case x of None \<Rightarrow> False | Some m \<Rightarrow> n < m)"

definition dispatchContinuation ::
  "(string \<Rightarrow> string) \<Rightarrow> string \<Rightarrow> sched_record option \<Rightarrow> dispatch_request \<Rightarrow> int \<Rightarrow> sched_result" where
  "dispatchContinuation sha now ro q cur =
     (case validateDispatchRequest q of
        Some e \<Rightarrow> Inl e
      | None \<Rightarrow>
          (case ro of
             None \<Rightarrow> Inl Cs_ENOENT
           | Some r \<Rightarrow>
               let a = findActiveScheduleEvent r; x = active_expected a in
               guarded_op (map_option fst (validateSchedulerStructure sha r))
                 (checkIdempotency r (cq_eventId q) (dispatch_fingerprint q))
                 ([must (IntNum (sr_revision r) = cq_expectedScheduler q) Cs_STALE_SCHEDULER_REVISION,
                   must (sr_state r = Sc_SCHEDULED) Cs_INVALID_STATE]
                  @ active_cycle_guards a (cq_cycleId q)
                  @ [must (\<not> above cur x) Cs_CYCLE_SUPERSEDED, must (\<not> below cur x) Cs_EXECUTION_REVISION_MISMATCH,
                     must (x \<noteq> None) Cs_THROWS])
                 (append_event sha r
                    ((new_event r now Sk_DISPATCH (cq_eventId q) (cq_cycleId q) (cq_expectedScheduler q)
                        (the x) Sc_DISPATCHED)
                     \<lparr>se_dispatchedId := Some (cq_dispatchedId q)\<rparr>))))"

definition consumeContinuation ::
  "(string \<Rightarrow> string) \<Rightarrow> string \<Rightarrow> sched_record option \<Rightarrow> consume_request \<Rightarrow> int \<Rightarrow> sched_result" where
  "consumeContinuation sha now ro q cur =
     (case validateConsumeRequest q of
        Some e \<Rightarrow> Inl e
      | None \<Rightarrow>
          (case ro of
             None \<Rightarrow> Inl Cs_ENOENT
           | Some r \<Rightarrow>
               let a = findActiveScheduleEvent r; x = active_expected a; d = findActiveDispatchEvent r in
               guarded_op (map_option fst (validateSchedulerStructure sha r))
                 (checkIdempotency r (cq_eventId q) (consume_fingerprint q))
                 ([must (IntNum (sr_revision r) = cq_expectedScheduler q) Cs_STALE_SCHEDULER_REVISION,
                   must (sr_state r = Sc_DISPATCHED) Cs_INVALID_STATE]
                  @ active_cycle_guards a (cq_cycleId q)
                  @ [must (\<not> above cur x) Cs_CYCLE_SUPERSEDED, must (\<not> below cur x) Cs_EXECUTION_REVISION_MISMATCH,
                     must (d \<noteq> None) Cs_INVALID_STATE,
                     must (Option.bind d se_dispatchedId = Some (cq_dispatchedId q)) Cs_INVALID_REQUEST,
                     must (x \<noteq> None) Cs_THROWS])
                 (append_event sha r
                    ((new_event r now Sk_CONSUME (cq_eventId q) (cq_cycleId q) (cq_expectedScheduler q)
                        (the x) Sc_IDLE)
                     \<lparr>se_dispatchedId := Some (cq_dispatchedId q), se_resultDigest := Some (cq_resultDigest q)\<rparr>))))"

definition cancelContinuation ::
  "(string \<Rightarrow> string) \<Rightarrow> string \<Rightarrow> sched_record option \<Rightarrow> cycle_request \<Rightarrow> int \<Rightarrow> sched_result" where
  "cancelContinuation sha now ro q cur =
     (case validateCycleRequest q of
        Some e \<Rightarrow> Inl e
      | None \<Rightarrow>
          (case ro of
             None \<Rightarrow> Inl Cs_ENOENT
           | Some r \<Rightarrow>
               let a = findActiveScheduleEvent r; x = active_expected a in
               guarded_op (map_option fst (validateSchedulerStructure sha r))
                 (checkIdempotency r (cq_eventId q) (cycle_fingerprint Sk_CANCEL q))
                 ([must (IntNum (sr_revision r) = cq_expectedScheduler q) Cs_STALE_SCHEDULER_REVISION,
                   must (sr_state r = Sc_SCHEDULED \<or> sr_state r = Sc_DISPATCHED) Cs_INVALID_STATE]
                  @ active_cycle_guards a (cq_cycleId q)
                  @ [must (\<not> below cur x) Cs_EXECUTION_REVISION_MISMATCH])
                 (append_event sha r
                    (new_event r now Sk_CANCEL (cq_eventId q) (cq_cycleId q) (cq_expectedScheduler q) cur Sc_IDLE))))"

definition abandonContinuation ::
  "(string \<Rightarrow> string) \<Rightarrow> string \<Rightarrow> sched_record option \<Rightarrow> cycle_request \<Rightarrow> int \<Rightarrow> sched_result" where
  "abandonContinuation sha now ro q cur =
     (case validateCycleRequest q of
        Some e \<Rightarrow> Inl e
      | None \<Rightarrow>
          (case ro of
             None \<Rightarrow> Inl Cs_ENOENT
           | Some r \<Rightarrow>
               let a = findActiveScheduleEvent r; x = active_expected a in
               guarded_op (map_option fst (validateSchedulerStructure sha r))
                 (checkIdempotency r (cq_eventId q) (cycle_fingerprint Sk_ABANDON q))
                 ([must (IntNum (sr_revision r) = cq_expectedScheduler q) Cs_STALE_SCHEDULER_REVISION,
                   must (sr_state r = Sc_SCHEDULED \<or> sr_state r = Sc_DISPATCHED) Cs_INVALID_STATE]
                  @ active_cycle_guards a (cq_cycleId q)
                  @ [must (\<not> below cur x) Cs_EXECUTION_REVISION_MISMATCH,
                     must (x \<noteq> Some cur) Cs_CYCLE_NOT_SUPERSEDED])
                 (append_event sha r
                    (new_event r now Sk_ABANDON (cq_eventId q) (cq_cycleId q) (cq_expectedScheduler q) cur Sc_IDLE))))"

end
