(* ===== verification/Scheduler_Replay.thy ===== *)
theory Scheduler_Replay
  imports Continuation_Scheduler
begin

text \<open>
  Reading a continuation scheduler record back (\<open>long-horizon/continuation-scheduler.ts\<close>): the
  replay of the event log with the message of the first inconsistency, the inspection and the
  validation against a contract and an execution (whose execution revision parameter the code
  does not read).  The em dash of two messages is printed as a hyphen.
\<close>

section \<open>Replaying the events\<close>

text \<open>The local variables of the loop; \<open>seenEventIds\<close> is the list of the identifiers met.\<close>

record replay_state =
  rp_revision :: int
  rp_state :: sched_state
  rp_cycleId :: "ident option"
  rp_dispatchedId :: "string option"
  rp_observed :: "int option"
  rp_previousDigest :: "string option"
  rp_seen :: "ident list"

definition replay_start :: replay_state where
  "replay_start = \<lparr>rp_revision = 0, rp_state = Sc_IDLE, rp_cycleId = None, rp_dispatchedId = None,
     rp_observed = None, rp_previousDigest = None, rp_seen = []\<rparr>"

text \<open>A template literal prints \<open>null\<close> and \<open>undefined\<close> by name.\<close>

definition or_null :: "string option \<Rightarrow> string" where
  "or_null x = (case x of None \<Rightarrow> ''null'' | Some s \<Rightarrow> s)"

definition or_undefined :: "string option \<Rightarrow> string" where
  "or_undefined x = (case x of None \<Rightarrow> ''undefined'' | Some s \<Rightarrow> s)"

definition ev_msg :: "nat \<Rightarrow> string \<Rightarrow> string" where
  "ev_msg i t = ''Event '' @ int_text (int i) @ '': '' @ t"

definition ev_id_msg :: "nat \<Rightarrow> sched_event \<Rightarrow> string \<Rightarrow> string" where
  "ev_id_msg i e t = ''Event '' @ int_text (int i) @ '' ('' @ se_eventId e @ ''): '' @ t"

definition paren :: "string \<Rightarrow> string" where
  "paren t = ''('' @ t @ '')''"

text \<open>The checks before the \<open>switch\<close>.\<close>

definition check_chain :: "(string \<Rightarrow> string) \<Rightarrow> nat \<Rightarrow> replay_state \<Rightarrow> sched_event \<Rightarrow> string option" where
  "check_chain sha i st e = first_some
     [must (computeEventDigest sha e = se_digest e)
        (ev_id_msg i e (''digest mismatch - expected '' @ computeEventDigest sha e @ '', got '' @ se_digest e)),
      must (se_previousDigest e = rp_previousDigest st)
        (ev_id_msg i e (''previousEventDigest mismatch - expected '' @ or_null (rp_previousDigest st) @ '', got ''
           @ or_null (se_previousDigest e))),
      must (se_eventId e \<notin> set (rp_seen st)) (ev_msg i (''duplicate eventId '' @ se_eventId e)),
      must (se_revisionBefore e = rp_revision st)
        (ev_id_msg i e (''revisionBefore '' @ int_text (se_revisionBefore e) @ '' != expected '' @ int_text (rp_revision st))),
      must (se_revisionAfter e = se_revisionBefore e + 1)
        (ev_id_msg i e (''revisionAfter '' @ int_text (se_revisionAfter e) @ '' != revisionBefore + 1 ''
           @ paren (int_text (se_revisionBefore e + 1)))),
      must (se_fromState e = rp_state st)
        (ev_id_msg i e (''fromState '' @ sched_state_text (se_fromState e) @ '' != expected '' @ sched_state_text (rp_state st)))]"

definition check_from :: "nat \<Rightarrow> sched_event \<Rightarrow> sched_state list \<Rightarrow> string \<Rightarrow> string option" where
  "check_from i e ss names = must (se_fromState e \<in> set ss)
     (ev_msg i (sched_kind_text (se_kind e) @ '' fromState must be '' @ names @ '', got '' @ sched_state_text (se_fromState e)))"

definition check_to :: "nat \<Rightarrow> sched_event \<Rightarrow> sched_state \<Rightarrow> string option" where
  "check_to i e s = must (se_toState e = s)
     (ev_msg i (sched_kind_text (se_kind e) @ '' toState must be '' @ sched_state_text s @ '', got '' @ sched_state_text (se_toState e)))"

definition check_cycle :: "nat \<Rightarrow> replay_state \<Rightarrow> sched_event \<Rightarrow> string option" where
  "check_cycle i st e = must (Some (se_cycleId e) = rp_cycleId st)
     (ev_msg i (sched_kind_text (se_kind e) @ '' cycleId '' @ paren (se_cycleId e) @ '' != active cycle '' @ paren (or_null (rp_cycleId st))))"

definition observed_msg :: "nat \<Rightarrow> replay_state \<Rightarrow> sched_event \<Rightarrow> string \<Rightarrow> string" where
  "observed_msg i st e rel = ev_msg i (sched_kind_text (se_kind e) @ '' observedExecutionRevision ''
     @ paren (int_text (se_observed e)) @ rel @ ''active expectedExecutionRevision '' @ paren (or_null (map_option int_text (rp_observed st))))"

definition check_kind :: "nat \<Rightarrow> replay_state \<Rightarrow> sched_event \<Rightarrow> string option" where
  "check_kind i st e = first_some (case se_kind e of
     Sk_SCHEDULE \<Rightarrow>
       [check_from i e [Sc_IDLE] ''IDLE'', check_to i e Sc_SCHEDULED,
        must (se_cycleId e = se_eventId e)
          (ev_msg i (''SCHEDULE cycleId '' @ paren (se_cycleId e) @ '' must equal eventId '' @ paren (se_eventId e))),
        must (se_expectedExecution e \<noteq> None) (ev_msg i ''SCHEDULE missing expectedExecutionRevision''),
        must (se_expectedExecution e = Some (se_observed e))
          (ev_msg i (''SCHEDULE observedExecutionRevision '' @ paren (int_text (se_observed e))
             @ '' != expectedExecutionRevision '' @ paren (or_undefined (map_option int_text (se_expectedExecution e)))))]
   | Sk_DISPATCH \<Rightarrow>
       [check_from i e [Sc_SCHEDULED] ''SCHEDULED'', check_to i e Sc_DISPATCHED, check_cycle i st e,
        must (Some (se_observed e) = rp_observed st) (observed_msg i st e '' != ''),
        must (se_dispatchedId e \<noteq> None) (ev_msg i ''DISPATCH missing dispatchedContinuationId'')]
   | Sk_CONSUME \<Rightarrow>
       [check_from i e [Sc_DISPATCHED] ''DISPATCHED'', check_to i e Sc_IDLE, check_cycle i st e,
        must (Some (se_observed e) = rp_observed st) (observed_msg i st e '' != ''),
        must (se_dispatchedId e \<noteq> None \<and> se_dispatchedId e = rp_dispatchedId st)
          (ev_msg i (''CONSUME dispatchedContinuationId '' @ paren (or_undefined (se_dispatchedId e)) @ '' != active ''
             @ paren (or_null (rp_dispatchedId st)))),
        must (case se_resultDigest e of None \<Rightarrow> False | Some d \<Rightarrow> \<not> js_blank d)
          (ev_msg i ''CONSUME missing or empty resultDigest'')]
   | Sk_CANCEL \<Rightarrow>
       [check_from i e [Sc_SCHEDULED, Sc_DISPATCHED] ''SCHEDULED or DISPATCHED'', check_to i e Sc_IDLE, check_cycle i st e,
        must (\<not> below (se_observed e) (rp_observed st)) (observed_msg i st e '' < '')]
   | Sk_ABANDON \<Rightarrow>
       [check_from i e [Sc_SCHEDULED, Sc_DISPATCHED] ''SCHEDULED or DISPATCHED'', check_to i e Sc_IDLE, check_cycle i st e,
        must (rp_observed st = None \<or> above (se_observed e) (rp_observed st)) (observed_msg i st e '' must be > '')])"

definition replay_update :: "(string \<Rightarrow> string) \<Rightarrow> sched_event list \<Rightarrow> replay_state \<Rightarrow> sched_event \<Rightarrow> replay_state" where
  "replay_update sha past st e =
     (let st' = st\<lparr>rp_revision := se_revisionAfter e, rp_previousDigest := computeHistoryDigest sha (past @ [e]),
                   rp_seen := se_eventId e # rp_seen st\<rparr> in
      case se_kind e of
        Sk_SCHEDULE \<Rightarrow> st'\<lparr>rp_state := Sc_SCHEDULED, rp_cycleId := Some (se_cycleId e),
          rp_observed := se_expectedExecution e, rp_dispatchedId := None\<rparr>
      | Sk_DISPATCH \<Rightarrow> st'\<lparr>rp_state := Sc_DISPATCHED, rp_dispatchedId := se_dispatchedId e\<rparr>
      | _ \<Rightarrow> st'\<lparr>rp_state := Sc_IDLE, rp_cycleId := None, rp_observed := None, rp_dispatchedId := None\<rparr>)"

definition replay_event ::
  "(string \<Rightarrow> string) \<Rightarrow> sched_event list \<Rightarrow> replay_state \<Rightarrow> sched_event \<Rightarrow> string + replay_state" where
  "replay_event sha past st e =
     (case first_some [check_chain sha (length past) st e, check_kind (length past) st e] of
        Some m \<Rightarrow> Inl m
      | None \<Rightarrow> Inr (replay_update sha past st e))"

fun replay_events ::
  "(string \<Rightarrow> string) \<Rightarrow> sched_event list \<Rightarrow> replay_state \<Rightarrow> sched_event list \<Rightarrow> string + replay_state" where
  "replay_events sha past st [] = Inr st"
| "replay_events sha past st (e # es) =
     (case replay_event sha past st e of
        Inl m \<Rightarrow> Inl m
      | Inr st' \<Rightarrow> replay_events sha (past @ [e]) st' es)"

definition replayAndVerifyEvents :: "(string \<Rightarrow> string) \<Rightarrow> sched_event list \<Rightarrow> string option" where
  "replayAndVerifyEvents sha es =
     (case replay_events sha [] replay_start es of Inl m \<Rightarrow> Some m | Inr st \<Rightarrow> None)"

section \<open>Inspection and validation\<close>

record sched_inspection =
  sn_valid :: bool
  sn_executionId :: string
  sn_contractDigest :: string
  sn_schedulerRevision :: int
  sn_state :: sched_state
  sn_eventCount :: nat
  sn_historyDigest :: "string option"
  sn_error :: "string option"

definition inspection_of :: "sched_record \<Rightarrow> string option \<Rightarrow> sched_inspection" where
  "inspection_of r err =
     \<lparr>sn_valid = (err = None), sn_executionId = sr_executionId r, sn_contractDigest = sr_contractDigest r,
      sn_schedulerRevision = sr_revision r, sn_state = sr_state r, sn_eventCount = length (sr_events r),
      sn_historyDigest = sr_historyDigest r, sn_error = err\<rparr>"

definition inspectContinuationScheduler :: "(string \<Rightarrow> string) \<Rightarrow> sched_record \<Rightarrow> sched_inspection" where
  "inspectContinuationScheduler sha r =
     (case validateSchedulerStructure sha r of
        Some (c, m) \<Rightarrow>
          \<lparr>sn_valid = False, sn_executionId = [], sn_contractDigest = [], sn_schedulerRevision = 0, sn_state = Sc_IDLE,
           sn_eventCount = 0, sn_historyDigest = None, sn_error = Some m\<rparr>
      | None \<Rightarrow> inspection_of r (replayAndVerifyEvents sha (sr_events r)))"

record sched_validation =
  sv_valid :: bool
  sv_schedulerRevision :: int
  sv_state :: sched_state
  sv_eventCount :: nat
  sv_contractBound :: bool
  sv_executionBound :: bool
  sv_semanticValid :: bool
  sv_error :: "string option"

fun join_semicolon :: "string list \<Rightarrow> string" where
  "join_semicolon [] = []"
| "join_semicolon [x] = x"
| "join_semicolon (x # xs) = x @ ''; '' @ join_semicolon xs"

definition validateContinuationScheduler ::
  "(string \<Rightarrow> string) \<Rightarrow> sched_record \<Rightarrow> string \<Rightarrow> ident \<Rightarrow> sched_validation" where
  "validateContinuationScheduler sha r digest execution =
     (let contractBound = (sr_contractDigest r = digest); executionBound = (sr_executionId r = execution);
          base = \<lparr>sv_valid = False, sv_schedulerRevision = sr_revision r, sv_state = sr_state r,
            sv_eventCount = length (sr_events r), sv_contractBound = contractBound, sv_executionBound = executionBound,
            sv_semanticValid = False, sv_error = None\<rparr> in
      case validateSchedulerStructure sha r of
        Some (c, m) \<Rightarrow> base\<lparr>sv_error := Some m\<rparr>
      | None \<Rightarrow>
          let replayError = replayAndVerifyEvents sha (sr_events r); semanticValid = (replayError = None);
              valid = (contractBound \<and> executionBound \<and> semanticValid) in
          base\<lparr>sv_valid := valid, sv_semanticValid := semanticValid,
            sv_error := (if valid then None else Some (join_semicolon
              ((if contractBound then [] else [''contract digest mismatch'']) @
               (if executionBound then [] else [''execution ID mismatch'']) @
               (case replayError of None \<Rightarrow> [] | Some m \<Rightarrow> [m]))))\<rparr>)"

end
