(* ===== verification/Scheduler_Properties.thy ===== *)
theory Scheduler_Properties
  imports Scheduler_Replay
begin

text \<open>
  The continuation scheduler as an abstract machine: between two cycles, a cycle waiting to be
  dispatched, a cycle that runs.  The lemmas connect the event log, its replay, the search for
  the active events and the abstract phase.
\<close>

section \<open>The abstract machine\<close>

datatype phase = No_Cycle | Waiting ident int | Running ident int string

datatype sched_command =
    Do_Schedule schedule_request
  | Do_Dispatch dispatch_request
  | Do_Consume consume_request
  | Do_Cancel cycle_request
  | Do_Abandon cycle_request

fun spec_step :: "phase \<Rightarrow> sched_command \<Rightarrow> int \<Rightarrow> sched_error + phase" where
  "spec_step ph (Do_Schedule q) cur =
     (case ph of No_Cycle \<Rightarrow> Inr (Waiting (sq_eventId q) (number_int (sq_expectedExecution q)))
      | _ \<Rightarrow> Inl Cs_INVALID_STATE)"
| "spec_step ph (Do_Dispatch q) cur =
     (case ph of Waiting c x \<Rightarrow>
        if cq_cycleId q \<noteq> c then Inl Cs_INVALID_CYCLE
        else if cur > x then Inl Cs_CYCLE_SUPERSEDED
        else if cur < x then Inl Cs_EXECUTION_REVISION_MISMATCH
        else Inr (Running c x (cq_dispatchedId q))
      | _ \<Rightarrow> Inl Cs_INVALID_STATE)"
| "spec_step ph (Do_Consume q) cur =
     (case ph of Running c x d \<Rightarrow>
        if cq_cycleId q \<noteq> c then Inl Cs_INVALID_CYCLE
        else if cur > x then Inl Cs_CYCLE_SUPERSEDED
        else if cur < x then Inl Cs_EXECUTION_REVISION_MISMATCH
        else if cq_dispatchedId q \<noteq> d then Inl Cs_INVALID_REQUEST
        else Inr No_Cycle
      | _ \<Rightarrow> Inl Cs_INVALID_STATE)"
| "spec_step ph (Do_Cancel q) cur =
     (let cancel = (\<lambda>c x. if cq_cycleId q \<noteq> c then Inl Cs_INVALID_CYCLE
        else if cur < x then Inl Cs_EXECUTION_REVISION_MISMATCH else Inr No_Cycle) in
      case ph of No_Cycle \<Rightarrow> Inl Cs_INVALID_STATE | Waiting c x \<Rightarrow> cancel c x | Running c x d \<Rightarrow> cancel c x)"
| "spec_step ph (Do_Abandon q) cur =
     (let abandon = (\<lambda>c x. if cq_cycleId q \<noteq> c then Inl Cs_INVALID_CYCLE
        else if cur < x then Inl Cs_EXECUTION_REVISION_MISMATCH
        else if cur = x then Inl Cs_CYCLE_NOT_SUPERSEDED else Inr No_Cycle) in
      case ph of No_Cycle \<Rightarrow> Inl Cs_INVALID_STATE | Waiting c x \<Rightarrow> abandon c x | Running c x d \<Rightarrow> abandon c x)"

fun cmd_eventId :: "sched_command \<Rightarrow> ident" where
  "cmd_eventId (Do_Schedule q) = sq_eventId q"
| "cmd_eventId (Do_Dispatch q) = cq_eventId q"
| "cmd_eventId (Do_Consume q) = cq_eventId q"
| "cmd_eventId (Do_Cancel q) = cq_eventId q"
| "cmd_eventId (Do_Abandon q) = cq_eventId q"

fun cmd_expected :: "sched_command \<Rightarrow> js_number" where
  "cmd_expected (Do_Schedule q) = sq_expectedScheduler q"
| "cmd_expected (Do_Dispatch q) = cq_expectedScheduler q"
| "cmd_expected (Do_Consume q) = cq_expectedScheduler q"
| "cmd_expected (Do_Cancel q) = cq_expectedScheduler q"
| "cmd_expected (Do_Abandon q) = cq_expectedScheduler q"

fun cmd_valid :: "sched_command \<Rightarrow> sched_error option" where
  "cmd_valid (Do_Schedule q) = validateScheduleRequest q"
| "cmd_valid (Do_Dispatch q) = validateDispatchRequest q"
| "cmd_valid (Do_Consume q) = validateConsumeRequest q"
| "cmd_valid (Do_Cancel q) = validateCycleRequest q"
| "cmd_valid (Do_Abandon q) = validateCycleRequest q"

fun cmd_fingerprint :: "sched_command \<Rightarrow> fingerprint" where
  "cmd_fingerprint (Do_Schedule q) = schedule_fingerprint q"
| "cmd_fingerprint (Do_Dispatch q) = dispatch_fingerprint q"
| "cmd_fingerprint (Do_Consume q) = consume_fingerprint q"
| "cmd_fingerprint (Do_Cancel q) = cycle_fingerprint Sk_CANCEL q"
| "cmd_fingerprint (Do_Abandon q) = cycle_fingerprint Sk_ABANDON q"

text \<open>One command on a scheduler, at a current execution revision.\<close>

fun sched_step :: "(string \<Rightarrow> string) \<Rightarrow> string \<Rightarrow> int \<Rightarrow> sched_record option \<Rightarrow> sched_command \<Rightarrow> sched_result" where
  "sched_step sha now cur ro (Do_Schedule q) = scheduleContinuation sha now ro q"
| "sched_step sha now cur ro (Do_Dispatch q) = dispatchContinuation sha now ro q cur"
| "sched_step sha now cur ro (Do_Consume q) = consumeContinuation sha now ro q cur"
| "sched_step sha now cur ro (Do_Cancel q) = cancelContinuation sha now ro q cur"
| "sched_step sha now cur ro (Do_Abandon q) = abandonContinuation sha now ro q cur"

inductive sched_reach :: "(string \<Rightarrow> string) \<Rightarrow> ident \<Rightarrow> string \<Rightarrow> sched_record \<Rightarrow> bool"
  for sha :: "string \<Rightarrow> string" and i :: ident and d :: string where
  start: "sched_reach sha i d (initializeContinuationScheduler i d)"
| step: "sched_reach sha i d r \<Longrightarrow> sched_step sha now cur (Some r) cmd = Inr (r', e) \<Longrightarrow> sched_reach sha i d r'"

section \<open>The phase a log has reached\<close>

definition phase_after :: "phase \<Rightarrow> sched_event \<Rightarrow> phase" where
  "phase_after ph e =
     (case se_kind e of
        Sk_SCHEDULE \<Rightarrow> Waiting (se_cycleId e) (the (se_expectedExecution e))
      | Sk_DISPATCH \<Rightarrow> (case ph of Waiting c x \<Rightarrow> Running c x (the (se_dispatchedId e)) | _ \<Rightarrow> ph)
      | _ \<Rightarrow> No_Cycle)"

definition log_phase :: "sched_event list \<Rightarrow> phase" where
  "log_phase es = foldl phase_after No_Cycle es"

lemma log_phase_snoc [simp]: "log_phase [] = No_Cycle" "log_phase (es @ [e]) = phase_after (log_phase es) e"
  by (simp_all add: log_phase_def)

fun matches :: "replay_state \<Rightarrow> phase \<Rightarrow> bool" where
  "matches st No_Cycle \<longleftrightarrow> rp_state st = Sc_IDLE \<and> rp_cycleId st = None \<and> rp_observed st = None \<and> rp_dispatchedId st = None"
| "matches st (Waiting c x) \<longleftrightarrow>
     rp_state st = Sc_SCHEDULED \<and> rp_cycleId st = Some c \<and> rp_observed st = Some x \<and> rp_dispatchedId st = None"
| "matches st (Running c x d) \<longleftrightarrow>
     rp_state st = Sc_DISPATCHED \<and> rp_cycleId st = Some c \<and> rp_observed st = Some x \<and> rp_dispatchedId st = Some d"

lemma replay_events_append:
  "replay_events sha past st (es @ [e]) =
     (case replay_events sha past st es of Inl m \<Rightarrow> Inl m | Inr st' \<Rightarrow> replay_event sha (past @ es) st' e)"
  by (induction es arbitrary: past st) (auto split: sum.splits)

lemma replay_event_Inr:
  "replay_event sha past st e = Inr st' \<longleftrightarrow>
     check_chain sha (length past) st e = None \<and> check_kind (length past) st e = None \<and> st' = replay_update sha past st e"
  by (auto simp: replay_event_def check_simps first_some.simps split: option.splits)

lemma check_chain_None:
  "check_chain sha i st e = None \<longleftrightarrow>
     computeEventDigest sha e = se_digest e \<and> se_previousDigest e = rp_previousDigest st \<and> se_eventId e \<notin> set (rp_seen st) \<and>
     se_revisionBefore e = rp_revision st \<and> se_revisionAfter e = se_revisionBefore e + 1 \<and> se_fromState e = rp_state st"
  by (simp add: check_chain_def check_simps)

text \<open>The checks of the \<open>switch\<close>, read as facts about the event.\<close>

lemma check_kind_None:
  "check_kind i st e = None \<longleftrightarrow>
     (case se_kind e of
        Sk_SCHEDULE \<Rightarrow> se_fromState e = Sc_IDLE \<and> se_toState e = Sc_SCHEDULED \<and> se_cycleId e = se_eventId e \<and>
          se_expectedExecution e = Some (se_observed e)
      | Sk_DISPATCH \<Rightarrow> se_fromState e = Sc_SCHEDULED \<and> se_toState e = Sc_DISPATCHED \<and> Some (se_cycleId e) = rp_cycleId st \<and>
          Some (se_observed e) = rp_observed st \<and> se_dispatchedId e \<noteq> None
      | Sk_CONSUME \<Rightarrow> se_fromState e = Sc_DISPATCHED \<and> se_toState e = Sc_IDLE \<and> Some (se_cycleId e) = rp_cycleId st \<and>
          Some (se_observed e) = rp_observed st \<and> se_dispatchedId e \<noteq> None \<and> se_dispatchedId e = rp_dispatchedId st \<and>
          (\<exists>d. se_resultDigest e = Some d \<and> \<not> js_blank d)
      | Sk_CANCEL \<Rightarrow> se_fromState e \<noteq> Sc_IDLE \<and> se_toState e = Sc_IDLE \<and> Some (se_cycleId e) = rp_cycleId st \<and>
          \<not> below (se_observed e) (rp_observed st)
      | Sk_ABANDON \<Rightarrow> se_fromState e \<noteq> Sc_IDLE \<and> se_toState e = Sc_IDLE \<and> Some (se_cycleId e) = rp_cycleId st \<and>
          (rp_observed st = None \<or> above (se_observed e) (rp_observed st)))"
proof -
  have "se_fromState e \<in> {Sc_SCHEDULED, Sc_DISPATCHED} \<longleftrightarrow> se_fromState e \<noteq> Sc_IDLE"
    by (cases "se_fromState e") simp_all
  then show ?thesis
    by (auto simp: check_kind_def check_simps check_from_def check_to_def check_cycle_def split: sched_kind.splits option.splits)
qed

lemma update_fields [simp]:
  "rp_revision (replay_update sha past st e) = se_revisionAfter e"
  "rp_previousDigest (replay_update sha past st e) = computeHistoryDigest sha (past @ [e])"
  "rp_seen (replay_update sha past st e) = se_eventId e # rp_seen st"
  by (simp_all add: replay_update_def Let_def split: sched_kind.splits)

text \<open>What a successful replay knows.\<close>

lemma replay_knows:
  assumes "replay_events sha [] replay_start es = Inr st"
  shows "rp_revision st = int (length es) \<and> rp_previousDigest st = computeHistoryDigest sha es \<and>
    rp_seen st = rev (map se_eventId es) \<and> matches st (log_phase es)"
  using assms
proof (induction es arbitrary: st rule: rev_induct)
  case Nil
  then show ?case by (auto simp: replay_start_def computeHistoryDigest_def)
next
  case (snoc e es)
  then obtain s where s: "replay_events sha [] replay_start es = Inr s" "replay_event sha es s e = Inr st"
    by (auto simp: replay_events_append split: sum.splits)
  note IH = snoc.IH [OF s(1)]
  note chk = s(2) [unfolded replay_event_Inr check_chain_None check_kind_None]
  have "matches st (log_phase (es @ [e]))"
    using IH chk by (cases "log_phase es"; cases "se_kind e") (auto simp: replay_update_def phase_after_def Let_def)
  then show ?case using IH chk by simp
qed

section \<open>The open events\<close>

fun open_events :: "sched_kind \<Rightarrow> (sched_event \<Rightarrow> ident) \<Rightarrow> sched_event list \<Rightarrow> sched_event list" where
  "open_events k cycle [] = []"
| "open_events k cycle (e # es) =
     (if se_kind e = k \<and> \<not> list_ex (closes (cycle e)) es then e # open_events k cycle es else open_events k cycle es)"

lemma last_open_eq:
  "last_open k cycle es = (if open_events k cycle es = [] then None else Some (last (open_events k cycle es)))"
  by (induction es) auto

lemma open_events_snoc:
  "open_events k cycle (es @ [e]) =
     filter (\<lambda>a. \<not> closes (cycle a) e) (open_events k cycle es) @ (if se_kind e = k then [e] else [])"
  by (induction es) auto

fun open_as :: "phase \<Rightarrow> sched_event list \<Rightarrow> bool" where
  "open_as No_Cycle es \<longleftrightarrow> open_events Sk_SCHEDULE se_eventId es = [] \<and> open_events Sk_DISPATCH se_cycleId es = []"
| "open_as (Waiting c x) es \<longleftrightarrow>
     (\<exists>a. open_events Sk_SCHEDULE se_eventId es = [a] \<and> se_eventId a = c \<and> se_expectedExecution a = Some x) \<and>
     open_events Sk_DISPATCH se_cycleId es = []"
| "open_as (Running c x d) es \<longleftrightarrow>
     (\<exists>a. open_events Sk_SCHEDULE se_eventId es = [a] \<and> se_eventId a = c \<and> se_expectedExecution a = Some x) \<and>
     (\<exists>b. open_events Sk_DISPATCH se_cycleId es = [b] \<and> se_cycleId b = c \<and> se_dispatchedId b = Some d)"

lemma replay_open:
  "replay_events sha [] replay_start es = Inr st \<Longrightarrow> open_as (log_phase es) es"
proof (induction es arbitrary: st rule: rev_induct)
  case (snoc e es)
  then obtain s where s: "replay_events sha [] replay_start es = Inr s" "replay_event sha es s e = Inr st"
    by (auto simp: replay_events_append split: sum.splits)
  note m = replay_knows [OF s(1)]
  note chk = s(2) [unfolded replay_event_Inr check_chain_None check_kind_None]
  show ?case
    using snoc.IH [OF s(1)] m chk
    by (cases "log_phase es"; cases "se_kind e") (auto simp: open_events_snoc phase_after_def closes_def)
qed simp

section \<open>Well-formed records\<close>

definition phase_of :: "sched_record \<Rightarrow> phase" where
  "phase_of r = log_phase (sr_events r)"

definition sched_wf :: "(string \<Rightarrow> string) \<Rightarrow> sched_record \<Rightarrow> bool" where
  "sched_wf sha r \<longleftrightarrow> sr_version r = 1 \<and> sr_revision r = int (length (sr_events r)) \<and>
     sr_historyDigest r = computeHistoryDigest sha (sr_events r) \<and>
     (\<exists>st. replay_events sha [] replay_start (sr_events r) = Inr st \<and> sr_state r = rp_state st)"

fun phase_state :: "phase \<Rightarrow> sched_state" where
  "phase_state No_Cycle = Sc_IDLE"
| "phase_state (Waiting c x) = Sc_SCHEDULED"
| "phase_state (Running c x d) = Sc_DISPATCHED"

lemma wf_state: "sched_wf sha r \<Longrightarrow> sr_state r = phase_state (phase_of r)"
  using replay_knows by (cases "phase_of r") (force simp: sched_wf_def phase_of_def)+

fun phase_expected :: "phase \<Rightarrow> (ident \<times> int) option" where
  "phase_expected No_Cycle = None"
| "phase_expected (Waiting c x) = Some (c, x)"
| "phase_expected (Running c x d) = Some (c, x)"

lemma wf_active:
  assumes "sched_wf sha r"
  shows "map_option se_eventId (findActiveScheduleEvent r) = map_option fst (phase_expected (phase_of r))"
    and "active_expected (findActiveScheduleEvent r) = map_option snd (phase_expected (phase_of r))"
    and "Option.bind (findActiveDispatchEvent r) se_dispatchedId = (case phase_of r of Running c x d \<Rightarrow> Some d | _ \<Rightarrow> None)"
proof -
  have "open_as (phase_of r) (sr_events r)"
    using assms replay_open by (auto simp: sched_wf_def phase_of_def)
  then show "map_option se_eventId (findActiveScheduleEvent r) = map_option fst (phase_expected (phase_of r))"
    and "active_expected (findActiveScheduleEvent r) = map_option snd (phase_expected (phase_of r))"
    and "Option.bind (findActiveDispatchEvent r) se_dispatchedId = (case phase_of r of Running c x d \<Rightarrow> Some d | _ \<Rightarrow> None)"
    by (cases "phase_of r";
        auto simp: findActiveScheduleEvent_def findActiveDispatchEvent_def last_open_eq active_expected_def)+
qed

lemma validateSchedulerStructure_None:
  "validateSchedulerStructure sha r = None \<longleftrightarrow>
     sr_version r = 1 \<and> \<not> js_blank (sr_executionId r) \<and> \<not> js_blank (sr_contractDigest r) \<and>
     safe_revision (IntNum (sr_revision r)) \<and> sr_historyDigest r = computeHistoryDigest sha (sr_events r)"
  by (simp add: validateSchedulerStructure_def check_simps)

definition usable :: "sched_record \<Rightarrow> bool" where
  "usable r \<longleftrightarrow> \<not> js_blank (sr_executionId r) \<and> \<not> js_blank (sr_contractDigest r) \<and> sr_revision r \<le> 9007199254740991"

lemma wf_structure: "sched_wf sha r \<Longrightarrow> validateSchedulerStructure sha r = None \<longleftrightarrow> usable r"
  by (auto simp: validateSchedulerStructure_None usable_def sched_wf_def safe_revision_def safe_integer_def)

lemma wf_initial [simp]: "sched_wf sha (initializeContinuationScheduler i d)"
  by (simp add: sched_wf_def initializeContinuationScheduler_def replay_start_def computeHistoryDigest_def)

section \<open>The operations refine the abstract machine\<close>

text \<open>The event a command appends when it succeeds.\<close>

fun cmd_event :: "sched_record \<Rightarrow> string \<Rightarrow> int \<Rightarrow> sched_command \<Rightarrow> sched_event" where
  "cmd_event r now cur (Do_Schedule q) =
     (new_event r now Sk_SCHEDULE (sq_eventId q) (sq_eventId q) (sq_expectedScheduler q)
        (number_int (sq_expectedExecution q)) Sc_SCHEDULED)
     \<lparr>se_expectedExecution := Some (number_int (sq_expectedExecution q))\<rparr>"
| "cmd_event r now cur (Do_Dispatch q) =
     (new_event r now Sk_DISPATCH (cq_eventId q) (cq_cycleId q) (cq_expectedScheduler q) cur Sc_DISPATCHED)
     \<lparr>se_dispatchedId := Some (cq_dispatchedId q)\<rparr>"
| "cmd_event r now cur (Do_Consume q) =
     (new_event r now Sk_CONSUME (cq_eventId q) (cq_cycleId q) (cq_expectedScheduler q) cur Sc_IDLE)
     \<lparr>se_dispatchedId := Some (cq_dispatchedId q), se_resultDigest := Some (cq_resultDigest q)\<rparr>"
| "cmd_event r now cur (Do_Cancel q) =
     new_event r now Sk_CANCEL (cq_eventId q) (cq_cycleId q) (cq_expectedScheduler q) cur Sc_IDLE"
| "cmd_event r now cur (Do_Abandon q) =
     new_event r now Sk_ABANDON (cq_eventId q) (cq_cycleId q) (cq_expectedScheduler q) cur Sc_IDLE"

text \<open>The answer to a well-formed command on a well-formed record.\<close>

definition answer :: "(string \<Rightarrow> string) \<Rightarrow> string \<Rightarrow> int \<Rightarrow> sched_record \<Rightarrow> sched_command \<Rightarrow> sched_result" where
  "answer sha now cur r cmd =
     (case checkIdempotency r (cmd_eventId cmd) (cmd_fingerprint cmd) of
        Some x \<Rightarrow> x
      | None \<Rightarrow>
          if cmd_expected cmd \<noteq> IntNum (sr_revision r) then Inl Cs_STALE_SCHEDULER_REVISION
          else (case spec_step (phase_of r) cmd cur of
                  Inl e \<Rightarrow> Inl e
                | Inr ph \<Rightarrow> Inr (append_event sha r (cmd_event r now cur cmd))))"

lemmas op_defs = scheduleContinuation_def dispatchContinuation_def consumeContinuation_def
  cancelContinuation_def abandonContinuation_def

lemma wf_lookup:
  assumes "sched_wf sha r"
  obtains (idle) "phase_of r = No_Cycle" "sr_state r = Sc_IDLE" "findActiveScheduleEvent r = None"
  | (waiting) c x a where "phase_of r = Waiting c x" "sr_state r = Sc_SCHEDULED" "findActiveScheduleEvent r = Some a"
      "se_eventId a = c" "active_expected (Some a) = Some x"
  | (running) c x d a b where "phase_of r = Running c x d" "sr_state r = Sc_DISPATCHED"
      "findActiveScheduleEvent r = Some a" "se_eventId a = c" "active_expected (Some a) = Some x"
      "findActiveDispatchEvent r = Some b" "se_dispatchedId b = Some d"
proof -
  note act = wf_active [OF assms]
  note st = wf_state [OF assms]
  show thesis
  proof (cases "phase_of r")
    case No_Cycle
    then show thesis using act(1) st idle by simp
  next
    case (Waiting c x)
    then show thesis using act(1,2) st waiting by auto
  next
    case (Running c x d)
    then show thesis using act st running by (cases "findActiveDispatchEvent r") auto
  qed
qed

lemma guarded_fresh: "guarded_op None None gs res = (case first_some gs of Some e \<Rightarrow> Inl e | None \<Rightarrow> Inr res)"
  by (simp add: guarded_op_def)

lemma guarded_idem: "guarded_op None (Some x) gs res = x"
  by (simp add: guarded_op_def)

lemma first_some_must:
  "first_some [] = None" "first_some (must b e # gs) = (if b then first_some gs else Some e)"
  by (simp_all add: first_some.simps must_def)

lemma sched_step_answer:
  assumes wf: "sched_wf sha r" and ok: "usable r" and valid: "cmd_valid cmd = None"
  shows "sched_step sha now cur (Some r) cmd = answer sha now cur r cmd"
proof -
  have struct: "validateSchedulerStructure sha r = None" using wf_structure [OF wf] ok by simp
  show ?thesis
  proof (cases "checkIdempotency r (cmd_eventId cmd) (cmd_fingerprint cmd)")
    case (Some x)
    then show ?thesis
      using struct valid by (cases cmd) (simp_all add: answer_def guarded_idem op_defs Let_def)
  next
    case None
    from wf show ?thesis
    proof (cases rule: wf_lookup)
      case idle
      then show ?thesis using None struct valid
        by (cases cmd) (simp_all add: answer_def guarded_fresh op_defs Let_def first_some_must active_cycle_guards_def)
    next
      case waiting
      then show ?thesis using None struct valid
        by (cases cmd) (simp_all add: answer_def guarded_fresh op_defs Let_def first_some_must active_cycle_guards_def
            above_def below_def)
    next
      case running
      then show ?thesis using None struct valid
        by (cases cmd) (simp_all add: answer_def guarded_fresh op_defs Let_def first_some_must active_cycle_guards_def
            above_def below_def)
    qed
  qed
qed

section \<open>Well-formedness is an invariant\<close>

lemma digest_ignores [simp]:
  "computeEventDigest sha (e\<lparr>se_digest := x\<rparr>) = computeEventDigest sha e"
  "computeEventDigest sha (e\<lparr>se_createdAt := x\<rparr>) = computeEventDigest sha e"
  by (simp_all add: computeEventDigest_def event_text_def event_canonical_def)

lemma cmd_event_id [simp]: "se_eventId (cmd_event r now cur cmd) = cmd_eventId cmd"
  by (cases cmd) (simp_all add: new_event_def)

lemma cmd_event_chain [simp]:
  "se_previousDigest (cmd_event r now cur cmd) = sr_historyDigest r"
  "se_revisionBefore (cmd_event r now cur cmd) = sr_revision r"
  "se_revisionAfter (cmd_event r now cur cmd) = sr_revision r + 1"
  "se_fromState (cmd_event r now cur cmd) = sr_state r"
  by (cases cmd; simp add: new_event_def)+

lemma append_event_fields:
  assumes "append_event sha r e = (r', e')"
  shows "sr_version r' = 1 \<and> sr_executionId r' = sr_executionId r \<and> sr_contractDigest r' = sr_contractDigest r \<and>
    sr_revision r' = se_revisionAfter e \<and> sr_state r' = se_toState e \<and> sr_events r' = sr_events r @ [e'] \<and>
    sr_historyDigest r' = computeHistoryDigest sha (sr_events r @ [e']) \<and> e' = e\<lparr>se_digest := computeEventDigest sha e\<rparr>"
  using assms by (auto simp: append_event_def Let_def)

lemma cmd_event_kind:
  assumes "matches st ph" and "spec_step ph cmd cur = Inr ph'" and "cmd_valid cmd = None" and "rp_state st = sr_state r"
  shows "check_kind i st ((cmd_event r now cur cmd)\<lparr>se_digest := x\<rparr>) = None \<and>
    phase_after ph ((cmd_event r now cur cmd)\<lparr>se_digest := x\<rparr>) = ph' \<and>
    se_toState (cmd_event r now cur cmd) = phase_state ph'"
proof (cases cmd)
  case (Do_Schedule q)
  then show ?thesis using assms
    by (cases ph) (auto simp: check_kind_None phase_after_def new_event_def)
next
  case (Do_Dispatch q)
  then show ?thesis using assms
    by (cases ph) (auto simp: check_kind_None phase_after_def new_event_def split: if_splits)
next
  case (Do_Consume q)
  then show ?thesis using assms
    by (cases ph) (auto simp: check_kind_None phase_after_def new_event_def validateConsumeRequest_def check_simps split: if_splits)
next
  case (Do_Cancel q)
  then show ?thesis using assms
    by (cases ph) (auto simp: check_kind_None phase_after_def new_event_def below_def split: if_splits)
next
  case (Do_Abandon q)
  then show ?thesis using assms
    by (cases ph) (auto simp: check_kind_None phase_after_def new_event_def above_def split: if_splits)
qed

lemma matches_state: "matches st ph \<Longrightarrow> rp_state st = phase_state ph"
  by (cases ph) simp_all

lemma append_wf:
  assumes wf: "sched_wf sha r" and valid: "cmd_valid cmd = None" and spec: "spec_step (phase_of r) cmd cur = Inr ph"
    and fresh: "cmd_eventId cmd \<notin> se_eventId ` set (sr_events r)"
    and app: "append_event sha r (cmd_event r now cur cmd) = (r', e)"
  shows "sched_wf sha r' \<and> phase_of r' = ph"
proof -
  note f = append_event_fields [OF app]
  from wf obtain st where st: "replay_events sha [] replay_start (sr_events r) = Inr st" "sr_state r = rp_state st"
    and h: "sr_historyDigest r = computeHistoryDigest sha (sr_events r)" "sr_revision r = int (length (sr_events r))"
    by (auto simp: sched_wf_def)
  note k = replay_knows [OF st(1)]
  have m: "matches st (phase_of r)" using k by (simp add: phase_of_def)
  have kind: "check_kind (length (sr_events r)) st e = None" "phase_after (phase_of r) e = ph"
    "se_toState e = phase_state ph"
    using cmd_event_kind [OF m spec valid st(2) [symmetric]] f by simp_all
  have "check_chain sha (length (sr_events r)) st e = None"
    using f k h st(2) fresh by (simp add: check_chain_None)
  then have "replay_events sha [] replay_start (sr_events r') = Inr (replay_update sha (sr_events r) st e)"
    using f kind(1) st(1) by (simp add: replay_events_append replay_event_Inr)
  moreover from this have "rp_state (replay_update sha (sr_events r) st e) = phase_state (phase_of r')"
    using replay_knows matches_state by (metis phase_of_def)
  moreover have "phase_of r' = ph" using f kind(2) by (simp add: phase_of_def)
  ultimately show ?thesis
    using f h(2) kind(3) by (auto simp: sched_wf_def)
qed

text \<open>A success needs a well-formed request and a usable record.\<close>

lemma step_needs:
  assumes "sched_step sha now cur (Some r) cmd = Inr x"
  shows "cmd_valid cmd = None \<and> validateSchedulerStructure sha r = None"
  using assms by (cases cmd) (auto simp: op_defs guarded_op_def Let_def split: option.splits)

lemma idempotency_None: "checkIdempotency r i f = None \<longleftrightarrow> i \<notin> se_eventId ` set (sr_events r)"
  using find_eq_None [of "\<lambda>e. se_eventId e = i" "sr_events r"]
  by (auto simp: checkIdempotency_def split: option.splits)

lemma idempotency_Inr: "checkIdempotency r i f = Some (Inr (r', e)) \<Longrightarrow> r' = r \<and> e \<in> set (sr_events r)"
  by (auto simp: checkIdempotency_def dest: find_Some_iff_mem split: option.splits if_splits)

text \<open>The two ways to succeed: the answer to a retry, or one appended event.\<close>

lemma step_cases:
  assumes wf: "sched_wf sha r" and step: "sched_step sha now cur (Some r) cmd = Inr (r', e)"
  obtains (retry) "r' = r" "e \<in> set (sr_events r)"
      "checkIdempotency r (cmd_eventId cmd) (cmd_fingerprint cmd) = Some (Inr (r, e))"
  | (fresh) "cmd_eventId cmd \<notin> se_eventId ` set (sr_events r)" "cmd_expected cmd = IntNum (sr_revision r)"
      "spec_step (phase_of r) cmd cur = Inr (phase_of r')" "sched_wf sha r'"
      "append_event sha r (cmd_event r now cur cmd) = (r', e)"
proof -
  have n: "cmd_valid cmd = None" "usable r" using step_needs [OF step] wf_structure [OF wf] by simp_all
  have a: "answer sha now cur r cmd = Inr (r', e)"
    using step sched_step_answer [OF wf n(2,1)] by metis
  show thesis
  proof (cases "checkIdempotency r (cmd_eventId cmd) (cmd_fingerprint cmd)")
    case (Some x)
    then show thesis using a idempotency_Inr retry by (fastforce simp: answer_def)
  next
    case None
    then obtain ph where ph: "spec_step (phase_of r) cmd cur = Inr ph" "cmd_expected cmd = IntNum (sr_revision r)"
      "append_event sha r (cmd_event r now cur cmd) = (r', e)"
      using a by (auto simp: answer_def split: if_splits sum.splits)
    have "cmd_eventId cmd \<notin> se_eventId ` set (sr_events r)" using None idempotency_None by blast
    then show thesis using append_wf [OF wf n(1) ph(1) _ ph(3)] ph fresh by metis
  qed
qed

lemma step_wf: "sched_wf sha r \<Longrightarrow> sched_step sha now cur (Some r) cmd = Inr (r', e) \<Longrightarrow> sched_wf sha r'"
  using step_cases by metis

lemma reach_wf: "sched_reach sha i d r \<Longrightarrow> sched_wf sha r"
  by (induction rule: sched_reach.induct) (auto intro: step_wf)

lemma step_identity:
  assumes "sched_wf sha r" and "sched_step sha now cur (Some r) cmd = Inr (r', e)"
  shows "sr_executionId r' = sr_executionId r \<and> sr_contractDigest r' = sr_contractDigest r"
  using assms by (cases rule: step_cases) (auto dest: append_event_fields)

lemma reach_identity: "sched_reach sha i d r \<Longrightarrow> sr_executionId r = i \<and> sr_contractDigest r = d"
proof (induction rule: sched_reach.induct)
  case (step r now cur cmd r' e)
  then show ?case using step_identity [OF reach_wf [OF step.hyps(1)] step.hyps(2)] by simp
qed (simp add: initializeContinuationScheduler_def)

end
