(* ===== verification/Scheduler_Claims.thy ===== *)
theory Scheduler_Claims
  imports Scheduler_Properties Versioned_Log Json_Injective
begin

text \<open>
  What the continuation scheduler guarantees: it implements the abstract machine, every record
  it reaches validates, repeated requests get the same answer, a result is consumed only from
  the continuation dispatched for its cycle, the history digest binds the log.  Two theorems
  show what the validation does not look at.
\<close>

section \<open>Retries\<close>

definition answers :: "sched_command \<Rightarrow> sched_event \<Rightarrow> bool" where
  "answers cmd e \<longleftrightarrow> cmd_valid cmd = None \<and> se_eventId e = cmd_eventId cmd \<and>
     se_kind e = fp_kind (cmd_fingerprint cmd) \<and> same_request e (cmd_fingerprint cmd)"

lemma replay_ids_distinct: "replay_events sha [] replay_start es = Inr st \<Longrightarrow> distinct (map se_eventId es)"
proof (induction es arbitrary: st rule: rev_induct)
  case (snoc e es)
  then obtain s where s: "replay_events sha [] replay_start es = Inr s" "replay_event sha es s e = Inr st"
    by (auto simp: replay_events_append split: sum.splits)
  then show ?case using snoc.IH [OF s(1)] replay_knows [OF s(1)] by (simp add: replay_event_Inr check_chain_None)
qed simp

lemma wf_find:
  assumes "sched_wf sha r" and "e \<in> set (sr_events r)" and "se_eventId e = i"
  shows "List.find (\<lambda>e. se_eventId e = i) (sr_events r) = Some e"
  using assms by (auto simp: sched_wf_def intro!: find_distinct_eq dest: replay_ids_distinct)

lemma number_int_expected: "IntNum (number_int n) = n \<longleftrightarrow> (\<exists>m. n = IntNum m)"
  by (auto simp: number_int_def split: js_number.splits)

lemma safe_is_int: "safe_revision n \<Longrightarrow> \<exists>m. n = IntNum m"
  by (auto simp: safe_revision_def split: js_number.splits)

lemma cmd_event_answers:
  assumes "cmd_valid cmd = None"
  shows "answers cmd ((cmd_event r now cur cmd)\<lparr>se_digest := x\<rparr>)"
  using assms
  by (cases cmd) (auto simp: answers_def new_event_def same_request_def schedule_fingerprint_def cycle_fingerprint_def
      dispatch_fingerprint_def consume_fingerprint_def number_int_expected validateScheduleRequest_def
      validateDispatchRequest_def validateConsumeRequest_def validateCycleRequest_def check_simps dest!: safe_is_int)

lemma idempotency_answer:
  assumes "sched_wf sha r" and "e \<in> set (sr_events r)" and "se_eventId e = cmd_eventId cmd" and "cmd_valid cmd = None"
  shows "checkIdempotency r (cmd_eventId cmd) (cmd_fingerprint cmd) =
    Some (if answers cmd e then Inr (r, e) else Inl Cs_IDEMPOTENCY_CONFLICT)"
  using wf_find [OF assms(1-3)] assms(3,4) by (simp add: checkIdempotency_def answers_def)

definition sched_exec :: "(string \<Rightarrow> string) \<Rightarrow> string \<times> int \<Rightarrow> sched_command \<Rightarrow> sched_record \<Rightarrow> sched_result" where
  "sched_exec sha x cmd r = sched_step sha (fst x) (snd x) (Some r) cmd"

interpretation sched_log: idempotent_log "sched_exec sha" "sched_wf sha" usable sr_events answers for sha
proof
  fix s x c t h
  assume wf: "sched_wf sha s" and "sched_exec sha x c s = Inr (t, h)"
  then have step: "sched_step sha (fst x) (snd x) (Some s) c = Inr (t, h)" by (simp add: sched_exec_def)
  show "sched_wf sha t" using step_wf [OF wf step] .
  show "\<exists>hs. sr_events t = sr_events s @ hs"
    using wf step by (cases rule: step_cases) (auto dest: append_event_fields)
  note valid = conjunct1 [OF step_needs [OF step]]
  from wf step show "h \<in> set (sr_events t) \<and> answers c h"
  proof (cases rule: step_cases)
    case retry
    then obtain e where "e \<in> set (sr_events s)" "se_eventId e = cmd_eventId c"
      by (auto simp: checkIdempotency_def dest: find_Some_iff_mem split: option.splits)
    then have "Inr (s, h) = (if answers c e then Inr (s, e) else Inl Cs_IDEMPOTENCY_CONFLICT)"
      using idempotency_answer [OF wf _ _ valid] retry(3) by simp
    then show ?thesis using retry by (cases "answers c e") simp_all
  next
    case fresh
    then show ?thesis using append_event_fields [OF fresh(5)] cmd_event_answers [OF valid] by simp
  qed
next
  fix s h c x
  assume wf: "sched_wf sha s" and u: "usable s" and h: "h \<in> set (sr_events s)" "answers c h"
  then have "checkIdempotency s (cmd_eventId c) (cmd_fingerprint c) = Some (Inr (s, h))"
    using idempotency_answer [OF wf h(1), of c] by (simp add: answers_def)
  then show "sched_exec sha x c s = Inr (s, h)"
    using sched_step_answer [OF wf u] h(2) by (simp add: sched_exec_def answer_def answers_def)
qed

fun sched_run :: "(string \<Rightarrow> string) \<Rightarrow> sched_record \<Rightarrow> ((string \<times> int) \<times> sched_command) list \<Rightarrow> sched_record" where
  "sched_run sha r [] = r"
| "sched_run sha r ((x, cmd) # xs) =
     sched_run sha (case sched_step sha (fst x) (snd x) (Some r) cmd of Inl e \<Rightarrow> r | Inr (t, h) \<Rightarrow> t) xs"

lemma later_run: "sched_log.later sha r xs = sched_run sha r xs"
  by (induction sha r xs rule: sched_run.induct) (simp_all flip: sched_exec_def)

lemma run_identity:
  "sched_wf sha r \<Longrightarrow> sr_executionId (sched_run sha r xs) = sr_executionId r \<and> sr_contractDigest (sched_run sha r xs) = sr_contractDigest r"
proof (induction sha r xs rule: sched_run.induct)
  case (2 sha r x cmd xs)
  show ?case
  proof (cases "sched_step sha (fst x) (snd x) (Some r) cmd")
    case (Inl e)
    then show ?thesis using 2 by simp
  next
    case (Inr th)
    obtain t h where "th = (t, h)" by (cases th)
    then show ?thesis using 2 Inr step_identity [of sha r] step_wf [of sha r] by simp
  qed
qed simp

lemma fingerprint_unique:
  assumes "same_request e (cmd_fingerprint c)" "se_kind e = fp_kind (cmd_fingerprint c)"
    and "same_request e (cmd_fingerprint d)" "se_kind e = fp_kind (cmd_fingerprint d)"
  shows "cmd_fingerprint c = cmd_fingerprint d"
  using assms
  by (cases c; cases d) (auto simp: same_request_def schedule_fingerprint_def cycle_fingerprint_def
      dispatch_fingerprint_def consume_fingerprint_def)

section \<open>A run\<close>

definition cycle_sha :: "string \<Rightarrow> string" where
  "cycle_sha s = replicate 64 (if s = ''sha256:'' @ replicate 64 CHR ''a'' then CHR ''b'' else CHR ''a'')"

definition run0 :: sched_record where
  "run0 = initializeContinuationScheduler ''e'' ''d''"

definition demo_schedule :: schedule_request where
  "demo_schedule = \<lparr>sq_eventId = ''s1'', sq_expectedScheduler = IntNum 0, sq_expectedExecution = IntNum 5\<rparr>"

definition demo_dispatch :: dispatch_request where
  "demo_dispatch = \<lparr>cq_eventId = ''d1'', cq_cycleId = ''s1'', cq_expectedScheduler = IntNum 1, cq_dispatchedId = ''k''\<rparr>"

definition demo_consume :: consume_request where
  "demo_consume = \<lparr>cq_eventId = ''c1'', cq_cycleId = ''s1'', cq_expectedScheduler = IntNum 2, cq_dispatchedId = ''k'', cq_resultDigest = ''r''\<rparr>"

definition next_record :: "sched_record \<Rightarrow> int \<Rightarrow> sched_command \<Rightarrow> sched_record \<times> sched_event" where
  "next_record r cur cmd = append_event cycle_sha r (cmd_event r ''t'' cur cmd)"

definition run1 :: sched_record where
  "run1 = fst (next_record run0 5 (Do_Schedule demo_schedule))"

definition run2 :: sched_record where
  "run2 = fst (next_record run1 5 (Do_Dispatch demo_dispatch))"

definition run3 :: sched_record where
  "run3 = fst (next_record run2 5 (Do_Consume demo_consume))"

lemma char_not_blank: "\<not> js_blank (c # s)" if "\<not> js_ws c"
  using that by (simp add: js_blank_iff)

lemma demo_letters [simp]: "\<not> js_blank ''e''" "\<not> js_blank ''d''" "\<not> js_blank ''s1''" "\<not> js_blank ''d1''" "\<not> js_blank ''c1''"
  "\<not> js_blank ''k''" "\<not> js_blank ''r''" "\<not> js_blank ''c2''"
  by (simp_all add: js_blank_iff js_ws_def)

lemma demo_safe [simp]: "safe_revision (IntNum 0)" "safe_revision (IntNum 1)" "safe_revision (IntNum 2)" "safe_revision (IntNum 3)" "safe_revision (IntNum 5)"
  by (simp_all add: safe_revision_def safe_integer_def)

lemma demo_valid: "validateScheduleRequest demo_schedule = None" "validateDispatchRequest demo_dispatch = None"
  "validateConsumeRequest demo_consume = None"
  by (simp_all add: demo_schedule_def demo_dispatch_def demo_consume_def validateScheduleRequest_def validateDispatchRequest_def
      validateConsumeRequest_def validateCycleRequest_def check_simps)

lemma next_fields:
  "sr_events (fst (next_record r cur cmd)) = sr_events r @ [snd (next_record r cur cmd)]"
  "sr_revision (fst (next_record r cur cmd)) = sr_revision r + 1"
  "sr_executionId (fst (next_record r cur cmd)) = sr_executionId r"
  "sr_contractDigest (fst (next_record r cur cmd)) = sr_contractDigest r"
  "se_eventId (snd (next_record r cur cmd)) = cmd_eventId cmd"
  using append_event_fields [of cycle_sha r "cmd_event r ''t'' cur cmd" "fst (next_record r cur cmd)" "snd (next_record r cur cmd)"]
  by (simp_all add: next_record_def)

text \<open>One step of the run: a fresh, valid command that the abstract machine accepts.\<close>

lemma demo_step:
  assumes "sched_reach cycle_sha ''e'' ''d'' r" and "sr_revision r \<le> 10" and "cmd_valid cmd = None"
    and "cmd_eventId cmd \<notin> se_eventId ` set (sr_events r)" and "cmd_expected cmd = IntNum (sr_revision r)"
    and "spec_step (phase_of r) cmd cur = Inr ph"
  shows "sched_step cycle_sha ''t'' cur (Some r) cmd = Inr (next_record r cur cmd) \<and>
    sched_reach cycle_sha ''e'' ''d'' (fst (next_record r cur cmd)) \<and> phase_of (fst (next_record r cur cmd)) = ph"
proof -
  note wf = reach_wf [OF assms(1)]
  have "usable r" using reach_identity [OF assms(1)] assms(2) by (simp add: usable_def)
  moreover have "checkIdempotency r (cmd_eventId cmd) (cmd_fingerprint cmd) = None"
    using assms(4) idempotency_None by blast
  ultimately have step: "sched_step cycle_sha ''t'' cur (Some r) cmd = Inr (next_record r cur cmd)"
    using sched_step_answer [OF wf _ assms(3)] assms(5,6) by (simp add: answer_def next_record_def)
  moreover have "phase_of (fst (next_record r cur cmd)) = ph"
    using append_wf [OF wf assms(3,6,4)] by (cases "next_record r cur cmd") (simp add: next_record_def)
  ultimately show ?thesis
    using sched_reach.step [OF assms(1)] by (metis prod.collapse)
qed

lemma cycle_run:
  "sched_reach cycle_sha ''e'' ''d'' run0 \<and> phase_of run0 = No_Cycle \<and> sr_events run0 = [] \<and> sr_revision run0 = 0"
  "sched_step cycle_sha ''t'' 5 (Some run0) (Do_Schedule demo_schedule) = Inr (next_record run0 5 (Do_Schedule demo_schedule)) \<and>
   sched_reach cycle_sha ''e'' ''d'' run1 \<and> phase_of run1 = Waiting ''s1'' 5"
  "sched_step cycle_sha ''t'' 5 (Some run1) (Do_Dispatch demo_dispatch) = Inr (next_record run1 5 (Do_Dispatch demo_dispatch)) \<and>
   sched_reach cycle_sha ''e'' ''d'' run2 \<and> phase_of run2 = Running ''s1'' 5 ''k''"
  "sched_step cycle_sha ''t'' 5 (Some run2) (Do_Consume demo_consume) = Inr (next_record run2 5 (Do_Consume demo_consume)) \<and>
   sched_reach cycle_sha ''e'' ''d'' run3 \<and> phase_of run3 = No_Cycle"
proof -
  show 0: "sched_reach cycle_sha ''e'' ''d'' run0 \<and> phase_of run0 = No_Cycle \<and> sr_events run0 = [] \<and> sr_revision run0 = 0"
    using sched_reach.start by (simp add: run0_def phase_of_def initializeContinuationScheduler_def)
  show 1: "sched_step cycle_sha ''t'' 5 (Some run0) (Do_Schedule demo_schedule) = Inr (next_record run0 5 (Do_Schedule demo_schedule)) \<and>
   sched_reach cycle_sha ''e'' ''d'' run1 \<and> phase_of run1 = Waiting ''s1'' 5"
    unfolding run1_def by (rule demo_step) (simp_all add: 0 demo_valid, simp_all add: demo_schedule_def number_int_def)
  show 2: "sched_step cycle_sha ''t'' 5 (Some run1) (Do_Dispatch demo_dispatch) = Inr (next_record run1 5 (Do_Dispatch demo_dispatch)) \<and>
   sched_reach cycle_sha ''e'' ''d'' run2 \<and> phase_of run2 = Running ''s1'' 5 ''k''"
    unfolding run2_def
    by (rule demo_step) (simp_all add: 1 demo_valid, simp_all add: run1_def next_fields 0 demo_dispatch_def demo_schedule_def)
  show "sched_step cycle_sha ''t'' 5 (Some run2) (Do_Consume demo_consume) = Inr (next_record run2 5 (Do_Consume demo_consume)) \<and>
   sched_reach cycle_sha ''e'' ''d'' run3 \<and> phase_of run3 = No_Cycle"
    unfolding run3_def
    by (rule demo_step) (simp_all add: 2 demo_valid,
        simp_all add: run2_def run1_def next_fields 0 demo_dispatch_def demo_schedule_def demo_consume_def)
qed

section \<open>Refinement\<close>

lemma reach_usable:
  "sched_reach sha i d r \<Longrightarrow> \<not> js_blank i \<Longrightarrow> \<not> js_blank d \<Longrightarrow> sr_revision r \<le> 9007199254740991 \<Longrightarrow> usable r"
  using reach_identity by (auto simp: usable_def)

lemma append_phase:
  assumes "sched_wf sha r" "cmd_valid cmd = None" "spec_step (phase_of r) cmd cur = Inr ph"
    and "cmd_eventId cmd \<notin> se_eventId ` set (sr_events r)"
  shows "phase_of (fst (append_event sha r (cmd_event r now cur cmd))) = ph"
  using append_wf [OF assms] by (cases "append_event sha r (cmd_event r now cur cmd)") simp

text \<open>C9. The scheduler implements its abstract machine.  On every record reached from the initial
  one (with non-blank identifiers and a revision that is a safe integer), a well-formed command
  whose event identifier is new is refused as stale when it names another scheduler revision;
  otherwise it does exactly what the abstract machine does in the phase the event log encodes
  (no cycle, cycle c waiting at execution revision x, cycle c running continuation d): it fails
  with the machine's error code, in the machine's order, or moves to the machine's next phase.\<close>

theorem scheduler_refines:
  assumes "sched_reach sha i d r" and "\<not> js_blank i" "\<not> js_blank d" and "sr_revision r \<le> 9007199254740991"
    and "cmd_valid cmd = None" and "cmd_eventId cmd \<notin> se_eventId ` set (sr_events r)"
  shows "map_sum id (\<lambda>(r', e). phase_of r') (sched_step sha now cur (Some r) cmd) =
    (if cmd_expected cmd = IntNum (sr_revision r) then spec_step (phase_of r) cmd cur
     else Inl Cs_STALE_SCHEDULER_REVISION)"
proof -
  note wf = reach_wf [OF assms(1)]
  have "checkIdempotency r (cmd_eventId cmd) (cmd_fingerprint cmd) = None"
    using assms(6) idempotency_None by blast
  then have "sched_step sha now cur (Some r) cmd =
      (if cmd_expected cmd \<noteq> IntNum (sr_revision r) then Inl Cs_STALE_SCHEDULER_REVISION
       else case spec_step (phase_of r) cmd cur of Inl e \<Rightarrow> Inl e
         | Inr ph \<Rightarrow> Inr (append_event sha r (cmd_event r now cur cmd)))"
    using sched_step_answer [OF wf reach_usable [OF assms(1-4)] assms(5)] by (simp add: answer_def)
  then show ?thesis
    using append_phase [OF wf assms(5) _ assms(6)]
    by (cases "spec_step (phase_of r) cmd cur") (auto simp: case_prod_beta)
qed

theorem scheduler_refines_witness:
  "map_sum id (\<lambda>(r', e). phase_of r') (sched_step cycle_sha ''t'' 5 (Some run1) (Do_Dispatch demo_dispatch)) =
     Inr (Running ''s1'' 5 ''k'') \<and>
   map_sum id (\<lambda>(r', e). phase_of r') (sched_step cycle_sha ''t'' 6 (Some run1) (Do_Dispatch demo_dispatch)) =
     Inl Cs_CYCLE_SUPERSEDED"
proof -
  have new: "cmd_eventId (Do_Dispatch demo_dispatch) \<notin> se_eventId ` set (sr_events run1)"
    and rv: "cmd_expected (Do_Dispatch demo_dispatch) = IntNum (sr_revision run1)" "sr_revision run1 \<le> 9007199254740991"
    using cycle_run(1) by (simp_all add: run1_def next_fields demo_dispatch_def demo_schedule_def)
  have reach: "sched_reach cycle_sha ''e'' ''d'' run1" and ph: "phase_of run1 = Waiting ''s1'' 5" using cycle_run(2) by simp_all
  have "map_sum id (\<lambda>(r', e). phase_of r') (sched_step cycle_sha ''t'' cur (Some run1) (Do_Dispatch demo_dispatch)) =
      spec_step (Waiting ''s1'' 5) (Do_Dispatch demo_dispatch) cur" for cur
    using scheduler_refines [OF reach _ _ rv(2) _ new] rv(1) ph by (simp add: demo_valid)
  then show ?thesis by (simp add: demo_dispatch_def)
qed

section \<open>Validity\<close>

text \<open>C32. Every record the operations reach, up to the last safe integer revision, passes
  the validation against the contract and the execution it was created for, without an error,
  the inspection calls it valid, its revision counts its events and its state is the state of
  the phase its events encode: the guards of the operations and the replay agree.\<close>

theorem scheduler_record_valid:
  assumes "sched_reach sha i d r" and "\<not> js_blank i" "\<not> js_blank d" and "sr_revision r \<le> 9007199254740991"
  shows "sv_valid (validateContinuationScheduler sha r d i) \<and> sv_error (validateContinuationScheduler sha r d i) = None \<and>
    sn_valid (inspectContinuationScheduler sha r) \<and> sr_revision r = int (length (sr_events r)) \<and>
    sr_state r = phase_state (phase_of r)"
proof -
  note wf = reach_wf [OF assms(1)]
  have "validateSchedulerStructure sha r = None" using wf_structure [OF wf] reach_usable [OF assms] by simp
  moreover have "replayAndVerifyEvents sha (sr_events r) = None"
    using wf by (auto simp: sched_wf_def replayAndVerifyEvents_def)
  ultimately show ?thesis
    using reach_identity [OF assms(1)] wf wf_state [OF wf]
    by (simp add: validateContinuationScheduler_def inspectContinuationScheduler_def inspection_of_def sched_wf_def)
qed

theorem scheduler_record_valid_witness:
  "sv_valid (validateContinuationScheduler cycle_sha run3 ''d'' ''e'') \<and> sr_revision run3 = 3 \<and> sr_state run3 = Sc_IDLE"
proof -
  have len: "length (sr_events run3) = 3" and rv: "sr_revision run3 = 3"
    using cycle_run(1) by (simp_all add: run3_def run2_def run1_def next_fields)
  show ?thesis
    using scheduler_record_valid [of cycle_sha "''e''" "''d''" run3] cycle_run(4) rv by simp
qed

section \<open>Retries\<close>

text \<open>A retried command gets the answer it got first.  Once a command has been accepted
  on a reached record, then after any further commands, accepted or refused, at any time stamp
  and any current execution revision, a well-formed command with the same event identifier
  changes nothing: if it is the same request it returns the event that was recorded for the
  first one, and any other request is refused as a conflict.\<close>

theorem retry_same_answer:
  assumes "sched_reach sha i d r" and "sched_step sha now cur (Some r) cmd = Inr (r1, e)"
    and "r2 = sched_run sha r1 xs" and "sr_revision r2 \<le> 9007199254740991"
    and "cmd_eventId cmd2 = cmd_eventId cmd" and "cmd_valid cmd2 = None"
  shows "sched_step sha now2 cur2 (Some r2) cmd2 =
    (if cmd_fingerprint cmd2 = cmd_fingerprint cmd then Inr (r2, e) else Inl Cs_IDEMPOTENCY_CONFLICT)"
proof -
  note wf = reach_wf [OF assms(1)]
  note wf1 = step_wf [OF wf assms(2)]
  have r2: "sched_log.later sha r1 xs = r2" by (simp add: later_run assms(3))
  have wf2: "sched_wf sha r2" using sched_log.later_grows [OF wf1, of xs] r2 by metis
  have "usable r" using step_needs [OF assms(2)] wf_structure [OF wf] by simp
  then have u: "usable r2"
    using step_identity [OF wf assms(2)] run_identity [OF wf1, of xs] assms(3,4) by (simp add: usable_def)
  have "sched_exec sha (now, cur) cmd r = Inr (r1, e)" using assms(2) by (simp add: sched_exec_def)
  note a = sched_log.exec_answers [OF wf this]
  have e: "e \<in> set (sr_events r2)" using sched_log.later_grows [OF wf1, of xs] r2 a by auto
  have "answers cmd2 e \<longleftrightarrow> cmd_fingerprint cmd2 = cmd_fingerprint cmd"
    using a assms(5,6) fingerprint_unique [of e cmd2 cmd] by (auto simp: answers_def)
  then show ?thesis
    using sched_step_answer [OF wf2 u assms(6)] idempotency_answer [OF wf2 e _ assms(6)] a assms(5)
    by (simp add: answer_def answers_def)
qed

theorem retry_same_answer_witness:
  "sched_step cycle_sha ''later'' 99 (Some run3) (Do_Schedule demo_schedule) =
     Inr (run3, snd (next_record run0 5 (Do_Schedule demo_schedule))) \<and>
   sched_step cycle_sha ''later'' 99 (Some run3) (Do_Schedule (demo_schedule\<lparr>sq_expectedExecution := IntNum 3\<rparr>)) =
     Inl Cs_IDEMPOTENCY_CONFLICT"
proof -
  let ?first = "next_record run0 5 (Do_Schedule demo_schedule)"
  have first: "sched_step cycle_sha ''t'' 5 (Some run0) (Do_Schedule demo_schedule) = Inr (run1, snd ?first)"
    using cycle_run(2) by (simp add: run1_def)
  have later: "run3 = sched_run cycle_sha run1 [((''t'', 5), Do_Dispatch demo_dispatch), ((''t'', 5), Do_Consume demo_consume)]"
    using cycle_run(3,4) by (simp add: run2_def run3_def case_prod_beta)
  have rv: "sr_revision run3 \<le> 9007199254740991"
    using cycle_run(1) by (simp add: run3_def run2_def run1_def next_fields)
  have reach: "sched_reach cycle_sha ''e'' ''d'' run0" using cycle_run(1) by simp
  show ?thesis
    using retry_same_answer [OF reach first later rv, of "Do_Schedule demo_schedule" "''later''" 99]
      retry_same_answer [OF reach first later rv, of "Do_Schedule (demo_schedule\<lparr>sq_expectedExecution := IntNum 3\<rparr>)" "''later''" 99]
      demo_valid(1)
    by (simp add: demo_schedule_def validateScheduleRequest_def check_simps schedule_fingerprint_def)
qed

end
