(* ===== verification/Scheduler_History.thy ===== *)
theory Scheduler_History
  imports Scheduler_Claims Digest_Binding
begin

text \<open>
  The history of a continuation scheduler: which events precede a consumed result, what the
  history digest binds, and what the validation leaves unchecked.
\<close>

section \<open>Consumed results\<close>

lemma replay_split:
  "replay_events sha past st (xs @ ys) =
     (case replay_events sha past st xs of Inl m \<Rightarrow> Inl m | Inr s \<Rightarrow> replay_events sha (past @ xs) s ys)"
  by (induction xs arbitrary: past st) (auto split: sum.splits)

lemma replay_at:
  assumes "replay_events sha [] replay_start es = Inr st" and "n < length es"
  obtains s s' where "replay_events sha [] replay_start (take n es) = Inr s"
    and "replay_event sha (take n es) s (es ! n) = Inr s'" and "matches s (log_phase (take n es))"
    and "log_phase (take (Suc n) es) = phase_after (log_phase (take n es)) (es ! n)"
proof -
  have "es = take n es @ (es ! n) # drop (Suc n) es" using assms(2) by (rule id_take_nth_drop)
  then obtain s s' where s: "replay_events sha [] replay_start (take n es) = Inr s"
    "replay_event sha (take n es) s (es ! n) = Inr s'"
    using assms(1) replay_split [of sha "[]" replay_start "take n es" "(es ! n) # drop (Suc n) es"]
    by (auto split: sum.splits)
  moreover have "log_phase (take (Suc n) es) = phase_after (log_phase (take n es)) (es ! n)"
    using assms(2) by (simp add: take_Suc_conv_app_nth)
  ultimately show thesis using that replay_knows [OF s(1)] by blast
qed

lemma running_dispatched:
  assumes "replay_events sha [] replay_start es = Inr st" and "n \<le> length es" and "log_phase (take n es) = Running c x d"
  shows "\<exists>m. n = Suc m \<and> log_phase (take m es) = Waiting c x \<and> se_kind (es ! m) = Sk_DISPATCH \<and>
    se_cycleId (es ! m) = c \<and> se_observed (es ! m) = x \<and> se_dispatchedId (es ! m) = Some d"
proof (cases n)
  case 0
  then show ?thesis using assms(3) by simp
next
  case (Suc m)
  then have "m < length es" using assms(2) by simp
  then obtain s s' where s: "replay_event sha (take m es) s (es ! m) = Inr s'" "matches s (log_phase (take m es))"
    "log_phase (take (Suc m) es) = phase_after (log_phase (take m es)) (es ! m)"
    using replay_at [OF assms(1)] by blast
  then show ?thesis
    using assms(3) Suc unfolding replay_event_Inr check_chain_None check_kind_None
    by (cases "se_kind (es ! m)"; cases "log_phase (take m es)") (auto simp: phase_after_def)
qed

lemma waiting_scheduled:
  assumes "replay_events sha [] replay_start es = Inr st" and "n \<le> length es" and "log_phase (take n es) = Waiting c x"
  shows "\<exists>m. n = Suc m \<and> se_kind (es ! m) = Sk_SCHEDULE \<and> se_eventId (es ! m) = c \<and> se_cycleId (es ! m) = c \<and>
    se_expectedExecution (es ! m) = Some x"
proof (cases n)
  case 0
  then show ?thesis using assms(3) by simp
next
  case (Suc m)
  then have "m < length es" using assms(2) by simp
  then obtain s s' where s: "replay_event sha (take m es) s (es ! m) = Inr s'" "matches s (log_phase (take m es))"
    "log_phase (take (Suc m) es) = phase_after (log_phase (take m es)) (es ! m)"
    using replay_at [OF assms(1)] by blast
  then show ?thesis
    using assms(3) Suc unfolding replay_event_Inr check_chain_None check_kind_None
    by (cases "se_kind (es ! m)"; cases "log_phase (take m es)") (auto simp: phase_after_def)
qed

text \<open>A result is consumed only from the continuation dispatched for its cycle.  In the log
  of a reached record, a CONSUME event is preceded immediately by the DISPATCH event and that one
  by the SCHEDULE event of the same cycle: the schedule names the cycle, the dispatch carries the
  same continuation identifier, all three bind the same execution revision, and the recorded
  result digest is not blank.\<close>

theorem consumed_cycle_traced:
  assumes "sched_reach sha i d r" and "n < length (sr_events r)" and "se_kind (sr_events r ! n) = Sk_CONSUME"
  shows "\<exists>m a b e. n = Suc (Suc m) \<and> a = sr_events r ! m \<and> b = sr_events r ! Suc m \<and> e = sr_events r ! n \<and>
    se_kind a = Sk_SCHEDULE \<and> se_kind b = Sk_DISPATCH \<and> se_eventId a = se_cycleId e \<and> se_cycleId b = se_cycleId e \<and>
    se_expectedExecution a = Some (se_observed e) \<and> se_observed b = se_observed e \<and>
    se_dispatchedId b = se_dispatchedId e \<and> se_dispatchedId e \<noteq> None \<and>
    (\<exists>res. se_resultDigest e = Some res \<and> \<not> js_blank res)"
proof -
  obtain st where st: "replay_events sha [] replay_start (sr_events r) = Inr st"
    using reach_wf [OF assms(1)] by (auto simp: sched_wf_def)
  obtain s s' where s: "replay_event sha (take n (sr_events r)) s (sr_events r ! n) = Inr s'"
    "matches s (log_phase (take n (sr_events r)))"
    using replay_at [OF st assms(2)] by blast
  note chk = s(1) [unfolded replay_event_Inr check_chain_None check_kind_None assms(3), simplified]
  obtain c x k where run: "log_phase (take n (sr_events r)) = Running c x k"
    using s(2) chk by (cases "log_phase (take n (sr_events r))") auto
  obtain l where l: "n = Suc l" "log_phase (take l (sr_events r)) = Waiting c x" "se_kind (sr_events r ! l) = Sk_DISPATCH"
    "se_cycleId (sr_events r ! l) = c" "se_observed (sr_events r ! l) = x" "se_dispatchedId (sr_events r ! l) = Some k"
    using running_dispatched [OF st _ run] assms(2) by auto
  obtain m where m: "l = Suc m" "se_kind (sr_events r ! m) = Sk_SCHEDULE" "se_eventId (sr_events r ! m) = c"
    "se_expectedExecution (sr_events r ! m) = Some x"
    using waiting_scheduled [OF st _ l(2)] assms(2) l(1) by auto
  show ?thesis using chk s(2) run l m by (intro exI [of _ m]) auto
qed

theorem consumed_cycle_traced_witness:
  "se_kind (sr_events run3 ! 2) = Sk_CONSUME \<and> se_kind (sr_events run3 ! 1) = Sk_DISPATCH \<and>
   se_dispatchedId (sr_events run3 ! 1) = se_dispatchedId (sr_events run3 ! 2)"
proof -
  have ev: "sr_events run3 = [snd (next_record run0 5 (Do_Schedule demo_schedule)),
      snd (next_record run1 5 (Do_Dispatch demo_dispatch)), snd (next_record run2 5 (Do_Consume demo_consume))]"
    using cycle_run(1) by (simp add: run3_def run2_def run1_def next_fields)
  have kind: "se_kind (sr_events run3 ! 2) = Sk_CONSUME"
    by (simp add: ev next_record_def append_event_def Let_def new_event_def)
  have "sched_reach cycle_sha ''e'' ''d'' run3" "2 < length (sr_events run3)" using cycle_run(4) ev by simp_all
  from consumed_cycle_traced [OF this kind] kind show ?thesis by (auto simp: numeral_2_eq_2)
qed

section \<open>What validation does not look at\<close>

section \<open>What validation does not look at\<close>

lemma valid_replays:
  "sv_valid (validateContinuationScheduler sha r d i) \<longleftrightarrow>
     validateSchedulerStructure sha r = None \<and> sr_contractDigest r = d \<and> sr_executionId r = i \<and>
     (\<exists>st. replay_events sha [] replay_start (sr_events r) = Inr st)"
  by (auto simp: validateContinuationScheduler_def replayAndVerifyEvents_def Let_def split: option.splits sum.splits)

lemma blank_request_fields: "validateScheduleRequest q = None \<Longrightarrow> \<exists>m. sq_expectedExecution q = IntNum m"
  by (auto simp: validateScheduleRequest_def check_simps dest: safe_is_int)

text \<open>The validation never compares the recorded state and revision of a scheduler with
  its events: any reached record, with its state and its revision replaced by arbitrary ones,
  still passes.  When a cycle is open and the stored state is changed to IDLE, a second cycle is
  scheduled on top of the open one, and only the record this produces fails the validation.\<close>

theorem forged_state_validates:
  assumes "sched_reach sha i d r" and "\<not> js_blank i" "\<not> js_blank d" and "0 \<le> n" "n \<le> 9007199254740991"
    and "phase_of r \<noteq> No_Cycle" and "validateScheduleRequest q = None" and "sq_expectedScheduler q = IntNum n"
    and "sq_eventId q \<notin> se_eventId ` set (sr_events r)"
  shows "sv_valid (validateContinuationScheduler sha (r\<lparr>sr_state := s, sr_revision := n\<rparr>) d i) \<and>
    (\<exists>r' e. scheduleContinuation sha now (Some (r\<lparr>sr_state := Sc_IDLE, sr_revision := n\<rparr>)) q = Inr (r', e) \<and>
       \<not> sv_valid (validateContinuationScheduler sha r' d i))"
proof -
  note wf = reach_wf [OF assms(1)]
  note ids = reach_identity [OF assms(1)]
  obtain st where st: "replay_events sha [] replay_start (sr_events r) = Inr st"
    "sr_historyDigest r = computeHistoryDigest sha (sr_events r)" "sr_version r = 1"
    using wf by (auto simp: sched_wf_def)
  have struct: "validateSchedulerStructure sha (r\<lparr>sr_state := s', sr_revision := n\<rparr>) = None" for s'
    using st ids assms(2-5) by (simp add: validateSchedulerStructure_None safe_revision_def safe_integer_def)
  define f where "f = r\<lparr>sr_state := Sc_IDLE, sr_revision := n\<rparr>"
  define e where "e = cmd_event f now 0 (Do_Schedule q)"
  obtain r' e' where app: "append_event sha f e = (r', e')" by (cases "append_event sha f e")
  have idem: "checkIdempotency f (sq_eventId q) (schedule_fingerprint q) = None"
    using assms(9) idempotency_None [of f] by (simp add: f_def)
  have "validateSchedulerStructure sha f = None" using struct f_def by simp
  then have "scheduleContinuation sha now (Some f) q = Inr (append_event sha f e)"
    using idem assms(7,8)
    by (simp add: scheduleContinuation_def guarded_fresh first_some_must f_def e_def Let_def)
  moreover have "replay_events sha [] replay_start (sr_events r') \<noteq> Inr st'" for st'
  proof -
    have "se_fromState e' = Sc_IDLE"
      using append_event_fields [OF app] by (simp add: e_def f_def new_event_def)
    moreover have "rp_state st \<noteq> Sc_IDLE"
      using replay_knows [OF st(1)] assms(6) by (cases "log_phase (sr_events r)") (auto simp: phase_of_def)
    ultimately show ?thesis
      using append_event_fields [OF app] st(1)
      by (simp add: f_def replay_events_append replay_event_Inr check_chain_None)
  qed
  ultimately show ?thesis
    using struct st(1) ids app by (simp add: valid_replays f_def)
qed

theorem forged_state_validates_witness:
  "sv_valid (validateContinuationScheduler cycle_sha (run2\<lparr>sr_state := Sc_SCHEDULED, sr_revision := 7\<rparr>) ''d'' ''e'') \<and>
   (\<exists>r' e. scheduleContinuation cycle_sha ''t'' (Some (run2\<lparr>sr_state := Sc_IDLE, sr_revision := 7\<rparr>))
        \<lparr>sq_eventId = ''c2'', sq_expectedScheduler = IntNum 7, sq_expectedExecution = IntNum 5\<rparr> = Inr (r', e))"
proof -
  have "sched_reach cycle_sha ''e'' ''d'' run2" "phase_of run2 \<noteq> No_Cycle" using cycle_run(3) by simp_all
  moreover have "''c2'' \<notin> se_eventId ` set (sr_events run2)"
    using cycle_run(1) by (simp add: run2_def run1_def next_fields demo_schedule_def demo_dispatch_def)
  moreover have "safe_revision (IntNum 7)" by (simp add: safe_revision_def safe_integer_def)
  ultimately show ?thesis
    using forged_state_validates [of cycle_sha "''e''" "''d''" run2 7
        "\<lparr>sq_eventId = ''c2'', sq_expectedScheduler = IntNum 7, sq_expectedExecution = IntNum 5\<rparr>" Sc_SCHEDULED "''t''"]
    by (auto simp: validateScheduleRequest_def check_simps)
qed

text \<open>Scheduling on a missing scheduler succeeds with a record that nothing accepts: its
  execution identifier and contract digest are empty, so every later command on it is refused
  and no validation passes, for any execution and contract.\<close>

theorem null_schedule_unusable:
  assumes "scheduleContinuation sha now None q = Inr (r', e)"
  shows "(\<exists>err. sched_step sha now2 cur (Some r') cmd = Inl err) \<and> \<not> sv_valid (validateContinuationScheduler sha r' d i)"
proof -
  have "sr_executionId r' = []"
    using assms
    by (auto simp: scheduleContinuation_def guarded_op_def checkIdempotency_def initializeContinuationScheduler_def
        append_event_def Let_def split: option.splits if_splits)
  then have struct: "validateSchedulerStructure sha r' \<noteq> None" by (simp add: validateSchedulerStructure_None del: not_None_eq)
  have "sched_step sha now2 cur (Some r') cmd \<noteq> Inr x" for x
    using step_needs [of sha now2 cur r' cmd x] struct by blast
  then show ?thesis
    using struct by (cases "sched_step sha now2 cur (Some r') cmd") (auto simp: valid_replays)
qed

theorem null_schedule_unusable_witness:
  "\<exists>r' e err. scheduleContinuation cycle_sha ''t'' None demo_schedule = Inr (r', e) \<and>
     sched_step cycle_sha ''t'' 5 (Some r') (Do_Dispatch demo_dispatch) = Inl err"
proof -
  obtain r' e where "scheduleContinuation cycle_sha ''t'' None demo_schedule = Inr (r', e)"
    using demo_valid(1)
    by (auto simp: scheduleContinuation_def guarded_op_def checkIdempotency_def initializeContinuationScheduler_def
        append_event_def Let_def first_some_must demo_schedule_def)
  then show ?thesis using null_schedule_unusable [of cycle_sha "''t''" demo_schedule r' e "''t''" 5] by blast
qed

text \<open>
  What the digests of a continuation scheduler bind: the digest of an event determines every
  field of the event except its time stamp, the history digest determines the whole log.
\<close>

declare jget_append [simp del] jget_opt_member [simp del]

lemma sched_texts_inj [simp]:
  "sched_state_text a = sched_state_text b \<longleftrightarrow> a = b" "sched_kind_text k = sched_kind_text l \<longleftrightarrow> k = l"
  by (cases a; cases b; simp) (cases k; cases l; simp)

lemma canon_opt_text [simp]: "canon (opt_text x) = canon (opt_text y) \<longleftrightarrow> x = y"
  by (cases x; cases y) (simp_all add: opt_text_def)

lemma event_serializable: "serializable (event_canonical e)" and event_readable: "readable (event_canonical e)"
  by (auto simp: event_canonical_def opt_text_def ball_Un split: option.splits)

lemma event_text_binds:
  assumes "event_text e = event_text f"
  shows "e\<lparr>se_digest := [], se_createdAt := []\<rparr> = f\<lparr>se_digest := [], se_createdAt := []\<rparr>"
proof -
  have "value_text (event_canonical g) = event_text g" for g
    using event_text_defined [of g] by (simp add: toCanonicalJson_def value_text_def)
  then have "canon (event_canonical e) = canon (event_canonical f)"
    using assms value_prefix_unique [OF event_serializable event_readable event_serializable event_readable, of "[]" "[]" e f]
    by simp
  note eq = member_eq [OF this [unfolded event_canonical_def]]
  show ?thesis
    using eq [of "''cycleId''"] eq [of "''eventId''"] eq [of "''fromState''"] eq [of "''kind''"]
      eq [of "''observedExecutionRevision''"] eq [of "''previousEventDigest''"] eq [of "''requestSchedulerRevision''"]
      eq [of "''revisionAfter''"] eq [of "''revisionBefore''"] eq [of "''toState''"]
      eq [of "''expectedExecutionRevision''"] eq [of "''dispatchedContinuationId''"] eq [of "''resultDigest''"]
    by (cases e; cases f) simp
qed

lemma concat_fixed_width:
  assumes "list_all (\<lambda>x. length x = n) xs" and "list_all (\<lambda>y. length y = n) ys" and "0 < n" and "concat xs = concat ys"
  shows "xs = ys"
  using assms(1,2,4)
proof (induction xs ys rule: list_induct2')
  case (4 x xs y ys)
  then have "length x = length y" by simp
  then have "x = y \<and> concat xs = concat ys"
    using 4(4) append_eq_append_conv [THEN iffD1, of x y "concat xs" "concat ys"] unfolding concat.simps by blast
  then show ?case using 4(1-3) by simp
qed (use assms(3) in auto)

lemma replay_digests:
  "replay_events sha [] replay_start es = Inr st \<Longrightarrow> map se_digest es = map (computeEventDigest sha) es"
proof (induction es arbitrary: st rule: rev_induct)
  case (snoc e es)
  then obtain s where s: "replay_events sha [] replay_start es = Inr s" "replay_event sha es s e = Inr st"
    by (auto simp: replay_events_append split: sum.splits)
  then show ?case using snoc.IH [OF s(1)] by (simp add: replay_event_Inr check_chain_None)
qed simp

text \<open>The strings a log hashes.\<close>

definition hashed :: "sched_event list \<Rightarrow> string set" where
  "hashed es = insert (history_text es) (event_text ` set es)"

text \<open>The history digest binds the whole log.  If SHA-256 does not collide on the strings two
  logs hash and prints 64 characters, then two logs that pass the replay and have the same
  history digest have the same events, in the same order, equal in every field except the time
  stamp, which no digest covers.\<close>

theorem history_digest_binds:
  assumes "replayAndVerifyEvents sha es = None" and "replayAndVerifyEvents sha fs = None"
    and "computeHistoryDigest sha es = computeHistoryDigest sha fs"
    and "inj_on sha (hashed es \<union> hashed fs)" and "\<forall>s \<in> hashed es \<union> hashed fs. length (sha s) = 64"
  shows "map (\<lambda>e. e\<lparr>se_createdAt := []\<rparr>) es = map (\<lambda>e. e\<lparr>se_createdAt := []\<rparr>) fs"
proof (cases "es = []")
  case True
  then show ?thesis using assms(3) by (simp add: computeHistoryDigest_def split: if_splits)
next
  case False
  then have "sha (history_text es) = sha (history_text fs)"
    using assms(3) by (simp add: computeHistoryDigest_def split: if_splits)
  then have joined: "concat (map se_digest es) = concat (map se_digest fs)"
    using inj_onD [OF assms(4), of "history_text es" "history_text fs"] by (simp add: hashed_def history_text_def)
  obtain st st' where "replay_events sha [] replay_start es = Inr st" "replay_events sha [] replay_start fs = Inr st'"
    using assms(1,2) by (auto simp: replayAndVerifyEvents_def split: sum.splits)
  note d = this [THEN replay_digests]
  have width: "list_all (\<lambda>x. length x = 71) (map se_digest gs)" if "gs = es \<or> gs = fs" for gs
  proof -
    have "map se_digest gs = map (computeEventDigest sha) gs" using that d by auto
    moreover have "length (computeEventDigest sha e) = 71" if "e \<in> set gs" for e
      using that \<open>gs = es \<or> gs = fs\<close> assms(5) by (auto simp: computeEventDigest_def hashed_def)
    ultimately show ?thesis by (simp add: list_all_iff)
  qed
  have digests: "map se_digest es = map se_digest fs"
    by (rule concat_fixed_width [OF width width _ joined]) simp_all
  then have len: "length es = length fs" by (metis length_map)
  show ?thesis
  proof (rule nth_equalityI)
    fix n
    assume "n < length (map (\<lambda>e. e\<lparr>se_createdAt := []\<rparr>) es)"
    then have n: "n < length es" "n < length fs" using len by simp_all
    have dn: "se_digest (es ! n) = se_digest (fs ! n)" using digests n by (metis nth_map)
    have "computeEventDigest sha (es ! n) = computeEventDigest sha (fs ! n)"
      using dn d n by (metis nth_map)
    then have "event_text (es ! n) = event_text (fs ! n)"
      using n inj_onD [OF assms(4), of "event_text (es ! n)" "event_text (fs ! n)"]
      by (simp add: computeEventDigest_def hashed_def)
    from event_text_binds [OF this] have "(es ! n)\<lparr>se_createdAt := []\<rparr> = (fs ! n)\<lparr>se_createdAt := []\<rparr>"
      using dn by (cases "es ! n"; cases "fs ! n") simp
    then show "map (\<lambda>e. e\<lparr>se_createdAt := []\<rparr>) es ! n = map (\<lambda>e. e\<lparr>se_createdAt := []\<rparr>) fs ! n"
      using n by simp
  qed (simp add: len)
qed

lemma event_text_not_digest: "event_text e \<noteq> ''sha256:'' @ s"
proof -
  have "value_text (event_canonical e) = event_text e"
    using event_text_defined [of e] by (simp add: toCanonicalJson_def value_text_def)
  moreover have "hd (value_text (event_canonical e)) = CHR ''{''"
    using value_head [OF event_serializable event_readable, of e] by (simp add: event_canonical_def)
  ultimately show ?thesis by (cases s) auto
qed

lemma cycle_sha_text: "cycle_sha (event_text e) = replicate 64 CHR ''a''"
  unfolding cycle_sha_def using event_text_not_digest by (simp only: if_False)

lemma event_digest_const: "computeEventDigest cycle_sha e = ''sha256:'' @ replicate 64 CHR ''a''"
  by (simp only: computeEventDigest_def cycle_sha_text)

theorem history_digest_binds_witness:
  "sr_events run1 \<noteq> [] \<and> (\<exists>fs. fs \<noteq> sr_events run1 \<and> replayAndVerifyEvents cycle_sha fs = None \<and>
     map (\<lambda>e. e\<lparr>se_createdAt := []\<rparr>) (sr_events run1) = map (\<lambda>e. e\<lparr>se_createdAt := []\<rparr>) fs)"
proof -
  define e where "e = snd (next_record run0 5 (Do_Schedule demo_schedule))"
  define f where "f = e\<lparr>se_createdAt := ''u''\<rparr>"
  have ev: "sr_events run1 = [e]" using cycle_run(1) by (simp add: run1_def next_fields e_def)
  have e: "replayAndVerifyEvents cycle_sha [e] = None"
    using reach_wf [of cycle_sha "''e''" "''d''" run1] cycle_run(2) ev
    by (auto simp: sched_wf_def replayAndVerifyEvents_def)
  have f: "replayAndVerifyEvents cycle_sha [f] = None"
  proof -
    have "replay_event cycle_sha [] replay_start f = Inr (replay_update cycle_sha [] replay_start f)"
      using e by (cases "se_kind e")
        (auto simp: replayAndVerifyEvents_def replay_event_Inr check_chain_None check_kind_None f_def replay_start_def
          split: sum.splits)
    then show ?thesis by (simp add: replayAndVerifyEvents_def)
  qed
  have "se_digest e = computeEventDigest cycle_sha e"
    using e by (auto simp: replayAndVerifyEvents_def replay_event_Inr check_chain_None split: sum.splits)
  then have dig: "se_digest e = ''sha256:'' @ replicate 64 CHR ''a''" "se_digest f = se_digest e"
    by (simp only: event_digest_const, simp add: f_def)
  have same: "event_text f = event_text e" by (simp add: f_def event_text_def event_canonical_def)
  have hashed: "hashed [e] \<union> hashed [f] = {''sha256:'' @ replicate 64 CHR ''a'', event_text e}"
    unfolding hashed_def history_text_def using same dig by simp
  have "cycle_sha (''sha256:'' @ replicate 64 CHR ''a'') = replicate 64 CHR ''b''"
    by (simp only: cycle_sha_def simp_thms if_True)
  then have "inj_on cycle_sha (hashed [e] \<union> hashed [f])"
    unfolding hashed by (simp only: inj_on_insert) (auto simp: cycle_sha_text replicate_eq_replicate)
  moreover have "\<forall>s \<in> hashed [e] \<union> hashed [f]. length (cycle_sha s) = 64" by (simp add: cycle_sha_def)
  moreover have "computeHistoryDigest cycle_sha [e] = computeHistoryDigest cycle_sha [f]"
    using dig by (simp add: computeHistoryDigest_def history_text_def)
  ultimately have "map (\<lambda>e. e\<lparr>se_createdAt := []\<rparr>) [e] = map (\<lambda>e. e\<lparr>se_createdAt := []\<rparr>) [f]"
    using history_digest_binds [OF e f] by blast
  moreover have "f \<noteq> e"
  proof
    assume "f = e"
    then have "se_createdAt e = ''u''" by (simp add: f_def) (metis sched_event.select_convs(12) sched_event.surjective sched_event.update_convs(12))
    then show False by (simp add: e_def next_record_def append_event_def Let_def new_event_def)
  qed
  ultimately show ?thesis using ev f by (intro conjI exI [of _ "[f]"]) simp_all
qed

end
