(* ===== verification/Mission_Model.thy ===== *)
theory Mission_Model
  imports Contract_Digest
begin

text \<open>
  The domain model of the durable mission graph (\<open>mission/types.ts\<close>).  Costs, estimates and
  epoch milliseconds are integers.  An optional field is an option; a \<open>Record\<close> keyed by
  identifiers is a partial map.
\<close>

datatype mission_status = Ms_DRAFT | Ms_ACTIVE | Ms_COMPLETED | Ms_FAILED | Ms_ABORTED

datatype objective_status =
    Ob_PENDING | Ob_BLOCKED | Ob_READY | Ob_IN_PROGRESS | Ob_COMPLETED | Ob_FAILED | Ob_SKIPPED
  | Ob_WAITING_APPROVAL | Ob_WAITING_EXTERNAL

fun objective_status_text :: "objective_status \<Rightarrow> string" where
  "objective_status_text Ob_PENDING = ''PENDING''"
| "objective_status_text Ob_BLOCKED = ''BLOCKED''"
| "objective_status_text Ob_READY = ''READY''"
| "objective_status_text Ob_IN_PROGRESS = ''IN_PROGRESS''"
| "objective_status_text Ob_COMPLETED = ''COMPLETED''"
| "objective_status_text Ob_FAILED = ''FAILED''"
| "objective_status_text Ob_SKIPPED = ''SKIPPED''"
| "objective_status_text Ob_WAITING_APPROVAL = ''WAITING_APPROVAL''"
| "objective_status_text Ob_WAITING_EXTERNAL = ''WAITING_EXTERNAL''"

record mission_scope =
  ms_repositories :: "string list"
  ms_requireDeclared :: bool

record objective_criterion =
  oc_id :: ident
  oc_statement :: string
  oc_requiredAuthority :: "string option"

text \<open>\<open>MissionContract\<close>: a typed binding between objectives.\<close>

record contract_binding =
  cb_id :: ident
  cb_schema :: string
  cb_revision :: int
  cb_producer :: "ident option"
  cb_consumer :: ident
  cb_compatibility :: string
  cb_schemaDigest :: "string option"

datatype gate_scope = Scope_objective | Scope_mission

record approval_gate =
  ag_id :: ident
  ag_principals :: "string list"
  ag_scope :: gate_scope
  ag_ttlMs :: "int option"

record approval_decision =
  ad_gateId :: ident
  ad_approved :: bool
  ad_principal :: string
  ad_expiresAtMs :: "int option"
  ad_reason :: "string option"
  ad_recordedAtMs :: int

record blocker_spec =
  bs_id :: ident
  bs_statement :: string
  bs_evidenceRequired :: bool
  bs_satisfiedOn :: "string list"

record blocker_state =
  bk_specId :: ident
  bk_satisfied :: bool
  bk_evidence :: "string option"
  bk_satisfiedAtMs :: "int option"

record objective_budget =
  bu_maxCost :: int
  bu_spentCost :: int
  bu_route :: string

record mission_budget =
  mb_maxCost :: int
  mb_spentCost :: int

record mission_objective =
  mo_id :: ident
  mo_title :: string
  mo_dependencies :: "ident list"
  mo_repositories :: "string list"
  mo_estimate :: int
  mo_criteria :: "objective_criterion list"
  mo_requiresApproval :: bool
  mo_gate :: "approval_gate option"
  mo_blocker :: "blocker_spec option"
  mo_budget :: "objective_budget option"
  mo_routingPolicy :: "string option"
  mo_status :: objective_status

record mission_document =
  md_schemaVersion :: int
  md_missionId :: ident
  md_revision :: int
  md_digest :: string
  md_scope :: mission_scope
  md_objectives :: "mission_objective list"
  md_contracts :: "contract_binding list"
  md_status :: mission_status
  md_observed :: "string list option"
  md_createdAtMs :: int
  md_updatedAtMs :: int

record repository_lease =
  rl_leaseId :: ident
  rl_repositoryId :: string
  rl_holder :: string
  rl_acquiredAtMs :: int
  rl_expiresAtMs :: int

datatype process_status = Ps_running | Ps_interrupted | Ps_completed | Ps_missing

record process_record =
  ps_processId :: ident
  ps_owner :: string
  ps_repositoryIds :: "string list"
  ps_status :: process_status
  ps_startedAtMs :: int
  ps_interruptedAtMs :: "int option"

text \<open>\<open>MissionErrorCode\<close>; \<open>Me_THROWS\<close> stands for a call that throws instead.\<close>

datatype mission_error =
    Me_SCOPE_EXPANSION | Me_UNDECLARED_REPOSITORY | Me_CYCLE_DETECTED | Me_MISSING_DEPENDENCY |
    Me_MISSING_ACCEPTANCE_CRITERIA | Me_SELF_APPROVAL | Me_APPROVAL_REQUIRED |
    Me_APPROVAL_NOT_GRANTED | Me_APPROVAL_EXPIRED | Me_BLOCKER_UNSATISFIED |
    Me_BLOCKER_WITHOUT_EVIDENCE | Me_BUDGET_EXCEEDED | Me_NOT_READY | Me_DEPENDENCY_UNSATISFIED |
    Me_WRITE_CONFLICT | Me_LEASE_NOT_HELD | Me_STALE_REVISION | Me_DUPLICATE_ID |
    Me_FORBIDDEN_MUTATION | Me_NOT_FOUND | Me_INVALID_GRAPH | Me_INTEGRATION_IN_PROGRESS |
    Me_CONTRACT_MISMATCH | Me_STALE_CONTRACT | Me_INTERNAL_ERROR | Me_THROWS

section \<open>The graph as JSON\<close>

definition scope_json :: "mission_scope \<Rightarrow> json" where
  "scope_json s = JObj [(''repositories'', JArr (map JStr (ms_repositories s))),
     (''requireDeclaredRepositories'', JBool (ms_requireDeclared s))]"

definition criterion_json_of :: "objective_criterion \<Rightarrow> json" where
  "criterion_json_of c = JObj ([(''id'', JStr (oc_id c)), (''statement'', JStr (oc_statement c))]
     @ opt_member ''requiredAuthority'' (map_option JStr (oc_requiredAuthority c)))"

definition gate_json :: "approval_gate \<Rightarrow> json" where
  "gate_json g = JObj ([(''id'', JStr (ag_id g)), (''requiredPrincipals'', JArr (map JStr (ag_principals g))),
       (''scope'', JStr (case ag_scope g of Scope_objective \<Rightarrow> ''objective'' | Scope_mission \<Rightarrow> ''mission''))]
     @ opt_member ''ttlMs'' (map_option (JNum \<circ> IntNum) (ag_ttlMs g)))"

definition blocker_json :: "blocker_spec \<Rightarrow> json" where
  "blocker_json b = JObj [(''id'', JStr (bs_id b)), (''statement'', JStr (bs_statement b)),
     (''evidenceRequired'', JBool (bs_evidenceRequired b)), (''satisfiedOn'', JArr (map JStr (bs_satisfiedOn b)))]"

definition budget_json :: "objective_budget \<Rightarrow> json" where
  "budget_json b = JObj [(''maxCost'', JNum (IntNum (bu_maxCost b))), (''spentCost'', JNum (IntNum (bu_spentCost b))),
     (''route'', JStr (bu_route b))]"

definition objective_json :: "mission_objective \<Rightarrow> json" where
  "objective_json ob = JObj
     ([(''id'', JStr (mo_id ob)), (''title'', JStr (mo_title ob)),
       (''dependencies'', JArr (map JStr (mo_dependencies ob))),
       (''declaredRepositories'', JArr (map JStr (mo_repositories ob))),
       (''estimate'', JNum (IntNum (mo_estimate ob))),
       (''acceptanceCriteria'', JArr (map criterion_json_of (mo_criteria ob))),
       (''requiresApproval'', JBool (mo_requiresApproval ob)),
       (''status'', JStr (objective_status_text (mo_status ob)))]
      @ opt_member ''approvalGate'' (map_option gate_json (mo_gate ob))
      @ opt_member ''externalBlocker'' (map_option blocker_json (mo_blocker ob))
      @ opt_member ''budget'' (map_option budget_json (mo_budget ob))
      @ opt_member ''routingPolicy'' (map_option JStr (mo_routingPolicy ob)))"

definition binding_json :: "contract_binding \<Rightarrow> json" where
  "binding_json c = JObj
     ([(''id'', JStr (cb_id c)), (''schema'', JStr (cb_schema c)), (''revision'', JNum (IntNum (cb_revision c))),
       (''consumerObjective'', JStr (cb_consumer c)), (''compatibility'', JStr (cb_compatibility c))]
      @ opt_member ''producerObjective'' (map_option JStr (cb_producer c))
      @ opt_member ''schemaDigest'' (map_option JStr (cb_schemaDigest c)))"

end
