(* ===== verification/Depth_First.thy ===== *)
theory Depth_First
  imports Json_Values
begin

text \<open>
  The depth-first search for dependency cycles of \<open>mission/graph.ts\<close> (\<open>detectCycles\<close>): marks
  0 (unvisited), 1 (on the stack), 2 (done), the stack, and the cycles found.  The recursion of
  the source is bounded by fuel; one unit per node and one more is enough.
\<close>

record dfs =
  df_mark :: "ident \<Rightarrow> nat"
  df_stack :: "ident list"
  df_cycles :: "ident list list"

definition dfs_start :: dfs where
  "dfs_start = \<lparr>df_mark = (\<lambda>x. 0), df_stack = [], df_cycles = []\<rparr>"

text \<open>A back edge to \<open>x\<close>: the cycle is the stack from \<open>x\<close> on, closed; cycles printed alike are
  recorded once.\<close>

definition back_edge :: "dfs \<Rightarrow> ident \<Rightarrow> dfs" where
  "back_edge s x =
     (let cycle = (if x \<in> set (df_stack s) then dropWhile (\<lambda>y. y \<noteq> x) (df_stack s) @ [x] else [x]) in
      if join_comma cycle \<in> join_comma ` set (df_cycles s) then s else s\<lparr>df_cycles := df_cycles s @ [cycle]\<rparr>)"

definition enter :: "dfs \<Rightarrow> ident \<Rightarrow> dfs" where
  "enter s x = s\<lparr>df_mark := (df_mark s)(x := 1), df_stack := df_stack s @ [x]\<rparr>"

definition leave :: "dfs \<Rightarrow> ident \<Rightarrow> dfs" where
  "leave s x = s\<lparr>df_mark := (df_mark s)(x := 2), df_stack := butlast (df_stack s)\<rparr>"

function visit :: "nat \<Rightarrow> (ident \<Rightarrow> ident list) \<Rightarrow> dfs \<Rightarrow> ident \<Rightarrow> dfs option"
  and visit_all :: "nat \<Rightarrow> (ident \<Rightarrow> ident list) \<Rightarrow> dfs \<Rightarrow> ident list \<Rightarrow> dfs option" where
  "visit 0 adj s x = None"
| "visit (Suc n) adj s x =
     (if df_mark s x = 2 then Some s
      else if df_mark s x = 1 then Some (back_edge s x)
      else map_option (\<lambda>t. leave t x) (visit_all n adj (enter s x) (adj x)))"
| "visit_all n adj s [] = Some s"
| "visit_all n adj s (x # xs) =
     (case visit n adj s x of None \<Rightarrow> None | Some t \<Rightarrow> visit_all n adj t xs)"
  by pat_completeness auto
termination
  by (relation "measures [case_sum (\<lambda>(n, _). n) (\<lambda>(n, _). n), case_sum (\<lambda>_. 0) (\<lambda>(_, _, _, xs). Suc (length xs))]") auto

text \<open>The loop over the objectives: only unvisited ones are visited.\<close>

fun visit_roots :: "nat \<Rightarrow> (ident \<Rightarrow> ident list) \<Rightarrow> dfs \<Rightarrow> ident list \<Rightarrow> dfs option" where
  "visit_roots n adj s [] = Some s"
| "visit_roots n adj s (x # xs) =
     (case (if df_mark s x = 0 then visit n adj s x else Some s) of
        None \<Rightarrow> None | Some t \<Rightarrow> visit_roots n adj t xs)"

section \<open>Termination\<close>

definition white :: "ident set \<Rightarrow> dfs \<Rightarrow> ident set" where
  "white U s = {x \<in> U. df_mark s x = 0}"

lemma back_edge_fields [simp]: "df_mark (back_edge s x) = df_mark s" "df_stack (back_edge s x) = df_stack s"
  by (simp_all add: back_edge_def Let_def)

lemma white_back_edge [simp]: "white U (back_edge s x) = white U s"
  by (simp add: white_def)

lemma white_leave: "white U (leave s x) \<subseteq> white U s"
  by (auto simp: white_def leave_def)

lemma white_enter: "df_mark s x = 0 \<Longrightarrow> x \<in> U \<Longrightarrow> white U (enter s x) = white U s - {x}"
  by (auto simp: white_def enter_def)

definition marks_ok :: "dfs \<Rightarrow> bool" where
  "marks_ok s \<longleftrightarrow> (\<forall>y. df_mark s y \<le> 2)"

lemma marks_ok_steps [simp]:
  "marks_ok dfs_start" "marks_ok (back_edge s x) = marks_ok s" "marks_ok s \<Longrightarrow> marks_ok (enter s x)"
  "marks_ok s \<Longrightarrow> marks_ok (leave s x)"
  by (auto simp: marks_ok_def enter_def leave_def dfs_start_def)

lemma visit_terminates:
  assumes "finite U" and closed: "\<And>y. y \<in> U \<Longrightarrow> set (adj y) \<subseteq> U"
  shows "x \<in> U \<Longrightarrow> marks_ok s \<Longrightarrow> card (white U s) < n \<Longrightarrow>
      \<exists>t. visit n adj s x = Some t \<and> white U t \<subseteq> white U s \<and> marks_ok t"
    and "set xs \<subseteq> U \<Longrightarrow> marks_ok s \<Longrightarrow> card (white U s) < n \<Longrightarrow>
      \<exists>t. visit_all n adj s xs = Some t \<and> white U t \<subseteq> white U s \<and> marks_ok t"
proof (induction n arbitrary: x s xs)
  case (Suc n)
  have fin: "finite (white U s)" for s using assms(1) by (simp add: white_def)
  have one: "\<exists>t. visit (Suc n) adj s x = Some t \<and> white U t \<subseteq> white U s \<and> marks_ok t"
    if th: "x \<in> U" "marks_ok s" "card (white U s) < Suc n" for x s
  proof (cases "df_mark s x = 0")
    case True
    then have "x \<in> white U s" using th(1) by (simp add: white_def)
    then have "card (white U (enter s x)) < n"
      using th(3) card_Diff1_less [OF fin, of x s] white_enter [OF True th(1)] by simp
    then obtain t where t: "visit_all n adj (enter s x) (adj x) = Some t" "white U t \<subseteq> white U (enter s x)" "marks_ok t"
      using Suc.IH(2) [of "adj x" "enter s x"] closed [OF th(1)] th(2) by auto
    then have "white U (leave t x) \<subseteq> white U s"
      using white_leave white_enter [OF True th(1)] by blast
    then show ?thesis using True t by simp
  next
    case False
    moreover have "df_mark s x \<le> 2" using th(2) by (simp add: marks_ok_def)
    ultimately have "df_mark s x = 1 \<or> df_mark s x = 2" by linarith
    then show ?thesis using th(2) by auto
  qed
  {
    case 1
    then show ?case using one by blast
  next
    case 2
    then show ?case
    proof (induction xs arbitrary: s)
      case (Cons x xs)
      obtain t where t: "visit (Suc n) adj s x = Some t" "white U t \<subseteq> white U s" "marks_ok t"
        using one [of x s] Cons.prems by auto
      then have "card (white U t) < Suc n" using card_mono [OF fin t(2)] Cons.prems(3) by linarith
      then obtain u where "visit_all (Suc n) adj t xs = Some u" "white U u \<subseteq> white U t" "marks_ok u"
        using Cons.IH [of t] Cons.prems(1) t(3) by auto
      then show ?case using t by auto
    qed auto
  }
qed simp_all

section \<open>Correctness\<close>

definition arcs :: "(ident \<Rightarrow> ident list) \<Rightarrow> (ident \<times> ident) set" where
  "arcs adj = {(x, y). y \<in> set (adj x)}"

text \<open>The invariant: the stack is a path of the nodes marked 1; recorded cycles are cycles; as
  long as none is recorded, the done nodes are closed under dependencies and ranked.\<close>

definition ranked :: "(ident \<Rightarrow> ident list) \<Rightarrow> dfs \<Rightarrow> bool" where
  "ranked adj s \<longleftrightarrow> (\<exists>f :: ident \<Rightarrow> nat. \<forall>x. df_mark s x = 2 \<longrightarrow> (\<forall>y \<in> set (adj x). df_mark s y = 2 \<and> f y < f x))"

definition dfs_ok :: "(ident \<Rightarrow> ident list) \<Rightarrow> dfs \<Rightarrow> bool" where
  "dfs_ok adj s \<longleftrightarrow> (\<forall>x. df_mark s x = 1 \<longleftrightarrow> x \<in> set (df_stack s)) \<and> distinct (df_stack s) \<and>
     successively (\<lambda>x y. y \<in> set (adj x)) (df_stack s) \<and>
     (df_cycles s \<noteq> [] \<longrightarrow> \<not> acyclic (arcs adj)) \<and> (df_cycles s = [] \<longrightarrow> ranked adj s) \<and> marks_ok s"

lemma dfs_ok_start: "dfs_ok adj dfs_start"
  by (simp add: dfs_ok_def dfs_start_def ranked_def marks_ok_def)

lemma path_reaches:
  "successively (\<lambda>x y. y \<in> set (adj x)) (x # p) \<Longrightarrow> (x, last (x # p)) \<in> (arcs adj)\<^sup>*"
proof (induction p arbitrary: x)
  case (Cons y p)
  then have "(x, y) \<in> arcs adj" "(y, last (y # p)) \<in> (arcs adj)\<^sup>*" by (auto simp: arcs_def)
  then show ?case by (simp add: converse_rtrancl_into_rtrancl)
qed simp

definition next_of :: "(ident \<Rightarrow> ident list) \<Rightarrow> dfs \<Rightarrow> ident \<Rightarrow> bool" where
  "next_of adj s x \<longleftrightarrow> df_stack s = [] \<or> x \<in> set (adj (last (df_stack s)))"

lemma back_edge_ok:
  assumes ok: "dfs_ok adj s" and "next_of adj s x" and "df_mark s x = 1"
  shows "dfs_ok adj (back_edge s x) \<and> df_cycles (back_edge s x) \<noteq> []"
proof -
  have "x \<in> set (df_stack s)" using ok assms(3) by (auto simp: dfs_ok_def)
  then obtain ps qs where stack: "df_stack s = ps @ x # qs" by (meson split_list)
  have "successively (\<lambda>x y. y \<in> set (adj x)) (x # qs)"
    using ok stack by (auto simp: dfs_ok_def successively_append_iff)
  then have "(x, last (x # qs)) \<in> (arcs adj)\<^sup>*" by (rule path_reaches)
  moreover have "(last (x # qs), x) \<in> arcs adj"
    using assms(2) stack by (auto simp: next_of_def arcs_def)
  ultimately have "(x, x) \<in> (arcs adj)\<^sup>+" by (rule rtrancl_into_trancl1)
  then have "\<not> acyclic (arcs adj)" by (auto simp: acyclic_def)
  moreover have "df_cycles (back_edge s x) \<noteq> []" by (auto simp: back_edge_def Let_def)
  ultimately show ?thesis using ok by (simp add: dfs_ok_def)
qed

lemma enter_ok:
  assumes ok: "dfs_ok adj s" and "next_of adj s x" and new: "df_mark s x \<noteq> 1" "df_mark s x \<noteq> 2"
  shows "dfs_ok adj (enter s x)"
proof -
  have fields: "df_stack (enter s x) = df_stack s @ [x]" "df_cycles (enter s x) = df_cycles s"
    "df_mark (enter s x) = (df_mark s)(x := 1)" by (simp_all add: enter_def)
  have "successively (\<lambda>x y. y \<in> set (adj x)) (df_stack s @ [x])"
    using ok assms(2) by (auto simp: dfs_ok_def next_of_def successively_append_iff)
  moreover have "ranked adj (enter s x)" if r: "ranked adj s"
  proof -
    obtain f :: "ident \<Rightarrow> nat" where f: "\<And>z y. df_mark s z = 2 \<Longrightarrow> y \<in> set (adj z) \<Longrightarrow> df_mark s y = 2 \<and> f y < f z"
      using r by (auto simp: ranked_def)
    show ?thesis
      unfolding ranked_def fields
    proof (intro exI allI impI ballI)
      fix z y
      assume "((df_mark s)(x := 1)) z = 2" and y: "y \<in> set (adj z)"
      then have "df_mark s z = 2" by (simp split: if_splits)
      from f [OF this y] new show "((df_mark s)(x := 1)) y = 2 \<and> f y < f z" by auto
    qed
  qed
  moreover have "marks_ok (enter s x)" using ok by (simp add: dfs_ok_def)
  ultimately show ?thesis using ok new unfolding dfs_ok_def fields by auto
qed

lemma leave_ok:
  assumes ok: "dfs_ok adj t" and stack: "df_stack t = st @ [x]"
    and deps: "df_cycles t = [] \<Longrightarrow> \<forall>y \<in> set (adj x). df_mark t y = 2"
  shows "dfs_ok adj (leave t x)"
proof -
  have fields: "df_stack (leave t x) = st" "df_cycles (leave t x) = df_cycles t"
    "df_mark (leave t x) = (df_mark t)(x := 2)" using stack by (simp_all add: leave_def)
  have x: "df_mark t x = 1" "x \<notin> set st" using ok stack by (auto simp: dfs_ok_def)
  have "ranked adj (leave t x)" if c: "df_cycles t = []"
  proof -
    obtain f :: "ident \<Rightarrow> nat" where f: "\<And>z y. df_mark t z = 2 \<Longrightarrow> y \<in> set (adj z) \<Longrightarrow> df_mark t y = 2 \<and> f y < f z"
      using ok c by (auto simp: ranked_def dfs_ok_def)
    define g where "g = f(x := Suc (sum_list (map f (adj x))))"
    have "g y < g x" if y: "y \<in> set (adj x)" for y
    proof -
      have "y \<noteq> x" using deps [OF c] y x(1) by auto
      then show ?thesis using y by (simp add: g_def member_le_sum_list less_Suc_eq_le)
    qed
    moreover have "g y = f y" if "df_mark t y = 2" for y using that x(1) by (auto simp: g_def)
    ultimately show ?thesis
      unfolding ranked_def fields using f deps [OF c] by (intro exI [of _ g]) (auto split: if_splits)
  qed
  moreover have "df_mark t z = 1 \<longleftrightarrow> z \<in> set (st @ [x])" for z using ok stack by (simp add: dfs_ok_def)
  moreover have "marks_ok (leave t x)" using ok by (simp add: dfs_ok_def)
  ultimately show ?thesis
    using ok x(2) stack unfolding dfs_ok_def fields by (auto simp: successively_append_iff)
qed

text \<open>What a visit changes: more nodes are done, the stack is as before, cycles are only added.\<close>

definition grows :: "dfs \<Rightarrow> dfs \<Rightarrow> bool" where
  "grows s t \<longleftrightarrow> df_stack t = df_stack s \<and> (\<forall>x. df_mark s x = 2 \<longrightarrow> df_mark t x = 2) \<and> (df_cycles t = [] \<longrightarrow> df_cycles s = [])"

lemma visit_ok:
  "dfs_ok adj s \<Longrightarrow> next_of adj s x \<Longrightarrow> visit n adj s x = Some t \<Longrightarrow>
     dfs_ok adj t \<and> grows s t \<and> (df_cycles t = [] \<longrightarrow> df_mark t x = 2)"
  "dfs_ok adj s \<Longrightarrow> \<forall>x \<in> set xs. next_of adj s x \<Longrightarrow> visit_all n adj s xs = Some t \<Longrightarrow>
     dfs_ok adj t \<and> grows s t \<and> (df_cycles t = [] \<longrightarrow> (\<forall>x \<in> set xs. df_mark t x = 2))"
proof (induction n adj s x and n adj s xs arbitrary: t and t rule: visit_visit_all.induct)
  case (2 n adj s x)
  consider "df_mark s x = 2" | "df_mark s x = 1" | (new) "df_mark s x \<noteq> 2" "df_mark s x \<noteq> 1" by blast
  then show ?case
  proof cases
    case new
    then obtain u where u: "visit_all n adj (enter s x) (adj x) = Some u" "t = leave u x"
      using "2.prems"(3) by auto
    have "\<forall>y \<in> set (adj x). next_of adj (enter s x) y" by (simp add: next_of_def enter_def)
    then have IH: "dfs_ok adj u" "grows (enter s x) u" "df_cycles u = [] \<longrightarrow> (\<forall>y \<in> set (adj x). df_mark u y = 2)"
      using "2.IH" [OF new enter_ok [OF "2.prems"(1,2) new(2,1)] _ u(1)] by blast+
    have stack: "df_stack u = df_stack s @ [x]" using IH(2) by (simp add: grows_def enter_def)
    have "dfs_ok adj t" unfolding u(2) by (rule leave_ok [OF IH(1) stack]) (use IH(3) in blast)
    moreover have "grows s t" using IH(2) stack u(2) new by (auto simp: grows_def enter_def leave_def)
    ultimately show ?thesis by (simp add: u(2) leave_def)
  qed (use 2 back_edge_ok in \<open>auto simp: grows_def\<close>)
next
  case (4 n adj s x xs)
  then obtain u where u: "visit n adj s x = Some u" "visit_all n adj u xs = Some t"
    by (auto split: option.splits)
  have 1: "dfs_ok adj u" "grows s u" "df_cycles u = [] \<longrightarrow> df_mark u x = 2"
    using "4.IH"(1) [OF "4.prems"(1) _ u(1)] "4.prems"(2) by auto
  have "\<forall>y \<in> set xs. next_of adj u y" using 1(2) "4.prems"(2) by (auto simp: next_of_def grows_def)
  then have "dfs_ok adj t" "grows u t" "df_cycles t = [] \<longrightarrow> (\<forall>y \<in> set xs. df_mark t y = 2)"
    using "4.IH"(2) [OF u(1) 1(1) _ u(2)] by blast+
  then show ?case using 1 by (auto simp: grows_def)
qed (auto simp: grows_def)

lemma visit_roots_ok:
  "dfs_ok adj s \<Longrightarrow> df_stack s = [] \<Longrightarrow> visit_roots n adj s xs = Some t \<Longrightarrow>
     dfs_ok adj t \<and> grows s t \<and> (df_cycles t = [] \<longrightarrow> (\<forall>x \<in> set xs. df_mark t x = 2))"
proof (induction xs arbitrary: s)
  case (Cons x xs)
  then obtain u where u: "(if df_mark s x = 0 then visit n adj s x else Some s) = Some u" "visit_roots n adj u xs = Some t"
    by (auto split: option.splits)
  have "dfs_ok adj u \<and> grows s u \<and> (df_cycles u = [] \<longrightarrow> df_mark u x = 2)"
  proof (cases "df_mark s x = 0")
    case True
    then show ?thesis
      using u(1) visit_ok(1) [OF Cons.prems(1), of x n u] Cons.prems(2) by (simp add: next_of_def)
  next
    case False
    have "df_mark s x \<noteq> 1" "df_mark s x \<le> 2" using Cons.prems(1,2) by (auto simp: dfs_ok_def marks_ok_def)
    then have "df_mark s x = 2" using False by linarith
    then show ?thesis using u(1) Cons.prems(1) by (auto simp: grows_def)
  qed
  then have 1: "dfs_ok adj u" "grows s u" "df_cycles u = [] \<longrightarrow> df_mark u x = 2" by blast+
  have st: "df_stack u = []" using 1(2) Cons.prems(2) by (simp add: grows_def)
  show ?case using 1 Cons.IH [OF 1(1) st u(2)] by (auto simp: grows_def)
qed (auto simp: grows_def)

lemma visit_roots_terminates:
  assumes "finite U" and "\<And>y. y \<in> U \<Longrightarrow> set (adj y) \<subseteq> U" and "set xs \<subseteq> U"
  shows "marks_ok s \<Longrightarrow> card (white U s) < n \<Longrightarrow> \<exists>t. visit_roots n adj s xs = Some t"
  using assms(3)
proof (induction xs arbitrary: s)
  case (Cons x xs)
  have "\<exists>u. (if df_mark s x = 0 then visit n adj s x else Some s) = Some u \<and> white U u \<subseteq> white U s \<and> marks_ok u"
    using visit_terminates(1) [OF assms(1,2), where x = x and s = s and n = n] Cons.prems by auto
  then obtain u where u: "(if df_mark s x = 0 then visit n adj s x else Some s) = Some u" "white U u \<subseteq> white U s" "marks_ok u"
    by blast
  have "card (white U u) \<le> card (white U s)" using u(2) assms(1) by (intro card_mono) (simp_all add: white_def)
  then show ?case using Cons.IH [of u] u Cons.prems by auto
qed simp

text \<open>On a graph whose nodes and arcs lie in the list \<open>nodes\<close>: the search returns, and finds no
  cycle exactly when there is none.\<close>

lemma dfs_correct:
  assumes "\<And>y. set (adj y) \<subseteq> set nodes" and "\<And>y. y \<notin> set roots \<Longrightarrow> adj y = []" and "set roots \<subseteq> set nodes"
  obtains t where "visit_roots (Suc (length nodes)) adj dfs_start roots = Some t"
    and "df_cycles t = [] \<longleftrightarrow> acyclic (arcs adj)"
proof -
  have "card (white (set nodes) dfs_start) < Suc (length nodes)"
    by (simp add: white_def dfs_start_def card_length less_Suc_eq_le)
  then have "\<exists>t. visit_roots (Suc (length nodes)) adj dfs_start roots = Some t"
    by (intro visit_roots_terminates [OF _ _ assms(3)]) (use assms(1) in simp_all)
  then obtain t where t: "visit_roots (Suc (length nodes)) adj dfs_start roots = Some t" ..
  have ok: "dfs_ok adj t" "df_cycles t = [] \<Longrightarrow> \<forall>x \<in> set roots. df_mark t x = 2"
    using visit_roots_ok [OF dfs_ok_start _ t] by (simp_all add: dfs_start_def)
  have "acyclic (arcs adj)" if c: "df_cycles t = []"
  proof -
    obtain f :: "ident \<Rightarrow> nat" where f: "\<And>x y. df_mark t x = 2 \<Longrightarrow> y \<in> set (adj x) \<Longrightarrow> f y < f x"
      using ok(1) c by (auto simp: dfs_ok_def ranked_def)
    have "arcs adj \<subseteq> (measure f)\<inverse>"
    proof
      fix e assume "e \<in> arcs adj"
      then obtain x y where e: "e = (x, y)" "y \<in> set (adj x)" by (auto simp: arcs_def)
      then have "x \<in> set roots" using assms(2) [of x] by (cases "x \<in> set roots") auto
      then show "e \<in> (measure f)\<inverse>" using f [of x y] ok(2) [OF c] e by auto
    qed
    moreover have "acyclic ((measure f)\<inverse>)" using wf_acyclic [OF wf_measure] by (simp only: acyclic_converse)
    ultimately show ?thesis using acyclic_subset by blast
  qed
  then have "df_cycles t = [] \<longleftrightarrow> acyclic (arcs adj)" using ok(1) by (auto simp: dfs_ok_def)
  with t show thesis by (rule that)
qed

end
