(* ===== verification/Mission_Graph.thy ===== *)
theory Mission_Graph
  imports Mission_Model Depth_First Dependency_Graph
begin

text \<open>
  \<open>mission/graph.ts\<close>: the digest of a mission graph, the dependency index, the validation with
  the issues it reports, the search for dependency cycles, the topological order and the
  critical path.  SHA-256 is the parameter \<open>sha\<close>.
\<close>

section \<open>Digest\<close>

definition graph_payload :: "mission_scope \<Rightarrow> mission_objective list \<Rightarrow> contract_binding list \<Rightarrow> json" where
  "graph_payload s objs cs = JObj
     [(''schemaVersion'', JNum (IntNum 1)), (''scope'', scope_json s),
      (''objectives'', JArr (map objective_json (sort_key mo_id objs))),
      (''contracts'', JArr (map binding_json (sort_key cb_id cs)))]"

definition computeMissionGraphDigest ::
  "(string \<Rightarrow> string) \<Rightarrow> mission_scope \<Rightarrow> mission_objective list \<Rightarrow> contract_binding list \<Rightarrow> string" where
  "computeMissionGraphDigest sha s objs cs =
     sha (case toCanonicalJson (graph_payload s objs cs) of Some t \<Rightarrow> t | None \<Rightarrow> [])"

definition buildMissionDocument ::
  "(string \<Rightarrow> string) \<Rightarrow> ident \<Rightarrow> mission_scope \<Rightarrow> mission_objective list \<Rightarrow> contract_binding list \<Rightarrow> int \<Rightarrow>
   mission_status \<Rightarrow> int \<Rightarrow> mission_document" where
  "buildMissionDocument sha i s objs cs revision status now =
     \<lparr>md_schemaVersion = 1, md_missionId = i, md_revision = revision, md_digest = computeMissionGraphDigest sha s objs cs,
      md_scope = s, md_objectives = objs, md_contracts = cs, md_status = status, md_observed = None,
      md_createdAtMs = now, md_updatedAtMs = now\<rparr>"

section \<open>Dependency index\<close>

definition objectiveIds :: "mission_objective list \<Rightarrow> ident list" where
  "objectiveIds objs = js_set (map mo_id objs)"

text \<open>A repeated identifier overwrites the entry of \<open>dependenciesBy\<close>; \<open>dependentsBy\<close> lists
  every occurrence of an edge.\<close>

definition dependencies_by :: "mission_objective list \<Rightarrow> ident \<Rightarrow> ident list" where
  "dependencies_by objs i =
     (case map_of (rev (map (\<lambda>x. (mo_id x, mo_dependencies x)) objs)) i of None \<Rightarrow> [] | Some ds \<Rightarrow> ds)"

definition dependents_by :: "mission_objective list \<Rightarrow> ident \<Rightarrow> ident list" where
  "dependents_by objs d = concat (map (\<lambda>x. map (\<lambda>_. mo_id x) (filter (\<lambda>e. e = d) (mo_dependencies x))) objs)"

text \<open>The direct dependencies that are objectives of the mission.\<close>

definition graph_dependencies :: "mission_objective list \<Rightarrow> ident \<Rightarrow> ident list" where
  "graph_dependencies objs i = filter (\<lambda>d. d \<in> set (objectiveIds objs)) (dependencies_by objs i)"

section \<open>Cycles\<close>

definition graph_nodes :: "mission_objective list \<Rightarrow> ident list" where
  "graph_nodes objs = concat (map (\<lambda>x. mo_id x # mo_dependencies x) objs)"

definition detectCycles :: "mission_objective list \<Rightarrow> ident list list" where
  "detectCycles objs =
     (case visit_roots (Suc (length (graph_nodes objs))) (dependencies_by objs) dfs_start (map mo_id objs) of
        None \<Rightarrow> [] | Some t \<Rightarrow> df_cycles t)"

section \<open>Validation\<close>

record graph_issue =
  gi_path :: string
  gi_message :: string

record graph_validation =
  gv_valid :: bool
  gv_digest :: string
  gv_revision :: int
  gv_errors :: "graph_issue list"
  gv_cycles :: "ident list list"
  gv_missing :: "string list"
  gv_undeclared :: "string list"
  gv_noSelfApproval :: bool

definition sq :: "string \<Rightarrow> string" where
  "sq s = CHR 0x27 # s @ [CHR 0x27]"

definition issue :: "string \<Rightarrow> string \<Rightarrow> graph_issue" where
  "issue p m = \<lparr>gi_path = p, gi_message = m\<rparr>"

definition objective_path :: "ident \<Rightarrow> string \<Rightarrow> string" where
  "objective_path i rest = ''objectives['' @ i @ '']'' @ rest"

fun duplicate_issues :: "ident list \<Rightarrow> mission_objective list \<Rightarrow> graph_issue list" where
  "duplicate_issues seen [] = []"
| "duplicate_issues seen (x # xs) =
     (if mo_id x \<in> set seen then [issue (objective_path (mo_id x) []) ''duplicate objective id''] else [])
     @ duplicate_issues (mo_id x # seen) xs"

definition missing_dependencies :: "mission_objective list \<Rightarrow> string list" where
  "missing_dependencies objs = concat (map (\<lambda>x.
     map (\<lambda>d. mo_id x @ ''->'' @ d) (filter (\<lambda>d. d \<notin> set (objectiveIds objs)) (mo_dependencies x))) objs)"

definition undeclared_repositories :: "mission_scope \<Rightarrow> mission_objective list \<Rightarrow> string list" where
  "undeclared_repositories s objs =
     (if ms_requireDeclared s then
        js_set (concat (map (\<lambda>x. map (\<lambda>r. mo_id x @ ''__'' @ r)
          (filter (\<lambda>r. r \<notin> set (ms_repositories s)) (mo_repositories x))) objs))
      else [])"

definition self_approving :: "mission_objective \<Rightarrow> bool" where
  "self_approving x \<longleftrightarrow> (case mo_gate x of None \<Rightarrow> False | Some g \<Rightarrow> mo_id x \<in> set (ag_principals g))"

definition binding_issues :: "ident list \<Rightarrow> contract_binding \<Rightarrow> graph_issue list" where
  "binding_issues ids c =
     (if \<not> js_falsy (cb_producer c) \<and> the (cb_producer c) \<notin> set ids
      then [issue (''contracts['' @ cb_id c @ ''].producerObjective'')
              (''contract '' @ sq (cb_id c) @ '' references unknown producer '' @ sq (the (cb_producer c)))] else [])
     @ (if cb_consumer c \<notin> set ids
        then [issue (''contracts['' @ cb_id c @ ''].consumerObjective'')
                (''contract '' @ sq (cb_id c) @ '' references unknown consumer '' @ sq (cb_consumer c))] else [])"

definition graph_issues :: "mission_document \<Rightarrow> graph_issue list" where
  "graph_issues m =
     (let objs = md_objectives m; missing = missing_dependencies objs;
          undeclared = undeclared_repositories (md_scope m) objs in
      duplicate_issues [] objs
      @ (if missing = [] then [] else [issue ''dependencies'' (''missing dependencies: '' @ join_with '', '' missing)])
      @ map (\<lambda>c. issue ''dependencies.cycles'' (''dependency cycle detected: '' @ join_with '' -> '' c)) (detectCycles objs)
      @ map (\<lambda>x. issue (objective_path (mo_id x) ''.acceptanceCriteria'')
               (''objective '' @ sq (mo_id x) @ '' has no explicit acceptance criteria''))
          (filter (\<lambda>x. mo_criteria x = []) objs)
      @ (if undeclared = [] then []
         else [issue ''scope.repositories'' (''undeclared repositories: '' @ join_with '', '' undeclared)])
      @ map (\<lambda>x. issue (objective_path (mo_id x) ''.approvalGate'')
               (''objective '' @ sq (mo_id x) @ '' is its own approval principal''))
          (filter self_approving objs)
      @ concat (map (binding_issues (objectiveIds objs)) (md_contracts m)))"

text \<open>Every issue has severity \<open>error\<close>, so the graph is valid when there is none.\<close>

definition validateMissionGraph :: "(string \<Rightarrow> string) \<Rightarrow> mission_document \<Rightarrow> graph_validation" where
  "validateMissionGraph sha m =
     \<lparr>gv_valid = (graph_issues m = []),
      gv_digest = computeMissionGraphDigest sha (md_scope m) (md_objectives m) (md_contracts m),
      gv_revision = md_revision m, gv_errors = graph_issues m, gv_cycles = detectCycles (md_objectives m),
      gv_missing = missing_dependencies (md_objectives m),
      gv_undeclared = undeclared_repositories (md_scope m) (md_objectives m),
      gv_noSelfApproval = (\<forall>x \<in> set (md_objectives m). \<not> self_approving x)\<rparr>"

section \<open>Topological order\<close>

definition order_edges :: "mission_objective list \<Rightarrow> (ident \<times> ident) list" where
  "order_edges objs = concat (map (\<lambda>x. map (\<lambda>d. (d, mo_id x)) (mo_dependencies x)) objs)"

text \<open>The in-degree counts the declared dependencies of an identifier, the successors of a node
  are its sorted dependents, the queue is sorted after every step.\<close>

definition order_degrees :: "mission_objective list \<Rightarrow> ident \<rightharpoonup> int" where
  "order_degrees objs i =
     (if i \<in> set (objectiveIds objs) then Some (int (length (graph_dependencies objs i))) else None)"

definition order_successors :: "mission_objective list \<Rightarrow> ident \<Rightarrow> ident list" where
  "order_successors objs i = sort (filter (\<lambda>d. d \<in> set (objectiveIds objs)) (dependents_by objs i))"

definition topologicallyOrdered :: "mission_objective list \<Rightarrow> ident list" where
  "topologicallyOrdered objs =
     (let ids = sort (objectiveIds objs) in
      case kahn 0 sort (order_successors objs) (length ids)
             (sort (filter (\<lambda>i. order_degrees objs i = Some 0) ids)) (order_degrees objs) [] of
        Some (order, deg) \<Rightarrow> order | None \<Rightarrow> [])"

end
