(* ===== verification/Mission_Engine.thy ===== *)
theory Mission_Engine
  imports Mission_Graph
begin

text \<open>
  \<open>mission/engine.ts\<close> and \<open>mission/approval.ts\<close>: the runtime state of a mission, the derivation
  of readiness, promotion, the life cycle of objectives, approvals and blockers, reboot
  recovery.  An operation returns an error code or the new state.  The wall clock
  \<open>Date.now()\<close>, where the code reads it itself, is the parameter \<open>clock\<close>; \<open>now\<close> is the time the
  caller passes.
\<close>

section \<open>Approval gates and external blockers\<close>

definition evaluateApproval ::
  "approval_gate \<Rightarrow> ident \<Rightarrow> string \<Rightarrow> bool \<Rightarrow> int \<Rightarrow> string option \<Rightarrow> mission_error + approval_decision" where
  "evaluateApproval g i p approved now reason =
     (if i \<in> set (ag_principals g) then Inl Me_SELF_APPROVAL
      else if p \<notin> set (ag_principals g) then Inl Me_APPROVAL_NOT_GRANTED
      else Inr \<lparr>ad_gateId = ag_id g, ad_approved = approved, ad_principal = p,
        ad_expiresAtMs = (if approved then map_option (\<lambda>t. now + t) (ag_ttlMs g) else None),
        ad_reason = reason, ad_recordedAtMs = now\<rparr>)"

definition isApprovalValid :: "approval_gate \<Rightarrow> approval_decision \<Rightarrow> int \<Rightarrow> bool" where
  "isApprovalValid g d now \<longleftrightarrow> ad_approved d \<and> ad_principal d \<in> set (ag_principals g) \<and>
     (case ad_expiresAtMs d of None \<Rightarrow> True | Some t \<Rightarrow> now \<le> t) \<and>
     (case ag_ttlMs g of None \<Rightarrow> True | Some t \<Rightarrow> now \<le> ad_recordedAtMs d + t)"

definition satisfyExternalBlocker :: "blocker_spec \<Rightarrow> string option \<Rightarrow> int \<Rightarrow> mission_error + blocker_state" where
  "satisfyExternalBlocker b ev now =
     (if bs_evidenceRequired b \<and> js_falsy ev then Inl Me_BLOCKER_WITHOUT_EVIDENCE
      else if (case ev of None \<Rightarrow> [] | Some e \<Rightarrow> e) \<notin> set (bs_satisfiedOn b) then Inl Me_BLOCKER_UNSATISFIED
      else Inr \<lparr>bk_specId = bs_id b, bk_satisfied = True, bk_evidence = ev, bk_satisfiedAtMs = Some now\<rparr>)"

section \<open>Runtime state\<close>

record mission_runtime =
  rt_missionId :: ident
  rt_graphRevision :: int
  rt_status :: "ident \<rightharpoonup> objective_status"
  rt_approvals :: "ident \<rightharpoonup> approval_decision"
  rt_blockers :: "ident \<rightharpoonup> blocker_state"
  rt_spentCost :: "ident \<rightharpoonup> int"
  rt_process :: "process_record option"
  rt_createdAtMs :: int
  rt_updatedAtMs :: int

definition initializeRuntime :: "mission_document \<Rightarrow> int \<Rightarrow> mission_runtime" where
  "initializeRuntime m now =
     \<lparr>rt_missionId = md_missionId m, rt_graphRevision = md_revision m,
      rt_status = map_of (map (\<lambda>x. (mo_id x, Ob_PENDING)) (md_objectives m)),
      rt_approvals = Map.empty, rt_blockers = Map.empty, rt_spentCost = Map.empty, rt_process = None,
      rt_createdAtMs = now, rt_updatedAtMs = now\<rparr>"

fun LEGAL_TRANSITIONS :: "objective_status \<Rightarrow> objective_status list" where
  "LEGAL_TRANSITIONS Ob_PENDING = [Ob_READY, Ob_BLOCKED, Ob_WAITING_APPROVAL, Ob_WAITING_EXTERNAL, Ob_SKIPPED]"
| "LEGAL_TRANSITIONS Ob_BLOCKED = [Ob_READY, Ob_FAILED]"
| "LEGAL_TRANSITIONS Ob_WAITING_APPROVAL = [Ob_READY, Ob_BLOCKED, Ob_FAILED]"
| "LEGAL_TRANSITIONS Ob_WAITING_EXTERNAL = [Ob_READY, Ob_BLOCKED, Ob_FAILED]"
| "LEGAL_TRANSITIONS Ob_READY = [Ob_IN_PROGRESS, Ob_SKIPPED]"
| "LEGAL_TRANSITIONS Ob_IN_PROGRESS = [Ob_COMPLETED, Ob_FAILED, Ob_READY]"
| "LEGAL_TRANSITIONS Ob_COMPLETED = []"
| "LEGAL_TRANSITIONS Ob_FAILED = []"
| "LEGAL_TRANSITIONS Ob_SKIPPED = []"

definition isLegalTransition :: "objective_status \<Rightarrow> objective_status \<Rightarrow> bool" where
  "isLegalTransition a b \<longleftrightarrow> b \<in> set (LEGAL_TRANSITIONS a)"

section \<open>Readiness\<close>

definition approvalHolds :: "mission_objective \<Rightarrow> mission_runtime \<Rightarrow> int \<Rightarrow> bool" where
  "approvalHolds x rt now =
     (case mo_gate x of
        None \<Rightarrow> True
      | Some g \<Rightarrow> (case rt_approvals rt (ag_id g) of None \<Rightarrow> False | Some d \<Rightarrow> isApprovalValid g d now))"

definition blockerHolds :: "ident \<Rightarrow> mission_runtime \<Rightarrow> bool" where
  "blockerHolds i rt = (case rt_blockers rt i of None \<Rightarrow> False | Some b \<Rightarrow> bk_satisfied b)"

record readiness_view =
  rv_status :: "ident \<rightharpoonup> objective_status"
  rv_reasons :: "ident \<rightharpoonup> string list"

text \<open>One round of the loop: \<open>st\<close> is the status map updated so far.\<close>

definition readiness_of ::
  "mission_document \<Rightarrow> mission_runtime \<Rightarrow> int \<Rightarrow> (ident \<rightharpoonup> objective_status) \<Rightarrow> mission_objective \<Rightarrow>
   objective_status option \<times> string list" where
  "readiness_of m rt now st x =
     (let cur = st (mo_id x);
          unsatisfied = filter (\<lambda>d. st d \<noteq> Some Ob_COMPLETED) (graph_dependencies (md_objectives m) (mo_id x));
          unless_started = (\<lambda>s. if cur = Some Ob_IN_PROGRESS then cur else Some s) in
      if unsatisfied \<noteq> [] then
        (unless_started Ob_BLOCKED, [''dependencies unsatisfied: '' @ join_with '','' unsatisfied])
      else if mo_requiresApproval x \<and> \<not> approvalHolds x rt now then
        (unless_started Ob_WAITING_APPROVAL,
         [''requires human approval ('' @ (case mo_gate x of None \<Rightarrow> ''undefined'' | Some g \<Rightarrow> ag_id g) @ '')''])
      else (case mo_blocker x of
          Some b \<Rightarrow>
            if \<not> blockerHolds (bs_id b) rt then
              (unless_started Ob_WAITING_EXTERNAL, [''external blocker unsatisfied ('' @ bs_id b @ '')''])
            else (if cur = Some Ob_PENDING \<or> cur = Some Ob_BLOCKED then Some Ob_READY else cur, [])
        | None \<Rightarrow> (if cur = Some Ob_PENDING \<or> cur = Some Ob_BLOCKED then Some Ob_READY else cur, [])))"

definition readiness_step ::
  "mission_document \<Rightarrow> mission_runtime \<Rightarrow> int \<Rightarrow> mission_objective \<Rightarrow> readiness_view \<Rightarrow> readiness_view" where
  "readiness_step m rt now x v =
     (if rv_status v (mo_id x) \<in> {Some Ob_COMPLETED, Some Ob_FAILED, Some Ob_SKIPPED} then v
      else (case readiness_of m rt now (rv_status v) x of
          (s, r) \<Rightarrow> \<lparr>rv_status = (rv_status v)(mo_id x := s), rv_reasons = (rv_reasons v)(mo_id x \<mapsto> r)\<rparr>))"

definition deriveReadiness :: "mission_document \<Rightarrow> mission_runtime \<Rightarrow> int \<Rightarrow> readiness_view" where
  "deriveReadiness m rt now =
     fold (readiness_step m rt now) (md_objectives m) \<lparr>rv_status = rt_status rt, rv_reasons = Map.empty\<rparr>"

section \<open>Promotion\<close>

definition promoteMission :: "(string \<Rightarrow> string) \<Rightarrow> mission_document \<Rightarrow> int \<Rightarrow> mission_error + mission_document" where
  "promoteMission sha m now =
     (if md_status m \<noteq> Ms_DRAFT then Inl Me_FORBIDDEN_MUTATION
      else if \<not> gv_valid (validateMissionGraph sha m) then Inl Me_INVALID_GRAPH
      else Inr (m\<lparr>md_status := Ms_ACTIVE, md_revision := md_revision m + 1, md_updatedAtMs := now\<rparr>))"

section \<open>Objectives\<close>

definition lease_held :: "repository_lease list \<Rightarrow> int \<Rightarrow> string \<Rightarrow> bool" where
  "lease_held leases now repo \<longleftrightarrow> list_ex (\<lambda>l. rl_repositoryId l = repo \<and> rl_expiresAtMs l > now) leases"

definition over_budget :: "mission_objective \<Rightarrow> mission_runtime \<Rightarrow> bool" where
  "over_budget x rt \<longleftrightarrow>
     (case (mo_budget x, rt_spentCost rt (mo_id x)) of (Some b, Some c) \<Rightarrow> c > bu_maxCost b | _ \<Rightarrow> False)"

definition startObjective ::
  "mission_document \<Rightarrow> mission_runtime \<Rightarrow> ident \<Rightarrow> repository_lease list \<Rightarrow> process_record \<Rightarrow> int \<Rightarrow> int \<Rightarrow>
   mission_error + mission_runtime" where
  "startObjective m rt i leases p now clock =
     (case List.find (\<lambda>x. mo_id x = i) (md_objectives m) of
        None \<Rightarrow> Inl Me_NOT_FOUND
      | Some x \<Rightarrow>
          (case first_some
             [must (rv_status (deriveReadiness m rt clock) i = Some Ob_READY) Me_NOT_READY,
              must (\<forall>r \<in> set (mo_repositories x). lease_held leases now r) Me_LEASE_NOT_HELD,
              must (\<not> over_budget x rt) Me_BUDGET_EXCEEDED] of
             Some e \<Rightarrow> Inl e
           | None \<Rightarrow> Inr (rt\<lparr>rt_status := (rt_status rt)(i \<mapsto> Ob_IN_PROGRESS),
               rt_process := Some (p\<lparr>ps_status := Ps_running, ps_startedAtMs := now\<rparr>), rt_updatedAtMs := now\<rparr>)))"

definition completeObjective ::
  "mission_document \<Rightarrow> mission_runtime \<Rightarrow> ident \<Rightarrow> ident list \<Rightarrow> int \<Rightarrow> mission_error + mission_runtime" where
  "completeObjective m rt i acknowledged now =
     (case List.find (\<lambda>x. mo_id x = i) (md_objectives m) of
        None \<Rightarrow> Inl Me_NOT_FOUND
      | Some x \<Rightarrow>
          (case first_some
             [must (rt_status rt i = Some Ob_IN_PROGRESS) Me_FORBIDDEN_MUTATION,
              must (set (map oc_id (mo_criteria x)) \<subseteq> set acknowledged) Me_MISSING_ACCEPTANCE_CRITERIA] of
             Some e \<Rightarrow> Inl e
           | None \<Rightarrow> Inr (rt\<lparr>rt_status := (rt_status rt)(i \<mapsto> Ob_COMPLETED), rt_updatedAtMs := now\<rparr>)))"

text \<open>An objective without a status makes the table lookup throw.\<close>

definition failObjective :: "mission_runtime \<Rightarrow> ident \<Rightarrow> int \<Rightarrow> mission_error + mission_runtime" where
  "failObjective rt i now =
     (case rt_status rt i of
        None \<Rightarrow> Inl Me_THROWS
      | Some s \<Rightarrow>
          if \<not> isLegalTransition s Ob_FAILED then Inl Me_FORBIDDEN_MUTATION
          else Inr (rt\<lparr>rt_status := (rt_status rt)(i \<mapsto> Ob_FAILED), rt_updatedAtMs := now\<rparr>))"

definition recordApproval :: "mission_runtime \<Rightarrow> ident \<Rightarrow> approval_decision \<Rightarrow> int \<Rightarrow> mission_runtime" where
  "recordApproval rt g d clock = rt\<lparr>rt_approvals := (rt_approvals rt)(g \<mapsto> d), rt_updatedAtMs := clock\<rparr>"

definition recordBlocker :: "mission_runtime \<Rightarrow> ident \<Rightarrow> blocker_state \<Rightarrow> int \<Rightarrow> mission_runtime" where
  "recordBlocker rt i b clock = rt\<lparr>rt_blockers := (rt_blockers rt)(i \<mapsto> b), rt_updatedAtMs := clock\<rparr>"

definition missionStatus :: "mission_document \<Rightarrow> mission_runtime \<Rightarrow> mission_status" where
  "missionStatus m rt =
     (if md_status m \<noteq> Ms_ACTIVE then md_status m
      else
        let ss = map (\<lambda>x. case rt_status rt (mo_id x) of None \<Rightarrow> Ob_PENDING | Some s \<Rightarrow> s) (md_objectives m) in
        if list_all (\<lambda>s. s = Ob_COMPLETED \<or> s = Ob_SKIPPED) ss then Ms_COMPLETED
        else if Ob_FAILED \<in> set ss then Ms_FAILED else Ms_ACTIVE)"

section \<open>Replay and reboot\<close>

definition replayRuntime ::
  "mission_document \<Rightarrow> ident list \<Rightarrow> approval_decision list \<Rightarrow> blocker_state list \<Rightarrow> int \<Rightarrow> mission_runtime \<times> nat" where
  "replayRuntime m eventIds approvals blockers now =
     (let rt = initializeRuntime m now in
      (rt\<lparr>rt_approvals := map_of (rev (map (\<lambda>a. (ad_gateId a, a)) approvals)),
          rt_blockers := map_of (rev (map (\<lambda>b. (bk_specId b, b)) blockers))\<rparr>,
       length (js_set eventIds)))"

definition revert_started :: "mission_objective list \<Rightarrow> (ident \<rightharpoonup> objective_status) \<Rightarrow> (ident \<rightharpoonup> objective_status)" where
  "revert_started objs st i =
     (if st i = Some Ob_IN_PROGRESS \<and> i \<in> mo_id ` set objs then Some Ob_READY else st i)"

definition reconcileAfterReboot ::
  "mission_document \<Rightarrow> mission_runtime \<Rightarrow> bool \<Rightarrow> int \<Rightarrow> mission_runtime \<times> string list \<times> bool" where
  "reconcileAfterReboot m rt alive now =
     (let reverted = filter (\<lambda>i. rt_status rt i = Some Ob_IN_PROGRESS) (objectiveIds (md_objectives m));
          missing = (rt_process rt \<noteq> None \<and> \<not> alive) in
      (rt\<lparr>rt_status := revert_started (md_objectives m) (rt_status rt),
          rt_process := (if alive then rt_process rt else None), rt_updatedAtMs := now\<rparr>,
       map (\<lambda>i. ''objective '' @ i @ '' reverted IN_PROGRESS -> READY for safe re-run'') reverted
         @ (if missing then [''process '' @ sq (ps_processId (the (rt_process rt))) @ '' marked missing; its authority is not reused''] else []),
       missing))"

definition canExpandScope :: "mission_document \<Rightarrow> mission_objective list \<Rightarrow> bool" where
  "canExpandScope m proposed \<longleftrightarrow>
     list_all (\<lambda>x. list_all (\<lambda>r. r \<in> set (ms_repositories (md_scope m))) (mo_repositories x)) proposed"

end
