(* ===== verification/Mission_Graph_Facts.thy ===== *)
theory Mission_Graph_Facts
  imports Mission_Graph Digest_Binding
begin

text \<open>
  Facts about mission graphs: what an empty list of issues means, the cycle search against the
  dependency relation, the topological order.
\<close>

section \<open>Cycles\<close>

lemma set_objectiveIds [simp]: "set (objectiveIds objs) = mo_id ` set objs"
  by (simp add: objectiveIds_def)

lemma dependencies_by_cases: "d \<in> set (dependencies_by objs i) \<Longrightarrow> \<exists>x \<in> set objs. mo_id x = i \<and> d \<in> set (mo_dependencies x)"
  by (auto simp: dependencies_by_def split: option.splits dest!: map_of_SomeD sym [of "Some _"])

lemma dependencies_by_other: "i \<notin> mo_id ` set objs \<Longrightarrow> dependencies_by objs i = []"
  using dependencies_by_cases [of _ objs i] by (cases "dependencies_by objs i") fastforce+

lemma dependencies_by_distinct:
  assumes "distinct (map mo_id objs)" and "x \<in> set objs"
  shows "dependencies_by objs (mo_id x) = mo_dependencies x"
proof -
  have "map_of (rev (map (\<lambda>x. (mo_id x, mo_dependencies x)) objs)) (mo_id x) = Some (mo_dependencies x)"
    using assms by (intro map_of_is_SomeI) (simp_all add: comp_def flip: rev_map)
  then show ?thesis by (simp add: dependencies_by_def)
qed

lemma detectCycles_iff: "detectCycles objs = [] \<longleftrightarrow> acyclic (arcs (dependencies_by objs))"
proof -
  have sub: "set (dependencies_by objs y) \<subseteq> set (graph_nodes objs)" for y
    using dependencies_by_cases by (fastforce simp: graph_nodes_def)
  have none: "dependencies_by objs y = []" if "y \<notin> set (map mo_id objs)" for y
    using that dependencies_by_other by simp
  have roots: "set (map mo_id objs) \<subseteq> set (graph_nodes objs)" by (auto simp: graph_nodes_def)
  obtain t where "visit_roots (Suc (length (graph_nodes objs))) (dependencies_by objs) dfs_start (map mo_id objs) = Some t"
    "df_cycles t = [] \<longleftrightarrow> acyclic (arcs (dependencies_by objs))"
    by (rule dfs_correct [OF sub none roots])
  then show ?thesis by (simp add: detectCycles_def)
qed

section \<open>Valid graphs\<close>

definition depends_on :: "mission_objective list \<Rightarrow> (ident \<times> ident) set" where
  "depends_on objs = {(mo_id x, d) |x d. x \<in> set objs \<and> d \<in> set (mo_dependencies x)}"

definition mission_wf :: "mission_document \<Rightarrow> bool" where
  "mission_wf m \<longleftrightarrow>
     (let objs = md_objectives m; ids = mo_id ` set objs in
      distinct (map mo_id objs) \<and> depends_on objs \<subseteq> ids \<times> ids \<and> acyclic (depends_on objs) \<and>
      (\<forall>x \<in> set objs. mo_criteria x \<noteq> [] \<and>
         (ms_requireDeclared (md_scope m) \<longrightarrow> set (mo_repositories x) \<subseteq> set (ms_repositories (md_scope m))) \<and>
         (\<forall>g. mo_gate x = Some g \<longrightarrow> mo_id x \<notin> set (ag_principals g))) \<and>
      (\<forall>c \<in> set (md_contracts m). cb_consumer c \<in> ids \<and> (\<forall>p. cb_producer c = Some p \<longrightarrow> p = [] \<or> p \<in> ids)))"

lemma duplicate_issues_Nil:
  "duplicate_issues seen objs = [] \<longleftrightarrow> distinct (map mo_id objs) \<and> set seen \<inter> mo_id ` set objs = {}"
  by (induction objs arbitrary: seen) auto

lemma missing_Nil: "missing_dependencies objs = [] \<longleftrightarrow> depends_on objs \<subseteq> mo_id ` set objs \<times> mo_id ` set objs"
  by (auto simp: missing_dependencies_def depends_on_def filter_empty_conv)

lemma undeclared_Nil:
  "undeclared_repositories s objs = [] \<longleftrightarrow>
     (ms_requireDeclared s \<longrightarrow> (\<forall>x \<in> set objs. set (mo_repositories x) \<subseteq> set (ms_repositories s)))"
proof -
  have "js_set xs = [] \<longleftrightarrow> xs = []" for xs :: "string list"
    using set_js_set [of xs] by (metis set_empty)
  then show ?thesis by (auto simp: undeclared_repositories_def filter_empty_conv)
qed

lemma binding_Nil:
  "binding_issues ids c = [] \<longleftrightarrow> cb_consumer c \<in> set ids \<and> (\<forall>p. cb_producer c = Some p \<longrightarrow> p = [] \<or> p \<in> set ids)"
  by (auto simp: binding_issues_def js_falsy_def)

lemma arcs_depends_on: "distinct (map mo_id objs) \<Longrightarrow> arcs (dependencies_by objs) = depends_on objs"
  using dependencies_by_distinct [of objs] dependencies_by_cases [of _ objs]
  by (fastforce simp: arcs_def depends_on_def)

lemma graph_issues_Nil: "graph_issues m = [] \<longleftrightarrow> mission_wf m"
proof (cases "distinct (map mo_id (md_objectives m))")
  case True
  show ?thesis
    using True
    by (auto simp: graph_issues_def mission_wf_def Let_def duplicate_issues_Nil missing_Nil undeclared_Nil binding_Nil
        detectCycles_iff arcs_depends_on filter_empty_conv self_approving_def split: option.splits)
next
  case False
  then have "duplicate_issues [] (md_objectives m) \<noteq> []" by (simp add: duplicate_issues_Nil)
  then show ?thesis using False by (simp add: graph_issues_def mission_wf_def Let_def)
qed

section \<open>Topological order\<close>

interpretation mission_order: kahn_sorter 0 sort "order_successors objs" "sort (objectiveIds objs)" for objs
  by unfold_locales (auto simp: order_successors_def)

lemma dependents_children: "dependents_by objs d = children_of (order_edges objs) d"
proof -
  have own: "map snd (filter (\<lambda>e. fst e = d) (map (\<lambda>d. (d, i)) ds)) = map (\<lambda>_. i) (filter (\<lambda>e. e = d) ds)" for i :: ident and ds
    by (induction ds) auto
  show ?thesis
    unfolding dependents_by_def children_of_def order_edges_def
    by (induction objs) (simp_all only: list.map concat.simps filter_append map_append own filter.simps)
qed

lemma set_order_edges: "set (order_edges objs) = (depends_on objs)\<inverse>"
  by (auto simp: order_edges_def depends_on_def)

lemma count_order_edges:
  assumes "distinct (map mo_id objs)"
  shows "x \<in> set objs \<Longrightarrow> count_list (map snd (order_edges objs)) (mo_id x) = length (mo_dependencies x)"
  using assms
proof (induction objs)
  case (Cons y objs)
  have hd: "count_list (map snd (map (\<lambda>d. (d, mo_id y)) ds)) i = (if i = mo_id y then length ds else 0)" for ds i
    by (induction ds) auto
  have none: "count_list (map snd (order_edges objs)) (mo_id y) = 0"
    using Cons.prems(2) by (auto simp: order_edges_def count_list_0_iff)
  have step: "order_edges (y # objs) = map (\<lambda>d. (d, mo_id y)) (mo_dependencies y) @ order_edges objs"
    by (simp add: order_edges_def)
  show ?case
  proof (cases "x = y")
    case True
    then show ?thesis using none hd [of "mo_dependencies y" "mo_id y"] by (simp only: step map_append count_list_append) simp
  next
    case False
    then have "x \<in> set objs" using Cons.prems(1) by simp
    moreover from this have "mo_id x \<noteq> mo_id y" using Cons.prems(2) by (metis distinct.simps(2) image_eqI list.map(2) set_map)
    ultimately have "x \<in> set objs" "mo_id x \<noteq> mo_id y" by simp_all
    then show ?thesis using Cons hd [of "mo_dependencies y" "mo_id x"] by (simp only: step map_append count_list_append) simp
  qed
qed simp

lemma edges_into_sort:
  "edges_into (\<lambda>y. sort (adj y)) S x = edges_into adj S x"
proof -
  have "count_list (sort xs) x = count_list xs x" for xs
    by (metis count_mset mset_sort)
  then show ?thesis by (simp add: edges_into_def)
qed

lemma topologicallyOrdered_correct:
  assumes "mission_wf m" and "objs = md_objectives m"
  shows "distinct (topologicallyOrdered objs) \<and> set (topologicallyOrdered objs) = mo_id ` set objs \<and>
    (\<forall>xs i ys d. topologicallyOrdered objs = xs @ i # ys \<longrightarrow> (i, d) \<in> depends_on objs \<longrightarrow> d \<in> set xs)"
proof -
  have wf: "distinct (map mo_id objs)" "depends_on objs \<subseteq> mo_id ` set objs \<times> mo_id ` set objs" "acyclic (depends_on objs)"
    using assms by (auto simp: mission_wf_def Let_def)
  let ?ids = "sort (objectiveIds objs)"
  have succ: "order_successors objs = (\<lambda>i. sort (children_of (order_edges objs) i))"
  proof
    fix i
    have "set (dependents_by objs i) \<subseteq> set (objectiveIds objs)" by (auto simp: dependents_by_def)
    then have "filter (\<lambda>d. d \<in> set (objectiveIds objs)) (dependents_by objs i) = dependents_by objs i"
      by (intro filter_True) blast
    then show "order_successors objs i = sort (children_of (order_edges objs) i)"
      by (simp add: order_successors_def dependents_children)
  qed
  have es: "set (order_edges objs) \<subseteq> set ?ids \<times> set ?ids" using wf(2) by (auto simp: set_order_edges)
  have ge: "graph_edges ?ids (order_successors objs) = set (order_edges objs)"
    using es by (force simp: graph_edges_def succ children_of_def)
  have deg: "order_degrees objs i = Some (int (edges_into (order_successors objs) (set ?ids) i))" if i: "i \<in> set ?ids" for i
  proof -
    obtain x where x: "x \<in> set objs" "mo_id x = i" using i by auto
    have "graph_dependencies objs i = mo_dependencies x"
      using dependencies_by_distinct [OF wf(1) x(1)] x wf(2)
      by (auto simp: graph_dependencies_def depends_on_def intro!: filter_True)
    moreover have "edges_into (order_successors objs) (set ?ids) i = count_list (map snd (order_edges objs)) i"
      unfolding succ edges_into_sort by (rule edges_into_children_of) (use es in auto)
    ultimately show ?thesis using count_order_edges [OF wf(1) x(1)] x i by (simp add: order_degrees_def)
  qed
  have dist: "distinct ?ids" by (simp add: objectiveIds_def)
  have start: "mission_order.kinv objs (sort (filter (\<lambda>i. order_degrees objs i = Some 0) ?ids)) (order_degrees objs) []"
    by (rule mission_order.kinv_start [OF dist deg]) simp_all
  obtain order deg' where run: "kahn 0 sort (order_successors objs) (card (set ?ids))
      (sort (filter (\<lambda>i. order_degrees objs i = Some 0) ?ids)) (order_degrees objs) [] = Some (order, deg')"
    "distinct order" "topological ?ids (order_successors objs) order"
    "set order = set ?ids \<longleftrightarrow> acyclic (graph_edges ?ids (order_successors objs))"
    by (rule mission_order.kahn_correct [OF start]) blast
  have "card (set ?ids) = length ?ids" by (rule distinct_card [OF dist])
  then have out: "topologicallyOrdered objs = order" using run(1) by (simp add: topologicallyOrdered_def Let_def)
  have "acyclic (set (order_edges objs))" using wf(3) by (simp add: set_order_edges)
  then have "set order = mo_id ` set objs" using run(4) ge by simp
  then show ?thesis
    using run(2,3) unfolding out topological_def ge set_order_edges by blast
qed

text \<open>
  A mission on which the properties of the mission engine are tried out: objective b depends on
  a; a requires approval but has no gate.
\<close>

definition demo_objective :: "ident \<Rightarrow> ident list \<Rightarrow> bool \<Rightarrow> mission_objective" where
  "demo_objective i deps approval =
     \<lparr>mo_id = i, mo_title = i, mo_dependencies = deps, mo_repositories = [''core''], mo_estimate = 1,
      mo_criteria = [\<lparr>oc_id = ''c'', oc_statement = ''done'', oc_requiredAuthority = None\<rparr>],
      mo_requiresApproval = approval, mo_gate = None, mo_blocker = None, mo_budget = None,
      mo_routingPolicy = None, mo_status = Ob_PENDING\<rparr>"

definition demo_mission :: mission_document where
  "demo_mission =
     \<lparr>md_schemaVersion = 1, md_missionId = ''m'', md_revision = 1, md_digest = ''d'',
      md_scope = \<lparr>ms_repositories = [''core''], ms_requireDeclared = True\<rparr>,
      md_objectives = [demo_objective ''b'' [''a''] False, demo_objective ''a'' [] True],
      md_contracts = [], md_status = Ms_DRAFT, md_observed = None, md_createdAtMs = 0, md_updatedAtMs = 0\<rparr>"

definition demo_leases :: "repository_lease list" where
  "demo_leases = [\<lparr>rl_leaseId = ''l'', rl_repositoryId = ''core'', rl_holder = ''h'', rl_acquiredAtMs = 0, rl_expiresAtMs = 9\<rparr>]"

definition demo_process :: process_record where
  "demo_process = \<lparr>ps_processId = ''p'', ps_owner = ''o'', ps_repositoryIds = [''core''], ps_status = Ps_running,
     ps_startedAtMs = 0, ps_interruptedAtMs = None\<rparr>"

lemmas demo_defs = demo_objective_def demo_mission_def demo_leases_def demo_process_def

lemma demo_fields [simp]:
  "map mo_id (md_objectives demo_mission) = [''b'', ''a'']"
  "set (md_objectives demo_mission) = {demo_objective ''b'' [''a''] False, demo_objective ''a'' [] True}"
  "mo_id (demo_objective i deps approval) = i"
  "mo_dependencies (demo_objective i deps approval) = deps"
  "mo_repositories (demo_objective i deps approval) = [''core'']"
  "md_status demo_mission = Ms_DRAFT"
  by (simp_all add: demo_defs)

lemma demo_wf: "mission_wf demo_mission"
proof -
  have rel: "depends_on (md_objectives demo_mission) = {(''b'', ''a'')}"
    by (auto simp: depends_on_def intro!: exI [of _ "demo_objective ''b'' [''a''] False"])
  have "acyclic {(''b'', ''a'')}" by (simp add: acyclic_def trancl_insert)
  then show ?thesis
    unfolding mission_wf_def Let_def rel by (simp add: demo_objective_def) (simp add: demo_mission_def)
qed

end
