(* ===== verification/Mission_Claims.thy ===== *)
theory Mission_Claims
  imports Mission_Engine Mission_Graph_Facts
begin

text \<open>
  What the mission engine guarantees: promotion accepts exactly the well-formed graphs, an
  objective starts exactly under the conditions written out below, and in every reachable runtime
  state the started and completed objectives have completed dependencies.
\<close>

section \<open>Promotion\<close>

text \<open>Promotion accepts exactly the drafts whose graph is well-formed: unique objective
  identifiers, dependencies that exist and form no cycle, explicit acceptance criteria,
  repositories within the declared scope, no objective among its own approval principals, and
  contracts between existing objectives.  It changes only status, revision and update time.  On
  such a graph the topological order lists every objective exactly once, each after all the
  objectives it depends on.\<close>

theorem promotion_exact:
  shows "promoteMission sha m now =
    (if md_status m \<noteq> Ms_DRAFT then Inl Me_FORBIDDEN_MUTATION
     else if mission_wf m then Inr (m\<lparr>md_status := Ms_ACTIVE, md_revision := md_revision m + 1, md_updatedAtMs := now\<rparr>)
     else Inl Me_INVALID_GRAPH) \<and>
    (mission_wf m \<longrightarrow>
       distinct (topologicallyOrdered (md_objectives m)) \<and>
       set (topologicallyOrdered (md_objectives m)) = mo_id ` set (md_objectives m) \<and>
       (\<forall>xs i ys d. topologicallyOrdered (md_objectives m) = xs @ i # ys \<longrightarrow>
          (i, d) \<in> depends_on (md_objectives m) \<longrightarrow> d \<in> set xs))"
  using topologicallyOrdered_correct [of m "md_objectives m"] graph_issues_Nil [of m]
  by (simp add: promoteMission_def validateMissionGraph_def)

lemma promotion_exact_witness:
  "md_status (projr (promoteMission (\<lambda>s. s) demo_mission 5)) = Ms_ACTIVE \<and>
   length (topologicallyOrdered (md_objectives demo_mission)) = 2"
proof -
  note p = promotion_exact [of "\<lambda>s. s" demo_mission 5]
  from p demo_wf have "set (topologicallyOrdered (md_objectives demo_mission)) = {''b'', ''a''}"
    "distinct (topologicallyOrdered (md_objectives demo_mission))" by simp_all
  then have "length (topologicallyOrdered (md_objectives demo_mission)) = card {''b'', ''a''}"
    by (metis distinct_card)
  then show ?thesis using p demo_wf by simp
qed

section \<open>Approvals\<close>

text \<open>A decision the gate accepts is valid exactly when it approves and its time to live has not passed.\<close>

lemma approval_valid_until:
  assumes "evaluateApproval g i p approved now reason = Inr d"
  shows "isApprovalValid g d t \<longleftrightarrow> approved \<and> (case ag_ttlMs g of None \<Rightarrow> True | Some ttl \<Rightarrow> t \<le> now + ttl)"
  using assms by (auto simp: evaluateApproval_def isApprovalValid_def split: if_splits option.splits)

lemma no_self_approval: "i \<in> set (ag_principals g) \<Longrightarrow> evaluateApproval g i p approved now reason = Inl Me_SELF_APPROVAL"
  by (simp add: evaluateApproval_def)

section \<open>Readiness\<close>

definition terminal :: "objective_status option \<Rightarrow> bool" where
  "terminal s \<longleftrightarrow> s \<in> {Some Ob_COMPLETED, Some Ob_FAILED, Some Ob_SKIPPED}"

lemma readiness_not_completed:
  "st (mo_id x) \<noteq> Some Ob_COMPLETED \<Longrightarrow> fst (readiness_of m rt now st x) \<noteq> Some Ob_COMPLETED"
  by (auto simp: readiness_of_def Let_def split: option.splits)

lemma readiness_step_completed:
  "rv_status (readiness_step m rt now x v) d = Some Ob_COMPLETED \<longleftrightarrow> rv_status v d = Some Ob_COMPLETED"
  using readiness_not_completed [of "rv_status v" x m rt now]
  by (cases "readiness_of m rt now (rv_status v) x") (auto simp: readiness_step_def)

lemma fold_completed:
  "rv_status (fold (readiness_step m rt now) xs v) d = Some Ob_COMPLETED \<longleftrightarrow> rv_status v d = Some Ob_COMPLETED"
  by (induction xs arbitrary: v) (simp_all add: readiness_step_completed)

lemma readiness_step_other: "mo_id x \<noteq> i \<Longrightarrow> rv_status (readiness_step m rt now x v) i = rv_status v i"
  by (auto simp: readiness_step_def split: prod.splits)

lemma fold_other: "i \<notin> mo_id ` set xs \<Longrightarrow> rv_status (fold (readiness_step m rt now) xs v) i = rv_status v i"
  by (induction xs arbitrary: v) (auto simp: readiness_step_other)

text \<open>Readiness of one objective does not depend on the order of the loop.\<close>

lemma readiness_of_cong:
  assumes "\<And>d. st d = Some Ob_COMPLETED \<longleftrightarrow> st2 d = Some Ob_COMPLETED" and "st (mo_id x) = st2 (mo_id x)"
  shows "readiness_of m rt now st x = readiness_of m rt now st2 x"
  using assms by (simp add: readiness_of_def)

lemma derive_own:
  assumes "distinct (map mo_id (md_objectives m))" and "x \<in> set (md_objectives m)"
  shows "rv_status (deriveReadiness m rt now) (mo_id x) =
    (if terminal (rt_status rt (mo_id x)) then rt_status rt (mo_id x) else fst (readiness_of m rt now (rt_status rt) x))"
proof -
  let ?v = "\<lparr>rv_status = rt_status rt, rv_reasons = Map.empty\<rparr>"
  let ?f = "fold (readiness_step m rt now)"
  obtain xs ys where split: "md_objectives m = xs @ x # ys" using assms(2) by (meson split_list)
  have notin: "mo_id x \<notin> mo_id ` set xs" "mo_id x \<notin> mo_id ` set ys" using assms(1) split by auto
  have "rv_status (deriveReadiness m rt now) (mo_id x) = rv_status (readiness_step m rt now x (?f xs ?v)) (mo_id x)"
    by (simp add: deriveReadiness_def split fold_other notin(2))
  moreover have own: "rv_status (?f xs ?v) (mo_id x) = rt_status rt (mo_id x)" by (simp add: fold_other notin(1))
  moreover have "readiness_of m rt now (rv_status (?f xs ?v)) x = readiness_of m rt now (rt_status rt) x"
    by (rule readiness_of_cong) (simp_all add: fold_completed own)
  ultimately show ?thesis by (simp add: readiness_step_def terminal_def case_prod_beta)
qed

section \<open>Starting an objective\<close>

text \<open>The conditions under which an objective may start.\<close>

definition may_start ::
  "mission_document \<Rightarrow> mission_runtime \<Rightarrow> mission_objective \<Rightarrow> repository_lease list \<Rightarrow> int \<Rightarrow> int \<Rightarrow> bool" where
  "may_start m rt x leases now clock \<longleftrightarrow>
     rt_status rt (mo_id x) \<in> {Some Ob_PENDING, Some Ob_BLOCKED, Some Ob_READY} \<and>
     (\<forall>d \<in> set (mo_dependencies x). d \<in> mo_id ` set (md_objectives m) \<longrightarrow> rt_status rt d = Some Ob_COMPLETED) \<and>
     (mo_requiresApproval x \<longrightarrow>
        (\<forall>g. mo_gate x = Some g \<longrightarrow> (\<exists>d. rt_approvals rt (ag_id g) = Some d \<and> isApprovalValid g d clock))) \<and>
     (\<forall>b. mo_blocker x = Some b \<longrightarrow> (\<exists>s. rt_blockers rt (bs_id b) = Some s \<and> bk_satisfied s)) \<and>
     (\<forall>r \<in> set (mo_repositories x). \<exists>l \<in> set leases. rl_repositoryId l = r \<and> rl_expiresAtMs l > now) \<and>
     (\<forall>b c. mo_budget x = Some b \<longrightarrow> rt_spentCost rt (mo_id x) = Some c \<longrightarrow> c \<le> bu_maxCost b)"

lemma ready_iff:
  assumes "distinct (map mo_id (md_objectives m))" and "x \<in> set (md_objectives m)"
  shows "rv_status (deriveReadiness m rt clock) (mo_id x) = Some Ob_READY \<longleftrightarrow>
     rt_status rt (mo_id x) \<in> {Some Ob_PENDING, Some Ob_BLOCKED, Some Ob_READY} \<and>
     (\<forall>d \<in> set (mo_dependencies x). d \<in> mo_id ` set (md_objectives m) \<longrightarrow> rt_status rt d = Some Ob_COMPLETED) \<and>
     (mo_requiresApproval x \<longrightarrow> approvalHolds x rt clock) \<and>
     (\<forall>b. mo_blocker x = Some b \<longrightarrow> blockerHolds (bs_id b) rt)"
proof -
  have "filter (\<lambda>d. rt_status rt d \<noteq> Some Ob_COMPLETED) (graph_dependencies (md_objectives m) (mo_id x)) = [] \<longleftrightarrow>
      (\<forall>d \<in> set (mo_dependencies x). d \<in> mo_id ` set (md_objectives m) \<longrightarrow> rt_status rt d = Some Ob_COMPLETED)"
    by (auto simp: graph_dependencies_def dependencies_by_distinct [OF assms] filter_empty_conv)
  then show ?thesis
    unfolding derive_own [OF assms]
    by (auto simp: readiness_of_def terminal_def Let_def split: option.splits if_splits)
qed

lemma find_objective:
  "distinct (map mo_id objs) \<Longrightarrow> x \<in> set objs \<Longrightarrow> List.find (\<lambda>y. mo_id y = mo_id x) objs = Some x"
  by (rule find_distinct_eq) simp_all

lemma start_iff:
  assumes "distinct (map mo_id (md_objectives m))" and "x \<in> set (md_objectives m)"
  shows "startObjective m rt (mo_id x) leases p now clock = Inr rt' \<longleftrightarrow>
    may_start m rt x leases now clock \<and>
    rt' = rt\<lparr>rt_status := (rt_status rt)(mo_id x \<mapsto> Ob_IN_PROGRESS),
             rt_process := Some (p\<lparr>ps_status := Ps_running, ps_startedAtMs := now\<rparr>), rt_updatedAtMs := now\<rparr>"
proof -
  have "approvalHolds x rt clock \<longleftrightarrow>
      (\<forall>g. mo_gate x = Some g \<longrightarrow> (\<exists>d. rt_approvals rt (ag_id g) = Some d \<and> isApprovalValid g d clock))"
    by (auto simp: approvalHolds_def split: option.splits)
  moreover have "blockerHolds i rt \<longleftrightarrow> (\<exists>s. rt_blockers rt i = Some s \<and> bk_satisfied s)" for i
    by (auto simp: blockerHolds_def split: option.splits)
  moreover have "over_budget x rt \<longleftrightarrow>
      \<not> (\<forall>b c. mo_budget x = Some b \<longrightarrow> rt_spentCost rt (mo_id x) = Some c \<longrightarrow> c \<le> bu_maxCost b)"
    by (auto simp: over_budget_def split: option.splits)
  moreover have "lease_held leases now r \<longleftrightarrow> (\<exists>l \<in> set leases. rl_repositoryId l = r \<and> rl_expiresAtMs l > now)" for r
    by (auto simp: lease_held_def list_ex_iff)
  ultimately have "may_start m rt x leases now clock \<longleftrightarrow>
      rv_status (deriveReadiness m rt clock) (mo_id x) = Some Ob_READY \<and>
      (\<forall>r \<in> set (mo_repositories x). lease_held leases now r) \<and> \<not> over_budget x rt"
    unfolding may_start_def ready_iff [OF assms] by auto
  then show ?thesis
    unfolding startObjective_def find_objective [OF assms]
    by (auto simp: first_some.simps must_def split: option.splits)
qed

text \<open>C25. In a mission with unique objective identifiers, an objective starts exactly when it
  is pending, blocked or ready, all its dependencies within the mission are COMPLETED, its
  approval gate - if it requires approval and has one - holds a decision valid at the wall
  clock, its external blocker is satisfied, an unexpired lease is held for each of its
  repositories and its recorded cost is within budget; it then is IN_PROGRESS and nothing else
  changes but the process record and the update time.  An objective that requires approval but
  has no gate starts without any approval, and a stored status of waiting never starts.\<close>

theorem start_objective_exact:
  assumes "distinct (map mo_id (md_objectives m))" and "x \<in> set (md_objectives m)"
  shows "startObjective m rt (mo_id x) leases p now clock = Inr rt' \<longleftrightarrow>
    may_start m rt x leases now clock \<and>
    rt' = rt\<lparr>rt_status := (rt_status rt)(mo_id x \<mapsto> Ob_IN_PROGRESS),
             rt_process := Some (p\<lparr>ps_status := Ps_running, ps_startedAtMs := now\<rparr>), rt_updatedAtMs := now\<rparr>"
  by (rule start_iff [OF assms])

definition demo_started :: mission_runtime where
  "demo_started = (initializeRuntime demo_mission 0)
     \<lparr>rt_status := (rt_status (initializeRuntime demo_mission 0))(''a'' \<mapsto> Ob_IN_PROGRESS),
      rt_process := Some (demo_process\<lparr>ps_status := Ps_running, ps_startedAtMs := 1\<rparr>), rt_updatedAtMs := 1\<rparr>"

lemma demo_statuses: "rt_status (initializeRuntime demo_mission t) = [''a'' \<mapsto> Ob_PENDING, ''b'' \<mapsto> Ob_PENDING]"
  by (simp add: initializeRuntime_def demo_mission_def)

lemma demo_may_start: "may_start demo_mission (initializeRuntime demo_mission 0) (demo_objective ''a'' [] True) demo_leases 1 1"
  unfolding may_start_def demo_statuses by (simp add: demo_objective_def) (simp add: demo_leases_def)

lemma start_objective_exact_witness:
  "startObjective demo_mission (initializeRuntime demo_mission 0) ''a'' demo_leases demo_process 1 1 = Inr demo_started \<and>
   mo_requiresApproval (demo_objective ''a'' [] True)"
  using start_objective_exact [of demo_mission "demo_objective ''a'' [] True" "initializeRuntime demo_mission 0"
      demo_leases demo_process 1 1 demo_started] demo_may_start
  by (simp add: demo_started_def) (simp add: demo_objective_def)

section \<open>Runs of a mission\<close>

text \<open>Everything the engine can do to the runtime state of a mission; approvals and blockers are
  recorded as the caller hands them over.\<close>

inductive mission_reach :: "mission_document \<Rightarrow> mission_runtime \<Rightarrow> bool" for m :: mission_document where
  init: "mission_reach m (initializeRuntime m now)"
| start: "mission_reach m rt \<Longrightarrow> startObjective m rt i leases p now clock = Inr rt2 \<Longrightarrow> mission_reach m rt2"
| complete: "mission_reach m rt \<Longrightarrow> completeObjective m rt i acks now = Inr rt2 \<Longrightarrow> mission_reach m rt2"
| fail: "mission_reach m rt \<Longrightarrow> failObjective rt i now = Inr rt2 \<Longrightarrow> mission_reach m rt2"
| approve: "mission_reach m rt \<Longrightarrow> mission_reach m (recordApproval rt g d clock)"
| unblock: "mission_reach m rt \<Longrightarrow> mission_reach m (recordBlocker rt i b clock)"
| reboot: "mission_reach m rt \<Longrightarrow> mission_reach m (fst (reconcileAfterReboot m rt alive now))"

lemma start_cases:
  assumes "startObjective m rt i leases p now clock = Inr rt2"
  obtains x where "x \<in> set (md_objectives m)" "mo_id x = i" "rv_status (deriveReadiness m rt clock) i = Some Ob_READY"
    "rt_status rt2 = (rt_status rt)(i \<mapsto> Ob_IN_PROGRESS)"
proof -
  obtain x where x: "List.find (\<lambda>x. mo_id x = i) (md_objectives m) = Some x"
    using assms by (auto simp: startObjective_def split: option.splits)
  then show thesis
    using assms find_Some_iff_mem [OF x] that [of x]
    by (auto simp: startObjective_def first_some.simps must_def split: option.splits if_splits)
qed

lemma complete_cases:
  assumes "completeObjective m rt i acks now = Inr rt2"
  shows "rt_status rt i = Some Ob_IN_PROGRESS \<and> rt_status rt2 = (rt_status rt)(i \<mapsto> Ob_COMPLETED)"
  using assms by (auto simp: completeObjective_def first_some.simps must_def split: option.splits if_splits)

lemma fail_cases:
  assumes "failObjective rt i now = Inr rt2"
  shows "rt_status rt i \<in> {Some Ob_BLOCKED, Some Ob_WAITING_APPROVAL, Some Ob_WAITING_EXTERNAL, Some Ob_IN_PROGRESS} \<and>
    rt_status rt2 = (rt_status rt)(i \<mapsto> Ob_FAILED)"
proof -
  obtain s where s: "rt_status rt i = Some s" "isLegalTransition s Ob_FAILED" "rt_status rt2 = (rt_status rt)(i \<mapsto> Ob_FAILED)"
    using assms by (auto simp: failObjective_def split: option.splits if_splits)
  then show ?thesis by (cases s) (simp_all add: isLegalTransition_def)
qed

text \<open>The invariant: stored statuses, and completed dependencies of what has started.\<close>

definition progress_ok :: "mission_document \<Rightarrow> mission_runtime \<Rightarrow> bool" where
  "progress_ok m rt \<longleftrightarrow> (\<forall>x \<in> set (md_objectives m).
     rt_status rt (mo_id x) \<in> Some ` {Ob_PENDING, Ob_READY, Ob_IN_PROGRESS, Ob_COMPLETED, Ob_FAILED} \<and>
     (rt_status rt (mo_id x) \<in> {Some Ob_IN_PROGRESS, Some Ob_COMPLETED} \<longrightarrow>
        (\<forall>d \<in> set (mo_dependencies x). d \<in> mo_id ` set (md_objectives m) \<longrightarrow> rt_status rt d = Some Ob_COMPLETED)))"

lemma progress_okD:
  assumes "progress_ok m rt" and "x \<in> set (md_objectives m)"
  shows "rt_status rt (mo_id x) \<in> Some ` {Ob_PENDING, Ob_READY, Ob_IN_PROGRESS, Ob_COMPLETED, Ob_FAILED}"
    and "rt_status rt (mo_id x) \<in> {Some Ob_IN_PROGRESS, Some Ob_COMPLETED} \<Longrightarrow> d \<in> set (mo_dependencies x) \<Longrightarrow>
      d \<in> mo_id ` set (md_objectives m) \<Longrightarrow> rt_status rt d = Some Ob_COMPLETED"
  using bspec [OF assms(1) [unfolded progress_ok_def] assms(2)] by blast+

lemma progress_update:
  assumes ok: "progress_ok m rt" and open_i: "rt_status rt i \<noteq> Some Ob_COMPLETED"
    and upd: "rt_status rt2 = (rt_status rt)(i \<mapsto> s)" and s: "s \<in> {Ob_IN_PROGRESS, Ob_COMPLETED, Ob_FAILED}"
    and deps: "s = Ob_FAILED \<or> (\<forall>x \<in> set (md_objectives m). mo_id x = i \<longrightarrow>
      (\<forall>d \<in> set (mo_dependencies x). d \<in> mo_id ` set (md_objectives m) \<longrightarrow> rt_status rt d = Some Ob_COMPLETED))"
  shows "progress_ok m rt2"
  unfolding progress_ok_def
proof (intro ballI conjI impI)
  fix x assume x: "x \<in> set (md_objectives m)"
  show "rt_status rt2 (mo_id x) \<in> Some ` {Ob_PENDING, Ob_READY, Ob_IN_PROGRESS, Ob_COMPLETED, Ob_FAILED}"
    using progress_okD(1) [OF ok x] s by (cases "mo_id x = i") (auto simp: upd)
  fix d assume st: "rt_status rt2 (mo_id x) \<in> {Some Ob_IN_PROGRESS, Some Ob_COMPLETED}"
    and d: "d \<in> set (mo_dependencies x)" "d \<in> mo_id ` set (md_objectives m)"
  have "rt_status rt d = Some Ob_COMPLETED"
  proof (cases "mo_id x = i")
    case True
    then have "s \<noteq> Ob_FAILED" using st by (auto simp: upd)
    then show ?thesis using deps x True d by blast
  next
    case False
    then have "rt_status rt (mo_id x) \<in> {Some Ob_IN_PROGRESS, Some Ob_COMPLETED}" using st by (simp add: upd)
    then show ?thesis by (rule progress_okD(2) [OF ok x _ d])
  qed
  then show "rt_status rt2 d = Some Ob_COMPLETED" using open_i by (cases "d = i") (simp_all add: upd)
qed

lemma progress_same: "progress_ok m rt \<Longrightarrow> rt_status rt2 = rt_status rt \<Longrightarrow> progress_ok m rt2"
  unfolding progress_ok_def by (simp only:)

lemma progress_revert:
  assumes "progress_ok m rt" and "rt_status rt2 = revert_started (md_objectives m) (rt_status rt)"
  shows "progress_ok m rt2"
  unfolding progress_ok_def
proof (intro ballI conjI impI)
  fix x assume x: "x \<in> set (md_objectives m)"
  show "rt_status rt2 (mo_id x) \<in> Some ` {Ob_PENDING, Ob_READY, Ob_IN_PROGRESS, Ob_COMPLETED, Ob_FAILED}"
    using progress_okD(1) [OF assms(1) x] by (auto simp: assms(2) revert_started_def)
  fix d assume st: "rt_status rt2 (mo_id x) \<in> {Some Ob_IN_PROGRESS, Some Ob_COMPLETED}"
    and d: "d \<in> set (mo_dependencies x)" "d \<in> mo_id ` set (md_objectives m)"
  have "rt_status rt (mo_id x) \<in> {Some Ob_IN_PROGRESS, Some Ob_COMPLETED}"
    using st x by (auto simp: assms(2) revert_started_def split: if_splits)
  from progress_okD(2) [OF assms(1) x this d]
  show "rt_status rt2 d = Some Ob_COMPLETED" by (simp add: assms(2) revert_started_def)
qed

lemma init_status:
  assumes "distinct (map mo_id (md_objectives m))" and "x \<in> set (md_objectives m)"
  shows "rt_status (initializeRuntime m now) (mo_id x) = Some Ob_PENDING"
proof -
  have "map_of (map (\<lambda>x. (mo_id x, Ob_PENDING)) xs) (mo_id x) = Some Ob_PENDING" if "x \<in> set xs" for xs
    using that by (induction xs) auto
  then show ?thesis using assms(2) by (simp add: initializeRuntime_def)
qed

lemma reach_progress:
  assumes uniq: "distinct (map mo_id (md_objectives m))"
  shows "mission_reach m rt \<Longrightarrow> progress_ok m rt"
proof (induction rule: mission_reach.induct)
  case (init now)
  show ?case unfolding progress_ok_def by (simp add: init_status [OF uniq])
next
  case (start rt i leases p now clock rt2)
  from start.hyps(2) obtain x where x: "x \<in> set (md_objectives m)" "mo_id x = i"
    "rv_status (deriveReadiness m rt clock) i = Some Ob_READY" "rt_status rt2 = (rt_status rt)(i \<mapsto> Ob_IN_PROGRESS)"
    by (rule start_cases)
  have r: "rt_status rt i \<in> {Some Ob_PENDING, Some Ob_BLOCKED, Some Ob_READY}"
    "\<forall>d \<in> set (mo_dependencies x). d \<in> mo_id ` set (md_objectives m) \<longrightarrow> rt_status rt d = Some Ob_COMPLETED"
    using ready_iff [OF uniq x(1), of rt clock] x(2,3) by simp_all
  have only: "y = x" if "y \<in> set (md_objectives m)" "mo_id y = i" for y
    using find_objective [OF uniq that(1)] find_objective [OF uniq x(1)] that(2) x(2) by simp
  have "rt_status rt i \<noteq> Some Ob_COMPLETED" using r(1) by auto
  then show ?case by (rule progress_update [OF start.IH _ x(4)]) (use r(2) only in blast)+
next
  case (complete rt i acks now rt2)
  note c = complete_cases [OF complete.hyps(2)]
  have "rt_status rt i \<noteq> Some Ob_COMPLETED" using c by simp
  moreover have "\<forall>x \<in> set (md_objectives m). mo_id x = i \<longrightarrow>
      (\<forall>d \<in> set (mo_dependencies x). d \<in> mo_id ` set (md_objectives m) \<longrightarrow> rt_status rt d = Some Ob_COMPLETED)"
  proof (intro ballI impI)
    fix x d assume x: "x \<in> set (md_objectives m)" "mo_id x = i"
      and d: "d \<in> set (mo_dependencies x)" "d \<in> mo_id ` set (md_objectives m)"
    have "rt_status rt (mo_id x) \<in> {Some Ob_IN_PROGRESS, Some Ob_COMPLETED}" using c x(2) by simp
    then show "rt_status rt d = Some Ob_COMPLETED" by (rule progress_okD(2) [OF complete.IH x(1) _ d])
  qed
  ultimately show ?case by (intro progress_update [OF complete.IH _ conjunct2 [OF c]]) simp_all
next
  case (fail rt i now rt2)
  note c = fail_cases [OF fail.hyps(2)]
  have "rt_status rt i \<noteq> Some Ob_COMPLETED" using conjunct1 [OF c] by auto
  then show ?case by (intro progress_update [OF fail.IH _ conjunct2 [OF c]]) simp_all
next
  case (approve rt g d clock)
  show ?case by (rule progress_same [OF approve.IH]) (simp add: recordApproval_def)
next
  case (unblock rt i b clock)
  show ?case by (rule progress_same [OF unblock.IH]) (simp add: recordBlocker_def)
next
  case (reboot rt alive now)
  show ?case by (rule progress_revert [OF reboot.IH]) (simp add: reconcileAfterReboot_def Let_def)
qed

text \<open>A run of the example: a is started and completed, then b is started.\<close>

definition demo_completed :: mission_runtime where
  "demo_completed = demo_started\<lparr>rt_status := (rt_status demo_started)(''a'' \<mapsto> Ob_COMPLETED), rt_updatedAtMs := 2\<rparr>"

definition demo_second :: mission_runtime where
  "demo_second = demo_completed
     \<lparr>rt_status := (rt_status demo_completed)(''b'' \<mapsto> Ob_IN_PROGRESS),
      rt_process := Some (demo_process\<lparr>ps_status := Ps_running, ps_startedAtMs := 3\<rparr>), rt_updatedAtMs := 3\<rparr>"

lemma demo_run_statuses:
  "rt_status demo_started = [''b'' \<mapsto> Ob_PENDING, ''a'' \<mapsto> Ob_IN_PROGRESS]"
  "rt_status demo_completed = [''b'' \<mapsto> Ob_PENDING, ''a'' \<mapsto> Ob_COMPLETED]"
  "rt_status demo_second = [''b'' \<mapsto> Ob_IN_PROGRESS, ''a'' \<mapsto> Ob_COMPLETED]"
  by (auto simp: demo_started_def demo_completed_def demo_second_def demo_statuses)

lemma demo_reach: "mission_reach demo_mission demo_second"
proof -
  have "startObjective demo_mission (initializeRuntime demo_mission 0) (mo_id (demo_objective ''a'' [] True))
      demo_leases demo_process 1 1 = Inr demo_started"
    using start_iff [of demo_mission "demo_objective ''a'' [] True" "initializeRuntime demo_mission 0"
      demo_leases demo_process 1 1 demo_started] demo_may_start by (simp add: demo_started_def)
  with mission_reach.init have started: "mission_reach demo_mission demo_started" by (rule mission_reach.start)
  have found: "List.find (\<lambda>x. mo_id x = ''a'') (md_objectives demo_mission) = Some (demo_objective ''a'' [] True)"
    by (simp add: demo_mission_def)
  have "completeObjective demo_mission demo_started ''a'' [''c''] 2 = Inr demo_completed"
    unfolding completeObjective_def found
    by (simp add: demo_run_statuses(1) first_some.simps must_def demo_objective_def) (simp add: demo_completed_def demo_run_statuses(1))
  with started have completed: "mission_reach demo_mission demo_completed" by (rule mission_reach.complete)
  have "may_start demo_mission demo_completed (demo_objective ''b'' [''a''] False) demo_leases 3 3"
    unfolding may_start_def demo_run_statuses by (simp add: demo_objective_def) (simp add: demo_leases_def)
  then have "startObjective demo_mission demo_completed (mo_id (demo_objective ''b'' [''a''] False))
      demo_leases demo_process 3 3 = Inr demo_second"
    using start_iff [of demo_mission "demo_objective ''b'' [''a''] False" demo_completed
      demo_leases demo_process 3 3 demo_second] by (simp add: demo_second_def)
  with completed show ?thesis by (rule mission_reach.start)
qed

lemma depends_on_own:
  assumes "distinct (map mo_id objs)" and "x \<in> set objs" and "(mo_id x, d) \<in> depends_on objs"
  shows "d \<in> set (mo_dependencies x)"
proof -
  obtain y where y: "y \<in> set objs" "mo_id x = mo_id y" "d \<in> set (mo_dependencies y)"
    using assms(3) by (auto simp: depends_on_def)
  have "List.find (\<lambda>z. mo_id z = mo_id x) objs = Some y" unfolding y(2) by (rule find_objective [OF assms(1) y(1)])
  then have "x = y" unfolding find_objective [OF assms(1,2)] by (rule option.inject [THEN iffD1])
  then show ?thesis using y(3) by simp
qed

text \<open>C8. However a mission with unique objective identifiers is run - objectives started,
  completed and failed, arbitrary approvals and blocker states recorded, reboots reconciled, in
  any order and at any times - an objective that is IN_PROGRESS or COMPLETED has every
  dependency within the mission COMPLETED.\<close>

theorem started_after_dependencies:
  assumes "mission_reach m rt" and "distinct (map mo_id (md_objectives m))" and "x \<in> set (md_objectives m)"
    and "rt_status rt (mo_id x) \<in> {Some Ob_IN_PROGRESS, Some Ob_COMPLETED}"
    and "(mo_id x, d) \<in> depends_on (md_objectives m)" and "d \<in> mo_id ` set (md_objectives m)"
  shows "rt_status rt d = Some Ob_COMPLETED"
  using depends_on_own [OF assms(2,3,5)]
  by (rule progress_okD(2) [OF reach_progress [OF assms(2,1)] assms(3,4) _ assms(6)])

lemma started_after_dependencies_witness:
  "rt_status demo_second ''b'' = Some Ob_IN_PROGRESS \<and> rt_status demo_second ''a'' = Some Ob_COMPLETED"
  using started_after_dependencies [OF demo_reach, of "demo_objective ''b'' [''a''] False" "''a''"]
  by (simp add: demo_run_statuses(3) depends_on_def exI [of _ "demo_objective ''b'' [''a''] False"])

text \<open>In an acyclic graph some open objective has only closed dependencies.\<close>

lemma first_open:
  assumes rel: "depends_on objs \<subseteq> mo_id ` set objs \<times> mo_id ` set objs" and acyclic: "acyclic (depends_on objs)"
    and z: "z \<in> set objs" "P (mo_id z)"
  shows "\<exists>x \<in> set objs. P (mo_id x) \<and> (\<forall>d \<in> set (mo_dependencies x). d \<in> mo_id ` set objs \<longrightarrow> \<not> P d)"
proof -
  let ?open = "mo_id ` {x \<in> set objs. P (mo_id x)}"
  have "finite (depends_on objs)" by (rule finite_subset [OF rel]) simp
  then have wf: "wf ((depends_on objs)\<inverse>)" using acyclic by (rule finite_acyclic_wf_converse)
  have "mo_id z \<in> ?open" using z by blast
  from mp [OF spec [OF spec [OF iffD1 [OF wf_eq_minimal wf], of ?open], of "mo_id z"], OF this]
  obtain i where i: "i \<in> ?open" and least: "\<forall>d. (d, i) \<in> (depends_on objs)\<inverse> \<longrightarrow> d \<notin> ?open" by (rule bexE)
  obtain x where x: "x \<in> set objs" "P (mo_id x)" "i = mo_id x" using i by blast
  have "\<not> P d" if d: "d \<in> set (mo_dependencies x)" "d \<in> mo_id ` set objs" for d
  proof -
    have "(d, i) \<in> (depends_on objs)\<inverse>" using x(1,3) d(1) by (auto simp: depends_on_def)
    from mp [OF spec [OF least, of d] this] have "d \<notin> ?open" .
    then show ?thesis using d(2) by blast
  qed
  then show ?thesis using x(1,2) by blast
qed

lemma startable:
  assumes uniq: "distinct (map mo_id (md_objectives m))" and x: "x \<in> set (md_objectives m)"
    and st: "rt_status rt (mo_id x) \<in> {Some Ob_PENDING, Some Ob_READY}"
    and deps: "\<forall>d \<in> set (mo_dependencies x). d \<in> mo_id ` set (md_objectives m) \<longrightarrow> rt_status rt d = Some Ob_COMPLETED"
    and free: "approvalHolds x rt clock" "\<forall>b. mo_blocker x = Some b \<longrightarrow> blockerHolds (bs_id b) rt"
      "\<forall>r \<in> set (mo_repositories x). lease_held leases now r" "\<not> over_budget x rt"
  shows "\<exists>rt2. startObjective m rt (mo_id x) leases p now clock = Inr rt2"
proof -
  have "rv_status (deriveReadiness m rt clock) (mo_id x) = Some Ob_READY"
    unfolding ready_iff [OF uniq x] using st deps free(1,2) by blast
  then show ?thesis
    using free(3,4) by (simp add: startObjective_def find_objective [OF uniq x] first_some.simps must_def)
qed

text \<open>C36. A well-formed mission never gets stuck by itself: in a reachable state in which no
  objective is in progress or failed and not all are completed, some objective can be started,
  provided the approvals, blockers, leases and budgets of the objectives that are not completed
  are in order.\<close>

theorem mission_never_stuck:
  assumes "mission_wf m" and "mission_reach m rt"
    and "\<forall>x \<in> set (md_objectives m). rt_status rt (mo_id x) \<notin> {Some Ob_IN_PROGRESS, Some Ob_FAILED}"
    and "z \<in> set (md_objectives m)" and "rt_status rt (mo_id z) \<noteq> Some Ob_COMPLETED"
    and "\<forall>x \<in> set (md_objectives m). rt_status rt (mo_id x) \<noteq> Some Ob_COMPLETED \<longrightarrow>
      approvalHolds x rt clock \<and> (\<forall>b. mo_blocker x = Some b \<longrightarrow> blockerHolds (bs_id b) rt) \<and>
      (\<forall>r \<in> set (mo_repositories x). lease_held leases now r) \<and> \<not> over_budget x rt"
  shows "\<exists>x \<in> set (md_objectives m). \<exists>rt2. startObjective m rt (mo_id x) leases p now clock = Inr rt2"
proof -
  let ?objs = "md_objectives m"
  have uniq: "distinct (map mo_id ?objs)" and rel: "depends_on ?objs \<subseteq> mo_id ` set ?objs \<times> mo_id ` set ?objs"
    and acyclic: "acyclic (depends_on ?objs)"
    using assms(1) by (simp_all add: mission_wf_def Let_def)
  from first_open [OF rel acyclic assms(4), of "\<lambda>i. rt_status rt i \<noteq> Some Ob_COMPLETED", OF assms(5)]
  obtain x where x: "x \<in> set ?objs" and open_x: "rt_status rt (mo_id x) \<noteq> Some Ob_COMPLETED"
    and deps: "\<forall>d \<in> set (mo_dependencies x). d \<in> mo_id ` set ?objs \<longrightarrow> rt_status rt d = Some Ob_COMPLETED"
    by blast
  note free = mp [OF bspec [OF assms(6) x] open_x]
  have "rt_status rt (mo_id x) \<in> {Some Ob_PENDING, Some Ob_READY}"
    using progress_okD(1) [OF reach_progress [OF uniq assms(2)] x] bspec [OF assms(3) x] open_x by auto
  from startable [OF uniq x this deps] free x show ?thesis by blast
qed

lemma mission_never_stuck_witness:
  "\<exists>x \<in> set (md_objectives demo_mission). \<exists>rt2.
     startObjective demo_mission (initializeRuntime demo_mission 0) (mo_id x) demo_leases demo_process 1 1 = Inr rt2"
  by (rule mission_never_stuck [OF demo_wf mission_reach.init [of demo_mission 0], of "demo_objective ''b'' [''a''] False"])
    (simp_all add: demo_statuses approvalHolds_def over_budget_def, simp_all add: demo_objective_def demo_leases_def lease_held_def)

end
