(* ===== verification/Mission_Critical_Path.thy ===== *)
theory Mission_Critical_Path
  imports Mission_Graph_Facts
begin

text \<open>
  \<open>computeCriticalPath\<close> of \<open>mission/graph.ts\<close>: the memoised search for the dependency chain with
  the greatest summed estimate.  The recursion of the source ends only on acyclic graphs; fuel
  bounds its depth here and \<open>None\<close> is the recursion that never returns.
\<close>

section \<open>The search\<close>

record cp_state =
  cp_dist :: "ident \<rightharpoonup> int"
  cp_pred :: "ident \<rightharpoonup> ident"

definition objective_by_id :: "mission_objective list \<Rightarrow> ident \<rightharpoonup> mission_objective" where
  "objective_by_id objs = map_of (rev (map (\<lambda>x. (mo_id x, x)) objs))"

definition better_pred :: "int \<Rightarrow> ident \<Rightarrow> int \<Rightarrow> ident option \<Rightarrow> bool" where
  "better_pred d dep best pred \<longleftrightarrow> d > best \<or> d = best \<and> (case pred of None \<Rightarrow> True | Some p \<Rightarrow> dep < p)"

fun cp_compute :: "nat \<Rightarrow> mission_objective list \<Rightarrow> ident \<Rightarrow> cp_state \<Rightarrow> (int \<times> cp_state) option"
and cp_deps :: "nat \<Rightarrow> mission_objective list \<Rightarrow> ident list \<Rightarrow> int \<Rightarrow> ident option \<Rightarrow> cp_state \<Rightarrow>
  (int \<times> ident option \<times> cp_state) option" where
  "cp_compute 0 objs i s = None"
| "cp_compute (Suc f) objs i s =
     (case cp_dist s i of
        Some d \<Rightarrow> Some (d, s)
      | None \<Rightarrow>
          (case objective_by_id objs i of
             None \<Rightarrow> Some (0, s\<lparr>cp_dist := (cp_dist s)(i \<mapsto> 0)\<rparr>)
           | Some node \<Rightarrow>
               (case cp_deps f objs (graph_dependencies objs i) 0 None s of
                  None \<Rightarrow> None
                | Some (best, pred, t) \<Rightarrow>
                    Some (best + mo_estimate node,
                      t\<lparr>cp_dist := (cp_dist t)(i \<mapsto> best + mo_estimate node), cp_pred := (cp_pred t)(i := pred)\<rparr>))))"
| "cp_deps f objs [] best pred s = Some (best, pred, s)"
| "cp_deps f objs (d # ds) best pred s =
     (case cp_compute f objs d s of
        None \<Rightarrow> None
      | Some (x, t) \<Rightarrow>
          if better_pred x d best pred then cp_deps f objs ds x (Some d) t else cp_deps f objs ds best pred t)"

fun cp_search :: "nat \<Rightarrow> mission_objective list \<Rightarrow> ident list \<Rightarrow> int \<Rightarrow> ident option \<Rightarrow> cp_state \<Rightarrow>
  (int \<times> ident option \<times> cp_state) option" where
  "cp_search f objs [] best node s = Some (best, node, s)"
| "cp_search f objs (i # ids) best node s =
     (case cp_compute f objs i s of
        None \<Rightarrow> None
      | Some (d, t) \<Rightarrow>
          if d > best then cp_search f objs ids d (Some i) t else cp_search f objs ids best node t)"

text \<open>The reconstruction follows the predecessors and adds every node at the front.\<close>

fun cp_path :: "nat \<Rightarrow> (ident \<rightharpoonup> ident) \<Rightarrow> ident option \<Rightarrow> ident list \<Rightarrow> ident list option" where
  "cp_path f pred None path = Some path"
| "cp_path 0 pred (Some i) path = None"
| "cp_path (Suc f) pred (Some i) path = cp_path f pred (pred i) (i # path)"

record critical_path =
  cr_path :: "ident list"
  cr_weight :: int

definition computeCriticalPath :: "mission_objective list \<Rightarrow> critical_path option" where
  "computeCriticalPath objs =
     (let ids = objectiveIds objs; f = Suc (length ids) in
      case cp_search f objs ids (-1) None \<lparr>cp_dist = Map.empty, cp_pred = Map.empty\<rparr> of
        None \<Rightarrow> None
      | Some (best, node, s) \<Rightarrow>
          (case cp_path f (cp_pred s) node [] of
             None \<Rightarrow> None
           | Some path \<Rightarrow> Some \<lparr>cr_path = path, cr_weight = (if best < 0 then 0 else best)\<rparr>))"

section \<open>Chains\<close>

fun chain :: "mission_objective list \<Rightarrow> ident list \<Rightarrow> bool" where
  "chain objs [] = False"
| "chain objs [i] = (i \<in> set (objectiveIds objs))"
| "chain objs (i # j # is) = (i \<in> set (graph_dependencies objs j) \<and> chain objs (j # is))"

definition estimate_of :: "mission_objective list \<Rightarrow> ident \<Rightarrow> int" where
  "estimate_of objs i = (case objective_by_id objs i of None \<Rightarrow> 0 | Some x \<Rightarrow> mo_estimate x)"

definition chain_weight :: "mission_objective list \<Rightarrow> ident list \<Rightarrow> int" where
  "chain_weight objs is = sum_list (map (estimate_of objs) is)"

lemma chain_append:
  "chain objs (xs @ [j]) \<longleftrightarrow> j \<in> set (objectiveIds objs) \<and> (xs = [] \<or> chain objs xs \<and> last xs \<in> set (graph_dependencies objs j))"
proof (induction xs)
  case (Cons x xs)
  have dep: "i \<in> set (objectiveIds objs)" if "i \<in> set (graph_dependencies objs j)" for i j
    using that by (simp add: graph_dependencies_def)
  show ?case using Cons dep by (cases xs) auto
qed simp

section \<open>Acyclic graphs\<close>

definition dep_rel :: "mission_objective list \<Rightarrow> (ident \<times> ident) set" where
  "dep_rel objs = {(i, d). i \<in> set (objectiveIds objs) \<and> d \<in> set (graph_dependencies objs i)}"

abbreviation "below objs i \<equiv> (dep_rel objs)\<^sup>* `` {i}"

lemma dep_rel_ids: "dep_rel objs \<subseteq> set (objectiveIds objs) \<times> set (objectiveIds objs)"
  by (auto simp: dep_rel_def graph_dependencies_def)

lemma below_finite: "i \<in> set (objectiveIds objs) \<Longrightarrow> below objs i \<subseteq> set (objectiveIds objs)"
proof
  fix d assume i: "i \<in> set (objectiveIds objs)" and "d \<in> below objs i"
  then have "(i, d) \<in> (dep_rel objs)\<^sup>*" by simp
  then show "d \<in> set (objectiveIds objs)" using i dep_rel_ids [of objs] by (induction rule: rtrancl_induct) auto
qed

lemma card_below:
  assumes "acyclic (dep_rel objs)" and "(i, d) \<in> dep_rel objs"
  shows "card (below objs d) < card (below objs i)" and "i \<notin> below objs d"
proof -
  have i: "i \<in> set (objectiveIds objs)" using assms(2) dep_rel_ids by blast
  show notin: "i \<notin> below objs d"
  proof
    assume "i \<in> below objs d"
    then have "(d, i) \<in> (dep_rel objs)\<^sup>*" by simp
    with assms(2) have "(i, i) \<in> (dep_rel objs)\<^sup>+" by (rule rtrancl_into_trancl2)
    then show False using assms(1) by (simp add: acyclic_def)
  qed
  have "below objs d \<subseteq> below objs i" using assms(2) by (auto intro: converse_rtrancl_into_rtrancl)
  then have "below objs d \<subset> below objs i" using notin by blast
  moreover have "finite (below objs i)" using below_finite [OF i] finite_subset by blast
  ultimately show "card (below objs d) < card (below objs i)" by (rule psubset_card_mono [rotated])
qed

lemma chain_below:
  assumes "chain objs (xs @ [j])" and "x \<in> set xs"
  shows "(j, x) \<in> (dep_rel objs)\<^sup>+"
  using assms
proof (induction xs arbitrary: j rule: rev_induct)
  case (snoc y xs)
  have c: "chain objs (xs @ [y])" "j \<in> set (objectiveIds objs)" "y \<in> set (graph_dependencies objs j)"
    using snoc.prems(1) unfolding chain_append [of objs "xs @ [y]"] by simp_all
  then have y: "(j, y) \<in> dep_rel objs" by (simp add: dep_rel_def)
  show ?case
  proof (cases "x = y")
    case False
    then have "(y, x) \<in> (dep_rel objs)\<^sup>+" using snoc.IH [OF c(1)] snoc.prems(2) by simp
    with y show ?thesis by (rule trancl_into_trancl2)
  qed (use y in auto)
qed simp

lemma chain_distinct: "acyclic (dep_rel objs) \<Longrightarrow> chain objs xs \<Longrightarrow> distinct xs"
proof (induction xs rule: rev_induct)
  case (snoc j xs)
  have "j \<notin> set xs" using chain_below [OF snoc.prems(2)] snoc.prems(1) by (auto simp: acyclic_def)
  then show ?case using snoc by (auto simp: chain_append)
qed simp

lemma chain_ids: "chain objs xs \<Longrightarrow> set xs \<subseteq> set (objectiveIds objs)"
  by (induction xs rule: rev_induct) (auto simp: chain_append)

lemma chain_length:
  assumes "acyclic (dep_rel objs)" and "chain objs xs"
  shows "length xs \<le> length (objectiveIds objs)"
  using card_mono [OF _ chain_ids [OF assms(2)]] distinct_card [OF chain_distinct [OF assms]] card_length [of "objectiveIds objs"]
  by simp

section \<open>Cached distances\<close>

text \<open>The predecessors lead from the head of the list to its end.\<close>

fun leads :: "(ident \<rightharpoonup> ident) \<Rightarrow> ident list \<Rightarrow> bool" where
  "leads pred [] = False"
| "leads pred [i] = (pred i = None)"
| "leads pred (i # j # js) = (pred i = Some j \<and> leads pred (j # js))"

lemma cp_path_back: "leads pred (i # ys) \<Longrightarrow> length ys < f \<Longrightarrow> cp_path f pred (Some i) acc = Some (rev (i # ys) @ acc)"
proof (induction f arbitrary: i ys acc)
  case (Suc f)
  show ?case
  proof (cases ys)
    case (Cons j js)
    then show ?thesis using Suc.IH [of j js "i # acc"] Suc.prems by simp
  qed (use Suc.prems in simp)
qed simp

lemma back_cong: "leads pred ys \<Longrightarrow> (\<And>i. i \<in> set ys \<Longrightarrow> pred2 i = pred i) \<Longrightarrow> leads pred2 ys"
  by (induction pred ys rule: leads.induct) auto

definition entry_ok :: "mission_objective list \<Rightarrow> cp_state \<Rightarrow> ident \<Rightarrow> int \<Rightarrow> bool" where
  "entry_ok objs s i d \<longleftrightarrow> i \<in> set (objectiveIds objs) \<and>
     (\<exists>ys. leads (cp_pred s) (i # ys) \<and> set (i # ys) \<subseteq> dom (cp_dist s) \<and> chain objs (rev (i # ys)) \<and>
        chain_weight objs (rev (i # ys)) = d) \<and>
     (\<forall>xs. chain objs (xs @ [i]) \<longrightarrow> chain_weight objs (xs @ [i]) \<le> d)"

definition cache_ok :: "mission_objective list \<Rightarrow> cp_state \<Rightarrow> bool" where
  "cache_ok objs s \<longleftrightarrow> (\<forall>i d. cp_dist s i = Some d \<longrightarrow> entry_ok objs s i d)"

definition extends :: "cp_state \<Rightarrow> cp_state \<Rightarrow> bool" where
  "extends s t \<longleftrightarrow> (\<forall>i d. cp_dist s i = Some d \<longrightarrow> cp_dist t i = Some d \<and> cp_pred t i = cp_pred s i)"

lemma extends_refl [simp]: "extends s s"
  by (simp add: extends_def)

lemma extends_trans: "extends s t \<Longrightarrow> extends t u \<Longrightarrow> extends s u"
  unfolding extends_def by metis

lemma entry_extends:
  assumes "entry_ok objs s i d" and "extends s t"
  shows "entry_ok objs t i d"
proof -
  obtain ys where ys: "leads (cp_pred s) (i # ys)" "set (i # ys) \<subseteq> dom (cp_dist s)" "chain objs (rev (i # ys))"
    "chain_weight objs (rev (i # ys)) = d"
    using assms(1) by (auto simp: entry_ok_def)
  have "cp_pred t j = cp_pred s j" "j \<in> dom (cp_dist t)" if "j \<in> set (i # ys)" for j
    using assms(2) ys(2) that unfolding extends_def by blast+
  then have "leads (cp_pred t) (i # ys)" "set (i # ys) \<subseteq> dom (cp_dist t)"
    using back_cong [OF ys(1)] by blast+
  then show ?thesis using assms(1) ys(3,4) by (auto simp: entry_ok_def)
qed

lemma weight_nonneg:
  "\<forall>x \<in> set objs. 0 \<le> mo_estimate x \<Longrightarrow> 0 \<le> chain_weight objs is"
proof -
  assume nonneg: "\<forall>x \<in> set objs. 0 \<le> mo_estimate x"
  have "0 \<le> estimate_of objs i" for i
    using nonneg map_of_SomeD [of "rev (map (\<lambda>x. (mo_id x, x)) objs)" i]
    by (auto simp: estimate_of_def objective_by_id_def split: option.splits)
  then show ?thesis unfolding chain_weight_def by (intro sum_list_nonneg) auto
qed

section \<open>The search is correct\<close>

lemma entry_nonneg:
  assumes "entry_ok objs s i d" and "\<forall>x \<in> set objs. 0 \<le> mo_estimate x"
  shows "0 \<le> d"
  using assms weight_nonneg [OF assms(2)] unfolding entry_ok_def by blast

text \<open>The state of the loop over the dependencies: no dependency yet, or the best one.\<close>

definition best_ok :: "cp_state \<Rightarrow> int \<Rightarrow> ident option \<Rightarrow> bool" where
  "best_ok s best pred \<longleftrightarrow> (case pred of None \<Rightarrow> best = 0 | Some p \<Rightarrow> cp_dist s p = Some best)"

lemma best_ok_extends: "best_ok s best pred \<Longrightarrow> extends s t \<Longrightarrow> best_ok t best pred"
  by (auto simp: best_ok_def extends_def split: option.splits)

lemma better_pred_None: "0 \<le> x \<Longrightarrow> best_ok s best None \<Longrightarrow> better_pred x d best None"
  by (auto simp: best_ok_def better_pred_def)

definition deps_result ::
  "mission_objective list \<Rightarrow> ident list \<Rightarrow> cp_state \<Rightarrow> int \<Rightarrow> ident option \<Rightarrow> int \<Rightarrow> ident option \<Rightarrow> cp_state \<Rightarrow> bool" where
  "deps_result objs ds s best pred best2 pred2 t \<longleftrightarrow>
     cache_ok objs t \<and> extends s t \<and> best \<le> best2 \<and> best_ok t best2 pred2 \<and>
     (\<forall>d \<in> set ds. \<exists>x. cp_dist t d = Some x \<and> x \<le> best2) \<and>
     (pred2 = None \<longrightarrow> ds = [] \<and> pred = None) \<and> (\<forall>p. pred2 = Some p \<longrightarrow> p \<in> set ds \<or> pred = Some p) \<and>
     dom (cp_dist t) \<subseteq> dom (cp_dist s) \<union> (\<Union>d \<in> set ds. below objs d)"

definition compute_ok :: "nat \<Rightarrow> mission_objective list \<Rightarrow> ident \<Rightarrow> bool" where
  "compute_ok f objs i \<longleftrightarrow> (\<forall>s. cache_ok objs s \<longrightarrow>
     (\<exists>x t. cp_compute f objs i s = Some (x, t) \<and> cache_ok objs t \<and> extends s t \<and> cp_dist t i = Some x \<and>
        dom (cp_dist t) \<subseteq> dom (cp_dist s) \<union> below objs i))"

lemma deps_correct:
  assumes "\<forall>x \<in> set objs. 0 \<le> mo_estimate x"
  shows "\<forall>d \<in> set ds. compute_ok f objs d \<Longrightarrow> cache_ok objs s \<Longrightarrow> best_ok s best pred \<Longrightarrow>
    \<exists>best2 pred2 t. cp_deps f objs ds best pred s = Some (best2, pred2, t) \<and> deps_result objs ds s best pred best2 pred2 t"
proof (induction ds arbitrary: s best pred)
  case Nil
  then show ?case by (auto simp: deps_result_def split: option.splits)
next
  case (Cons d ds)
  obtain x t where t: "cp_compute f objs d s = Some (x, t)" "cache_ok objs t" "extends s t" "cp_dist t d = Some x"
    "dom (cp_dist t) \<subseteq> dom (cp_dist s) \<union> below objs d"
    using Cons.prems(1,2) by (auto simp: compute_ok_def)
  let ?b = "better_pred x d best pred"
  define best1 pred1 where "best1 = (if ?b then x else best)" and "pred1 = (if ?b then Some d else pred)"
  have x: "0 \<le> x" using entry_nonneg [OF _ assms, of t d x] t(2,4) by (simp add: cache_ok_def)
  have ok1: "best_ok t best1 pred1"
    using t(4) best_ok_extends [OF Cons.prems(3) t(3)] by (simp add: best1_def pred1_def best_ok_def)
  have le1: "best \<le> best1" "x \<le> best1"
    using better_pred_None [OF x, of s best d] Cons.prems(3)
    by (auto simp: best1_def better_pred_def split: option.splits)
  have some1: "pred1 \<noteq> None" using better_pred_None [OF x, of s best d] Cons.prems(3) by (cases pred) (auto simp: pred1_def)
  obtain best2 pred2 u where u: "cp_deps f objs ds best1 pred1 t = Some (best2, pred2, u)"
    "deps_result objs ds t best1 pred1 best2 pred2 u"
    using Cons.IH [OF _ t(2) ok1] Cons.prems(1) by auto
  note r = u(2) [unfolded deps_result_def]
  have res: "cp_deps f objs (d # ds) best pred s = Some (best2, pred2, u)"
    using t(1) u(1) by (simp add: best1_def pred1_def split: if_splits)
  have du: "cp_dist u d = Some x" using r t(4) unfolding extends_def by blast
  have "deps_result objs (d # ds) s best pred best2 pred2 u"
    unfolding deps_result_def
  proof (intro conjI)
    show "cache_ok objs u" "best_ok u best2 pred2" "best \<le> best2" "extends s u"
      using r le1(1) extends_trans [OF t(3)] by auto
    show "\<forall>e \<in> set (d # ds). \<exists>y. cp_dist u e = Some y \<and> y \<le> best2"
      using r du le1(2) by (auto intro: order_trans)
    show "pred2 = None \<longrightarrow> d # ds = [] \<and> pred = None" using r some1 by blast
    show "\<forall>p. pred2 = Some p \<longrightarrow> p \<in> set (d # ds) \<or> pred = Some p"
      using r by (auto simp: pred1_def split: if_splits)
    have "dom (cp_dist u) \<subseteq> dom (cp_dist t) \<union> (\<Union>e \<in> set ds. below objs e)" using r by blast
    then show "dom (cp_dist u) \<subseteq> dom (cp_dist s) \<union> (\<Union>e \<in> set (d # ds). below objs e)" using t(5) by auto
  qed
  with res show ?case by blast
qed

lemma objective_by_id_Some: "i \<in> set (objectiveIds objs) \<Longrightarrow> \<exists>x. objective_by_id objs i = Some x"
proof -
  assume "i \<in> set (objectiveIds objs)"
  then have "i \<in> mo_id ` set objs" by (simp add: objectiveIds_def)
  then show ?thesis
    unfolding objective_by_id_def by (cases "map_of (rev (map (\<lambda>x. (mo_id x, x)) objs)) i")
      (auto simp: map_of_eq_None_iff image_comp)
qed

lemma chain_weight_snoc: "chain_weight objs (xs @ [i]) = chain_weight objs xs + estimate_of objs i"
  by (simp add: chain_weight_def)

text \<open>The new entry of a node whose dependencies are done.\<close>

lemma new_entry:
  assumes i: "i \<in> set (objectiveIds objs)" "cp_dist t i = None"
    and res: "deps_result objs (graph_dependencies objs i) s 0 None best pred t"
    and u: "u = t\<lparr>cp_dist := (cp_dist t)(i \<mapsto> best + estimate_of objs i), cp_pred := (cp_pred t)(i := pred)\<rparr>"
  shows "entry_ok objs u i (best + estimate_of objs i)"
proof -
  have best: "0 \<le> best" "best_ok t best pred" "cache_ok objs t" using res by (simp_all add: deps_result_def)
  have some_path: "\<exists>ys. leads (cp_pred u) (i # ys) \<and> set (i # ys) \<subseteq> dom (cp_dist u) \<and> chain objs (rev (i # ys)) \<and>
      chain_weight objs (rev (i # ys)) = best + estimate_of objs i"
  proof (cases pred)
    case None
    then show ?thesis using best(2) i(1) by (intro exI [of _ "[]"]) (simp add: u best_ok_def chain_weight_def)
  next
    case (Some p)
    then have p: "p \<in> set (graph_dependencies objs i)" "cp_dist t p = Some best"
      using res best(2) by (auto simp: deps_result_def best_ok_def)
    then obtain ys where ys: "leads (cp_pred t) (p # ys)" "set (p # ys) \<subseteq> dom (cp_dist t)" "chain objs (rev (p # ys))"
      "chain_weight objs (rev (p # ys)) = best"
      using best(3) unfolding cache_ok_def entry_ok_def by blast
    have "leads (cp_pred u) (p # ys)"
    proof (rule back_cong [OF ys(1)])
      fix j assume "j \<in> set (p # ys)"
      then have "j \<noteq> i" using ys(2) i(2) by auto
      then show "cp_pred u j = cp_pred t j" by (simp add: u)
    qed
    moreover have "chain objs (rev (i # p # ys))"
      using chain_append [of objs "rev (p # ys)" i] ys(3) p(1) i(1) by simp
    moreover have "chain_weight objs (rev (i # p # ys)) = best + estimate_of objs i"
      using chain_weight_snoc [of objs "rev (p # ys)" i] ys(4) by simp
    moreover have "set (i # p # ys) \<subseteq> dom (cp_dist u)" using ys(2) by (auto simp: u)
    ultimately show ?thesis using Some by (intro exI [of _ "p # ys"]) (simp add: u)
  qed
  have "chain_weight objs (xs @ [i]) \<le> best + estimate_of objs i" if c: "chain objs (xs @ [i])" for xs
  proof (cases xs rule: rev_cases)
    case Nil
    then show ?thesis using best(1) by (simp add: chain_weight_def)
  next
    case (snoc zs d)
    then have d: "chain objs (zs @ [d])" "d \<in> set (graph_dependencies objs i)"
      using c unfolding chain_append [of objs xs] by auto
    then obtain x where "cp_dist t d = Some x" "x \<le> best" using res by (auto simp: deps_result_def)
    then have "chain_weight objs (zs @ [d]) \<le> best"
      using best(3) d(1) unfolding cache_ok_def entry_ok_def by fastforce
    then show ?thesis unfolding snoc chain_weight_snoc [of objs "zs @ [d]"] by simp
  qed
  then show ?thesis using some_path i(1) by (simp add: entry_ok_def)
qed

lemma compute_correct:
  assumes acyclic: "acyclic (dep_rel objs)" and nonneg: "\<forall>x \<in> set objs. 0 \<le> mo_estimate x"
  shows "i \<in> set (objectiveIds objs) \<Longrightarrow> card (below objs i) \<le> f \<Longrightarrow> compute_ok f objs i"
proof (induction f arbitrary: i)
  case 0
  have "finite (below objs i)" using below_finite [OF 0(1)] finite_subset by blast
  moreover have "i \<in> below objs i" by simp
  ultimately show ?case using 0(2) by (auto simp: card_eq_0_iff)
next
  case (Suc f)
  let ?ds = "graph_dependencies objs i"
  show ?case unfolding compute_ok_def
  proof (intro allI impI)
    fix s assume s: "cache_ok objs s"
    show "\<exists>x t. cp_compute (Suc f) objs i s = Some (x, t) \<and> cache_ok objs t \<and> extends s t \<and> cp_dist t i = Some x \<and>
        dom (cp_dist t) \<subseteq> dom (cp_dist s) \<union> below objs i"
    proof (cases "cp_dist s i")
      case (Some d)
      then show ?thesis using s by (intro exI [of _ d] exI [of _ s]) simp
    next
      case None
      obtain node where node: "objective_by_id objs i = Some node" using objective_by_id_Some [OF Suc.prems(1)] by blast
      then have est: "mo_estimate node = estimate_of objs i" by (simp add: estimate_of_def)
      have rel: "(i, d) \<in> dep_rel objs" if "d \<in> set ?ds" for d using that Suc.prems(1) by (simp add: dep_rel_def)
      have "compute_ok f objs d" if "d \<in> set ?ds" for d
      proof (rule Suc.IH)
        show "d \<in> set (objectiveIds objs)" using that by (simp add: graph_dependencies_def)
        show "card (below objs d) \<le> f" using card_below(1) [OF acyclic rel [OF that]] Suc.prems(2) by linarith
      qed
      then obtain best pred t where t: "cp_deps f objs ?ds 0 None s = Some (best, pred, t)"
        "deps_result objs ?ds s 0 None best pred t"
        using deps_correct [OF nonneg _ s, of ?ds f 0 None] by (auto simp: best_ok_def)
      let ?u = "t\<lparr>cp_dist := (cp_dist t)(i \<mapsto> best + estimate_of objs i), cp_pred := (cp_pred t)(i := pred)\<rparr>"
      have fresh: "cp_dist t i = None"
      proof -
        have "i \<notin> dom (cp_dist s) \<union> (\<Union>d \<in> set ?ds. below objs d)" using None card_below(2) [OF acyclic rel] by blast
        moreover have "dom (cp_dist t) \<subseteq> dom (cp_dist s) \<union> (\<Union>d \<in> set ?ds. below objs d)"
          using t(2) unfolding deps_result_def by blast
        ultimately show ?thesis by blast
      qed
      have ext: "extends t ?u" using fresh by (auto simp: extends_def)
      have "entry_ok objs ?u i (best + estimate_of objs i)" by (rule new_entry [OF Suc.prems(1) fresh t(2) refl])
      moreover have "entry_ok objs ?u j d" if "cp_dist t j = Some d" for j d
        using t(2) that entry_extends [OF _ ext] by (simp add: deps_result_def cache_ok_def)
      ultimately have "cache_ok objs ?u" by (simp add: cache_ok_def)
      moreover have "dom (cp_dist ?u) \<subseteq> dom (cp_dist s) \<union> below objs i"
      proof -
        have "dom (cp_dist t) \<subseteq> dom (cp_dist s) \<union> (\<Union>d \<in> set ?ds. below objs d)"
          using t(2) unfolding deps_result_def by blast
        moreover have "below objs d \<subseteq> below objs i" if "d \<in> set ?ds" for d
          using converse_rtrancl_into_rtrancl [OF rel [OF that]] by blast
        moreover have "i \<in> below objs i" by blast
        ultimately show ?thesis by auto
      qed
      moreover have "extends s ?u" using t(2) ext extends_trans by (auto simp: deps_result_def)
      ultimately show ?thesis using None node t(1) est by simp
    qed
  qed
qed

definition end_ok :: "cp_state \<Rightarrow> int \<Rightarrow> ident option \<Rightarrow> bool" where
  "end_ok s best node \<longleftrightarrow> (case node of None \<Rightarrow> best = -1 | Some i \<Rightarrow> cp_dist s i = Some best)"

lemma search_correct:
  assumes nonneg: "\<forall>x \<in> set objs. 0 \<le> mo_estimate x"
  shows "\<forall>i \<in> set ids. compute_ok f objs i \<Longrightarrow> cache_ok objs s \<Longrightarrow> end_ok s best node \<Longrightarrow>
    \<exists>best2 node2 t. cp_search f objs ids best node s = Some (best2, node2, t) \<and> cache_ok objs t \<and> extends s t \<and>
      best \<le> best2 \<and> end_ok t best2 node2 \<and> (\<forall>i \<in> set ids. \<exists>x. cp_dist t i = Some x \<and> x \<le> best2) \<and>
      (node2 = None \<longrightarrow> ids = [] \<and> node = None)"
proof (induction ids arbitrary: s best node)
  case (Cons i ids)
  obtain x t where t: "cp_compute f objs i s = Some (x, t)" "cache_ok objs t" "extends s t" "cp_dist t i = Some x"
    using Cons.prems(1,2) by (auto simp: compute_ok_def)
  define best1 node1 where "best1 = (if x > best then x else best)" and "node1 = (if x > best then Some i else node)"
  have x: "0 \<le> x" using entry_nonneg [OF _ nonneg, of t i x] t(2,4) by (simp add: cache_ok_def)
  have ok1: "end_ok t best1 node1"
    using t(3,4) Cons.prems(3) by (auto simp: end_ok_def best1_def node1_def extends_def split: option.splits)
  have some1: "node1 \<noteq> None" using x Cons.prems(3) by (auto simp: node1_def end_ok_def split: option.splits)
  obtain best2 node2 u where u: "cp_search f objs ids best1 node1 t = Some (best2, node2, u)" "cache_ok objs u"
    "extends t u" "best1 \<le> best2" "end_ok u best2 node2" "\<forall>i \<in> set ids. \<exists>x. cp_dist u i = Some x \<and> x \<le> best2"
    "node2 = None \<longrightarrow> ids = [] \<and> node1 = None"
    using Cons.IH [OF _ t(2) ok1] Cons.prems(1) by auto
  have "cp_search f objs (i # ids) best node s = Some (best2, node2, u)"
    using t(1) u(1) by (simp add: best1_def node1_def split: if_splits)
  moreover have "cp_dist u i = Some x" using u(3) t(4) by (simp add: extends_def)
  moreover have "x \<le> best1" "best \<le> best1" by (auto simp: best1_def)
  moreover have "extends s u" using t(3) u(3) by (rule extends_trans)
  ultimately show ?case using u(2,4-7) some1 by (intro exI [of _ best2] exI [of _ node2] exI [of _ u]) auto
qed simp

lemma chain_last: "chain objs xs \<Longrightarrow> \<exists>ys i. xs = ys @ [i] \<and> i \<in> set (objectiveIds objs)"
  by (cases xs rule: rev_cases) (auto simp: chain_append)

lemma critical_path_correct:
  assumes acyclic: "acyclic (dep_rel objs)" and nonneg: "\<forall>x \<in> set objs. 0 \<le> mo_estimate x"
  shows "\<exists>path w. computeCriticalPath objs = Some \<lparr>cr_path = path, cr_weight = w\<rparr> \<and>
    (if objs = [] then path = [] else chain objs path) \<and> w = chain_weight objs path \<and>
    (\<forall>xs. chain objs xs \<longrightarrow> chain_weight objs xs \<le> w)"
proof -
  let ?ids = "objectiveIds objs" and ?start = "\<lparr>cp_dist = Map.empty, cp_pred = Map.empty\<rparr>"
  have "card (below objs i) \<le> Suc (length ?ids)" if "i \<in> set ?ids" for i
    using card_mono [OF _ below_finite [OF that]] card_length [of ?ids] by (simp add: le_SucI order_trans)
  then have "\<forall>i \<in> set ?ids. compute_ok (Suc (length ?ids)) objs i"
    using compute_correct [OF acyclic nonneg] by blast
  moreover have "cache_ok objs ?start" "end_ok ?start (-1) None" by (simp_all add: cache_ok_def end_ok_def)
  ultimately obtain best node t where t: "cp_search (Suc (length ?ids)) objs ?ids (-1) None ?start = Some (best, node, t)"
    "cache_ok objs t" "end_ok t best node" "\<forall>i \<in> set ?ids. \<exists>x. cp_dist t i = Some x \<and> x \<le> best"
    "node = None \<longrightarrow> ?ids = []"
    using search_correct [OF nonneg, of ?ids "Suc (length ?ids)" ?start "-1" None] by auto
  have all: "chain_weight objs xs \<le> best" if c: "chain objs xs" for xs
  proof -
    obtain ys i where xs: "xs = ys @ [i]" "i \<in> set ?ids" using chain_last [OF c] by blast
    then obtain x where "cp_dist t i = Some x" "x \<le> best" using t(4) by blast
    then show ?thesis using t(2) c xs(1) unfolding cache_ok_def entry_ok_def by fastforce
  qed
  show ?thesis
  proof (cases node)
    case None
    then have "objs = []" using t(5) set_js_set [of "map mo_id objs"] by (simp add: objectiveIds_def)
    then show ?thesis using t(1,3) None chain_last [of objs]
      by (auto simp: computeCriticalPath_def end_ok_def chain_weight_def objectiveIds_def)
  next
    case (Some i)
    then have "cp_dist t i = Some best" using t(3) by (simp add: end_ok_def)
    then obtain ys where ys: "leads (cp_pred t) (i # ys)" "chain objs (rev (i # ys))" "chain_weight objs (rev (i # ys)) = best"
      using t(2) unfolding cache_ok_def entry_ok_def by blast
    have "length ys < Suc (length ?ids)" using chain_length [OF acyclic ys(2)] by simp
    from cp_path_back [OF ys(1) this, of "[]"]
    have path: "cp_path (Suc (length ?ids)) (cp_pred t) node [] = Some (rev (i # ys))" using Some by simp
    have "objs \<noteq> []" using ys(2) chain_last [OF ys(2)] by (auto simp: objectiveIds_def)
    moreover have "0 \<le> best" using ys(3) weight_nonneg [OF nonneg] by metis
    ultimately show ?thesis
      using t(1) path ys(2,3) all
      by (intro exI [of _ "rev (i # ys)"] exI [of _ best]) (simp add: computeCriticalPath_def Let_def del: rev.simps)
  qed
qed

lemma mission_wf_acyclic: "mission_wf m \<Longrightarrow> acyclic (dep_rel (md_objectives m))"
proof -
  assume wf: "mission_wf m"
  then have uniq: "distinct (map mo_id (md_objectives m))" and acyclic: "acyclic (depends_on (md_objectives m))"
    by (simp_all add: mission_wf_def Let_def)
  have "dep_rel (md_objectives m) \<subseteq> arcs (dependencies_by (md_objectives m))"
    by (auto simp: dep_rel_def arcs_def graph_dependencies_def)
  then show ?thesis using acyclic acyclic_subset unfolding arcs_depends_on [OF uniq] by blast
qed

text \<open>C37. On every mission that passes the graph validation, with estimates that are not negative,
  the critical path search ends and returns a longest chain: each objective of the path depends on the one
  before it, the reported weight is the sum of their estimates, and no chain of the graph weighs more.\<close>

theorem critical_path_longest:
  assumes "graph_issues m = []" and "\<forall>x \<in> set (md_objectives m). 0 \<le> mo_estimate x"
  shows "\<exists>path w. computeCriticalPath (md_objectives m) = Some \<lparr>cr_path = path, cr_weight = w\<rparr> \<and>
    (if md_objectives m = [] then path = [] else chain (md_objectives m) path) \<and> w = chain_weight (md_objectives m) path \<and>
    (\<forall>xs. chain (md_objectives m) xs \<longrightarrow> chain_weight (md_objectives m) xs \<le> w)"
  using critical_path_correct [OF mission_wf_acyclic assms(2)] assms(1) by (simp add: graph_issues_Nil)

lemma critical_path_longest_witness:
  "\<exists>path w. computeCriticalPath (md_objectives demo_mission) = Some \<lparr>cr_path = path, cr_weight = w\<rparr> \<and> 2 \<le> w"
proof -
  have estimates: "\<forall>x \<in> set (md_objectives demo_mission). 0 \<le> mo_estimate x" by simp (simp add: demo_objective_def)
  have issues: "graph_issues demo_mission = []" by (simp add: graph_issues_Nil demo_wf)
  have "chain (md_objectives demo_mission) [''a'', ''b'']" "chain_weight (md_objectives demo_mission) [''a'', ''b''] = 2"
    by (simp_all add: chain_weight_def estimate_of_def objective_by_id_def graph_dependencies_def dependencies_by_def
        objectiveIds_def demo_mission_def demo_objective_def)
  then show ?thesis using critical_path_longest [OF issues estimates] by metis
qed

text \<open>On an objective that depends on itself the recursion never returns, whatever its depth.\<close>

lemma self_dependency_diverges:
  assumes "mo_dependencies x = [mo_id x]"
  shows "cp_dist s (mo_id x) = None \<Longrightarrow> cp_compute f [x] (mo_id x) s = None"
proof (induction f)
  case (Suc f)
  have "graph_dependencies [x] (mo_id x) = [mo_id x]"
    using assms by (simp add: graph_dependencies_def dependencies_by_def objectiveIds_def)
  then show ?case using Suc by (cases f) (simp_all add: objective_by_id_def)
qed simp

end
