(* ===== verification/Mission_Schedule.thy ===== *)
theory Mission_Schedule
  imports Mission_Critical_Path Mission_Engine
begin

text \<open>
  \<open>mission/scheduler.ts\<close>: the schedule plan - waves of ready objectives that share no repository,
  within a parallelism bound - the readiness of one objective, and the budget violations.  The
  planning loop has one unit of fuel per remaining objective and one more; every pass plans an
  objective or is the last.
\<close>

section \<open>The plan\<close>

definition TERMINAL_STATUSES :: "objective_status list" where
  "TERMINAL_STATUSES = [Ob_COMPLETED, Ob_FAILED, Ob_SKIPPED]"

definition UNSCHEDULABLE_STATUSES :: "objective_status list" where
  "UNSCHEDULABLE_STATUSES = [Ob_BLOCKED, Ob_FAILED, Ob_SKIPPED, Ob_WAITING_APPROVAL, Ob_WAITING_EXTERNAL]"

definition isSatisfied :: "objective_status option \<Rightarrow> bool" where
  "isSatisfied s \<longleftrightarrow> s = Some Ob_COMPLETED"

record schedule_input =
  si_status :: "ident \<rightharpoonup> objective_status"
  si_bound :: int
  si_budget :: "mission_budget option"
  si_enforceBudget :: "bool option"

record schedule_plan =
  sp_missionId :: ident
  sp_revision :: int
  sp_waves :: "ident list list"
  sp_unready :: "ident list"
  sp_serializedGroups :: "(string \<times> string) list"
  sp_criticalPath :: "ident list"
  sp_budgetExceeded :: bool

text \<open>\<open>repoSet\<close>: the repositories of an objective, without repetitions.\<close>

definition repo_set :: "mission_objective list \<Rightarrow> ident \<Rightarrow> string list" where
  "repo_set objs i = (case objective_by_id objs i of None \<Rightarrow> [] | Some x \<Rightarrow> js_set (mo_repositories x))"

definition remaining_ids :: "mission_objective list \<Rightarrow> (ident \<rightharpoonup> objective_status) \<Rightarrow> ident list" where
  "remaining_ids objs st =
     sort (filter (\<lambda>i. case st i of
         None \<Rightarrow> True
       | Some s \<Rightarrow> s \<notin> set TERMINAL_STATUSES \<and> s \<notin> set UNSCHEDULABLE_STATUSES) (objectiveIds objs))"

definition dependencies_satisfied :: "mission_objective list \<Rightarrow> (ident \<rightharpoonup> objective_status) \<Rightarrow> ident \<Rightarrow> bool" where
  "dependencies_satisfied objs st i \<longleftrightarrow> (\<forall>d \<in> set (graph_dependencies objs i). isSatisfied (st d))"

text \<open>One wave from the candidates; \<open>held\<close> are the keys of \<open>repoHolders\<close>.\<close>

fun fill_wave :: "int \<Rightarrow> (ident \<Rightarrow> string list) \<Rightarrow> string list \<Rightarrow> ident list \<Rightarrow> ident list \<Rightarrow> ident list" where
  "fill_wave bound repos held wave [] = wave"
| "fill_wave bound repos held wave (i # is) =
     (if bound \<le> int (length wave) then wave
      else if list_ex (\<lambda>r. r \<in> set held) (repos i) then fill_wave bound repos held wave is
      else fill_wave bound repos (repos i @ held) (wave @ [i]) is)"

text \<open>The loop returns the waves and the objectives it found unready.\<close>

fun schedule_loop :: "nat \<Rightarrow> int \<Rightarrow> (ident \<Rightarrow> string list) \<Rightarrow> (ident \<Rightarrow> bool) \<Rightarrow> ident list \<Rightarrow> ident list \<Rightarrow> ident list list \<Rightarrow>
  (ident list list \<times> ident list) option" where
  "schedule_loop 0 bound repos ready remaining planned waves = None"
| "schedule_loop (Suc f) bound repos ready remaining planned waves =
     (if length remaining > length planned \<and> length remaining > 0 then
        (let candidates = filter (\<lambda>i. i \<notin> set planned \<and> ready i) remaining;
             wave = fill_wave bound repos [] [] candidates in
         if candidates = [] then Some (waves, filter (\<lambda>i. i \<notin> set planned) remaining)
         else if wave \<noteq> [] then schedule_loop f bound repos ready remaining (planned @ wave) (waves @ [wave])
         else Some (waves, filter (\<lambda>i. i \<notin> set planned) candidates))
      else Some (waves, []))"

text \<open>The repositories that occur in several waves, with the numbers of the waves.\<close>

fun group_repos :: "nat \<Rightarrow> string list \<Rightarrow> (string \<rightharpoonup> nat) \<Rightarrow> (string \<times> string) list \<times> (string \<rightharpoonup> nat)" where
  "group_repos wi [] seen = ([], seen)"
| "group_repos wi (r # rs) seen =
     (case group_repos wi rs (seen(r \<mapsto> wi)) of (groups, seen2) \<Rightarrow>
        ((case seen r of
            None \<Rightarrow> []
          | Some prev \<Rightarrow> if prev \<noteq> wi then [(r, nat_text prev @ ''->'' @ nat_text wi)] else []) @ groups, seen2))"

fun serialized_groups :: "(ident \<Rightarrow> string list) \<Rightarrow> nat \<Rightarrow> ident list list \<Rightarrow> (string \<rightharpoonup> nat) \<Rightarrow> (string \<times> string) list" where
  "serialized_groups repos wi [] seen = []"
| "serialized_groups repos wi (w # ws) seen =
     (case group_repos wi (concat (map repos w)) seen of (groups, seen2) \<Rightarrow>
        groups @ serialized_groups repos (wi + 1) ws seen2)"

definition budget_exceeded :: "schedule_input \<Rightarrow> bool" where
  "budget_exceeded inp \<longleftrightarrow>
     (case si_budget inp of None \<Rightarrow> False | Some b \<Rightarrow> si_enforceBudget inp = Some True \<and> mb_spentCost b > mb_maxCost b)"

text \<open>\<open>None\<close>: the search for the critical path does not return.\<close>

definition buildSchedulePlan :: "mission_document \<Rightarrow> schedule_input \<Rightarrow> schedule_plan option" where
  "buildSchedulePlan m inp =
     (let objs = md_objectives m; remaining = remaining_ids objs (si_status inp) in
      case schedule_loop (Suc (length remaining)) (si_bound inp) (repo_set objs)
             (dependencies_satisfied objs (si_status inp)) remaining [] [] of
        None \<Rightarrow> None
      | Some (waves, unready) \<Rightarrow>
          (case computeCriticalPath objs of
             None \<Rightarrow> None
           | Some c \<Rightarrow> Some
               \<lparr>sp_missionId = md_missionId m, sp_revision = md_revision m, sp_waves = waves,
                sp_unready = sort (js_set unready), sp_serializedGroups = serialized_groups (repo_set objs) 0 waves Map.empty,
                sp_criticalPath = cr_path c, sp_budgetExceeded = budget_exceeded inp\<rparr>))"

definition isObjectiveReady :: "mission_objective list \<Rightarrow> ident \<Rightarrow> (ident \<rightharpoonup> objective_status) \<Rightarrow> bool" where
  "isObjectiveReady objs i st \<longleftrightarrow>
     List.find (\<lambda>x. mo_id x = i) objs \<noteq> None \<and> (\<forall>d \<in> set (graph_dependencies objs i). st d = Some Ob_COMPLETED)"

definition budgetViolations :: "mission_objective list \<Rightarrow> mission_budget option \<Rightarrow> bool \<Rightarrow> string list" where
  "budgetViolations objs budget enforce =
     concat (map (\<lambda>x. case mo_budget x of
         None \<Rightarrow> []
       | Some b \<Rightarrow>
           if bu_spentCost b > bu_maxCost b then
             [''objective '' @ mo_id x @ '' spent '' @ int_text (bu_spentCost b) @ '' > budget '' @ int_text (bu_maxCost b)]
           else []) objs)
     @ (case budget of
          None \<Rightarrow> []
        | Some b \<Rightarrow>
            if enforce \<and> mb_spentCost b > mb_maxCost b then
              [''mission spent '' @ int_text (mb_spentCost b) @ '' > budget '' @ int_text (mb_maxCost b)]
            else [])"

section \<open>What a plan guarantees\<close>

definition disjoint_repos :: "(ident \<Rightarrow> string list) \<Rightarrow> ident list \<Rightarrow> bool" where
  "disjoint_repos repos w \<longleftrightarrow> sorted_wrt (\<lambda>i j. set (repos i) \<inter> set (repos j) = {}) w"

lemma fill_wave_sound:
  "\<exists>ys. fill_wave bound repos held wave is = wave @ ys \<and> set ys \<subseteq> set is \<and> (distinct is \<longrightarrow> distinct ys) \<and>
     (int (length wave) \<le> bound \<longrightarrow> int (length wave + length ys) \<le> bound) \<and>
     (\<forall>i \<in> set ys. set (repos i) \<inter> set held = {}) \<and> disjoint_repos repos ys \<and>
     (is \<noteq> [] \<and> held = [] \<and> int (length wave) < bound \<longrightarrow> ys \<noteq> [])"
proof (induction "is" arbitrary: held wave)
  case Nil
  show ?case by (simp add: disjoint_repos_def)
next
  case (Cons i js)
  consider "bound \<le> int (length wave)" | "\<not> bound \<le> int (length wave)" "list_ex (\<lambda>r. r \<in> set held) (repos i)"
    | "\<not> bound \<le> int (length wave)" "\<not> list_ex (\<lambda>r. r \<in> set held) (repos i)" by blast
  then show ?case
  proof cases
    case 1
    then show ?thesis by (simp add: disjoint_repos_def)
  next
    case 2
    then have "held \<noteq> []" by (auto simp: list_ex_iff)
    then show ?thesis using Cons.IH [of held wave] 2 by auto
  next
    case 3
    obtain ys where ys: "fill_wave bound repos (repos i @ held) (wave @ [i]) js = (wave @ [i]) @ ys" "set ys \<subseteq> set js"
      "distinct js \<longrightarrow> distinct ys" "int (length (wave @ [i]) + length ys) \<le> bound"
      "\<forall>j \<in> set ys. set (repos j) \<inter> set (repos i @ held) = {}" "disjoint_repos repos ys"
      using Cons.IH [of "repos i @ held" "wave @ [i]"] 3 by auto
    have "set (repos i) \<inter> set held = {}" using 3(2) by (auto simp: list_ex_iff)
    moreover have "disjoint_repos repos (i # ys)" using ys(5,6) by (auto simp: disjoint_repos_def)
    ultimately show ?thesis using ys 3 by (intro exI [of _ "i # ys"]) auto
  qed
qed

definition plan_ok :: "int \<Rightarrow> (ident \<Rightarrow> string list) \<Rightarrow> ident list list \<Rightarrow> bool" where
  "plan_ok bound repos waves \<longleftrightarrow> distinct (concat waves) \<and>
     (\<forall>w \<in> set waves. w \<noteq> [] \<and> int (length w) \<le> bound \<and> disjoint_repos repos w)"

lemma schedule_loop_sound:
  assumes bound: "1 \<le> bound" and rem: "distinct remaining"
  shows "length remaining < length planned + f \<Longrightarrow> planned = concat waves \<Longrightarrow> plan_ok bound repos waves \<Longrightarrow>
    set planned \<subseteq> {i \<in> set remaining. ready i} \<Longrightarrow>
    \<exists>waves2. schedule_loop f bound repos ready remaining planned waves = Some (waves2, filter (\<lambda>i. \<not> ready i) remaining) \<and>
      plan_ok bound repos waves2 \<and> set (concat waves2) = {i \<in> set remaining. ready i}"
proof (induction f arbitrary: planned waves)
  case 0
  have "length planned = card (set planned)" using 0(2,3) by (simp only: plan_ok_def distinct_card)
  moreover have "card (set planned) \<le> card (set remaining)" using 0(4) by (intro card_mono) auto
  ultimately have "length planned \<le> length remaining" using rem by (simp add: distinct_card)
  then show ?case using 0(1) by simp
next
  case (Suc f)
  let ?cands = "filter (\<lambda>i. i \<notin> set planned \<and> ready i) remaining"
  have dist: "distinct planned" using Suc.prems(2,3) by (simp add: plan_ok_def)
  obtain wave where wave: "fill_wave bound repos [] [] ?cands = wave" "set wave \<subseteq> set ?cands" "distinct wave"
    "int (length wave) \<le> bound" "disjoint_repos repos wave" "?cands \<noteq> [] \<longrightarrow> wave \<noteq> []"
    using fill_wave_sound [of bound repos "[]" "[]" ?cands] bound rem by auto
  show ?case
  proof (cases "length remaining > length planned \<and> ?cands \<noteq> []")
    case True
    then have nonempty: "wave \<noteq> []" using wave(6) by blast
    have "plan_ok bound repos (waves @ [wave])"
      using Suc.prems(2,3) wave(2-5) nonempty by (auto simp: plan_ok_def)
    moreover have "length remaining < length (planned @ wave) + f" using Suc.prems(1) nonempty by (cases wave) auto
    moreover have "set (planned @ wave) \<subseteq> {i \<in> set remaining. ready i}" using Suc.prems(4) wave(2) by auto
    ultimately obtain waves2 where
      "schedule_loop f bound repos ready remaining (planned @ wave) (waves @ [wave]) = Some (waves2, filter (\<lambda>i. \<not> ready i) remaining)"
      "plan_ok bound repos waves2" "set (concat waves2) = {i \<in> set remaining. ready i}"
      using Suc.IH [of "planned @ wave" "waves @ [wave]"] Suc.prems(2) by auto
    moreover have "length remaining > 0" using True by auto
    ultimately show ?thesis using True wave(1) nonempty by (simp add: Let_def)
  next
    case False
    have all: "set planned = {i \<in> set remaining. ready i}"
    proof (cases "?cands = []")
      case True
      then show ?thesis using Suc.prems(4) by (auto simp: filter_empty_conv)
    next
      case c: False
      then have "card (set remaining) \<le> card (set planned)" using False rem dist by (simp add: distinct_card)
      then have "set planned = set remaining" using Suc.prems(4) by (intro card_seteq) auto
      then show ?thesis using Suc.prems(4) by auto
    qed
    have rest: "filter (\<lambda>i. i \<notin> set planned) remaining = filter (\<lambda>i. \<not> ready i) remaining"
      unfolding all by (rule filter_cong) auto
    have "\<not> length remaining > length planned \<Longrightarrow> filter (\<lambda>i. \<not> ready i) remaining = []"
    proof -
      assume "\<not> length remaining > length planned"
      then have "card (set remaining) \<le> card (set planned)" using rem dist by (simp add: distinct_card)
      then have "set planned = set remaining" using Suc.prems(4) by (intro card_seteq) auto
      then show ?thesis using all by (auto simp: filter_empty_conv)
    qed
    then have "schedule_loop (Suc f) bound repos ready remaining planned waves = Some (waves, filter (\<lambda>i. \<not> ready i) remaining)"
      using False rest by (cases "length remaining > length planned") (simp_all add: Let_def)
    moreover have "set (concat waves) = {i \<in> set remaining. ready i}" using all unfolding Suc.prems(2) .
    ultimately show ?thesis using Suc.prems(3) by blast
  qed
qed

lemma remaining_distinct: "distinct (remaining_ids objs st)" "sorted (remaining_ids objs st)"
  by (simp_all add: remaining_ids_def objectiveIds_def js_set_def)

lemma js_set_distinct: "distinct xs \<Longrightarrow> js_set xs = xs"
  by (simp add: js_set_def distinct_remdups_id)

lemma plan_exists:
  assumes "1 \<le> si_bound inp" and "acyclic (dep_rel (md_objectives m))"
    and "\<forall>x \<in> set (md_objectives m). 0 \<le> mo_estimate x"
  shows "\<exists>plan. buildSchedulePlan m inp = Some plan \<and> plan_ok (si_bound inp) (repo_set (md_objectives m)) (sp_waves plan) \<and>
     set (concat (sp_waves plan)) =
       {i \<in> set (remaining_ids (md_objectives m) (si_status inp)). dependencies_satisfied (md_objectives m) (si_status inp) i} \<and>
     sp_unready plan = filter (\<lambda>i. \<not> dependencies_satisfied (md_objectives m) (si_status inp) i)
       (remaining_ids (md_objectives m) (si_status inp))"
proof -
  let ?rem = "remaining_ids (md_objectives m) (si_status inp)"
  let ?ready = "dependencies_satisfied (md_objectives m) (si_status inp)"
  let ?repos = "repo_set (md_objectives m)"
  have "plan_ok (si_bound inp) ?repos []" by (simp add: plan_ok_def)
  then obtain waves where w: "schedule_loop (Suc (length ?rem)) (si_bound inp) ?repos ?ready ?rem [] [] =
      Some (waves, filter (\<lambda>i. \<not> ?ready i) ?rem)" "plan_ok (si_bound inp) ?repos waves"
      "set (concat waves) = {i \<in> set ?rem. ?ready i}"
    using schedule_loop_sound [OF assms(1) remaining_distinct(1), of "md_objectives m" "si_status inp" "[]"
        "Suc (length ?rem)" "[]" ?repos ?ready] by auto
  obtain path weight where "computeCriticalPath (md_objectives m) = Some \<lparr>cr_path = path, cr_weight = weight\<rparr>"
    using critical_path_correct [OF assms(2,3)] by blast
  moreover have "sort (js_set (filter (\<lambda>i. \<not> ?ready i) ?rem)) = filter (\<lambda>i. \<not> ?ready i) ?rem"
    using remaining_distinct [of "md_objectives m" "si_status inp"]
    by (simp add: js_set_distinct sorted_sort_id sorted_wrt_filter)
  ultimately show ?thesis using w(2,3) unfolding buildSchedulePlan_def Let_def w(1) by simp
qed

lemma remaining_status:
  "i \<in> set (remaining_ids objs st) \<longleftrightarrow> i \<in> mo_id ` set objs \<and>
     (case st i of None \<Rightarrow> True | Some s \<Rightarrow> s \<in> {Ob_PENDING, Ob_READY, Ob_IN_PROGRESS})"
proof -
  have "(s \<notin> set TERMINAL_STATUSES \<and> s \<notin> set UNSCHEDULABLE_STATUSES) = (s \<in> {Ob_PENDING, Ob_READY, Ob_IN_PROGRESS})" for s
    by (cases s) (simp_all add: TERMINAL_STATUSES_def UNSCHEDULABLE_STATUSES_def)
  then show ?thesis by (auto simp: remaining_ids_def objectiveIds_def split: option.splits)
qed

text \<open>On a mission that passes the graph validation, with estimates that are not negative and a
  parallelism bound of at least one, the planner ends.  Its waves are non-empty, within the bound, and no two
  objectives of a wave share a repository; together they contain exactly once every objective that is pending, ready, in
  progress or without a status and whose dependencies are all COMPLETED, and nothing else.  The other objectives with such a
  status are reported unready.\<close>

theorem schedule_plan_exact:
  assumes "graph_issues m = []" and "\<forall>x \<in> set (md_objectives m). 0 \<le> mo_estimate x" and "1 \<le> si_bound inp"
  shows "\<exists>plan. buildSchedulePlan m inp = Some plan \<and> distinct (concat (sp_waves plan)) \<and>
     (\<forall>w \<in> set (sp_waves plan). w \<noteq> [] \<and> int (length w) \<le> si_bound inp \<and>
        (\<forall>i j. i < j \<longrightarrow> j < length w \<longrightarrow>
          set (repo_set (md_objectives m) (w ! i)) \<inter> set (repo_set (md_objectives m) (w ! j)) = {})) \<and>
     (\<forall>i. i \<in> set (concat (sp_waves plan)) \<or> i \<in> set (sp_unready plan) \<longleftrightarrow> i \<in> mo_id ` set (md_objectives m) \<and>
        (case si_status inp i of None \<Rightarrow> True | Some s \<Rightarrow> s \<in> {Ob_PENDING, Ob_READY, Ob_IN_PROGRESS})) \<and>
     (\<forall>i \<in> set (concat (sp_waves plan)). \<forall>d \<in> set (graph_dependencies (md_objectives m) i). si_status inp d = Some Ob_COMPLETED) \<and>
     (\<forall>i \<in> set (sp_unready plan). \<exists>d \<in> set (graph_dependencies (md_objectives m) i). si_status inp d \<noteq> Some Ob_COMPLETED)"
proof -
  have "acyclic (dep_rel (md_objectives m))" using assms(1) mission_wf_acyclic by (simp add: graph_issues_Nil)
  from plan_exists [OF assms(3) this assms(2)] obtain plan where plan: "buildSchedulePlan m inp = Some plan"
    "plan_ok (si_bound inp) (repo_set (md_objectives m)) (sp_waves plan)"
    "set (concat (sp_waves plan)) =
       {i \<in> set (remaining_ids (md_objectives m) (si_status inp)). dependencies_satisfied (md_objectives m) (si_status inp) i}"
    "sp_unready plan = filter (\<lambda>i. \<not> dependencies_satisfied (md_objectives m) (si_status inp) i)
       (remaining_ids (md_objectives m) (si_status inp))" by blast
  have sat: "dependencies_satisfied objs st i \<longleftrightarrow> (\<forall>d \<in> set (graph_dependencies objs i). st d = Some Ob_COMPLETED)" for objs st i
    by (simp add: dependencies_satisfied_def isSatisfied_def)
  have "i \<in> set (concat (sp_waves plan)) \<or> i \<in> set (sp_unready plan) \<longleftrightarrow> i \<in> set (remaining_ids (md_objectives m) (si_status inp))" for i
    unfolding plan(3,4) by auto
  moreover have "\<forall>i \<in> set (concat (sp_waves plan)). dependencies_satisfied (md_objectives m) (si_status inp) i"
    "\<forall>i \<in> set (sp_unready plan). \<not> dependencies_satisfied (md_objectives m) (si_status inp) i"
    unfolding plan(3,4) by auto
  moreover have "distinct (concat (sp_waves plan))" using plan(2) by (simp only: plan_ok_def)
  moreover have "\<forall>w \<in> set (sp_waves plan). w \<noteq> [] \<and> int (length w) \<le> si_bound inp \<and>
        (\<forall>i j. i < j \<longrightarrow> j < length w \<longrightarrow>
          set (repo_set (md_objectives m) (w ! i)) \<inter> set (repo_set (md_objectives m) (w ! j)) = {})"
    using plan(2) unfolding plan_ok_def disjoint_repos_def sorted_wrt_iff_nth_less by blast
  ultimately show ?thesis using plan(1) unfolding remaining_status sat by (intro exI [of _ plan]) simp
qed

definition demo_input :: schedule_input where
  "demo_input = \<lparr>si_status = [''a'' \<mapsto> Ob_READY], si_bound = 2, si_budget = None, si_enforceBudget = None\<rparr>"

lemma schedule_plan_exact_witness:
  "\<exists>plan. buildSchedulePlan demo_mission demo_input = Some plan \<and> set (sp_unready plan) = {''b''}"
proof -
  have estimates: "\<forall>x \<in> set (md_objectives demo_mission). 0 \<le> mo_estimate x" by simp (simp add: demo_objective_def)
  have issues: "graph_issues demo_mission = []" by (simp add: graph_issues_Nil demo_wf)
  have bound: "1 \<le> si_bound demo_input" by (simp add: demo_input_def)
  from schedule_plan_exact [OF issues estimates bound] obtain plan where plan: "buildSchedulePlan demo_mission demo_input = Some plan"
    and all: "\<forall>i. i \<in> set (concat (sp_waves plan)) \<or> i \<in> set (sp_unready plan) \<longleftrightarrow> i \<in> mo_id ` set (md_objectives demo_mission) \<and>
        (case si_status demo_input i of None \<Rightarrow> True | Some s \<Rightarrow> s \<in> {Ob_PENDING, Ob_READY, Ob_IN_PROGRESS})"
    and waves: "\<forall>i \<in> set (concat (sp_waves plan)). \<forall>d \<in> set (graph_dependencies (md_objectives demo_mission) i). si_status demo_input d = Some Ob_COMPLETED"
    and unready: "\<forall>i \<in> set (sp_unready plan). \<exists>d \<in> set (graph_dependencies (md_objectives demo_mission) i). si_status demo_input d \<noteq> Some Ob_COMPLETED"
    by blast
  have deps: "graph_dependencies (md_objectives demo_mission) ''b'' = [''a'']" "graph_dependencies (md_objectives demo_mission) ''a'' = []"
    by (simp_all add: graph_dependencies_def dependencies_by_def objectiveIds_def demo_mission_def demo_objective_def)
  have ids: "mo_id ` set (md_objectives demo_mission) = {''b'', ''a''}" by simp
  have "''b'' \<notin> set (concat (sp_waves plan))"
  proof
    assume "''b'' \<in> set (concat (sp_waves plan))"
    from bspec [OF waves this] show False by (simp add: deps demo_input_def)
  qed
  moreover have "''a'' \<notin> set (sp_unready plan)" using unready deps by auto
  moreover have "''b'' \<in> set (concat (sp_waves plan)) \<or> ''b'' \<in> set (sp_unready plan)" using all ids by (simp add: demo_input_def)
  moreover have "set (sp_unready plan) \<subseteq> {''b'', ''a''}" using all ids by blast
  ultimately have "set (sp_unready plan) = {''b''}" by blast
  then show ?thesis using plan by blast
qed

end
