(* ===== verification/Mission_Integration.thy ===== *)
theory Mission_Integration
  imports Mission_Model
begin

text \<open>
  \<open>mission/integration.ts\<close> - the transaction that confirms work across objectives and
  repositories - and \<open>mission/contract.ts\<close> - the compatibility of producer and consumer
  contracts.  The state saved in a checkpoint is a JSON value.
\<close>

section \<open>Producer and consumer contracts\<close>

record producer_root =
  pr_id :: ident
  pr_revision :: int
  pr_schema :: string
  pr_producedRevision :: "int option"
  pr_producedSchemaDigest :: "string option"

record consumer_requirement =
  cq_contractId :: ident
  cq_requiredRevision :: int
  cq_requiredSchema :: "string option"

definition verifyContractCompatibility :: "producer_root \<Rightarrow> consumer_requirement \<Rightarrow> string list" where
  "verifyContractCompatibility p c =
     (let produced = (case pr_producedRevision p of None \<Rightarrow> pr_revision p | Some r \<Rightarrow> r) in
      (if produced < cq_requiredRevision c then
         [''producer '' @ pr_id p @ '' revision '' @ int_text produced @ '' < required '' @ int_text (cq_requiredRevision c)]
       else [])
      @ (if \<not> js_falsy (cq_requiredSchema c) \<and> pr_schema p \<noteq> the (cq_requiredSchema c) then
           [''producer '' @ pr_id p @ '' schema '' @ (CHR 0x27 # pr_schema p) @ [CHR 0x27] @ '' != required ''
              @ (CHR 0x27 # the (cq_requiredSchema c)) @ [CHR 0x27]]
         else []))"

definition isContractStale :: "producer_root \<Rightarrow> consumer_requirement \<Rightarrow> bool" where
  "isContractStale p c \<longleftrightarrow> verifyContractCompatibility p c \<noteq> []"

definition linkProducerConsumer ::
  "contract_binding \<Rightarrow> producer_root \<Rightarrow> consumer_requirement \<Rightarrow> mission_error + ident \<times> bool" where
  "linkProducerConsumer b p c =
     (if cb_id b \<noteq> pr_id p \<or> cb_id b \<noteq> cq_contractId c then Inl Me_CONTRACT_MISMATCH
      else Inr (cb_id b, verifyContractCompatibility p c = []))"

section \<open>Integration transactions\<close>

datatype integration_stage = In_PREPARED | In_CHECKPOINTED | In_VALIDATING | In_CONFIRMED | In_VOLATILE | In_ROLLED_BACK

fun STAGE_ORDER :: "integration_stage \<Rightarrow> int" where
  "STAGE_ORDER In_PREPARED = 0"
| "STAGE_ORDER In_CHECKPOINTED = 1"
| "STAGE_ORDER In_VALIDATING = 2"
| "STAGE_ORDER In_CONFIRMED = 3"
| "STAGE_ORDER In_VOLATILE = 4"
| "STAGE_ORDER In_ROLLED_BACK = 5"

record objective_checkpoint =
  ck_objectiveId :: ident
  ck_sequence :: int
  ck_state :: json
  ck_createdAtMs :: int

record integration_tx =
  it_transactionId :: ident
  it_objectiveIds :: "ident list"
  it_repositoryIds :: "ident list"
  it_stage :: integration_stage
  it_checkpoints :: "objective_checkpoint list"
  it_createdAtMs :: int
  it_updatedAtMs :: int

record integration_input =
  ii_transactionId :: ident
  ii_objectiveIds :: "ident list"
  ii_repositoryIds :: "ident list"
  ii_leases :: "repository_lease list"

definition beginIntegrationTransaction :: "integration_input \<Rightarrow> int \<Rightarrow> mission_error + integration_tx" where
  "beginIntegrationTransaction inp now =
     (if ii_objectiveIds inp = [] \<or> ii_repositoryIds inp = [] then Inl Me_INTERNAL_ERROR
      else if \<not> list_all (\<lambda>r. list_ex (\<lambda>l. rl_repositoryId l = r) (ii_leases inp)) (ii_repositoryIds inp) then
        Inl Me_LEASE_NOT_HELD
      else Inr \<lparr>it_transactionId = ii_transactionId inp, it_objectiveIds = ii_objectiveIds inp,
        it_repositoryIds = ii_repositoryIds inp, it_stage = In_PREPARED, it_checkpoints = [],
        it_createdAtMs = now, it_updatedAtMs = now\<rparr>)"

definition addIntegrationCheckpoint :: "integration_tx \<Rightarrow> ident \<Rightarrow> json \<Rightarrow> int \<Rightarrow> mission_error + integration_tx" where
  "addIntegrationCheckpoint tx i st now =
     (if i \<notin> set (it_objectiveIds tx) then Inl Me_NOT_FOUND
      else if it_stage tx = In_CONFIRMED \<or> it_stage tx = In_ROLLED_BACK then Inl Me_INTEGRATION_IN_PROGRESS
      else
        let cps = it_checkpoints tx @ [\<lparr>ck_objectiveId = i, ck_sequence = int (length (it_checkpoints tx)) + 1,
                    ck_state = st, ck_createdAtMs = now\<rparr>] in
        Inr (tx\<lparr>it_checkpoints := cps,
                it_stage := (if length cps = length (it_objectiveIds tx) then In_CHECKPOINTED else In_PREPARED),
                it_updatedAtMs := now\<rparr>))"

definition markIntegrationValidating :: "integration_tx \<Rightarrow> int \<Rightarrow> mission_error + integration_tx" where
  "markIntegrationValidating tx now =
     (if it_stage tx \<noteq> In_CHECKPOINTED then Inl Me_INTEGRATION_IN_PROGRESS
      else Inr (tx\<lparr>it_stage := In_VALIDATING, it_updatedAtMs := now\<rparr>))"

definition confirmIntegrationTransaction :: "integration_tx \<Rightarrow> int \<Rightarrow> mission_error + integration_tx" where
  "confirmIntegrationTransaction tx now =
     (if it_stage tx \<noteq> In_VALIDATING then Inl Me_INTEGRATION_IN_PROGRESS
      else Inr (tx\<lparr>it_stage := In_CONFIRMED, it_updatedAtMs := now\<rparr>))"

text \<open>The rollback reports the objectives of the checkpoints; it returns no transaction.\<close>

record rollback_report =
  rb_transactionId :: ident
  rb_restoredCheckpoints :: "ident list"
  rb_preservedIndependentWork :: bool

definition rollbackIntegrationTransaction :: "integration_tx \<Rightarrow> mission_error + rollback_report" where
  "rollbackIntegrationTransaction tx =
     Inr \<lparr>rb_transactionId = it_transactionId tx, rb_restoredCheckpoints = map ck_objectiveId (it_checkpoints tx),
          rb_preservedIndependentWork = True\<rparr>"

definition canTransitionIntegration :: "integration_stage \<Rightarrow> integration_stage \<Rightarrow> bool" where
  "canTransitionIntegration a b \<longleftrightarrow> a = b \<or> STAGE_ORDER b = STAGE_ORDER a + 1 \<or> b = In_ROLLED_BACK"

section \<open>Runs of a transaction\<close>

inductive integration_reach :: "integration_input \<Rightarrow> integration_tx \<Rightarrow> bool" for inp :: integration_input where
  start: "beginIntegrationTransaction inp now = Inr tx \<Longrightarrow> integration_reach inp tx"
| checkpoint: "integration_reach inp tx \<Longrightarrow> addIntegrationCheckpoint tx i st now = Inr tx2 \<Longrightarrow> integration_reach inp tx2"
| validating: "integration_reach inp tx \<Longrightarrow> markIntegrationValidating tx now = Inr tx2 \<Longrightarrow> integration_reach inp tx2"
| confirm: "integration_reach inp tx \<Longrightarrow> confirmIntegrationTransaction tx now = Inr tx2 \<Longrightarrow> integration_reach inp tx2"

text \<open>Checkpoints are numbered from one and belong to objectives of the transaction.\<close>

definition numbered_checkpoints :: "ident list \<Rightarrow> objective_checkpoint list \<Rightarrow> bool" where
  "numbered_checkpoints ids cps \<longleftrightarrow>
     (\<forall>k < length cps. ck_sequence (cps ! k) = int k + 1 \<and> ck_objectiveId (cps ! k) \<in> set ids)"

lemma numbered_checkpoints_snoc:
  "numbered_checkpoints ids (cps @ [c]) \<longleftrightarrow>
     numbered_checkpoints ids cps \<and> ck_sequence c = int (length cps) + 1 \<and> ck_objectiveId c \<in> set ids"
  by (auto simp: numbered_checkpoints_def nth_append less_Suc_eq)

definition integration_ok :: "integration_input \<Rightarrow> integration_tx \<Rightarrow> bool" where
  "integration_ok inp tx \<longleftrightarrow>
     it_objectiveIds tx = ii_objectiveIds inp \<and> it_repositoryIds tx = ii_repositoryIds inp \<and>
     numbered_checkpoints (it_objectiveIds tx) (it_checkpoints tx) \<and>
     it_stage tx \<in> {In_PREPARED, In_CHECKPOINTED, In_VALIDATING, In_CONFIRMED} \<and>
     (it_stage tx = In_PREPARED \<longleftrightarrow> length (it_checkpoints tx) \<noteq> length (it_objectiveIds tx))"

lemma begin_ok: "beginIntegrationTransaction inp now = Inr tx \<Longrightarrow> integration_ok inp tx"
  by (auto simp: beginIntegrationTransaction_def integration_ok_def numbered_checkpoints_def split: if_splits)

lemma checkpoint_ok:
  "integration_ok inp tx \<Longrightarrow> addIntegrationCheckpoint tx i st now = Inr tx2 \<Longrightarrow> integration_ok inp tx2"
  by (auto simp: addIntegrationCheckpoint_def integration_ok_def numbered_checkpoints_snoc Let_def split: if_splits)

lemma reach_integration_ok: "integration_reach inp tx \<Longrightarrow> integration_ok inp tx"
proof (induction rule: integration_reach.induct)
  case (start now tx)
  then show ?case by (rule begin_ok [rotated -1])
next
  case (checkpoint tx i st now tx2)
  then show ?case by (auto intro: checkpoint_ok)
next
  case (validating tx now tx2)
  then show ?case by (auto simp: markIntegrationValidating_def integration_ok_def split: if_splits)
next
  case (confirm tx now tx2)
  then show ?case by (auto simp: confirmIntegrationTransaction_def integration_ok_def split: if_splits)
qed

lemma confirmed_final:
  assumes "it_stage tx = In_CONFIRMED"
  shows "\<exists>e. addIntegrationCheckpoint tx i st now = Inl e" "\<exists>e. markIntegrationValidating tx now = Inl e"
    "\<exists>e. confirmIntegrationTransaction tx now = Inl e"
  using assms by (simp_all add: addIntegrationCheckpoint_def markIntegrationValidating_def confirmIntegrationTransaction_def)

text \<open>One checkpoint too many is never undone.\<close>

lemma overfull_stays:
  assumes "integration_ok inp tx" and "length (it_objectiveIds tx) < length (it_checkpoints tx)"
  shows "it_stage tx = In_PREPARED"
    and "addIntegrationCheckpoint tx i st now = Inr tx2 \<Longrightarrow> length (it_objectiveIds tx2) < length (it_checkpoints tx2)"
  using assms by (auto simp: integration_ok_def addIntegrationCheckpoint_def Let_def split: if_splits)

text \<open>Every transaction reached from its beginning names the objectives and repositories it was
  begun with, each of which had a lease, and its checkpoints are numbered from one and belong to its objectives.  It is past
  the stage PREPARED exactly when it has as many checkpoints as objectives; once CONFIRMED it refuses every further operation;
  with more checkpoints than objectives it is PREPARED and can be neither validated nor confirmed.\<close>

theorem integration_counts_checkpoints:
  assumes "integration_reach inp tx"
  shows "it_objectiveIds tx = ii_objectiveIds inp \<and> it_repositoryIds tx = ii_repositoryIds inp \<and>
    (\<forall>k < length (it_checkpoints tx). ck_sequence (it_checkpoints tx ! k) = int k + 1 \<and>
       ck_objectiveId (it_checkpoints tx ! k) \<in> set (ii_objectiveIds inp)) \<and>
    (it_stage tx \<in> {In_CHECKPOINTED, In_VALIDATING, In_CONFIRMED} \<longleftrightarrow>
       length (it_checkpoints tx) = length (ii_objectiveIds inp)) \<and>
    (\<forall>r \<in> set (ii_repositoryIds inp). \<exists>l \<in> set (ii_leases inp). rl_repositoryId l = r) \<and>
    (it_stage tx = In_CONFIRMED \<longrightarrow> addIntegrationCheckpoint tx i st now = Inl Me_INTEGRATION_IN_PROGRESS \<or>
       addIntegrationCheckpoint tx i st now = Inl Me_NOT_FOUND) \<and>
    (length (ii_objectiveIds inp) < length (it_checkpoints tx) \<longrightarrow>
       markIntegrationValidating tx now = Inl Me_INTEGRATION_IN_PROGRESS \<and>
       confirmIntegrationTransaction tx now = Inl Me_INTEGRATION_IN_PROGRESS)"
proof -
  have ok: "integration_ok inp tx" by (rule reach_integration_ok [OF assms])
  have "\<forall>r \<in> set (ii_repositoryIds inp). \<exists>l \<in> set (ii_leases inp). rl_repositoryId l = r"
    using assms
    by (induction rule: integration_reach.induct)
      (auto simp: beginIntegrationTransaction_def list_all_iff list_ex_iff split: if_splits)
  moreover have "it_stage tx = In_CONFIRMED \<longrightarrow> addIntegrationCheckpoint tx i st now = Inl Me_INTEGRATION_IN_PROGRESS \<or>
       addIntegrationCheckpoint tx i st now = Inl Me_NOT_FOUND"
    by (simp add: addIntegrationCheckpoint_def)
  moreover have "length (ii_objectiveIds inp) < length (it_checkpoints tx) \<longrightarrow>
       markIntegrationValidating tx now = Inl Me_INTEGRATION_IN_PROGRESS \<and>
       confirmIntegrationTransaction tx now = Inl Me_INTEGRATION_IN_PROGRESS"
    using overfull_stays(1) [OF ok] ok
    by (auto simp: integration_ok_def markIntegrationValidating_def confirmIntegrationTransaction_def)
  ultimately show ?thesis using ok by (auto simp: integration_ok_def numbered_checkpoints_def)
qed

section \<open>A confirmed transaction without a checkpoint\<close>

definition demo_integration :: integration_input where
  "demo_integration = \<lparr>ii_transactionId = ''t'', ii_objectiveIds = [''a'', ''b''], ii_repositoryIds = [''core''],
     ii_leases = [\<lparr>rl_leaseId = ''l'', rl_repositoryId = ''core'', rl_holder = ''h'', rl_acquiredAtMs = 0, rl_expiresAtMs = 0\<rparr>]\<rparr>"

definition demo_checkpoint :: "int \<Rightarrow> objective_checkpoint" where
  "demo_checkpoint n = \<lparr>ck_objectiveId = ''a'', ck_sequence = n, ck_state = JNull, ck_createdAtMs = 1\<rparr>"

definition demo_tx :: "integration_stage \<Rightarrow> objective_checkpoint list \<Rightarrow> integration_tx" where
  "demo_tx s cps = \<lparr>it_transactionId = ''t'', it_objectiveIds = [''a'', ''b''], it_repositoryIds = [''core''],
     it_stage = s, it_checkpoints = cps, it_createdAtMs = 1, it_updatedAtMs = 1\<rparr>"

text \<open>The stage counts checkpoints without looking at their objectives: two checkpoints of objective a
  confirm a transaction that has none for b.  The lease it needs expired at time 0.\<close>

lemma confirmed_without_checkpoint: "integration_reach demo_integration (demo_tx In_CONFIRMED [demo_checkpoint 1, demo_checkpoint 2])"
proof -
  note defs = demo_tx_def demo_checkpoint_def demo_integration_def
  have "beginIntegrationTransaction demo_integration 1 = Inr (demo_tx In_PREPARED [])"
    by (simp add: beginIntegrationTransaction_def defs)
  then have "integration_reach demo_integration (demo_tx In_PREPARED [])" by (rule integration_reach.start)
  moreover have "addIntegrationCheckpoint (demo_tx In_PREPARED []) ''a'' JNull 1 = Inr (demo_tx In_PREPARED [demo_checkpoint 1])"
    by (simp add: addIntegrationCheckpoint_def defs)
  ultimately have "integration_reach demo_integration (demo_tx In_PREPARED [demo_checkpoint 1])"
    by (rule integration_reach.checkpoint)
  moreover have "addIntegrationCheckpoint (demo_tx In_PREPARED [demo_checkpoint 1]) ''a'' JNull 1 =
      Inr (demo_tx In_CHECKPOINTED [demo_checkpoint 1, demo_checkpoint 2])"
    by (simp add: addIntegrationCheckpoint_def defs)
  ultimately have "integration_reach demo_integration (demo_tx In_CHECKPOINTED [demo_checkpoint 1, demo_checkpoint 2])"
    by (rule integration_reach.checkpoint)
  moreover have "markIntegrationValidating (demo_tx In_CHECKPOINTED cps) 1 = Inr (demo_tx In_VALIDATING cps)" for cps
    by (simp add: markIntegrationValidating_def defs)
  ultimately have "integration_reach demo_integration (demo_tx In_VALIDATING [demo_checkpoint 1, demo_checkpoint 2])"
    using integration_reach.validating by blast
  moreover have "confirmIntegrationTransaction (demo_tx In_VALIDATING cps) 1 = Inr (demo_tx In_CONFIRMED cps)" for cps
    by (simp add: confirmIntegrationTransaction_def defs)
  ultimately show ?thesis using integration_reach.confirm by blast
qed

lemma integration_counts_checkpoints_witness:
  "length (it_checkpoints (demo_tx In_CONFIRMED [demo_checkpoint 1, demo_checkpoint 2])) = 2 \<and>
   ck_objectiveId ` set (it_checkpoints (demo_tx In_CONFIRMED [demo_checkpoint 1, demo_checkpoint 2])) = {''a''}"
  using integration_counts_checkpoints [OF confirmed_without_checkpoint]
  by (simp add: demo_tx_def demo_checkpoint_def demo_integration_def)

end
