(* ===== verification/Mission_Store.thy ===== *)
theory Mission_Store
  imports Mission_Model
begin

text \<open>
  \<open>mission/store.ts\<close>: the repository leases, the event log and the recovery records.  The files
  of the store are lists; writing a file and reading it back yields the same list, and an
  operation runs alone (the source reads and rewrites a whole file, with no lock between
  processes).  Lines of the log that do not parse are already left out.
\<close>

section \<open>Leases\<close>

definition acquireLease :: "repository_lease list \<Rightarrow> repository_lease \<Rightarrow> int \<Rightarrow> bool \<times> repository_lease list" where
  "acquireLease leases l now =
     (case List.find (\<lambda>x. rl_repositoryId x = rl_repositoryId l) leases of
        Some x \<Rightarrow>
          if rl_expiresAtMs x > now \<and> rl_holder x \<noteq> rl_holder l then (False, leases)
          else (True, filter (\<lambda>y. \<not> (rl_repositoryId y = rl_repositoryId l \<and> rl_holder y = rl_holder l)) leases @ [l])
      | None \<Rightarrow>
          (True, filter (\<lambda>y. \<not> (rl_repositoryId y = rl_repositoryId l \<and> rl_holder y = rl_holder l)) leases @ [l]))"

definition releaseLease :: "repository_lease list \<Rightarrow> ident \<Rightarrow> repository_lease list" where
  "releaseLease leases i = filter (\<lambda>l. rl_leaseId l \<noteq> i) leases"

definition isLeaseCurrent :: "repository_lease list \<Rightarrow> repository_lease \<Rightarrow> int \<Rightarrow> bool" where
  "isLeaseCurrent leases l now =
     (case List.find (\<lambda>x. rl_leaseId x = rl_leaseId l) leases of
        None \<Rightarrow> False
      | Some x \<Rightarrow> rl_repositoryId x = rl_repositoryId l \<and> rl_expiresAtMs x > now)"

text \<open>The status is CLEAN or RECONCILED.\<close>

datatype reconciliation_status = Rs_CLEAN | Rs_REQUIRED | Rs_RECONCILED

definition reconcileProcessAfterReboot ::
  "repository_lease list \<Rightarrow> ident \<Rightarrow> bool \<Rightarrow> int \<Rightarrow> repository_lease list \<times> reconciliation_status \<times> string list" where
  "reconcileProcessAfterReboot leases pid alive now =
     (let dead = filter (\<lambda>l. rl_holder l = pid) leases;
          expired = filter (\<lambda>l. rl_expiresAtMs l \<le> now) leases;
          quoted = CHR 0x27 # pid @ [CHR 0x27];
          process_actions =
            (if \<not> alive then
               map (\<lambda>l. ''released stale lease '' @ rl_leaseId l @ '' (repo '' @ rl_repositoryId l @ '')'') dead
                 @ [''process '' @ quoted @ '' marked missing after reboot'']
             else [''process '' @ quoted @ '' still alive; no reconciliation applied'']) in
      (if \<not> alive \<and> dead \<noteq> [] then filter (\<lambda>l. rl_holder l \<noteq> pid) leases else leases,
       if \<not> alive \<and> dead \<noteq> [] \<or> expired \<noteq> [] then Rs_RECONCILED else Rs_CLEAN,
       js_set (process_actions
         @ map (\<lambda>l. ''lease '' @ rl_leaseId l @ '' expired at '' @ int_text (rl_expiresAtMs l)) expired)))"

section \<open>Events and recovery records\<close>

record mission_event =
  me_id :: ident
  me_missionId :: ident
  me_revision :: int
  me_kind :: string
  me_payload :: json
  me_recordedAtMs :: int

definition appendEvent :: "mission_event list \<Rightarrow> mission_event \<Rightarrow> mission_event list" where
  "appendEvent events e = events @ [e]"

definition readEvents :: "mission_event list \<Rightarrow> ident \<Rightarrow> mission_event list" where
  "readEvents events m = filter (\<lambda>e. me_missionId e = m) events"

fun first_by_id :: "ident list \<Rightarrow> mission_event list \<Rightarrow> mission_event list" where
  "first_by_id seen [] = []"
| "first_by_id seen (e # es) =
     (if me_id e \<in> set seen then first_by_id seen es else e # first_by_id (me_id e # seen) es)"

definition replayEvents :: "mission_event list \<Rightarrow> ident \<Rightarrow> mission_event list" where
  "replayEvents events m = first_by_id [] (readEvents events m)"

record recovery_record =
  rr_recoveryId :: ident
  rr_missionId :: ident
  rr_reason :: string
  rr_actions :: "string list"
  rr_createdAtMs :: int

definition recordRecovery :: "recovery_record list \<Rightarrow> recovery_record \<Rightarrow> recovery_record list" where
  "recordRecovery records r = filter (\<lambda>x. rr_recoveryId x \<noteq> rr_recoveryId r) records @ [r]"

definition loadRecovery :: "recovery_record list \<Rightarrow> ident \<Rightarrow> recovery_record list" where
  "loadRecovery records m = filter (\<lambda>r. rr_missionId r = m) records"

section \<open>Replay of events\<close>

lemma first_by_id_append:
  "me_id e \<in> set seen \<union> me_id ` set es \<Longrightarrow> first_by_id seen (es @ [e]) = first_by_id seen es"
  "me_id e \<notin> set seen \<union> me_id ` set es \<Longrightarrow> first_by_id seen (es @ [e]) = first_by_id seen es @ [e]"
  by (induction es arbitrary: seen) auto

text \<open>An event appended again, under the same identifier, does not change the replay.\<close>

lemma replay_idempotent:
  assumes "x \<in> set events" and "me_missionId x = me_missionId e" and "me_id x = me_id e"
  shows "replayEvents (appendEvent events e) m = replayEvents events m"
proof (cases "me_missionId e = m")
  case True
  then have "me_id e \<in> me_id ` set (readEvents events m)" using assms by (auto simp: readEvents_def image_iff)
  then show ?thesis
    using True first_by_id_append(1) [of e "[]" "readEvents events m"] by (simp add: replayEvents_def appendEvent_def readEvents_def)
qed (simp add: replayEvents_def appendEvent_def readEvents_def)

section \<open>Exclusive leases\<close>

definition repo_leases :: "repository_lease list \<Rightarrow> string \<Rightarrow> repository_lease list" where
  "repo_leases leases r = filter (\<lambda>l. rl_repositoryId l = r) leases"

lemma find_repo: "List.find (\<lambda>x. rl_repositoryId x = r) leases = (case repo_leases leases r of [] \<Rightarrow> None | x # xs \<Rightarrow> Some x)"
  by (induction leases) (auto simp: repo_leases_def)

lemma acquire_repo_leases:
  assumes "fst (acquireLease leases l now)"
  shows "repo_leases (snd (acquireLease leases l now)) (rl_repositoryId l) =
    filter (\<lambda>y. rl_holder y \<noteq> rl_holder l) (repo_leases leases (rl_repositoryId l)) @ [l]"
proof -
  have "snd (acquireLease leases l now) =
      filter (\<lambda>y. \<not> (rl_repositoryId y = rl_repositoryId l \<and> rl_holder y = rl_holder l)) leases @ [l]"
    using assms by (auto simp: acquireLease_def split: option.splits if_splits)
  moreover have "filter (\<lambda>x. rl_repositoryId x = rl_repositoryId l)
      (filter (\<lambda>y. \<not> (rl_repositoryId y = rl_repositoryId l \<and> rl_holder y = rl_holder l)) leases) =
      filter (\<lambda>y. rl_holder y \<noteq> rl_holder l) (filter (\<lambda>x. rl_repositoryId x = rl_repositoryId l) leases)"
    unfolding filter_filter by (rule filter_cong) auto
  ultimately show ?thesis by (simp add: repo_leases_def)
qed

text \<open>Holder after holder: the first lease has expired when the second is acquired, the third
  finds the first one again.\<close>

lemma third_holder:
  assumes empty: "repo_leases leases r = []"
    and repo: "rl_repositoryId l1 = r" "rl_repositoryId l2 = r" "rl_repositoryId l3 = r"
    and holders: "rl_holder l1 \<noteq> rl_holder l2" "rl_holder l1 \<noteq> rl_holder l3" "rl_holder l2 \<noteq> rl_holder l3"
    and times: "rl_expiresAtMs l1 \<le> t2" "t2 \<le> t3"
    and s: "s1 = snd (acquireLease leases l1 t1)" "s2 = snd (acquireLease s1 l2 t2)" "s3 = snd (acquireLease s2 l3 t3)"
  shows "fst (acquireLease s1 l2 t2)" and "fst (acquireLease s2 l3 t3)" and "repo_leases s3 r = [l1, l2, l3]"
proof -
  have ok1: "fst (acquireLease leases l1 t1)" by (simp add: acquireLease_def find_repo repo empty)
  have r1: "repo_leases s1 r = [l1]" using acquire_repo_leases [OF ok1] by (simp add: s(1) repo(1) empty)
  then show ok2: "fst (acquireLease s1 l2 t2)" using times(1) by (simp add: acquireLease_def find_repo repo(2))
  have r2: "repo_leases s2 r = [l1, l2]" using acquire_repo_leases [OF ok2] r1 holders by (simp add: s(2) repo(2))
  then show ok3: "fst (acquireLease s2 l3 t3)" using times by (simp add: acquireLease_def find_repo repo(3))
  show "repo_leases s3 r = [l1, l2, l3]" using acquire_repo_leases [OF ok3] r2 holders by (simp add: s(3) repo(3))
qed

text \<open>A lease is refused exactly when the first stored lease of its repository has not expired and belongs
  to another holder; the later leases are not looked at.  So once the lease of a first holder has expired and a second holder has
  acquired the repository, any third holder acquires it as well, although the lease of the second has not expired: the store then
  holds two unexpired leases of one repository by different holders.\<close>

theorem lease_exclusion_lost:
  assumes "repo_leases leases r = []" and "rl_repositoryId l1 = r" "rl_repositoryId l2 = r" "rl_repositoryId l3 = r"
    and "rl_holder l1 \<noteq> rl_holder l2" "rl_holder l1 \<noteq> rl_holder l3" "rl_holder l2 \<noteq> rl_holder l3"
    and "rl_expiresAtMs l1 \<le> t2" "t2 \<le> t3" "t3 < rl_expiresAtMs l2" "t3 < rl_expiresAtMs l3"
    and "s1 = snd (acquireLease leases l1 t1)" "s2 = snd (acquireLease s1 l2 t2)"
  shows "(\<forall>st l now. fst (acquireLease st l now) = False \<longleftrightarrow>
      (\<exists>x xs. repo_leases st (rl_repositoryId l) = x # xs \<and> now < rl_expiresAtMs x \<and> rl_holder x \<noteq> rl_holder l)) \<and>
    fst (acquireLease s2 l3 t3) \<and> {l2, l3} \<subseteq> {l \<in> set (snd (acquireLease s2 l3 t3)). rl_repositoryId l = r \<and> t3 < rl_expiresAtMs l}"
proof -
  note third = third_holder [OF assms(1-9) assms(12,13) refl]
  have "{l2, l3} \<subseteq> set (repo_leases (snd (acquireLease s2 l3 t3)) r)" using third(3) by simp
  then have "{l2, l3} \<subseteq> {l \<in> set (snd (acquireLease s2 l3 t3)). rl_repositoryId l = r \<and> t3 < rl_expiresAtMs l}"
    using assms(10,11) by (auto simp: repo_leases_def)
  moreover have "fst (acquireLease st l now) = False \<longleftrightarrow>
      (\<exists>x xs. repo_leases st (rl_repositoryId l) = x # xs \<and> now < rl_expiresAtMs x \<and> rl_holder x \<noteq> rl_holder l)" for st l now
    by (auto simp: acquireLease_def find_repo split: list.splits)
  ultimately show ?thesis using third(2) by blast
qed

definition demo_lease :: "ident \<Rightarrow> string \<Rightarrow> int \<Rightarrow> repository_lease" where
  "demo_lease i h t = \<lparr>rl_leaseId = i, rl_repositoryId = ''core'', rl_holder = h, rl_acquiredAtMs = 0, rl_expiresAtMs = t\<rparr>"

lemma lease_exclusion_lost_witness:
  "fst (acquireLease (snd (acquireLease (snd (acquireLease [] (demo_lease ''1'' ''a'' 10) 0)) (demo_lease ''2'' ''b'' 90) 20))
     (demo_lease ''3'' ''c'' 90) 30)"
  using lease_exclusion_lost [of "[]" "''core''" "demo_lease ''1'' ''a'' 10" "demo_lease ''2'' ''b'' 90"
      "demo_lease ''3'' ''c'' 90" 20 30 "snd (acquireLease [] (demo_lease ''1'' ''a'' 10) 0)" 0, OF _ _ _ _ _ _ _ _ _ _ _ refl refl]
  by (simp add: repo_leases_def) (simp add: demo_lease_def)

end
