(* ===== verification/Tool_Scheduler.thy ===== *)
theory Tool_Scheduler
  imports Json_Values
begin

text \<open>
  The scheduler for batches of tool calls (\<open>packages/agent/src/scheduler.ts\<close>): which calls are
  barriers, which calls conflict, the partition of a batch into waves, and the pool of workers
  that runs a wave under the concurrency limits.  The callback \<open>run\<close> of a call is outside the
  model: a step of the pool takes whatever it returns or throws.  The arguments of a call, which
  the scheduler never reads, and the two time stamps of a result are left out.
\<close>

section \<open>Calls\<close>

datatype effect_scope =
    Sc_workspace "string list option" | Sc_git | Sc_process | Sc_network "string list option"
  | Sc_external "string option" | Sc_unknown

record tool_effects =
  te_readsWorkspace :: bool
  te_writesWorkspace :: bool
  te_createsFiles :: bool
  te_deletesFiles :: bool
  te_executesProcesses :: bool
  te_startsPersistentProcesses :: bool
  te_accessesNetwork :: bool
  te_mutatesGit :: bool
  te_mutatesExternalState :: bool
  te_handlesSecrets :: bool
  te_potentiallyDestructive :: bool
  te_requiresExclusiveWorkspaceLease :: bool
  te_parallelSafe :: bool
  te_scopes :: "effect_scope list option"

definition READ_ONLY_TOOL_EFFECTS :: tool_effects where
  "READ_ONLY_TOOL_EFFECTS =
     \<lparr>te_readsWorkspace = True, te_writesWorkspace = False, te_createsFiles = False, te_deletesFiles = False,
      te_executesProcesses = False, te_startsPersistentProcesses = False, te_accessesNetwork = False,
      te_mutatesGit = False, te_mutatesExternalState = False, te_handlesSecrets = False,
      te_potentiallyDestructive = False, te_requiresExclusiveWorkspaceLease = False, te_parallelSafe = True,
      te_scopes = None\<rparr>"

record tool_call =
  tc_index :: int
  tc_id :: ident
  tc_tool :: string
  tc_effects :: "tool_effects option"
  tc_safe :: "bool option"
  tc_consumes :: "ident list option"
  tc_resource :: "string option"
  tc_host :: "string option"
  tc_server :: "string option"

record tool_limits =
  tl_globalMax :: int
  tl_perTool :: int
  tl_perHost :: int
  tl_perServer :: int

definition DEFAULT_LIMITS :: tool_limits where
  "DEFAULT_LIMITS = \<lparr>tl_globalMax = 8, tl_perTool = 4, tl_perHost = 3, tl_perServer = 2\<rparr>"

section \<open>Waves\<close>

definition effects_need_barrier :: "tool_effects \<Rightarrow> bool" where
  "effects_need_barrier e \<longleftrightarrow>
     te_writesWorkspace e \<or> te_createsFiles e \<or> te_deletesFiles e \<or> te_mutatesGit e \<or> te_mutatesExternalState e \<or>
     te_executesProcesses e \<or> te_startsPersistentProcesses e \<or> te_requiresExclusiveWorkspaceLease e \<or>
     te_potentiallyDestructive e \<or>
     (case te_scopes e of None \<Rightarrow> False | Some ss \<Rightarrow> Sc_unknown \<in> set ss) \<or> \<not> te_parallelSafe e"

definition isSerialBarrier :: "tool_call \<Rightarrow> bool" where
  "isSerialBarrier c \<longleftrightarrow>
     (case tc_effects c of None \<Rightarrow> False | Some e \<Rightarrow> effects_need_barrier e) \<or>
     \<not> (case tc_safe c of
          Some b \<Rightarrow> b
        | None \<Rightarrow> (case tc_effects c of None \<Rightarrow> False | Some e \<Rightarrow> te_parallelSafe e))"

definition needsServerSerialization :: "tool_call \<Rightarrow> bool" where
  "needsServerSerialization c \<longleftrightarrow> tc_safe c \<noteq> Some True"

definition callsConflict :: "tool_call \<Rightarrow> tool_call \<Rightarrow> bool" where
  "callsConflict a b \<longleftrightarrow>
     \<not> js_falsy (tc_resource a) \<and> \<not> js_falsy (tc_resource b) \<and> tc_resource a = tc_resource b \<or>
     \<not> js_falsy (tc_server a) \<and> \<not> js_falsy (tc_server b) \<and> tc_server a = tc_server b \<and>
       needsServerSerialization a \<and> needsServerSerialization b"

record wave_state =
  ws_waves :: "tool_call list list"
  ws_current :: "tool_call list"
  ws_emitted :: "ident \<rightharpoonup> nat"
  ws_index :: nat

definition dependsOnPast :: "wave_state \<Rightarrow> tool_call \<Rightarrow> bool" where
  "dependsOnPast s c \<longleftrightarrow>
     (case tc_consumes c of
        None \<Rightarrow> False
      | Some ids \<Rightarrow> list_ex (\<lambda>i. case ws_emitted s i of None \<Rightarrow> False | Some w \<Rightarrow> w < ws_index s) ids)"

text \<open>The open wave is closed before a call that may not join it.\<close>

definition close_wave :: "wave_state \<Rightarrow> tool_call \<Rightarrow> wave_state" where
  "close_wave s c =
     (if ws_current s \<noteq> [] \<and> (isSerialBarrier c \<or> dependsOnPast s c \<or> list_ex (callsConflict c) (ws_current s))
      then s\<lparr>ws_waves := ws_waves s @ [ws_current s], ws_current := [], ws_index := ws_index s + 1\<rparr>
      else s)"

definition emit_call :: "wave_state \<Rightarrow> tool_call \<Rightarrow> wave_state" where
  "emit_call s c =
     (if isSerialBarrier c then s\<lparr>ws_waves := ws_waves s @ [ [c] ], ws_index := ws_index s + 1\<rparr>
      else s\<lparr>ws_current := ws_current s @ [c]\<rparr>)"

definition wave_step :: "tool_call \<Rightarrow> wave_state \<Rightarrow> wave_state" where
  "wave_step c s =
     (let t = emit_call (close_wave s c) c in t\<lparr>ws_emitted := (ws_emitted t)(tc_id c \<mapsto> ws_index t)\<rparr>)"

definition partitionWaves :: "tool_call list \<Rightarrow> tool_call list list" where
  "partitionWaves calls =
     (let s = fold wave_step calls \<lparr>ws_waves = [], ws_current = [], ws_emitted = Map.empty, ws_index = 0\<rparr> in
      filter (\<lambda>w. w \<noteq> []) (if ws_current s = [] then ws_waves s else ws_waves s @ [ws_current s]))"

section \<open>Slots\<close>

definition counted :: "(string \<rightharpoonup> int) \<Rightarrow> string \<Rightarrow> int" where
  "counted m k = (case m k of None \<Rightarrow> 0 | Some n \<Rightarrow> n)"

definition inc_key :: "(string \<rightharpoonup> int) \<Rightarrow> string \<Rightarrow> (string \<rightharpoonup> int)" where
  "inc_key m k = m(k \<mapsto> counted m k + 1)"

definition dec_key :: "(string \<rightharpoonup> int) \<Rightarrow> string \<Rightarrow> (string \<rightharpoonup> int)" where
  "dec_key m k =
     (let n = (case m k of None \<Rightarrow> 1 | Some n \<Rightarrow> n) - 1 in if n \<le> 0 then m(k := None) else m(k \<mapsto> n))"

record slots =
  sl_tool :: "string \<rightharpoonup> int"
  sl_host :: "string \<rightharpoonup> int"
  sl_server :: "string \<rightharpoonup> int"

text \<open>An absent or empty host or server identifier takes no slot.\<close>

definition if_named :: "string option \<Rightarrow> (string \<Rightarrow> 'a) \<Rightarrow> 'a \<Rightarrow> 'a" where
  "if_named k f d = (if js_falsy k then d else f (the k))"

definition slot_free :: "tool_limits \<Rightarrow> slots \<Rightarrow> tool_call \<Rightarrow> bool" where
  "slot_free lim s c \<longleftrightarrow> counted (sl_tool s) (tc_tool c) < tl_perTool lim \<and>
     if_named (tc_host c) (\<lambda>h. counted (sl_host s) h < tl_perHost lim) True \<and>
     if_named (tc_server c) (\<lambda>v. counted (sl_server s) v < tl_perServer lim) True"

definition incSlot :: "tool_call \<Rightarrow> slots \<Rightarrow> slots" where
  "incSlot c s =
     \<lparr>sl_tool = inc_key (sl_tool s) (tc_tool c),
      sl_host = if_named (tc_host c) (inc_key (sl_host s)) (sl_host s),
      sl_server = if_named (tc_server c) (inc_key (sl_server s)) (sl_server s)\<rparr>"

definition decSlot :: "tool_call \<Rightarrow> slots \<Rightarrow> slots" where
  "decSlot c s =
     \<lparr>sl_tool = dec_key (sl_tool s) (tc_tool c),
      sl_host = if_named (tc_host c) (dec_key (sl_host s)) (sl_host s),
      sl_server = if_named (tc_server c) (dec_key (sl_server s)) (sl_server s)\<rparr>"

section \<open>The pool that runs a wave\<close>

text \<open>What \<open>call.run\<close> does: it returns a result with its error flag, or it throws.\<close>

datatype 'r run_outcome = Returned 'r bool | Threw string

datatype 'r tool_value = Value 'r | Message string

record 'r tool_result =
  tr_index :: int
  tr_callId :: ident
  tr_group :: string
  tr_cancelled :: bool
  tr_result :: "'r tool_value"
  tr_isError :: bool

text \<open>A worker takes the next call of the wave, waits for a slot, runs the call and records its
  result.  Between the slot and the run it yields, so the signal may be aborted in between.\<close>

datatype worker = Idle | Waiting nat | Granted nat | Running nat | Stopped

record 'r pool =
  pl_workers :: "worker list"
  pl_next :: nat
  pl_slots :: slots
  pl_aborted :: bool
  pl_results :: "'r tool_result list"

definition slotLimit :: "tool_limits \<Rightarrow> tool_call list \<Rightarrow> nat" where
  "slotLimit lim wave = nat (max 1 (min (tl_globalMax lim) (int (length wave))))"

definition pool_start :: "tool_limits \<Rightarrow> tool_call list \<Rightarrow> bool \<Rightarrow> 'r pool" where
  "pool_start lim wave aborted =
     \<lparr>pl_workers = replicate (slotLimit lim wave) Idle, pl_next = 0,
      pl_slots = \<lparr>sl_tool = Map.empty, sl_host = Map.empty, sl_server = Map.empty\<rparr>,
      pl_aborted = aborted, pl_results = []\<rparr>"

definition cancelled_result :: "string \<Rightarrow> tool_call \<Rightarrow> 'r tool_result" where
  "cancelled_result g c =
     \<lparr>tr_index = tc_index c, tr_callId = tc_id c, tr_group = g, tr_cancelled = True,
      tr_result = Message ''cancelled'', tr_isError = True\<rparr>"

definition run_result :: "string \<Rightarrow> tool_call \<Rightarrow> bool \<Rightarrow> 'r run_outcome \<Rightarrow> 'r tool_result" where
  "run_result g c aborted r =
     (case r of
        Returned v err \<Rightarrow> \<lparr>tr_index = tc_index c, tr_callId = tc_id c, tr_group = g, tr_cancelled = False,
          tr_result = Value v, tr_isError = err\<rparr>
      | Threw msg \<Rightarrow> \<lparr>tr_index = tc_index c, tr_callId = tc_id c, tr_group = g, tr_cancelled = aborted,
          tr_result = Message msg, tr_isError = True\<rparr>)"

definition set_worker :: "nat \<Rightarrow> worker \<Rightarrow> 'r pool \<Rightarrow> 'r pool" where
  "set_worker w k p = p\<lparr>pl_workers := (pl_workers p)[w := k]\<rparr>"

definition record_result :: "nat \<Rightarrow> tool_call \<Rightarrow> 'r tool_result \<Rightarrow> 'r pool \<Rightarrow> 'r pool" where
  "record_result w c r p =
     (set_worker w Idle p)\<lparr>pl_slots := decSlot c (pl_slots p), pl_results := pl_results p @ [r]\<rparr>"

definition at_worker :: "'r pool \<Rightarrow> nat \<Rightarrow> worker \<Rightarrow> bool" where
  "at_worker p w k \<longleftrightarrow> w < length (pl_workers p) \<and> pl_workers p ! w = k"

inductive pool_step :: "tool_limits \<Rightarrow> tool_call list \<Rightarrow> string \<Rightarrow> 'r pool \<Rightarrow> 'r pool \<Rightarrow> bool"
  for lim :: tool_limits and wave :: "tool_call list" and g :: string where
  claim: "at_worker p w Idle \<Longrightarrow> pl_next p < length wave \<Longrightarrow>
    pool_step lim wave g p ((set_worker w (Waiting (pl_next p)) p)\<lparr>pl_next := pl_next p + 1\<rparr>)"
| stop: "at_worker p w Idle \<Longrightarrow> length wave \<le> pl_next p \<Longrightarrow>
    pool_step lim wave g p ((set_worker w Stopped p)\<lparr>pl_next := pl_next p + 1\<rparr>)"
| grant: "at_worker p w (Waiting i) \<Longrightarrow> \<not> pl_aborted p \<Longrightarrow> slot_free lim (pl_slots p) (wave ! i) \<Longrightarrow>
    pool_step lim wave g p ((set_worker w (Granted i) p)\<lparr>pl_slots := incSlot (wave ! i) (pl_slots p)\<rparr>)"
| pass: "at_worker p w (Waiting i) \<Longrightarrow> pl_aborted p \<Longrightarrow> pool_step lim wave g p (set_worker w (Granted i) p)"
| run: "at_worker p w (Granted i) \<Longrightarrow> \<not> pl_aborted p \<Longrightarrow> pool_step lim wave g p (set_worker w (Running i) p)"
| cancel: "at_worker p w (Granted i) \<Longrightarrow> pl_aborted p \<Longrightarrow>
    pool_step lim wave g p (record_result w (wave ! i) (cancelled_result g (wave ! i)) p)"
| finish: "at_worker p w (Running i) \<Longrightarrow>
    pool_step lim wave g p (record_result w (wave ! i) (run_result g (wave ! i) (pl_aborted p) r) p)"
| abort: "\<not> pl_aborted p \<Longrightarrow> pool_step lim wave g p (p\<lparr>pl_aborted := True\<rparr>)"

definition pool_done :: "'r pool \<Rightarrow> bool" where
  "pool_done p \<longleftrightarrow> (\<forall>k \<in> set (pl_workers p). k = Stopped)"

section \<open>Running a batch\<close>

text \<open>One wave after the other, each from any state of the abort signal the previous one left;
  the results of a wave are sorted by index and appended.\<close>

inductive run_waves :: "tool_limits \<Rightarrow> nat \<Rightarrow> tool_call list list \<Rightarrow> bool \<Rightarrow> 'r tool_result list \<Rightarrow> bool"
  for lim :: tool_limits where
  none: "run_waves lim n [] ab []"
| wave: "(pool_step lim w (''g-'' @ nat_text (n + 1)))\<^sup>*\<^sup>* (pool_start lim w ab) p \<Longrightarrow> pool_done p \<Longrightarrow>
    (pl_aborted p \<longrightarrow> ab2) \<Longrightarrow> run_waves lim (n + 1) ws ab2 rs \<Longrightarrow>
    run_waves lim n (w # ws) ab (sort_key tr_index (pl_results p) @ rs)"

definition ordered_calls :: "tool_call list \<Rightarrow> tool_call list" where
  "ordered_calls calls = sort_key tc_index calls"

text \<open>\<open>run_batch lim n calls aborted rs\<close>: the scheduler, having used \<open>n\<close> groups before, may
  return \<open>rs\<close> for the batch.\<close>

definition run_batch :: "tool_limits \<Rightarrow> nat \<Rightarrow> tool_call list \<Rightarrow> bool \<Rightarrow> 'r tool_result list \<Rightarrow> bool" where
  "run_batch lim n calls aborted out \<longleftrightarrow>
     (\<exists>rs. run_waves lim n (partitionWaves (ordered_calls calls)) aborted rs \<and> out = sort_key tr_index rs)"

text \<open>
  The partition of a batch of tool calls into waves: what it guarantees, and what it does with
  the dependencies between calls.
\<close>

lemma callsConflict_sym: "callsConflict a b = callsConflict b a"
  by (auto simp: callsConflict_def)

definition compatible :: "tool_call list \<Rightarrow> bool" where
  "compatible w \<longleftrightarrow> (\<forall>c \<in> set w. \<not> isSerialBarrier c) \<and> sorted_wrt (\<lambda>a b. \<not> callsConflict b a) w"

definition wave_ok :: "tool_call list \<Rightarrow> bool" where
  "wave_ok w \<longleftrightarrow> (\<exists>c. w = [c] \<and> isSerialBarrier c) \<or> w \<noteq> [] \<and> compatible w"

definition waves_inv :: "tool_call list \<Rightarrow> wave_state \<Rightarrow> bool" where
  "waves_inv xs s \<longleftrightarrow> concat (ws_waves s) @ ws_current s = xs \<and> list_all wave_ok (ws_waves s) \<and> compatible (ws_current s)"

lemma close_wave_inv:
  assumes "waves_inv xs s"
  shows "waves_inv xs (close_wave s c)"
    and "ws_current (close_wave s c) = [] \<or> \<not> isSerialBarrier c \<and> list_all (\<lambda>d. \<not> callsConflict c d) (ws_current (close_wave s c))"
  using assms by (auto simp: waves_inv_def close_wave_def wave_ok_def compatible_def list_ex_iff list_all_iff)

lemma emit_call_inv:
  assumes "waves_inv xs s"
    and "ws_current s = [] \<or> \<not> isSerialBarrier c \<and> list_all (\<lambda>d. \<not> callsConflict c d) (ws_current s)"
  shows "waves_inv (xs @ [c]) (emit_call s c)"
  using assms by (auto simp: waves_inv_def emit_call_def wave_ok_def compatible_def sorted_wrt_append list_all_iff)

lemma wave_step_inv: "waves_inv xs s \<Longrightarrow> waves_inv (xs @ [c]) (wave_step c s)"
  using emit_call_inv [OF close_wave_inv(1) close_wave_inv(2)] by (simp add: wave_step_def Let_def waves_inv_def)

lemma fold_waves_inv: "waves_inv xs s \<Longrightarrow> waves_inv (xs @ ys) (fold wave_step ys s)"
proof (induction ys arbitrary: xs s)
  case (Cons a ys)
  from Cons.IH [OF wave_step_inv [OF Cons.prems]] show ?case by simp
qed simp

lemma concat_nonempty: "concat (filter (\<lambda>w. w \<noteq> []) ws) = concat ws"
  by (induction ws) auto

lemma partitionWaves_inv: "concat (partitionWaves calls) = calls \<and> list_all wave_ok (partitionWaves calls)"
proof -
  let ?s = "fold wave_step calls \<lparr>ws_waves = [], ws_current = [], ws_emitted = Map.empty, ws_index = 0\<rparr>"
  have "waves_inv [] \<lparr>ws_waves = [], ws_current = [], ws_emitted = Map.empty, ws_index = 0\<rparr>"
    by (simp add: waves_inv_def compatible_def)
  from fold_waves_inv [OF this, of calls]
  have "concat (ws_waves ?s) @ ws_current ?s = calls" "list_all wave_ok (ws_waves ?s)" "compatible (ws_current ?s)"
    by (simp_all add: waves_inv_def)
  then show ?thesis
    by (auto simp: partitionWaves_def Let_def concat_nonempty list_all_iff wave_ok_def)
qed

lemma compatible_nth:
  assumes "compatible w" and "i < length w" and "j < length w" and "i \<noteq> j"
  shows "\<not> callsConflict (w ! i) (w ! j)"
proof (cases "i < j")
  case True
  then show ?thesis
    using assms by (auto simp: compatible_def sorted_wrt_iff_nth_less callsConflict_sym [of "w ! i"])
next
  case False
  then show ?thesis using assms by (auto simp: compatible_def sorted_wrt_iff_nth_less)
qed

text \<open>The waves of a batch are the batch itself, cut into non-empty pieces in the original order.  A call
  that must run alone - it declares an effect on files, processes, git or external state, an unknown scope, or
  no concurrency safety - is a wave of its own, and two calls of one wave never share a resource nor a language server that
  serializes their requests.\<close>

theorem tool_waves_sound:
  "concat (partitionWaves calls) = calls \<and>
   (\<forall>w \<in> set (partitionWaves calls). w \<noteq> [] \<and> (\<forall>c \<in> set w. isSerialBarrier c \<longrightarrow> w = [c]) \<and>
      (\<forall>i j. i < length w \<longrightarrow> j < length w \<longrightarrow> i \<noteq> j \<longrightarrow> \<not> callsConflict (w ! i) (w ! j)))"
proof (intro conjI ballI allI impI)
  show "concat (partitionWaves calls) = calls" using partitionWaves_inv [of calls] by simp
  fix w assume "w \<in> set (partitionWaves calls)"
  then have ok: "wave_ok w" using partitionWaves_inv [of calls] by (auto simp: list_all_iff)
  show "w \<noteq> []" using ok by (auto simp: wave_ok_def)
  show "w = [c]" if "c \<in> set w" "isSerialBarrier c" for c
    using ok that by (auto simp: wave_ok_def compatible_def)
  show "\<not> callsConflict (w ! i) (w ! j)" if "i < length w" "j < length w" "i \<noteq> j" for i j
    using ok compatible_nth [of w i j] that by (auto simp: wave_ok_def)
qed

text \<open>Two reads, a write and two reads that share a resource.\<close>

definition demo_call :: "int \<Rightarrow> string \<Rightarrow> bool \<Rightarrow> string option \<Rightarrow> tool_call" where
  "demo_call n tool safe res =
     \<lparr>tc_index = n, tc_id = nat_text (nat n), tc_tool = tool, tc_effects = None, tc_safe = Some safe, tc_consumes = None,
      tc_resource = res, tc_host = None, tc_server = None\<rparr>"

definition demo_calls :: "tool_call list" where
  "demo_calls = [demo_call 0 ''read'' True None, demo_call 1 ''read'' True None, demo_call 2 ''write'' False None,
     demo_call 3 ''read'' True (Some ''db''), demo_call 4 ''read'' True (Some ''db'')]"

lemma demo_partition:
  "partitionWaves demo_calls =
     [ [demo_call 0 ''read'' True None, demo_call 1 ''read'' True None], [demo_call 2 ''write'' False None],
      [demo_call 3 ''read'' True (Some ''db'')], [demo_call 4 ''read'' True (Some ''db'')]]"
  by (simp add: demo_calls_def demo_call_def partitionWaves_def wave_step_def close_wave_def emit_call_def
      dependsOnPast_def isSerialBarrier_def callsConflict_def js_falsy_def Let_def)

lemma tool_waves_sound_witness:
  "length (partitionWaves demo_calls) = 4 \<and> concat (partitionWaves demo_calls) = demo_calls \<and>
   \<not> callsConflict (demo_call 0 ''read'' True None) (demo_call 1 ''read'' True None)"
proof -
  let ?w = "[demo_call 0 ''read'' True None, demo_call 1 ''read'' True None]"
  have "?w \<in> set (partitionWaves demo_calls)" by (simp add: demo_partition)
  with tool_waves_sound [of demo_calls]
  have "\<forall>i j. i < length ?w \<longrightarrow> j < length ?w \<longrightarrow> i \<noteq> j \<longrightarrow> \<not> callsConflict (?w ! i) (?w ! j)"
    "concat (partitionWaves demo_calls) = demo_calls" by blast+
  from spec [OF spec [OF this(1), of 0], of 1] this(2) show ?thesis by (simp add: demo_partition)
qed

section \<open>Dependencies between calls\<close>

text \<open>A call that consumes the result of another one joins the wave of its producer, although
  \<open>consumes\<close> is meant to order the two.\<close>

lemma consumer_shares_wave:
  assumes "\<not> isSerialBarrier a" and "\<not> isSerialBarrier b" and "\<not> callsConflict b a"
    and "tc_consumes b = Some [tc_id a]"
  shows "partitionWaves [a, b] = [ [a, b] ]"
  using assms
  by (simp add: partitionWaves_def wave_step_def close_wave_def emit_call_def dependsOnPast_def Let_def)

end
