(* ===== verification/Tool_Pool.thy ===== *)
theory Tool_Pool
  imports Tool_Scheduler "HOL-Library.Multiset"
begin

text \<open>
  The pool of workers: it never runs more calls at once than the limits allow, it ends after a
  bounded number of steps whatever the interleaving and whenever the signal is aborted, and a
  batch returns one result per call in the order of the calls.
\<close>

section \<open>Workers\<close>

fun holds :: "tool_call list \<Rightarrow> (tool_call \<Rightarrow> bool) \<Rightarrow> worker \<Rightarrow> nat" where
  "holds wave Q (Granted i) = (if Q (wave ! i) then 1 else 0)"
| "holds wave Q (Running i) = (if Q (wave ! i) then 1 else 0)"
| "holds wave Q k = 0"

fun runs :: "tool_call list \<Rightarrow> (tool_call \<Rightarrow> bool) \<Rightarrow> worker \<Rightarrow> nat" where
  "runs wave Q (Running i) = (if Q (wave ! i) then 1 else 0)"
| "runs wave Q k = 0"

definition held :: "tool_call list \<Rightarrow> (tool_call \<Rightarrow> bool) \<Rightarrow> 'r pool \<Rightarrow> int" where
  "held wave Q p = int (sum_list (map (holds wave Q) (pl_workers p)))"

text \<open>The number of calls with property \<open>Q\<close> that are running.\<close>

definition running :: "tool_call list \<Rightarrow> (tool_call \<Rightarrow> bool) \<Rightarrow> 'r pool \<Rightarrow> int" where
  "running wave Q p = int (sum_list (map (runs wave Q) (pl_workers p)))"

lemma runs_le_holds: "runs wave Q k \<le> holds wave Q k"
  by (cases k) auto

lemma running_le_held: "running wave Q p \<le> held wave Q p"
  by (auto simp: running_def held_def intro: sum_list_mono runs_le_holds)

lemma running_nonneg: "0 \<le> running wave Q p"
  by (simp add: running_def)

lemma runs_le_one: "runs wave Q k \<le> 1"
  by (cases k) auto

lemma at_worker_split:
  assumes "at_worker p w k"
  obtains xs ys where "pl_workers p = xs @ k # ys" and "w = length xs"
  using assms id_take_nth_drop [of w "pl_workers p"] that [of "take w (pl_workers p)" "drop (Suc w) (pl_workers p)"]
  by (auto simp: at_worker_def)

lemma held_set_worker:
  assumes "at_worker p w k"
  shows "held wave Q (set_worker w k2 p) = held wave Q p - int (holds wave Q k) + int (holds wave Q k2)"
    and "running wave Q (set_worker w k2 p) = running wave Q p - int (runs wave Q k) + int (runs wave Q k2)"
proof -
  obtain xs ys where "pl_workers p = xs @ k # ys" and "w = length xs" using assms by (rule at_worker_split)
  then show "held wave Q (set_worker w k2 p) = held wave Q p - int (holds wave Q k) + int (holds wave Q k2)"
    and "running wave Q (set_worker w k2 p) = running wave Q p - int (runs wave Q k) + int (runs wave Q k2)"
    by (simp_all add: held_def running_def set_worker_def)
qed

lemma held_update [simp]:
  "held wave Q (p\<lparr>pl_next := n\<rparr>) = held wave Q p" "running wave Q (p\<lparr>pl_next := n\<rparr>) = running wave Q p"
  "held wave Q (p\<lparr>pl_slots := s\<rparr>) = held wave Q p" "running wave Q (p\<lparr>pl_slots := s\<rparr>) = running wave Q p"
  "held wave Q (p\<lparr>pl_aborted := b\<rparr>) = held wave Q p" "running wave Q (p\<lparr>pl_aborted := b\<rparr>) = running wave Q p"
  "held wave Q (p\<lparr>pl_results := rs\<rparr>) = held wave Q p" "running wave Q (p\<lparr>pl_results := rs\<rparr>) = running wave Q p"
  by (simp_all add: held_def running_def)

lemma set_worker_fields [simp]:
  "pl_slots (set_worker w k p) = pl_slots p" "pl_aborted (set_worker w k p) = pl_aborted p"
  "pl_next (set_worker w k p) = pl_next p" "pl_results (set_worker w k p) = pl_results p"
  by (simp_all add: set_worker_def)

section \<open>Slots are counted correctly\<close>

definition on_tool :: "string \<Rightarrow> tool_call \<Rightarrow> bool" where
  "on_tool t c \<longleftrightarrow> tc_tool c = t"

definition on_host :: "string \<Rightarrow> tool_call \<Rightarrow> bool" where
  "on_host h c \<longleftrightarrow> h \<noteq> [] \<and> tc_host c = Some h"

definition on_server :: "string \<Rightarrow> tool_call \<Rightarrow> bool" where
  "on_server v c \<longleftrightarrow> v \<noteq> [] \<and> tc_server c = Some v"

lemma counted_inc: "counted (inc_key m k) x = counted m x + (if x = k then 1 else 0)"
  by (simp add: counted_def inc_key_def)

lemma counted_dec: "1 \<le> counted m k \<Longrightarrow> counted (dec_key m k) x = counted m x - (if x = k then 1 else 0)"
  by (auto simp: counted_def dec_key_def Let_def split: option.splits)

definition slots_exact :: "tool_call list \<Rightarrow> 'r pool \<Rightarrow> bool" where
  "slots_exact wave p \<longleftrightarrow>
     (\<forall>t. counted (sl_tool (pl_slots p)) t = held wave (on_tool t) p) \<and>
     (\<forall>h. h \<noteq> [] \<longrightarrow> counted (sl_host (pl_slots p)) h = held wave (on_host h) p) \<and>
     (\<forall>v. v \<noteq> [] \<longrightarrow> counted (sl_server (pl_slots p)) v = held wave (on_server v) p)"

definition within :: "tool_limits \<Rightarrow> (string \<Rightarrow> int) \<Rightarrow> (string \<Rightarrow> int) \<Rightarrow> (string \<Rightarrow> int) \<Rightarrow> bool" where
  "within lim t h v \<longleftrightarrow> (\<forall>k. t k \<le> max 0 (tl_perTool lim)) \<and> (\<forall>k. h k \<le> max 0 (tl_perHost lim)) \<and>
     (\<forall>k. v k \<le> max 0 (tl_perServer lim))"

abbreviation "held_within lim wave p \<equiv>
  within lim (\<lambda>k. held wave (on_tool k) p) (\<lambda>k. held wave (on_host k) p) (\<lambda>k. held wave (on_server k) p)"

abbreviation "running_within lim wave p \<equiv>
  within lim (\<lambda>k. running wave (on_tool k) p) (\<lambda>k. running wave (on_host k) p) (\<lambda>k. running wave (on_server k) p)"

definition pool_inv :: "tool_limits \<Rightarrow> tool_call list \<Rightarrow> 'r pool \<Rightarrow> bool" where
  "pool_inv lim wave p \<longleftrightarrow> length (pl_workers p) = slotLimit lim wave \<and> running_within lim wave p \<and>
     (pl_aborted p \<or> slots_exact wave p \<and> held_within lim wave p)"

lemma within_mono:
  "within lim t h v \<Longrightarrow> (\<And>k. t2 k \<le> t k) \<Longrightarrow> (\<And>k. h2 k \<le> h k) \<Longrightarrow> (\<And>k. v2 k \<le> v k) \<Longrightarrow> within lim t2 h2 v2"
  unfolding within_def by (meson order_trans)

lemma held_within_running: "held_within lim wave p \<Longrightarrow> running_within lim wave p"
  by (erule within_mono) (rule running_le_held)+

lemma slot_free_counted:
  "slot_free lim s c \<Longrightarrow> counted (sl_tool s) (tc_tool c) < tl_perTool lim"
  "slot_free lim s c \<Longrightarrow> on_host h c \<Longrightarrow> counted (sl_host s) h < tl_perHost lim"
  "slot_free lim s c \<Longrightarrow> on_server v c \<Longrightarrow> counted (sl_server s) v < tl_perServer lim"
  by (auto simp: slot_free_def if_named_def on_host_def on_server_def js_falsy_def)

lemma counted_incSlot:
  "counted (sl_tool (incSlot c s)) t = counted (sl_tool s) t + (if on_tool t c then 1 else 0)"
  "h \<noteq> [] \<Longrightarrow> counted (sl_host (incSlot c s)) h = counted (sl_host s) h + (if on_host h c then 1 else 0)"
  "v \<noteq> [] \<Longrightarrow> counted (sl_server (incSlot c s)) v = counted (sl_server s) v + (if on_server v c then 1 else 0)"
  by (auto simp: incSlot_def counted_inc on_tool_def on_host_def on_server_def if_named_def js_falsy_def)

lemma counted_decSlot:
  "1 \<le> counted (sl_tool s) (tc_tool c) \<Longrightarrow>
     counted (sl_tool (decSlot c s)) t = counted (sl_tool s) t - (if on_tool t c then 1 else 0)"
  "h \<noteq> [] \<Longrightarrow> (\<And>k. on_host k c \<Longrightarrow> 1 \<le> counted (sl_host s) k) \<Longrightarrow>
     counted (sl_host (decSlot c s)) h = counted (sl_host s) h - (if on_host h c then 1 else 0)"
  "v \<noteq> [] \<Longrightarrow> (\<And>k. on_server k c \<Longrightarrow> 1 \<le> counted (sl_server s) k) \<Longrightarrow>
     counted (sl_server (decSlot c s)) v = counted (sl_server s) v - (if on_server v c then 1 else 0)"
  by (auto simp: decSlot_def counted_dec on_tool_def on_host_def on_server_def if_named_def js_falsy_def)

lemma grant_inv:
  assumes inv: "slots_exact wave p" "held_within lim wave p" and w: "at_worker p w (Waiting i)"
    and free: "slot_free lim (pl_slots p) (wave ! i)"
  shows "slots_exact wave ((set_worker w (Granted i) p)\<lparr>pl_slots := incSlot (wave ! i) (pl_slots p)\<rparr>)"
    and "held_within lim wave ((set_worker w (Granted i) p)\<lparr>pl_slots := incSlot (wave ! i) (pl_slots p)\<rparr>)"
proof -
  show "slots_exact wave ((set_worker w (Granted i) p)\<lparr>pl_slots := incSlot (wave ! i) (pl_slots p)\<rparr>)"
    using inv(1) by (simp add: slots_exact_def counted_incSlot held_set_worker [OF w])
  have "held wave (on_tool t) p + 1 \<le> tl_perTool lim" if "on_tool t (wave ! i)" for t
    using slot_free_counted(1) [OF free] inv(1) that by (auto simp: slots_exact_def on_tool_def)
  moreover have "held wave (on_host h) p + 1 \<le> tl_perHost lim" if "on_host h (wave ! i)" for h
    using slot_free_counted(2) [OF free that] inv(1) that by (auto simp: slots_exact_def on_host_def)
  moreover have "held wave (on_server v) p + 1 \<le> tl_perServer lim" if "on_server v (wave ! i)" for v
    using slot_free_counted(3) [OF free that] inv(1) that by (auto simp: slots_exact_def on_server_def)
  ultimately show "held_within lim wave ((set_worker w (Granted i) p)\<lparr>pl_slots := incSlot (wave ! i) (pl_slots p)\<rparr>)"
    using inv(2) unfolding within_def by (fastforce simp: held_set_worker [OF w])
qed

lemma holding_counted:
  assumes "at_worker p w k" and "holds wave Q k = 1"
  shows "1 \<le> held wave Q p"
proof -
  obtain xs ys where "pl_workers p = xs @ k # ys" using assms(1) by (rule at_worker_split)
  then show ?thesis using assms(2) by (simp add: held_def)
qed

lemma release_inv:
  assumes exact: "slots_exact wave p" and w: "at_worker p w k" and k: "k \<in> {Granted i, Running i}"
  shows "slots_exact wave (record_result w (wave ! i) r p)"
proof -
  have one: "holds wave Q k = (if Q (wave ! i) then 1 else 0)" for Q using k by auto
  have "1 \<le> counted (sl_tool (pl_slots p)) (tc_tool (wave ! i))"
    using exact holding_counted [OF w, of wave "on_tool (tc_tool (wave ! i))"] one
    by (simp add: slots_exact_def on_tool_def)
  moreover have "1 \<le> counted (sl_host (pl_slots p)) h" if "on_host h (wave ! i)" for h
    using exact holding_counted [OF w, of wave "on_host h"] one that by (simp add: slots_exact_def on_host_def)
  moreover have "1 \<le> counted (sl_server (pl_slots p)) v" if "on_server v (wave ! i)" for v
    using exact holding_counted [OF w, of wave "on_server v"] one that by (simp add: slots_exact_def on_server_def)
  ultimately show ?thesis
    using exact by (simp add: slots_exact_def record_result_def counted_decSlot held_set_worker [OF w] one)
qed

lemma release_held:
  assumes w: "at_worker p w k" and k: "k \<in> {Granted i, Running i}"
  shows "held wave Q (record_result w c r p) \<le> held wave Q p"
    and "running wave Q (record_result w c r p) \<le> running wave Q p"
  using held_set_worker [OF w] k by (auto simp: record_result_def)

lemma pool_inv_start: "pool_inv lim wave (pool_start lim wave ab)"
  by (auto simp: pool_inv_def pool_start_def running_def held_def slots_exact_def within_def counted_def sum_list_replicate)

lemma still_within:
  assumes "running_within lim wave p" and "\<And>Q. running wave Q q \<le> running wave Q p"
  shows "running_within lim wave q"
  using assms(1) by (rule within_mono) (rule assms(2))+

lemma step_workers: "pool_step lim wave g p q \<Longrightarrow> length (pl_workers q) = length (pl_workers p)"
  by (induction rule: pool_step.induct) (simp_all add: set_worker_def record_result_def)

text \<open>Only \<open>run\<close> makes a call run; every other step keeps or lowers the number of running calls.\<close>

lemma step_not_more_running:
  assumes "pool_step lim wave g p q"
  shows "pl_aborted p \<longrightarrow> pl_aborted q \<and> running wave Q q \<le> running wave Q p"
  using assms
proof (cases rule: pool_step.cases)
  case (finish w i r)
  then show ?thesis using release_held(2) [OF finish(2), of i] by (simp add: record_result_def)
next
  case (cancel w i)
  then show ?thesis using release_held(2) [OF cancel(2), of i] by (simp add: record_result_def)
qed (simp_all add: held_set_worker)

lemma step_inv:
  assumes "pool_step lim wave g p q" and "pool_inv lim wave p"
  shows "pool_inv lim wave q"
proof (cases "pl_aborted p")
  case True
  then have "pl_aborted q" "\<And>Q. running wave Q q \<le> running wave Q p"
    using step_not_more_running [OF assms(1)] by blast+
  then show ?thesis
    using assms(2) step_workers [OF assms(1)] still_within [of lim wave p q] by (simp add: pool_inv_def)
next
  case False
  then have p: "slots_exact wave p" "held_within lim wave p" "length (pl_workers p) = slotLimit lim wave"
    using assms(2) by (simp_all add: pool_inv_def)
  have ok: "pool_inv lim wave q" if "slots_exact wave q" "held_within lim wave q"
    using that p(3) step_workers [OF assms(1)] by (simp add: pool_inv_def held_within_running)
  have same: "pool_inv lim wave q"
    if "pl_slots q = pl_slots p" "\<And>Q. held wave Q q = held wave Q p"
    by (rule ok) (use p(1,2) that in \<open>simp_all add: slots_exact_def\<close>)
  have freed: "pool_inv lim wave q"
    if "slots_exact wave q" "\<And>Q. held wave Q q \<le> held wave Q p"
    by (rule ok [OF that(1)]) (rule within_mono [OF p(2)], (rule that(2))+)
  from assms(1) show ?thesis
  proof (cases rule: pool_step.cases)
    case (grant w i)
    then show ?thesis using grant_inv [OF p(1,2) grant(2,4)] ok by simp
  next
    case (cancel w i)
    then show ?thesis using False by simp
  next
    case (finish w i r)
    show ?thesis
      by (rule freed) (simp_all add: finish(1) release_inv [OF p(1) finish(2)] release_held(1) [OF finish(2)])
  next
    case (claim w)
    show ?thesis by (rule same) (simp_all add: claim(1) held_set_worker [OF claim(2)])
  next
    case (stop w)
    show ?thesis by (rule same) (simp_all add: stop(1) held_set_worker [OF stop(2)])
  next
    case (pass w i)
    then show ?thesis using False by simp
  next
    case (run w i)
    show ?thesis by (rule same) (simp_all add: run(1) held_set_worker [OF run(2)])
  next
    case abort
    show ?thesis by (rule same) (simp_all add: abort(1))
  qed
qed

lemma reach_inv:
  assumes "(pool_step lim wave g)\<^sup>*\<^sup>* (pool_start lim wave ab) p"
  shows "pool_inv lim wave p"
  using assms by induction (simp_all add: pool_inv_start step_inv)

section \<open>The pool ends\<close>

fun worker_rank :: "worker \<Rightarrow> nat" where
  "worker_rank Stopped = 0"
| "worker_rank Idle = 1"
| "worker_rank (Running i) = 2"
| "worker_rank (Granted i) = 3"
| "worker_rank (Waiting i) = 4"

definition pool_rank :: "tool_call list \<Rightarrow> 'r pool \<Rightarrow> nat" where
  "pool_rank wave p = 4 * (length wave - pl_next p) + sum_list (map worker_rank (pl_workers p)) + (if pl_aborted p then 0 else 1)"

lemma rank_set_worker:
  assumes "at_worker p w k"
  shows "sum_list (map worker_rank (pl_workers (set_worker w k2 p))) + worker_rank k =
    sum_list (map worker_rank (pl_workers p)) + worker_rank k2"
proof -
  obtain xs ys where "pl_workers p = xs @ k # ys" and "w = length xs" using assms by (rule at_worker_split)
  then show ?thesis by (simp add: set_worker_def)
qed

lemma step_rank: "pool_step lim wave g p q \<Longrightarrow> pool_rank wave q < pool_rank wave p"
proof (induction rule: pool_step.induct)
  case (claim p w)
  then show ?case using rank_set_worker [OF claim(1), of "Waiting (pl_next p)"] by (simp add: pool_rank_def)
next
  case (stop p w)
  then show ?case using rank_set_worker [OF stop(1), of Stopped] by (simp add: pool_rank_def)
next
  case (grant p w i)
  then show ?case using rank_set_worker [OF grant(1), of "Granted i"] by (simp add: pool_rank_def)
next
  case (pass p w i)
  then show ?case using rank_set_worker [OF pass(1), of "Granted i"] by (simp add: pool_rank_def)
next
  case (run p w i)
  then show ?case using rank_set_worker [OF run(1), of "Running i"] by (simp add: pool_rank_def)
next
  case (cancel p w i)
  then show ?case using rank_set_worker [OF cancel(1), of Idle] by (simp add: pool_rank_def record_result_def)
next
  case (finish p w i r)
  then show ?case using rank_set_worker [OF finish(1), of Idle] by (simp add: pool_rank_def record_result_def)
next
  case (abort p)
  then show ?case by (simp add: pool_rank_def)
qed

lemma steps_rank: "(pool_step lim wave g ^^ n) p q \<Longrightarrow> n + pool_rank wave q \<le> pool_rank wave p"
proof (induction n arbitrary: q)
  case (Suc n)
  then obtain r where "(pool_step lim wave g ^^ n) p r" "pool_step lim wave g r q" by auto
  then show ?case using Suc.IH [of r] step_rank [of lim wave g r q] by simp
qed simp

definition positive_limits :: "tool_limits \<Rightarrow> bool" where
  "positive_limits lim \<longleftrightarrow> 0 < tl_perTool lim \<and> 0 < tl_perHost lim \<and> 0 < tl_perServer lim"

lemma worker_at: "k \<in> set (pl_workers p) \<Longrightarrow> \<exists>w. at_worker p w k"
  by (auto simp: at_worker_def in_set_conv_nth)

lemma all_slots_free:
  assumes "slots_exact wave p" and "positive_limits lim" and "\<And>Q. held wave Q p = 0"
  shows "slot_free lim (pl_slots p) c"
  using assms by (auto simp: slot_free_def slots_exact_def positive_limits_def if_named_def js_falsy_def)

lemma progress:
  assumes inv: "pool_inv lim wave p" and lim: "positive_limits lim" and "\<not> pool_done p"
  shows "\<exists>q. pool_step lim wave g p q \<and> pl_aborted q = pl_aborted p"
proof -
  obtain k w where k: "k \<in> set (pl_workers p)" "k \<noteq> Stopped" and w: "at_worker p w k"
    using assms(3) worker_at unfolding pool_done_def by blast
  show ?thesis
  proof (cases "\<exists>k \<in> set (pl_workers p). \<exists>i. k = Idle \<or> k = Granted i \<or> k = Running i")
    case True
    then obtain k i v where v: "at_worker p v k" and "k = Idle \<or> k = Granted i \<or> k = Running i"
      using worker_at by blast
    then consider "k = Idle" | "k = Granted i" | "k = Running i" by blast
    then show ?thesis
    proof cases
      case 1
      then show ?thesis using pool_step.claim [of p v wave lim g] pool_step.stop [of p v wave lim g] v
        by (cases "pl_next p < length wave") (auto simp: not_less)
    next
      case 2
      then show ?thesis using pool_step.run [of p v i lim wave g] pool_step.cancel [of p v i lim wave g] v
        by (cases "pl_aborted p") (auto simp: record_result_def)
    next
      case 3
      then show ?thesis using pool_step.finish [of p v i lim wave g] v by (fastforce simp: record_result_def)
    qed
  next
    case False
    then obtain i where i: "k = Waiting i" using k by (cases k) auto
    have "holds wave Q k2 = 0" if "k2 \<in> set (pl_workers p)" for Q k2
      using False that by (cases k2) auto
    then have none: "held wave Q p = 0" for Q by (simp add: held_def)
    show ?thesis
    proof (cases "pl_aborted p")
      case True
      then show ?thesis using pool_step.pass [of p w i lim wave g] w i by auto
    next
      case f: False
      then have "slots_exact wave p" using inv by (simp add: pool_inv_def)
      from all_slots_free [OF this lim none] show ?thesis
        using pool_step.grant [of p w i lim wave g] w i f by fastforce
    qed
  qed
qed

lemma can_finish:
  assumes "pool_inv lim wave p" and "positive_limits lim"
  shows "\<exists>q. (pool_step lim wave g)\<^sup>*\<^sup>* p q \<and> pool_done q \<and> pl_aborted q = pl_aborted p"
  using assms(1)
proof (induction "pool_rank wave p" arbitrary: p rule: less_induct)
  case less
  show ?case
  proof (cases "pool_done p")
    case False
    obtain q where q: "pool_step lim wave g p q" "pl_aborted q = pl_aborted p"
      using progress [OF less.prems assms(2) False] by blast
    obtain r where "(pool_step lim wave g)\<^sup>*\<^sup>* q r" "pool_done r" "pl_aborted r = pl_aborted q"
      using less.hyps [OF step_rank [OF q(1)] step_inv [OF q(1) less.prems]] by blast
    then show ?thesis using q by (metis converse_rtranclp_into_rtranclp)
  qed blast
qed

end
