(* ===== verification/Tool_Batch.thy ===== *)
theory Tool_Batch
  imports Tool_Pool
begin

text \<open>
  A batch of tool calls from start to end: every call of a wave yields exactly one result, and
  the results of the batch come in the order of the calls.
\<close>

section \<open>One result per call\<close>

definition call_key :: "tool_call \<Rightarrow> int \<times> ident" where
  "call_key c = (tc_index c, tc_id c)"

definition result_key :: "'r tool_result \<Rightarrow> int \<times> ident" where
  "result_key r = (tr_index r, tr_callId r)"

fun worker_calls :: "tool_call list \<Rightarrow> worker \<Rightarrow> (int \<times> ident) multiset" where
  "worker_calls wave (Waiting i) = {#call_key (wave ! i)#}"
| "worker_calls wave (Granted i) = {#call_key (wave ! i)#}"
| "worker_calls wave (Running i) = {#call_key (wave ! i)#}"
| "worker_calls wave k = {#}"

definition in_work :: "tool_call list \<Rightarrow> 'r pool \<Rightarrow> (int \<times> ident) multiset" where
  "in_work wave p = sum_list (map (worker_calls wave) (pl_workers p))"

text \<open>Every call taken so far is in work or has a result.\<close>

definition balanced :: "tool_call list \<Rightarrow> 'r pool \<Rightarrow> bool" where
  "balanced wave p \<longleftrightarrow>
     mset (map result_key (pl_results p)) + in_work wave p = mset (map call_key (take (pl_next p) wave)) \<and>
     (Stopped \<in> set (pl_workers p) \<longrightarrow> length wave \<le> pl_next p)"

lemma no_work: "\<forall>k \<in> set (pl_workers p). worker_calls wave k = {#} \<Longrightarrow> in_work wave p = {#}"
proof -
  have "\<forall>k \<in> set ks. worker_calls wave k = {#} \<Longrightarrow> sum_list (map (worker_calls wave) ks) = {#}" for ks
    by (induction ks) simp_all
  then show "\<forall>k \<in> set (pl_workers p). worker_calls wave k = {#} \<Longrightarrow> in_work wave p = {#}" by (simp add: in_work_def)
qed

lemma in_work_set_worker:
  assumes "at_worker p w k"
  shows "in_work wave (set_worker w k2 p) + worker_calls wave k = in_work wave p + worker_calls wave k2"
proof -
  obtain xs ys where "pl_workers p = xs @ k # ys" and "w = length xs" using assms by (rule at_worker_split)
  then show ?thesis by (simp add: in_work_def set_worker_def)
qed

lemma in_work_update [simp]:
  "in_work wave (p\<lparr>pl_next := n\<rparr>) = in_work wave p" "in_work wave (p\<lparr>pl_slots := s\<rparr>) = in_work wave p"
  "in_work wave (p\<lparr>pl_aborted := b\<rparr>) = in_work wave p" "in_work wave (p\<lparr>pl_results := rs\<rparr>) = in_work wave p"
  by (simp_all add: in_work_def)

lemma stopped_set_worker:
  "k \<noteq> Stopped \<Longrightarrow> Stopped \<in> set (pl_workers (set_worker w k p)) \<Longrightarrow> Stopped \<in> set (pl_workers p)"
  using set_update_subset_insert [of "pl_workers p" w k] by (auto simp: set_worker_def)

lemma result_keys [simp]:
  "result_key (cancelled_result g c) = call_key c" "result_key (run_result g c ab r) = call_key c"
  by (auto simp: result_key_def call_key_def cancelled_result_def run_result_def split: run_outcome.splits)

lemma balanced_same:
  assumes "balanced wave p" and "at_worker p w k" and "worker_calls wave k2 = worker_calls wave k" and "k2 \<noteq> Stopped"
    and "pl_results q = pl_results p" "pl_next q = pl_next p" "pl_workers q = pl_workers (set_worker w k2 p)"
  shows "balanced wave q"
proof -
  have "in_work wave q = in_work wave p"
    using in_work_set_worker [OF assms(2), of wave k2] assms(3,7) by (simp add: in_work_def)
  then show ?thesis using assms(1,4-7) stopped_set_worker [of k2 w p] by (auto simp: balanced_def)
qed

lemma balanced_record:
  assumes "balanced wave p" and "at_worker p w k" and "worker_calls wave k = {#result_key r#}"
  shows "balanced wave (record_result w c r p)"
proof -
  have "in_work wave p = in_work wave (set_worker w Idle p) + {#result_key r#}"
    using in_work_set_worker [OF assms(2), of wave Idle] assms(3) by simp
  then show ?thesis
    using assms(1) stopped_set_worker [of Idle w p] by (auto simp: balanced_def record_result_def)
qed

lemma step_balanced: "pool_step lim wave g p q \<Longrightarrow> balanced wave p \<Longrightarrow> balanced wave q"
proof (induction rule: pool_step.induct)
  case (claim p w)
  have "in_work wave (set_worker w (Waiting (pl_next p)) p) = in_work wave p + {#call_key (wave ! pl_next p)#}"
    using in_work_set_worker [OF claim(1), of wave "Waiting (pl_next p)"] by simp
  then show ?case
    using claim stopped_set_worker [of "Waiting (pl_next p)" w p]
    by (auto simp: balanced_def take_Suc_conv_app_nth)
next
  case (stop p w)
  then have "in_work wave (set_worker w Stopped p) = in_work wave p"
    using in_work_set_worker [OF stop(1), of wave Stopped] by simp
  then show ?case using stop by (simp add: balanced_def)
next
  case (grant p w i)
  then show ?case by (intro balanced_same [OF grant(4,1), of "Granted i"]) simp_all
next
  case (pass p w i)
  then show ?case by (intro balanced_same [OF pass(3,1), of "Granted i"]) simp_all
next
  case (run p w i)
  then show ?case by (intro balanced_same [OF run(3,1), of "Running i"]) simp_all
next
  case (cancel p w i)
  then show ?case by (intro balanced_record [OF cancel(3,1)]) simp
next
  case (finish p w i r)
  then show ?case by (intro balanced_record [OF finish(2,1)]) simp
next
  case (abort p)
  then show ?case by (simp add: balanced_def)
qed

lemma reach_balanced:
  assumes "(pool_step lim wave g)\<^sup>*\<^sup>* (pool_start lim wave ab) p"
  shows "balanced wave p"
  using assms
proof induction
  case base
  have "in_work wave (pool_start lim wave ab :: 'a pool) = {#}" by (rule no_work) (simp add: pool_start_def)
  then show ?case by (auto simp: balanced_def pool_start_def)
next
  case (step p q)
  from step(2,3) show ?case by (rule step_balanced)
qed

lemma done_results:
  assumes "(pool_step lim wave g)\<^sup>*\<^sup>* (pool_start lim wave ab) p" and "pool_done p"
  shows "mset (map result_key (pl_results p)) = mset (map call_key wave)"
proof -
  have len: "length (pl_workers p) = slotLimit lim wave" using reach_inv [OF assms(1)] by (simp add: pool_inv_def)
  then have "pl_workers p \<noteq> []" by (auto simp: slotLimit_def)
  then have "Stopped \<in> set (pl_workers p)" using assms(2) by (cases "pl_workers p") (auto simp: pool_done_def)
  moreover have "in_work wave p = {#}" by (rule no_work) (use assms(2) in \<open>auto simp: pool_done_def\<close>)
  ultimately show ?thesis using reach_balanced [OF assms(1)] by (simp add: balanced_def)
qed

section \<open>The batch\<close>

lemma run_waves_keys:
  "run_waves lim n ws ab rs \<Longrightarrow> mset (map result_key rs) = mset (map call_key (concat ws))"
proof (induction rule: run_waves.induct)
  case (wave w n ab p ab2 ws rs)
  have "mset (map result_key (sort_key tr_index (pl_results p))) = mset (map result_key (pl_results p))"
    by (simp add: mset_map)
  then show ?case using done_results [OF wave(1,2)] wave.IH by simp
qed simp

lemma run_waves_exists:
  assumes "positive_limits lim"
  shows "\<exists>rs :: 'r tool_result list. run_waves lim n ws ab rs"
proof (induction ws arbitrary: n)
  case Nil
  show ?case using run_waves.none by blast
next
  case (Cons w ws)
  obtain q :: "'r pool" where "(pool_step lim w (''g-'' @ nat_text (n + 1)))\<^sup>*\<^sup>* (pool_start lim w ab) q"
    "pool_done q" "pl_aborted q = pl_aborted (pool_start lim w ab :: 'r pool)"
    using can_finish [OF pool_inv_start assms] by blast
  moreover obtain rs :: "'r tool_result list" where "run_waves lim (n + 1) ws ab rs" using Cons.IH by blast
  ultimately show ?case using run_waves.wave [of lim w n ab q ab ws rs] by (auto simp: pool_start_def)
qed

lemma sorted_keys_unique:
  assumes "sorted (map fst xs)" and "sorted (map fst ys)" and "mset xs = mset ys" and "distinct (map fst ys)"
  shows "xs = ys"
proof -
  have "distinct (map fst xs)" using assms(3,4) by (metis mset_eq_imp_distinct_iff mset_map)
  then have "inj_on fst (set xs \<union> set ys)"
    using mset_eq_setD [OF assms(3)] by (simp add: distinct_map)
  then show ?thesis
    using assms by (metis map_inj_on mset_map properties_for_sort)
qed

lemma batch_in_order:
  assumes "distinct (map tc_index calls)" and "run_batch lim n calls ab out"
  shows "map result_key out = map call_key (sort_key tc_index calls)"
proof (rule sorted_keys_unique)
  obtain rs where rs: "run_waves lim n (partitionWaves (ordered_calls calls)) ab rs" "out = sort_key tr_index rs"
    using assms(2) by (auto simp: run_batch_def)
  have fst_keys: "map fst (map result_key xs) = map tr_index xs" "map fst (map call_key cs) = map tc_index cs"
    for xs :: "'a tool_result list" and cs
    by (simp_all add: result_key_def call_key_def comp_def)
  show "sorted (map fst (map result_key out))" "sorted (map fst (map call_key (sort_key tc_index calls)))"
    by (simp_all only: fst_keys rs(2) sorted_sort_key)
  have "mset (map tc_index (sort_key tc_index calls)) = mset (map tc_index calls)" by (simp add: mset_map)
  then show "distinct (map fst (map call_key (sort_key tc_index calls)))"
    unfolding fst_keys using assms(1) mset_eq_imp_distinct_iff by blast
  have "mset (map result_key out) = mset (map result_key rs)" by (simp add: rs(2) mset_map)
  also have "\<dots> = mset (map call_key (ordered_calls calls))"
    using run_waves_keys [OF rs(1)] partitionWaves_inv [of "ordered_calls calls"] by simp
  finally show "mset (map result_key out) = mset (map call_key (sort_key tc_index calls))"
    by (simp add: ordered_calls_def)
qed

section \<open>The scheduler\<close>

lemma running_all:
  assumes "pool_inv lim wave p"
  shows "running wave (\<lambda>c. True) p \<le> max 1 (tl_globalMax lim)"
proof -
  have "sum_list (map (runs wave (\<lambda>c. True)) ks) \<le> length ks" for ks
    by (induction ks) (auto intro: order_trans [OF add_mono [OF runs_le_one]])
  from this [of "pl_workers p"] show ?thesis using assms by (auto simp: running_def pool_inv_def slotLimit_def)
qed

lemma rank_start: "pool_rank wave (pool_start lim wave ab) \<le> 4 * length wave + slotLimit lim wave + 1"
  by (simp add: pool_rank_def pool_start_def sum_list_replicate)

text \<open>C26. Whatever the interleaving of the workers, whatever the calls return or throw and whenever
  the signal is aborted, the pool never runs more calls of one tool, one host or one language server at
  once than its limits say, nor more than the global limit in total (a limit below one counts as
  none, the global one as one).  It takes at most four steps per call, one per worker and one abort, and
  with positive limits it can always go on until every worker has stopped: no worker waits forever for a slot.\<close>

theorem tool_pool_bounded:
  assumes "(pool_step lim wave g ^^ n) (pool_start lim wave ab) p"
  shows "running wave (on_tool t) p \<le> max 0 (tl_perTool lim) \<and> running wave (on_host h) p \<le> max 0 (tl_perHost lim) \<and>
    running wave (on_server v) p \<le> max 0 (tl_perServer lim) \<and> running wave (\<lambda>c. True) p \<le> max 1 (tl_globalMax lim) \<and>
    n \<le> 4 * length wave + slotLimit lim wave + 1 \<and>
    (positive_limits lim \<longrightarrow> (\<exists>q. (pool_step lim wave g)\<^sup>*\<^sup>* p q \<and> pool_done q \<and> pl_aborted q = pl_aborted p))"
proof -
  have inv: "pool_inv lim wave p" by (rule reach_inv [OF relpowp_imp_rtranclp [OF assms]])
  then have "running_within lim wave p" by (simp add: pool_inv_def)
  moreover have "n \<le> 4 * length wave + slotLimit lim wave + 1"
    by (rule order_trans [OF add_leD1 [OF steps_rank [OF assms]] rank_start])
  ultimately show ?thesis using running_all [OF inv] can_finish [OF inv] by (simp add: within_def)
qed

text \<open>C27. With positive limits a batch of calls with distinct indices always has an outcome, and every
  possible outcome lists exactly one result per call, in the order of the indices, whatever order the calls finish in and
  whenever the signal is aborted.\<close>

theorem tool_batch_in_order:
  assumes "positive_limits lim" and "distinct (map tc_index calls)"
  shows "(\<exists>out :: 'r tool_result list. run_batch lim n calls ab out) \<and>
    (\<forall>out :: 'r tool_result list. run_batch lim n calls ab out \<longrightarrow>
      map tr_index out = sort (map tc_index calls) \<and> map tr_callId out = map tc_id (sort_key tc_index calls))"
proof (intro conjI allI impI)
  show "\<exists>out :: 'r tool_result list. run_batch lim n calls ab out"
    unfolding run_batch_def using run_waves_exists [OF assms(1)] by blast
  have map_fst: "map fst (map call_key cs) = map tc_index cs" and map_snd: "map snd (map call_key cs) = map tc_id cs" for cs
    by (simp_all add: call_key_def comp_def)
  have sorted: "map tc_index (sort_key tc_index calls) = sort (map tc_index calls)"
    by (rule properties_for_sort [symmetric]) (simp_all add: mset_map)
  fix out :: "'r tool_result list"
  assume "run_batch lim n calls ab out"
  from batch_in_order [OF assms(2) this] have keys: "map result_key out = map call_key (sort_key tc_index calls)" .
  have "map tr_index out = map fst (map result_key out)" by (simp add: result_key_def comp_def)
  then show "map tr_index out = sort (map tc_index calls)" by (simp only: keys map_fst sorted)
  have "map tr_callId out = map snd (map result_key out)" by (simp add: result_key_def comp_def)
  then show "map tr_callId out = map tc_id (sort_key tc_index calls)" by (simp only: keys map_snd)
qed

lemma tool_batch_in_order_witness:
  "\<exists>out :: string tool_result list. run_batch DEFAULT_LIMITS 0 demo_calls False out \<and> map tr_index out = [0, 1, 2, 3, 4]"
proof -
  have "positive_limits DEFAULT_LIMITS" by (simp add: positive_limits_def DEFAULT_LIMITS_def)
  moreover have idx: "map tc_index demo_calls = [0, 1, 2, 3, 4]" by (simp add: demo_calls_def demo_call_def)
  ultimately show ?thesis
    using tool_batch_in_order [of DEFAULT_LIMITS demo_calls 0 False, where ?'r = string] by auto
qed

text \<open>One worker takes the first call, gets a slot and runs it.\<close>

definition demo_pool :: "string pool" where
  "demo_pool = (pool_start DEFAULT_LIMITS [demo_call 0 ''read'' True None] False)
     \<lparr>pl_workers := [Running 0], pl_next := 1,
      pl_slots := incSlot (demo_call 0 ''read'' True None)
        \<lparr>sl_tool = Map.empty, sl_host = Map.empty, sl_server = Map.empty\<rparr>\<rparr>"

lemma demo_pool_steps:
  "(pool_step DEFAULT_LIMITS [demo_call 0 ''read'' True None] ''g-1'' ^^ 3)
     (pool_start DEFAULT_LIMITS [demo_call 0 ''read'' True None] False) demo_pool"
proof -
  let ?wave = "[demo_call 0 ''read'' True None]"
  let ?step = "pool_step DEFAULT_LIMITS ?wave ''g-1'' :: string pool \<Rightarrow> _"
  let ?p = "pool_start DEFAULT_LIMITS ?wave False :: string pool"
  let ?q = "(set_worker 0 (Waiting (pl_next ?p)) ?p)\<lparr>pl_next := pl_next ?p + 1\<rparr>"
  let ?r = "(set_worker 0 (Granted 0) ?q)\<lparr>pl_slots := incSlot (?wave ! 0) (pl_slots ?q)\<rparr>"
  have start: "pl_workers ?p = [Idle]" "pl_next ?p = 0" "\<not> pl_aborted ?p"
    by (simp_all add: pool_start_def slotLimit_def DEFAULT_LIMITS_def)
  have q: "?step ?p ?q" by (rule pool_step.claim) (simp_all add: at_worker_def start)
  have "slot_free DEFAULT_LIMITS (pl_slots ?q) (?wave ! 0)"
    by (simp add: slot_free_def DEFAULT_LIMITS_def pool_start_def counted_def if_named_def demo_call_def js_falsy_def)
  then have r: "?step ?q ?r" by (intro pool_step.grant) (simp_all add: at_worker_def set_worker_def start)
  have "?step ?r (set_worker 0 (Running 0) ?r)"
    by (rule pool_step.run) (simp_all add: at_worker_def set_worker_def start)
  moreover have "set_worker 0 (Running 0) ?r = demo_pool"
    by (simp add: demo_pool_def set_worker_def start) (simp add: pool_start_def)
  ultimately have "?step ?r demo_pool" by simp
  with q r show ?thesis by (auto simp: numeral_3_eq_3)
qed

lemma tool_pool_bounded_witness:
  "running [demo_call 0 ''read'' True None] (on_tool ''read'') demo_pool = 1 \<and>
   running [demo_call 0 ''read'' True None] (on_tool ''read'') demo_pool \<le> 4"
  using tool_pool_bounded [OF demo_pool_steps, of "''read''"]
  by (simp add: DEFAULT_LIMITS_def) (simp add: running_def demo_pool_def on_tool_def demo_call_def)

end
