(* ===== verification/Transcript_Validation.thy ===== *)
theory Transcript_Validation
  imports Json_Values
begin

text \<open>
  The validation of a transcript before it is sent to a model, \<open>ai/src/utils/transcript-validation.ts\<close>.
  Messages arrive as values of unknown shape (\<open>json\<close>); \<open>normalizeMessages\<close> brings the payloads of the
  two wire protocols into the internal form, \<open>read_message\<close> is what the loop of the validators reads of
  one message (\<open>None\<close> where reading it ends in a \<open>TypeError\<close>) and \<open>scan_entry\<close> is the body of the
  loop.  The two validators of the source are copies of one another; they share the loop here.
\<close>

section \<open>Normalization\<close>

definition has_key :: "string \<Rightarrow> json \<Rightarrow> bool" where
  "has_key k v = (case v of JObj ms \<Rightarrow> k \<in> fst ` set ms | _ \<Rightarrow> False)"

definition is_array :: "json \<Rightarrow> bool" where
  "is_array v = (case v of JArr _ \<Rightarrow> True | _ \<Rightarrow> False)"

definition array_items :: "json \<Rightarrow> json list" where
  "array_items v = (case v of JArr xs \<Rightarrow> xs | _ \<Rightarrow> [])"

definition string_or_empty :: "json \<Rightarrow> json" where
  "string_or_empty v = (if is_string v then v else JStr [])"

definition asToolCall :: "json \<Rightarrow> json \<Rightarrow> json" where
  "asToolCall i n = JObj [(''type'', JStr ''toolCall''), (''id'', string_or_empty i),
     (''name'', string_or_empty n), (''arguments'', JObj [])]"

definition js_zero :: json where
  "js_zero = JNum (IntNum 0)"

definition asAssistantMessage :: "json list \<Rightarrow> json" where
  "asAssistantMessage content = JObj
     [(''role'', JStr ''assistant''), (''content'', JArr content), (''api'', JStr ''openai-completions''),
      (''provider'', JStr ''unknown''), (''model'', JStr ''unknown''),
      (''usage'', JObj
        [(''input'', js_zero), (''output'', js_zero), (''cacheRead'', js_zero), (''cacheWrite'', js_zero),
         (''totalTokens'', js_zero),
         (''cost'', JObj [(''input'', js_zero), (''output'', js_zero), (''cacheRead'', js_zero),
            (''cacheWrite'', js_zero), (''total'', js_zero)])]),
      (''stopReason'', JStr ''stop''), (''timestamp'', js_zero)]"

definition asToolResult :: "json \<Rightarrow> json" where
  "asToolResult i = JObj
     [(''role'', JStr ''toolResult''), (''toolCallId'', string_or_empty i), (''toolName'', JStr []),
      (''content'', JArr []), (''isError'', JBool False), (''timestamp'', js_zero)]"

definition asUserMessage :: json where
  "asUserMessage = JObj [(''role'', JStr ''user''), (''content'', JStr []), (''timestamp'', js_zero)]"

definition has_role :: "string \<Rightarrow> json \<Rightarrow> bool" where
  "has_role r m \<longleftrightarrow> is_object m \<and> jget m ''role'' = JStr r"

definition has_type :: "string \<Rightarrow> json \<Rightarrow> bool" where
  "has_type t m \<longleftrightarrow> is_object m \<and> jget m ''type'' = JStr t"

definition chat_tool_call :: "json \<Rightarrow> json" where
  "chat_tool_call call =
     (if \<not> is_object call then asToolCall JUndefined JUndefined
      else asToolCall (jget call ''id'')
        (if is_object (jget call ''function'') then jget (jget call ''function'') ''name'' else JUndefined))"

definition normalize_chat :: "json \<Rightarrow> json list" where
  "normalize_chat raw =
     (if has_role ''assistant'' raw
      then [asAssistantMessage (map chat_tool_call (array_items (jget raw ''tool_calls'')))]
      else if has_role ''tool'' raw then [asToolResult (jget raw ''tool_call_id'')]
      else if has_role ''user'' raw then [asUserMessage]
      else [])"

definition normalizeChatCompletionsMessages :: "json list \<Rightarrow> json list" where
  "normalizeChatCompletionsMessages msgs = concat (map normalize_chat msgs)"

text \<open>\<open>pending\<close> are the consecutive function calls not yet flushed into an assistant message.\<close>

definition flush_calls :: "json list \<Rightarrow> json list" where
  "flush_calls pending = (if pending = [] then [] else [asAssistantMessage pending])"

fun normalize_responses :: "json list \<Rightarrow> json list \<Rightarrow> json list" where
  "normalize_responses pending [] = flush_calls pending"
| "normalize_responses pending (raw # msgs) =
     (if \<not> is_object raw then normalize_responses pending msgs
      else if has_type ''function_call'' raw
      then normalize_responses (pending @ [asToolCall (jget raw ''call_id'') (jget raw ''name'')]) msgs
      else flush_calls pending
        @ (if has_type ''function_call_output'' raw then [asToolResult (jget raw ''call_id'')]
           else if has_role ''user'' raw then [asUserMessage] else [])
        @ normalize_responses [] msgs)"

definition normalizeResponsesMessages :: "json list \<Rightarrow> json list" where
  "normalizeResponsesMessages msgs = normalize_responses [] msgs"

datatype protocol = ChatCompletions | Responses

definition normalizeMessages :: "json list \<Rightarrow> protocol \<Rightarrow> json list" where
  "normalizeMessages msgs p =
     (if list_ex (has_role ''toolResult'') msgs then msgs
      else if list_ex (\<lambda>m. has_role ''assistant'' m
                 \<and> list_ex (has_type ''toolCall'') (array_items (jget m ''content''))) msgs then msgs
      else if list_ex (\<lambda>m. has_role ''assistant'' m \<and> \<not> has_key ''api'' m) msgs
      then normalizeChatCompletionsMessages msgs
      else if list_ex (\<lambda>m. has_type ''function_call'' m \<or> has_type ''function_call_output'' m) msgs
      then normalizeResponsesMessages msgs
      else if list_ex (\<lambda>m. is_object m \<and> (has_role ''tool'' m \<or> is_array (jget m ''tool_calls'')
                 \<or> has_role ''toolResult'' m)) msgs
      then normalizeChatCompletionsMessages msgs
      else if p = Responses then normalizeResponsesMessages msgs
      else msgs)"

section \<open>What the loop reads of a message\<close>

text \<open>An assistant message that ended in an error or was aborted is skipped; otherwise the ids of
  its tool calls are read in order.  A falsy id reads as the empty string.\<close>

datatype entry =
    AssistantEntry "string list"
  | SkippedEntry
  | ResultEntry string
  | UserEntry
  | OtherEntry

text \<open>\<open>!id || id.trim().length === 0\<close>: a truthy value without a \<open>trim\<close> method throws.\<close>

definition read_id :: "json \<Rightarrow> string option" where
  "read_id v = (if \<not> truthy v then Some [] else case v of JStr s \<Rightarrow> Some s | _ \<Rightarrow> None)"

fun all_some :: "'a option list \<Rightarrow> 'a list option" where
  "all_some [] = Some []"
| "all_some (x # xs) = (case x of None \<Rightarrow> None | Some a \<Rightarrow> map_option (\<lambda>bs. a # bs) (all_some xs))"

definition nullish :: "json \<Rightarrow> bool" where
  "nullish v \<longleftrightarrow> v = JUndefined \<or> v = JNull"

definition read_calls :: "json \<Rightarrow> string list option" where
  "read_calls content =
     (if \<not> is_array content \<or> list_ex nullish (array_items content) then None
      else all_some (map (\<lambda>b. read_id (jget b ''id''))
        (filter (has_type ''toolCall'') (array_items content))))"

definition stopped :: "json \<Rightarrow> bool" where
  "stopped m \<longleftrightarrow> jget m ''stopReason'' = JStr ''error'' \<or> jget m ''stopReason'' = JStr ''aborted''"

definition read_message :: "json \<Rightarrow> entry option" where
  "read_message m =
     (if nullish m then None
      else if has_role ''assistant'' m
      then (if stopped m then Some SkippedEntry else map_option AssistantEntry (read_calls (jget m ''content'')))
      else if has_role ''toolResult'' m then map_option ResultEntry (read_id (jget m ''toolCallId''))
      else if has_role ''user'' m then Some UserEntry
      else Some OtherEntry)"

section \<open>The loop\<close>

record turn_span =
  sp_callIds :: "string list"
  sp_assistantIndex :: nat

record scan =
  sc_missing :: "string list"
  sc_duplicate :: "string list"
  sc_orphan :: "string list"
  sc_duplicateCalls :: "string list"
  sc_errorIndex :: int
  sc_span :: "turn_span option"
  sc_seenCalls :: "string \<rightharpoonup> nat"
  sc_seenResults :: "string \<rightharpoonup> nat"

definition scan_start :: scan where
  "scan_start = \<lparr>sc_missing = [], sc_duplicate = [], sc_orphan = [], sc_duplicateCalls = [],
     sc_errorIndex = -1, sc_span = None, sc_seenCalls = Map.empty, sc_seenResults = Map.empty\<rparr>"

definition mark_error :: "int \<Rightarrow> scan \<Rightarrow> scan" where
  "mark_error i s = (if sc_errorIndex s < 0 then s\<lparr>sc_errorIndex := i\<rparr> else s)"

definition pending_ids :: "scan \<Rightarrow> string list" where
  "pending_ids s = (case sc_span s of None \<Rightarrow> [] | Some sp \<Rightarrow> sp_callIds sp)"

text \<open>Report the calls of the open span that have no result; the span itself stays.\<close>

definition report_pending :: "int \<Rightarrow> scan \<Rightarrow> scan" where
  "report_pending i s =
     (if pending_ids s = [] then s
      else mark_error i (s\<lparr>sc_missing := sc_missing s @ pending_ids s\<rparr>))"

definition empty_id :: string where
  "empty_id = ''<empty>''"

text \<open>\<open>Set.add\<close>: a new element goes to the end of the insertion order.\<close>

definition set_add :: "'a \<Rightarrow> 'a list \<Rightarrow> 'a list" where
  "set_add x xs = (if x \<in> set xs then xs else xs @ [x])"

text \<open>One call of an assistant message, added to the open span.\<close>

definition add_call :: "nat \<Rightarrow> string \<Rightarrow> scan \<Rightarrow> scan" where
  "add_call i c s =
     (if js_blank c then mark_error (int i) (s\<lparr>sc_missing := sc_missing s @ [empty_id]\<rparr>)
      else
        let s1 = (if sc_seenCalls s c \<noteq> None
                  then mark_error (int i) (s\<lparr>sc_duplicateCalls := sc_duplicateCalls s @ [c]\<rparr>)
                  else s\<lparr>sc_seenCalls := (sc_seenCalls s)(c \<mapsto> i)\<rparr>)
        in s1\<lparr>sc_span := map_option (\<lambda>sp. sp\<lparr>sp_callIds := set_add c (sp_callIds sp)\<rparr>) (sc_span s1)\<rparr>)"

definition open_span :: "nat \<Rightarrow> string list \<Rightarrow> scan \<Rightarrow> scan" where
  "open_span i calls s =
     fold (add_call i) calls (s\<lparr>sc_span := Some \<lparr>sp_callIds = [], sp_assistantIndex = i\<rparr>\<rparr>)"

definition take_result :: "nat \<Rightarrow> string \<Rightarrow> scan \<Rightarrow> scan" where
  "take_result i r s =
     (if js_blank r then mark_error (int i) (s\<lparr>sc_orphan := sc_orphan s @ [empty_id]\<rparr>)
      else if r \<in> set (pending_ids s)
      then s\<lparr>sc_span := map_option (\<lambda>sp. sp\<lparr>sp_callIds := removeAll r (sp_callIds sp)\<rparr>) (sc_span s),
             sc_seenResults := (sc_seenResults s)(r \<mapsto> i)\<rparr>
      else if sc_seenResults s r \<noteq> None
      then mark_error (int i) (s\<lparr>sc_duplicate := sc_duplicate s @ [r]\<rparr>)
      else mark_error (int i) (s\<lparr>sc_orphan := sc_orphan s @ [r]\<rparr>))"

definition scan_entry :: "nat \<Rightarrow> entry \<Rightarrow> scan \<Rightarrow> scan" where
  "scan_entry i e s =
     (case e of
        AssistantEntry calls \<Rightarrow>
          (let s1 = report_pending (int i) s in if calls = [] then s1 else open_span i calls s1)
      | SkippedEntry \<Rightarrow> s
      | ResultEntry r \<Rightarrow> take_result i r s
      | UserEntry \<Rightarrow> (report_pending (int i) s)\<lparr>sc_span := None\<rparr>
      | OtherEntry \<Rightarrow> s)"

fun scan_entries :: "nat \<Rightarrow> entry list \<Rightarrow> scan \<Rightarrow> scan" where
  "scan_entries i [] s = s"
| "scan_entries i (e # es) s = scan_entries (Suc i) es (scan_entry i e s)"

text \<open>After the loop the last span is reported at the index of the last message.\<close>

definition scan_all :: "entry list \<Rightarrow> scan" where
  "scan_all es =
     (let s = scan_entries 0 es scan_start
      in if pending_ids s = [] then s
         else (report_pending (int (length es) - 1) s)\<lparr>sc_span := None\<rparr>)"

section \<open>The validators\<close>

record transcript_error =
  te_missing :: "string list"
  te_duplicate :: "string list"
  te_orphan :: "string list"
  te_duplicateCalls :: "string list"
  te_provider :: string
  te_model :: string
  te_index :: int
  te_protocol :: protocol

datatype validation = ValidTranscript | InvalidTranscript transcript_error | ValidationTypeError

definition scan_clean :: "scan \<Rightarrow> bool" where
  "scan_clean s \<longleftrightarrow> sc_missing s = [] \<and> sc_duplicate s = [] \<and> sc_orphan s = [] \<and> sc_duplicateCalls s = []"

definition scan_verdict :: "scan \<Rightarrow> string \<Rightarrow> string \<Rightarrow> protocol \<Rightarrow> validation" where
  "scan_verdict s provider model p =
     (if scan_clean s then ValidTranscript
      else InvalidTranscript
        \<lparr>te_missing = sc_missing s, te_duplicate = sc_duplicate s, te_orphan = sc_orphan s,
         te_duplicateCalls = sc_duplicateCalls s, te_provider = provider, te_model = model,
         te_index = (if 0 \<le> sc_errorIndex s then sc_errorIndex s else 0), te_protocol = p\<rparr>)"

definition read_messages :: "json list \<Rightarrow> entry list option" where
  "read_messages msgs = all_some (map read_message msgs)"

definition validate_transcript :: "protocol \<Rightarrow> json list \<Rightarrow> string \<Rightarrow> string \<Rightarrow> validation" where
  "validate_transcript p msgs provider model =
     (case read_messages (normalizeMessages msgs p) of
        None \<Rightarrow> ValidationTypeError
      | Some es \<Rightarrow> scan_verdict (scan_all es) provider model p)"

definition validateChatCompletionsTranscript :: "json list \<Rightarrow> string \<Rightarrow> string \<Rightarrow> validation" where
  "validateChatCompletionsTranscript = validate_transcript ChatCompletions"

definition validateResponsesTranscript :: "json list \<Rightarrow> string \<Rightarrow> string \<Rightarrow> validation" where
  "validateResponsesTranscript = validate_transcript Responses"

definition protocol_name :: "protocol \<Rightarrow> string" where
  "protocol_name p = (case p of ChatCompletions \<Rightarrow> ''chat-completions'' | Responses \<Rightarrow> ''responses'')"

definition id_list_text :: "string list \<Rightarrow> string" where
  "id_list_text xs = ''['' @ join_with '', '' xs @ '']''"

text \<open>\<open>None\<close>: no exception; \<open>Some t\<close>: the \<open>Error\<close> thrown, \<open>TypeError\<close> of a malformed message included.\<close>

definition throwValidationError :: "validation \<Rightarrow> string \<Rightarrow> string option" where
  "throwValidationError v field =
     (case v of ValidTranscript \<Rightarrow> None
      | ValidationTypeError \<Rightarrow> Some ''TypeError''
      | InvalidTranscript e \<Rightarrow> Some
          (''INVALID_TOOL_TRANSCRIPT: protocol='' @ protocol_name (te_protocol e) @ '', ''
           @ ''missingToolCallIds='' @ id_list_text (te_missing e) @ '', ''
           @ ''duplicateToolCallIds='' @ id_list_text (te_duplicate e) @ '', ''
           @ ''orphanToolResultIds='' @ id_list_text (te_orphan e) @ '', ''
           @ ''duplicateCallIds='' @ id_list_text (te_duplicateCalls e) @ '', ''
           @ ''provider='' @ te_provider e @ '', model='' @ te_model e
           @ '', messageIndex='' @ int_text (te_index e) @ '', field='' @ field))"

definition assertValidChatCompletionsPayload :: "json \<Rightarrow> string \<Rightarrow> string \<Rightarrow> string option" where
  "assertValidChatCompletionsPayload payload provider model =
     (case jget payload ''messages'' of
        JArr msgs \<Rightarrow> throwValidationError (validateChatCompletionsTranscript msgs provider model) ''messages''
      | _ \<Rightarrow> Some ''INVALID_TOOL_TRANSCRIPT: protocol=chat-completions, missing messages'')"

definition assertValidResponsesPayload :: "json \<Rightarrow> string \<Rightarrow> string \<Rightarrow> string option" where
  "assertValidResponsesPayload payload provider model =
     (case jget payload ''input'' of
        JArr msgs \<Rightarrow> throwValidationError (validateResponsesTranscript msgs provider model) ''input''
      | _ \<Rightarrow> Some ''INVALID_TOOL_TRANSCRIPT: protocol=responses, missing input'')"

section \<open>Spans of the raw transcript\<close>

record span_report =
  si_valid :: bool
  si_missing :: "string list"
  si_orphan :: "string list"

text \<open>The state is the set of pending ids and the two lists of the report.  The messages are typed
  here, so the entries are given.\<close>

fun span_step :: "entry \<Rightarrow> string list \<times> string list \<times> string list \<Rightarrow> string list \<times> string list \<times> string list" where
  "span_step (AssistantEntry calls) (pending, miss, orph) =
     (js_set (filter (\<lambda>c. \<not> js_blank c) calls), miss @ pending, orph)"
| "span_step SkippedEntry st = st"
| "span_step (ResultEntry r) (pending, miss, orph) =
     (if r \<in> set pending then (removeAll r pending, miss, orph) else (pending, miss, orph @ [r]))"
| "span_step UserEntry (pending, miss, orph) = ([], miss @ pending, orph)"
| "span_step OtherEntry st = st"

definition validateToolSpanIntegrity :: "entry list \<Rightarrow> span_report" where
  "validateToolSpanIntegrity es =
     (case fold span_step es ([], [], []) of (pending, miss, orph) \<Rightarrow>
        \<lparr>si_valid = (miss @ pending = [] \<and> orph = []), si_missing = miss @ pending, si_orphan = orph\<rparr>)"

datatype call_status = DURABLE_RESULT_AVAILABLE | DEFINITELY_NOT_EXECUTED | EXECUTION_OUTCOME_UNKNOWN

definition classifyUnresolvedToolCall ::
  "string \<Rightarrow> string set \<Rightarrow> (string \<rightharpoonup> 'm) \<Rightarrow> string set option \<Rightarrow> call_status" where
  "classifyUnresolvedToolCall c pending persisted log =
     (if persisted c \<noteq> None then DURABLE_RESULT_AVAILABLE
      else if c \<notin> pending \<and> (case log of None \<Rightarrow> True | Some l \<Rightarrow> c \<notin> l) then DEFINITELY_NOT_EXECUTED
      else EXECUTION_OUTCOME_UNKNOWN)"

end
