(* ===== verification/Transcript_Pairing.thy ===== *)
theory Transcript_Pairing
  imports Transcript_Validation "HOL-Library.Multiset"
begin

text \<open>
  What the transcript validators accept.  \<open>paired\<close> is the declarative description: every assistant
  turn is followed, before the next user message or assistant turn, by exactly one result per call;
  \<open>accepts\<close> is the automaton over sets of ids that lies between it and the loop of the source.
\<close>

section \<open>Well-formed transcripts\<close>

definition relevant :: "entry \<Rightarrow> bool" where
  "relevant e \<longleftrightarrow> e \<noteq> SkippedEntry \<and> e \<noteq> OtherEntry"

fun entry_calls :: "entry \<Rightarrow> string list" where
  "entry_calls (AssistantEntry calls) = calls"
| "entry_calls e = []"

definition all_calls :: "entry list \<Rightarrow> string list" where
  "all_calls es = concat (map entry_calls es)"

inductive paired :: "entry list \<Rightarrow> bool" where
  empty: "paired []"
| user: "paired es \<Longrightarrow> paired (UserEntry # es)"
| turn: "paired es \<Longrightarrow> mset rs = mset calls \<Longrightarrow>
    paired (AssistantEntry calls # map ResultEntry rs @ es)"

definition fresh_calls :: "string set \<Rightarrow> entry list \<Rightarrow> bool" where
  "fresh_calls seen es \<longleftrightarrow> distinct (all_calls es) \<and> set (all_calls es) \<inter> seen = {}
     \<and> (\<forall>c \<in> set (all_calls es). \<not> js_blank c)"

definition well_formed_transcript :: "entry list \<Rightarrow> bool" where
  "well_formed_transcript es \<longleftrightarrow> paired (filter relevant es) \<and> fresh_calls {} es"

inductive_cases paired_ResultE: "paired (ResultEntry r # es)"
inductive_cases paired_UserE: "paired (UserEntry # es)"
inductive_cases paired_AssistantE: "paired (AssistantEntry calls # es)"

lemma relevant_simps [simp]:
  "relevant (AssistantEntry calls)" "relevant (ResultEntry r)" "relevant UserEntry"
  "\<not> relevant SkippedEntry" "\<not> relevant OtherEntry"
  by (simp_all add: relevant_def)

lemma all_calls_simps [simp]:
  "all_calls [] = []" "all_calls (e # es) = entry_calls e @ all_calls es"
  "all_calls (es @ fs) = all_calls es @ all_calls fs"
  by (simp_all add: all_calls_def)

lemma all_calls_results [simp]: "all_calls (map ResultEntry rs) = []"
  by (induction rs) simp_all

lemma fresh_calls_Nil [simp]: "fresh_calls S []"
  by (simp add: fresh_calls_def)

lemma fresh_calls_Cons:
  "fresh_calls S (e # es) \<longleftrightarrow> distinct (entry_calls e) \<and> set (entry_calls e) \<inter> S = {}
     \<and> (\<forall>c \<in> set (entry_calls e). \<not> js_blank c) \<and> fresh_calls (S \<union> set (entry_calls e)) es"
  by (auto simp: fresh_calls_def)

section \<open>The automaton\<close>

fun accepts :: "string set \<Rightarrow> string set \<Rightarrow> entry list \<Rightarrow> bool" where
  "accepts P S [] \<longleftrightarrow> P = {}"
| "accepts P S (AssistantEntry calls # es) \<longleftrightarrow> P = {} \<and> distinct calls \<and> set calls \<inter> S = {}
     \<and> (\<forall>c \<in> set calls. \<not> js_blank c) \<and> accepts (set calls) (S \<union> set calls) es"
| "accepts P S (SkippedEntry # es) \<longleftrightarrow> accepts P S es"
| "accepts P S (ResultEntry r # es) \<longleftrightarrow> r \<in> P \<and> accepts (P - {r}) S es"
| "accepts P S (UserEntry # es) \<longleftrightarrow> P = {} \<and> accepts {} S es"
| "accepts P S (OtherEntry # es) \<longleftrightarrow> accepts P S es"

text \<open>The pending ids are answered first, what follows is paired.\<close>

definition closes :: "string set \<Rightarrow> entry list \<Rightarrow> bool" where
  "closes P es \<longleftrightarrow> (\<exists>rs fs. es = map ResultEntry rs @ fs \<and> mset rs = mset_set P \<and> paired fs)"

lemma closes_empty [simp]: "closes {} es \<longleftrightarrow> paired es"
  by (auto simp: closes_def)

lemma closes_Nil [simp]: "finite P \<Longrightarrow> closes P [] \<longleftrightarrow> P = {}"
  by (auto simp: closes_def paired.empty mset_set_empty_iff)

lemma closes_other:
  assumes "\<forall>r. e \<noteq> ResultEntry r" and "finite P"
  shows "closes P (e # es) \<longleftrightarrow> P = {} \<and> paired (e # es)"
proof
  assume "closes P (e # es)"
  then obtain rs fs where *: "e # es = map ResultEntry rs @ fs" "mset rs = mset_set P" "paired fs"
    by (auto simp: closes_def)
  from *(1) assms(1) have "rs = []" by (cases rs) auto
  with * assms(2) show "P = {} \<and> paired (e # es)" by (simp add: mset_set_empty_iff)
qed simp

lemma closes_result:
  assumes "finite P"
  shows "closes P (ResultEntry r # es) \<longleftrightarrow> r \<in> P \<and> closes (P - {r}) es"
proof
  assume "closes P (ResultEntry r # es)"
  then obtain rs fs where *: "ResultEntry r # es = map ResultEntry rs @ fs" "mset rs = mset_set P" "paired fs"
    by (auto simp: closes_def)
  from *(1,3) obtain ss where ss: "rs = r # ss" "es = map ResultEntry ss @ fs"
    by (cases rs) (auto elim: paired_ResultE)
  then have r: "r \<in> P" using *(2) assms by (metis elem_mset_set list.set_intros(1) set_mset_mset)
  then have "mset ss = mset_set (P - {r})"
    using *(2) assms ss(1) by (simp add: mset_set.remove)
  with r ss(2) *(3) show "r \<in> P \<and> closes (P - {r}) es" by (auto simp: closes_def)
next
  assume r: "r \<in> P \<and> closes (P - {r}) es"
  then obtain rs fs where "es = map ResultEntry rs @ fs" "mset rs = mset_set (P - {r})" "paired fs"
    by (auto simp: closes_def)
  then have "ResultEntry r # es = map ResultEntry (r # rs) @ fs" "mset (r # rs) = mset_set P"
    using r assms mset_set.remove [of P r] by simp_all
  with \<open>paired fs\<close> show "closes P (ResultEntry r # es)" unfolding closes_def by blast
qed

lemma paired_turn:
  assumes "distinct calls"
  shows "paired (AssistantEntry calls # es) \<longleftrightarrow> closes (set calls) es"
  using assms by (auto simp: closes_def mset_set_set intro: paired.turn elim!: paired_AssistantE)

lemma accepts_iff:
  assumes "finite P"
  shows "accepts P S es \<longleftrightarrow> closes P (filter relevant es) \<and> fresh_calls S es"
  using assms
proof (induction P S es rule: accepts.induct)
  case (2 P S calls es)
  then show ?case
    using paired_turn [of calls "filter relevant es"]
    by (auto simp: closes_other fresh_calls_Cons)
next
  case (5 P S es)
  then show ?case by (auto simp: closes_other fresh_calls_Cons intro: paired.user elim: paired_UserE)
qed (auto simp: fresh_calls_Cons closes_result)

lemma accepts_well_formed: "accepts {} {} es \<longleftrightarrow> well_formed_transcript es"
  by (simp add: accepts_iff well_formed_transcript_def)

section \<open>The loop of the source implements the automaton\<close>

definition seen_calls :: "scan \<Rightarrow> string set" where
  "seen_calls s = dom (sc_seenCalls s)"

lemma mark_error_simps [simp]:
  "scan_clean (mark_error i s) = scan_clean s" "pending_ids (mark_error i s) = pending_ids s"
  "seen_calls (mark_error i s) = seen_calls s" "sc_span (mark_error i s) = sc_span s"
  "sc_seenCalls (mark_error i s) = sc_seenCalls s"
  by (simp_all add: mark_error_def scan_clean_def pending_ids_def seen_calls_def)

lemma update_clean [simp]:
  "scan_clean (s\<lparr>sc_missing := xs @ [x]\<rparr>) \<longleftrightarrow> False"
  "scan_clean (s\<lparr>sc_orphan := xs @ [x]\<rparr>) \<longleftrightarrow> False"
  "scan_clean (s\<lparr>sc_duplicate := xs @ [x]\<rparr>) \<longleftrightarrow> False"
  "scan_clean (s\<lparr>sc_duplicateCalls := xs @ [x]\<rparr>) \<longleftrightarrow> False"
  "scan_clean (s\<lparr>sc_span := sp\<rparr>) = scan_clean s"
  "scan_clean (s\<lparr>sc_seenCalls := m\<rparr>) = scan_clean s"
  "scan_clean (s\<lparr>sc_seenResults := m\<rparr>) = scan_clean s"
  by (simp_all add: scan_clean_def)

lemma report_pending_clean:
  "scan_clean (report_pending i s) \<longleftrightarrow> scan_clean s \<and> pending_ids s = []"
  by (auto simp: report_pending_def) (auto simp: scan_clean_def)

lemma report_pending_none: "pending_ids s = [] \<Longrightarrow> report_pending i s = s"
  by (simp add: report_pending_def)

lemma report_pending_keeps [simp]:
  "pending_ids (report_pending i s) = pending_ids s" "seen_calls (report_pending i s) = seen_calls s"
  by (simp_all add: report_pending_def pending_ids_def seen_calls_def)

lemma set_set_add [simp]: "set (set_add x xs) = insert x (set xs)"
  by (auto simp: set_add_def)

lemma add_call_clean:
  "scan_clean (add_call i c s) \<longleftrightarrow> scan_clean s \<and> \<not> js_blank c \<and> c \<notin> seen_calls s"
  by (auto simp: add_call_def Let_def seen_calls_def)

lemma add_call_state:
  assumes "\<not> js_blank c" and "c \<notin> seen_calls s" and "sc_span s \<noteq> None"
  shows "set (pending_ids (add_call i c s)) = insert c (set (pending_ids s))"
    and "seen_calls (add_call i c s) = insert c (seen_calls s)"
    and "sc_span (add_call i c s) \<noteq> None"
  using assms by (auto simp: add_call_def Let_def seen_calls_def pending_ids_def)

lemma fold_add_call_clean:
  assumes "sc_span s \<noteq> None"
  shows "scan_clean (fold (add_call i) calls s) \<longleftrightarrow> scan_clean s \<and> distinct calls
      \<and> set calls \<inter> seen_calls s = {} \<and> (\<forall>c \<in> set calls. \<not> js_blank c)"
  using assms
proof (induction calls arbitrary: s)
  case (Cons c calls)
  show ?case
  proof (cases "js_blank c \<or> c \<in> seen_calls s")
    case True
    have "\<not> scan_clean t \<Longrightarrow> \<not> scan_clean (fold (add_call i) calls t)" for t
      by (induction calls arbitrary: t) (simp_all add: add_call_clean)
    then have "\<not> scan_clean (fold (add_call i) calls (add_call i c s))" using True by (simp add: add_call_clean)
    then show ?thesis using True by auto
  next
    case False
    then show ?thesis using Cons.IH [of "add_call i c s"] Cons.prems
      by (auto simp: add_call_state add_call_clean)
  qed
qed simp

lemma fold_add_call_state:
  assumes "distinct calls" and "set calls \<inter> seen_calls s = {}" and "\<forall>c \<in> set calls. \<not> js_blank c"
    and "sc_span s \<noteq> None"
  shows "set (pending_ids (fold (add_call i) calls s)) = set calls \<union> set (pending_ids s)
    \<and> seen_calls (fold (add_call i) calls s) = seen_calls s \<union> set calls"
  using assms
proof (induction calls arbitrary: s)
  case (Cons c calls)
  have "set (pending_ids (fold (add_call i) calls (add_call i c s))) = set calls \<union> set (pending_ids (add_call i c s))
    \<and> seen_calls (fold (add_call i) calls (add_call i c s)) = seen_calls (add_call i c s) \<union> set calls"
    using Cons.prems by (intro Cons.IH) (auto simp: add_call_state)
  then show ?case using Cons.prems by (auto simp: add_call_state)
qed simp

lemma take_result_clean:
  "scan_clean (take_result i r s) \<longleftrightarrow> scan_clean s \<and> \<not> js_blank r \<and> r \<in> set (pending_ids s)"
  by (auto simp: take_result_def)

lemma take_result_state:
  assumes "\<not> js_blank r" and "r \<in> set (pending_ids s)"
  shows "set (pending_ids (take_result i r s)) = set (pending_ids s) - {r}"
    and "seen_calls (take_result i r s) = seen_calls s"
  using assms by (auto simp: take_result_def seen_calls_def pending_ids_def split: option.splits)

lemma scan_entry_dirty: "\<not> scan_clean s \<Longrightarrow> \<not> scan_clean (scan_entry i e s)"
  by (cases e)
    (auto simp: scan_entry_def open_span_def fold_add_call_clean report_pending_clean take_result_clean Let_def
        split: if_splits)

lemma scan_entries_dirty: "\<not> scan_clean s \<Longrightarrow> \<not> scan_clean (scan_entries i es s)"
  by (induction es arbitrary: i s) (simp_all add: scan_entry_dirty)

lemma scan_entries_accepts:
  assumes "scan_clean s" and "\<forall>p \<in> set (pending_ids s). \<not> js_blank p"
  shows "scan_clean (scan_entries i es s) \<and> pending_ids (scan_entries i es s) = [] \<longleftrightarrow>
    accepts (set (pending_ids s)) (seen_calls s) es"
  using assms
proof (induction es arbitrary: i s)
  case (Cons e es)
  show ?case
  proof (cases e)
    case (AssistantEntry calls)
    let ?s = "s\<lparr>sc_span := Some \<lparr>sp_callIds = [], sp_assistantIndex = i\<rparr>\<rparr>"
    let ?t = "fold (add_call i) calls ?s"
    let ?ok = "pending_ids s = [] \<and> distinct calls \<and> set calls \<inter> seen_calls s = {} \<and> (\<forall>c \<in> set calls. \<not> js_blank c)"
    have s: "sc_span ?s \<noteq> None" "scan_clean ?s" "pending_ids ?s = []" "seen_calls ?s = seen_calls s"
      using Cons.prems by (simp_all add: pending_ids_def seen_calls_def)
    show ?thesis
    proof (cases ?ok)
      case False
      then have "\<not> scan_clean (scan_entry i e s)"
        using AssistantEntry fold_add_call_clean [OF s(1)] s
        by (auto simp: scan_entry_def open_span_def report_pending_clean report_pending_none fold_add_call_clean
            seen_calls_def Let_def)
      then show ?thesis using False AssistantEntry scan_entries_dirty by auto
    next
      case True
      then have t: "set (pending_ids ?t) = set calls" "seen_calls ?t = seen_calls s \<union> set calls" "scan_clean ?t"
        using fold_add_call_state [of calls ?s i] fold_add_call_clean [OF s(1), of i calls] s by auto
      have "scan_entry i e s = (if calls = [] then s else ?t)"
        using True AssistantEntry by (simp add: scan_entry_def open_span_def report_pending_none)
      then show ?thesis
        using True AssistantEntry Cons.IH [of s "Suc i"] Cons.IH [of ?t "Suc i"] Cons.prems t by auto
    qed
  next
    case (ResultEntry r)
    show ?thesis
    proof (cases "r \<in> set (pending_ids s)")
      case True
      then show ?thesis
        using ResultEntry Cons.IH [of "take_result i r s" "Suc i"] Cons.prems
        by (auto simp: scan_entry_def take_result_state take_result_clean)
    next
      case False
      then have "\<not> scan_clean (scan_entry i e s)" using ResultEntry by (simp add: scan_entry_def take_result_clean)
      then show ?thesis using False ResultEntry scan_entries_dirty by auto
    qed
  next
    case UserEntry
    let ?t = "(report_pending (int i) s)\<lparr>sc_span := None\<rparr>"
    show ?thesis
    proof (cases "pending_ids s = []")
      case True
      have "scan_clean ?t" "pending_ids ?t = []" "seen_calls ?t = seen_calls s"
        using True Cons.prems by (auto simp: report_pending_none pending_ids_def seen_calls_def)
      then show ?thesis using UserEntry True Cons.IH [of ?t "Suc i"] by (simp add: scan_entry_def)
    next
      case False
      then have "\<not> scan_clean (scan_entry i e s)" using UserEntry by (simp add: scan_entry_def report_pending_clean)
      then show ?thesis using False UserEntry scan_entries_dirty by auto
    qed
  qed (use Cons in \<open>simp_all add: scan_entry_def\<close>)
qed simp

lemma scan_all_clean: "scan_clean (scan_all es) \<longleftrightarrow> well_formed_transcript es"
proof -
  let ?s = "scan_entries 0 es scan_start"
  have "scan_clean (scan_all es) \<longleftrightarrow> scan_clean ?s \<and> pending_ids ?s = []"
    by (simp add: scan_all_def Let_def report_pending_clean)
  also have "\<dots> \<longleftrightarrow> accepts {} {} es"
    using scan_entries_accepts [of scan_start 0 es]
    by (simp add: scan_start_def scan_clean_def pending_ids_def seen_calls_def)
  finally show ?thesis by (simp add: accepts_well_formed)
qed

lemma validate_transcript_iff:
  "validate_transcript p msgs provider model = ValidTranscript \<longleftrightarrow>
    (\<exists>es. read_messages (normalizeMessages msgs p) = Some es \<and> well_formed_transcript es)"
  by (auto simp: validate_transcript_def scan_verdict_def scan_all_clean split: option.splits)

end
