(* ===== verification/Transcript_Claims.thy ===== *)
theory Transcript_Claims
  imports Transcript_Pairing
begin

text \<open>
  The properties of transcript validation: what the validators accept on arbitrary payloads, what the
  two wire formats normalize to, and how the span check on raw messages relates to them.
\<close>

section \<open>The wire formats\<close>

definition id_text :: "json \<Rightarrow> string" where
  "id_text v = (case v of JStr s \<Rightarrow> s | _ \<Rightarrow> [])"

definition chat_call_id :: "json \<Rightarrow> string" where
  "chat_call_id call = (if is_object call then id_text (jget call ''id'') else [])"

text \<open>What a Chat Completions message means: user, assistant with its calls, or tool result.\<close>

definition chat_entries :: "json \<Rightarrow> entry list" where
  "chat_entries raw =
     (if has_role ''assistant'' raw
      then [AssistantEntry (map chat_call_id (array_items (jget raw ''tool_calls'')))]
      else if has_role ''tool'' raw then [ResultEntry (id_text (jget raw ''tool_call_id''))]
      else if has_role ''user'' raw then [UserEntry]
      else [])"

text \<open>In the Responses format consecutive function calls form one assistant turn.\<close>

fun responses_entries :: "string list \<Rightarrow> json list \<Rightarrow> entry list" where
  "responses_entries cs [] = (if cs = [] then [] else [AssistantEntry cs])"
| "responses_entries cs (raw # msgs) =
     (if \<not> is_object raw then responses_entries cs msgs
      else if has_type ''function_call'' raw
      then responses_entries (cs @ [id_text (jget raw ''call_id'')]) msgs
      else (if cs = [] then [] else [AssistantEntry cs])
        @ (if has_type ''function_call_output'' raw then [ResultEntry (id_text (jget raw ''call_id''))]
           else if has_role ''user'' raw then [UserEntry] else [])
        @ responses_entries [] msgs)"

lemma all_some_append:
  "all_some xs = Some as \<Longrightarrow> all_some ys = Some bs \<Longrightarrow> all_some (xs @ ys) = Some (as @ bs)"
  by (induction xs arbitrary: as) (auto split: option.splits)

lemma all_some_map: "(\<And>x. x \<in> set xs \<Longrightarrow> f x = Some (g x)) \<Longrightarrow> all_some (map f xs) = Some (map g xs)"
  by (induction xs) auto

lemma read_messages_append:
  "read_messages xs = Some as \<Longrightarrow> read_messages ys = Some bs \<Longrightarrow> read_messages (xs @ ys) = Some (as @ bs)"
  by (simp add: read_messages_def all_some_append)

lemma read_string_or_empty: "read_id (string_or_empty v) = Some (id_text v)"
  by (auto simp: read_id_def string_or_empty_def id_text_def is_string_def truthy_def split: json.splits)

lemma read_tool_call [simp]:
  "has_type ''toolCall'' (asToolCall i n)" "\<not> nullish (asToolCall i n)"
  "read_id (jget (asToolCall i n) ''id'') = Some (id_text i)"
  by (simp_all add: has_type_def asToolCall_def nullish_def read_string_or_empty)

lemma read_calls_tool_calls:
  assumes "\<forall>b \<in> set bs. \<exists>i n. b = asToolCall i n"
  shows "read_calls (JArr bs) = Some (map (\<lambda>b. id_text (jget b ''id'')) bs)"
proof -
  have "filter (has_type ''toolCall'') bs = bs" "\<not> list_ex nullish bs" using assms by (auto simp: filter_id_conv list_ex_iff)
  moreover have "all_some (map (\<lambda>b. read_id (jget b ''id'')) bs) = Some (map (\<lambda>b. id_text (jget b ''id'')) bs)"
  proof (rule all_some_map)
    fix b
    assume "b \<in> set bs"
    then obtain i n where "b = asToolCall i n" using assms by blast
    then show "read_id (jget b ''id'') = Some (id_text (jget b ''id''))"
      by (simp add: asToolCall_def read_string_or_empty) (simp add: string_or_empty_def id_text_def is_string_def split: json.splits)
  qed
  ultimately show ?thesis by (simp add: read_calls_def is_array_def array_items_def)
qed

lemma read_normalized [simp]:
  "read_message asUserMessage = Some UserEntry"
  "read_message (asToolResult i) = Some (ResultEntry (id_text i))"
  "read_message (asAssistantMessage bs) = map_option AssistantEntry (read_calls (JArr bs))"
  by (simp_all add: read_message_def asUserMessage_def asToolResult_def asAssistantMessage_def nullish_def
      has_role_def stopped_def read_string_or_empty)

lemma id_text_call [simp]: "id_text (jget (asToolCall i n) ''id'') = id_text i"
  by (simp add: asToolCall_def string_or_empty_def id_text_def is_string_def split: json.splits)

lemma chat_tool_call_is: "\<exists>i n. chat_tool_call b = asToolCall i n"
  by (simp add: chat_tool_call_def) blast

lemma id_text_chat_call: "id_text (jget (chat_tool_call b) ''id'') = chat_call_id b"
  by (auto simp: chat_tool_call_def chat_call_id_def) (simp add: id_text_def)

lemma read_normalize_chat: "read_messages (normalize_chat raw) = Some (chat_entries raw)"
  using read_calls_tool_calls [of "map chat_tool_call (array_items (jget raw ''tool_calls''))"] chat_tool_call_is
  by (auto simp: normalize_chat_def chat_entries_def read_messages_def comp_def id_text_chat_call)

lemma read_chat:
  "read_messages (normalizeChatCompletionsMessages msgs) = Some (concat (map chat_entries msgs))"
proof (induction msgs)
  case Nil
  show ?case by (simp add: normalizeChatCompletionsMessages_def read_messages_def)
next
  case (Cons raw msgs)
  show ?case
    using read_messages_append [OF read_normalize_chat Cons.IH]
    by (simp add: normalizeChatCompletionsMessages_def)
qed

lemma read_responses:
  assumes "\<forall>b \<in> set pending. \<exists>i n. b = asToolCall i n"
  shows "read_messages (normalize_responses pending msgs) =
    Some (responses_entries (map (\<lambda>b. id_text (jget b ''id'')) pending) msgs)"
  using assms
proof (induction pending msgs rule: normalize_responses.induct)
  case (1 pending)
  then show ?case by (auto simp: flush_calls_def read_messages_def read_calls_tool_calls)
next
  case (2 pending raw msgs)
  have flush: "read_messages (flush_calls pending) =
      Some (if pending = [] then [] else [AssistantEntry (map (\<lambda>b. id_text (jget b ''id'')) pending)])"
    using 2(4) by (auto simp: flush_calls_def read_messages_def read_calls_tool_calls)
  show ?case
  proof (cases "is_object raw \<and> \<not> has_type ''function_call'' raw")
    case False
    then show ?thesis using 2(1,2,4) by auto
  next
    case True
    let ?mid = "if has_type ''function_call_output'' raw then [asToolResult (jget raw ''call_id'')]
        else if has_role ''user'' raw then [asUserMessage] else []"
    have mid: "read_messages ?mid = Some (if has_type ''function_call_output'' raw
        then [ResultEntry (id_text (jget raw ''call_id''))] else if has_role ''user'' raw then [UserEntry] else [])"
      by (simp add: read_messages_def)
    have rest: "read_messages (normalize_responses [] msgs) = Some (responses_entries [] msgs)"
      using 2(3) True by simp
    show ?thesis using read_messages_append [OF flush read_messages_append [OF mid rest]] True by simp
  qed
qed

section \<open>The span check\<close>

lemma span_check_iff:
  assumes "fresh_calls S es"
  shows "(case fold span_step es (P, miss, orph) of (p, m, q) \<Rightarrow> m @ p = [] \<and> q = []) \<longleftrightarrow>
    miss = [] \<and> orph = [] \<and> accepts (set P) S es"
  using assms
proof (induction es arbitrary: P S miss orph)
  case (Cons e es)
  then have fresh: "fresh_calls (S \<union> set (entry_calls e)) es" by (simp add: fresh_calls_Cons)
  note IH = Cons.IH [OF fresh]
  show ?case
  proof (cases e)
    case (AssistantEntry calls)
    then have "filter (\<lambda>c. \<not> js_blank c) calls = calls" "distinct calls" "set calls \<inter> S = {}"
      "\<forall>c \<in> set calls. \<not> js_blank c"
      using Cons.prems by (auto simp: fresh_calls_Cons filter_id_conv)
    then show ?thesis using AssistantEntry IH by (auto simp: js_set_id)
  next
    case (ResultEntry r)
    then show ?thesis using IH by (auto simp: set_removeAll)
  next
    case UserEntry
    then show ?thesis using IH by auto
  qed (use IH in simp_all)
qed auto

lemma well_formed_span_check:
  "well_formed_transcript es \<longleftrightarrow> si_valid (validateToolSpanIntegrity es) \<and> fresh_calls {} es"
proof (cases "fresh_calls {} es")
  case True
  then show ?thesis
    using span_check_iff [OF True, of "[]" "[]" "[]"] accepts_well_formed [of es]
    by (auto simp: validateToolSpanIntegrity_def split: prod.splits)
next
  case False
  then show ?thesis by (simp add: well_formed_transcript_def)
qed

section \<open>What the validators accept\<close>

text \<open>C16. On arbitrary message values the two validators accept exactly when, after
  normalization, every message is readable, the call ids of the transcript are non-blank and pairwise
  different, and every assistant turn is followed by exactly one result per call, in any order, before
  the next user message or assistant turn; they end in an exception exactly when a message is unreadable.
  A Chat Completions or Responses payload that is normalized is always readable and means the sequence
  of turns its items describe, consecutive function calls forming one turn.\<close>

theorem transcript_validator_exact:
  "(validateChatCompletionsTranscript msgs provider model = ValidTranscript \<longleftrightarrow>
      (\<exists>es. read_messages (normalizeMessages msgs ChatCompletions) = Some es \<and> well_formed_transcript es)) \<and>
   (validateResponsesTranscript msgs provider model = ValidTranscript \<longleftrightarrow>
      (\<exists>es. read_messages (normalizeMessages msgs Responses) = Some es \<and> well_formed_transcript es)) \<and>
   (validateChatCompletionsTranscript msgs provider model = ValidationTypeError \<longleftrightarrow>
      read_messages (normalizeMessages msgs ChatCompletions) = None) \<and>
   (validateResponsesTranscript msgs provider model = ValidationTypeError \<longleftrightarrow>
      read_messages (normalizeMessages msgs Responses) = None) \<and>
   read_messages (normalizeChatCompletionsMessages msgs) = Some (concat (map chat_entries msgs)) \<and>
   read_messages (normalizeResponsesMessages msgs) = Some (responses_entries [] msgs)"
proof -
  have "validate_transcript p msgs provider model = ValidationTypeError \<longleftrightarrow>
      read_messages (normalizeMessages msgs p) = None" for p
    by (simp add: validate_transcript_def scan_verdict_def split: option.splits)
  then show ?thesis
    using read_responses [of "[]" msgs]
    by (simp add: validateChatCompletionsTranscript_def validateResponsesTranscript_def validate_transcript_iff
        read_chat normalizeResponsesMessages_def)
qed

text \<open>On a raw transcript the acceptance of the validators splits into two independent
  parts: the span check of the raw messages succeeds, and no call id is blank or used twice.  So the span
  check refuses nothing a validator accepts, and accepts only more when ids are blank or reused.\<close>

theorem span_check_complements:
  "scan_clean (scan_all es) \<longleftrightarrow> si_valid (validateToolSpanIntegrity es) \<and> fresh_calls {} es"
  by (simp add: scan_all_clean well_formed_span_check)

section \<open>Examples\<close>

lemma text_turn_reports_twice:
  "sc_missing (scan_all [AssistantEntry [''a''], AssistantEntry [], UserEntry]) = [''a'', ''a'']"
  by code_simp

lemma late_result_after_text_turn:
  "sc_missing (scan_all [AssistantEntry [''a''], AssistantEntry [], ResultEntry ''a'']) = [''a'']
   \<and> sc_orphan (scan_all [AssistantEntry [''a''], AssistantEntry [], ResultEntry ''a'']) = []"
  by code_simp

lemma accepted_example:
  "well_formed_transcript [UserEntry, AssistantEntry [''a'', ''b''], ResultEntry ''b'', OtherEntry,
     ResultEntry ''a'', AssistantEntry []]"
  unfolding scan_all_clean [symmetric] by code_simp

end
