(* ===== verification/Agent_Messages.thy ===== *)
theory Agent_Messages
  imports Transcript_Pairing
begin

text \<open>
  The messages of the agent (\<open>ai/src/types.ts\<close>, \<open>agent/src/types.ts\<close>), with the custom messages the
  coding agent adds, their conversion for a model (\<open>coding-agent/src/core/messages.ts\<close>) and the
  transcript check the agent loop makes before it calls one.  Time stamps, usage counters and provider
  signatures, which none of this code reads, are left out.
\<close>

section \<open>Messages\<close>

record call_block =
  cb_id :: string
  cb_name :: string
  cb_arguments :: json

datatype block =
    TextBlock string
  | ThinkingBlock string
  | ImageBlock string string
  | ToolCallBlock call_block

datatype stop_reason = Stop_stop | Stop_length | Stop_toolUse | Stop_error | Stop_aborted

datatype user_content = PlainText string | Blocks "block list"

record assistant_message =
  am_content :: "block list"
  am_api :: string
  am_provider :: string
  am_model :: string
  am_stopReason :: stop_reason
  am_errorMessage :: "string option"

text \<open>The content of a tool result is declared as an array; it is an option here because the loop
  can build a message whose content is \<open>undefined\<close>.\<close>

record tool_result_message =
  tm_toolCallId :: string
  tm_toolName :: string
  tm_content :: "block list option"
  tm_details :: "json option"
  tm_isError :: bool
  tm_excludeFromContext :: bool

record bash_execution =
  bx_command :: string
  bx_output :: string
  bx_exitCode :: "int option"
  bx_cancelled :: bool
  bx_truncated :: bool
  bx_fullOutputPath :: "string option"
  bx_excludeFromContext :: bool

datatype agent_message =
    UserMessage user_content
  | AssistantMessage assistant_message
  | ToolResult tool_result_message
  | BashExecution bash_execution
  | CustomMessage string user_content
  | BranchSummary string string
  | CompactionSummary string int
  | MemoryContext string

fun tool_calls_of :: "block list \<Rightarrow> call_block list" where
  "tool_calls_of [] = []"
| "tool_calls_of (ToolCallBlock c # bs) = c # tool_calls_of bs"
| "tool_calls_of (b # bs) = tool_calls_of bs"

definition stop_failed :: "stop_reason \<Rightarrow> bool" where
  "stop_failed r \<longleftrightarrow> r = Stop_error \<or> r = Stop_aborted"

fun is_assistant :: "agent_message \<Rightarrow> bool" where
  "is_assistant (AssistantMessage a) = True"
| "is_assistant m = False"

section \<open>Conversion for the model\<close>

definition defaultConvertToLlm :: "agent_message list \<Rightarrow> agent_message list" where
  "defaultConvertToLlm = filter (\<lambda>m. case m of UserMessage _ \<Rightarrow> True | AssistantMessage _ \<Rightarrow> True
      | ToolResult _ \<Rightarrow> True | _ \<Rightarrow> False)"

definition newline :: string where
  "newline = [CHR 0x0A]"

definition fence :: string where
  "fence = [CHR 0x60, CHR 0x60, CHR 0x60]"

definition COMPACTION_SUMMARY_PREFIX :: string where
  "COMPACTION_SUMMARY_PREFIX =
     ''The conversation history before this point was compacted into the following summary:''
     @ newline @ newline @ ''<summary>'' @ newline"

definition COMPACTION_SUMMARY_SUFFIX :: string where
  "COMPACTION_SUMMARY_SUFFIX = newline @ ''</summary>''"

definition BRANCH_SUMMARY_PREFIX :: string where
  "BRANCH_SUMMARY_PREFIX =
     ''The following is a summary of a branch that this conversation came back from:''
     @ newline @ newline @ ''<summary>'' @ newline"

definition BRANCH_SUMMARY_SUFFIX :: string where
  "BRANCH_SUMMARY_SUFFIX = ''</summary>''"

definition bashExecutionToText :: "bash_execution \<Rightarrow> string" where
  "bashExecutionToText m =
     ''Ran '' @ [CHR 0x60] @ bx_command m @ [CHR 0x60] @ newline
     @ (if bx_output m \<noteq> [] then fence @ newline @ bx_output m @ newline @ fence else ''(no output)'')
     @ (if bx_cancelled m then newline @ newline @ ''(command cancelled)''
        else case bx_exitCode m of
          None \<Rightarrow> []
        | Some c \<Rightarrow> if c \<noteq> 0 then newline @ newline @ ''Command exited with code '' @ int_text c else [])
     @ (if bx_truncated m \<and> \<not> js_falsy (bx_fullOutputPath m)
        then newline @ newline @ ''[Output truncated. Full output: '' @ the (bx_fullOutputPath m) @ '']'' else [])"

definition user_text :: "string \<Rightarrow> agent_message" where
  "user_text t = UserMessage (Blocks [TextBlock t])"

fun convert_message :: "agent_message \<Rightarrow> agent_message list" where
  "convert_message (BashExecution m) =
     (if bx_excludeFromContext m then [] else [user_text (bashExecutionToText m)])"
| "convert_message (CustomMessage ty c) =
     [UserMessage (case c of PlainText t \<Rightarrow> Blocks [TextBlock t] | Blocks bs \<Rightarrow> Blocks bs)]"
| "convert_message (BranchSummary s from) =
     [user_text (BRANCH_SUMMARY_PREFIX @ s @ BRANCH_SUMMARY_SUFFIX)]"
| "convert_message (CompactionSummary s n) =
     [user_text (COMPACTION_SUMMARY_PREFIX @ s @ COMPACTION_SUMMARY_SUFFIX)]"
| "convert_message (MemoryContext t) = [user_text t]"
| "convert_message (UserMessage c) = [UserMessage c]"
| "convert_message (ToolResult r) = (if tm_excludeFromContext r then [] else [ToolResult r])"
| "convert_message (AssistantMessage a) = [AssistantMessage a]"

definition convertToLlm :: "agent_message list \<Rightarrow> agent_message list" where
  "convertToLlm ms = concat (map convert_message ms)"

section \<open>Messages as values\<close>

text \<open>The object a message is, as the transcript validators see it.\<close>

fun block_value :: "block \<Rightarrow> json" where
  "block_value (TextBlock t) = JObj [(''type'', JStr ''text''), (''text'', JStr t)]"
| "block_value (ThinkingBlock t) = JObj [(''type'', JStr ''thinking''), (''thinking'', JStr t)]"
| "block_value (ImageBlock d m) = JObj [(''type'', JStr ''image''), (''data'', JStr d), (''mimeType'', JStr m)]"
| "block_value (ToolCallBlock c) = JObj [(''type'', JStr ''toolCall''), (''id'', JStr (cb_id c)),
     (''name'', JStr (cb_name c)), (''arguments'', cb_arguments c)]"

definition stop_text :: "stop_reason \<Rightarrow> string" where
  "stop_text r = (case r of Stop_stop \<Rightarrow> ''stop'' | Stop_length \<Rightarrow> ''length'' | Stop_toolUse \<Rightarrow> ''toolUse''
     | Stop_error \<Rightarrow> ''error'' | Stop_aborted \<Rightarrow> ''aborted'')"

definition optional_value :: "('a \<Rightarrow> json) \<Rightarrow> 'a option \<Rightarrow> json" where
  "optional_value f x = (case x of None \<Rightarrow> JUndefined | Some v \<Rightarrow> f v)"

definition content_value :: "user_content \<Rightarrow> json" where
  "content_value c = (case c of PlainText t \<Rightarrow> JStr t | Blocks bs \<Rightarrow> JArr (map block_value bs))"

fun message_value :: "agent_message \<Rightarrow> json" where
  "message_value (UserMessage c) = JObj [(''role'', JStr ''user''), (''content'', content_value c)]"
| "message_value (AssistantMessage a) = JObj
     [(''role'', JStr ''assistant''), (''content'', JArr (map block_value (am_content a))),
      (''api'', JStr (am_api a)), (''provider'', JStr (am_provider a)), (''model'', JStr (am_model a)),
      (''stopReason'', JStr (stop_text (am_stopReason a))),
      (''errorMessage'', optional_value JStr (am_errorMessage a))]"
| "message_value (ToolResult r) = JObj
     [(''role'', JStr ''toolResult''), (''toolCallId'', JStr (tm_toolCallId r)),
      (''toolName'', JStr (tm_toolName r)),
      (''content'', optional_value (\<lambda>bs. JArr (map block_value bs)) (tm_content r)),
      (''details'', optional_value id (tm_details r)), (''isError'', JBool (tm_isError r))]"
| "message_value (BashExecution m) = JObj [(''role'', JStr ''bashExecution''), (''command'', JStr (bx_command m))]"
| "message_value (CustomMessage ty c) = JObj [(''role'', JStr ''custom''), (''customType'', JStr ty),
     (''content'', content_value c)]"
| "message_value (BranchSummary s from) = JObj [(''role'', JStr ''branchSummary''), (''summary'', JStr s),
     (''fromId'', JStr from)]"
| "message_value (CompactionSummary s n) = JObj [(''role'', JStr ''compactionSummary''), (''summary'', JStr s),
     (''tokensBefore'', JNum (IntNum n))]"
| "message_value (MemoryContext t) = JObj [(''role'', JStr ''memoryContext''), (''content'', JStr t)]"

section \<open>The check before a model is called\<close>

record model_ref =
  md_api :: string
  md_provider :: string
  md_id :: string

definition uses_responses :: "model_ref \<Rightarrow> bool" where
  "uses_responses m \<longleftrightarrow>
     md_api m \<in> {''openai-responses'', ''azure-openai-responses'', ''openai-codex-responses''}"

definition or_unknown :: "string \<Rightarrow> string" where
  "or_unknown s = (if s = [] then ''unknown'' else s)"

datatype transcript_check = TranscriptOk | TranscriptRejected string | TranscriptThrows

definition validateTranscriptForModel :: "agent_message list \<Rightarrow> model_ref \<Rightarrow> transcript_check" where
  "validateTranscriptForModel ms m =
     (let validator = (if uses_responses m then validateResponsesTranscript else validateChatCompletionsTranscript)
      in case validator (map message_value ms) (or_unknown (md_provider m)) (or_unknown (md_id m)) of
        ValidTranscript \<Rightarrow> TranscriptOk
      | ValidationTypeError \<Rightarrow> TranscriptThrows
      | InvalidTranscript e \<Rightarrow> TranscriptRejected
          (''Transcript validation failed: protocol='' @ protocol_name (te_protocol e) @ '', ''
           @ ''missingToolCallIds='' @ id_list_text (te_missing e) @ '', ''
           @ ''duplicateToolCallIds='' @ id_list_text (te_duplicate e) @ '', ''
           @ ''orphanToolResultIds='' @ id_list_text (te_orphan e) @ '', ''
           @ ''duplicateCallIds='' @ id_list_text (te_duplicateCalls e) @ '', ''
           @ ''provider='' @ te_provider e @ '', model='' @ te_model e
           @ '', messageIndex='' @ int_text (te_index e)))"

section \<open>The entry of a message\<close>

fun message_entry :: "agent_message \<Rightarrow> entry" where
  "message_entry (UserMessage c) = UserEntry"
| "message_entry (AssistantMessage a) =
     (if stop_failed (am_stopReason a) then SkippedEntry
      else AssistantEntry (map cb_id (tool_calls_of (am_content a))))"
| "message_entry (ToolResult r) = ResultEntry (tm_toolCallId r)"
| "message_entry m = OtherEntry"

lemma block_value_facts [simp]:
  "\<not> nullish (block_value b)" "is_object (block_value b)"
  "has_type ''toolCall'' (block_value b) \<longleftrightarrow> (\<exists>c. b = ToolCallBlock c)"
  by (cases b; simp add: nullish_def has_type_def)+

lemma read_block_ids:
  "all_some (map (\<lambda>b. read_id (jget b ''id'')) (filter (has_type ''toolCall'') (map block_value bs))) =
     Some (map cb_id (tool_calls_of bs))"
  by (induction bs rule: tool_calls_of.induct) (simp_all add: read_id_def has_type_def)

lemma read_block_calls: "read_calls (JArr (map block_value bs)) = Some (map cb_id (tool_calls_of bs))"
  by (simp add: read_calls_def is_array_def array_items_def read_block_ids list_ex_iff comp_def)

lemma stopped_value: "stopped (message_value (AssistantMessage a)) = stop_failed (am_stopReason a)"
  by (cases "am_stopReason a") (simp_all add: stopped_def stop_text_def stop_failed_def)

lemma read_message_value: "read_message (message_value m) = Some (message_entry m)"
proof (cases m)
  case (AssistantMessage a)
  then show ?thesis
    using stopped_value [of a] by (simp add: read_message_def nullish_def has_role_def read_block_calls)
qed (simp_all add: read_message_def nullish_def has_role_def read_id_def)

lemma read_message_values: "read_messages (map message_value ms) = Some (map message_entry ms)"
  by (induction ms) (simp_all add: read_messages_def read_message_value)

text \<open>Messages without a call and without a result are accepted by both protocols, however they are
  normalized.\<close>

definition call_free :: "entry \<Rightarrow> bool" where
  "call_free e \<longleftrightarrow> entry_calls e = [] \<and> (\<forall>r. e \<noteq> ResultEntry r)"

lemma call_free_accepts: "list_all call_free es \<Longrightarrow> accepts {} S es"
proof (induction es)
  case (Cons e es)
  then show ?case by (cases e) (auto simp: call_free_def)
qed simp

lemma call_free_well_formed: "list_all call_free es \<Longrightarrow> well_formed_transcript es"
  by (simp add: call_free_accepts flip: accepts_well_formed)

lemma normalize_responses_values:
  assumes "\<forall>m \<in> set vs. is_object m \<and> \<not> has_type ''function_call'' m \<and> \<not> has_type ''function_call_output'' m"
  shows "\<exists>es. read_messages (normalize_responses [] vs) = Some es \<and> list_all call_free es"
  using assms
proof (induction vs)
  case Nil
  show ?case by (simp add: flush_calls_def read_messages_def)
next
  case (Cons v vs)
  then obtain es where es: "read_messages (normalize_responses [] vs) = Some es" "list_all call_free es" by auto
  have "read_message asUserMessage = Some UserEntry"
    by (simp add: read_message_def asUserMessage_def nullish_def has_role_def)
  then show ?case
    using es Cons.prems by (auto simp: read_messages_def flush_calls_def) (simp_all add: call_free_def)
qed

lemma value_shapes [simp]:
  "is_object (message_value m)" "\<not> has_type t (message_value m)" "\<not> has_role ''tool'' (message_value m)"
  "\<not> is_array (jget (message_value m) ''tool_calls'')"
  "has_role ''assistant'' (message_value m) \<Longrightarrow> has_key ''api'' (message_value m)"
  by (cases m; simp add: has_type_def has_role_def has_key_def is_array_def)+

lemma no_tool_calls: "\<forall>c. ToolCallBlock c \<notin> set bs \<Longrightarrow> tool_calls_of bs = []"
  by (induction bs rule: tool_calls_of.induct) auto

lemma value_without_calls:
  assumes "\<not> has_role ''toolResult'' (message_value m)"
    and "\<not> (has_role ''assistant'' (message_value m)
       \<and> list_ex (has_type ''toolCall'') (array_items (jget (message_value m) ''content'')))"
  shows "call_free (message_entry m)"
proof (cases m)
  case (AssistantMessage a)
  then have "\<forall>c. ToolCallBlock c \<notin> set (am_content a)"
    using assms(2) by (auto simp: has_role_def array_items_def list_ex_iff)
  then show ?thesis using AssistantMessage by (simp add: call_free_def no_tool_calls)
qed (use assms in \<open>simp_all add: call_free_def has_role_def\<close>)

lemma normalized_values:
  "normalizeMessages (map message_value ms) p =
    (if list_all (\<lambda>m. call_free (message_entry m)) ms \<and> p = Responses
       \<and> \<not> list_ex (has_role ''toolResult'') (map message_value ms)
       \<and> \<not> list_ex (\<lambda>m. has_role ''assistant'' m
            \<and> list_ex (has_type ''toolCall'') (array_items (jget m ''content''))) (map message_value ms)
     then normalize_responses [] (map message_value ms)
     else map message_value ms)"
proof -
  have *: "list_all (\<lambda>m. call_free (message_entry m)) ms"
    if "\<not> list_ex (has_role ''toolResult'') (map message_value ms)"
      and "\<not> list_ex (\<lambda>m. has_role ''assistant'' m
            \<and> list_ex (has_type ''toolCall'') (array_items (jget m ''content''))) (map message_value ms)"
    using that value_without_calls by (auto simp: list_ex_iff list_all_iff)
  have no_api: "\<not> list_ex (\<lambda>m. has_role ''assistant'' m \<and> \<not> has_key ''api'' m) (map message_value ms)"
    by (auto simp: list_ex_iff)
  have no_wire: "\<not> list_ex (\<lambda>m. has_type ''function_call'' m \<or> has_type ''function_call_output'' m) (map message_value ms)"
    by (auto simp: list_ex_iff)
  have no_chat: "list_ex (\<lambda>m. is_object m \<and> (has_role ''tool'' m \<or> is_array (jget m ''tool_calls'')
      \<or> has_role ''toolResult'' m)) (map message_value ms) \<longleftrightarrow> list_ex (has_role ''toolResult'') (map message_value ms)"
    by (auto simp: list_ex_iff)
  show ?thesis using * no_api no_wire no_chat
    by (simp add: normalizeMessages_def normalizeResponsesMessages_def)
qed

lemma validate_messages:
  "validate_transcript p (map message_value ms) provider model = ValidTranscript \<longleftrightarrow>
     well_formed_transcript (map message_entry ms)"
  "validate_transcript p (map message_value ms) provider model \<noteq> ValidationTypeError"
proof -
  have shapes: "\<forall>m \<in> set (map message_value ms). is_object m \<and> \<not> has_type ''function_call'' m
      \<and> \<not> has_type ''function_call_output'' m" by simp
  obtain es where es: "read_messages (normalize_responses [] (map message_value ms)) = Some es" "list_all call_free es"
    using normalize_responses_values [OF shapes] by blast
  have free: "well_formed_transcript (map message_entry ms)"
    if "list_all (\<lambda>m. call_free (message_entry m)) ms"
    using that by (intro call_free_well_formed) (simp add: list_all_iff)
  show "validate_transcript p (map message_value ms) provider model = ValidTranscript \<longleftrightarrow>
     well_formed_transcript (map message_entry ms)"
    using es call_free_well_formed [OF es(2)] free
    by (auto simp: validate_transcript_iff normalized_values read_message_values)
  show "validate_transcript p (map message_value ms) provider model \<noteq> ValidationTypeError"
    using es by (auto simp: validate_transcript_def normalized_values read_message_values scan_verdict_def)
qed

lemma transcript_check_iff:
  "validateTranscriptForModel ms m = TranscriptOk \<longleftrightarrow> well_formed_transcript (map message_entry ms)"
  "validateTranscriptForModel ms m \<noteq> TranscriptThrows"
  using validate_messages [of _ ms]
  by (auto simp: validateTranscriptForModel_def validateResponsesTranscript_def
      validateChatCompletionsTranscript_def Let_def split: validation.splits)

end
