(* ===== verification/Agent_Loop.thy ===== *)
theory Agent_Loop
  imports Agent_Messages Tool_Batch
begin

text \<open>
  The agent loop, \<open>agent/src/agent-loop.ts\<close>.  One iteration of the loops of \<open>runLoop\<close> is the function
  \<open>loop_step\<close> on a loop state; \<open>loop_moves\<close> closes it under what the loop cannot control.  Everything
  outside the loop is an argument: the hooks, the tools and the conversion are fields of the
  configuration, the queues behind \<open>getSteeringMessages\<close> and \<open>getFollowUpMessages\<close> are the
  component \<open>ls_world\<close> of the state, and what the model streams and how the parallel scheduler
  interleaves the calls is the input of a step.  An exception that leaves the loop is the status \<open>Failed\<close>.
\<close>

section \<open>Tools, hooks and configuration\<close>

record tool_output =
  to_content :: "block list"
  to_details :: "json option"

text \<open>A result inside the loop is an object with a content and details, either of which may be
  \<open>undefined\<close>, or a bare string, which the scheduler passes on for a call it cancelled.\<close>

datatype call_result = Executed "block list option" "json option" | Bare string

fun res_content :: "call_result \<Rightarrow> block list option" where
  "res_content (Executed c d) = c"
| "res_content (Bare s) = None"

fun res_details :: "call_result \<Rightarrow> json option" where
  "res_details (Executed c d) = d"
| "res_details (Bare s) = None"

definition output_result :: "tool_output \<Rightarrow> call_result" where
  "output_result r = Executed (Some (to_content r)) (to_details r)"

text \<open>\<open>isConcurrencySafe\<close> may be absent, and it may throw (\<open>None\<close>).\<close>

record agent_tool =
  at_name :: string
  at_effects :: "tool_effects option"
  at_isConcurrencySafe :: "(json \<Rightarrow> bool option) option"

record before_result =
  br_block :: bool
  br_reason :: "string option"

record after_result =
  ar_content :: "block list option"
  ar_details :: "json option"
  ar_isError :: "bool option"

record 'q loop_config =
  cf_model :: model_ref
  cf_tools :: "agent_tool list option"
  cf_sequential :: bool
  cf_validate :: "agent_tool \<Rightarrow> call_block \<Rightarrow> string + json"
  cf_before :: "(call_block \<Rightarrow> json \<Rightarrow> string + before_result option) option"
  cf_after :: "(call_block \<Rightarrow> json \<Rightarrow> call_result \<Rightarrow> bool \<Rightarrow> string + after_result option) option"
  cf_execute :: "agent_tool \<Rightarrow> call_block \<Rightarrow> json \<Rightarrow> tool_output list \<times> (string + tool_output)"
  cf_convert :: "agent_message list \<Rightarrow> agent_message list"
  cf_transform :: "(agent_message list \<Rightarrow> agent_message list) option"
  cf_getSteering :: "('q \<Rightarrow> agent_message list \<times> 'q) option"
  cf_getFollowUp :: "('q \<Rightarrow> agent_message list \<times> 'q) option"

definition poll :: "('q \<Rightarrow> agent_message list \<times> 'q) option \<Rightarrow> 'q \<Rightarrow> agent_message list \<times> 'q" where
  "poll get q = (case get of None \<Rightarrow> ([], q) | Some f \<Rightarrow> f q)"

section \<open>Events\<close>

datatype agent_event =
    AgentStart
  | AgentEnd "agent_message list"
  | TurnStart
  | TurnEnd agent_message "tool_result_message list"
  | MessageStart agent_message
  | MessageUpdate agent_message
  | MessageEnd agent_message
  | ContextCacheEvent
  | ToolStart call_block
  | ToolUpdate call_block tool_output
  | ToolEnd string string call_result bool

section \<open>One tool call\<close>

definition createErrorToolResult :: "string \<Rightarrow> call_result" where
  "createErrorToolResult msg = Executed (Some [TextBlock msg]) (Some (JObj []))"

datatype preparation = Prepared agent_tool json | Immediate call_result bool

definition refuse :: "string \<Rightarrow> preparation" where
  "refuse msg = Immediate (createErrorToolResult msg) True"

definition js_or :: "string option \<Rightarrow> string \<Rightarrow> string" where
  "js_or x d = (if js_falsy x then d else the x)"

definition prepareToolCall :: "'q loop_config \<Rightarrow> call_block \<Rightarrow> preparation" where
  "prepareToolCall cf c =
     (case List.find (\<lambda>t. at_name t = cb_name c) (case cf_tools cf of None \<Rightarrow> [] | Some ts \<Rightarrow> ts) of
        None \<Rightarrow> refuse (''Tool '' @ cb_name c @ '' not found'')
      | Some tool \<Rightarrow>
          (case cf_validate cf tool c of
             Inl err \<Rightarrow> refuse err
           | Inr args \<Rightarrow>
               (case cf_before cf of
                  None \<Rightarrow> Prepared tool args
                | Some hook \<Rightarrow>
                    (case hook c args of
                       Inl err \<Rightarrow> refuse err
                     | Inr None \<Rightarrow> Prepared tool args
                     | Inr (Some b) \<Rightarrow>
                         if br_block b then refuse (js_or (br_reason b) ''Tool execution was blocked'')
                         else Prepared tool args))))"

definition tool_message :: "call_block \<Rightarrow> call_result \<Rightarrow> bool \<Rightarrow> tool_result_message" where
  "tool_message c res err =
     \<lparr>tm_toolCallId = cb_id c, tm_toolName = cb_name c, tm_content = res_content res,
      tm_details = res_details res, tm_isError = err, tm_excludeFromContext = False\<rparr>"

definition emitToolCallOutcome :: "call_block \<Rightarrow> call_result \<Rightarrow> bool \<Rightarrow> agent_event list" where
  "emitToolCallOutcome c res err =
     [ToolEnd (cb_id c) (cb_name c) res err, MessageStart (ToolResult (tool_message c res err)),
      MessageEnd (ToolResult (tool_message c res err))]"

definition executePreparedToolCall ::
  "'q loop_config \<Rightarrow> agent_tool \<Rightarrow> call_block \<Rightarrow> json \<Rightarrow> agent_event list \<times> call_result \<times> bool" where
  "executePreparedToolCall cf tool c args =
     (case cf_execute cf tool c args of (partials, outcome) \<Rightarrow>
        (map (ToolUpdate c) partials,
         case outcome of Inl err \<Rightarrow> (createErrorToolResult err, True) | Inr r \<Rightarrow> (output_result r, False)))"

text \<open>\<open>x ?? y\<close>\<close>

definition js_coalesce :: "'a option \<Rightarrow> 'a option \<Rightarrow> 'a option" where
  "js_coalesce x y = (case x of None \<Rightarrow> y | Some v \<Rightarrow> Some v)"

text \<open>The events of finalizing a call, and its message, or the exception of the hook: the
  outcome is then emitted as an error and the exception goes on.\<close>

definition finalizeExecutedToolCall ::
  "'q loop_config \<Rightarrow> call_block \<Rightarrow> json \<Rightarrow> call_result \<Rightarrow> bool \<Rightarrow> agent_event list \<times> (string + tool_result_message)" where
  "finalizeExecutedToolCall cf c args res err =
     (case cf_after cf of
        None \<Rightarrow> (emitToolCallOutcome c res err, Inr (tool_message c res err))
      | Some hook \<Rightarrow>
          (case hook c args res err of
             Inl e \<Rightarrow> (emitToolCallOutcome c (createErrorToolResult e) True, Inl e)
           | Inr None \<Rightarrow> (emitToolCallOutcome c res err, Inr (tool_message c res err))
           | Inr (Some a) \<Rightarrow>
               (let res2 = Executed (js_coalesce (ar_content a) (res_content res)) (js_coalesce (ar_details a) (res_details res));
                    err2 = (case ar_isError a of None \<Rightarrow> err | Some b \<Rightarrow> b)
                in (emitToolCallOutcome c res2 err2, Inr (tool_message c res2 err2)))))"

section \<open>The calls of one response\<close>

definition seq_call ::
  "'q loop_config \<Rightarrow> call_block \<Rightarrow> agent_event list \<times> (string + tool_result_message)" where
  "seq_call cf c =
     (case prepareToolCall cf c of
        Immediate res err \<Rightarrow> (ToolStart c # emitToolCallOutcome c res err, Inr (tool_message c res err))
      | Prepared tool args \<Rightarrow>
          (case executePreparedToolCall cf tool c args of (updates, res, err) \<Rightarrow>
             (case finalizeExecutedToolCall cf c args res err of (evs, r) \<Rightarrow>
                (ToolStart c # updates @ evs, r))))"

fun executeToolCallsSequential ::
  "'q loop_config \<Rightarrow> call_block list \<Rightarrow> agent_event list \<times> (string + tool_result_message list)" where
  "executeToolCallsSequential cf [] = ([], Inr [])"
| "executeToolCallsSequential cf (c # cs) =
     (case seq_call cf c of (evs, r) \<Rightarrow>
        (case r of
           Inl e \<Rightarrow> (evs, Inl e)
         | Inr m \<Rightarrow> (case executeToolCallsSequential cf cs of (evs2, rs) \<Rightarrow> (evs @ evs2, map_sum id (\<lambda>ms. m # ms) rs))))"

text \<open>The first phase of the parallel mode: refused calls are answered at once, the others are
  collected.\<close>

fun prepare_all ::
  "'q loop_config \<Rightarrow> call_block list \<Rightarrow> agent_event list \<times> tool_result_message list \<times> (call_block \<times> agent_tool \<times> json) list" where
  "prepare_all cf [] = ([], [], [])"
| "prepare_all cf (c # cs) =
     (case prepare_all cf cs of (evs, ms, run) \<Rightarrow>
        (case prepareToolCall cf c of
           Immediate res err \<Rightarrow> (ToolStart c # emitToolCallOutcome c res err @ evs, tool_message c res err # ms, run)
         | Prepared tool args \<Rightarrow> (ToolStart c # evs, ms, (c, tool, args) # run)))"

definition concurrency_safe :: "agent_tool \<Rightarrow> json \<Rightarrow> bool" where
  "concurrency_safe tool args =
     (case at_isConcurrencySafe tool of None \<Rightarrow> False
      | Some f \<Rightarrow> (case f args of None \<Rightarrow> False | Some b \<Rightarrow> b))"

definition scheduler_call :: "nat \<Rightarrow> call_block \<times> agent_tool \<times> json \<Rightarrow> tool_call" where
  "scheduler_call i p = (case p of (c, tool, args) \<Rightarrow>
     \<lparr>tc_index = int i, tc_id = cb_id c, tc_tool = cb_name c, tc_effects = at_effects tool,
      tc_safe = Some (concurrency_safe tool args), tc_consumes = None, tc_resource = None,
      tc_host = None, tc_server = None\<rparr>)"

definition scheduler_calls :: "(call_block \<times> agent_tool \<times> json) list \<Rightarrow> tool_call list" where
  "scheduler_calls run = map (\<lambda>(i, p). scheduler_call i p) (enumerate 0 run)"

fun scheduled_result :: "tool_output tool_value \<Rightarrow> call_result" where
  "scheduled_result (Value r) = output_result r"
| "scheduled_result (Message s) = Bare s"

text \<open>The last phase: the results of the scheduler are finalized in the order it returns them.  An
  index outside the list of runnable calls reads \<open>undefined\<close> and throws.\<close>

fun finalize_all ::
  "'q loop_config \<Rightarrow> (call_block \<times> agent_tool \<times> json) list \<Rightarrow> tool_output tool_result list
     \<Rightarrow> agent_event list \<times> (string + tool_result_message list)" where
  "finalize_all cf run [] = ([], Inr [])"
| "finalize_all cf run (s # ss) =
     (if tr_index s < 0 \<or> int (length run) \<le> tr_index s then ([], Inl ''TypeError'')
      else case run ! nat (tr_index s) of (c, tool, args) \<Rightarrow>
        (case finalizeExecutedToolCall cf c args (scheduled_result (tr_result s)) (tr_isError s) of (evs, r) \<Rightarrow>
           (case r of
              Inl e \<Rightarrow> (evs, Inl e)
            | Inr m \<Rightarrow> (case finalize_all cf run ss of (evs2, rs) \<Rightarrow> (evs @ evs2, map_sum id (\<lambda>ms. m # ms) rs)))))"

definition executeToolCallsParallel ::
  "'q loop_config \<Rightarrow> call_block list \<Rightarrow> (call_block \<times> tool_output) list \<Rightarrow> tool_output tool_result list
     \<Rightarrow> agent_event list \<times> (string + tool_result_message list)" where
  "executeToolCallsParallel cf cs updates scheduled =
     (case prepare_all cf cs of (evs, ms, run) \<Rightarrow>
        (case finalize_all cf run scheduled of (evs2, rs) \<Rightarrow>
           (evs @ map (\<lambda>(c, r). ToolUpdate c r) updates @ evs2, map_sum id (\<lambda>ms2. ms @ ms2) rs)))"

section \<open>The response of the model\<close>

datatype stream_event = StreamStart assistant_message | StreamDelta assistant_message | StreamDone

definition replace_last :: "'a \<Rightarrow> 'a list \<Rightarrow> 'a list" where
  "replace_last x xs = butlast xs @ [x]"

text \<open>The message that closes the stream, at a \<open>done\<close> or \<open>error\<close> event or when the stream ends.\<close>

definition finish_stream ::
  "assistant_message \<Rightarrow> bool \<Rightarrow> agent_message list \<Rightarrow> agent_message list \<times> agent_event list" where
  "finish_stream final added msgs =
     (if added then replace_last (AssistantMessage final) msgs else msgs @ [AssistantMessage final],
      [ContextCacheEvent] @ (if added then [] else [MessageStart (AssistantMessage final)])
        @ [MessageEnd (AssistantMessage final)])"

fun stream_events ::
  "assistant_message \<Rightarrow> stream_event list \<Rightarrow> bool \<Rightarrow> agent_message list \<Rightarrow> agent_message list \<times> agent_event list" where
  "stream_events final [] added msgs = finish_stream final added msgs"
| "stream_events final (StreamStart p # es) added msgs =
     (case stream_events final es True (msgs @ [AssistantMessage p]) of (ms, evs) \<Rightarrow>
        (ms, MessageStart (AssistantMessage p) # evs))"
| "stream_events final (StreamDelta p # es) added msgs =
     (if added
      then (case stream_events final es added (replace_last (AssistantMessage p) msgs) of (ms, evs) \<Rightarrow>
        (ms, MessageUpdate (AssistantMessage p) # evs))
      else stream_events final es added msgs)"
| "stream_events final (StreamDone # es) added msgs = finish_stream final added msgs"

definition rejected_message :: "model_ref \<Rightarrow> string \<Rightarrow> assistant_message" where
  "rejected_message m msg =
     \<lparr>am_content = [], am_api = md_api m, am_provider = md_provider m, am_model = md_id m,
      am_stopReason = Stop_error, am_errorMessage = Some (''INVALID_TOOL_TRANSCRIPT: '' @ msg)\<rparr>"

definition llm_messages :: "'q loop_config \<Rightarrow> agent_message list \<Rightarrow> agent_message list" where
  "llm_messages cf msgs = cf_convert cf (case cf_transform cf of None \<Rightarrow> msgs | Some f \<Rightarrow> f msgs)"

text \<open>The context after the response, the events, and the message (\<open>None\<close>: an exception).\<close>

definition streamAssistantResponse ::
  "'q loop_config \<Rightarrow> stream_event list \<Rightarrow> assistant_message \<Rightarrow> agent_message list
     \<Rightarrow> agent_message list \<times> agent_event list \<times> assistant_message option" where
  "streamAssistantResponse cf stream final msgs =
     (case validateTranscriptForModel (llm_messages cf msgs) (cf_model cf) of
        TranscriptThrows \<Rightarrow> (msgs, [], None)
      | TranscriptRejected t \<Rightarrow>
          (let e = rejected_message (cf_model cf) t
           in (msgs, [MessageStart (AssistantMessage e), MessageEnd (AssistantMessage e)], Some e))
      | TranscriptOk \<Rightarrow>
          (case stream_events final stream False msgs of (ms, evs) \<Rightarrow> (ms, evs, Some final)))"

section \<open>The loop\<close>

datatype loop_status = Running | Ended | Failed string

record 'q loop_state =
  ls_messages :: "agent_message list"
  ls_new :: "agent_message list"
  ls_events :: "agent_event list"
  ls_pending :: "agent_message list"
  ls_more :: bool
  ls_first :: bool
  ls_status :: loop_status
  ls_world :: 'q

record 'q turn_input =
  ti_config :: "'q loop_config"
  ti_stream :: "stream_event list"
  ti_final :: assistant_message
  ti_aborted :: bool
  ti_updates :: "(call_block \<times> tool_output) list"
  ti_scheduled :: "tool_output tool_result list"

definition emit :: "agent_event list \<Rightarrow> 'q loop_state \<Rightarrow> 'q loop_state" where
  "emit evs s = s\<lparr>ls_events := ls_events s @ evs\<rparr>"

definition message_events :: "agent_message list \<Rightarrow> agent_event list" where
  "message_events ms = concat (map (\<lambda>m. [MessageStart m, MessageEnd m]) ms)"

definition loop_begin ::
  "'q loop_config \<Rightarrow> agent_message list \<Rightarrow> agent_message list \<Rightarrow> agent_event list \<Rightarrow> 'q \<Rightarrow> 'q loop_state" where
  "loop_begin cf msgs new evs q =
     (case poll (cf_getSteering cf) q of (pending, q2) \<Rightarrow>
        \<lparr>ls_messages = msgs, ls_new = new, ls_events = evs, ls_pending = pending, ls_more = True,
         ls_first = True, ls_status = Running, ls_world = q2\<rparr>)"

definition runAgentLoop ::
  "'q loop_config \<Rightarrow> agent_message list \<Rightarrow> agent_message list \<Rightarrow> 'q \<Rightarrow> 'q loop_state" where
  "runAgentLoop cf prompts context q =
     loop_begin cf (context @ prompts) prompts ([AgentStart, TurnStart] @ message_events prompts) q"

definition runAgentLoopContinue :: "'q loop_config \<Rightarrow> agent_message list \<Rightarrow> 'q \<Rightarrow> string + 'q loop_state" where
  "runAgentLoopContinue cf context q =
     (if context = [] then Inl ''Cannot continue: no messages in context''
      else if is_assistant (last context) then Inl ''Cannot continue from message role: assistant''
      else Inr (loop_begin cf context [] [AgentStart, TurnStart] q))"

definition inject_pending :: "'q loop_state \<Rightarrow> 'q loop_state" where
  "inject_pending s =
     (emit ((if ls_first s then [] else [TurnStart]) @ message_events (ls_pending s)) s)
       \<lparr>ls_messages := ls_messages s @ ls_pending s, ls_new := ls_new s @ ls_pending s,
        ls_pending := [], ls_first := False\<rparr>"

definition execute_calls ::
  "'q turn_input \<Rightarrow> call_block list \<Rightarrow> agent_event list \<times> (string + tool_result_message list)" where
  "execute_calls inp calls =
     (if calls = [] then ([], Inr [])
      else if cf_sequential (ti_config inp) then executeToolCallsSequential (ti_config inp) calls
      else executeToolCallsParallel (ti_config inp) calls (ti_updates inp) (ti_scheduled inp))"

text \<open>The body of the inner loop.\<close>

definition turn :: "'q turn_input \<Rightarrow> 'q loop_state \<Rightarrow> 'q loop_state" where
  "turn inp s0 =
     (let s = inject_pending s0; cf = ti_config inp in
      case streamAssistantResponse cf (ti_stream inp) (ti_final inp) (ls_messages s) of (msgs, evs, response) \<Rightarrow>
        (case response of
           None \<Rightarrow> (emit evs s)\<lparr>ls_status := Failed ''TypeError''\<rparr>
         | Some a \<Rightarrow>
             (let s1 = (emit evs s)\<lparr>ls_messages := msgs, ls_new := ls_new s @ [AssistantMessage a]\<rparr>;
                  calls = tool_calls_of (am_content a)
              in if stop_failed (am_stopReason a)
                 then (emit [TurnEnd (AssistantMessage a) [], AgentEnd (ls_new s1)] s1)\<lparr>ls_status := Ended\<rparr>
                 else
                   (case execute_calls inp calls of (evs2, rs) \<Rightarrow>
                      (case rs of
                         Inl e \<Rightarrow> (emit evs2 s1)\<lparr>ls_status := Failed e, ls_more := (calls \<noteq> [])\<rparr>
                       | Inr results \<Rightarrow>
                           (case poll (cf_getSteering cf) (ls_world s1) of (pending, q) \<Rightarrow>
                              (emit (evs2 @ [TurnEnd (AssistantMessage a) results]) s1)
                                \<lparr>ls_messages := msgs @ map ToolResult results,
                                 ls_new := ls_new s1 @ map ToolResult results,
                                 ls_more := (calls \<noteq> []), ls_pending := pending, ls_world := q\<rparr>))))))"

text \<open>Where the agent would stop: follow-up messages start the inner loop again.\<close>

definition stop_or_follow :: "'q loop_config \<Rightarrow> 'q loop_state \<Rightarrow> 'q loop_state" where
  "stop_or_follow cf s =
     (case poll (cf_getFollowUp cf) (ls_world s) of (followUps, q) \<Rightarrow>
        if followUps \<noteq> [] then s\<lparr>ls_pending := followUps, ls_more := True, ls_world := q\<rparr>
        else (emit [AgentEnd (ls_new s)] s)\<lparr>ls_status := Ended, ls_world := q\<rparr>)"

definition loop_step :: "'q turn_input \<Rightarrow> 'q loop_state \<Rightarrow> 'q loop_state" where
  "loop_step inp s =
     (if ls_status s \<noteq> Running then s
      else if ls_more s \<or> ls_pending s \<noteq> [] then turn inp s
      else stop_or_follow (ti_config inp) s)"

section \<open>Runs\<close>

text \<open>In parallel mode the results of a step are those of a run of the scheduler on the runnable
  calls of the response.\<close>

definition runnable_calls :: "'q turn_input \<Rightarrow> (call_block \<times> agent_tool \<times> json) list" where
  "runnable_calls inp = snd (snd (prepare_all (ti_config inp) (tool_calls_of (am_content (ti_final inp)))))"

definition batch_scheduled :: "'q turn_input \<Rightarrow> bool" where
  "batch_scheduled inp \<longleftrightarrow> cf_sequential (ti_config inp) \<or>
     run_batch DEFAULT_LIMITS 0 (scheduler_calls (runnable_calls inp)) (ti_aborted inp) (ti_scheduled inp)"

definition starts :: "stream_event list \<Rightarrow> nat" where
  "starts es = length (filter (\<lambda>e. case e of StreamStart _ \<Rightarrow> True | _ \<Rightarrow> False) es)"

text \<open>The protocol of the model stream: at most one \<open>start\<close>.  The world may change at any time:
  messages are queued while the loop runs.\<close>

definition faithful_input :: "'q turn_input \<Rightarrow> bool" where
  "faithful_input inp \<longleftrightarrow> batch_scheduled inp \<and> starts (ti_stream inp) \<le> 1"

inductive loop_moves :: "('q turn_input \<Rightarrow> 'q loop_state \<Rightarrow> bool) \<Rightarrow> 'q loop_state \<Rightarrow> 'q loop_state \<Rightarrow> bool"
  for ok :: "'q turn_input \<Rightarrow> 'q loop_state \<Rightarrow> bool" where
  step: "ls_status s = Running \<Longrightarrow> faithful_input inp \<Longrightarrow> ok inp s \<Longrightarrow> loop_moves ok s (loop_step inp s)"
| world: "ls_status s = Running \<Longrightarrow> loop_moves ok s (s\<lparr>ls_world := q\<rparr>)"

end
