(* ===== verification/Agent_State.thy ===== *)
theory Agent_State
  imports Agent_Loop
begin

text \<open>
  The class \<open>Agent\<close> of \<open>agent/src/agent.ts\<close>: its queues, which are the world of the loop it
  runs, the reduction of the loop's events to its state, and \<open>prompt\<close>, \<open>continue\<close> and the clean-up
  around a run.  Listeners are assumed not to throw.
\<close>

section \<open>Queues\<close>

datatype queue_mode = AllAtOnce | OneAtATime

record agent_queues =
  aq_steering :: "agent_message list"
  aq_followUp :: "agent_message list"
  aq_steeringMode :: queue_mode
  aq_followUpMode :: queue_mode
  aq_skipInitialPoll :: bool

definition dequeue :: "queue_mode \<Rightarrow> agent_message list \<Rightarrow> agent_message list \<times> agent_message list" where
  "dequeue mode queue =
     (if mode = OneAtATime then (case queue of [] \<Rightarrow> ([], []) | m # ms \<Rightarrow> ([m], ms)) else (queue, []))"

definition dequeueSteeringMessages :: "agent_queues \<Rightarrow> agent_message list \<times> agent_queues" where
  "dequeueSteeringMessages q =
     (case dequeue (aq_steeringMode q) (aq_steering q) of (ms, rest) \<Rightarrow> (ms, q\<lparr>aq_steering := rest\<rparr>))"

definition dequeueFollowUpMessages :: "agent_queues \<Rightarrow> agent_message list \<times> agent_queues" where
  "dequeueFollowUpMessages q =
     (case dequeue (aq_followUpMode q) (aq_followUp q) of (ms, rest) \<Rightarrow> (ms, q\<lparr>aq_followUp := rest\<rparr>))"

text \<open>The callback \<open>getSteeringMessages\<close> of a run, with the flag it closes over.\<close>

definition pollSteering :: "agent_queues \<Rightarrow> agent_message list \<times> agent_queues" where
  "pollSteering q =
     (if aq_skipInitialPoll q then ([], q\<lparr>aq_skipInitialPoll := False\<rparr>) else dequeueSteeringMessages q)"

definition steer :: "agent_message \<Rightarrow> agent_queues \<Rightarrow> agent_queues" where
  "steer m q = q\<lparr>aq_steering := aq_steering q @ [m]\<rparr>"

definition followUp :: "agent_message \<Rightarrow> agent_queues \<Rightarrow> agent_queues" where
  "followUp m q = q\<lparr>aq_followUp := aq_followUp q @ [m]\<rparr>"

definition clearAllQueues :: "agent_queues \<Rightarrow> agent_queues" where
  "clearAllQueues q = q\<lparr>aq_steering := [], aq_followUp := []\<rparr>"

definition hasQueuedMessages :: "agent_queues \<Rightarrow> bool" where
  "hasQueuedMessages q \<longleftrightarrow> aq_steering q \<noteq> [] \<or> aq_followUp q \<noteq> []"

section \<open>The state and its events\<close>

record agent =
  ag_model :: "model_ref option"
  ag_messages :: "agent_message list"
  ag_isStreaming :: bool
  ag_streamMessage :: "agent_message option"
  ag_pendingToolCalls :: "string list"
  ag_error :: "string option"

definition appendMessage :: "agent_message \<Rightarrow> agent \<Rightarrow> agent" where
  "appendMessage m ag = ag\<lparr>ag_messages := ag_messages ag @ [m]\<rparr>"

fun message_error :: "agent_message \<Rightarrow> string option" where
  "message_error (AssistantMessage a) = am_errorMessage a"
| "message_error m = None"

fun processLoopEvent :: "agent_event \<Rightarrow> agent \<Rightarrow> agent" where
  "processLoopEvent (MessageStart m) ag = ag\<lparr>ag_streamMessage := Some m\<rparr>"
| "processLoopEvent (MessageUpdate m) ag = ag\<lparr>ag_streamMessage := Some m\<rparr>"
| "processLoopEvent (MessageEnd m) ag = appendMessage m (ag\<lparr>ag_streamMessage := None\<rparr>)"
| "processLoopEvent (ToolStart c) ag = ag\<lparr>ag_pendingToolCalls := set_add (cb_id c) (ag_pendingToolCalls ag)\<rparr>"
| "processLoopEvent (ToolEnd i n res err) ag = ag\<lparr>ag_pendingToolCalls := removeAll i (ag_pendingToolCalls ag)\<rparr>"
| "processLoopEvent (TurnEnd m results) ag =
     (if js_falsy (message_error m) then ag else ag\<lparr>ag_error := message_error m\<rparr>)"
| "processLoopEvent (AgentEnd ms) ag = ag\<lparr>ag_isStreaming := False, ag_streamMessage := None\<rparr>"
| "processLoopEvent ev ag = ag"

definition process_events :: "agent_event list \<Rightarrow> agent \<Rightarrow> agent" where
  "process_events evs ag = fold processLoopEvent evs ag"

definition reset :: "agent \<Rightarrow> agent" where
  "reset ag = ag\<lparr>ag_messages := [], ag_isStreaming := False, ag_streamMessage := None,
     ag_pendingToolCalls := [], ag_error := None\<rparr>"

section \<open>Runs\<close>

definition start_streaming :: "agent \<Rightarrow> agent" where
  "start_streaming ag = ag\<lparr>ag_isStreaming := True, ag_streamMessage := None, ag_error := None\<rparr>"

text \<open>The configuration of a run polls the queues of the agent.\<close>

definition agent_config :: "agent_queues loop_config \<Rightarrow> agent_queues loop_config" where
  "agent_config cf = cf\<lparr>cf_getSteering := Some pollSteering, cf_getFollowUp := Some dequeueFollowUpMessages\<rparr>"

type_synonym started = "agent \<times> agent_queues loop_state"

definition run_with ::
  "agent_queues loop_config \<Rightarrow> agent_message list \<Rightarrow> bool \<Rightarrow> agent_queues \<Rightarrow> agent \<Rightarrow> started" where
  "run_with cf msgs skip q ag =
     (start_streaming ag, runAgentLoop (agent_config cf) msgs (ag_messages ag) (q\<lparr>aq_skipInitialPoll := skip\<rparr>))"

definition prompt ::
  "agent_queues loop_config \<Rightarrow> agent_message list \<Rightarrow> agent_queues \<Rightarrow> agent \<Rightarrow> string + started" where
  "prompt cf msgs q ag =
     (if ag_isStreaming ag
      then Inl (''Agent is already processing a prompt. Use steer() or followUp() to queue messages, ''
            @ ''or wait for completion.'')
      else if ag_model ag = None then Inl ''No model configured''
      else Inr (run_with cf msgs False q ag))"

text \<open>\<open>continue\<close>: when the last message is the assistant's, queued messages start the run.\<close>

definition continue_run ::
  "agent_queues loop_config \<Rightarrow> agent_queues \<Rightarrow> agent \<Rightarrow> string + started" where
  "continue_run cf q ag =
     (if ag_isStreaming ag then Inl ''Agent is already processing. Wait for completion before continuing.''
      else if ag_messages ag = [] then Inl ''No messages to continue from''
      else if is_assistant (last (ag_messages ag)) then
        (case dequeueSteeringMessages q of (steering, q1) \<Rightarrow>
           if steering \<noteq> []
           then (if ag_model ag = None then Inl ''No model configured'' else Inr (run_with cf steering True q1 ag))
           else
             (case dequeueFollowUpMessages q1 of (follow, q2) \<Rightarrow>
                if follow \<noteq> []
                then (if ag_model ag = None then Inl ''No model configured'' else Inr (run_with cf follow False q2 ag))
                else Inl ''Cannot continue from message role: assistant''))
      else if ag_model ag = None then Inl ''No model configured''
      else map_sum id (\<lambda>s. (start_streaming ag, s))
        (runAgentLoopContinue (agent_config cf) (ag_messages ag) (q\<lparr>aq_skipInitialPoll := False\<rparr>)))"

text \<open>The \<open>catch\<close> block: the exception becomes a last assistant message.\<close>

definition error_message :: "model_ref \<Rightarrow> bool \<Rightarrow> string \<Rightarrow> agent_message" where
  "error_message m aborted err = AssistantMessage
     \<lparr>am_content = [TextBlock []], am_api = md_api m, am_provider = md_provider m, am_model = md_id m,
      am_stopReason = (if aborted then Stop_aborted else Stop_error), am_errorMessage = Some err\<rparr>"

definition catch_failure :: "model_ref \<Rightarrow> bool \<Rightarrow> loop_status \<Rightarrow> agent \<Rightarrow> agent" where
  "catch_failure m aborted st ag =
     (case st of
        Failed err \<Rightarrow> (appendMessage (error_message m aborted err) ag)\<lparr>ag_error := Some err\<rparr>
      | _ \<Rightarrow> ag)"

definition finally_clean :: "agent \<Rightarrow> agent" where
  "finally_clean ag = ag\<lparr>ag_isStreaming := False, ag_streamMessage := None, ag_pendingToolCalls := []\<rparr>"

text \<open>The agent after a run whose loop has ended in the state \<open>s\<close>.\<close>

definition run_result_agent :: "model_ref \<Rightarrow> bool \<Rightarrow> agent_queues loop_state \<Rightarrow> agent \<Rightarrow> agent" where
  "run_result_agent m aborted s ag =
     finally_clean (catch_failure m aborted (ls_status s) (process_events (ls_events s) ag))"

end
