(* ===== verification/Agent_Facts.thy ===== *)
theory Agent_Facts
  imports Agent_State
begin

text \<open>
  Facts about one step of the agent loop: which messages its events end, what it appends to the
  context, and that the results of a response answer each of its calls once, in both modes.
\<close>

section \<open>Messages ended by events\<close>

fun event_messages :: "agent_event \<Rightarrow> agent_message list" where
  "event_messages (MessageEnd m) = [m]"
| "event_messages ev = []"

definition end_messages :: "agent_event list \<Rightarrow> agent_message list" where
  "end_messages evs = concat (map event_messages evs)"

lemma end_messages_simps [simp]:
  "end_messages [] = []" "end_messages (ev # evs) = event_messages ev @ end_messages evs"
  "end_messages (evs @ evs2) = end_messages evs @ end_messages evs2"
  by (simp_all add: end_messages_def)

lemma process_events_simps [simp]:
  "process_events [] ag = ag" "process_events (ev # evs) ag = process_events evs (processLoopEvent ev ag)"
  "process_events (evs @ evs2) ag = process_events evs2 (process_events evs ag)"
  by (simp_all add: process_events_def)

lemma process_event_messages: "ag_messages (processLoopEvent ev ag) = ag_messages ag @ event_messages ev"
  by (cases ev) (simp_all add: appendMessage_def)

lemma process_events_messages: "ag_messages (process_events evs ag) = ag_messages ag @ end_messages evs"
  by (induction evs arbitrary: ag) (simp_all add: process_event_messages)

lemma end_message_events [simp]: "end_messages (message_events ms) = ms"
  by (induction ms) (simp_all add: message_events_def)

lemma end_outcome [simp]: "end_messages (emitToolCallOutcome c res err) = [ToolResult (tool_message c res err)]"
  by (simp add: emitToolCallOutcome_def)

lemma end_updates [simp]: "end_messages (map (ToolUpdate c) rs) = []"
  "end_messages (map (\<lambda>(c, r). ToolUpdate c r) us) = []"
  by (induction rs) (auto simp: end_messages_def)

lemma tool_message_simps [simp]:
  "tm_toolCallId (tool_message c res err) = cb_id c" "tm_excludeFromContext (tool_message c res err) = False"
  by (simp_all add: tool_message_def)

text \<open>A call is finalized by one ended message, also when the hook throws.\<close>

lemma finalize_ends:
  assumes "finalizeExecutedToolCall cf c args res err = (evs, r)"
  shows "\<exists>m. end_messages evs = [ToolResult m] \<and> tm_toolCallId m = cb_id c \<and> tm_excludeFromContext m = False
    \<and> (\<forall>n. r = Inr n \<longrightarrow> n = m)"
  using assms by (auto simp: finalizeExecutedToolCall_def Let_def split: option.splits sum.splits)

lemma seq_call_ends:
  assumes "seq_call cf c = (evs, r)"
  shows "\<exists>m. end_messages evs = [ToolResult m] \<and> tm_toolCallId m = cb_id c \<and> tm_excludeFromContext m = False
    \<and> (\<forall>n. r = Inr n \<longrightarrow> n = m)"
  using assms by (auto simp: seq_call_def executePreparedToolCall_def dest!: finalize_ends
      split: preparation.splits prod.splits)

lemma sequential_ends:
  assumes "executeToolCallsSequential cf cs = (evs, r)"
  shows "\<exists>ms. end_messages evs = map ToolResult ms \<and> (\<forall>m \<in> set ms. \<not> tm_excludeFromContext m)
    \<and> map tm_toolCallId ms = map cb_id (take (length ms) cs)
    \<and> (\<forall>ns. r = Inr ns \<longrightarrow> ns = ms \<and> length ms = length cs)"
  using assms
proof (induction cs arbitrary: evs r)
  case (Cons c cs)
  obtain evs1 r1 where call: "seq_call cf c = (evs1, r1)" by force
  obtain m where m: "end_messages evs1 = [ToolResult m]" "tm_toolCallId m = cb_id c" "tm_excludeFromContext m = False"
    "\<forall>n. r1 = Inr n \<longrightarrow> n = m" using seq_call_ends [OF call] by blast
  obtain evs2 r2 where rest: "executeToolCallsSequential cf cs = (evs2, r2)" by force
  obtain ms where ms: "end_messages evs2 = map ToolResult ms" "\<forall>m \<in> set ms. \<not> tm_excludeFromContext m"
    "map tm_toolCallId ms = map cb_id (take (length ms) cs)" "\<forall>ns. r2 = Inr ns \<longrightarrow> ns = ms \<and> length ms = length cs"
    using Cons.IH [OF rest] by blast
  show ?case
  proof (cases r1)
    case (Inl e)
    then have "evs = evs1" "r = Inl e" using Cons.prems call by simp_all
    then show ?thesis using m by (intro exI [of _ "[m]"]) simp
  next
    case (Inr n)
    then have "evs = evs1 @ evs2" "r = map_sum id (\<lambda>ms. m # ms) r2" using Cons.prems call rest m(4) by simp_all
    then show ?thesis using m ms by (intro exI [of _ "m # ms"]) (cases r2; simp)
  qed
qed auto

lemma prepare_all_ends:
  assumes "prepare_all cf cs = (evs, ms, run)"
  shows "end_messages evs = map ToolResult ms \<and> (\<forall>m \<in> set ms. \<not> tm_excludeFromContext m)
    \<and> mset (map tm_toolCallId ms) + mset (map (\<lambda>p. cb_id (fst p)) run) = mset (map cb_id cs)"
  using assms
proof (induction cs arbitrary: evs ms run)
  case (Cons c cs)
  obtain evs2 ms2 run2 where rest: "prepare_all cf cs = (evs2, ms2, run2)" by (metis prod_cases3)
  show ?case using Cons.IH [OF rest] Cons.prems rest by (auto split: preparation.splits)
qed simp

lemma finalize_all_ends:
  assumes "finalize_all cf run ss = (evs, r)"
  shows "\<exists>ms. end_messages evs = map ToolResult ms \<and> (\<forall>m \<in> set ms. \<not> tm_excludeFromContext m)
    \<and> (\<forall>ns. r = Inr ns \<longrightarrow> ns = ms \<and> map tm_toolCallId ms = map (\<lambda>s. cb_id (fst (run ! nat (tr_index s)))) ss)"
  using assms
proof (induction ss arbitrary: evs r)
  case (Cons s ss)
  show ?case
  proof (cases "tr_index s < 0 \<or> int (length run) \<le> tr_index s")
    case True
    then have "evs = []" "r = Inl ''TypeError''" using Cons.prems by auto
    then show ?thesis by auto
  next
    case False
    obtain c tool args where p: "run ! nat (tr_index s) = (c, tool, args)" by (metis prod_cases3)
    obtain evs1 r1 where call: "finalizeExecutedToolCall cf c args (scheduled_result (tr_result s)) (tr_isError s) = (evs1, r1)"
      by force
    obtain m where m: "end_messages evs1 = [ToolResult m]" "tm_toolCallId m = cb_id c" "tm_excludeFromContext m = False"
      "\<forall>n. r1 = Inr n \<longrightarrow> n = m" using finalize_ends [OF call] by blast
    obtain evs2 r2 where rest: "finalize_all cf run ss = (evs2, r2)" by force
    obtain ms where ms: "end_messages evs2 = map ToolResult ms" "\<forall>m \<in> set ms. \<not> tm_excludeFromContext m"
      "\<forall>ns. r2 = Inr ns \<longrightarrow> ns = ms \<and> map tm_toolCallId ms = map (\<lambda>s. cb_id (fst (run ! nat (tr_index s)))) ss"
      using Cons.IH [OF rest] by blast
    show ?thesis
    proof (cases r1)
      case (Inl e)
      then have "evs = evs1" "r = Inl e" using Cons.prems call p False by simp_all
      then show ?thesis using m by (intro exI [of _ "[m]"]) simp
    next
      case (Inr n)
      then have "evs = evs1 @ evs2" "r = map_sum id (\<lambda>ms. m # ms) r2"
        using Cons.prems call rest m(4) p False by simp_all
      then show ?thesis using m ms p by (intro exI [of _ "m # ms"]) (cases r2; simp)
    qed
  qed
qed simp

section \<open>What the scheduler returns\<close>

lemma sort_key_sorted: "sorted (map f xs) \<Longrightarrow> sort_key f xs = xs"
  by (rule properties_for_sort_key) simp_all

lemma scheduler_calls_index: "map tc_index (scheduler_calls run) = map int [0..<length run]"
proof -
  have "tc_index (scheduler_call i p) = int i" for i p by (simp add: scheduler_call_def split: prod.splits)
  then have "map tc_index (scheduler_calls run) = map (\<lambda>x. int (fst x)) (enumerate 0 run)"
    by (simp add: scheduler_calls_def comp_def case_prod_unfold)
  also have "\<dots> = map int (map fst (enumerate 0 run))" by (simp only: map_map comp_def)
  finally show ?thesis unfolding map_fst_enumerate by simp
qed

lemma scheduled_indices:
  assumes "run_batch DEFAULT_LIMITS n (scheduler_calls run) ab out"
  shows "map tr_index out = map int [0..<length run]"
proof -
  have idx: "map tc_index (scheduler_calls run) = map int [0..<length run]" by (rule scheduler_calls_index)
  have dist: "distinct (map tc_index (scheduler_calls run))" by (simp add: idx distinct_map inj_on_def)
  have sorted: "sorted (map tc_index (scheduler_calls run))" unfolding idx by (simp add: sorted_map)
  have keys: "map result_key out = map call_key (scheduler_calls run)"
    using batch_in_order [OF dist assms] sort_key_sorted [OF sorted] by simp
  have "map tr_index out = map fst (map result_key out)" by (simp add: result_key_def comp_def)
  also have "\<dots> = map tc_index (scheduler_calls run)" unfolding keys by (simp add: call_key_def comp_def)
  finally show ?thesis by (simp add: idx)
qed

lemma scheduled_ids:
  assumes "map tr_index out = map int [0..<length run]"
  shows "map (\<lambda>s. f (run ! nat (tr_index s))) out = map f run"
proof -
  have "map (\<lambda>s. f (run ! nat (tr_index s))) out = map (\<lambda>i. f (run ! nat i)) (map tr_index out)" by (simp add: comp_def)
  also have "\<dots> = map f (map (\<lambda>i. run ! i) [0..<length run])" unfolding assms by (simp add: comp_def)
  finally show ?thesis by (simp only: map_nth)
qed

section \<open>The calls of a response\<close>

lemma parallel_ends:
  assumes "executeToolCallsParallel cf cs us ss = (evs, r)"
    and "map tr_index ss = map int [0..<length (snd (snd (prepare_all cf cs)))]"
  shows "\<exists>ms. end_messages evs = map ToolResult ms \<and> (\<forall>m \<in> set ms. \<not> tm_excludeFromContext m)
    \<and> (\<forall>ns. r = Inr ns \<longrightarrow> ns = ms \<and> mset (map tm_toolCallId ms) = mset (map cb_id cs))"
proof -
  obtain evs1 ms1 run where prep: "prepare_all cf cs = (evs1, ms1, run)" by (metis prod_cases3)
  obtain evs2 r2 where fin: "finalize_all cf run ss = (evs2, r2)" by force
  obtain ms2 where ms2: "end_messages evs2 = map ToolResult ms2" "\<forall>m \<in> set ms2. \<not> tm_excludeFromContext m"
    "\<forall>ns. r2 = Inr ns \<longrightarrow> ns = ms2 \<and> map tm_toolCallId ms2 = map (\<lambda>s. cb_id (fst (run ! nat (tr_index s)))) ss"
    using finalize_all_ends [OF fin] by blast
  have out: "evs = evs1 @ map (\<lambda>(c, r). ToolUpdate c r) us @ evs2" "r = map_sum id (\<lambda>ms. ms1 @ ms) r2"
    using assms(1) prep fin by (simp_all add: executeToolCallsParallel_def)
  have ids: "map (\<lambda>s. cb_id (fst (run ! nat (tr_index s)))) ss = map (\<lambda>p. cb_id (fst p)) run"
    using scheduled_ids [of ss run "\<lambda>p. cb_id (fst p)"] assms(2) prep by simp
  note pre = prepare_all_ends [OF prep]
  have ended: "end_messages evs = map ToolResult (ms1 @ ms2)" using out(1) ms2(1) pre by simp
  have kept: "\<forall>m \<in> set (ms1 @ ms2). \<not> tm_excludeFromContext m" using ms2(2) pre by auto
  have result: "ns = ms1 @ ms2 \<and> mset (map tm_toolCallId (ms1 @ ms2)) = mset (map cb_id cs)" if r: "r = Inr ns" for ns
  proof -
    obtain ns2 where "r2 = Inr ns2" using out(2) r by (cases r2) simp_all
    with ms2(3) have r2: "r2 = Inr ms2" "map tm_toolCallId ms2 = map (\<lambda>p. cb_id (fst p)) run" using ids by simp_all
    then have "ns = ms1 @ ms2" using out(2) r by simp
    moreover have "mset (map tm_toolCallId ms1) + mset (map (\<lambda>p. cb_id (fst p)) run) = mset (map cb_id cs)" using pre by simp
    ultimately show ?thesis using r2(2) by simp
  qed
  show ?thesis using ended kept result by blast
qed

lemma execute_calls_ends:
  assumes "execute_calls inp (tool_calls_of (am_content (ti_final inp))) = (evs, r)" and "batch_scheduled inp"
  shows "\<exists>ms. end_messages evs = map ToolResult ms \<and> (\<forall>m \<in> set ms. \<not> tm_excludeFromContext m)
    \<and> (\<forall>ns. r = Inr ns \<longrightarrow> ns = ms
        \<and> mset (map tm_toolCallId ms) = mset (map cb_id (tool_calls_of (am_content (ti_final inp)))))"
proof (cases "tool_calls_of (am_content (ti_final inp)) = []")
  case True
  then show ?thesis using assms(1) by (auto simp: execute_calls_def)
next
  case calls: False
  let ?calls = "tool_calls_of (am_content (ti_final inp))"
  show ?thesis
  proof (cases "cf_sequential (ti_config inp)")
    case True
    then have "executeToolCallsSequential (ti_config inp) ?calls = (evs, r)"
      using assms(1) calls by (simp add: execute_calls_def)
    from sequential_ends [OF this] obtain ms where ms: "end_messages evs = map ToolResult ms"
      "\<forall>m \<in> set ms. \<not> tm_excludeFromContext m" "map tm_toolCallId ms = map cb_id (take (length ms) ?calls)"
      "\<forall>ns. r = Inr ns \<longrightarrow> ns = ms \<and> length ms = length ?calls" by blast
    have "r = Inr ns \<Longrightarrow> ns = ms \<and> mset (map tm_toolCallId ms) = mset (map cb_id ?calls)" for ns
      unfolding ms(3) using ms(4) by simp
    then show ?thesis using ms(1,2) by blast
  next
    case False
    then have idx: "map tr_index (ti_scheduled inp) = map int [0..<length (runnable_calls inp)]"
      using assms(2) scheduled_indices by (simp add: batch_scheduled_def)
    have "executeToolCallsParallel (ti_config inp) ?calls (ti_updates inp) (ti_scheduled inp) = (evs, r)"
      using assms(1) calls False by (simp add: execute_calls_def)
    from parallel_ends [OF this] show ?thesis using idx unfolding runnable_calls_def by blast
  qed
qed

section \<open>The response\<close>

lemma replace_last_snoc [simp]: "replace_last y (xs @ [x]) = xs @ [y]"
  by (simp add: replace_last_def)

lemma starts_simps [simp]:
  "starts [] = 0" "starts (StreamStart p # es) = Suc (starts es)"
  "starts (StreamDelta p # es) = starts es" "starts (StreamDone # es) = starts es"
  by (simp_all add: starts_def)

lemma stream_ends: "end_messages (snd (stream_events final es added msgs)) = [AssistantMessage final]"
  by (induction final es added msgs rule: stream_events.induct) (auto simp: finish_stream_def split: prod.splits)

lemma stream_context_added:
  "starts es = 0 \<Longrightarrow> fst (stream_events final es True (msgs @ [x])) = msgs @ [AssistantMessage final]"
proof (induction es arbitrary: x)
  case (Cons e es)
  then show ?case by (cases e) (simp_all add: finish_stream_def case_prod_unfold)
qed (simp add: finish_stream_def)

lemma stream_context:
  "starts es \<le> 1 \<Longrightarrow> fst (stream_events final es False msgs) = msgs @ [AssistantMessage final]"
proof (induction es)
  case (Cons e es)
  then show ?case by (cases e) (simp_all add: finish_stream_def case_prod_unfold stream_context_added)
qed (simp add: finish_stream_def)

end
