(* ===== verification/Agent_Turns.thy ===== *)
theory Agent_Turns
  imports Agent_Facts
begin

text \<open>
  One turn of the agent loop, case by case, and the invariant that ties the events of the loop to its
  two message lists: the messages the events end are the new messages of the loop, and between turns
  no tool call is pending.
\<close>

section \<open>Pending tool calls\<close>

fun pend_event :: "agent_event \<Rightarrow> string set \<Rightarrow> string set" where
  "pend_event (ToolStart c) P = insert (cb_id c) P"
| "pend_event (ToolEnd i n res err) P = P - {i}"
| "pend_event ev P = P"

definition pend :: "agent_event list \<Rightarrow> string set \<Rightarrow> string set" where
  "pend evs P = fold pend_event evs P"

lemma pend_simps [simp]:
  "pend [] P = P" "pend (ev # evs) P = pend evs (pend_event ev P)" "pend (evs @ evs2) P = pend evs2 (pend evs P)"
  by (simp_all add: pend_def)

lemma pending_after: "set (ag_pendingToolCalls (process_events evs ag)) = pend evs (set (ag_pendingToolCalls ag))"
proof (induction evs arbitrary: ag)
  case (Cons ev evs)
  have "set (ag_pendingToolCalls (processLoopEvent ev ag)) = pend_event ev (set (ag_pendingToolCalls ag))"
    by (cases ev) (auto simp: appendMessage_def)
  then show ?case using Cons.IH [of "processLoopEvent ev ag"] by simp
qed simp

text \<open>A list of events is quiet when it neither ends the agent nor starts it.\<close>

definition quiet :: "agent_event list \<Rightarrow> bool" where
  "quiet evs \<longleftrightarrow> (\<forall>ms. AgentEnd ms \<notin> set evs)"

lemma quiet_simps [simp]:
  "quiet []" "quiet (evs @ evs2) \<longleftrightarrow> quiet evs \<and> quiet evs2"
  "quiet (ev # evs) \<longleftrightarrow> (\<forall>ms. ev \<noteq> AgentEnd ms) \<and> quiet evs"
  by (auto simp: quiet_def)

lemma streaming_quiet: "quiet evs \<Longrightarrow> ag_isStreaming (process_events evs ag) = ag_isStreaming ag"
proof (induction evs arbitrary: ag)
  case (Cons ev evs)
  then have "ag_isStreaming (processLoopEvent ev ag) = ag_isStreaming ag"
    by (cases ev) (simp_all add: appendMessage_def)
  then show ?case using Cons by simp
qed simp

lemma message_events_facts [simp]: "pend (message_events ms) P = P" "quiet (message_events ms)"
  by (induction ms arbitrary: P) (simp_all add: message_events_def)

lemma only_updates: "\<forall>ev \<in> set evs. \<exists>c r. ev = ToolUpdate c r \<Longrightarrow> pend evs P = P \<and> quiet evs"
  by (induction evs) auto

lemma updates_facts [simp]:
  "pend (map (ToolUpdate c) rs) P = P" "quiet (map (ToolUpdate c) rs)"
  "pend (map (\<lambda>p. ToolUpdate (fst p) (snd p)) us) P = P" "quiet (map (\<lambda>p. ToolUpdate (fst p) (snd p)) us)"
  using only_updates [of "map (ToolUpdate c) rs" P] only_updates [of "map (\<lambda>p. ToolUpdate (fst p) (snd p)) us" P] by auto

lemma outcome_facts [simp]:
  "pend (emitToolCallOutcome c res err) P = P - {cb_id c}" "quiet (emitToolCallOutcome c res err)"
  by (simp_all add: emitToolCallOutcome_def)

lemma finalize_pend:
  "pend (fst (finalizeExecutedToolCall cf c args res err)) P = P - {cb_id c}
   \<and> quiet (fst (finalizeExecutedToolCall cf c args res err))"
  by (auto simp: finalizeExecutedToolCall_def Let_def split: option.splits sum.splits)

lemma seq_call_pend:
  "pend (fst (seq_call cf c)) P = P - {cb_id c} \<and> quiet (fst (seq_call cf c))"
  using finalize_pend [of cf c]
  by (auto simp: seq_call_def executePreparedToolCall_def case_prod_unfold split: preparation.splits)

lemma sequential_pend:
  "pend (fst (executeToolCallsSequential cf cs)) P \<subseteq> P \<and> quiet (fst (executeToolCallsSequential cf cs))"
proof (induction cs arbitrary: P)
  case (Cons c cs)
  show ?case using seq_call_pend [of cf c P] Cons.IH [of "P - {cb_id c}"]
    by (cases "snd (seq_call cf c)") (auto simp: case_prod_unfold)
qed simp

lemma prepare_all_pend:
  "pend (fst (prepare_all cf cs)) P \<subseteq> P \<union> set (map (\<lambda>p. cb_id (fst p)) (snd (snd (prepare_all cf cs))))
   \<and> quiet (fst (prepare_all cf cs))"
proof (induction cs arbitrary: P)
  case (Cons c cs)
  show ?case using Cons.IH [of "insert (cb_id c) P"] Cons.IH [of "P - {cb_id c}"]
    by (cases "prepareToolCall cf c") (auto simp: case_prod_unfold)
qed simp

lemma finalize_all_pend:
  "quiet (fst (finalize_all cf run ss)) \<and>
   (\<forall>ns. snd (finalize_all cf run ss) = Inr ns \<longrightarrow>
      pend (fst (finalize_all cf run ss)) P = P - set (map (\<lambda>s. cb_id (fst (run ! nat (tr_index s)))) ss))"
proof (induction ss arbitrary: P)
  case (Cons s ss)
  show ?case
  proof (cases "tr_index s < 0 \<or> int (length run) \<le> tr_index s")
    case False
    obtain c tool args where p: "run ! nat (tr_index s) = (c, tool, args)" by (metis prod_cases3)
    obtain evs r where call: "finalizeExecutedToolCall cf c args (scheduled_result (tr_result s)) (tr_isError s) = (evs, r)"
      by force
    have evs: "pend evs P = P - {cb_id c}" "quiet evs"
      using finalize_pend [of cf c args "scheduled_result (tr_result s)" "tr_isError s" P] call by simp_all
    show ?thesis
    proof (cases r)
      case (Inr m)
      have "(P - {cb_id c}) - set (map (\<lambda>s. cb_id (fst (run ! nat (tr_index s)))) ss) =
          P - set (map (\<lambda>s. cb_id (fst (run ! nat (tr_index s)))) (s # ss))" by (auto simp: p)
      then show ?thesis using Cons.IH [of "P - {cb_id c}"] False p call evs Inr
        by (cases "snd (finalize_all cf run ss)") (auto simp: case_prod_unfold)
    qed (use False p call evs in simp)
  qed simp
qed simp

lemma parallel_pend:
  assumes "map tr_index ss = map int [0..<length (snd (snd (prepare_all cf cs)))]"
  shows "quiet (fst (executeToolCallsParallel cf cs us ss)) \<and>
    (\<forall>ns. snd (executeToolCallsParallel cf cs us ss) = Inr ns \<longrightarrow> pend (fst (executeToolCallsParallel cf cs us ss)) {} = {})"
proof -
  obtain evs ms run where prep: "prepare_all cf cs = (evs, ms, run)" by (metis prod_cases3)
  have ids: "map (\<lambda>s. cb_id (fst (run ! nat (tr_index s)))) ss = map (\<lambda>p. cb_id (fst p)) run"
    using scheduled_ids [of ss run "\<lambda>p. cb_id (fst p)"] assms prep by simp
  have pre: "pend evs {} \<subseteq> set (map (\<lambda>p. cb_id (fst p)) run)" "quiet evs"
    using prepare_all_pend [of cf cs "{}"] prep by simp_all
  have fin: "quiet (fst (finalize_all cf run ss))" using finalize_all_pend by blast
  have "pend (fst (finalize_all cf run ss)) (pend evs {}) = {}" if "snd (finalize_all cf run ss) = Inr ns" for ns
    using finalize_all_pend [of cf run ss "pend evs {}"] that pre(1) ids by auto
  then show ?thesis using prep pre(2) fin
    by (cases "snd (finalize_all cf run ss)") (auto simp: executeToolCallsParallel_def case_prod_unfold)
qed

lemma execute_calls_pend:
  assumes "batch_scheduled inp"
    and "execute_calls inp (tool_calls_of (am_content (ti_final inp))) = (evs, r)"
  shows "quiet evs \<and> (\<forall>ns. r = Inr ns \<longrightarrow> pend evs {} = {})"
proof (cases "tool_calls_of (am_content (ti_final inp)) = [] \<or> cf_sequential (ti_config inp)")
  case True
  then show ?thesis
    using assms(2) sequential_pend [of "ti_config inp" "tool_calls_of (am_content (ti_final inp))" "{}"]
    by (auto simp: execute_calls_def split: if_splits)
next
  case False
  then have "map tr_index (ti_scheduled inp) = map int [0..<length (runnable_calls inp)]"
    using assms(1) scheduled_indices by (simp add: batch_scheduled_def)
  then show ?thesis
    using parallel_pend [of "ti_scheduled inp" "ti_config inp" "tool_calls_of (am_content (ti_final inp))" "ti_updates inp"]
      assms(2) False
    unfolding runnable_calls_def by (simp add: execute_calls_def)
qed

lemma stream_pend: "pend (snd (stream_events final es added msgs)) P = P \<and> quiet (snd (stream_events final es added msgs))"
  by (induction final es added msgs rule: stream_events.induct) (simp_all add: finish_stream_def case_prod_unfold)

section \<open>The message being streamed\<close>

text \<open>Whether a message is open after a list of events.\<close>

fun open_event :: "agent_event \<Rightarrow> bool \<Rightarrow> bool" where
  "open_event (MessageStart m) b = True"
| "open_event (MessageUpdate m) b = True"
| "open_event (MessageEnd m) b = False"
| "open_event (AgentEnd ms) b = False"
| "open_event ev b = b"

definition message_open :: "agent_event list \<Rightarrow> bool \<Rightarrow> bool" where
  "message_open evs b = fold open_event evs b"

lemma message_open_simps [simp]:
  "message_open [] b = b" "message_open (ev # evs) b = message_open evs (open_event ev b)"
  "message_open (evs @ evs2) b = message_open evs2 (message_open evs b)"
  by (simp_all add: message_open_def)

lemma stream_message_after:
  "ag_streamMessage (process_events evs ag) = None \<longleftrightarrow> \<not> message_open evs (ag_streamMessage ag \<noteq> None)"
proof (induction evs arbitrary: ag)
  case (Cons ev evs)
  have "(ag_streamMessage (processLoopEvent ev ag) \<noteq> None) = open_event ev (ag_streamMessage ag \<noteq> None)"
    by (cases ev) (simp_all add: appendMessage_def)
  then show ?case using Cons.IH [of "processLoopEvent ev ag"] by simp
qed simp

text \<open>Whatever the loop emits at a time closes the messages it opens.\<close>

lemma message_events_closed [simp]: "\<not> message_open (message_events ms) False"
  by (induction ms) (simp_all add: message_events_def)

lemma outcome_closed [simp]: "\<not> message_open (emitToolCallOutcome c res err) b"
  by (simp add: emitToolCallOutcome_def)

lemma updates_open [simp]:
  "message_open (map (ToolUpdate c) rs) b = b"
  by (induction rs) simp_all

lemma all_updates_open [simp]: "message_open (map (\<lambda>p. ToolUpdate (fst p) (snd p)) us) b = b"
  by (induction us) simp_all

lemma finalize_closed: "\<not> message_open (fst (finalizeExecutedToolCall cf c args res err)) b"
  by (auto simp: finalizeExecutedToolCall_def Let_def split: option.splits sum.splits)

lemma seq_call_closed: "\<not> message_open (fst (seq_call cf c)) b"
  using finalize_closed [of cf c]
  by (auto simp: seq_call_def executePreparedToolCall_def case_prod_unfold split: preparation.splits)

lemma sequential_closed: "\<not> message_open (fst (executeToolCallsSequential cf cs)) False"
proof (induction cs)
  case (Cons c cs)
  then show ?case using seq_call_closed [of cf c False]
    by (cases "snd (seq_call cf c)") (auto simp: case_prod_unfold)
qed simp

lemma prepare_all_closed: "\<not> message_open (fst (prepare_all cf cs)) False"
proof (induction cs)
  case (Cons c cs)
  then show ?case by (cases "prepareToolCall cf c") (auto simp: case_prod_unfold)
qed simp

lemma finalize_all_closed: "\<not> message_open (fst (finalize_all cf run ss)) False"
proof (induction ss)
  case (Cons s ss)
  obtain c tool args where p: "run ! nat (tr_index s) = (c, tool, args)" by (metis prod_cases3)
  show ?case using Cons p finalize_closed [of cf c args "scheduled_result (tr_result s)" "tr_isError s" False]
    by (cases "snd (finalizeExecutedToolCall cf c args (scheduled_result (tr_result s)) (tr_isError s))")
      (auto simp: case_prod_unfold)
qed simp

lemma execute_calls_closed: "\<not> message_open (fst (execute_calls inp cs)) False"
  using sequential_closed [of "ti_config inp" cs] prepare_all_closed [of "ti_config inp" cs]
    finalize_all_closed [of "ti_config inp" "snd (snd (prepare_all (ti_config inp) cs))" "ti_scheduled inp"]
  by (auto simp: execute_calls_def executeToolCallsParallel_def case_prod_unfold)

lemma stream_closed: "\<not> message_open (snd (stream_events final es added msgs)) b"
  by (induction final es added msgs arbitrary: b rule: stream_events.induct) (simp_all add: finish_stream_def case_prod_unfold)

lemma response_closed: "\<not> message_open (fst (snd (streamAssistantResponse cf stream final msgs))) False"
  using stream_closed [of final stream False msgs False]
  by (auto simp: streamAssistantResponse_def Let_def case_prod_unfold split: transcript_check.splits)

definition closed_messages :: "'q loop_state \<Rightarrow> bool" where
  "closed_messages s \<longleftrightarrow> \<not> message_open (ls_events s) False"

lemma closed_turn:
  assumes "closed_messages s"
  shows "closed_messages (turn inp s)"
proof -
  have inj: "\<not> message_open (ls_events (inject_pending s)) False"
    using assms by (auto simp: closed_messages_def inject_pending_def emit_def)
  obtain msgs evs resp where r: "streamAssistantResponse (ti_config inp) (ti_stream inp) (ti_final inp) (ls_messages (inject_pending s)) =
    (msgs, evs, resp)" by (metis prod_cases3)
  have evs: "\<not> message_open evs False"
    using response_closed [of "ti_config inp" "ti_stream inp" "ti_final inp" "ls_messages (inject_pending s)"] r by simp
  show ?thesis
  proof (cases resp)
    case None
    then show ?thesis using inj evs r by (simp add: turn_def Let_def closed_messages_def emit_def)
  next
    case (Some a)
    obtain evs2 rs where ex: "execute_calls inp (tool_calls_of (am_content a)) = (evs2, rs)" by force
    have evs2: "\<not> message_open evs2 False" using execute_calls_closed [of inp "tool_calls_of (am_content a)"] ex by simp
    then show ?thesis using inj evs r Some ex
      by (cases rs) (simp_all add: turn_def Let_def closed_messages_def emit_def split: prod.splits)
  qed
qed

lemma closed_moves: "loop_moves ok s t \<Longrightarrow> closed_messages s \<Longrightarrow> closed_messages t"
proof (induction rule: loop_moves.induct)
  case (step s inp)
  then show ?case
    by (auto simp: loop_step_def closed_turn) (auto simp: closed_messages_def stop_or_follow_def emit_def split: prod.splits)
qed (simp add: closed_messages_def)

lemma closed_reach: "(loop_moves ok)\<^sup>*\<^sup>* s t \<Longrightarrow> closed_messages s \<Longrightarrow> closed_messages t"
  by (induction rule: rtranclp_induct) (auto intro: closed_moves)

lemma closed_begin: "closed_messages (loop_begin cf msgs new ([AgentStart, TurnStart] @ message_events ps) q)"
  by (simp add: loop_begin_def closed_messages_def split: prod.splits)

lemma closed_start: "closed_messages (runAgentLoop cf prompts context q)"
  unfolding runAgentLoop_def by (rule closed_begin)

lemma closed_continue: "runAgentLoopContinue cf base q = Inr s \<Longrightarrow> closed_messages s"
  using closed_begin [of cf base "[]" "[]" q]
  by (auto simp: runAgentLoopContinue_def message_events_def split: if_splits)

section \<open>A turn, case by case\<close>

definition turn_context :: "'q loop_state \<Rightarrow> agent_message list" where
  "turn_context s = ls_messages s @ ls_pending s"

definition turn_check :: "'q turn_input \<Rightarrow> 'q loop_state \<Rightarrow> transcript_check" where
  "turn_check inp s = validateTranscriptForModel (llm_messages (ti_config inp) (turn_context s)) (cf_model (ti_config inp))"

lemma inject_facts:
  "ls_messages (inject_pending s) = turn_context s" "ls_new (inject_pending s) = ls_new s @ ls_pending s"
  "ls_pending (inject_pending s) = []" "ls_world (inject_pending s) = ls_world s"
  "ls_status (inject_pending s) = ls_status s"
  "end_messages (ls_events (inject_pending s)) = end_messages (ls_events s) @ ls_pending s"
  "pend (ls_events (inject_pending s)) P = pend (ls_events s) P"
  "quiet (ls_events (inject_pending s)) = quiet (ls_events s)"
  by (simp_all add: inject_pending_def emit_def turn_context_def)

lemma emit_facts [simp]:
  "ls_events (emit evs s) = ls_events s @ evs" "ls_new (emit evs s) = ls_new s" "ls_world (emit evs s) = ls_world s"
  "ls_messages (emit evs s) = ls_messages s" "ls_pending (emit evs s) = ls_pending s"
  "ls_status (emit evs s) = ls_status s" "ls_more (emit evs s) = ls_more s"
  by (simp_all add: emit_def)

text \<open>The message a turn records as the response.\<close>

definition turn_response :: "'q turn_input \<Rightarrow> 'q loop_state \<Rightarrow> assistant_message" where
  "turn_response inp s =
     (case turn_check inp s of TranscriptRejected t \<Rightarrow> rejected_message (cf_model (ti_config inp)) t | _ \<Rightarrow> ti_final inp)"

lemma rejected_message_facts [simp]:
  "am_stopReason (rejected_message m t) = Stop_error" "stop_failed Stop_error" "stop_failed Stop_aborted"
  by (simp_all add: rejected_message_def stop_failed_def)

lemma response_facts:
  assumes "starts (ti_stream inp) \<le> 1"
    and "streamAssistantResponse (ti_config inp) (ti_stream inp) (ti_final inp) (turn_context s) = (msgs, evs, resp)"
  shows "resp = Some (turn_response inp s)" and "end_messages evs = [AssistantMessage (turn_response inp s)]"
    and "pend evs P = P" and "quiet evs"
    and "turn_check inp s = TranscriptOk \<Longrightarrow> msgs = turn_context s @ [AssistantMessage (ti_final inp)]"
proof -
  have no_throw: "turn_check inp s \<noteq> TranscriptThrows" unfolding turn_check_def by (rule transcript_check_iff(2))
  obtain ms es where str: "stream_events (ti_final inp) (ti_stream inp) False (turn_context s) = (ms, es)" by force
  have es: "end_messages es = [AssistantMessage (ti_final inp)]" "pend es P = P" "quiet es"
    "ms = turn_context s @ [AssistantMessage (ti_final inp)]"
    using stream_ends [of "ti_final inp" "ti_stream inp" False "turn_context s"]
      stream_pend [of "ti_final inp" "ti_stream inp" False "turn_context s" P]
      stream_context [OF assms(1), of "ti_final inp" "turn_context s"] str by simp_all
  have r: "streamAssistantResponse (ti_config inp) (ti_stream inp) (ti_final inp) (turn_context s) =
    (case turn_check inp s of
        TranscriptThrows \<Rightarrow> (turn_context s, [], None)
      | TranscriptRejected t \<Rightarrow>
          (let e = rejected_message (cf_model (ti_config inp)) t
           in (turn_context s, [MessageStart (AssistantMessage e), MessageEnd (AssistantMessage e)], Some e))
      | TranscriptOk \<Rightarrow> (ms, es, Some (ti_final inp)))"
    by (cases "turn_check inp s") (simp_all add: streamAssistantResponse_def turn_check_def str)
  have "resp = Some (turn_response inp s) \<and> end_messages evs = [AssistantMessage (turn_response inp s)]
    \<and> pend evs P = P \<and> quiet evs
    \<and> (turn_check inp s = TranscriptOk \<longrightarrow> msgs = turn_context s @ [AssistantMessage (ti_final inp)])"
  proof (cases "turn_check inp s")
    case TranscriptOk
    then have "msgs = ms" "evs = es" "resp = Some (ti_final inp)" using assms(2) unfolding r by simp_all
    then show ?thesis using TranscriptOk es by (simp add: turn_response_def)
  next
    case (TranscriptRejected x)
    let ?e = "AssistantMessage (rejected_message (cf_model (ti_config inp)) x)"
    have "evs = [MessageStart ?e, MessageEnd ?e]" "resp = Some (rejected_message (cf_model (ti_config inp)) x)"
      using assms(2) TranscriptRejected unfolding r by (simp_all add: Let_def)
    then show ?thesis using TranscriptRejected by (simp add: turn_response_def)
  next
    case TranscriptThrows
    then show ?thesis using no_throw by blast
  qed
  then show "resp = Some (turn_response inp s)" and "end_messages evs = [AssistantMessage (turn_response inp s)]"
    and "pend evs P = P" and "quiet evs"
    and "turn_check inp s = TranscriptOk \<Longrightarrow> msgs = turn_context s @ [AssistantMessage (ti_final inp)]"
    by blast+
qed

lemma turn_stops:
  assumes "starts (ti_stream inp) \<le> 1" and "stop_failed (am_stopReason (turn_response inp s))"
  shows "ls_status (turn inp s) = Ended"
    and "ls_new (turn inp s) = ls_new s @ ls_pending s @ [AssistantMessage (turn_response inp s)]"
    and "end_messages (ls_events (turn inp s)) =
      end_messages (ls_events s) @ ls_pending s @ [AssistantMessage (turn_response inp s)]"
    and "pend (ls_events (turn inp s)) P = pend (ls_events s) P"
    and "quiet (ls_events s) \<Longrightarrow> \<exists>evs. ls_events (turn inp s) = evs @ [AgentEnd (ls_new (turn inp s))] \<and> quiet evs"
    and "ls_pending (turn inp s) = []" and "ls_world (turn inp s) = ls_world s"
proof -
  obtain msgs evs resp where r: "streamAssistantResponse (ti_config inp) (ti_stream inp) (ti_final inp) (turn_context s) =
    (msgs, evs, resp)" by (metis prod_cases3)
  note facts = response_facts [OF assms(1) r]
  have t: "turn inp s = (emit [TurnEnd (AssistantMessage (turn_response inp s)) [],
      AgentEnd (ls_new s @ ls_pending s @ [AssistantMessage (turn_response inp s)])]
      ((emit evs (inject_pending s))\<lparr>ls_messages := msgs,
         ls_new := ls_new s @ ls_pending s @ [AssistantMessage (turn_response inp s)]\<rparr>))\<lparr>ls_status := Ended\<rparr>"
    using r assms(2) facts(1) by (simp add: turn_def Let_def inject_facts)
  show "ls_status (turn inp s) = Ended"
    "ls_new (turn inp s) = ls_new s @ ls_pending s @ [AssistantMessage (turn_response inp s)]"
    "end_messages (ls_events (turn inp s)) =
      end_messages (ls_events s) @ ls_pending s @ [AssistantMessage (turn_response inp s)]"
    "pend (ls_events (turn inp s)) P = pend (ls_events s) P"
    "ls_pending (turn inp s) = []" "ls_world (turn inp s) = ls_world s"
    by (simp_all add: t facts inject_facts)
  show "\<exists>evs. ls_events (turn inp s) = evs @ [AgentEnd (ls_new (turn inp s))] \<and> quiet evs" if "quiet (ls_events s)"
    by (rule exI [of _ "ls_events (inject_pending s) @ evs @ [TurnEnd (AssistantMessage (turn_response inp s)) []]"])
      (simp add: t facts inject_facts that)
qed

lemma turn_executes:
  assumes "starts (ti_stream inp) \<le> 1" and "\<not> stop_failed (am_stopReason (turn_response inp s))"
    and "execute_calls inp (tool_calls_of (am_content (ti_final inp))) = (evs2, rs)"
  shows "\<exists>evs. end_messages evs = [AssistantMessage (ti_final inp)] \<and> (\<forall>P. pend evs P = P) \<and> quiet evs
    \<and> turn_check inp s = TranscriptOk \<and> turn_response inp s = ti_final inp \<and>
    turn inp s =
      (case rs of
         Inl e \<Rightarrow> (emit (evs @ evs2) (inject_pending s))
           \<lparr>ls_messages := turn_context s @ [AssistantMessage (ti_final inp)],
            ls_new := ls_new s @ ls_pending s @ [AssistantMessage (ti_final inp)],
            ls_status := Failed e, ls_more := (tool_calls_of (am_content (ti_final inp)) \<noteq> [])\<rparr>
       | Inr results \<Rightarrow> (emit (evs @ evs2 @ [TurnEnd (AssistantMessage (ti_final inp)) results]) (inject_pending s))
           \<lparr>ls_messages := turn_context s @ [AssistantMessage (ti_final inp)] @ map ToolResult results,
            ls_new := ls_new s @ ls_pending s @ [AssistantMessage (ti_final inp)] @ map ToolResult results,
            ls_more := (tool_calls_of (am_content (ti_final inp)) \<noteq> []),
            ls_pending := fst (poll (cf_getSteering (ti_config inp)) (ls_world s)),
            ls_world := snd (poll (cf_getSteering (ti_config inp)) (ls_world s))\<rparr>)"
proof -
  obtain msgs evs resp where r: "streamAssistantResponse (ti_config inp) (ti_stream inp) (ti_final inp) (turn_context s) =
    (msgs, evs, resp)" by (metis prod_cases3)
  note facts = response_facts [OF assms(1) r]
  have ok: "turn_check inp s = TranscriptOk"
    using assms(2) transcript_check_iff(2) by (cases "turn_check inp s") (auto simp: turn_response_def turn_check_def)
  then have a: "turn_response inp s = ti_final inp" by (simp add: turn_response_def)
  have msgs: "msgs = turn_context s @ [AssistantMessage (ti_final inp)]" by (rule facts(5) [OF ok])
  have stop: "\<not> stop_failed (am_stopReason (ti_final inp))" using assms(2) a by simp
  show ?thesis
  proof (intro exI [of _ evs] conjI allI)
    show "turn inp s = (case rs of
         Inl e \<Rightarrow> (emit (evs @ evs2) (inject_pending s))
           \<lparr>ls_messages := turn_context s @ [AssistantMessage (ti_final inp)],
            ls_new := ls_new s @ ls_pending s @ [AssistantMessage (ti_final inp)],
            ls_status := Failed e, ls_more := (tool_calls_of (am_content (ti_final inp)) \<noteq> [])\<rparr>
       | Inr results \<Rightarrow> (emit (evs @ evs2 @ [TurnEnd (AssistantMessage (ti_final inp)) results]) (inject_pending s))
           \<lparr>ls_messages := turn_context s @ [AssistantMessage (ti_final inp)] @ map ToolResult results,
            ls_new := ls_new s @ ls_pending s @ [AssistantMessage (ti_final inp)] @ map ToolResult results,
            ls_more := (tool_calls_of (am_content (ti_final inp)) \<noteq> []),
            ls_pending := fst (poll (cf_getSteering (ti_config inp)) (ls_world s)),
            ls_world := snd (poll (cf_getSteering (ti_config inp)) (ls_world s))\<rparr>)"
      using r facts(1) a msgs stop assms(3)
      by (cases rs; cases "poll (cf_getSteering (ti_config inp)) (ls_world s)")
        (simp_all add: turn_def Let_def inject_facts emit_def)
  qed (use facts ok a in simp_all)
qed

lemma turn_fails:
  assumes "starts (ti_stream inp) \<le> 1" and "\<not> stop_failed (am_stopReason (turn_response inp s))"
    and "execute_calls inp (tool_calls_of (am_content (ti_final inp))) = (evs2, Inl e)"
  shows "ls_status (turn inp s) = Failed e"
    and "ls_new (turn inp s) = ls_new s @ ls_pending s @ [AssistantMessage (ti_final inp)]"
    and "end_messages (ls_events (turn inp s)) =
      end_messages (ls_events s) @ ls_pending s @ [AssistantMessage (ti_final inp)] @ end_messages evs2"
  using turn_executes [OF assms] by (auto simp: inject_facts)

lemma turn_continues:
  assumes "starts (ti_stream inp) \<le> 1" and "\<not> stop_failed (am_stopReason (turn_response inp s))"
    and "execute_calls inp (tool_calls_of (am_content (ti_final inp))) = (evs2, Inr results)"
  shows "ls_status (turn inp s) = ls_status s"
    and "ls_new (turn inp s) = ls_new s @ ls_pending s @ [AssistantMessage (ti_final inp)] @ map ToolResult results"
    and "ls_messages (turn inp s) = turn_context s @ [AssistantMessage (ti_final inp)] @ map ToolResult results"
    and "ls_more (turn inp s) = (tool_calls_of (am_content (ti_final inp)) \<noteq> [])"
    and "ls_pending (turn inp s) = fst (poll (cf_getSteering (ti_config inp)) (ls_world s))"
    and "ls_world (turn inp s) = snd (poll (cf_getSteering (ti_config inp)) (ls_world s))"
  using turn_executes [OF assms] by (auto simp: inject_facts)

section \<open>The invariant of a run\<close>

definition mirrored :: "agent_message list \<Rightarrow> 'q loop_state \<Rightarrow> bool" where
  "mirrored base s \<longleftrightarrow>
     (case ls_status s of
        Running \<Rightarrow> end_messages (ls_events s) = ls_new s \<and> pend (ls_events s) {} = {} \<and> quiet (ls_events s)
          \<and> ls_messages s = base @ ls_new s
      | Ended \<Rightarrow> end_messages (ls_events s) = ls_new s \<and> pend (ls_events s) {} = {}
          \<and> (\<exists>evs. ls_events s = evs @ [AgentEnd (ls_new s)] \<and> quiet evs)
      | Failed e \<Rightarrow> (\<exists>rs. end_messages (ls_events s) = ls_new s @ map ToolResult rs) \<and> quiet (ls_events s))"

lemma mirrored_turn:
  assumes "mirrored base s" and "ls_status s = Running" and "faithful_input inp"
  shows "mirrored base (turn inp s)"
proof -
  have starts: "starts (ti_stream inp) \<le> 1" and batch: "batch_scheduled inp"
    using assms(3) by (simp_all add: faithful_input_def)
  have inv: "end_messages (ls_events s) = ls_new s" "pend (ls_events s) {} = {}" "quiet (ls_events s)"
    "ls_messages s = base @ ls_new s" using assms(1,2) by (simp_all add: mirrored_def)
  show ?thesis
  proof (cases "stop_failed (am_stopReason (turn_response inp s))")
    case True
    note stops = turn_stops [OF starts True]
    show ?thesis unfolding mirrored_def stops(1) using stops(2-5) inv by simp
  next
    case False
    obtain evs2 rs where ex: "execute_calls inp (tool_calls_of (am_content (ti_final inp))) = (evs2, rs)" by force
    obtain evs where evs: "end_messages evs = [AssistantMessage (ti_final inp)]" "\<forall>P. pend evs P = P" "quiet evs"
      and t: "turn inp s =
      (case rs of
         Inl e \<Rightarrow> (emit (evs @ evs2) (inject_pending s))
           \<lparr>ls_messages := turn_context s @ [AssistantMessage (ti_final inp)],
            ls_new := ls_new s @ ls_pending s @ [AssistantMessage (ti_final inp)],
            ls_status := Failed e, ls_more := (tool_calls_of (am_content (ti_final inp)) \<noteq> [])\<rparr>
       | Inr results \<Rightarrow> (emit (evs @ evs2 @ [TurnEnd (AssistantMessage (ti_final inp)) results]) (inject_pending s))
           \<lparr>ls_messages := turn_context s @ [AssistantMessage (ti_final inp)] @ map ToolResult results,
            ls_new := ls_new s @ ls_pending s @ [AssistantMessage (ti_final inp)] @ map ToolResult results,
            ls_more := (tool_calls_of (am_content (ti_final inp)) \<noteq> []),
            ls_pending := fst (poll (cf_getSteering (ti_config inp)) (ls_world s)),
            ls_world := snd (poll (cf_getSteering (ti_config inp)) (ls_world s))\<rparr>)"
      using turn_executes [OF starts False ex] by blast
    obtain ms where ms: "end_messages evs2 = map ToolResult ms" "\<forall>ns. rs = Inr ns \<longrightarrow> ns = ms"
      using execute_calls_ends [OF ex batch] by blast
    have pend: "quiet evs2" "\<forall>ns. rs = Inr ns \<longrightarrow> pend evs2 {} = {}" using execute_calls_pend [OF batch ex] by blast+
    show ?thesis
    proof (cases rs)
      case (Inl e)
      then show ?thesis using t evs ms(1) pend(1) inv by (auto simp: mirrored_def inject_facts)
    next
      case (Inr ns)
      then show ?thesis using t evs ms pend inv assms(2) by (simp add: mirrored_def inject_facts turn_context_def)
    qed
  qed
qed

lemma mirrored_follow:
  assumes "mirrored base s" and "ls_status s = Running"
  shows "mirrored base (stop_or_follow cf s)"
  using assms by (auto simp: mirrored_def stop_or_follow_def split: prod.splits)

lemma mirrored_moves: "loop_moves ok s t \<Longrightarrow> mirrored base s \<Longrightarrow> mirrored base t"
proof (induction rule: loop_moves.induct)
  case (step s inp)
  then show ?case by (simp add: loop_step_def mirrored_turn mirrored_follow)
next
  case (world s q)
  then show ?case by (simp add: mirrored_def)
qed

lemma mirrored_reach: "(loop_moves ok)\<^sup>*\<^sup>* s t \<Longrightarrow> mirrored base s \<Longrightarrow> mirrored base t"
  by (induction rule: rtranclp_induct) (auto intro: mirrored_moves)

lemma mirrored_start: "mirrored context (runAgentLoop cf prompts context q)"
  by (simp add: runAgentLoop_def loop_begin_def mirrored_def split: prod.splits)

lemma mirrored_continue: "runAgentLoopContinue cf context q = Inr s \<Longrightarrow> mirrored context s"
  by (auto simp: runAgentLoopContinue_def loop_begin_def mirrored_def split: prod.splits if_splits)

end
