(* ===== verification/Agent_Runs.thy ===== *)
theory Agent_Runs
  imports Agent_Turns
begin

text \<open>
  Whole runs of the agent loop: the transcript it builds stays one the validators accept, runs
  without tool calls end and empty the queues, and what an aborted batch or a throwing hook leaves.
\<close>

section \<open>The transcript of a run\<close>

definition plain :: "agent_message \<Rightarrow> bool" where
  "plain m \<longleftrightarrow> \<not> is_assistant m \<and> (\<forall>r. m \<noteq> ToolResult r)"

text \<open>The conversions of the agent and of the coding agent.\<close>

definition loop_conversion :: "(agent_message list \<Rightarrow> agent_message list) \<Rightarrow> bool" where
  "loop_conversion conv \<longleftrightarrow> conv = defaultConvertToLlm \<or> conv = convertToLlm"

definition entries_of :: "(agent_message list \<Rightarrow> agent_message list) \<Rightarrow> agent_message list \<Rightarrow> entry list" where
  "entries_of conv ms = map message_entry (conv ms)"

lemma entries_append:
  "loop_conversion conv \<Longrightarrow> entries_of conv (ms @ ns) = entries_of conv ms @ entries_of conv ns"
  by (auto simp: loop_conversion_def entries_of_def defaultConvertToLlm_def convertToLlm_def)

lemma entries_Nil [simp]: "loop_conversion conv \<Longrightarrow> entries_of conv [] = []"
  by (auto simp: loop_conversion_def entries_of_def defaultConvertToLlm_def convertToLlm_def)

lemma entries_assistant:
  "loop_conversion conv \<Longrightarrow> entries_of conv [AssistantMessage a] = [message_entry (AssistantMessage a)]"
  by (auto simp: loop_conversion_def entries_of_def defaultConvertToLlm_def convertToLlm_def)

lemma entries_results:
  assumes "loop_conversion conv" and "\<forall>m \<in> set rs. \<not> tm_excludeFromContext m"
  shows "entries_of conv (map ToolResult rs) = map ResultEntry (map tm_toolCallId rs)"
  using assms(2)
proof (induction rs)
  case (Cons r rs)
  then show ?case using assms(1)
    by (auto simp: loop_conversion_def entries_of_def defaultConvertToLlm_def convertToLlm_def)
qed (use assms(1) in simp)

lemma plain_entries:
  assumes "loop_conversion conv" and "list_all plain ms"
  shows "list_all call_free (entries_of conv ms)"
  using assms(2)
proof (induction ms)
  case (Cons m ms)
  have "list_all call_free (entries_of conv [m])"
    using Cons.prems assms(1)
    by (cases m) (auto simp: loop_conversion_def entries_of_def defaultConvertToLlm_def convertToLlm_def
        plain_def call_free_def user_text_def)
  then show ?case using Cons entries_append [OF assms(1), of "[m]" ms] by simp
qed (use assms(1) in simp)

lemma accepts_append:
  "accepts P S es \<Longrightarrow> accepts P S (es @ fs) \<longleftrightarrow> accepts {} (S \<union> set (all_calls es)) fs"
  by (induction P S es rule: accepts.induct) (simp_all add: Un_assoc)

lemma accepts_suffix: "accepts P S (es @ fs) \<Longrightarrow> \<exists>Q T. accepts Q T fs"
  by (induction P S es rule: accepts.induct) auto

lemma well_formed_append:
  assumes "well_formed_transcript es"
  shows "well_formed_transcript (es @ fs) \<longleftrightarrow> accepts {} (set (all_calls es)) fs"
  using accepts_append [of "{}" "{}" es fs] assms by (simp flip: accepts_well_formed)

lemma accepts_results:
  "finite P \<Longrightarrow> mset rs = mset_set P \<Longrightarrow> accepts P S (map ResultEntry rs)"
proof (induction rs arbitrary: P)
  case Nil
  then show ?case by (simp add: mset_set_empty_iff)
next
  case (Cons r rs)
  have r: "r \<in> P" using Cons.prems by (metis elem_mset_set list.set_intros(1) set_mset_mset)
  then have "mset rs = mset_set (P - {r})" using Cons.prems mset_set.remove [of P r] by simp
  then show ?case using Cons.IH [of "P - {r}"] Cons.prems(1) r by simp
qed

lemma accepts_turn:
  assumes "distinct calls" and "set calls \<inter> S = {}" and "\<forall>c \<in> set calls. \<not> js_blank c" and "mset rs = mset calls"
  shows "accepts {} S (AssistantEntry calls # map ResultEntry rs)"
  using assms by (simp add: accepts_results mset_set_set)

definition call_ids :: "assistant_message \<Rightarrow> string list" where
  "call_ids a = map cb_id (tool_calls_of (am_content a))"

text \<open>What the environment of the loop has to respect: the conversion is one of the two, queued
  messages are no assistant messages or tool results, and a response that did not fail names its
  calls by non-blank ids that are new in the transcript.\<close>

definition orderly_input ::
  "(agent_message list \<Rightarrow> agent_message list) \<Rightarrow> 'q turn_input \<Rightarrow> 'q loop_state \<Rightarrow> bool" where
  "orderly_input conv inp s \<longleftrightarrow>
     cf_convert (ti_config inp) = conv \<and> cf_transform (ti_config inp) = None \<and>
     list_all plain (fst (poll (cf_getSteering (ti_config inp)) (ls_world s))) \<and>
     list_all plain (fst (poll (cf_getFollowUp (ti_config inp)) (ls_world s))) \<and>
     (stop_failed (am_stopReason (ti_final inp)) \<or>
        distinct (call_ids (ti_final inp)) \<and> (\<forall>c \<in> set (call_ids (ti_final inp)). \<not> js_blank c)
        \<and> set (call_ids (ti_final inp)) \<inter> set (all_calls (entries_of conv (ls_messages s))) = {})"

definition in_order ::
  "(agent_message list \<Rightarrow> agent_message list) \<Rightarrow> agent_message list \<Rightarrow> 'q loop_state \<Rightarrow> bool" where
  "in_order conv base s \<longleftrightarrow> (\<forall>e. ls_status s \<noteq> Failed e) \<longrightarrow>
     well_formed_transcript (entries_of conv (base @ ls_new s)) \<and> list_all plain (ls_pending s)"

lemma plain_keeps_order:
  assumes "loop_conversion conv" and "well_formed_transcript (entries_of conv ms)" and "list_all plain ps"
  shows "well_formed_transcript (entries_of conv (ms @ ps))"
    and "set (all_calls (entries_of conv (ms @ ps))) = set (all_calls (entries_of conv ms))"
proof -
  have free: "list_all call_free (entries_of conv ps)" by (rule plain_entries [OF assms(1,3)])
  show "well_formed_transcript (entries_of conv (ms @ ps))"
    using well_formed_append [OF assms(2)] call_free_accepts [OF free] entries_append [OF assms(1)] by simp
  have "all_calls es = []" if "list_all call_free es" for es
    using that by (induction es) (simp_all add: call_free_def)
  then show "set (all_calls (entries_of conv (ms @ ps))) = set (all_calls (entries_of conv ms))"
    using free entries_append [OF assms(1)] by simp
qed

lemma context_accepted:
  assumes "loop_conversion conv" and "in_order conv base s" and "ls_status s = Running" and "ls_messages s = base @ ls_new s"
    and "cf_convert cf = conv" and "cf_transform cf = None"
  shows "validateTranscriptForModel (llm_messages cf (turn_context s)) m = TranscriptOk"
proof -
  have "well_formed_transcript (entries_of conv (turn_context s))"
    using plain_keeps_order(1) [OF assms(1), of "base @ ls_new s" "ls_pending s"] assms(2-4)
    by (simp add: in_order_def turn_context_def)
  then show ?thesis using assms(5,6) by (simp add: transcript_check_iff llm_messages_def entries_of_def)
qed

lemma failed_keeps_order:
  assumes "loop_conversion conv" and "well_formed_transcript (entries_of conv ms)" and "stop_failed (am_stopReason a)"
  shows "well_formed_transcript (entries_of conv (ms @ [AssistantMessage a]))"
  using assms entries_append [OF assms(1), of ms] entries_assistant [OF assms(1), of a]
    well_formed_append [OF assms(2), of "[SkippedEntry]"] by simp

lemma turn_keeps_order:
  assumes conv: "loop_conversion conv" and wf: "well_formed_transcript (entries_of conv ms)"
    and a: "\<not> stop_failed (am_stopReason a)" "distinct (call_ids a)" "\<forall>c \<in> set (call_ids a). \<not> js_blank c"
      "set (call_ids a) \<inter> set (all_calls (entries_of conv ms)) = {}"
    and rs: "mset (map tm_toolCallId rs) = mset (call_ids a)" "\<forall>m \<in> set rs. \<not> tm_excludeFromContext m"
  shows "well_formed_transcript (entries_of conv (ms @ [AssistantMessage a] @ map ToolResult rs))"
proof -
  have "entries_of conv (ms @ [AssistantMessage a] @ map ToolResult rs) =
      entries_of conv ms @ AssistantEntry (call_ids a) # map ResultEntry (map tm_toolCallId rs)"
    using entries_append [OF conv, of ms "[AssistantMessage a] @ map ToolResult rs"]
      entries_append [OF conv, of "[AssistantMessage a]" "map ToolResult rs"]
      entries_assistant [OF conv, of a] entries_results [OF conv rs(2)] a(1)
    by (simp add: call_ids_def)
  then show ?thesis
    using well_formed_append [OF wf] accepts_turn [OF a(2,4,3) rs(1)] by simp
qed

lemma in_order_turn:
  assumes conv: "loop_conversion conv" and ord: "in_order conv base s" and mir: "mirrored base s"
    and run: "ls_status s = Running" and inp: "faithful_input inp" "orderly_input conv inp s"
  shows "in_order conv base (turn inp s)"
proof -
  have starts: "starts (ti_stream inp) \<le> 1" and batch: "batch_scheduled inp"
    using inp(1) by (simp_all add: faithful_input_def)
  have msgs: "ls_messages s = base @ ls_new s" using mir run by (simp add: mirrored_def)
  have before: "well_formed_transcript (entries_of conv (base @ ls_new s))" "list_all plain (ls_pending s)"
    using ord run by (simp_all add: in_order_def)
  note injected = plain_keeps_order [OF conv before]
  have ok: "turn_check inp s = TranscriptOk"
    using context_accepted [OF conv ord run msgs, where cf = "ti_config inp"] inp(2) by (simp add: turn_check_def orderly_input_def)
  then have resp: "turn_response inp s = ti_final inp" by (simp add: turn_response_def)
  show ?thesis
  proof (cases "stop_failed (am_stopReason (ti_final inp))")
    case True
    then have "stop_failed (am_stopReason (turn_response inp s))" using resp by simp
    note stops = turn_stops [OF starts this]
    show ?thesis
      using failed_keeps_order [OF conv injected(1) True] stops(2,6) by (simp add: in_order_def resp)
  next
    case False
    obtain evs2 rs where ex: "execute_calls inp (tool_calls_of (am_content (ti_final inp))) = (evs2, rs)" by force
    show ?thesis
    proof (cases rs)
      case (Inl e)
      then show ?thesis using turn_fails(1) [OF starts _ ex [unfolded Inl]] resp False by (simp add: in_order_def)
    next
      case (Inr ns)
      then have ns: "\<forall>m \<in> set ns. \<not> tm_excludeFromContext m" "mset (map tm_toolCallId ns) = mset (call_ids (ti_final inp))"
        using execute_calls_ends [OF ex batch] by (auto simp: call_ids_def)
      have t: "ls_new (turn inp s) = ls_new s @ ls_pending s @ [AssistantMessage (ti_final inp)] @ map ToolResult ns"
        "ls_pending (turn inp s) = fst (poll (cf_getSteering (ti_config inp)) (ls_world s))"
        using turn_continues [OF starts _ ex [unfolded Inr]] resp False by simp_all
      have "set (call_ids (ti_final inp)) \<inter> set (all_calls (entries_of conv ((base @ ls_new s) @ ls_pending s))) = {}"
        using inp(2) False injected(2) msgs by (simp add: orderly_input_def)
      then have "well_formed_transcript
          (entries_of conv (((base @ ls_new s) @ ls_pending s) @ [AssistantMessage (ti_final inp)] @ map ToolResult ns))"
        using turn_keeps_order [OF conv injected(1) False _ _ _ ns(2,1)] inp(2) False by (simp add: orderly_input_def)
      then show ?thesis using t inp(2) by (simp add: in_order_def orderly_input_def)
    qed
  qed
qed

lemma in_order_moves:
  assumes "loop_conversion conv"
  shows "loop_moves (orderly_input conv) s t \<Longrightarrow> mirrored base s \<Longrightarrow> in_order conv base s \<Longrightarrow> in_order conv base t"
proof (induction rule: loop_moves.induct)
  case (step s inp)
  show ?case
  proof (cases "ls_more s \<or> ls_pending s \<noteq> []")
    case True
    then show ?thesis using in_order_turn [OF assms step(5,4,1,2,3)] step(1) by (simp add: loop_step_def)
  next
    case False
    then show ?thesis using step
      by (auto simp: loop_step_def stop_or_follow_def in_order_def orderly_input_def split: prod.splits)
  qed
next
  case (world s q)
  then show ?case by (simp add: in_order_def)
qed

lemma in_order_reach:
  assumes "loop_conversion conv"
  shows "(loop_moves (orderly_input conv))\<^sup>*\<^sup>* s t \<Longrightarrow> mirrored base s \<Longrightarrow> in_order conv base s \<Longrightarrow> in_order conv base t"
  by (induction rule: rtranclp_induct) (auto intro: in_order_moves [OF assms] mirrored_reach)

lemma in_order_start:
  assumes "loop_conversion conv" and "well_formed_transcript (entries_of conv context)" and "list_all plain prompts"
    and "list_all plain (fst (poll (cf_getSteering cf) q))"
  shows "in_order conv context (runAgentLoop cf prompts context q)"
  using plain_keeps_order(1) [OF assms(1-3)] assms(4)
  by (cases "poll (cf_getSteering cf) q") (simp add: in_order_def runAgentLoop_def loop_begin_def)

section \<open>Runs without tool calls end\<close>

definition queued :: "agent_queues \<Rightarrow> nat" where
  "queued q = length (aq_steering q) + length (aq_followUp q)"

definition steps_left :: "agent_queues loop_state \<Rightarrow> nat" where
  "steps_left s = 2 * queued (ls_world s) + (if ls_more s \<or> ls_pending s \<noteq> [] then 1 else 0)"

text \<open>A response without tool calls under the configuration of the agent.\<close>

definition talk_input :: "agent_queues turn_input \<Rightarrow> bool" where
  "talk_input inp \<longleftrightarrow> starts (ti_stream inp) \<le> 1 \<and> tool_calls_of (am_content (ti_final inp)) = []
     \<and> cf_getSteering (ti_config inp) = Some pollSteering \<and> cf_getFollowUp (ti_config inp) = Some dequeueFollowUpMessages"

fun ends_failed :: "agent_message list \<Rightarrow> bool" where
  "ends_failed ms = (case rev ms of AssistantMessage a # _ \<Rightarrow> stop_failed (am_stopReason a) | _ \<Rightarrow> False)"

definition drained :: "agent_queues loop_state \<Rightarrow> bool" where
  "drained s \<longleftrightarrow> \<not> aq_skipInitialPoll (ls_world s) \<and> (\<forall>e. ls_status s \<noteq> Failed e) \<and>
     (\<not> ls_more s \<and> ls_pending s = [] \<and> ls_status s = Running \<longrightarrow> aq_steering (ls_world s) = []) \<and>
     (ls_status s = Ended \<longrightarrow> \<not> hasQueuedMessages (ls_world s) \<or> ends_failed (ls_new s))"

lemma dequeue_split: "dequeue mode queue = (ms, rest) \<Longrightarrow> queue = ms @ rest"
  by (auto simp: dequeue_def split: if_splits list.splits)

lemma dequeue_none: "dequeue mode queue = ([], rest) \<Longrightarrow> queue = []"
  by (auto simp: dequeue_def split: if_splits list.splits)

lemma poll_steering:
  assumes "\<not> aq_skipInitialPoll q" and "pollSteering q = (ms, q2)"
  shows "aq_followUp q2 = aq_followUp q" "aq_steering q = ms @ aq_steering q2" "\<not> aq_skipInitialPoll q2"
    and "ms = [] \<longrightarrow> aq_steering q = []"
  using assms
  by (auto simp: pollSteering_def dequeueSteeringMessages_def dest: dequeue_split dequeue_none split: prod.splits)

lemma poll_follow_up:
  assumes "dequeueFollowUpMessages q = (ms, q2)"
  shows "aq_steering q2 = aq_steering q" "aq_followUp q = ms @ aq_followUp q2"
    "aq_skipInitialPoll q2 = aq_skipInitialPoll q"
    and "ms = [] \<longrightarrow> aq_followUp q = []"
  using assms
  by (auto simp: dequeueFollowUpMessages_def dest: dequeue_split dequeue_none split: prod.splits)

lemma talk_turn:
  assumes "talk_input inp" and "drained s" and "ls_status s = Running"
  shows "drained (turn inp s) \<and> (ls_status (turn inp s) = Running \<longrightarrow> steps_left (turn inp s) < 2 * queued (ls_world s) + 1)"
proof -
  have starts: "starts (ti_stream inp) \<le> 1" and calls: "tool_calls_of (am_content (ti_final inp)) = []"
    and poll: "poll (cf_getSteering (ti_config inp)) (ls_world s) = pollSteering (ls_world s)"
    using assms(1) by (simp_all add: talk_input_def poll_def)
  have skip: "\<not> aq_skipInitialPoll (ls_world s)" using assms(2) by (simp add: drained_def)
  show ?thesis
  proof (cases "stop_failed (am_stopReason (turn_response inp s))")
    case True
    note stops = turn_stops [OF starts True]
    show ?thesis using skip stops(1,2,7) True by (simp add: drained_def)
  next
    case False
    have ex: "execute_calls inp (tool_calls_of (am_content (ti_final inp))) = ([], Inr [])"
      by (simp add: execute_calls_def calls)
    obtain ms q2 where p: "pollSteering (ls_world s) = (ms, q2)" by force
    have t: "ls_pending (turn inp s) = ms" "ls_world (turn inp s) = q2" "ls_more (turn inp s) = False"
      "ls_status (turn inp s) = Running"
      using turn_continues [OF starts False ex] calls poll p assms(3) by simp_all
    note q = poll_steering [OF skip p]
    show ?thesis using t q by (cases ms) (auto simp: drained_def steps_left_def queued_def)
  qed
qed

lemma talk_step:
  assumes "talk_input inp" and "drained s" and "ls_status s = Running"
  shows "drained (loop_step inp s) \<and> (ls_status (loop_step inp s) = Running \<longrightarrow> steps_left (loop_step inp s) < steps_left s)"
proof (cases "ls_more s \<or> ls_pending s \<noteq> []")
  case True
  then show ?thesis using talk_turn [OF assms] assms(3) by (simp add: loop_step_def steps_left_def)
next
  case False
  obtain ms q2 where p: "dequeueFollowUpMessages (ls_world s) = (ms, q2)" by force
  have poll: "poll (cf_getFollowUp (ti_config inp)) (ls_world s) = (ms, q2)"
    using assms(1) p by (simp add: talk_input_def poll_def)
  note q = poll_follow_up [OF p]
  have "aq_steering (ls_world s) = []" "\<not> aq_skipInitialPoll (ls_world s)" using assms(2,3) False by (simp_all add: drained_def)
  then show ?thesis using False poll q assms(3)
    by (cases ms) (auto simp: loop_step_def stop_or_follow_def drained_def steps_left_def queued_def hasQueuedMessages_def)
qed

lemma step_stopped: "ls_status s \<noteq> Running \<Longrightarrow> fold loop_step inps s = s"
  by (induction inps) (simp_all add: loop_step_def)

lemma talk_run:
  "\<forall>inp \<in> set inps. talk_input inp \<Longrightarrow> drained s \<Longrightarrow> steps_left s < length inps \<Longrightarrow>
     ls_status (fold loop_step inps s) = Ended \<and> drained (fold loop_step inps s)"
proof (induction inps arbitrary: s)
  case (Cons inp inps)
  show ?case
  proof (cases "ls_status s = Running")
    case True
    then have step: "drained (loop_step inp s)"
      "ls_status (loop_step inp s) = Running \<longrightarrow> steps_left (loop_step inp s) < steps_left s"
      using talk_step [of inp s] Cons.prems by simp_all
    show ?thesis
    proof (cases "ls_status (loop_step inp s) = Running")
      case True
      then show ?thesis using Cons.IH [OF _ step(1)] step(2) Cons.prems by simp
    next
      case False
      then have "ls_status (loop_step inp s) = Ended" using step(1)
        by (cases "ls_status (loop_step inp s)") (auto simp: drained_def)
      then show ?thesis using step(1) False by (simp add: step_stopped)
    qed
  next
    case False
    then have "ls_status s = Ended" using Cons.prems(2) by (cases "ls_status s") (auto simp: drained_def)
    then show ?thesis using step_stopped [OF False, of "inp # inps"] Cons.prems(2) by simp
  qed
qed simp

lemma run_with_drained:
  "drained (snd (run_with cf msgs skip q ag))"
  "steps_left (snd (run_with cf msgs skip q ag)) \<le> 2 * queued q + 1"
proof -
  obtain ms q2 where p: "pollSteering (q\<lparr>aq_skipInitialPoll := skip\<rparr>) = (ms, q2)" by force
  have q2: "\<not> aq_skipInitialPoll q2" "queued q2 \<le> queued q"
    using p by (auto simp: pollSteering_def dequeueSteeringMessages_def queued_def dequeue_def
        split: if_splits prod.splits list.splits)
  have s: "ls_world (snd (run_with cf msgs skip q ag)) = q2" "ls_more (snd (run_with cf msgs skip q ag))"
    "ls_status (snd (run_with cf msgs skip q ag)) = Running"
    using p by (simp_all add: run_with_def runAgentLoop_def loop_begin_def agent_config_def poll_def)
  show "drained (snd (run_with cf msgs skip q ag))" using s q2 by (simp add: drained_def)
  show "steps_left (snd (run_with cf msgs skip q ag)) \<le> 2 * queued q + 1" using s q2 by (simp add: steps_left_def)
qed

text \<open>Where the messages of a run are: taken into the run, about to be, or still queued; and how many responses
  there have been and may still be.\<close>

definition spoken :: "agent_message list \<Rightarrow> agent_message list" where
  "spoken ms = filter (\<lambda>m. \<not> is_assistant m) ms"

definition responses :: "agent_message list \<Rightarrow> nat" where
  "responses ms = length (filter is_assistant ms)"

definition accounted :: "agent_message list \<Rightarrow> nat \<Rightarrow> agent_queues loop_state \<Rightarrow> bool" where
  "accounted plan n s \<longleftrightarrow>
     spoken (ls_new s) @ ls_pending s @ aq_steering (ls_world s) @ aq_followUp (ls_world s) = plan
     \<and> (ls_status s = Ended \<longrightarrow> ls_pending s = [])
     \<and> responses (ls_new s) + queued (ls_world s)
         + (if ls_status s = Running \<and> (ls_more s \<or> ls_pending s \<noteq> []) then 1 else 0) \<le> n"

lemma spoken_simps [simp]:
  "spoken [] = []" "spoken (m # ms) = (if is_assistant m then spoken ms else m # spoken ms)"
  "spoken (xs @ ys) = spoken xs @ spoken ys"
  "responses [] = 0" "responses (m # ms) = (if is_assistant m then Suc (responses ms) else responses ms)"
  "responses (xs @ ys) = responses xs + responses ys"
  by (simp_all add: spoken_def responses_def)

lemma spoken_id: "list_all (\<lambda>m. \<not> is_assistant m) ms \<Longrightarrow> spoken ms = ms \<and> responses ms = 0"
  by (induction ms) simp_all

lemma accounted_turn:
  assumes "talk_input inp" and "drained s" and "ls_status s = Running" and "ls_more s \<or> ls_pending s \<noteq> []"
    and "accounted plan n s" and "list_all (\<lambda>m. \<not> is_assistant m) plan"
  shows "accounted plan n (turn inp s)"
proof -
  have starts: "starts (ti_stream inp) \<le> 1" and calls: "tool_calls_of (am_content (ti_final inp)) = []"
    and poll: "poll (cf_getSteering (ti_config inp)) (ls_world s) = pollSteering (ls_world s)"
    using assms(1) by (simp_all add: talk_input_def poll_def)
  have skip: "\<not> aq_skipInitialPoll (ls_world s)" using assms(2) by (simp add: drained_def)
  have acc: "spoken (ls_new s) @ ls_pending s @ aq_steering (ls_world s) @ aq_followUp (ls_world s) = plan"
    "responses (ls_new s) + queued (ls_world s) + 1 \<le> n" using assms(3-5) by (auto simp: accounted_def)
  then have "list_all (\<lambda>m. \<not> is_assistant m) (ls_pending s)" using assms(6) by auto
  then have pending: "spoken (ls_pending s) = ls_pending s" "responses (ls_pending s) = 0" using spoken_id by auto
  show ?thesis
  proof (cases "stop_failed (am_stopReason (turn_response inp s))")
    case True
    note stops = turn_stops [OF starts True]
    show ?thesis using stops(1,2,6,7) acc pending by (simp add: accounted_def)
  next
    case False
    have ex: "execute_calls inp (tool_calls_of (am_content (ti_final inp))) = ([], Inr [])"
      by (simp add: execute_calls_def calls)
    obtain ms q2 where p: "pollSteering (ls_world s) = (ms, q2)" by force
    note continues = turn_continues [OF starts False ex]
    have t: "ls_pending (turn inp s) = ms" "ls_world (turn inp s) = q2" "ls_more (turn inp s) = False"
      "ls_new (turn inp s) = ls_new s @ ls_pending s @ [AssistantMessage (ti_final inp)]"
      "ls_status (turn inp s) = Running"
      using continues calls poll p assms(3) by simp_all
    note q = poll_steering [OF skip p]
    show ?thesis using t q acc pending by (cases ms) (auto simp: accounted_def queued_def)
  qed
qed

lemma accounted_step:
  assumes "talk_input inp" and "drained s" and "accounted plan n s" and "list_all (\<lambda>m. \<not> is_assistant m) plan"
  shows "accounted plan n (loop_step inp s)"
proof (cases "ls_status s = Running \<and> \<not> (ls_more s \<or> ls_pending s \<noteq> [])")
  case True
  obtain ms q2 where p: "dequeueFollowUpMessages (ls_world s) = (ms, q2)" by force
  have poll: "poll (cf_getFollowUp (ti_config inp)) (ls_world s) = (ms, q2)"
    using assms(1) p by (simp add: talk_input_def poll_def)
  note q = poll_follow_up [OF p]
  have "aq_steering (ls_world s) = []" using assms(2) True by (simp add: drained_def)
  then show ?thesis using True poll q assms(3)
    by (cases ms) (auto simp: loop_step_def stop_or_follow_def accounted_def queued_def)
next
  case False
  then show ?thesis using accounted_turn [OF assms(1,2) _ _ assms(3,4)] assms(3) by (auto simp: loop_step_def)
qed

lemma accounted_run:
  "\<forall>inp \<in> set inps. talk_input inp \<Longrightarrow> drained s \<Longrightarrow> accounted plan n s \<Longrightarrow> list_all (\<lambda>m. \<not> is_assistant m) plan \<Longrightarrow>
     accounted plan n (fold loop_step inps s)"
proof (induction inps arbitrary: s)
  case (Cons inp inps)
  have acc: "accounted plan n (loop_step inp s)" using accounted_step [of inp s plan n] Cons.prems by simp
  have "drained (loop_step inp s)"
    using talk_step [of inp s] Cons.prems by (cases "ls_status s = Running") (simp_all add: loop_step_def)
  then show ?case using Cons.IH [OF _ _ acc] Cons.prems by simp
qed simp

lemma run_with_accounted:
  assumes "list_all (\<lambda>m. \<not> is_assistant m) msgs"
  shows "accounted (msgs @ aq_steering q @ aq_followUp q) (queued q + 1) (snd (run_with cf msgs skip q ag))"
proof -
  obtain ms q2 where p: "pollSteering (q\<lparr>aq_skipInitialPoll := skip\<rparr>) = (ms, q2)" by force
  have q2: "aq_steering q = ms @ aq_steering q2" "aq_followUp q2 = aq_followUp q"
    using p by (auto simp: pollSteering_def dequeueSteeringMessages_def dest: dequeue_split split: if_splits prod.splits)
  show ?thesis using p q2 spoken_id [OF assms]
    by (simp add: run_with_def runAgentLoop_def loop_begin_def agent_config_def poll_def accounted_def queued_def)
qed

section \<open>An aborted batch\<close>

definition all_cancelled :: "'r pool \<Rightarrow> bool" where
  "all_cancelled p \<longleftrightarrow> pl_aborted p \<and> (\<forall>k \<in> set (pl_workers p). \<forall>i. k \<noteq> worker.Running i)
     \<and> (\<forall>r \<in> set (pl_results p). tr_result r = Message ''cancelled'' \<and> tr_isError r)"

lemma set_worker_mem: "k \<in> set (pl_workers (set_worker w k2 p)) \<Longrightarrow> k = k2 \<or> k \<in> set (pl_workers p)"
  using set_update_subset_insert [of "pl_workers p" w k2] by (auto simp: set_worker_def)

lemma set_worker_keeps [simp]:
  "pl_aborted (set_worker w k p) = pl_aborted p" "pl_results (set_worker w k p) = pl_results p"
  by (simp_all add: set_worker_def)

lemma cancelled_step: "pool_step lim wave g p q \<Longrightarrow> all_cancelled p \<Longrightarrow> all_cancelled q"
proof (induction rule: pool_step.induct)
  case (cancel p w i)
  then show ?case
    by (auto simp: all_cancelled_def record_result_def cancelled_result_def dest: set_worker_mem)
next
  case (finish p w i r)
  then show ?case by (auto simp: all_cancelled_def at_worker_def dest: nth_mem)
qed (auto simp: all_cancelled_def dest!: set_worker_mem)

lemma cancelled_start: "all_cancelled (pool_start lim wave True)"
  by (simp add: all_cancelled_def pool_start_def)

lemma cancelled_reach:
  assumes "(pool_step lim wave g)\<^sup>*\<^sup>* (pool_start lim wave True) p"
  shows "all_cancelled p"
  using assms by induction (auto intro: cancelled_step cancelled_start)

lemma cancelled_waves:
  "run_waves lim n ws ab rs \<Longrightarrow> ab \<Longrightarrow> \<forall>r \<in> set rs. tr_result r = Message ''cancelled'' \<and> tr_isError r"
proof (induction rule: run_waves.induct)
  case (wave w n ab p ab2 ws rs)
  have "all_cancelled p" using cancelled_reach wave(1,6) by simp
  then show ?case using wave.IH wave(3) by (auto simp: all_cancelled_def)
qed simp

lemma cancelled_batch:
  "run_batch lim n calls True out \<Longrightarrow> \<forall>r \<in> set out. tr_result r = Message ''cancelled'' \<and> tr_isError r"
  using cancelled_waves by (fastforce simp: run_batch_def)

lemma finalize_cancelled:
  assumes "cf_after cf = None" and "\<forall>s \<in> set ss. tr_result s = Message ''cancelled''"
    and "snd (finalize_all cf run ss) = Inr ms"
  shows "length ms = length ss \<and> (\<forall>m \<in> set ms. tm_content m = None)"
  using assms(2,3)
proof (induction ss arbitrary: ms)
  case (Cons s ss)
  then show ?case using assms(1)
    by (cases "snd (finalize_all cf run ss)")
      (auto simp: case_prod_unfold finalizeExecutedToolCall_def tool_message_def split: if_splits)
qed simp

lemma prepared_content:
  "\<forall>m \<in> set (fst (snd (prepare_all cf cs))). \<exists>res. tm_content m = Some res"
proof (induction cs)
  case (Cons c cs)
  have "prepareToolCall cf c = Immediate res err \<Longrightarrow> \<exists>bs d. res = Executed (Some bs) d" for res err
    by (auto simp: prepareToolCall_def refuse_def createErrorToolResult_def Let_def
        split: option.splits sum.splits if_splits)
  then show ?case using Cons.IH
    by (cases "prepareToolCall cf c") (fastforce simp: case_prod_unfold tool_message_def)+
qed simp

section \<open>The order of the results\<close>

definition refused_call :: "'q loop_config \<Rightarrow> call_block \<Rightarrow> bool" where
  "refused_call cf c \<longleftrightarrow> (\<exists>res err. prepareToolCall cf c = Immediate res err)"

lemma refused_call_code: "refused_call cf c = (case prepareToolCall cf c of Immediate _ _ \<Rightarrow> True | Prepared _ _ \<Rightarrow> False)"
  by (auto simp: refused_call_def split: preparation.splits)

lemma prepare_all_order:
  "map tm_toolCallId (fst (snd (prepare_all cf cs))) = map cb_id (filter (refused_call cf) cs)
   \<and> map fst (snd (snd (prepare_all cf cs))) = filter (\<lambda>c. \<not> refused_call cf c) cs"
  by (induction cs) (auto simp: case_prod_unfold refused_call_code split: preparation.splits)

lemma parallel_order:
  assumes "map tr_index ss = map int [0..<length (snd (snd (prepare_all cf cs)))]"
    and "snd (executeToolCallsParallel cf cs us ss) = Inr ms"
  shows "map tm_toolCallId ms = map cb_id (filter (refused_call cf) cs @ filter (\<lambda>c. \<not> refused_call cf c) cs)"
proof -
  obtain evs ms1 run where prep: "prepare_all cf cs = (evs, ms1, run)" by (metis prod_cases3)
  obtain evs2 r2 where fin: "finalize_all cf run ss = (evs2, r2)" by force
  obtain ms2 where ms2: "\<forall>ns. r2 = Inr ns \<longrightarrow> ns = ms2 \<and> map tm_toolCallId ms2 = map (\<lambda>s. cb_id (fst (run ! nat (tr_index s)))) ss"
    using finalize_all_ends [OF fin] by blast
  have out: "map_sum id (\<lambda>ms. ms1 @ ms) r2 = Inr ms"
    using assms(2) prep fin by (simp add: executeToolCallsParallel_def)
  then obtain ns where r2: "r2 = Inr ns" by (cases r2) simp_all
  then have ns: "ns = ms2" "map tm_toolCallId ms2 = map (\<lambda>p. cb_id (fst p)) run"
    using ms2 scheduled_ids [of ss run "\<lambda>p. cb_id (fst p)"] assms(1) prep by simp_all
  have pre: "map tm_toolCallId ms1 = map cb_id (filter (refused_call cf) cs)" "map fst run = filter (\<lambda>c. \<not> refused_call cf c) cs"
    using prepare_all_order [of cf cs] prep by simp_all
  have "map (\<lambda>p. cb_id (fst p)) run = map cb_id (map fst run)" by (simp add: comp_def)
  then have "map tm_toolCallId ms2 = map cb_id (filter (\<lambda>c. \<not> refused_call cf c) cs)" using ns(2) pre(2) by simp
  then show ?thesis using out r2 ns(1) pre(1) by auto
qed

section \<open>A hook that throws\<close>

definition returns_for :: "(call_block \<Rightarrow> json \<Rightarrow> call_result \<Rightarrow> bool \<Rightarrow> string + 'a) \<Rightarrow> call_block \<Rightarrow> bool" where
  "returns_for hook c \<longleftrightarrow> (\<forall>args res err. \<exists>r. hook c args res err = Inr r)"

definition throws_for :: "(call_block \<Rightarrow> json \<Rightarrow> call_result \<Rightarrow> bool \<Rightarrow> string + 'a) \<Rightarrow> string \<Rightarrow> call_block \<Rightarrow> bool" where
  "throws_for hook e c \<longleftrightarrow> (\<forall>args res err. hook c args res err = Inl e)"

text \<open>The order in which the calls of a response are finalized: refused calls are answered before that in
  parallel mode and in passing in sequential mode.\<close>

definition finalized_calls :: "'q turn_input \<Rightarrow> call_block list" where
  "finalized_calls inp =
     (if cf_sequential (ti_config inp) then tool_calls_of (am_content (ti_final inp)) else map fst (runnable_calls inp))"

lemma finalize_returns:
  assumes "cf_after cf = Some hook" and "returns_for hook c"
  shows "\<exists>evs m. finalizeExecutedToolCall cf c args res err = (evs, Inr m)"
proof -
  obtain r where "hook c args res err = Inr r" using assms(2) unfolding returns_for_def by blast
  then show ?thesis using assms(1) by (cases r) (simp_all add: finalizeExecutedToolCall_def Let_def)
qed

lemma finalize_throws:
  "cf_after cf = Some hook \<Longrightarrow> throws_for hook e c \<Longrightarrow>
   finalizeExecutedToolCall cf c args res err = (emitToolCallOutcome c (createErrorToolResult e) True, Inl e)"
  by (simp add: finalizeExecutedToolCall_def throws_for_def)

lemma seq_call_returns:
  assumes "cf_after cf = Some hook" and "returns_for hook c"
  shows "\<exists>evs m. seq_call cf c = (evs, Inr m)"
proof (cases "prepareToolCall cf c")
  case (Prepared tool args)
  then show ?thesis using finalize_returns [OF assms] 
    by (auto simp: seq_call_def split: prod.splits) (metis Pair_inject)
qed (simp add: seq_call_def)

lemma seq_call_throws:
  assumes "cf_after cf = Some hook" and "throws_for hook e c" and "\<not> refused_call cf c"
  shows "\<exists>evs. seq_call cf c = (evs, Inl e)"
  using assms(3) finalize_throws [OF assms(1,2)]
  by (cases "prepareToolCall cf c") (simp_all add: refused_call_def seq_call_def split: prod.splits)

lemma sequential_throws:
  assumes "cf_after cf = Some hook" and "throws_for hook e c" and "\<not> refused_call cf c"
  shows "\<forall>x \<in> set pre. returns_for hook x \<Longrightarrow>
    \<exists>evs ms. executeToolCallsSequential cf (pre @ c # post) = (evs, Inl e) \<and> end_messages evs = map ToolResult ms
      \<and> (\<forall>m \<in> set ms. \<not> tm_excludeFromContext m) \<and> map tm_toolCallId ms = map cb_id (pre @ [c])"
proof (induction pre)
  case Nil
  obtain evs where call: "seq_call cf c = (evs, Inl e)" using seq_call_throws [OF assms] by blast
  from seq_call_ends [OF this] obtain m where
    "end_messages evs = [ToolResult m]" "tm_toolCallId m = cb_id c" "\<not> tm_excludeFromContext m" by auto
  then show ?case using call by (intro exI [of _ evs] exI [of _ "[m]"]) simp
next
  case (Cons x pre)
  obtain evs1 m where call: "seq_call cf x = (evs1, Inr m)" using seq_call_returns [OF assms(1), of x] Cons.prems by auto
  have m: "end_messages evs1 = [ToolResult m]" "tm_toolCallId m = cb_id x" "\<not> tm_excludeFromContext m"
    using seq_call_ends [OF call] by auto
  obtain evs ms where "executeToolCallsSequential cf (pre @ c # post) = (evs, Inl e)" "end_messages evs = map ToolResult ms"
    "\<forall>m \<in> set ms. \<not> tm_excludeFromContext m" "map tm_toolCallId ms = map cb_id (pre @ [c])" using Cons by auto
  then show ?case using call m by (intro exI [of _ "evs1 @ evs"] exI [of _ "m # ms"]) simp
qed

lemma finalize_all_throws:
  assumes "cf_after cf = Some hook" and "0 \<le> tr_index s \<and> tr_index s < int (length run)"
    and "throws_for hook e (fst (run ! nat (tr_index s)))"
  shows "\<forall>x \<in> set ss. 0 \<le> tr_index x \<and> tr_index x < int (length run) \<and> returns_for hook (fst (run ! nat (tr_index x))) \<Longrightarrow>
    \<exists>evs ms. finalize_all cf run (ss @ s # ss2) = (evs, Inl e) \<and> end_messages evs = map ToolResult ms
      \<and> (\<forall>m \<in> set ms. \<not> tm_excludeFromContext m)
      \<and> map tm_toolCallId ms = map (\<lambda>x. cb_id (fst (run ! nat (tr_index x)))) (ss @ [s])"
proof (induction ss)
  case Nil
  obtain c tool args where p: "run ! nat (tr_index s) = (c, tool, args)" by (metis prod_cases3)
  let ?evs = "emitToolCallOutcome c (createErrorToolResult e) True"
  have "finalizeExecutedToolCall cf c args (scheduled_result (tr_result s)) (tr_isError s) = (?evs, Inl e)"
    using finalize_throws [OF assms(1)] assms(3) p by simp
  then show ?case using p assms(2)
    by (intro exI [of _ ?evs] exI [of _ "[tool_message c (createErrorToolResult e) True]"]) simp
next
  case (Cons x ss)
  obtain c tool args where p: "run ! nat (tr_index x) = (c, tool, args)" by (metis prod_cases3)
  have range: "0 \<le> tr_index x" "tr_index x < int (length run)" "returns_for hook c" using Cons.prems p by auto
  obtain evs1 m where call: "finalizeExecutedToolCall cf c args (scheduled_result (tr_result x)) (tr_isError x) = (evs1, Inr m)"
    using finalize_returns [OF assms(1) range(3)] by blast
  have m: "end_messages evs1 = [ToolResult m]" "tm_toolCallId m = cb_id c" "\<not> tm_excludeFromContext m"
    using finalize_ends [OF call] by auto
  obtain evs ms where "finalize_all cf run (ss @ s # ss2) = (evs, Inl e)" "end_messages evs = map ToolResult ms"
    "\<forall>m \<in> set ms. \<not> tm_excludeFromContext m"
    "map tm_toolCallId ms = map (\<lambda>x. cb_id (fst (run ! nat (tr_index x)))) (ss @ [s])" using Cons by auto
  then show ?case using call m p range by (intro exI [of _ "evs1 @ evs"] exI [of _ "m # ms"]) simp
qed

text \<open>When the hook throws for a call, the calls that would be finalized after it get no result.\<close>

lemma execute_throws:
  assumes "batch_scheduled inp" and "distinct (map cb_id (tool_calls_of (am_content (ti_final inp))))"
    and "finalized_calls inp = pre @ c # post" and "cf_after (ti_config inp) = Some hook"
    and "\<forall>x \<in> set pre. returns_for hook x" and "throws_for hook e c" and "\<not> refused_call (ti_config inp) c"
  shows "\<exists>evs ms. execute_calls inp (tool_calls_of (am_content (ti_final inp))) = (evs, Inl e)
    \<and> end_messages evs = map ToolResult ms \<and> (\<forall>m \<in> set ms. \<not> tm_excludeFromContext m)
    \<and> set (map tm_toolCallId ms) \<inter> cb_id ` set post = {} \<and> set post \<subseteq> set (tool_calls_of (am_content (ti_final inp)))"
proof (cases "cf_sequential (ti_config inp)")
  case True
  then have calls: "tool_calls_of (am_content (ti_final inp)) = pre @ c # post" using assms(3) by (simp add: finalized_calls_def)
  obtain evs ms where ex: "executeToolCallsSequential (ti_config inp) (pre @ c # post) = (evs, Inl e)"
    "end_messages evs = map ToolResult ms" "\<forall>m \<in> set ms. \<not> tm_excludeFromContext m"
    "map tm_toolCallId ms = map cb_id (pre @ [c])"
    using sequential_throws [OF assms(4,6,7,5)] by blast
  have "set (map cb_id (pre @ [c])) \<inter> cb_id ` set post = {}" using assms(2) by (auto simp: calls)
  then show ?thesis using ex True by (intro exI [of _ evs] exI [of _ ms]) (auto simp: execute_calls_def calls)
next
  case False
  let ?cf = "ti_config inp" and ?calls = "tool_calls_of (am_content (ti_final inp))" and ?ss = "ti_scheduled inp"
  obtain evs1 ms1 run where prep: "prepare_all ?cf ?calls = (evs1, ms1, run)" by (metis prod_cases3)
  then have run: "runnable_calls inp = run" by (simp add: runnable_calls_def)
  have order: "map fst run = pre @ c # post" using assms(3) False run by (simp add: finalized_calls_def)
  have idx: "map tr_index ?ss = map int [0..<length run]"
    using assms(1) False run scheduled_indices by (simp add: batch_scheduled_def)
  have len: "length ?ss = length run" using idx by (metis length_map length_upt minus_nat.diff_0)
  have at: "tr_index (?ss ! i) = int i" if "i < length run" for i
    using idx that len by (metis (no_types, lifting) add_0 length_upt minus_nat.diff_0 nth_map nth_upt)
  have "length (map fst run) = length (pre @ c # post)" by (simp only: order)
  then have n: "length pre < length run" by simp
  have fst_at: "fst (run ! i) = (pre @ c # post) ! i" if "i < length run" for i using that by (simp flip: order)
  let ?n = "length pre"
  have split: "?ss = take ?n ?ss @ ?ss ! ?n # drop (Suc ?n) ?ss" using n len by (simp add: id_take_nth_drop)
  have before: "0 \<le> tr_index x \<and> tr_index x < int (length run) \<and> returns_for hook (fst (run ! nat (tr_index x)))"
    if mem: "x \<in> set (take ?n ?ss)" for x
  proof -
    obtain i where "i < length (take ?n ?ss)" "x = take ?n ?ss ! i" using mem unfolding in_set_conv_nth by blast
    then have i: "i < ?n" "x = ?ss ! i" by simp_all
    have run: "i < length run" using i(1) n by linarith
    have "fst (run ! i) = pre ! i" using fst_at [OF run] i(1) by (simp add: nth_append)
    moreover have "returns_for hook (pre ! i)" using assms(5) nth_mem [OF i(1)] by blast
    ultimately show ?thesis using at [OF run] run unfolding i(2) by simp
  qed
  have here: "0 \<le> tr_index (?ss ! ?n) \<and> tr_index (?ss ! ?n) < int (length run)"
    "throws_for hook e (fst (run ! nat (tr_index (?ss ! ?n))))"
    using at [OF n] n fst_at [OF n] assms(6) by simp_all
  obtain evs ms where ex: "finalize_all ?cf run (take ?n ?ss @ ?ss ! ?n # drop (Suc ?n) ?ss) = (evs, Inl e)"
    "end_messages evs = map ToolResult ms" "\<forall>m \<in> set ms. \<not> tm_excludeFromContext m"
    "map tm_toolCallId ms = map (\<lambda>x. cb_id (fst (run ! nat (tr_index x)))) (take ?n ?ss @ [?ss ! ?n])"
    using finalize_all_throws [OF assms(4) here(1,2), of "take ?n ?ss" "drop (Suc ?n) ?ss"] before by blast
  have ids: "set (map tm_toolCallId ms) \<subseteq> cb_id ` set (pre @ [c])"
  proof
    fix j assume "j \<in> set (map tm_toolCallId ms)"
    then obtain x where x: "x \<in> set (take ?n ?ss @ [?ss ! ?n])" "j = cb_id (fst (run ! nat (tr_index x)))"
      unfolding ex(4) by auto
    have "take ?n ?ss @ [?ss ! ?n] = take (Suc ?n) ?ss" using n len by (simp add: take_Suc_conv_app_nth)
    with x(1) obtain i where "i < length (take (Suc ?n) ?ss)" "x = take (Suc ?n) ?ss ! i" by (metis in_set_conv_nth)
    with x(2) have i: "i < Suc ?n" "j = cb_id (fst (run ! nat (tr_index (?ss ! i))))" by simp_all
    have run: "i < length run" using i(1) n by linarith
    have "j = cb_id ((pre @ c # post) ! i)" unfolding i(2) at [OF run] fst_at [OF run, symmetric] by simp
    moreover have "(pre @ c # post) ! i \<in> set (pre @ [c])" using i(1) by (auto simp: nth_append less_Suc_eq)
    ultimately show "j \<in> cb_id ` set (pre @ [c])" by blast
  qed
  have pre: "end_messages evs1 = map ToolResult ms1" "\<forall>m \<in> set ms1. \<not> tm_excludeFromContext m"
    using prepare_all_ends [OF prep] by auto
  have parts: "map tm_toolCallId ms1 = map cb_id (filter (refused_call ?cf) ?calls)"
    "pre @ c # post = filter (\<lambda>x. \<not> refused_call ?cf x) ?calls"
    using prepare_all_order [of ?cf ?calls] prep order by simp_all
  have inj: "inj_on cb_id (set ?calls)" using assms(2) by (simp add: distinct_map)
  have "distinct (map cb_id (pre @ c # post))" using assms(2) unfolding parts(2) by (rule distinct_map_filter)
  then have "cb_id ` set (pre @ [c]) \<inter> cb_id ` set post = {}" by auto
  then have "set (map tm_toolCallId ms) \<inter> cb_id ` set post = {}" using ids by blast
  moreover have post: "set post \<subseteq> {x \<in> set ?calls. \<not> refused_call ?cf x}"
  proof
    fix x assume "x \<in> set post"
    then have "x \<in> set (pre @ c # post)" by simp
    then show "x \<in> {x \<in> set ?calls. \<not> refused_call ?cf x}" unfolding parts(2) by simp
  qed
  moreover have "set (map tm_toolCallId ms1) \<inter> cb_id ` set post = {}"
  proof -
    have "cb_id x \<noteq> cb_id y" if x: "x \<in> set ?calls" "refused_call ?cf x" and y: "y \<in> set post" for x y
    proof
      assume "cb_id x = cb_id y"
      then have "x = y" using inj x(1) y post by (auto simp: inj_on_def)
      then show False using x(2) y post by blast
    qed
    then show ?thesis unfolding parts(1) by fastforce
  qed
  moreover have "set post \<subseteq> set ?calls" using post by blast
  moreover have "?calls \<noteq> []" using parts(2) by auto
  moreover have "execute_calls inp ?calls = (evs1 @ map (\<lambda>(c, r). ToolUpdate c r) (ti_updates inp) @ evs, Inl e)"
    if "?calls \<noteq> []" using that False prep ex(1) split by (simp add: execute_calls_def executeToolCallsParallel_def)
  ultimately show ?thesis
    using ex(2,3) pre
    by (intro exI [of _ "evs1 @ map (\<lambda>(c, r). ToolUpdate c r) (ti_updates inp) @ evs"] exI [of _ "ms1 @ ms"]) auto
qed

end
