(* ===== verification/Agent_Claims.thy ===== *)
theory Agent_Claims
  imports Agent_Runs
begin

text \<open>
  The properties of the agent loop and of the agent that runs it, each applied to a concrete run.
\<close>

section \<open>A small agent\<close>

definition demo_model :: model_ref where
  "demo_model = \<lparr>md_api = ''openai-completions'', md_provider = ''p'', md_id = ''m''\<rparr>"

definition demo_tool :: agent_tool where
  "demo_tool = \<lparr>at_name = ''read'', at_effects = None, at_isConcurrencySafe = None\<rparr>"

definition demo_config :: "bool \<Rightarrow> 'q loop_config" where
  "demo_config sequential =
     \<lparr>cf_model = demo_model, cf_tools = Some [demo_tool], cf_sequential = sequential,
      cf_validate = (\<lambda>t c. Inr (cb_arguments c)), cf_before = None, cf_after = None,
      cf_execute = (\<lambda>t c args. ([], Inr \<lparr>to_content = [TextBlock ''ok''], to_details = None\<rparr>)),
      cf_convert = defaultConvertToLlm, cf_transform = None, cf_getSteering = None, cf_getFollowUp = None\<rparr>"

definition demo_block :: "string \<Rightarrow> string \<Rightarrow> call_block" where
  "demo_block i n = \<lparr>cb_id = i, cb_name = n, cb_arguments = JObj []\<rparr>"

definition demo_reply :: "call_block list \<Rightarrow> assistant_message" where
  "demo_reply cs = \<lparr>am_content = map ToolCallBlock cs, am_api = ''a'', am_provider = ''p'', am_model = ''m'',
     am_stopReason = Stop_stop, am_errorMessage = None\<rparr>"

definition demo_input :: "'q loop_config \<Rightarrow> call_block list \<Rightarrow> 'q turn_input" where
  "demo_input cf cs = \<lparr>ti_config = cf, ti_stream = [StreamStart (demo_reply []), StreamDone],
     ti_final = demo_reply cs, ti_aborted = False, ti_updates = [], ti_scheduled = []\<rparr>"

definition demo_agent :: agent where
  "demo_agent = \<lparr>ag_model = Some demo_model, ag_messages = [], ag_isStreaming = False, ag_streamMessage = None,
     ag_pendingToolCalls = [], ag_error = None\<rparr>"

definition demo_prompt :: agent_message where
  "demo_prompt = UserMessage (PlainText ''hi'')"

definition demo_start :: "unit loop_state" where
  "demo_start = runAgentLoop (demo_config True) [demo_prompt] [] ()"

definition demo_after :: "unit loop_state" where
  "demo_after = loop_step (demo_input (demo_config True) [demo_block ''c1'' ''read'', demo_block ''c2'' ''rm'']) demo_start"

lemma demo_move: "(loop_moves (orderly_input defaultConvertToLlm))\<^sup>*\<^sup>* demo_start demo_after"
proof (rule r_into_rtranclp)
  let ?inp = "demo_input (demo_config True) [demo_block ''c1'' ''read'', demo_block ''c2'' ''rm''] :: unit turn_input"
  have "ls_status demo_start = Running"
    by (simp add: demo_start_def runAgentLoop_def loop_begin_def poll_def demo_config_def)
  moreover have "faithful_input ?inp"
    by (simp add: faithful_input_def batch_scheduled_def demo_input_def demo_config_def)
  moreover have "orderly_input defaultConvertToLlm ?inp demo_start"
  proof -
    have "\<not> js_blank ''c1''" "\<not> js_blank ''c2''" by code_simp+
    then show ?thesis
      by (simp add: orderly_input_def demo_input_def demo_config_def poll_def demo_start_def runAgentLoop_def
          loop_begin_def demo_prompt_def entries_of_def defaultConvertToLlm_def demo_reply_def call_ids_def demo_block_def)
  qed
  ultimately show "loop_moves (orderly_input defaultConvertToLlm) demo_start demo_after"
    unfolding demo_after_def by (rule loop_moves.step)
qed

lemma demo_after_new:
  "map message_entry (ls_new demo_after) =
     [UserEntry, AssistantEntry [''c1'', ''c2''], ResultEntry ''c1'', ResultEntry ''c2'']"
  "ls_status demo_after = Running"
  by code_simp+

section \<open>The agent and its loop\<close>

text \<open>C23. At every point of a run, whatever the model streams, the tools, the hooks and the
  scheduler do, and however messages are queued meanwhile, the agent that processes the events of the loop holds
  the messages it held before followed by the new messages of the loop: while the loop runs that is exactly the context
  the next request is made from, no message is left in the middle of its stream and no tool call pending between turns, and the agent counts as
  streaming until the last event ends the run.  Only when a hook throws may the agent hold further tool results.\<close>

theorem agent_mirrors_loop:
  assumes "s0 = runAgentLoop cf prompts (ag_messages ag) q \<or> runAgentLoopContinue cf (ag_messages ag) q = Inr s0"
    and "(loop_moves ok)\<^sup>*\<^sup>* s0 s" and "ag_pendingToolCalls ag = []"
  shows "let a = process_events (ls_events s) (start_streaming ag) in
    (case ls_status s of
       Running \<Rightarrow> ag_messages a = ag_messages ag @ ls_new s \<and> ag_messages a = ls_messages s
         \<and> ag_pendingToolCalls a = [] \<and> ag_streamMessage a = None \<and> ag_isStreaming a
     | Ended \<Rightarrow> ag_messages a = ag_messages ag @ ls_new s \<and> ag_pendingToolCalls a = []
         \<and> \<not> ag_isStreaming a \<and> ag_streamMessage a = None \<and> last (ls_events s) = AgentEnd (ls_new s)
     | Failed e \<Rightarrow> \<exists>rs. ag_messages a = ag_messages ag @ ls_new s @ map ToolResult rs)"
proof -
  let ?a = "process_events (ls_events s) (start_streaming ag)"
  have "mirrored (ag_messages ag) s0" using assms(1)
    by (elim disjE) (simp_all add: mirrored_start mirrored_continue)
  then have inv: "mirrored (ag_messages ag) s" by (rule mirrored_reach [OF assms(2)])
  have "closed_messages s0" using assms(1) by (elim disjE) (simp_all add: closed_start closed_continue)
  then have stream: "ag_streamMessage ?a = None"
    using closed_reach [OF assms(2)] by (simp add: stream_message_after start_streaming_def closed_messages_def)
  have msgs: "ag_messages ?a = ag_messages ag @ end_messages (ls_events s)"
    by (simp add: process_events_messages start_streaming_def)
  have pend: "set (ag_pendingToolCalls ?a) = pend (ls_events s) {}"
    using assms(3) by (simp add: pending_after start_streaming_def)
  show ?thesis
  proof (cases "ls_status s")
    case Running
    then show ?thesis using inv msgs pend stream streaming_quiet [of "ls_events s" "start_streaming ag"]
      by (simp add: mirrored_def start_streaming_def)
  next
    case Ended
    then obtain evs where evs: "ls_events s = evs @ [AgentEnd (ls_new s)]" using inv by (auto simp: mirrored_def)
    have "\<not> ag_isStreaming ?a" "ag_streamMessage ?a = None" "last (ls_events s) = AgentEnd (ls_new s)"
      by (simp_all add: evs)
    then show ?thesis using Ended inv msgs pend by (simp add: mirrored_def Let_def)
  next
    case (Failed e)
    then show ?thesis using inv msgs by (auto simp: mirrored_def Let_def)
  qed
qed

lemma agent_mirrors_loop_witness:
  "map message_entry (ag_messages (process_events (ls_events demo_after) (start_streaming demo_agent))) =
     [UserEntry, AssistantEntry [''c1'', ''c2''], ResultEntry ''c1'', ResultEntry ''c2'']"
proof -
  have "demo_start = runAgentLoop (demo_config True) [demo_prompt] (ag_messages demo_agent) ()"
    by (simp add: demo_start_def demo_agent_def)
  then show ?thesis
    using agent_mirrors_loop [of demo_start "demo_config True" "[demo_prompt]" demo_agent "()", OF _ demo_move]
      demo_after_new by (simp add: demo_agent_def Let_def)
qed

text \<open>C3. If the context a run starts from is a well-formed transcript, the prompts and
  queued messages are no assistant messages or tool results, and the model names the calls of a response by non-blank
  ids that are new in the transcript, then at every point of the run that no hook has made fail the transcript is
  well-formed: every request is accepted by the validator of its protocol, in sequential and parallel mode,
  whatever fails or is refused, aborted or cancelled.\<close>

theorem agent_loop_keeps_transcript:
  assumes "loop_conversion conv" and "well_formed_transcript (map message_entry (conv context))"
    and "list_all plain prompts" and "list_all plain (fst (poll (cf_getSteering cf) q))"
    and "(loop_moves (orderly_input conv))\<^sup>*\<^sup>* (runAgentLoop cf prompts context q) s"
    and "\<forall>e. ls_status s \<noteq> Failed e"
  shows "well_formed_transcript (map message_entry (conv (context @ ls_new s))) \<and>
    (ls_status s = Running \<longrightarrow> (\<forall>m. validateTranscriptForModel (conv (ls_messages s @ ls_pending s)) m = TranscriptOk))"
proof -
  have mir: "mirrored context s" by (rule mirrored_reach [OF assms(5) mirrored_start])
  have "in_order conv context (runAgentLoop cf prompts context q)"
    by (rule in_order_start [OF assms(1) _ assms(3,4)]) (simp add: entries_of_def assms(2))
  then have ord: "in_order conv context s" using in_order_reach [OF assms(1,5) mirrored_start] by blast
  then have wf: "well_formed_transcript (entries_of conv (context @ ls_new s))" "list_all plain (ls_pending s)"
    using assms(6) by (simp_all add: in_order_def)
  have "validateTranscriptForModel (conv (ls_messages s @ ls_pending s)) m = TranscriptOk" if "ls_status s = Running" for m
    using plain_keeps_order(1) [OF assms(1) wf] mir that by (simp add: transcript_check_iff mirrored_def entries_of_def)
  then show ?thesis using wf(1) by (simp add: entries_of_def)
qed

lemma agent_loop_keeps_transcript_witness:
  "validateTranscriptForModel (defaultConvertToLlm (ls_messages demo_after @ ls_pending demo_after)) demo_model = TranscriptOk"
proof -
  have "well_formed_transcript (map message_entry (defaultConvertToLlm []))"
    by (simp add: defaultConvertToLlm_def flip: accepts_well_formed)
  then show ?thesis
    using agent_loop_keeps_transcript [of defaultConvertToLlm "[]" "[demo_prompt]" "demo_config True" "()" demo_after]
      demo_move demo_after_new(2)
    by (simp add: loop_conversion_def plain_def demo_prompt_def poll_def demo_config_def demo_start_def)
qed

text \<open>C35. When the model answers without tool calls, a prompt ends, in either queue mode, after at
  most one response more than messages are queued (and at most twice that many steps of the loop).  Unless its last
  response failed or the transcript was refused, the messages it has taken into the context besides the responses are then
  exactly the prompt, the queued steering messages and the queued follow-up messages, each once and in this order, and
  both queues are empty.\<close>

theorem agent_run_ends:
  assumes "\<forall>inp \<in> set inps. talk_input inp" and "2 * queued q + 1 < length inps"
    and "list_all (\<lambda>m. \<not> is_assistant m) (msgs @ aq_steering q @ aq_followUp q)"
    and "s = fold loop_step inps (snd (run_with cf msgs skip q ag))"
  shows "ls_status s = Ended \<and> responses (ls_new s) \<le> queued q + 1 \<and>
    (ends_failed (ls_new s) \<or>
      spoken (ls_new s) = msgs @ aq_steering q @ aq_followUp q \<and> \<not> hasQueuedMessages (ls_world s))"
proof -
  have "steps_left (snd (run_with cf msgs skip q ag)) < length inps"
    using run_with_drained(2) [of cf msgs skip q ag] assms(2) by simp
  from talk_run [OF assms(1) run_with_drained(1) this]
  have ended: "ls_status s = Ended" "drained s" by (simp_all add: assms(4))
  have "accounted (msgs @ aq_steering q @ aq_followUp q) (queued q + 1) s"
    unfolding assms(4) using assms(3) by (intro accounted_run [OF assms(1) run_with_drained(1) run_with_accounted]) simp_all
  then show ?thesis using ended by (auto simp: accounted_def drained_def hasQueuedMessages_def)
qed

definition demo_queues :: agent_queues where
  "demo_queues = \<lparr>aq_steering = [demo_prompt], aq_followUp = [demo_prompt], aq_steeringMode = OneAtATime,
     aq_followUpMode = AllAtOnce, aq_skipInitialPoll = False\<rparr>"

definition demo_talk :: "agent_queues loop_state" where
  "demo_talk = fold loop_step (replicate 6 (demo_input (agent_config (demo_config True)) []))
     (snd (run_with (demo_config True) [demo_prompt] False demo_queues demo_agent))"

lemma agent_run_ends_witness:
  "ls_status demo_talk = Ended \<and> responses (ls_new demo_talk) \<le> 3 \<and>
   (ends_failed (ls_new demo_talk) \<or>
     spoken (ls_new demo_talk) = [demo_prompt, demo_prompt, demo_prompt] \<and> \<not> hasQueuedMessages (ls_world demo_talk))"
proof -
  let ?inps = "replicate 6 (demo_input (agent_config (demo_config True)) [])"
  have "talk_input (demo_input (agent_config (demo_config True)) [])"
    by (simp add: talk_input_def demo_input_def agent_config_def demo_reply_def)
  then have talk: "\<forall>inp \<in> set ?inps. talk_input inp" by simp
  have len: "2 * queued demo_queues + 1 < length ?inps" by (simp add: queued_def demo_queues_def)
  have users: "list_all (\<lambda>m. \<not> is_assistant m) ([demo_prompt] @ aq_steering demo_queues @ aq_followUp demo_queues)"
    by (simp add: demo_queues_def demo_prompt_def)
  have n: "queued demo_queues + 1 = 3" "[demo_prompt] @ aq_steering demo_queues @ aq_followUp demo_queues =
    [demo_prompt, demo_prompt, demo_prompt]" by (simp_all add: queued_def demo_queues_def)
  show ?thesis using agent_run_ends [OF talk len users demo_talk_def] unfolding n .
qed

section \<open>Results of a response\<close>

lemma batch_indices:
  assumes "\<not> cf_sequential (ti_config inp)" and "batch_scheduled inp"
  shows "map tr_index (ti_scheduled inp) = map int [0..<length (runnable_calls inp)]"
  using assms scheduled_indices by (simp add: batch_scheduled_def)

text \<open>In parallel mode the results of a response, when no hook throws, are first those of the
  refused calls (unknown tool, invalid arguments, blocked) in their order and then those of the calls that ran in theirs,
  whatever order the calls finished in: the order of the response is kept only when no refused call follows one that runs.\<close>

theorem parallel_results_order:
  assumes "\<not> cf_sequential (ti_config inp)" and "batch_scheduled inp"
    and "tool_calls_of (am_content (ti_final inp)) = calls" and "execute_calls inp calls = (evs, Inr ms)"
  shows "map tm_toolCallId ms =
    map cb_id (filter (refused_call (ti_config inp)) calls @ filter (\<lambda>c. \<not> refused_call (ti_config inp) c) calls)"
proof (cases "calls = []")
  case True
  then show ?thesis using assms(4) by (simp add: execute_calls_def)
next
  case False
  then have "snd (executeToolCallsParallel (ti_config inp) calls (ti_updates inp) (ti_scheduled inp)) = Inr ms"
    using assms(1,4) by (simp add: execute_calls_def)
  moreover have "map tr_index (ti_scheduled inp) = map int [0..<length (snd (snd (prepare_all (ti_config inp) calls)))]"
    using batch_indices [OF assms(1,2)] assms(3) by (simp add: runnable_calls_def)
  ultimately show ?thesis by (intro parallel_order)
qed

lemma finalize_all_total:
  assumes "cf_after cf = None"
  shows "\<forall>s \<in> set ss. 0 \<le> tr_index s \<and> tr_index s < int (length run) \<Longrightarrow> \<exists>ms. snd (finalize_all cf run ss) = Inr ms"
proof (induction ss)
  case (Cons s ss)
  then obtain ms where "snd (finalize_all cf run ss) = Inr ms" by auto
  then show ?case using Cons.prems assms by (auto simp: case_prod_unfold finalizeExecutedToolCall_def)
qed simp

lemma indices_in_range:
  "map tr_index ss = map int [0..<n] \<Longrightarrow> \<forall>s \<in> set ss. 0 \<le> tr_index s \<and> tr_index s < int n"
proof
  fix s
  assume "map tr_index ss = map int [0..<n]" and "s \<in> set ss"
  then have "tr_index s \<in> int ` {0..<n}" by (metis image_eqI list.set_map set_upt)
  then show "0 \<le> tr_index s \<and> tr_index s < int n" by auto
qed

lemma parallel_total:
  assumes "cf_after (ti_config inp) = None" and "\<not> cf_sequential (ti_config inp)" and "batch_scheduled inp"
    and "tool_calls_of (am_content (ti_final inp)) = calls"
  shows "\<exists>ms. snd (execute_calls inp calls) = Inr ms"
proof -
  have "\<exists>ms. snd (finalize_all (ti_config inp) (runnable_calls inp) (ti_scheduled inp)) = Inr ms"
    by (rule finalize_all_total [OF assms(1)]) (rule indices_in_range [OF batch_indices [OF assms(2,3)]])
  then show ?thesis using assms(2,4)
    by (auto simp: execute_calls_def executeToolCallsParallel_def case_prod_unfold runnable_calls_def)
qed

text \<open>When the signal is aborted before the calls of a response are scheduled and no
  hook replaces the results, every call that was not refused gets a tool result without content: the scheduler returns
  the string \<open>cancelled\<close> where the loop reads an object.  The result of a refused call keeps its content.\<close>

theorem aborted_batch_loses_content:
  assumes "\<not> cf_sequential (ti_config inp)" and "cf_after (ti_config inp) = None" and "ti_aborted inp"
    and "batch_scheduled inp" and "tool_calls_of (am_content (ti_final inp)) = calls"
  shows "\<exists>ms. snd (execute_calls inp calls) = Inr ms \<and> length ms = length calls \<and>
    length (filter (\<lambda>m. tm_content m = None) ms) = length (filter (\<lambda>c. \<not> refused_call (ti_config inp) c) calls)"
proof (cases "calls = []")
  case True
  then show ?thesis by (simp add: execute_calls_def)
next
  case False
  obtain evs ms1 run where prep: "prepare_all (ti_config inp) calls = (evs, ms1, run)" by (metis prod_cases3)
  have run: "run = runnable_calls inp" using prep assms(5) by (simp add: runnable_calls_def)
  obtain ms2 where ms2: "snd (finalize_all (ti_config inp) run (ti_scheduled inp)) = Inr ms2"
    using finalize_all_total [OF assms(2) indices_in_range [OF batch_indices [OF assms(1,4)]]] run by blast
  have "run_batch DEFAULT_LIMITS 0 (scheduler_calls run) True (ti_scheduled inp)"
    using assms(1,3,4) run by (simp add: batch_scheduled_def)
  then have "\<forall>s \<in> set (ti_scheduled inp). tr_result s = Message ''cancelled''" using cancelled_batch by blast
  from finalize_cancelled [OF assms(2) this ms2]
  have none: "length ms2 = length (ti_scheduled inp)" "\<forall>m \<in> set ms2. tm_content m = None" by simp_all
  have len: "length (ti_scheduled inp) = length run"
    using batch_indices [OF assms(1,4)] run by (metis length_map length_upt minus_nat.diff_0)
  have "\<forall>m \<in> set ms1. \<exists>res. tm_content m = Some res" using prepared_content [of "ti_config inp" calls] prep by simp
  then have "filter (\<lambda>m. tm_content m = None) (ms1 @ ms2) = ms2" using none(2) by (auto simp: filter_empty_conv)
  moreover have "map tm_toolCallId ms1 = map cb_id (filter (refused_call (ti_config inp)) calls)"
    "map fst run = filter (\<lambda>c. \<not> refused_call (ti_config inp) c) calls"
    using prepare_all_order [of "ti_config inp" calls] prep by simp_all
  then have "length ms1 = length (filter (refused_call (ti_config inp)) calls)"
    "length run = length (filter (\<lambda>c. \<not> refused_call (ti_config inp) c) calls)" by (metis length_map)+
  moreover have "snd (execute_calls inp calls) = Inr (ms1 @ ms2)"
    using False assms(1) prep ms2 by (simp add: execute_calls_def executeToolCallsParallel_def case_prod_unfold)
  ultimately show ?thesis
    using none(1) len sum_length_filter_compl [of "refused_call (ti_config inp)" calls] by auto
qed

text \<open>A response that first reads and then names an unknown tool, in parallel mode.\<close>

definition demo_calls_mixed :: "call_block list" where
  "demo_calls_mixed = [demo_block ''c1'' ''read'', demo_block ''c2'' ''rm'']"

definition demo_batch :: "bool \<Rightarrow> tool_output tool_result list \<Rightarrow> unit turn_input" where
  "demo_batch aborted out = (demo_input (demo_config False) demo_calls_mixed)\<lparr>ti_aborted := aborted, ti_scheduled := out\<rparr>"

lemma demo_batch_calls [simp]: "tool_calls_of (am_content (ti_final (demo_batch ab out))) = demo_calls_mixed"
  by (simp add: demo_batch_def demo_input_def demo_reply_def demo_calls_mixed_def)

lemma demo_batch_fields [simp]:
  "ti_config (demo_batch ab out) = demo_config False" "\<not> cf_sequential (demo_config False)"
  "cf_after (demo_config b) = None" "ti_aborted (demo_batch ab out) = ab" "ti_scheduled (demo_batch ab out) = out"
  by (simp_all add: demo_batch_def demo_input_def demo_config_def)

lemma demo_batch_exists: "\<exists>out. batch_scheduled (demo_batch ab out)"
proof -
  have "positive_limits DEFAULT_LIMITS" by (simp add: positive_limits_def DEFAULT_LIMITS_def)
  from run_waves_exists [OF this] obtain out :: "tool_output tool_result list"
    where out: "run_batch DEFAULT_LIMITS 0 (scheduler_calls (runnable_calls (demo_batch ab []))) ab out"
    unfolding run_batch_def by blast
  have "runnable_calls (demo_batch ab out) = runnable_calls (demo_batch ab [])"
    by (simp add: runnable_calls_def)
  then have "batch_scheduled (demo_batch ab out)" using out by (simp add: batch_scheduled_def)
  then show ?thesis by blast
qed

lemma demo_refused:
  "filter (refused_call (demo_config False)) demo_calls_mixed = [demo_block ''c2'' ''rm'']"
  "filter (\<lambda>c. \<not> refused_call (demo_config False) c) demo_calls_mixed = [demo_block ''c1'' ''read'']"
  by (simp_all add: demo_calls_mixed_def refused_call_code prepareToolCall_def demo_config_def demo_tool_def
      demo_block_def refuse_def)

lemma parallel_results_order_witness:
  "\<exists>inp evs ms. execute_calls (inp :: unit turn_input) demo_calls_mixed = (evs, Inr ms)
     \<and> map cb_id demo_calls_mixed = [''c1'', ''c2''] \<and> map tm_toolCallId ms = [''c2'', ''c1'']"
proof -
  obtain out where b: "batch_scheduled (demo_batch False out)" using demo_batch_exists by blast
  obtain ms where "snd (execute_calls (demo_batch False out) demo_calls_mixed) = Inr ms"
    using parallel_total [OF _ _ b demo_batch_calls] by auto
  then obtain evs where ex: "execute_calls (demo_batch False out) demo_calls_mixed = (evs, Inr ms)"
    by (metis prod.collapse)
  have "map tm_toolCallId ms = [''c2'', ''c1'']"
    using parallel_results_order [OF _ b demo_batch_calls ex] by (simp add: demo_refused) (simp add: demo_block_def)
  then show ?thesis using ex by (intro exI conjI) (auto simp: demo_calls_mixed_def demo_block_def)
qed

lemma aborted_batch_loses_content_witness:
  "\<exists>inp ms. snd (execute_calls (inp :: unit turn_input) demo_calls_mixed) = Inr ms
     \<and> length (filter (\<lambda>m. tm_content m = None) ms) = 1"
proof -
  obtain out where b: "batch_scheduled (demo_batch True out)" using demo_batch_exists by blast
  show ?thesis
    using aborted_batch_loses_content [OF _ _ _ b demo_batch_calls] by (auto simp: demo_refused)
qed

section \<open>A hook that throws\<close>

lemma block_answers_all:
  "accepts P S (map ResultEntry js @ es) \<Longrightarrow> accepts (P - set js) S es"
proof (induction js arbitrary: P)
  case (Cons j js)
  have rest: "P - set (j # js) = P - {j} - set js" by auto
  show ?case unfolding rest using Cons.IH [of "P - {j}"] Cons.prems by simp
qed simp

lemma unanswered_rejected:
  assumes "i \<in> set ids" and "i \<notin> set js"
  shows "\<not> well_formed_transcript (es @ AssistantEntry ids # map ResultEntry js @ [SkippedEntry, UserEntry] @ fs)"
proof
  assume "well_formed_transcript (es @ AssistantEntry ids # map ResultEntry js @ [SkippedEntry, UserEntry] @ fs)"
  then have "accepts {} {} (es @ AssistantEntry ids # map ResultEntry js @ [SkippedEntry, UserEntry] @ fs)"
    by (simp only: accepts_well_formed)
  from accepts_suffix [OF this] obtain P S
    where "accepts P S (AssistantEntry ids # map ResultEntry js @ [SkippedEntry, UserEntry] @ fs)" by blast
  then have "accepts (set ids) (S \<union> set ids) (map ResultEntry js @ [SkippedEntry, UserEntry] @ fs)" by simp
  from block_answers_all [OF this] show False using assms by auto
qed

text \<open>C40. When the hook that runs after a tool call throws for a call whose result is not the last one of its
  response to be finalized, in sequential or in parallel mode, the run fails with an error message and the transcript of the
  agent is lost: the calls that follow never get a result, and after any
  later user message every request is refused by the validation, whatever follows.\<close>

theorem throwing_hook_poisons:
  assumes "(loop_moves ok)\<^sup>*\<^sup>* (runAgentLoop cf prompts (ag_messages ag) q) s" and "ls_status s = Running"
    and "ls_more s \<or> ls_pending s \<noteq> []" and "faithful_input inp" and "turn_check inp s = TranscriptOk"
    and "\<not> stop_failed (am_stopReason (ti_final inp))" and "distinct (call_ids (ti_final inp))"
    and "finalized_calls inp = pre @ c # post" and "post \<noteq> []" and "\<not> refused_call (ti_config inp) c"
    and "cf_after (ti_config inp) = Some hook" and "\<forall>x \<in> set pre. returns_for hook x" and "throws_for hook e c"
    and "loop_conversion conv"
  shows "ls_status (loop_step inp s) = Failed e \<and>
    validateTranscriptForModel
      (conv (ag_messages (run_result_agent m aborted (loop_step inp s) (start_streaming ag)) @ UserMessage u # later)) m2
      \<noteq> TranscriptOk"
proof -
  let ?a = "ti_final inp" and ?ag = "run_result_agent m aborted (loop_step inp s) (start_streaming ag)"
  have starts: "starts (ti_stream inp) \<le> 1" and batch: "batch_scheduled inp"
    using assms(4) by (simp_all add: faithful_input_def)
  have resp: "\<not> stop_failed (am_stopReason (turn_response inp s))" using assms(5,6) by (simp add: turn_response_def)
  have turn: "loop_step inp s = turn inp s" using assms(2,3) by (simp add: loop_step_def)
  have dist: "distinct (map cb_id (tool_calls_of (am_content ?a)))" using assms(7) by (simp add: call_ids_def)
  obtain evs rs where ex: "execute_calls inp (tool_calls_of (am_content ?a)) = (evs, Inl e)"
    "end_messages evs = map ToolResult rs" "\<forall>m \<in> set rs. \<not> tm_excludeFromContext m"
    "set (map tm_toolCallId rs) \<inter> cb_id ` set post = {}" "set post \<subseteq> set (tool_calls_of (am_content ?a))"
    using execute_throws [OF batch dist assms(8,11-13,10)] by blast
  note fails = turn_fails [OF starts resp ex(1)]
  have mir: "end_messages (ls_events s) = ls_new s"
    using mirrored_reach [OF assms(1) mirrored_start] assms(2) by (simp add: mirrored_def)
  have msgs: "ag_messages ?ag =
      (ag_messages ag @ ls_new s @ ls_pending s) @ AssistantMessage ?a # map ToolResult rs @ [error_message m aborted e]"
    using fails(1,3) ex(2) mir
    by (simp add: turn run_result_agent_def finally_clean_def catch_failure_def appendMessage_def
        process_events_messages start_streaming_def)
  have results: "entries_of conv (map ToolResult rs) = map ResultEntry (map tm_toolCallId rs)"
    by (rule entries_results [OF assms(14) ex(3)])
  have split: "entries_of conv ((xs @ AssistantMessage ?a # map ToolResult rs @ [error_message m aborted e]) @ UserMessage u # later) =
      entries_of conv xs @ AssistantEntry (call_ids ?a) # map ResultEntry (map tm_toolCallId rs)
        @ [SkippedEntry, UserEntry] @ entries_of conv later" for xs
    using assms(6,14) results
    by (auto simp: loop_conversion_def entries_of_def defaultConvertToLlm_def convertToLlm_def call_ids_def error_message_def)
  obtain d where d: "d \<in> set post" using assms(9) by (cases post) auto
  then have "cb_id d \<in> set (call_ids ?a)" "cb_id d \<notin> set (map tm_toolCallId rs)"
    using ex(4,5) by (auto simp: call_ids_def)
  then have "\<not> well_formed_transcript (entries_of conv (ag_messages ?ag @ UserMessage u # later))"
    unfolding msgs split by (rule unanswered_rejected)
  then show ?thesis using fails(1) turn by (simp add: transcript_check_iff entries_of_def)
qed

definition demo_throwing :: "agent_queues loop_config" where
  "demo_throwing = agent_config ((demo_config True)\<lparr>cf_after := Some (\<lambda>c args res err. Inl ''boom'')\<rparr>)"

definition demo_running :: "agent_queues loop_state" where
  "demo_running = runAgentLoop demo_throwing [demo_prompt] (ag_messages demo_agent) demo_queues"

lemma throwing_hook_poisons_witness:
  "ls_status (loop_step (demo_input demo_throwing demo_calls_mixed) demo_running) = Failed ''boom''"
proof -
  let ?inp = "demo_input demo_throwing demo_calls_mixed"
  have start: "ls_status demo_running = Running" "ls_more demo_running \<or> ls_pending demo_running \<noteq> []"
    by (simp_all add: demo_running_def runAgentLoop_def loop_begin_def split: prod.splits)
  have run: "(loop_moves (\<lambda>_ _. True))\<^sup>*\<^sup>* (runAgentLoop demo_throwing [demo_prompt] (ag_messages demo_agent) demo_queues) demo_running"
    by (simp add: demo_running_def)
  have check: "turn_check ?inp demo_running = TranscriptOk" by code_simp
  have fields: "faithful_input ?inp" "\<not> stop_failed (am_stopReason (ti_final ?inp))"
    "distinct (call_ids (ti_final ?inp))"
    "finalized_calls ?inp = [] @ demo_block ''c1'' ''read'' # [demo_block ''c2'' ''rm'']" "[demo_block ''c2'' ''rm''] \<noteq> []"
    "\<not> refused_call (ti_config ?inp) (demo_block ''c1'' ''read'')"
    "cf_after (ti_config ?inp) = Some (\<lambda>c args res err. Inl ''boom'')"
    by (simp_all add: faithful_input_def batch_scheduled_def demo_input_def demo_throwing_def demo_config_def agent_config_def
        demo_reply_def stop_failed_def refused_call_code prepareToolCall_def demo_tool_def demo_block_def demo_calls_mixed_def
        call_ids_def finalized_calls_def)
  have conv: "loop_conversion defaultConvertToLlm" by (simp add: loop_conversion_def)
  have boom: "\<forall>x \<in> set ([] :: call_block list). returns_for (\<lambda>c args res err. Inl ''boom'' :: string + after_result option) x"
    "throws_for (\<lambda>c args res err. Inl ''boom'' :: string + after_result option) ''boom'' (demo_block ''c1'' ''read'')"
    by (simp_all add: throws_for_def)
  show ?thesis
    using throwing_hook_poisons [OF run start fields(1) check fields(2-7) boom conv] by blast
qed

end
