(* ===== verification/Storm_Breaker.thy ===== *)
theory Storm_Breaker
  imports Json_Injective
begin

text \<open>
  The tool storm breaker, \<open>storm/breaker.ts\<close> and \<open>storm/fingerprint.ts\<close>: a bounded history of call
  fingerprints with a count of repetitions, and the escalation from annotation to refusal.  The history is an
  association list in insertion order (a \<open>Map\<close>); the clock is an argument of every operation, and the
  results that are cached are values of a type \<open>'r\<close>.
\<close>

section \<open>Signals and thresholds\<close>

datatype progress_signal =
    Sg_new_evidence string
  | Sg_file_content_hash string string
  | Sg_diagnostics_hash string
  | Sg_process_state string string
  | Sg_provider_result string
  | Sg_transaction_state string string
  | Sg_user_input string
  | Sg_retry_window_elapsed int

definition signal_kind :: "progress_signal \<Rightarrow> string" where
  "signal_kind s = (case s of
     Sg_new_evidence _ \<Rightarrow> ''new_evidence'' | Sg_file_content_hash _ _ \<Rightarrow> ''file_content_hash''
   | Sg_diagnostics_hash _ \<Rightarrow> ''diagnostics_hash'' | Sg_process_state _ _ \<Rightarrow> ''process_state''
   | Sg_provider_result _ \<Rightarrow> ''provider_result'' | Sg_transaction_state _ _ \<Rightarrow> ''transaction_state''
   | Sg_user_input _ \<Rightarrow> ''user_input'' | Sg_retry_window_elapsed _ \<Rightarrow> ''retry_window_elapsed'')"

text \<open>The members of a signal object.\<close>

definition signal_members :: "progress_signal \<Rightarrow> (string \<times> json) list" where
  "signal_members s = (''kind'', JStr (signal_kind s)) # (case s of
     Sg_new_evidence h \<Rightarrow> [(''evidenceHash'', JStr h)]
   | Sg_file_content_hash p h \<Rightarrow> [(''path'', JStr p), (''hash'', JStr h)]
   | Sg_diagnostics_hash h \<Rightarrow> [(''hash'', JStr h)]
   | Sg_process_state i st \<Rightarrow> [(''identity'', JStr i), (''state'', JStr st)]
   | Sg_provider_result h \<Rightarrow> [(''resultHash'', JStr h)]
   | Sg_transaction_state t st \<Rightarrow> [(''transactionId'', JStr t), (''state'', JStr st)]
   | Sg_user_input h \<Rightarrow> [(''inputHash'', JStr h)]
   | Sg_retry_window_elapsed ms \<Rightarrow> [(''elapsedMs'', JNum (IntNum ms))])"

record storm_thresholds =
  st_annotate :: int
  st_reflect :: int
  st_block :: int
  st_terminal :: int
  st_maxHistory :: int

definition DEFAULT_STORM_THRESHOLDS :: storm_thresholds where
  "DEFAULT_STORM_THRESHOLDS =
     \<lparr>st_annotate = 2, st_reflect = 3, st_block = 4, st_terminal = 6, st_maxHistory = 256\<rparr>"

section \<open>Fingerprints\<close>

record call_identity =
  ci_toolName :: string
  ci_canonicalArgsHash :: string
  ci_workspaceScope :: "string option"
  ci_runScope :: "string option"

definition or_empty :: "string option \<Rightarrow> string" where
  "or_empty x = (case x of None \<Rightarrow> [] | Some s \<Rightarrow> s)"

definition fingerprintCall :: "(string \<Rightarrow> string) \<Rightarrow> call_identity \<Rightarrow> string" where
  "fingerprintCall sha c = stableHash sha (JObj
     [(''t'', JStr (ci_toolName c)), (''a'', JStr (ci_canonicalArgsHash c)),
      (''w'', JStr (or_empty (ci_workspaceScope c))), (''r'', JStr (or_empty (ci_runScope c)))])"

text \<open>\<open>"value" in s ? s.value : null\<close>\<close>

definition signal_state :: "progress_signal \<Rightarrow> json" where
  "signal_state s = JObj [(''k'', JStr (signal_kind s)),
     (''v'', if ''value'' \<in> fst ` set (signal_members s) then json_field (signal_members s) ''value'' else JNull)]"

definition stateHash :: "(string \<Rightarrow> string) \<Rightarrow> progress_signal list \<Rightarrow> string option" where
  "stateHash sha signals =
     (if signals = [] then None else Some (stableHash sha (JArr (map signal_state signals))))"

section \<open>The history\<close>

record 'r cached_result =
  ca_result :: 'r
  ca_validityFingerprint :: string
  ca_at :: int

record 'r storm_entry =
  se_fingerprint :: string
  se_firstAt :: int
  se_lastAt :: int
  se_count :: int
  se_lastStateHash :: "string option"
  se_cached :: "'r cached_result option"

type_synonym 'r storm_history = "(string \<times> 'r storm_entry) list"

record storm_input =
  si_call :: call_identity
  si_signals :: "progress_signal list"
  si_readOnly :: bool
  si_policyAllowsReuse :: "bool option"
  si_currentValidity :: "string option"

datatype 'r storm_decision =
    StormFresh
  | DuplicateAnnotate string "'r option" int
  | NoProgressReflect string int
  | StormBlocked string int
  | PivotRequired string int

fun executes :: "'r storm_decision \<Rightarrow> bool" where
  "executes (StormBlocked r n) = False"
| "executes (PivotRequired r n) = False"
| "executes d = True"

text \<open>The key with the smallest \<open>lastAt\<close>, the first one on a tie; an empty key is never deleted.\<close>

fun oldest_key :: "'r storm_history \<Rightarrow> (string \<times> int) option \<Rightarrow> string option" where
  "oldest_key [] best = map_option fst best"
| "oldest_key ((k, e) # h) best =
     (case best of
        None \<Rightarrow> oldest_key h (Some (k, se_lastAt e))
      | Some (k0, at0) \<Rightarrow> oldest_key h (if se_lastAt e < at0 then Some (k, se_lastAt e) else best))"

definition evictOldest :: "'r storm_history \<Rightarrow> 'r storm_history" where
  "evictOldest h =
     (if js_falsy (oldest_key h None) then h
      else filter (\<lambda>p. fst p \<noteq> the (oldest_key h None)) h)"

definition storm_reason :: "storm_thresholds \<Rightarrow> string \<Rightarrow> int \<Rightarrow> 'r option \<Rightarrow> 'r storm_decision" where
  "storm_reason th tool n cached =
     (if st_terminal th \<le> n
      then PivotRequired (''call '' @ tool @ '' repeated '' @ int_text n @ ''x with zero authoritative progress'') n
      else if st_block th \<le> n
      then StormBlocked (''repeated identical '' @ tool @ '' call ('' @ int_text n @ ''x) with no new evidence'') n
      else if st_reflect th \<le> n
      then NoProgressReflect (''no progress detected across '' @ int_text n @ '' identical '' @ tool @ '' calls'') n
      else if st_annotate th \<le> n
      then DuplicateAnnotate (''duplicate '' @ tool @ '' call ('' @ int_text n @ ''x)'') cached n
      else StormFresh)"

definition reuse_allowed :: "storm_input \<Rightarrow> 'r storm_entry \<Rightarrow> bool" where
  "reuse_allowed inp e \<longleftrightarrow> si_readOnly inp \<and> si_policyAllowsReuse inp \<noteq> Some False \<and> se_cached e \<noteq> None
     \<and> Some (ca_validityFingerprint (the (se_cached e))) = si_currentValidity inp"

definition classify ::
  "(string \<Rightarrow> string) \<Rightarrow> storm_thresholds \<Rightarrow> int \<Rightarrow> storm_input \<Rightarrow> 'r storm_history
     \<Rightarrow> 'r storm_decision \<times> 'r storm_history" where
  "classify sha th now inp h =
     (let fp = fingerprintCall sha (si_call inp); hash = stateHash sha (si_signals inp) in
      case map_of h fp of
        None \<Rightarrow>
          (let h2 = assoc_set fp \<lparr>se_fingerprint = fp, se_firstAt = now, se_lastAt = now, se_count = 1,
                 se_lastStateHash = hash, se_cached = None\<rparr> h
           in (StormFresh, if st_maxHistory th < int (length h2) then evictOldest h2 else h2))
      | Some e \<Rightarrow>
          if hash \<noteq> None \<and> hash \<noteq> se_lastStateHash e
          then (StormFresh, assoc_set fp (e\<lparr>se_count := 1, se_lastStateHash := hash, se_firstAt := now\<rparr>) h)
          else
            (let e2 = e\<lparr>se_lastStateHash := hash, se_count := se_count e + 1, se_lastAt := now\<rparr>
             in (storm_reason th (ci_toolName (si_call inp)) (se_count e2)
                   (if reuse_allowed inp e2 then map_option ca_result (se_cached e2) else None),
                 assoc_set fp e2 h)))"

definition recordResult ::
  "(string \<Rightarrow> string) \<Rightarrow> int \<Rightarrow> call_identity \<Rightarrow> 'r \<Rightarrow> string \<Rightarrow> 'r storm_history \<Rightarrow> 'r storm_history" where
  "recordResult sha now c r validity h =
     (let fp = fingerprintCall sha c;
          e = (case map_of h fp of Some e \<Rightarrow> e
               | None \<Rightarrow> \<lparr>se_fingerprint = fp, se_firstAt = now, se_lastAt = now, se_count = 1,
                   se_lastStateHash = None, se_cached = None\<rparr>)
      in assoc_set fp (e\<lparr>se_cached := Some \<lparr>ca_result = r, ca_validityFingerprint = validity, ca_at = now\<rparr>\<rparr>) h)"

definition noteProgress :: "(string \<Rightarrow> string) \<Rightarrow> progress_signal list \<Rightarrow> 'r storm_history \<Rightarrow> 'r storm_history" where
  "noteProgress sha signals h =
     (case stateHash sha signals of None \<Rightarrow> h
      | Some hash \<Rightarrow> map (\<lambda>(k, e). (k, if se_lastStateHash e \<noteq> Some hash
          then e\<lparr>se_lastStateHash := Some hash, se_count := 1\<rparr> else e)) h)"

definition storm_reset :: "'r storm_history \<Rightarrow> 'r storm_history" where
  "storm_reset h = []"

definition storm_snapshot :: "'r storm_history \<Rightarrow> nat \<times> (string \<times> int) list" where
  "storm_snapshot h = (length h, map (\<lambda>(k, e). (k, se_count e)) h)"

section \<open>What the breaker sees of progress\<close>

lemma signal_state_kind: "signal_state s = JObj [(''k'', JStr (signal_kind s)), (''v'', JNull)]"
  by (cases s) (simp_all add: signal_state_def signal_members_def)

lemma stateHash_kinds: "map signal_kind xs = map signal_kind ys \<Longrightarrow> stateHash sha xs = stateHash sha ys"
proof -
  assume kinds: "map signal_kind xs = map signal_kind ys"
  then have "map (\<lambda>k. JObj [(''k'', JStr k), (''v'', JNull)]) (map signal_kind xs) =
      map (\<lambda>k. JObj [(''k'', JStr k), (''v'', JNull)]) (map signal_kind ys)" by simp
  moreover have "signal_state = (\<lambda>s. JObj [(''k'', JStr (signal_kind s)), (''v'', JNull)])"
    by (rule ext) (rule signal_state_kind)
  ultimately have "map signal_state xs = map signal_state ys" by (simp add: comp_def)
  moreover have "xs = [] \<longleftrightarrow> ys = []" using kinds by (metis map_is_Nil_conv)
  ultimately show ?thesis by (simp add: stateHash_def)
qed

section \<open>Well-formed histories and eviction\<close>

definition history_ok :: "'r storm_history \<Rightarrow> bool" where
  "history_ok h \<longleftrightarrow> distinct (map fst h) \<and> (\<forall>p \<in> set h. 1 \<le> se_count (snd p))"

lemma assoc_set_values: "p \<in> set (assoc_set k v m) \<Longrightarrow> p = (k, v) \<or> p \<in> set m"
  by (induction m) (auto split: if_splits)

lemma assoc_set_ok:
  assumes "history_ok h" and "1 \<le> se_count e"
  shows "history_ok (assoc_set k e h)"
proof -
  have "distinct (map fst (assoc_set k e h))"
    using assms(1) keys_assoc_set [of k e h] by (auto simp: history_ok_def)
  then show ?thesis using assms by (auto simp: history_ok_def dest!: assoc_set_values)
qed

lemma map_of_in_ok: "history_ok h \<Longrightarrow> map_of h k = Some e \<Longrightarrow> 1 \<le> se_count e"
  by (auto simp: history_ok_def dest!: map_of_SomeD)

lemma evictOldest_ok: "history_ok h \<Longrightarrow> history_ok (evictOldest h)"
  by (auto simp: history_ok_def evictOldest_def distinct_map_filter)

lemma classify_ok:
  assumes "history_ok h"
  shows "history_ok (snd (classify sha th now inp h))"
proof (cases "map_of h (fingerprintCall sha (si_call inp))")
  case None
  then show ?thesis using assms by (simp add: classify_def Let_def assoc_set_ok evictOldest_ok)
next
  case (Some e)
  then show ?thesis using assms map_of_in_ok [OF assms Some]
    by (simp add: classify_def Let_def assoc_set_ok)
qed

lemma oldest_key_mem_best:
  "oldest_key h best = Some k \<Longrightarrow> k \<in> fst ` set h \<union> fst ` set_option best"
proof (induction h arbitrary: best)
  case (Cons p h)
  obtain k0 e where p: "p = (k0, e)" by force
  show ?case
  proof (cases best)
    case None
    then show ?thesis using Cons.IH [of "Some (k0, se_lastAt e)"] Cons.prems p by auto
  next
    case (Some b)
    then show ?thesis using Cons.IH [of "Some (k0, se_lastAt e)"] Cons.IH [of best] Cons.prems p
      by (cases "se_lastAt e < snd b") (auto split: prod.splits)
  qed
qed auto

lemma oldest_key_mem: "oldest_key h None = Some k \<Longrightarrow> k \<in> fst ` set h"
  using oldest_key_mem_best [of h None k] by simp

lemma oldest_key_some: "h \<noteq> [] \<or> best \<noteq> None \<Longrightarrow> oldest_key h best \<noteq> None"
  by (induction h best rule: oldest_key.induct) (auto split: option.splits)

lemma length_filter_key:
  "distinct (map fst h) \<Longrightarrow> k \<in> fst ` set h \<Longrightarrow> length (filter (\<lambda>p. fst p \<noteq> k) h) = length h - 1"
proof (induction h)
  case (Cons p h)
  show ?case
  proof (cases "fst p = k")
    case True
    then have "\<forall>q \<in> set h. fst q \<noteq> k" using Cons.prems(1) by (auto simp: image_iff)
    then show ?thesis using True by (simp add: filter_id_conv)
  next
    case False
    then have "k \<in> fst ` set h" "distinct (map fst h)" using Cons.prems by auto
    moreover from this have "h \<noteq> []" by auto
    ultimately show ?thesis using Cons.IH False by (cases h) auto
  qed
qed simp

lemma length_assoc_set: "length (assoc_set k v m) = (if k \<in> fst ` set m then length m else Suc (length m))"
proof -
  have "length (assoc_set k v m) = length (map fst (assoc_set k v m))" by simp
  also have "\<dots> = (if k \<in> fst ` set m then length m else Suc (length m))" by (simp add: keys_assoc_set)
  finally show ?thesis .
qed

lemma evict_shrinks:
  assumes "history_ok h" and "h \<noteq> []" and "[] \<notin> fst ` set h"
  shows "length (evictOldest h) = length h - 1"
proof -
  obtain k where k: "oldest_key h None = Some k" using oldest_key_some [of h None] assms(2) by auto
  then have "k \<in> fst ` set h" by (rule oldest_key_mem)
  moreover from this have "k \<noteq> []" using assms(3) by metis
  ultimately show ?thesis using k length_filter_key [of h k] assms(1) by (simp add: evictOldest_def js_falsy_def history_ok_def)
qed

end
