(* ===== verification/Storm_Claims.thy ===== *)
theory Storm_Claims
  imports Storm_Breaker
begin

text \<open>
  The properties of the storm breaker: how often a call without progress is executed, what counts as
  progress, and how far the history can grow.
\<close>

section \<open>Runs of calls without progress signals\<close>

fun classify_all ::
  "(string \<Rightarrow> string) \<Rightarrow> storm_thresholds \<Rightarrow> (int \<times> storm_input) list \<Rightarrow> 'r storm_history
     \<Rightarrow> 'r storm_decision list \<times> 'r storm_history" where
  "classify_all sha th [] h = ([], h)"
| "classify_all sha th ((now, inp) # xs) h =
     (case classify sha th now inp h of (d, h2) \<Rightarrow>
        (case classify_all sha th xs h2 of (ds, h3) \<Rightarrow> (d # ds, h3)))"

definition fp_of :: "(string \<Rightarrow> string) \<Rightarrow> int \<times> storm_input \<Rightarrow> string" where
  "fp_of sha x = fingerprintCall sha (si_call (snd x))"

text \<open>The history after the calls with fingerprints \<open>fps\<close>.\<close>

definition counts_calls :: "string list \<Rightarrow> 'r storm_history \<Rightarrow> bool" where
  "counts_calls fps h \<longleftrightarrow> distinct (map fst h) \<and> fst ` set h = set fps \<and>
     (\<forall>k e. map_of h k = Some e \<longrightarrow> se_count e = int (count_list fps k) \<and> se_lastStateHash e = None)"

lemma counts_calls_length: "counts_calls fps h \<Longrightarrow> length h = card (set fps)"
  by (metis counts_calls_def distinct_card length_map list.set_map)

lemma counts_calls_lookup:
  assumes "counts_calls fps h"
  shows "map_of h k = None \<longleftrightarrow> k \<notin> set fps"
  using assms by (simp add: counts_calls_def map_of_eq_None_iff)

lemma counts_calls_set:
  assumes "counts_calls fps h" and "se_count e = int (count_list fps k) + 1" and "se_lastStateHash e = None"
  shows "counts_calls (fps @ [k]) (assoc_set k e h)"
proof -
  have keys: "map fst (assoc_set k e h) = (if k \<in> fst ` set h then map fst h else map fst h @ [k])"
    by (rule keys_assoc_set)
  have "set (map fst (assoc_set k e h)) = insert k (fst ` set h)" unfolding keys by auto
  then have "fst ` set (assoc_set k e h) = set (fps @ [k])" using assms(1) by (simp add: counts_calls_def)
  moreover have "distinct (map fst (assoc_set k e h))" unfolding keys using assms(1) by (auto simp: counts_calls_def)
  ultimately show ?thesis using assms by (auto simp: counts_calls_def)
qed

lemma classify_quiet:
  assumes "counts_calls fps h" and "si_signals inp = []"
    and "int (card (insert (fingerprintCall sha (si_call inp)) (set fps))) \<le> st_maxHistory th"
  shows "counts_calls (fps @ [fingerprintCall sha (si_call inp)]) (snd (classify sha th now inp h))"
    and "fingerprintCall sha (si_call inp) \<notin> set fps \<Longrightarrow> fst (classify sha th now inp h) = StormFresh"
    and "fingerprintCall sha (si_call inp) \<in> set fps \<Longrightarrow> \<exists>cached. fst (classify sha th now inp h) =
      storm_reason th (ci_toolName (si_call inp)) (int (count_list fps (fingerprintCall sha (si_call inp))) + 1) cached"
proof -
  let ?fp = "fingerprintCall sha (si_call inp)"
  have none: "stateHash sha (si_signals inp) = None" by (simp add: stateHash_def assms(2))
  show "counts_calls (fps @ [?fp]) (snd (classify sha th now inp h))"
  proof (cases "map_of h ?fp")
    case None
    let ?e = "\<lparr>se_fingerprint = ?fp, se_firstAt = now, se_lastAt = now, se_count = 1,
                 se_lastStateHash = None, se_cached = None\<rparr>"
    have new: "?fp \<notin> set fps" using counts_calls_lookup [OF assms(1)] None by blast
    then have "count_list fps ?fp = 0" by (simp add: count_list_0_iff)
    then have ok: "counts_calls (fps @ [?fp]) (assoc_set ?fp ?e h)" by (intro counts_calls_set [OF assms(1)]) simp_all
    from counts_calls_length [OF ok] have "\<not> st_maxHistory th < int (length (assoc_set ?fp ?e h))" using assms(3) by simp
    then show ?thesis using None ok none by (simp add: classify_def Let_def)
  next
    case (Some e)
    then have "se_count e = int (count_list fps ?fp)" "se_lastStateHash e = None"
      using assms(1) by (simp_all add: counts_calls_def)
    then show ?thesis using Some none counts_calls_set [OF assms(1)] by (simp add: classify_def Let_def)
  qed
  show "?fp \<notin> set fps \<Longrightarrow> fst (classify sha th now inp h) = StormFresh"
    using counts_calls_lookup [OF assms(1), of ?fp] by (simp add: classify_def Let_def)
  show "\<exists>cached. fst (classify sha th now inp h) =
      storm_reason th (ci_toolName (si_call inp)) (int (count_list fps ?fp) + 1) cached" if "?fp \<in> set fps"
  proof -
    obtain e where e: "map_of h ?fp = Some e" using counts_calls_lookup [OF assms(1), of ?fp] \<open>?fp \<in> set fps\<close> by auto
    then have "se_count e = int (count_list fps ?fp)" using assms(1) by (simp add: counts_calls_def)
    then show ?thesis using e none by (auto simp: classify_def Let_def)
  qed
qed

lemma classify_all_quiet:
  assumes "counts_calls fps h" and "\<forall>x \<in> set (xs @ ys). si_signals (snd x) = []"
    and "int (card (set fps \<union> fp_of sha ` set (xs @ ys))) \<le> st_maxHistory th"
  shows "counts_calls (fps @ map (fp_of sha) xs) (snd (classify_all sha th xs h))"
  using assms
proof (induction xs arbitrary: fps h)
  case (Cons x xs)
  obtain now inp where x: "x = (now, inp)" by force
  let ?fp = "fingerprintCall sha (si_call inp)"
  have "card (insert ?fp (set fps)) \<le> card (set fps \<union> fp_of sha ` set ((x # xs) @ ys))"
    by (intro card_mono) (auto simp: x fp_of_def)
  then have "int (card (insert ?fp (set fps))) \<le> st_maxHistory th" using Cons.prems(3) by linarith
  from classify_quiet(1) [OF Cons.prems(1) _ this]
  have "counts_calls (fps @ [?fp]) (snd (classify sha th now inp h))" using Cons.prems(2) x by simp
  from Cons.IH [OF this] show ?case using Cons.prems(2,3) x by (simp add: case_prod_unfold fp_of_def insert_commute)
qed simp

lemma classify_all_append:
  "classify_all sha th (xs @ ys) h =
    (case classify_all sha th xs h of (ds, h2) \<Rightarrow>
       (case classify_all sha th ys h2 of (ds2, h3) \<Rightarrow> (ds @ ds2, h3)))"
  by (induction xs arbitrary: h) (auto simp: case_prod_unfold)

lemma length_classify_all [simp]: "length (fst (classify_all sha th xs h)) = length xs"
  by (induction xs arbitrary: h) (auto simp: case_prod_unfold)

lemma executes_reason: "executes (storm_reason th tool n cached) \<longleftrightarrow> n < min (st_block th) (st_terminal th)"
  by (simp add: storm_reason_def)

lemma reason_stages:
  "(\<exists>r. storm_reason th tool k cached = PivotRequired r k) \<longleftrightarrow> st_terminal th \<le> k"
  "(\<exists>r. storm_reason th tool k cached = StormBlocked r k) \<longleftrightarrow> st_block th \<le> k \<and> k < st_terminal th"
  "(\<exists>r. storm_reason th tool k cached = NoProgressReflect r k) \<longleftrightarrow> st_reflect th \<le> k \<and> k < min (st_block th) (st_terminal th)"
  "(\<exists>r c. storm_reason th tool k cached = DuplicateAnnotate r c k) \<longleftrightarrow>
     st_annotate th \<le> k \<and> k < min (st_reflect th) (min (st_block th) (st_terminal th))"
  "storm_reason th tool k cached = StormFresh \<longleftrightarrow>
     k < min (st_annotate th) (min (st_reflect th) (min (st_block th) (st_terminal th)))"
  by (auto simp: storm_reason_def)

text \<open>The decision on a call whose fingerprint occurred \<open>n\<close> times before.\<close>

lemma quiet_decision:
  assumes "\<forall>x \<in> set (xs @ (now, inp) # ys). si_signals (snd x) = []"
    and "int (card (fp_of sha ` set (xs @ (now, inp) # ys))) \<le> st_maxHistory th"
    and "n = count_list (map (fp_of sha) xs) (fp_of sha (now, inp))"
  shows "\<exists>cached. fst (classify_all sha th (xs @ (now, inp) # ys) []) ! length xs =
      (if n = 0 then StormFresh else storm_reason th (ci_toolName (si_call inp)) (int n + 1) cached)"
    (is "\<exists>cached. ?d = ?r cached")
proof -
  let ?fp = "fingerprintCall sha (si_call inp)"
  have start: "counts_calls [] ([] :: 'a storm_history)" by (simp add: counts_calls_def)
  obtain ds h where run: "classify_all sha th xs ([] :: 'a storm_history) = (ds, h)" by force
  have cnt: "counts_calls (map (fp_of sha) xs) h"
    using classify_all_quiet [OF start, of xs "(now, inp) # ys" sha th] assms(1,2) run by simp
  have "length ds = length xs" using length_classify_all [of sha th xs "[] :: 'a storm_history"] run by simp
  then have d: "?d = fst (classify sha th now inp h)"
    using run by (simp add: classify_all_append case_prod_unfold nth_append)
  have "card (insert ?fp (set (map (fp_of sha) xs))) \<le> card (fp_of sha ` set (xs @ (now, inp) # ys))"
    by (intro card_mono) (auto simp: fp_of_def)
  then have room: "int (card (insert ?fp (set (map (fp_of sha) xs)))) \<le> st_maxHistory th" using assms(2) by linarith
  have sig: "si_signals inp = []" using assms(1) by simp
  show ?thesis
  proof (cases "?fp \<in> set (map (fp_of sha) xs)")
    case True
    then have "n \<noteq> 0" using assms(3) by (simp add: fp_of_def count_list_0_iff)
    then show ?thesis using classify_quiet(3) [OF cnt sig room True, of now] d assms(3) by (simp add: fp_of_def)
  next
    case False
    then have "n = 0" using assms(3) by (simp add: fp_of_def count_list_0_iff)
    then show ?thesis using classify_quiet(2) [OF cnt sig room False, of now] d by simp
  qed
qed

text \<open>C39. In a run of calls that carry no progress signals and have no more different fingerprints
  than the history holds, take a call whose fingerprint was seen \<open>n\<close> times before, so that it is occurrence \<open>k = n + 1\<close>.
  It is executed exactly when it is the first or \<open>k\<close> is below both the blocking and the terminal threshold.  A repeated
  call fails for good from the terminal threshold on, is blocked between the blocking and the terminal threshold, must
  reflect between the reflection threshold and these, is annotated between the annotation threshold and all of them,
  and is fresh below; each answer carries the number \<open>k\<close>.\<close>

theorem storm_escalation_exact:
  assumes "\<forall>x \<in> set (xs @ (now, inp) # ys). si_signals (snd x) = []"
    and "int (card (fp_of sha ` set (xs @ (now, inp) # ys))) \<le> st_maxHistory th"
    and "n = count_list (map (fp_of sha) xs) (fp_of sha (now, inp))" and "k = int n + 1"
    and "d = fst (classify_all sha th (xs @ (now, inp) # ys) []) ! length xs"
  shows "(executes d \<longleftrightarrow> n = 0 \<or> k < st_block th \<and> k < st_terminal th)
    \<and> ((\<exists>r. d = PivotRequired r k) \<longleftrightarrow> n \<noteq> 0 \<and> st_terminal th \<le> k)
    \<and> ((\<exists>r. d = StormBlocked r k) \<longleftrightarrow> n \<noteq> 0 \<and> st_block th \<le> k \<and> k < st_terminal th)
    \<and> ((\<exists>r. d = NoProgressReflect r k) \<longleftrightarrow> n \<noteq> 0 \<and> st_reflect th \<le> k \<and> k < min (st_block th) (st_terminal th))
    \<and> ((\<exists>r c. d = DuplicateAnnotate r c k) \<longleftrightarrow>
         n \<noteq> 0 \<and> st_annotate th \<le> k \<and> k < min (st_reflect th) (min (st_block th) (st_terminal th)))
    \<and> (d = StormFresh \<longleftrightarrow>
         n = 0 \<or> k < min (st_annotate th) (min (st_reflect th) (min (st_block th) (st_terminal th))))"
proof -
  from quiet_decision [OF assms(1-3)] obtain cached where
    d: "d = (if n = 0 then StormFresh else storm_reason th (ci_toolName (si_call inp)) k cached)"
    unfolding assms(4,5) by blast
  show ?thesis
  proof (cases "n = 0")
    case True
    then show ?thesis by (simp add: d)
  next
    case False
    then have "d = storm_reason th (ci_toolName (si_call inp)) k cached" by (simp add: d)
    then show ?thesis using False reason_stages [of th "ci_toolName (si_call inp)" k cached]
        executes_reason [of th "ci_toolName (si_call inp)" k cached] by simp
  qed
qed

definition demo_storm :: "progress_signal list \<Rightarrow> storm_input" where
  "demo_storm sigs = \<lparr>si_call = \<lparr>ci_toolName = ''read'', ci_canonicalArgsHash = ''h'', ci_workspaceScope = None,
     ci_runScope = None\<rparr>, si_signals = sigs, si_readOnly = True, si_policyAllowsReuse = None, si_currentValidity = None\<rparr>"

definition demo_fourth :: "string storm_decision" where
  "demo_fourth = fst (classify_all (\<lambda>s. s) DEFAULT_STORM_THRESHOLDS
     (replicate 3 (0, demo_storm []) @ (0, demo_storm []) # []) []) ! length (replicate 3 (0 :: int, demo_storm []))"

lemma storm_escalation_exact_witness:
  "\<not> executes demo_fourth \<and> (\<exists>r. demo_fourth = StormBlocked r 4)"
proof -
  let ?xs = "replicate 3 (0 :: int, demo_storm [])" and ?inp = "demo_storm []"
  have quiet: "\<forall>x \<in> set (?xs @ (0, ?inp) # []). si_signals (snd x) = []" by (simp add: demo_storm_def)
  have room: "int (card (fp_of (\<lambda>s. s) ` set (?xs @ (0, ?inp) # []))) \<le> st_maxHistory DEFAULT_STORM_THRESHOLDS"
    by (simp add: DEFAULT_STORM_THRESHOLDS_def)
  have n: "3 = count_list (map (fp_of (\<lambda>s. s)) ?xs) (fp_of (\<lambda>s. s) (0, ?inp))" by (simp add: numeral_3_eq_3)
  have k: "(4 :: int) = int 3 + 1" by simp
  note exact = storm_escalation_exact [OF quiet room n k demo_fourth_def]
  then have "executes demo_fourth \<longleftrightarrow> (3::nat) = 0 \<or> (4::int) < st_block DEFAULT_STORM_THRESHOLDS \<and> (4::int) < st_terminal DEFAULT_STORM_THRESHOLDS"
    "(\<exists>r. demo_fourth = StormBlocked r 4) \<longleftrightarrow>
       (3::nat) \<noteq> 0 \<and> st_block DEFAULT_STORM_THRESHOLDS \<le> 4 \<and> (4::int) < st_terminal DEFAULT_STORM_THRESHOLDS" by blast+
  then show ?thesis by (simp add: DEFAULT_STORM_THRESHOLDS_def)
qed

section \<open>What counts as progress\<close>

lemma reuse_signals: "reuse_allowed (inp\<lparr>si_signals := xs\<rparr>) = reuse_allowed inp"
  by (rule ext) (simp add: reuse_allowed_def)

text \<open>The breaker sees only the kinds of the progress signals: two calls whose signals have the
  same kinds, whatever evidence, file, state or result they report, get the same decision and leave the same history.  A
  call that reports a new content hash every time is therefore counted as a repetition without progress.\<close>

theorem storm_progress_unseen:
  assumes "map signal_kind xs = map signal_kind ys"
  shows "classify sha th now (inp\<lparr>si_signals := xs\<rparr>) h = classify sha th now (inp\<lparr>si_signals := ys\<rparr>) h \<and>
    noteProgress sha xs h = noteProgress sha ys h"
  using stateHash_kinds [OF assms, of sha] by (simp add: classify_def noteProgress_def reuse_signals Let_def split: option.split)

lemma storm_progress_unseen_witness:
  "fst (classify (\<lambda>s. s) DEFAULT_STORM_THRESHOLDS 3 (demo_storm [Sg_new_evidence ''d''])
     (snd (classify_all (\<lambda>s. s) DEFAULT_STORM_THRESHOLDS
        (replicate 3 (0, demo_storm [Sg_new_evidence ''d''])) ([] :: string storm_history)))) =
   fst (classify (\<lambda>s. s) DEFAULT_STORM_THRESHOLDS 3 (demo_storm [Sg_new_evidence ''new''])
     (snd (classify_all (\<lambda>s. s) DEFAULT_STORM_THRESHOLDS
        (replicate 3 (0, demo_storm [Sg_new_evidence ''d''])) ([] :: string storm_history))))"
  using storm_progress_unseen [of "[Sg_new_evidence ''d'']" "[Sg_new_evidence ''new'']" "\<lambda>s. s" DEFAULT_STORM_THRESHOLDS 3
      "demo_storm []" "snd (classify_all (\<lambda>s. s) DEFAULT_STORM_THRESHOLDS
        (replicate 3 (0, demo_storm [Sg_new_evidence ''d''])) ([] :: string storm_history))"]
  by (simp add: signal_kind_def demo_storm_def)

text \<open>Four calls that each report a different content hash: the last one is refused.\<close>

lemma progress_blocked:
  "map executes (fst (classify_all (\<lambda>s. s) DEFAULT_STORM_THRESHOLDS
     [(0, demo_storm [Sg_file_content_hash ''f'' ''1'']), (1, demo_storm [Sg_file_content_hash ''f'' ''2'']),
      (2, demo_storm [Sg_file_content_hash ''f'' ''3'']), (3, demo_storm [Sg_file_content_hash ''f'' ''4''])]
     ([] :: string storm_history))) = [True, True, True, False]"
  by code_simp

text \<open>A call that carries a signal every other time is never refused, because the call without one
  forgets the state.\<close>

lemma alternation_never_blocked:
  "map executes (fst (classify_all (\<lambda>s. s) DEFAULT_STORM_THRESHOLDS
     (concat (replicate 5 [(0, demo_storm [Sg_user_input ''u'']), (0, demo_storm [])])) ([] :: string storm_history))) =
   replicate 10 True"
  by code_simp

section \<open>The size of the history\<close>

text \<open>Classification keeps the history within its bound; recording a result does not.\<close>

lemma fingerprint_keys:
  assumes "\<forall>s. sha s \<noteq> []" and "[] \<notin> fst ` set h"
  shows "[] \<notin> fst ` set (snd (classify sha th now inp h))"
proof -
  let ?fp = "fingerprintCall sha (si_call inp)"
  have "?fp \<noteq> []" using assms(1) by (simp add: fingerprintCall_def stableHash_def)
  then have set: "[] \<notin> fst ` set (assoc_set ?fp e h)" for e using assms(2) by (auto dest!: assoc_set_values)
  have "fst ` set (evictOldest g) \<subseteq> fst ` set g" for g :: "'a storm_history" by (auto simp: evictOldest_def)
  then have "[] \<notin> fst ` set (evictOldest (assoc_set ?fp e h))" for e using set [of e] by blast
  with set show ?thesis by (auto simp: classify_def Let_def split: option.splits if_splits)
qed

lemma classify_bounded:
  assumes "history_ok h" and "\<forall>s. sha s \<noteq> []" and "[] \<notin> fst ` set h" and "int (length h) \<le> st_maxHistory th"
  shows "int (length (snd (classify sha th now inp h))) \<le> st_maxHistory th"
proof (cases "map_of h (fingerprintCall sha (si_call inp))")
  case None
  let ?fp = "fingerprintCall sha (si_call inp)"
  let ?e = "\<lparr>se_fingerprint = ?fp, se_firstAt = now, se_lastAt = now, se_count = 1,
                 se_lastStateHash = stateHash sha (si_signals inp), se_cached = None\<rparr>"
  have "?fp \<noteq> []" using assms(2) by (simp add: fingerprintCall_def stableHash_def)
  then have "[] \<notin> fst ` set (assoc_set ?fp ?e h)" using assms(3) by (auto dest!: assoc_set_values)
  moreover have "history_ok (assoc_set ?fp ?e h)" using assms(1) by (simp add: assoc_set_ok)
  moreover have "assoc_set ?fp ?e h \<noteq> []" using length_assoc_set [of ?fp ?e h] by (auto split: if_splits)
  ultimately have "length (evictOldest (assoc_set ?fp ?e h)) = length (assoc_set ?fp ?e h) - 1" by (intro evict_shrinks)
  then show ?thesis using None assms(4) length_assoc_set [of ?fp ?e h]
    by (simp add: classify_def Let_def split: if_splits)
next
  case (Some e)
  then have "fingerprintCall sha (si_call inp) \<in> fst ` set h" by (force dest: map_of_SomeD)
  then show ?thesis using Some assms(4) by (simp add: classify_def Let_def length_assoc_set)
qed

end
