(* ===== verification/Budget_Ledger.thy ===== *)
theory Budget_Ledger
  imports Complex_Main Json_Values
begin

text \<open>
  The budget ledger of the adaptive execution, \<open>adaptive/budget-ledger.ts\<close>: an append-only list of
  charges from which totals are derived, thresholds, and the resolution of a hierarchy of budgets; and the
  charging of subagents, \<open>adaptive/subagents.ts\<close>.  Amounts are exact rationals, so the rounding of
  floating point addition is left out; a resource is a string, as the code tests it at run time.
\<close>

section \<open>Entries\<close>

definition RESOURCE_ORDER :: "string list" where
  "RESOURCE_ORDER =
     [''maxCostUsd'', ''maxInputTokens'', ''maxOutputTokens'', ''maxCachedInputTokens'', ''maxModelTurns'',
      ''maxToolCalls'', ''maxMutatingToolCalls'', ''maxWallTimeMs'', ''maxProviderRetries'', ''maxStrategyPivots'',
      ''maxModelEscalations'', ''maxSubagentRuns'', ''maxConcurrentSubagents'', ''maxWebSearches'', ''maxWebFetches'',
      ''maxBrowserRenders'', ''maxLspRequests'', ''maxBackgroundJobs'']"

datatype js_amount = Finite rat | NotFinite

record budget_entry =
  be_entryId :: string
  be_runId :: string
  be_phaseId :: "string option"
  be_role :: "string option"
  be_resource :: string
  be_amount :: js_amount
  be_kind :: string
  be_provider :: "string option"
  be_model :: "string option"
  be_sourceEventId :: string
  be_recordedAt :: string

record budget_ledger =
  bl_runId :: string
  bl_entries :: "budget_entry list"

definition createBudgetLedger :: "string \<Rightarrow> budget_ledger" where
  "createBudgetLedger run = \<lparr>bl_runId = run, bl_entries = []\<rparr>"

definition entry_key :: "budget_entry \<Rightarrow> string \<times> string" where
  "entry_key e = (be_entryId e, be_runId e)"

text \<open>The reason an entry is not appended, \<open>None\<close> when it is.\<close>

definition append_refusal :: "budget_ledger \<Rightarrow> budget_entry \<Rightarrow> string option" where
  "append_refusal l e =
     (if be_resource e \<notin> set RESOURCE_ORDER then Some (''UNKNOWN_RESOURCE: '' @ be_resource e)
      else if be_amount e = NotFinite then Some ''NON_FINITE_AMOUNT''
      else if be_kind e \<noteq> ''estimated'' \<and> be_kind e \<noteq> ''actual'' then Some ''INVALID_ACCOUNTING_KIND''
      else if entry_key e \<in> entry_key ` set (bl_entries l) then Some ''DUPLICATE_ENTRY_ID''
      else None)"

record append_result =
  ap_ledger :: budget_ledger
  ap_appended :: bool
  ap_reason :: "string option"

definition appendEntry :: "budget_ledger \<Rightarrow> budget_entry \<Rightarrow> append_result" where
  "appendEntry l e =
     (case append_refusal l e of
        Some r \<Rightarrow> \<lparr>ap_ledger = l, ap_appended = False, ap_reason = Some r\<rparr>
      | None \<Rightarrow> \<lparr>ap_ledger = l\<lparr>bl_entries := bl_entries l @ [e]\<rparr>, ap_appended = True, ap_reason = None\<rparr>)"

text \<open>The actual that reconciles an estimate: its id is given or derived, its run and source event
  are those of the estimate.\<close>

definition actual_entry :: "string \<Rightarrow> budget_entry \<Rightarrow> budget_entry \<Rightarrow> string option \<Rightarrow> budget_entry" where
  "actual_entry estimatedId est act actualId = act
     \<lparr>be_entryId := (case actualId of None \<Rightarrow> estimatedId @ '':actual'' | Some i \<Rightarrow> i),
      be_runId := be_runId est, be_kind := ''actual'', be_sourceEventId := be_sourceEventId est\<rparr>"

definition reconcileEntry :: "budget_ledger \<Rightarrow> string \<Rightarrow> budget_entry \<Rightarrow> string option \<Rightarrow> append_result" where
  "reconcileEntry l estimatedId act actualId =
     (case List.find (\<lambda>e. be_entryId e = estimatedId) (bl_entries l) of
        None \<Rightarrow> \<lparr>ap_ledger = l, ap_appended = False, ap_reason = Some ''ESTIMATE_NOT_FOUND''\<rparr>
      | Some est \<Rightarrow>
          if be_kind est \<noteq> ''estimated''
          then \<lparr>ap_ledger = l, ap_appended = False, ap_reason = Some ''ESTIMATE_NOT_FOUND''\<rparr>
          else appendEntry l (actual_entry estimatedId est act actualId))"

section \<open>Usage\<close>

definition amount_of :: "budget_entry \<Rightarrow> rat" where
  "amount_of e = (case be_amount e of Finite a \<Rightarrow> a | NotFinite \<Rightarrow> 0)"

record usage =
  us_total :: rat
  us_estimated :: rat
  us_actual :: rat

definition usage_step :: "string \<Rightarrow> budget_entry \<Rightarrow> usage \<Rightarrow> usage" where
  "usage_step r e u =
     (if be_resource e \<noteq> r then u
      else let u2 = u\<lparr>us_total := us_total u + amount_of e\<rparr>
           in if be_kind e = ''actual'' then u2\<lparr>us_actual := us_actual u2 + amount_of e\<rparr>
              else u2\<lparr>us_estimated := us_estimated u2 + amount_of e\<rparr>)"

definition getUsage :: "budget_ledger \<Rightarrow> string \<Rightarrow> usage" where
  "getUsage l r = fold (usage_step r) (bl_entries l) \<lparr>us_total = 0, us_estimated = 0, us_actual = 0\<rparr>"

definition sumResource :: "budget_ledger \<Rightarrow> string \<Rightarrow> rat" where
  "sumResource l r = us_total (getUsage l r)"

definition resolvedSourceEvents :: "budget_ledger \<Rightarrow> nat" where
  "resolvedSourceEvents l =
     (let actuals = map be_sourceEventId (filter (\<lambda>e. be_kind e = ''actual'') (bl_entries l))
      in length (remdups (map be_sourceEventId
           (filter (\<lambda>e. be_kind e = ''estimated'' \<and> be_sourceEventId e \<in> set actuals) (bl_entries l)))))"

section \<open>Thresholds\<close>

record budget_thresholds =
  bt_soft :: "rat option"
  bt_hard :: "rat option"
  bt_finalizationReserve :: "rat option"
  bt_recoveryReserve :: "rat option"

datatype verdict = VerdictOk | VerdictSoft string rat rat | VerdictHard string rat rat

definition threshold_verdict :: "budget_ledger \<Rightarrow> budget_thresholds \<Rightarrow> rat \<Rightarrow> string \<Rightarrow> verdict" where
  "threshold_verdict l t reserved r =
     (let used = sumResource l r in
      case (case bt_hard t of None \<Rightarrow> None
            | Some hard \<Rightarrow> (let eff = max 0 (hard - reserved) in if used \<ge> eff then Some eff else None)) of
        Some eff \<Rightarrow> VerdictHard r used eff
      | None \<Rightarrow> (case bt_soft t of None \<Rightarrow> VerdictOk
                | Some soft \<Rightarrow> if used \<ge> soft then VerdictSoft r used soft else VerdictOk))"

fun is_hard :: "verdict \<Rightarrow> bool" where
  "is_hard (VerdictHard r u t) = True"
| "is_hard v = False"

fun is_soft :: "verdict \<Rightarrow> bool" where
  "is_soft (VerdictSoft r u t) = True"
| "is_soft v = False"

record threshold_output =
  to_verdicts :: "verdict list"
  to_blocked :: bool
  to_hardReached :: "verdict list"
  to_softReached :: "verdict list"

definition evaluateThresholds :: "budget_ledger \<Rightarrow> budget_thresholds \<Rightarrow> rat option \<Rightarrow> threshold_output" where
  "evaluateThresholds l t reserved =
     (let vs = map (threshold_verdict l t (case reserved of None \<Rightarrow> 0 | Some r \<Rightarrow> r)) RESOURCE_ORDER
      in \<lparr>to_verdicts = vs, to_blocked = list_ex is_hard vs, to_hardReached = filter is_hard vs,
          to_softReached = filter is_soft vs\<rparr>)"

section \<open>Hierarchy of budgets\<close>

text \<open>A budget gives some resources a limit.  The chain runs from the global budget to that of a
  subagent; an absent layer is skipped.\<close>

type_synonym budget = "string \<rightharpoonup> rat"

record allocation_step =
  as_remaining :: "rat option"
  as_final :: "rat option"
  as_overflow :: "(rat \<times> rat) list"

definition layer_step :: "rat option \<Rightarrow> allocation_step \<Rightarrow> allocation_step" where
  "layer_step v s =
     (case v of None \<Rightarrow> s
      | Some lv \<Rightarrow>
          (case as_remaining s of
             None \<Rightarrow> s\<lparr>as_remaining := Some lv, as_final := Some lv\<rparr>
           | Some rem \<Rightarrow>
               if lv > rem then s\<lparr>as_overflow := as_overflow s @ [(lv, rem)], as_final := Some rem\<rparr>
               else s\<lparr>as_final := Some lv, as_remaining := Some lv\<rparr>))"

definition layer_value :: "string \<Rightarrow> budget option \<Rightarrow> rat option" where
  "layer_value r layer = (case layer of None \<Rightarrow> None | Some b \<Rightarrow> b r)"

definition resolve_resource :: "budget option list \<Rightarrow> string \<Rightarrow> allocation_step" where
  "resolve_resource chain r =
     fold layer_step (map (layer_value r) chain) \<lparr>as_remaining = None, as_final = None, as_overflow = []\<rparr>"

record allocation_result =
  al_effective :: "(string \<times> rat) list"
  al_blocked :: bool
  al_overflow :: "(string \<times> rat \<times> rat) list"

definition resolveBudgetHierarchy :: "budget option list \<Rightarrow> allocation_result" where
  "resolveBudgetHierarchy chain =
     \<lparr>al_effective = concat (map (\<lambda>r. case as_final (resolve_resource chain r) of None \<Rightarrow> [] | Some v \<Rightarrow> [(r, v)]) RESOURCE_ORDER),
      al_blocked = False,
      al_overflow = concat (map (\<lambda>r. map (\<lambda>(c, rem). (r, c, rem)) (as_overflow (resolve_resource chain r))) RESOURCE_ORDER)\<rparr>"

definition reserveFinalization :: "rat \<Rightarrow> rat \<Rightarrow> rat \<times> rat" where
  "reserveFinalization limit reserve = (let r = max 0 reserve in (max 0 (limit - r), r))"

section \<open>Subagents\<close>

record subagent_config =
  sa_maxDepth :: int
  sa_maxTotalChildren :: int
  sa_maxConcurrentChildren :: int

definition DEFAULT_SUBAGENT_CONFIG :: subagent_config where
  "DEFAULT_SUBAGENT_CONFIG = \<lparr>sa_maxDepth = 1, sa_maxTotalChildren = 8, sa_maxConcurrentChildren = 2\<rparr>"

record subagent_spec =
  ss_subagentId :: string
  ss_parentRunId :: string
  ss_role :: string
  ss_executionMode :: string
  ss_allowMutation :: bool
  ss_allowSpawnSubagents :: bool
  ss_maxDepth :: int
  ss_allowedTools :: "string list"
  ss_budget :: "(string \<times> rat) list"

datatype subagent_status = Sub_pending | Sub_running | Sub_succeeded | Sub_failed | Sub_cancelled | Sub_timed_out

record subagent_record =
  sb_subagentId :: string
  sb_parentRunId :: string
  sb_role :: string
  sb_status :: subagent_status
  sb_startedAt :: "string option"
  sb_finishedAt :: "string option"
  sb_resultPayload :: "json option"
  sb_cancelRequested :: "bool option"

record launch_input =
  li_spec :: subagent_spec
  li_parentCanMutate :: bool
  li_parentCanPublish :: bool
  li_siblingCount :: int
  li_activeChildren :: int
  li_config :: "subagent_config option"

definition budgetIsUnbounded :: "(string \<times> rat) list \<Rightarrow> bool" where
  "budgetIsUnbounded b \<longleftrightarrow> \<not> list_ex (\<lambda>(k, v). v > 0) b"

definition when_code :: "bool \<Rightarrow> string \<Rightarrow> string list" where
  "when_code b c = (if b then [c] else [])"

definition launch_reasons :: "launch_input \<Rightarrow> string list" where
  "launch_reasons i =
     (let sp = li_spec i; cf = (case li_config i of None \<Rightarrow> DEFAULT_SUBAGENT_CONFIG | Some c \<Rightarrow> c) in
      when_code (ss_maxDepth sp > sa_maxDepth cf) ''SUBDEPTH_EXCEEDED''
      @ when_code (ss_allowSpawnSubagents sp \<and> ss_maxDepth sp \<le> 0) ''SUBDEPTH_EXHAUSTED''
      @ when_code (li_siblingCount i \<ge> sa_maxTotalChildren cf) ''MAX_TOTAL_CHILDREN''
      @ when_code (li_activeChildren i \<ge> sa_maxConcurrentChildren cf) ''MAX_CONCURRENT_CHILDREN''
      @ when_code ((ss_executionMode sp = ''mutate'' \<or> ss_allowMutation sp) \<and> \<not> li_parentCanMutate i) ''MUTATION_DENIED''
      @ when_code (\<not> li_parentCanPublish i \<and> ''publish'' \<in> set (ss_allowedTools sp)) ''PUBLISH_DENIED''
      @ when_code (budgetIsUnbounded (ss_budget sp)) ''CHILD_BUDGET_UNBOUNDED'')"

definition canLaunchSubagent :: "launch_input \<Rightarrow> string list \<times> subagent_record option" where
  "canLaunchSubagent i =
     (launch_reasons i,
      if launch_reasons i \<noteq> [] then None
      else Some \<lparr>sb_subagentId = ss_subagentId (li_spec i), sb_parentRunId = ss_parentRunId (li_spec i),
        sb_role = ss_role (li_spec i), sb_status = Sub_pending, sb_startedAt = None, sb_finishedAt = None,
        sb_resultPayload = None, sb_cancelRequested = None\<rparr>)"

definition transitionSubagent :: "subagent_record \<Rightarrow> subagent_status \<Rightarrow> string option \<Rightarrow> subagent_record" where
  "transitionSubagent r st time = r
     \<lparr>sb_status := st,
      sb_startedAt := (case sb_startedAt r of Some t \<Rightarrow> Some t
        | None \<Rightarrow> if st = Sub_running then time else sb_startedAt r),
      sb_finishedAt := (if st \<in> {Sub_succeeded, Sub_failed, Sub_cancelled, Sub_timed_out} then time else sb_finishedAt r),
      sb_cancelRequested := (if st = Sub_cancelled then Some True else sb_cancelRequested r)\<rparr>"

definition child_charge :: "string \<Rightarrow> string \<Rightarrow> js_amount \<Rightarrow> string \<Rightarrow> budget_entry" where
  "child_charge child r amount run =
     \<lparr>be_entryId = child @ '':charge:'' @ r, be_runId = run, be_phaseId = None, be_role = Some ''subagent'',
      be_resource = r, be_amount = amount, be_kind = ''estimated'', be_provider = None, be_model = None,
      be_sourceEventId = child @ '':'' @ r, be_recordedAt = ''1970-01-01T00:00:00.000Z''\<rparr>"

definition chargeChildToParent :: "budget_ledger \<Rightarrow> string \<Rightarrow> string \<Rightarrow> js_amount \<Rightarrow> string \<Rightarrow> budget_ledger" where
  "chargeChildToParent l child r amount run = ap_ledger (appendEntry l (child_charge child r amount run))"

section \<open>Totals\<close>

lemma usage_fold:
  "us_total (fold (usage_step r) es u) = us_total u + sum_list (map amount_of (filter (\<lambda>e. be_resource e = r) es))"
  by (induction es arbitrary: u) (simp_all add: usage_step_def Let_def)

lemma usage_fold_split:
  "us_total u = us_estimated u + us_actual u \<Longrightarrow>
     us_total (fold (usage_step r) es u) = us_estimated (fold (usage_step r) es u) + us_actual (fold (usage_step r) es u)"
proof (induction es arbitrary: u)
  case (Cons e es)
  have "us_total (usage_step r e u) = us_estimated (usage_step r e u) + us_actual (usage_step r e u)"
    using Cons.prems by (simp add: usage_step_def Let_def)
  from Cons.IH [OF this] show ?case by simp
qed simp

lemma sumResource_sum:
  "sumResource l r = sum_list (map amount_of (filter (\<lambda>e. be_resource e = r) (bl_entries l)))"
  by (simp add: sumResource_def getUsage_def usage_fold)

lemma usage_split: "us_total (getUsage l r) = us_estimated (getUsage l r) + us_actual (getUsage l r)"
  by (simp add: getUsage_def usage_fold_split)

section \<open>Replay\<close>

definition entry_ok :: "budget_entry \<Rightarrow> bool" where
  "entry_ok e \<longleftrightarrow> be_resource e \<in> set RESOURCE_ORDER \<and> be_amount e \<noteq> NotFinite \<and> (be_kind e = ''estimated'' \<or> be_kind e = ''actual'')"

definition append_all :: "budget_entry list \<Rightarrow> budget_ledger \<Rightarrow> budget_ledger" where
  "append_all es l = fold (\<lambda>e l. ap_ledger (appendEntry l e)) es l"

lemma append_refusal_None: "append_refusal l e = None \<longleftrightarrow> entry_ok e \<and> entry_key e \<notin> entry_key ` set (bl_entries l)"
  by (auto simp: append_refusal_def entry_ok_def)

lemma appendEntry_ledger:
  "ap_ledger (appendEntry l e) = (if append_refusal l e = None then l\<lparr>bl_entries := bl_entries l @ [e]\<rparr> else l)"
  by (simp add: appendEntry_def split: option.splits)

lemma append_all_simps [simp]:
  "append_all [] l = l" "append_all (e # es) l = append_all es (ap_ledger (appendEntry l e))"
  "append_all (es @ fs) l = append_all fs (append_all es l)"
  by (simp_all add: append_all_def)

lemma append_all_grows: "\<exists>fs. bl_entries (append_all es l) = bl_entries l @ fs"
proof (induction es arbitrary: l)
  case (Cons e es)
  from Cons.IH [of "ap_ledger (appendEntry l e)"] show ?case by (auto simp: appendEntry_ledger)
qed simp

text \<open>After a replay every well-formed entry of the list is present.\<close>

lemma append_all_present:
  "e \<in> set es \<Longrightarrow> entry_ok e \<Longrightarrow> entry_key e \<in> entry_key ` set (bl_entries (append_all es l))"
proof (induction es arbitrary: l)
  case (Cons x es)
  show ?case
  proof (cases "e = x")
    case True
    have "entry_key x \<in> entry_key ` set (bl_entries (ap_ledger (appendEntry l x)))"
      using Cons.prems(2) True append_refusal_None [of l x] by (auto simp: appendEntry_ledger)
    moreover obtain fs where "bl_entries (append_all es (ap_ledger (appendEntry l x))) = bl_entries (ap_ledger (appendEntry l x)) @ fs"
      using append_all_grows by blast
    ultimately show ?thesis using True by auto
  next
    case False
    then show ?thesis using Cons by simp
  qed
qed simp

lemma append_all_noop:
  "\<forall>e \<in> set es. entry_ok e \<longrightarrow> entry_key e \<in> entry_key ` set (bl_entries l) \<Longrightarrow> append_all es l = l"
proof (induction es)
  case (Cons e es)
  then have "append_refusal l e \<noteq> None" using append_refusal_None by auto
  then have "ap_ledger (appendEntry l e) = l" by (simp add: appendEntry_ledger)
  then show ?case using Cons by simp
qed simp

lemma append_all_distinct:
  "distinct (map entry_key (bl_entries l)) \<Longrightarrow> distinct (map entry_key (bl_entries (append_all es l)))"
proof (induction es arbitrary: l)
  case (Cons e es)
  have "distinct (map entry_key (bl_entries (ap_ledger (appendEntry l e))))"
    using Cons.prems append_refusal_None [of l e] by (auto simp: appendEntry_ledger)
  from Cons.IH [OF this] show ?case by simp
qed simp

end
