(* ===== verification/Budget_Claims.thy ===== *)
theory Budget_Claims
  imports Budget_Ledger
begin

text \<open>
  What the budget ledger guarantees: replaying charges is idempotent and a total is the sum of the
  accepted charges; a hierarchy of budgets gives the smallest of its limits and reports the layers
  above it; a child's charges reach the parent.  And where the totals differ from what the
  documentation of the ledger says.
\<close>

section \<open>Appending once\<close>

lemma sum_list_append_one:
  "ap_appended (appendEntry l e) \<Longrightarrow>
     sumResource (ap_ledger (appendEntry l e)) r = sumResource l r + (if be_resource e = r then amount_of e else 0)"
  by (simp add: appendEntry_def sumResource_sum split: option.splits)

lemma append_twice: "append_all es (append_all es l) = append_all es l"
  by (rule append_all_noop) (blast intro: append_all_present)

lemma append_resume: "append_all (es @ fs) (append_all es l) = append_all (es @ fs) l"
  by (simp add: append_twice)

text \<open>Replay: however many of a run's charges had reached the ledger
  before an interruption, replaying them all from the start gives the ledger of an uninterrupted run,
  so every total is that of the uninterrupted run; no entry id is present twice for one run when none
  was before; and a total is the sum of the amounts of the resource's entries, estimates and actuals
  together.\<close>

theorem budget_replay_idempotent:
  fixes es fs :: "budget_entry list" and l :: budget_ledger
  assumes "distinct (map entry_key (bl_entries l))"
  shows "append_all (es @ fs) (append_all es l) = append_all (es @ fs) l
    \<and> sumResource (append_all (es @ fs) (append_all es l)) r = sumResource (append_all (es @ fs) l) r
    \<and> distinct (map entry_key (bl_entries (append_all (es @ fs) l)))
    \<and> us_total (getUsage l r) = us_estimated (getUsage l r) + us_actual (getUsage l r)
    \<and> (ap_appended (appendEntry l e) \<longrightarrow>
         sumResource (ap_ledger (appendEntry l e)) (be_resource e) = sumResource l (be_resource e) + amount_of e)
    \<and> (\<not> ap_appended (appendEntry l e) \<longrightarrow> ap_ledger (appendEntry l e) = l)"
proof -
  have d: "distinct (map entry_key (bl_entries (append_all (es @ fs) l)))"
    using append_all_distinct [OF assms] .
  have k: "\<not> ap_appended (appendEntry l e) \<Longrightarrow> ap_ledger (appendEntry l e) = l"
    by (simp add: appendEntry_def split: option.splits)
  show ?thesis using d k append_resume usage_split sum_list_append_one [of l e "be_resource e"] by simp
qed

definition turn_charge :: "string \<Rightarrow> rat \<Rightarrow> budget_entry" where
  "turn_charge i a =
     \<lparr>be_entryId = i, be_runId = ''run-1'', be_phaseId = None, be_role = None, be_resource = ''maxModelTurns'',
      be_amount = Finite a, be_kind = ''estimated'', be_provider = None, be_model = None, be_sourceEventId = i,
      be_recordedAt = ''2026-01-01T00:00:00.000Z''\<rparr>"

lemma budget_replay_idempotent_witness:
  "append_all ([turn_charge ''a'' 1] @ [turn_charge ''b'' 2]) (append_all [turn_charge ''a'' 1] (createBudgetLedger ''run-1''))
     = append_all ([turn_charge ''a'' 1] @ [turn_charge ''b'' 2]) (createBudgetLedger ''run-1'')
   \<and> sumResource (append_all [turn_charge ''a'' 1, turn_charge ''b'' 2] (createBudgetLedger ''run-1'')) ''maxModelTurns'' = 3"
  using budget_replay_idempotent [of "createBudgetLedger ''run-1''" "[turn_charge ''a'' 1]" "[turn_charge ''b'' 2]" "''maxModelTurns''"]
  by (simp add: createBudgetLedger_def turn_charge_def appendEntry_def append_refusal_def RESOURCE_ORDER_def
        entry_key_def sumResource_sum amount_of_def)

section \<open>The hierarchy\<close>

text \<open>The state of the loop over the layers after the first defined one.\<close>

lemma layer_fold:
  "as_remaining s = Some m \<Longrightarrow> as_final s = Some m \<Longrightarrow>
     (let s2 = fold layer_step vs s; n = Min (insert m {v. Some v \<in> set vs})
      in as_remaining s2 = Some n \<and> as_final s2 = Some n)"
proof (induction vs arbitrary: s m)
  case (Cons x vs)
  let ?n = "case x of None \<Rightarrow> m | Some v \<Rightarrow> min m v"
  have 1: "as_remaining (layer_step x s) = Some ?n" "as_final (layer_step x s) = Some ?n"
    using Cons.prems by (auto simp: layer_step_def min_def split: option.splits)
  have fin: "finite {v. Some v \<in> set vs}"
    using finite_vimageI [of "set vs" Some] by (simp add: vimage_def)
  have set: "{v. Some v \<in> set (x # vs)} = (case x of None \<Rightarrow> {} | Some v \<Rightarrow> {v}) \<union> {v. Some v \<in> set vs}"
    by (auto split: option.splits)
  have "Min (insert m {v. Some v \<in> set (x # vs)}) = Min (insert ?n {v. Some v \<in> set vs})"
  proof (cases x)
    case None then show ?thesis by simp
  next
    case (Some v)
    let ?S = "{v. Some v \<in> set vs}"
    have "Min (insert m (insert v ?S)) = Min (insert (min m v) ?S)"
      using fin by (cases "?S = {}") (simp_all add: min.assoc)
    moreover have "{w. Some w \<in> set (x # vs)} = insert v ?S" using Some by auto
    ultimately show ?thesis using Some by simp
  qed
  then show ?case using Cons.IH [OF 1] by (simp add: Let_def)
qed simp

lemma layer_fold_none:
  "\<forall>v \<in> set vs. v = None \<Longrightarrow> fold layer_step vs s = s"
  by (induction vs arbitrary: s) (simp_all add: layer_step_def)

lemma layer_fold_start:
  assumes "as_remaining s = None"
  shows "as_final (fold layer_step vs s) =
    (if {v. Some v \<in> set vs} = {} then as_final s else Some (Min {v. Some v \<in> set vs}))"
  using assms
proof (induction vs arbitrary: s)
  case (Cons x vs)
  show ?case
  proof (cases x)
    case None
    then show ?thesis using Cons by (simp add: layer_step_def)
  next
    case (Some v)
    then have "as_remaining (layer_step x s) = Some v" "as_final (layer_step x s) = Some v"
      using Cons.prems by (simp_all add: layer_step_def)
    from layer_fold [OF this, of vs] have
      "as_final (fold layer_step (x # vs) s) = Some (Min (insert v {w. Some w \<in> set vs}))"
      by (simp add: Let_def)
    moreover have "{w. Some w \<in> set (x # vs)} = insert v {w. Some w \<in> set vs}" using Some by auto
    ultimately show ?thesis by auto
  qed
qed simp

definition limits :: "budget option list \<Rightarrow> string \<Rightarrow> rat set" where
  "limits chain r = {v. \<exists>b. Some b \<in> set chain \<and> b r = Some v}"

lemma layer_value_Some: "layer_value r layer = Some v \<longleftrightarrow> (\<exists>b. layer = Some b \<and> b r = Some v)"
  by (simp add: layer_value_def split: option.split)

lemma limits_layers: "{v. Some v \<in> set (map (layer_value r) chain)} = limits chain r"
proof -
  have "Some v \<in> set (map (layer_value r) chain) \<longleftrightarrow> (\<exists>b. Some b \<in> set chain \<and> b r = Some v)" for v
    using layer_value_Some [of r _ v] by (metis (no_types, lifting) imageE image_eqI list.set_map)
  then show ?thesis by (simp only: limits_def)
qed

lemma limits_finite: "finite (limits chain r)"
proof -
  have "limits chain r = Some -` set (map (layer_value r) chain)"
    unfolding limits_layers [symmetric] vimage_def by (rule refl)
  then show ?thesis by (simp add: finite_vimageI)
qed

lemma resolve_final:
  "as_final (resolve_resource chain r) = (if limits chain r = {} then None else Some (Min (limits chain r)))"
  using layer_fold_start [of "\<lparr>as_remaining = None, as_final = None, as_overflow = []\<rparr>" "map (layer_value r) chain"]
  by (simp only: resolve_resource_def limits_layers allocation_step.simps)

lemma overflow_fold:
  "(c, m) \<in> set (as_overflow (fold layer_step vs s)) \<Longrightarrow> (c, m) \<notin> set (as_overflow s) \<Longrightarrow> m < c \<and> Some c \<in> set vs"
proof (induction vs arbitrary: s)
  case (Cons x vs)
  show ?case
  proof (cases "(c, m) \<in> set (as_overflow (layer_step x s))")
    case True
    then show ?thesis using Cons.prems(2) by (auto simp: layer_step_def split: option.splits if_splits)
  next
    case False
    then show ?thesis using Cons.IH [of "layer_step x s"] Cons.prems(1) by auto
  qed
qed simp

lemma lookup_concat:
  "distinct rs \<Longrightarrow>
   map_of (concat (map (\<lambda>r. case f r of None \<Rightarrow> [] | Some v \<Rightarrow> [(r, v)]) rs)) r = (if r \<in> set rs then f r else None)"
  by (induction rs) (auto split: option.splits)

lemma RESOURCE_ORDER_distinct: "distinct RESOURCE_ORDER"
  by (simp add: RESOURCE_ORDER_def)

text \<open>The hierarchy: for a resource of the ledger the effective
  budget has a limit exactly when some layer of the chain, from global to subagent, sets one, and then
  it is the smallest of the limits the layers set, so no layer can raise the limit of a layer above it;
  every reported overflow is a limit some layer asked for that is above the remainder at that point,
  and the resolution itself is never blocked.\<close>

theorem budget_hierarchy_minimum:
  fixes chain :: "budget option list"
  assumes "r \<in> set RESOURCE_ORDER"
  shows "map_of (al_effective (resolveBudgetHierarchy chain)) r =
      (if limits chain r = {} then None else Some (Min (limits chain r)))
    \<and> (\<forall>b v. Some b \<in> set chain \<and> b r = Some v \<longrightarrow>
         (\<exists>e. map_of (al_effective (resolveBudgetHierarchy chain)) r = Some e \<and> e \<le> v))
    \<and> (\<forall>q c m. (q, c, m) \<in> set (al_overflow (resolveBudgetHierarchy chain)) \<longrightarrow> m < c \<and> c \<in> limits chain q)
    \<and> \<not> al_blocked (resolveBudgetHierarchy chain)"
proof -
  have eff: "map_of (al_effective (resolveBudgetHierarchy chain)) r =
      (if limits chain r = {} then None else Some (Min (limits chain r)))"
    using assms by (simp add: resolveBudgetHierarchy_def lookup_concat RESOURCE_ORDER_distinct resolve_final)
  have le: "\<exists>e. map_of (al_effective (resolveBudgetHierarchy chain)) r = Some e \<and> e \<le> v"
    if "Some b \<in> set chain" "b r = Some v" for b v
  proof -
    have "v \<in> limits chain r" using that by (auto simp: limits_def)
    then show ?thesis using eff Min_le [OF limits_finite] by auto
  qed
  have over: "m < c \<and> c \<in> limits chain q" if "(q, c, m) \<in> set (al_overflow (resolveBudgetHierarchy chain))" for q c m
  proof -
    have "(c, m) \<in> set (as_overflow (resolve_resource chain q))"
      using that by (auto simp: resolveBudgetHierarchy_def)
    then have "m < c \<and> Some c \<in> set (map (layer_value q) chain)"
      unfolding resolve_resource_def by (rule overflow_fold) simp
    then show ?thesis using limits_layers [of q chain] by auto
  qed
  have "\<not> al_blocked (resolveBudgetHierarchy chain)" by (simp add: resolveBudgetHierarchy_def)
  then show ?thesis using eff le over by blast
qed

definition tool_chain :: "budget option list" where
  "tool_chain = [Some [''maxToolCalls'' \<mapsto> 10], None, Some [''maxToolCalls'' \<mapsto> 4], Some [''maxToolCalls'' \<mapsto> 7]]"

lemma tool_chain_layers:
  "map (layer_value r) tool_chain = (if r = ''maxToolCalls'' then [Some 10, None, Some 4, Some 7] else [None, None, None, None])"
  by (simp add: layer_value_def tool_chain_def)

lemma tool_chain_limits: "limits tool_chain ''maxToolCalls'' = {10, 4, 7}"
proof -
  have "limits tool_chain ''maxToolCalls'' = {v. Some v \<in> set [Some 10, None, Some 4, Some (7::rat)]}"
    unfolding limits_layers [symmetric] tool_chain_layers by simp
  then show ?thesis by auto
qed

lemma tool_chain_overflow: "al_overflow (resolveBudgetHierarchy tool_chain) = [(''maxToolCalls'', 7, 4)]"
proof -
  have "as_overflow (resolve_resource tool_chain r) = (if r = ''maxToolCalls'' then [(7, 4)] else [])" for r
    by (simp add: resolve_resource_def tool_chain_layers layer_step_def)
  then show ?thesis by (simp add: resolveBudgetHierarchy_def RESOURCE_ORDER_def)
qed

lemma budget_hierarchy_minimum_witness:
  "map_of (al_effective (resolveBudgetHierarchy tool_chain)) ''maxToolCalls'' = Some 4"
  using budget_hierarchy_minimum [of "''maxToolCalls''" tool_chain] tool_chain_limits by (simp add: RESOURCE_ORDER_def)

section \<open>What the totals hold\<close>

lemma reconcile_counts_twice:
  assumes "List.find (\<lambda>e. be_entryId e = i) (bl_entries l) = Some est" "be_kind est = ''estimated''"
    "ap_appended (reconcileEntry l i act aid)" "be_resource act = r" "be_resource est = r"
  shows "sumResource (ap_ledger (reconcileEntry l i act aid)) r = sumResource l r + amount_of act
    \<and> amount_of est \<in> set (map amount_of (filter (\<lambda>e. be_resource e = r) (bl_entries (ap_ledger (reconcileEntry l i act aid)))))"
proof -
  let ?e = "actual_entry i est act aid"
  have rec: "reconcileEntry l i act aid = appendEntry l ?e"
    using assms(1,2) by (simp add: reconcileEntry_def)
  have app: "ap_appended (appendEntry l ?e)" using assms(3) rec by simp
  have e: "be_resource ?e = r" "amount_of ?e = amount_of act"
    using assms(4) by (simp_all add: actual_entry_def amount_of_def)
  have in_l: "est \<in> set (bl_entries l)" using assms(1) by (auto simp: find_Some_iff)
  have ext: "bl_entries (ap_ledger (appendEntry l ?e)) = bl_entries l @ [?e]"
    using app by (simp add: appendEntry_def split: option.splits)
  show ?thesis
    using sum_list_append_one [OF app, of r] e in_l ext assms(5) rec by auto
qed

text \<open>Reconciling an estimate with its actual leaves the
  estimate in the ledger and adds the actual to the total: the total of the resource grows by the
  actual amount, although the estimate of the same source event is still counted, so a call estimated
  at one unit and billed at one unit is charged as two.\<close>

theorem budget_reconcile_double_counts:
  fixes l :: budget_ledger
  assumes "List.find (\<lambda>e. be_entryId e = i) (bl_entries l) = Some est" "be_kind est = ''estimated''"
    "ap_appended (reconcileEntry l i act aid)" "be_resource act = be_resource est"
  shows "sumResource (ap_ledger (reconcileEntry l i act aid)) (be_resource est) = sumResource l (be_resource est) + amount_of act
    \<and> est \<in> set (bl_entries (ap_ledger (reconcileEntry l i act aid)))
    \<and> (\<exists>a \<in> set (bl_entries (ap_ledger (reconcileEntry l i act aid))).
         be_kind a = ''actual'' \<and> be_sourceEventId a = be_sourceEventId est)"
proof -
  let ?e = "actual_entry i est act aid"
  have rec: "reconcileEntry l i act aid = appendEntry l ?e" using assms(1,2) by (simp add: reconcileEntry_def)
  have ext: "bl_entries (ap_ledger (reconcileEntry l i act aid)) = bl_entries l @ [?e]"
    using assms(3) rec by (simp add: appendEntry_def split: option.splits)
  have "est \<in> set (bl_entries l)" using assms(1) by (auto simp: find_Some_iff)
  then show ?thesis
    using reconcile_counts_twice [OF assms(1-3) assms(4) refl] ext by (auto simp: actual_entry_def)
qed

lemma budget_reconcile_double_counts_witness:
  "sumResource (ap_ledger (reconcileEntry (append_all [turn_charge ''a'' 1] (createBudgetLedger ''run-1'')) ''a''
     (turn_charge '''' 1) None)) ''maxModelTurns'' = 2"
  using budget_reconcile_double_counts [of "''a''" "append_all [turn_charge ''a'' 1] (createBudgetLedger ''run-1'')"
      "turn_charge ''a'' 1" "turn_charge '''' 1" None]
  by (simp add: createBudgetLedger_def turn_charge_def appendEntry_def append_refusal_def RESOURCE_ORDER_def
        entry_key_def sumResource_sum amount_of_def reconcileEntry_def actual_entry_def)

section \<open>Thresholds and children\<close>

text \<open>One scalar is judged against every resource: a hard threshold at or under the reserved capacity
  blocks an empty ledger.\<close>

lemma reserved_blocks_empty:
  assumes "bt_hard t = Some h" "h \<le> reserved"
  shows "to_blocked (evaluateThresholds (createBudgetLedger run) t (Some reserved))
    \<and> length (to_hardReached (evaluateThresholds (createBudgetLedger run) t (Some reserved))) = length RESOURCE_ORDER"
proof -
  have "threshold_verdict (createBudgetLedger run) t reserved r = VerdictHard r 0 0" for r
    using assms by (simp add: threshold_verdict_def createBudgetLedger_def sumResource_sum)
  then show ?thesis
    by (simp add: evaluateThresholds_def Let_def RESOURCE_ORDER_def)
qed

text \<open>A child charges a resource of its parent once per run: the entry id of the second charge is that
  of the first, whatever its amount.\<close>

lemma second_child_charge_lost:
  assumes "r \<in> set RESOURCE_ORDER"
  shows "chargeChildToParent (chargeChildToParent l c r (Finite a) run) c r (Finite b) run
    = chargeChildToParent l c r (Finite a) run"
proof -
  have key: "entry_key (child_charge c r x run) = (c @ '':charge:'' @ r, run)" for x
    by (simp add: entry_key_def child_charge_def)
  have "append_refusal (chargeChildToParent l c r (Finite a) run) (child_charge c r (Finite b) run) \<noteq> None"
  proof -
    have "(c @ '':charge:'' @ r, run) \<in> entry_key ` set (bl_entries (chargeChildToParent l c r (Finite a) run))"
    proof (cases "append_refusal l (child_charge c r (Finite a) run) = None")
      case True
      then show ?thesis by (simp add: chargeChildToParent_def appendEntry_ledger key)
    next
      case False
      moreover have "entry_ok (child_charge c r (Finite a) run)"
        using assms by (simp add: entry_ok_def child_charge_def)
      ultimately show ?thesis
        using append_refusal_None [of l "child_charge c r (Finite a) run"]
        by (simp add: chargeChildToParent_def appendEntry_ledger key)
    qed
    then show ?thesis using append_refusal_None key by auto
  qed
  then show ?thesis
    by (simp add: chargeChildToParent_def [of _ c r "Finite b"] appendEntry_ledger)
qed

text \<open>A launch is allowed exactly when every limit of the parent holds; then the record is pending.\<close>

lemma launch_allowed:
  "snd (canLaunchSubagent i) \<noteq> None \<longleftrightarrow> launch_reasons i = []"
  "snd (canLaunchSubagent i) = Some r \<Longrightarrow> sb_status r = Sub_pending \<and> sb_subagentId r = ss_subagentId (li_spec i)"
  by (auto simp: canLaunchSubagent_def split: if_splits)

lemma launch_bounds:
  assumes "snd (canLaunchSubagent i) \<noteq> None" "li_config i = None"
  shows "ss_maxDepth (li_spec i) \<le> 1 \<and> li_siblingCount i < 8 \<and> li_activeChildren i < 2
    \<and> (ss_allowMutation (li_spec i) \<longrightarrow> li_parentCanMutate i)
    \<and> (''publish'' \<in> set (ss_allowedTools (li_spec i)) \<longrightarrow> li_parentCanPublish i)"
proof -
  have "launch_reasons i = []" using assms(1) launch_allowed(1) by blast
  then show ?thesis
    using assms(2) by (auto simp: launch_reasons_def when_code_def Let_def DEFAULT_SUBAGENT_CONFIG_def split: if_splits)
qed

end
