(* ===== verification/Session_Memory.thy ===== *)
theory Session_Memory
  imports Agent_Messages
begin

text \<open>
  Session memory, todo snapshots and tasks, \<open>core/memory.ts\<close>, and the selectors of memory snapshots,
  \<open>core/snapshot-selector-resolver.ts\<close>.  The current time and the ids that the code draws are
  parameters, and so is the order of \<open>localeCompare\<close>, which depends on the locale of the machine.
\<close>

section \<open>Keys and values\<close>

record memory_item =
  mi_key :: string
  mi_value :: string
  mi_timestamp :: string

function dot_spaces :: "string \<Rightarrow> string" where
  "dot_spaces [] = []"
| "dot_spaces (c # cs) = (if js_ws c then CHR ''.'' # dot_spaces (dropWhile js_ws cs) else c # dot_spaces cs)"
  by pat_completeness auto
termination
  by (relation "measure length") (simp_all add: le_imp_less_Suc length_dropWhile_le)

text \<open>\<open>toLowerCase\<close> on the code units up to 255.\<close>

definition upper_unit :: "nat \<Rightarrow> bool" where
  "upper_unit n \<longleftrightarrow> 65 \<le> n \<and> n \<le> 90 \<or> 192 \<le> n \<and> n \<le> 222 \<and> n \<noteq> 215"

definition js_lower_char :: "char \<Rightarrow> char" where
  "js_lower_char c = (if upper_unit (of_char c) then char_of (of_char c + 32 :: nat) else c)"

definition js_lower :: "string \<Rightarrow> string" where
  "js_lower s = map js_lower_char s"

definition normalizeMemoryKey :: "string \<Rightarrow> string" where
  "normalizeMemoryKey key = js_lower (dot_spaces (js_trim key))"

definition normalizeMemoryValue :: "string \<Rightarrow> string" where
  "normalizeMemoryValue v = js_trim v"

section \<open>Memory items\<close>

fun insert_by :: "('a \<Rightarrow> 'a \<Rightarrow> bool) \<Rightarrow> 'a \<Rightarrow> 'a list \<Rightarrow> 'a list" where
  "insert_by le x [] = [x]"
| "insert_by le x (y # ys) = (if le x y then x # y # ys else y # insert_by le x ys)"

definition sort_by :: "('a \<Rightarrow> 'a \<Rightarrow> bool) \<Rightarrow> 'a list \<Rightarrow> 'a list" where
  "sort_by le xs = foldr (insert_by le) xs []"

definition upsertMemoryItems ::
  "(string \<Rightarrow> string \<Rightarrow> bool) \<Rightarrow> memory_item list \<Rightarrow> string \<Rightarrow> string \<Rightarrow> string \<Rightarrow> memory_item list" where
  "upsertMemoryItems le items key v time =
     (let k = normalizeMemoryKey key; w = normalizeMemoryValue v
      in if k = [] \<or> w = [] then items
         else sort_by (\<lambda>a b. le (mi_key a) (mi_key b))
           (filter (\<lambda>i. mi_key i \<noteq> k) items @ [\<lparr>mi_key = k, mi_value = w, mi_timestamp = time\<rparr>]))"

definition deleteMemoryItem :: "memory_item list \<Rightarrow> string \<Rightarrow> memory_item list" where
  "deleteMemoryItem items key = filter (\<lambda>i. mi_key i \<noteq> normalizeMemoryKey key) items"

definition getMemoryItem :: "memory_item list \<Rightarrow> string \<Rightarrow> memory_item option" where
  "getMemoryItem items key = List.find (\<lambda>i. mi_key i = normalizeMemoryKey key) items"

definition memoryItemsToText :: "memory_item list \<Rightarrow> string" where
  "memoryItemsToText items =
     (if items = [] then ''(none)''
      else join_with newline (map (\<lambda>i. ''- '' @ mi_key i @ '': '' @ mi_value i) items))"

definition SESSION_MEMORY_PREFIX :: string where
  "SESSION_MEMORY_PREFIX =
     ''Session memory recorded during this conversation. Treat it as active working context, but prefer newer user instructions if they conflict.''
     @ newline @ newline @ ''<memory>'' @ newline"

definition SESSION_MEMORY_SUFFIX :: string where
  "SESSION_MEMORY_SUFFIX = newline @ ''</memory>''"

definition createMemoryContextMessage :: "memory_item list \<Rightarrow> agent_message option" where
  "createMemoryContextMessage items =
     (if items = [] then None
      else Some (CustomMessage ''session_memory''
        (PlainText (SESSION_MEMORY_PREFIX @ memoryItemsToText items @ SESSION_MEMORY_SUFFIX))))"

definition parse_memory_item :: "string \<Rightarrow> json \<Rightarrow> memory_item list" where
  "parse_memory_item now v =
     (if \<not> is_object v then []
      else case (jget v ''key'', jget v ''value'') of
        (JStr k, JStr w) \<Rightarrow>
          [\<lparr>mi_key = normalizeMemoryKey k, mi_value = normalizeMemoryValue w,
            mi_timestamp = (case jget v ''timestamp'' of JStr t \<Rightarrow> t | _ \<Rightarrow> now)\<rparr>]
      | _ \<Rightarrow> [])"

definition parseMemoryItems :: "string \<Rightarrow> json \<Rightarrow> memory_item list" where
  "parseMemoryItems now data =
     (case data of
        JArr vs \<Rightarrow> filter (\<lambda>i. mi_key i \<noteq> [] \<and> mi_value i \<noteq> []) (concat (map (parse_memory_item now) vs))
      | _ \<Rightarrow> [])"

text \<open>The value that a list of items is when it is stored.\<close>

definition memory_value :: "memory_item list \<Rightarrow> json" where
  "memory_value items = JArr (map (\<lambda>i. JObj [(''key'', JStr (mi_key i)), (''value'', JStr (mi_value i)),
     (''timestamp'', JStr (mi_timestamp i))]) items)"

section \<open>Todo snapshots and tasks\<close>

datatype work_status = Work_pending | Work_in_progress | Work_completed

definition read_status :: "json \<Rightarrow> work_status option" where
  "read_status v =
     (if v = JStr ''pending'' then Some Work_pending
      else if v = JStr ''in_progress'' then Some Work_in_progress
      else if v = JStr ''completed'' then Some Work_completed else None)"

record todo_item =
  ti_id :: string
  ti_content :: string
  ti_activeForm :: string
  ti_status :: work_status

text \<open>\<open>fresh n\<close> is the id generated for the item at position \<open>n\<close> that has none.\<close>

definition parse_todo :: "(nat \<Rightarrow> string) \<Rightarrow> nat \<Rightarrow> json \<Rightarrow> todo_item list" where
  "parse_todo fresh n v =
     (if \<not> is_object v then []
      else case (jget v ''content'', jget v ''activeForm'', read_status (jget v ''status'')) of
        (JStr c, JStr a, Some s) \<Rightarrow>
          [\<lparr>ti_id = (case jget v ''id'' of JStr i \<Rightarrow> (if i \<noteq> [] then i else fresh n) | _ \<Rightarrow> fresh n),
            ti_content = c, ti_activeForm = a, ti_status = s\<rparr>]
      | _ \<Rightarrow> [])"

definition parseTodoSnapshot :: "(nat \<Rightarrow> string) \<Rightarrow> json \<Rightarrow> todo_item list" where
  "parseTodoSnapshot fresh data =
     (case data of JArr vs \<Rightarrow> concat (map (\<lambda>(n, v). parse_todo fresh n v) (enumerate 0 vs)) | _ \<Rightarrow> [])"

record task =
  tk_id :: string
  tk_subject :: string
  tk_description :: string
  tk_status :: work_status
  tk_activeForm :: "string option"
  tk_metadata :: "json option"

definition parse_task :: "json \<Rightarrow> task list" where
  "parse_task v =
     (if \<not> is_object v then []
      else case (jget v ''id'', jget v ''subject'', jget v ''description'', read_status (jget v ''status'')) of
        (JStr i, JStr sub, JStr d, Some s) \<Rightarrow>
          [\<lparr>tk_id = i, tk_subject = sub, tk_description = d, tk_status = s,
            tk_activeForm = (case jget v ''activeForm'' of JStr a \<Rightarrow> Some a | _ \<Rightarrow> None),
            tk_metadata = (if is_object (jget v ''metadata'') then Some (jget v ''metadata'') else None)\<rparr>]
      | _ \<Rightarrow> [])"

definition parseTasks :: "json \<Rightarrow> task list" where
  "parseTasks data = (case data of JArr vs \<Rightarrow> concat (map parse_task vs) | _ \<Rightarrow> [])"

section \<open>Snapshot selectors\<close>

record memory_snapshot =
  ms_entryId :: string
  ms_parentId :: "string option"
  ms_recordedAt :: string
  ms_items :: "memory_item list"
  ms_isCurrent :: bool

datatype selector_error = Selector_empty | Selector_not_found | Selector_ambiguous

record snapshot_resolution =
  sn_snapshot :: "memory_snapshot option"
  sn_matchedInput :: string
  sn_resolvedId :: "string option"
  sn_error :: "selector_error option"
  sn_candidates :: "string list"

text \<open>One pair of brackets around a non-empty text without a closing bracket is stripped.\<close>

definition strip_brackets :: "string \<Rightarrow> string" where
  "strip_brackets s =
     (if length s \<ge> 3 \<and> hd s = CHR ''['' \<and> last s = CHR '']'' \<and> CHR '']'' \<notin> set (butlast (tl s))
      then butlast (tl s) else s)"

definition normalizeSnapshotSelector :: "string \<Rightarrow> string" where
  "normalizeSnapshotSelector input =
     (let t = js_trim input in if t = ''[]'' then [] else js_trim (strip_brackets t))"

definition resolved :: "string \<Rightarrow> memory_snapshot \<Rightarrow> snapshot_resolution" where
  "resolved sel s = \<lparr>sn_snapshot = Some s, sn_matchedInput = sel, sn_resolvedId = Some (ms_entryId s),
     sn_error = None, sn_candidates = []\<rparr>"

definition unresolved :: "string \<Rightarrow> selector_error \<Rightarrow> string list \<Rightarrow> snapshot_resolution" where
  "unresolved sel e cs = \<lparr>sn_snapshot = None, sn_matchedInput = sel, sn_resolvedId = None,
     sn_error = Some e, sn_candidates = cs\<rparr>"

definition starts_with :: "string \<Rightarrow> string \<Rightarrow> bool" where
  "starts_with p s \<longleftrightarrow> take (length p) s = p"

definition resolveSnapshotSelector :: "string \<Rightarrow> memory_snapshot list \<Rightarrow> snapshot_resolution" where
  "resolveSnapshotSelector selector snaps =
     (let sel = normalizeSnapshotSelector selector in
      if sel = [] then unresolved sel Selector_empty []
      else case List.find (\<lambda>s. ms_entryId s = sel) snaps of
        Some s \<Rightarrow> resolved sel s
      | None \<Rightarrow>
          (case List.find (\<lambda>s. take 8 (ms_entryId s) = sel) snaps of
             Some s \<Rightarrow> resolved sel s
           | None \<Rightarrow>
               (case filter (\<lambda>s. starts_with sel (ms_entryId s)) snaps of
                  [] \<Rightarrow> unresolved sel Selector_not_found []
                | [s] \<Rightarrow> resolved sel s
                | ss \<Rightarrow> unresolved sel Selector_ambiguous (map ms_entryId ss))))"

section \<open>Normal forms\<close>

lemma trim_head: "js_trim s = c # cs \<Longrightarrow> \<not> js_ws c"
proof -
  assume a: "js_trim s = c # cs"
  let ?d = "dropWhile js_ws s"
  have "rev (dropWhile js_ws (rev ?d)) = c # cs" using a by (simp add: js_trim_def)
  then obtain ys where ys: "?d = c # cs @ ys"
    using dropWhile_eq_drop [of js_ws "rev ?d"]
    by (metis append_Cons rev_append rev_rev_ident takeWhile_dropWhile_id)
  then show ?thesis using hd_dropWhile [of js_ws s] by simp
qed

lemma trim_last: "js_trim s \<noteq> [] \<Longrightarrow> \<not> js_ws (last (js_trim s))"
  using hd_dropWhile [of js_ws "rev (dropWhile js_ws s)"] by (simp add: js_trim_def last_rev)

lemma trim_id:
  assumes "s = [] \<or> (\<not> js_ws (hd s) \<and> \<not> js_ws (last s))"
  shows "js_trim s = s"
proof (cases s)
  case (Cons c cs)
  then have d: "dropWhile js_ws s = s" using assms by simp
  have "rev s = last s # tl (rev s)" using Cons by (metis hd_Cons_tl hd_rev list.distinct(1) rev_is_Nil_conv)
  then have "dropWhile js_ws (rev s) = rev s" using assms Cons by (metis dropWhile.simps(2) list.distinct(1))
  then show ?thesis using d by (simp add: js_trim_def)
qed (simp add: js_trim_def)

lemma trim_trim [simp]: "js_trim (js_trim s) = js_trim s"
proof (rule trim_id)
  show "js_trim s = [] \<or> (\<not> js_ws (hd (js_trim s)) \<and> \<not> js_ws (last (js_trim s)))"
    using trim_head [of s] trim_last [of s] by (cases "js_trim s") auto
qed

lemma not_ws_dot: "\<not> js_ws CHR ''.''"
  by (simp add: js_ws_def)

lemma dot_spaces_clean: "c \<in> set (dot_spaces s) \<Longrightarrow> \<not> js_ws c"
proof (induction s rule: dot_spaces.induct)
  case (2 d cs)
  then show ?case by (cases "js_ws d") (auto simp: not_ws_dot)
qed simp

lemma dot_spaces_id: "\<forall>c \<in> set s. \<not> js_ws c \<Longrightarrow> dot_spaces s = s"
  by (induction s) auto

lemma of_lower_char: "(of_char (js_lower_char c) :: nat) = (if upper_unit (of_char c) then of_char c + 32 else of_char c)"
  by (simp add: js_lower_char_def upper_unit_def)

lemma js_lower_ws: "js_ws (js_lower_char c) \<longleftrightarrow> js_ws c"
  unfolding js_ws_def of_lower_char by (simp add: upper_unit_def)

lemma js_lower_char_idem: "js_lower_char (js_lower_char c) = js_lower_char c"
proof -
  have "\<not> upper_unit (of_char (js_lower_char c))"
    unfolding of_lower_char upper_unit_def by simp
  then show ?thesis by (simp add: js_lower_char_def [of "js_lower_char c"])
qed

lemma trim_clean: "\<forall>c \<in> set s. \<not> js_ws c \<Longrightarrow> js_trim s = s"
  by (rule trim_id) (cases s; auto)

lemma normalizeMemoryKey_idem: "normalizeMemoryKey (normalizeMemoryKey k) = normalizeMemoryKey k"
proof -
  have clean: "\<forall>c \<in> set (normalizeMemoryKey k). \<not> js_ws c"
    using dot_spaces_clean by (auto simp: normalizeMemoryKey_def js_lower_def js_lower_ws)
  have "js_lower (normalizeMemoryKey k) = normalizeMemoryKey k"
    by (simp add: normalizeMemoryKey_def js_lower_def js_lower_char_idem)
  then show ?thesis
    using trim_clean [OF clean] dot_spaces_id [OF clean]
    by (simp add: normalizeMemoryKey_def [of "normalizeMemoryKey k"])
qed

text \<open>A normal item survives storing and parsing.\<close>

definition memory_ok :: "memory_item list \<Rightarrow> bool" where
  "memory_ok items \<longleftrightarrow> distinct (map mi_key items) \<and>
     (\<forall>i \<in> set items. normalizeMemoryKey (mi_key i) = mi_key i \<and> normalizeMemoryValue (mi_value i) = mi_value i
        \<and> mi_key i \<noteq> [] \<and> mi_value i \<noteq> [])"

lemma parse_memory_value:
  assumes "memory_ok items"
  shows "parseMemoryItems now (memory_value items) = items"
proof -
  have "parse_memory_item now (JObj [(''key'', JStr (mi_key i)), (''value'', JStr (mi_value i)),
      (''timestamp'', JStr (mi_timestamp i))]) = [i]" if "i \<in> set items" for i
    using assms that by (simp add: memory_ok_def parse_memory_item_def)
  then have "concat (map (\<lambda>i. parse_memory_item now (JObj [(''key'', JStr (mi_key i)), (''value'', JStr (mi_value i)),
      (''timestamp'', JStr (mi_timestamp i))])) items) = items"
    by (induction items) simp_all
  then show ?thesis
    using assms by (simp add: parseMemoryItems_def memory_value_def comp_def memory_ok_def filter_id_conv)
qed

lemma set_insert_by [simp]: "set (insert_by le x xs) = insert x (set xs)"
  by (induction xs) auto

lemma mset_insert_by: "mset (insert_by le x xs) = add_mset x (mset xs)"
  by (induction xs) auto

lemma mset_sort_by [simp]: "mset (sort_by le xs) = mset xs"
  by (induction xs) (simp_all add: sort_by_def mset_insert_by)

lemma set_sort_by [simp]: "set (sort_by le xs) = set xs"
  using mset_sort_by by (metis set_mset_mset)

lemma parse_memory_item_cases:
  "i \<in> set (parse_memory_item now v) \<Longrightarrow>
     \<exists>k w. mi_key i = normalizeMemoryKey k \<and> mi_value i = normalizeMemoryValue w"
  by (cases "jget v ''key''"; cases "jget v ''value''") (auto simp: parse_memory_item_def split: if_splits)

lemma parse_memory_normal:
  assumes "i \<in> set (parseMemoryItems now data)"
  shows "normalizeMemoryKey (mi_key i) = mi_key i \<and> normalizeMemoryValue (mi_value i) = mi_value i
    \<and> mi_key i \<noteq> [] \<and> mi_value i \<noteq> []"
proof -
  obtain v where v: "i \<in> set (parse_memory_item now v)" "mi_key i \<noteq> []" "mi_value i \<noteq> []"
    using assms by (cases data) (auto simp: parseMemoryItems_def)
  show ?thesis using parse_memory_item_cases [OF v(1)] v(2,3)
    by (auto simp: normalizeMemoryKey_idem normalizeMemoryValue_def)
qed

lemma upsert_ok:
  assumes "memory_ok items"
  shows "memory_ok (upsertMemoryItems le items key v time)"
proof -
  let ?k = "normalizeMemoryKey key"
  let ?i = "\<lparr>mi_key = ?k, mi_value = normalizeMemoryValue v, mi_timestamp = time\<rparr>"
  let ?l = "filter (\<lambda>i. mi_key i \<noteq> ?k) items @ [?i]"
  let ?s = "sort_by (\<lambda>a b. le (mi_key a) (mi_key b)) ?l"
  have "distinct (map mi_key ?l)" using assms by (auto simp: memory_ok_def distinct_map_filter)
  then have "distinct (map mi_key ?s)"
    by (metis mset_map mset_sort_by mset_eq_imp_distinct_iff)
  moreover have "\<forall>i \<in> set ?l. normalizeMemoryKey (mi_key i) = mi_key i \<and> normalizeMemoryValue (mi_value i) = mi_value i"
    using assms by (auto simp: memory_ok_def normalizeMemoryKey_idem normalizeMemoryValue_def)
  ultimately show ?thesis using assms by (auto simp: upsertMemoryItems_def Let_def memory_ok_def)
qed

end
