(* ===== verification/Session_Model.thy ===== *)
theory Session_Model
  imports Session_Memory
begin

text \<open>
  The session manager, \<open>core/session-manager.ts\<close>: an append-only tree of entries with a leaf pointer,
  stored line by line in a file.  The disk is a map from paths to files; a file is a list of lines.
  A line is given by the value \<open>JSON.parse\<close> reads from it; what \<open>JSON.stringify\<close> writes for an entry is read back
  as \<open>stored_line\<close> says.  A line that does not parse is \<open>Malformed\<close>.  Ids and times that the code draws are arguments; the integrity digest of an entry is
  left out.
\<close>

section \<open>Entries\<close>

record compaction =
  co_summary :: string
  co_firstKeptEntryId :: string
  co_firstKeptEntryIndex :: "nat option"
  co_tokensBefore :: int
  co_details :: "json option"
  co_fromHook :: "bool option"

text \<open>A message entry of version 2 may still carry the role \<open>hookMessage\<close>, which version 3 calls
  \<open>custom\<close>.\<close>

datatype entry_body =
    MessageEntry agent_message
  | HookMessageEntry string user_content
  | ThinkingLevelChange string
  | ModelChange string string
  | Compaction compaction
  | BranchSummaryEntry string string "json option" "bool option"
  | CustomEntry string "json option"
  | CustomMessageEntry string user_content "json option" bool
  | LabelEntry string "string option"
  | SessionInfo "string option"

record session_entry =
  se_id :: string
  se_parentId :: "string option"
  se_timestamp :: string
  se_body :: entry_body

record session_header =
  sh_version :: "int option"
  sh_id :: string
  sh_timestamp :: string
  sh_cwd :: "string option"
  sh_parentSession :: "string option"

datatype file_entry = Header session_header | Entry session_entry

datatype file_line = Line file_entry | Malformed | BlankLine

type_synonym disk = "string \<rightharpoonup> file_line list"

section \<open>What the file keeps of an entry\<close>

text \<open>The value that \<open>JSON.parse\<close> reads from what \<open>JSON.stringify\<close> writes: a member that is undefined is not
  written, an undefined item of an array and a number that is not finite are written as \<open>null\<close>.  An undefined value
  is one that is not written at all.\<close>

fun stored_value :: "json \<Rightarrow> json"
  and stored_items :: "json list \<Rightarrow> json list"
  and stored_members :: "(string \<times> json) list \<Rightarrow> (string \<times> json) list" where
  "stored_value JUndefined = JUndefined"
| "stored_value JNull = JNull"
| "stored_value (JBool b) = JBool b"
| "stored_value (JNum n) = (if n = NonFinite then JNull else JNum n)"
| "stored_value (JStr s) = JStr s"
| "stored_value (JArr xs) = JArr (stored_items xs)"
| "stored_value (JObj ms) = JObj (stored_members ms)"
| "stored_items [] = []"
| "stored_items (x # xs) = (if x = JUndefined then JNull else stored_value x) # stored_items xs"
| "stored_members [] = []"
| "stored_members ((k, v) # ms) = (if v = JUndefined then stored_members ms else (k, stored_value v) # stored_members ms)"

definition stored_option :: "json option \<Rightarrow> json option" where
  "stored_option v = (case v of None \<Rightarrow> None | Some x \<Rightarrow> if x = JUndefined then None else Some (stored_value x))"

fun stored_block :: "block \<Rightarrow> block" where
  "stored_block (ToolCallBlock c) = ToolCallBlock (c\<lparr>cb_arguments := stored_value (cb_arguments c)\<rparr>)"
| "stored_block b = b"

fun stored_content :: "user_content \<Rightarrow> user_content" where
  "stored_content (PlainText t) = PlainText t"
| "stored_content (Blocks bs) = Blocks (map stored_block bs)"

fun stored_message :: "agent_message \<Rightarrow> agent_message" where
  "stored_message (UserMessage c) = UserMessage (stored_content c)"
| "stored_message (AssistantMessage a) = AssistantMessage (a\<lparr>am_content := map stored_block (am_content a)\<rparr>)"
| "stored_message (ToolResult r) =
     ToolResult (r\<lparr>tm_content := map_option (map stored_block) (tm_content r), tm_details := stored_option (tm_details r)\<rparr>)"
| "stored_message (CustomMessage ty c) = CustomMessage ty (stored_content c)"
| "stored_message m = m"

fun stored_body :: "entry_body \<Rightarrow> entry_body" where
  "stored_body (MessageEntry m) = MessageEntry (stored_message m)"
| "stored_body (HookMessageEntry ty c) = HookMessageEntry ty (stored_content c)"
| "stored_body (Compaction c) = Compaction (c\<lparr>co_details := stored_option (co_details c)\<rparr>)"
| "stored_body (BranchSummaryEntry i s details hook) = BranchSummaryEntry i s (stored_option details) hook"
| "stored_body (CustomEntry ty v) = CustomEntry ty (stored_option v)"
| "stored_body (CustomMessageEntry ty c details display) =
     CustomMessageEntry ty (stored_content c) (stored_option details) display"
| "stored_body b = b"

definition stored_entry :: "session_entry \<Rightarrow> session_entry" where
  "stored_entry e = e\<lparr>se_body := stored_body (se_body e)\<rparr>"

fun stored_line :: "file_entry \<Rightarrow> file_entry" where
  "stored_line (Header h) = Header h"
| "stored_line (Entry e) = Entry (stored_entry e)"

definition write_line :: "file_entry \<Rightarrow> file_line" where
  "write_line e = Line (stored_line e)"

definition CURRENT_SESSION_VERSION :: int where
  "CURRENT_SESSION_VERSION = 3"

text \<open>What the code draws from the machine: UUIDs in order, and the time of the clock.\<close>

record draws =
  dw_uuid :: "nat \<Rightarrow> string"
  dw_time :: string

definition generateId :: "(string \<Rightarrow> bool) \<Rightarrow> (nat \<Rightarrow> string) \<Rightarrow> string" where
  "generateId taken uuid =
     (case List.find (\<lambda>i. \<not> taken (take 8 (uuid i))) [0..<100] of
        Some i \<Rightarrow> take 8 (uuid i)
      | None \<Rightarrow> uuid 100)"

fun session_entries :: "file_entry list \<Rightarrow> session_entry list" where
  "session_entries [] = []"
| "session_entries (Header h # fs) = session_entries fs"
| "session_entries (Entry e # fs) = e # session_entries fs"

fun find_header :: "file_entry list \<Rightarrow> session_header option" where
  "find_header [] = None"
| "find_header (Header h # fs) = Some h"
| "find_header (Entry e # fs) = find_header fs"

section \<open>Migrations\<close>

text \<open>\<open>generateId(ids)\<close> is called with a set that is never filled, so each call takes the first UUID
  it draws; \<open>prev\<close> is the id given last, \<open>i\<close> the position of the entry.  An index refers to the list
  as it is at that moment.\<close>

definition migrate_compaction :: "file_entry list \<Rightarrow> compaction \<Rightarrow> compaction" where
  "migrate_compaction fs c =
     (case co_firstKeptEntryIndex c of
        None \<Rightarrow> c
      | Some k \<Rightarrow>
          (let c2 = (if k < length fs then (case fs ! k of Entry e \<Rightarrow> c\<lparr>co_firstKeptEntryId := se_id e\<rparr> | Header h \<Rightarrow> c) else c)
           in c2\<lparr>co_firstKeptEntryIndex := None\<rparr>))"

fun migrate_v1 :: "(nat \<Rightarrow> string) \<Rightarrow> nat \<Rightarrow> string option \<Rightarrow> file_entry list \<Rightarrow> file_entry list \<Rightarrow> file_entry list" where
  "migrate_v1 uuid n prev pre [] = pre"
| "migrate_v1 uuid n prev pre (Header h # fs) = migrate_v1 uuid n prev (pre @ [Header (h\<lparr>sh_version := Some 2\<rparr>)]) fs"
| "migrate_v1 uuid n prev pre (Entry e # fs) =
     (let i = generateId (\<lambda>_. False) (\<lambda>k. uuid (n + k));
          e1 = e\<lparr>se_id := i, se_parentId := prev\<rparr>;
          e2 = (case se_body e of
                  Compaction c \<Rightarrow> e1\<lparr>se_body := Compaction (migrate_compaction (pre @ Entry e1 # fs) c)\<rparr>
                | _ \<Rightarrow> e1)
      in migrate_v1 uuid (Suc n) (Some i) (pre @ [Entry e2]) fs)"

definition migrateV1ToV2 :: "(nat \<Rightarrow> string) \<Rightarrow> file_entry list \<Rightarrow> file_entry list" where
  "migrateV1ToV2 uuid fs = migrate_v1 uuid 0 None [] fs"

fun migrate_v2_entry :: "file_entry \<Rightarrow> file_entry" where
  "migrate_v2_entry (Header h) = Header (h\<lparr>sh_version := Some 3\<rparr>)"
| "migrate_v2_entry (Entry e) =
     (case se_body e of
        HookMessageEntry ty c \<Rightarrow> Entry (e\<lparr>se_body := MessageEntry (CustomMessage ty c)\<rparr>)
      | _ \<Rightarrow> Entry e)"

definition migrateV2ToV3 :: "file_entry list \<Rightarrow> file_entry list" where
  "migrateV2ToV3 fs = map migrate_v2_entry fs"

definition file_version :: "file_entry list \<Rightarrow> int" where
  "file_version fs = (case find_header fs of None \<Rightarrow> 1 | Some h \<Rightarrow> (case sh_version h of None \<Rightarrow> 1 | Some v \<Rightarrow> v))"

text \<open>\<open>None\<close> when no migration was applied.\<close>

definition migrateToCurrentVersion :: "(nat \<Rightarrow> string) \<Rightarrow> file_entry list \<Rightarrow> file_entry list option" where
  "migrateToCurrentVersion uuid fs =
     (let v = file_version fs in
      if v \<ge> CURRENT_SESSION_VERSION then None
      else let fs2 = (if v < 2 then migrateV1ToV2 uuid fs else fs)
           in Some (if v < 3 then migrateV2ToV3 fs2 else fs2))"

section \<open>Files\<close>

fun parseSessionEntries :: "file_line list \<Rightarrow> file_entry list" where
  "parseSessionEntries [] = []"
| "parseSessionEntries (Line e # ls) = e # parseSessionEntries ls"
| "parseSessionEntries (l # ls) = parseSessionEntries ls"

definition loadEntriesFromFile :: "disk \<Rightarrow> string \<Rightarrow> file_entry list" where
  "loadEntriesFromFile d path =
     (case d path of
        None \<Rightarrow> []
      | Some ls \<Rightarrow>
          if Malformed \<in> set ls then []
          else (case parseSessionEntries ls of
                  Header h # fs \<Rightarrow> Header h # fs
                | _ \<Rightarrow> []))"

text \<open>The reason a file is not valid, \<open>None\<close> when it is.\<close>

fun validate_lines :: "bool \<Rightarrow> nat \<Rightarrow> file_line list \<Rightarrow> string option" where
  "validate_lines first n [] = None"
| "validate_lines first n (BlankLine # ls) = validate_lines first (Suc n) ls"
| "validate_lines first n (Malformed # ls) = Some (''malformed JSON on line '' @ nat_text (Suc n))"
| "validate_lines first n (Line e # ls) =
     (if first then (case e of Header h \<Rightarrow> validate_lines False (Suc n) ls | Entry x \<Rightarrow> Some ''invalid session header'')
      else validate_lines False (Suc n) ls)"

definition validateSessionFile :: "disk \<Rightarrow> string \<Rightarrow> string option" where
  "validateSessionFile d path =
     (case d path of
        None \<Rightarrow> Some ''session file does not exist''
      | Some ls \<Rightarrow> if set ls \<subseteq> {BlankLine} then Some ''session file is empty''
                   else validate_lines True 0 (dropWhile (\<lambda>l. l = BlankLine) ls))"

section \<open>The manager\<close>

record session_manager =
  sm_sessionId :: string
  sm_sessionFile :: "string option"
  sm_sessionDir :: string
  sm_cwd :: string
  sm_persist :: bool
  sm_flushed :: bool
  sm_fileEntries :: "file_entry list"
  sm_byId :: "(string \<times> session_entry) list"
  sm_labelsById :: "(string \<times> string) list"
  sm_leafId :: "string option"

definition assoc_delete :: "'k \<Rightarrow> ('k \<times> 'v) list \<Rightarrow> ('k \<times> 'v) list" where
  "assoc_delete k m = filter (\<lambda>p. fst p \<noteq> k) m"

definition set_label :: "string \<Rightarrow> string option \<Rightarrow> (string \<times> string) list \<Rightarrow> (string \<times> string) list" where
  "set_label target l m = (if js_falsy l then assoc_delete target m else assoc_set target (the l) m)"

definition label_step :: "session_entry \<Rightarrow> (string \<times> string) list \<Rightarrow> (string \<times> string) list" where
  "label_step e m = (case se_body e of LabelEntry t l \<Rightarrow> set_label t l m | _ \<Rightarrow> m)"

definition index_step :: "session_entry \<Rightarrow> session_manager \<Rightarrow> session_manager" where
  "index_step e m = m\<lparr>sm_byId := assoc_set (se_id e) e (sm_byId m), sm_leafId := Some (se_id e),
     sm_labelsById := label_step e (sm_labelsById m)\<rparr>"

definition buildIndex :: "session_manager \<Rightarrow> session_manager" where
  "buildIndex m = fold index_step (session_entries (sm_fileEntries m))
     (m\<lparr>sm_byId := [], sm_labelsById := [], sm_leafId := None\<rparr>)"

definition session_path :: "string \<Rightarrow> string \<Rightarrow> string \<Rightarrow> string" where
  "session_path dir time i = dir @ ''/'' @ map (\<lambda>c. if c = CHR '':'' \<or> c = CHR ''.'' then CHR ''-'' else c) time @ ''_'' @ i @ ''.jsonl''"

definition new_header :: "string \<Rightarrow> draws \<Rightarrow> string \<Rightarrow> string option \<Rightarrow> session_header" where
  "new_header i dw cwd parent =
     \<lparr>sh_version = Some CURRENT_SESSION_VERSION, sh_id = i, sh_timestamp = dw_time dw, sh_cwd = Some cwd,
      sh_parentSession = parent\<rparr>"

definition newSession :: "string option \<Rightarrow> string option \<Rightarrow> draws \<Rightarrow> session_manager \<Rightarrow> session_manager" where
  "newSession i parent dw m =
     (let sid = (case i of None \<Rightarrow> dw_uuid dw 0 | Some x \<Rightarrow> x)
      in m\<lparr>sm_sessionId := sid, sm_fileEntries := [Header (new_header sid dw (sm_cwd m) parent)], sm_byId := [],
           sm_labelsById := [], sm_leafId := None, sm_flushed := False,
           sm_sessionFile := (if sm_persist m then Some (session_path (sm_sessionDir m) (dw_time dw) sid)
             else sm_sessionFile m)\<rparr>)"

definition rewriteFile :: "session_manager \<Rightarrow> disk \<Rightarrow> disk" where
  "rewriteFile m d =
     (case sm_sessionFile m of
        Some f \<Rightarrow> if sm_persist m then d(f \<mapsto> map write_line (sm_fileEntries m)) else d
      | None \<Rightarrow> d)"

definition append_lines :: "string \<Rightarrow> file_entry list \<Rightarrow> disk \<Rightarrow> disk" where
  "append_lines f es d = d(f \<mapsto> (case d f of None \<Rightarrow> [] | Some ls \<Rightarrow> ls) @ map write_line es)"

text \<open>The constructor calls it with a path for an existing file, otherwise \<open>newSession\<close>.\<close>

definition setSessionFile :: "string \<Rightarrow> draws \<Rightarrow> session_manager \<times> disk \<Rightarrow> session_manager \<times> disk" where
  "setSessionFile path dw md =
     (case md of (m, d) \<Rightarrow>
        if d path = None
        then ((newSession None None dw (m\<lparr>sm_sessionFile := Some path\<rparr>))\<lparr>sm_sessionFile := Some path\<rparr>, d)
        else
          let fs = loadEntriesFromFile d path in
          if fs = []
          then let m1 = (newSession None None dw (m\<lparr>sm_sessionFile := Some path, sm_fileEntries := []\<rparr>))\<lparr>sm_sessionFile := Some path\<rparr>
               in (m1\<lparr>sm_flushed := True\<rparr>, rewriteFile m1 d)
          else
            let m1 = m\<lparr>sm_sessionFile := Some path, sm_fileEntries := fs,
                  sm_sessionId := (case find_header fs of None \<Rightarrow> dw_uuid dw 0 | Some h \<Rightarrow> sh_id h)\<rparr>
            in (case migrateToCurrentVersion (dw_uuid dw) fs of
                  None \<Rightarrow> ((buildIndex m1)\<lparr>sm_flushed := True\<rparr>, d)
                | Some fs2 \<Rightarrow> (let m2 = m1\<lparr>sm_fileEntries := fs2\<rparr>
                             in ((buildIndex m2)\<lparr>sm_flushed := True\<rparr>, rewriteFile m2 d))))"

definition open_manager :: "string \<Rightarrow> string \<Rightarrow> string option \<Rightarrow> bool \<Rightarrow> draws \<Rightarrow> disk \<Rightarrow> session_manager \<times> disk" where
  "open_manager cwd dir file persist dw d =
     (let m = \<lparr>sm_sessionId = [], sm_sessionFile = None, sm_sessionDir = dir, sm_cwd = cwd, sm_persist = persist,
        sm_flushed = False, sm_fileEntries = [], sm_byId = [], sm_labelsById = [], sm_leafId = None\<rparr>
      in if js_falsy file then (newSession None None dw m, d) else setSessionFile (the file) dw (m, d))"

section \<open>Appending\<close>

definition is_assistant_entry :: "session_entry \<Rightarrow> bool" where
  "is_assistant_entry e = (case se_body e of MessageEntry m \<Rightarrow> is_assistant m | _ \<Rightarrow> False)"

definition persist_entry :: "session_entry \<Rightarrow> session_manager \<times> disk \<Rightarrow> session_manager \<times> disk" where
  "persist_entry e md =
     (case md of (m, d) \<Rightarrow>
        case (if sm_persist m then sm_sessionFile m else None) of
          None \<Rightarrow> (m, d)
        | Some f \<Rightarrow>
            if \<not> list_ex is_assistant_entry (session_entries (sm_fileEntries m)) then (m\<lparr>sm_flushed := False\<rparr>, d)
            else if \<not> sm_flushed m then (m\<lparr>sm_flushed := True\<rparr>, append_lines f (sm_fileEntries m) d)
            else (m, append_lines f [Entry e] d))"

definition appendEntry_raw :: "session_entry \<Rightarrow> session_manager \<times> disk \<Rightarrow> session_manager \<times> disk" where
  "appendEntry_raw e md =
     (case md of (m, d) \<Rightarrow>
        persist_entry e
          (m\<lparr>sm_fileEntries := sm_fileEntries m @ [Entry e], sm_byId := assoc_set (se_id e) e (sm_byId m),
             sm_leafId := Some (se_id e)\<rparr>, d))"

definition get_entry :: "session_manager \<Rightarrow> string \<Rightarrow> session_entry option" where
  "get_entry m i = map_of (sm_byId m) i"

definition fresh_entry :: "entry_body \<Rightarrow> draws \<Rightarrow> session_manager \<Rightarrow> session_entry" where
  "fresh_entry b dw m =
     \<lparr>se_id = generateId (\<lambda>i. get_entry m i \<noteq> None) (dw_uuid dw), se_parentId = sm_leafId m,
      se_timestamp = dw_time dw, se_body = b\<rparr>"

definition append_body :: "entry_body \<Rightarrow> draws \<Rightarrow> session_manager \<times> disk \<Rightarrow> session_manager \<times> disk" where
  "append_body b dw md = appendEntry_raw (fresh_entry b dw (fst md)) md"

definition appendSessionMessage :: "agent_message \<Rightarrow> draws \<Rightarrow> session_manager \<times> disk \<Rightarrow> session_manager \<times> disk" where
  "appendSessionMessage msg = append_body (MessageEntry msg)"

definition appendThinkingLevelChange :: "string \<Rightarrow> draws \<Rightarrow> session_manager \<times> disk \<Rightarrow> session_manager \<times> disk" where
  "appendThinkingLevelChange l = append_body (ThinkingLevelChange l)"

definition appendModelChange :: "string \<Rightarrow> string \<Rightarrow> draws \<Rightarrow> session_manager \<times> disk \<Rightarrow> session_manager \<times> disk" where
  "appendModelChange p i = append_body (ModelChange p i)"

definition appendCompaction ::
  "string \<Rightarrow> string \<Rightarrow> int \<Rightarrow> json option \<Rightarrow> bool option \<Rightarrow> draws \<Rightarrow> session_manager \<times> disk \<Rightarrow> session_manager \<times> disk" where
  "appendCompaction summary firstKept tokens details hook = append_body
     (Compaction \<lparr>co_summary = summary, co_firstKeptEntryId = firstKept, co_firstKeptEntryIndex = None,
        co_tokensBefore = tokens, co_details = details, co_fromHook = hook\<rparr>)"

definition appendCustomEntry :: "string \<Rightarrow> json option \<Rightarrow> draws \<Rightarrow> session_manager \<times> disk \<Rightarrow> session_manager \<times> disk" where
  "appendCustomEntry ty data = append_body (CustomEntry ty data)"

definition appendSessionMemory :: "memory_item list \<Rightarrow> draws \<Rightarrow> session_manager \<times> disk \<Rightarrow> session_manager \<times> disk" where
  "appendSessionMemory items = appendCustomEntry ''session_memory'' (Some (memory_value items))"

definition appendSessionInfo :: "string \<Rightarrow> draws \<Rightarrow> session_manager \<times> disk \<Rightarrow> session_manager \<times> disk" where
  "appendSessionInfo name = append_body (SessionInfo (Some (js_trim name)))"

definition appendCustomMessageEntry ::
  "string \<Rightarrow> user_content \<Rightarrow> bool \<Rightarrow> json option \<Rightarrow> draws \<Rightarrow> session_manager \<times> disk \<Rightarrow> session_manager \<times> disk" where
  "appendCustomMessageEntry ty content display details = append_body (CustomMessageEntry ty content details display)"

definition not_found :: "string \<Rightarrow> string" where
  "not_found i = ''Entry '' @ i @ '' not found''"

definition appendLabelChange ::
  "string \<Rightarrow> string option \<Rightarrow> draws \<Rightarrow> session_manager \<times> disk \<Rightarrow> string + session_manager \<times> disk" where
  "appendLabelChange target l dw md =
     (if get_entry (fst md) target = None then Inl (not_found target)
      else case append_body (LabelEntry target l) dw md of
        (m, d) \<Rightarrow> Inr (m\<lparr>sm_labelsById := set_label target l (sm_labelsById m)\<rparr>, d))"

section \<open>Moving the leaf\<close>

definition branch :: "string \<Rightarrow> session_manager \<Rightarrow> string + session_manager" where
  "branch i m = (if get_entry m i = None then Inl (not_found i) else Inr (m\<lparr>sm_leafId := Some i\<rparr>))"

definition resetLeaf :: "session_manager \<Rightarrow> session_manager" where
  "resetLeaf m = m\<lparr>sm_leafId := None\<rparr>"

definition branchWithSummary ::
  "string option \<Rightarrow> string \<Rightarrow> json option \<Rightarrow> bool option \<Rightarrow> draws \<Rightarrow> session_manager \<times> disk \<Rightarrow> string + session_manager \<times> disk" where
  "branchWithSummary from summary details hook dw md =
     (case md of (m, d) \<Rightarrow>
        if (case from of None \<Rightarrow> False | Some i \<Rightarrow> get_entry m i = None) then Inl (not_found (the from))
        else Inr (append_body (BranchSummaryEntry (case from of None \<Rightarrow> ''root'' | Some i \<Rightarrow> i) summary details hook) dw
               (m\<lparr>sm_leafId := from\<rparr>, d)))"

section \<open>Walking the tree\<close>

text \<open>The parent of an entry; an empty id counts as none.\<close>

definition parent_of :: "(string \<times> session_entry) list \<Rightarrow> session_entry \<Rightarrow> session_entry option" where
  "parent_of byId e = (if js_falsy (se_parentId e) then None else map_of byId (the (se_parentId e)))"

text \<open>The path from the root to an entry.  The loop of the source does not end when the parents form a
  cycle; then the walk is \<open>None\<close> for every fuel.\<close>

fun walk :: "nat \<Rightarrow> (string \<times> session_entry) list \<Rightarrow> session_entry \<Rightarrow> session_entry list \<Rightarrow> session_entry list option" where
  "walk 0 byId e acc = None"
| "walk (Suc n) byId e acc =
     (case parent_of byId e of
        None \<Rightarrow> Some (e # acc)
      | Some p \<Rightarrow> walk n byId p (e # acc))"

definition path_to :: "(string \<times> session_entry) list \<Rightarrow> session_entry option \<Rightarrow> session_entry list option" where
  "path_to byId start = (case start of None \<Rightarrow> Some [] | Some e \<Rightarrow> walk (Suc (length byId)) byId e [])"

definition getLeafEntry :: "session_manager \<Rightarrow> session_entry option" where
  "getLeafEntry m = (if js_falsy (sm_leafId m) then None else get_entry m (the (sm_leafId m)))"

definition getBranch :: "string option \<Rightarrow> session_manager \<Rightarrow> session_entry list option" where
  "getBranch from m =
     (let start = (case from of None \<Rightarrow> sm_leafId m | Some i \<Rightarrow> Some i)
      in path_to (sm_byId m) (if js_falsy start then None else get_entry m (the start)))"

definition getEntries :: "session_manager \<Rightarrow> session_entry list" where
  "getEntries m = session_entries (sm_fileEntries m)"

definition getChildren :: "string \<Rightarrow> session_manager \<Rightarrow> session_entry list" where
  "getChildren i m = filter (\<lambda>e. se_parentId e = Some i) (map snd (sm_byId m))"

definition getLabel :: "string \<Rightarrow> session_manager \<Rightarrow> string option" where
  "getLabel i m = map_of (sm_labelsById m) i"

definition getSessionName :: "session_manager \<Rightarrow> string option" where
  "getSessionName m =
     (case List.find (\<lambda>e. case se_body e of SessionInfo n \<Rightarrow> True | _ \<Rightarrow> False) (rev (getEntries m)) of
        Some e \<Rightarrow> (case se_body e of
            SessionInfo (Some n) \<Rightarrow> if js_trim n = [] then None else Some (js_trim n)
          | _ \<Rightarrow> None)
      | None \<Rightarrow> None)"

definition custom_data :: "string \<Rightarrow> session_entry \<Rightarrow> json option" where
  "custom_data ty e = (case se_body e of
     CustomEntry t v \<Rightarrow> if t = ty then Some (case v of None \<Rightarrow> JUndefined | Some x \<Rightarrow> x) else None | _ \<Rightarrow> None)"

text \<open>The data of the last custom entry of a type on the branch; the outer option is the walk.\<close>

definition latest_custom :: "string \<Rightarrow> session_manager \<Rightarrow> json option option" where
  "latest_custom ty m =
     map_option (\<lambda>es. case List.find (\<lambda>e. custom_data ty e \<noteq> None) (rev es) of
        None \<Rightarrow> None | Some e \<Rightarrow> custom_data ty e) (getBranch None m)"

definition getLatestSessionMemory :: "string \<Rightarrow> session_manager \<Rightarrow> memory_item list option" where
  "getLatestSessionMemory now m =
     map_option (\<lambda>v. case v of None \<Rightarrow> [] | Some x \<Rightarrow> parseMemoryItems now x) (latest_custom ''session_memory'' m)"

definition getLatestSessionTodos :: "(nat \<Rightarrow> string) \<Rightarrow> session_manager \<Rightarrow> todo_item list option" where
  "getLatestSessionTodos fresh m =
     map_option (\<lambda>v. case v of None \<Rightarrow> [] | Some x \<Rightarrow> parseTodoSnapshot fresh x) (latest_custom ''session_todos'' m)"

definition getLatestSessionTasks :: "session_manager \<Rightarrow> task list option" where
  "getLatestSessionTasks m =
     map_option (\<lambda>v. case v of None \<Rightarrow> [] | Some x \<Rightarrow> parseTasks x) (latest_custom ''session_tasks'' m)"

definition getLatestTodoEngineState :: "session_manager \<Rightarrow> json option option" where
  "getLatestTodoEngineState m = latest_custom ''session_todo_engine'' m"

definition memory_snapshot_of :: "string \<Rightarrow> nat \<Rightarrow> nat \<times> session_entry \<Rightarrow> memory_snapshot" where
  "memory_snapshot_of now n p = (case p of (i, e) \<Rightarrow>
     \<lparr>ms_entryId = se_id e, ms_parentId = se_parentId e, ms_recordedAt = se_timestamp e,
      ms_items = parseMemoryItems now (the (custom_data ''session_memory'' e)), ms_isCurrent = (Suc i = n)\<rparr>)"

definition getMemoryHistory :: "string \<Rightarrow> session_manager \<Rightarrow> memory_snapshot list option" where
  "getMemoryHistory now m =
     map_option (\<lambda>es. let ss = filter (\<lambda>e. custom_data ''session_memory'' e \<noteq> None) es
       in map (memory_snapshot_of now (length ss)) (enumerate 0 ss)) (getBranch None m)"

section \<open>Extracting a branch\<close>

definition is_label :: "session_entry \<Rightarrow> bool" where
  "is_label e = (case se_body e of LabelEntry t l \<Rightarrow> True | _ \<Rightarrow> False)"

fun recreate_labels :: "(nat \<Rightarrow> draws) \<Rightarrow> string list \<Rightarrow> string option \<Rightarrow> nat \<Rightarrow> (string \<times> string) list \<Rightarrow> session_entry list" where
  "recreate_labels dws ids parent n [] = []"
| "recreate_labels dws ids parent n ((target, l) # ls) =
     (let i = generateId (\<lambda>x. x \<in> set ids) (dw_uuid (dws n))
      in \<lparr>se_id = i, se_parentId = parent, se_timestamp = dw_time (dws n), se_body = LabelEntry target (Some l)\<rparr>
         # recreate_labels dws (i # ids) (Some i) (Suc n) ls)"

definition last_id :: "session_entry list \<Rightarrow> string option" where
  "last_id es = (if es = [] then None else if se_id (last es) = [] then None else Some (se_id (last es)))"

definition branched_entries :: "(nat \<Rightarrow> draws) \<Rightarrow> session_manager \<Rightarrow> session_entry list \<Rightarrow> session_entry list" where
  "branched_entries dws m path =
     (let kept = filter (\<lambda>e. \<not> is_label e) path;
          labels = filter (\<lambda>p. fst p \<in> se_id ` set kept) (sm_labelsById m)
      in kept @ recreate_labels dws (map se_id kept) (last_id kept) 0 labels)"

text \<open>\<open>None\<close> is the walk that does not end.\<close>

definition createBranchedSession ::
  "string \<Rightarrow> draws \<Rightarrow> (nat \<Rightarrow> draws) \<Rightarrow> session_manager \<times> disk \<Rightarrow> (string + session_manager \<times> disk) option" where
  "createBranchedSession leaf dw dws md =
     (case md of (m, d) \<Rightarrow>
        (case getBranch (Some leaf) m of
           None \<Rightarrow> None
         | Some path \<Rightarrow>
             if path = [] then Some (Inl (not_found leaf))
             else
               let sid = dw_uuid dw 0;
                   header = new_header sid dw (sm_cwd m) (if sm_persist m then sm_sessionFile m else None);
                   m1 = m\<lparr>sm_fileEntries := Header header # map Entry (branched_entries dws m path), sm_sessionId := sid\<rparr>
               in if sm_persist m
                  then let m2 = buildIndex (m1\<lparr>sm_sessionFile := Some (session_path (sm_sessionDir m) (dw_time dw) sid)\<rparr>)
                       in if list_ex is_assistant_entry (session_entries (sm_fileEntries m2))
                          then Some (Inr (m2\<lparr>sm_flushed := True\<rparr>, rewriteFile m2 d))
                          else Some (Inr (m2\<lparr>sm_flushed := False\<rparr>, d))
                  else Some (Inr (buildIndex m1, d))))"

section \<open>Forking\<close>

definition forkFrom :: "string \<Rightarrow> string \<Rightarrow> string \<Rightarrow> draws \<Rightarrow> draws \<Rightarrow> disk \<Rightarrow> string + session_manager \<times> disk" where
  "forkFrom source cwd dir dw dw2 d =
     (let fs = loadEntriesFromFile d source in
      if fs = [] then Inl (''Cannot fork: source session file is empty or invalid: '' @ source)
      else let sid = dw_uuid dw 0; f = session_path dir (dw_time dw) sid;
               d2 = append_lines f (Header (new_header sid dw cwd (Some source)) # map Entry (session_entries fs)) d
           in Inr (open_manager cwd dir (Some f) True dw2 d2))"

end
