(* ===== verification/Session_Context.thy ===== *)
theory Session_Context
  imports Session_Model
begin

text \<open>
  The conversation a session stands for, \<open>buildSessionContext\<close> of \<open>core/session-manager.ts\<close>: the path
  from the root to the leaf, its settings, its messages with the last compaction applied, and the repair
  of a transcript whose last tool calls were interrupted.
\<close>

section \<open>The path\<close>

datatype leaf_arg = LeafUndefined | LeafNull | LeafId string

definition index_by_id :: "session_entry list \<Rightarrow> (string \<times> session_entry) list" where
  "index_by_id es = fold (\<lambda>e. assoc_set (se_id e) e) es []"

definition find_leaf :: "session_entry list \<Rightarrow> leaf_arg \<Rightarrow> (string \<times> session_entry) list \<Rightarrow> session_entry option" where
  "find_leaf es leaf byId =
     (case (case leaf of LeafId i \<Rightarrow> (if i = [] then None else map_of byId i) | _ \<Rightarrow> None) of
        Some e \<Rightarrow> Some e
      | None \<Rightarrow> if es = [] then None else Some (last es))"

section \<open>Settings along the path\<close>

record path_settings =
  pt_thinkingLevel :: string
  pt_model :: "(string \<times> string) option"
  pt_compaction :: "(string \<times> compaction) option"
  pt_memory :: "memory_item list"
  pt_todos :: "todo_item list"

definition default_settings :: path_settings where
  "default_settings = \<lparr>pt_thinkingLevel = ''off'', pt_model = None, pt_compaction = None, pt_memory = [], pt_todos = []\<rparr>"

definition settings_step :: "string \<Rightarrow> (nat \<Rightarrow> string) \<Rightarrow> session_entry \<Rightarrow> path_settings \<Rightarrow> path_settings" where
  "settings_step now fresh e s =
     (case se_body e of
        ThinkingLevelChange l \<Rightarrow> s\<lparr>pt_thinkingLevel := l\<rparr>
      | ModelChange p i \<Rightarrow> s\<lparr>pt_model := Some (p, i)\<rparr>
      | MessageEntry (AssistantMessage a) \<Rightarrow> s\<lparr>pt_model := Some (am_provider a, am_model a)\<rparr>
      | Compaction c \<Rightarrow> s\<lparr>pt_compaction := Some (se_id e, c)\<rparr>
      | CustomEntry ty v \<Rightarrow>
          (let data = (case v of None \<Rightarrow> JUndefined | Some x \<Rightarrow> x)
           in if ty = ''session_memory'' then s\<lparr>pt_memory := parseMemoryItems now data\<rparr>
              else if ty = ''session_todos'' then s\<lparr>pt_todos := parseTodoSnapshot fresh data\<rparr>
              else s)
      | _ \<Rightarrow> s)"

section \<open>Messages\<close>

text \<open>The messages an entry contributes.  A message of the unknown role \<open>hookMessage\<close>, which the
  migration removes, is passed over by the checks and the conversion for the model; it is left out
  here.\<close>

definition entry_messages :: "session_entry \<Rightarrow> agent_message list" where
  "entry_messages e =
     (case se_body e of
        MessageEntry m \<Rightarrow> [m]
      | CustomMessageEntry ty c details display \<Rightarrow> [CustomMessage ty c]
      | BranchSummaryEntry from summary details hook \<Rightarrow> if summary = [] then [] else [BranchSummary summary from]
      | _ \<Rightarrow> [])"

definition is_compaction_of :: "string \<Rightarrow> session_entry \<Rightarrow> bool" where
  "is_compaction_of i e \<longleftrightarrow> se_id e = i \<and> (case se_body e of Compaction c \<Rightarrow> True | _ \<Rightarrow> False)"

definition path_messages :: "session_entry list \<Rightarrow> (string \<times> compaction) option \<Rightarrow> agent_message list" where
  "path_messages path lastc =
     (case lastc of
        None \<Rightarrow> concat (map entry_messages path)
      | Some (i, c) \<Rightarrow>
          (let before = takeWhile (\<lambda>e. \<not> is_compaction_of i e) path;
               after = tl (dropWhile (\<lambda>e. \<not> is_compaction_of i e) path)
           in CompactionSummary (co_summary c) (co_tokensBefore c)
              # concat (map entry_messages (dropWhile (\<lambda>e. se_id e \<noteq> co_firstKeptEntryId c) before))
              @ concat (map entry_messages after)))"

section \<open>Repair\<close>

definition call_ids_of :: "agent_message \<Rightarrow> string list" where
  "call_ids_of m = (case m of AssistantMessage a \<Rightarrow> map cb_id (tool_calls_of (am_content a)) | _ \<Rightarrow> [])"

definition has_call_in :: "string list \<Rightarrow> agent_message \<Rightarrow> bool" where
  "has_call_in ids m \<longleftrightarrow> list_ex (\<lambda>c. c \<in> set ids) (call_ids_of m)"

text \<open>The parts of a list before and after its last element with a property.\<close>

fun split_last :: "('a \<Rightarrow> bool) \<Rightarrow> 'a list \<Rightarrow> ('a list \<times> 'a \<times> 'a list) option" where
  "split_last P [] = None"
| "split_last P (x # xs) =
     (case split_last P xs of
        Some (a, y, b) \<Rightarrow> Some (x # a, y, b)
      | None \<Rightarrow> if P x then Some ([], x, xs) else None)"

definition is_orphan :: "string list \<Rightarrow> agent_message \<Rightarrow> bool" where
  "is_orphan ids m \<longleftrightarrow> (case m of ToolResult r \<Rightarrow> tm_toolCallId r \<in> set ids | _ \<Rightarrow> False)"

definition repair_messages :: "agent_message list \<Rightarrow> agent_message list" where
  "repair_messages ms =
     (let report = validateToolSpanIntegrity (map message_entry ms)
      in if \<not> si_valid report \<and> si_missing report \<noteq> []
         then (case split_last (has_call_in (si_missing report)) ms of
                 None \<Rightarrow> ms
               | Some (before, bad, after) \<Rightarrow> before @ filter (\<lambda>m. \<not> is_orphan (si_orphan report) m) after)
         else ms)"

section \<open>The context\<close>

record session_context =
  sx_messages :: "agent_message list"
  sx_thinkingLevel :: string
  sx_model :: "(string \<times> string) option"
  sx_memoryItems :: "memory_item list"
  sx_todos :: "todo_item list"

definition empty_context :: session_context where
  "empty_context = \<lparr>sx_messages = [], sx_thinkingLevel = ''off'', sx_model = None, sx_memoryItems = [], sx_todos = []\<rparr>"

definition memory_messages :: "memory_item list \<Rightarrow> agent_message list" where
  "memory_messages items = (case createMemoryContextMessage items of None \<Rightarrow> [] | Some m \<Rightarrow> [m])"

definition path_context :: "string \<Rightarrow> (nat \<Rightarrow> string) \<Rightarrow> session_entry list \<Rightarrow> session_context" where
  "path_context now fresh path =
     (let s = fold (settings_step now fresh) path default_settings
      in \<lparr>sx_messages = repair_messages (memory_messages (pt_memory s) @ path_messages path (pt_compaction s)),
          sx_thinkingLevel = pt_thinkingLevel s, sx_model = pt_model s, sx_memoryItems = pt_memory s,
          sx_todos = pt_todos s\<rparr>)"

definition buildSessionContext ::
  "string \<Rightarrow> (nat \<Rightarrow> string) \<Rightarrow> session_entry list \<Rightarrow> leaf_arg \<Rightarrow> (string \<times> session_entry) list option \<Rightarrow> session_context option" where
  "buildSessionContext now fresh es leaf byId =
     (let index = (case byId of None \<Rightarrow> index_by_id es | Some x \<Rightarrow> x)
      in if leaf = LeafNull then Some empty_context
         else case find_leaf es leaf index of
           None \<Rightarrow> Some empty_context
         | Some e \<Rightarrow> map_option (path_context now fresh) (path_to index (Some e)))"

definition managerContext :: "string \<Rightarrow> (nat \<Rightarrow> string) \<Rightarrow> session_manager \<Rightarrow> session_context option" where
  "managerContext now fresh m =
     buildSessionContext now fresh (getEntries m)
       (case sm_leafId m of None \<Rightarrow> LeafNull | Some i \<Rightarrow> LeafId i) (Some (sm_byId m))"

section \<open>Messages and the last matching element\<close>

lemma split_last_Some:
  "split_last P xs = Some (a, y, b) \<Longrightarrow> xs = a @ y # b \<and> P y \<and> (\<forall>z \<in> set b. \<not> P z)"
proof (induction xs arbitrary: a)
  case (Cons x xs)
  show ?case
  proof (cases "split_last P xs")
    case None
    have "\<forall>z \<in> set xs. \<not> P z"
      using None by (induction xs) (auto split: option.splits if_splits)
    then show ?thesis using Cons.prems None by (auto split: if_splits)
  next
    case (Some p)
    then show ?thesis using Cons by (cases p) auto
  qed
qed simp

lemma split_last_None: "split_last P xs = None \<longleftrightarrow> (\<forall>x \<in> set xs. \<not> P x)"
  by (induction xs) (auto split: option.splits if_splits)

lemma split_last_intro:
  "P y \<Longrightarrow> \<forall>z \<in> set b. \<not> P z \<Longrightarrow> split_last P (a @ y # b) = Some (a, y, b)"
proof (induction a)
  case Nil
  then have "split_last P b = None" using split_last_None by blast
  with Nil show ?case by simp
qed simp

end
