(* ===== verification/Session_Tree.thy ===== *)
theory Session_Tree
  imports Session_Context "HOL-Library.Sublist"
begin

text \<open>
  The tree of a session: entries whose parents are earlier entries.  Every entry has one path to a root,
  the walk of the source finds it, and appending entries changes no path that was there.
\<close>

section \<open>Trees of entries\<close>

definition ids :: "session_entry list \<Rightarrow> string set" where
  "ids es = se_id ` set es"

definition index_of :: "session_entry list \<Rightarrow> (string \<times> session_entry) list" where
  "index_of es = map (\<lambda>e. (se_id e, e)) es"

inductive entry_tree :: "session_entry list \<Rightarrow> bool" where
  empty: "entry_tree []"
| snoc: "entry_tree es \<Longrightarrow> se_id e \<notin> ids es \<Longrightarrow> se_id e \<noteq> [] \<Longrightarrow>
    (\<forall>p. se_parentId e = Some p \<longrightarrow> p \<in> ids es) \<Longrightarrow> entry_tree (es @ [e])"

lemma ids_simps [simp]:
  "ids [] = {}" "ids (e # es) = insert (se_id e) (ids es)" "ids (es @ fs) = ids es \<union> ids fs"
  by (simp_all add: ids_def image_Un)

lemma entry_tree_ids:
  "entry_tree es \<Longrightarrow> distinct (map se_id es) \<and> [] \<notin> ids es \<and> (\<forall>e \<in> set es. \<forall>p. se_parentId e = Some p \<longrightarrow> p \<in> ids es)"
  by (induction rule: entry_tree.induct) (auto simp: ids_def)

lemma index_of_simps [simp]: "index_of [] = []" "index_of (es @ fs) = index_of es @ index_of fs"
  "map snd (index_of es) = es" "map fst (index_of es) = map se_id es" "length (index_of es) = length es"
  by (simp_all add: index_of_def comp_def)

lemma index_of_lookup:
  assumes "distinct (map se_id es)"
  shows "map_of (index_of es) i = Some e \<longleftrightarrow> e \<in> set es \<and> se_id e = i"
  using assms by (auto simp: index_of_def map_of_eq_Some_iff comp_def)

lemma index_of_None: "map_of (index_of es) i = None \<longleftrightarrow> i \<notin> ids es"
  by (auto simp: index_of_def map_of_eq_None_iff ids_def image_comp)

lemma assoc_set_new: "k \<notin> fst ` set m \<Longrightarrow> assoc_set k v m = m @ [(k, v)]"
  by (induction m) auto

lemma index_of_add: "se_id e \<notin> ids es \<Longrightarrow> assoc_set (se_id e) e (index_of es) = index_of (es @ [e])"
  by (subst assoc_set_new) (auto simp: index_of_def ids_def)

section \<open>Paths\<close>

definition parent_link :: "session_entry \<Rightarrow> session_entry \<Rightarrow> bool" where
  "parent_link x y \<longleftrightarrow> se_parentId y = Some (se_id x)"

definition root_path :: "session_entry list \<Rightarrow> bool" where
  "root_path p \<longleftrightarrow> p \<noteq> [] \<and> se_parentId (hd p) = None \<and> successively parent_link p"

lemma root_path_snoc:
  "root_path (p @ [e]) \<longleftrightarrow> (if p = [] then se_parentId e = None else root_path p \<and> parent_link (last p) e)"
  by (auto simp: root_path_def successively_append_iff)

lemma tree_path:
  assumes "entry_tree es" "e \<in> set es"
  shows "\<exists>p. root_path p \<and> last p = e \<and> subseq p es"
  using assms
proof (induction arbitrary: e rule: entry_tree.induct)
  case (snoc es x)
  show ?case
  proof (cases "e = x")
    case False
    then obtain p where "root_path p" "last p = e" "subseq p es" using snoc by auto
    moreover have "subseq p (es @ [x])" using \<open>subseq p es\<close> by (rule list_emb_prefix)
    ultimately show ?thesis by blast
  next
    case True
    show ?thesis
    proof (cases "se_parentId x")
      case None
      then have "root_path [x]" "last [x] = e" "subseq [x] (es @ [x])"
        using True by (simp_all add: root_path_def list_emb_append2)
      then show ?thesis by blast
    next
      case (Some i)
      then obtain q where q: "q \<in> set es" "se_id q = i" using snoc.hyps(4) by (auto simp: ids_def)
      obtain p where p: "root_path p" "last p = q" "subseq p es" using snoc.IH [OF q(1)] by blast
      then have "p \<noteq> []" "parent_link (last p) x" using Some q(2) by (simp_all add: root_path_def parent_link_def)
      then have "root_path (p @ [x])" using p(1) by (simp add: root_path_snoc)
      moreover have "subseq (p @ [x]) (es @ [x])" using p(3) by (simp add: list_emb_append_mono)
      ultimately show ?thesis using True by (meson last_snoc)
    qed
  qed
qed simp

text \<open>A path whose entries are in an index with distinct keys is what the walk returns.\<close>

lemma parent_of_link:
  assumes "distinct (map se_id es)" "[] \<notin> ids es" "x \<in> set es" "parent_link x y"
  shows "parent_of (index_of es) y = Some x"
  using assms index_of_lookup [OF assms(1), of "se_id x" x]
  by (auto simp: parent_of_def parent_link_def js_falsy_def ids_def rev_image_eqI)

lemma parent_of_root: "se_parentId e = None \<Longrightarrow> parent_of idx e = None"
  by (simp add: parent_of_def js_falsy_def)

lemma walk_chain:
  assumes "distinct (map se_id es)" "[] \<notin> ids es"
  shows "successively parent_link (p @ [e]) \<Longrightarrow> parent_of (index_of es) (hd (p @ [e])) = None \<Longrightarrow>
    set p \<subseteq> set es \<Longrightarrow> length p < n \<Longrightarrow> walk n (index_of es) e acc = Some (p @ e # acc)"
proof (induction p arbitrary: e acc n rule: rev_induct)
  case Nil
  then show ?case by (cases n) simp_all
next
  case (snoc x p)
  have *: "successively parent_link (p @ [x])" "parent_link x e"
    using snoc.prems(1) successively_append_iff [of parent_link "p @ [x]" "[e]"] by simp_all
  obtain k where k: "n = Suc k" "length p < k" using snoc.prems(4) by (cases n) auto
  have "hd (p @ [x]) = hd ((p @ [x]) @ [e])" by (cases p) simp_all
  then have "walk k (index_of es) x (e # acc) = Some (p @ x # e # acc)"
    using snoc.IH [OF *(1)] snoc.prems(2,3) k(2) by simp
  moreover have "parent_of (index_of es) e = Some x"
    using parent_of_link [OF assms _ *(2)] snoc.prems(3) by simp
  ultimately show ?case using k(1) by simp
qed

lemma walk_path:
  assumes "distinct (map se_id es)" "[] \<notin> ids es" "root_path (p @ [e])" "set p \<subseteq> set es" "length p < n"
  shows "walk n (index_of es) e acc = Some (p @ e # acc)"
  using walk_chain [OF assms(1,2) _ _ assms(4,5)] assms(3) parent_of_root by (simp add: root_path_def)

lemma path_to_path:
  assumes "entry_tree es" "root_path p" "set p \<subseteq> set es" "length p \<le> length es"
  shows "path_to (index_of es) (Some (last p)) = Some p"
proof -
  obtain q e where p: "p = q @ [e]" using assms(2) by (metis rev_exhaust root_path_def)
  show ?thesis
    using walk_path [of es q e "Suc (length es)" "[]"] entry_tree_ids [OF assms(1)] assms p
    by (simp add: path_to_def)
qed

lemma tree_walk:
  assumes "entry_tree es" "e \<in> set es"
  shows "\<exists>p. path_to (index_of es) (Some e) = Some p \<and> root_path p \<and> last p = e \<and> subseq p es"
proof -
  obtain p where p: "root_path p" "last p = e" "subseq p es" using tree_path [OF assms] by blast
  then have "set p \<subseteq> set es" "length p \<le> length es" by (auto intro: list_emb_length dest: list_emb_set)
  then show ?thesis using path_to_path [OF assms(1) p(1)] p by auto
qed

text \<open>Paths do not change when entries are appended; the path of a new entry extends that of its
  parent.\<close>

lemma entry_tree_prefix: "entry_tree (es @ fs) \<Longrightarrow> entry_tree es"
proof (induction fs rule: rev_induct)
  case (snoc f fs)
  from snoc.prems have "entry_tree (es @ fs)"
    by (cases rule: entry_tree.cases) (auto simp flip: append_assoc)
  then show ?case by (rule snoc.IH)
qed simp

lemma path_to_extend:
  assumes "entry_tree (es @ fs)" "e \<in> set es"
  shows "path_to (index_of (es @ fs)) (Some e) = path_to (index_of es) (Some e)"
proof -
  have t: "entry_tree es" using entry_tree_prefix [OF assms(1)] .
  obtain p where p: "path_to (index_of es) (Some e) = Some p" "root_path p" "last p = e" "subseq p es"
    using tree_walk [OF t assms(2)] by blast
  then have "set p \<subseteq> set es" "length p \<le> length es" by (auto intro: list_emb_length dest: list_emb_set)
  then have "path_to (index_of (es @ fs)) (Some (last p)) = Some p"
    using path_to_path [OF assms(1) p(2)] by auto
  then show ?thesis using p by simp
qed

lemma path_to_child:
  assumes "entry_tree (es @ [e])" "se_parentId e = Some (se_id q)" "q \<in> set es"
    "path_to (index_of es) (Some q) = Some p"
  shows "path_to (index_of (es @ [e])) (Some e) = Some (p @ [e])"
proof -
  have t: "entry_tree es" using entry_tree_prefix [OF assms(1)] .
  have p: "root_path p" "last p = q" "subseq p es" using tree_walk [OF t assms(3)] assms(4) by auto
  then have "p \<noteq> []" "parent_link (last p) e" using assms(2) by (simp_all add: root_path_def parent_link_def)
  then have "root_path (p @ [e])" using p(1) by (simp add: root_path_snoc)
  moreover have "set p \<subseteq> set es" "length p \<le> length es" using p(3) by (auto intro: list_emb_length dest: list_emb_set)
  ultimately show ?thesis using path_to_path [OF assms(1), of "p @ [e]"] by auto
qed

lemma path_to_root:
  assumes "entry_tree (es @ [e])" "se_parentId e = None"
  shows "path_to (index_of (es @ [e])) (Some e) = Some [e]"
proof -
  have "root_path [e]" using assms(2) by (simp add: root_path_def)
  then show ?thesis using path_to_path [OF assms(1), of "[e]"] by simp
qed

end
