(* ===== verification/Session_Facts.thy ===== *)
theory Session_Facts
  imports Session_Tree
begin

text \<open>
  The invariant of the session manager and the steps that keep it: the index is the list of entries, the
  entries form a tree, the labels are what the label entries say, the leaf is an entry; and for a
  persisted session, what the file holds.
\<close>

section \<open>Indexing\<close>

lemma fold_index_step_fields:
  "sm_labelsById (fold index_step es m) = fold label_step es (sm_labelsById m)"
  "sm_leafId (fold index_step es m) = (if es = [] then sm_leafId m else Some (se_id (last es)))"
  "sm_fileEntries (fold index_step es m) = sm_fileEntries m"
  "sm_sessionId (fold index_step es m) = sm_sessionId m"
  "sm_persist (fold index_step es m) = sm_persist m"
  "sm_sessionFile (fold index_step es m) = sm_sessionFile m"
  "sm_flushed (fold index_step es m) = sm_flushed m"
  "sm_cwd (fold index_step es m) = sm_cwd m"
  by (induction es arbitrary: m) (simp_all add: index_step_def)

lemma fold_index_step_byId:
  "distinct (map se_id es) \<Longrightarrow> fst ` set (sm_byId m) \<inter> ids es = {} \<Longrightarrow>
     sm_byId (fold index_step es m) = sm_byId m @ index_of es"
proof (induction es arbitrary: m)
  case (Cons e es)
  have e: "sm_byId (index_step e m) = sm_byId m @ index_of [e]"
    using Cons.prems by (auto simp: index_step_def index_of_def intro: assoc_set_new)
  have "fst ` set (sm_byId (index_step e m)) \<inter> ids es = {}"
    using Cons.prems unfolding e by (auto simp: index_of_def ids_def)
  then show ?case using Cons.IH [of "index_step e m"] Cons.prems(1) e by (simp add: index_of_def)
qed simp

lemma session_entries_append [simp]: "session_entries (fs @ gs) = session_entries fs @ session_entries gs"
  by (induction fs rule: session_entries.induct) simp_all

lemma session_entries_map [simp]: "session_entries (map Entry es) = es"
  by (induction es) simp_all

lemma buildIndex_fields:
  "sm_labelsById (buildIndex m) = fold label_step (getEntries m) []"
  "sm_leafId (buildIndex m) = (if getEntries m = [] then None else Some (se_id (last (getEntries m))))"
  "sm_fileEntries (buildIndex m) = sm_fileEntries m" "sm_sessionId (buildIndex m) = sm_sessionId m"
  "sm_persist (buildIndex m) = sm_persist m" "sm_sessionFile (buildIndex m) = sm_sessionFile m"
  "getEntries (buildIndex m) = getEntries m"
  by (simp_all add: buildIndex_def fold_index_step_fields getEntries_def)

lemma buildIndex_byId: "distinct (map se_id (getEntries m)) \<Longrightarrow> sm_byId (buildIndex m) = index_of (getEntries m)"
  by (simp add: buildIndex_def fold_index_step_byId getEntries_def)

section \<open>The invariant\<close>

definition session_ok :: "session_manager \<Rightarrow> bool" where
  "session_ok m \<longleftrightarrow>
     (\<exists>h. sm_fileEntries m = Header h # map Entry (getEntries m) \<and> sh_version h = Some 3 \<and> sh_id h = sm_sessionId m)
     \<and> entry_tree (getEntries m) \<and> sm_byId m = index_of (getEntries m)
     \<and> sm_labelsById m = fold label_step (getEntries m) []
     \<and> (\<forall>i. sm_leafId m = Some i \<longrightarrow> i \<in> ids (getEntries m))"

text \<open>The full UUID that \<open>generateId\<close> falls back to is not the id of an entry.\<close>

definition good_draws :: "draws \<Rightarrow> session_manager \<Rightarrow> bool" where
  "good_draws dw m \<longleftrightarrow> (\<forall>i. dw_uuid dw i \<noteq> []) \<and> get_entry m (dw_uuid dw 100) = None"

lemma generateId_fresh:
  assumes "\<forall>i. uuid i \<noteq> []" "\<not> taken (uuid 100)"
  shows "\<not> taken (generateId taken uuid)" "generateId taken uuid \<noteq> []"
  using assms find_Some_iff_mem [of "\<lambda>i. \<not> taken (take 8 (uuid i))" "[0..<100]"]
  by (auto simp: generateId_def split: option.splits)

lemma newSession_ok: "session_ok (newSession i p dw m)"
  by (simp add: session_ok_def newSession_def getEntries_def Let_def new_header_def CURRENT_SESSION_VERSION_def
      entry_tree.empty)

lemma session_ok_lookup:
  assumes "session_ok m"
  shows "get_entry m i = Some e \<longleftrightarrow> e \<in> set (getEntries m) \<and> se_id e = i"
    and "get_entry m i = None \<longleftrightarrow> i \<notin> ids (getEntries m)"
proof -
  have d: "distinct (map se_id (getEntries m))" and b: "sm_byId m = index_of (getEntries m)"
    using assms entry_tree_ids by (auto simp: session_ok_def)
  show "get_entry m i = Some e \<longleftrightarrow> e \<in> set (getEntries m) \<and> se_id e = i"
    using index_of_lookup [OF d] by (simp add: get_entry_def b)
  show "get_entry m i = None \<longleftrightarrow> i \<notin> ids (getEntries m)"
    using index_of_None by (simp add: get_entry_def b)
qed

subsection \<open>Appending\<close>

lemma persist_entry_fields [simp]:
  "sm_fileEntries (fst (persist_entry e md)) = sm_fileEntries (fst md)"
  "sm_byId (fst (persist_entry e md)) = sm_byId (fst md)"
  "sm_labelsById (fst (persist_entry e md)) = sm_labelsById (fst md)"
  "sm_leafId (fst (persist_entry e md)) = sm_leafId (fst md)"
  "sm_sessionId (fst (persist_entry e md)) = sm_sessionId (fst md)"
  "sm_sessionFile (fst (persist_entry e md)) = sm_sessionFile (fst md)"
  "sm_persist (fst (persist_entry e md)) = sm_persist (fst md)"
  by (cases md; simp add: persist_entry_def split: option.split)+

lemma append_body_fields [simp]:
  "sm_fileEntries (fst (append_body b dw md)) = sm_fileEntries (fst md) @ [Entry (fresh_entry b dw (fst md))]"
  "sm_byId (fst (append_body b dw md)) = assoc_set (se_id (fresh_entry b dw (fst md))) (fresh_entry b dw (fst md)) (sm_byId (fst md))"
  "sm_leafId (fst (append_body b dw md)) = Some (se_id (fresh_entry b dw (fst md)))"
  "sm_labelsById (fst (append_body b dw md)) = sm_labelsById (fst md)"
  "sm_sessionId (fst (append_body b dw md)) = sm_sessionId (fst md)"
  "sm_sessionFile (fst (append_body b dw md)) = sm_sessionFile (fst md)"
  "sm_persist (fst (append_body b dw md)) = sm_persist (fst md)"
  by (cases md; simp add: append_body_def appendEntry_raw_def)+

lemma fresh_entry_ok:
  assumes "session_ok m" "good_draws dw m"
  shows "entry_tree (getEntries m @ [fresh_entry b dw m])" "se_id (fresh_entry b dw m) \<notin> ids (getEntries m)"
proof -
  let ?e = "fresh_entry b dw m"
  have "get_entry m (se_id ?e) = None" "se_id ?e \<noteq> []"
    using generateId_fresh [of "dw_uuid dw" "\<lambda>i. get_entry m i \<noteq> None"] assms(2)
    by (auto simp: fresh_entry_def good_draws_def)
  then show new: "se_id ?e \<notin> ids (getEntries m)" using session_ok_lookup(2) [OF assms(1)] by blast
  have "\<forall>p. se_parentId ?e = Some p \<longrightarrow> p \<in> ids (getEntries m)" "entry_tree (getEntries m)"
    using assms(1) by (simp_all add: fresh_entry_def session_ok_def)
  then show "entry_tree (getEntries m @ [?e])" using new \<open>se_id ?e \<noteq> []\<close> entry_tree.snoc by blast
qed

text \<open>An entry that is not a label keeps the invariant; for a label the labels are set as well.\<close>

lemma append_labels:
  assumes "session_ok m" "good_draws dw m"
  shows "session_ok ((fst (append_body b dw (m, d)))\<lparr>sm_labelsById := label_step (fresh_entry b dw m) (sm_labelsById m)\<rparr>)"
proof -
  let ?e = "fresh_entry b dw m"
  have t: "entry_tree (getEntries m @ [?e])" and n: "se_id ?e \<notin> ids (getEntries m)"
    using fresh_entry_ok [OF assms] by auto
  have e: "getEntries (fst (append_body b dw (m, d))\<lparr>sm_labelsById := l\<rparr>) = getEntries m @ [?e]" for l
    by (simp add: getEntries_def)
  have b: "sm_byId m = index_of (getEntries m)" and l: "sm_labelsById m = fold label_step (getEntries m) []"
    and f: "\<exists>h. sm_fileEntries m = Header h # map Entry (getEntries m) \<and> sh_version h = Some 3 \<and> sh_id h = sm_sessionId m"
    using assms(1) by (auto simp: session_ok_def)
  have "assoc_set (se_id ?e) ?e (sm_byId m) = index_of (getEntries m @ [?e])"
    unfolding b using index_of_add [OF n] .
  moreover have "se_id ?e \<in> ids (getEntries m @ [?e])" by simp
  ultimately show ?thesis
    using f l t unfolding session_ok_def e by auto
qed

lemma append_ok:
  assumes "session_ok m" "good_draws dw m" "\<forall>t l. b \<noteq> LabelEntry t l"
  shows "session_ok (fst (append_body b dw (m, d)))"
proof -
  have "label_step (fresh_entry b dw m) (sm_labelsById m) = sm_labelsById m"
    using assms(3) by (simp add: label_step_def fresh_entry_def split: entry_body.split)
  then have "(fst (append_body b dw (m, d)))\<lparr>sm_labelsById := label_step (fresh_entry b dw m) (sm_labelsById m)\<rparr>
    = fst (append_body b dw (m, d))" by simp
  then show ?thesis using append_labels [OF assms(1,2)] by metis
qed

lemma label_change_ok:
  assumes "session_ok m" "good_draws dw m" "appendLabelChange t l dw (m, d) = Inr (m', d')"
  shows "session_ok m'" "getEntries m' = getEntries m @ [fresh_entry (LabelEntry t l) dw m]"
proof -
  have m': "m' = (fst (append_body (LabelEntry t l) dw (m, d)))\<lparr>sm_labelsById := label_step (fresh_entry (LabelEntry t l) dw m) (sm_labelsById m)\<rparr>"
    using assms(3) by (auto simp: appendLabelChange_def label_step_def fresh_entry_def split: if_splits prod.splits)
      (metis append_body_fields(4) fst_conv)
  show "session_ok m'" unfolding m' by (rule append_labels [OF assms(1,2)])
  show "getEntries m' = getEntries m @ [fresh_entry (LabelEntry t l) dw m]" by (simp add: m' getEntries_def)
qed

subsection \<open>Moving the leaf\<close>

lemma leaf_ok: "session_ok m \<Longrightarrow> (\<forall>i. l = Some i \<longrightarrow> get_entry m i \<noteq> None) \<Longrightarrow> session_ok (m\<lparr>sm_leafId := l\<rparr>)"
  using session_ok_lookup(2) [of m] by (auto simp: session_ok_def getEntries_def)

lemma getEntries_leaf [simp]: "getEntries (m\<lparr>sm_leafId := l\<rparr>) = getEntries m"
  by (simp add: getEntries_def)

lemma get_entry_leaf [simp]: "get_entry (m\<lparr>sm_leafId := l\<rparr>) = get_entry m"
  by (simp add: get_entry_def fun_eq_iff)

section \<open>Steps\<close>

text \<open>What callers do to a session: append an entry, label one, move the leaf, branch with a summary.\<close>

inductive session_move :: "session_manager \<times> disk \<Rightarrow> session_manager \<times> disk \<Rightarrow> bool" where
  append: "good_draws dw m \<Longrightarrow> \<forall>t l. b \<noteq> LabelEntry t l \<Longrightarrow> session_move (m, d) (append_body b dw (m, d))"
| label: "good_draws dw m \<Longrightarrow> appendLabelChange t l dw (m, d) = Inr md \<Longrightarrow> session_move (m, d) md"
| branch: "branch i m = Inr m' \<Longrightarrow> session_move (m, d) (m', d)"
| reset: "session_move (m, d) (resetLeaf m, d)"
| summary: "good_draws dw m \<Longrightarrow> branchWithSummary from s dt hk dw (m, d) = Inr md \<Longrightarrow> session_move (m, d) md"

inductive session_moves :: "session_manager \<times> disk \<Rightarrow> session_manager \<times> disk \<Rightarrow> bool" where
  refl: "session_moves md md"
| step: "session_moves md (m, d) \<Longrightarrow> session_move (m, d) md' \<Longrightarrow> session_moves md md'"

lemma good_draws_leaf [simp]: "good_draws dw (m\<lparr>sm_leafId := l\<rparr>) = good_draws dw m"
  by (simp add: good_draws_def)

lemma move_ok:
  assumes "session_move (m, d) (m', d')" "session_ok m"
  shows "session_ok m' \<and> (\<exists>es. getEntries m' = getEntries m @ es)"
  using assms(1)
proof cases
  case (append dw b)
  then show ?thesis using append_ok [OF assms(2), of dw b d]
    by (metis append_body_fields(1) fst_conv getEntries_def session_entries_append)
next
  case (label dw t l)
  then show ?thesis using label_change_ok [OF assms(2)] by blast
next
  case (branch i)
  then show ?thesis using leaf_ok [OF assms(2), of "Some i"] by (auto simp: branch_def split: if_splits)
next
  case reset
  then show ?thesis using leaf_ok [OF assms(2), of None] by (simp add: resetLeaf_def)
next
  case (summary dw "from" s dt hk)
  let ?b = "BranchSummaryEntry (case from of None \<Rightarrow> ''root'' | Some i \<Rightarrow> i) s dt hk"
  have origin: "\<forall>i. from = Some i \<longrightarrow> get_entry m i \<noteq> None" and
    md: "(m', d') = append_body ?b dw (m\<lparr>sm_leafId := from\<rparr>, d)"
    using summary(2) by (auto simp: branchWithSummary_def split: if_splits option.splits)
  have "session_ok (fst (append_body ?b dw (m\<lparr>sm_leafId := from\<rparr>, d)))"
    using leaf_ok [OF assms(2) origin] summary(1) by (intro append_ok) simp_all
  then have "session_ok m'" using md by (metis fst_conv)
  moreover have "getEntries m' = getEntries m @ [fresh_entry ?b dw (m\<lparr>sm_leafId := from\<rparr>)]"
    using md by (metis append_body_fields(1) fst_conv getEntries_def getEntries_leaf session_entries.simps(1,3) session_entries_append)
  ultimately show ?thesis by blast
qed

lemma moves_ok:
  "session_moves (m, d) (m', d') \<Longrightarrow> session_ok m \<Longrightarrow> session_ok m' \<and> (\<exists>es. getEntries m' = getEntries m @ es)"
proof (induction "(m, d)" "(m', d')" arbitrary: m' d' rule: session_moves.induct)
  case (step m1 d1)
  then have "session_ok m1" "\<exists>es. getEntries m1 = getEntries m @ es" by auto
  moreover have "session_ok m' \<and> (\<exists>es. getEntries m' = getEntries m1 @ es)"
    using move_ok step.hyps(3) \<open>session_ok m1\<close> by blast
  ultimately show ?case by auto
qed auto

section \<open>Branches\<close>

lemma session_branch:
  assumes "session_ok m" "e \<in> set (getEntries m)"
  shows "getBranch (Some (se_id e)) m = path_to (index_of (getEntries m)) (Some e)"
proof -
  have "get_entry m (se_id e) = Some e" using session_ok_lookup(1) [OF assms(1)] assms(2) by blast
  moreover have "se_id e \<noteq> []"
    using entry_tree_ids [of "getEntries m"] assms by (auto simp: session_ok_def ids_def rev_image_eqI)
  moreover have "sm_byId m = index_of (getEntries m)" using assms(1) by (simp add: session_ok_def)
  ultimately show ?thesis by (simp add: getBranch_def js_falsy_def)
qed

lemma session_branch_path:
  assumes "session_ok m" "e \<in> set (getEntries m)"
  shows "\<exists>p. getBranch (Some (se_id e)) m = Some p \<and> root_path p \<and> last p = e \<and> subseq p (getEntries m)"
  using tree_walk [of "getEntries m" e] assms session_branch [OF assms] by (simp add: session_ok_def)

lemma session_leaf_branch:
  assumes "session_ok m"
  shows "getBranch None m = (case sm_leafId m of None \<Rightarrow> Some [] | Some i \<Rightarrow> getBranch (Some i) m)"
  by (simp add: getBranch_def js_falsy_def path_to_def split: option.split)

lemma append_branch:
  assumes "session_ok m" "good_draws dw m"
  shows "getBranch None (fst (append_body b dw (m, d))) =
    map_option (\<lambda>p. p @ [fresh_entry b dw m]) (getBranch None m)"
proof -
  let ?e = "fresh_entry b dw m" and ?m = "fst (append_body b dw (m, d))" and ?es = "getEntries m"
  have t: "entry_tree (?es @ [?e])" and n: "se_id ?e \<notin> ids ?es" using fresh_entry_ok [OF assms] by auto
  have b: "sm_byId m = index_of ?es" using assms(1) by (simp add: session_ok_def)
  have idx: "sm_byId ?m = index_of (?es @ [?e])" using index_of_add [OF n] b by simp
  have ne: "se_id ?e \<noteq> []" using entry_tree_ids [OF t] by auto
  have "map_of (index_of (?es @ [?e])) (se_id ?e) = Some ?e"
    using index_of_lookup [of "?es @ [?e]" "se_id ?e" ?e] entry_tree_ids [OF t] by simp
  then have new: "getBranch None ?m = path_to (index_of (?es @ [?e])) (Some ?e)"
    using ne unfolding getBranch_def get_entry_def idx by (simp add: js_falsy_def)
  show ?thesis
  proof (cases "sm_leafId m")
    case None
    then have "getBranch None ?m = Some [?e]" unfolding new by (intro path_to_root [OF t]) (simp add: fresh_entry_def)
    then show ?thesis using None session_leaf_branch [OF assms(1)] by simp
  next
    case (Some i)
    then obtain q where q: "q \<in> set ?es" "se_id q = i" using assms(1) by (auto simp: session_ok_def ids_def)
    obtain p where p: "getBranch (Some i) m = Some p" "path_to (index_of ?es) (Some q) = Some p"
      using session_branch_path [OF assms(1) q(1)] session_branch [OF assms(1) q(1)] q(2) by auto
    have "se_parentId ?e = Some (se_id q)" using Some q(2) by (simp add: fresh_entry_def)
    then have "getBranch None ?m = Some (p @ [?e])"
      unfolding new using path_to_child [OF t _ q(1) p(2)] by blast
    then show ?thesis using Some p(1) session_leaf_branch [OF assms(1)] by simp
  qed
qed

end
