(* ===== verification/Session_Stored.thy ===== *)
theory Session_Stored
  imports Session_Facts
begin

text \<open>
  What a file keeps of the entries that are written to it: their ids, their parents, what they say of labels and
  the answers stay as they are, values that JSON can hold come back as they were, and writing what was read
  changes nothing more.
\<close>

section \<open>Values\<close>

text \<open>A value that JSON can hold: nothing in it is undefined, every number is finite.\<close>

fun plain_json :: "json \<Rightarrow> bool" and plain_items :: "json list \<Rightarrow> bool" and plain_members :: "(string \<times> json) list \<Rightarrow> bool" where
  "plain_json JUndefined = False"
| "plain_json JNull = True"
| "plain_json (JBool b) = True"
| "plain_json (JNum n) = (n \<noteq> NonFinite)"
| "plain_json (JStr s) = True"
| "plain_json (JArr xs) = plain_items xs"
| "plain_json (JObj ms) = plain_members ms"
| "plain_items [] = True"
| "plain_items (x # xs) = (plain_json x \<and> plain_items xs)"
| "plain_members [] = True"
| "plain_members ((k, v) # ms) = (plain_json v \<and> plain_members ms)"

lemma plain_stored:
  "plain_json v \<Longrightarrow> stored_value v = v"
  "plain_items xs \<Longrightarrow> stored_items xs = xs"
  "plain_members ms \<Longrightarrow> stored_members ms = ms"
  by (induction v and xs and ms rule: plain_json_plain_items_plain_members.induct) auto

lemma stored_plain:
  "v \<noteq> JUndefined \<Longrightarrow> plain_json (stored_value v)"
  "plain_items (stored_items xs)"
  "plain_members (stored_members ms)"
  by (induction v and xs and ms rule: stored_value_stored_items_stored_members.induct) auto

lemma stored_value_again [simp]: "stored_value (stored_value v) = stored_value v"
  by (cases "v = JUndefined") (simp_all add: plain_stored(1) stored_plain(1))

lemma stored_option_again [simp]: "stored_option (stored_option v) = stored_option v"
proof (cases v)
  case (Some x)
  have "x \<noteq> JUndefined \<Longrightarrow> stored_value x \<noteq> JUndefined" using stored_plain(1) [of x] by auto
  then show ?thesis using Some by (simp add: stored_option_def)
qed (simp add: stored_option_def)

section \<open>Entries\<close>

text \<open>The values of unknown shape that an entry holds.\<close>

fun option_list :: "'a option \<Rightarrow> 'a list" where
  "option_list None = []"
| "option_list (Some x) = [x]"

fun block_values :: "block \<Rightarrow> json list" where
  "block_values (ToolCallBlock c) = [cb_arguments c]"
| "block_values b = []"

fun content_values :: "user_content \<Rightarrow> json list" where
  "content_values (PlainText t) = []"
| "content_values (Blocks bs) = concat (map block_values bs)"

fun message_values :: "agent_message \<Rightarrow> json list" where
  "message_values (UserMessage c) = content_values c"
| "message_values (AssistantMessage a) = concat (map block_values (am_content a))"
| "message_values (ToolResult r) = concat (map block_values (concat (option_list (tm_content r)))) @ option_list (tm_details r)"
| "message_values (CustomMessage ty c) = content_values c"
| "message_values m = []"

fun body_values :: "entry_body \<Rightarrow> json list" where
  "body_values (MessageEntry m) = message_values m"
| "body_values (HookMessageEntry ty c) = content_values c"
| "body_values (Compaction c) = option_list (co_details c)"
| "body_values (BranchSummaryEntry i s details hook) = option_list details"
| "body_values (CustomEntry ty v) = option_list v"
| "body_values (CustomMessageEntry ty c details display) = content_values c @ option_list details"
| "body_values b = []"

definition entry_values :: "session_entry \<Rightarrow> json list" where
  "entry_values e = body_values (se_body e)"

lemma stored_block_again [simp]: "stored_block (stored_block b) = stored_block b"
  by (cases b) simp_all

lemma stored_blocks_again [simp]: "map (stored_block \<circ> stored_block) bs = map stored_block bs"
  by simp

lemma stored_content_again [simp]: "stored_content (stored_content c) = stored_content c"
  by (cases c) simp_all

lemma stored_message_again [simp]: "stored_message (stored_message m) = stored_message m"
  by (cases m) (simp_all add: option.map_comp comp_def)

lemma stored_body_again [simp]: "stored_body (stored_body b) = stored_body b"
  by (cases b) simp_all

lemma stored_entry_again [simp]: "stored_entry (stored_entry e) = stored_entry e"
  by (simp add: stored_entry_def)

lemma plain_block: "\<forall>v \<in> set (block_values b). plain_json v \<Longrightarrow> stored_block b = b"
  by (cases b) (simp_all add: plain_stored(1))

lemma plain_blocks: "\<forall>v \<in> set (concat (map block_values bs)). plain_json v \<Longrightarrow> map stored_block bs = bs"
  by (induction bs) (auto simp: plain_block)

lemma plain_content: "\<forall>v \<in> set (content_values c). plain_json v \<Longrightarrow> stored_content c = c"
  using plain_blocks by (cases c) auto

lemma plain_option: "\<forall>x \<in> set (option_list v). plain_json x \<Longrightarrow> stored_option v = v"
  by (cases v) (auto simp: stored_option_def plain_stored(1))

lemma plain_message:
  assumes "\<forall>v \<in> set (message_values m). plain_json v"
  shows "stored_message m = m"
proof (cases m)
  case (UserMessage c)
  then show ?thesis using assms plain_content [of c] by simp
next
  case (AssistantMessage a)
  then show ?thesis using assms plain_blocks [of "am_content a"] by simp
next
  case (ToolResult r)
  have "stored_option (tm_details r) = tm_details r"
    using assms unfolding ToolResult by (intro plain_option) simp
  moreover have "map_option (map stored_block) (tm_content r) = tm_content r"
  proof (cases "tm_content r")
    case (Some bs)
    then show ?thesis using assms plain_blocks [of bs] unfolding ToolResult by simp
  qed simp
  ultimately show ?thesis using ToolResult by simp
next
  case (CustomMessage ty c)
  then show ?thesis using assms plain_content [of c] by simp
qed simp_all

lemma plain_entry_stored:
  assumes "\<forall>v \<in> set (entry_values e). plain_json v"
  shows "stored_entry e = e"
proof -
  have "stored_body (se_body e) = se_body e"
    using assms by (cases "se_body e") (simp_all add: entry_values_def plain_message plain_content plain_option)
  then show ?thesis by (simp add: stored_entry_def)
qed

lemma stored_line_again [simp]: "stored_line (stored_line x) = stored_line x"
  by (cases x) simp_all

lemma write_line_stored [simp]: "write_line (stored_line x) = write_line x"
  "write_line (Entry (stored_entry e)) = write_line (Entry e)"
  by (simp_all add: write_line_def)

section \<open>The tree\<close>

lemma stored_entry_fields [simp]:
  "se_id (stored_entry e) = se_id e" "se_parentId (stored_entry e) = se_parentId e"
  "se_timestamp (stored_entry e) = se_timestamp e"
  by (simp_all add: stored_entry_def)

lemma stored_entry_label [simp]: "label_step (stored_entry e) m = label_step e m"
  by (cases "se_body e") (simp_all add: label_step_def stored_entry_def)

lemma stored_entry_assistant [simp]: "is_assistant_entry (stored_entry e) = is_assistant_entry e"
proof (cases "se_body e")
  case (MessageEntry m)
  then show ?thesis by (cases m) (simp_all add: is_assistant_entry_def stored_entry_def)
qed (simp_all add: is_assistant_entry_def stored_entry_def)

lemma session_entries_stored [simp]: "session_entries (map stored_line fs) = map stored_entry (session_entries fs)"
  by (induction fs rule: session_entries.induct) simp_all

lemma index_of_stored: "index_of (map stored_entry es) = map (\<lambda>p. (fst p, stored_entry (snd p))) (index_of es)"
  by (simp add: index_of_def)

lemma lookup_stored: "map_of (map (\<lambda>p. (fst p, f (snd p))) xs) k = map_option f (map_of xs k)"
  by (induction xs) auto

lemma walk_stored: "walk n (map (\<lambda>p. (fst p, stored_entry (snd p))) b) (stored_entry e) (map stored_entry acc)
    = map_option (map stored_entry) (walk n b e acc)"
proof (induction n arbitrary: e acc)
  case (Suc n)
  show ?case
    using Suc.IH [of _ "e # acc"] by (simp add: parent_of_def lookup_stored split: option.split)
qed simp

lemma path_stored: "path_to (map (\<lambda>p. (fst p, stored_entry (snd p))) b) (map_option stored_entry x)
    = map_option (map stored_entry) (path_to b x)"
  using walk_stored [of _ b _ "[]"] by (cases x) (simp_all add: path_to_def del: walk.simps)

lemma labels_stored: "fold label_step (map stored_entry es) m = fold label_step es m"
  by (induction es arbitrary: m) simp_all

end
