(* ===== verification/Session_Claims.thy ===== *)
theory Session_Claims
  imports Session_Stored
begin

text \<open>
  What a session guarantees: its entries form a tree that only grows, reloading its file gives the same
  session; and where the extraction of a branch and the file of a session without an answer go wrong.
\<close>

section \<open>The tree only grows\<close>

lemma getBranch_extend:
  assumes "session_ok m" "session_ok m'" "getEntries m' = getEntries m @ es" "e \<in> set (getEntries m)"
  shows "getBranch (Some (se_id e)) m' = getBranch (Some (se_id e)) m"
proof -
  have "entry_tree (getEntries m @ es)" using assms(2,3) by (simp add: session_ok_def)
  then show ?thesis
    using path_to_extend [of "getEntries m" es e] session_branch [OF assms(1,4)] session_branch [OF assms(2), of e] assms
    by simp
qed

lemma root_path_links:
  "root_path p \<Longrightarrow> se_parentId (hd p) = None \<and> successively (\<lambda>x y. se_parentId y = Some (se_id x)) p"
  by (simp add: root_path_def parent_link_def [abs_def])

text \<open>C5. A session only grows.  From a new session, whatever is appended, labelled,
  branched and reset: the ids stay distinct; the branch of every entry ends at a root, consists of entries
  in the order in which they were appended, each the parent of the next, and stays what it was for ever;
  no entry is changed or removed; and appending an entry extends the branch of the leaf by it.\<close>

theorem session_tree_grows:
  fixes m1 m2 :: session_manager
  assumes "session_moves (newSession i p dw m0, d) (m1, d1)" and "session_moves (m1, d1) (m2, d2)"
  shows "distinct (map se_id (getEntries m2))
    \<and> (\<exists>es. getEntries m2 = getEntries m1 @ es)
    \<and> (\<forall>e \<in> set (getEntries m1). getBranch (Some (se_id e)) m2 = getBranch (Some (se_id e)) m1
         \<and> (\<exists>q. getBranch (Some (se_id e)) m2 = Some q \<and> last q = e \<and> subseq q (getEntries m2)
              \<and> se_parentId (hd q) = None \<and> successively (\<lambda>x y. se_parentId y = Some (se_id x)) q))
    \<and> (good_draws dwn m2 \<longrightarrow>
         getBranch None (fst (append_body b dwn (m2, d2))) = map_option (\<lambda>q. q @ [fresh_entry b dwn m2]) (getBranch None m2)
         \<and> getBranch None m2 \<noteq> None)"
proof -
  have ok1: "session_ok m1" using moves_ok [OF assms(1) newSession_ok] by simp
  obtain es where ok2: "session_ok m2" and es: "getEntries m2 = getEntries m1 @ es"
    using moves_ok [OF assms(2) ok1] by blast
  have t: "entry_tree (getEntries m2)" using ok2 by (simp add: session_ok_def)
  have branches: "getBranch (Some (se_id e)) m2 = getBranch (Some (se_id e)) m1
         \<and> (\<exists>q. getBranch (Some (se_id e)) m2 = Some q \<and> last q = e \<and> subseq q (getEntries m2)
              \<and> se_parentId (hd q) = None \<and> successively (\<lambda>x y. se_parentId y = Some (se_id x)) q)"
    if "e \<in> set (getEntries m1)" for e
  proof -
    have "e \<in> set (getEntries m2)" using that es by simp
    then obtain q where q: "getBranch (Some (se_id e)) m2 = Some q" "root_path q" "last q = e" "subseq q (getEntries m2)"
      using session_branch_path [OF ok2] by blast
    then show ?thesis using getBranch_extend [OF ok1 ok2 es that] root_path_links [OF q(2)] by auto
  qed
  have "getBranch None m2 \<noteq> None"
    using session_leaf_branch [OF ok2] session_branch_path [OF ok2] ok2
    by (auto simp: session_ok_def ids_def split: option.splits)
  then have app: "good_draws dwn m2 \<longrightarrow>
         getBranch None (fst (append_body b dwn (m2, d2))) = map_option (\<lambda>q. q @ [fresh_entry b dwn m2]) (getBranch None m2)
         \<and> getBranch None m2 \<noteq> None"
    using append_branch [OF ok2] by simp
  have "distinct (map se_id (getEntries m2))" using entry_tree_ids [OF t] by blast
  then show ?thesis using es branches app by blast
qed

definition demo_draws :: "string \<Rightarrow> draws" where
  "demo_draws u = \<lparr>dw_uuid = (\<lambda>i. u), dw_time = ''2026-01-01T00:00:00.000Z''\<rparr>"

definition blank_manager :: session_manager where
  "blank_manager = \<lparr>sm_sessionId = [], sm_sessionFile = None, sm_sessionDir = ''s'', sm_cwd = ''w'', sm_persist = True,
     sm_flushed = False, sm_fileEntries = [], sm_byId = [], sm_labelsById = [], sm_leafId = None\<rparr>"

lemma session_tree_grows_witness:
  "getBranch None (fst (append_body (ThinkingLevelChange ''high'') (demo_draws ''u1'')
     (newSession None None (demo_draws ''s1'') blank_manager, Map.empty)))
   = Some [fresh_entry (ThinkingLevelChange ''high'') (demo_draws ''u1'') (newSession None None (demo_draws ''s1'') blank_manager)]"
proof -
  let ?m = "newSession None None (demo_draws ''s1'') blank_manager" and ?d = "Map.empty :: disk"
  have "good_draws (demo_draws ''u1'') ?m" "getBranch None ?m = Some []"
    by (simp_all add: good_draws_def demo_draws_def newSession_def get_entry_def getBranch_def path_to_def Let_def js_falsy_def)
  then show ?thesis
    using session_tree_grows [where b = "ThinkingLevelChange ''high''" and dwn = "demo_draws ''u1''",
        OF session_moves.refl [of "(?m, ?d)"] session_moves.refl [of "(?m, ?d)"]] by simp
qed

section \<open>The file\<close>

definition file_ok :: "session_manager \<times> disk \<Rightarrow> bool" where
  "file_ok md \<longleftrightarrow> sm_persist (fst md) \<and>
     (\<exists>f. sm_sessionFile (fst md) = Some f
        \<and> (if list_ex is_assistant_entry (getEntries (fst md))
           then sm_flushed (fst md) \<and> snd md f = Some (map write_line (sm_fileEntries (fst md)))
           else \<not> sm_flushed (fst md) \<and> snd md f = None))"

lemma append_file_ok:
  assumes "file_ok (m, d)"
  shows "file_ok (append_body b dw (m, d))"
  using assms by (auto simp: file_ok_def append_body_def appendEntry_raw_def persist_entry_def append_lines_def
      getEntries_def split: if_splits)

lemma file_ok_label: "file_ok (m\<lparr>sm_labelsById := l\<rparr>, d) = file_ok (m, d)"
  by (simp add: file_ok_def getEntries_def)

lemma file_ok_leaf: "file_ok (m\<lparr>sm_leafId := l\<rparr>, d) = file_ok (m, d)"
  by (simp add: file_ok_def)

lemma move_file_ok:
  assumes "session_move md md'" "file_ok md"
  shows "file_ok md' \<and> sm_sessionFile (fst md') = sm_sessionFile (fst md)"
  using assms(1)
proof cases
  case (append dw m b d)
  then show ?thesis using append_file_ok assms(2) by simp
next
  case (label dw m t l d)
  obtain m1 d1 where a: "append_body (LabelEntry t l) dw (m, d) = (m1, d1)" by fastforce
  then have "md' = (m1\<lparr>sm_labelsById := set_label t l (sm_labelsById m1)\<rparr>, d1)"
    using label(3) by (auto simp: appendLabelChange_def split: if_splits)
  then show ?thesis
    using a append_file_ok [of m d "LabelEntry t l" dw] assms(2) label(1) file_ok_label
      append_body_fields(6) [of "LabelEntry t l" dw "(m, d)"] by simp
next
  case (branch i m m' d)
  then show ?thesis using assms(2) by (auto simp: branch_def file_ok_leaf split: if_splits)
next
  case (reset m d)
  then show ?thesis using assms(2) by (simp add: resetLeaf_def file_ok_leaf)
next
  case (summary dw m "from" s dt hk d)
  then have "md' = append_body (BranchSummaryEntry (case from of None \<Rightarrow> ''root'' | Some i \<Rightarrow> i) s dt hk) dw (m\<lparr>sm_leafId := from\<rparr>, d)"
    by (auto simp: branchWithSummary_def split: if_splits)
  then show ?thesis using append_file_ok file_ok_leaf assms(2) summary(1) by simp
qed

lemma moves_file_ok:
  "session_moves md md' \<Longrightarrow> file_ok md \<Longrightarrow> file_ok md' \<and> sm_sessionFile (fst md') = sm_sessionFile (fst md)"
  by (induction rule: session_moves.induct) (auto dest: move_file_ok)

lemma load_lines: "parseSessionEntries (map write_line fs) = map stored_line fs"
  by (induction fs) (simp_all add: write_line_def)

lemma reload_file:
  assumes "session_ok m" "d f = Some (map write_line (sm_fileEntries m))" "f \<noteq> []"
  shows "open_manager cwd dir (Some f) True dw d = (m2, d2) \<Longrightarrow>
    d2 = d \<and> getEntries m2 = map stored_entry (getEntries m)
    \<and> sm_byId m2 = map (\<lambda>p. (fst p, stored_entry (snd p))) (sm_byId m) \<and> sm_labelsById m2 = sm_labelsById m
    \<and> sm_sessionId m2 = sm_sessionId m
    \<and> sm_leafId m2 = (if getEntries m = [] then None else Some (se_id (last (getEntries m))))"
proof -
  assume op: "open_manager cwd dir (Some f) True dw d = (m2, d2)"
  obtain h where h: "sm_fileEntries m = Header h # map Entry (getEntries m)" "sh_version h = Some 3" "sh_id h = sm_sessionId m"
    and rest: "sm_byId m = index_of (getEntries m)" "sm_labelsById m = fold label_step (getEntries m) []"
      "entry_tree (getEntries m)"
    using assms(1) by (auto simp: session_ok_def)
  have mal: "Malformed \<notin> set (map write_line (sm_fileEntries m))" by (auto simp: write_line_def)
  have fs: "map stored_line (sm_fileEntries m) = Header h # map Entry (map stored_entry (getEntries m))"
    by (subst h(1)) simp
  have load: "loadEntriesFromFile d f = map stored_line (sm_fileEntries m)"
    using mal fs unfolding loadEntriesFromFile_def assms(2) by (simp add: load_lines del: list.map map_map)
  have mig: "migrateToCurrentVersion (dw_uuid dw) (map stored_line (sm_fileEntries m)) = None"
    unfolding fs using h(2) by (simp add: migrateToCurrentVersion_def file_version_def CURRENT_SESSION_VERSION_def)
  define mm where "mm = \<lparr>sm_sessionId = sh_id h, sm_sessionFile = Some f, sm_sessionDir = dir, sm_cwd = cwd,
    sm_persist = True, sm_flushed = False, sm_fileEntries = map stored_line (sm_fileEntries m), sm_byId = [],
    sm_labelsById = [], sm_leafId = None\<rparr>"
  have hd: "find_header (map stored_line (sm_fileEntries m)) = Some h" "map stored_line (sm_fileEntries m) \<noteq> []"
    unfolding fs by simp_all
  have m2: "(m2, d2) = ((buildIndex mm)\<lparr>sm_flushed := True\<rparr>, d)"
    using op assms(2,3) hd(2) by (simp add: open_manager_def setSessionFile_def js_falsy_def load mig hd(1) Let_def mm_def)
  have e: "getEntries mm = map stored_entry (getEntries m)" by (simp add: mm_def getEntries_def)
  have "sm_byId (buildIndex mm) = index_of (getEntries mm)"
    using buildIndex_byId [of mm] entry_tree_ids [OF rest(3)] e by (simp add: comp_def)
  moreover have "getEntries m2 = getEntries (buildIndex mm)" using m2 by (simp add: getEntries_def)
  ultimately show ?thesis
    using m2 buildIndex_fields [of mm] rest e h(3)
    by (simp add: mm_def index_of_stored labels_stored last_map)
qed


definition demo_answer :: assistant_message where
  "demo_answer = \<lparr>am_content = [TextBlock ''ok''], am_api = ''a'', am_provider = ''p'', am_model = ''m'',
     am_stopReason = Stop_stop, am_errorMessage = None\<rparr>"

definition demo_session :: "session_manager \<times> disk" where
  "demo_session =
     append_body (MessageEntry (AssistantMessage demo_answer)) (demo_draws ''u2'')
       (append_body (MessageEntry (UserMessage (PlainText ''hi''))) (demo_draws ''u1'')
         (newSession None None (demo_draws ''s1'') blank_manager, Map.empty))"

lemma demo_session_file: "sm_sessionFile (newSession None None (demo_draws ''s1'') blank_manager) = Some ''s/2026-01-01T00-00-00-000Z_s1.jsonl''"
  by code_simp

lemma demo_moves: "session_moves (newSession None None (demo_draws ''s1'') blank_manager, Map.empty) demo_session"
proof -
  let ?n = "newSession None None (demo_draws ''s1'') blank_manager" and ?d = "Map.empty :: disk"
  let ?u = "MessageEntry (UserMessage (PlainText ''hi''))" and ?a = "MessageEntry (AssistantMessage demo_answer)"
  obtain m1 d1 where 1: "append_body ?u (demo_draws ''u1'') (?n, ?d) = (m1, d1)" by fastforce
  have g1: "good_draws (demo_draws ''u1'') ?n" by (simp add: good_draws_def demo_draws_def newSession_def get_entry_def Let_def)
  have i1: "sm_byId m1 = [(''u1'', fresh_entry ?u (demo_draws ''u1'') ?n)]"
    using append_body_fields(2) [of ?u "demo_draws ''u1''" "(?n, ?d)"] unfolding 1
    by (simp add: fresh_entry_def generateId_def newSession_def Let_def get_entry_def demo_draws_def upt_conv_Cons)
  have g2: "good_draws (demo_draws ''u2'') m1" by (simp add: good_draws_def demo_draws_def get_entry_def i1)
  have "session_moves (?n, ?d) (m1, d1)"
    using session_moves.step [OF session_moves.refl session_move.append [OF g1, of ?u ?d]] 1 by simp
  from session_moves.step [OF this session_move.append [OF g2, of ?a d1]] show ?thesis
    by (simp add: demo_session_def 1)
qed

definition lossy_data :: json where
  "lossy_data = JObj [(''n'', JNum NonFinite), (''u'', JUndefined), (''xs'', JArr [JUndefined, JStr ''x''])]"

definition noted_session :: "session_manager \<times> disk" where
  "noted_session = append_body (CustomEntry ''note'' (Some lossy_data)) (demo_draws ''u3'') demo_session"

lemma noted_moves: "session_moves (newSession None None (demo_draws ''s1'') blank_manager, Map.empty) noted_session"
proof -
  have good: "good_draws (demo_draws ''u3'') (fst demo_session)" by (simp add: good_draws_def demo_draws_def; code_simp)
  show ?thesis
    using session_moves.step [OF _ session_move.append [OF good, of "CustomEntry ''note'' (Some lossy_data)" "snd demo_session"]] demo_moves
    by (simp add: noted_session_def)
qed


end
