(* ===== verification/Session_Branching.thy ===== *)
theory Session_Branching
  imports Session_Claims
begin

text \<open>
  Extracting a branch into a session of its own, \<open>createBranchedSession\<close>, and the file of a session that
  is loaded before it has an answer: what they keep, and what they lose or write twice.
\<close>

section \<open>Recreated labels\<close>

text \<open>The first id drawn for each label is new.\<close>

definition good_label_draws :: "(nat \<Rightarrow> draws) \<Rightarrow> session_manager \<Rightarrow> bool" where
  "good_label_draws dws m \<longleftrightarrow>
     (let u = (\<lambda>n. take 8 (dw_uuid (dws n) 0)); k = length (sm_labelsById m)
      in distinct (map u [0..<k]) \<and> (\<forall>n < k. u n \<noteq> [] \<and> u n \<notin> ids (getEntries m)))"

lemma generateId_first: "\<not> taken (take 8 (uuid 0)) \<Longrightarrow> generateId taken uuid = take 8 (uuid 0)"
  by (simp add: generateId_def upt_conv_Cons)

lemma recreate_labels_ids:
  assumes "\<forall>n. u n = take 8 (dw_uuid (dws n) 0)" "distinct (map u [n..<n + length ls])"
    "\<forall>k. n \<le> k \<and> k < n + length ls \<longrightarrow> u k \<notin> set taken"
  shows "map se_id (recreate_labels dws taken parent n ls) = map u [n..<n + length ls]"
  using assms(2,3)
proof (induction ls arbitrary: taken parent n)
  case (Cons l ls)
  obtain t x where l: "l = (t, x)" by fastforce
  have i: "generateId (\<lambda>y. y \<in> set taken) (dw_uuid (dws n)) = u n"
    using generateId_first [of "\<lambda>y. y \<in> set taken" "dw_uuid (dws n)"] Cons.prems(2) assms(1) by simp
  have upt: "[n..<n + length (l # ls)] = n # [Suc n..<Suc n + length ls]" by (simp add: upt_conv_Cons del: upt_Suc)
  have d: "distinct (map u [Suc n..<Suc n + length ls])" "\<forall>k. Suc n \<le> k \<and> k < Suc n + length ls \<longrightarrow> u k \<noteq> u n"
    using Cons.prems(1) unfolding upt list.map distinct.simps set_map set_upt
    by (auto simp del: upt_Suc, metis atLeastLessThan_iff image_eqI)
  have "\<forall>k. Suc n \<le> k \<and> k < Suc n + length ls \<longrightarrow> u k \<notin> set (u n # taken)"
    using Cons.prems(2) d(2) by auto
  from Cons.IH [OF d(1) this, of "Some (u n)"]
  have "map se_id (recreate_labels dws taken parent n (l # ls)) = map u (n # [Suc n..<Suc n + length ls])"
    by (simp add: l i Let_def del: upt_Suc)
  then show ?case unfolding upt .
qed simp

lemma recreate_labels_are_labels: "e \<in> set (recreate_labels dws taken parent n ls) \<Longrightarrow> is_label e"
  by (induction dws taken parent n ls rule: recreate_labels.induct) (auto simp: Let_def is_label_def)

section \<open>The extracted branch\<close>

lemma longest_suffix:
  "\<exists>a. p = a @ rev (takeWhile P (rev p)) \<and> (a = [] \<or> \<not> P (last a))"
proof -
  let ?b = "rev (takeWhile P (rev p))" and ?a = "rev (dropWhile P (rev p))"
  have "rev p = takeWhile P (rev p) @ dropWhile P (rev p)" by simp
  then have "p = ?a @ ?b" by (metis rev_append rev_rev_ident)
  moreover have "?a = [] \<or> \<not> P (last ?a)"
    using hd_dropWhile [of P "rev p"] by (auto simp: last_rev)
  ultimately show ?thesis by blast
qed

lemma extracted_walk:
  assumes d: "distinct (map se_id es)" "[] \<notin> ids es"
    and p: "root_path p" "p = a @ b" "b \<noteq> []" "set b \<subseteq> set es" "length b \<le> length es"
    and a: "a = [] \<or> se_id (last a) \<notin> ids es"
  shows "path_to (index_of es) (Some (last p)) = Some b"
proof -
  have s: "successively parent_link b" using p(1,2) by (simp add: root_path_def successively_append_iff)
  have h: "parent_of (index_of es) (hd b) = None"
  proof (cases "a = []")
    case True
    then show ?thesis using p parent_of_root by (simp add: root_path_def)
  next
    case False
    then have "parent_link (last a) (hd b)" using p by (simp add: root_path_def successively_append_iff)
    then have "se_parentId (hd b) = Some (se_id (last a))" by (simp add: parent_link_def)
    then show ?thesis using a False index_of_None [of es "se_id (last a)"] by (simp add: parent_of_def)
  qed
  obtain q e where b: "b = q @ [e]" using p(3) by (metis rev_exhaust)
  have "walk (Suc (length es)) (index_of es) e [] = Some (q @ [e])"
    using walk_chain [OF d, of q e "Suc (length es)" "[]"] s h p(4,5) unfolding b by simp
  then show ?thesis using p(2) b by (simp add: path_to_def)
qed

definition branched_manager ::
  "string \<Rightarrow> draws \<Rightarrow> (nat \<Rightarrow> draws) \<Rightarrow> session_manager \<times> disk \<Rightarrow> session_manager option" where
  "branched_manager leaf dw dws md =
     (case createBranchedSession leaf dw dws md of Some (Inr (m, d)) \<Rightarrow> Some m | _ \<Rightarrow> None)"

lemma branched_index:
  assumes "getBranch (Some leaf) m = Some path" "path \<noteq> []" "branched_manager leaf dw dws (m, d) = Some m'"
  shows "getEntries m' = branched_entries dws m path"
    "distinct (map se_id (branched_entries dws m path)) \<Longrightarrow> sm_byId m' = index_of (branched_entries dws m path)"
proof -
  let ?h = "new_header (dw_uuid dw 0) dw (sm_cwd m) (if sm_persist m then sm_sessionFile m else None)"
  let ?m1 = "m\<lparr>sm_fileEntries := Header ?h # map Entry (branched_entries dws m path), sm_sessionId := dw_uuid dw 0\<rparr>"
  let ?m2 = "?m1\<lparr>sm_sessionFile := Some (session_path (sm_sessionDir m) (dw_time dw) (dw_uuid dw 0))\<rparr>"
  define mm where "mm = (if sm_persist m then ?m2 else ?m1)"
  have mm: "m' = buildIndex mm \<or> m' = (buildIndex mm)\<lparr>sm_flushed := True\<rparr> \<or> m' = (buildIndex mm)\<lparr>sm_flushed := False\<rparr>"
    using assms(3) unfolding branched_manager_def createBranchedSession_def mm_def
    by (simp add: assms(1,2) Let_def split: if_splits)
  have entries: "getEntries mm = branched_entries dws m path" by (simp add: mm_def getEntries_def)
  have "getEntries m' = getEntries (buildIndex mm)" "sm_byId m' = sm_byId (buildIndex mm)"
    using mm by (auto simp: getEntries_def)
  then show "getEntries m' = branched_entries dws m path"
    "distinct (map se_id (branched_entries dws m path)) \<Longrightarrow> sm_byId m' = index_of (branched_entries dws m path)"
    using entries buildIndex_byId [of mm] buildIndex_fields(7) [of mm] by simp_all
qed

lemma subseq_map_distinct: "subseq xs ys \<Longrightarrow> distinct (map f ys) \<Longrightarrow> distinct (map f xs)"
  using subseq_map [of xs ys f] by (metis distinct_nthsI subseq_conv_nths)

lemma branched_ids:
  assumes "subseq path (getEntries m)" "distinct (map se_id (getEntries m))" "good_label_draws dws m"
  obtains les where "branched_entries dws m path = filter (\<lambda>e. \<not> is_label e) path @ les"
    "distinct (map se_id (filter (\<lambda>e. \<not> is_label e) path @ les))"
    "ids les \<inter> ids (getEntries m) = {}" "[] \<notin> ids les"
proof -
  define kept where "kept = filter (\<lambda>e. \<not> is_label e) path"
  define ls where "ls = filter (\<lambda>p. fst p \<in> se_id ` set kept) (sm_labelsById m)"
  define les where "les = recreate_labels dws (map se_id kept) (last_id kept) 0 ls"
  define u where "u = (\<lambda>n. take 8 (dw_uuid (dws n) 0))"
  have k: "length ls \<le> length (sm_labelsById m)" by (simp add: ls_def)
  have good: "distinct (map u [0..<length (sm_labelsById m)])"
    "\<forall>n < length (sm_labelsById m). u n \<noteq> [] \<and> u n \<notin> ids (getEntries m)"
    using assms(3) by (simp_all add: good_label_draws_def Let_def u_def)
  have du: "distinct (map u [0..<length ls])"
    using k distinct_take [OF good(1), of "length ls"] by (simp add: take_map)
  have sk: "subseq kept (getEntries m)" using assms(1) subseq_filter_left subseq_order.trans unfolding kept_def by blast
  have old: "ids kept \<subseteq> ids (getEntries m)" using sk unfolding ids_def by (auto dest: list_emb_set)
  have new: "u n \<notin> ids (getEntries m) \<and> u n \<noteq> []" if "n < length ls" for n
    using good(2) k less_le_trans [OF that k] by blast
  have "u n \<notin> set (map se_id kept)" if "n < length ls" for n
    using new [OF that] old by (auto simp: ids_def)
  then have les: "map se_id les = map u [0..<length ls]"
    using recreate_labels_ids [of u dws 0 ls "map se_id kept" "last_id kept"] du by (simp add: les_def u_def)
  have "set (map se_id les) = set (map u [0..<length ls])" unfolding les ..
  then have lids: "ids les = u ` {0..<length ls}" by (simp only: ids_def set_map set_upt)
  have nl: "x \<notin> ids (getEntries m) \<and> x \<noteq> []" if "x \<in> ids les" for x
    using that new unfolding lids by (elim imageE) simp
  have "distinct (map se_id kept)" using subseq_map_distinct [OF sk assms(2)] .
  moreover have "distinct (map se_id les)" unfolding les by (rule du)
  moreover have "se_id ` set kept \<inter> se_id ` set les = {}" using nl old unfolding ids_def by blast
  ultimately have "distinct (map se_id (kept @ les))" by simp
  moreover have "branched_entries dws m path = kept @ les"
    by (simp add: branched_entries_def Let_def kept_def les_def ls_def)
  ultimately show thesis using that nl unfolding kept_def by blast
qed

text \<open>Without the entries that carry its labels a path falls apart before its longest suffix that has
  none.\<close>

lemma label_free_suffix:
  assumes "root_path path" "distinct (map se_id path)" "\<not> is_label (last path)"
  defines "kept \<equiv> filter (\<lambda>e. \<not> is_label e) path"
  obtains a where "path = a @ rev (takeWhile (\<lambda>x. \<not> is_label x) (rev path))"
    "rev (takeWhile (\<lambda>x. \<not> is_label x) (rev path)) \<noteq> []"
    "set (rev (takeWhile (\<lambda>x. \<not> is_label x) (rev path))) \<subseteq> set kept"
    "length (rev (takeWhile (\<lambda>x. \<not> is_label x) (rev path))) \<le> length kept"
    "a = [] \<or> last a \<in> set path \<and> se_id (last a) \<notin> ids kept"
proof -
  define b where "b = rev (takeWhile (\<lambda>x. \<not> is_label x) (rev path))"
  obtain a where a: "path = a @ b" "a = [] \<or> is_label (last a)"
    using longest_suffix [of path "\<lambda>x. \<not> is_label x"] by (auto simp: b_def)
  have "\<forall>x \<in> set b. \<not> is_label x" by (auto simp: b_def dest: set_takeWhileD)
  then have f: "filter (\<lambda>x. \<not> is_label x) b = b" by (simp only: filter_id_conv)
  have k: "kept = filter (\<lambda>x. \<not> is_label x) a @ b" 
    using arg_cong [OF a(1), of "filter (\<lambda>x. \<not> is_label x)"] unfolding kept_def filter_append f .
  obtain q e where q: "path = q @ [e]" using assms(1) by (metis rev_exhaust root_path_def)
  then have "b \<noteq> []" using assms(3) by (simp add: b_def)
  have end_of_a: "last a \<in> set path \<and> se_id (last a) \<notin> ids kept" if "a \<noteq> []"
  proof -
    have la: "last a \<in> set path" "is_label (last a)" using a that by auto
    have "se_id (last a) \<notin> ids kept"
    proof
      assume "se_id (last a) \<in> ids kept"
      then obtain x where x: "x \<in> set kept" "se_id x = se_id (last a)" by (auto simp: ids_def)
      have "inj_on se_id (set path)" using assms(2) by (simp add: distinct_map)
      moreover have "x \<in> set path" using x(1) by (simp add: kept_def)
      ultimately have "x = last a" using x(2) la(1) by (simp add: inj_on_eq_iff)
      then show False using x(1) la(2) by (simp add: kept_def)
    qed
    with la(1) show ?thesis ..
  qed
  have "set b \<subseteq> set kept" "length b \<le> length kept" using k by simp_all
  then show thesis using a(1) \<open>b \<noteq> []\<close> end_of_a that [of a] unfolding b_def by blast
qed

text \<open>C29. Extracting the branch of an entry that is not a label into a session
  of its own keeps exactly the part of the branch after its last label: the new session's branch of
  that entry is the longest suffix of the old one without label entries.  So the branch is kept whole when
  it has no label, and everything before a label that was set on the way is lost from the conversation,
  although its entries are copied.\<close>

theorem branch_extraction_exact:
  fixes m :: session_manager
  assumes "session_ok m" and "e \<in> set (getEntries m)" and "\<not> is_label e" and "getBranch (Some (se_id e)) m = Some path"
    and "branched_manager (se_id e) dw dws (m, d) = Some m'" and "good_label_draws dws m"
  shows "getBranch (Some (se_id e)) m' = Some (rev (takeWhile (\<lambda>x. \<not> is_label x) (rev path)))
    \<and> (getBranch (Some (se_id e)) m' = Some path \<longleftrightarrow> (\<forall>x \<in> set path. \<not> is_label x))
    \<and> (\<forall>x \<in> set path. \<not> is_label x \<longrightarrow> x \<in> set (getEntries m'))"
proof -
  let ?kept = "filter (\<lambda>e. \<not> is_label e) path" and ?b = "rev (takeWhile (\<lambda>x. \<not> is_label x) (rev path))"
  obtain p where p: "getBranch (Some (se_id e)) m = Some p" "root_path p" "last p = e" "subseq p (getEntries m)"
    using session_branch_path [OF assms(1,2)] by blast
  then have path: "root_path path" "last path = e" "subseq path (getEntries m)" using assms(4) by simp_all
  have t: "distinct (map se_id (getEntries m))" "[] \<notin> ids (getEntries m)"
    using assms(1) entry_tree_ids by (auto simp: session_ok_def)
  obtain les where les: "branched_entries dws m path = ?kept @ les" "distinct (map se_id (?kept @ les))"
    "ids les \<inter> ids (getEntries m) = {}" "[] \<notin> ids les"
    using branched_ids [OF path(3) t(1) assms(6)] by blast
  obtain a where a: "path = a @ ?b" "?b \<noteq> []" "set ?b \<subseteq> set ?kept" "length ?b \<le> length ?kept"
    "a = [] \<or> last a \<in> set path \<and> se_id (last a) \<notin> ids ?kept"
    using label_free_suffix [OF path(1) subseq_map_distinct [OF path(3) t(1)]] assms(3) path(2) by blast
  have sub: "set path \<subseteq> set (getEntries m)" using path(3) by (auto dest: list_emb_set)
  then have "[] \<notin> ids ?kept" using t(2) by (auto simp: ids_def)
  then have ne: "[] \<notin> ids (?kept @ les)" using les(4) by simp
  have "a = [] \<or> se_id (last a) \<notin> ids (?kept @ les)"
  proof (cases "a = []")
    case False
    then have "se_id (last a) \<in> ids (getEntries m)" using a(5) sub by (auto simp: ids_def)
    then show ?thesis using a(5) les(3) by auto
  qed simp
  moreover have "set ?b \<subseteq> set (?kept @ les)" "length ?b \<le> length (?kept @ les)" using a(3,4) by (simp_all only: set_append length_append) blast+
  ultimately have walk: "path_to (index_of (?kept @ les)) (Some e) = Some ?b"
    using extracted_walk [OF les(2) ne path(1) a(1,2)] path(2) by simp
  have pne: "path \<noteq> []" using path(1) by (simp add: root_path_def)
  have m': "getEntries m' = ?kept @ les" "sm_byId m' = index_of (?kept @ les)"
    using branched_index [OF assms(4) pne assms(5)] les(1,2) by simp_all
  have "e \<in> set ?kept" using path(2) pne assms(3) by (metis (mono_tags, lifting) last_in_set mem_Collect_eq set_filter)
  then have "map_of (index_of (?kept @ les)) (se_id e) = Some e" using index_of_lookup [OF les(2)] by (metis Un_iff set_append)
  moreover have "se_id e \<noteq> []" using t(2) assms(2) by (metis ids_def imageI)
  ultimately have br: "getBranch (Some (se_id e)) m' = Some ?b"
    using walk unfolding getBranch_def get_entry_def m'(2) by (simp add: js_falsy_def)
  have "?b = path \<longleftrightarrow> (\<forall>x \<in> set path. \<not> is_label x)"
    by (metis rev_swap set_rev takeWhile_eq_all_conv)
  then show ?thesis using br m'(1) by auto
qed

section \<open>Examples\<close>

definition plain_entry :: "string \<Rightarrow> string option \<Rightarrow> entry_body \<Rightarrow> session_entry" where
  "plain_entry i parent b = \<lparr>se_id = i, se_parentId = parent, se_timestamp = ''t'', se_body = b\<rparr>"

text \<open>A question, a label on it, an answer below the label.\<close>

definition labelled_entries :: "session_entry list" where
  "labelled_entries =
     [plain_entry ''e1'' None (MessageEntry (UserMessage (PlainText ''hi''))),
      plain_entry ''e2'' (Some ''e1'') (LabelEntry ''e1'' (Some ''start'')),
      plain_entry ''e3'' (Some ''e2'') (MessageEntry (AssistantMessage demo_answer))]"

definition memory_manager :: "session_entry list \<Rightarrow> session_manager" where
  "memory_manager es = \<lparr>sm_sessionId = ''s1'', sm_sessionFile = None, sm_sessionDir = [], sm_cwd = ''w'', sm_persist = False,
     sm_flushed = False, sm_fileEntries = Header (new_header ''s1'' (demo_draws ''s1'') ''w'' None) # map Entry es,
     sm_byId = index_of es, sm_labelsById = fold label_step es [],
     sm_leafId = (if es = [] then None else Some (se_id (last es)))\<rparr>"

lemma memory_manager_ok: "entry_tree es \<Longrightarrow> session_ok (memory_manager es)"
  by (auto simp: session_ok_def memory_manager_def getEntries_def new_header_def CURRENT_SESSION_VERSION_def ids_def)

lemma labelled_tree: "entry_tree labelled_entries"
proof -
  have "entry_tree ((([] @ [plain_entry ''e1'' None (MessageEntry (UserMessage (PlainText ''hi'')))])
      @ [plain_entry ''e2'' (Some ''e1'') (LabelEntry ''e1'' (Some ''start''))])
      @ [plain_entry ''e3'' (Some ''e2'') (MessageEntry (AssistantMessage demo_answer))])"
    by (intro entry_tree.intros) (simp_all add: plain_entry_def)
  then show ?thesis by (simp add: labelled_entries_def)
qed

definition label_draws :: "nat \<Rightarrow> draws" where
  "label_draws n = demo_draws (''L'' @ replicate n CHR ''x'')"

lemma labelled_branch: "getBranch (Some ''e3'') (memory_manager labelled_entries) = Some labelled_entries"
  by code_simp

lemma branch_extraction_exact_witness:
  "\<exists>m'. branched_manager ''e3'' (demo_draws ''s2'') label_draws (memory_manager labelled_entries, Map.empty) = Some m'
     \<and> getBranch (Some ''e3'') m' = Some [last labelled_entries]"
proof -
  let ?m = "memory_manager labelled_entries" and ?e = "last labelled_entries"
  have e: "se_id ?e = ''e3''" "?e \<in> set (getEntries ?m)" "\<not> is_label ?e" by code_simp+
  have br: "getBranch (Some (se_id ?e)) ?m = Some labelled_entries" using labelled_branch e(1) by simp
  have "length (sm_labelsById ?m) = 1" "map se_id (getEntries ?m) = [''e1'', ''e2'', ''e3'']" by code_simp+
  then have dr: "good_label_draws label_draws ?m"
    by (simp add: good_label_draws_def Let_def label_draws_def demo_draws_def ids_def flip: set_map)
  have "branched_manager ''e3'' (demo_draws ''s2'') label_draws (?m, d) \<noteq> None" for d
    using labelled_branch unfolding branched_manager_def createBranchedSession_def
    by (simp add: Let_def memory_manager_def labelled_entries_def split: option.split)
  then obtain m' where m': "branched_manager ''e3'' (demo_draws ''s2'') label_draws (?m, Map.empty) = Some m'" by blast
  have suffix: "rev (takeWhile (\<lambda>x. \<not> is_label x) (rev labelled_entries)) = [?e]" by code_simp
  have "getBranch (Some ''e3'') m' = Some [?e]"
    using branch_extraction_exact [OF memory_manager_ok [OF labelled_tree] e(2,3) br, of "demo_draws ''s2''" label_draws Map.empty m']
      m' dr suffix e(1) by simp
  then show ?thesis using m' by blast
qed

section \<open>A file that is loaded before it has an answer\<close>

text \<open>A session file that has no answer of the model yet, such as one that was
  empty or unreadable and has been replaced by a header, is written twice: opening it, appending a
  question and then an answer writes the header and the entries that the file already holds once more
  before the new ones.\<close>

theorem early_file_duplicated:
  fixes d :: disk
  assumes "d f = Some (map write_line (Header h # map Entry es))" and "f \<noteq> []" and "sh_version h = Some 3"
    and "\<not> list_ex is_assistant_entry es"
    and "\<not> (case b of MessageEntry m \<Rightarrow> is_assistant m | _ \<Rightarrow> False)"
  shows "\<exists>e1 e2. se_body e1 = b \<and> se_body e2 = MessageEntry (AssistantMessage a)
    \<and> snd (append_body (MessageEntry (AssistantMessage a)) dwb (append_body b dwa (open_manager cwd dir (Some f) True dw d))) f
      = Some (map write_line (Header h # map Entry es @ Header h # map Entry (es @ [e1, e2])))"
proof -
  define fs where "fs = map stored_line (Header h # map Entry es)"
  have mal: "Malformed \<notin> set (map write_line (Header h # map Entry es))" by (auto simp: write_line_def)
  have load: "loadEntriesFromFile d f = fs"
    unfolding loadEntriesFromFile_def assms(1) option.case if_not_P [OF mal] load_lines fs_def by simp
  have mig: "migrateToCurrentVersion (dw_uuid dw) fs = None"
    using assms(3) by (simp add: fs_def migrateToCurrentVersion_def file_version_def CURRENT_SESSION_VERSION_def)
  have hd: "find_header fs = Some h" "fs \<noteq> []" by (simp_all add: fs_def)
  have quiet: "\<not> list_ex is_assistant_entry (session_entries fs)"
    using assms(4) by (simp add: fs_def session_entries_stored list_ex_iff del: list.map map_map)
  obtain m where m: "open_manager cwd dir (Some f) True dw d = (m, d)" "sm_fileEntries m = fs" "sm_persist m"
    "sm_sessionFile m = Some f"
    using assms(1,2) hd by (simp add: open_manager_def setSessionFile_def js_falsy_def load mig Let_def buildIndex_fields)
  let ?e1 = "fresh_entry b dwa m"
  obtain m1 where m1: "append_body b dwa (m, d) = (m1, d)" "sm_fileEntries m1 = fs @ [Entry ?e1]" "sm_persist m1"
    "sm_sessionFile m1 = Some f" "\<not> sm_flushed m1"
    using m quiet assms(5) by (auto simp: append_body_def appendEntry_raw_def persist_entry_def is_assistant_entry_def fresh_entry_def)
  let ?e2 = "fresh_entry (MessageEntry (AssistantMessage a)) dwb m1"
  have lines: "map write_line fs = map write_line (Header h # map Entry es)" by (simp add: fs_def)
  have "snd (append_body (MessageEntry (AssistantMessage a)) dwb (m1, d)) f
      = Some (map write_line (Header h # map Entry es) @ map write_line (fs @ [Entry ?e1, Entry ?e2]))"
    using m1 assms(1) by (simp add: append_body_def appendEntry_raw_def persist_entry_def is_assistant_entry_def
        fresh_entry_def append_lines_def)
  then have "snd (append_body (MessageEntry (AssistantMessage a)) dwb (m1, d)) f
      = Some (map write_line (Header h # map Entry es @ Header h # map Entry (es @ [?e1, ?e2])))"
    unfolding map_append lines by simp
  moreover have "se_body ?e1 = b" "se_body ?e2 = MessageEntry (AssistantMessage a)" by (simp_all add: fresh_entry_def)
  ultimately show ?thesis using m m1 by force
qed

definition header_disk :: disk where
  "header_disk = [''f'' \<mapsto> [write_line (Header (new_header ''s1'' (demo_draws ''s1'') ''w'' None))]]"

lemma early_file_duplicated_witness:
  "\<exists>e1 e2. snd (append_body (MessageEntry (AssistantMessage demo_answer)) (demo_draws ''u2'')
      (append_body (MessageEntry (UserMessage (PlainText ''hi''))) (demo_draws ''u1'')
        (open_manager ''w'' ''s'' (Some ''f'') True (demo_draws ''s2'') header_disk))) ''f''
    = Some (map write_line [Header (new_header ''s1'' (demo_draws ''s1'') ''w'' None),
        Header (new_header ''s1'' (demo_draws ''s1'') ''w'' None), Entry e1, Entry e2])"
  using early_file_duplicated [of header_disk "''f''" "new_header ''s1'' (demo_draws ''s1'') ''w'' None" "[]"
      "MessageEntry (UserMessage (PlainText ''hi''))" demo_answer "demo_draws ''u2''" "demo_draws ''u1''" "''w''" "''s''" "demo_draws ''s2''"]
  by (auto simp: header_disk_def new_header_def CURRENT_SESSION_VERSION_def)

end
