(* ===== verification/Session_Restore.thy ===== *)
theory Session_Restore
  imports Session_Context Agent_Runs
begin

text \<open>
  When a restored conversation can be continued.  A recorded conversation is a sequence of blocks: an
  assistant turn with the results that were recorded for it, or any other message.  The repair of
  \<open>buildSessionContext\<close> removes one assistant turn; this theory says exactly when that is enough for the
  check before the next model call.
\<close>

section \<open>Recorded conversations\<close>

datatype turn_block = Quiet agent_message | Asked assistant_message "tool_result_message list"

fun block_messages :: "turn_block \<Rightarrow> agent_message list" where
  "block_messages (Quiet m) = [m]"
| "block_messages (Asked a rs) = AssistantMessage a # map ToolResult rs"

definition messages_of :: "turn_block list \<Rightarrow> agent_message list" where
  "messages_of bs = concat (map block_messages bs)"

fun block_ok :: "turn_block \<Rightarrow> bool" where
  "block_ok (Quiet m) \<longleftrightarrow> (\<forall>r. m \<noteq> ToolResult r) \<and> (\<forall>a. m = AssistantMessage a \<longrightarrow> stop_failed (am_stopReason a))"
| "block_ok (Asked a rs) \<longleftrightarrow> \<not> stop_failed (am_stopReason a) \<and> distinct (map tm_toolCallId rs)
     \<and> set (map tm_toolCallId rs) \<subseteq> set (call_ids a) \<and> (\<forall>r \<in> set rs. \<not> tm_excludeFromContext r)"

fun unanswered :: "turn_block \<Rightarrow> string list" where
  "unanswered (Quiet m) = []"
| "unanswered (Asked a rs) = filter (\<lambda>c. c \<notin> set (map tm_toolCallId rs)) (call_ids a)"

text \<open>No call id is used twice, not even by failed turns, and none is blank.\<close>

definition recorded :: "turn_block list \<Rightarrow> bool" where
  "recorded bs \<longleftrightarrow> list_all block_ok bs \<and> distinct (concat (map call_ids_of (messages_of bs)))
     \<and> (\<forall>c \<in> set (concat (map call_ids_of (messages_of bs))). \<not> js_blank c)"

lemma call_ids_of_simps [simp]:
  "call_ids_of (AssistantMessage a) = call_ids a" "call_ids_of (ToolResult r) = []"
  by (simp_all add: call_ids_of_def call_ids_def)

lemma messages_of_simps [simp]:
  "messages_of [] = []" "messages_of (b # bs) = block_messages b @ messages_of bs"
  "messages_of (bs @ cs) = messages_of bs @ messages_of cs"
  by (simp_all add: messages_of_def)

lemma result_calls [simp]: "concat (map call_ids_of (map ToolResult rs)) = []"
  by (induction rs) simp_all

lemma result_calls_composed [simp]: "concat (map (call_ids_of \<circ> ToolResult) rs) = []"
  by (induction rs) simp_all

lemma recorded_Cons:
  "recorded (b # bs) \<longleftrightarrow> block_ok b \<and> recorded bs
     \<and> distinct (concat (map call_ids_of (block_messages b)))
     \<and> (\<forall>c \<in> set (concat (map call_ids_of (block_messages b))). \<not> js_blank c)
     \<and> set (concat (map call_ids_of (block_messages b))) \<inter> set (concat (map call_ids_of (messages_of bs))) = {}"
  unfolding recorded_def messages_of_simps map_append concat_append distinct_append set_append list.pred_inject
  by blast

lemma recorded_append:
  "recorded (bs @ cs) \<longleftrightarrow> recorded bs \<and> recorded cs
     \<and> set (concat (map call_ids_of (messages_of bs))) \<inter> set (concat (map call_ids_of (messages_of cs))) = {}"
  unfolding recorded_def messages_of_simps map_append concat_append distinct_append set_append list_all_append
  by blast

section \<open>The span check of a recorded conversation\<close>

lemma span_results:
  assumes "distinct calls" "distinct rids" "set rids \<subseteq> set calls"
  shows "fold span_step (map ResultEntry rids) (calls, miss, orph) = (filter (\<lambda>c. c \<notin> set rids) calls, miss, orph)"
  using assms
proof (induction rids arbitrary: calls)
  case (Cons r rids)
  have "set rids \<subseteq> set (removeAll r calls)" using Cons.prems by auto
  then have "fold span_step (map ResultEntry rids) (removeAll r calls, miss, orph)
      = (filter (\<lambda>c. c \<notin> set rids) (removeAll r calls), miss, orph)"
    using Cons by (simp add: distinct_removeAll)
  moreover have "filter (\<lambda>c. c \<notin> set rids) (removeAll r calls) = filter (\<lambda>c. c \<notin> set (r # rids)) calls"
    by (auto simp: removeAll_filter_not_eq intro: filter_cong)
  ultimately show ?case using Cons.prems by simp
qed simp

lemma span_block:
  assumes "block_ok b" "distinct (concat (map call_ids_of (block_messages b)))"
    "\<forall>c \<in> set (concat (map call_ids_of (block_messages b))). \<not> js_blank c"
  shows "\<exists>pending miss'. fold span_step (map message_entry (block_messages b)) (p, miss, orph) = (pending, miss', orph)
    \<and> set pending \<union> set miss' = set p \<union> set miss \<union> set (unanswered b)"
proof (cases b)
  case (Quiet m)
  then show ?thesis using assms(1) by (cases m) auto
next
  case (Asked a rs)
  have d: "distinct (call_ids a)" "\<forall>c \<in> set (call_ids a). \<not> js_blank c"
    using assms(2,3) Asked by simp_all
  have "fold span_step (map message_entry (block_messages b)) (p, miss, orph)
    = fold span_step (map ResultEntry (map tm_toolCallId rs)) (call_ids a, miss @ p, orph)"
    using Asked assms(1) d by (simp add: js_set_id filter_id_conv comp_def call_ids_def)
  also have "\<dots> = (unanswered b, miss @ p, orph)"
    using span_results [OF d(1), of "map tm_toolCallId rs" "miss @ p" orph] assms(1) Asked by simp
  finally show ?thesis by auto
qed

lemma span_blocks:
  assumes "recorded bs"
  shows "\<exists>pending miss'. fold span_step (map message_entry (messages_of bs)) (p, miss, orph) = (pending, miss', orph)
    \<and> set pending \<union> set miss' = set p \<union> set miss \<union> (\<Union>b \<in> set bs. set (unanswered b))"
  using assms
proof (induction bs arbitrary: p miss)
  case (Cons b bs)
  then obtain p1 m1 where 1: "fold span_step (map message_entry (block_messages b)) (p, miss, orph) = (p1, m1, orph)"
    "set p1 \<union> set m1 = set p \<union> set miss \<union> set (unanswered b)"
    using span_block [of b p miss orph] unfolding recorded_Cons by blast
  obtain p2 m2 where 2: "fold span_step (map message_entry (messages_of bs)) (p1, m1, orph) = (p2, m2, orph)"
    "set p2 \<union> set m2 = set p1 \<union> set m1 \<union> (\<Union>b \<in> set bs. set (unanswered b))"
    using Cons.IH [of p1 m1] Cons.prems unfolding recorded_Cons by blast
  have "fold span_step (map message_entry (messages_of (b # bs))) (p, miss, orph) = (p2, m2, orph)"
    using 1(1) 2(1) by simp
  moreover have "set p2 \<union> set m2 = set p \<union> set miss \<union> (\<Union>b \<in> set (b # bs). set (unanswered b))"
    using 1(2) 2(2) by auto
  ultimately show ?case by blast
qed simp

lemma span_report:
  assumes "recorded bs"
  shows "set (si_missing (validateToolSpanIntegrity (map message_entry (messages_of bs)))) = (\<Union>b \<in> set bs. set (unanswered b))"
    "si_orphan (validateToolSpanIntegrity (map message_entry (messages_of bs))) = []"
    "si_valid (validateToolSpanIntegrity (map message_entry (messages_of bs))) \<longleftrightarrow> (\<forall>b \<in> set bs. unanswered b = [])"
proof -
  obtain p m where *: "fold span_step (map message_entry (messages_of bs)) ([], [], []) = (p, m, [])"
    "set p \<union> set m = (\<Union>b \<in> set bs. set (unanswered b))"
    using span_blocks [OF assms, of "[]" "[]" "[]"] by auto
  have r: "validateToolSpanIntegrity (map message_entry (messages_of bs)) = \<lparr>si_valid = (m @ p = []), si_missing = m @ p, si_orphan = []\<rparr>"
    using *(1) by (simp add: validateToolSpanIntegrity_def)
  show "set (si_missing (validateToolSpanIntegrity (map message_entry (messages_of bs)))) = (\<Union>b \<in> set bs. set (unanswered b))"
    "si_orphan (validateToolSpanIntegrity (map message_entry (messages_of bs))) = []"
    using r *(2) by auto
  have "m @ p = [] \<longleftrightarrow> (\<Union>b \<in> set bs. set (unanswered b)) = {}" using *(2) by auto
  then show "si_valid (validateToolSpanIntegrity (map message_entry (messages_of bs))) \<longleftrightarrow> (\<forall>b \<in> set bs. unanswered b = [])"
    using r by auto
qed

section \<open>The repair\<close>

lemma last_incomplete:
  assumes "\<exists>b \<in> set bs. unanswered b \<noteq> []"
  obtains pre a rs post where "bs = pre @ Asked a rs # post" "unanswered (Asked a rs) \<noteq> []"
    "\<forall>b \<in> set post. unanswered b = []"
proof -
  obtain pre b post where *: "bs = pre @ b # post" "unanswered b \<noteq> []" "\<forall>b \<in> set post. \<not> unanswered b \<noteq> []"
    using split_list_last_prop [OF assms] by blast
  then show thesis using that by (cases b) auto
qed

lemma repair_recorded:
  assumes "recorded bs"
  shows "\<forall>b \<in> set bs. unanswered b = [] \<Longrightarrow> repair_messages (messages_of bs) = messages_of bs"
    and "bs = pre @ Asked a rs # post \<Longrightarrow> unanswered (Asked a rs) \<noteq> [] \<Longrightarrow> \<forall>b \<in> set post. unanswered b = [] \<Longrightarrow>
      repair_messages (messages_of bs) = messages_of pre @ map ToolResult rs @ messages_of post"
proof -
  assume "\<forall>b \<in> set bs. unanswered b = []"
  then show "repair_messages (messages_of bs) = messages_of bs"
    using span_report(3) [OF assms] by (simp add: repair_messages_def Let_def)
next
  assume *: "bs = pre @ Asked a rs # post" "unanswered (Asked a rs) \<noteq> []" "\<forall>b \<in> set post. unanswered b = []"
  let ?r = "validateToolSpanIntegrity (map message_entry (messages_of bs))"
  let ?un = "\<Union>b \<in> set bs. set (unanswered b)"
  have rep: "si_missing ?r \<noteq> []" "\<not> si_valid ?r" "si_orphan ?r = []"
    using span_report [OF assms] * by auto
  have ms: "messages_of bs = messages_of pre @ AssistantMessage a # (map ToolResult rs @ messages_of post)"
    using *(1) by simp
  have bad: "has_call_in (si_missing ?r) (AssistantMessage a)"
  proof -
    obtain c where "c \<in> set (unanswered (Asked a rs))" using *(2) by (metis list.set_sel(1))
    then show ?thesis using span_report(1) [OF assms] *(1) by (auto simp: has_call_in_def list_ex_iff)
  qed
  have sub: "set (unanswered b) \<subseteq> set (concat (map call_ids_of (block_messages b)))" for b by (cases b) auto
  have rec: "set (concat (map call_ids_of (messages_of (pre @ [Asked a rs])))) \<inter> set (concat (map call_ids_of (messages_of post))) = {}"
    using assms recorded_append [of "pre @ [Asked a rs]" post] *(1) by simp
  have "\<not> has_call_in (si_missing ?r) m" if "m \<in> set (map ToolResult rs @ messages_of post)" for m
  proof (cases "m \<in> set (messages_of post)")
    case False
    then have "call_ids_of m = []" using that by auto
    then show ?thesis by (simp add: has_call_in_def)
  next
    case True
    have "?un \<subseteq> set (concat (map call_ids_of (messages_of (pre @ [Asked a rs]))))"
      using *(1,3) sub by (fastforce simp: messages_of_def)
    moreover have "set (call_ids_of m) \<subseteq> set (concat (map call_ids_of (messages_of post)))" using True by auto
    ultimately have "set (call_ids_of m) \<inter> ?un = {}" using rec by blast
    then show ?thesis using span_report(1) [OF assms] by (auto simp: has_call_in_def list_ex_iff)
  qed
  then have "split_last (has_call_in (si_missing ?r)) (messages_of bs)
    = Some (messages_of pre, AssistantMessage a, map ToolResult rs @ messages_of post)"
    unfolding ms using bad by (intro split_last_intro) (auto simp: ms)
  moreover have "filter (\<lambda>m. \<not> is_orphan [] m) ms = ms" for ms
    by (simp add: is_orphan_def filter_id_conv split: agent_message.split)
  ultimately show "repair_messages (messages_of bs) = messages_of pre @ map ToolResult rs @ messages_of post"
    using rep by (simp add: repair_messages_def Let_def)
qed


section \<open>What the next request checks\<close>

abbreviation checked_entries :: "agent_message list \<Rightarrow> entry list" where
  "checked_entries ms \<equiv> entries_of convertToLlm ms"

lemma convertToLlm_conversion [simp]: "loop_conversion convertToLlm"
  by (simp add: loop_conversion_def)

lemma checked_append [simp]: "checked_entries (ms @ ns) = checked_entries ms @ checked_entries ns"
  by (rule entries_append) simp

lemma checked_turn:
  assumes "block_ok (Asked a rs)"
  shows "checked_entries (AssistantMessage a # map ToolResult rs) = AssistantEntry (call_ids a) # map ResultEntry (map tm_toolCallId rs)"
  using assms checked_append [of "[AssistantMessage a]" "map ToolResult rs"]
    entries_results [OF convertToLlm_conversion, of rs] entries_assistant [OF convertToLlm_conversion, of a]
  by (simp add: call_ids_def)

lemma checked_quiet:
  assumes "block_ok (Quiet m)"
  shows "list_all call_free (checked_entries [m])"
proof (cases "is_assistant m")
  case True
  then obtain a where a: "m = AssistantMessage a" by (cases m) auto
  then show ?thesis using assms entries_assistant [OF convertToLlm_conversion, of a] by (simp add: call_free_def)
next
  case False
  then have "list_all plain [m]" using assms by (simp add: plain_def)
  then show ?thesis by (rule plain_entries [OF convertToLlm_conversion])
qed

lemma call_free_calls: "list_all call_free es \<Longrightarrow> all_calls es = []"
  by (induction es) (simp_all add: call_free_def)

lemma composed_results [simp]: "all_calls (map (ResultEntry \<circ> f) rs) = []"
  by (induction rs) simp_all

text \<open>The entries of a block only name its calls.\<close>

lemma block_names:
  assumes "block_ok b"
  shows "set (all_calls (checked_entries (block_messages b))) \<subseteq> set (concat (map call_ids_of (block_messages b)))"
    and "ResultEntry r \<in> set (checked_entries (block_messages b)) \<Longrightarrow> r \<in> set (concat (map call_ids_of (block_messages b)))"
proof -
  have "set (all_calls (checked_entries (block_messages b))) \<subseteq> set (concat (map call_ids_of (block_messages b)))
    \<and> (ResultEntry r \<in> set (checked_entries (block_messages b)) \<longrightarrow> r \<in> set (concat (map call_ids_of (block_messages b))))"
  proof (cases b)
    case (Quiet m)
    then have free: "list_all call_free (checked_entries [m])" using assms checked_quiet by blast
    then have "ResultEntry r \<notin> set (checked_entries [m])" by (auto simp: list_all_iff call_free_def)
    then show ?thesis using Quiet call_free_calls [OF free] by simp
  next
    case (Asked a rs)
    then show ?thesis using assms checked_turn [of a rs] by auto
  qed
  then show "set (all_calls (checked_entries (block_messages b))) \<subseteq> set (concat (map call_ids_of (block_messages b)))"
    and "ResultEntry r \<in> set (checked_entries (block_messages b)) \<Longrightarrow> r \<in> set (concat (map call_ids_of (block_messages b)))"
    by blast+
qed

lemma recorded_names:
  assumes "recorded bs"
  shows "set (all_calls (checked_entries (messages_of bs))) \<subseteq> set (concat (map call_ids_of (messages_of bs)))"
    and "ResultEntry r \<in> set (checked_entries (messages_of bs)) \<Longrightarrow> r \<in> set (concat (map call_ids_of (messages_of bs)))"
proof -
  have "set (all_calls (checked_entries (messages_of bs))) \<subseteq> set (concat (map call_ids_of (messages_of bs)))
    \<and> (ResultEntry r \<in> set (checked_entries (messages_of bs)) \<longrightarrow> r \<in> set (concat (map call_ids_of (messages_of bs))))"
    using assms
  proof (induction bs)
    case Nil
    show ?case using entries_Nil [OF convertToLlm_conversion] by simp
  next
    case (Cons b bs)
    then have "block_ok b" "recorded bs" by (simp_all add: recorded_Cons)
    then show ?case using block_names [of b] Cons.IH by fastforce
  qed
  then show "set (all_calls (checked_entries (messages_of bs))) \<subseteq> set (concat (map call_ids_of (messages_of bs)))"
    and "ResultEntry r \<in> set (checked_entries (messages_of bs)) \<Longrightarrow> r \<in> set (concat (map call_ids_of (messages_of bs)))"
    by blast+
qed

lemma complete_block:
  assumes ok: "block_ok b" "unanswered b = []" and calls: "distinct (concat (map call_ids_of (block_messages b)))"
    "\<forall>c \<in> set (concat (map call_ids_of (block_messages b))). \<not> js_blank c"
    "set (concat (map call_ids_of (block_messages b))) \<inter> S = {}"
  shows "accepts {} S (checked_entries (block_messages b))"
proof (cases b)
  case (Quiet m)
  then show ?thesis using ok checked_quiet [of m] call_free_accepts by simp
next
  case (Asked a rs)
  have "set (call_ids a) \<subseteq> set (map tm_toolCallId rs)" using ok(2) Asked by (auto simp: filter_empty_conv)
  then have "mset (map tm_toolCallId rs) = mset (call_ids a)"
    using ok(1) calls(1) Asked set_eq_iff_mset_eq_distinct [of "map tm_toolCallId rs" "call_ids a"] by auto
  then show ?thesis
    using accepts_turn [of "call_ids a" S "map tm_toolCallId rs"] calls Asked checked_turn [of a rs] ok(1) by simp
qed

lemma complete_accepted:
  assumes "recorded bs" "\<forall>b \<in> set bs. unanswered b = []" "set (concat (map call_ids_of (messages_of bs))) \<inter> S = {}"
  shows "accepts {} S (checked_entries (messages_of bs))"
  using assms
proof (induction bs arbitrary: S)
  case Nil
  show ?case using entries_Nil [OF convertToLlm_conversion] by simp
next
  case (Cons b bs)
  let ?E = "checked_entries (block_messages b)"
  have b: "block_ok b" "recorded bs" using Cons.prems(1) by (simp_all add: recorded_Cons)
  have hd: "accepts {} S ?E"
    using complete_block [of b S] Cons.prems unfolding recorded_Cons by auto
  have "set (concat (map call_ids_of (messages_of bs))) \<inter> (S \<union> set (all_calls ?E)) = {}"
    using Cons.prems(1,3) block_names(1) [OF b(1)] unfolding recorded_Cons by auto
  then have "accepts {} (S \<union> set (all_calls ?E)) (checked_entries (messages_of bs))"
    using Cons.IH b(2) Cons.prems(2) by simp
  then show ?case using accepts_append [OF hd] by simp
qed

text \<open>A call that is never answered afterwards spoils the transcript, and so does a result without its call.\<close>

lemma accepts_drop_results: "accepts P S (map ResultEntry rs @ es) \<Longrightarrow> accepts (P - set rs) S es"
proof (induction rs arbitrary: P)
  case (Cons r rs)
  have "accepts (P - {r}) S (map ResultEntry rs @ es)" using Cons.prems by simp
  then have "accepts (P - {r} - set rs) S es" by (rule Cons.IH)
  moreover have "P - set (r # rs) = P - {r} - set rs" by auto
  ultimately show ?case by (simp only:)
qed simp

lemma pending_rejected:
  "P \<noteq> {} \<Longrightarrow> ResultEntry ` P \<inter> set es = {} \<Longrightarrow> \<not> accepts P S es"
proof (induction es)
  case (Cons e es)
  have "ResultEntry ` P \<inter> set es = {}" "e \<notin> ResultEntry ` P" using Cons.prems(2) by simp_all
  moreover have "\<not> accepts P S es" by (rule Cons.IH [OF Cons.prems(1) calculation(1)])
  ultimately show ?case using Cons.prems(1) by (cases e) (simp_all, blast)
qed simp

lemma incomplete_rejected:
  assumes "recorded bs" "bs = pre @ Asked a rs # post" "unanswered (Asked a rs) \<noteq> []"
    and rest: "\<forall>r. ResultEntry r \<in> set es \<longrightarrow> r \<notin> set (call_ids a)"
  shows "\<not> accepts P S (checked_entries (messages_of bs) @ es)"
proof
  assume acc: "accepts P S (checked_entries (messages_of bs) @ es)"
  have ok: "block_ok (Asked a rs)" "recorded post"
    and apart: "set (call_ids a) \<inter> set (concat (map call_ids_of (messages_of post))) = {}"
    using assms(1) unfolding assms(2) recorded_append recorded_Cons by simp_all
  let ?rest = "checked_entries (messages_of post) @ es"
  have "checked_entries (messages_of bs) @ es
    = checked_entries (messages_of pre) @ AssistantEntry (call_ids a) # map ResultEntry (map tm_toolCallId rs) @ ?rest"
    using assms(2) checked_append [of "AssistantMessage a # map ToolResult rs" "messages_of post"] checked_turn [OF ok(1)]
    by simp
  then have "accepts P S (checked_entries (messages_of pre)
      @ AssistantEntry (call_ids a) # map ResultEntry (map tm_toolCallId rs) @ ?rest)"
    using acc by (simp only:)
  then have "\<exists>Q T. accepts Q T (AssistantEntry (call_ids a) # map ResultEntry (map tm_toolCallId rs) @ ?rest)"
    by (rule accepts_suffix)
  then obtain Q T where "accepts Q T (AssistantEntry (call_ids a) # map ResultEntry (map tm_toolCallId rs) @ ?rest)"
    by (elim exE)
  then have "accepts (set (call_ids a)) (T \<union> set (call_ids a)) (map ResultEntry (map tm_toolCallId rs) @ ?rest)"
    unfolding accepts.simps(2) by (elim conjE)
  then have dropped: "accepts (set (call_ids a) - set (map tm_toolCallId rs)) (T \<union> set (call_ids a)) ?rest"
    by (rule accepts_drop_results)
  moreover have "set (call_ids a) - set (map tm_toolCallId rs) \<noteq> {}"
    using assms(3) by (auto simp: filter_empty_conv)
  moreover have "ResultEntry r \<notin> set ?rest" if "r \<in> set (call_ids a)" for r
    using rest apart recorded_names(2) [OF ok(2), of r] that by auto
  then have "ResultEntry ` (set (call_ids a) - set (map tm_toolCallId rs)) \<inter> set ?rest = {}" by blast
  ultimately show False using dropped by (metis pending_rejected)
qed

lemma stray_result_rejected:
  assumes "recorded bs" "\<forall>b \<in> set bs. unanswered b = []"
  shows "\<not> accepts {} {} (checked_entries (messages_of bs) @ ResultEntry r # es)"
  using accepts_append [OF complete_accepted [OF assms, of "{}"]] by simp


section \<open>When a restored session can go on\<close>

lemma all_recorded_complete:
  assumes "recorded bs" "\<forall>b \<in> set bs. unanswered b = []"
  shows "validateTranscriptForModel (convertToLlm (messages_of bs)) model = TranscriptOk"
proof -
  have "well_formed_transcript (map message_entry (convertToLlm (messages_of bs)))"
    using complete_accepted [OF assms, of "{}"] by (simp add: entries_of_def flip: accepts_well_formed)
  then show ?thesis by (simp add: transcript_check_iff)
qed

text \<open>With the last unanswered turn named, both sides of the claim say the same.\<close>

lemma last_gap_accepted:
  assumes rec: "recorded bs" and bs: "bs = pre @ Asked a rs # post" "unanswered (Asked a rs) \<noteq> []"
    and post: "\<forall>b \<in> set post. unanswered b = []"
  shows "validateTranscriptForModel (convertToLlm (repair_messages (messages_of bs))) model = TranscriptOk \<longleftrightarrow>
    rs = [] \<and> (\<forall>b \<in> set pre. unanswered b = [])" (is "?ok \<longleftrightarrow> _")
proof -
  have parts: "recorded pre" "recorded post" "recorded (pre @ post)" "block_ok (Asked a rs)"
    and apart: "set (call_ids a) \<inter> set (concat (map call_ids_of (messages_of pre))) = {}"
      "set (concat (map call_ids_of (messages_of post))) \<inter> set (concat (map call_ids_of (messages_of pre))) = {}"
    using rec unfolding bs(1) recorded_append recorded_Cons by auto
  have ok: "?ok \<longleftrightarrow> accepts {} {} (checked_entries (messages_of pre) @ checked_entries (map ToolResult rs @ messages_of post))"
    using repair_recorded(2) [OF rec bs post] checked_append [of "messages_of pre" "map ToolResult rs @ messages_of post"]
    by (simp add: transcript_check_iff accepts_well_formed flip: entries_of_def)
  have results: "checked_entries (map ToolResult rs) = map ResultEntry (map tm_toolCallId rs)"
    using parts(4) by (intro entries_results) simp_all
  then have tail: "checked_entries (map ToolResult rs @ messages_of post)
      = map ResultEntry (map tm_toolCallId rs) @ checked_entries (messages_of post)" by simp
  show ?thesis
  proof (cases "\<forall>b \<in> set pre. unanswered b = []")
    case pre: True
    show ?thesis
    proof (cases rs)
      case Nil
      have "\<forall>b \<in> set (pre @ post). unanswered b = []" using pre post by auto
      then show ?thesis using complete_accepted [OF parts(3), of "{}"] pre Nil ok by simp
    next
      case (Cons r rs')
      then show ?thesis using ok unfolding tail
        using stray_result_rejected [OF parts(1) pre, of "tm_toolCallId r"
          "map ResultEntry (map tm_toolCallId rs') @ checked_entries (messages_of post)"] by simp
    qed
  next
    case pre: False
    then have "\<exists>b \<in> set pre. unanswered b \<noteq> []" by blast
    then obtain pre1 x xs mid where mid: "pre = pre1 @ Asked x xs # mid" "unanswered (Asked x xs) \<noteq> []"
      "\<forall>b \<in> set mid. unanswered b = []" by (rule last_incomplete)
    have sub: "set (call_ids x) \<subseteq> set (concat (map call_ids_of (messages_of pre)))" unfolding mid(1) by auto
    have "\<forall>r. ResultEntry r \<in> set (checked_entries (map ToolResult rs @ messages_of post)) \<longrightarrow> r \<notin> set (call_ids x)"
    proof (intro allI impI)
      fix r
      assume "ResultEntry r \<in> set (checked_entries (map ToolResult rs @ messages_of post))"
      then have "r \<in> set (call_ids a) \<union> set (concat (map call_ids_of (messages_of post)))"
        using recorded_names(2) [OF parts(2), of r] parts(4) unfolding tail by auto
      then show "r \<notin> set (call_ids x)" using sub apart by blast
    qed
    then have "\<not> ?ok" unfolding ok by (rule incomplete_rejected [OF parts(1) mid(1,2)])
    then show ?thesis using pre by blast
  qed
qed

lemma last_gap_only:
  assumes bs: "bs = pre @ Asked a rs # post" "unanswered (Asked a rs) \<noteq> []" and post: "\<forall>b \<in> set post. unanswered b = []"
  shows "(\<exists>before x after. bs = before @ Asked x [] # after \<and> (\<forall>b \<in> set (before @ after). unanswered b = [])) \<longleftrightarrow>
    rs = [] \<and> (\<forall>b \<in> set pre. unanswered b = [])" (is "?one \<longleftrightarrow> _")
proof
  assume ?one
  then obtain before x after where "bs = before @ Asked x [] # after" "\<forall>b \<in> set (before @ after). unanswered b = []"
    by blast
  note one = this(1) [unfolded bs(1)] this(2)
  have "Asked a rs \<in> set (before @ Asked x [] # after)" by (simp flip: one(1))
  moreover have "Asked a rs \<notin> set (before @ after)" using one(2) bs(2) by blast
  ultimately have rs: "rs = []" by simp
  have "length (filter (\<lambda>b. unanswered b \<noteq> []) (pre @ Asked a rs # post)) \<le> 1"
    unfolding one(1) using one(2) by (simp add: filter_False)
  then have "filter (\<lambda>b. unanswered b \<noteq> []) pre = []" using bs(2) by simp
  then show "rs = [] \<and> (\<forall>b \<in> set pre. unanswered b = [])" using rs by (simp add: filter_empty_conv)
next
  assume *: "rs = [] \<and> (\<forall>b \<in> set pre. unanswered b = [])"
  then have "\<forall>b \<in> set (pre @ post). unanswered b = []" using post by auto
  then show ?one using * bs(1) by blast
qed

text \<open>C13. Restoring a session repairs its messages.  For a recorded
  conversation, in which no call id is used twice and every recorded result follows its turn, the repaired
  messages pass the check before the next model call exactly when every call has its result, or when one turn
  alone is unanswered and none of its results was recorded.  A parallel batch interrupted after its first result,
  or two interrupted turns, leave a session in which every later request is refused.\<close>

theorem restored_transcript_exact:
  fixes bs :: "turn_block list" and model :: model_ref
  assumes "recorded bs"
  shows "validateTranscriptForModel (convertToLlm (repair_messages (messages_of bs))) model = TranscriptOk \<longleftrightarrow>
    (\<forall>b \<in> set bs. unanswered b = [])
    \<or> (\<exists>pre a post. bs = pre @ Asked a [] # post \<and> (\<forall>b \<in> set (pre @ post). unanswered b = []))"
proof (cases "\<forall>b \<in> set bs. unanswered b = []")
  case True
  then show ?thesis using repair_recorded(1) [OF assms True] all_recorded_complete [OF assms True, of model] by simp
next
  case False
  then obtain pre a rs post where bs: "bs = pre @ Asked a rs # post" "unanswered (Asked a rs) \<noteq> []"
    and post: "\<forall>b \<in> set post. unanswered b = []" using last_incomplete [of bs] by blast
  show ?thesis
    unfolding last_gap_accepted [OF assms bs post] last_gap_only [OF bs post] using False by blast
qed

text \<open>A batch of two calls, interrupted after the first result.\<close>

definition cut_turn :: assistant_message where
  "cut_turn = \<lparr>am_content = [ToolCallBlock \<lparr>cb_id = ''a'', cb_name = ''read'', cb_arguments = JObj []\<rparr>,
       ToolCallBlock \<lparr>cb_id = ''b'', cb_name = ''read'', cb_arguments = JObj []\<rparr>],
     am_api = ''x'', am_provider = ''p'', am_model = ''m'', am_stopReason = Stop_toolUse, am_errorMessage = None\<rparr>"

definition cut_result :: tool_result_message where
  "cut_result = \<lparr>tm_toolCallId = ''a'', tm_toolName = ''read'', tm_content = Some [TextBlock ''text''], tm_details = None,
     tm_isError = False, tm_excludeFromContext = False\<rparr>"

lemma cut_recorded:
  assumes "\<forall>c \<in> {''a'', ''b''}. \<not> js_blank c"
  shows "recorded [Quiet (user_text ''go''), Asked cut_turn rs, Quiet (user_text ''on'')]
    \<longleftrightarrow> block_ok (Asked cut_turn rs)"
  using assms by (auto simp: recorded_def cut_turn_def call_ids_def call_ids_of_def user_text_def)

theorem restored_transcript_exact_witness:
  "validateTranscriptForModel (convertToLlm (repair_messages
      (messages_of [Quiet (user_text ''go''), Asked cut_turn [cut_result], Quiet (user_text ''on'')])))
      \<lparr>md_api = ''x'', md_provider = ''p'', md_id = ''m''\<rparr> \<noteq> TranscriptOk
   \<and> validateTranscriptForModel (convertToLlm (repair_messages
      (messages_of [Quiet (user_text ''go''), Asked cut_turn [], Quiet (user_text ''on'')])))
      \<lparr>md_api = ''x'', md_provider = ''p'', md_id = ''m''\<rparr> = TranscriptOk"
proof -
  have blank: "\<forall>c \<in> {''a'', ''b''}. \<not> js_blank c" by (simp; code_simp)
  have r: "recorded [Quiet (user_text ''go''), Asked cut_turn [cut_result], Quiet (user_text ''on'')]"
    "recorded [Quiet (user_text ''go''), Asked cut_turn [], Quiet (user_text ''on'')]"
    unfolding cut_recorded [OF blank]
    by (simp_all add: cut_turn_def cut_result_def call_ids_def stop_failed_def)
  have gap: "unanswered (Asked cut_turn [cut_result]) = [''b'']" "unanswered (Asked cut_turn []) = [''a'', ''b'']"
    by (simp_all add: cut_turn_def cut_result_def call_ids_def)
  have two: "[Quiet (user_text ''go''), Asked cut_turn rs, Quiet (user_text ''on'')]
    = [Quiet (user_text ''go'')] @ Asked cut_turn rs # [Quiet (user_text ''on'')]" for rs by simp
  show ?thesis
    unfolding restored_transcript_exact [OF r(1)] restored_transcript_exact [OF r(2)]
    unfolding two using gap last_gap_only [OF refl, of cut_turn "[cut_result]" "[Quiet (user_text ''on'')]"]
      last_gap_only [OF refl, of cut_turn "[]" "[Quiet (user_text ''on'')]" "[Quiet (user_text ''go'')]"]
    by (simp del: append.simps)
qed

end
