(* ===== verification/Compaction_Text.thy ===== *)
theory Compaction_Text
  imports Session_Context Json_Injective
begin

text \<open>
  What compaction and branch summaries share, \<open>core/compaction/utils.ts\<close>: the files a conversation touched,
  the text of a conversation that is given to the summarizing model, and the canonical JSON of a value,
  \<open>toCanonicalContextJson\<close> of \<open>agent/src/context-engine.ts\<close>.  A \<open>TypeError\<close> is \<open>None\<close>.
\<close>

section \<open>JSON texts\<close>

text \<open>\<open>JSON.stringify\<close>: members that are \<open>undefined\<close> are left out, elements that are \<open>undefined\<close> are written
  as \<open>null\<close>, and so are the numbers that are not finite.\<close>

fun json_text :: "json \<Rightarrow> string option"
  and json_items :: "json list \<Rightarrow> string list"
  and json_members :: "(string \<times> json) list \<Rightarrow> string list" where
  "json_text JUndefined = None"
| "json_text JNull = Some ''null''"
| "json_text (JStr s) = Some (serializeString s)"
| "json_text (JBool b) = Some (if b then ''true'' else ''false'')"
| "json_text (JNum n) = Some (stable_number n)"
| "json_text (JArr xs) = Some (''['' @ join_comma (json_items xs) @ '']'')"
| "json_text (JObj ms) = Some (''{'' @ join_comma (json_members ms) @ ''}'')"
| "json_items [] = []"
| "json_items (x # xs) = (case json_text x of None \<Rightarrow> ''null'' | Some t \<Rightarrow> t) # json_items xs"
| "json_members [] = []"
| "json_members ((k, v) # ms) =
     (case json_text v of None \<Rightarrow> json_members ms | Some t \<Rightarrow> (serializeString k @ '':'' @ t) # json_members ms)"

text \<open>\<open>value.replace(/\r\n?/g, "\n")\<close>.\<close>

fun normalizeNewlines :: "string \<Rightarrow> string" where
  "normalizeNewlines [] = []"
| "normalizeNewlines (c # cs) =
     (if c = char_of (13::nat)
      then char_of (10::nat) # (case cs of
             [] \<Rightarrow> []
           | d # ds \<Rightarrow> if d = char_of (10::nat) then normalizeNewlines ds else normalizeNewlines cs)
      else c # normalizeNewlines cs)"

text \<open>The values are trees, so no value is met inside itself.  \<open>Object.keys(value).sort()\<close> orders the members;
  keys that are array indices, which an object lists first in any case, are not told apart.\<close>

fun canonicalize_value :: "bool \<Rightarrow> json \<Rightarrow> json"
  and canonicalize_items :: "bool \<Rightarrow> json list \<Rightarrow> json list"
  and canonicalize_members :: "bool \<Rightarrow> (string \<times> json) list \<Rightarrow> (string \<times> json) list" where
  "canonicalize_value norm (JStr s) = JStr (if norm then normalizeNewlines s else s)"
| "canonicalize_value norm JNull = JNull"
| "canonicalize_value norm (JBool b) = JBool b"
| "canonicalize_value norm (JNum n) = JNum n"
| "canonicalize_value norm JUndefined = JUndefined"
| "canonicalize_value norm (JArr xs) = JArr (canonicalize_items norm xs)"
| "canonicalize_value norm (JObj ms) = JObj (filter (\<lambda>(k, v). v \<noteq> JUndefined) (sort_key fst (canonicalize_members norm ms)))"
| "canonicalize_items norm [] = []"
| "canonicalize_items norm (x # xs) =
     (case canonicalize_value norm x of JUndefined \<Rightarrow> JNull | v \<Rightarrow> v) # canonicalize_items norm xs"
| "canonicalize_members norm [] = []"
| "canonicalize_members norm ((k, v) # ms) = (k, canonicalize_value norm v) # canonicalize_members norm ms"

definition toCanonicalContextJson :: "json \<Rightarrow> bool \<Rightarrow> string option" where
  "toCanonicalContextJson v norm = json_text (canonicalize_value norm v)"

text \<open>\<open>Buffer.byteLength(s, "utf8")\<close> on the code units up to 255.\<close>

definition utf8_length :: "string \<Rightarrow> nat" where
  "utf8_length s = sum_list (map (\<lambda>c. if (of_char c :: nat) < 128 then 1 else 2) s)"

section \<open>Files\<close>

record file_ops =
  fo_read :: "string list"
  fo_written :: "string list"
  fo_edited :: "string list"

definition createFileOps :: file_ops where
  "createFileOps = \<lparr>fo_read = [], fo_written = [], fo_edited = []\<rparr>"

definition call_path :: "json \<Rightarrow> string option" where
  "call_path args = (case jget args ''path'' of JStr p \<Rightarrow> if p = [] then None else Some p | _ \<Rightarrow> None)"

definition file_op_step :: "call_block \<Rightarrow> file_ops \<Rightarrow> file_ops" where
  "file_op_step c ops =
     (case call_path (cb_arguments c) of
        None \<Rightarrow> ops
      | Some p \<Rightarrow>
          if cb_name c = ''read'' then ops\<lparr>fo_read := set_add p (fo_read ops)\<rparr>
          else if cb_name c = ''write'' then ops\<lparr>fo_written := set_add p (fo_written ops)\<rparr>
          else if cb_name c = ''edit'' then ops\<lparr>fo_edited := set_add p (fo_edited ops)\<rparr>
          else ops)"

definition extractFileOpsFromMessage :: "agent_message \<Rightarrow> file_ops \<Rightarrow> file_ops" where
  "extractFileOpsFromMessage m ops =
     (case m of AssistantMessage a \<Rightarrow> fold file_op_step (tool_calls_of (am_content a)) ops | _ \<Rightarrow> ops)"

definition computeFileLists :: "file_ops \<Rightarrow> string list \<times> string list" where
  "computeFileLists ops =
     (let modified = js_set (fo_edited ops @ fo_written ops)
      in (sort (filter (\<lambda>f. f \<notin> set modified) (fo_read ops)), sort modified))"

definition file_section :: "string \<Rightarrow> string list \<Rightarrow> string list" where
  "file_section tag fs =
     (if fs = [] then [] else [''<'' @ tag @ ''>'' @ newline @ join_with newline fs @ newline @ ''</'' @ tag @ ''>''])"

definition formatFileOperations :: "string list \<Rightarrow> string list \<Rightarrow> string" where
  "formatFileOperations readFiles modifiedFiles =
     (let sections = file_section ''read-files'' readFiles @ file_section ''modified-files'' modifiedFiles
      in if sections = [] then [] else newline @ newline @ join_with (newline @ newline) sections)"

section \<open>The text of a conversation\<close>

definition TOOL_RESULT_MAX_CHARS :: nat where
  "TOOL_RESULT_MAX_CHARS = 2000"

definition truncateForSummary :: "string \<Rightarrow> nat \<Rightarrow> string" where
  "truncateForSummary t maxChars =
     (if length t \<le> maxChars then t
      else take maxChars t @ newline @ newline @ ''[... '' @ nat_text (length t - maxChars) @ '' more characters truncated]'')"

fun texts_of :: "block list \<Rightarrow> string list" where
  "texts_of [] = []"
| "texts_of (TextBlock t # bs) = t # texts_of bs"
| "texts_of (b # bs) = texts_of bs"

fun thinking_of :: "block list \<Rightarrow> string list" where
  "thinking_of [] = []"
| "thinking_of (ThinkingBlock t # bs) = t # thinking_of bs"
| "thinking_of (b # bs) = thinking_of bs"

text \<open>\<open>Object.entries\<close>: \<open>null\<close> and \<open>undefined\<close> throw, arrays and strings list their indices.\<close>

definition object_entries :: "json \<Rightarrow> (string \<times> json) list option" where
  "object_entries v =
     (case v of
        JUndefined \<Rightarrow> None
      | JNull \<Rightarrow> None
      | JObj ms \<Rightarrow> Some ms
      | JArr xs \<Rightarrow> Some (zip (map nat_text [0..<length xs]) xs)
      | JStr s \<Rightarrow> Some (zip (map nat_text [0..<length s]) (map (\<lambda>c. JStr [c]) s))
      | _ \<Rightarrow> Some [])"

definition call_text :: "call_block \<Rightarrow> string option" where
  "call_text c =
     map_option (\<lambda>es. cb_name c @ ''('' @ join_with '', ''
         (map (\<lambda>(k, v). k @ ''='' @ (case json_text v of None \<Rightarrow> ''undefined'' | Some t \<Rightarrow> t)) es) @ '')'')
       (object_entries (cb_arguments c))"

definition part_if :: "bool \<Rightarrow> string \<Rightarrow> string list" where
  "part_if b t = (if b then [t] else [])"

definition serialize_message :: "agent_message \<Rightarrow> string list option" where
  "serialize_message m =
     (case m of
        UserMessage c \<Rightarrow>
          (let content = (case c of PlainText t \<Rightarrow> t | Blocks bs \<Rightarrow> concat (texts_of bs))
           in Some (part_if (content \<noteq> []) (''[User]: '' @ content)))
      | AssistantMessage a \<Rightarrow>
          map_option (\<lambda>calls.
              part_if (thinking_of (am_content a) \<noteq> []) (''[Assistant thinking]: '' @ join_with newline (thinking_of (am_content a)))
            @ part_if (texts_of (am_content a) \<noteq> []) (''[Assistant]: '' @ join_with newline (texts_of (am_content a)))
            @ part_if (calls \<noteq> []) (''[Assistant tool calls]: '' @ join_with ''; '' calls))
            (all_some (map call_text (tool_calls_of (am_content a))))
      | ToolResult r \<Rightarrow>
          map_option (\<lambda>bs. let content = concat (texts_of bs)
              in part_if (content \<noteq> []) (''[Tool result]: '' @ truncateForSummary content TOOL_RESULT_MAX_CHARS))
            (tm_content r)
      | _ \<Rightarrow> Some [])"

definition serializeConversation :: "agent_message list \<Rightarrow> string option" where
  "serializeConversation ms =
     map_option (\<lambda>parts. join_with (newline @ newline) (concat parts)) (all_some (map serialize_message ms))"

definition SUMMARIZATION_SYSTEM_PROMPT :: string where
  "SUMMARIZATION_SYSTEM_PROMPT =
     ''You are a context summarization assistant. Your task is to read a conversation between a user and an AI coding assistant, then produce a structured summary following the exact format specified.''
     @ newline @ newline
     @ ''Do NOT continue the conversation. Do NOT respond to any questions in the conversation. ONLY output the structured summary.''"

end
