(* ===== verification/Session_Compaction.thy ===== *)
theory Session_Compaction
  imports Compaction_Text
begin

text \<open>
  The compaction of long sessions, \<open>core/compaction/compaction.ts\<close>: the estimate of a context, the cut point,
  the preparation of a compaction and its result.  The usage a provider reported with an answer is an argument,
  given per entry; so are SHA-256, the order of \<open>localeCompare\<close> and the model that writes the summaries.
  A \<open>TypeError\<close> is \<open>None\<close>; token counts are integers.
\<close>

section \<open>Tokens\<close>

record token_usage =
  tu_input :: int
  tu_output :: int
  tu_cacheRead :: int
  tu_cacheWrite :: int
  tu_totalTokens :: int

definition calculateContextTokens :: "token_usage \<Rightarrow> int" where
  "calculateContextTokens u =
     (if tu_totalTokens u \<noteq> 0 then tu_totalTokens u
      else tu_input u + tu_output u + tu_cacheRead u + tu_cacheWrite u)"

text \<open>A message with the usage reported for it.\<close>

definition getAssistantUsage :: "agent_message \<times> token_usage option \<Rightarrow> token_usage option" where
  "getAssistantUsage p =
     (case fst p of AssistantMessage a \<Rightarrow> if stop_failed (am_stopReason a) then None else snd p | _ \<Rightarrow> None)"

fun block_chars :: "block \<Rightarrow> nat" where
  "block_chars (TextBlock t) = length t"
| "block_chars b = 0"

fun result_chars :: "block \<Rightarrow> nat" where
  "result_chars (TextBlock t) = length t"
| "result_chars (ImageBlock d m) = 4800"
| "result_chars b = 0"

fun answer_chars :: "block \<Rightarrow> nat option" where
  "answer_chars (TextBlock t) = Some (length t)"
| "answer_chars (ThinkingBlock t) = Some (length t)"
| "answer_chars (ToolCallBlock c) = map_option (\<lambda>t. length (cb_name c) + length t) (json_text (cb_arguments c))"
| "answer_chars (ImageBlock d m) = Some 0"

definition quarter :: "nat \<Rightarrow> int" where
  "quarter chars = int ((chars + 3) div 4)"

fun estimateTokens :: "agent_message \<Rightarrow> int option" where
  "estimateTokens (UserMessage c) =
     Some (quarter (case c of PlainText t \<Rightarrow> length t | Blocks bs \<Rightarrow> sum_list (map block_chars bs)))"
| "estimateTokens (AssistantMessage a) =
     map_option (\<lambda>ns. quarter (sum_list ns)) (all_some (map answer_chars (am_content a)))"
| "estimateTokens (CustomMessage ty c) =
     Some (quarter (case c of PlainText t \<Rightarrow> length t | Blocks bs \<Rightarrow> sum_list (map result_chars bs)))"
| "estimateTokens (ToolResult r) = map_option (\<lambda>bs. quarter (sum_list (map result_chars bs))) (tm_content r)"
| "estimateTokens (BashExecution b) = Some (quarter (length (bx_command b) + length (bx_output b)))"
| "estimateTokens (BranchSummary s from) = Some (quarter (length s))"
| "estimateTokens (CompactionSummary s n) = Some (quarter (length s))"
| "estimateTokens (MemoryContext t) = Some 0"

record context_estimate =
  ce_tokens :: int
  ce_usageTokens :: int
  ce_trailingTokens :: int
  ce_lastUsageIndex :: "nat option"

definition total_estimate :: "agent_message list \<Rightarrow> int option" where
  "total_estimate ms = map_option sum_list (all_some (map estimateTokens ms))"

definition estimateContextTokens :: "(agent_message \<times> token_usage option) list \<Rightarrow> context_estimate option" where
  "estimateContextTokens ps =
     (case List.find (\<lambda>i. getAssistantUsage (ps ! i) \<noteq> None) (rev [0..<length ps]) of
        None \<Rightarrow> map_option (\<lambda>t. \<lparr>ce_tokens = t, ce_usageTokens = 0, ce_trailingTokens = t, ce_lastUsageIndex = None\<rparr>)
          (total_estimate (map fst ps))
      | Some i \<Rightarrow>
          (let u = calculateContextTokens (the (getAssistantUsage (ps ! i)))
           in map_option (\<lambda>t. \<lparr>ce_tokens = u + t, ce_usageTokens = u, ce_trailingTokens = t, ce_lastUsageIndex = Some i\<rparr>)
             (total_estimate (map fst (drop (Suc i) ps)))))"

record compaction_settings =
  cs_enabled :: bool
  cs_reserveTokens :: int
  cs_keepRecentTokens :: int

definition DEFAULT_COMPACTION_SETTINGS :: compaction_settings where
  "DEFAULT_COMPACTION_SETTINGS = \<lparr>cs_enabled = True, cs_reserveTokens = 16384, cs_keepRecentTokens = 20000\<rparr>"

definition shouldCompact :: "int \<Rightarrow> int \<Rightarrow> compaction_settings \<Rightarrow> bool" where
  "shouldCompact tokens window s \<longleftrightarrow> cs_enabled s \<and> tokens > window - cs_reserveTokens s"

section \<open>Spans across the cut\<close>

definition used_call_ids :: "agent_message list \<Rightarrow> string list" where
  "used_call_ids ms = js_set (filter (\<lambda>i. i \<noteq> []) (concat (map call_ids_of ms)))"

fun result_ids_of :: "agent_message list \<Rightarrow> string list" where
  "result_ids_of [] = []"
| "result_ids_of (ToolResult r # ms) = tm_toolCallId r # result_ids_of ms"
| "result_ids_of (m # ms) = result_ids_of ms"

text \<open>\<open>None\<close>: valid; \<open>Some\<close>: the violation.\<close>

definition validateCompactionSpanIntegrity :: "agent_message list \<Rightarrow> agent_message list \<Rightarrow> string option" where
  "validateCompactionSpanIntegrity summarized retained =
     (case List.find (\<lambda>c. c \<notin> set (result_ids_of summarized) \<and> c \<in> set (result_ids_of retained)) (used_call_ids summarized) of
        Some c \<Rightarrow> Some (''Tool call '' @ c @ '' in summarized region but its result is in retained region (split span)'')
      | None \<Rightarrow>
          (case List.find (\<lambda>r. r \<notin> set (used_call_ids retained) \<and> r \<in> set (used_call_ids summarized)) (js_set (result_ids_of retained)) of
             Some r \<Rightarrow> Some (''Tool result '' @ r @ '' in retained region but its call is in summarized region (split span)'')
           | None \<Rightarrow> None))"

section \<open>The cut point\<close>

text \<open>An entry of type \<open>message\<close>; the unknown role \<open>hookMessage\<close> is counted as no tokens and is no cut point.\<close>

definition is_message :: "session_entry \<Rightarrow> bool" where
  "is_message e \<longleftrightarrow> (case se_body e of MessageEntry m \<Rightarrow> True | HookMessageEntry ty c \<Rightarrow> True | _ \<Rightarrow> False)"

fun cut_role :: "agent_message \<Rightarrow> bool" where
  "cut_role (ToolResult r) = False"
| "cut_role (MemoryContext t) = False"
| "cut_role m = True"

definition is_cut_point :: "session_entry \<Rightarrow> bool" where
  "is_cut_point e \<longleftrightarrow>
     (case se_body e of
        MessageEntry m \<Rightarrow> cut_role m
      | BranchSummaryEntry from summary details hook \<Rightarrow> True
      | CustomMessageEntry ty c details display \<Rightarrow> True
      | _ \<Rightarrow> False)"

definition findValidCutPoints :: "session_entry list \<Rightarrow> nat \<Rightarrow> nat \<Rightarrow> nat list" where
  "findValidCutPoints es start stop = filter (\<lambda>i. is_cut_point (es ! i)) [start..<stop]"

definition starts_turn :: "session_entry \<Rightarrow> bool" where
  "starts_turn e \<longleftrightarrow>
     (case se_body e of
        BranchSummaryEntry from summary details hook \<Rightarrow> True
      | CustomMessageEntry ty c details display \<Rightarrow> True
      | MessageEntry (UserMessage c) \<Rightarrow> True
      | MessageEntry (BashExecution b) \<Rightarrow> True
      | _ \<Rightarrow> False)"

text \<open>\<open>None\<close> is the index \<open>-1\<close>.\<close>

definition findTurnStartIndex :: "session_entry list \<Rightarrow> nat \<Rightarrow> nat \<Rightarrow> nat option" where
  "findTurnStartIndex es i start = List.find (\<lambda>j. starts_turn (es ! j)) (rev [start..<Suc i])"

record cut_point =
  cp_firstKept :: nat
  cp_turnStart :: "nat option"
  cp_isSplitTurn :: bool

text \<open>The walk from the newest entry back: the index at which the budget is reached, if it is.\<close>

fun budget_walk :: "session_entry list \<Rightarrow> int \<Rightarrow> nat list \<Rightarrow> int \<Rightarrow> nat option option" where
  "budget_walk es keep [] acc = Some None"
| "budget_walk es keep (i # rest) acc =
     (if \<not> is_message (es ! i) then budget_walk es keep rest acc
      else case (case se_body (es ! i) of MessageEntry m \<Rightarrow> estimateTokens m | _ \<Rightarrow> Some 0) of
             None \<Rightarrow> None
           | Some t \<Rightarrow> if acc + t \<ge> keep then Some (Some i) else budget_walk es keep rest (acc + t))"

fun scan_back :: "session_entry list \<Rightarrow> nat \<Rightarrow> nat \<Rightarrow> nat" where
  "scan_back es start 0 = 0"
| "scan_back es start (Suc c) =
     (if Suc c > start \<and> (case se_body (es ! c) of Compaction k \<Rightarrow> False | _ \<Rightarrow> True) \<and> \<not> is_message (es ! c)
      then scan_back es start c else Suc c)"

definition is_user_entry :: "session_entry \<Rightarrow> bool" where
  "is_user_entry e \<longleftrightarrow> (case se_body e of MessageEntry (UserMessage c) \<Rightarrow> True | _ \<Rightarrow> False)"

text \<open>Reading an entry past the end of the array throws.\<close>

definition findCutPoint :: "session_entry list \<Rightarrow> nat \<Rightarrow> nat \<Rightarrow> int \<Rightarrow> cut_point option" where
  "findCutPoint es start stop keep =
     (if start < stop \<and> length es < stop then None
      else case findValidCutPoints es start stop of
        [] \<Rightarrow> Some \<lparr>cp_firstKept = start, cp_turnStart = None, cp_isSplitTurn = False\<rparr>
      | first # others \<Rightarrow>
          (case budget_walk es keep (rev [start..<stop]) 0 of
             None \<Rightarrow> None
           | Some reached \<Rightarrow>
               (let cp = (case reached of
                             None \<Rightarrow> first
                           | Some i \<Rightarrow> (case List.find (\<lambda>c. c \<ge> i) (first # others) of None \<Rightarrow> first | Some c \<Rightarrow> c));
                    kept = scan_back es start cp;
                    turn = (if is_user_entry (es ! kept) then None else findTurnStartIndex es kept start)
                in Some \<lparr>cp_firstKept = kept, cp_turnStart = turn, cp_isSplitTurn = (turn \<noteq> None)\<rparr>)))"

section \<open>Tool evidence\<close>

record tool_evidence =
  ev_toolCallId :: string
  ev_toolName :: string
  ev_contentHash :: string
  ev_contentBytes :: int
  ev_contentTypes :: "string list"
  ev_isError :: bool
  ev_excerpt :: "string option"

fun block_type :: "block \<Rightarrow> string" where
  "block_type (TextBlock t) = ''text''"
| "block_type (ThinkingBlock t) = ''thinking''"
| "block_type (ImageBlock d m) = ''image''"
| "block_type (ToolCallBlock c) = ''toolCall''"

text \<open>\<open>text.replace(/\s+/g, " ")\<close>.\<close>

function single_spaces :: "string \<Rightarrow> string" where
  "single_spaces [] = []"
| "single_spaces (c # cs) = (if js_ws c then CHR '' '' # single_spaces (dropWhile js_ws cs) else c # single_spaces cs)"
  by pat_completeness auto
termination
  by (relation "measure length") (simp_all add: le_imp_less_Suc length_dropWhile_le)

definition evidence_excerpt :: "block list \<Rightarrow> string" where
  "evidence_excerpt bs =
     take 240 (join_with '' '' (filter (\<lambda>t. t \<noteq> []) (map (\<lambda>t. js_trim (single_spaces t)) (texts_of bs))))"

definition createToolEvidenceReference :: "(string \<Rightarrow> string) \<Rightarrow> tool_result_message \<Rightarrow> tool_evidence option" where
  "createToolEvidenceReference sha r =
     map_option (\<lambda>bs.
         let canonical = the (toCanonicalContextJson (JArr (map block_value bs)) True)
         in \<lparr>ev_toolCallId = tm_toolCallId r, ev_toolName = tm_toolName r, ev_contentHash = sha canonical,
             ev_contentBytes = int (utf8_length canonical), ev_contentTypes = sort (js_set (map block_type bs)),
             ev_isError = tm_isError r,
             ev_excerpt = (if evidence_excerpt bs = [] then None else Some (evidence_excerpt bs))\<rparr>)
       (tm_content r)"

definition evidence_value :: "tool_evidence \<Rightarrow> json" where
  "evidence_value e = JObj
     [(''toolCallId'', JStr (ev_toolCallId e)), (''toolName'', JStr (ev_toolName e)),
      (''contentHash'', JStr (ev_contentHash e)), (''contentBytes'', JNum (IntNum (ev_contentBytes e))),
      (''contentTypes'', JArr (map JStr (ev_contentTypes e))), (''isError'', JBool (ev_isError e)),
      (''excerpt'', optional_value JStr (ev_excerpt e))]"

text \<open>The details of an earlier compaction are read as what this code stores there: a value that is no evidence
  reference, or no string in a list of files, is passed over.\<close>

fun string_items :: "json list \<Rightarrow> string list" where
  "string_items [] = []"
| "string_items (JStr s # xs) = s # string_items xs"
| "string_items (v # xs) = string_items xs"

definition parse_evidence :: "json \<Rightarrow> tool_evidence option" where
  "parse_evidence v =
     (case (jget v ''toolCallId'', jget v ''toolName'', jget v ''contentHash'', jget v ''contentBytes'', jget v ''contentTypes'',
            jget v ''isError'') of
        (JStr i, JStr n, JStr h, JNum (IntNum b), JArr ts, JBool err) \<Rightarrow>
          Some \<lparr>ev_toolCallId = i, ev_toolName = n, ev_contentHash = h, ev_contentBytes = b,
            ev_contentTypes = string_items ts, ev_isError = err,
            ev_excerpt = (case jget v ''excerpt'' of JStr s \<Rightarrow> Some s | _ \<Rightarrow> None)\<rparr>
      | _ \<Rightarrow> None)"

definition evidence_address :: "tool_evidence \<Rightarrow> string" where
  "evidence_address e = ev_toolCallId e @ '':'' @ ev_contentHash e"

definition evidence_le :: "(string \<Rightarrow> string \<Rightarrow> int) \<Rightarrow> tool_evidence \<Rightarrow> tool_evidence \<Rightarrow> bool" where
  "evidence_le localeCompare a b \<longleftrightarrow>
     (if localeCompare (ev_toolCallId a) (ev_toolCallId b) \<noteq> 0
      then localeCompare (ev_toolCallId a) (ev_toolCallId b) \<le> 0
      else localeCompare (ev_contentHash a) (ev_contentHash b) \<le> 0)"

definition compaction_of :: "session_entry \<Rightarrow> compaction option" where
  "compaction_of e = (case se_body e of Compaction c \<Rightarrow> Some c | _ \<Rightarrow> None)"

definition stored_details :: "compaction option \<Rightarrow> json" where
  "stored_details prev = (case prev of None \<Rightarrow> JUndefined | Some c \<Rightarrow> (case co_details c of None \<Rightarrow> JUndefined | Some d \<Rightarrow> d))"

definition previous_evidence :: "compaction option \<Rightarrow> tool_evidence list" where
  "previous_evidence prev =
     List.map_filter parse_evidence (array_items (jget (jget (stored_details prev) ''checkpoint'') ''toolEvidence''))"

fun tool_results_of :: "agent_message list \<Rightarrow> tool_result_message list" where
  "tool_results_of [] = []"
| "tool_results_of (ToolResult r # ms) = r # tool_results_of ms"
| "tool_results_of (m # ms) = tool_results_of ms"

definition collectToolEvidence ::
  "(string \<Rightarrow> string) \<Rightarrow> (string \<Rightarrow> string \<Rightarrow> int) \<Rightarrow> agent_message list \<Rightarrow> compaction option \<Rightarrow> tool_evidence list option" where
  "collectToolEvidence sha localeCompare ms prev =
     map_option (\<lambda>new. sort_by (evidence_le localeCompare)
         (map snd (fold (\<lambda>e. assoc_set (evidence_address e) e) (previous_evidence prev @ new) [])))
       (all_some (map (createToolEvidenceReference sha) (tool_results_of ms)))"

definition extractFileOperations :: "agent_message list \<Rightarrow> compaction option \<Rightarrow> file_ops" where
  "extractFileOperations ms prev =
     (let stored = (case prev of
                      None \<Rightarrow> JUndefined
                    | Some c \<Rightarrow> if co_fromHook c = Some True then JUndefined else stored_details prev);
          ops = createFileOps\<lparr>fo_read := js_set (string_items (array_items (jget stored ''readFiles''))),
                  fo_edited := js_set (string_items (array_items (jget stored ''modifiedFiles'')))\<rparr>
      in fold extractFileOpsFromMessage ms ops)"

section \<open>The preparation\<close>

definition getMessageFromEntry :: "session_entry \<Rightarrow> agent_message option" where
  "getMessageFromEntry e =
     (case se_body e of
        MessageEntry m \<Rightarrow> Some m
      | CustomMessageEntry ty c details display \<Rightarrow> Some (CustomMessage ty c)
      | BranchSummaryEntry from summary details hook \<Rightarrow> Some (BranchSummary summary from)
      | Compaction c \<Rightarrow> Some (CompactionSummary (co_summary c) (co_tokensBefore c))
      | _ \<Rightarrow> None)"

definition segment :: "nat \<Rightarrow> nat \<Rightarrow> 'a list \<Rightarrow> 'a list" where
  "segment i j xs = take (j - i) (drop i xs)"

definition messages_between :: "session_entry list \<Rightarrow> nat \<Rightarrow> nat \<Rightarrow> agent_message list" where
  "messages_between es i j = List.map_filter getMessageFromEntry (segment i j es)"

record compaction_preparation =
  pr_firstKeptEntryId :: string
  pr_messagesToSummarize :: "agent_message list"
  pr_turnPrefixMessages :: "agent_message list"
  pr_isSplitTurn :: bool
  pr_tokensBefore :: int
  pr_previousSummary :: "string option"
  pr_fileOps :: file_ops
  pr_toolEvidence :: "tool_evidence list"
  pr_settings :: compaction_settings

datatype prepared = PrepareThrows | NothingPrepared | Prepared_compaction compaction_preparation

definition previous_compaction_index :: "session_entry list \<Rightarrow> nat option" where
  "previous_compaction_index es = List.find (\<lambda>i. compaction_of (es ! i) \<noteq> None) (rev [0..<length es])"

definition with_usage ::
  "(session_entry \<Rightarrow> token_usage option) \<Rightarrow> session_entry \<Rightarrow> (agent_message \<times> token_usage option) option" where
  "with_usage usage_of e = map_option (\<lambda>m. (m, usage_of e)) (getMessageFromEntry e)"

definition prepareCompaction ::
  "(string \<Rightarrow> string) \<Rightarrow> (string \<Rightarrow> string \<Rightarrow> int) \<Rightarrow> (session_entry \<Rightarrow> token_usage option) \<Rightarrow> session_entry list
     \<Rightarrow> compaction_settings \<Rightarrow> prepared" where
  "prepareCompaction sha localeCompare usage_of es settings =
     (if es \<noteq> [] \<and> compaction_of (last es) \<noteq> None then NothingPrepared
      else
        let prevIndex = previous_compaction_index es;
            prev = (case prevIndex of None \<Rightarrow> None | Some i \<Rightarrow> compaction_of (es ! i));
            start = (case prevIndex of None \<Rightarrow> 0 | Some i \<Rightarrow> Suc i);
            stop = length es;
            usageStart = (case prevIndex of None \<Rightarrow> 0 | Some i \<Rightarrow> i)
        in case estimateContextTokens (List.map_filter (with_usage usage_of) (segment usageStart stop es)) of
             None \<Rightarrow> PrepareThrows
           | Some estimate \<Rightarrow>
        (case findCutPoint es start stop (cs_keepRecentTokens settings) of
             None \<Rightarrow> PrepareThrows
           | Some cp \<Rightarrow>
        if \<not> cp_firstKept cp < length es \<or> se_id (es ! cp_firstKept cp) = [] then NothingPrepared
        else
          let historyEnd = (if cp_isSplitTurn cp then the (cp_turnStart cp) else cp_firstKept cp);
              summarized = messages_between es start historyEnd;
              retained = messages_between es (cp_firstKept cp) stop;
              turnPrefix = (if cp_isSplitTurn cp then messages_between es (the (cp_turnStart cp)) (cp_firstKept cp) else [])
          in if validateCompactionSpanIntegrity summarized retained \<noteq> None then NothingPrepared
             else case collectToolEvidence sha localeCompare (summarized @ turnPrefix) prev of
               None \<Rightarrow> PrepareThrows
             | Some evidence \<Rightarrow> Prepared_compaction
                 \<lparr>pr_firstKeptEntryId = se_id (es ! cp_firstKept cp),
                  pr_messagesToSummarize = summarized,
                  pr_turnPrefixMessages = turnPrefix,
                  pr_isSplitTurn = cp_isSplitTurn cp,
                  pr_tokensBefore = ce_tokens estimate,
                  pr_previousSummary = map_option co_summary prev,
                  pr_fileOps = fold extractFileOpsFromMessage turnPrefix (extractFileOperations summarized prev),
                  pr_toolEvidence = evidence,
                  pr_settings = settings\<rparr>))"

section \<open>The stored details\<close>

definition spread_members :: "json \<Rightarrow> (string \<times> json) list" where
  "spread_members v =
     (case v of JObj ms \<Rightarrow> ms | JArr xs \<Rightarrow> zip (map nat_text [0..<length xs]) xs | _ \<Rightarrow> [])"

definition file_list_value :: "json \<Rightarrow> json" where
  "file_list_value v = JArr (map JStr (sort (js_set (string_items (array_items v)))))"

definition checkpoint_value :: "compaction_preparation \<Rightarrow> json" where
  "checkpoint_value p = JObj
     [(''version'', JNum (IntNum 1)), (''firstKeptEntryId'', JStr (pr_firstKeptEntryId p)),
      (''summarizedMessageCount'', JNum (IntNum (int (length (pr_messagesToSummarize p))))),
      (''turnPrefixMessageCount'', JNum (IntNum (int (length (pr_turnPrefixMessages p))))),
      (''toolEvidence'', JArr (map evidence_value (pr_toolEvidence p)))]"

definition createDeterministicCompactionDetails :: "compaction_preparation \<Rightarrow> json \<Rightarrow> json" where
  "createDeterministicCompactionDetails p details =
     (let base = JObj (spread_members details)
      in JObj (assoc_set ''checkpoint'' (checkpoint_value p)
           (assoc_set ''modifiedFiles'' (file_list_value (jget base ''modifiedFiles''))
             (assoc_set ''readFiles'' (file_list_value (jget base ''readFiles'')) (spread_members details)))))"

end
