(* ===== verification/Compaction_Facts.thy ===== *)
theory Compaction_Facts
  imports Session_Compaction
begin

text \<open>
  The facts about the cut point and the preparation that the properties of compaction share.
\<close>

section \<open>Slices\<close>

lemma segment_end [simp]: "segment i (length xs) xs = drop i xs"
  by (simp add: segment_def)

lemma segment_join: "i \<le> j \<Longrightarrow> j \<le> k \<Longrightarrow> segment i j xs @ segment j k xs = segment i k xs"
proof -
  assume "i \<le> j" "j \<le> k"
  then have "k - i = (j - i) + (k - j)" "drop j xs = drop (j - i) (drop i xs)" by simp_all
  then show ?thesis unfolding segment_def by (simp only: take_add)
qed

lemma segment_same [simp]: "segment i i xs = []"
  by (simp add: segment_def)

lemma segment_append: "segment (length xs + i) (length xs + j) (xs @ ys) = segment i j ys"
  by (simp add: segment_def)

lemma in_segment: "x \<in> set (segment i j xs) \<longleftrightarrow> (\<exists>k. i \<le> k \<and> k < j \<and> k < length xs \<and> x = xs ! k)"
proof -
  have "x \<in> set (segment i j xs) \<longleftrightarrow> (\<exists>n < j - i. n < length xs - i \<and> x = xs ! (i + n))"
    unfolding segment_def in_set_conv_nth by (auto simp: add.commute)
  also have "\<dots> \<longleftrightarrow> (\<exists>k. i \<le> k \<and> k < j \<and> k < length xs \<and> x = xs ! k)"
  proof
    assume "\<exists>n < j - i. n < length xs - i \<and> x = xs ! (i + n)"
    then obtain n where "n < j - i" "n < length xs - i" "x = xs ! (i + n)" by blast
    then show "\<exists>k. i \<le> k \<and> k < j \<and> k < length xs \<and> x = xs ! k" by (intro exI [of _ "i + n"]) auto
  next
    assume "\<exists>k. i \<le> k \<and> k < j \<and> k < length xs \<and> x = xs ! k"
    then obtain k where "i \<le> k" "k < j" "k < length xs" "x = xs ! k" by blast
    then show "\<exists>n < j - i. n < length xs - i \<and> x = xs ! (i + n)" by (intro exI [of _ "k - i"]) auto
  qed
  finally show ?thesis .
qed

lemma map_filter_append [simp]: "List.map_filter f (xs @ ys) = List.map_filter f xs @ List.map_filter f ys"
  by (simp add: map_filter_def)

lemma find_rev_Some:
  assumes "List.find P (rev [a..<b]) = Some i"
  shows "a \<le> i" "i < b" "P i" "\<forall>j. i < j \<and> j < b \<longrightarrow> \<not> P j"
proof -
  obtain k where k: "k < length (rev [a..<b])" "P (rev [a..<b] ! k)" "i = rev [a..<b] ! k"
    "\<forall>j < k. \<not> P (rev [a..<b] ! j)"
    using assms by (auto simp: find_Some_iff)
  have nth: "rev [a..<b] ! j = b - Suc j" if "j < b - a" for j using that by (simp add: rev_nth)
  show "a \<le> i" "i < b" "P i" using k nth [of k] by auto
  show "\<forall>j. i < j \<and> j < b \<longrightarrow> \<not> P j"
  proof (intro allI impI)
    fix j assume j: "i < j \<and> j < b"
    then have "b - Suc j < k" "b - Suc j < b - a" using k nth [of k] by auto
    then show "\<not> P j" using k(4) nth [of "b - Suc j"] j by auto
  qed
qed

section \<open>The previous compaction\<close>

text \<open>A path is the entries up to the last compaction and the entries after it.\<close>

definition since_compaction :: "session_entry list \<Rightarrow> session_entry list \<Rightarrow> bool" where
  "since_compaction older newer \<longleftrightarrow>
     (older = [] \<or> compaction_of (last older) \<noteq> None) \<and> (\<forall>e \<in> set newer. compaction_of e = None)"

lemma previous_index:
  assumes "since_compaction older newer"
  shows "previous_compaction_index (older @ newer) = (if older = [] then None else Some (length older - 1))"
proof -
  have old: "length older - 1 < length (older @ newer)" "compaction_of ((older @ newer) ! (length older - 1)) \<noteq> None"
    if "older \<noteq> []"
  proof -
    have nth: "(older @ newer) ! (length older - 1) = last older"
      using that by (simp add: last_conv_nth nth_append)
    show "length older - 1 < length (older @ newer)" using that by (cases older) simp_all
    show "compaction_of ((older @ newer) ! (length older - 1)) \<noteq> None"
      using assms that unfolding nth since_compaction_def by blast
  qed
  show ?thesis
  proof (cases "previous_compaction_index (older @ newer)")
    case None
    then have none: "\<forall>i < length (older @ newer). compaction_of ((older @ newer) ! i) = None"
      by (simp add: previous_compaction_index_def find_None_iff)
    then have "\<not> older \<noteq> []" using old by metis
    then show ?thesis using None by simp
  next
    case (Some i)
    note i = find_rev_Some [OF Some [unfolded previous_compaction_index_def]]
    have "i < length older"
    proof (rule ccontr)
      assume "\<not> i < length older"
      then have "(older @ newer) ! i \<in> set newer" using i(2) by (simp add: nth_append)
      then show False using i(3) assms by (simp add: since_compaction_def)
    qed
    then have o: "older \<noteq> []" by auto
    have "\<not> i < length older - 1" using i(4) old [OF o] by metis
    then have "i = length older - 1" using \<open>i < length older\<close> by linarith
    then show ?thesis using Some o by simp
  qed
qed

section \<open>The cut point\<close>

lemma scan_back_facts:
  assumes "start \<le> c"
  shows "start \<le> scan_back es start c" "scan_back es start c \<le> c"
    "\<forall>j. scan_back es start c \<le> j \<and> j < c \<longrightarrow> \<not> is_message (es ! j)"
proof -
  have "start \<le> scan_back es start c \<and> scan_back es start c \<le> c
    \<and> (\<forall>j. scan_back es start c \<le> j \<and> j < c \<longrightarrow> \<not> is_message (es ! j))"
    using assms
  proof (induction c)
    case (Suc c)
    show ?case
    proof (cases "Suc c > start \<and> (case se_body (es ! c) of Compaction k \<Rightarrow> False | _ \<Rightarrow> True) \<and> \<not> is_message (es ! c)")
      case True
      then have "start \<le> scan_back es start c \<and> scan_back es start c \<le> c
        \<and> (\<forall>j. scan_back es start c \<le> j \<and> j < c \<longrightarrow> \<not> is_message (es ! j))" using Suc.IH by simp
      moreover have "scan_back es start (Suc c) = scan_back es start c" by (subst scan_back.simps, rule if_P [OF True])
      ultimately show ?thesis using True less_Suc_eq by auto
    next
      case False
      have "scan_back es start (Suc c) = Suc c" by (subst scan_back.simps, rule if_not_P [OF False])
      then show ?thesis using Suc.prems by (auto simp del: scan_back.simps)
    qed
  qed simp
  then show "start \<le> scan_back es start c" "scan_back es start c \<le> c"
    "\<forall>j. scan_back es start c \<le> j \<and> j < c \<longrightarrow> \<not> is_message (es ! j)" by blast+
qed

lemma in_cut_points: "c \<in> set (findValidCutPoints es start stop) \<longleftrightarrow> start \<le> c \<and> c < stop \<and> is_cut_point (es ! c)"
  by (auto simp: findValidCutPoints_def)

text \<open>Where the cut lies: at a cut point \<open>c\<close>, moved back over entries that are no messages.\<close>

definition cut_at :: "session_entry list \<Rightarrow> nat \<Rightarrow> nat \<Rightarrow> cut_point \<Rightarrow> bool" where
  "cut_at es start c cp \<longleftrightarrow> start \<le> c \<and> c < length es \<and> is_cut_point (es ! c) \<and> cp_firstKept cp = scan_back es start c"

lemma findCutPoint_turn:
  assumes "findCutPoint es start stop keep = Some cp"
  shows "cp_isSplitTurn cp \<longleftrightarrow> cp_turnStart cp \<noteq> None"
    "cp_turnStart cp = Some t \<Longrightarrow> start \<le> t \<and> t \<le> cp_firstKept cp"
proof -
  show "cp_isSplitTurn cp \<longleftrightarrow> cp_turnStart cp \<noteq> None"
    using assms by (auto simp: findCutPoint_def Let_def split: if_splits list.splits option.splits)
  assume t: "cp_turnStart cp = Some t"
  then have "findTurnStartIndex es (cp_firstKept cp) start = Some t"
    using assms by (auto simp: findCutPoint_def Let_def split: if_splits list.splits option.splits)
  then show "start \<le> t \<and> t \<le> cp_firstKept cp"
    using find_rev_Some(1,2) [OF findTurnStartIndex_def [symmetric, THEN trans]] by (simp add: less_Suc_eq_le)
qed

lemma findCutPoint_cut:
  assumes "findCutPoint es start (length es) keep = Some cp"
  shows "findValidCutPoints es start (length es) = [] \<and> cp_firstKept cp = start
    \<or> (\<exists>c reached. cut_at es start c cp \<and> budget_walk es keep (rev [start..<length es]) 0 = Some reached
         \<and> (case reached of None \<Rightarrow> c = hd (findValidCutPoints es start (length es))
             | Some i \<Rightarrow> c = hd (findValidCutPoints es start (length es)) \<and> (\<forall>d \<in> set (findValidCutPoints es start (length es)). d < i)
                 \<or> i \<le> c \<and> (\<forall>d \<in> set (findValidCutPoints es start (length es)). d < i \<or> c \<le> d)))"
proof (cases "findValidCutPoints es start (length es)")
  case Nil
  then show ?thesis using assms by (auto simp: findCutPoint_def)
next
  case (Cons first others)
  let ?cps = "findValidCutPoints es start (length es)"
  obtain reached where r: "budget_walk es keep (rev [start..<length es]) 0 = Some reached"
    using assms Cons by (auto simp: findCutPoint_def split: option.splits)
  define c where "c = (case reached of None \<Rightarrow> first
      | Some i \<Rightarrow> (case List.find (\<lambda>c. c \<ge> i) ?cps of None \<Rightarrow> first | Some c \<Rightarrow> c))"
  have kept: "cp_firstKept cp = scan_back es start c"
    using assms r unfolding c_def findCutPoint_def Cons by (auto simp: Let_def split: if_splits)
  have sorted: "sorted ?cps" by (simp add: findValidCutPoints_def sorted_wrt_filter)
  have "c \<in> set ?cps \<and> (case reached of None \<Rightarrow> c = hd ?cps
             | Some i \<Rightarrow> c = hd ?cps \<and> (\<forall>d \<in> set ?cps. d < i) \<or> i \<le> c \<and> (\<forall>d \<in> set ?cps. d < i \<or> c \<le> d))"
  proof (cases reached)
    case None
    then show ?thesis using Cons by (simp add: c_def)
  next
    case (Some i)
    show ?thesis
    proof (cases "List.find (\<lambda>c. c \<ge> i) ?cps")
      case none: None
      then have "\<forall>d \<in> set ?cps. d < i" by (simp add: find_None_iff not_le)
      then show ?thesis using Some Cons none by (simp add: c_def)
    next
      case some: (Some d)
      then obtain n where n: "n < length ?cps" "i \<le> ?cps ! n" "d = ?cps ! n" "\<forall>j < n. \<not> i \<le> ?cps ! j"
        by (auto simp: find_Some_iff)
      have "e < i \<or> d \<le> e" if mem: "e \<in> set ?cps" for e
      proof -
        obtain k where "k < length ?cps" "e = ?cps ! k" using mem unfolding in_set_conv_nth by blast
        then show ?thesis using n sorted sorted_nth_mono [of ?cps n k] by (cases "k < n") auto
      qed
      moreover have "c = d" using Some some by (simp add: c_def)
      ultimately show ?thesis using Some n by auto
    qed
  qed
  then show ?thesis using r kept in_cut_points unfolding cut_at_def by blast
qed


section \<open>The preparation\<close>

text \<open>The messages of a list of entries.\<close>

abbreviation messages_in :: "session_entry list \<Rightarrow> agent_message list" where
  "messages_in es \<equiv> List.map_filter getMessageFromEntry es"

lemma findCutPoint_bounds:
  assumes "findCutPoint es start (length es) keep = Some cp" "start \<le> length es"
  shows "start \<le> cp_firstKept cp" "cp_firstKept cp \<le> length es"
proof -
  consider "cp_firstKept cp = start" | c where "cut_at es start c cp"
    using findCutPoint_cut [OF assms(1)] by blast
  then have "start \<le> cp_firstKept cp \<and> cp_firstKept cp \<le> length es"
  proof cases
    case 2
    then show ?thesis using scan_back_facts(1,2) [of start c es] by (simp add: cut_at_def)
  qed (use assms(2) in simp)
  then show "start \<le> cp_firstKept cp" "cp_firstKept cp \<le> length es" by blast+
qed

text \<open>A preparation, taken apart.\<close>

lemma prepared_parts:
  assumes "prepareCompaction sha localeCompare usage_of (older @ newer) settings = Prepared_compaction p"
    and "since_compaction older newer"
  obtains cp where "findCutPoint (older @ newer) (length older) (length (older @ newer)) (cs_keepRecentTokens settings) = Some cp"
    "cp_firstKept cp < length (older @ newer)" "se_id ((older @ newer) ! cp_firstKept cp) = pr_firstKeptEntryId p"
    "pr_messagesToSummarize p @ pr_turnPrefixMessages p = messages_in (segment (length older) (cp_firstKept cp) (older @ newer))"
    "collectToolEvidence sha localeCompare (pr_messagesToSummarize p @ pr_turnPrefixMessages p)
       (if older = [] then None else compaction_of (last older)) = Some (pr_toolEvidence p)"
    "pr_previousSummary p = (if older = [] then None else map_option co_summary (compaction_of (last older)))"
    "pr_messagesToSummarize p = messages_in (segment (length older)
       (if cp_isSplitTurn cp then the (cp_turnStart cp) else cp_firstKept cp) (older @ newer))"
proof -
  let ?es = "older @ newer"
  let ?prev = "if older = [] then None else compaction_of (last older)"
  have index: "previous_compaction_index ?es = (if older = [] then None else Some (length older - 1))"
    by (rule previous_index [OF assms(2)])
  have start: "(case previous_compaction_index ?es of None \<Rightarrow> 0 | Some i \<Rightarrow> Suc i) = length older"
    unfolding index by (cases older) simp_all
  have prev: "(case previous_compaction_index ?es of None \<Rightarrow> None | Some i \<Rightarrow> compaction_of (?es ! i)) = ?prev"
    unfolding index by (simp add: last_conv_nth nth_append)
  obtain cp where cp: "findCutPoint ?es (length older) (length ?es) (cs_keepRecentTokens settings) = Some cp"
    "cp_firstKept cp < length ?es"
    and evidence: "collectToolEvidence sha localeCompare (messages_between ?es (length older)
         (if cp_isSplitTurn cp then the (cp_turnStart cp) else cp_firstKept cp) @
       (if cp_isSplitTurn cp then messages_between ?es (the (cp_turnStart cp)) (cp_firstKept cp) else [])) ?prev
       = Some (pr_toolEvidence p)"
    and p: "pr_firstKeptEntryId p = se_id (?es ! cp_firstKept cp)" "pr_previousSummary p = map_option co_summary ?prev"
     "pr_messagesToSummarize p = messages_between ?es (length older)
         (if cp_isSplitTurn cp then the (cp_turnStart cp) else cp_firstKept cp)"
     "pr_turnPrefixMessages p = (if cp_isSplitTurn cp then messages_between ?es (the (cp_turnStart cp)) (cp_firstKept cp) else [])"
    using assms(1) unfolding prepareCompaction_def Let_def start prev
    by (auto split: if_splits option.splits simp del: length_append)
  have bounds: "length older \<le> cp_firstKept cp" using findCutPoint_bounds(1) [OF cp(1)] by simp
  have join: "pr_messagesToSummarize p @ pr_turnPrefixMessages p = messages_in (segment (length older) (cp_firstKept cp) ?es)"
  proof (cases "cp_isSplitTurn cp")
    case True
    then obtain t where t: "cp_turnStart cp = Some t" using findCutPoint_turn(1) [OF cp(1)] by auto
    then have "length older \<le> t" "t \<le> cp_firstKept cp" using findCutPoint_turn(2) [OF cp(1) t] by auto
    then show ?thesis using p(3,4) True t segment_join [of "length older" t "cp_firstKept cp" ?es]
      by (simp add: messages_between_def flip: map_filter_append)
  next
    case False
    then show ?thesis using p(3,4) by (simp add: messages_between_def)
  qed
  show thesis
    using that [OF cp p(1) [symmetric] join] evidence p by (simp add: messages_between_def)
qed


text \<open>What is retained never begins with a tool result.\<close>

lemma map_filter_Nil_iff: "List.map_filter f xs = [] \<longleftrightarrow> (\<forall>x \<in> set xs. f x = None)"
  by (induction xs) (auto simp: map_filter_def)

lemma message_not_result: "\<not> is_message e \<Longrightarrow> getMessageFromEntry e \<noteq> Some (ToolResult r)"
  by (auto simp: is_message_def getMessageFromEntry_def split: entry_body.splits)

lemma cut_point_message:
  assumes "is_cut_point e"
  shows "\<exists>m. getMessageFromEntry e = Some m \<and> (\<forall>r. m \<noteq> ToolResult r)"
  using assms by (auto simp: is_cut_point_def getMessageFromEntry_def split: entry_body.splits)

lemma retained_begins:
  assumes "cut_at es start c cp"
  shows "\<exists>m ms. messages_in (drop (cp_firstKept cp) es) = m # ms \<and> (\<forall>r. m \<noteq> ToolResult r)"
proof -
  have c: "start \<le> c" "c < length es" "is_cut_point (es ! c)" "cp_firstKept cp = scan_back es start c"
    using assms by (simp_all add: cut_at_def)
  note moved = scan_back_facts [OF c(1), of es]
  have "drop (cp_firstKept cp) es = segment (cp_firstKept cp) c es @ es ! c # drop (Suc c) es"
    using segment_join [of "cp_firstKept cp" c "length es" es] moved(2) c by (simp add: Cons_nth_drop_Suc)
  then have split: "messages_in (drop (cp_firstKept cp) es)
      = messages_in (segment (cp_firstKept cp) c es) @ messages_in (es ! c # drop (Suc c) es)" by simp
  have quiet: "\<forall>m \<in> set (messages_in (segment (cp_firstKept cp) c es)). \<forall>r. m \<noteq> ToolResult r"
  proof (intro ballI allI)
    fix m r
    assume "m \<in> set (messages_in (segment (cp_firstKept cp) c es))"
    then obtain e where e: "e \<in> set (segment (cp_firstKept cp) c es)" "getMessageFromEntry e = Some m"
      by (auto simp: map_filter_def)
    then have "\<not> is_message e" using moved(3) c(4) unfolding in_segment by auto
    then show "m \<noteq> ToolResult r" using message_not_result e(2) by blast
  qed
  obtain m where m: "getMessageFromEntry (es ! c) = Some m" "\<forall>r. m \<noteq> ToolResult r" using cut_point_message [OF c(3)] by blast
  show ?thesis
  proof (cases "messages_in (segment (cp_firstKept cp) c es)")
    case Nil
    then show ?thesis using split m by simp
  next
    case (Cons n ns)
    then show ?thesis using split quiet by auto
  qed
qed

end
