(* ===== verification/Compaction_Context.thy ===== *)
theory Compaction_Context
  imports Compaction_Facts Session_Restore Session_Claims
begin

text \<open>
  The session after a compaction: what its context holds, and which blocks of the recorded conversation
  the retained entries are.
\<close>

section \<open>The context of a compacted path\<close>

lemma compacted_messages:
  assumes d: "distinct (map se_id (es @ c # newer))" and es: "es = dropped @ kept" "kept \<noteq> []"
    and c: "se_body c = Compaction k" "co_firstKeptEntryId k = se_id (hd kept)"
  shows "path_messages (es @ c # newer) (Some (se_id c, k))
    = CompactionSummary (co_summary k) (co_tokensBefore k) # concat (map entry_messages (kept @ newer))"
proof -
  have "\<forall>e \<in> set es. \<not> is_compaction_of (se_id c) e" using d by (auto simp: is_compaction_of_def rev_image_eqI)
  then have before: "takeWhile (\<lambda>e. \<not> is_compaction_of (se_id c) e) (es @ c # newer) = es"
    "dropWhile (\<lambda>e. \<not> is_compaction_of (se_id c) e) (es @ c # newer) = c # newer"
    using c(1) by (simp_all add: is_compaction_of_def)
  have "\<forall>e \<in> set dropped. se_id e \<noteq> se_id (hd kept)" using d es by (cases kept) (auto simp: rev_image_eqI)
  then have "dropWhile (\<lambda>e. se_id e \<noteq> se_id (hd kept)) es = kept"
    using es by (cases kept) simp_all
  then show ?thesis using c(2) by (simp add: path_messages_def before)
qed

lemma settings_compaction:
  "\<forall>e \<in> set es. compaction_of e = None \<Longrightarrow> pt_compaction (fold (settings_step now fresh) es s) = pt_compaction s"
proof (induction es arbitrary: s)
  case (Cons e es)
  have "pt_compaction (settings_step now fresh e s) = pt_compaction s"
    using Cons.prems by (auto simp: settings_step_def compaction_of_def Let_def split: entry_body.splits agent_message.splits)
  then show ?case using Cons by simp
qed simp

lemma compacted_context:
  assumes "distinct (map se_id (es @ c # newer))" "es = dropped @ kept" "kept \<noteq> []"
    "se_body c = Compaction k" "co_firstKeptEntryId k = se_id (hd kept)" "\<forall>e \<in> set newer. compaction_of e = None"
  shows "sx_messages (path_context now fresh (es @ c # newer)) =
    repair_messages (memory_messages (pt_memory (fold (settings_step now fresh) (es @ c # newer) default_settings))
      @ CompactionSummary (co_summary k) (co_tokensBefore k) # concat (map entry_messages (kept @ newer)))"
proof -
  have "pt_compaction (fold (settings_step now fresh) (es @ c # newer) default_settings) = Some (se_id c, k)"
    using assms(4) settings_compaction [OF assms(6)] by (simp add: settings_step_def)
  then show ?thesis using compacted_messages [OF assms(1-5)] unfolding path_context_def Let_def by simp
qed

section \<open>Sessions\<close>

lemma managerContext_branch:
  assumes "session_ok m" "getBranch None m = Some es" "es \<noteq> []"
  shows "managerContext now fresh m = Some (path_context now fresh es)"
proof -
  obtain i where i: "sm_leafId m = Some i"
    using assms(2,3) session_leaf_branch [OF assms(1)] by (cases "sm_leafId m") auto
  then obtain e where e: "e \<in> set (getEntries m)" "se_id e = i" using assms(1) by (auto simp: session_ok_def ids_def)
  then have b: "path_to (sm_byId m) (Some e) = Some es" "get_entry m i = Some e"
    using session_branch [OF assms(1) e(1)] session_leaf_branch [OF assms(1)] session_ok_lookup(1) [OF assms(1)] assms(1,2) i
    by (auto simp: session_ok_def)
  moreover have "i \<noteq> []" using entry_tree_ids [of "getEntries m"] e assms(1) by (auto simp: session_ok_def ids_def rev_image_eqI)
  ultimately show ?thesis
    using i by (simp add: managerContext_def buildSessionContext_def find_leaf_def get_entry_def)
qed

lemma subseq_keeps_distinct: "subseq xs ys \<Longrightarrow> distinct ys \<Longrightarrow> distinct xs"
  by (induction xs ys rule: list_emb.induct) (auto dest: list_emb_set)

lemma branch_distinct:
  assumes "session_ok m" "getBranch None m = Some es"
  shows "distinct (map se_id es)" "set es \<subseteq> set (getEntries m)"
proof -
  have t: "distinct (map se_id (getEntries m))" using entry_tree_ids [of "getEntries m"] assms(1) by (simp add: session_ok_def)
  have "distinct (map se_id es) \<and> set es \<subseteq> set (getEntries m)"
  proof (cases "sm_leafId m")
    case None
    then show ?thesis using assms session_leaf_branch by simp
  next
    case (Some i)
    then obtain e where "e \<in> set (getEntries m)" "se_id e = i" using assms(1) by (auto simp: session_ok_def ids_def)
    then have "subseq es (getEntries m)"
      using session_branch_path [OF assms(1)] session_leaf_branch [OF assms(1)] assms(2) Some by fastforce
    then show ?thesis
      using t subseq_map [of es "getEntries m" se_id] subseq_keeps_distinct [of "map se_id es" "map se_id (getEntries m)"]
        list_emb_set [of "(=)" es "getEntries m"] by auto
  qed
  then show "distinct (map se_id es)" "set es \<subseteq> set (getEntries m)" by blast+
qed

text \<open>Storing a compaction at the leaf: the branch grows by its entry, and the context keeps what it names.\<close>

lemma compacted_session:
  assumes ok: "session_ok m" and branch: "getBranch None m = Some es" and dw: "good_draws dw m"
    and es: "es = dropped @ kept" "kept \<noteq> []" and fk: "firstKept = se_id (hd kept)"
  shows "map_option sx_messages (managerContext now fresh (fst (appendCompaction summary firstKept tokens details hook dw (m, d))))
    = Some (repair_messages (memory_messages (pt_memory (fold (settings_step now fresh) es default_settings))
        @ CompactionSummary summary tokens # concat (map entry_messages kept)))"
proof -
  let ?b = "Compaction \<lparr>co_summary = summary, co_firstKeptEntryId = firstKept, co_firstKeptEntryIndex = None,
        co_tokensBefore = tokens, co_details = details, co_fromHook = hook\<rparr>"
  let ?m = "fst (append_body ?b dw (m, d))" and ?c = "fresh_entry ?b dw m"
  have ok2: "session_ok ?m" using append_ok [OF ok dw] by simp
  have branch2: "getBranch None ?m = Some (es @ [?c])" using append_branch [OF ok dw] branch by simp
  have "managerContext now fresh ?m = Some (path_context now fresh (es @ [?c]))"
    using managerContext_branch [OF ok2 branch2] by simp
  then show ?thesis
    using compacted_context [OF branch_distinct(1) [OF ok2 branch2] es, of _ now fresh] fk
    by (simp add: appendCompaction_def fresh_entry_def settings_step_def)
qed


section \<open>Blocks of the retained messages\<close>

text \<open>A part of a recorded conversation that does not begin with a tool result begins with a block.\<close>

lemma suffix_blocks:
  assumes "messages_of bs = xs @ m # ys" "\<forall>r. m \<noteq> ToolResult r"
  shows "\<exists>cs ds. bs = cs @ ds \<and> m # ys = messages_of ds"
  using assms(1)
proof (induction bs arbitrary: xs)
  case (Cons b bs)
  show ?case
  proof (cases xs)
    case Nil
    then show ?thesis using Cons.prems by (intro exI [of _ "[]"] exI [of _ "b # bs"]) simp
  next
    case (Cons x xs')
    have later: "\<exists>cs ds. b # bs = cs @ ds \<and> m # ys = messages_of ds" if "messages_of bs = zs @ m # ys" for zs
      using Cons.IH [OF that] by (metis append_Cons)
    show ?thesis
    proof (cases b)
      case (Quiet q)
      then show ?thesis using Cons Cons.prems later [of xs'] by simp
    next
      case (Asked a rs)
      have eq: "map ToolResult rs @ messages_of bs = xs' @ m # ys" using Cons Cons.prems Asked by simp
      then obtain us where "map ToolResult rs = xs' @ us \<and> us @ messages_of bs = m # ys
          \<or> map ToolResult rs @ us = xs' \<and> messages_of bs = us @ m # ys"
        unfolding append_eq_append_conv2 by blast
      then show ?thesis
      proof
        assume us: "map ToolResult rs = xs' @ us \<and> us @ messages_of bs = m # ys"
        have "us = []"
        proof (cases us)
          case (Cons u us')
          then have "u = m" "u \<in> set (map ToolResult rs)" using us by auto
          then show ?thesis using assms(2) by auto
        qed
        then show ?thesis using later [of "[]"] us by simp
      next
        assume "map ToolResult rs @ us = xs' \<and> messages_of bs = us @ m # ys"
        then show ?thesis using later [of us] by blast
      qed
    qed
  qed
qed simp

text \<open>The context drops branch summaries without a text, which are not recorded in the first place.\<close>

definition told :: "session_entry \<Rightarrow> bool" where
  "told e \<longleftrightarrow> (\<forall>from details hook. se_body e \<noteq> BranchSummaryEntry from [] details hook)"

lemma context_messages:
  assumes "\<forall>e \<in> set es. compaction_of e = None \<and> told e"
  shows "concat (map entry_messages es) = messages_in es"
  using assms
proof (induction es)
  case (Cons e es)
  have "entry_messages e = messages_in [e]"
    using Cons.prems
    by (auto simp: entry_messages_def getMessageFromEntry_def told_def compaction_of_def map_filter_def split: entry_body.splits)
  then show ?case using Cons map_filter_append [of getMessageFromEntry "[e]" es] by simp
qed (simp add: map_filter_def)

lemma memory_blocks:
  "\<exists>ms. memory_messages items @ [CompactionSummary summary tokens] = messages_of (map Quiet ms)
    \<and> (\<forall>m \<in> set ms. block_ok (Quiet m) \<and> call_ids_of m = [])"
proof (cases "items = []")
  case True
  then show ?thesis
    by (intro exI [of _ "[CompactionSummary summary tokens]"])
      (simp add: memory_messages_def createMemoryContextMessage_def call_ids_of_def)
next
  case False
  then show ?thesis
    by (intro exI [of _ "[CustomMessage ''session_memory''
        (PlainText (SESSION_MEMORY_PREFIX @ memoryItemsToText items @ SESSION_MEMORY_SUFFIX)), CompactionSummary summary tokens]"])
      (simp add: memory_messages_def createMemoryContextMessage_def call_ids_of_def)
qed

lemma recorded_quiet:
  assumes "\<forall>m \<in> set ms. block_ok (Quiet m) \<and> call_ids_of m = []" "recorded bs"
  shows "recorded (map Quiet ms @ bs)"
  using assms(1) by (induction ms) (simp_all add: recorded_Cons assms(2))

lemma recorded_suffix: "recorded (cs @ ds) \<Longrightarrow> recorded ds"
  by (simp add: recorded_append)

end
