(* ===== verification/Compaction_Claims.thy ===== *)
theory Compaction_Claims
  imports Compaction_Context Session_Branching
begin

text \<open>
  What a compaction guarantees and where it loses: what is summarized and what is kept, that the kept
  transcript stays valid, the budget of the cut, the evidence that survives, and the messages that a second
  compaction drops.
\<close>

section \<open>Nothing of the new entries is lost\<close>

lemma prepared_partition:
  assumes "prepareCompaction sha localeCompare usage_of (older @ newer) settings = Prepared_compaction p"
    and "since_compaction older newer"
  obtains dropped kept where "newer = dropped @ kept" "kept \<noteq> []" "se_id (hd kept) = pr_firstKeptEntryId p"
    "pr_messagesToSummarize p @ pr_turnPrefixMessages p = messages_in dropped"
    "(\<forall>e \<in> set newer. \<not> is_cut_point e) \<and> dropped = [] \<or> (\<exists>m ms. messages_in kept = m # ms \<and> (\<forall>r. m \<noteq> ToolResult r))"
proof -
  let ?es = "older @ newer"
  obtain cp where cp: "findCutPoint ?es (length older) (length ?es) (cs_keepRecentTokens settings) = Some cp"
    "cp_firstKept cp < length ?es" "se_id (?es ! cp_firstKept cp) = pr_firstKeptEntryId p"
    "pr_messagesToSummarize p @ pr_turnPrefixMessages p = messages_in (segment (length older) (cp_firstKept cp) ?es)"
    using prepared_parts [OF assms] by metis
  have low: "length older \<le> cp_firstKept cp" using findCutPoint_bounds(1) [OF cp(1)] by simp
  define dropped where "dropped = segment (length older) (cp_firstKept cp) ?es"
  define kept where "kept = drop (cp_firstKept cp) ?es"
  have split: "newer = dropped @ kept"
    using segment_join [OF low less_imp_le [OF cp(2)], of ?es] by (simp add: dropped_def kept_def del: length_append)
  have ne: "kept \<noteq> []" "se_id (hd kept) = pr_firstKeptEntryId p"
    using cp(2,3) unfolding kept_def by (simp_all add: hd_drop_conv_nth del: drop_append length_append)
  have cases: "findValidCutPoints ?es (length older) (length ?es) = [] \<and> cp_firstKept cp = length older
    \<or> (\<exists>c. cut_at ?es (length older) c cp)" using findCutPoint_cut [OF cp(1)] by blast
  have none: "\<forall>e \<in> set newer. \<not> is_cut_point e" if "findValidCutPoints ?es (length older) (length ?es) = []"
  proof
    fix e
    assume "e \<in> set newer"
    then obtain n where "n < length newer" "e = newer ! n" by (metis in_set_conv_nth)
    then have "length older + n < length ?es" "?es ! (length older + n) = e" by simp_all
    then show "\<not> is_cut_point e"
      using that in_cut_points [of "length older + n" ?es "length older" "length ?es"] by simp
  qed
  have "(\<forall>e \<in> set newer. \<not> is_cut_point e) \<and> dropped = [] \<or> (\<exists>m ms. messages_in kept = m # ms \<and> (\<forall>r. m \<noteq> ToolResult r))"
    using cases
  proof
    assume "\<exists>c. cut_at ?es (length older) c cp"
    then show ?thesis using retained_begins unfolding kept_def by blast
  next
    assume "findValidCutPoints ?es (length older) (length ?es) = [] \<and> cp_firstKept cp = length older"
    then show ?thesis using none by (simp add: dropped_def)
  qed
  then show thesis using that [OF split ne] cp(4) unfolding dropped_def by blast
qed


text \<open>A compaction of a session that was created and grown by the session's own
  operations summarizes a beginning of the entries since the last compaction and keeps the rest: the messages
  given to the summarizing model, with those of the split turn, and the messages of the kept entries are together
  exactly the messages since the last compaction, in order.  Once its entry is stored, the context of the session
  is the memory, the summary and the kept messages.\<close>

theorem compaction_partitions:
  fixes m :: session_manager and older newer :: "session_entry list"
  assumes "session_moves (newSession i path dw0 m0, d0) (m, d)" "getBranch None m = Some (older @ newer)"
    and "since_compaction older newer"
    and "prepareCompaction sha localeCompare usage_of (older @ newer) settings = Prepared_compaction p"
    and "good_draws dw m"
  shows "\<exists>dropped kept. newer = dropped @ kept \<and> kept \<noteq> []
    \<and> pr_messagesToSummarize p @ pr_turnPrefixMessages p = messages_in dropped
    \<and> (pr_messagesToSummarize p @ pr_turnPrefixMessages p) @ messages_in kept = messages_in newer
    \<and> (\<exists>items. map_option sx_messages (managerContext now fresh
          (fst (appendCompaction summary (pr_firstKeptEntryId p) (pr_tokensBefore p) details hook dw (m, d))))
        = Some (repair_messages (memory_messages items
            @ CompactionSummary summary (pr_tokensBefore p) # concat (map entry_messages kept))))"
proof -
  have ok: "session_ok m" using moves_ok [OF assms(1) newSession_ok] by simp
  obtain dropped kept where *: "newer = dropped @ kept" "kept \<noteq> []" "se_id (hd kept) = pr_firstKeptEntryId p"
    "pr_messagesToSummarize p @ pr_turnPrefixMessages p = messages_in dropped"
    using prepared_partition [OF assms(4,3)] by metis
  have "\<exists>items. map_option sx_messages (managerContext now fresh
          (fst (appendCompaction summary (pr_firstKeptEntryId p) (pr_tokensBefore p) details hook dw (m, d))))
        = Some (repair_messages (memory_messages items
            @ CompactionSummary summary (pr_tokensBefore p) # concat (map entry_messages kept)))"
    by (intro exI, rule compacted_session [OF ok assms(2,5) _ *(2) *(3) [symmetric]]) (simp add: *(1))
  then show ?thesis using * by auto
qed

definition keep_one :: compaction_settings where
  "keep_one = \<lparr>cs_enabled = True, cs_reserveTokens = 10, cs_keepRecentTokens = 1\<rparr>"

definition any_sha :: "string \<Rightarrow> string" where "any_sha t = ''0''"
definition any_order :: "string \<Rightarrow> string \<Rightarrow> int" where "any_order a b = 0"
definition no_usage :: "session_entry \<Rightarrow> token_usage option" where "no_usage e = None"

definition demo_path :: "session_entry list" where
  "demo_path = [\<lparr>se_id = ''u1'', se_parentId = None, se_timestamp = ''2026-01-01T00:00:00.000Z'',
       se_body = MessageEntry (UserMessage (PlainText ''hi''))\<rparr>,
     \<lparr>se_id = ''u2'', se_parentId = Some ''u1'', se_timestamp = ''2026-01-01T00:00:00.000Z'',
       se_body = MessageEntry (AssistantMessage demo_answer)\<rparr>]"

definition demo_prepared :: compaction_preparation where
  "demo_prepared = \<lparr>pr_firstKeptEntryId = ''u2'', pr_messagesToSummarize = [], pr_turnPrefixMessages = [UserMessage (PlainText ''hi'')],
     pr_isSplitTurn = True, pr_tokensBefore = 2, pr_previousSummary = None, pr_fileOps = createFileOps, pr_toolEvidence = [],
     pr_settings = keep_one\<rparr>"

lemma demo_branch: "getBranch None (fst demo_session) = Some ([] @ demo_path)"
  by code_simp

lemma demo_prepare: "prepareCompaction any_sha any_order no_usage ([] @ demo_path) keep_one = Prepared_compaction demo_prepared"
  by code_simp

theorem compaction_partitions_witness:
  "\<exists>dropped kept. demo_path = dropped @ kept \<and> kept \<noteq> []
    \<and> pr_messagesToSummarize demo_prepared @ pr_turnPrefixMessages demo_prepared = messages_in dropped"
proof -
  have draws: "good_draws (demo_draws ''u3'') (fst demo_session)" by (simp add: good_draws_def demo_draws_def; code_simp)
  have since: "since_compaction [] demo_path"
    by (simp add: since_compaction_def demo_path_def compaction_of_def)
  have moves: "session_moves (newSession None None (demo_draws ''s1'') blank_manager, Map.empty) (fst demo_session, snd demo_session)"
    using demo_moves by simp
  show ?thesis
    using compaction_partitions [OF moves demo_branch since demo_prepare draws] by fastforce
qed


section \<open>A second compaction\<close>

text \<open>C10. The entries that an earlier compaction kept are part of the context until
  the next compaction, which starts behind that earlier compaction: it gives the summarizing model the messages
  after it only, next to the earlier summary, and keeps a rest of those.  The messages the earlier compaction kept
  are neither summarized nor kept: they vanish from the context.\<close>

theorem second_compaction_loses:
  fixes m :: session_manager and older kept newer :: "session_entry list"
  assumes "session_moves (newSession i path dw0 m0, d0) (m, d)" "getBranch None m = Some ((older @ kept @ [c]) @ newer)"
    and "se_body c = Compaction k" "kept \<noteq> []" "co_firstKeptEntryId k = se_id (hd kept)"
    and "\<forall>e \<in> set newer. compaction_of e = None"
    and "prepareCompaction sha localeCompare usage_of ((older @ kept @ [c]) @ newer) settings = Prepared_compaction p"
    and "good_draws dw m"
  shows "\<exists>items rest.
    map_option sx_messages (managerContext now fresh m) = Some (repair_messages (memory_messages items
        @ CompactionSummary (co_summary k) (co_tokensBefore k) # concat (map entry_messages (kept @ newer))))
    \<and> (pr_messagesToSummarize p @ pr_turnPrefixMessages p) @ messages_in rest = messages_in newer
    \<and> pr_previousSummary p = Some (co_summary k)
    \<and> (\<exists>gone. newer = gone @ rest)
    \<and> map_option sx_messages (managerContext now fresh
          (fst (appendCompaction summary (pr_firstKeptEntryId p) (pr_tokensBefore p) details hook dw (m, d))))
        = Some (repair_messages (memory_messages items
            @ CompactionSummary summary (pr_tokensBefore p) # concat (map entry_messages rest)))"
proof -
  have ok: "session_ok m" using moves_ok [OF assms(1) newSession_ok] by simp
  have since: "since_compaction (older @ kept @ [c]) newer" using assms(3,6) by (simp add: since_compaction_def compaction_of_def)
  obtain gone rest where *: "newer = gone @ rest" "rest \<noteq> []" "se_id (hd rest) = pr_firstKeptEntryId p"
    "pr_messagesToSummarize p @ pr_turnPrefixMessages p = messages_in gone"
    using prepared_partition [OF assms(7) since] by metis
  have "pr_previousSummary p = (if older @ kept @ [c] = [] then None
      else map_option co_summary (compaction_of (last (older @ kept @ [c]))))"
    by (rule prepared_parts [OF assms(7) since])
  then have previous: "pr_previousSummary p = Some (co_summary k)" using assms(3) by (simp add: compaction_of_def)
  let ?items = "pt_memory (fold (settings_step now fresh) ((older @ kept @ [c]) @ newer) default_settings)"
  have "map_option sx_messages (managerContext now fresh m) = Some (repair_messages (memory_messages ?items
        @ CompactionSummary (co_summary k) (co_tokensBefore k) # concat (map entry_messages (kept @ newer))))"
    using managerContext_branch [OF ok assms(2)] branch_distinct(1) [OF ok assms(2)]
      compacted_context [of "older @ kept" c newer older kept k now fresh] assms(3-6) by simp
  moreover have "map_option sx_messages (managerContext now fresh
          (fst (appendCompaction summary (pr_firstKeptEntryId p) (pr_tokensBefore p) details hook dw (m, d))))
        = Some (repair_messages (memory_messages ?items
            @ CompactionSummary summary (pr_tokensBefore p) # concat (map entry_messages rest)))"
    by (rule compacted_session [OF ok assms(2,8) _ *(2) *(3) [symmetric], where dropped = "older @ kept @ [c] @ gone"])
      (simp add: *(1))
  moreover have "(pr_messagesToSummarize p @ pr_turnPrefixMessages p) @ messages_in rest = messages_in newer"
    unfolding *(1,4) map_filter_append ..
  ultimately show ?thesis using previous *(1) by blast
qed


text \<open>The answer of the demo session is kept by its first compaction; another question and answer follow.\<close>

definition compacted_once :: "session_manager \<times> disk" where
  "compacted_once = appendCompaction ''summary'' ''u2'' 2 None None (demo_draws ''u3'') demo_session"

definition asked_again :: "session_manager \<times> disk" where
  "asked_again = append_body (MessageEntry (UserMessage (PlainText ''more''))) (demo_draws ''u4'') compacted_once"

definition talked_on :: "session_manager \<times> disk" where
  "talked_on = append_body (MessageEntry (AssistantMessage demo_answer)) (demo_draws ''u5'') asked_again"

definition demo_compaction :: session_entry where
  "demo_compaction = plain_entry ''u3'' (Some ''u2'') (Compaction \<lparr>co_summary = ''summary'', co_firstKeptEntryId = ''u2'',
     co_firstKeptEntryIndex = None, co_tokensBefore = 2, co_details = None, co_fromHook = None\<rparr>)\<lparr>se_timestamp := ''2026-01-01T00:00:00.000Z''\<rparr>"

definition demo_newer :: "session_entry list" where
  "demo_newer = map (\<lambda>e. e\<lparr>se_timestamp := ''2026-01-01T00:00:00.000Z''\<rparr>)
     [plain_entry ''u4'' (Some ''u3'') (MessageEntry (UserMessage (PlainText ''more''))),
      plain_entry ''u5'' (Some ''u4'') (MessageEntry (AssistantMessage demo_answer))]"

definition second_prepared :: compaction_preparation where
  "second_prepared = \<lparr>pr_firstKeptEntryId = ''u5'', pr_messagesToSummarize = [], pr_turnPrefixMessages = [UserMessage (PlainText ''more'')],
     pr_isSplitTurn = True, pr_tokensBefore = 4, pr_previousSummary = Some ''summary'', pr_fileOps = createFileOps,
     pr_toolEvidence = [], pr_settings = keep_one\<rparr>"

lemma append_moves:
  assumes "session_moves start md" "good_draws dw (fst md)" "\<forall>t l. b \<noteq> LabelEntry t l"
  shows "session_moves start (append_body b dw md)"
  using session_moves.step [OF _ session_move.append [OF assms(2,3), of "snd md"]] assms(1) by simp

lemma talked_moves: "session_moves (newSession None None (demo_draws ''s1'') blank_manager, Map.empty) (fst talked_on, snd talked_on)"
proof -
  have 1: "good_draws (demo_draws ''u3'') (fst demo_session)" by (simp add: good_draws_def demo_draws_def; code_simp)
  have 2: "good_draws (demo_draws ''u4'') (fst compacted_once)" by (simp add: good_draws_def demo_draws_def; code_simp)
  have 3: "good_draws (demo_draws ''u5'') (fst asked_again)" by (simp add: good_draws_def demo_draws_def; code_simp)
  have "session_moves (newSession None None (demo_draws ''s1'') blank_manager, Map.empty) compacted_once"
    unfolding compacted_once_def appendCompaction_def by (rule append_moves [OF demo_moves 1]) simp
  from append_moves [OF append_moves [OF this 2] _ , of _ "demo_draws ''u5''"] 3 show ?thesis
    by (simp add: talked_on_def asked_again_def)
qed

lemma talked_branch: "getBranch None (fst talked_on) = Some (([hd demo_path] @ [last demo_path] @ [demo_compaction]) @ demo_newer)"
  by code_simp

lemma talked_prepare:
  "prepareCompaction any_sha any_order no_usage (([hd demo_path] @ [last demo_path] @ [demo_compaction]) @ demo_newer) keep_one
    = Prepared_compaction second_prepared"
  by code_simp

theorem second_compaction_loses_witness:
  "\<exists>items rest gone.
    map_option sx_messages (managerContext ''now'' (\<lambda>n. ''t'') (fst talked_on)) = Some (repair_messages (memory_messages items
        @ CompactionSummary ''summary'' 2 # concat (map entry_messages ([last demo_path] @ demo_newer))))
    \<and> demo_newer = gone @ rest
    \<and> map_option sx_messages (managerContext ''now'' (\<lambda>n. ''t'')
          (fst (appendCompaction ''second'' ''u5'' 4 None None (demo_draws ''u6'') talked_on)))
        = Some (repair_messages (memory_messages items @ CompactionSummary ''second'' 4 # concat (map entry_messages rest)))"
proof -
  have draws: "good_draws (demo_draws ''u6'') (fst talked_on)" by (simp add: good_draws_def demo_draws_def; code_simp)
  have body: "se_body demo_compaction = Compaction \<lparr>co_summary = ''summary'', co_firstKeptEntryId = ''u2'',
     co_firstKeptEntryIndex = None, co_tokensBefore = 2, co_details = None, co_fromHook = None\<rparr>"
    by (simp add: demo_compaction_def plain_entry_def)
  have newer: "\<forall>e \<in> set demo_newer. compaction_of e = None"
    by (simp add: demo_newer_def plain_entry_def compaction_of_def)
  have p: "pr_firstKeptEntryId second_prepared = ''u5''" "pr_tokensBefore second_prepared = 4"
    by (simp_all add: second_prepared_def)
  have kept: "[last demo_path] \<noteq> []" by simp
  have fk: "co_firstKeptEntryId \<lparr>co_summary = ''summary'', co_firstKeptEntryId = ''u2'',
     co_firstKeptEntryIndex = None, co_tokensBefore = 2, co_details = None, co_fromHook = None\<rparr> = se_id (hd [last demo_path])"
    by (simp add: demo_path_def)
  show ?thesis
    using second_compaction_loses [OF talked_moves talked_branch body kept fk newer talked_prepare draws,
        where now = "''now''" and fresh = "\<lambda>n. ''t''" and summary = "''second''" and details = None and hook = None]
    unfolding p compaction.simps prod.collapse by blast
qed


section \<open>The kept transcript\<close>

lemma compacted_accepted:
  assumes "recorded bs" "\<forall>b \<in> set bs. unanswered b = []"
  shows "validateTranscriptForModel (convertToLlm (repair_messages (memory_messages items
      @ CompactionSummary summary tokens # messages_of bs))) model = TranscriptOk"
proof -
  obtain ms where ms: "memory_messages items @ [CompactionSummary summary tokens] = messages_of (map Quiet ms)"
    "\<forall>m \<in> set ms. block_ok (Quiet m) \<and> call_ids_of m = []" using memory_blocks by blast
  let ?all = "map Quiet ms @ bs"
  have rec: "recorded ?all" by (rule recorded_quiet [OF ms(2) assms(1)])
  have complete: "\<forall>b \<in> set ?all. unanswered b = []" using assms(2) by auto
  have all: "memory_messages items @ CompactionSummary summary tokens # messages_of bs = messages_of ?all"
    unfolding messages_of_simps(3) ms(1) [symmetric] by simp
  show ?thesis
    unfolding all repair_recorded(1) [OF rec complete] by (rule all_recorded_complete [OF rec complete])
qed

text \<open>C4. If the messages since the last compaction are a recorded conversation in
  which every call has its result, then the context after the next compaction is a transcript that the check
  before a model call accepts: the cut never separates a tool result from its call.\<close>

theorem compaction_keeps_transcript:
  fixes m :: session_manager and model :: model_ref
  assumes "session_moves (newSession i path dw0 m0, d0) (m, d)" "getBranch None m = Some (older @ newer)"
    and "since_compaction older newer"
    and "prepareCompaction sha localeCompare usage_of (older @ newer) settings = Prepared_compaction p"
    and "good_draws dw m"
    and "messages_in newer = messages_of bs" "recorded bs" "\<forall>b \<in> set bs. unanswered b = []" "\<forall>e \<in> set newer. told e"
  shows "\<exists>c. managerContext now fresh
        (fst (appendCompaction summary (pr_firstKeptEntryId p) (pr_tokensBefore p) details hook dw (m, d))) = Some c
    \<and> validateTranscriptForModel (convertToLlm (sx_messages c)) model = TranscriptOk"
proof -
  have ok: "session_ok m" using moves_ok [OF assms(1) newSession_ok] by simp
  obtain dropped kept where *: "newer = dropped @ kept" "kept \<noteq> []" "se_id (hd kept) = pr_firstKeptEntryId p"
    "(\<forall>e \<in> set newer. \<not> is_cut_point e) \<and> dropped = [] \<or> (\<exists>m ms. messages_in kept = m # ms \<and> (\<forall>r. m \<noteq> ToolResult r))"
    using prepared_partition [OF assms(4,3)] by metis
  have "\<exists>cs ds. bs = cs @ ds \<and> messages_in kept = messages_of ds"
    using *(4)
  proof
    assume "(\<forall>e \<in> set newer. \<not> is_cut_point e) \<and> dropped = []"
    then have "bs = [] @ bs \<and> messages_in kept = messages_of bs" using *(1) assms(6) by simp
    then show ?thesis by blast
  next
    assume "\<exists>m ms. messages_in kept = m # ms \<and> (\<forall>r. m \<noteq> ToolResult r)"
    then obtain q ms where q: "messages_in kept = q # ms" "\<forall>r. q \<noteq> ToolResult r" by blast
    then have "messages_of bs = messages_in dropped @ q # ms" using *(1) assms(6) by simp
    then show ?thesis using suffix_blocks [OF _ q(2)] q(1) by metis
  qed
  then obtain cs ds where ds: "bs = cs @ ds" "messages_in kept = messages_of ds" by blast
  have quiet: "\<forall>e \<in> set kept. compaction_of e = None \<and> told e"
    using assms(3,9) *(1) by (simp add: since_compaction_def)
  have kept: "concat (map entry_messages kept) = messages_of ds" using context_messages [OF quiet] ds(2) by simp
  have rec: "recorded ds" "\<forall>b \<in> set ds. unanswered b = []" using assms(7,8) recorded_suffix ds(1) by auto
  have "map_option sx_messages (managerContext now fresh
        (fst (appendCompaction summary (pr_firstKeptEntryId p) (pr_tokensBefore p) details hook dw (m, d))))
    = Some (repair_messages (memory_messages (pt_memory (fold (settings_step now fresh) (older @ newer) default_settings))
        @ CompactionSummary summary (pr_tokensBefore p) # concat (map entry_messages kept)))"
    by (rule compacted_session [OF ok assms(2,5) _ *(2) *(3) [symmetric], where dropped = "older @ dropped"]) (simp add: *(1))
  then show ?thesis using compacted_accepted [OF rec] unfolding kept by auto
qed

theorem compaction_keeps_transcript_witness:
  "\<exists>c. managerContext ''now'' (\<lambda>n. ''t'')
        (fst (appendCompaction ''summary'' ''u2'' 2 None None (demo_draws ''u3'') demo_session)) = Some c
    \<and> validateTranscriptForModel (convertToLlm (sx_messages c)) \<lparr>md_api = ''x'', md_provider = ''p'', md_id = ''m''\<rparr> = TranscriptOk"
proof -
  have draws: "good_draws (demo_draws ''u3'') (fst demo_session)" by (simp add: good_draws_def demo_draws_def; code_simp)
  have since: "since_compaction [] demo_path"
    by (simp add: since_compaction_def demo_path_def compaction_of_def)
  have moves: "session_moves (newSession None None (demo_draws ''s1'') blank_manager, Map.empty) (fst demo_session, snd demo_session)"
    using demo_moves by simp
  have p: "pr_firstKeptEntryId demo_prepared = ''u2''" "pr_tokensBefore demo_prepared = 2"
    by (simp_all add: demo_prepared_def)
  let ?bs = "[Quiet (UserMessage (PlainText ''hi'')), Asked demo_answer []]"
  have bs: "messages_in demo_path = messages_of ?bs"
    by (simp add: demo_path_def map_filter_def getMessageFromEntry_def)
  have rec: "recorded ?bs" "\<forall>b \<in> set ?bs. unanswered b = []"
    by (simp_all add: recorded_def demo_answer_def call_ids_def call_ids_of_def stop_failed_def)
  have told: "\<forall>e \<in> set demo_path. told e" by (simp add: demo_path_def told_def)
  show ?thesis
    using compaction_keeps_transcript [OF moves demo_branch since demo_prepare draws bs rec told,
        where now = "''now''" and fresh = "\<lambda>n. ''t''" and summary = "''summary''" and details = None and hook = None]
    unfolding p prod.collapse by blast
qed

end
