(* ===== verification/Compaction_Summary.thy ===== *)
theory Compaction_Summary
  imports Compaction_Facts
begin

text \<open>
  The summaries of \<open>core/compaction/compaction.ts\<close>: the prompts, the request for a summary, and \<open>compact\<close>, which
  turns a preparation into the result that is stored.  The summarizing model is an argument: it answers a request,
  given by the system prompt, the text and the limit of tokens, with a message.  An exception is a value \<open>Inl\<close>.
\<close>

section \<open>The prompts\<close>

definition SUMMARIZATION_PROMPT :: string where
  "SUMMARIZATION_PROMPT =
   join_with newline
    [''The messages above are a conversation to summarize. Create a structured context checkpoint summary that another LLM will use to continue the work.'',
     [],
     ''Use this EXACT format:'',
     [],
     ''## Goal'',
     ''[What is the user trying to accomplish? Can be multiple items if the session covers different tasks.]'',
     [],
     ''## Constraints & Preferences'',
     ''- [Any constraints, preferences, or requirements mentioned by user]'',
     ''- [Or \"(none)\" if none were mentioned]'',
     [],
     ''## Progress'',
     ''### Done'',
     ''- [x] [Completed tasks/changes]'',
     [],
     ''### In Progress'',
     ''- [ ] [Current work]'',
     [],
     ''### Blocked'',
     ''- [Issues preventing progress, if any]'',
     [],
     ''## Key Decisions'',
     ''- **[Decision]**: [Brief rationale]'',
     [],
     ''## Next Steps'',
     ''1. [Ordered list of what should happen next]'',
     [],
     ''## Critical Context'',
     ''- [Any data, examples, or references needed to continue]'',
     ''- [Or \"(none)\" if not applicable]'',
     [],
     ''Keep each section concise. Preserve exact file paths, function names, and error messages.'']"

definition UPDATE_SUMMARIZATION_PROMPT :: string where
  "UPDATE_SUMMARIZATION_PROMPT =
   join_with newline
    [''The messages above are NEW conversation messages to incorporate into the existing summary provided in <previous-summary> tags.'',
     [],
     ''Update the existing structured summary with new information. RULES:'',
     ''- PRESERVE all existing information from the previous summary'',
     ''- ADD new progress, decisions, and context from the new messages'',
     ''- UPDATE the Progress section: move items from \"In Progress\" to \"Done\" when completed'',
     ''- UPDATE \"Next Steps\" based on what was accomplished'',
     ''- PRESERVE exact file paths, function names, and error messages'',
     ''- If something is no longer relevant, you may remove it'',
     [],
     ''Use this EXACT format:'',
     [],
     ''## Goal'',
     ''[Preserve existing goals, add new ones if the task expanded]'',
     [],
     ''## Constraints & Preferences'',
     ''- [Preserve existing, add new ones discovered]'',
     [],
     ''## Progress'',
     ''### Done'',
     ''- [x] [Include previously done items AND newly completed items]'',
     [],
     ''### In Progress'',
     ''- [ ] [Current work - update based on progress]'',
     [],
     ''### Blocked'',
     ''- [Current blockers - remove if resolved]'',
     [],
     ''## Key Decisions'',
     ''- **[Decision]**: [Brief rationale] (preserve all previous, add new)'',
     [],
     ''## Next Steps'',
     ''1. [Update based on current state]'',
     [],
     ''## Critical Context'',
     ''- [Preserve important context, add new if needed]'',
     [],
     ''Keep each section concise. Preserve exact file paths, function names, and error messages.'']"

definition TURN_PREFIX_SUMMARIZATION_PROMPT :: string where
  "TURN_PREFIX_SUMMARIZATION_PROMPT =
   join_with newline
    [''This is the PREFIX of a turn that was too large to keep. The SUFFIX (recent work) is retained.'',
     [],
     ''Summarize the prefix to provide context for the retained suffix:'',
     [],
     ''## Original Request'',
     ''[What did the user ask for in this turn?]'',
     [],
     ''## Early Progress'',
     ''- [Key decisions and work done in the prefix]'',
     [],
     ''## Context for Suffix'',
     ''- [Information needed to understand the retained recent work]'',
     [],
     ''Be concise. Focus on what's needed to understand the kept suffix.'']"

section \<open>A summary\<close>

record summary_request =
  rq_systemPrompt :: string
  rq_prompt :: string
  rq_maxTokens :: int
  rq_highReasoning :: bool

datatype summary_failure = SummaryTypeError | SummarizationFailed string | ModelThrows string | NoEntryId

type_synonym summarizer = "summary_request \<Rightarrow> string + assistant_message"

text \<open>The text of an answer, or its failure: an aborted answer is an answer here.\<close>

definition summary_answer :: "string \<Rightarrow> string + assistant_message \<Rightarrow> summary_failure + string" where
  "summary_answer what r =
     (case r of
        Inl e \<Rightarrow> Inl (ModelThrows e)
      | Inr a \<Rightarrow>
          if am_stopReason a = Stop_error
          then Inl (SummarizationFailed (what @ '' failed: '' @
            (if js_falsy (am_errorMessage a) then ''Unknown error'' else the (am_errorMessage a))))
          else Inr (join_with newline (texts_of (am_content a))))"

definition conversation_section :: "agent_message list \<Rightarrow> string option" where
  "conversation_section ms =
     map_option (\<lambda>t. ''<conversation>'' @ newline @ t @ newline @ ''</conversation>'' @ newline @ newline)
       (serializeConversation (convertToLlm ms))"

definition summary_prompt :: "agent_message list \<Rightarrow> string option \<Rightarrow> string option \<Rightarrow> string option" where
  "summary_prompt ms custom prev =
     (let base = (if js_falsy prev then SUMMARIZATION_PROMPT else UPDATE_SUMMARIZATION_PROMPT);
          instructions = (if js_falsy custom then base
                          else base @ newline @ newline @ ''Additional focus: '' @ the custom)
      in map_option (\<lambda>t. t
           @ (if js_falsy prev then []
              else ''<previous-summary>'' @ newline @ the prev @ newline @ ''</previous-summary>'' @ newline @ newline)
           @ instructions)
         (conversation_section ms))"

text \<open>\<open>Math.floor(0.8 * n)\<close> and \<open>Math.floor(0.5 * n)\<close>.\<close>

definition generateSummary ::
  "summarizer \<Rightarrow> bool \<Rightarrow> agent_message list \<Rightarrow> int \<Rightarrow> string option \<Rightarrow> string option \<Rightarrow> summary_failure + string" where
  "generateSummary complete reasoning ms reserve custom prev =
     (case summary_prompt ms custom prev of
        None \<Rightarrow> Inl SummaryTypeError
      | Some t \<Rightarrow> summary_answer ''Summarization''
          (complete \<lparr>rq_systemPrompt = SUMMARIZATION_SYSTEM_PROMPT, rq_prompt = t, rq_maxTokens = 4 * reserve div 5,
             rq_highReasoning = reasoning\<rparr>))"

definition generateTurnPrefixSummary :: "summarizer \<Rightarrow> agent_message list \<Rightarrow> int \<Rightarrow> summary_failure + string" where
  "generateTurnPrefixSummary complete ms reserve =
     (case conversation_section ms of
        None \<Rightarrow> Inl SummaryTypeError
      | Some t \<Rightarrow> summary_answer ''Turn prefix summarization''
          (complete \<lparr>rq_systemPrompt = SUMMARIZATION_SYSTEM_PROMPT, rq_prompt = t @ TURN_PREFIX_SUMMARIZATION_PROMPT,
             rq_maxTokens = reserve div 2, rq_highReasoning = False\<rparr>))"

section \<open>A compaction\<close>

record compaction_result =
  cr_summary :: string
  cr_firstKeptEntryId :: string
  cr_tokensBefore :: int
  cr_details :: json

text \<open>The two summaries of a split turn are asked for at the same time; when both fail, the failure of the history
  is taken here.\<close>

definition compaction_summary ::
  "summarizer \<Rightarrow> bool \<Rightarrow> compaction_preparation \<Rightarrow> string option \<Rightarrow> summary_failure + string" where
  "compaction_summary complete reasoning p custom =
     (let reserve = cs_reserveTokens (pr_settings p);
          history = generateSummary complete reasoning (pr_messagesToSummarize p) reserve custom (pr_previousSummary p)
      in if pr_isSplitTurn p \<and> pr_turnPrefixMessages p \<noteq> []
         then (case (if pr_messagesToSummarize p \<noteq> [] then history else Inr ''No prior history.'') of
                 Inl e \<Rightarrow> Inl e
               | Inr h \<Rightarrow> (case generateTurnPrefixSummary complete (pr_turnPrefixMessages p) reserve of
                   Inl e \<Rightarrow> Inl e
                 | Inr t \<Rightarrow> Inr (h @ newline @ newline @ ''---'' @ newline @ newline
                     @ ''**Turn Context (split turn):**'' @ newline @ newline @ t)))
         else history)"

definition compact ::
  "summarizer \<Rightarrow> bool \<Rightarrow> compaction_preparation \<Rightarrow> string option \<Rightarrow> summary_failure + compaction_result" where
  "compact complete reasoning p custom =
     (case compaction_summary complete reasoning p custom of
        Inl e \<Rightarrow> Inl e
      | Inr s \<Rightarrow>
          (let (readFiles, modifiedFiles) = computeFileLists (pr_fileOps p)
           in if pr_firstKeptEntryId p = [] then Inl NoEntryId
              else Inr \<lparr>cr_summary = s @ formatFileOperations readFiles modifiedFiles,
                cr_firstKeptEntryId = pr_firstKeptEntryId p,
                cr_tokensBefore = pr_tokensBefore p,
                cr_details = createDeterministicCompactionDetails p
                  (JObj [(''readFiles'', JArr (map JStr readFiles)), (''modifiedFiles'', JArr (map JStr modifiedFiles))])\<rparr>))"

end
