(* ===== verification/Branch_Summary.thy ===== *)
theory Branch_Summary
  imports Session_Facts Compaction_Summary
begin

text \<open>
  Summaries of abandoned branches, \<open>core/compaction/branch-summarization.ts\<close>: the entries that are left behind when
  the session moves to another place of its tree, the messages of them that fit a budget, and the summary a model
  writes of these.  Walking back from the old leaf does not end when the parents form a cycle; then the result is
  \<open>None\<close> for every fuel.
\<close>

section \<open>The abandoned entries\<close>

fun collect_back :: "nat \<Rightarrow> session_manager \<Rightarrow> string option \<Rightarrow> string option \<Rightarrow> session_entry list \<Rightarrow> session_entry list option" where
  "collect_back 0 m ancestor current acc = None"
| "collect_back (Suc n) m ancestor current acc =
     (if js_falsy current \<or> current = ancestor then Some acc
      else case get_entry m (the current) of
        None \<Rightarrow> Some acc
      | Some e \<Rightarrow> collect_back n m ancestor (se_parentId e) (e # acc))"

definition common_ancestor :: "session_entry list \<Rightarrow> session_entry list \<Rightarrow> string option" where
  "common_ancestor oldPath targetPath =
     map_option se_id (List.find (\<lambda>e. se_id e \<in> se_id ` set oldPath) (rev targetPath))"

definition collectEntriesForBranchSummary ::
  "session_manager \<Rightarrow> string option \<Rightarrow> string \<Rightarrow> (session_entry list \<times> string option) option" where
  "collectEntriesForBranchSummary m oldLeaf target =
     (if js_falsy oldLeaf then Some ([], None)
      else case (getBranch oldLeaf m, getBranch (Some target) m) of
        (Some oldPath, Some targetPath) \<Rightarrow>
          (let ancestor = common_ancestor oldPath targetPath
           in map_option (\<lambda>es. (es, ancestor))
                (collect_back (Suc (length (sm_byId m))) m ancestor oldLeaf []))
      | _ \<Rightarrow> None)"

section \<open>The messages within a budget\<close>

text \<open>A message of the unknown role \<open>hookMessage\<close>, which the session manager renames when it reads a file, counts as
  no message.\<close>

definition branch_message :: "session_entry \<Rightarrow> agent_message option" where
  "branch_message e =
     (case se_body e of
        MessageEntry (ToolResult r) \<Rightarrow> None
      | MessageEntry m \<Rightarrow> Some m
      | CustomMessageEntry ty c details display \<Rightarrow> Some (CustomMessage ty c)
      | BranchSummaryEntry from summary details hook \<Rightarrow> Some (BranchSummary summary from)
      | Compaction c \<Rightarrow> Some (CompactionSummary (co_summary c) (co_tokensBefore c))
      | _ \<Rightarrow> None)"

definition is_summary_entry :: "session_entry \<Rightarrow> bool" where
  "is_summary_entry e \<longleftrightarrow>
     (case se_body e of Compaction c \<Rightarrow> True | BranchSummaryEntry from summary details hook \<Rightarrow> True | _ \<Rightarrow> False)"

definition nested_files :: "session_entry \<Rightarrow> file_ops \<Rightarrow> file_ops" where
  "nested_files e ops =
     (case se_body e of
        BranchSummaryEntry from summary (Some details) hook \<Rightarrow>
          if hook = Some True then ops
          else ops\<lparr>fo_read := fold set_add (string_items (array_items (jget details ''readFiles''))) (fo_read ops),
                 fo_edited := fold set_add (string_items (array_items (jget details ''modifiedFiles''))) (fo_edited ops)\<rparr>
      | _ \<Rightarrow> ops)"

record branch_preparation =
  bp_messages :: "agent_message list"
  bp_fileOps :: file_ops
  bp_totalTokens :: int

text \<open>The second pass, from the newest entry back; \<open>totalTokens < tokenBudget * 0.9\<close> on integers.\<close>

fun branch_budget_walk :: "int \<Rightarrow> session_entry list \<Rightarrow> branch_preparation \<Rightarrow> branch_preparation option" where
  "branch_budget_walk budget [] bp = Some bp"
| "branch_budget_walk budget (e # es) bp =
     (case branch_message e of
        None \<Rightarrow> branch_budget_walk budget es bp
      | Some m \<Rightarrow>
          (case estimateTokens m of
             None \<Rightarrow> None
           | Some t \<Rightarrow>
               let seen = bp\<lparr>bp_fileOps := extractFileOpsFromMessage m (bp_fileOps bp)\<rparr>;
                   taken = seen\<lparr>bp_messages := m # bp_messages bp, bp_totalTokens := bp_totalTokens bp + t\<rparr>
               in if budget > 0 \<and> bp_totalTokens bp + t > budget
                  then Some (if is_summary_entry e \<and> 10 * bp_totalTokens bp < 9 * budget then taken else seen)
                  else branch_budget_walk budget es taken))"

definition prepareBranchEntries :: "session_entry list \<Rightarrow> int \<Rightarrow> branch_preparation option" where
  "prepareBranchEntries es budget =
     branch_budget_walk budget (rev es)
       \<lparr>bp_messages = [], bp_fileOps = fold nested_files es createFileOps, bp_totalTokens = 0\<rparr>"

section \<open>The summary of a branch\<close>

definition BRANCH_SUMMARY_PREAMBLE :: string where
  "BRANCH_SUMMARY_PREAMBLE =
   join_with newline
    [''The user explored a different conversation branch before returning here.'',
     ''Summary of that exploration:'',
     [],
     []]"

definition BRANCH_SUMMARY_PROMPT :: string where
  "BRANCH_SUMMARY_PROMPT =
   join_with newline
    [''Create a structured summary of this conversation branch for context when returning later.'',
     [],
     ''Use this EXACT format:'',
     [],
     ''## Goal'',
     ''[What was the user trying to accomplish in this branch?]'',
     [],
     ''## Constraints & Preferences'',
     ''- [Any constraints, preferences, or requirements mentioned]'',
     ''- [Or \"(none)\" if none were mentioned]'',
     [],
     ''## Progress'',
     ''### Done'',
     ''- [x] [Completed tasks/changes]'',
     [],
     ''### In Progress'',
     ''- [ ] [Work that was started but not finished]'',
     [],
     ''### Blocked'',
     ''- [Issues preventing progress, if any]'',
     [],
     ''## Key Decisions'',
     ''- **[Decision]**: [Brief rationale]'',
     [],
     ''## Next Steps'',
     ''1. [What should happen next to continue this work]'',
     [],
     ''Keep each section concise. Preserve exact file paths, function names, and error messages.'']"

text \<open>A model with the size of its context; a size of \<open>0\<close> counts as 128000.\<close>

record branch_summary_options =
  bo_complete :: summarizer
  bo_contextWindow :: int
  bo_customInstructions :: "string option"
  bo_replaceInstructions :: bool
  bo_reserveTokens :: int

datatype branch_summary_result =
    Branch_summary string "(string list \<times> string list) option"
  | Branch_aborted
  | Branch_error string

definition branch_instructions :: "branch_summary_options \<Rightarrow> string" where
  "branch_instructions opt =
     (let custom = bo_customInstructions opt
      in if bo_replaceInstructions opt \<and> \<not> js_falsy custom then the custom
         else if \<not> js_falsy custom then BRANCH_SUMMARY_PROMPT @ newline @ newline @ ''Additional focus: '' @ the custom
         else BRANCH_SUMMARY_PROMPT)"

definition branch_budget :: "branch_summary_options \<Rightarrow> int" where
  "branch_budget opt = (if bo_contextWindow opt = 0 then 128000 else bo_contextWindow opt) - bo_reserveTokens opt"

definition generateBranchSummary ::
  "session_entry list \<Rightarrow> branch_summary_options \<Rightarrow> summary_failure + branch_summary_result" where
  "generateBranchSummary es opt =
     (case prepareBranchEntries es (branch_budget opt) of
        None \<Rightarrow> Inl SummaryTypeError
      | Some bp \<Rightarrow>
          if bp_messages bp = [] then Inr (Branch_summary ''No content to summarize'' None)
          else case conversation_section (bp_messages bp) of
            None \<Rightarrow> Inl SummaryTypeError
          | Some t \<Rightarrow>
              (case bo_complete opt \<lparr>rq_systemPrompt = SUMMARIZATION_SYSTEM_PROMPT,
                    rq_prompt = t @ branch_instructions opt, rq_maxTokens = 2048, rq_highReasoning = False\<rparr> of
                 Inl e \<Rightarrow> Inl (ModelThrows e)
               | Inr a \<Rightarrow>
                   if am_stopReason a = Stop_aborted then Inr Branch_aborted
                   else if am_stopReason a = Stop_error
                   then Inr (Branch_error (if js_falsy (am_errorMessage a) then ''Summarization failed'' else the (am_errorMessage a)))
                   else
                     let files = computeFileLists (bp_fileOps bp)
                     in Inr (Branch_summary (BRANCH_SUMMARY_PREAMBLE @ join_with newline (texts_of (am_content a))
                          @ formatFileOperations (fst files) (snd files)) (Some files))))"

end
