(* ===== verification/Branch_Claims.thy ===== *)
theory Branch_Claims
  imports Branch_Summary Session_Claims
begin

text \<open>
  What the summary of an abandoned branch is made of: exactly the entries behind the point where the two paths part,
  and of their messages the newest that fit the budget.
\<close>

section \<open>The entries\<close>

text \<open>A path in the tree is determined by its last entry.\<close>

lemma root_path_prefix: "root_path (p @ x # q) \<Longrightarrow> root_path (p @ [x])"
  using successively_append_iff [of parent_link "p @ [x]" q] by (cases p) (auto simp: root_path_def)

lemma root_path_unique:
  assumes "entry_tree es" "root_path p" "root_path q" "set p \<subseteq> set es" "set q \<subseteq> set es"
    "length p \<le> length es" "length q \<le> length es" "last p = last q"
  shows "p = q"
proof -
  have "Some p = Some q" using path_to_path [OF assms(1,2,4,6)] unfolding assms(8) path_to_path [OF assms(1,3,5,7)] by (rule sym)
  then show ?thesis by (rule option.inject [THEN iffD1])
qed

lemma session_entry_found:
  assumes "session_ok m" "f \<in> set (getEntries m)"
  shows "se_id f \<noteq> []" "get_entry m (se_id f) = Some f"
proof -
  have "se_id f \<in> ids (getEntries m)" using assms(2) by (simp add: ids_def)
  moreover have "entry_tree (getEntries m)" using assms(1) by (simp add: session_ok_def)
  then have "[] \<notin> ids (getEntries m)" by (simp add: entry_tree_ids)
  ultimately show "se_id f \<noteq> []" by (metis (no_types))
  show "get_entry m (se_id f) = Some f" by (rule session_ok_lookup(1) [OF assms(1), THEN iffD2]) (simp add: assms(2))
qed

lemma collect_step:
  assumes "session_ok m" "e \<in> set (getEntries m)" "Some (se_id e) \<noteq> x"
  shows "collect_back (Suc n) m x (Some (se_id e)) acc = collect_back n m x (se_parentId e) (e # acc)"
  using session_entry_found [OF assms(1,2)] assms(3) by (simp add: js_falsy_def)

lemma collect_path:
  assumes "session_ok m"
  shows "se_parentId (hd (b @ [e])) = x \<Longrightarrow> successively parent_link (b @ [e]) \<Longrightarrow> set (b @ [e]) \<subseteq> set (getEntries m) \<Longrightarrow>
    \<forall>f \<in> set (b @ [e]). Some (se_id f) \<noteq> x \<Longrightarrow> length (b @ [e]) < n \<Longrightarrow>
    collect_back n m x (Some (se_id e)) acc = Some (b @ e # acc)"
proof (induction b arbitrary: e acc n rule: rev_induct)
  case Nil
  then obtain k where k: "n = Suc (Suc k)" by (cases n; cases "n - 1") auto
  have "collect_back (Suc k) m x x (e # acc) = Some (e # acc)" by simp
  then show ?case using collect_step [OF assms, of e x "Suc k" acc] Nil.prems k by simp
next
  case (snoc f b)
  obtain k where k: "n = Suc k" "length (b @ [f]) < k" using snoc.prems(5) by (cases n) auto
  have link: "se_parentId e = Some (se_id f)" and chain: "successively parent_link (b @ [f])"
    using snoc.prems(2) successively_append_iff [of parent_link "b @ [f]" "[e]"] by (simp_all add: parent_link_def)
  have "hd ((b @ [f]) @ [e]) = hd (b @ [f])" by (cases b) simp_all
  then have "collect_back k m x (Some (se_id f)) (e # acc) = Some (b @ f # e # acc)"
    using snoc.IH [OF _ chain _ _ k(2)] snoc.prems(1,3,4) by simp
  then show ?case using collect_step [OF assms, of e x k acc] snoc.prems(3,4) k(1) link by simp
qed

lemma subseq_distinct: "subseq p ys \<Longrightarrow> distinct (map f ys) \<Longrightarrow> distinct (map f p)"
  by (induction rule: list_emb.induct) (auto dest: list_emb_set)

lemma path_split_at:
  assumes "root_path p" "p = shared @ b" "b \<noteq> []"
  shows "se_parentId (hd b) = (if shared = [] then None else Some (se_id (last shared)))" "successively parent_link b"
  using assms by (auto simp: root_path_def successively_append_iff parent_link_def)

lemma find_rev_split:
  assumes "List.find P (rev xs) = Some x"
  shows "\<exists>ys zs. xs = ys @ x # zs \<and> P x \<and> (\<forall>z \<in> set zs. \<not> P z)"
proof -
  obtain i where i: "i < length xs" "P (rev xs ! i)" "x = rev xs ! i" "\<forall>j<i. \<not> P (rev xs ! j)"
    using assms by (auto simp: find_Some_iff)
  then have "rev xs = take i (rev xs) @ x # drop (Suc i) (rev xs)" using id_take_nth_drop [of i "rev xs"] by simp
  then have "xs = rev (drop (Suc i) (rev xs)) @ x # rev (take i (rev xs))" by (metis append.assoc append_Cons append_Nil rev_append rev_rev_ident rev.simps(2))
  moreover have "\<forall>z \<in> set (rev (take i (rev xs))). \<not> P z" using i(4) by (auto simp: in_set_conv_nth)
  ultimately show ?thesis using i(2,3) by blast
qed

text \<open>C20. When a session moves from one entry of its tree to another, the entries that are
  collected for the summary are exactly those of the old path behind the longest beginning that the two paths share,
  in order, and the common ancestor is the last entry of that beginning.\<close>

theorem branch_collection_exact:
  assumes "session_ok m" "get_entry m old = Some x" "get_entry m target = Some y"
  shows "\<exists>shared abandoned rest. getBranch (Some old) m = Some (shared @ abandoned)
    \<and> getBranch (Some target) m = Some (shared @ rest)
    \<and> collectEntriesForBranchSummary m (Some old) target
        = Some (abandoned, if shared = [] then None else Some (se_id (last shared)))
    \<and> ids abandoned \<inter> ids rest = {}"
proof -
  let ?es = "getEntries m"
  have t: "entry_tree ?es" and d: "distinct (map se_id ?es)" using assms(1) entry_tree_ids by (auto simp: session_ok_def)
  have size: "length (sm_byId m) = length ?es" using assms(1) by (simp add: session_ok_def)
  have x: "x \<in> set ?es" "se_id x = old" and y: "y \<in> set ?es" "se_id y = target"
    using assms(2,3) session_ok_lookup(1) [OF assms(1)] by auto
  obtain p where p: "getBranch (Some old) m = Some p" "root_path p" "last p = x" "subseq p ?es"
    using session_branch_path [OF assms(1) x(1)] x(2) by blast
  obtain q where q: "getBranch (Some target) m = Some q" "root_path q" "last q = y" "subseq q ?es"
    using session_branch_path [OF assms(1) y(1)] y(2) by blast
  have sub: "set p \<subseteq> set ?es" "length p \<le> length ?es" "set q \<subseteq> set ?es" "length q \<le> length ?es"
    using p(4) q(4) by (auto intro: list_emb_length dest: list_emb_set)
  have inj: "e = f" if "e \<in> set ?es" "f \<in> set ?es" "se_id e = se_id f" for e f
    using that d by (meson distinct_map inj_onD)
  have dp: "distinct (map se_id p)" using subseq_distinct [OF p(4) d] .
  let ?on = "\<lambda>e. se_id e \<in> se_id ` set p"
  obtain shared a b where split: "p = shared @ a" "q = shared @ b" "\<forall>e \<in> set b. \<not> ?on e"
    "common_ancestor p q = (if shared = [] then None else Some (se_id (last shared)))"
  proof (cases "List.find ?on (rev q)")
    case None
    then show ?thesis using that [of "[]" p q] by (auto simp: common_ancestor_def find_None_iff)
  next
    case (Some z)
    obtain us b where b: "q = us @ z # b" "?on z" "\<forall>e \<in> set b. \<not> ?on e" using find_rev_split [OF Some] by blast
    then obtain w where w: "w \<in> set p" "se_id z = se_id w" by blast
    have "z \<in> set ?es" using b(1) sub(3) by auto
    then have "z = w" using inj w sub(1) by blast
    then have "z \<in> set p" using w(1) by simp
    then obtain vs a where a: "p = vs @ z # a" by (meson split_list)
    have "us @ [z] = vs @ [z]"
      by (rule root_path_unique [OF t]) (use root_path_prefix p(2) q(2) a b(1) sub in auto)
    then have "p = (us @ [z]) @ a" "q = (us @ [z]) @ b" using a b(1) by simp_all
    then show ?thesis using that [of "us @ [z]" a b] b(3) Some by (simp add: common_ancestor_def)
  qed
  have "collect_back (Suc (length ?es)) m (common_ancestor p q) (Some old) [] = Some a"
  proof (cases a rule: rev_cases)
    case Nil
    then show ?thesis using p(2,3) split x by (auto simp: root_path_def)
  next
    case (snoc c e)
    then have e: "e = x" using p(3) split(1) by simp
    have "a \<noteq> []" using snoc by simp
    note path = path_split_at [OF p(2) split(1) this]
    have fresh: "Some (se_id f) \<noteq> common_ancestor p q" if "f \<in> set a" for f
    proof (cases shared rule: rev_cases)
      case Nil
      then show ?thesis using split(4) by simp
    next
      case (snoc us u)
      then have "common_ancestor p q = Some (se_id u)" using split(4) by simp
      moreover have "distinct (map se_id (us @ [u]) @ map se_id a)" using dp unfolding split(1) snoc map_append .
      then have "se_id f \<noteq> se_id u" using that by (auto simp: image_iff)
      ultimately show ?thesis by simp
    qed
    have "collect_back (Suc (length ?es)) m (common_ancestor p q) (Some (se_id e)) [] = Some (c @ [e])"
      by (rule collect_path [OF assms(1)]) (use path fresh sub split(1,4) snoc in \<open>auto split: if_splits\<close>)
    then show ?thesis using e x snoc by simp
  qed
  moreover have "old \<noteq> []" using session_entry_found(1) [OF assms(1) x(1)] x(2) by simp
  ultimately have "collectEntriesForBranchSummary m (Some old) target = Some (a, common_ancestor p q)"
    using p(1) q(1) size by (simp add: collectEntriesForBranchSummary_def js_falsy_def)
  then have "collectEntriesForBranchSummary m (Some old) target
      = Some (a, if shared = [] then None else Some (se_id (last shared)))" unfolding split(4) .
  moreover have "se_id ` set a \<inter> se_id ` set b = {}"
  proof -
    have "se_id ` set a \<subseteq> se_id ` set p" unfolding split(1) by auto
    moreover have "se_id ` set b \<inter> se_id ` set p = {}" using split(3) unfolding disjoint_iff by force
    ultimately show ?thesis unfolding disjoint_iff subset_iff by iprover
  qed
  ultimately show ?thesis
    using p(1) q(1) unfolding split(1,2) ids_def by (intro exI conjI)
qed

lemma demo_ok: "session_ok (fst demo_session)"
  using moves_ok [of _ _ "fst demo_session" "snd demo_session"] demo_moves newSession_ok by simp

theorem branch_collection_exact_witness:
  "\<exists>abandoned. collectEntriesForBranchSummary (fst demo_session) (Some ''u2'') ''u1'' = Some (abandoned, Some ''u1'')
    \<and> map se_id abandoned = [''u2'']"
proof -
  have old: "map_option se_id (get_entry (fst demo_session) ''u2'') = Some ''u2''" by code_simp
  have target: "map_option se_id (get_entry (fst demo_session) ''u1'') = Some ''u1''" by code_simp
  have paths: "map_option (map se_id) (getBranch (Some ''u2'') (fst demo_session)) = Some [''u1'', ''u2'']"
    "map_option (map se_id) (getBranch (Some ''u1'') (fst demo_session)) = Some [''u1'']" by code_simp+
  obtain x y where entries: "get_entry (fst demo_session) ''u2'' = Some x" "get_entry (fst demo_session) ''u1'' = Some y"
    using old target by auto
  obtain shared abandoned rest where *: "getBranch (Some ''u2'') (fst demo_session) = Some (shared @ abandoned)"
    "getBranch (Some ''u1'') (fst demo_session) = Some (shared @ rest)"
    "collectEntriesForBranchSummary (fst demo_session) (Some ''u2'') ''u1''
        = Some (abandoned, if shared = [] then None else Some (se_id (last shared)))" "ids abandoned \<inter> ids rest = {}"
    using branch_collection_exact [OF demo_ok entries] by blast
  then have "map se_id shared @ map se_id abandoned = [''u1'', ''u2'']" "map se_id shared @ map se_id rest = [''u1'']"
    using paths by simp_all
  then have "map se_id shared = [''u1''] \<and> map se_id abandoned = [''u2'']"
    using *(4) by (cases shared) (auto simp: ids_def)
  then show ?thesis using *(3) by (cases shared) auto
qed

section \<open>The messages\<close>

abbreviation branch_messages :: "session_entry list \<Rightarrow> agent_message list" where
  "branch_messages es \<equiv> List.map_filter branch_message es"

definition estimate_sum :: "agent_message list \<Rightarrow> int" where
  "estimate_sum ms = sum_list (map (\<lambda>m. the (estimateTokens m)) ms)"

lemma estimate_sum_simps [simp]: "estimate_sum [] = 0" "estimate_sum (m # ms) = the (estimateTokens m) + estimate_sum ms"
  by (simp_all add: estimate_sum_def)

text \<open>Whether the walk stops at an entry, with what it has.\<close>

definition over_budget :: "int \<Rightarrow> session_entry \<Rightarrow> int \<Rightarrow> bool" where
  "over_budget budget e worth \<longleftrightarrow>
     (\<exists>m t. branch_message e = Some m \<and> estimateTokens m = Some t \<and> 0 < budget \<and> budget < worth + t)"

definition branch_stop :: "int \<Rightarrow> session_entry list \<Rightarrow> session_entry list \<Rightarrow> agent_message list \<Rightarrow> bool" where
  "branch_stop budget gone kept acc \<longleftrightarrow>
     gone = [] \<and> (0 < budget \<longrightarrow> estimate_sum acc \<le> budget \<longrightarrow> estimate_sum (branch_messages kept @ acc) \<le> budget)
   \<or> gone \<noteq> [] \<and> over_budget budget (last gone) (estimate_sum (branch_messages kept @ acc))
       \<and> (estimate_sum acc \<le> budget \<longrightarrow> estimate_sum (branch_messages kept @ acc) \<le> budget)
   \<or> (\<exists>e rest. kept = e # rest \<and> is_summary_entry e \<and> 10 * estimate_sum (branch_messages rest @ acc) < 9 * budget
        \<and> over_budget budget e (estimate_sum (branch_messages rest @ acc)))"

lemma over_budget_pos: "over_budget budget e n \<Longrightarrow> 0 < budget"
  by (auto simp: over_budget_def)

lemma branch_stop_grow:
  assumes "branch_stop budget gone kept acc'" "\<forall>xs. branch_messages (xs @ [e]) @ acc = branch_messages xs @ acc'"
    and "0 < budget \<longrightarrow> estimate_sum acc \<le> budget \<longrightarrow> estimate_sum acc' \<le> budget"
  shows "branch_stop budget gone (kept @ [e]) acc"
  using assms(1) unfolding branch_stop_def
proof (elim disjE)
  assume "\<exists>x rest. kept = x # rest \<and> is_summary_entry x \<and> 10 * estimate_sum (branch_messages rest @ acc') < 9 * budget
        \<and> over_budget budget x (estimate_sum (branch_messages rest @ acc'))"
  then obtain x rest where "kept @ [e] = x # (rest @ [e])" "is_summary_entry x"
    "10 * estimate_sum (branch_messages (rest @ [e]) @ acc) < 9 * budget"
    "over_budget budget x (estimate_sum (branch_messages (rest @ [e]) @ acc))"
    unfolding assms(2) [rule_format] by auto
  then show "gone = [] \<and> (0 < budget \<longrightarrow> estimate_sum acc \<le> budget \<longrightarrow> estimate_sum (branch_messages (kept @ [e]) @ acc) \<le> budget)
   \<or> gone \<noteq> [] \<and> over_budget budget (last gone) (estimate_sum (branch_messages (kept @ [e]) @ acc))
       \<and> (estimate_sum acc \<le> budget \<longrightarrow> estimate_sum (branch_messages (kept @ [e]) @ acc) \<le> budget)
   \<or> (\<exists>x rest. kept @ [e] = x # rest \<and> is_summary_entry x \<and> 10 * estimate_sum (branch_messages rest @ acc) < 9 * budget
        \<and> over_budget budget x (estimate_sum (branch_messages rest @ acc)))" by blast
qed (use assms(2,3) over_budget_pos in \<open>simp only: assms(2) [rule_format]; blast\<close>)+

lemma branch_walk_facts:
  assumes "branch_budget_walk budget (rev es) bp = Some result" "bp_totalTokens bp = estimate_sum (bp_messages bp)"
  shows "\<exists>gone kept. es = gone @ kept \<and> bp_messages result = branch_messages kept @ bp_messages bp
    \<and> bp_totalTokens result = estimate_sum (bp_messages result) \<and> branch_stop budget gone kept (bp_messages bp)"
  using assms
proof (induction es arbitrary: bp rule: rev_induct)
  case Nil
  then show ?case by (auto simp: map_filter_def branch_stop_def)
next
  case (snoc e es)
  have continue: ?case
    if cont: "branch_budget_walk budget (rev es) bp' = Some result" "bp_totalTokens bp' = estimate_sum (bp_messages bp')"
      "\<forall>xs. branch_messages (xs @ [e]) @ bp_messages bp = branch_messages xs @ bp_messages bp'"
      "0 < budget \<longrightarrow> estimate_sum (bp_messages bp) \<le> budget \<longrightarrow> estimate_sum (bp_messages bp') \<le> budget" for bp'
  proof -
    obtain gone kept where *: "es = gone @ kept" "bp_messages result = branch_messages kept @ bp_messages bp'"
      "bp_totalTokens result = estimate_sum (bp_messages result)" "branch_stop budget gone kept (bp_messages bp')"
      using snoc.IH [OF cont(1,2)] by blast
    have "branch_stop budget gone (kept @ [e]) (bp_messages bp)" by (rule branch_stop_grow [OF *(4) cont(3,4)])
    then show ?thesis
      using *(1,2,3) cont(3) by (intro exI [of _ gone] exI [of _ "kept @ [e]"] conjI) (simp_all only: append_assoc)
  qed
  show ?case
  proof (cases "branch_message e")
    case None
    then show ?thesis using snoc.prems by (intro continue [of bp]) (simp_all add: map_filter_def)
  next
    case (Some m)
    obtain t where t: "estimateTokens m = Some t" using snoc.prems(1) Some by (cases "estimateTokens m") auto
    let ?seen = "bp\<lparr>bp_fileOps := extractFileOpsFromMessage m (bp_fileOps bp)\<rparr>"
    let ?taken = "?seen\<lparr>bp_messages := m # bp_messages bp, bp_totalTokens := bp_totalTokens bp + t\<rparr>"
    show ?thesis
    proof (cases "0 < budget \<and> bp_totalTokens bp + t > budget")
      case True
      then have over: "over_budget budget e (bp_totalTokens bp)" using Some t by (simp add: over_budget_def)
      show ?thesis
      proof (cases "is_summary_entry e \<and> 10 * bp_totalTokens bp < 9 * budget")
        case taken: True
        then have "result = ?taken" using snoc.prems(1) True Some t by (simp add: Let_def)
        then show ?thesis
          using taken over snoc.prems(2) Some t
          by (intro exI [of _ es] exI [of _ "[e]"]) (simp add: map_filter_def branch_stop_def)
      next
        case False
        then have "result = ?seen" using snoc.prems(1) True Some t by (auto simp: Let_def)
        then show ?thesis
          using over snoc.prems(2)
          by (intro exI [of _ "es @ [e]"] exI [of _ "[]"]) (simp add: map_filter_def branch_stop_def)
      qed
    next
      case False
      then show ?thesis using snoc.prems Some t
        by (intro continue [of ?taken]) (auto simp: Let_def map_filter_def)
    qed
  qed
qed

text \<open>With a budget, the messages that are summarized are those of a rest of the abandoned
  entries, the newest, and are worth at most the budget, unless the oldest of them is itself a summary, which is
  taken when what follows it is worth less than nine tenths of the budget; and nothing is left out without need: the
  message before them would exceed the budget.  Without a positive budget, all messages are summarized.\<close>

theorem branch_budget_kept:
  assumes "prepareBranchEntries es budget = Some bp"
  shows "\<exists>gone kept. es = gone @ kept \<and> bp_messages bp = branch_messages kept \<and> bp_totalTokens bp = estimate_sum (bp_messages bp)
    \<and> (budget \<le> 0 \<longrightarrow> gone = [])
    \<and> (gone = [] \<and> (0 < budget \<longrightarrow> bp_totalTokens bp \<le> budget)
       \<or> gone \<noteq> [] \<and> over_budget budget (last gone) (bp_totalTokens bp) \<and> bp_totalTokens bp \<le> budget
       \<or> (\<exists>e rest. kept = e # rest \<and> is_summary_entry e \<and> 10 * estimate_sum (branch_messages rest) < 9 * budget
            \<and> over_budget budget e (estimate_sum (branch_messages rest))))"
proof -
  obtain gone kept where *: "es = gone @ kept" "bp_messages bp = branch_messages kept" "bp_totalTokens bp = estimate_sum (bp_messages bp)"
    and stop: "branch_stop budget gone kept []"
    using branch_walk_facts [OF assms [unfolded prepareBranchEntries_def]] by auto
  have "gone = []" if "budget \<le> 0" using stop that over_budget_pos unfolding branch_stop_def by (metis not_le)
  moreover from stop have "gone = [] \<and> (0 < budget \<longrightarrow> bp_totalTokens bp \<le> budget)
       \<or> gone \<noteq> [] \<and> over_budget budget (last gone) (bp_totalTokens bp) \<and> bp_totalTokens bp \<le> budget
       \<or> (\<exists>e rest. kept = e # rest \<and> is_summary_entry e \<and> 10 * estimate_sum (branch_messages rest) < 9 * budget
            \<and> over_budget budget e (estimate_sum (branch_messages rest)))"
    unfolding branch_stop_def *(2,3) append_Nil2 estimate_sum_simps using over_budget_pos by (metis less_imp_le)
  ultimately show ?thesis using * by blast
qed

definition two_questions :: "session_entry list" where
  "two_questions = map (\<lambda>t. \<lparr>se_id = t, se_parentId = None, se_timestamp = ''t'',
     se_body = MessageEntry (UserMessage (PlainText t))\<rparr>) [''first'', ''second'']"

theorem branch_budget_kept_witness:
  "\<exists>gone kept bp. prepareBranchEntries two_questions 2 = Some bp
    \<and> [UserMessage (PlainText ''first''), UserMessage (PlainText ''second'')] = branch_messages gone @ bp_messages bp
    \<and> bp_messages bp = branch_messages kept \<and> bp_totalTokens bp = estimate_sum (bp_messages bp)"
proof -
  have "prepareBranchEntries two_questions 2 \<noteq> None" by code_simp
  then obtain bp where bp: "prepareBranchEntries two_questions 2 = Some bp" by blast
  have all: "branch_messages two_questions = [UserMessage (PlainText ''first''), UserMessage (PlainText ''second'')]"
    by code_simp
  from branch_budget_kept [OF bp] obtain gone kept where *: "two_questions = gone @ kept" "bp_messages bp = branch_messages kept"
    "bp_totalTokens bp = estimate_sum (bp_messages bp)" by blast
  have "branch_messages gone @ branch_messages kept = [UserMessage (PlainText ''first''), UserMessage (PlainText ''second'')]"
    unfolding map_filter_append [symmetric] *(1) [symmetric] by (rule all)
  then show ?thesis using bp *(2,3) by (intro exI [of _ gone] exI [of _ kept] exI [of _ bp]) simp
qed

end
