(* ===== verification/Session_Commands.thy ===== *)
theory Session_Commands
  imports Branch_Summary
begin

text \<open>
  Two commands of \<open>core/agent-session.ts\<close>: moving to another place of the session tree, \<open>navigateTree\<close>, and
  compacting the session, \<open>compact\<close> with \<open>_finalizeCompaction\<close>.  The state is the session manager with its disk, the
  messages of the agent, and whether the controllers of a running command are set.  What an extension returns, the
  model, the API key and whether a running compaction was aborted are arguments.
\<close>

record command_state =
  ms_session :: "session_manager \<times> disk"
  ms_messages :: "agent_message list"
  ms_branchController :: bool
  ms_compactionController :: bool
  ms_autoController :: bool

definition isCompacting :: "command_state \<Rightarrow> bool" where
  "isCompacting s \<longleftrightarrow> ms_autoController s \<or> ms_compactionController s \<or> ms_branchController s"

datatype command_error =
    NoModel
  | EntryNotFound string
  | NoApiKey
  | SummaryThrows summary_failure
  | SummaryError string
  | SessionError string
  | NeverEnds
  | AlreadyCompacted
  | NothingToCompact
  | CompactionCancelled

text \<open>The clock and the identifiers of one command.\<close>

record command_draws =
  cd_summary :: draws
  cd_label :: draws
  cd_now :: string
  cd_fresh :: "nat \<Rightarrow> string"

section \<open>Moving in the tree\<close>

record navigation_options =
  nv_summarize :: bool
  nv_customInstructions :: "string option"
  nv_replaceInstructions :: "bool option"
  nv_label :: "string option"

record tree_hook_result =
  th_cancel :: bool
  th_summary :: "(string \<times> json option) option"
  th_customInstructions :: "string option"
  th_replaceInstructions :: "bool option"
  th_label :: "string option"

text \<open>The extensions are asked with the entries to summarize and the common ancestor.\<close>

type_synonym tree_hook = "session_entry list \<Rightarrow> string option \<Rightarrow> tree_hook_result option"

record navigation_model =
  nm_complete :: summarizer
  nm_contextWindow :: int
  nm_hasKey :: bool
  nm_reserveTokens :: int

datatype navigation =
    Navigation_throws command_error
  | Navigation_cancelled bool
  | Navigated "string option" "session_entry option"

definition extractUserMessageText :: "user_content \<Rightarrow> string" where
  "extractUserMessageText c = (case c of PlainText t \<Rightarrow> t | Blocks bs \<Rightarrow> concat (texts_of bs))"

text \<open>The new leaf, and the text for the editor.\<close>

definition navigation_target :: "string \<Rightarrow> session_entry \<Rightarrow> string option \<times> string option" where
  "navigation_target target e =
     (case se_body e of
        MessageEntry (UserMessage c) \<Rightarrow> (se_parentId e, Some (extractUserMessageText c))
      | CustomMessageEntry ty c details display \<Rightarrow> (se_parentId e, Some (extractUserMessageText c))
      | _ \<Rightarrow> (Some target, None))"

text \<open>The summary that is attached, with its details: from the extension, from the model, or none.\<close>

definition override :: "'a option \<Rightarrow> 'a option \<Rightarrow> 'a option" where
  "override new old = (case new of None \<Rightarrow> old | Some x \<Rightarrow> Some x)"

datatype wanted_summary = Summary_throws command_error | Summary_aborted | Summary_is "string option" "json option"

definition summary_details :: "(string list \<times> string list) option \<Rightarrow> json" where
  "summary_details files =
     (case files of
        None \<Rightarrow> JObj [(''readFiles'', JArr []), (''modifiedFiles'', JArr [])]
      | Some (r, m) \<Rightarrow> JObj [(''readFiles'', JArr (map JStr r)), (''modifiedFiles'', JArr (map JStr m))])"

definition native_summary ::
  "navigation_model \<Rightarrow> session_entry list \<Rightarrow> string option \<Rightarrow> bool option \<Rightarrow> wanted_summary" where
  "native_summary nm es custom replace =
     (if \<not> nm_hasKey nm then Summary_throws NoApiKey
      else case generateBranchSummary es \<lparr>bo_complete = nm_complete nm, bo_contextWindow = nm_contextWindow nm,
             bo_customInstructions = custom, bo_replaceInstructions = (replace = Some True),
             bo_reserveTokens = nm_reserveTokens nm\<rparr> of
        Inl e \<Rightarrow> Summary_throws (SummaryThrows e)
      | Inr Branch_aborted \<Rightarrow> Summary_aborted
      | Inr (Branch_error e) \<Rightarrow> Summary_throws (SummaryError e)
      | Inr (Branch_summary t files) \<Rightarrow> Summary_is (Some t) (Some (summary_details files)))"

text \<open>The leaf is moved, with or without a summary entry.\<close>

definition move_leaf ::
  "string option \<Rightarrow> string option \<Rightarrow> json option \<Rightarrow> bool \<Rightarrow> draws \<Rightarrow> session_manager \<times> disk
     \<Rightarrow> string + ((session_manager \<times> disk) \<times> session_entry option)" where
  "move_leaf leaf summary details fromExtension dw md =
     (if \<not> js_falsy summary
      then case branchWithSummary leaf (the summary) details (Some fromExtension) dw md of
        Inl e \<Rightarrow> Inl e
      | Inr md' \<Rightarrow> Inr (md', case sm_leafId (fst md') of None \<Rightarrow> None | Some i \<Rightarrow> get_entry (fst md') i)
      else case leaf of
        None \<Rightarrow> Inr ((resetLeaf (fst md), snd md), None)
      | Some i \<Rightarrow> (case branch i (fst md) of Inl e \<Rightarrow> Inl e | Inr m \<Rightarrow> Inr ((m, snd md), None)))"

definition attach_label ::
  "string option \<Rightarrow> string \<Rightarrow> draws \<Rightarrow> session_manager \<times> disk \<Rightarrow> string + (session_manager \<times> disk)" where
  "attach_label lab target dw md = (if js_falsy lab then Inr md else appendLabelChange target lab dw md)"

definition finish_navigation ::
  "command_draws \<Rightarrow> string \<Rightarrow> session_entry \<Rightarrow> string option \<Rightarrow> json option \<Rightarrow> bool \<Rightarrow> string option \<Rightarrow> command_state
     \<Rightarrow> navigation \<times> command_state" where
  "finish_navigation cd target e summary details fromExtension lab s =
     (let (leaf, editorText) = navigation_target target e
      in case move_leaf leaf summary details fromExtension (cd_summary cd) (ms_session s) of
        Inl err \<Rightarrow> (Navigation_throws (SessionError err), s)
      | Inr (md, entry) \<Rightarrow>
          (case attach_label lab (case entry of None \<Rightarrow> target | Some x \<Rightarrow> se_id x) (cd_label cd) md of
             Inl err \<Rightarrow> (Navigation_throws (SessionError err), s\<lparr>ms_session := md\<rparr>)
           | Inr md' \<Rightarrow>
               (case managerContext (cd_now cd) (cd_fresh cd) (fst md') of
                  None \<Rightarrow> (Navigation_throws NeverEnds, s\<lparr>ms_session := md'\<rparr>)
                | Some c \<Rightarrow> (Navigated editorText entry,
                    s\<lparr>ms_session := md', ms_messages := sx_messages c, ms_branchController := False\<rparr>))))"

definition navigateTree ::
  "navigation_model option \<Rightarrow> tree_hook option \<Rightarrow> command_draws \<Rightarrow> string \<Rightarrow> navigation_options \<Rightarrow> command_state
     \<Rightarrow> navigation \<times> command_state" where
  "navigateTree model hook cd target opts s =
     (let m = fst (ms_session s); oldLeaf = sm_leafId m
      in if oldLeaf = Some target then (Navigated None None, s)
         else if nv_summarize opts \<and> model = None then (Navigation_throws NoModel, s)
         else case get_entry m target of
           None \<Rightarrow> (Navigation_throws (EntryNotFound target), s)
         | Some e \<Rightarrow>
        (case collectEntriesForBranchSummary m oldLeaf target of
           None \<Rightarrow> (Navigation_throws NeverEnds, s)
         | Some (es, ancestor) \<Rightarrow>
        (let started = s\<lparr>ms_branchController := True\<rparr>;
             result = (case hook of None \<Rightarrow> None | Some h \<Rightarrow> h es ancestor);
             extension = (case result of None \<Rightarrow> None | Some r \<Rightarrow> if nv_summarize opts then th_summary r else None);
             custom = override (Option.bind result th_customInstructions) (nv_customInstructions opts);
             replace = override (Option.bind result th_replaceInstructions) (nv_replaceInstructions opts);
             lab = override (Option.bind result th_label) (nv_label opts)
         in if (case result of None \<Rightarrow> False | Some r \<Rightarrow> th_cancel r) then (Navigation_cancelled False, started)
            else case extension of
              Some (t, details) \<Rightarrow> finish_navigation cd target e (Some t) details True lab started
            | None \<Rightarrow>
                if nv_summarize opts \<and> es \<noteq> []
                then (case native_summary (the model) es custom replace of
                        Summary_throws NoApiKey \<Rightarrow> (Navigation_throws NoApiKey, started)
                      | Summary_throws (SummaryThrows f) \<Rightarrow> (Navigation_throws (SummaryThrows f), started)
                      | Summary_throws err \<Rightarrow> (Navigation_throws err, s\<lparr>ms_branchController := False\<rparr>)
                      | Summary_aborted \<Rightarrow> (Navigation_cancelled True, s\<lparr>ms_branchController := False\<rparr>)
                      | Summary_is t details \<Rightarrow>
                          finish_navigation cd target e t details False lab (s\<lparr>ms_branchController := False\<rparr>))
                else finish_navigation cd target e None None False lab started)))"

section \<open>Compacting the session\<close>

text \<open>The memory and the todos of the session are added to the summary that is stored.\<close>

definition augmentCompactionSummary :: "(string \<times> string) list \<Rightarrow> (string \<times> string \<times> string) list \<Rightarrow> string \<Rightarrow> string" where
  "augmentCompactionSummary memory todos summary =
     summary
     @ (if memory = [] then []
        else newline @ newline @ ''## Active Session Memory'' @ newline
          @ join_with newline (map (\<lambda>(k, v). ''- '' @ k @ '': '' @ v) memory))
     @ (if todos = [] then []
        else newline @ newline @ ''## Active Todo State'' @ newline
          @ join_with newline (map (\<lambda>(status, content, activeForm).
               ''- ['' @ status @ ''] '' @ (if status = ''in_progress'' then activeForm else content)) todos))"

text \<open>The stored result, and the entry that is reported to the extensions: the first with the same summary.\<close>

definition finalizeCompaction ::
  "(string \<Rightarrow> string) \<Rightarrow> command_draws \<Rightarrow> compaction_result \<Rightarrow> bool \<Rightarrow> command_state
     \<Rightarrow> command_error + (compaction_result \<times> session_entry option \<times> command_state)" where
  "finalizeCompaction augment cd r fromExtension s =
     (let persisted = augment (cr_summary r);
          md = appendCompaction persisted (cr_firstKeptEntryId r) (cr_tokensBefore r) (Some (cr_details r))
                 (Some fromExtension) (cd_summary cd) (ms_session s)
      in case managerContext (cd_now cd) (cd_fresh cd) (fst md) of
        None \<Rightarrow> Inl NeverEnds
      | Some c \<Rightarrow> Inr (r\<lparr>cr_summary := persisted\<rparr>,
          List.find (\<lambda>e. map_option co_summary (compaction_of e) = Some persisted) (getEntries (fst md)),
          s\<lparr>ms_session := md, ms_messages := sx_messages c\<rparr>))"

record compaction_env =
  ve_sha :: "string \<Rightarrow> string"
  ve_localeCompare :: "string \<Rightarrow> string \<Rightarrow> int"
  ve_usage :: "session_entry \<Rightarrow> token_usage option"
  ve_settings :: compaction_settings
  ve_augment :: "string \<Rightarrow> string"
  ve_reasoning :: bool
  ve_aborted :: bool

datatype compact_hook_result = Hook_cancels | Hook_compacts compaction_result | Hook_passes

text \<open>What is to be stored, or why not: shared by the command and by automatic compaction.\<close>

definition compaction_outcome ::
  "compaction_env \<Rightarrow> (compaction_preparation \<Rightarrow> compact_hook_result) \<Rightarrow> summarizer \<Rightarrow> string option \<Rightarrow> compaction_preparation
     \<Rightarrow> command_error + (compaction_result \<times> bool)" where
  "compaction_outcome env hook complete custom p =
     (let checked = (\<lambda>r fromExtension. if ve_aborted env then Inl CompactionCancelled
             else Inr (r\<lparr>cr_details := createDeterministicCompactionDetails p (cr_details r)\<rparr>, fromExtension))
      in case hook p of
        Hook_cancels \<Rightarrow> Inl CompactionCancelled
      | Hook_compacts r \<Rightarrow> checked r True
      | Hook_passes \<Rightarrow>
          (case compact complete (ve_reasoning env) p custom of
             Inl f \<Rightarrow> Inl (SummaryThrows f)
           | Inr r \<Rightarrow> checked r False))"

definition sessionCompact ::
  "compaction_env \<Rightarrow> (compaction_preparation \<Rightarrow> compact_hook_result) \<Rightarrow> (summarizer \<times> bool) option \<Rightarrow> string option
     \<Rightarrow> command_draws \<Rightarrow> command_state
     \<Rightarrow> (command_error + (compaction_result \<times> session_entry option)) \<times> command_state" where
  "sessionCompact env hook model custom cd s =
     (let stop = (\<lambda>e. (Inl e, s\<lparr>ms_compactionController := False\<rparr>))
      in case model of
        None \<Rightarrow> stop NoModel
      | Some (complete, hasKey) \<Rightarrow>
     if \<not> hasKey then stop NoApiKey
     else case getBranch None (fst (ms_session s)) of
        None \<Rightarrow> stop NeverEnds
      | Some es \<Rightarrow>
          (case prepareCompaction (ve_sha env) (ve_localeCompare env) (ve_usage env) es (ve_settings env) of
             PrepareThrows \<Rightarrow> stop (SummaryThrows SummaryTypeError)
           | NothingPrepared \<Rightarrow>
               stop (if es \<noteq> [] \<and> compaction_of (last es) \<noteq> None then AlreadyCompacted else NothingToCompact)
           | Prepared_compaction p \<Rightarrow>
               (case compaction_outcome env hook complete custom p of
                  Inl e \<Rightarrow> stop e
                | Inr (r, fromExtension) \<Rightarrow>
                    (case finalizeCompaction (ve_augment env) cd r fromExtension s of
                       Inl e \<Rightarrow> stop e
                     | Inr (r', entry, s') \<Rightarrow> (Inr (r', entry), s'\<lparr>ms_compactionController := False\<rparr>)))))"

end
