(* ===== verification/Compaction_Budget.thy ===== *)
theory Compaction_Budget
  imports Compaction_Claims Compaction_Summary
begin

text \<open>
  The budget of a compaction, what it stores for the next one, and when it cannot be prepared at all.
\<close>

section \<open>The budget\<close>

text \<open>The estimate of an entry, and of the entries from an index on.\<close>

definition entry_tokens :: "session_entry \<Rightarrow> int option" where
  "entry_tokens e = (case se_body e of MessageEntry m \<Rightarrow> estimateTokens m | _ \<Rightarrow> Some 0)"

definition tokens_from :: "session_entry list \<Rightarrow> nat \<Rightarrow> int" where
  "tokens_from es i = sum_list (map (\<lambda>e. the (entry_tokens e)) (drop i es))"

lemma quarter_nonneg [simp]: "0 \<le> quarter n"
  by (simp add: quarter_def)

lemma estimate_nonneg: "estimateTokens m = Some t \<Longrightarrow> 0 \<le> t"
  by (induction m rule: estimateTokens.induct) auto

lemma tokens_from_Suc: "i < length es \<Longrightarrow> tokens_from es i = the (entry_tokens (es ! i)) + tokens_from es (Suc i)"
  by (simp add: tokens_from_def flip: Cons_nth_drop_Suc)

lemma tokens_from_quiet:
  "i \<le> j \<Longrightarrow> j \<le> length es \<Longrightarrow> \<forall>k. i \<le> k \<and> k < j \<longrightarrow> \<not> is_message (es ! k) \<Longrightarrow> tokens_from es i = tokens_from es j"
proof (induction "j - i" arbitrary: i)
  case (Suc d)
  then have "entry_tokens (es ! i) = Some 0"
    by (auto simp: is_message_def entry_tokens_def split: entry_body.splits)
  moreover have "tokens_from es (Suc i) = tokens_from es j"
    by (rule Suc.hyps(1)) (use Suc.hyps(2) Suc.prems in auto)
  ultimately show ?case using Suc tokens_from_Suc [of i es] by simp
qed simp

text \<open>The loop: what it has added up, and where it stops.\<close>

lemma budget_walk_facts:
  assumes "start \<le> n" "n \<le> length es" "budget_walk es keep (rev [start..<n]) (tokens_from es n) = Some reached"
  shows "case reached of
      None \<Rightarrow> \<forall>i. start \<le> i \<and> i < n \<longrightarrow> entry_tokens (es ! i) \<noteq> None \<and> (is_message (es ! i) \<longrightarrow> tokens_from es i < keep)
    | Some i \<Rightarrow> start \<le> i \<and> i < n \<and> is_message (es ! i) \<and> keep \<le> tokens_from es i
        \<and> (\<forall>j. i \<le> j \<and> j < n \<longrightarrow> entry_tokens (es ! j) \<noteq> None \<and> (i < j \<and> is_message (es ! j) \<longrightarrow> tokens_from es j < keep))"
  using assms
proof (induction "n - start" arbitrary: n)
  case 0
  then show ?case by auto
next
  case (Suc d)
  then obtain i where n: "n = Suc i" "start \<le> i" by (cases n) auto
  have walk: "budget_walk es keep (i # rev [start..<i]) (tokens_from es (Suc i)) = Some reached"
    using Suc.prems(3) n by simp
  have below: "d = i - start" "start \<le> i" "i \<le> length es" using Suc.hyps(2) Suc.prems n by simp_all
  show ?case
  proof (cases "is_message (es ! i)")
    case False
    then have "entry_tokens (es ! i) = Some 0" by (auto simp: is_message_def entry_tokens_def split: entry_body.splits)
    then have same: "tokens_from es i = tokens_from es (Suc i)" using tokens_from_Suc [of i es] Suc.prems(2) n by simp
    have "budget_walk es keep (rev [start..<i]) (tokens_from es i) = Some reached" using walk False same by simp
    from Suc.hyps(1) [OF below this] show ?thesis
      using False \<open>entry_tokens (es ! i) = Some 0\<close> unfolding n(1)
      by (cases reached) (auto simp: less_Suc_eq)
  next
    case True
    have "(case se_body (es ! i) of MessageEntry m \<Rightarrow> estimateTokens m | _ \<Rightarrow> Some 0) = entry_tokens (es ! i)"
      by (simp add: entry_tokens_def)
    then obtain t where t: "entry_tokens (es ! i) = Some t" using walk True by (cases "entry_tokens (es ! i)") auto
    have sum: "tokens_from es i = tokens_from es (Suc i) + t" using tokens_from_Suc [of i es] Suc.prems(2) n t by simp
    show ?thesis
    proof (cases "tokens_from es (Suc i) + t \<ge> keep")
      case reach: True
      then have "reached = Some i" using walk True t by (simp add: entry_tokens_def)
      then show ?thesis using n True reach sum t by (auto simp: less_Suc_eq)
    next
      case False
      then have "budget_walk es keep (rev [start..<i]) (tokens_from es i) = Some reached"
        using walk True t sum by (simp add: entry_tokens_def)
      from Suc.hyps(1) [OF below this] show ?thesis
        using False sum t unfolding n(1) by (cases reached) (auto simp: less_Suc_eq)
    qed
  qed
qed

lemma tokens_from_end [simp]: "tokens_from es (length es) = 0"
  by (simp add: tokens_from_def)

lemma walk_from_end:
  assumes "start \<le> length es" "budget_walk es keep (rev [start..<length es]) 0 = Some reached"
  shows "case reached of
      None \<Rightarrow> \<forall>i. start \<le> i \<and> i < length es \<longrightarrow> entry_tokens (es ! i) \<noteq> None \<and> (is_message (es ! i) \<longrightarrow> tokens_from es i < keep)
    | Some i \<Rightarrow> start \<le> i \<and> i < length es \<and> is_message (es ! i) \<and> keep \<le> tokens_from es i
        \<and> (\<forall>j. i \<le> j \<and> j < length es \<longrightarrow> entry_tokens (es ! j) \<noteq> None \<and> (i < j \<and> is_message (es ! j) \<longrightarrow> tokens_from es j < keep))"
  using budget_walk_facts [of start "length es" es keep reached] assms by simp

text \<open>Entries behind the point where the budget is reached stay below it.\<close>

lemma tokens_after_reach:
  assumes "0 < keep" "i < j" "j \<le> length es" "\<forall>k. i < k \<and> k < length es \<and> is_message (es ! k) \<longrightarrow> tokens_from es k < keep"
  shows "tokens_from es j < keep"
  using assms(2-)
proof (induction "length es - j" arbitrary: j)
  case 0
  then have "tokens_from es j = 0" by (simp add: tokens_from_def)
  then show ?case using assms(1) by simp
next
  case (Suc d)
  show ?case
  proof (cases "is_message (es ! j)")
    case True
    then show ?thesis using Suc by simp
  next
    case False
    then have "entry_tokens (es ! j) = Some 0" by (auto simp: is_message_def entry_tokens_def split: entry_body.splits)
    then have "tokens_from es j = tokens_from es (Suc j)" using tokens_from_Suc [of j es] Suc.hyps(2) by simp
    then show ?thesis using Suc.hyps(1) [of "Suc j"] Suc.hyps(2) Suc.prems by simp
  qed
qed


lemma first_cut:
  assumes "cut_at es start c cp" "c = hd (findValidCutPoints es start (length es))"
    "start \<le> j" "j < cp_firstKept cp"
  shows "\<not> is_cut_point (es ! j)"
proof
  assume j: "is_cut_point (es ! j)"
  have c: "start \<le> c" "c < length es" "cp_firstKept cp = scan_back es start c" using assms(1) by (simp_all add: cut_at_def)
  have "\<forall>d \<in> set (findValidCutPoints es start (length es)). hd (findValidCutPoints es start (length es)) \<le> d"
    using sorted_filter [of id "[start..<length es]" "\<lambda>i. is_cut_point (es ! i)"]
    by (cases "findValidCutPoints es start (length es)") (auto simp: findValidCutPoints_def)
  moreover have "j < c" using scan_back_facts(2) [OF c(1), of es] assms(4) c(3) by simp
  moreover from this have "j \<in> set (findValidCutPoints es start (length es))"
    using in_cut_points [of j es start "length es"] assms(3) j c(2) by simp
  ultimately show False using assms(2) by force
qed

text \<open>C30. Where the cut lies.  With a positive budget, either no entry that can be cut lies
  before the first kept entry, so that no turn is summarized at all; or the entries are worth at least the budget,
  and behind the first kept message less than the budget is kept.\<close>

theorem cut_within_budget:
  assumes "findCutPoint es start (length es) keep = Some cp" "start \<le> length es" "0 < keep"
  shows "(\<forall>j. start \<le> j \<and> j < cp_firstKept cp \<longrightarrow> \<not> is_cut_point (es ! j))
    \<or> (\<exists>c. cp_firstKept cp \<le> c \<and> c < length es \<and> is_cut_point (es ! c)
         \<and> (\<forall>j. cp_firstKept cp \<le> j \<and> j < c \<longrightarrow> \<not> is_message (es ! j))
         \<and> tokens_from es (Suc c) < keep \<and> (\<exists>i. start \<le> i \<and> i \<le> c \<and> keep \<le> tokens_from es i))"
proof -
  let ?cps = "findValidCutPoints es start (length es)"
  consider (none) "?cps = []" | (cut) c reached where "cut_at es start c cp"
      "budget_walk es keep (rev [start..<length es]) 0 = Some reached"
      "case reached of None \<Rightarrow> c = hd ?cps
        | Some i \<Rightarrow> c = hd ?cps \<and> (\<forall>d \<in> set ?cps. d < i) \<or> i \<le> c \<and> (\<forall>d \<in> set ?cps. d < i \<or> c \<le> d)"
    using findCutPoint_cut [OF assms(1)] by blast
  then show ?thesis
  proof cases
    case none
    then have "\<forall>j. start \<le> j \<and> j < length es \<longrightarrow> \<not> is_cut_point (es ! j)"
      by (auto simp: findValidCutPoints_def filter_empty_conv)
    then show ?thesis using findCutPoint_bounds(2) [OF assms(1,2)] by auto
  next
    case cut
    have c: "start \<le> c" "c < length es" "is_cut_point (es ! c)" "cp_firstKept cp = scan_back es start c"
      using cut(1) by (simp_all add: cut_at_def)
    note moved = scan_back_facts [OF c(1), of es]
    show ?thesis
    proof (cases "c = hd ?cps")
      case True
      then show ?thesis using first_cut [OF cut(1)] by blast
    next
      case False
      then obtain i where i: "reached = Some i" "i \<le> c" using cut(3) by (cases reached) auto
      have walk: "start \<le> i" "keep \<le> tokens_from es i"
        "\<forall>k. i < k \<and> k < length es \<and> is_message (es ! k) \<longrightarrow> tokens_from es k < keep"
        using walk_from_end [OF assms(2) cut(2)] i(1) by auto
      have "tokens_from es (Suc c) < keep" using tokens_after_reach [OF assms(3) _ _ walk(3), of "Suc c"] i(2) c(2) by simp
      then show ?thesis using moved(2,3) c i walk by auto
    qed
  qed
qed

text \<open>When the entries end with tool results that are together worth the
  budget, every entry that can be cut lies before the point where the budget is reached: the cut falls back to the
  first entry that can be cut, nothing but what precedes it is dropped, and the conversation does not get shorter.\<close>

theorem big_results_stop_compaction:
  assumes "findCutPoint (es @ results) start (length (es @ results)) keep = Some cp" "start \<le> length es" "0 < keep"
    and "\<forall>e \<in> set results. \<exists>r. se_body e = MessageEntry (ToolResult r)"
    and "keep \<le> tokens_from (es @ results) (length es)"
  shows "\<forall>j. start \<le> j \<and> j < cp_firstKept cp \<longrightarrow> \<not> is_cut_point ((es @ results) ! j)"
proof -
  let ?es = "es @ results"
  let ?cps = "findValidCutPoints ?es start (length ?es)"
  have result: "\<not> is_cut_point (?es ! k)" "is_message (?es ! k)" if "length es \<le> k" "k < length ?es" for k
  proof -
    have "?es ! k \<in> set results" using that by (simp add: nth_append)
    then show "\<not> is_cut_point (?es ! k)" "is_message (?es ! k)"
      using assms(4) by (auto simp: is_cut_point_def is_message_def)
  qed
  have some: "results \<noteq> []" using assms(3,5) tokens_from_end [of es] by auto
  consider (none) "?cps = []" "cp_firstKept cp = start" | (cut) c reached where "cut_at ?es start c cp"
      "budget_walk ?es keep (rev [start..<length ?es]) 0 = Some reached"
      "case reached of None \<Rightarrow> c = hd ?cps
        | Some i \<Rightarrow> c = hd ?cps \<and> (\<forall>d \<in> set ?cps. d < i) \<or> i \<le> c \<and> (\<forall>d \<in> set ?cps. d < i \<or> c \<le> d)"
    using findCutPoint_cut [OF assms(1)] by blast
  then show ?thesis
  proof cases
    case cut
    have "c = hd ?cps"
    proof (cases reached)
      case (Some i)
      have "length es \<le> i"
      proof (rule ccontr)
        assume "\<not> length es \<le> i"
        then have "tokens_from ?es (length es) < keep"
          using walk_from_end [OF _ cut(2)] Some result(2) [of "length es"] some assms(2) by simp
        then show False using assms(5) by simp
      qed
      moreover have "c < length ?es" "is_cut_point (?es ! c)" using cut(1) by (simp_all add: cut_at_def)
      ultimately have "\<not> i \<le> c" using result(1) [of c] by auto
      then show ?thesis using cut(3) Some by auto
    qed (use cut(3) in auto)
    then show ?thesis using first_cut [OF cut(1)] by blast
  qed auto
qed

section \<open>What is stored for the next compaction\<close>

lemma parse_evidence_value: "parse_evidence (evidence_value e) = Some e"
proof -
  have "string_items (map JStr ts) = ts" for ts by (induction ts) simp_all
  then show ?thesis
    by (cases "ev_excerpt e") (simp_all add: parse_evidence_def evidence_value_def optional_value_def jget_def json_field_def)
qed

lemma parse_evidence_values: "List.map_filter parse_evidence (map evidence_value es) = es"
  by (induction es) (simp_all add: map_filter_def parse_evidence_value)

text \<open>C31. Whatever an extension returns as the details of a compaction, the details that
  are stored are an object whose lists of files are strings in order without repetition, whose other members are
  those returned, and whose tool evidence is read back by the next compaction as it was prepared.\<close>

theorem compaction_details_typed:
  fixes p :: compaction_preparation and details :: json
  shows "\<exists>ms reads writes. createDeterministicCompactionDetails p details = JObj ms
    \<and> map_of ms ''readFiles'' = Some (JArr (map JStr reads)) \<and> sorted reads \<and> distinct reads
    \<and> map_of ms ''modifiedFiles'' = Some (JArr (map JStr writes)) \<and> sorted writes \<and> distinct writes
    \<and> (\<forall>k. k \<notin> {''readFiles'', ''modifiedFiles'', ''checkpoint''} \<longrightarrow> map_of ms k = map_of (spread_members details) k)
    \<and> previous_evidence (Some \<lparr>co_summary = s, co_firstKeptEntryId = i, co_firstKeptEntryIndex = x, co_tokensBefore = n,
        co_details = Some (createDeterministicCompactionDetails p details), co_fromHook = h\<rparr>) = pr_toolEvidence p"
proof -
  let ?base = "JObj (spread_members details)"
  let ?ms = "assoc_set ''checkpoint'' (checkpoint_value p)
           (assoc_set ''modifiedFiles'' (file_list_value (jget ?base ''modifiedFiles''))
             (assoc_set ''readFiles'' (file_list_value (jget ?base ''readFiles'')) (spread_members details)))"
  have d: "createDeterministicCompactionDetails p details = JObj ?ms"
    by (simp add: createDeterministicCompactionDetails_def Let_def)
  have "previous_evidence (Some \<lparr>co_summary = s, co_firstKeptEntryId = i, co_firstKeptEntryIndex = x, co_tokensBefore = n,
        co_details = Some (JObj ?ms), co_fromHook = h\<rparr>) = pr_toolEvidence p"
    by (simp add: previous_evidence_def stored_details_def jget_def json_field_def checkpoint_value_def array_items_def
        parse_evidence_values)
  then show ?thesis unfolding d
    by (intro exI conjI) (auto simp: file_list_value_def)
qed

section \<open>What accumulates\<close>

lemma string_items_strings [simp]: "string_items (map JStr ts) = ts"
  by (induction ts) simp_all

text \<open>Evidence is kept by its address.\<close>

lemma evidence_fold_keys:
  "(\<forall>k v. map_of m k = Some v \<longrightarrow> k = evidence_address v) \<Longrightarrow>
    map_of (fold (\<lambda>e. assoc_set (evidence_address e) e) es m) k = Some v \<Longrightarrow> k = evidence_address v"
proof (induction es arbitrary: m)
  case (Cons e es)
  show ?case by (rule Cons.IH [OF _ Cons.prems(2) [unfolded fold_simps]]) (use Cons.prems(1) in auto)
qed simp

lemma evidence_fold_keeps:
  "map_of m k \<noteq> None \<or> k \<in> evidence_address ` set es \<Longrightarrow>
    map_of (fold (\<lambda>e. assoc_set (evidence_address e) e) es m) k \<noteq> None"
proof (induction es arbitrary: m)
  case (Cons e es)
  show ?case using Cons.IH [of "assoc_set (evidence_address e) e m"] Cons.prems by auto
qed simp

lemma collected_evidence:
  assumes "collectToolEvidence sha localeCompare ms prev = Some evs"
  obtains new where "all_some (map (createToolEvidenceReference sha) (tool_results_of ms)) = Some new"
    "\<forall>e \<in> set (previous_evidence prev @ new). \<exists>e' \<in> set evs. evidence_address e' = evidence_address e"
proof -
  obtain new where new: "all_some (map (createToolEvidenceReference sha) (tool_results_of ms)) = Some new"
    and evs: "set evs = snd ` set (fold (\<lambda>e. assoc_set (evidence_address e) e) (previous_evidence prev @ new) [])"
    using assms by (auto simp: collectToolEvidence_def)
  have "\<exists>e' \<in> set evs. evidence_address e' = evidence_address e" if e: "e \<in> set (previous_evidence prev @ new)" for e
  proof -
    let ?m = "fold (\<lambda>e. assoc_set (evidence_address e) e) (previous_evidence prev @ new) []"
    obtain e' where e': "map_of ?m (evidence_address e) = Some e'"
      using evidence_fold_keeps [of "[]" "evidence_address e" "previous_evidence prev @ new"] e by blast
    have "evidence_address e = evidence_address e'" by (rule evidence_fold_keys [OF _ e']) simp
    then have "evidence_address e' = evidence_address e" by (rule sym)
    moreover have "e' \<in> set evs" unfolding evs using imageI [OF map_of_SomeD [OF e'], of snd] by (simp only: snd_conv)
    ultimately show ?thesis by blast
  qed
  then show thesis by (intro that [OF new] ballI)
qed

lemma in_tool_results: "r \<in> set (tool_results_of ms) \<longleftrightarrow> ToolResult r \<in> set ms"
  by (induction ms rule: tool_results_of.induct) auto

lemma all_some_each: "all_some xs = Some ys \<Longrightarrow> x \<in> set xs \<Longrightarrow> \<exists>y \<in> set ys. x = Some y"
  by (induction xs arbitrary: ys) (auto split: option.splits)

lemma evidence_of_result: "createToolEvidenceReference sha r = Some e \<Longrightarrow> tm_content r \<noteq> None \<and>
    evidence_address e = tm_toolCallId r @ '':'' @ sha (the (toCanonicalContextJson (JArr (map block_value (the (tm_content r)))) True))"
  by (auto simp: createToolEvidenceReference_def evidence_address_def Let_def)

text \<open>Files only accumulate.\<close>

definition files_le :: "file_ops \<Rightarrow> file_ops \<Rightarrow> bool" where
  "files_le a b \<longleftrightarrow> set (fo_read a) \<subseteq> set (fo_read b) \<and> set (fo_written a) \<subseteq> set (fo_written b) \<and> set (fo_edited a) \<subseteq> set (fo_edited b)"

lemma files_le_refl: "files_le a a"
  by (simp add: files_le_def)

lemma files_le_trans: "files_le a b \<Longrightarrow> files_le b c \<Longrightarrow> files_le a c"
  by (auto simp: files_le_def)

lemma file_op_step_le: "files_le a (file_op_step c a)"
  by (auto simp: files_le_def file_op_step_def split: option.splits)

lemma fold_le: "(\<And>x a. files_le a (f x a)) \<Longrightarrow> files_le a (fold f xs a)"
  by (induction xs arbitrary: a) (auto intro: files_le_refl files_le_trans)

lemma extract_le: "files_le a (extractFileOpsFromMessage m a)"
  unfolding extractFileOpsFromMessage_def
  by (cases m) (simp_all add: files_le_refl fold_le file_op_step_le)

lemma file_lists_le:
  assumes "files_le a b"
  shows "set (snd (computeFileLists a)) \<subseteq> set (snd (computeFileLists b))"
    "set (fst (computeFileLists a)) \<subseteq> set (fst (computeFileLists b)) \<union> set (snd (computeFileLists b))"
  using assms by (auto simp: files_le_def computeFileLists_def Let_def)

lemma prepared_files:
  assumes "prepareCompaction sha localeCompare usage_of (older @ newer) settings = Prepared_compaction p"
    and "since_compaction older newer"
  shows "\<exists>ms. files_le (extractFileOperations ms (if older = [] then None else compaction_of (last older))) (pr_fileOps p)"
proof -
  let ?es = "older @ newer"
  let ?prev = "if older = [] then None else compaction_of (last older)"
  have index: "previous_compaction_index ?es = (if older = [] then None else Some (length older - 1))"
    by (rule previous_index [OF assms(2)])
  have prev: "(case previous_compaction_index ?es of None \<Rightarrow> None | Some i \<Rightarrow> compaction_of (?es ! i)) = ?prev"
    unfolding index by (simp add: last_conv_nth nth_append)
  have "pr_fileOps p = fold extractFileOpsFromMessage (pr_turnPrefixMessages p) (extractFileOperations (pr_messagesToSummarize p) ?prev)"
    using assms(1) unfolding prepareCompaction_def Let_def prev
    by (auto split: if_splits option.splits simp del: length_append)
  then show ?thesis using fold_le [of extractFileOpsFromMessage, OF extract_le] by auto
qed

text \<open>The files of the details that \<open>compact\<close> stores.\<close>

lemma stored_files:
  assumes "compact complete reasoning p custom = Inr res"
  shows "jget (cr_details res) ''readFiles'' = JArr (map JStr (sort (js_set (fst (computeFileLists (pr_fileOps p))))))"
    "jget (cr_details res) ''modifiedFiles'' = JArr (map JStr (sort (js_set (snd (computeFileLists (pr_fileOps p))))))"
    "jget (jget (cr_details res) ''checkpoint'') ''toolEvidence'' = JArr (map evidence_value (pr_toolEvidence p))"
  using assms
  by (auto simp: compact_def createDeterministicCompactionDetails_def Let_def spread_members_def file_list_value_def
      jget_def json_field_def array_items_def checkpoint_value_def split: sum.splits if_splits prod.splits)

text \<open>C11. What one compaction leaves to the next one, when its result is stored: the next
  one starts from its summary, no file it knew as modified or as read is forgotten, and none that was modified becomes
  one that was only read; the evidence of every tool result it summarized, and of every one before it, is still there.\<close>

theorem compaction_accumulates:
  assumes "prepareCompaction sha localeCompare usage_of (before @ entries) settings = Prepared_compaction p"
    and "since_compaction before entries" "compact complete reasoning p custom = Inr res"
    and "compaction_of c = Some \<lparr>co_summary = cr_summary res, co_firstKeptEntryId = cr_firstKeptEntryId res,
       co_firstKeptEntryIndex = None, co_tokensBefore = cr_tokensBefore res, co_details = Some (cr_details res), co_fromHook = hook\<rparr>"
    and "hook \<noteq> Some True" "\<forall>e \<in> set newer. compaction_of e = None"
    and "prepareCompaction sha localeCompare usage_of ((older @ [c]) @ newer) settings' = Prepared_compaction next_p"
  shows "pr_previousSummary next_p = Some (cr_summary res)
    \<and> set (snd (computeFileLists (pr_fileOps p))) \<subseteq> set (snd (computeFileLists (pr_fileOps next_p)))
    \<and> set (fst (computeFileLists (pr_fileOps p))) \<subseteq> set (fst (computeFileLists (pr_fileOps next_p)))
        \<union> set (snd (computeFileLists (pr_fileOps next_p)))
    \<and> (\<forall>e \<in> set (pr_toolEvidence p). \<exists>e' \<in> set (pr_toolEvidence next_p). evidence_address e' = evidence_address e)
    \<and> (\<forall>r. ToolResult r \<in> set (pr_messagesToSummarize p @ pr_turnPrefixMessages p) \<longrightarrow>
        (\<exists>bs. tm_content r = Some bs \<and> (\<exists>e \<in> set (pr_toolEvidence next_p).
           evidence_address e = tm_toolCallId r @ '':'' @ sha (the (toCanonicalContextJson (JArr (map block_value bs)) True)))))"
proof -
  let ?k = "\<lparr>co_summary = cr_summary res, co_firstKeptEntryId = cr_firstKeptEntryId res,
       co_firstKeptEntryIndex = None, co_tokensBefore = cr_tokensBefore res, co_details = Some (cr_details res), co_fromHook = hook\<rparr>"
  have since: "since_compaction (older @ [c]) newer" using assms(4,6) by (simp add: since_compaction_def)
  note stored = stored_files [OF assms(3)]
  have old: "previous_evidence (Some ?k) = pr_toolEvidence p"
    by (simp add: previous_evidence_def stored_details_def stored(3) array_items_def parse_evidence_values)
  obtain ms where nxt: "collectToolEvidence sha localeCompare ms (Some ?k) = Some (pr_toolEvidence next_p)"
      "pr_previousSummary next_p = Some (cr_summary res)"
    by (rule prepared_parts [OF assms(7) since]) (simp add: assms(4))
  have evidence: "\<forall>e \<in> set (pr_toolEvidence p). \<exists>e' \<in> set (pr_toolEvidence next_p). evidence_address e' = evidence_address e"
    by (rule collected_evidence [OF nxt(1)]) (simp add: old)
  have results: "\<exists>bs. tm_content r = Some bs \<and> (\<exists>e \<in> set (pr_toolEvidence next_p).
      evidence_address e = tm_toolCallId r @ '':'' @ sha (the (toCanonicalContextJson (JArr (map block_value bs)) True)))"
    if r: "ToolResult r \<in> set (pr_messagesToSummarize p @ pr_turnPrefixMessages p)" for r
  proof -
    have collected: "collectToolEvidence sha localeCompare (pr_messagesToSummarize p @ pr_turnPrefixMessages p)
       (if before = [] then None else compaction_of (last before)) = Some (pr_toolEvidence p)"
      by (rule prepared_parts [OF assms(1,2)])
    obtain new where new: "all_some (map (createToolEvidenceReference sha)
          (tool_results_of (pr_messagesToSummarize p @ pr_turnPrefixMessages p))) = Some new"
      and kept: "\<forall>e \<in> set (previous_evidence (if before = [] then None else compaction_of (last before)) @ new).
         \<exists>e' \<in> set (pr_toolEvidence p). evidence_address e' = evidence_address e"
      by (rule collected_evidence [OF collected])
    have "createToolEvidenceReference sha r \<in> set (map (createToolEvidenceReference sha)
          (tool_results_of (pr_messagesToSummarize p @ pr_turnPrefixMessages p)))"
      using r unfolding in_tool_results [symmetric] by simp
    from all_some_each [OF new this] obtain e where e: "e \<in> set new" "createToolEvidenceReference sha r = Some e" by blast
    obtain e1 where e1: "e1 \<in> set (pr_toolEvidence p)" "evidence_address e1 = evidence_address e" using kept e(1) by auto
    obtain e2 where e2: "e2 \<in> set (pr_toolEvidence next_p)" "evidence_address e2 = evidence_address e"
      using evidence e1 by metis
    obtain bs where bs: "tm_content r = Some bs" using evidence_of_result [OF e(2)] by blast
    show ?thesis using evidence_of_result [OF e(2)] e2 bs by (intro exI [of _ bs] conjI bexI [of _ e2]) simp_all
  qed
  let ?f = "\<lambda>p. computeFileLists (pr_fileOps p)"
  obtain ns where files: "files_le (extractFileOperations ns (Some ?k)) (pr_fileOps next_p)"
    using prepared_files [OF assms(7) since] assms(4) by auto
  have "set (fst (?f p)) \<subseteq> set (fo_read (pr_fileOps next_p))" "set (snd (?f p)) \<subseteq> set (fo_edited (pr_fileOps next_p))"
  proof -
    let ?ops = "createFileOps\<lparr>fo_read := js_set (string_items (array_items (jget (cr_details res) ''readFiles''))),
                  fo_edited := js_set (string_items (array_items (jget (cr_details res) ''modifiedFiles'')))\<rparr>"
    have "files_le ?ops (extractFileOperations ns (Some ?k))"
      using fold_le [of extractFileOpsFromMessage ?ops, OF extract_le] assms(5)
      by (simp add: extractFileOperations_def stored_details_def Let_def)
    then have "files_le ?ops (pr_fileOps next_p)" using files files_le_trans by blast
    then show "set (fst (?f p)) \<subseteq> set (fo_read (pr_fileOps next_p))" "set (snd (?f p)) \<subseteq> set (fo_edited (pr_fileOps next_p))"
      by (simp_all add: files_le_def stored(1,2) array_items_def)
  qed
  then have "set (snd (?f p)) \<subseteq> set (snd (?f next_p))" "set (fst (?f p)) \<subseteq> set (fst (?f next_p)) \<union> set (snd (?f next_p))"
    by (auto simp: computeFileLists_def Let_def)
  then show ?thesis using nxt(2) evidence results by blast
qed

text \<open>When the entry that starts the first turn after the previous compaction is summarized and the cut lies
  before the next turn starts, only a turn prefix is prepared.\<close>

lemma prepared_split:
  assumes "prepareCompaction sha localeCompare usage_of (older @ newer) settings = Prepared_compaction p"
    and "since_compaction older newer"
    and "findCutPoint (older @ newer) (length older) (length (older @ newer)) (cs_keepRecentTokens settings) = Some cp"
  shows "pr_isSplitTurn p = cp_isSplitTurn cp"
proof -
  have start: "(case previous_compaction_index (older @ newer) of None \<Rightarrow> 0 | Some i \<Rightarrow> Suc i) = length older"
    unfolding previous_index [OF assms(2)] by (cases older) simp_all
  show ?thesis
    using assms(1,3) unfolding prepareCompaction_def Let_def start
    by (auto split: if_splits option.splits simp del: length_append)
qed

lemma turn_started: "starts_turn e \<Longrightarrow> \<exists>m. getMessageFromEntry e = Some m"
  by (auto simp: starts_turn_def getMessageFromEntry_def split: entry_body.splits agent_message.splits)

lemma user_starts: "is_user_entry e \<Longrightarrow> starts_turn e"
  by (auto simp: starts_turn_def is_user_entry_def split: entry_body.splits agent_message.splits)

lemma only_a_prefix:
  assumes prep: "prepareCompaction sha localeCompare usage_of (older @ newer) settings = Prepared_compaction p"
    and since: "since_compaction older newer"
    and newer: "newer = lead @ (q # inside) @ kept" "kept \<noteq> []" "distinct (map se_id newer)"
    and first: "se_id (hd kept) = pr_firstKeptEntryId p"
    and quiet: "\<forall>e \<in> set lead. getMessageFromEntry e = None"
    and turn: "starts_turn q" "\<forall>e \<in> set (inside @ [hd kept]). \<not> starts_turn e"
  shows "pr_isSplitTurn p" "pr_messagesToSummarize p = []" "pr_turnPrefixMessages p = messages_in (q # inside)"
proof -
  let ?es = "older @ newer"
  let ?t = "length older + length lead"
  let ?c = "length older + length lead + Suc (length inside)"
  obtain cp where cp: "findCutPoint ?es (length older) (length ?es) (cs_keepRecentTokens settings) = Some cp"
    "cp_firstKept cp < length ?es" "se_id (?es ! cp_firstKept cp) = pr_firstKeptEntryId p"
    "pr_messagesToSummarize p @ pr_turnPrefixMessages p = messages_in (segment (length older) (cp_firstKept cp) ?es)"
    "pr_messagesToSummarize p = messages_in (segment (length older)
       (if cp_isSplitTurn cp then the (cp_turnStart cp) else cp_firstKept cp) ?es)"
    using prepared_parts [OF prep since] by metis
  have low: "length older \<le> cp_firstKept cp" using findCutPoint_bounds(1) [OF cp(1)] by simp
  have at: "?es ! ?c = hd kept" "?es ! ?t = q"
    and mid: "\<forall>j. ?t < j \<and> j < ?c \<longrightarrow> ?es ! j \<in> set inside"
    using newer(1,2) by (auto simp: nth_append nth_Cons' hd_conv_nth)
  have c: "cp_firstKept cp = ?c"
  proof -
    define i where "i = cp_firstKept cp - length older"
    define j where "j = length lead + Suc (length inside)"
    have nth: "newer ! i = ?es ! cp_firstKept cp" "newer ! j = hd kept"
      using low at(1) by (simp_all add: i_def j_def nth_append)
    have lt: "i < length newer" "j < length newer" using cp(2) low newer(1,2) by (simp_all add: i_def j_def)
    have "map se_id newer ! i = map se_id newer ! j" using nth cp(3) first lt by (simp only: nth_map)
    then have "i = j" using nth_eq_iff_index_eq [OF newer(3)] lt by simp
    then have "cp_firstKept cp - length older = ?c - length older" by (simp add: i_def j_def)
    then show ?thesis using low by simp
  qed
  have "findValidCutPoints ?es (length older) (length ?es) \<noteq> []"
  proof
    assume none: "findValidCutPoints ?es (length older) (length ?es) = []"
    then obtain d where "cut_at ?es (length older) d cp" using findCutPoint_cut [OF cp(1)] c by auto
    then show False using in_cut_points [of d ?es "length older" "length ?es"] none by (simp add: cut_at_def)
  qed
  moreover have "\<not> is_user_entry (?es ! ?c)" using turn(2) user_starts at(1) by auto
  ultimately have found: "cp_turnStart cp = findTurnStartIndex ?es ?c (length older)" "cp_isSplitTurn cp \<longleftrightarrow> cp_turnStart cp \<noteq> None"
    using cp(1) c findCutPoint_turn(1) [OF cp(1)]
    by (auto simp: findCutPoint_def Let_def split: if_splits list.splits option.splits simp del: length_append)
  have "\<exists>j \<in> set (rev [length older..<Suc ?c]). starts_turn (?es ! j)"
    using turn(1) at(2) by (intro bexI [of _ ?t]) simp_all
  then obtain t where t: "findTurnStartIndex ?es ?c (length older) = Some t"
    unfolding findTurnStartIndex_def by (metis find_None_iff not_Some_eq)
  note last = find_rev_Some [OF t [unfolded findTurnStartIndex_def]]
  have split: "cp_isSplitTurn cp" "cp_turnStart cp = Some t" using found t by simp_all
  then show "pr_isSplitTurn p" using prepared_split [OF prep since cp(1)] by simp
  have "t = ?t \<or> t < ?t"
  proof (rule ccontr)
    assume "\<not> (t = ?t \<or> t < ?t)"
    then have "?es ! t \<in> set (inside @ [hd kept])" using mid at(1) last(2) by (cases "t = ?c") auto
    then show False using turn(2) last(3) by blast
  qed
  moreover have "\<not> t < ?t" using last(4) turn(1) at(2) by auto
  ultimately have t_is: "t = ?t" by blast
  have seg: "segment (length older) ?t ?es = lead" "segment (length older) ?c ?es = lead @ q # inside"
    by (simp_all add: segment_def newer(1))
  show none: "pr_messagesToSummarize p = []"
    using cp(5) split t_is quiet seg(1) by (simp add: map_filter_Nil_iff)
  have "messages_in lead = []" using quiet by (simp add: map_filter_Nil_iff)
  then show "pr_turnPrefixMessages p = messages_in (q # inside)" using cp(4) c none seg(2) by simp
qed

text \<open>C12. Let a path hold a compaction and, since it, a first turn, that a user message or another entry that
  starts a turn opens at its first message, and let the preparation of the next compaction cut inside that turn:
  what it summarizes ends before the next entry that starts a turn. Then what it prepares is the prefix of the turn only, and
  nothing of the history before it; and though the preparation has the summary of the previous compaction, \<open>compact\<close> asks the same of the
  summarizing model and gives the same result as with any other previous summary or with none: the new summary begins
  with \<open>No prior history.\<close>.\<close>

theorem split_turn_forgets_history:
  assumes "prepareCompaction sha localeCompare usage_of ((older @ [c]) @ newer) settings = Prepared_compaction p"
    and "compaction_of c = Some k" "\<forall>e \<in> set newer. compaction_of e = None"
    and "newer = lead @ (q # inside) @ kept" "kept \<noteq> []" "distinct (map se_id newer)"
    and "se_id (hd kept) = pr_firstKeptEntryId p"
    and "\<forall>e \<in> set lead. getMessageFromEntry e = None" "starts_turn q"
    and "\<forall>e \<in> set (inside @ [hd kept]). \<not> starts_turn e"
  shows "pr_previousSummary p = Some (co_summary k)
    \<and> pr_messagesToSummarize p = [] \<and> pr_turnPrefixMessages p = messages_in (q # inside)
    \<and> (\<forall>s. compact complete reasoning p custom = compact complete reasoning (p\<lparr>pr_previousSummary := s\<rparr>) custom)
    \<and> (\<forall>res. compact complete reasoning p custom = Inr res \<longrightarrow>
        (\<exists>rest. cr_summary res = ''No prior history.'' @ rest))"
proof -
  have since: "since_compaction (older @ [c]) newer" using assms(2,3) by (simp add: since_compaction_def)
  note prefix = only_a_prefix [OF assms(1) since assms(4-10)]
  obtain m where "getMessageFromEntry q = Some m" using turn_started [OF assms(9)] by blast
  then have ne: "pr_turnPrefixMessages p \<noteq> []" using prefix(3) by (simp add: map_filter_def)
  have previous: "pr_previousSummary p = Some (co_summary k)"
    by (rule prepared_parts [OF assms(1) since]) (simp add: assms(2))
  have "compaction_summary complete reasoning p custom = compaction_summary complete reasoning (p\<lparr>pr_previousSummary := s\<rparr>) custom" for s
    using prefix(1,2) ne by (simp add: compaction_summary_def Let_def)
  then have same: "compact complete reasoning p custom = compact complete reasoning (p\<lparr>pr_previousSummary := s\<rparr>) custom" for s
    by (simp add: compact_def createDeterministicCompactionDetails_def checkpoint_value_def split: sum.splits prod.splits)
  have "\<exists>rest. t = ''No prior history.'' @ rest" if "compaction_summary complete reasoning p custom = Inr t" for t
    using that prefix(1,2) ne by (auto simp: compaction_summary_def Let_def split: sum.splits)
  then have "\<exists>rest. cr_summary res = ''No prior history.'' @ rest" if "compact complete reasoning p custom = Inr res" for res
    using that by (fastforce simp: compact_def Let_def split: sum.splits if_splits prod.splits)
  then show ?thesis using prefix(2,3) previous same by blast
qed

section \<open>Examples\<close>

definition write_answer :: assistant_message where
  "write_answer = demo_answer\<lparr>am_content := [ToolCallBlock \<lparr>cb_id = ''c1'', cb_name = ''write'', cb_arguments = JObj [(''path'', JStr ''a.ts'')]\<rparr>],
     am_stopReason := Stop_toolUse\<rparr>"

definition written_result :: tool_result_message where
  "written_result = \<lparr>tm_toolCallId = ''c1'', tm_toolName = ''write'', tm_content = Some [TextBlock ''ok''], tm_details = None,
     tm_isError = False, tm_excludeFromContext = False\<rparr>"

definition written_path :: "session_entry list" where
  "written_path = [plain_entry ''w1'' None (MessageEntry (UserMessage (PlainText ''write''))),
     plain_entry ''w2'' (Some ''w1'') (MessageEntry (AssistantMessage write_answer)),
     plain_entry ''w3'' (Some ''w2'') (MessageEntry (ToolResult written_result)),
     plain_entry ''w4'' (Some ''w3'') (MessageEntry (UserMessage (PlainText ''thanks'')))]"

definition answer_all :: summarizer where
  "answer_all r = Inr (demo_answer\<lparr>am_content := [TextBlock ''sum'']\<rparr>)"
definition the_prepared :: "prepared \<Rightarrow> compaction_preparation" where
  "the_prepared r = (case r of Prepared_compaction p \<Rightarrow> p | _ \<Rightarrow> demo_prepared)"

definition written_prepared :: compaction_preparation where
  "written_prepared = the_prepared (prepareCompaction any_sha any_order no_usage ([] @ written_path) keep_one)"

definition written_compaction :: compaction_result where
  "written_compaction = (case compact answer_all False written_prepared None of Inr r \<Rightarrow> r
     | Inl e \<Rightarrow> \<lparr>cr_summary = [], cr_firstKeptEntryId = [], cr_tokensBefore = 0, cr_details = JNull\<rparr>)"

definition written_entry :: session_entry where
  "written_entry = plain_entry ''w5'' (Some ''w4'') (Compaction \<lparr>co_summary = cr_summary written_compaction,
     co_firstKeptEntryId = cr_firstKeptEntryId written_compaction, co_firstKeptEntryIndex = None,
     co_tokensBefore = cr_tokensBefore written_compaction, co_details = Some (cr_details written_compaction), co_fromHook = None\<rparr>)"

definition written_newer :: "session_entry list" where
  "written_newer = [plain_entry ''w6'' (Some ''w5'') (MessageEntry (AssistantMessage demo_answer)),
     plain_entry ''w7'' (Some ''w6'') (MessageEntry (UserMessage (PlainText ''bye'')))]"

definition written_next :: compaction_preparation where
  "written_next = the_prepared (prepareCompaction any_sha any_order no_usage ((written_path @ [written_entry]) @ written_newer) keep_one)"

lemma written_prepare: "prepareCompaction any_sha any_order no_usage ([] @ written_path) keep_one = Prepared_compaction written_prepared"
  by code_simp

lemma written_compact: "compact answer_all False written_prepared None = Inr written_compaction"
  by code_simp

lemma written_prepare_next:
  "prepareCompaction any_sha any_order no_usage ((written_path @ [written_entry]) @ written_newer) keep_one = Prepared_compaction written_next"
  by code_simp

theorem compaction_accumulates_witness:
  "pr_previousSummary written_next = Some (cr_summary written_compaction)
    \<and> set (snd (computeFileLists (pr_fileOps written_prepared))) \<subseteq> set (snd (computeFileLists (pr_fileOps written_next)))
    \<and> snd (computeFileLists (pr_fileOps written_prepared)) = [''a.ts''] \<and> pr_toolEvidence written_next \<noteq> []"
proof -
  have since: "since_compaction [] written_path"
    by (simp add: since_compaction_def written_path_def plain_entry_def compaction_of_def)
  have entry: "compaction_of written_entry = Some \<lparr>co_summary = cr_summary written_compaction,
     co_firstKeptEntryId = cr_firstKeptEntryId written_compaction, co_firstKeptEntryIndex = None,
     co_tokensBefore = cr_tokensBefore written_compaction, co_details = Some (cr_details written_compaction), co_fromHook = None\<rparr>"
    by (simp add: written_entry_def plain_entry_def compaction_of_def)
  have newer: "\<forall>e \<in> set written_newer. compaction_of e = None"
    by (simp add: written_newer_def plain_entry_def compaction_of_def)
  have files: "snd (computeFileLists (pr_fileOps written_prepared)) = [''a.ts'']" by code_simp
  have evidence: "pr_toolEvidence written_prepared \<noteq> []" by code_simp
  show ?thesis
    using compaction_accumulates [OF written_prepare since written_compact entry _ newer written_prepare_next] files evidence
    by (cases "pr_toolEvidence written_prepared") auto
qed

theorem split_turn_forgets_history_witness:
  "prepareCompaction any_sha any_order no_usage (([hd demo_path, last demo_path] @ [demo_compaction]) @ demo_newer) keep_one
      = Prepared_compaction second_prepared
    \<and> pr_previousSummary second_prepared = Some ''summary''
    \<and> compact answer_all False second_prepared None = compact answer_all False (second_prepared\<lparr>pr_previousSummary := None\<rparr>) None"
proof -
  have prep: "prepareCompaction any_sha any_order no_usage (([hd demo_path, last demo_path] @ [demo_compaction]) @ demo_newer) keep_one
      = Prepared_compaction second_prepared" using talked_prepare by simp
  have k: "compaction_of demo_compaction = Some \<lparr>co_summary = ''summary'', co_firstKeptEntryId = ''u2'',
     co_firstKeptEntryIndex = None, co_tokensBefore = 2, co_details = None, co_fromHook = None\<rparr>"
    by (simp add: demo_compaction_def plain_entry_def compaction_of_def)
  have newer: "\<forall>e \<in> set demo_newer. compaction_of e = None" "demo_newer = [] @ (demo_newer ! 0 # []) @ [demo_newer ! 1]"
    "distinct (map se_id demo_newer)" "se_id (hd [demo_newer ! 1]) = pr_firstKeptEntryId second_prepared"
    "starts_turn (demo_newer ! 0)" "\<forall>e \<in> set ([] @ [hd [demo_newer ! 1]]). \<not> starts_turn e"
    by (simp_all add: demo_newer_def plain_entry_def compaction_of_def second_prepared_def starts_turn_def)
  show ?thesis
    using split_turn_forgets_history [OF prep k newer(1,2) _ newer(3,4) _ newer(5,6), of answer_all False None] prep by simp
qed

theorem cut_within_budget_witness:
  "\<exists>c. c < length demo_path \<and> is_cut_point (demo_path ! c) \<and> tokens_from demo_path (Suc c) < 1 \<and> 1 \<le> c"
proof -
  have cut: "findCutPoint demo_path 0 (length demo_path) 1 = Some \<lparr>cp_firstKept = 1, cp_turnStart = Some 0, cp_isSplitTurn = True\<rparr>"
    by code_simp
  have "is_cut_point (demo_path ! 0)" by code_simp
  then show ?thesis using cut_within_budget [OF cut] by auto
qed

text \<open>A result left over from before, a question, and the result of a call.\<close>

definition result_entry :: session_entry where
  "result_entry = plain_entry ''r'' None (MessageEntry (ToolResult written_result))"

definition question_entry :: session_entry where
  "question_entry = plain_entry ''q'' (Some ''r'') (MessageEntry (UserMessage (PlainText ''hi'')))"

theorem big_results_stop_compaction_witness:
  "findCutPoint ([result_entry, question_entry] @ [result_entry]) 0 3 1
      = Some \<lparr>cp_firstKept = 1, cp_turnStart = None, cp_isSplitTurn = False\<rparr>
    \<and> \<not> is_cut_point result_entry"
proof -
  have cut: "findCutPoint ([result_entry, question_entry] @ [result_entry]) 0 (length ([result_entry, question_entry] @ [result_entry])) 1
      = Some \<lparr>cp_firstKept = 1, cp_turnStart = None, cp_isSplitTurn = False\<rparr>" by code_simp
  have tokens: "1 \<le> tokens_from ([result_entry, question_entry] @ [result_entry]) (length [result_entry, question_entry])"
    by code_simp
  have "\<forall>j. 0 \<le> j \<and> j < (1::nat) \<longrightarrow> \<not> is_cut_point (([result_entry, question_entry] @ [result_entry]) ! j)"
    using big_results_stop_compaction [OF cut _ _ _ tokens] by (simp add: result_entry_def plain_entry_def)
  then show ?thesis using cut by (simp add: numeral_3_eq_3)
qed

theorem compaction_details_typed_witness:
  "\<exists>ms. createDeterministicCompactionDetails demo_prepared (JObj [(''note'', JStr ''x'')]) = JObj ms
    \<and> map_of ms ''note'' = Some (JStr ''x'')"
proof -
  obtain ms where ms: "createDeterministicCompactionDetails demo_prepared (JObj [(''note'', JStr ''x'')]) = JObj ms"
    "\<forall>k. k \<notin> {''readFiles'', ''modifiedFiles'', ''checkpoint''} \<longrightarrow>
       map_of ms k = map_of (spread_members (JObj [(''note'', JStr ''x'')])) k"
    using compaction_details_typed [of demo_prepared "JObj [(''note'', JStr ''x'')]"] by blast
  have "map_of ms ''note'' = map_of (spread_members (JObj [(''note'', JStr ''x'')])) ''note''"
    by (rule ms(2) [rule_format]) simp
  then show ?thesis using ms(1) by (simp add: spread_members_def)
qed

end
