(* ===== verification/Session_Command_Claims.thy ===== *)
theory Session_Command_Claims
  imports Session_Commands Branch_Claims Compaction_Budget
begin

text \<open>
  What the commands of a session guarantee: moving in the tree and compacting keep every entry, and the agent goes on
  with the context of the new leaf; a command that fails changes nothing, but a navigation that is cancelled blocks the
  session.
\<close>

section \<open>Moving in the tree\<close>

text \<open>The path to a leaf.\<close>

definition leaf_path :: "session_manager \<Rightarrow> string option \<Rightarrow> session_entry list option" where
  "leaf_path m leaf = (case leaf of None \<Rightarrow> Some [] | Some i \<Rightarrow> getBranch (Some i) m)"

lemma getBranch_fields [simp]:
  "getBranch (Some i) (m\<lparr>sm_leafId := l\<rparr>) = getBranch (Some i) m"
  "getBranch j (m\<lparr>sm_labelsById := ls\<rparr>) = getBranch j m"
  by (simp_all add: getBranch_def get_entry_def Let_def split: option.split)

lemma leaf_moved:
  assumes "session_ok m" "\<forall>i. leaf = Some i \<longrightarrow> get_entry m i \<noteq> None"
  obtains path where "leaf_path m leaf = Some path" "getBranch None (m\<lparr>sm_leafId := leaf\<rparr>) = Some path"
    "session_ok (m\<lparr>sm_leafId := leaf\<rparr>)"
proof -
  have ok: "session_ok (m\<lparr>sm_leafId := leaf\<rparr>)" by (rule leaf_ok [OF assms])
  have branch: "getBranch None (m\<lparr>sm_leafId := leaf\<rparr>) = leaf_path m leaf"
    using session_leaf_branch [OF ok] by (cases leaf) (simp_all add: leaf_path_def)
  have "leaf_path m leaf \<noteq> None"
  proof (cases leaf)
    case (Some i)
    then obtain e where "get_entry m i = Some e" using assms(2) by blast
    then have "e \<in> set (getEntries m)" "se_id e = i" using session_ok_lookup(1) [OF assms(1)] by simp_all
    then show ?thesis using session_branch_path [OF assms(1), of e] Some by (auto simp: leaf_path_def)
  qed (simp add: leaf_path_def)
  then show thesis using that ok branch by auto
qed

lemma move_leaf_facts:
  assumes "session_ok m" "good_draws dw m" "move_leaf leaf summary details fromExtension dw (m, d) = Inr ((m', d'), entry)"
  obtains path added where "leaf_path m leaf = Some path" "session_ok m'" "getEntries m' = getEntries m @ added"
    "getBranch None m' = Some (path @ added)"
    "if js_falsy summary then added = [] \<and> entry = None
     else added = [fresh_entry (BranchSummaryEntry (case leaf of None \<Rightarrow> ''root'' | Some i \<Rightarrow> i) (the summary) details (Some fromExtension))
        dw (m\<lparr>sm_leafId := leaf\<rparr>)] \<and> entry = Some (hd added)"
proof (cases "js_falsy summary")
  case True
  have valid: "\<forall>i. leaf = Some i \<longrightarrow> get_entry m i \<noteq> None"
    using assms(3) True by (auto simp: move_leaf_def branch_def split: if_splits sum.splits)
  have m': "m' = m\<lparr>sm_leafId := leaf\<rparr>" "entry = None"
    using assms(3) True by (auto simp: move_leaf_def branch_def resetLeaf_def split: option.splits if_splits sum.splits)
  obtain path where "leaf_path m leaf = Some path" "getBranch None m' = Some path" "session_ok m'"
    using leaf_moved [OF assms(1) valid] m'(1) by metis
  then show thesis using that [of path "[]"] True m' by simp
next
  case False
  let ?b = "BranchSummaryEntry (case leaf of None \<Rightarrow> ''root'' | Some i \<Rightarrow> i) (the summary) details (Some fromExtension)"
  let ?l = "m\<lparr>sm_leafId := leaf\<rparr>"
  have valid: "\<forall>i. leaf = Some i \<longrightarrow> get_entry m i \<noteq> None"
    using assms(3) False by (auto simp: move_leaf_def branchWithSummary_def split: if_splits sum.splits)
  have b: "branchWithSummary leaf (the summary) details (Some fromExtension) dw (m, d) = Inr (append_body ?b dw (?l, d))"
    using valid by (simp add: branchWithSummary_def split: option.split)
  obtain m1 d1 where ab: "append_body ?b dw (?l, d) = (m1, d1)" by (meson surj_pair)
  have m': "(m', d') = append_body ?b dw (?l, d)"
    and entry: "entry = (case sm_leafId m' of None \<Rightarrow> None | Some i \<Rightarrow> get_entry m' i)"
    using assms(3) False unfolding move_leaf_def b ab sum.case fst_conv by auto
  obtain path where path: "leaf_path m leaf = Some path" "getBranch None ?l = Some path" and ok: "session_ok ?l"
    by (rule leaf_moved [OF assms(1) valid])
  have dw: "good_draws dw ?l" using assms(2) by simp
  have m1: "m' = fst (append_body ?b dw (?l, d))" using m' by (metis fst_conv)
  have ok': "session_ok m'" unfolding m1 by (rule append_ok [OF ok dw]) simp
  have es: "getEntries m' = getEntries m @ [fresh_entry ?b dw ?l]"
    unfolding m1 by (simp add: getEntries_def)
  have leaf': "sm_leafId m' = Some (se_id (fresh_entry ?b dw ?l))" unfolding m1 by simp
  have "get_entry m' (se_id (fresh_entry ?b dw ?l)) = Some (fresh_entry ?b dw ?l)"
    by (rule session_ok_lookup(1) [OF ok', THEN iffD2]) (simp add: es)
  then have "entry = Some (fresh_entry ?b dw ?l)" by (simp add: entry leaf')
  moreover have "getBranch None m' = Some (path @ [fresh_entry ?b dw ?l])"
    unfolding m1 using append_branch [OF ok dw] path(2) by simp
  ultimately show thesis using that [OF path(1) ok' es] False by simp
qed

lemma label_facts:
  assumes "session_ok m" "good_draws dw m" "attach_label lab target dw (m, d) = Inr (m', d')" "getBranch None m = Some p"
  obtains added where "session_ok m'" "getEntries m' = getEntries m @ added" "getBranch None m' = Some (p @ added)" "length added \<le> 1"
proof (cases "js_falsy lab")
  case True
  then show thesis using that [of "[]"] assms by (simp add: attach_label_def)
next
  case False
  let ?e = "fresh_entry (LabelEntry target lab) dw m"
  have a: "appendLabelChange target lab dw (m, d) = Inr (m', d')" using assms(3) False by (simp add: attach_label_def)
  then have "getBranch None m' = getBranch None (fst (append_body (LabelEntry target lab) dw (m, d)))"
    by (auto simp: appendLabelChange_def split: if_splits prod.splits)
  then have "getBranch None m' = Some (p @ [?e])" using append_branch [OF assms(1,2)] assms(4) by simp
  then show thesis using that label_change_ok [OF assms(1,2) a] by simp
qed

text \<open>A navigation that returns has come through its last part.\<close>

lemma navigated:
  assumes "navigateTree model hook cd target opts s = (Navigated text entry, s')" "sm_leafId (fst (ms_session s)) \<noteq> Some target"
  obtains e summary details ext lab t where "get_entry (fst (ms_session s)) target = Some e" "ms_session t = ms_session s"
    "finish_navigation cd target e summary details ext lab t = (Navigated text entry, s')"
proof -
  obtain e es ancestor where e: "get_entry (fst (ms_session s)) target = Some e"
    "collectEntriesForBranchSummary (fst (ms_session s)) (sm_leafId (fst (ms_session s))) target = Some (es, ancestor)"
    using assms by (auto simp: navigateTree_def Let_def split: if_splits option.splits)
  have sum: thesis if "finish_navigation cd target e summary details ext lab t = (Navigated text entry, s')"
    "t = s\<lparr>ms_branchController := b\<rparr>" for summary details ext lab t b
    using \<open>\<And>e summary details ext lab t. get_entry (fst (ms_session s)) target = Some e \<Longrightarrow> ms_session t = ms_session s \<Longrightarrow>
      finish_navigation cd target e summary details ext lab t = (Navigated text entry, s') \<Longrightarrow> thesis\<close> [OF e(1) _ that(1)] that(2) by simp
  from assms(1) show thesis
    unfolding navigateTree_def Let_def e option.case prod.case
    using assms(2) sum
    by (auto split: if_splits option.splits wanted_summary.splits command_error.splits)
qed

text \<open>A new identifier for a label is not that of the summary entry.\<close>

definition label_draws_ok :: "command_draws \<Rightarrow> session_manager \<Rightarrow> bool" where
  "label_draws_ok cd m \<longleftrightarrow> (\<forall>i. dw_uuid (cd_label cd) i \<noteq> [])
     \<and> dw_uuid (cd_label cd) 100 \<notin> insert (se_id (fresh_entry (SessionInfo None) (cd_summary cd) m)) (ids (getEntries m))"

lemma fresh_id_leaf: "se_id (fresh_entry b dw (m\<lparr>sm_leafId := l\<rparr>)) = se_id (fresh_entry b' dw m)"
  by (simp add: fresh_entry_def)

lemma finish_facts:
  assumes "session_ok m" "ms_session s = (m, d)" "good_draws (cd_summary cd) m" "label_draws_ok cd m"
    and "finish_navigation cd target e summary details ext lab s = (Navigated text entry, s')"
  obtains path added where "leaf_path m (fst (navigation_target target e)) = Some path" "session_ok (fst (ms_session s'))"
    "getEntries (fst (ms_session s')) = getEntries m @ added" "getBranch None (fst (ms_session s')) = Some (path @ added)"
    "map_option sx_messages (managerContext (cd_now cd) (cd_fresh cd) (fst (ms_session s'))) = Some (ms_messages s')"
    "\<not> ms_branchController s'" "text = snd (navigation_target target e)"
    "length added \<le> (if js_falsy summary then 1 else 2)"
    "entry = (if js_falsy summary then None else Some (hd added))" "js_falsy summary \<or> added \<noteq> [] \<and> is_summary_entry (hd added)"
proof -
  obtain leaf tx where nt: "navigation_target target e = (leaf, tx)" by fastforce
  obtain m1 d1 en where mv: "move_leaf leaf summary details ext (cd_summary cd) (m, d) = Inr ((m1, d1), en)"
    using assms(2,5) by (auto simp: finish_navigation_def nt split: sum.splits prod.splits)
  obtain m2 d2 where lb: "attach_label lab (case en of None \<Rightarrow> target | Some x \<Rightarrow> se_id x) (cd_label cd) (m1, d1) = Inr (m2, d2)"
    using assms(2,5) by (auto simp: finish_navigation_def nt mv split: sum.splits prod.splits)
  have fin: "s' = s\<lparr>ms_session := (m2, d2), ms_messages := ms_messages s', ms_branchController := False\<rparr>"
    "entry = en" "text = tx"
    "map_option sx_messages (managerContext (cd_now cd) (cd_fresh cd) m2) = Some (ms_messages s')"
    using assms(2,5) by (auto simp: finish_navigation_def nt mv lb split: option.splits)
  obtain path a where p: "leaf_path m leaf = Some path" "session_ok m1" "getEntries m1 = getEntries m @ a"
    "getBranch None m1 = Some (path @ a)"
    and a: "if js_falsy summary then a = [] \<and> en = None
     else a = [fresh_entry (BranchSummaryEntry (case leaf of None \<Rightarrow> ''root'' | Some i \<Rightarrow> i) (the summary) details (Some ext))
        (cd_summary cd) (m\<lparr>sm_leafId := leaf\<rparr>)] \<and> en = Some (hd a)"
    by (rule move_leaf_facts [OF assms(1,3) mv])
  have "ids (getEntries m1) \<subseteq> insert (se_id (fresh_entry (SessionInfo None) (cd_summary cd) m)) (ids (getEntries m))"
    using a p(3) fresh_id_leaf [of _ "cd_summary cd" leaf m "SessionInfo None"] by (auto split: if_splits)
  then have "dw_uuid (cd_label cd) 100 \<notin> ids (getEntries m1)" using assms(4) by (auto simp: label_draws_ok_def)
  then have "good_draws (cd_label cd) m1"
    using assms(4) session_ok_lookup(2) [OF p(2)] by (simp add: good_draws_def label_draws_ok_def)
  then obtain b where b: "session_ok m2" "getEntries m2 = getEntries m1 @ b" "getBranch None m2 = Some ((path @ a) @ b)" "length b \<le> 1"
    using label_facts [OF p(2) _ lb p(4)] by metis
  have sess: "fst (ms_session s') = m2" "\<not> ms_branchController s'" using fin(1) by (metis command_state.select_convs(1) command_state.surjective command_state.update_convs(1,2,3) fst_conv, metis command_state.select_convs(3) command_state.surjective command_state.update_convs(1,2,3))
  show thesis
    by (rule that [of path "a @ b"]) (use p b a fin nt sess in \<open>auto simp: fresh_entry_def is_summary_entry_def split: if_splits\<close>)
qed

text \<open>C14. Moving to another entry of the session keeps every entry: it appends at most a summary of
  the abandoned branch and a label, behind the entry moved to, or behind its parent when it is a message of the user,
  whose text is returned; the summary that is reported is the one appended.  Afterwards the agent has exactly the
  messages of the new context, and no summary is running.\<close>

theorem navigation_exact:
  assumes "session_ok m" "ms_session s = (m, d)" "sm_leafId m \<noteq> Some target"
    and "navigateTree model hook cd target opts s = (Navigated text entry, s')"
    and "good_draws (cd_summary cd) m" "label_draws_ok cd m"
  shows "\<exists>e path added. get_entry m target = Some e \<and> leaf_path m (fst (navigation_target target e)) = Some path
    \<and> session_ok (fst (ms_session s')) \<and> getEntries (fst (ms_session s')) = getEntries m @ added
    \<and> getBranch None (fst (ms_session s')) = Some (path @ added)
    \<and> text = snd (navigation_target target e)
    \<and> (case entry of None \<Rightarrow> length added \<le> 1
       | Some x \<Rightarrow> length added \<le> 2 \<and> added \<noteq> [] \<and> x = hd added \<and> is_summary_entry x)
    \<and> map_option sx_messages (managerContext (cd_now cd) (cd_fresh cd) (fst (ms_session s'))) = Some (ms_messages s')
    \<and> \<not> ms_branchController s'"
proof -
  have "sm_leafId (fst (ms_session s)) \<noteq> Some target" using assms(2,3) by simp
  from navigated [OF assms(4) this] obtain e summary details ext lab t where e: "get_entry (fst (ms_session s)) target = Some e"
    "ms_session t = ms_session s" "finish_navigation cd target e summary details ext lab t = (Navigated text entry, s')" by metis
  have t: "ms_session t = (m, d)" "get_entry m target = Some e" using e(1,2) assms(2) by simp_all
  obtain path added where "leaf_path m (fst (navigation_target target e)) = Some path" "session_ok (fst (ms_session s'))"
    "getEntries (fst (ms_session s')) = getEntries m @ added" "getBranch None (fst (ms_session s')) = Some (path @ added)"
    "map_option sx_messages (managerContext (cd_now cd) (cd_fresh cd) (fst (ms_session s'))) = Some (ms_messages s')"
    "\<not> ms_branchController s'" "text = snd (navigation_target target e)"
    "length added \<le> (if js_falsy summary then 1 else 2)"
    "entry = (if js_falsy summary then None else Some (hd added))" "js_falsy summary \<or> added \<noteq> [] \<and> is_summary_entry (hd added)"
    by (rule finish_facts [OF assms(1) t(1) assms(5,6) e(3)])
  then show ?thesis using t(2) by (intro exI [of _ e] exI [of _ path] exI [of _ added]) (cases "js_falsy summary"; simp)
qed

text \<open>C22. A navigation that an extension cancels, that finds no API key or whose model
  throws leaves the session as it was, but the controller of the branch summary stays set: from then on the session
  counts as compacting, and a navigation to the current leaf does not end that.\<close>

theorem cancelled_navigation_blocks:
  assumes "navigateTree model hook cd target opts s = (out, s')"
    and "out = Navigation_cancelled False \<or> out = Navigation_throws NoApiKey \<or> out = Navigation_throws (SummaryThrows f)"
  shows "s' = s\<lparr>ms_branchController := True\<rparr> \<and> isCompacting s'
    \<and> (\<forall>opts' leaf. sm_leafId (fst (ms_session s')) = Some leaf \<longrightarrow>
        navigateTree model' hook' cd' leaf opts' s' = (Navigated None None, s'))"
proof -
  have not_finish: "finish_navigation cd target e summary details ext lab t \<noteq> (out, s')" for e summary details ext lab t
    using assms(2) by (auto simp: finish_navigation_def Let_def split: prod.splits sum.splits option.splits)
  have "s' = s\<lparr>ms_branchController := True\<rparr>"
    using assms not_finish unfolding navigateTree_def Let_def
    by (auto split: if_splits option.splits wanted_summary.splits command_error.splits)
  then show ?thesis by (simp add: isCompacting_def navigateTree_def Let_def)
qed

section \<open>Compacting\<close>

text \<open>The entry that a compaction stores, and how the stored result comes about.\<close>

definition stored_compaction :: "compaction_result \<Rightarrow> bool \<Rightarrow> entry_body" where
  "stored_compaction r fromExtension = Compaction
     \<lparr>co_summary = cr_summary r, co_firstKeptEntryId = cr_firstKeptEntryId r, co_firstKeptEntryIndex = None,
      co_tokensBefore = cr_tokensBefore r, co_details = Some (cr_details r), co_fromHook = Some fromExtension\<rparr>"

definition result_of ::
  "compaction_env \<Rightarrow> compact_hook_result \<Rightarrow> summarizer \<Rightarrow> string option \<Rightarrow> compaction_preparation \<Rightarrow> compaction_result \<Rightarrow> bool" where
  "result_of env hooked complete custom p r \<longleftrightarrow>
     (\<exists>r0. (case hooked of Hook_cancels \<Rightarrow> False | Hook_compacts x \<Rightarrow> r0 = x
              | Hook_passes \<Rightarrow> compact complete (ve_reasoning env) p custom = Inr r0)
        \<and> r = r0\<lparr>cr_details := createDeterministicCompactionDetails p (cr_details r0), cr_summary := ve_augment env (cr_summary r0)\<rparr>)"

lemma compacted_result:
  assumes "sessionCompact env hook model custom cd s = (Inr (r, entry), s')" and "getBranch None (fst (ms_session s)) = Some es"
  obtains complete p c where "model = Some (complete, True)"
    "prepareCompaction (ve_sha env) (ve_localeCompare env) (ve_usage env) es (ve_settings env) = Prepared_compaction p"
    "result_of env (hook p) complete custom p r"
    "managerContext (cd_now cd) (cd_fresh cd) (fst (ms_session s')) = Some c"
    "s' = s\<lparr>ms_session := append_body (stored_compaction r (hook p \<noteq> Hook_passes)) (cd_summary cd) (ms_session s),
       ms_messages := sx_messages c, ms_compactionController := False\<rparr>"
    "entry = List.find (\<lambda>e. map_option co_summary (compaction_of e) = Some (cr_summary r)) (getEntries (fst (ms_session s')))"
proof -
  obtain complete where model: "model = Some (complete, True)"
    using assms(1) by (auto simp: sessionCompact_def Let_def split: option.splits if_splits)
  obtain p where p: "prepareCompaction (ve_sha env) (ve_localeCompare env) (ve_usage env) es (ve_settings env) = Prepared_compaction p"
    using assms model by (auto simp: sessionCompact_def Let_def split: prepared.splits)
  obtain r1 ext where out: "compaction_outcome env hook complete custom p = Inr (r1, ext)"
    using assms model p by (auto simp: sessionCompact_def Let_def split: sum.splits)
  then obtain r0 where r0: "r1 = r0\<lparr>cr_details := createDeterministicCompactionDetails p (cr_details r0)\<rparr>"
    "case hook p of Hook_cancels \<Rightarrow> False | Hook_compacts x \<Rightarrow> r0 = x
       | Hook_passes \<Rightarrow> compact complete (ve_reasoning env) p custom = Inr r0" "ext = (hook p \<noteq> Hook_passes)"
    by (auto simp: compaction_outcome_def Let_def split: compact_hook_result.splits sum.splits if_splits)
  obtain c where fin: "managerContext (cd_now cd) (cd_fresh cd)
      (fst (append_body (stored_compaction (r1\<lparr>cr_summary := ve_augment env (cr_summary r1)\<rparr>) ext) (cd_summary cd) (ms_session s))) = Some c"
    "r = r1\<lparr>cr_summary := ve_augment env (cr_summary r1)\<rparr>"
    "s' = s\<lparr>ms_session := append_body (stored_compaction (r1\<lparr>cr_summary := ve_augment env (cr_summary r1)\<rparr>) ext) (cd_summary cd) (ms_session s),
       ms_messages := sx_messages c, ms_compactionController := False\<rparr>"
    "entry = List.find (\<lambda>e. map_option co_summary (compaction_of e) = Some (cr_summary r)) (getEntries (fst (ms_session s')))"
    using assms(1) unfolding sessionCompact_def Let_def model option.case prod.case assms(2) p prepared.case out sum.case
    by (auto simp: finalizeCompaction_def appendCompaction_def stored_compaction_def Let_def split: option.splits)
  have res: "result_of env (hook p) complete custom p r" using r0(1,2) fin(2) by (auto simp: result_of_def)
  show thesis
    by (rule that [OF model p res]) (use fin r0(3) in simp_all)
qed

text \<open>What an own compaction keeps from its preparation.\<close>

lemma own_result_fields:
  assumes "result_of env Hook_passes complete custom p r"
  shows "cr_firstKeptEntryId r = pr_firstKeptEntryId p" "cr_tokensBefore r = pr_tokensBefore p"
  using assms by (auto simp: result_of_def compact_def Let_def split: sum.splits prod.splits if_splits)

definition branch_memory :: "command_draws \<Rightarrow> session_entry list \<Rightarrow> memory_item list" where
  "branch_memory cd es = pt_memory (fold (settings_step (cd_now cd) (cd_fresh cd)) es default_settings)"

lemma command_messages:
  assumes "session_ok m" and "getBranch None m = Some es" and "good_draws (cd_summary cd) m"
    and "es = dropped @ kept" "kept \<noteq> []" "cr_firstKeptEntryId r = se_id (hd kept)"
    and "managerContext (cd_now cd) (cd_fresh cd) (fst (append_body (stored_compaction r ext) (cd_summary cd) (m, d))) = Some c"
  shows "sx_messages c = repair_messages (memory_messages (branch_memory cd es)
      @ CompactionSummary (cr_summary r) (cr_tokensBefore r) # concat (map entry_messages kept))"
proof -
  have "map_option sx_messages (Some c) = Some (repair_messages (memory_messages (branch_memory cd es)
      @ CompactionSummary (cr_summary r) (cr_tokensBefore r) # concat (map entry_messages kept)))"
    unfolding assms(7) [symmetric] branch_memory_def stored_compaction_def appendCompaction_def [symmetric]
    by (rule compacted_session [OF assms(1-6)])
  then show ?thesis by simp
qed

text \<open>C6. The compaction command on a session that was grown by the session's own operations, whatever the
  extension, the model and the key are: when it fails, nothing has changed; when it succeeds, there is a model with a key, the extension has
  not cancelled, and one entry with the result, from the extension or from the summarizing model, has been appended.  A
  result of its own keeps a last part of the entries since the last compaction, and the messages that the model was given
  are those of the other part.  The agent goes on with the memory items of the branch, the stored summary and the messages
  of the entries from the first kept one of the result on.\<close>

theorem session_compact_exact:
  assumes "session_moves (newSession i path dw0 m0, d0) (m, d)" "ms_session s = (m, d)"
    and "getBranch None m = Some (older @ newer)" "since_compaction older newer" "good_draws (cd_summary cd) m"
    and "sessionCompact env hook model custom cd s = (out, s')"
  shows "(\<forall>e. out = Inl e \<longrightarrow> s' = s\<lparr>ms_compactionController := False\<rparr>)
    \<and> (\<forall>r entry. out = Inr (r, entry) \<longrightarrow> (\<exists>complete p c.
        model = Some (complete, True)
        \<and> prepareCompaction (ve_sha env) (ve_localeCompare env) (ve_usage env) (older @ newer) (ve_settings env) = Prepared_compaction p
        \<and> result_of env (hook p) complete custom p r
        \<and> getEntries (fst (ms_session s')) = getEntries m @ [c] \<and> session_moves (m, d) (ms_session s')
        \<and> se_body c = stored_compaction r (hook p \<noteq> Hook_passes)
        \<and> (hook p = Hook_passes \<longrightarrow> (\<exists>dropped kept. newer = dropped @ kept \<and> kept \<noteq> []
             \<and> cr_firstKeptEntryId r = se_id (hd kept) \<and> cr_tokensBefore r = pr_tokensBefore p
             \<and> pr_messagesToSummarize p @ pr_turnPrefixMessages p = messages_in dropped))
        \<and> (\<forall>before kept. older @ newer = before @ kept \<and> kept \<noteq> [] \<and> cr_firstKeptEntryId r = se_id (hd kept) \<longrightarrow>
             ms_messages s' = repair_messages (memory_messages (branch_memory cd (older @ newer))
               @ CompactionSummary (cr_summary r) (cr_tokensBefore r) # concat (map entry_messages kept)))))"
proof (intro conjI allI impI)
  fix e
  assume "out = Inl e"
  then show "s' = s\<lparr>ms_compactionController := False\<rparr>"
    using assms(6) unfolding sessionCompact_def Let_def by (auto split: option.splits prepared.splits sum.splits prod.splits if_splits)
next
  fix r entry
  assume "out = Inr (r, entry)"
  then have run: "sessionCompact env hook model custom cd s = (Inr (r, entry), s')" using assms(6) by simp
  have ok: "session_ok m" using moves_ok [OF assms(1) newSession_ok] by simp
  have branch: "getBranch None (fst (ms_session s)) = Some (older @ newer)" using assms(2,3) by simp
  obtain complete p c where res: "model = Some (complete, True)"
    "prepareCompaction (ve_sha env) (ve_localeCompare env) (ve_usage env) (older @ newer) (ve_settings env) = Prepared_compaction p"
    "result_of env (hook p) complete custom p r"
    and ctx: "managerContext (cd_now cd) (cd_fresh cd) (fst (ms_session s')) = Some c"
    and s': "s' = s\<lparr>ms_session := append_body (stored_compaction r (hook p \<noteq> Hook_passes)) (cd_summary cd) (ms_session s),
       ms_messages := sx_messages c, ms_compactionController := False\<rparr>"
    by (rule compacted_result [OF run branch])
  let ?b = "stored_compaction r (hook p \<noteq> Hook_passes)"
  have stored: "ms_session s' = append_body ?b (cd_summary cd) (m, d)" by (simp add: s' assms(2))
  have moves: "session_moves (m, d) (ms_session s')"
    unfolding stored by (rule session_moves.step [OF session_moves.refl session_move.append [OF assms(5)]]) (simp add: stored_compaction_def)
  have grown: "getEntries (fst (ms_session s')) = getEntries m @ [fresh_entry ?b (cd_summary cd) m]"
    unfolding stored by (simp add: getEntries_def)
  have body: "se_body (fresh_entry ?b (cd_summary cd) m) = ?b" by (simp add: fresh_entry_def)
  have own: "\<exists>dropped kept. newer = dropped @ kept \<and> kept \<noteq> [] \<and> cr_firstKeptEntryId r = se_id (hd kept)
      \<and> cr_tokensBefore r = pr_tokensBefore p \<and> pr_messagesToSummarize p @ pr_turnPrefixMessages p = messages_in dropped"
    if "hook p = Hook_passes"
    using prepared_partition [OF res(2) assms(4)] own_result_fields [of env complete custom p r] res(3) that by metis
  have messages: "ms_messages s' = repair_messages (memory_messages (branch_memory cd (older @ newer))
      @ CompactionSummary (cr_summary r) (cr_tokensBefore r) # concat (map entry_messages kept))"
    if "older @ newer = before @ kept" "kept \<noteq> []" "cr_firstKeptEntryId r = se_id (hd kept)" for before kept
    using command_messages [OF ok assms(3,5) that ctx [unfolded stored]] by (simp add: s')
  show "\<exists>complete p c. model = Some (complete, True)
        \<and> prepareCompaction (ve_sha env) (ve_localeCompare env) (ve_usage env) (older @ newer) (ve_settings env) = Prepared_compaction p
        \<and> result_of env (hook p) complete custom p r
        \<and> getEntries (fst (ms_session s')) = getEntries m @ [c] \<and> session_moves (m, d) (ms_session s')
        \<and> se_body c = stored_compaction r (hook p \<noteq> Hook_passes)
        \<and> (hook p = Hook_passes \<longrightarrow> (\<exists>dropped kept. newer = dropped @ kept \<and> kept \<noteq> []
             \<and> cr_firstKeptEntryId r = se_id (hd kept) \<and> cr_tokensBefore r = pr_tokensBefore p
             \<and> pr_messagesToSummarize p @ pr_turnPrefixMessages p = messages_in dropped))
        \<and> (\<forall>before kept. older @ newer = before @ kept \<and> kept \<noteq> [] \<and> cr_firstKeptEntryId r = se_id (hd kept) \<longrightarrow>
             ms_messages s' = repair_messages (memory_messages (branch_memory cd (older @ newer))
               @ CompactionSummary (cr_summary r) (cr_tokensBefore r) # concat (map entry_messages kept)))"
    using res grown moves body own messages by blast
qed

text \<open>The entry that is reported to the extensions is the first with the same summary: not the one just stored, when an
  earlier compaction has that summary.\<close>

lemma reported_entry_first:
  assumes "sessionCompact env hook model custom cd s = (Inr (r, entry), s')"
    and "getBranch None (fst (ms_session s)) = Some es"
    and "x \<in> set (getEntries (fst (ms_session s)))" "map_option co_summary (compaction_of x) = Some (cr_summary r)"
  shows "\<exists>y \<in> set (getEntries (fst (ms_session s))). entry = Some y"
proof -
  obtain c where s': "entry = List.find (\<lambda>e. map_option co_summary (compaction_of e) = Some (cr_summary r)) (getEntries (fst (ms_session s')))"
    "getEntries (fst (ms_session s')) = getEntries (fst (ms_session s)) @ [c]"
    by (rule compacted_result [OF assms(1,2)]) (simp add: getEntries_def)
  have found: "\<exists>y \<in> set xs. List.find P (xs @ [c]) = Some y" if "x \<in> set xs" "P x" for P and xs :: "session_entry list"
    using that by (induction xs) auto
  show ?thesis unfolding s' by (rule found [OF assms(3)]) (rule assms(4))
qed

section \<open>Examples\<close>

definition demo_state :: command_state where
  "demo_state = \<lparr>ms_session = demo_session, ms_messages = [], ms_branchController = False, ms_compactionController = False,
     ms_autoController = False\<rparr>"

definition demo_clock :: "string \<Rightarrow> string \<Rightarrow> command_draws" where
  "demo_clock i j = \<lparr>cd_summary = demo_draws i, cd_label = demo_draws j, cd_now = ''now'', cd_fresh = (\<lambda>n. ''t'')\<rparr>"

definition demo_model :: navigation_model where
  "demo_model = \<lparr>nm_complete = answer_all, nm_contextWindow = 0, nm_hasKey = True, nm_reserveTokens = 16384\<rparr>"

definition summarize_options :: navigation_options where
  "summarize_options = \<lparr>nv_summarize = True, nv_customInstructions = None, nv_replaceInstructions = None, nv_label = Some ''left''\<rparr>"

definition demo_navigation :: "navigation \<times> command_state" where
  "demo_navigation = navigateTree (Some demo_model) None (demo_clock ''u3'' ''u4'') ''u1'' summarize_options demo_state"

definition navigated_entry :: "navigation \<Rightarrow> session_entry option" where
  "navigated_entry n = (case n of Navigated t e \<Rightarrow> e | _ \<Rightarrow> None)"

theorem navigation_exact_witness:
  "navigated_entry (fst demo_navigation) \<noteq> None
    \<and> (\<exists>added. getEntries (fst (ms_session (snd demo_navigation))) = getEntries (fst demo_session) @ added
        \<and> getBranch None (fst (ms_session (snd demo_navigation))) = Some added \<and> map se_id added = [''u3'', ''u4''])"
proof -
  have run: "navigateTree (Some demo_model) None (demo_clock ''u3'' ''u4'') ''u1'' summarize_options demo_state
      = (Navigated (Some ''hi'') (navigated_entry (fst demo_navigation)), snd demo_navigation)"
  proof -
    have "fst demo_navigation = Navigated (Some ''hi'') (navigated_entry (fst demo_navigation))" by code_simp
    then show ?thesis unfolding demo_navigation_def [symmetric] by (metis prod.collapse)
  qed
  have session: "ms_session demo_state = (fst demo_session, snd demo_session)" by (simp add: demo_state_def)
  have leaf: "sm_leafId (fst demo_session) \<noteq> Some ''u1''" by code_simp
  have draws: "good_draws (cd_summary (demo_clock ''u3'' ''u4'')) (fst demo_session)"
    by (simp add: good_draws_def demo_clock_def demo_draws_def; code_simp)
  have entries: "ids (getEntries (fst demo_session)) = {''u1'', ''u2''}" unfolding ids_def set_map [symmetric] by code_simp
  have "se_id (fresh_entry (SessionInfo None) (demo_draws ''u3'') (fst demo_session)) = ''u3''" by code_simp
  then have labels: "label_draws_ok (demo_clock ''u3'' ''u4'') (fst demo_session)"
    by (simp add: label_draws_ok_def demo_clock_def entries) (simp add: demo_draws_def)
  have found: "navigated_entry (fst demo_navigation) \<noteq> None" by code_simp
  have target: "map_option (\<lambda>e. fst (navigation_target ''u1'' e)) (get_entry (fst demo_session) ''u1'') = Some None" by code_simp
  have ids: "map se_id (drop 2 (getEntries (fst (ms_session (snd demo_navigation))))) = [''u3'', ''u4'']"
    "length (getEntries (fst demo_session)) = 2" by code_simp+
  obtain e path added where *: "get_entry (fst demo_session) ''u1'' = Some e"
    "leaf_path (fst demo_session) (fst (navigation_target ''u1'' e)) = Some path"
    "getEntries (fst (ms_session (snd demo_navigation))) = getEntries (fst demo_session) @ added"
    "getBranch None (fst (ms_session (snd demo_navigation))) = Some (path @ added)"
    using navigation_exact [OF demo_ok session leaf run draws labels] by blast
  then have "path = []" using target by (simp add: leaf_path_def)
  moreover have "map se_id added = [''u3'', ''u4'']" using ids unfolding *(3) by simp
  ultimately show ?thesis using * found by auto
qed

definition cancelling :: tree_hook where
  "cancelling es ancestor = Some \<lparr>th_cancel = True, th_summary = None, th_customInstructions = None, th_replaceInstructions = None,
     th_label = None\<rparr>"

theorem cancelled_navigation_blocks_witness:
  "isCompacting (demo_state\<lparr>ms_branchController := True\<rparr>)
    \<and> navigateTree None (Some cancelling) (demo_clock ''u3'' ''u4'') ''u1'' (summarize_options\<lparr>nv_summarize := False\<rparr>) demo_state
      = (Navigation_cancelled False, demo_state\<lparr>ms_branchController := True\<rparr>)"
proof -
  let ?run = "navigateTree None (Some cancelling) (demo_clock ''u3'' ''u4'') ''u1'' (summarize_options\<lparr>nv_summarize := False\<rparr>) demo_state"
  have "fst ?run = Navigation_cancelled False" by code_simp
  then have run: "?run = (Navigation_cancelled False, snd ?run)" by (metis prod.collapse)
  then have "snd ?run = demo_state\<lparr>ms_branchController := True\<rparr> \<and> isCompacting (snd ?run)"
    using cancelled_navigation_blocks [OF run, where f = SummaryTypeError] by blast
  then show ?thesis using run by metis
qed

definition demo_env :: compaction_env where
  "demo_env = \<lparr>ve_sha = any_sha, ve_localeCompare = any_order, ve_usage = no_usage, ve_settings = keep_one,
     ve_augment = augmentCompactionSummary [(''k'', ''v'')] [], ve_reasoning = False, ve_aborted = False\<rparr>"

definition demo_compact :: "(command_error + (compaction_result \<times> session_entry option)) \<times> command_state" where
  "demo_compact = sessionCompact demo_env (\<lambda>p. Hook_passes) (Some (answer_all, True)) None (demo_clock ''u3'' ''u4'') demo_state"

theorem session_compact_exact_witness:
  "\<exists>r entry kept dropped. fst demo_compact = Inr (r, entry) \<and> demo_path = dropped @ kept \<and> kept \<noteq> []
    \<and> ms_messages (snd demo_compact) = repair_messages (memory_messages (branch_memory (demo_clock ''u3'' ''u4'') demo_path)
        @ CompactionSummary (cr_summary r) (cr_tokensBefore r) # concat (map entry_messages kept))"
proof -
  have moves: "session_moves (newSession None None (demo_draws ''s1'') blank_manager, Map.empty) (fst demo_session, snd demo_session)"
    using demo_moves by simp
  have session: "ms_session demo_state = (fst demo_session, snd demo_session)" by (simp add: demo_state_def)
  have since: "since_compaction [] demo_path"
    by (simp add: since_compaction_def demo_path_def compaction_of_def)
  have draws: "good_draws (cd_summary (demo_clock ''u3'' ''u4'')) (fst demo_session)"
    by (simp add: good_draws_def demo_clock_def demo_draws_def; code_simp)
  have run: "sessionCompact demo_env (\<lambda>p. Hook_passes) (Some (answer_all, True)) None (demo_clock ''u3'' ''u4'') demo_state
      = (fst demo_compact, snd demo_compact)" by (simp add: demo_compact_def)
  have "\<not> isl (fst demo_compact)" by code_simp
  then obtain r entry where out: "fst demo_compact = Inr (r, entry)" by (cases "fst demo_compact") auto
  have branch: "getBranch None (fst demo_session) = Some ([] @ demo_path)" using demo_branch by simp
  note exact = session_compact_exact [OF moves session branch since draws run, THEN conjunct2, rule_format, OF out]
  then obtain dropped kept where *: "demo_path = dropped @ kept" "kept \<noteq> []" "cr_firstKeptEntryId r = se_id (hd kept)"
    by blast
  then have "[] @ demo_path = dropped @ kept \<and> kept \<noteq> [] \<and> cr_firstKeptEntryId r = se_id (hd kept)" by simp
  with exact have "ms_messages (snd demo_compact) = repair_messages (memory_messages (branch_memory (demo_clock ''u3'' ''u4'') ([] @ demo_path))
        @ CompactionSummary (cr_summary r) (cr_tokensBefore r) # concat (map entry_messages kept))" by blast
  then show ?thesis using out * by (metis append_Nil)
qed

end
