(* ===== verification/Session_Recovery.thy ===== *)
theory Session_Recovery
  imports Session_Commands
begin

text \<open>
  How \<open>core/agent-session.ts\<close> goes on when an answer fails: \<open>_isRetryableError\<close>, \<open>_handleRetryableError\<close>,
  \<open>_handleFallback\<close>, \<open>_checkCompaction\<close>, \<open>_runAutoCompaction\<close> and the part of \<open>_processAgentEvent\<close> that calls them.
  The state holds the model in use, how many fallback models are used up (\<open>_fallbackIndex + 1\<close>), the attempts, and
  whether \<open>prompt\<close> waits for the promise of a retry.  Usage and time stamps of the agent's messages are given by their
  position; clocks, draws and what the summarizing model answers are arguments.  A call that never returns, the walk
  over a cyclic session, is treated as failed.
\<close>

text \<open>
  The patterns by which error texts of providers are told apart: \<open>ai/src/utils/overflow.ts\<close> and \<open>_isRetryableError\<close> of
  \<open>core/agent-session.ts\<close>.  A regular expression is a list of atoms that is matched with backtracking; every alternative of
  the source is one list.  The flag \<open>i\<close> is kept by writing the patterns in small letters and lowering the text.
\<close>

section \<open>Regular expressions\<close>

datatype atom = Lit char | OneOf "char list" | Maybe char | Any_maybe | Any_star | Digits | White_star

text \<open>A capital letter has bit 5 unset, the small letter has it set.\<close>

definition lower_char :: "char \<Rightarrow> char" where
  "lower_char c =
     (let n = (of_char c :: nat)
      in if 65 \<le> n \<and> n \<le> 90 then (case c of Char b0 b1 b2 b3 b4 b5 b6 b7 \<Rightarrow> Char b0 b1 b2 b3 b4 True b6 b7) else c)"

definition is_digit :: "char \<Rightarrow> bool" where
  "is_digit c \<longleftrightarrow> (let n = (of_char c :: nat) in 48 \<le> n \<and> n \<le> 57)"

text \<open>What a point matches: no line terminator.\<close>

definition is_point :: "char \<Rightarrow> bool" where
  "is_point c \<longleftrightarrow> (of_char c :: nat) \<notin> {10, 13}"

function match_here :: "atom list \<Rightarrow> string \<Rightarrow> bool" where
  "match_here [] s = True"
| "match_here (Lit a # ps) s = (case s of [] \<Rightarrow> False | c # cs \<Rightarrow> c = a \<and> match_here ps cs)"
| "match_here (OneOf as # ps) s = (case s of [] \<Rightarrow> False | c # cs \<Rightarrow> c \<in> set as \<and> match_here ps cs)"
| "match_here (Maybe a # ps) s =
     (match_here ps s \<or> (case s of [] \<Rightarrow> False | c # cs \<Rightarrow> c = a \<and> match_here ps cs))"
| "match_here (Any_maybe # ps) s = (match_here ps s \<or> (case s of [] \<Rightarrow> False | c # cs \<Rightarrow> is_point c \<and> match_here ps cs))"
| "match_here (Any_star # ps) s =
     (match_here ps s \<or> (case s of [] \<Rightarrow> False | c # cs \<Rightarrow> is_point c \<and> match_here (Any_star # ps) cs))"
| "match_here (Digits # ps) s =
     (case s of [] \<Rightarrow> False | c # cs \<Rightarrow> is_digit c \<and> (match_here ps cs \<or> match_here (Digits # ps) cs))"
| "match_here (White_star # ps) s =
     (match_here ps s \<or> (case s of [] \<Rightarrow> False | c # cs \<Rightarrow> js_ws c \<and> match_here (White_star # ps) cs))"
  by pat_completeness auto
termination
  by (relation "measure (\<lambda>(ps, s). length ps + length s)") auto

text \<open>\<open>RegExp.test\<close>: a match somewhere in the text.\<close>

fun test_pattern :: "atom list \<Rightarrow> string \<Rightarrow> bool" where
  "test_pattern ps [] = match_here ps []"
| "test_pattern ps (c # cs) = (match_here ps (c # cs) \<or> test_pattern ps cs)"

abbreviation text_atoms :: "string \<Rightarrow> atom list" where
  "text_atoms s \<equiv> map Lit s"

text \<open>The flag \<open>i\<close>.\<close>

definition lower :: "string \<Rightarrow> string" where
  "lower s = map lower_char s"

section \<open>Context overflow\<close>

definition OVERFLOW_PATTERNS :: "atom list list" where
  "OVERFLOW_PATTERNS =
     [text_atoms ''prompt is too long'',
      text_atoms ''input is too long for requested model'',
      text_atoms ''exceeds the context window'',
      text_atoms ''input token count'' @ Any_star # text_atoms ''exceeds the maximum'',
      text_atoms ''maximum prompt length is '' @ [Digits],
      text_atoms ''reduce the length of the messages'',
      text_atoms ''maximum context length is '' @ Digits # text_atoms '' tokens'',
      text_atoms ''exceeds the limit of '' @ [Digits],
      text_atoms ''exceeds the available context size'',
      text_atoms ''greater than the context length'',
      text_atoms ''context window exceeds limit'',
      text_atoms ''exceeded model token limit'',
      text_atoms ''too large for model with '' @ Digits # text_atoms '' maximum context length'',
      text_atoms ''model_context_window_exceeded'',
      text_atoms ''context'' @ OneOf ''_ '' # text_atoms ''length'' @ OneOf ''_ '' # text_atoms ''exceeded'',
      text_atoms ''too many tokens'',
      text_atoms ''token limit exceeded'']"

text \<open>\<open>/^4(00|13)\s*(status code)?\s*\(no body\)/i\<close>.\<close>

definition no_body_patterns :: "atom list list" where
  "no_body_patterns =
     [text_atoms n @ White_star # t @ White_star # text_atoms ''(no body)''. n \<leftarrow> [''400'', ''413''], t \<leftarrow> [text_atoms ''status code'', []]]"

definition overflow_text :: "string \<Rightarrow> bool" where
  "overflow_text s \<longleftrightarrow>
     list_ex (\<lambda>p. test_pattern p (lower s)) OVERFLOW_PATTERNS \<or> list_ex (\<lambda>p. match_here p (lower s)) no_body_patterns"

section \<open>Errors that are tried again\<close>

definition deterministic_patterns :: "atom list list" where
  "deterministic_patterns =
     map text_atoms [''invalid_tool_transcript'', ''must be followed by tool messages'', ''invalid_request_error'', ''invalid parameter'']"

definition retryable_patterns :: "atom list list" where
  "retryable_patterns =
     [text_atoms ''overloaded'',
      text_atoms ''provider'' @ Any_maybe # text_atoms ''returned'' @ Any_maybe # text_atoms ''error'',
      text_atoms ''rate'' @ Any_maybe # text_atoms ''limit'',
      text_atoms ''too many requests'', text_atoms ''429'', text_atoms ''500'', text_atoms ''502'', text_atoms ''503'', text_atoms ''504'',
      text_atoms ''service'' @ Any_maybe # text_atoms ''unavailable'',
      text_atoms ''server'' @ Any_maybe # text_atoms ''error'',
      text_atoms ''internal'' @ Any_maybe # text_atoms ''error'',
      text_atoms ''network'' @ Any_maybe # text_atoms ''error'',
      text_atoms ''connection'' @ Any_maybe # text_atoms ''error'',
      text_atoms ''connection'' @ Any_maybe # text_atoms ''refused'',
      text_atoms ''other side closed'', text_atoms ''fetch failed'',
      text_atoms ''upstream'' @ Any_maybe # text_atoms ''connect'',
      text_atoms ''reset before headers'', text_atoms ''socket hang up'',
      text_atoms ''time'' @ Maybe (CHR ''d'') # text_atoms '' out'',
      text_atoms ''timeout'', text_atoms ''terminated'', text_atoms ''retry delay'']"

definition deterministic_text :: "string \<Rightarrow> bool" where
  "deterministic_text s \<longleftrightarrow> list_ex (\<lambda>p. test_pattern p (lower s)) deterministic_patterns"

definition retryable_text :: "string \<Rightarrow> bool" where
  "retryable_text s \<longleftrightarrow> \<not> deterministic_text s \<and> list_ex (\<lambda>p. test_pattern p (lower s)) retryable_patterns"

section \<open>Literal patterns\<close>

lemma match_literal: "match_here (text_atoms p) s \<longleftrightarrow> (\<exists>w. s = p @ w)"
proof (induction p arbitrary: s)
  case (Cons a p)
  then show ?case by (cases s) auto
qed simp

lemma test_somewhere: "test_pattern ps s \<longleftrightarrow> (\<exists>u r. s = u @ r \<and> match_here ps r)"
proof (induction s)
  case (Cons c s)
  have "(\<exists>u r. c # s = u @ r \<and> match_here ps r) \<longleftrightarrow> match_here ps (c # s) \<or> (\<exists>u r. s = u @ r \<and> match_here ps r)"
    by (auto simp: Cons_eq_append_conv)
  then show ?case using Cons.IH by simp
qed simp

text \<open>A pattern without special atoms is found exactly where its text stands.\<close>

lemma test_literal: "test_pattern (text_atoms p) s \<longleftrightarrow> (\<exists>u w. s = u @ p @ w)"
  unfolding test_somewhere match_literal by blast

lemmas pattern_defs = retryable_text_def deterministic_text_def deterministic_patterns_def retryable_patterns_def
  overflow_text_def OVERFLOW_PATTERNS_def no_body_patterns_def

section \<open>Answers\<close>

record answer =
  an_message :: assistant_message
  an_usage :: token_usage
  an_timestamp :: int

record recovery_model =
  rm_provider :: string
  rm_id :: string
  rm_contextWindow :: int
  rm_hasKey :: bool

definition window_of :: "recovery_model option \<Rightarrow> int" where
  "window_of m = (case m of None \<Rightarrow> 0 | Some m \<Rightarrow> rm_contextWindow m)"

definition error_text :: "answer \<Rightarrow> string option" where
  "error_text a = (if am_stopReason (an_message a) = Stop_error \<and> \<not> js_falsy (am_errorMessage (an_message a))
     then am_errorMessage (an_message a) else None)"

definition isContextOverflow :: "answer \<Rightarrow> int \<Rightarrow> bool" where
  "isContextOverflow a window \<longleftrightarrow>
     (case error_text a of None \<Rightarrow> False | Some t \<Rightarrow> overflow_text t)
   \<or> window \<noteq> 0 \<and> am_stopReason (an_message a) = Stop_stop \<and> tu_input (an_usage a) + tu_cacheRead (an_usage a) > window"

definition isRetryableError :: "answer \<Rightarrow> recovery_model option \<Rightarrow> bool" where
  "isRetryableError a model \<longleftrightarrow>
     (case error_text a of
        None \<Rightarrow> False
      | Some t \<Rightarrow> \<not> isContextOverflow a (window_of model) \<and> retryable_text t)"

section \<open>The state\<close>

record recovery =
  rv_model :: "recovery_model option"
  rv_fallbacksUsed :: nat
  rv_attempt :: nat
  rv_overflowTried :: bool
  rv_retryPromise :: bool
  rv_lastAnswer :: "answer option"
  rv_commands :: command_state

record recovery_env =
  re_fallbacks :: "recovery_model list"
  re_retryEnabled :: bool
  re_maxRetries :: nat
  re_baseDelayMs :: int
  re_sleepAborted :: bool
  re_usageAt :: "nat \<Rightarrow> token_usage option"
  re_timeAt :: "nat \<Rightarrow> int"
  re_parseTime :: "string \<Rightarrow> int"
  re_compaction :: compaction_env
  re_compactionHook :: "compaction_preparation \<Rightarrow> compact_hook_result"
  re_summarizer :: summarizer
  re_queued :: bool
  re_draws :: command_draws
  re_answerDraws :: draws
  re_modelDraws :: draws

definition drop_last_answer :: "agent_message list \<Rightarrow> agent_message list" where
  "drop_last_answer ms = (if ms = [] then ms else case last ms of AssistantMessage a \<Rightarrow> butlast ms | _ \<Rightarrow> ms)"

definition forget_answer :: "recovery \<Rightarrow> recovery" where
  "forget_answer r = r\<lparr>rv_commands := (rv_commands r)\<lparr>ms_messages := drop_last_answer (ms_messages (rv_commands r))\<rparr>\<rparr>"

text \<open>An ended answer: the agent has it among its messages, the session appends it.\<close>

definition record_answer :: "recovery_env \<Rightarrow> answer \<Rightarrow> recovery \<Rightarrow> recovery" where
  "record_answer env a r = r\<lparr>rv_commands := (rv_commands r)
     \<lparr>ms_session := appendSessionMessage (AssistantMessage (an_message a)) (re_answerDraws env) (ms_session (rv_commands r)),
      ms_messages := ms_messages (rv_commands r) @ [AssistantMessage (an_message a)]\<rparr>\<rparr>"

section \<open>Another model\<close>

text \<open>\<open>setModel\<close>: the session appends the change.  The thinking level, which it fits to the new model, and the
  settings are not part of the state.\<close>

definition switch_model :: "recovery_env \<Rightarrow> recovery_model \<Rightarrow> recovery \<Rightarrow> recovery" where
  "switch_model env m r = r\<lparr>rv_model := Some m, rv_commands := (rv_commands r)
     \<lparr>ms_session := appendModelChange (rm_provider m) (rm_id m) (re_modelDraws env) (ms_session (rv_commands r))\<rparr>\<rparr>"

text \<open>The next fallback model with an API key: how many are used up afterwards.\<close>

fun next_fallback :: "recovery_model list \<Rightarrow> nat \<Rightarrow> nat \<times> recovery_model option" where
  "next_fallback [] used = (used, None)"
| "next_fallback (f # fs) used = (if rm_hasKey f then (Suc used, Some f) else next_fallback fs (Suc used))"

definition handleFallback :: "recovery_env \<Rightarrow> recovery \<Rightarrow> recovery_model option \<times> recovery" where
  "handleFallback env r =
     (case next_fallback (drop (rv_fallbacksUsed r) (re_fallbacks env)) (rv_fallbacksUsed r) of
        (used, None) \<Rightarrow> (None, r\<lparr>rv_fallbacksUsed := used\<rparr>)
      | (used, Some f) \<Rightarrow> (Some f, (forget_answer (switch_model env f (r\<lparr>rv_fallbacksUsed := used\<rparr>)))\<lparr>rv_attempt := 0\<rparr>))"

section \<open>Another attempt\<close>

datatype retry_outcome = Not_retried | Retried_after int | Retried_with recovery_model

definition handleRetryableError :: "recovery_env \<Rightarrow> recovery \<Rightarrow> retry_outcome \<times> recovery" where
  "handleRetryableError env r =
     (if \<not> re_retryEnabled env then (Not_retried, r\<lparr>rv_retryPromise := False\<rparr>)
      else let tried = r\<lparr>rv_retryPromise := True, rv_attempt := Suc (rv_attempt r)\<rparr>
      in if rv_attempt tried > re_maxRetries env
         then (let given_up = (\<lambda>r. (Not_retried, r\<lparr>rv_attempt := 0, rv_retryPromise := False\<rparr>))
               in if rv_fallbacksUsed r < length (re_fallbacks env)
                  then (case handleFallback env tried of
                          (Some f, r') \<Rightarrow> (Retried_with f, r'\<lparr>rv_retryPromise := False\<rparr>)
                        | (None, r') \<Rightarrow> given_up r')
                  else given_up tried)
         else if re_sleepAborted env
         then (Not_retried, (forget_answer tried)\<lparr>rv_attempt := 0, rv_retryPromise := False\<rparr>)
         else (Retried_after (re_baseDelayMs env * 2 ^ (rv_attempt tried - 1)), forget_answer tried))"

section \<open>Automatic compaction\<close>

datatype compaction_need = No_compaction | Compaction_check_throws | Overflow_failed | Overflow_compaction | Threshold_compaction

definition latest_compaction :: "session_entry list \<Rightarrow> session_entry option" where
  "latest_compaction es = List.find (\<lambda>e. compaction_of e \<noteq> None) (rev es)"

definition from_before :: "recovery_env \<Rightarrow> session_entry option \<Rightarrow> int \<Rightarrow> bool" where
  "from_before env c time = (case c of None \<Rightarrow> False | Some e \<Rightarrow> time \<le> re_parseTime env (se_timestamp e))"

definition threshold_need :: "recovery_env \<Rightarrow> int \<Rightarrow> int \<Rightarrow> compaction_need" where
  "threshold_need env tokens window =
     (if shouldCompact tokens window (ve_settings (re_compaction env)) then Threshold_compaction else No_compaction)"

definition checkCompaction :: "recovery_env \<Rightarrow> bool \<Rightarrow> answer \<Rightarrow> recovery \<Rightarrow> compaction_need" where
  "checkCompaction env skipAborted a r =
     (if \<not> cs_enabled (ve_settings (re_compaction env)) then No_compaction
      else if skipAborted \<and> am_stopReason (an_message a) = Stop_aborted then No_compaction
      else let window = window_of (rv_model r);
               sameModel = (case rv_model r of None \<Rightarrow> False
                 | Some m \<Rightarrow> am_provider (an_message a) = rm_provider m \<and> am_model (an_message a) = rm_id m)
      in case getBranch None (fst (ms_session (rv_commands r))) of
        None \<Rightarrow> Compaction_check_throws
      | Some es \<Rightarrow>
          (let boundary = latest_compaction es
           in if from_before env boundary (an_timestamp a) then No_compaction
              else if sameModel \<and> isContextOverflow a window
              then (if rv_overflowTried r then Overflow_failed else Overflow_compaction)
              else if am_stopReason (an_message a) = Stop_error
              then (let ms = ms_messages (rv_commands r)
                    in case estimateContextTokens (map (\<lambda>i. (ms ! i, re_usageAt env i)) [0..<length ms]) of
                      None \<Rightarrow> Compaction_check_throws
                    | Some e \<Rightarrow>
                        (case ce_lastUsageIndex e of
                           None \<Rightarrow> No_compaction
                         | Some i \<Rightarrow> if from_before env boundary (re_timeAt env i) then No_compaction
                                     else threshold_need env (ce_tokens e) window))
              else threshold_need env (calculateContextTokens (an_usage a)) window))"

record auto_compaction_end =
  ae_result :: "compaction_result option"
  ae_aborted :: bool
  ae_willRetry :: bool
  ae_failed :: bool
  ae_continues :: bool

definition nothing_compacted :: auto_compaction_end where
  "nothing_compacted = \<lparr>ae_result = None, ae_aborted = False, ae_willRetry = False, ae_failed = False, ae_continues = False\<rparr>"

text \<open>After an overflow the failed answer, which the session still holds, is taken out of the context again.\<close>

definition drop_failed_answer :: "agent_message list \<Rightarrow> agent_message list" where
  "drop_failed_answer ms =
     (if ms = [] then ms
      else case last ms of AssistantMessage a \<Rightarrow> if am_stopReason a = Stop_error then butlast ms else ms | _ \<Rightarrow> ms)"

definition runAutoCompaction ::
  "recovery_env \<Rightarrow> bool \<Rightarrow> recovery_model option \<Rightarrow> command_state \<Rightarrow> auto_compaction_end \<times> command_state" where
  "runAutoCompaction env willRetry model s =
     (let cenv = re_compaction env;
          ended = (\<lambda>e. (e, s\<lparr>ms_autoController := False\<rparr>));
          failed = nothing_compacted\<lparr>ae_failed := True\<rparr>
      in case model of
        None \<Rightarrow> ended nothing_compacted
      | Some m \<Rightarrow>
     if \<not> rm_hasKey m then ended nothing_compacted
     else case getBranch None (fst (ms_session s)) of
        None \<Rightarrow> ended failed
      | Some es \<Rightarrow>
          (case prepareCompaction (ve_sha cenv) (ve_localeCompare cenv) (ve_usage cenv) es (ve_settings cenv) of
             PrepareThrows \<Rightarrow> ended failed
           | NothingPrepared \<Rightarrow> ended nothing_compacted
           | Prepared_compaction p \<Rightarrow>
               (case compaction_outcome cenv (re_compactionHook env) (re_summarizer env) None p of
                  Inl CompactionCancelled \<Rightarrow> ended (nothing_compacted\<lparr>ae_aborted := True\<rparr>)
                | Inl e \<Rightarrow> ended failed
                | Inr (res, fromExtension) \<Rightarrow>
                    (case finalizeCompaction (ve_augment cenv) (re_draws env) res fromExtension s of
                       Inl e \<Rightarrow> ended failed
                     | Inr (res', entry, s') \<Rightarrow>
                         (nothing_compacted\<lparr>ae_result := Some res', ae_willRetry := willRetry, ae_continues := willRetry \<or> re_queued env\<rparr>,
                          s'\<lparr>ms_autoController := False,
                             ms_messages := (if willRetry then drop_failed_answer (ms_messages s') else ms_messages s')\<rparr>)))))"

section \<open>Events\<close>

datatype recovery_action =
    Nothing_done
  | Attempt_again int
  | Attempt_with recovery_model
  | Overflow_given_up
  | Compacted_for_overflow auto_compaction_end
  | Compacted_at_threshold auto_compaction_end

definition check_and_compact :: "recovery_env \<Rightarrow> bool \<Rightarrow> answer \<Rightarrow> recovery \<Rightarrow> recovery_action \<times> recovery" where
  "check_and_compact env skipAborted a r =
     (case checkCompaction env skipAborted a r of
        No_compaction \<Rightarrow> (Nothing_done, r)
      | Compaction_check_throws \<Rightarrow> (Nothing_done, r)
      | Overflow_failed \<Rightarrow> (Overflow_given_up, r)
      | Overflow_compaction \<Rightarrow>
          (let r1 = forget_answer (r\<lparr>rv_overflowTried := True\<rparr>);
               res = runAutoCompaction env True (rv_model r1) (rv_commands r1)
           in (Compacted_for_overflow (fst res), r1\<lparr>rv_commands := snd res\<rparr>))
      | Threshold_compaction \<Rightarrow>
          (let res = runAutoCompaction env False (rv_model r) (rv_commands r)
           in (Compacted_at_threshold (fst res), r\<lparr>rv_commands := snd res\<rparr>)))"

datatype recovery_event =
    User_message_starts
  | Answer_ends answer
  | Run_ends "answer option"

text \<open>The promise is made when the agent's event arrives: \<open>prompt\<close> waits while it is there.\<close>

definition createRetryPromise :: "recovery_env \<Rightarrow> answer option \<Rightarrow> recovery \<Rightarrow> recovery" where
  "createRetryPromise env a r =
     (if re_retryEnabled env \<and> (case a of None \<Rightarrow> False | Some a \<Rightarrow> isRetryableError a (rv_model r))
      then r\<lparr>rv_retryPromise := True\<rparr> else r)"

definition run_ended :: "recovery_env \<Rightarrow> recovery \<Rightarrow> recovery_action \<times> recovery" where
  "run_ended env r =
     (case rv_lastAnswer r of
        None \<Rightarrow> (Nothing_done, r)
      | Some a \<Rightarrow>
          (let r = r\<lparr>rv_lastAnswer := None\<rparr>
           in if isRetryableError a (rv_model r)
              then (case handleRetryableError env r of
                      (Retried_after d, r') \<Rightarrow> (Attempt_again d, r')
                    | (Retried_with f, r') \<Rightarrow> (Attempt_with f, r')
                    | (Not_retried, r') \<Rightarrow> check_and_compact env True a r')
              else if error_text a \<noteq> None \<and> \<not> isContextOverflow a (window_of (rv_model r))
              then (case handleFallback env r of
                      (Some f, r') \<Rightarrow> (Attempt_with f, r')
                    | (None, r') \<Rightarrow> check_and_compact env True a r')
              else check_and_compact env True a r))"

definition recovery_step :: "recovery_env \<Rightarrow> recovery_event \<Rightarrow> recovery \<Rightarrow> recovery_action \<times> recovery" where
  "recovery_step env ev r =
     (case ev of
        User_message_starts \<Rightarrow> (Nothing_done, r\<lparr>rv_overflowTried := False\<rparr>)
      | Answer_ends a \<Rightarrow>
          (let r1 = (record_answer env a r)\<lparr>rv_lastAnswer := Some a\<rparr>
           in (Nothing_done,
               if am_stopReason (an_message a) = Stop_error then r1
               else (if rv_attempt r > 0
                     then r1\<lparr>rv_overflowTried := False, rv_attempt := 0, rv_retryPromise := False\<rparr>
                     else r1\<lparr>rv_overflowTried := False\<rparr>)))
      | Run_ends a \<Rightarrow> run_ended env (createRetryPromise env a r))"

end
