(* ===== verification/Recovery_Claims.thy ===== *)
theory Recovery_Claims
  imports Session_Recovery Session_Command_Claims
begin

text \<open>
  What the recovery from failed answers guarantees: the delays of its attempts, a bound on how often it starts again by
  itself, and two places where it does not do what it is for.
\<close>

section \<open>Runs that fail\<close>

text \<open>A run whose last answer failed: the answer ends, then the run.\<close>

definition failed_run :: "recovery_env \<Rightarrow> answer \<Rightarrow> recovery \<Rightarrow> recovery_action \<times> recovery" where
  "failed_run env a r = recovery_step env (Run_ends (Some a)) (snd (recovery_step env (Answer_ends a) r))"

fun failed_runs :: "recovery_env \<Rightarrow> answer list \<Rightarrow> recovery \<Rightarrow> recovery_action list \<times> recovery" where
  "failed_runs env [] r = ([], r)"
| "failed_runs env (a # as) r =
     (let (action, r1) = failed_run env a r; (actions, r2) = failed_runs env as r1 in (action # actions, r2))"

definition goes_on :: "recovery_action \<Rightarrow> bool" where
  "goes_on action \<longleftrightarrow>
     (case action of
        Attempt_again d \<Rightarrow> True
      | Attempt_with m \<Rightarrow> True
      | Compacted_for_overflow e \<Rightarrow> ae_continues e
      | _ \<Rightarrow> False)"

lemma error_text_stop: "error_text a = Some t \<Longrightarrow> am_stopReason (an_message a) = Stop_error"
  by (simp add: error_text_def split: if_splits)

lemma forget_fields [simp]:
  "rv_model (forget_answer r) = rv_model r" "rv_fallbacksUsed (forget_answer r) = rv_fallbacksUsed r"
  "rv_attempt (forget_answer r) = rv_attempt r" "rv_overflowTried (forget_answer r) = rv_overflowTried r"
  "rv_retryPromise (forget_answer r) = rv_retryPromise r" "rv_lastAnswer (forget_answer r) = rv_lastAnswer r"
  by (simp_all add: forget_answer_def)

lemma record_fields [simp]:
  "rv_model (record_answer env a r) = rv_model r" "rv_fallbacksUsed (record_answer env a r) = rv_fallbacksUsed r"
  "rv_attempt (record_answer env a r) = rv_attempt r" "rv_overflowTried (record_answer env a r) = rv_overflowTried r"
  "rv_retryPromise (record_answer env a r) = rv_retryPromise r" "rv_lastAnswer (record_answer env a r) = rv_lastAnswer r"
  by (simp_all add: record_answer_def)

lemma switch_fields [simp]:
  "rv_model (switch_model env m r) = Some m" "rv_fallbacksUsed (switch_model env m r) = rv_fallbacksUsed r"
  "rv_attempt (switch_model env m r) = rv_attempt r" "rv_overflowTried (switch_model env m r) = rv_overflowTried r"
  "rv_retryPromise (switch_model env m r) = rv_retryPromise r" "rv_lastAnswer (switch_model env m r) = rv_lastAnswer r"
  by (simp_all add: switch_model_def)

lemma failed_run_unfold:
  assumes "am_stopReason (an_message a) = Stop_error"
  shows "failed_run env a r =
    (let r1 = createRetryPromise env (Some a) ((record_answer env a r)\<lparr>rv_lastAnswer := None\<rparr>)
     in if isRetryableError a (rv_model r)
        then (case handleRetryableError env r1 of
                (Retried_after d, r') \<Rightarrow> (Attempt_again d, r')
              | (Retried_with f, r') \<Rightarrow> (Attempt_with f, r')
              | (Not_retried, r') \<Rightarrow> check_and_compact env True a r')
        else if error_text a \<noteq> None \<and> \<not> isContextOverflow a (window_of (rv_model r))
        then (case handleFallback env r1 of
                (Some f, r') \<Rightarrow> (Attempt_with f, r')
              | (None, r') \<Rightarrow> check_and_compact env True a r')
        else check_and_compact env True a r1)"
  using assms by (cases r) (simp add: record_answer_def failed_run_def recovery_step_def run_ended_def createRetryPromise_def Let_def)

lemma created_fields [simp]:
  "rv_model (createRetryPromise env a r) = rv_model r" "rv_fallbacksUsed (createRetryPromise env a r) = rv_fallbacksUsed r"
  "rv_attempt (createRetryPromise env a r) = rv_attempt r" "rv_overflowTried (createRetryPromise env a r) = rv_overflowTried r"
  by (simp_all add: createRetryPromise_def)

lemma overflow_needed:
  assumes "checkCompaction env sk a r = Overflow_compaction"
  shows "\<not> rv_overflowTried r \<and> isContextOverflow a (window_of (rv_model r))"
  using assms unfolding checkCompaction_def Let_def threshold_need_def by (simp split: if_splits option.splits)

lemma check_fields:
  assumes "check_and_compact env sk a r = (action, r')"
  shows "rv_model r' = rv_model r" "rv_fallbacksUsed r' = rv_fallbacksUsed r" "rv_attempt r' = rv_attempt r"
    "rv_retryPromise r' = rv_retryPromise r"
    "action \<notin> range Attempt_again" "action \<notin> range Attempt_with"
    "action \<in> range Compacted_for_overflow \<Longrightarrow> \<not> rv_overflowTried r \<and> rv_overflowTried r' \<and> isContextOverflow a (window_of (rv_model r))"
    "rv_lastAnswer r' = rv_lastAnswer r"
  using assms overflow_needed [of env sk a r]
  by (cases "checkCompaction env sk a r"; auto simp: check_and_compact_def Let_def)+

lemma next_fallback_used:
  "next_fallback fs n = (m, f) \<Longrightarrow> n \<le> m \<and> m \<le> n + length fs \<and> (f \<noteq> None \<longrightarrow> n < m)"
  by (induction fs arbitrary: n) (fastforce split: if_splits)+

lemma fallback_fields:
  assumes "handleFallback env r = (Some f, r')"
  shows "rv_attempt r' = 0" "rv_fallbacksUsed r < rv_fallbacksUsed r'" "rv_fallbacksUsed r' \<le> length (re_fallbacks env)"
    "rv_overflowTried r' = rv_overflowTried r" "rv_retryPromise r' = rv_retryPromise r" "rv_lastAnswer r' = rv_lastAnswer r"
  using assms next_fallback_used [of "drop (rv_fallbacksUsed r) (re_fallbacks env)" "rv_fallbacksUsed r"]
  by (auto simp: handleFallback_def split: prod.splits option.splits)

lemma no_fallback_fields:
  assumes "handleFallback env r = (None, r')"
  shows "rv_attempt r' = rv_attempt r" "rv_fallbacksUsed r \<le> rv_fallbacksUsed r'"
    "rv_overflowTried r' = rv_overflowTried r" "rv_retryPromise r' = rv_retryPromise r" "rv_model r' = rv_model r"
  using assms next_fallback_used [of "drop (rv_fallbacksUsed r) (re_fallbacks env)" "rv_fallbacksUsed r"]
  by (auto simp: handleFallback_def split: prod.splits option.splits)

section \<open>The bound\<close>

text \<open>What is left of the attempts, the models and the one compaction.\<close>

definition recovery_left :: "recovery_env \<Rightarrow> recovery \<Rightarrow> nat" where
  "recovery_left env r =
     (length (re_fallbacks env) - rv_fallbacksUsed r) * Suc (re_maxRetries env)
     + (re_maxRetries env - rv_attempt r) + (if rv_overflowTried r then 0 else 1)"

lemma fallback_left:
  assumes "rv_attempt r' = 0" "rv_fallbacksUsed r < rv_fallbacksUsed r'" "rv_fallbacksUsed r' \<le> length (re_fallbacks env)"
    "rv_overflowTried r' = rv_overflowTried r"
  shows "recovery_left env r' < recovery_left env r"
proof -
  let ?n = "length (re_fallbacks env)" and ?m = "Suc (re_maxRetries env)"
  obtain k where k: "?n - rv_fallbacksUsed r = Suc k + (?n - rv_fallbacksUsed r')"
    using assms(2,3) by (intro that [of "rv_fallbacksUsed r' - Suc (rv_fallbacksUsed r)"]) arith
  have "(?n - rv_fallbacksUsed r) * ?m = (?n - rv_fallbacksUsed r') * ?m + Suc k * ?m" unfolding k by (simp add: algebra_simps)
  then show ?thesis using assms(1,4) by (simp add: recovery_left_def)
qed

lemma restart_left:
  assumes "am_stopReason (an_message a) = Stop_error" "failed_run env a r = (action, r')" "goes_on action"
  shows "recovery_left env r' < recovery_left env r"
proof -
  let ?r1 = "createRetryPromise env (Some a) ((record_answer env a r)\<lparr>rv_lastAnswer := None\<rparr>)"
  have same: "recovery_left env ?r1 = recovery_left env r" by (simp add: recovery_left_def)
  have compact: "recovery_left env r' < recovery_left env r2"
    if c: "check_and_compact env True a r2 = (action, r')" for r2
  proof -
    have "action \<in> range Compacted_for_overflow"
      using assms(3) check_fields(5,6) [OF c] by (cases action) (auto simp: goes_on_def)
    then show ?thesis using check_fields [OF c] by (simp add: recovery_left_def)
  qed
  show ?thesis
  proof (cases "isRetryableError a (rv_model r)")
    case True
    then have no: "\<not> isContextOverflow a (window_of (rv_model r))" by (simp add: isRetryableError_def split: option.splits)
    obtain out r2 where out: "handleRetryableError env ?r1 = (out, r2)" by fastforce
    show ?thesis
    proof (cases out)
      case Not_retried
      then have c: "check_and_compact env True a r2 = (action, r')"
        using assms(2) True out by (simp add: failed_run_unfold [OF assms(1)] Let_def)
      have "rv_model r2 = rv_model r"
        using out Not_retried no_fallback_fields(5) [of env]
        by (fastforce simp: handleRetryableError_def Let_def split: if_splits prod.splits option.splits)
      then have "action \<notin> range Compacted_for_overflow" using check_fields(7) [OF c] no by auto
      then have False using assms(3) check_fields(5,6) [OF c] by (cases action) (auto simp: goes_on_def)
      then show ?thesis ..
    next
      case (Retried_after d)
      then have "r' = r2" using assms(2) True out by (simp add: failed_run_unfold [OF assms(1)] Let_def)
      moreover have "rv_attempt r2 = Suc (rv_attempt r)" "rv_attempt r2 \<le> re_maxRetries env" "rv_fallbacksUsed r2 = rv_fallbacksUsed r"
        "rv_overflowTried r2 = rv_overflowTried r"
        using out Retried_after by (auto simp: handleRetryableError_def Let_def split: if_splits prod.splits option.splits)
      ultimately show ?thesis by (simp add: recovery_left_def)
    next
      case (Retried_with f)
      then have r2: "r' = r2" using assms(2) True out by (simp add: failed_run_unfold [OF assms(1)] Let_def)
      let ?t = "?r1\<lparr>rv_retryPromise := True, rv_attempt := Suc (rv_attempt ?r1)\<rparr>"
      obtain r3 where r3: "handleFallback env ?t = (Some f, r3)" "r2 = r3\<lparr>rv_retryPromise := False\<rparr>"
        using out Retried_with by (auto simp: handleRetryableError_def Let_def split: if_splits prod.splits option.splits)
      show ?thesis
        by (rule fallback_left) (use fallback_fields [OF r3(1)] r3(2) r2 in simp_all)
    qed
  next
    case False
    show ?thesis
    proof (cases "error_text a \<noteq> None \<and> \<not> isContextOverflow a (window_of (rv_model r))")
      case True
      obtain f r2 where f: "handleFallback env ?r1 = (f, r2)" by fastforce
      show ?thesis
      proof (cases f)
        case None
        then have "check_and_compact env True a r2 = (action, r')"
          using assms(2) False True f by (simp add: failed_run_unfold [OF assms(1)] Let_def)
        then have "recovery_left env r' < recovery_left env r2" by (rule compact)
        also have "recovery_left env r2 \<le> recovery_left env ?r1"
          using no_fallback_fields [OF f [unfolded None]] by (simp add: recovery_left_def diff_le_mono2 mult_le_mono1 del: mult_Suc_right created_fields)
        finally show ?thesis by (simp add: same)
      next
        case (Some g)
        then have "r' = r2" using assms(2) False True f by (simp add: failed_run_unfold [OF assms(1)] Let_def)
        then show ?thesis using fallback_left fallback_fields [OF f [unfolded Some]] by simp
      qed
    next
      case over: False
      then have "check_and_compact env True a ?r1 = (action, r')"
        using assms(2) False by (simp add: failed_run_unfold [OF assms(1)] Let_def split: if_splits)
      from compact [OF this] show ?thesis by (simp add: same)
    qed
  qed
qed

text \<open>C15. However the answers fail, the session goes on by itself only finitely often: at most once for
  every attempt with every model that is left, once for every switch of the model, and once for a compaction after
  an overflow.\<close>

theorem recovery_bounded:
  assumes "\<forall>a \<in> set as. am_stopReason (an_message a) = Stop_error" "failed_runs env as r = (actions, r')"
    and "\<forall>action \<in> set actions. goes_on action"
  shows "length as \<le> (length (re_fallbacks env) - rv_fallbacksUsed r) * Suc (re_maxRetries env) + re_maxRetries env + 1"
proof -
  have "length as \<le> recovery_left env r"
    using assms
  proof (induction as arbitrary: r actions)
    case (Cons a as)
    obtain action r1 where one: "failed_run env a r = (action, r1)" by fastforce
    obtain rest r2 where "failed_runs env as r1 = (rest, r2)" by fastforce
    then have more: "failed_runs env as r1 = (rest, r')" and actions: "actions = action # rest"
      using Cons.prems(2) one by simp_all
    have "recovery_left env r1 < recovery_left env r"
      by (rule restart_left [OF _ one]) (use Cons.prems actions in simp_all)
    moreover have "length as \<le> recovery_left env r1"
      by (rule Cons.IH [OF _ more]) (use Cons.prems actions in simp_all)
    ultimately have "recovery_left env r1 < recovery_left env r" "length as \<le> recovery_left env r1" by simp_all
    then show ?case by simp
  qed simp
  then show ?thesis by (simp add: recovery_left_def split: if_splits)
qed

section \<open>The delays\<close>

lemma retry_step:
  assumes "re_retryEnabled env" "\<not> re_sleepAborted env" "isRetryableError a (rv_model r)" "Suc (rv_attempt r) \<le> re_maxRetries env"
  obtains r' where "failed_run env a r = (Attempt_again (re_baseDelayMs env * 2 ^ rv_attempt r), r')"
    "rv_attempt r' = Suc (rv_attempt r)" "rv_model r' = rv_model r" "rv_fallbacksUsed r' = rv_fallbacksUsed r" "rv_retryPromise r'"
proof -
  have "am_stopReason (an_message a) = Stop_error"
    using assms(3) error_text_stop by (auto simp: isRetryableError_def split: option.splits)
  note unfold = failed_run_unfold [OF this]
  show thesis using assms by (intro that) (simp add: unfold handleRetryableError_def Let_def, simp_all)
qed

lemma retry_steps:
  assumes "re_retryEnabled env" "\<not> re_sleepAborted env"
  shows "\<forall>a \<in> set as. isRetryableError a (rv_model r) \<Longrightarrow> rv_attempt r + length as \<le> re_maxRetries env \<Longrightarrow>
    failed_runs env as r = (actions, r') \<Longrightarrow>
    actions = map (\<lambda>k. Attempt_again (re_baseDelayMs env * 2 ^ k)) [rv_attempt r..<rv_attempt r + length as]
    \<and> rv_attempt r' = rv_attempt r + length as \<and> rv_model r' = rv_model r \<and> rv_fallbacksUsed r' = rv_fallbacksUsed r
    \<and> (as \<noteq> [] \<longrightarrow> rv_retryPromise r')"
proof (induction as arbitrary: r actions)
  case (Cons a as)
  obtain r1 where one: "failed_run env a r = (Attempt_again (re_baseDelayMs env * 2 ^ rv_attempt r), r1)"
    "rv_attempt r1 = Suc (rv_attempt r)" "rv_model r1 = rv_model r" "rv_fallbacksUsed r1 = rv_fallbacksUsed r" "rv_retryPromise r1"
    using retry_step [OF assms, of a r] Cons.prems(1,2) by auto
  obtain rest r2 where "failed_runs env as r1 = (rest, r2)" by fastforce
  then have more: "failed_runs env as r1 = (rest, r')"
    and actions: "actions = Attempt_again (re_baseDelayMs env * 2 ^ rv_attempt r) # rest"
    using Cons.prems(3) one(1) by simp_all
  have ih: "rest = map (\<lambda>k. Attempt_again (re_baseDelayMs env * 2 ^ k)) [rv_attempt r1..<rv_attempt r1 + length as]
    \<and> rv_attempt r' = rv_attempt r1 + length as \<and> rv_model r' = rv_model r1 \<and> rv_fallbacksUsed r' = rv_fallbacksUsed r1
    \<and> (as \<noteq> [] \<longrightarrow> rv_retryPromise r')"
    by (rule Cons.IH [OF _ _ more]) (use Cons.prems one in simp_all)
  have "as = [] \<Longrightarrow> r' = r1" using more by simp
  then show ?case using ih one actions by (cases as) (simp_all add: upt_conv_Cons del: upt_Suc)
qed simp

text \<open>Errors that are worth another attempt are tried again with delays that double from the
  base, as often as the settings allow, and \<open>prompt\<close> keeps waiting; after the last attempt, when no other model is left,
  the session does not go on by itself, the count starts anew and \<open>prompt\<close> no longer waits.\<close>

theorem retry_backoff_exact:
  assumes "re_retryEnabled env" "\<not> re_sleepAborted env" "rv_attempt r = 0"
    and "\<forall>a \<in> set (as @ [b]). isRetryableError a (rv_model r)" "length as = re_maxRetries env"
    and "failed_runs env as r = (actions, r')" "rv_fallbacksUsed r = length (re_fallbacks env)"
    and "failed_run env b r' = (action, r'')"
  shows "actions = map (\<lambda>k. Attempt_again (re_baseDelayMs env * 2 ^ k)) [0..<length as]
    \<and> (as \<noteq> [] \<longrightarrow> rv_retryPromise r')
    \<and> \<not> goes_on action \<and> rv_attempt r'' = 0 \<and> \<not> rv_retryPromise r''"
proof -
  have steps: "actions = map (\<lambda>k. Attempt_again (re_baseDelayMs env * 2 ^ k)) [0..<length as]"
    "rv_attempt r' = length as" "rv_model r' = rv_model r" "rv_fallbacksUsed r' = rv_fallbacksUsed r" "as \<noteq> [] \<longrightarrow> rv_retryPromise r'"
    using retry_steps [OF assms(1,2) _ _ assms(6)] assms(3,4,5) by simp_all
  have b: "isRetryableError b (rv_model r')" using assms(4) steps(3) by simp
  then have stop: "am_stopReason (an_message b) = Stop_error" and no: "\<not> isContextOverflow b (window_of (rv_model r'))"
    using error_text_stop by (auto simp: isRetryableError_def split: option.splits)
  let ?r1 = "createRetryPromise env (Some b) ((record_answer env b r')\<lparr>rv_lastAnswer := None\<rparr>)"
  let ?t = "?r1\<lparr>rv_retryPromise := True, rv_attempt := Suc (rv_attempt ?r1)\<rparr>"
  have "handleRetryableError env ?r1 = (Not_retried, ?t\<lparr>rv_attempt := 0, rv_retryPromise := False\<rparr>)"
    using assms(1,5,7) steps by (simp add: handleRetryableError_def Let_def)
  then have c: "check_and_compact env True b (?t\<lparr>rv_attempt := 0, rv_retryPromise := False\<rparr>) = (action, r'')"
    using assms(8) b by (simp add: failed_run_unfold [OF stop] Let_def)
  have "action \<notin> range Compacted_for_overflow" using check_fields(7) [OF c] no by auto
  then have "\<not> goes_on action" using check_fields(5,6) [OF c] by (cases action) (auto simp: goes_on_def)
  then show ?thesis using steps(1,5) check_fields(3,4) [OF c] by simp
qed

section \<open>Waiting for ever\<close>

text \<open>What may happen afterwards: user messages, answers that are no errors, ends of runs.\<close>

definition healthy_event :: "recovery_event \<Rightarrow> bool" where
  "healthy_event ev \<longleftrightarrow> (case ev of Answer_ends b \<Rightarrow> am_stopReason (an_message b) \<noteq> Stop_error | _ \<Rightarrow> True)"

definition waits_in_vain :: "recovery \<Rightarrow> bool" where
  "waits_in_vain r \<longleftrightarrow> rv_retryPromise r \<and> rv_attempt r = 0
     \<and> (case rv_lastAnswer r of None \<Rightarrow> True | Some b \<Rightarrow> am_stopReason (an_message b) \<noteq> Stop_error)"

lemma healthy_keeps_waiting:
  assumes "waits_in_vain r" and "healthy_event ev"
  shows "waits_in_vain (snd (recovery_step env ev r))"
proof (cases ev)
  case User_message_starts
  then show ?thesis using assms(1) by (simp add: recovery_step_def waits_in_vain_def)
next
  case (Answer_ends b)
  then show ?thesis using assms by (simp add: recovery_step_def waits_in_vain_def healthy_event_def Let_def)
next
  case (Run_ends x)
  let ?r1 = "createRetryPromise env x r"
  have r1: "rv_retryPromise ?r1" "rv_attempt ?r1 = 0" "rv_lastAnswer ?r1 = rv_lastAnswer r"
    using assms(1) by (simp_all add: createRetryPromise_def waits_in_vain_def)
  show ?thesis
  proof (cases "rv_lastAnswer r")
    case None
    then show ?thesis using Run_ends r1 by (simp add: recovery_step_def run_ended_def waits_in_vain_def)
  next
    case (Some b)
    then have "am_stopReason (an_message b) \<noteq> Stop_error" using assms(1) by (simp add: waits_in_vain_def)
    then have none: "error_text b = None" by (simp add: error_text_def)
    then have quiet: "\<not> isRetryableError b m" for m by (simp add: isRetryableError_def)
    obtain act r2 where c: "check_and_compact env True b (?r1\<lparr>rv_lastAnswer := None\<rparr>) = (act, r2)" by fastforce
    have "recovery_step env ev r = (act, r2)"
      using Run_ends Some r1(3) none quiet c by (simp add: recovery_step_def run_ended_def Let_def)
    moreover have "rv_retryPromise r2" "rv_attempt r2 = 0" "rv_lastAnswer r2 = None"
      using check_fields(3,4,8) [OF c] r1 by simp_all
    ultimately show ?thesis by (simp add: waits_in_vain_def)
  qed
qed

text \<open>C21. When an attempt that \<open>prompt\<close> waits for fails with an error that is neither a context overflow
  nor worth another attempt, the promise is not resolved.  Either another model takes over: then it stays unresolved
  whatever user messages, successful answers and ends of runs follow, however many.  Or the session makes no further
  attempt of its own, and \<open>prompt\<close> is left waiting.\<close>

theorem pending_retry_never_resolved:
  assumes "error_text a \<noteq> None" "\<not> isContextOverflow a (window_of (rv_model r))" "\<not> isRetryableError a (rv_model r)"
    and "rv_retryPromise r" and "failed_run env a r = (action, r')"
  shows "rv_retryPromise r'
    \<and> ((\<exists>f. action = Attempt_with f)
        \<and> (\<forall>evs. list_all healthy_event evs \<longrightarrow> rv_retryPromise (fold (\<lambda>ev r. snd (recovery_step env ev r)) evs r'))
      \<or> \<not> goes_on action)"
proof -
  have stop: "am_stopReason (an_message a) = Stop_error" using assms(1) error_text_stop by blast
  let ?r1 = "createRetryPromise env (Some a) ((record_answer env a r)\<lparr>rv_lastAnswer := None\<rparr>)"
  have kept: "rv_retryPromise ?r1" "rv_lastAnswer ?r1 = None" using assms(4) by (simp_all add: createRetryPromise_def)
  obtain f r2 where f: "handleFallback env ?r1 = (f, r2)" by fastforce
  show ?thesis
  proof (cases f)
    case None
    then have c: "check_and_compact env True a r2 = (action, r')"
      using assms(1-3,5) f by (simp add: failed_run_unfold [OF stop] Let_def)
    have "rv_model r2 = rv_model r" using no_fallback_fields(5) [OF f [unfolded None]] by simp
    then have "action \<notin> range Compacted_for_overflow" using check_fields(7) [OF c] assms(2) by auto
    then have "\<not> goes_on action" using check_fields(5,6) [OF c] by (cases action) (auto simp: goes_on_def)
    then show ?thesis using check_fields(4) [OF c] no_fallback_fields(4) [OF f [unfolded None]] kept by simp
  next
    case (Some g)
    then have r': "r' = r2" "action = Attempt_with g" using assms(1-3,5) f by (simp_all add: failed_run_unfold [OF stop] Let_def)
    have vain: "waits_in_vain r'"
      using fallback_fields(1,5,6) [OF f [unfolded Some]] kept r'(1) by (simp add: waits_in_vain_def)
    have "waits_in_vain (fold (\<lambda>ev r. snd (recovery_step env ev r)) evs r')" if "list_all healthy_event evs" for evs
      using that vain by (induction evs arbitrary: r') (simp_all add: healthy_keeps_waiting)
    then show ?thesis using vain r'(2) by (auto simp: waits_in_vain_def)
  qed
qed

text \<open>The same when the run itself throws: the agent then reports an answer that never ended as a message, so the promise
  is made and the failure is not handled.\<close>

lemma thrown_error_waits:
  assumes "re_retryEnabled env" "isRetryableError a (rv_model r)" "rv_lastAnswer r = None"
  shows "recovery_step env (Run_ends (Some a)) r = (Nothing_done, r\<lparr>rv_retryPromise := True\<rparr>)"
  using assms by (simp add: recovery_step_def run_ended_def createRetryPromise_def)

section \<open>Rejected transcripts\<close>

lemma next_fallback_some: "\<exists>f \<in> set fs. rm_hasKey f \<Longrightarrow> \<exists>m f. next_fallback fs n = (m, Some f) \<and> rm_hasKey f \<and> f \<in> set fs"
  by (induction fs arbitrary: n) fastforce+

text \<open>The answer that the agent loop makes when it refuses to send an invalid transcript
  is never a reason for another attempt with the same model; but while a model with an API key is left, the session
  goes on with that model, which gets the same transcript.\<close>

theorem rejected_transcript_resent:
  assumes "error_text a = Some (''INVALID_TOOL_TRANSCRIPT: '' @ t)" "failed_run env a r = (action, r')"
  shows "action \<notin> range Attempt_again
    \<and> (\<not> isContextOverflow a (window_of (rv_model r))
       \<and> (\<exists>f \<in> set (drop (rv_fallbacksUsed r) (re_fallbacks env)). rm_hasKey f)
       \<longrightarrow> (\<exists>f \<in> set (re_fallbacks env). action = Attempt_with f \<and> rv_model r' = Some f))"
proof -
  have stop: "am_stopReason (an_message a) = Stop_error" by (rule error_text_stop [OF assms(1)])
  have "lower (''INVALID_TOOL_TRANSCRIPT: '' @ t) = [] @ ''invalid_tool_transcript'' @ '': '' @ lower t"
    by (simp add: lower_def lower_char_def Let_def)
  then have "test_pattern (text_atoms ''invalid_tool_transcript'') (lower (''INVALID_TOOL_TRANSCRIPT: '' @ t))"
    unfolding test_literal by blast
  then have "deterministic_text (''INVALID_TOOL_TRANSCRIPT: '' @ t)"
    unfolding deterministic_text_def deterministic_patterns_def by simp
  then have no: "\<not> isRetryableError a m" for m using assms(1) by (simp add: isRetryableError_def retryable_text_def)
  let ?r1 = "createRetryPromise env (Some a) ((record_answer env a r)\<lparr>rv_lastAnswer := None\<rparr>)"
  note unfold = failed_run_unfold [OF stop, of env r, unfolded Let_def]
  show ?thesis
  proof (cases "isContextOverflow a (window_of (rv_model r))")
    case True
    then have "check_and_compact env True a ?r1 = (action, r')" using assms(2) no by (simp add: unfold)
    then show ?thesis using check_fields(5) True by blast
  next
    case False
    obtain f r2 where f: "handleFallback env ?r1 = (f, r2)" by fastforce
    show ?thesis
    proof (cases f)
      case None
      then have "check_and_compact env True a r2 = (action, r')" using assms(1,2) no False f by (simp add: unfold)
      moreover have "\<not> (\<exists>f \<in> set (drop (rv_fallbacksUsed r) (re_fallbacks env)). rm_hasKey f)"
      proof
        assume "\<exists>f \<in> set (drop (rv_fallbacksUsed r) (re_fallbacks env)). rm_hasKey f"
        from next_fallback_some [OF this, of "rv_fallbacksUsed r"] f None show False by (auto simp: handleFallback_def)
      qed
      ultimately show ?thesis using check_fields(5) by blast
    next
      case (Some g)
      then have "action = Attempt_with g" "r' = r2" using assms(1,2) no False f by (simp_all add: unfold)
      moreover have "rv_model r2 = Some g \<and> g \<in> set (re_fallbacks env)"
      proof -
        have g: "next_fallback (drop (rv_fallbacksUsed r) (re_fallbacks env)) (rv_fallbacksUsed r) = (rv_fallbacksUsed r2, Some g)"
          and m: "rv_model r2 = Some g"
          using f Some by (auto simp: handleFallback_def split: prod.splits option.splits)
        have "g \<in> set fs" if "next_fallback fs n = (m, Some g)" for fs n m
          using that by (induction fs arbitrary: n) (auto split: if_splits)
        then show ?thesis using g m in_set_dropD by fast
      qed
      ultimately show ?thesis by auto
    qed
  qed
qed

section \<open>Examples\<close>

definition first_model :: recovery_model where
  "first_model = \<lparr>rm_provider = ''p'', rm_id = ''m'', rm_contextWindow = 1000, rm_hasKey = True\<rparr>"

definition other_model :: recovery_model where
  "other_model = \<lparr>rm_provider = ''q'', rm_id = ''n'', rm_contextWindow = 1000, rm_hasKey = True\<rparr>"

definition failing :: "string \<Rightarrow> answer" where
  "failing t = \<lparr>an_message = demo_answer\<lparr>am_stopReason := Stop_error, am_errorMessage := Some t\<rparr>,
     an_usage = \<lparr>tu_input = 0, tu_output = 0, tu_cacheRead = 0, tu_cacheWrite = 0, tu_totalTokens = 0\<rparr>, an_timestamp = 5\<rparr>"

definition recovery_demo :: recovery_env where
  "recovery_demo = \<lparr>re_fallbacks = [other_model], re_retryEnabled = True, re_maxRetries = 2, re_baseDelayMs = 2000,
     re_sleepAborted = False, re_usageAt = (\<lambda>i. None), re_timeAt = (\<lambda>i. 0), re_parseTime = (\<lambda>s. 0), re_compaction = demo_env\<lparr>ve_settings := keep_one\<lparr>cs_enabled := False\<rparr>\<rparr>,
     re_compactionHook = (\<lambda>p. Hook_passes), re_summarizer = answer_all, re_queued = False, re_draws = demo_clock ''u3'' ''u4'', re_answerDraws = cd_summary (demo_clock ''u5'' ''u6''),
     re_modelDraws = cd_label (demo_clock ''u5'' ''u6'')\<rparr>"

definition demo_recovery :: recovery where
  "demo_recovery = \<lparr>rv_model = Some first_model, rv_fallbacksUsed = 0, rv_attempt = 0, rv_overflowTried = False,
     rv_retryPromise = False, rv_lastAnswer = None,
     rv_commands = demo_state\<lparr>ms_session := (blank_manager, Map.empty)\<rparr>\<rparr>"

lemma demo_answers:
  "isRetryableError (failing ''Overloaded'') (Some first_model)" "\<not> isRetryableError (failing ''401 unauthorized'') (Some first_model)"
  "\<not> isContextOverflow (failing ''401 unauthorized'') 1000"
  by code_simp+

lemma demo_answers_stop: "am_stopReason (an_message (failing t)) = Stop_error" "t \<noteq> [] \<Longrightarrow> error_text (failing t) = Some t"
  by (simp_all add: failing_def error_text_def js_falsy_def)

lemma overloaded_run:
  assumes "re_retryEnabled env" "\<not> re_sleepAborted env" "re_maxRetries env = 2" "re_baseDelayMs env = 2000"
  obtains r1 where "failed_run env (failing ''Overloaded'') demo_recovery = (Attempt_again 2000, r1)"
    "rv_model r1 = Some first_model" "rv_fallbacksUsed r1 = 0" "rv_retryPromise r1"
proof -
  have "isRetryableError (failing ''Overloaded'') (rv_model demo_recovery)" "Suc (rv_attempt demo_recovery) \<le> re_maxRetries env"
    using demo_answers(1) assms(3) by (simp_all add: demo_recovery_def)
  from retry_step [OF assms(1,2) this] obtain r1 where
    "failed_run env (failing ''Overloaded'') demo_recovery = (Attempt_again (2000 * 2 ^ rv_attempt demo_recovery), r1)"
    "rv_model r1 = rv_model demo_recovery" "rv_fallbacksUsed r1 = rv_fallbacksUsed demo_recovery" "rv_retryPromise r1"
    unfolding assms(4) by metis
  moreover have "rv_model demo_recovery = Some first_model" "rv_fallbacksUsed demo_recovery = 0" "rv_attempt demo_recovery = 0"
    by (simp_all add: demo_recovery_def)
  ultimately show thesis using that by simp
qed

lemma unauthorized_run:
  assumes "rv_model r = Some first_model"
  shows "failed_run env (failing ''401 unauthorized'') r =
    (let r1 = createRetryPromise env (Some (failing ''401 unauthorized'')) ((record_answer env (failing ''401 unauthorized'') r)\<lparr>rv_lastAnswer := None\<rparr>)
     in case handleFallback env r1 of
          (Some f, r') \<Rightarrow> (Attempt_with f, r')
        | (None, r') \<Rightarrow> check_and_compact env True (failing ''401 unauthorized'') r')"
  using assms demo_answers(2,3) by (simp add: failed_run_unfold demo_answers_stop window_of_def first_model_def Let_def)

theorem recovery_bounded_witness:
  "fst (failed_runs recovery_demo [failing ''Overloaded'', failing ''401 unauthorized''] demo_recovery) = [Attempt_again 2000, Attempt_with other_model]
    \<and> length [failing ''Overloaded'', failing ''401 unauthorized'']
      \<le> (length (re_fallbacks recovery_demo) - rv_fallbacksUsed demo_recovery) * Suc (re_maxRetries recovery_demo) + re_maxRetries recovery_demo + 1"
proof -
  let ?as = "[failing ''Overloaded'', failing ''401 unauthorized'']"
  obtain r1 where r1: "failed_run recovery_demo (failing ''Overloaded'') demo_recovery = (Attempt_again 2000, r1)"
    "rv_model r1 = Some first_model" "rv_fallbacksUsed r1 = 0"
    by (rule overloaded_run [of recovery_demo]) (simp_all add: recovery_demo_def)
  obtain r2 where r2: "failed_run recovery_demo (failing ''401 unauthorized'') r1 = (Attempt_with other_model, r2)"
    by (simp add: unauthorized_run r1(2,3) handleFallback_def Let_def) (simp add: recovery_demo_def other_model_def)
  have run: "failed_runs recovery_demo ?as demo_recovery = ([Attempt_again 2000, Attempt_with other_model], r2)"
    by (simp add: r1(1) r2)
  have stop: "\<forall>a \<in> set ?as. am_stopReason (an_message a) = Stop_error" by (simp add: failing_def)
  show ?thesis using recovery_bounded [OF stop run] run by (simp add: goes_on_def)
qed

theorem retry_backoff_exact_witness:
  "fst (failed_runs (recovery_demo\<lparr>re_fallbacks := []\<rparr>) [failing ''fetch failed'', failing ''Timed out''] demo_recovery)
      = map (\<lambda>k. Attempt_again (2000 * 2 ^ k)) [0..<2]"
proof -
  let ?env = "recovery_demo\<lparr>re_fallbacks := []\<rparr>" and ?as = "[failing ''fetch failed'', failing ''Timed out'']" and ?b = "failing ''503''"
  let ?r = "snd (failed_runs ?env ?as demo_recovery)"
  have "isRetryableError (failing ''fetch failed'') (Some first_model)" "isRetryableError (failing ''Timed out'') (Some first_model)"
    "isRetryableError (failing ''503'') (Some first_model)" by code_simp+
  then have all: "\<forall>a \<in> set (?as @ [?b]). isRetryableError a (rv_model demo_recovery)" by (simp add: demo_recovery_def)
  have settings: "re_retryEnabled ?env" "\<not> re_sleepAborted ?env" "rv_attempt demo_recovery = 0" "length ?as = re_maxRetries ?env"
    "rv_fallbacksUsed demo_recovery = length (re_fallbacks ?env)" "re_baseDelayMs ?env = 2000"
    by (simp_all add: recovery_demo_def demo_recovery_def)
  have run: "failed_runs ?env ?as demo_recovery = (fst (failed_runs ?env ?as demo_recovery), ?r)" by simp
  have again: "failed_run ?env ?b ?r = (fst (failed_run ?env ?b ?r), snd (failed_run ?env ?b ?r))" by simp
  show ?thesis
    using retry_backoff_exact [OF settings(1,2,3) all settings(4) run settings(5) again] settings(6)
    by (simp del: upt_Suc upt_rec_numeral failed_runs.simps add: numeral_2_eq_2)
qed

definition waiting_demo :: recovery where
  "waiting_demo = snd (failed_run recovery_demo (failing ''401 unauthorized'')
     (snd (failed_run recovery_demo (failing ''Overloaded'') demo_recovery)))"

definition later_demo :: "recovery_event list" where
  "later_demo = (let good = (failing [])\<lparr>an_message := demo_answer\<rparr>
     in [Answer_ends good, Run_ends (Some good), User_message_starts, Answer_ends good, Run_ends (Some good)])"

theorem pending_retry_never_resolved_witness:
  "rv_retryPromise waiting_demo
    \<and> rv_retryPromise (fold (\<lambda>ev r. snd (recovery_step recovery_demo ev r)) later_demo waiting_demo)"
proof -
  let ?a = "failing ''401 unauthorized''"
  let ?r = "snd (failed_run recovery_demo (failing ''Overloaded'') demo_recovery)"
  have a: "error_text ?a \<noteq> None" by (simp add: failing_def error_text_def js_falsy_def)
  obtain r1 where r1: "failed_run recovery_demo (failing ''Overloaded'') demo_recovery = (Attempt_again 2000, r1)"
    "rv_model r1 = Some first_model" "rv_fallbacksUsed r1 = 0" "rv_retryPromise r1"
    by (rule overloaded_run [of recovery_demo]) (simp_all add: recovery_demo_def)
  have over: "\<not> isContextOverflow ?a (window_of (rv_model ?r))"
    using demo_answers(3) r1 by (simp add: window_of_def first_model_def)
  have no: "\<not> isRetryableError ?a (rv_model ?r)" and pending: "rv_retryPromise ?r" using demo_answers(2) r1 by simp_all
  have "fst (failed_run recovery_demo ?a r1) = Attempt_with other_model"
    by (simp add: unauthorized_run r1(2,3) handleFallback_def Let_def) (simp add: recovery_demo_def other_model_def)
  then have run: "failed_run recovery_demo ?a ?r = (Attempt_with other_model, waiting_demo)"
    using r1(1) by (metis prod.collapse snd_conv waiting_demo_def)
  have "list_all healthy_event later_demo"
    by (simp add: later_demo_def healthy_event_def Let_def demo_answer_def)
  then show ?thesis using pending_retry_never_resolved [OF a over no pending run] by (auto simp: goes_on_def)
qed

theorem rejected_transcript_resent_witness:
  "fst (failed_run recovery_demo (failing (''INVALID_TOOL_TRANSCRIPT: '' @ ''x'')) demo_recovery) = Attempt_with other_model"
proof -
  let ?a = "failing (''INVALID_TOOL_TRANSCRIPT: '' @ ''x'')"
  have a: "error_text ?a = Some (''INVALID_TOOL_TRANSCRIPT: '' @ ''x'')" by (simp add: failing_def error_text_def js_falsy_def)
  have run: "failed_run recovery_demo ?a demo_recovery = (fst (failed_run recovery_demo ?a demo_recovery), snd (failed_run recovery_demo ?a demo_recovery))"
    by simp
  have no: "\<not> isContextOverflow ?a (window_of (rv_model demo_recovery))" by code_simp
  have left: "\<exists>f \<in> set (drop (rv_fallbacksUsed demo_recovery) (re_fallbacks recovery_demo)). rm_hasKey f"
    by (simp add: demo_recovery_def recovery_demo_def other_model_def)
  have "set (re_fallbacks recovery_demo) = {other_model}" by (simp add: recovery_demo_def)
  then show ?thesis using mp [OF conjunct2 [OF rejected_transcript_resent [OF a run]] conjI [OF no left]] by auto
qed

end
