(* ===== verification/Spec2Isabelle.thy ===== *)
theory Spec2Isabelle
  imports Contract_Claims Ledger_Scenario Ledger_Findings Execution_Claims Digest_Binding Scheduler_History
    Mission_Claims Mission_Schedule Mission_Integration Mission_Store Tool_Batch
    Transcript_Claims Agent_Claims Storm_Claims Budget_Claims
    Session_Branching Session_Restore Compaction_Claims Branch_Claims Session_Command_Claims Recovery_Claims
begin

text \<open>
  A verification library for the deterministic core of the coding agent: the long-horizon mission
  subsystem (\<open>packages/coding-agent/src/core/long-horizon\<close>), the durable mission graph
  (\<open>packages/coding-agent/src/core/mission\<close>), and the agent itself: its loop with the scheduler of
  tool calls (\<open>packages/agent/src\<close>), the validation of transcripts (\<open>packages/ai/src/utils\<close>), the
  breaker of tool storms (\<open>core/storm\<close>), and the sessions in which conversations are stored, restored
  and compacted (\<open>core/session-manager.ts\<close>, \<open>core/compaction\<close>).  Definitions carry the names of the source; file names are
  relative to these directories.

  \<^bold>\<open>The parts and how they work together.\<close>  A user writes a Mission Contract; it is validated
  (\<open>Contract_Schema\<close>) and identified by the digest of its canonical JSON form (\<open>Json_Values\<close>,
  \<open>Contract_Digest\<close>).  The Requirement Ledger records evidence and status changes for its
  requirements (\<open>Requirement_Ledger\<close>), judged by the transition policy (\<open>Transition_Policy\<close>) and by
  contexts minted from a registry of principals (\<open>Trusted_Context\<close>); a summary gives the verdict on
  completion (\<open>Ledger_Summary\<close>).  The execution state machine (\<open>Execution_Machine\<close>) takes the
  mission from DRAFT to COMPLETED; its completion command consults the readiness gate
  (\<open>Completion_Criteria\<close>).  The continuation scheduler (\<open>Continuation_Scheduler\<close>) serializes the
  model turns of an execution.  The mission engine is a second, independent subsystem: a graph of
  objectives (\<open>Mission_Graph\<close>) whose objectives are started, completed and failed
  (\<open>Mission_Engine\<close>) under approvals, blockers, leases and budgets, planned in waves
  (\<open>Mission_Schedule\<close>), confirmed by integration transactions (\<open>Mission_Integration\<close>) and stored
  (\<open>Mission_Store\<close>).  
  The agent loop (\<open>Agent_Loop\<close>) sends the messages of a conversation to a model after the transcript
  validator has accepted them (\<open>Transcript_Validation\<close>), runs the tool calls of the answer, one after
  another or by the tool scheduler (\<open>Tool_Scheduler\<close>), and reports events from which the agent object
  (\<open>Agent_State\<close>) builds its own copy of the conversation.  Repeated calls are stopped by the storm
  breaker (\<open>Storm_Breaker\<close>); what a run consumes is charged to the budget ledger (\<open>Budget_Ledger\<close>).
  A session (\<open>Session_Model\<close>) stores the messages as a tree of entries in a file; the path to its leaf
  is the conversation (\<open>Session_Context\<close>), repaired before it is handed to the agent again.  When a
  conversation grows too long, compaction (\<open>Session_Compaction\<close>) replaces its beginning by a summary; when the
  user moves to another place of the tree, the abandoned branch is summarized (\<open>Branch_Summary\<close>).  The session
  runs both (\<open>Session_Commands\<close>) and decides how to go on when an answer fails (\<open>Session_Recovery\<close>).

  \<^bold>\<open>Shared theories.\<close>  \<open>Prelude\<close>: pieces of JavaScript, validators as \<open>'e option\<close>, generic lemmas.
  \<open>Dependency_Graph\<close>: Kahn's algorithm with the locale \<open>kahn_sorter\<close>, interpreted on the two cycle
  checks of the contract schema and on the topological order of the mission graph.
  \<open>Depth_First\<close>: the cycle search of \<open>mission/graph.ts\<close>.  \<open>Versioned_Log\<close>: the locale
  \<open>versioned_log\<close> of commands that name a revision, interpreted on the ledger and the execution
  machine, and the locale \<open>idempotent_log\<close> of commands answered from a log,
  interpreted on the continuation scheduler.

  \<^bold>\<open>Theories and sources.\<close>
  \<^item> \<open>Json_Values\<close>, \<open>Json_Injective\<close>: \<open>canonical-json.ts\<close> and the serializer of \<open>tool-call/canonicalize.ts\<close>; the canonical text determines the value up
    to the order of object members.
  \<^item> \<open>Contract_Model\<close>, \<open>Contract_Digest\<close>, \<open>Digest_Binding\<close>: \<open>types.ts\<close>, \<open>domain-types.ts\<close>,
    \<open>contract-digest.ts\<close>; which contracts share a digest.
  \<^item> \<open>Contract_Schema\<close>, \<open>Contract_Claims\<close>: \<open>mission-contract-schema.ts\<close> on arbitrary JSON documents with
    the messages it returns; accepted contracts are well-formed, the cycle checks are exact.
  \<^item> \<open>Trusted_Context\<close>: \<open>trusted-context.ts\<close>.  \<open>Transition_Policy\<close>: \<open>transition-policy.ts\<close>.
  \<^item> \<open>Requirement_Ledger\<close>, \<open>Ledger_Invariants\<close>, \<open>Ledger_Trust\<close>, \<open>Ledger_Summary\<close>, \<open>Ledger_Scenario\<close>,
    \<open>Ledger_Findings\<close>: \<open>requirement-ledger.ts\<close>, \<open>ledger-summary.ts\<close>, \<open>ledger-reducer.ts\<close>; reachable
    ledgers are valid, a requirement becomes SATISFIED only on authoritative evidence, and what the
    validation overlooks.
  \<^item> \<open>Completion_Criteria\<close>: \<open>adaptive/criteria.ts\<close>, \<open>adaptive/readiness.ts\<close>.
  \<^item> \<open>Execution_Machine\<close>, \<open>Execution_Replay\<close>, \<open>Execution_Properties\<close>, \<open>Execution_Claims\<close>:
    \<open>execution-state-machine.ts\<close>; what the machine writes the validation accepts, completion is
    authorized, and where stored records are not checked.
  \<^item> \<open>Continuation_Scheduler\<close>, \<open>Scheduler_Replay\<close>, \<open>Scheduler_Properties\<close>, \<open>Scheduler_Claims\<close>,
    \<open>Scheduler_History\<close>: \<open>continuation-scheduler.ts\<close>; refinement of an abstract
    cycle machine, idempotent retries, what the digests bind.
  \<^item> \<open>Mission_Model\<close>, \<open>Mission_Graph\<close>, \<open>Mission_Graph_Facts\<close>, \<open>Mission_Critical_Path\<close>: \<open>mission/types.ts\<close>,
    \<open>mission/graph.ts\<close>; validation, order and critical path are correct.
  \<^item> \<open>Mission_Engine\<close>, \<open>Mission_Claims\<close>: \<open>mission/engine.ts\<close>, \<open>mission/approval.ts\<close>;
    when an objective starts, what every run of a mission keeps, that a mission does not get stuck.
  \<^item> \<open>Mission_Schedule\<close>: \<open>mission/scheduler.ts\<close>.  \<open>Mission_Integration\<close>: \<open>mission/integration.ts\<close>,
    \<open>mission/contract.ts\<close>.  \<open>Mission_Store\<close>: the leases, events and recovery records of
    \<open>mission/store.ts\<close>.
  \<^item> \<open>Tool_Scheduler\<close>, \<open>Tool_Pool\<close>, \<open>Tool_Batch\<close>: \<open>scheduler.ts\<close> of the agent package;
    waves, the worker pool as a step relation with bounded concurrency, one result per call in order.
  \<^item> \<open>Transcript_Validation\<close>, \<open>Transcript_Pairing\<close>, \<open>Transcript_Claims\<close>: \<open>transcript-validation.ts\<close>; the
    validator accepts exactly the transcripts of a pairing relation, shown over an automaton.
  \<^item> \<open>Agent_Messages\<close>: the message types of \<open>packages/ai/src/types.ts\<close>, \<open>core/messages.ts\<close>.
    \<open>Agent_Loop\<close>, \<open>Agent_State\<close>, \<open>Agent_Facts\<close>, \<open>Agent_Turns\<close>, \<open>Agent_Runs\<close>, \<open>Agent_Claims\<close>:
    \<open>agent-loop.ts\<close>, \<open>agent.ts\<close>; the agent mirrors the loop, every context sent is a valid transcript,
    runs end, and where a run leaves a transcript that is refused for ever.
  \<^item> \<open>Storm_Breaker\<close>, \<open>Storm_Claims\<close>:
    \<open>storm/breaker.ts\<close>, \<open>storm/fingerprint.ts\<close>; escalation by exact counts.
  \<^item> \<open>Budget_Ledger\<close>, \<open>Budget_Claims\<close>: \<open>adaptive/budget-ledger.ts\<close>, \<open>adaptive/subagents.ts\<close>.

  \<^item> \<open>Session_Memory\<close>: \<open>core/memory.ts\<close>, \<open>core/snapshot-selector-resolver.ts\<close>.
    \<open>Session_Model\<close>, \<open>Session_Tree\<close>, \<open>Session_Facts\<close>, \<open>Session_Stored\<close>, \<open>Session_Claims\<close>, \<open>Session_Branching\<close>:
    \<open>core/session-manager.ts\<close>; entries form a tree that only grows, a stored session is read back with its values
    as JSON keeps them, what the extraction of a branch and an early file lose.  \<open>Session_Context\<close>, \<open>Session_Restore\<close>:
    \<open>buildSessionContext\<close>; exactly when a restored conversation is accepted again.
  \<^item> \<open>Compaction_Text\<close>, \<open>Session_Compaction\<close>, \<open>Compaction_Facts\<close>, \<open>Compaction_Context\<close>,
    \<open>Compaction_Claims\<close>: \<open>core/compaction/utils.ts\<close>, \<open>core/compaction/compaction.ts\<close>,
    \<open>toCanonicalContextJson\<close>; a compaction splits the messages since the last one into summarized and
    kept, the kept transcript stays valid, and what the next compaction drops.  \<open>Compaction_Summary\<close>,
    \<open>Compaction_Budget\<close>: the prompts and \<open>compact\<close>; where the cut lies, what is stored for the next
    compaction, and the summary that a split turn loses.
  \<^item> \<open>Branch_Summary\<close>, \<open>Branch_Claims\<close>: \<open>core/compaction/branch-summarization.ts\<close>; the entries behind the
    point where two paths part, and the newest messages that fit the budget.
  \<^item> \<open>Session_Commands\<close>, \<open>Session_Command_Claims\<close>: \<open>navigateTree\<close> and \<open>compact\<close> of \<open>core/agent-session.ts\<close>; they keep
    every entry and leave the agent with the context of the new leaf (the agent is taken to be idle: its abort
    before a compaction and the event \<open>session_compact\<close> after it are left out).  \<open>Session_Recovery\<close>,
    \<open>Recovery_Claims\<close>: the error patterns (\<open>ai/src/utils/overflow.ts\<close>), retries, fallback models and automatic
    compaction of \<open>agent-session.ts\<close>; how often they go on by themselves, and when \<open>prompt\<close> waits for ever.
    Ended answers and changes of the model are recorded in the session; the thinking level, which a change of model clamps
    again, is left out.

  \<^bold>\<open>Conventions.\<close>  A result object is a sum: \<open>Inl\<close> an error code (the error texts of the
  operations are left out, those of the validators are kept), \<open>Inr\<close> the value.  A thrown TypeError
  is a value of its own (\<open>Contract_Schema\<close>, \<open>Me_THROWS\<close>).  Optional fields are options, records
  keyed by strings partial maps, sets in insertion order duplicate-free lists.  Strings are lists of
  characters compared by code unit.  A number that a caller supplies is a \<open>js_number\<close> where the code
  tests it, otherwise an \<open>int\<close>.  Time is a parameter; where the code reads the clock itself the
  parameter is called \<open>clock\<close>.

  \<^bold>\<open>Parameters and hypotheses.\<close>  SHA-256 is a function \<open>sha\<close>; theorems about digests assume or
  exclude a collision on the strings hashed, never injectivity at large.  What a tool call returns or
  throws, when its signal is aborted and how the workers interleave is arbitrary.  Tools, hooks, the
  conversion for the model and the queues are fields of the configuration of the agent loop, what the
  model streams is the input of a turn; a theorem that needs the conversion to be the program's own says
  so.

  \<^bold>\<open>Bounds and fuel.\<close>  Kahn's loop has one unit of fuel per key (every key enters the queue at most
  once); the depth-first search one per node and one more (a branch never repeats a node); the critical
  path search one per objective and one more, enough on acyclic graphs, while on a cycle the source
  recurses for ever and the model returns None for any fuel; the planning loop one per remaining
  objective and one more (every pass plans an objective or is the last).  Revisions are safe integers
  up to 2^53 - 1; execution histories are coerced to 32 bits, which \<open>revision_wraps\<close> shows to matter.

  \<^bold>\<open>Not modelled.\<close>  File and process access, the text of stored files (a line is the value that JSON reads from it), command lines and printing
  (\<open>cli.ts\<close>, \<open>repository.ts\<close>, the document file of \<open>mission/store.ts\<close>); the model providers, which
  drive network streams; tools, modes, extensions and user interfaces; time stamps and cache diagnostics
  of messages.  Of sessions: the nested tree for display, the listing and search of files, the digest
  stored with an entry; of \<open>agent-session.ts\<close> the expansion of prompts, extensions, tools, delegation and
  settings.  The rest of \<open>adaptive\<close>, the safety, routing and reliability subsystems.
\<close>

end
